(* ===== verification/Prelude.thy ===== *)
theory Prelude
  imports Complex_Main "HOL-Library.AList" "HOL-Library.List_Lexorder" "HOL-Library.Char_ord"
begin

text \<open>
  Shared vocabulary of the development: message values, error plumbing, association lists
  that stand for Go maps, the iteration order of a Go map, and the interface of a state
  machine with an invariant.

  Conventions used by every theory.
  \<^item> A Go \<open>string\<close> is a list of bytes, Isabelle's \<open>string\<close>; \<open>len(s)\<close> is \<open>length s\<close> and \<open><\<close>
    is the bytewise lexicographic order.
  \<^item> A Go \<open>error\<close> result is \<open>'e option\<close>: \<open>None\<close> is the nil error. A function that returns
    a value or an error returns \<open>'e + 'a\<close>, with \<open>Inl\<close> the error.
  \<^item> A text built by \<open>fmt.Sprintf\<close> is kept unrendered: its format string and its arguments.
  \<^item> A Go map that is ranged over is an association list with distinct keys; a map that is
    only read and written by key is a HOL function.
\<close>

named_theorems step_simps "unfolding rules of the operations, for case analysis of a step"
named_theorems inv_intros "preservation of component invariants by operations"

subsection \<open>Messages\<close>

datatype msg = Msg string "msg_arg list"
  and msg_arg = AS string | AI int | AR rat | AL "string list" | AM msg

definition plain :: "string \<Rightarrow> msg" where
  "plain s = Msg s []"

subsection \<open>Error plumbing\<close>

fun first_err :: "('a \<Rightarrow> 'e option) \<Rightarrow> 'a list \<Rightarrow> 'e option" where
  "first_err f [] = None"
| "first_err f (x # xs) = (case f x of Some e \<Rightarrow> Some e | None \<Rightarrow> first_err f xs)"

definition err_then :: "'e option \<Rightarrow> 'e option \<Rightarrow> 'e option" where
  "err_then a b = (case a of Some e \<Rightarrow> Some e | None \<Rightarrow> b)"

definition require :: "bool \<Rightarrow> 'e \<Rightarrow> 'e option" where
  "require ok e = (if ok then None else Some e)"

fun bind_res :: "('e + 'a) \<Rightarrow> ('a \<Rightarrow> 'e + 'b) \<Rightarrow> 'e + 'b" where
  "bind_res (Inl e) f = Inl e"
| "bind_res (Inr x) f = f x"

definition guard_res :: "'e option \<Rightarrow> ('e + 'a) \<Rightarrow> 'e + 'a" where
  "guard_res c r = (case c of Some e \<Rightarrow> Inl e | None \<Rightarrow> r)"

lemma first_err_None [simp]: "first_err f xs = None \<longleftrightarrow> (\<forall>x\<in>set xs. f x = None)"
  by (induction xs) (auto split: option.splits)

lemma err_then_None [simp]: "err_then a b = None \<longleftrightarrow> a = None \<and> b = None"
  by (auto simp: err_then_def split: option.splits)

lemma err_then_simps [simp]: "err_then None b = b" "err_then (Some e) b = Some e"
  by (auto simp: err_then_def)

lemma require_None [simp]: "require ok e = None \<longleftrightarrow> ok"
  by (simp add: require_def)

lemma require_simps [simp]: "require True e = None" "require False e = Some e"
  by (simp_all add: require_def)

lemma guard_res_Inr [simp]: "guard_res c r = Inr x \<longleftrightarrow> c = None \<and> r = Inr x"
  by (auto simp: guard_res_def split: option.splits)

lemma guard_res_simps [simp]: "guard_res None r = r" "guard_res (Some e) r = Inl e"
  by (simp_all add: guard_res_def)

lemma bind_res_Inr: "bind_res r f = Inr y \<longleftrightarrow> (\<exists>x. r = Inr x \<and> f x = Inr y)"
  by (cases r) auto

text \<open>A loop that threads an accumulator and stops at the first error.\<close>

fun fold_res :: "('a \<Rightarrow> 's \<Rightarrow> 'e + 's) \<Rightarrow> 'a list \<Rightarrow> 's \<Rightarrow> 'e + 's" where
  "fold_res f [] s = Inr s"
| "fold_res f (x # xs) s = bind_res (f x s) (fold_res f xs)"

lemma fold_res_append:
  "fold_res f (xs @ ys) s = bind_res (fold_res f xs s) (fold_res f ys)"
proof (induction xs arbitrary: s)
  case (Cons x xs)
  then show ?case by (cases "f x s") auto
qed simp

lemma fold_res_inv:
  assumes "fold_res f xs s = Inr s'" and "I s"
    and "\<And>x s s'. x \<in> set xs \<Longrightarrow> I s \<Longrightarrow> f x s = Inr s' \<Longrightarrow> I s'"
  shows "I s'"
  using assms
proof (induction xs arbitrary: s)
  case (Cons x xs)
  from Cons.prems(1) obtain t where t: "f x s = Inr t" "fold_res f xs t = Inr s'"
    by (auto simp: bind_res_Inr)
  have "I t" using Cons.prems(2,3) t(1) by auto
  then show ?case using Cons.IH [OF t(2)] Cons.prems(3) by auto
qed simp

text \<open>Two loops over the same list that stay related step by step.\<close>

lemma fold_res_rel:
  assumes "fold_res f xs s = Inr s'" and "fold_res g xs t = Inr t'" and "R s t"
    and "\<And>x s t s' t'. x \<in> set xs \<Longrightarrow> R s t \<Longrightarrow> f x s = Inr s' \<Longrightarrow> g x t = Inr t' \<Longrightarrow> R s' t'"
  shows "R s' t'"
  using assms
proof (induction xs arbitrary: s t)
  case (Cons x xs)
  from Cons.prems(1,2) obtain a b where
    a: "f x s = Inr a" "fold_res f xs a = Inr s'" and b: "g x t = Inr b" "fold_res g xs b = Inr t'"
    by (auto simp: bind_res_Inr)
  have "R a b" using Cons.prems(3) a(1) b(1) by (rule Cons.prems(4) [of x s t, rotated 1]) simp
  with a(2) b(2) show ?case
    by (rule Cons.IH) (rule Cons.prems(4), auto)
qed simp

subsection \<open>Association lists as Go maps\<close>

lemma dom_map_of [simp]: "dom (map_of al) = fst ` set al"
  by (rule dom_map_of_conv_image_fst)

lemma map_of_update: "map_of (AList.update k v al) = (map_of al)(k \<mapsto> v)"
  by (rule update_conv')

lemma keys_update: "fst ` set (AList.update k v al) = insert k (fst ` set al)"
proof -
  have "dom (map_of (AList.update k v al)) = insert k (dom (map_of al))"
    by (simp add: map_of_update del: dom_map_of)
  then show ?thesis by simp
qed

subsection \<open>Texts with a terminator\<close>

text \<open>Keys and hash inputs are built from parts that are separated or terminated by a zero byte.\<close>

definition nul_free :: "string \<Rightarrow> bool" where
  "nul_free s \<longleftrightarrow> char_of (0 :: nat) \<notin> set s"

lemma terminated_inject:
  "nul_free p \<Longrightarrow> nul_free q \<Longrightarrow> p @ char_of (0 :: nat) # xs = q @ char_of (0 :: nat) # ys \<Longrightarrow> p = q \<and> xs = ys"
proof (induction p arbitrary: q)
  case Nil
  then show ?case by (cases q) (auto simp: nul_free_def)
next
  case (Cons c p)
  then show ?case by (cases q) (auto simp: nul_free_def)
qed

subsection \<open>Iteration order of a Go map\<close>

text \<open>
  \<open>for k := range m\<close> visits the keys in an order the runtime chooses. The order is a
  parameter: a function that permutes the list of keys.
\<close>

type_synonym 'a range_order = "'a list \<Rightarrow> 'a list"

definition is_range :: "'a range_order \<Rightarrow> bool" where
  "is_range r \<longleftrightarrow> (\<forall>xs. set (r xs) = set xs)"

lemma is_range_id [simp]: "is_range (\<lambda>xs. xs)" "is_range id"
  by (simp_all add: is_range_def)

lemma is_range_rev [simp]: "is_range rev"
  by (simp add: is_range_def)

lemma is_rangeD: "is_range r \<Longrightarrow> set (r xs) = set xs"
  by (simp add: is_range_def)

subsection \<open>State machines\<close>

text \<open>
  The interface of every stateful component: events drive a total step function and an
  invariant is kept. Clients get the invariant of whole runs from the one-step law.
\<close>

locale state_machine =
  fixes step :: "'ev \<Rightarrow> 's \<Rightarrow> 's"
    and inv :: "'s \<Rightarrow> bool"
  assumes step_inv: "inv s \<Longrightarrow> inv (step e s)"
begin

lemma run_inv: "inv s \<Longrightarrow> inv (fold step es s)"
  by (induction es arbitrary: s) (auto simp: step_inv)

lemma run_prefix_inv: "inv s \<Longrightarrow> inv (fold step (take n es) s)"
  by (rule run_inv)

end

text \<open>A machine with a measure that no step decreases, for monotone quantities.\<close>

locale monotone_machine = state_machine +
  fixes rel :: "'s \<Rightarrow> 's \<Rightarrow> bool"
  assumes rel_refl: "rel s s"
    and rel_trans: "rel s t \<Longrightarrow> rel t u \<Longrightarrow> rel s u"
    and step_rel: "inv s \<Longrightarrow> rel s (step e s)"
begin

lemma run_rel: "inv s \<Longrightarrow> rel s (fold step es s)"
proof (induction es arbitrary: s)
  case Nil
  show ?case by (simp add: rel_refl)
next
  case (Cons e es)
  have "rel s (step e s)" "rel (step e s) (fold step es (step e s))"
    using Cons step_inv step_rel by auto
  then show ?case by (auto intro: rel_trans)
qed

end

end
