(* ===== verification/SupTypes.thy ===== *)
theory SupTypes
  imports Prelude
begin

text \<open>
  The domain types of the supervisor layer (\<open>internal/supervisor/types.go\<close>,
  \<open>internal/supervisor/errors.go\<close>): tasks, task graphs, the closed set of proposals a
  supervisor may emit, the snapshot handed to it, Core's limits and the typed errors.
  Costs (Go \<open>float64\<close>) are rationals: they are only compared and truncated here.
\<close>

type_synonym task_id = string
type_synonym agent_id = string

definition SupervisorAgentID :: agent_id where
  "SupervisorAgentID = ''supervisor''"

datatype task_status =
    StEmpty
  | StPending
  | StAssigned
  | StExecuting
  | StCompleted
  | StFailed
  | StOther string

fun status_string :: "task_status \<Rightarrow> string" where
  "status_string StEmpty = []"
| "status_string StPending = ''pending''"
| "status_string StAssigned = ''assigned''"
| "status_string StExecuting = ''executing''"
| "status_string StCompleted = ''completed''"
| "status_string StFailed = ''failed''"
| "status_string (StOther s) = s"

record task =
  tID :: task_id
  tType :: string
  tCaps :: "string list"
  tDeps :: "task_id list"
  tRisk :: string
  tTenant :: string
  tStatus :: task_status
  tCost :: rat
  tLocked :: bool

type_synonym task_graph = "task list"

fun byID :: "task_graph \<Rightarrow> task_id \<Rightarrow> task option" where
  "byID [] i = None"
| "byID (t # ts) i = (if tID t = i then Some t else byID ts i)"

type_synonym rationale = string

definition MaxRationaleLength :: int where
  "MaxRationaleLength = 500"

datatype proposal_type =
    ProposalCreateTask
  | ProposalAssignTask
  | ProposalRequestReview
  | ProposalRequestEvidence
  | ProposalRetryTask
  | ProposalReplan
  | ProposalSynthesize
  | ProposalEscalate
  | ProposalOther string

text \<open>
  The interface value \<open>AgentProposal\<close>: one of the package's eight structs, the nil
  interface, or a value of a type declared elsewhere with a \<open>ProposalType\<close> method.
\<close>

datatype proposal =
    CreateTask task rationale
  | AssignTask task_id agent_id "string list" rationale
  | RequestReview task_id agent_id rationale
  | RequestEvidence task_id agent_id rationale
  | RetryTask task_id rationale
  | Replan "task list" "task list" rationale
  | Synthesize "task_id list" string rationale
  | Escalate task_id string rationale
  | NilProposal
  | ForeignProposal proposal_type

fun proposalType :: "proposal \<Rightarrow> proposal_type" where
  "proposalType (CreateTask _ _) = ProposalCreateTask"
| "proposalType (AssignTask _ _ _ _) = ProposalAssignTask"
| "proposalType (RequestReview _ _ _) = ProposalRequestReview"
| "proposalType (RequestEvidence _ _ _) = ProposalRequestEvidence"
| "proposalType (RetryTask _ _) = ProposalRetryTask"
| "proposalType (Replan _ _ _) = ProposalReplan"
| "proposalType (Synthesize _ _ _) = ProposalSynthesize"
| "proposalType (Escalate _ _ _) = ProposalEscalate"
| "proposalType NilProposal = ProposalOther []"
| "proposalType (ForeignProposal p) = p"

fun knownProposalTypes :: "proposal_type \<Rightarrow> bool" where
  "knownProposalTypes (ProposalOther _) = False"
| "knownProposalTypes _ = True"

record execution_state =
  esTasks :: task_graph
  esReplanCount :: int
  esReviewRounds :: int
  esAssignments :: "task_id \<Rightarrow> agent_id option"

datatype event_kind =
    EventAgentFailed | EventModelUnavailable | EventNewFinding | EventMissingEvidence
  | EventTestRegression | EventPolicyRejection | EventAgentDisagreement | EventDependencyBlocked
  | EventTaskReady | EventTaskAssigned | EventTaskStarted | EventTaskSucceeded | EventTaskFailed
  | EventFindingProduced | EventExecutionTimedOut | EventAgentUnavailable
  | EventAuthorizationRejected | EventTaskBlocked
  | EventAdvisorShadowRecommendation | EventAdvisorySelection | EventAdvisorFallback
  | EventAdvisorFailure | EventChallengerAdmitted

record execution_event =
  evKind :: event_kind
  evTaskID :: task_id
  evDetail :: msg

record supervisor_limits =
  MaxTaskDepth :: int
  MaxAgentFanout :: int
  MaxReplanCount :: int
  MaxReviewRounds :: int
  MaxExecutionTime :: int
  MaxCost :: rat
  MaxConcurrency :: int
  MaxWorkflowTicks :: int

text \<open>Durations are in nanoseconds, as \<open>time.Duration\<close> counts them.\<close>

definition DefaultSupervisorLimits :: supervisor_limits where
  "DefaultSupervisorLimits =
     \<lparr>MaxTaskDepth = 8, MaxAgentFanout = 16, MaxReplanCount = 5, MaxReviewRounds = 3,
      MaxExecutionTime = 30 * 60 * 1000000000, MaxCost = 0, MaxConcurrency = 4,
      MaxWorkflowTicks = 50\<rparr>"

record model_usage_ref =
  muRouteID :: string
  muProvider :: string
  muModel :: string
  muCount :: int

record execution_result =
  erTaskID :: task_id
  erExecutionID :: string
  erStatus :: task_status
  erSummary :: string
  erFindings :: "string list"
  erModelUsages :: "model_usage_ref list"

subsection \<open>Typed errors\<close>

datatype sup_error =
    ProposalValidationFailure int msg
  | UnknownTaskError task_id
  | UnknownAgentError agent_id
  | UnknownCapabilityError string
  | CapabilityMismatchError agent_id "string list"
  | DependencyCycleError "task_id list"
  | SelfAssignmentForbiddenError agent_id task_id msg
  | PolicyDowngradeForbiddenError string msg
  | GuardrailExceededError string int int
  | ReplanLimitExceeded int int
  | PolicyRejection int msg
  | AuthorizationFailure agent_id task_id msg
  | StateTransitionFailure task_id msg
  | AgentRoutingFailure agent_id task_id msg
  | AgentExecutionFailure agent_id task_id msg
  | ExecutionTimeout task_id int
  | ModelRoutingFailure string msg
  | InferenceFailure string msg
  | StructuredOutputDecodeFailure string msg
  | StructuredOutputSchemaFailure string msg
  | SupervisorResponseTooLarge int int
  | SupervisorContextTooLarge int int
  | TaskSchedulingFailure task_id msg
  | DependencyBlocked task_id task_id
  | WorkflowLimitExceeded string int int
  | RationaleTooLongError int int
  | WrappedError msg sup_error
  | ForeignError msg

text \<open>
  \<open>WrappedError m e\<close> is \<open>fmt.Errorf("...: %w", e)\<close>, with \<open>m\<close> the text before the wrapped
  error; \<open>ForeignError\<close> is an error value of code outside the package (a persistence hook,
  an execution provider, a catalog).
\<close>

datatype failure_class =
    FailureClassProposalValidation
  | FailureClassPolicyRejection
  | FailureClassUnauthorized
  | FailureClassReplanLimit
  | FailureClassGuardrail
  | FailureClassAuthorization
  | FailureClassStateTransition
  | FailureClassAgentRouting
  | FailureClassAgentExecution
  | FailureClassExecutionTimeout
  | FailureClassModelRouting
  | FailureClassInference
  | FailureClassDecode
  | FailureClassSchema
  | FailureClassResponseTooLarge
  | FailureClassContextTooLarge
  | FailureClassTaskScheduling
  | FailureClassDependencyBlocked
  | FailureClassWorkflowLimit

text \<open>The \<open>Class\<close> methods; an error without one has no class.\<close>

fun sup_error_class :: "sup_error \<Rightarrow> failure_class option" where
  "sup_error_class (ProposalValidationFailure _ _) = Some FailureClassProposalValidation"
| "sup_error_class (UnknownTaskError _) = Some FailureClassProposalValidation"
| "sup_error_class (UnknownAgentError _) = Some FailureClassProposalValidation"
| "sup_error_class (UnknownCapabilityError _) = Some FailureClassProposalValidation"
| "sup_error_class (CapabilityMismatchError _ _) = Some FailureClassUnauthorized"
| "sup_error_class (DependencyCycleError _) = Some FailureClassProposalValidation"
| "sup_error_class (SelfAssignmentForbiddenError _ _ _) = Some FailureClassUnauthorized"
| "sup_error_class (PolicyDowngradeForbiddenError _ _) = Some FailureClassPolicyRejection"
| "sup_error_class (GuardrailExceededError _ _ _) = Some FailureClassGuardrail"
| "sup_error_class (ReplanLimitExceeded _ _) = Some FailureClassReplanLimit"
| "sup_error_class (PolicyRejection _ _) = Some FailureClassPolicyRejection"
| "sup_error_class (AuthorizationFailure _ _ _) = Some FailureClassAuthorization"
| "sup_error_class (StateTransitionFailure _ _) = Some FailureClassStateTransition"
| "sup_error_class (AgentRoutingFailure _ _ _) = Some FailureClassAgentRouting"
| "sup_error_class (AgentExecutionFailure _ _ _) = Some FailureClassAgentExecution"
| "sup_error_class (ExecutionTimeout _ _) = Some FailureClassExecutionTimeout"
| "sup_error_class (ModelRoutingFailure _ _) = Some FailureClassModelRouting"
| "sup_error_class (InferenceFailure _ _) = Some FailureClassInference"
| "sup_error_class (StructuredOutputDecodeFailure _ _) = Some FailureClassDecode"
| "sup_error_class (StructuredOutputSchemaFailure _ _) = Some FailureClassSchema"
| "sup_error_class (SupervisorResponseTooLarge _ _) = Some FailureClassResponseTooLarge"
| "sup_error_class (SupervisorContextTooLarge _ _) = Some FailureClassContextTooLarge"
| "sup_error_class (TaskSchedulingFailure _ _) = Some FailureClassTaskScheduling"
| "sup_error_class (DependencyBlocked _ _) = Some FailureClassDependencyBlocked"
| "sup_error_class (WorkflowLimitExceeded _ _ _) = Some FailureClassWorkflowLimit"
| "sup_error_class (RationaleTooLongError _ _) = Some FailureClassProposalValidation"
| "sup_error_class (WrappedError _ _) = None"
| "sup_error_class (ForeignError _) = None"

text \<open>The \<open>Error\<close> methods.\<close>

fun sup_error_text :: "sup_error \<Rightarrow> msg" where
  "sup_error_text (ProposalValidationFailure i m) =
     Msg ''proposal validation failure at index %d: %s'' [AI i, AM m]"
| "sup_error_text (UnknownTaskError t) = Msg ''unknown task %q'' [AS t]"
| "sup_error_text (UnknownAgentError a) = Msg ''unknown agent %q'' [AS a]"
| "sup_error_text (UnknownCapabilityError c) = Msg ''unknown capability %q'' [AS c]"
| "sup_error_text (CapabilityMismatchError a cs) =
     Msg ''agent %q is missing required capabilities: %v'' [AS a, AL cs]"
| "sup_error_text (DependencyCycleError ts) = Msg ''dependency cycle detected: %v'' [AL ts]"
| "sup_error_text (SelfAssignmentForbiddenError a t m) =
     Msg ''self-assignment forbidden for agent %q on task %q: %s'' [AS a, AS t, AM m]"
| "sup_error_text (PolicyDowngradeForbiddenError t m) =
     Msg ''policy downgrade forbidden on task %q: %s'' [AS t, AM m]"
| "sup_error_text (GuardrailExceededError g l a) =
     Msg ''guardrail %q exceeded: limit=%d actual=%d'' [AS g, AI l, AI a]"
| "sup_error_text (ReplanLimitExceeded l a) =
     Msg ''replan limit exceeded: limit=%d actual=%d'' [AI l, AI a]"
| "sup_error_text (PolicyRejection i m) =
     Msg ''policy rejection at proposal %d: %s'' [AI i, AM m]"
| "sup_error_text (AuthorizationFailure a t m) =
     Msg ''authorization failure for agent %q on task %q: %s'' [AS a, AS t, AM m]"
| "sup_error_text (StateTransitionFailure t m) =
     Msg ''state transition failure on task %q: %s'' [AS t, AM m]"
| "sup_error_text (AgentRoutingFailure a t m) =
     Msg ''agent routing failure for agent %q on task %q: %s'' [AS a, AS t, AM m]"
| "sup_error_text (AgentExecutionFailure a t m) =
     Msg ''agent execution failure for agent %q on task %q: %s'' [AS a, AS t, AM m]"
| "sup_error_text (ExecutionTimeout t l) =
     Msg ''execution of task %q exceeded max execution time %s'' [AS t, AI l]"
| "sup_error_text (ModelRoutingFailure s m) =
     Msg ''model routing failure for stage %q: %s'' [AS s, AM m]"
| "sup_error_text (InferenceFailure s m) =
     Msg ''inference failure for stage %q: %s'' [AS s, AM m]"
| "sup_error_text (StructuredOutputDecodeFailure s m) =
     Msg ''structured output decode failure for stage %q: %s'' [AS s, AM m]"
| "sup_error_text (StructuredOutputSchemaFailure s m) =
     Msg ''structured output schema failure for stage %q: %s'' [AS s, AM m]"
| "sup_error_text (SupervisorResponseTooLarge n l) =
     Msg ''supervisor response too large: %d > %d bytes'' [AI n, AI l]"
| "sup_error_text (SupervisorContextTooLarge n l) =
     Msg ''supervisor context too large: %d > %d bytes'' [AI n, AI l]"
| "sup_error_text (TaskSchedulingFailure t m) =
     Msg ''task scheduling failure for %q: %s'' [AS t, AM m]"
| "sup_error_text (DependencyBlocked t b) =
     Msg ''task %q blocked: dependency %q failed'' [AS t, AS b]"
| "sup_error_text (WorkflowLimitExceeded g l a) =
     Msg ''workflow guardrail %q exceeded: limit=%d actual=%d'' [AS g, AI l, AI a]"
| "sup_error_text (RationaleTooLongError l m) =
     Msg ''rationale summary too long: %d > %d'' [AI l, AI m]"
| "sup_error_text (WrappedError m e) = Msg ''%s: %w'' [AM m, AM (sup_error_text e)]"
| "sup_error_text (ForeignError m) = m"

text \<open>\<open>errors.As\<close>: the first error of the wrapping chain that the test accepts.\<close>

fun error_as :: "(sup_error \<Rightarrow> bool) \<Rightarrow> sup_error \<Rightarrow> bool" where
  "error_as P (WrappedError m e) = (P (WrappedError m e) \<or> error_as P e)"
| "error_as P e = P e"

fun is_policy_rejection :: "sup_error \<Rightarrow> bool" where
  "is_policy_rejection (PolicyRejection _ _) = True"
| "is_policy_rejection _ = False"

fun is_authorization_failure :: "sup_error \<Rightarrow> bool" where
  "is_authorization_failure (AuthorizationFailure _ _ _) = True"
| "is_authorization_failure _ = False"

fun is_agent_routing_failure :: "sup_error \<Rightarrow> bool" where
  "is_agent_routing_failure (AgentRoutingFailure _ _ _) = True"
| "is_agent_routing_failure _ = False"

fun is_execution_timeout :: "sup_error \<Rightarrow> bool" where
  "is_execution_timeout (ExecutionTimeout _ _) = True"
| "is_execution_timeout _ = False"

subsection \<open>Looking tasks up\<close>

lemma byID_Some: "byID g i = Some t \<Longrightarrow> t \<in> set g \<and> tID t = i"
  by (induction g) (auto split: if_splits)

lemma byID_None: "byID g i = None \<longleftrightarrow> i \<notin> tID ` set g"
  by (induction g) auto

lemma byID_outside [simp]: "i \<notin> tID ` set g \<Longrightarrow> byID g i = None"
  by (simp add: byID_None)

lemma byID_distinct:
  "distinct (map tID g) \<Longrightarrow> t \<in> set g \<Longrightarrow> byID g (tID t) = Some t"
  by (induction g) (auto simp: image_iff)

end
