(* ===== verification/DepGraph.thy ===== *)
theory DepGraph
  imports SupTypes
begin

text \<open>
  The dependency graph of a set of known tasks and the two graph algorithms of
  \<open>internal/supervisor/validate.go\<close>: \<open>findCycle\<close>, a three-colour depth-first search that
  returns the cycle it meets, and \<open>graphDepth\<close>, a memoised longest-chain computation.
  The reference notions are the relation \<open>dep_rel\<close>, its acyclicity and the chains of
  dependencies; both algorithms are shown to agree with them for every iteration order of
  the map of tasks.
\<close>

type_synonym task_map = "(task_id \<times> task) list"

definition deps_of :: "task_map \<Rightarrow> task_id \<Rightarrow> task_id list" where
  "deps_of ts i = (case map_of ts i of None \<Rightarrow> [] | Some t \<Rightarrow> tDeps t)"

definition dep_rel :: "task_map \<Rightarrow> (task_id \<times> task_id) set" where
  "dep_rel ts = {(a, b). b \<in> set (deps_of ts a)}"

lemma dep_rel_iff [simp]: "(a, b) \<in> dep_rel ts \<longleftrightarrow> b \<in> set (deps_of ts a)"
  by (simp add: dep_rel_def)

lemma deps_of_outside: "i \<notin> fst ` set ts \<Longrightarrow> deps_of ts i = []"
proof -
  assume "i \<notin> fst ` set ts"
  then have "map_of ts i = None" by (simp add: map_of_eq_None_iff)
  then show ?thesis by (simp add: deps_of_def)
qed

subsection \<open>findCycle\<close>

datatype colour = Unvisited | Visiting | Done

record dfs =
  dColour :: "task_id \<Rightarrow> colour"
  dPath :: "task_id list"

definition dfs_init :: dfs where
  "dfs_init = \<lparr>dColour = (\<lambda>_. Unvisited), dPath = []\<rparr>"

definition enter :: "task_id \<Rightarrow> dfs \<Rightarrow> dfs" where
  "enter i s = s\<lparr>dColour := (dColour s)(i := Visiting), dPath := dPath s @ [i]\<rparr>"

definition leave :: "task_id \<Rightarrow> dfs \<Rightarrow> dfs" where
  "leave i s = s\<lparr>dColour := (dColour s)(i := Done), dPath := butlast (dPath s)\<rparr>"

text \<open>The path from the first occurrence of the vertex, closed by the vertex itself.\<close>

definition cycle_at :: "task_id \<Rightarrow> task_id list \<Rightarrow> task_id list" where
  "cycle_at i p = (if i \<in> set p then dropWhile (\<lambda>x. x \<noteq> i) p else p) @ [i]"

function (sequential) visit :: "task_map \<Rightarrow> task_id \<Rightarrow> dfs \<Rightarrow> task_id list option \<times> dfs"
  and visit_deps :: "task_map \<Rightarrow> task_id list \<Rightarrow> dfs \<Rightarrow> task_id list option \<times> dfs"
where
  "visit ts i s =
     (case dColour s i of
        Visiting \<Rightarrow> (Some (cycle_at i (dPath s)), s)
      | Done \<Rightarrow> (None, s)
      | Unvisited \<Rightarrow>
          (case visit_deps ts (deps_of ts i) (enter i s) of
             (Some c, s') \<Rightarrow> (Some c, s')
           | (None, s') \<Rightarrow> (None, leave i s')))"
| "visit_deps ts [] s = (None, s)"
| "visit_deps ts (d # ds) s =
     (case visit ts d s of
        (Some c, s') \<Rightarrow> (Some c, s')
      | (None, s') \<Rightarrow> visit_deps ts ds s')"
  by pat_completeness auto

definition unvisited_keys :: "task_map \<Rightarrow> dfs \<Rightarrow> task_id set" where
  "unvisited_keys ts s = {k \<in> fst ` set ts. dColour s k = Unvisited}"

lemma finite_unvisited [simp]: "finite (unvisited_keys ts s)"
  by (simp add: unvisited_keys_def)

lemma enter_simps [simp]:
  "dColour (enter i s) = (dColour s)(i := Visiting)" "dPath (enter i s) = dPath s @ [i]"
  by (simp_all add: enter_def)

lemma leave_simps [simp]:
  "dColour (leave i s) = (dColour s)(i := Done)" "dPath (leave i s) = butlast (dPath s)"
  by (simp_all add: leave_def)

text \<open>A visit never resets a colour to unvisited: what makes the nested recursion end.\<close>

lemma visit_mono:
  "visit_visit_deps_dom (Inl (ts, i, s)) \<Longrightarrow>
     dColour s k \<noteq> Unvisited \<Longrightarrow> dColour (snd (visit ts i s)) k \<noteq> Unvisited"
  "visit_visit_deps_dom (Inr (ts, ds, s)) \<Longrightarrow>
     dColour s k \<noteq> Unvisited \<Longrightarrow> dColour (snd (visit_deps ts ds s)) k \<noteq> Unvisited"
proof (induction ts i s and ts ds s rule: visit_visit_deps.pinduct)
  case (1 ts i s)
  show ?case
  proof (cases "dColour s i")
    case Unvisited
    with 1 have "dColour (snd (visit_deps ts (deps_of ts i) (enter i s))) k \<noteq> Unvisited" by auto
    with Unvisited 1(1) show ?thesis
      by (auto simp: visit.psimps split: prod.split option.split)
  qed (use 1 in \<open>auto simp: visit.psimps\<close>)
next
  case (2 ts s)
  then show ?case by (simp add: visit_deps.psimps)
next
  case (3 ts d ds s)
  then show ?case
    by (cases "visit ts d s") (auto simp: visit_deps.psimps split: option.splits)
qed

termination visit
proof (relation "measures
    [\<lambda>x. case x of Inl (ts, i, s) \<Rightarrow> card (unvisited_keys ts s)
                 | Inr (ts, ds, s) \<Rightarrow> card (unvisited_keys ts s),
     \<lambda>x. case x of Inl _ \<Rightarrow> 1 | Inr (ts, ds, s) \<Rightarrow> 2 * length ds]", goal_cases)
  case 1
  show ?case by simp
next
  case (2 ts i s)
  show ?case
  proof (cases "i \<in> fst ` set ts")
    case True
    with 2 have "unvisited_keys ts (enter i s) \<subset> unvisited_keys ts s"
      by (auto simp: unvisited_keys_def)
    then have "card (unvisited_keys ts (enter i s)) < card (unvisited_keys ts s)"
      by (simp add: psubset_card_mono)
    then show ?thesis by simp
  next
    case False
    then have "unvisited_keys ts (enter i s) = unvisited_keys ts s" and "deps_of ts i = []"
      by (auto simp: unvisited_keys_def deps_of_outside)
    then show ?thesis by simp
  qed
next
  case (3 ts d ds s)
  show ?case by simp
next
  case (4 ts d ds s r s')
  then have "unvisited_keys ts s' \<subseteq> unvisited_keys ts s"
    using visit_mono(1) [of ts d s] by (auto simp: unvisited_keys_def) (metis snd_conv)
  then have "card (unvisited_keys ts s') \<le> card (unvisited_keys ts s)"
    by (simp add: card_mono)
  then show ?case by (auto simp: le_less)
qed


declare visit.simps [simp del] visit_deps.simps(2) [simp del]

text \<open>The outer loop: every key, in the map's iteration order, that is still unvisited.\<close>

fun cycle_loop :: "task_map \<Rightarrow> task_id list \<Rightarrow> dfs \<Rightarrow> task_id list option \<times> dfs" where
  "cycle_loop ts [] s = (None, s)"
| "cycle_loop ts (i # is) s =
     (if dColour s i = Unvisited
      then (case visit ts i s of
              (Some c, s') \<Rightarrow> (Some c, s')
            | (None, s') \<Rightarrow> cycle_loop ts is s')
      else cycle_loop ts is s)"

definition findCycle :: "task_id range_order \<Rightarrow> task_map \<Rightarrow> task_id list option" where
  "findCycle r ts = fst (cycle_loop ts (r (map fst ts)) dfs_init)"

text \<open>Reference notions: a chain follows dependencies; a cycle is a chain that comes back.\<close>

fun dep_chain :: "task_map \<Rightarrow> task_id list \<Rightarrow> bool" where
  "dep_chain ts [] = True"
| "dep_chain ts [x] = True"
| "dep_chain ts (x # y # zs) = (y \<in> set (deps_of ts x) \<and> dep_chain ts (y # zs))"

definition is_dep_cycle :: "task_map \<Rightarrow> task_id list \<Rightarrow> bool" where
  "is_dep_cycle ts c \<longleftrightarrow> 2 \<le> length c \<and> hd c = last c \<and> dep_chain ts c"

lemma dep_chain_Cons:
  "dep_chain ts (x # c) \<longleftrightarrow> (c \<noteq> [] \<longrightarrow> hd c \<in> set (deps_of ts x)) \<and> dep_chain ts c"
  by (cases c) auto

lemma dep_chain_append:
  "dep_chain ts (p @ q) \<longleftrightarrow>
     dep_chain ts p \<and> dep_chain ts q \<and> (p \<noteq> [] \<and> q \<noteq> [] \<longrightarrow> hd q \<in> set (deps_of ts (last p)))"
  by (induction p) (auto simp: dep_chain_Cons hd_append)

lemma dep_chain_rtrancl:
  "dep_chain ts c \<Longrightarrow> c \<noteq> [] \<Longrightarrow> (hd c, last c) \<in> (dep_rel ts)\<^sup>*"
proof (induction ts c rule: dep_chain.induct)
  case (3 ts x y zs)
  then have "(y, last (y # zs)) \<in> (dep_rel ts)\<^sup>*" by simp
  with 3 show ?case by (auto intro: converse_rtrancl_into_rtrancl)
qed auto

lemma is_dep_cycle_cyclic:
  assumes "is_dep_cycle ts c"
  shows "\<not> acyclic (dep_rel ts)"
proof -
  obtain x y zs where c: "c = x # y # zs"
    using assms by (cases c; cases "tl c") (auto simp: is_dep_cycle_def)
  with assms have "(x, y) \<in> dep_rel ts" "(y, x) \<in> (dep_rel ts)\<^sup>*"
    using dep_chain_rtrancl [of ts "y # zs"] by (auto simp: is_dep_cycle_def)
  then have "(x, x) \<in> (dep_rel ts)\<^sup>+" by (rule rtrancl_into_trancl2)
  then show ?thesis by (auto simp: acyclic_def)
qed

text \<open>Finished vertices: closed under dependencies and on no cycle.\<close>

definition done_ok :: "task_map \<Rightarrow> dfs \<Rightarrow> bool" where
  "done_ok ts s \<longleftrightarrow>
     (\<forall>a. dColour s a = Done \<longrightarrow>
        (\<forall>b \<in> set (deps_of ts a). dColour s b = Done) \<and> (a, a) \<notin> (dep_rel ts)\<^sup>+)"

definition colours_grow :: "dfs \<Rightarrow> dfs \<Rightarrow> bool" where
  "colours_grow s s' \<longleftrightarrow>
     (\<forall>k. (dColour s k = Done \<longrightarrow> dColour s' k = Done) \<and>
          (dColour s' k = Visiting \<longleftrightarrow> dColour s k = Visiting))"

lemma done_reach:
  assumes "done_ok ts s" and "dColour s a = Done" and "(a, b) \<in> (dep_rel ts)\<^sup>*"
  shows "dColour s b = Done"
  using assms(3,2) by (induction rule: rtrancl_induct) (use assms(1) in \<open>auto simp: done_ok_def\<close>)

lemma done_ok_leave:
  assumes ok: "done_ok ts s" and vis: "dColour s i = Visiting"
    and deps: "\<forall>d \<in> set (deps_of ts i). dColour s d = Done"
  shows "done_ok ts (leave i s)"
proof -
  have "(i, i) \<notin> (dep_rel ts)\<^sup>+"
  proof
    assume "(i, i) \<in> (dep_rel ts)\<^sup>+"
    then obtain b where "b \<in> set (deps_of ts i)" "(b, i) \<in> (dep_rel ts)\<^sup>*"
      by (auto dest: tranclD)
    with deps ok have "dColour s i = Done" by (blast intro: done_reach)
    with vis show False by simp
  qed
  with ok deps show ?thesis by (auto simp: done_ok_def)
qed

lemma visit_None:
  "visit ts i s = (None, s') \<Longrightarrow> done_ok ts s \<Longrightarrow>
     done_ok ts s' \<and> colours_grow s s' \<and> dColour s' i = Done"
  "visit_deps ts ds s = (None, s') \<Longrightarrow> done_ok ts s \<Longrightarrow>
     done_ok ts s' \<and> colours_grow s s' \<and> (\<forall>d \<in> set ds. dColour s' d = Done)"
proof (induction ts i s and ts ds s arbitrary: s' and s' rule: visit_visit_deps.induct)
  case (1 ts i s)
  show ?case
  proof (cases "dColour s i")
    case Unvisited
    with 1 obtain t where t: "visit_deps ts (deps_of ts i) (enter i s) = (None, t)"
      and s': "s' = leave i t"
      by (auto simp: visit.simps [of ts i s] split: prod.splits option.splits)
    have "done_ok ts (enter i s)" using 1(3) Unvisited by (auto simp: done_ok_def)
    with 1(1) [OF Unvisited t] have *: "done_ok ts t" "colours_grow (enter i s) t"
      "\<forall>d \<in> set (deps_of ts i). dColour t d = Done" by auto
    then have "dColour t i = Visiting" by (auto simp: colours_grow_def)
    with * Unvisited show ?thesis
      unfolding s' by (auto simp: colours_grow_def intro!: done_ok_leave)
  qed (use 1 in \<open>auto simp: visit.simps [of ts i s] colours_grow_def\<close>)
next
  case (2 ts s)
  then show ?case by (simp add: colours_grow_def)
next
  case (3 ts d ds s)
  then obtain t where t: "visit ts d s = (None, t)" "visit_deps ts ds t = (None, s')"
    by (auto simp: visit_deps.simps(2) [of ts d ds s] split: prod.splits option.splits)
  with 3 have "done_ok ts t" "colours_grow s t" "dColour t d = Done"
    "done_ok ts s'" "colours_grow t s'" "\<forall>d \<in> set ds. dColour s' d = Done" by auto
  then show ?case by (auto simp: colours_grow_def)
qed

lemma cycle_loop_None:
  "cycle_loop ts is s = (None, s') \<Longrightarrow> done_ok ts s \<Longrightarrow> (\<forall>k. dColour s k \<noteq> Visiting) \<Longrightarrow>
     done_ok ts s' \<and> colours_grow s s' \<and> (\<forall>i \<in> set is. dColour s' i = Done)"
proof (induction ts "is" s rule: cycle_loop.induct)
  case (2 ts i "is" s)
  show ?case
  proof (cases "dColour s i = Unvisited")
    case True
    with 2 obtain t where t: "visit ts i s = (None, t)" "cycle_loop ts is t = (None, s')"
      by (auto split: prod.splits option.splits)
    have "done_ok ts t" "colours_grow s t" "dColour t i = Done"
      using visit_None(1) [OF t(1) 2(4)] by auto
    moreover from this 2(5) have "\<forall>k. dColour t k \<noteq> Visiting" by (auto simp: colours_grow_def)
    ultimately have "done_ok ts s' \<and> colours_grow t s' \<and> (\<forall>i \<in> set is. dColour s' i = Done)"
      using 2(1) [OF True t(1) [symmetric] refl t(2)] by simp
    then show ?thesis
      using \<open>colours_grow s t\<close> \<open>dColour t i = Done\<close> by (auto simp: colours_grow_def)
  next
    case False
    with 2 have "dColour s i = Done" by (cases "dColour s i") auto
    with False 2 show ?thesis by (auto simp: colours_grow_def)
  qed
qed (auto simp: colours_grow_def)

text \<open>The path is a chain that ends in the vertex being expanded and holds all open vertices.\<close>

definition path_ok :: "task_map \<Rightarrow> dfs \<Rightarrow> bool" where
  "path_ok ts s \<longleftrightarrow> dep_chain ts (dPath s) \<and> (\<forall>k. dColour s k = Visiting \<longrightarrow> k \<in> set (dPath s))"

lemma cycle_at_is_cycle:
  assumes "dep_chain ts p" and "i \<in> set p" and "i \<in> set (deps_of ts (last p))"
  shows "is_dep_cycle ts (cycle_at i p)"
proof -
  define q where "q = dropWhile (\<lambda>x. x \<noteq> i) p"
  have q: "q \<noteq> []" using assms(2) by (auto simp: q_def dropWhile_eq_Nil_conv)
  then have hd: "hd q = i" using hd_dropWhile [of "\<lambda>x. x \<noteq> i" p] by (simp add: q_def)
  have p: "p = takeWhile (\<lambda>x. x \<noteq> i) p @ q" by (simp add: q_def)
  have "dep_chain ts (takeWhile (\<lambda>x. x \<noteq> i) p @ q)" using assms(1) p by simp
  then have chain: "dep_chain ts q" by (simp only: dep_chain_append)
  have last: "last p = last q" using p q by (metis last_appendR)
  have "cycle_at i p = q @ [i]" using assms(2) by (simp add: cycle_at_def q_def)
  moreover have "dep_chain ts (q @ [i])"
    using chain assms(3) last q by (simp add: dep_chain_append)
  moreover have "2 \<le> length (q @ [i])" using q by (cases q) simp_all
  ultimately show ?thesis using hd q by (simp add: is_dep_cycle_def)
qed


text \<open>A returned path is a cycle; a visit that returns no cycle restores the path.\<close>

lemma visit_path:
  "path_ok ts s \<Longrightarrow> (dPath s \<noteq> [] \<longrightarrow> i \<in> set (deps_of ts (last (dPath s)))) \<Longrightarrow>
     (case visit ts i s of
        (Some c, _) \<Rightarrow> is_dep_cycle ts c
      | (None, s') \<Rightarrow> dPath s' = dPath s \<and> path_ok ts s')"
  "path_ok ts s \<Longrightarrow> dPath s \<noteq> [] \<Longrightarrow> set ds \<subseteq> set (deps_of ts (last (dPath s))) \<Longrightarrow>
     (case visit_deps ts ds s of
        (Some c, _) \<Rightarrow> is_dep_cycle ts c
      | (None, s') \<Rightarrow> dPath s' = dPath s \<and> path_ok ts s')"
proof (induction ts i s and ts ds s rule: visit_visit_deps.induct)
  case (1 ts i s)
  show ?case
  proof (cases "dColour s i")
    case Unvisited
    have "path_ok ts (enter i s)"
      using 1(2,3) by (auto simp: path_ok_def dep_chain_append)
    from 1(1) [OF Unvisited this] show ?thesis
      by (auto simp: visit.simps [of ts i s] Unvisited path_ok_def dep_chain_append split: prod.splits option.splits)
  next
    case Visiting
    with 1(2) have "i \<in> set (dPath s)" by (auto simp: path_ok_def)
    with 1(2,3) Visiting show ?thesis
      by (auto simp: visit.simps [of ts i s] path_ok_def intro!: cycle_at_is_cycle)
  qed (use 1 in \<open>auto simp: visit.simps [of ts i s]\<close>)
next
  case (3 ts d ds s)
  have d: "d \<in> set (deps_of ts (last (dPath s)))" using 3(5) by simp
  show ?case
  proof (cases "visit ts d s")
    case (Pair r t)
    with 3(1) [OF 3(3)] d have *: "case r of Some c \<Rightarrow> is_dep_cycle ts c
        | None \<Rightarrow> dPath t = dPath s \<and> path_ok ts t" by (auto split: option.splits)
    show ?thesis
    proof (cases r)
      case None
      with 3(2) [OF Pair [symmetric] None] * 3(4,5) show ?thesis
        by (auto simp: visit_deps.simps(2) [of ts d ds s] Pair split: option.splits)
    qed (use * Pair in \<open>simp add: visit_deps.simps(2) [of ts d ds s]\<close>)
  qed
qed simp

lemma cycle_loop_Some:
  "cycle_loop ts is s = (Some c, s') \<Longrightarrow> path_ok ts s \<Longrightarrow> dPath s = [] \<Longrightarrow> is_dep_cycle ts c"
proof (induction ts "is" s rule: cycle_loop.induct)
  case (2 ts i "is" s)
  show ?case
  proof (cases "dColour s i = Unvisited")
    case True
    obtain r t where v: "visit ts i s = (r, t)" by fastforce
    with visit_path(1) [of ts s i] 2(4,5) True have *: "case r of Some c \<Rightarrow> is_dep_cycle ts c
        | None \<Rightarrow> dPath t = [] \<and> path_ok ts t" by (auto split: option.splits)
    show ?thesis
    proof (cases r)
      case None
      with * 2(1) [OF True v [symmetric] None] 2(3) True v show ?thesis by simp
    next
      case (Some c')
      with * 2(3) True v show ?thesis by simp
    qed
  qed (use 2 in simp)
qed simp

lemma dfs_init_ok [simp]: "done_ok ts dfs_init" "path_ok ts dfs_init" "dPath dfs_init = []"
  "dColour dfs_init k = Unvisited"
  by (simp_all add: dfs_init_def done_ok_def path_ok_def)

lemma findCycle_Some: "findCycle r ts = Some c \<Longrightarrow> is_dep_cycle ts c"
  unfolding findCycle_def by (metis cycle_loop_Some dfs_init_ok(2,3) prod.collapse)

lemma findCycle_None:
  assumes r: "is_range r" and none: "findCycle r ts = None"
  shows "acyclic (dep_rel ts)"
proof -
  obtain s where s: "cycle_loop ts (r (map fst ts)) dfs_init = (None, s)"
    using none by (metis findCycle_def prod.collapse)
  have *: "done_ok ts s" "\<forall>i \<in> fst ` set ts. dColour s i = Done"
    using cycle_loop_None [OF s] is_rangeD [OF r, of "map fst ts"] by auto
  show ?thesis
    unfolding acyclic_def
  proof (intro allI notI)
    fix a
    assume a: "(a, a) \<in> (dep_rel ts)\<^sup>+"
    then have "deps_of ts a \<noteq> []" by (auto dest: tranclD)
    then have "a \<in> fst ` set ts" using deps_of_outside by metis
    with * a show False by (auto simp: done_ok_def)
  qed
qed

lemma findCycle_None_iff: "is_range r \<Longrightarrow> findCycle r ts = None \<longleftrightarrow> acyclic (dep_rel ts)"
  by (metis findCycle_None findCycle_Some is_dep_cycle_cyclic option.exhaust)

subsection \<open>graphDepth\<close>

text \<open>
  \<open>visiting\<close> is added before the dependencies are walked and deleted after, so a call sees
  the vertices above it and leaves the set as it found it: it is passed down by value.
\<close>

function depth :: "task_map \<Rightarrow> task_id \<Rightarrow> task_id set \<Rightarrow> (task_id \<rightharpoonup> nat) \<Rightarrow> nat \<times> (task_id \<rightharpoonup> nat)"
  and depth_max :: "task_map \<Rightarrow> task_id list \<Rightarrow> task_id set \<Rightarrow> (task_id \<rightharpoonup> nat) \<Rightarrow> nat \<Rightarrow> nat \<times> (task_id \<rightharpoonup> nat)"
where
  "depth ts i visiting memo =
     (case memo i of
        Some d \<Rightarrow> (d, memo)
      | None \<Rightarrow>
          if i \<in> visiting then (0, memo)
          else if deps_of ts i = [] then (1, memo(i \<mapsto> 1))
          else (case depth_max ts (deps_of ts i) (insert i visiting) memo 0 of
                  (m, memo') \<Rightarrow> (m + 1, memo'(i \<mapsto> m + 1))))"
| "depth_max ts [] visiting memo m = (m, memo)"
| "depth_max ts (d # ds) visiting memo m =
     (case depth ts d visiting memo of
        (x, memo') \<Rightarrow> depth_max ts ds visiting memo' (if x > m then x else m))"
  by pat_completeness auto
termination depth
proof (relation "measures
    [\<lambda>x. case x of Inl (ts, i, v, memo) \<Rightarrow> card (fst ` set ts - v)
                 | Inr (ts, ds, v, memo, m) \<Rightarrow> card (fst ` set ts - v),
     \<lambda>x. case x of Inl _ \<Rightarrow> 1 | Inr (ts, ds, _) \<Rightarrow> 2 * length ds]", goal_cases)
  case (2 ts i v memo)
  then have "i \<in> fst ` set ts - v" using deps_of_outside by blast
  then have "fst ` set ts - insert i v \<subset> fst ` set ts - v" by auto
  then show ?case by (simp add: psubset_card_mono)
qed auto

declare depth.simps [simp del] depth_max.simps(2) [simp del]

fun depth_loop :: "task_map \<Rightarrow> task_id list \<Rightarrow> (task_id \<rightharpoonup> nat) \<Rightarrow> nat \<Rightarrow> nat" where
  "depth_loop ts [] memo best = best"
| "depth_loop ts (i # is) memo best =
     (case depth ts i {} memo of
        (d, memo') \<Rightarrow> depth_loop ts is memo' (if d > best then d else best))"

definition graphDepth :: "task_id range_order \<Rightarrow> task_map \<Rightarrow> nat" where
  "graphDepth r ts = depth_loop ts (r (map fst ts)) Map.empty 0"


text \<open>\<open>longest ts i d\<close>: the longest chain of dependencies from \<open>i\<close> has \<open>d\<close> vertices.\<close>

definition longest :: "task_map \<Rightarrow> task_id \<Rightarrow> nat \<Rightarrow> bool" where
  "longest ts i d \<longleftrightarrow>
     (\<exists>c. dep_chain ts c \<and> c \<noteq> [] \<and> hd c = i \<and> length c = d) \<and>
     (\<forall>c. dep_chain ts c \<longrightarrow> c \<noteq> [] \<longrightarrow> hd c = i \<longrightarrow> length c \<le> d)"

lemma longest_leaf:
  assumes "deps_of ts i = []"
  shows "longest ts i 1"
proof -
  have "length c \<le> 1" if "dep_chain ts c" "c \<noteq> []" "hd c = i" for c
    using that assms by (cases c; cases "tl c") auto
  moreover have "dep_chain ts [i]" by simp
  ultimately show ?thesis unfolding longest_def by (metis One_nat_def length_Cons list.sel(1) list.size(3) not_Cons_self2)
qed

lemma longest_pos: "longest ts i d \<Longrightarrow> 0 < d"
  by (auto simp: longest_def)

lemma longest_step:
  assumes le: "\<forall>d \<in> set (deps_of ts i). \<exists>l \<le> m. longest ts d l"
    and eq: "\<exists>d \<in> set (deps_of ts i). longest ts d m"
  shows "longest ts i (m + 1)"
proof -
  obtain d c where d: "d \<in> set (deps_of ts i)"
    and c: "dep_chain ts c" "c \<noteq> []" "hd c = d" "length c = m"
    using eq by (auto simp: longest_def)
  then have "dep_chain ts (i # c)" by (simp add: dep_chain_Cons)
  then have ex: "\<exists>c. dep_chain ts c \<and> c \<noteq> [] \<and> hd c = i \<and> length c = m + 1"
    using c(4) by (intro exI [of _ "i # c"]) simp
  have "length c' \<le> m + 1" if "dep_chain ts c'" "c' \<noteq> []" "hd c' = i" for c'
  proof (cases "tl c' = []")
    case False
    with that have t: "dep_chain ts (tl c')" "hd (tl c') \<in> set (deps_of ts i)"
      by (cases c'; simp add: dep_chain_Cons)+
    with le obtain l where "l \<le> m" "longest ts (hd (tl c')) l" by blast
    with t(1) False have "length (tl c') \<le> m" by (auto simp: longest_def)
    then show ?thesis by simp
  qed (use that in \<open>cases c'; simp\<close>)
  with ex show ?thesis by (auto simp: longest_def)
qed

definition memo_ok :: "task_map \<Rightarrow> (task_id \<rightharpoonup> nat) \<Rightarrow> bool" where
  "memo_ok ts memo \<longleftrightarrow> (\<forall>i d. memo i = Some d \<longrightarrow> longest ts i d)"

lemma memo_ok_upd: "memo_ok ts memo \<Longrightarrow> longest ts i d \<Longrightarrow> memo_ok ts (memo(i \<mapsto> d))"
  by (simp add: memo_ok_def)

lemma depth_longest:
  "acyclic (dep_rel ts) \<Longrightarrow> memo_ok ts memo \<Longrightarrow> \<forall>v \<in> visiting. (v, i) \<in> (dep_rel ts)\<^sup>+ \<Longrightarrow>
     depth ts i visiting memo = (d, memo') \<Longrightarrow> longest ts i d \<and> memo_ok ts memo'"
  "acyclic (dep_rel ts) \<Longrightarrow> memo_ok ts memo \<Longrightarrow>
     \<forall>v \<in> visiting. \<forall>b \<in> set ds. (v, b) \<in> (dep_rel ts)\<^sup>+ \<Longrightarrow>
     depth_max ts ds visiting memo m = (m', memo') \<Longrightarrow>
     memo_ok ts memo' \<and> m \<le> m' \<and> (\<forall>b \<in> set ds. \<exists>l \<le> m'. longest ts b l) \<and>
     (m' = m \<or> (\<exists>b \<in> set ds. longest ts b m'))"
proof (induction ts i visiting memo and ts ds visiting memo m
    arbitrary: d memo' and m' memo' rule: depth_depth_max.induct)
  case (1 ts i visiting memo)
  have iv: "i \<notin> visiting" using 1(2,4) by (auto simp: acyclic_def)
  show ?case
  proof (cases "memo i")
    case (Some l)
    with 1(3,5) show ?thesis by (auto simp: depth.simps [of ts i visiting memo] memo_ok_def)
  next
    case None
    show ?thesis
    proof (cases "deps_of ts i = []")
      case True
      have "longest ts i 1" "memo_ok ts (memo(i \<mapsto> 1))"
        using longest_leaf [OF True] 1(3) by (simp_all add: memo_ok_upd)
      with True None iv 1(5) show ?thesis by (auto simp: depth.simps [of ts i visiting memo])
    next
      case False
      obtain m t where t: "depth_max ts (deps_of ts i) (insert i visiting) memo 0 = (m, t)"
        by fastforce
      have "\<forall>v \<in> insert i visiting. \<forall>b \<in> set (deps_of ts i). (v, b) \<in> (dep_rel ts)\<^sup>+"
        using 1(4) by (auto intro: trancl_into_trancl)
      from 1(1) [OF None iv False 1(2,3) this t]
      have *: "memo_ok ts t" "\<forall>b \<in> set (deps_of ts i). \<exists>l \<le> m. longest ts b l"
        "m = 0 \<or> (\<exists>b \<in> set (deps_of ts i). longest ts b m)" by auto
      have "m \<noteq> 0" using *(2) False by (cases "deps_of ts i") (auto dest: longest_pos)
      with * have "longest ts i (m + 1)" by (intro longest_step) auto
      then show ?thesis
        using 1(5) None iv False t * by (auto simp: depth.simps [of ts i visiting memo] memo_ok_upd)
    qed
  qed
next
  case (3 ts b ds visiting memo m)
  obtain x t where t: "depth ts b visiting memo = (x, t)" by fastforce
  have x: "longest ts b x" "memo_ok ts t" using 3(1) [OF 3(3,4) _ t] 3(5) by auto
  have r: "depth_max ts ds visiting t (if x > m then x else m) = (m', memo')"
    using 3(6) t by (simp add: depth_max.simps(2) [of ts b ds])
  have *: "memo_ok ts memo'" "(if x > m then x else m) \<le> m'"
      "\<forall>b \<in> set ds. \<exists>l \<le> m'. longest ts b l"
      "m' = (if x > m then x else m) \<or> (\<exists>b \<in> set ds. longest ts b m')"
    using 3(2) [OF t [symmetric] 3(3) x(2) _ r] 3(5) by auto
  then have le: "x \<le> m'" "m \<le> m'" by (auto split: if_splits)
  moreover have "\<exists>l \<le> m'. longest ts b l" using x(1) le(1) by blast
  ultimately show ?case using * x(1) by (simp split: if_splits) blast+
qed simp

lemma depth_loop_bound:
  "acyclic (dep_rel ts) \<Longrightarrow> memo_ok ts memo \<Longrightarrow> depth_loop ts is memo best = g \<Longrightarrow>
     best \<le> g \<and> (\<forall>i \<in> set is. \<exists>l \<le> g. longest ts i l) \<and> (g = best \<or> (\<exists>i \<in> set is. longest ts i g))"
proof (induction ts "is" memo best rule: depth_loop.induct)
  case (2 ts i "is" memo best)
  obtain d t where t: "depth ts i {} memo = (d, t)" by fastforce
  have d: "longest ts i d" "memo_ok ts t" using depth_longest(1) [OF 2(2,3) _ t] by auto
  have r: "depth_loop ts is t (if d > best then d else best) = g" using 2(4) t by simp
  from 2(1) [OF t [symmetric] 2(2) d(2) r]
  have "(if d > best then d else best) \<le> g" "\<forall>i \<in> set is. \<exists>l \<le> g. longest ts i l"
    "g = (if d > best then d else best) \<or> (\<exists>i \<in> set is. longest ts i g)" by auto
  moreover from this have le: "d \<le> g" "best \<le> g" by (auto split: if_splits)
  moreover have "\<exists>l \<le> g. longest ts i l" using d(1) le(1) by blast
  ultimately show ?case using d(1) by (simp split: if_splits) blast+
qed simp

lemma graphDepth_chain:
  assumes "is_range r" and "acyclic (dep_rel ts)"
    and "dep_chain ts c" and "c \<noteq> []" and "hd c \<in> fst ` set ts"
  shows "length c \<le> graphDepth r ts"
proof -
  have "\<exists>l \<le> graphDepth r ts. longest ts (hd c) l"
    using depth_loop_bound [OF assms(2), of Map.empty "r (map fst ts)" 0] assms(5)
      is_rangeD [OF assms(1), of "map fst ts"]
    by (force simp: graphDepth_def memo_ok_def)
  with assms(3,4) show ?thesis by (force simp: longest_def)
qed

lemma graphDepth_attained:
  assumes "is_range r" and "acyclic (dep_rel ts)" and "ts \<noteq> []"
  shows "\<exists>c. dep_chain ts c \<and> c \<noteq> [] \<and> hd c \<in> fst ` set ts \<and> length c = graphDepth r ts"
proof -
  let ?g = "graphDepth r ts"
  have *: "\<forall>i \<in> fst ` set ts. \<exists>l \<le> ?g. longest ts i l" "?g = 0 \<or> (\<exists>i \<in> fst ` set ts. longest ts i ?g)"
    using depth_loop_bound [OF assms(2), of Map.empty "r (map fst ts)" 0]
      is_rangeD [OF assms(1), of "map fst ts"]
    by (simp_all add: graphDepth_def memo_ok_def)
  obtain k where "k \<in> fst ` set ts" using assms(3) by (cases ts) auto
  with *(1) obtain l where "l \<le> ?g" "longest ts k l" by auto
  then have "?g \<noteq> 0" by (auto dest: longest_pos)
  with *(2) show ?thesis by (auto simp: longest_def)
qed


text \<open>On an acyclic graph the depth does not depend on the iteration order.\<close>

lemma graphDepth_order:
  assumes "is_range r" and "is_range r'" and "acyclic (dep_rel ts)"
  shows "graphDepth r ts = graphDepth r' ts"
proof (cases "ts = []")
  case True
  have "r [] = []" "r' [] = []" using is_rangeD [OF assms(1), of "[]"] is_rangeD [OF assms(2), of "[]"] by auto
  with True show ?thesis by (simp add: graphDepth_def)
next
  case False
  have "graphDepth a ts \<le> graphDepth b ts" if "is_range a" "is_range b" for a b
    using graphDepth_attained [OF that(1) assms(3) False] graphDepth_chain [OF that(2) assms(3)] by metis
  with assms(1,2) show ?thesis by (simp add: antisym)
qed

subsection \<open>Properties\<close>

definition sample_task :: "string \<Rightarrow> string list \<Rightarrow> task_id list \<Rightarrow> task" where
  "sample_task i caps deps =
     \<lparr>tID = i, tType = ''work'', tCaps = caps, tDeps = deps, tRisk = ''routine'', tTenant = [],
      tStatus = StEmpty, tCost = 0, tLocked = False\<rparr>"

definition sample_map :: task_map where
  "sample_map = [(''a'', sample_task ''a'' [] []), (''b'', sample_task ''b'' [] [''a'']),
                 (''c'', sample_task ''c'' [] [''a'', ''b''])]"

text \<open>
  C33: \<open>findCycle\<close> answers nil exactly when the dependency graph is acyclic, whatever order the
  runtime iterates the map in, and a path it returns is a real cycle of dependencies.
\<close>

theorem findCycle_correct:
  assumes "is_range r"
  shows "(findCycle r ts = None \<longleftrightarrow> acyclic (dep_rel ts)) \<and>
         (case findCycle r ts of None \<Rightarrow> True | Some c \<Rightarrow> is_dep_cycle ts c)"
  using findCycle_None_iff [OF assms] findCycle_Some by (auto split: option.splits)

theorem findCycle_correct_witness:
  "(findCycle rev sample_map = None) = acyclic (dep_rel sample_map) \<and>
   findCycle rev ((''a'', sample_task ''a'' [] [''c'']) # sample_map) = Some [''c'', ''a'', ''c'']"
proof -
  have "findCycle rev ((''a'', sample_task ''a'' [] [''c'']) # sample_map) = Some [''c'', ''a'', ''c'']"
    by (simp add: findCycle_def sample_map_def sample_task_def dfs_init_def deps_of_def
        visit.simps visit_deps.simps cycle_at_def)
  then show ?thesis using findCycle_correct [of rev sample_map] by simp
qed

text \<open>
  On an acyclic graph \<open>graphDepth\<close> is the number of tasks on the longest chain of
  dependencies: no chain that starts at a known task is longer, and one attains it.
\<close>

theorem graphDepth_longest_chain:
  assumes "is_range r" and "acyclic (dep_rel ts)" and "ts \<noteq> []"
  shows "Max {length c |c. dep_chain ts c \<and> c \<noteq> [] \<and> hd c \<in> fst ` set ts} = graphDepth r ts"
proof (rule Max_eqI)
  show "finite {length c |c. dep_chain ts c \<and> c \<noteq> [] \<and> hd c \<in> fst ` set ts}"
    by (rule finite_subset [of _ "{..graphDepth r ts}"]) (auto dest: graphDepth_chain [OF assms(1,2)])
  show "l \<le> graphDepth r ts" if "l \<in> {length c |c. dep_chain ts c \<and> c \<noteq> [] \<and> hd c \<in> fst ` set ts}" for l
    using that graphDepth_chain [OF assms(1,2)] by auto
  show "graphDepth r ts \<in> {length c |c. dep_chain ts c \<and> c \<noteq> [] \<and> hd c \<in> fst ` set ts}"
    using graphDepth_attained [OF assms] by force
qed

theorem graphDepth_longest_chain_witness:
  "Max {length c |c. dep_chain sample_map c \<and> c \<noteq> [] \<and> hd c \<in> fst ` set sample_map} = 3"
proof -
  have none: "findCycle id sample_map = None"
    by (simp add: findCycle_def sample_map_def sample_task_def dfs_init_def deps_of_def
        visit.simps visit_deps.simps)
  have "graphDepth id sample_map = 3"
    by (simp add: graphDepth_def sample_map_def sample_task_def deps_of_def depth.simps depth_max.simps)
  then show ?thesis
    using graphDepth_longest_chain [OF is_range_id(2) findCycle_None [OF is_range_id(2) none]]
    by (simp add: sample_map_def)
qed

end
