(* ===== verification/Validate.thy ===== *)
theory Validate
  imports DepGraph
begin

text \<open>
  The validation boundary (\<open>internal/supervisor/validate.go\<close>): the agent directory it asks,
  the validator's configuration and the all-or-nothing check of a proposal batch against a
  snapshot. Every check is in the code's order, so the first error is the code's.
\<close>

subsection \<open>Agent directories\<close>

text \<open>
  A directory value: existence, declared capabilities with the known flag, and, when its
  dynamic type also implements \<open>TenantDirectory\<close>, the tenant of an agent. A catalog adds
  the enumeration.
\<close>

record agent_directory =
  AgentExists :: "agent_id \<Rightarrow> bool"
  Capabilities :: "agent_id \<Rightarrow> string list \<times> bool"
  TenantOf :: "(agent_id \<Rightarrow> string \<times> bool) option"

record agent_catalog = agent_directory +
  ListAgents :: "msg + (agent_id \<times> string list) list"

text \<open>
  The contract of the interface: unknown agents declare nothing, the two lookups agree and
  the enumeration lists exactly the known agents with what they declare.
\<close>

locale agent_registry =
  fixes cat :: agent_catalog
  assumes known_iff: "AgentExists cat a \<longleftrightarrow> snd (Capabilities cat a)"
    and unknown_declares_nothing: "\<not> AgentExists cat a \<Longrightarrow> fst (Capabilities cat a) = []"
    and listed_iff: "ListAgents cat = Inr l \<Longrightarrow>
      (a, cs) \<in> set l \<longleftrightarrow> AgentExists cat a \<and> cs = fst (Capabilities cat a)"
begin

lemma listed_exists: "ListAgents cat = Inr l \<Longrightarrow> (a, cs) \<in> set l \<Longrightarrow> AgentExists cat a"
  by (simp add: listed_iff)

lemma listed_caps:
  "ListAgents cat = Inr l \<Longrightarrow> (a, cs) \<in> set l \<Longrightarrow> Capabilities cat a = (cs, True)"
  using known_iff [of a] by (cases "Capabilities cat a") (simp add: listed_iff)

end

subsection \<open>The validator\<close>

definition DefaultKnownCapabilities :: "string \<Rightarrow> bool" where
  "DefaultKnownCapabilities c \<longleftrightarrow>
     c \<in> set [''read_repository'', ''write_repository'', ''run_commands'', ''review'',
              ''answer_questions'', ''submit_evidence'', ''propose_plan'', ''propose_task_graph'']"

text \<open>\<open>vRange\<close> is the order in which the runtime ranges over the map of known tasks.\<close>

record validator =
  vAgents :: agent_directory
  vAllowed :: "string \<Rightarrow> bool"
  vLimits :: supervisor_limits
  vRange :: "task_id range_order"

definition NewValidator ::
  "agent_directory \<Rightarrow> (string \<Rightarrow> bool) option \<Rightarrow> supervisor_limits \<Rightarrow> task_id range_order \<Rightarrow> validator"
where
  "NewValidator agents allowed limits r =
     \<lparr>vAgents = agents,
      vAllowed = (case allowed of None \<Rightarrow> DefaultKnownCapabilities | Some f \<Rightarrow> f),
      vLimits = limits, vRange = r\<rparr>"

definition MissingCapabilities :: "string list \<Rightarrow> string list \<Rightarrow> string list" where
  "MissingCapabilities declared required = filter (\<lambda>r. r \<notin> set declared) required"

definition isSuperset :: "string list \<Rightarrow> string list \<Rightarrow> bool" where
  "isSuperset candidate required = list_all (\<lambda>r. r \<in> set candidate) required"

definition validateRationale :: "int \<Rightarrow> rationale \<Rightarrow> sup_error option" where
  "validateRationale i r =
     require (int (length r) \<le> MaxRationaleLength)
       (RationaleTooLongError (int (length r)) MaxRationaleLength)"

definition unknown_caps :: "validator \<Rightarrow> string list \<Rightarrow> sup_error option" where
  "unknown_caps v cs = first_err (\<lambda>c. require (vAllowed v c) (UnknownCapabilityError c)) cs"

definition known_task :: "task_map \<Rightarrow> task_id \<Rightarrow> sup_error option" where
  "known_task known i = require (map_of known i \<noteq> None) (UnknownTaskError i)"

text \<open>Go's conversion \<open>int(f)\<close> truncates towards zero.\<close>

definition trunc_rat :: "rat \<Rightarrow> int" where
  "trunc_rat x = (if 0 \<le> x then \<lfloor>x\<rfloor> else \<lceil>x\<rceil>)"

definition validateNewTask :: "validator \<Rightarrow> int \<Rightarrow> task \<Rightarrow> task_map \<Rightarrow> sup_error option" where
  "validateNewTask v i t known =
     err_then (require (tID t \<noteq> []) (ProposalValidationFailure i (plain ''task id must not be empty'')))
    (err_then (require (map_of known (tID t) = None)
                (ProposalValidationFailure i (Msg ''task %q already exists'' [AS (tID t)])))
    (err_then (unknown_caps v (tCaps t))
    (err_then (first_err (known_task known) (tDeps t))
       (require (\<not> (MaxCost (vLimits v) > 0 \<and> tCost t > MaxCost (vLimits v)))
          (GuardrailExceededError ''max_cost'' (trunc_rat (MaxCost (vLimits v))) (trunc_rat (tCost t)))))))"

definition known_tasks :: "task_graph \<Rightarrow> task_map" where
  "known_tasks g = fold (\<lambda>t known. AList.update (tID t) t known) g []"

fun add_new_tasks :: "validator \<Rightarrow> int \<Rightarrow> task list \<Rightarrow> task_map \<Rightarrow> sup_error + task_map" where
  "add_new_tasks v i [] known = Inr known"
| "add_new_tasks v i (t # ts) known =
     guard_res (validateNewTask v i t known)
       (add_new_tasks v i ts (AList.update (tID t) t known))"

fun update_tasks :: "validator \<Rightarrow> task list \<Rightarrow> task_map \<Rightarrow> sup_error + task_map" where
  "update_tasks v [] known = Inr known"
| "update_tasks v (u # us) known =
     (case map_of known (tID u) of
        None \<Rightarrow> Inl (UnknownTaskError (tID u))
      | Some old \<Rightarrow>
          guard_res (unknown_caps v (tCaps u))
         (guard_res (require (\<not> (tLocked old \<and> \<not> isSuperset (tCaps u) (tCaps old)))
             (PolicyDowngradeForbiddenError (tID u)
               (plain ''replan may not remove a required capability from a locked task'')))
           (update_tasks v us (AList.update (tID u) u known))))"

text \<open>What \<open>ValidateBatch\<close> accumulates over the batch.\<close>

record batch_acc =
  baKnown :: task_map
  baFanout :: "agent_id list"
  baReplan :: int
  baReview :: int

definition validate_proposal ::
  "validator \<Rightarrow> execution_state \<Rightarrow> nat \<times> proposal \<Rightarrow> batch_acc \<Rightarrow> sup_error + batch_acc"
where
  "validate_proposal v st ip acc = (case ip of (n, p) \<Rightarrow>
    let i = int n; known = baKnown acc; dir = vAgents v;
        fail = (\<lambda>s. ProposalValidationFailure i (plain s)) in
    (case p of
       NilProposal \<Rightarrow> Inl (fail ''nil proposal'')
     | ForeignProposal pt \<Rightarrow>
         Inl (ProposalValidationFailure i
           (case pt of ProposalOther s \<Rightarrow> Msg ''unknown proposal type %q'' [AS s]
            | _ \<Rightarrow> plain ''unhandled proposal concrete type %T''))
     | CreateTask t r \<Rightarrow>
         guard_res (validateRationale i r)
        (guard_res (validateNewTask v i t known)
           (Inr (acc\<lparr>baKnown := AList.update (tID t) t known\<rparr>)))
     | AssignTask tid a caps r \<Rightarrow>
         guard_res (validateRationale i r)
        (guard_res (require (tid \<noteq> [] \<and> a \<noteq> [])
            (fail ''assign_task requires task_id and candidate_agent_id''))
        (guard_res (known_task known tid)
        (guard_res (require (a \<noteq> SupervisorAgentID)
            (SelfAssignmentForbiddenError a tid (plain ''supervisor cannot assign itself as an executor'')))
        (guard_res (require (AgentExists dir a) (UnknownAgentError a))
        (guard_res (unknown_caps v caps)
        (guard_res (let missing = MissingCapabilities (fst (Capabilities dir a)) caps in
            require (missing = []) (CapabilityMismatchError a missing))
           (Inr (acc\<lparr>baFanout := List.insert a (baFanout acc)\<rparr>))))))))
     | RequestReview tid a r \<Rightarrow>
         guard_res (validateRationale i r)
        (guard_res (require (tid \<noteq> [] \<and> a \<noteq> [])
            (fail ''request_review requires task_id and reviewer_agent_id''))
        (guard_res (known_task known tid)
        (guard_res (require (a \<noteq> SupervisorAgentID)
            (SelfAssignmentForbiddenError a tid (plain ''supervisor cannot review as itself'')))
        (guard_res (require (AgentExists dir a) (UnknownAgentError a))
        (guard_res (require (esAssignments st tid \<noteq> Some a)
            (SelfAssignmentForbiddenError a tid
              (plain ''reviewer cannot be the task's own executor (self-review forbidden)'')))
           (Inr (acc\<lparr>baReview := baReview acc + 1\<rparr>)))))))
     | RequestEvidence tid a r \<Rightarrow>
         guard_res (validateRationale i r)
        (guard_res (require (tid \<noteq> [] \<and> a \<noteq> [])
            (fail ''request_evidence requires task_id and from_agent_id''))
        (guard_res (known_task known tid)
        (guard_res (require (AgentExists dir a) (UnknownAgentError a)) (Inr acc))))
     | RetryTask tid r \<Rightarrow>
         guard_res (validateRationale i r)
        (guard_res (require (tid \<noteq> []) (fail ''retry_task requires task_id''))
        (guard_res (known_task known tid) (Inr acc)))
     | Replan new upd r \<Rightarrow>
         guard_res (validateRationale i r)
        (bind_res (add_new_tasks v i new known) (\<lambda>known1.
         bind_res (update_tasks v upd known1) (\<lambda>known2.
           Inr (acc\<lparr>baKnown := known2, baReplan := baReplan acc + 1\<rparr>))))
     | Synthesize tids s r \<Rightarrow>
         guard_res (validateRationale i r)
        (guard_res (first_err (known_task known) tids) (Inr acc))
     | Escalate tid reason r \<Rightarrow>
         guard_res (validateRationale i r)
        (guard_res (require (tid \<noteq> []) (fail ''escalate requires task_id''))
        (guard_res (known_task known tid) (Inr acc)))))"

definition checkGuardrails :: "validator \<Rightarrow> execution_state \<Rightarrow> batch_acc \<Rightarrow> sup_error option" where
  "checkGuardrails v st acc =
     (let L = vLimits v; fan = int (length (baFanout acc));
          replans = esReplanCount st + baReplan acc;
          reviews = esReviewRounds st + baReview acc;
          dep = int (graphDepth (vRange v) (baKnown acc)) in
      err_then (require (\<not> (MaxAgentFanout L > 0 \<and> fan > MaxAgentFanout L))
                 (GuardrailExceededError ''max_agent_fanout'' (MaxAgentFanout L) fan))
     (err_then (require (\<not> (baReplan acc > 0 \<and> MaxReplanCount L > 0 \<and> replans > MaxReplanCount L))
                 (ReplanLimitExceeded (MaxReplanCount L) replans))
     (err_then (require (\<not> (baReview acc > 0 \<and> MaxReviewRounds L > 0 \<and> reviews > MaxReviewRounds L))
                 (GuardrailExceededError ''max_review_rounds'' (MaxReviewRounds L) reviews))
        (require (\<not> (MaxTaskDepth L > 0 \<and> dep > MaxTaskDepth L))
           (GuardrailExceededError ''max_task_depth'' (MaxTaskDepth L) dep)))))"

definition batch_init :: "execution_state \<Rightarrow> batch_acc" where
  "batch_init st = \<lparr>baKnown = known_tasks (esTasks st), baFanout = [], baReplan = 0, baReview = 0\<rparr>"

definition validate_all ::
  "validator \<Rightarrow> execution_state \<Rightarrow> proposal list \<Rightarrow> sup_error + batch_acc"
where
  "validate_all v st ps = fold_res (validate_proposal v st) (List.enumerate 0 ps) (batch_init st)"

definition ValidateBatch :: "validator \<Rightarrow> execution_state \<Rightarrow> proposal list \<Rightarrow> sup_error option" where
  "ValidateBatch v st ps =
     (case validate_all v st ps of
        Inl e \<Rightarrow> Some e
      | Inr acc \<Rightarrow>
          err_then (checkGuardrails v st acc)
            (case findCycle (vRange v) (baKnown acc) of
               Some c \<Rightarrow> Some (DependencyCycleError c)
             | None \<Rightarrow> None))"


subsection \<open>Facts about accepted batches\<close>

lemma map_of_known_tasks_fold:
  "distinct (map tID g) \<Longrightarrow> \<forall>t \<in> set g. map_of k (tID t) = None \<Longrightarrow>
     map_of (fold (\<lambda>t known. AList.update (tID t) t known) g k) i =
       (case byID g i of Some t \<Rightarrow> Some t | None \<Rightarrow> map_of k i)"
proof (induction g arbitrary: k)
  case (Cons t g)
  have "\<forall>u \<in> set g. map_of (AList.update (tID t) t k) (tID u) = None"
    using Cons.prems by (auto simp: map_of_update image_iff)
  with Cons.prems Cons.IH [of "AList.update (tID t) t k"] show ?case
    by (cases "byID g i") (auto simp: map_of_update dest: byID_Some)
qed simp

lemma map_of_known_tasks: "distinct (map tID g) \<Longrightarrow> map_of (known_tasks g) = byID g"
  by (rule ext) (auto simp: known_tasks_def map_of_known_tasks_fold split: option.split)

lemma unknown_caps_None [simp]: "unknown_caps v cs = None \<longleftrightarrow> (\<forall>c \<in> set cs. vAllowed v c)"
  by (simp add: unknown_caps_def)

lemma known_task_None [simp]: "known_task k i = None \<longleftrightarrow> map_of k i \<noteq> None"
  by (simp add: known_task_def)

lemma MissingCapabilities_Nil [simp]:
  "MissingCapabilities ds cs = [] \<longleftrightarrow> set cs \<subseteq> set ds"
  by (auto simp: MissingCapabilities_def filter_empty_conv)

lemma isSuperset_iff [simp]: "isSuperset cs ds \<longleftrightarrow> set ds \<subseteq> set cs"
  by (auto simp: isSuperset_def list_all_iff)

lemma validateNewTask_None:
  "validateNewTask v i t k = None \<longleftrightarrow>
     tID t \<noteq> [] \<and> map_of k (tID t) = None \<and> (\<forall>c \<in> set (tCaps t). vAllowed v c) \<and>
     (\<forall>d \<in> set (tDeps t). map_of k d \<noteq> None) \<and>
     (MaxCost (vLimits v) > 0 \<longrightarrow> tCost t \<le> MaxCost (vLimits v))"
  by (auto simp: validateNewTask_def not_less)

lemma validate_proposal_step [step_simps]:
  "validate_proposal v st (n, p) acc = Inr acc' \<longleftrightarrow>
    (case p of
       CreateTask t r \<Rightarrow>
         validateRationale (int n) r = None \<and> validateNewTask v (int n) t (baKnown acc) = None \<and>
         acc' = acc\<lparr>baKnown := AList.update (tID t) t (baKnown acc)\<rparr>
     | AssignTask tid a caps r \<Rightarrow>
         validateRationale (int n) r = None \<and> tid \<noteq> [] \<and> a \<noteq> [] \<and> map_of (baKnown acc) tid \<noteq> None \<and>
         a \<noteq> SupervisorAgentID \<and> AgentExists (vAgents v) a \<and> (\<forall>c \<in> set caps. vAllowed v c) \<and>
         set caps \<subseteq> set (fst (Capabilities (vAgents v) a)) \<and>
         acc' = acc\<lparr>baFanout := List.insert a (baFanout acc)\<rparr>
     | RequestReview tid a r \<Rightarrow>
         validateRationale (int n) r = None \<and> tid \<noteq> [] \<and> a \<noteq> [] \<and> map_of (baKnown acc) tid \<noteq> None \<and>
         a \<noteq> SupervisorAgentID \<and> AgentExists (vAgents v) a \<and> esAssignments st tid \<noteq> Some a \<and>
         acc' = acc\<lparr>baReview := baReview acc + 1\<rparr>
     | RequestEvidence tid a r \<Rightarrow>
         validateRationale (int n) r = None \<and> tid \<noteq> [] \<and> a \<noteq> [] \<and> map_of (baKnown acc) tid \<noteq> None \<and>
         AgentExists (vAgents v) a \<and> acc' = acc
     | RetryTask tid r \<Rightarrow>
         validateRationale (int n) r = None \<and> tid \<noteq> [] \<and> map_of (baKnown acc) tid \<noteq> None \<and> acc' = acc
     | Replan new upd r \<Rightarrow>
         validateRationale (int n) r = None \<and>
         (\<exists>k1 k2. add_new_tasks v (int n) new (baKnown acc) = Inr k1 \<and> update_tasks v upd k1 = Inr k2 \<and>
            acc' = acc\<lparr>baKnown := k2, baReplan := baReplan acc + 1\<rparr>)
     | Synthesize tids s r \<Rightarrow>
         validateRationale (int n) r = None \<and> (\<forall>t \<in> set tids. map_of (baKnown acc) t \<noteq> None) \<and> acc' = acc
     | Escalate tid rs r \<Rightarrow>
         validateRationale (int n) r = None \<and> tid \<noteq> [] \<and> map_of (baKnown acc) tid \<noteq> None \<and> acc' = acc
     | _ \<Rightarrow> False)"
  by (cases p) (auto simp: validate_proposal_def Let_def bind_res_Inr split: option.splits)

lemma ValidateBatch_None:
  "ValidateBatch v st ps = None \<longleftrightarrow>
     (\<exists>acc. validate_all v st ps = Inr acc \<and> checkGuardrails v st acc = None \<and>
            findCycle (vRange v) (baKnown acc) = None)"
  by (auto simp: ValidateBatch_def split: sum.splits option.splits)

text \<open>A loop over the enumerated list, one element at a time.\<close>

lemma fold_res_enumerate_Cons:
  "fold_res f (List.enumerate n (p # ps)) s = bind_res (f (n, p) s) (fold_res f (List.enumerate (Suc n) ps))"
  by simp

lemma fold_res_enumerate_mem:
  assumes "fold_res f (List.enumerate n ps) s = Inr s'" and "p \<in> set ps"
  shows "\<exists>i a b. f (i, p) a = Inr b"
  using assms
proof (induction ps arbitrary: n s)
  case (Cons q ps)
  from Cons.prems(1) obtain t where t: "f (n, q) s = Inr t" "fold_res f (List.enumerate (Suc n) ps) t = Inr s'"
    by (auto simp: bind_res_Inr)
  show ?case
  proof (cases "p = q")
    case True
    with t show ?thesis by blast
  next
    case False
    with Cons.prems(2) Cons.IH [OF t(2)] show ?thesis by simp
  qed
qed simp

lemma validate_all_mem:
  "validate_all v st ps = Inr acc \<Longrightarrow> p \<in> set ps \<Longrightarrow> \<exists>n a b. validate_proposal v st (n, p) a = Inr b"
  unfolding validate_all_def by (rule fold_res_enumerate_mem)


subsection \<open>The iteration order does not decide acceptance\<close>

lemma validateNewTask_range [simp]: "validateNewTask (v\<lparr>vRange := r\<rparr>) i t k = validateNewTask v i t k"
  by (simp add: validateNewTask_def unknown_caps_def)

lemma add_new_tasks_range [simp]: "add_new_tasks (v\<lparr>vRange := r\<rparr>) i ts k = add_new_tasks v i ts k"
  by (induction v i ts k rule: add_new_tasks.induct) (simp_all add: guard_res_def split: option.splits)

lemma update_tasks_range [simp]: "update_tasks (v\<lparr>vRange := r\<rparr>) ts k = update_tasks v ts k"
  by (induction v ts k rule: update_tasks.induct)
    (simp_all add: guard_res_def require_def unknown_caps_def split: option.splits)

lemma validate_proposal_range [simp]: "validate_proposal (v\<lparr>vRange := r\<rparr>) st ip acc = validate_proposal v st ip acc"
  by (cases ip; cases "snd ip") (simp_all add: validate_proposal_def Let_def unknown_caps_def)

lemma validate_all_range [simp]: "validate_all (v\<lparr>vRange := r\<rparr>) st ps = validate_all v st ps"
proof -
  have "validate_proposal (v\<lparr>vRange := r\<rparr>) st = validate_proposal v st" by (intro ext) simp
  then show ?thesis by (simp add: validate_all_def)
qed

lemma checkGuardrails_range:
  "graphDepth r (baKnown acc) = graphDepth r' (baKnown acc) \<Longrightarrow>
     checkGuardrails (v\<lparr>vRange := r\<rparr>) st acc = checkGuardrails (v\<lparr>vRange := r'\<rparr>) st acc"
  by (simp add: checkGuardrails_def)

text \<open>
  Whether a batch is accepted does not depend on the order in which Go iterates the map of
  known tasks, although the search for a cycle and the depth both range over that map.
\<close>

theorem validation_order_independent:
  assumes "is_range r" and "is_range r'"
  shows "ValidateBatch (v\<lparr>vRange := r\<rparr>) st ps = None \<longleftrightarrow> ValidateBatch (v\<lparr>vRange := r'\<rparr>) st ps = None"
proof -
  have "ValidateBatch (v\<lparr>vRange := b\<rparr>) st ps = None"
    if acc: "ValidateBatch (v\<lparr>vRange := a\<rparr>) st ps = None" and ab: "is_range a" "is_range b" for a b
  proof -
    from acc obtain c where c: "validate_all v st ps = Inr c"
      "checkGuardrails (v\<lparr>vRange := a\<rparr>) st c = None" "findCycle a (baKnown c) = None"
      by (auto simp: ValidateBatch_None)
    have acyc: "acyclic (dep_rel (baKnown c))" by (rule findCycle_None [OF ab(1) c(3)])
    then have "findCycle b (baKnown c) = None" by (simp add: findCycle_None_iff [OF ab(2)])
    moreover have "checkGuardrails (v\<lparr>vRange := b\<rparr>) st c = None"
      using c(2) checkGuardrails_range [OF graphDepth_order [OF ab acyc]] by simp
    ultimately show ?thesis using c(1) by (auto simp: ValidateBatch_None)
  qed
  with assms show ?thesis by blast
qed

definition sample_dir :: agent_directory where
  "sample_dir = \<lparr>AgentExists = (\<lambda>a. a = ''coder'' \<or> a = ''reviewer''),
     Capabilities = (\<lambda>a. if a = ''coder'' then ([''write_repository''], True)
                        else if a = ''reviewer'' then ([''review''], True) else ([], False)),
     TenantOf = Some (\<lambda>a. if a = ''coder'' then (''t1'', True) else ([], False))\<rparr>"

definition sample_validator :: validator where
  "sample_validator = NewValidator sample_dir None DefaultSupervisorLimits id"

definition sample_state :: execution_state where
  "sample_state = \<lparr>esTasks = [sample_task ''a'' [] []], esReplanCount = 0, esReviewRounds = 0,
                   esAssignments = (\<lambda>_. None)\<rparr>"

definition sample_batch :: "proposal list" where
  "sample_batch = [CreateTask (sample_task ''b'' [''write_repository''] [''a'']) ''plan'',
                   AssignTask ''b'' ''coder'' [''write_repository''] ''route'']"

lemmas sample_simps = sample_dir_def sample_validator_def sample_state_def sample_batch_def sample_task_def
  NewValidator_def DefaultSupervisorLimits_def

lemmas graph_eval = findCycle_def graphDepth_def dfs_init_def deps_of_def visit.simps visit_deps.simps
  depth.simps depth_max.simps

lemmas validate_eval = ValidateBatch_def validate_all_def validate_proposal_def batch_init_def known_tasks_def
  validateRationale_def MaxRationaleLength_def validateNewTask_def unknown_caps_def known_task_def
  DefaultKnownCapabilities_def MissingCapabilities_def isSuperset_def SupervisorAgentID_def checkGuardrails_def
  Let_def require_def guard_res_def err_then_def

lemma sample_batch_accepted: "ValidateBatch (sample_validator\<lparr>vRange := id\<rparr>) sample_state sample_batch = None"
  by (simp add: validate_eval graph_eval sample_simps)

theorem validation_order_independent_witness:
  "ValidateBatch (sample_validator\<lparr>vRange := rev\<rparr>) sample_state sample_batch = None"
  using validation_order_independent [OF is_range_id(2) is_range_rev] sample_batch_accepted by simp


fun sound_proposal :: "validator \<Rightarrow> execution_state \<Rightarrow> proposal \<Rightarrow> bool" where
  "sound_proposal v st (AssignTask tid a caps r) \<longleftrightarrow>
     a \<noteq> SupervisorAgentID \<and> AgentExists (vAgents v) a \<and> list_all (vAllowed v) caps \<and>
     set caps \<subseteq> set (fst (Capabilities (vAgents v) a))"
| "sound_proposal v st (RequestReview tid a r) \<longleftrightarrow>
     a \<noteq> SupervisorAgentID \<and> AgentExists (vAgents v) a \<and> esAssignments st tid \<noteq> Some a"
| "sound_proposal v st NilProposal \<longleftrightarrow> False"
| "sound_proposal v st (ForeignProposal _) \<longleftrightarrow> False"
| "sound_proposal v st _ \<longleftrightarrow> True"

text \<open>
  In an accepted batch every assignment names a live agent other than the supervisor that
  has declared all required capabilities of the closed vocabulary, and every review request
  names a live agent that is neither the supervisor nor the task's own executor.
\<close>

theorem accepted_batch_sound:
  assumes "ValidateBatch v st ps = None"
  shows "list_all (sound_proposal v st) ps"
  unfolding list_all_iff
proof
  fix p
  assume "p \<in> set ps"
  with assms obtain n x y where "validate_proposal v st (n, p) x = Inr y"
    by (auto simp: ValidateBatch_None dest: validate_all_mem)
  then show "sound_proposal v st p"
    by (cases p) (auto simp: step_simps list_all_iff)
qed

theorem accepted_batch_sound_witness:
  "ValidateBatch sample_validator sample_state sample_batch = None \<and>
   set [''write_repository''] \<subseteq> set (fst (Capabilities (vAgents sample_validator) ''coder''))"
proof -
  have acc: "ValidateBatch sample_validator sample_state sample_batch = None"
    using sample_batch_accepted by (simp add: sample_validator_def NewValidator_def)
  show ?thesis using acc accepted_batch_sound [OF acc] by (simp add: sample_batch_def)
qed

subsection \<open>The capability lock\<close>

definition locked_with :: "string set \<Rightarrow> task option \<Rightarrow> bool" where
  "locked_with C x = (case x of None \<Rightarrow> False | Some t \<Rightarrow> tLocked t \<and> C \<subseteq> set (tCaps t))"

fun keeps_locks :: "proposal \<Rightarrow> bool" where
  "keeps_locks (Replan new upd r) = list_all tLocked upd"
| "keeps_locks _ = True"

lemma locked_with_update:
  "locked_with C (map_of k i) \<Longrightarrow>
     (\<And>old. map_of k (tID t) = Some old \<Longrightarrow> tID t = i \<Longrightarrow> locked_with C (Some t)) \<Longrightarrow>
     locked_with C (map_of (AList.update (tID t) t k) i)"
  by (cases "tID t = i") (auto simp: map_of_update locked_with_def split: option.splits)

lemma new_task_locked:
  "validateNewTask v n t k = None \<Longrightarrow> locked_with C (map_of k i) \<Longrightarrow>
     locked_with C (map_of (AList.update (tID t) t k) i)"
  by (rule locked_with_update) (auto simp: validateNewTask_None)

lemma add_new_tasks_locked:
  "add_new_tasks v n ts k = Inr k' \<Longrightarrow> locked_with C (map_of k i) \<Longrightarrow> locked_with C (map_of k' i)"
  by (induction v n ts k rule: add_new_tasks.induct) (auto dest: new_task_locked)

lemma update_tasks_locked:
  "update_tasks v ts k = Inr k' \<Longrightarrow> list_all tLocked ts \<Longrightarrow> locked_with C (map_of k i) \<Longrightarrow>
     locked_with C (map_of k' i)"
proof (induction v ts k rule: update_tasks.induct)
  case (2 v u us k)
  then obtain old where old: "map_of k (tID u) = Some old" "tLocked old \<longrightarrow> set (tCaps old) \<subseteq> set (tCaps u)"
    and rest: "update_tasks v us (AList.update (tID u) u k) = Inr k'"
    by (auto split: option.splits)
  have "locked_with C (map_of (AList.update (tID u) u k) i)"
    using 2(3,4) old by (cases "tID u = i") (auto simp: map_of_update locked_with_def)
  then show ?case using 2(1) old 2(2,3) rest by (auto split: option.splits)
qed simp

lemma validate_proposal_locked:
  "validate_proposal v st (n, p) acc = Inr acc' \<Longrightarrow> keeps_locks p \<Longrightarrow>
     locked_with C (map_of (baKnown acc) i) \<Longrightarrow> locked_with C (map_of (baKnown acc') i)"
  by (cases p)
    (auto simp: step_simps intro: new_task_locked add_new_tasks_locked update_tasks_locked)

lemma validate_batch_locked:
  "fold_res (validate_proposal v st) (List.enumerate n ps) acc = Inr acc' \<Longrightarrow> list_all keeps_locks ps \<Longrightarrow>
     locked_with C (map_of (baKnown acc) i) \<Longrightarrow> locked_with C (map_of (baKnown acc') i)"
proof (induction ps arbitrary: n acc)
  case (Cons p ps)
  then show ?case by (auto simp: bind_res_Inr dest: validate_proposal_locked)
qed simp

end
