(* ===== verification/Authorize.thy ===== *)
theory Authorize
  imports Validate
begin

text \<open>
  The authorization boundary (\<open>internal/supervisor/authorize.go\<close>): the interface, the
  deterministic policy authorizer of Core and the contract its clients (the applier and the
  executor) rely on.
\<close>

type_synonym authorizer = "execution_state \<Rightarrow> proposal \<Rightarrow> sup_error option"

definition AllowAllAuthorizer :: authorizer where
  "AllowAllAuthorizer st p = None"

record core_authorizer =
  caDirectory :: "agent_directory option"
  caDeniedAgents :: "agent_id \<Rightarrow> bool"
  caDeniedCapabilities :: "string \<Rightarrow> bool"

definition directoryAsTenantDirectory :: "core_authorizer \<Rightarrow> (agent_id \<Rightarrow> string \<times> bool) option" where
  "directoryAsTenantDirectory a =
     (case caDirectory a of None \<Rightarrow> None | Some d \<Rightarrow> TenantOf d)"

definition no_tenant_directory :: "agent_id \<Rightarrow> task \<Rightarrow> sup_error" where
  "no_tenant_directory ag t = AuthorizationFailure ag (tID t)
     (Msg ''task requires tenant %q but no TenantDirectory is configured - failing closed'' [AS (tTenant t)])"

definition CoreAuthorize :: "core_authorizer \<Rightarrow> authorizer" where
  "CoreAuthorize a st p =
     (case p of
        AssignTask tid ag caps r \<Rightarrow>
          err_then (require (\<not> caDeniedAgents a ag)
              (PolicyRejection 0 (Msg ''agent %q is denied by policy'' [AS ag])))
         (err_then (first_err (\<lambda>c. require (\<not> caDeniedCapabilities a c)
              (PolicyRejection 0 (Msg ''capability %q is denied by policy'' [AS c]))) caps)
         (case byID (esTasks st) tid of
            None \<Rightarrow> None
          | Some t \<Rightarrow>
              if tTenant t = [] then None
              else (case directoryAsTenantDirectory a of
                      None \<Rightarrow> Some (no_tenant_directory ag t)
                    | Some tenantOf \<Rightarrow>
                        require (tenantOf ag = (tTenant t, True))
                          (AuthorizationFailure ag tid
                            (Msg ''cross-tenant assignment: task requires tenant %q'' [AS (tTenant t)])))))
      | RequestReview tid ag r \<Rightarrow>
          require (\<not> caDeniedAgents a ag)
            (PolicyRejection 0 (Msg ''agent %q is denied by policy'' [AS ag]))
      | _ \<Rightarrow> None)"

text \<open>
  The contract: an authorized assignment of a task the state holds respects the task's
  tenant, and no authorized assignment or review names a denied agent or capability.
\<close>

locale tenant_authorizer =
  fixes authz :: authorizer
    and tenantOf :: "(agent_id \<Rightarrow> string \<times> bool) option"
    and denied :: "agent_id \<Rightarrow> bool"
    and deniedCap :: "string \<Rightarrow> bool"
  assumes assign_tenant:
      "authz st (AssignTask tid ag caps r) = None \<Longrightarrow> byID (esTasks st) tid = Some t \<Longrightarrow>
         tTenant t \<noteq> [] \<Longrightarrow> \<exists>f. tenantOf = Some f \<and> f ag = (tTenant t, True)"
    and assign_allowed: "authz st (AssignTask tid ag caps r) = None \<Longrightarrow> \<not> denied ag"
    and assign_caps_allowed:
      "authz st (AssignTask tid ag caps r) = None \<Longrightarrow> c \<in> set caps \<Longrightarrow> \<not> deniedCap c"
    and review_allowed: "authz st (RequestReview tid ag r) = None \<Longrightarrow> \<not> denied ag"

interpretation core_auth: tenant_authorizer
  "CoreAuthorize a" "directoryAsTenantDirectory a" "caDeniedAgents a" "caDeniedCapabilities a"
  for a
  by unfold_locales
    (auto simp: CoreAuthorize_def split: option.splits if_splits)

lemma CoreAuthorize_other:
  "(\<forall>tid ag caps r. p \<noteq> AssignTask tid ag caps r) \<Longrightarrow> (\<forall>tid ag r. p \<noteq> RequestReview tid ag r) \<Longrightarrow>
     CoreAuthorize a st p = None"
  by (cases p) (auto simp: CoreAuthorize_def)

end
