(* ===== verification/CoreState.thy ===== *)
theory CoreState
  imports Authorize
begin

text \<open>
  Core's authoritative task-graph state (\<open>internal/supervisor/state.go\<close>). Every operation is
  one critical section under the state's lock, so a concurrent execution is a sequence of
  these operations. Values replace the defensive copies of \<open>cloneGraph\<close>: an operation
  returns the new state, and the old one cannot be reached through an alias.
\<close>

text \<open>\<open>csPersist\<close> is the durability hook; \<open>None\<close> is the nil hook, an inner \<open>None\<close> no error.\<close>

record core_state =
  csGraph :: task_graph
  csAssign :: "task_id \<Rightarrow> agent_id option"
  csReplan :: int
  csReview :: int
  csPersist :: "(task_graph \<Rightarrow> msg option) option"

definition NewCoreState :: "task_graph \<Rightarrow> (task_graph \<Rightarrow> msg option) option \<Rightarrow> core_state" where
  "NewCoreState g persist =
     \<lparr>csGraph = g, csAssign = (\<lambda>_. None), csReplan = 0, csReview = 0, csPersist = persist\<rparr>"

definition Snapshot :: "core_state \<Rightarrow> execution_state" where
  "Snapshot s = \<lparr>esTasks = csGraph s, esReplanCount = csReplan s, esReviewRounds = csReview s,
                 esAssignments = csAssign s\<rparr>"

text \<open>The index of the first task with the identifier (\<open>-1\<close> in the source is \<open>None\<close>).\<close>

fun indexOf :: "task list \<Rightarrow> task_id \<Rightarrow> nat option" where
  "indexOf [] i = None"
| "indexOf (t # ts) i = (if tID t = i then Some 0 else map_option Suc (indexOf ts i))"

text \<open>The working copy a batch is applied to.\<close>

record work =
  wGraph :: task_graph
  wAssign :: "task_id \<Rightarrow> agent_id option"
  wReplan :: int
  wReview :: int

definition with_default_status :: "task \<Rightarrow> task" where
  "with_default_status t = (if tStatus t = StEmpty then t\<lparr>tStatus := StPending\<rparr> else t)"

definition append_task :: "task \<Rightarrow> task_graph \<Rightarrow> sup_error + task_graph" where
  "append_task t g =
     (if indexOf g (tID t) \<noteq> None
      then Inl (StateTransitionFailure (tID t)
             (plain ''task already exists at apply time (created concurrently by another batch)''))
      else Inr (g @ [with_default_status t]))"

definition replace_task :: "task \<Rightarrow> task_graph \<Rightarrow> sup_error + task_graph" where
  "replace_task u g =
     (case indexOf g (tID u) of
        None \<Rightarrow> Inl (StateTransitionFailure (tID u) (plain ''updated task not found at apply time''))
      | Some k \<Rightarrow> Inr (g[k := u\<lparr>tStatus := tStatus (g ! k)\<rparr>]))"

fun apply_proposal :: "proposal \<Rightarrow> work \<Rightarrow> sup_error + work" where
  "apply_proposal (CreateTask t r) w =
     bind_res (append_task t (wGraph w)) (\<lambda>g. Inr (w\<lparr>wGraph := g\<rparr>))"
| "apply_proposal (AssignTask tid a caps r) w =
     (case indexOf (wGraph w) tid of
        None \<Rightarrow> Inl (StateTransitionFailure tid (plain ''task not found at apply time''))
      | Some k \<Rightarrow>
          let t = wGraph w ! k in
          if tStatus t \<noteq> StEmpty \<and> tStatus t \<noteq> StPending
          then Inl (StateTransitionFailure tid (Msg ''cannot assign a task in status %q'' [AS (status_string (tStatus t))]))
          else Inr (w\<lparr>wGraph := (wGraph w)[k := t\<lparr>tStatus := StAssigned\<rparr>],
                      wAssign := (wAssign w)(tid \<mapsto> a)\<rparr>))"
| "apply_proposal (RetryTask tid r) w =
     (case indexOf (wGraph w) tid of
        None \<Rightarrow> Inl (StateTransitionFailure tid (plain ''task not found at apply time''))
      | Some k \<Rightarrow>
          let t = wGraph w ! k in
          if tStatus t \<noteq> StFailed
          then Inl (StateTransitionFailure tid (Msg ''retry requires status %q, got %q''
                [AS (status_string StFailed), AS (status_string (tStatus t))]))
          else Inr (w\<lparr>wGraph := (wGraph w)[k := t\<lparr>tStatus := StPending\<rparr>],
                      wAssign := (wAssign w)(tid := None)\<rparr>))"
| "apply_proposal (Replan new upd r) w =
     bind_res (fold_res append_task new (wGraph w)) (\<lambda>g.
     bind_res (fold_res replace_task upd g) (\<lambda>g'.
       Inr (w\<lparr>wGraph := g', wReplan := wReplan w + 1\<rparr>)))"
| "apply_proposal (RequestReview tid a r) w = Inr (w\<lparr>wReview := wReview w + 1\<rparr>)"
| "apply_proposal (RequestEvidence tid a r) w = Inr w"
| "apply_proposal (Synthesize tids s r) w = Inr w"
| "apply_proposal (Escalate tid reason r) w = Inr w"
| "apply_proposal NilProposal w =
     Inl (StateTransitionFailure [] (plain ''unhandled proposal type %T at apply time''))"
| "apply_proposal (ForeignProposal pt) w =
     Inl (StateTransitionFailure [] (plain ''unhandled proposal type %T at apply time''))"

definition authorize_all ::
  "authorizer \<Rightarrow> execution_state \<Rightarrow> proposal list \<Rightarrow> sup_error option"
where
  "authorize_all authz st ps =
     first_err (\<lambda>(i, p). map_option (WrappedError (Msg ''proposal %d'' [AI (int i)])) (authz st p))
       (List.enumerate 0 ps)"

definition work_init :: "core_state \<Rightarrow> work" where
  "work_init s = \<lparr>wGraph = csGraph s, wAssign = csAssign s, wReplan = csReplan s, wReview = csReview s\<rparr>"

definition commit_work :: "work \<Rightarrow> core_state \<Rightarrow> core_state" where
  "commit_work w s = s\<lparr>csGraph := wGraph w, csAssign := wAssign w, csReplan := wReplan w, csReview := wReview w\<rparr>"

definition persist_err :: "core_state \<Rightarrow> task_graph \<Rightarrow> sup_error option" where
  "persist_err s g =
     (case csPersist s of
        None \<Rightarrow> None
      | Some f \<Rightarrow>
          map_option (\<lambda>m. StateTransitionFailure [] (Msg ''persistence failed, state unchanged: %v'' [AM m])) (f g))"

text \<open>The new state, the returned snapshot and the error.\<close>

definition applyGated ::
  "validator \<Rightarrow> authorizer \<Rightarrow> proposal list \<Rightarrow> core_state \<Rightarrow>
     core_state \<times> execution_state \<times> sup_error option"
where
  "applyGated v authz ps s =
     (let current = Snapshot s in
      case ValidateBatch v current ps of
        Some e \<Rightarrow> (s, current, Some e)
      | None \<Rightarrow>
      (case authorize_all authz current ps of
        Some e \<Rightarrow> (s, current, Some e)
      | None \<Rightarrow>
      (case fold_res apply_proposal ps (work_init s) of
        Inl e \<Rightarrow> (s, current, Some e)
      | Inr w \<Rightarrow>
      (case persist_err s (wGraph w) of
        Some e \<Rightarrow> (s, current, Some e)
      | None \<Rightarrow> let s' = commit_work w s in (s', Snapshot s', None)))))"

definition transition ::
  "task_status \<Rightarrow> task_status \<Rightarrow> task_id \<Rightarrow> core_state \<Rightarrow> core_state \<times> sup_error option"
where
  "transition old new tid s =
     (case indexOf (csGraph s) tid of
        None \<Rightarrow> (s, Some (StateTransitionFailure tid (plain ''task not found'')))
      | Some k \<Rightarrow>
          let t = csGraph s ! k in
          if tStatus t \<noteq> old
          then (s, Some (StateTransitionFailure tid (Msg ''expected status %q, got %q''
                [AS (status_string old), AS (status_string (tStatus t))])))
          else (s\<lparr>csGraph := (csGraph s)[k := t\<lparr>tStatus := new\<rparr>]\<rparr>, None))"

definition MarkExecuting :: "task_id \<Rightarrow> core_state \<Rightarrow> core_state \<times> sup_error option" where
  "MarkExecuting = transition StAssigned StExecuting"

definition MarkCompleted :: "task_id \<Rightarrow> core_state \<Rightarrow> core_state \<times> sup_error option" where
  "MarkCompleted = transition StExecuting StCompleted"

definition MarkFailed :: "task_id \<Rightarrow> core_state \<Rightarrow> core_state \<times> sup_error option" where
  "MarkFailed = transition StExecuting StFailed"

subsection \<open>The applier and the events of the state\<close>

record applier =
  apValidator :: validator
  apAuthorizer :: authorizer

definition Apply ::
  "applier \<Rightarrow> proposal list \<Rightarrow> core_state \<Rightarrow> core_state \<times> execution_state \<times> sup_error option"
where
  "Apply a ps s = applyGated (apValidator a) (apAuthorizer a) ps s"

text \<open>Everything that ever changes the state: the four entry points of the lock.\<close>

datatype core_event =
    EvApply "proposal list"
  | EvExecuting task_id
  | EvCompleted task_id
  | EvFailed task_id

fun core_step :: "applier \<Rightarrow> core_event \<Rightarrow> core_state \<Rightarrow> core_state" where
  "core_step a (EvApply ps) s = fst (Apply a ps s)"
| "core_step a (EvExecuting i) s = fst (MarkExecuting i s)"
| "core_step a (EvCompleted i) s = fst (MarkCompleted i s)"
| "core_step a (EvFailed i) s = fst (MarkFailed i s)"


subsection \<open>Indexing and updating tasks\<close>

lemma indexOf_None [simp]: "indexOf g i = None \<longleftrightarrow> i \<notin> tID ` set g"
  by (induction g) auto

lemma indexOf_Some: "indexOf g i = Some k \<Longrightarrow> k < length g \<and> tID (g ! k) = i \<and> byID g i = Some (g ! k)"
  by (induction g arbitrary: k) (auto split: if_splits)

lemma indexOf_facts:
  "indexOf g i = Some k \<Longrightarrow> tID (g ! k) = i" "indexOf g i = Some k \<Longrightarrow> byID g i = Some (g ! k)"
  by (auto dest: indexOf_Some)

lemma map_tID_update: "k < length g \<Longrightarrow> tID u = tID (g ! k) \<Longrightarrow> map tID (g[k := u]) = map tID g"
  by (metis list_update_id map_update)

lemma byID_list_update:
  "indexOf g i = Some k \<Longrightarrow> tID u = i \<Longrightarrow> byID (g[k := u]) j = (if j = i then Some u else byID g j)"
  by (induction g arbitrary: k) (auto split: if_splits)

lemma byID_append:
  "byID (g @ [u]) j = (case byID g j of Some t \<Rightarrow> Some t | None \<Rightarrow> if tID u = j then Some u else None)"
  by (induction g) auto

lemma set_update_tID:
  "indexOf g i = Some k \<Longrightarrow> tID u = i \<Longrightarrow> tID ` set (g[k := u]) = tID ` set g"
  by (metis indexOf_Some image_set map_tID_update)

subsection \<open>The validator's known tasks mirror the working graph\<close>

definition forget_status :: "task \<Rightarrow> task" where
  "forget_status t = t\<lparr>tStatus := StEmpty\<rparr>"

lemma forget_status_simps [simp]:
  "forget_status (t\<lparr>tStatus := x\<rparr>) = forget_status t" "tDeps (forget_status t) = tDeps t"
  "forget_status (with_default_status t) = forget_status t" "tID (with_default_status t) = tID t"
  by (simp_all add: forget_status_def with_default_status_def)

lemma locked_with_forget: "locked_with C (map_option forget_status x) = locked_with C x"
  by (cases x) (simp_all add: locked_with_def forget_status_def)

definition mirrors :: "task_map \<Rightarrow> task_graph \<Rightarrow> bool" where
  "mirrors k g \<longleftrightarrow> distinct (map tID g) \<and>
     (\<forall>i. map_option forget_status (map_of k i) = map_option forget_status (byID g i))"

lemma mirrors_keys: "mirrors k g \<Longrightarrow> fst ` set k = tID ` set g"
proof -
  assume m: "mirrors k g"
  have "map_of k i = None \<longleftrightarrow> byID g i = None" for i
    using m unfolding mirrors_def by (metis map_option_is_None)
  then show ?thesis by (auto simp: map_of_eq_None_iff byID_None)
qed

lemma mirrors_deps:
  assumes "mirrors k g"
  shows "deps_of k = deps_of (known_tasks g)"
proof
  fix i
  from assms have "map_option forget_status (map_of k i) = map_option forget_status (map_of (known_tasks g) i)"
    by (simp add: mirrors_def map_of_known_tasks)
  then have "map_option (tDeps \<circ> forget_status) (map_of k i) =
      map_option (tDeps \<circ> forget_status) (map_of (known_tasks g) i)"
    by (simp add: option.map_comp [symmetric])
  then show "deps_of k i = deps_of (known_tasks g) i"
    by (auto simp: deps_of_def comp_def split: option.splits)
qed

lemma mirrors_rel: "mirrors k g \<Longrightarrow> dep_rel k = dep_rel (known_tasks g)"
  by (simp add: dep_rel_def mirrors_deps)

lemma mirrors_chain:
  assumes "mirrors k g"
  shows "dep_chain k c = dep_chain (known_tasks g) c"
  by (induction "known_tasks g" c rule: dep_chain.induct) (simp_all add: mirrors_deps [OF assms])

lemma mirrors_init: "distinct (map tID g) \<Longrightarrow> mirrors (known_tasks g) g"
  by (simp add: mirrors_def map_of_known_tasks)

lemma mirrors_append:
  "mirrors k g \<Longrightarrow> append_task t g = Inr g' \<Longrightarrow> mirrors (AList.update (tID t) t k) g'"
  by (auto simp: mirrors_def append_task_def byID_append map_of_update split: if_splits option.splits)

lemma mirrors_replace:
  assumes "mirrors k g" and "replace_task u g = Inr g'"
  shows "mirrors (AList.update (tID u) u k) g'"
proof -
  obtain n where n: "indexOf g (tID u) = Some n" and g': "g' = g[n := u\<lparr>tStatus := tStatus (g ! n)\<rparr>]"
    using assms(2) by (auto simp: replace_task_def split: option.splits)
  have "map tID g' = map tID g"
    unfolding g' using indexOf_Some [OF n] by (intro map_tID_update) auto
  with assms(1) byID_list_update [OF n, of "u\<lparr>tStatus := tStatus (g ! n)\<rparr>"] show ?thesis
    by (simp add: mirrors_def map_of_update g')
qed

lemma mirrors_status:
  assumes "mirrors k g" and "indexOf g i = Some n"
  shows "mirrors k (g[n := (g ! n)\<lparr>tStatus := x\<rparr>])"
proof -
  have "map tID (g[n := (g ! n)\<lparr>tStatus := x\<rparr>]) = map tID g"
    using indexOf_Some [OF assms(2)] by (intro map_tID_update) auto
  with assms byID_list_update [OF assms(2), of "(g ! n)\<lparr>tStatus := x\<rparr>"] indexOf_Some [OF assms(2)]
  show ?thesis by (simp add: mirrors_def)
qed

lemma mirrors_new_tasks:
  "add_new_tasks v n ts k = Inr k' \<Longrightarrow> fold_res append_task ts g = Inr g' \<Longrightarrow> mirrors k g \<Longrightarrow> mirrors k' g'"
proof (induction v n ts k arbitrary: g rule: add_new_tasks.induct)
  case (2 v n t ts k)
  from 2(3) obtain h where h: "append_task t g = Inr h" "fold_res append_task ts h = Inr g'"
    by (auto simp: bind_res_Inr)
  with 2 mirrors_append [OF 2(4) h(1)] show ?case by simp
qed simp

lemma mirrors_updates:
  "update_tasks v ts k = Inr k' \<Longrightarrow> fold_res replace_task ts g = Inr g' \<Longrightarrow> mirrors k g \<Longrightarrow> mirrors k' g'"
proof (induction v ts k arbitrary: g rule: update_tasks.induct)
  case (2 v u us k)
  from 2(3) obtain h where h: "replace_task u g = Inr h" "fold_res replace_task us h = Inr g'"
    by (auto simp: bind_res_Inr)
  with 2 mirrors_replace [OF 2(4) h(1)] show ?case by (auto split: option.splits)
qed simp

definition tracks :: "execution_state \<Rightarrow> batch_acc \<Rightarrow> work \<Rightarrow> bool" where
  "tracks st acc w \<longleftrightarrow> mirrors (baKnown acc) (wGraph w) \<and>
     wReplan w = esReplanCount st + baReplan acc \<and> wReview w = esReviewRounds st + baReview acc \<and>
     0 \<le> baReplan acc \<and> 0 \<le> baReview acc"

lemma tracks_step:
  assumes "validate_proposal v st (n, p) acc = Inr acc'" and "apply_proposal p w = Inr w'"
    and "tracks st acc w"
  shows "tracks st acc' w'"
  using assms
  by (cases p)
    (auto simp: step_simps tracks_def bind_res_Inr Let_def intro: mirrors_append mirrors_status
        mirrors_new_tasks mirrors_updates split: option.splits if_splits)

lemma tracks_batch:
  "fold_res (validate_proposal v st) (List.enumerate n ps) acc = Inr acc' \<Longrightarrow>
     fold_res apply_proposal ps w = Inr w' \<Longrightarrow> tracks st acc w \<Longrightarrow> tracks st acc' w'"
proof (induction ps arbitrary: n acc w)
  case (Cons p ps)
  then show ?case by (auto simp: bind_res_Inr dest: tracks_step)
qed simp


subsection \<open>The invariant of the committed state\<close>

text \<open>
  Task identifiers are unique, the dependency graph is acyclic, no chain of dependencies
  exceeds the configured depth and the counters stay within their limits.
\<close>

definition graph_ok :: "supervisor_limits \<Rightarrow> task_graph \<Rightarrow> bool" where
  "graph_ok L g \<longleftrightarrow> distinct (map tID g) \<and> acyclic (dep_rel (known_tasks g)) \<and>
     (0 < MaxTaskDepth L \<longrightarrow>
        (\<forall>c. dep_chain (known_tasks g) c \<longrightarrow> c \<noteq> [] \<longrightarrow> hd c \<in> tID ` set g \<longrightarrow>
             int (length c) \<le> MaxTaskDepth L))"

definition counters_ok :: "supervisor_limits \<Rightarrow> int \<Rightarrow> int \<Rightarrow> bool" where
  "counters_ok L replans reviews \<longleftrightarrow> 0 \<le> replans \<and> 0 \<le> reviews \<and>
     (0 < MaxReplanCount L \<longrightarrow> replans \<le> MaxReplanCount L) \<and>
     (0 < MaxReviewRounds L \<longrightarrow> reviews \<le> MaxReviewRounds L)"

definition core_inv :: "supervisor_limits \<Rightarrow> core_state \<Rightarrow> bool" where
  "core_inv L s \<longleftrightarrow> graph_ok L (csGraph s) \<and> counters_ok L (csReplan s) (csReview s)"

lemma applyGated_cases:
  obtains (rejected) e where "applyGated v authz ps s = (s, Snapshot s, Some e)"
  | (committed) w where "ValidateBatch v (Snapshot s) ps = None"
      "authorize_all authz (Snapshot s) ps = None" "fold_res apply_proposal ps (work_init s) = Inr w"
      "persist_err s (wGraph w) = None"
      "applyGated v authz ps s = (commit_work w s, Snapshot (commit_work w s), None)"
proof (cases "ValidateBatch v (Snapshot s) ps = None \<and> authorize_all authz (Snapshot s) ps = None")
  case True
  then show thesis
  proof (cases "fold_res apply_proposal ps (work_init s)")
    case (Inr w)
    with True that show thesis
      by (cases "persist_err s (wGraph w)") (simp_all add: applyGated_def Let_def)
  qed (use that in \<open>simp add: applyGated_def Let_def\<close>)
next
  case False
  then have "\<exists>e. applyGated v authz ps s = (s, Snapshot s, Some e)"
    by (auto simp: applyGated_def Let_def split: option.splits)
  with that show thesis by blast
qed

lemma commit_work_simps [simp]:
  "csGraph (commit_work w s) = wGraph w" "csAssign (commit_work w s) = wAssign w"
  "csReplan (commit_work w s) = wReplan w" "csReview (commit_work w s) = wReview w"
  "csPersist (commit_work w s) = csPersist s"
  by (simp_all add: commit_work_def)

lemma work_init_simps [simp]:
  "wGraph (work_init s) = csGraph s" "wAssign (work_init s) = csAssign s"
  "wReplan (work_init s) = csReplan s" "wReview (work_init s) = csReview s"
  by (simp_all add: work_init_def)

lemma Snapshot_simps [simp]:
  "esTasks (Snapshot s) = csGraph s" "esAssignments (Snapshot s) = csAssign s"
  "esReplanCount (Snapshot s) = csReplan s" "esReviewRounds (Snapshot s) = csReview s"
  by (simp_all add: Snapshot_def)

lemma committed_tracks:
  assumes "distinct (map tID (csGraph s))" and "ValidateBatch v (Snapshot s) ps = None"
    and "fold_res apply_proposal ps (work_init s) = Inr w"
  obtains acc where "validate_all v (Snapshot s) ps = Inr acc" "tracks (Snapshot s) acc w"
    "checkGuardrails v (Snapshot s) acc = None" "findCycle (vRange v) (baKnown acc) = None"
proof -
  obtain acc where acc: "validate_all v (Snapshot s) ps = Inr acc"
    "checkGuardrails v (Snapshot s) acc = None" "findCycle (vRange v) (baKnown acc) = None"
    using assms(2) by (auto simp: ValidateBatch_None)
  have "tracks (Snapshot s) (batch_init (Snapshot s)) (work_init s)"
    using mirrors_init [OF assms(1)] by (simp add: tracks_def batch_init_def)
  from tracks_batch [OF acc(1) [unfolded validate_all_def] assms(3) this] acc that show thesis by blast
qed

lemma guardrails_counters:
  "checkGuardrails v st acc = None \<Longrightarrow> 0 \<le> baReplan acc \<Longrightarrow> 0 \<le> baReview acc \<Longrightarrow>
     counters_ok (vLimits v) (esReplanCount st) (esReviewRounds st) \<Longrightarrow>
     counters_ok (vLimits v) (esReplanCount st + baReplan acc) (esReviewRounds st + baReview acc)"
  by (auto simp: checkGuardrails_def Let_def counters_ok_def)

lemma committed_inv:
  assumes "is_range (vRange v)" and "core_inv (vLimits v) s"
    and "ValidateBatch v (Snapshot s) ps = None" and "fold_res apply_proposal ps (work_init s) = Inr w"
  shows "core_inv (vLimits v) (commit_work w s)"
proof -
  have "distinct (map tID (csGraph s))" using assms(2) by (simp add: core_inv_def graph_ok_def)
  then obtain acc where acc: "tracks (Snapshot s) acc w"
    "checkGuardrails v (Snapshot s) acc = None" "findCycle (vRange v) (baKnown acc) = None"
    using committed_tracks assms(3,4) by metis
  then have m: "mirrors (baKnown acc) (wGraph w)" by (simp add: tracks_def)
  have acyc: "acyclic (dep_rel (baKnown acc))" using findCycle_None [OF assms(1) acc(3)] .
  have "int (length c) \<le> MaxTaskDepth (vLimits v)"
    if "0 < MaxTaskDepth (vLimits v)" "dep_chain (baKnown acc) c" "c \<noteq> []" "hd c \<in> fst ` set (baKnown acc)" for c
    using graphDepth_chain [OF assms(1) acyc that(2-4)] acc(2) that(1)
    by (auto simp: checkGuardrails_def Let_def)
  with m acyc have "graph_ok (vLimits v) (wGraph w)"
    by (auto simp: graph_ok_def mirrors_rel [OF m, symmetric] mirrors_chain [OF m, symmetric]
        mirrors_keys [OF m, symmetric] mirrors_def [of "baKnown acc" "wGraph w"])
  moreover have "counters_ok (vLimits v) (wReplan w) (wReview w)"
    using guardrails_counters [OF acc(2)] acc(1) assms(2) by (simp add: tracks_def core_inv_def)
  ultimately show ?thesis by (simp add: core_inv_def)
qed

lemma applyGated_inv [inv_intros]:
  assumes "is_range (vRange v)" and "core_inv (vLimits v) s"
  shows "core_inv (vLimits v) (fst (applyGated v authz ps s))"
proof (cases rule: applyGated_cases [of v authz ps s])
  case (committed w)
  with committed_inv [OF assms committed(1,3)] show ?thesis by simp
qed (use assms in simp)

lemma graph_ok_status:
  assumes "graph_ok L g" and "indexOf g i = Some n"
  shows "graph_ok L (g[n := (g ! n)\<lparr>tStatus := x\<rparr>])"
proof -
  let ?h = "g[n := (g ! n)\<lparr>tStatus := x\<rparr>]"
  have m: "mirrors (known_tasks g) ?h"
    using mirrors_status [OF mirrors_init assms(2)] assms(1) by (simp add: graph_ok_def)
  then have d: "distinct (map tID ?h)" by (simp add: mirrors_def)
  have k: "tID ` set ?h = tID ` set g"
    using indexOf_Some [OF assms(2)] by (intro set_update_tID [OF assms(2)]) simp
  show ?thesis
    using assms(1) d k by (simp add: graph_ok_def mirrors_rel [OF m, symmetric] mirrors_chain [OF m, symmetric])
qed

lemma transition_inv [inv_intros]: "core_inv L s \<Longrightarrow> core_inv L (fst (transition old new i s))"
  by (auto simp: transition_def core_inv_def Let_def graph_ok_status split: option.splits)

lemma core_step_inv:
  assumes "is_range (vRange (apValidator a))" and "core_inv (vLimits (apValidator a)) s"
  shows "core_inv (vLimits (apValidator a)) (core_step a e s)"
  using assms
  by (cases e) (auto simp: Apply_def MarkExecuting_def MarkCompleted_def MarkFailed_def intro!: inv_intros)

subsection \<open>The life cycle of a task\<close>

inductive status_edge :: "task_status \<Rightarrow> task_status \<Rightarrow> bool" where
  assign: "status_edge StPending StAssigned"
| assign_unset: "status_edge StEmpty StAssigned"
| execute: "status_edge StAssigned StExecuting"
| complete: "status_edge StExecuting StCompleted"
| fail: "status_edge StExecuting StFailed"
| retry: "status_edge StFailed StPending"

inductive_simps status_edge_from [simp]:
  "status_edge StCompleted x" "status_edge StAssigned x" "status_edge StExecuting x"
  "status_edge StFailed x" "status_edge StPending x" "status_edge StEmpty x"

definition status_of :: "core_state \<Rightarrow> task_id \<Rightarrow> task_status option" where
  "status_of s i = map_option tStatus (byID (csGraph s) i)"

definition statuses_advance :: "task_graph \<Rightarrow> task_graph \<Rightarrow> bool" where
  "statuses_advance g h \<longleftrightarrow>
     (\<forall>i t. byID g i = Some t \<longrightarrow> (\<exists>u. byID h i = Some u \<and> status_edge\<^sup>*\<^sup>* (tStatus t) (tStatus u)))"

lemma statuses_advance_refl [simp]: "statuses_advance g g"
  by (auto simp: statuses_advance_def)

lemma statuses_advance_trans: "statuses_advance g h \<Longrightarrow> statuses_advance h k \<Longrightarrow> statuses_advance g k"
  unfolding statuses_advance_def by (meson rtranclp_trans)

lemma statuses_advance_append: "append_task t g = Inr h \<Longrightarrow> statuses_advance g h"
  by (auto simp: append_task_def statuses_advance_def byID_append split: if_splits)

lemma statuses_advance_set:
  assumes "indexOf g i = Some n" and "tID u = i" and "status_edge\<^sup>*\<^sup>* (tStatus (g ! n)) (tStatus u)"
  shows "statuses_advance g (g[n := u])"
  using assms indexOf_Some [OF assms(1)] byID_list_update [OF assms(1,2)]
  by (auto simp: statuses_advance_def)

lemma statuses_advance_replace: "replace_task u g = Inr h \<Longrightarrow> statuses_advance g h"
  by (auto simp: replace_task_def split: option.splits intro!: statuses_advance_set)

lemma statuses_advance_fold:
  assumes "\<And>x g h. f x g = Inr h \<Longrightarrow> statuses_advance g h" and "fold_res f xs g = Inr h"
  shows "statuses_advance g h"
  using assms(2)
proof (induction xs arbitrary: g)
  case (Cons x xs)
  then obtain k where k: "f x g = Inr k" "fold_res f xs k = Inr h" by (auto simp: bind_res_Inr)
  show ?case using assms(1) [OF k(1)] Cons.IH [OF k(2)] by (rule statuses_advance_trans)
qed simp

lemma apply_proposal_advance:
  assumes "apply_proposal p w = Inr w'"
  shows "statuses_advance (wGraph w) (wGraph w')"
proof (cases p)
  case (Replan new upd r)
  then obtain g where g: "fold_res append_task new (wGraph w) = Inr g" "fold_res replace_task upd g = Inr (wGraph w')"
    using assms by (auto simp: bind_res_Inr)
  show ?thesis
    by (rule statuses_advance_trans; rule statuses_advance_fold [OF _ g(1)] statuses_advance_fold [OF _ g(2)])
      (auto intro: statuses_advance_append statuses_advance_replace)
next
  case (AssignTask tid a caps r)
  then obtain n where "indexOf (wGraph w) tid = Some n" and "status_edge (tStatus (wGraph w ! n)) StAssigned"
    and "wGraph w' = (wGraph w)[n := (wGraph w ! n)\<lparr>tStatus := StAssigned\<rparr>]"
    using assms by (auto simp: Let_def split: option.splits if_splits)
  then show ?thesis by (auto intro!: statuses_advance_set dest: indexOf_Some)
next
  case (RetryTask tid r)
  then obtain n where "indexOf (wGraph w) tid = Some n" and "tStatus (wGraph w ! n) = StFailed"
    and "wGraph w' = (wGraph w)[n := (wGraph w ! n)\<lparr>tStatus := StPending\<rparr>]"
    using assms by (auto simp: Let_def split: option.splits if_splits)
  then show ?thesis by (auto intro!: statuses_advance_set dest: indexOf_Some)
qed (use assms in \<open>auto simp: bind_res_Inr intro: statuses_advance_append\<close>)

lemma batch_advance:
  "fold_res apply_proposal ps w = Inr w' \<Longrightarrow> statuses_advance (wGraph w) (wGraph w')"
proof (induction ps arbitrary: w)
  case (Cons p ps)
  then obtain u where u: "apply_proposal p w = Inr u" "fold_res apply_proposal ps u = Inr w'"
    by (auto simp: bind_res_Inr)
  show ?case using apply_proposal_advance [OF u(1)] Cons.IH [OF u(2)] by (rule statuses_advance_trans)
qed simp

lemma transition_advance:
  "status_edge old new \<Longrightarrow> statuses_advance (csGraph s) (csGraph (fst (transition old new i s)))"
  by (auto simp: transition_def Let_def split: option.splits intro!: statuses_advance_set dest: indexOf_Some)

lemma core_step_advance: "statuses_advance (csGraph s) (csGraph (core_step a e s))"
proof (cases e)
  case (EvApply ps)
  then show ?thesis
    by (cases rule: applyGated_cases [of "apValidator a" "apAuthorizer a" ps s])
      (auto simp: Apply_def dest: batch_advance)
qed (auto simp: MarkExecuting_def MarkCompleted_def MarkFailed_def intro!: transition_advance)

lemma status_edge_completed: "status_edge\<^sup>*\<^sup>* StCompleted x \<Longrightarrow> x = StCompleted"
  by (erule converse_rtranclpE) auto


subsection \<open>The state as a machine\<close>

interpretation core: state_machine "core_step a"
  "\<lambda>s. is_range (vRange (apValidator a)) \<and> core_inv (vLimits (apValidator a)) s" for a
  by unfold_locales (auto intro: core_step_inv)

interpretation core_status: monotone_machine "core_step a" "\<lambda>_. True"
  "\<lambda>s t. statuses_advance (csGraph s) (csGraph t)" for a
  by unfold_locales (auto intro: statuses_advance_trans core_step_advance)

lemma authorize_all_None:
  "authorize_all authz st ps = None \<longleftrightarrow> (\<forall>p \<in> set ps. authz st p = None)"
proof -
  have "set ps = snd ` set (List.enumerate 0 ps)"
    by (metis image_set map_snd_enumerate)
  then show ?thesis by (auto simp: authorize_all_def case_prod_beta)
qed

context tenant_authorizer begin

text \<open>What an authorizer of this contract gives the applier: committed assignments are safe.\<close>

lemma committed_assignment:
  assumes "applyGated v authz ps s = (s', st, None)" and "AssignTask tid a caps r \<in> set ps"
    and "byID (csGraph s) tid = Some t" and "tTenant t \<noteq> []"
  shows "\<exists>f. tenantOf = Some f \<and> f a = (tTenant t, True)"
proof -
  have "authorize_all authz (Snapshot s) ps = None"
    using assms(1) by (cases rule: applyGated_cases [of v authz ps s]) auto
  then have "authz (Snapshot s) (AssignTask tid a caps r) = None"
    using assms(2) by (auto simp: authorize_all_None)
  then show ?thesis using assms(3,4) by (intro assign_tenant) auto
qed

lemma committed_not_denied:
  assumes "applyGated v authz ps s = (s', st, None)" and "AssignTask tid a caps r \<in> set ps"
  shows "\<not> denied a \<and> (\<forall>c \<in> set caps. \<not> deniedCap c)"
proof -
  have "authorize_all authz (Snapshot s) ps = None"
    using assms(1) by (cases rule: applyGated_cases [of v authz ps s]) auto
  then have "authz (Snapshot s) (AssignTask tid a caps r) = None"
    using assms(2) by (auto simp: authorize_all_None)
  then show ?thesis by (auto dest: assign_allowed assign_caps_allowed)
qed

end

subsection \<open>Properties\<close>

text \<open>
  Applying a batch is all or nothing. A returned error leaves the state as it was and
  returns the old snapshot; without an error the batch was valid, every proposal was
  authorized against the state before the batch, all proposals were applied in order, the
  durability hook accepted the result and the returned snapshot is the new state's.
\<close>

theorem apply_all_or_nothing:
  "case Apply a ps s of
     (s', st, Some e) \<Rightarrow> s' = s \<and> st = Snapshot s
   | (s', st, None) \<Rightarrow>
       ValidateBatch (apValidator a) (Snapshot s) ps = None \<and>
       list_all (\<lambda>p. apAuthorizer a (Snapshot s) p = None) ps \<and>
       fold_res apply_proposal ps (work_init s) =
         Inr \<lparr>wGraph = csGraph s', wAssign = csAssign s', wReplan = csReplan s', wReview = csReview s'\<rparr> \<and>
       persist_err s (csGraph s') = None \<and> csPersist s' = csPersist s \<and> st = Snapshot s'"
  by (cases rule: applyGated_cases [of "apValidator a" "apAuthorizer a" ps s])
    (simp_all add: Apply_def authorize_all_None list_all_iff)

text \<open>
  C28: whatever batches are submitted and whatever execution outcomes are reported, in any
  order, the committed task graph keeps unique identifiers and no dependency cycle, no chain
  of dependencies gets longer than the configured depth, and the replan and review counters
  stay within their limits.
\<close>

theorem core_reachable_inv:
  assumes "is_range (vRange (apValidator a))" and "core_inv (vLimits (apValidator a)) s"
  shows "core_inv (vLimits (apValidator a)) (fold (core_step a) es s)"
  using core.run_inv [of a s es] assms by simp

definition sample_applier :: applier where
  "sample_applier = \<lparr>apValidator = sample_validator, apAuthorizer = AllowAllAuthorizer\<rparr>"

definition sample_core :: core_state where
  "sample_core = NewCoreState [sample_task ''a'' [] []] None"

lemma sample_core_inv: "core_inv L sample_core"
proof -
  have "acyclic (dep_rel (known_tasks [sample_task ''a'' [] []]))"
    by (rule findCycle_None [OF is_range_id(2)])
      (simp add: known_tasks_def sample_task_def graph_eval)
  moreover have "length c \<le> 1" if "dep_chain (known_tasks [sample_task ''a'' [] []]) c" for c
    using that
    by (cases "(known_tasks [sample_task ''a'' [] []], c)" rule: dep_chain.cases)
      (auto simp: known_tasks_def sample_task_def deps_of_def split: if_splits)
  ultimately show ?thesis
    by (force simp: core_inv_def graph_ok_def counters_ok_def sample_core_def NewCoreState_def)
qed

lemma sample_apply_committed: "snd (snd (Apply sample_applier sample_batch sample_core)) = None"
proof -
  have v: "sample_validator\<lparr>vRange := id\<rparr> = sample_validator" by (simp add: sample_validator_def NewValidator_def)
  have "Snapshot sample_core = sample_state"
    by (simp add: sample_core_def sample_state_def NewCoreState_def Snapshot_def)
  then show ?thesis using sample_batch_accepted
    by (simp add: Apply_def applyGated_def sample_applier_def v authorize_all_def AllowAllAuthorizer_def
        sample_batch_def append_task_def sample_core_def NewCoreState_def sample_task_def persist_err_def
        with_default_status_def work_init_def Let_def case_prod_beta del: commit_work_simps)
qed

lemma sample_applier_simps:
  "is_range (vRange (apValidator sample_applier))" "vLimits (apValidator sample_applier) = DefaultSupervisorLimits"
  by (simp_all add: sample_applier_def sample_validator_def NewValidator_def)

theorem core_reachable_inv_witness:
  "core_inv DefaultSupervisorLimits
     (fold (core_step sample_applier) [EvApply sample_batch, EvExecuting ''b'', EvFailed ''b''] sample_core)"
  using core_reachable_inv [of sample_applier sample_core "[EvApply sample_batch, EvExecuting ''b'', EvFailed ''b'']"]
    sample_core_inv
  unfolding sample_applier_simps(2) by (simp only: sample_applier_simps(1) simp_thms)

text \<open>
  The status of a task only moves along the edges pending, assigned, executing and
  completed or failed, and failed back to pending; no batch or execution outcome removes a
  task, and a completed task stays completed.
\<close>

theorem task_lifecycle:
  assumes "status_of s i = Some x"
  shows "\<exists>y. status_of (fold (core_step a) es s) i = Some y \<and> status_edge\<^sup>*\<^sup>* x y \<and>
             (x = StCompleted \<longrightarrow> y = StCompleted)"
proof -
  have "statuses_advance (csGraph s) (csGraph (fold (core_step a) es s))"
    by (rule core_status.run_rel) simp
  with assms show ?thesis by (fastforce simp: statuses_advance_def status_of_def dest: status_edge_completed)
qed

lemma sample_status: "status_of sample_core ''a'' = Some (tStatus (sample_task ''a'' [] []))"
  by (simp add: status_of_def sample_core_def NewCoreState_def sample_task_def)

theorem task_lifecycle_witness:
  "\<exists>y. status_of (fold (core_step sample_applier) [EvApply sample_batch, EvCompleted ''a''] sample_core) ''a'' = Some y \<and>
       status_edge\<^sup>*\<^sup>* (tStatus (sample_task ''a'' [] [])) y"
  using task_lifecycle [OF sample_status, of sample_applier "[EvApply sample_batch, EvCompleted ''a'']"] by blast

text \<open>
  When a batch is committed under Core's policy authorizer, every assignment in it of a
  task that existed before the batch and is bound to a tenant names an agent of that tenant,
  and no assignment names an agent or a capability the policy denies.
\<close>

theorem committed_assignments_respect_policy:
  assumes "applyGated v (CoreAuthorize ca) ps s = (s', st, None)"
    and "AssignTask tid ag caps r \<in> set ps"
  shows "\<not> caDeniedAgents ca ag \<and> list_all (\<lambda>c. \<not> caDeniedCapabilities ca c) caps \<and>
    (case byID (csGraph s) tid of
       None \<Rightarrow> True
     | Some t \<Rightarrow> tTenant t = [] \<or>
         (\<exists>d f. caDirectory ca = Some d \<and> TenantOf d = Some f \<and> f ag = (tTenant t, True)))"
  using core_auth.committed_not_denied [OF assms] core_auth.committed_assignment [OF assms]
  by (cases "caDirectory ca"; cases "byID (csGraph s) tid")
    (auto simp: list_all_iff directoryAsTenantDirectory_def)

definition tenant_core :: core_state where
  "tenant_core = NewCoreState [(sample_task ''a'' [] [])\<lparr>tTenant := ''t1''\<rparr>] None"

definition tenant_policy :: core_authorizer where
  "tenant_policy = \<lparr>caDirectory = Some sample_dir, caDeniedAgents = (\<lambda>a. a = ''reviewer''),
                    caDeniedCapabilities = (\<lambda>_. False)\<rparr>"

lemma tenant_batch_committed:
  "snd (snd (applyGated sample_validator (CoreAuthorize tenant_policy)
       [AssignTask ''a'' ''coder'' [''write_repository''] ''r''] tenant_core)) = None"
  by (simp add: tenant_core_def tenant_policy_def NewCoreState_def applyGated_def CoreAuthorize_def
      directoryAsTenantDirectory_def authorize_all_def persist_err_def work_init_def Snapshot_def
      validate_eval graph_eval sample_simps)

theorem committed_assignments_respect_policy_witness:
  "\<not> caDeniedAgents tenant_policy ''coder''"
proof -
  obtain s' st where "applyGated sample_validator (CoreAuthorize tenant_policy)
      [AssignTask ''a'' ''coder'' [''write_repository''] ''r''] tenant_core = (s', st, None)"
    using tenant_batch_committed by (metis prod.collapse)
  from committed_assignments_respect_policy [OF this, of "''a''" "''coder''"] show ?thesis by simp
qed

text \<open>
  A locked task's required capabilities only grow under a committed batch whose replans
  themselves send the updated tasks as locked.
\<close>

theorem lock_kept_by_locked_updates:
  assumes "core_inv (vLimits v) s" and "applyGated v authz ps s = (s', st, None)"
    and "list_all keeps_locks ps" and "locked_with C (byID (csGraph s) i)"
  shows "locked_with C (byID (csGraph s') i)"
proof -
  obtain w where w: "ValidateBatch v (Snapshot s) ps = None"
      "fold_res apply_proposal ps (work_init s) = Inr w" "s' = commit_work w s"
    using assms(2) by (cases rule: applyGated_cases [of v authz ps s]) auto
  have d: "distinct (map tID (csGraph s))" using assms(1) by (simp add: core_inv_def graph_ok_def)
  then obtain acc where acc: "validate_all v (Snapshot s) ps = Inr acc" "tracks (Snapshot s) acc w"
    using committed_tracks w(1,2) by metis
  have "locked_with C (map_of (baKnown acc) i)"
    using validate_batch_locked [OF acc(1) [unfolded validate_all_def] assms(3)] assms(4)
    by (simp add: batch_init_def map_of_known_tasks [OF d])
  moreover have "map_option forget_status (map_of (baKnown acc) i) = map_option forget_status (byID (wGraph w) i)"
    using acc(2) by (simp add: tracks_def mirrors_def)
  ultimately show ?thesis unfolding w(3) commit_work_simps by (metis locked_with_forget)
qed

definition locked_core :: core_state where
  "locked_core = NewCoreState [(sample_task ''a'' [''review''] [])\<lparr>tLocked := True\<rparr>] None"

definition locked_replan :: "string list \<Rightarrow> bool \<Rightarrow> proposal" where
  "locked_replan caps l = Replan [] [(sample_task ''a'' caps [])\<lparr>tLocked := l\<rparr>] ''r''"

lemmas locked_eval = locked_core_def locked_replan_def NewCoreState_def applyGated_def AllowAllAuthorizer_def
  authorize_all_def persist_err_def work_init_def Snapshot_def replace_task_def

lemma locked_core_inv: "core_inv L locked_core"
proof -
  have "acyclic (dep_rel (known_tasks (csGraph locked_core)))"
    by (rule findCycle_None [OF is_range_id(2)])
      (simp add: known_tasks_def sample_task_def graph_eval locked_core_def NewCoreState_def)
  moreover have "length c \<le> 1" if "dep_chain (known_tasks (csGraph locked_core)) c" for c
    using that
    by (cases "(known_tasks (csGraph locked_core), c)" rule: dep_chain.cases)
      (auto simp: known_tasks_def sample_task_def deps_of_def locked_core_def NewCoreState_def split: if_splits)
  ultimately show ?thesis
    by (force simp: core_inv_def graph_ok_def counters_ok_def locked_core_def NewCoreState_def)
qed

lemma locked_replan_committed:
  "snd (snd (applyGated sample_validator AllowAllAuthorizer
     [locked_replan [''review'', ''run_commands''] l] locked_core)) = None"
  by (simp add: locked_eval validate_eval graph_eval sample_simps)

theorem lock_kept_by_locked_updates_witness:
  "locked_with {''review''} (byID (csGraph (fst (applyGated sample_validator AllowAllAuthorizer
     [locked_replan [''review'', ''run_commands''] True] locked_core))) ''a'')"
proof -
  let ?r = "applyGated sample_validator AllowAllAuthorizer
     [locked_replan [''review'', ''run_commands''] True] locked_core"
  have "?r = (fst ?r, fst (snd ?r), None)" by (metis locked_replan_committed prod.collapse)
  moreover have "list_all keeps_locks [locked_replan [''review'', ''run_commands''] True]"
    by (simp add: locked_replan_def)
  moreover have "locked_with {''review''} (byID (csGraph locked_core) ''a'')"
    by (simp add: locked_core_def NewCoreState_def sample_task_def locked_with_def)
  ultimately show ?thesis by (rule lock_kept_by_locked_updates [OF locked_core_inv])
qed

text \<open>
  Nothing preserves the lock itself. A replan that sends the task without the lock is
  accepted, and within the same batch a second replan then removes the capability that was
  locked.
\<close>

theorem locked_task_downgraded:
  "(case applyGated sample_validator AllowAllAuthorizer
           [locked_replan [''review''] False, locked_replan [] False] locked_core of
      (s', st, err) \<Rightarrow> err = None \<and> map_option tCaps (byID (csGraph s') ''a'') = Some []) \<and>
   locked_with {''review''} (byID (csGraph locked_core) ''a'')"
  by (simp add: locked_eval validate_eval graph_eval sample_simps locked_with_def commit_work_def)

end
