(* ===== verification/Adapter.thy ===== *)
theory Adapter
  imports CoreState
begin

text \<open>
  The live agent registry behind the supervisor's directory interface
  (\<open>internal/collaboration/supervisor_adapter.go\<close>, \<open>internal/config/config.go\<close>): the
  configured agents of the engine, their declared capabilities in the validator's vocabulary
  and the proof that the adapter keeps the contract of an agent registry.
\<close>

record AgentCapabilities =
  ReadRepository :: bool
  WriteRepository :: bool
  RunCommands :: bool
  Review :: bool
  AnswerQuestions :: bool
  SubmitEvidence :: bool
  HardTokenLimitEnforced :: bool

definition DefaultCapabilities :: "string \<Rightarrow> bool \<Rightarrow> AgentCapabilities" where
  "DefaultCapabilities role writable =
     (let caps = \<lparr>ReadRepository = True, WriteRepository = writable, RunCommands = True, Review = True,
                  AnswerQuestions = True, SubmitEvidence = True, HardTokenLimitEnforced = False\<rparr> in
      if role = ''reviewer'' then caps\<lparr>WriteRepository := False\<rparr> else caps)"

definition capabilityNames :: "AgentCapabilities \<Rightarrow> string list" where
  "capabilityNames c =
     (if ReadRepository c then [''read_repository''] else []) @
     (if WriteRepository c then [''write_repository''] else []) @
     (if RunCommands c then [''run_commands''] else []) @
     (if Review c then [''review''] else []) @
     (if AnswerQuestions c then [''answer_questions''] else []) @
     (if SubmitEvidence c then [''submit_evidence''] else [])"

text \<open>
  \<open>None\<close> is an adapter without an engine or a configuration. The configured agents are a Go
  map: an association list whose order is the runtime's iteration order. The adapter does not
  implement \<open>TenantDirectory\<close>.
\<close>

type_synonym engine_agents = "(string \<times> AgentCapabilities) list option"

definition adapter_exists :: "engine_agents \<Rightarrow> agent_id \<Rightarrow> bool" where
  "adapter_exists d a = (case d of None \<Rightarrow> False | Some agents \<Rightarrow> map_of agents a \<noteq> None)"

definition adapter_capabilities :: "engine_agents \<Rightarrow> agent_id \<Rightarrow> string list \<times> bool" where
  "adapter_capabilities d a =
     (case d of
        None \<Rightarrow> ([], False)
      | Some agents \<Rightarrow>
          (case map_of agents a of None \<Rightarrow> ([], False) | Some c \<Rightarrow> (capabilityNames c, True)))"

definition adapter_list :: "engine_agents \<Rightarrow> msg + (agent_id \<times> string list) list" where
  "adapter_list d =
     (case d of
        None \<Rightarrow> Inr []
      | Some agents \<Rightarrow> Inr (map (\<lambda>(n, c). (n, capabilityNames c)) (AList.clearjunk agents)))"

definition SupervisorAgentDirectory :: "engine_agents \<Rightarrow> agent_catalog" where
  "SupervisorAgentDirectory d =
     \<lparr>AgentExists = adapter_exists d, Capabilities = adapter_capabilities d, TenantOf = None,
      ListAgents = adapter_list d\<rparr>"

lemma adapter_simps [simp]:
  "AgentExists (SupervisorAgentDirectory d) = adapter_exists d"
  "Capabilities (SupervisorAgentDirectory d) = adapter_capabilities d"
  "TenantOf (SupervisorAgentDirectory d) = None"
  "ListAgents (SupervisorAgentDirectory d) = adapter_list d"
  by (simp_all add: SupervisorAgentDirectory_def)

lemma clearjunk_mem: "(n, c) \<in> set (AList.clearjunk al) \<longleftrightarrow> map_of al n = Some c"
  using map_of_eq_Some_iff [OF distinct_clearjunk, of al n c] by (simp add: map_of_clearjunk)

interpretation adapter: agent_registry "SupervisorAgentDirectory d" for d
proof unfold_locales
  fix a l cs
  assume "ListAgents (SupervisorAgentDirectory d) = Inr l"
  then show "((a, cs) \<in> set l) =
      (AgentExists (SupervisorAgentDirectory d) a \<and> cs = fst (Capabilities (SupervisorAgentDirectory d) a))"
    by (cases d)
      (force simp: adapter_list_def adapter_exists_def adapter_capabilities_def clearjunk_mem split: option.splits)+
qed (auto simp: adapter_exists_def adapter_capabilities_def split: option.splits)

text \<open>The adapter speaks the validator's vocabulary.\<close>

lemma capabilityNames_known: "c \<in> set (capabilityNames cc) \<Longrightarrow> DefaultKnownCapabilities c"
  by (auto simp: capabilityNames_def DefaultKnownCapabilities_def split: if_splits)

lemma capabilityNames_planning:
  "''propose_plan'' \<notin> set (capabilityNames cc)" "''propose_task_graph'' \<notin> set (capabilityNames cc)"
  by (auto simp: capabilityNames_def)

end
