(* ===== verification/Execute.thy ===== *)
theory Execute
  imports Adapter
begin

text \<open>
  The execution boundary (\<open>internal/supervisor/execute.go\<close>, \<open>execution_id.go\<close>): the checks
  against the live directory before a task is dispatched, the second authorization, the
  dispatch and the recorded outcome. The provider, the clock and the random source are
  parameters; the observer cannot change the result and is left out.
\<close>

subsection \<open>Execution identities\<close>

definition hex_digit :: "nat \<Rightarrow> char" where
  "hex_digit n = ''0123456789abcdef'' ! n"

definition hex_encode :: "char list \<Rightarrow> string" where
  "hex_encode bs = concat (map (\<lambda>b. [hex_digit (of_char b div 16), hex_digit (of_char b mod 16)]) bs)"

text \<open>
  \<open>random\<close> is the outcome of reading 16 random bytes, \<open>None\<close> a failing source; \<open>nanos\<close> is
  the rendered clock used then.
\<close>

definition NewExecutionID :: "task_id \<Rightarrow> char list option \<Rightarrow> string \<Rightarrow> string" where
  "NewExecutionID tid random nanos =
     (case random of None \<Rightarrow> tid @ ''@'' @ nanos | Some b \<Rightarrow> tid @ ''@'' @ hex_encode b)"

lemma hex_digit_inj: "m < 16 \<Longrightarrow> n < 16 \<Longrightarrow> hex_digit m = hex_digit n \<Longrightarrow> m = n"
proof -
  have "distinct ''0123456789abcdef''" by simp
  moreover assume "m < 16" "n < 16" "hex_digit m = hex_digit n"
  ultimately show ?thesis unfolding hex_digit_def by (subst (asm) nth_eq_iff_index_eq) simp_all
qed

lemma hex_encode_inj: "length a = length b \<Longrightarrow> hex_encode a = hex_encode b \<Longrightarrow> a = b"
proof (induction a b rule: list_induct2)
  case (Cons x xs y ys)
  have lt: "(of_char c :: nat) div 16 < 16" for c :: char
    using nat_of_char_less_256 [of c] by (simp add: div_less_iff_less_mult)
  from Cons have "(of_char x :: nat) div 16 = of_char y div 16" "(of_char x :: nat) mod 16 = of_char y mod 16"
    by (auto simp: hex_encode_def lt intro: hex_digit_inj)
  then have "(of_char x :: nat) = of_char y" by (metis div_mult_mod_eq)
  with Cons show ?case by (simp add: hex_encode_def)
qed simp

text \<open>
  Two attempts at tasks of the same name have different identities whenever the
  random source gave them different bytes, whatever the clock says.
\<close>

theorem execution_ids_distinct:
  assumes "length b = length b'" and "b \<noteq> b'"
  shows "NewExecutionID t (Some b) n \<noteq> NewExecutionID t (Some b') n'"
  using assms hex_encode_inj by (auto simp: NewExecutionID_def)

theorem execution_ids_distinct_witness:
  "NewExecutionID ''t1'' (Some ''ab'') ''7'' \<noteq> NewExecutionID ''t1'' (Some ''ac'') ''7''"
  by (rule execution_ids_distinct) simp_all

subsection \<open>The boundary\<close>

record executor =
  exDirectory :: agent_directory
  exAuthorizer :: authorizer
  exLimits :: supervisor_limits

text \<open>
  What a provider call does: the result, the error if any, and whether the execution context
  had passed its deadline when the call returned.
\<close>

record provider_outcome =
  poResult :: execution_result
  poErr :: "msg option"
  poDeadline :: bool

definition empty_result :: execution_result where
  "empty_result = \<lparr>erTaskID = [], erExecutionID = [], erStatus = StEmpty, erSummary = [], erFindings = [],
     erModelUsages = []\<rparr>"

definition reauth_rationale :: rationale where
  "reauth_rationale = ''execution-boundary re-authorization''"

text \<open>Everything before the status moves: the checks, in order, and the agent to dispatch to.\<close>

definition revalidate :: "executor \<Rightarrow> execution_state \<Rightarrow> task_id \<Rightarrow> sup_error + agent_id \<times> task" where
  "revalidate ex st tid =
     (case byID (esTasks st) tid of
        None \<Rightarrow> Inl (StateTransitionFailure tid (plain ''unknown task at execution boundary''))
      | Some t \<Rightarrow>
     (case esAssignments st tid of
        None \<Rightarrow> Inl (AgentRoutingFailure [] tid (plain ''no agent assigned''))
      | Some a \<Rightarrow>
          let dir = exDirectory ex; missing = MissingCapabilities (fst (Capabilities dir a)) (tCaps t) in
          guard_res (require (AgentExists dir a)
            (AgentRoutingFailure a tid (plain ''agent no longer registered (removed after assignment)'')))
         (guard_res (require (missing = [])
            (AuthorizationFailure a tid (Msg ''required capability revoked before execution: %v'' [AL missing])))
         (guard_res (if tTenant t = [] then None
            else (case TenantOf dir of
                    None \<Rightarrow> Some (AuthorizationFailure a tid
                      (Msg ''task requires tenant %q but no TenantDirectory is configured - failing closed''
                        [AS (tTenant t)]))
                  | Some tenantOf \<Rightarrow>
                      require (tenantOf a = (tTenant t, True))
                        (AuthorizationFailure a tid
                          (Msg ''cross-tenant execution blocked: task requires tenant %q'' [AS (tTenant t)]))))
         (guard_res (map_option (WrappedError (plain ''re-authorization at execution boundary''))
              (exAuthorizer ex st (AssignTask tid a (tCaps t) reauth_rationale)))
           (Inr (a, t)))))))"

definition exec_limit :: "executor \<Rightarrow> int" where
  "exec_limit ex =
     (if MaxExecutionTime (exLimits ex) \<le> 0 then MaxExecutionTime DefaultSupervisorLimits
      else MaxExecutionTime (exLimits ex))"

text \<open>What happens to the outcome of the provider call.\<close>

definition finish ::
  "executor \<Rightarrow> string \<Rightarrow> agent_id \<Rightarrow> task_id \<Rightarrow> provider_outcome \<Rightarrow> core_state \<Rightarrow>
     core_state \<times> execution_result \<times> sup_error option"
where
  "finish ex eid a tid po s =
     (let result = (poResult po)\<lparr>erExecutionID := eid\<rparr> in
      case poErr po of
        Some reason \<Rightarrow>
          (fst (MarkFailed tid s), empty_result\<lparr>erExecutionID := eid\<rparr>,
           Some (if poDeadline po then ExecutionTimeout tid (exec_limit ex)
                 else AgentExecutionFailure a tid reason))
      | None \<Rightarrow>
          if erStatus result = StFailed then (fst (MarkFailed tid s), result, None)
          else (case MarkCompleted tid s of (s', err) \<Rightarrow> (s', result, err)))"

text \<open>The whole call without interleaving, and the provider calls it makes.\<close>

definition Execute ::
  "executor \<Rightarrow> string \<Rightarrow> (agent_id \<Rightarrow> task \<Rightarrow> provider_outcome) \<Rightarrow> task_id \<Rightarrow> core_state \<Rightarrow>
     core_state \<times> (agent_id \<times> task) list \<times> execution_result \<times> sup_error option"
where
  "Execute ex eid provider tid s =
     (case revalidate ex (Snapshot s) tid of
        Inl e \<Rightarrow> (s, [], empty_result, Some e)
      | Inr (a, t) \<Rightarrow>
     (case MarkExecuting tid s of
        (s1, Some e) \<Rightarrow> (s1, [], empty_result, Some e)
      | (s1, None) \<Rightarrow>
          (case finish ex eid a tid (provider a t) s1 of (s2, r, err) \<Rightarrow> (s2, [(a, t)], r, err))))"

subsection \<open>What a dispatch has established\<close>

definition cleared_for :: "executor \<Rightarrow> execution_state \<Rightarrow> task_id \<Rightarrow> agent_id \<Rightarrow> task \<Rightarrow> bool" where
  "cleared_for ex st tid a t \<longleftrightarrow>
     byID (esTasks st) tid = Some t \<and> esAssignments st tid = Some a \<and>
     AgentExists (exDirectory ex) a \<and> set (tCaps t) \<subseteq> set (fst (Capabilities (exDirectory ex) a)) \<and>
     (tTenant t = [] \<or> (\<exists>f. TenantOf (exDirectory ex) = Some f \<and> f a = (tTenant t, True))) \<and>
     exAuthorizer ex st (AssignTask tid a (tCaps t) reauth_rationale) = None"

lemma revalidate_Inr [step_simps]: "revalidate ex st tid = Inr (a, t) \<longleftrightarrow> cleared_for ex st tid a t"
  by (auto simp: revalidate_def cleared_for_def Let_def split: option.splits if_splits)

lemma transition_status:
  "transition old new i s = (s', None) \<Longrightarrow>
     status_of s i = Some old \<and> status_of s' = (status_of s)(i := Some new) \<and> csAssign s' = csAssign s"
  by (auto simp: transition_def status_of_def Let_def fun_eq_iff byID_list_update indexOf_facts
      split: option.splits if_splits)

lemma transition_err: "transition old new i s = (s', Some e) \<Longrightarrow> s' = s"
  by (auto simp: transition_def Let_def split: option.splits if_splits)

lemma transition_ok: "status_of s i = Some old \<Longrightarrow> snd (transition old new i s) = None"
proof -
  assume st: "status_of s i = Some old"
  then have "i \<in> tID ` set (csGraph s)" unfolding status_of_def by (metis byID_None map_option_is_None option.distinct(1))
  then obtain k where k: "indexOf (csGraph s) i = Some k" using indexOf_None by (cases "indexOf (csGraph s) i") auto
  with st show ?thesis by (auto simp: transition_def status_of_def Let_def dest: indexOf_Some)
qed

lemma finish_status:
  assumes "status_of s tid = Some StExecuting" and "finish ex eid a tid po s = (s', r, err)"
  shows "status_of s' = (status_of s)(tid := Some (if poErr po \<noteq> None \<or> erStatus (poResult po) = StFailed
           then StFailed else StCompleted)) \<and>
         erExecutionID r = eid \<and> (err = None \<longleftrightarrow> poErr po = None)"
proof -
  obtain s1 where f: "MarkFailed tid s = (s1, None)"
    using transition_ok [OF assms(1), of StFailed] unfolding MarkFailed_def by (metis prod.collapse)
  obtain s2 where c: "MarkCompleted tid s = (s2, None)"
    using transition_ok [OF assms(1), of StCompleted] unfolding MarkCompleted_def by (metis prod.collapse)
  show ?thesis
    using assms(2) f c transition_status [OF f [unfolded MarkFailed_def]]
      transition_status [OF c [unfolded MarkCompleted_def]]
    by (auto simp: finish_def Let_def split: option.splits if_splits)
qed

text \<open>
  C7: the provider is called at most once per execution, and only for a task that was
  assigned, with the agent it was assigned to, which is still registered, still declares every
  required capability, belongs to the task's tenant and passes a fresh authorization. The task
  then ends completed or failed as the provider reported, under the identity the boundary
  chose. In every other case nothing is dispatched, the state is unchanged and an error is
  returned.
\<close>

theorem dispatch_revalidated:
  "case Execute ex eid provider tid s of (s', calls, r, err) \<Rightarrow>
     (calls = [] \<and> s' = s \<and> err \<noteq> None) \<or>
     (\<exists>a t. calls = [(a, t)] \<and> tStatus t = StAssigned \<and> cleared_for ex (Snapshot s) tid a t \<and>
        erExecutionID r = eid \<and> (err = None \<longleftrightarrow> poErr (provider a t) = None) \<and>
        status_of s' = (status_of s)(tid := Some
          (if poErr (provider a t) \<noteq> None \<or> erStatus (poResult (provider a t)) = StFailed
           then StFailed else StCompleted)))"
proof (cases "revalidate ex (Snapshot s) tid")
  case (Inl e)
  then show ?thesis by (simp add: Execute_def)
next
  case (Inr x)
  obtain a t where at: "x = (a, t)" by (cases x)
  then have cl: "cleared_for ex (Snapshot s) tid a t" using Inr by (simp add: step_simps)
  obtain s1 e where m: "MarkExecuting tid s = (s1, e)" by (cases "MarkExecuting tid s")
  show ?thesis
  proof (cases e)
    case (Some y)
    then show ?thesis using Inr at m transition_err [OF m [unfolded MarkExecuting_def Some]]
      by (simp add: Execute_def)
  next
    case None
    obtain s2 r err where f: "finish ex eid a tid (provider a t) s1 = (s2, r, err)"
      by (cases "finish ex eid a tid (provider a t) s1")
    have ts: "status_of s tid = Some StAssigned" "status_of s1 = (status_of s)(tid := Some StExecuting)"
      using transition_status [OF m [unfolded MarkExecuting_def None]] by auto
    have "tStatus t = StAssigned"
      using ts(1) cl by (simp add: cleared_for_def status_of_def)
    moreover have "status_of s1 tid = Some StExecuting" using ts(2) by simp
    ultimately show ?thesis
      using Inr at m None f cl finish_status [OF _ f] ts(2) by (simp add: Execute_def)
  qed
qed

subsection \<open>Tasks whose dispatch is refused\<close>

definition keeps_assigned :: "task_id \<Rightarrow> task_graph \<Rightarrow> bool" where
  "keeps_assigned i g \<longleftrightarrow> map_option tStatus (byID g i) = Some StAssigned"

lemma keeps_assigned_append: "append_task t g = Inr h \<Longrightarrow> keeps_assigned i g \<Longrightarrow> keeps_assigned i h"
  by (auto simp: append_task_def keeps_assigned_def byID_append split: if_splits option.splits)

lemma keeps_assigned_replace: "replace_task t g = Inr h \<Longrightarrow> keeps_assigned i g \<Longrightarrow> keeps_assigned i h"
  by (auto simp: replace_task_def keeps_assigned_def byID_list_update indexOf_facts split: option.splits)

lemma keeps_assigned_apply:
  assumes "apply_proposal p w = Inr w'" and "keeps_assigned i (wGraph w)"
  shows "keeps_assigned i (wGraph w')"
proof (cases p)
  case (Replan new upd r)
  with assms(1) obtain g where g: "fold_res append_task new (wGraph w) = Inr g" "fold_res replace_task upd g = Inr (wGraph w')"
    by (auto simp: bind_res_Inr)
  have "keeps_assigned i g" by (rule fold_res_inv [OF g(1), of "keeps_assigned i", OF assms(2)]) (rule keeps_assigned_append)
  then show ?thesis by (rule fold_res_inv [OF g(2), of "keeps_assigned i"]) (rule keeps_assigned_replace)
next
  case (CreateTask t r)
  with assms show ?thesis by (auto simp: bind_res_Inr intro: keeps_assigned_append)
next
  case (AssignTask tid a caps r)
  with assms show ?thesis
    by (auto simp: Let_def keeps_assigned_def byID_list_update indexOf_facts split: option.splits if_splits)
next
  case (RetryTask tid r)
  with assms show ?thesis
    by (auto simp: Let_def keeps_assigned_def byID_list_update indexOf_facts split: option.splits if_splits)
qed (use assms in auto)

text \<open>
  When the boundary refuses a task (its agent disappeared, lost a capability or was
  denied), the task stays assigned, and no proposal batch whatever, retry, reassignment and
  replanning included, takes it out of that status.
\<close>

theorem refused_task_stays_assigned:
  assumes "status_of s tid = Some StAssigned" and "revalidate ex (Snapshot s) tid = Inl e"
  shows "status_of (fst (Apply ap ps (fst (Execute ex eid provider tid s)))) tid = Some StAssigned"
proof -
  have s: "fst (Execute ex eid provider tid s) = s" using assms(2) by (simp add: Execute_def)
  show ?thesis unfolding s
  proof (cases rule: applyGated_cases [of "apValidator ap" "apAuthorizer ap" ps s])
    case (committed w)
    have "keeps_assigned tid (wGraph (work_init s))"
      using assms(1) by (simp add: keeps_assigned_def status_of_def)
    then have "keeps_assigned tid (wGraph w)"
      by (rule fold_res_inv [OF committed(3), of "\<lambda>w. keeps_assigned tid (wGraph w)"]) (rule keeps_assigned_apply)
    with committed(5) show "status_of (fst (Apply ap ps s)) tid = Some StAssigned"
      by (simp add: Apply_def status_of_def keeps_assigned_def)
  qed (use assms(1) in \<open>simp add: Apply_def\<close>)
qed

definition assigned_core :: core_state where
  "assigned_core = (NewCoreState [(sample_task ''a'' [''review''] [])\<lparr>tStatus := StAssigned\<rparr>] None)
     \<lparr>csAssign := (\<lambda>_. None)(''a'' \<mapsto> ''coder'')\<rparr>"

definition sample_executor :: executor where
  "sample_executor = \<lparr>exDirectory = sample_dir, exAuthorizer = AllowAllAuthorizer, exLimits = DefaultSupervisorLimits\<rparr>"

lemma assigned_core_facts:
  "status_of assigned_core ''a'' = Some StAssigned"
  "\<exists>e. revalidate sample_executor (Snapshot assigned_core) ''a'' = Inl e"
  by (simp_all add: assigned_core_def NewCoreState_def status_of_def sample_task_def revalidate_def
      Snapshot_def sample_executor_def sample_dir_def MissingCapabilities_def Let_def)

theorem refused_task_stays_assigned_witness:
  "status_of (fst (Apply sample_applier [RetryTask ''a'' ''again''] (fst
     (Execute sample_executor ''id'' (\<lambda>_ _. \<lparr>poResult = empty_result, poErr = None, poDeadline = False\<rparr>)
        ''a'' assigned_core)))) ''a'' = Some StAssigned"
  using assigned_core_facts refused_task_stays_assigned by blast

definition open_core :: core_state where
  "open_core = (NewCoreState [(sample_task ''a'' [] [])\<lparr>tStatus := StAssigned\<rparr>] None)
     \<lparr>csAssign := (\<lambda>_. None)(''a'' \<mapsto> ''coder'')\<rparr>"

theorem dispatch_revalidated_witness:
  "status_of (fst (Execute sample_executor ''id''
     (\<lambda>_ _. \<lparr>poResult = empty_result, poErr = None, poDeadline = False\<rparr>) ''a'' open_core)) ''a'' = Some StCompleted"
proof -
  let ?p = "\<lambda>_ _. \<lparr>poResult = empty_result, poErr = None, poDeadline = False\<rparr>"
  obtain s' calls r err where ex: "Execute sample_executor ''id'' ?p ''a'' open_core = (s', calls, r, err)"
    by (cases "Execute sample_executor ''id'' ?p ''a'' open_core") auto
  have cleared: "cleared_for sample_executor (Snapshot open_core) ''a'' ''coder'' ((sample_task ''a'' [] [])\<lparr>tStatus := StAssigned\<rparr>)"
    by (simp add: open_core_def NewCoreState_def sample_task_def cleared_for_def Snapshot_def sample_executor_def
        sample_dir_def AllowAllAuthorizer_def)
  then have "snd (MarkExecuting ''a'' open_core) = None"
    unfolding MarkExecuting_def by (intro transition_ok) (simp add: cleared_for_def status_of_def Snapshot_def)
  then have "calls \<noteq> []"
    using ex by (auto simp: Execute_def revalidate_Inr [THEN iffD2, OF cleared] split: prod.splits option.splits)
  then show ?thesis
    using dispatch_revalidated [where ex = sample_executor and eid = "''id''" and provider = ?p and tid = "''a''" and s = open_core] unfolding ex
    by (auto simp: empty_result_def cleared_for_def)
qed

end
