(* ===== verification/Schedule.thy ===== *)
theory Schedule
  imports Execute
begin

text \<open>
  Core's scheduler (\<open>internal/supervisor/scheduler.go\<close>, \<open>advisor.go\<close>, \<open>decision.go\<close>):
  readiness derived from the graph, the selection of an agent with its optional advisor and
  experiment admission, the classification of failures and the completion of a workflow.
\<close>

subsection \<open>Readiness\<close>

datatype readiness_state =
  ReadinessReady | ReadinessWaiting | ReadinessBlocked | ReadinessActive | ReadinessDone

text \<open>
  The map of statuses the code builds; a missing key reads as the zero status.
\<close>

definition statusOf :: "task_graph \<Rightarrow> task_id \<Rightarrow> task_status" where
  "statusOf g i = (case fold (\<lambda>t m. m(tID t \<mapsto> tStatus t)) g Map.empty i of None \<Rightarrow> StEmpty | Some x \<Rightarrow> x)"

definition readiness :: "(task_id \<Rightarrow> task_status) \<Rightarrow> task \<Rightarrow> readiness_state" where
  "readiness st t =
     (if tStatus t \<in> {StCompleted, StFailed} then ReadinessDone
      else if tStatus t \<in> {StAssigned, StExecuting} then ReadinessActive
      else
        let blocked = list_ex (\<lambda>d. st d = StFailed) (tDeps t);
            waiting = list_ex (\<lambda>d. st d \<noteq> StCompleted \<and> st d \<noteq> StFailed) (tDeps t) in
        if blocked then ReadinessBlocked else if waiting then ReadinessWaiting else ReadinessReady)"

definition computeReadiness :: "task_graph \<Rightarrow> task_id \<Rightarrow> readiness_state option" where
  "computeReadiness g = fold (\<lambda>t m. m(tID t \<mapsto> readiness (statusOf g) t)) g Map.empty"

definition blockingDependency :: "task_graph \<Rightarrow> task_id \<Rightarrow> task_id option" where
  "blockingDependency g i =
     (case byID g i of
        None \<Rightarrow> None
      | Some t \<Rightarrow> List.find (\<lambda>d. statusOf g d = StFailed) (tDeps t))"

subsection \<open>Eligible agents\<close>

type_synonym agent_candidate = "agent_id \<times> string list"

definition eligibleCandidates :: "agent_catalog \<Rightarrow> task \<Rightarrow> sup_error + agent_candidate list" where
  "eligibleCandidates cat t =
     (case ListAgents cat of
        Inl m \<Rightarrow> Inl (AgentRoutingFailure [] (tID t) (Msg ''listing agents: %v'' [AM m]))
      | Inr agents \<Rightarrow>
          let able = filter (\<lambda>(a, cs). MissingCapabilities cs (tCaps t) = []) agents in
          if tTenant t = [] then Inr able
          else (case TenantOf cat of
                  None \<Rightarrow> Inl (AuthorizationFailure [] (tID t)
                    (Msg ''task requires tenant %q but no TenantDirectory is configured - failing closed''
                      [AS (tTenant t)]))
                | Some tenantOf \<Rightarrow> Inr (filter (\<lambda>(a, cs). tenantOf a = (tTenant t, True)) able)))"

definition no_eligible :: "task \<Rightarrow> sup_error" where
  "no_eligible t = AgentRoutingFailure [] (tID t)
     (Msg ''no eligible agent for required capabilities %v'' [AL (tCaps t)])"

definition routeAgent :: "agent_catalog \<Rightarrow> task \<Rightarrow> sup_error + agent_id" where
  "routeAgent cat t =
     (case eligibleCandidates cat t of
        Inl e \<Rightarrow> Inl e
      | Inr [] \<Rightarrow> Inl (no_eligible t)
      | Inr cands \<Rightarrow> Inr (hd (sort (map fst cands))))"

definition isStillEligible :: "agent_candidate list \<Rightarrow> agent_id \<Rightarrow> bool" where
  "isStillEligible cands a = list_ex (\<lambda>(b, cs). b = a) cands"

subsection \<open>The scheduler and its optional hooks\<close>

datatype agent_decision_mode =
  ModeUnset | AgentDecisionDisabled | AgentDecisionShadow | AgentDecisionAdvisory | ModeOther string

text \<open>An advisor's answer is its ranked agents and the basis it names.\<close>

record advisor =
  Advise :: "task \<Rightarrow> agent_candidate list \<Rightarrow> msg + agent_id list \<times> string"
  adIdentity :: "(string \<times> string) option"

record policy_provenance =
  PolicyID :: string
  PolicyVersion :: string
  AttemptedPolicyID :: string
  AttemptedPolicyVersion :: string
  FallbackUsed :: bool

record routing_decision =
  rdDecisionID :: string
  rdTaskID :: task_id
  rdTenant :: string
  rdTaskClass :: string
  rdCandidates :: "agent_id list"
  rdChampionPolicy :: policy_provenance
  rdChampion :: agent_id

datatype admission_outcome = AdmitPanic | AdmitError msg | AdmitResult agent_id bool

datatype evaluation_mode = EvaluationUnset | EvaluationDisabled | EvaluationShadow | EvaluationOther string

record scheduler =
  schApplier :: applier
  schExecutor :: executor
  schCatalog :: agent_catalog
  schLimits :: supervisor_limits
  schAdvisor :: "advisor option"
  schMode :: agent_decision_mode
  schPolicyVersion :: string
  schObserver :: bool
  schEvalMode :: evaluation_mode
  schAdmission :: "(task \<Rightarrow> string \<Rightarrow> agent_candidate list \<Rightarrow> agent_id \<Rightarrow> policy_provenance \<Rightarrow>
     admission_outcome) option"

definition legacyPolicy :: policy_provenance where
  "legacyPolicy = \<lparr>PolicyID = ''legacy-deterministic'', PolicyVersion = ''v1'', AttemptedPolicyID = [],
                   AttemptedPolicyVersion = [], FallbackUsed = False\<rparr>"

definition advisorIdentity :: "scheduler \<Rightarrow> advisor \<Rightarrow> string \<times> string" where
  "advisorIdentity sch ad = (case adIdentity ad of Some ident \<Rightarrow> ident | None \<Rightarrow> (schPolicyVersion sch, []))"

definition NewDecisionID :: "task_id \<Rightarrow> char list option \<Rightarrow> string \<Rightarrow> string" where
  "NewDecisionID tid random nanos =
     (case random of None \<Rightarrow> tid @ ''@'' @ nanos | Some b \<Rightarrow> tid @ ''#'' @ hex_encode b)"

text \<open>
  The decision context handed to the observer, if one is configured. A panic in the observer
  is recovered and changes nothing.
\<close>

definition captureDecisionWithID ::
  "scheduler \<Rightarrow> string \<Rightarrow> task \<Rightarrow> agent_id list \<Rightarrow> agent_id \<Rightarrow> policy_provenance \<Rightarrow> routing_decision list"
where
  "captureDecisionWithID sch did t ids champion policy =
     (if schEvalMode sch \<in> {EvaluationUnset, EvaluationDisabled} \<or> \<not> schObserver sch then []
      else [\<lparr>rdDecisionID = did, rdTaskID = tID t, rdTenant = tTenant t, rdTaskClass = tType t,
             rdCandidates = ids, rdChampionPolicy = policy, rdChampion = champion\<rparr>])"

text \<open>A panic of the admission gate is an error: no admission.\<close>

definition admitExperimentChallenger ::
  "scheduler \<Rightarrow> task \<Rightarrow> string \<Rightarrow> agent_candidate list \<Rightarrow> agent_id \<Rightarrow> policy_provenance \<Rightarrow> agent_id option"
where
  "admitExperimentChallenger sch t did cands champion policy =
     (case schAdmission sch of
        None \<Rightarrow> None
      | Some admit \<Rightarrow>
          (case admit t did cands champion policy of
             AdmitPanic \<Rightarrow> None
           | AdmitError m \<Rightarrow> None
           | AdmitResult a admitted \<Rightarrow> if admitted then Some a else None))"

definition capture ::
  "scheduler \<Rightarrow> string \<Rightarrow> task \<Rightarrow> agent_candidate list \<Rightarrow> agent_id \<Rightarrow> policy_provenance \<Rightarrow>
     agent_id \<times> execution_event list \<times> routing_decision list"
where
  "capture sch did t cands agent policy =
     (let captured = captureDecisionWithID sch did t (sort (map fst cands)) agent policy in
      case admitExperimentChallenger sch t did cands agent policy of
        None \<Rightarrow> (agent, [], captured)
      | Some selected \<Rightarrow>
          if \<not> isStillEligible cands selected then (agent, [], captured)
          else (selected,
            [\<lparr>evKind = EventChallengerAdmitted, evTaskID = tID t,
              evDetail = Msg ''experiment-admitted challenger=%s champion=%s decision=%s'' [AS selected, AS agent, AS did]\<rparr>],
            captured))"

definition attempted :: "string \<times> string \<Rightarrow> bool \<Rightarrow> policy_provenance" where
  "attempted ident fallback = legacyPolicy
     \<lparr>AttemptedPolicyID := fst ident, AttemptedPolicyVersion := snd ident, FallbackUsed := fallback\<rparr>"

definition with_events ::
  "execution_event list \<Rightarrow> agent_id \<times> execution_event list \<times> routing_decision list \<Rightarrow>
     agent_id \<times> execution_event list \<times> routing_decision list"
where
  "with_events evs r = (case r of (a, extra, captured) \<Rightarrow> (a, evs @ extra, captured))"

text \<open>The agent, the events of the decision and the captured decision context.\<close>

definition selectAgent ::
  "scheduler \<Rightarrow> string \<Rightarrow> task \<Rightarrow> sup_error + agent_id \<times> execution_event list \<times> routing_decision list"
where
  "selectAgent sch did t =
     (case eligibleCandidates (schCatalog sch) t of
        Inl e \<Rightarrow> Inl e
      | Inr [] \<Rightarrow> Inl (no_eligible t)
      | Inr cands \<Rightarrow>
          let fallback = hd (sort (map fst cands));
              cap = capture sch did t cands;
              event = (\<lambda>k m. \<lparr>evKind = k, evTaskID = tID t, evDetail = m\<rparr>) in
          (case schAdvisor sch of
             None \<Rightarrow> Inr (cap fallback legacyPolicy)
           | Some ad \<Rightarrow>
          if schMode sch \<in> {ModeUnset, AgentDecisionDisabled} then Inr (cap fallback legacyPolicy)
          else
            let ident = advisorIdentity sch ad in
            (case Advise ad t cands of
               Inl m \<Rightarrow> Inr (with_events [event EventAdvisorFailure m] (cap fallback (attempted ident True)))
             | Inr ([], basis) \<Rightarrow> Inr (cap fallback (attempted ident True))
             | Inr (best # _, basis) \<Rightarrow>
            (case schMode sch of
               AgentDecisionShadow \<Rightarrow>
                 if \<not> isStillEligible cands best
                 then Inr (with_events
                   [event EventAdvisorFailure
                      (plain ''shadow recommendation named an ineligible candidate - discarded, not recorded'')]
                   (cap fallback legacyPolicy))
                 else Inr (with_events
                   [event EventAdvisorShadowRecommendation
                      (Msg ''shadow recommendation=%s actual=%s basis=%s policy=%s''
                         [AS best, AS fallback, AS basis, AS (schPolicyVersion sch)])]
                   (cap fallback (attempted ident False)))
             | AgentDecisionAdvisory \<Rightarrow>
                 if \<not> isStillEligible cands best
                 then Inr (with_events
                   [event EventAdvisorFallback
                      (Msg ''recommended agent %s no longer eligible, falling back to %s'' [AS best, AS fallback])]
                   (cap fallback (attempted ident True)))
                 else Inr (with_events
                   [event EventAdvisorySelection
                      (Msg ''selected=%s basis=%s policy=%s'' [AS best, AS basis, AS (schPolicyVersion sch)])]
                   (cap best (legacyPolicy\<lparr>PolicyID := fst ident, PolicyVersion := snd ident\<rparr>)))
             | _ \<Rightarrow> Inr (cap fallback legacyPolicy)))))"

subsection \<open>Failure events and completion\<close>

definition fail_event :: "event_kind \<Rightarrow> task_id \<Rightarrow> sup_error \<Rightarrow> execution_event" where
  "fail_event k i e = \<lparr>evKind = k, evTaskID = i, evDetail = sup_error_text e\<rparr>"

text \<open>A bare type switch: it looks at the outermost error only.\<close>

definition classifyExecutionFailure :: "task_id \<Rightarrow> sup_error \<Rightarrow> execution_event" where
  "classifyExecutionFailure i e =
     (if is_agent_routing_failure e then fail_event EventAgentUnavailable i e
      else if is_authorization_failure e \<or> is_policy_rejection e then fail_event EventAuthorizationRejected i e
      else if is_execution_timeout e then fail_event EventExecutionTimedOut i e
      else fail_event EventTaskFailed i e)"

text \<open>\<open>errors.As\<close>: it looks through the wrapping.\<close>

definition classifyApplyFailure :: "task_id \<Rightarrow> sup_error \<Rightarrow> execution_event" where
  "classifyApplyFailure i e =
     (if error_as is_authorization_failure e then fail_event EventAuthorizationRejected i e
      else if error_as is_policy_rejection e then fail_event EventAuthorizationRejected i e
      else if error_as is_agent_routing_failure e then fail_event EventAgentUnavailable i e
      else fail_event EventTaskFailed i e)"

text \<open>Complete, succeeded and the blocked tasks. A task the map does not hold is not ready.\<close>

fun workflow_scan ::
  "(task_id \<Rightarrow> readiness_state option) \<Rightarrow> task \<Rightarrow> bool \<times> bool \<times> task_id list \<Rightarrow> bool \<times> bool \<times> task_id list"
where
  "workflow_scan rd t (finished, succeeded, blocked) =
     (case rd (tID t) of
        Some ReadinessDone \<Rightarrow> (finished, succeeded \<and> tStatus t \<noteq> StFailed, blocked)
      | Some ReadinessBlocked \<Rightarrow> (False, False, blocked @ [tID t])
      | _ \<Rightarrow> (False, False, blocked))"

definition WorkflowStatus :: "task_graph \<Rightarrow> bool \<times> bool \<times> task_id list" where
  "WorkflowStatus g = fold (workflow_scan (computeReadiness g)) g (True, True, [])"

subsection \<open>Readiness is derived from the dependencies\<close>

lemma fold_upd_outside:
  "i \<notin> tID ` set g \<Longrightarrow> fold (\<lambda>t m. m(tID t \<mapsto> f t)) g m i = m i"
  by (induction g arbitrary: m) auto

lemma fold_upd_byID:
  "distinct (map tID g) \<Longrightarrow>
     fold (\<lambda>t m. m(tID t \<mapsto> f t)) g m i = (case byID g i of Some t \<Rightarrow> Some (f t) | None \<Rightarrow> m i)"
  by (induction g arbitrary: m) (auto simp: fold_upd_outside split: option.splits)

lemma statusOf_byID:
  "distinct (map tID g) \<Longrightarrow> statusOf g i = (case byID g i of Some t \<Rightarrow> tStatus t | None \<Rightarrow> StEmpty)"
  by (simp add: statusOf_def fold_upd_byID split: option.splits)

lemma computeReadiness_byID:
  "distinct (map tID g) \<Longrightarrow> computeReadiness g i = map_option (readiness (statusOf g)) (byID g i)"
  by (simp add: computeReadiness_def fold_upd_byID split: option.splits)

lemma readiness_ready:
  "readiness st t = ReadinessReady \<longleftrightarrow>
     tStatus t \<notin> {StCompleted, StFailed, StAssigned, StExecuting} \<and> (\<forall>d \<in> set (tDeps t). st d = StCompleted)"
  by (auto simp: readiness_def Let_def list_ex_iff)

lemma readiness_done: "readiness st t = ReadinessDone \<longleftrightarrow> tStatus t \<in> {StCompleted, StFailed}"
  by (simp add: readiness_def Let_def)

lemma readiness_active: "readiness st t = ReadinessActive \<longleftrightarrow> tStatus t \<in> {StAssigned, StExecuting}"
  by (auto simp: readiness_def Let_def)

lemma readiness_blocked:
  "readiness st t = ReadinessBlocked \<longleftrightarrow>
     tStatus t \<notin> {StCompleted, StFailed, StAssigned, StExecuting} \<and> (\<exists>d \<in> set (tDeps t). st d = StFailed)"
  by (auto simp: readiness_def Let_def list_ex_iff)

lemmas readiness_cases = readiness_ready readiness_done readiness_active readiness_blocked

definition deps_completed :: "task_graph \<Rightarrow> task \<Rightarrow> bool" where
  "deps_completed g t \<longleftrightarrow>
     list_all (\<lambda>d. case byID g d of Some u \<Rightarrow> tStatus u = StCompleted | None \<Rightarrow> False) (tDeps t)"

text \<open>
  A task is ready exactly when it is neither assigned, executing nor terminal and every
  task it depends on exists and is completed; it is blocked exactly when some dependency has
  failed, and the reported blocking dependency is then a failed one.
\<close>

theorem readiness_characterized:
  assumes "distinct (map tID g)" and "byID g i = Some t"
  shows "(computeReadiness g i = Some ReadinessReady \<longleftrightarrow>
            tStatus t \<notin> {StCompleted, StFailed, StAssigned, StExecuting} \<and> deps_completed g t) \<and>
         (computeReadiness g i = Some ReadinessBlocked \<longrightarrow>
            (\<exists>d u. blockingDependency g i = Some d \<and> byID g d = Some u \<and> tStatus u = StFailed))"
proof
  have st: "statusOf g d = StCompleted \<longleftrightarrow> (case byID g d of Some u \<Rightarrow> tStatus u = StCompleted | None \<Rightarrow> False)" for d
    by (simp add: statusOf_byID [OF assms(1)] split: option.splits)
  show "computeReadiness g i = Some ReadinessReady \<longleftrightarrow>
      tStatus t \<notin> {StCompleted, StFailed, StAssigned, StExecuting} \<and> deps_completed g t"
    by (simp add: computeReadiness_byID [OF assms(1)] assms(2) readiness_ready deps_completed_def list_all_iff st)
  show "computeReadiness g i = Some ReadinessBlocked \<longrightarrow>
      (\<exists>d u. blockingDependency g i = Some d \<and> byID g d = Some u \<and> tStatus u = StFailed)"
  proof
    assume "computeReadiness g i = Some ReadinessBlocked"
    then have "\<exists>d \<in> set (tDeps t). statusOf g d = StFailed"
      by (simp add: computeReadiness_byID [OF assms(1)] assms(2) readiness_blocked)
    then obtain d where "List.find (\<lambda>d. statusOf g d = StFailed) (tDeps t) = Some d"
      by (cases "List.find (\<lambda>d. statusOf g d = StFailed) (tDeps t)") (auto simp: find_None_iff)
    moreover from this have "statusOf g d = StFailed" by (auto simp: find_Some_iff)
    ultimately show "\<exists>d u. blockingDependency g i = Some d \<and> byID g d = Some u \<and> tStatus u = StFailed"
      by (auto simp: blockingDependency_def assms(2) statusOf_byID [OF assms(1)] split: option.splits)
  qed
qed

definition blocked_graph :: task_graph where
  "blocked_graph = [(sample_task ''a'' [] [])\<lparr>tStatus := StFailed\<rparr>, sample_task ''b'' [] [''a'']]"

theorem readiness_characterized_witness:
  "computeReadiness blocked_graph ''b'' = Some ReadinessBlocked \<and>
   (\<exists>d u. blockingDependency blocked_graph ''b'' = Some d \<and> byID blocked_graph d = Some u \<and> tStatus u = StFailed)"
proof -
  have d: "distinct (map tID blocked_graph)" "byID blocked_graph ''b'' = Some (sample_task ''b'' [] [''a''])"
    by (simp_all add: blocked_graph_def sample_task_def)
  have "computeReadiness blocked_graph ''b'' = Some ReadinessBlocked"
    by (simp add: computeReadiness_byID [OF d(1)] d(2) readiness_blocked statusOf_byID [OF d(1)])
      (simp add: blocked_graph_def sample_task_def)
  then show ?thesis using readiness_characterized [OF d] by blast
qed

subsection \<open>The selected agent is eligible, whoever advises\<close>

definition eligible_agent :: "agent_catalog \<Rightarrow> task \<Rightarrow> agent_id \<Rightarrow> bool" where
  "eligible_agent cat t a \<longleftrightarrow>
     (\<exists>agents cs. ListAgents cat = Inr agents \<and> (a, cs) \<in> set agents \<and> set (tCaps t) \<subseteq> set cs) \<and>
     (tTenant t = [] \<or> (\<exists>f. TenantOf cat = Some f \<and> f a = (tTenant t, True)))"

lemma candidates_eligible:
  "eligibleCandidates cat t = Inr cands \<Longrightarrow> a \<in> fst ` set cands \<Longrightarrow> eligible_agent cat t a"
  by (fastforce simp: eligibleCandidates_def eligible_agent_def Let_def split: sum.splits option.splits if_splits)

lemma isStillEligible_iff: "isStillEligible cands a \<longleftrightarrow> a \<in> fst ` set cands"
  by (force simp: isStillEligible_def list_ex_iff)

lemma capture_eligible:
  "isStillEligible cands agent \<Longrightarrow> isStillEligible cands (fst (capture sch did t cands agent policy))"
  by (auto simp: capture_def Let_def split: option.splits)

lemma fallback_eligible: "isStillEligible (c # cs) (hd (sort (map fst (c # cs))))"
proof -
  have "sort (map fst (c # cs)) \<noteq> []" by (metis length_0_conv length_sort list.map_disc_iff list.distinct(1))
  then have "hd (sort (map fst (c # cs))) \<in> set (sort (map fst (c # cs)))" by (rule hd_in_set)
  then show ?thesis by (simp add: isStillEligible_iff del: sort_key_simps)
qed

lemma with_events_simps [simp]:
  "fst (with_events evs r) = fst r" "snd (snd (with_events evs r)) = snd (snd r)"
  "fst (snd (with_events evs r)) = evs @ fst (snd r)"
  by (simp_all add: with_events_def split: prod.splits)

lemma with_events_Nil: "with_events [] r = r"
  by (simp add: with_events_def split: prod.splits)

text \<open>Every answer is the capture of an eligible champion, with the advisor's events before it.\<close>

definition captured_choice ::
  "scheduler \<Rightarrow> string \<Rightarrow> task \<Rightarrow> agent_candidate list \<Rightarrow>
     agent_id \<times> execution_event list \<times> routing_decision list \<Rightarrow> bool"
where
  "captured_choice sch did t cands r \<longleftrightarrow>
     (\<exists>agent policy evs. isStillEligible cands agent \<and> r = with_events evs (capture sch did t cands agent policy))"

lemma captured_choiceI:
  "isStillEligible cands agent \<Longrightarrow> captured_choice sch did t cands (capture sch did t cands agent policy)"
  "isStillEligible cands agent \<Longrightarrow>
     captured_choice sch did t cands (with_events evs (capture sch did t cands agent policy))"
  unfolding captured_choice_def by (metis with_events_Nil) blast

lemma selectAgent_captured:
  assumes "selectAgent sch did t = Inr r"
  obtains c cs where "eligibleCandidates (schCatalog sch) t = Inr (c # cs)" "captured_choice sch did t (c # cs) r"
proof -
  obtain c cs where e: "eligibleCandidates (schCatalog sch) t = Inr (c # cs)"
    using assms by (auto simp: selectAgent_def split: sum.splits list.splits)
  have "captured_choice sch did t (c # cs) r"
    using assms fallback_eligible [of c cs]
    by (auto simp: selectAgent_def e Let_def simp del: sort_key_simps list.map intro: captured_choiceI
        split: option.splits if_splits sum.splits list.splits prod.splits agent_decision_mode.splits)
  with e that show thesis by blast
qed

lemma captured_choice_eligible: "captured_choice sch did t cands r \<Longrightarrow> fst r \<in> fst ` set cands"
  by (auto simp: captured_choice_def isStillEligible_iff [symmetric] intro: capture_eligible)

text \<open>
  C24: whatever the advisor recommends and whatever the experiment admission answers, panics
  included, the selected agent is listed by the catalog, declares every required capability
  and, for a task bound to a tenant, belongs to that tenant.
\<close>

theorem selected_agent_eligible:
  assumes "selectAgent sch did t = Inr (a, evs, captured)"
  shows "eligible_agent (schCatalog sch) t a"
proof -
  obtain c cs where "eligibleCandidates (schCatalog sch) t = Inr (c # cs)"
    "captured_choice sch did t (c # cs) (a, evs, captured)"
    using assms by (rule selectAgent_captured)
  then show ?thesis using captured_choice_eligible candidates_eligible by (metis fst_conv)
qed

definition sample_scheduler :: scheduler where
  "sample_scheduler =
     \<lparr>schApplier = sample_applier, schExecutor = sample_executor,
      schCatalog = SupervisorAgentDirectory (Some [(''zoe'', DefaultCapabilities ''coder'' True),
                                                   (''amy'', DefaultCapabilities ''reviewer'' True)]),
      schLimits = DefaultSupervisorLimits,
      schAdvisor = Some \<lparr>Advise = (\<lambda>_ _. Inr ([''mallory''], ''b'')), adIdentity = None\<rparr>,
      schMode = AgentDecisionAdvisory, schPolicyVersion = ''v'', schObserver = False,
      schEvalMode = EvaluationUnset, schAdmission = Some (\<lambda>_ _ _ _ _. AdmitResult ''eve'' True)\<rparr>"

lemma sample_candidates:
  "eligibleCandidates (schCatalog sample_scheduler) (sample_task ''a'' [''write_repository''] []) =
     Inr [(''zoe'', capabilityNames (DefaultCapabilities ''coder'' True))]"
  by (simp add: sample_scheduler_def eligibleCandidates_def adapter_list_def sample_task_def Let_def
      DefaultCapabilities_def capabilityNames_def)

lemma sample_selection:
  "\<exists>evs captured. selectAgent sample_scheduler ''d'' (sample_task ''a'' [''write_repository''] []) =
     Inr (''zoe'', evs, captured)"
  unfolding selectAgent_def sample_candidates
  by (simp add: sample_scheduler_def capture_def admitExperimentChallenger_def isStillEligible_def Let_def with_events_def)

theorem selected_agent_eligible_witness:
  "eligible_agent (schCatalog sample_scheduler) (sample_task ''a'' [''write_repository''] []) ''zoe''"
  using sample_selection selected_agent_eligible by blast

lemma capture_no_admission: "schAdmission sch = None \<Longrightarrow> fst (capture sch did t cands a policy) = a"
  by (simp add: capture_def Let_def admitExperimentChallenger_def)

text \<open>
  Unless an experiment admits a challenger, every mode but the advisory one selects
  exactly what the deterministic routing selects, errors included: the advisor is observed in
  shadow mode and has no influence.
\<close>

theorem selection_is_deterministic_routing:
  assumes "schAdmission sch = None" and "schMode sch \<noteq> AgentDecisionAdvisory"
  shows "map_sum id fst (selectAgent sch did t) = routeAgent (schCatalog sch) t"
  using assms capture_no_admission [OF assms(1)]
  by (auto simp: selectAgent_def routeAgent_def Let_def simp del: sort_key_simps list.map
      split: sum.splits list.splits option.splits agent_decision_mode.splits)

theorem selection_is_deterministic_routing_witness:
  "map_sum id fst (selectAgent (sample_scheduler\<lparr>schAdmission := None, schMode := AgentDecisionShadow\<rparr>) ''d''
     (sample_task ''a'' [''review''] [])) =
   routeAgent (schCatalog sample_scheduler) (sample_task ''a'' [''review''] [])"
  using selection_is_deterministic_routing
    [of "sample_scheduler\<lparr>schAdmission := None, schMode := AgentDecisionShadow\<rparr>"] by simp

lemma hd_sort_least: "x \<in> set xs \<Longrightarrow> hd (sort xs) \<le> (x :: string)"
proof -
  assume x: "x \<in> set xs"
  then obtain y ys where s: "sort xs = y # ys" by (metis empty_iff list.exhaust list.set(1) set_sort)
  have "sorted (y # ys)" unfolding s [symmetric] by simp
  moreover have "x \<in> set (y # ys)" unfolding s [symmetric] using x by simp
  ultimately show ?thesis unfolding s by auto
qed

lemma eligible_iff:
  assumes "eligibleCandidates cat t = Inr cands"
  shows "eligible_agent cat t a \<longleftrightarrow> a \<in> fst ` set cands"
proof -
  obtain agents where l: "ListAgents cat = Inr agents"
    using assms by (auto simp: eligibleCandidates_def split: sum.splits)
  have "eligible_agent cat t a" if "a \<in> fst ` set cands" using assms that by (rule candidates_eligible)
  moreover have "a \<in> fst ` set cands" if "eligible_agent cat t a"
  proof -
    from that l obtain cs where m: "(a, cs) \<in> set agents" "set (tCaps t) \<subseteq> set cs"
      by (auto simp: eligible_agent_def)
    have "(a, cs) \<in> set cands"
      using assms that m by (auto simp: eligibleCandidates_def eligible_agent_def l Let_def split: option.splits if_splits)
    then show ?thesis by force
  qed
  ultimately show ?thesis by blast
qed

text \<open>
  Deterministic routing picks the least eligible agent identifier; it fails exactly when
  the catalog or the tenant directory fails or nobody is eligible.
\<close>

theorem routing_least_eligible:
  "case routeAgent cat t of
     Inr a \<Rightarrow> eligible_agent cat t a \<and> (\<forall>b. eligible_agent cat t b \<longrightarrow> a \<le> b)
   | Inl e \<Rightarrow> \<not> (\<exists>b. eligible_agent cat t b)"
proof (cases "eligibleCandidates cat t")
  case (Inl e)
  then have "\<not> eligible_agent cat t b" for b
    by (auto simp: eligibleCandidates_def eligible_agent_def Let_def split: sum.splits option.splits if_splits)
  with Inl show ?thesis by (simp add: routeAgent_def)
next
  case (Inr cands)
  note el = eligible_iff [OF Inr]
  show ?thesis
  proof (cases cands)
    case Nil
    with Inr el show ?thesis by (simp add: routeAgent_def)
  next
    case (Cons c cs)
    have "hd (sort (map fst cands)) \<in> fst ` set cands"
      using fallback_eligible [of c cs] by (simp only: Cons isStillEligible_iff)
    moreover have "hd (sort (map fst cands)) \<le> b" if "b \<in> fst ` set cands" for b
      using that by (intro hd_sort_least) simp
    ultimately show ?thesis using Inr Cons el by (simp add: routeAgent_def del: sort_key_simps list.map)
  qed
qed

lemma sample_route:
  "routeAgent (schCatalog sample_scheduler) (sample_task ''a'' [''write_repository''] []) = Inr ''zoe''"
  unfolding routeAgent_def sample_candidates by simp

theorem routing_least_eligible_witness:
  "eligible_agent (schCatalog sample_scheduler) (sample_task ''a'' [''write_repository''] []) ''zoe'' \<and>
   (\<forall>b. eligible_agent (schCatalog sample_scheduler) (sample_task ''a'' [''write_repository''] []) b \<longrightarrow> ''zoe'' \<le> b)"
  using routing_least_eligible [of "schCatalog sample_scheduler" "sample_task ''a'' [''write_repository''] []"]
  unfolding sample_route by simp

subsection \<open>Completion\<close>

lemma workflow_scan_fold:
  "fold (workflow_scan rd) ts (c, s, b) =
     (c \<and> (\<forall>t \<in> set ts. rd (tID t) = Some ReadinessDone),
      s \<and> (\<forall>t \<in> set ts. rd (tID t) = Some ReadinessDone \<and> tStatus t \<noteq> StFailed),
      b @ map tID (filter (\<lambda>t. rd (tID t) = Some ReadinessBlocked) ts))"
proof (induction ts arbitrary: c s b)
  case (Cons t ts)
  show ?case
    by (cases "rd (tID t)"; cases "the (rd (tID t))") (auto simp: Cons.IH)
qed simp

text \<open>
  Core's completion is exactly about the graph: complete means that every task is
  completed or failed, succeeded means that every task is completed, and the list of blocked
  tasks that a completed workflow reports is always empty.
\<close>

theorem workflow_status_correct:
  assumes "distinct (map tID g)"
  shows "case WorkflowStatus g of (finished, succeeded, blocked) \<Rightarrow>
     (finished \<longleftrightarrow> list_all (\<lambda>t. tStatus t \<in> {StCompleted, StFailed}) g) \<and>
     (succeeded \<longleftrightarrow> list_all (\<lambda>t. tStatus t = StCompleted) g) \<and>
     (finished \<longrightarrow> blocked = [])"
proof -
  have rd: "computeReadiness g (tID t) = Some (readiness (statusOf g) t)" if "t \<in> set g" for t
    by (simp add: computeReadiness_byID [OF assms] byID_distinct [OF assms that])
  show ?thesis
    unfolding WorkflowStatus_def workflow_scan_fold
    by (auto simp: list_all_iff rd readiness_done readiness_blocked filter_empty_conv)
qed

theorem workflow_status_correct_witness:
  "WorkflowStatus blocked_graph = (False, False, [''b'']) \<and> distinct (map tID blocked_graph) \<and>
   \<not> fst (WorkflowStatus blocked_graph)"
  using workflow_status_correct [of blocked_graph]
  by (simp add: blocked_graph_def sample_task_def WorkflowStatus_def computeReadiness_def readiness_def statusOf_def)

subsection \<open>Rejections at the two boundaries\<close>

text \<open>
  The same rejection is reported differently by the two boundaries. Refused while the
  assignment is applied it becomes an authorization event; refused again at the execution
  boundary it reaches the classifier wrapped and becomes a plain task failure.
\<close>

theorem reauthorization_rejection_reported_as_failure:
  assumes "is_policy_rejection e \<or> is_authorization_failure e"
    and "cleared_for (ex\<lparr>exAuthorizer := AllowAllAuthorizer\<rparr>) st tid a t"
    and "exAuthorizer ex st (AssignTask tid a (tCaps t) reauth_rationale) = Some e"
  shows "\<exists>e'. revalidate ex st tid = Inl e' \<and>
           evKind (classifyExecutionFailure tid e') = EventTaskFailed \<and>
           evKind (classifyApplyFailure tid e') = EventAuthorizationRejected"
proof -
  have r: "revalidate ex st tid = Inl (WrappedError (plain ''re-authorization at execution boundary'') e)"
    using assms(2,3) by (auto simp: revalidate_def cleared_for_def Let_def)
  have "error_as is_policy_rejection e \<or> error_as is_authorization_failure e"
    using assms(1) by (cases e) auto
  with r show ?thesis
    by (auto simp: classifyExecutionFailure_def classifyApplyFailure_def fail_event_def)
qed

definition revoking_executor :: executor where
  "revoking_executor = \<lparr>exDirectory = sample_dir,
     exAuthorizer = CoreAuthorize \<lparr>caDirectory = None, caDeniedAgents = (\<lambda>a. a = ''reviewer''),
                                   caDeniedCapabilities = (\<lambda>_. False)\<rparr>,
     exLimits = DefaultSupervisorLimits\<rparr>"

theorem reauthorization_rejection_reported_as_failure_witness:
  "\<exists>e'. revalidate revoking_executor (Snapshot (assigned_core\<lparr>csAssign := (\<lambda>_. None)(''a'' \<mapsto> ''reviewer'')\<rparr>)) ''a'' = Inl e' \<and>
        evKind (classifyExecutionFailure ''a'' e') = EventTaskFailed"
proof -
  let ?t = "(sample_task ''a'' [''review''] [])\<lparr>tStatus := StAssigned\<rparr>"
  let ?st = "Snapshot (assigned_core\<lparr>csAssign := (\<lambda>_. None)(''a'' \<mapsto> ''reviewer'')\<rparr>)"
  have "exAuthorizer revoking_executor ?st (AssignTask ''a'' ''reviewer'' (tCaps ?t) reauth_rationale) =
      Some (PolicyRejection 0 (Msg ''agent %q is denied by policy'' [AS ''reviewer'']))"
    by (simp add: revoking_executor_def CoreAuthorize_def)
  moreover have "cleared_for (revoking_executor\<lparr>exAuthorizer := AllowAllAuthorizer\<rparr>) ?st ''a'' ''reviewer'' ?t"
    by (simp add: cleared_for_def assigned_core_def NewCoreState_def Snapshot_def sample_task_def
        revoking_executor_def sample_dir_def AllowAllAuthorizer_def)
  ultimately show ?thesis
    using reauthorization_rejection_reported_as_failure
      [of "PolicyRejection 0 (Msg ''agent %q is denied by policy'' [AS ''reviewer''])" revoking_executor ?st "''a''"
        "''reviewer''" ?t]
    by auto
qed

end
