(* ===== verification/Tick.thy ===== *)
theory Tick
  imports Schedule
begin

text \<open>
  One scheduler tick (\<open>Scheduler.Tick\<close> in \<open>internal/supervisor/scheduler.go\<close>): the scan of the
  graph, the bounded dispatch loop and the goroutine it starts per task. The goroutines and
  the loop share only the core state, whose operations are atomic, so a concurrent tick is a
  sequence of the actions below, in any order; an action whose turn has not come does nothing.
\<close>

subsection \<open>The scan\<close>

text \<open>The scheduler remembers which tasks it has already reported as blocked or ready.\<close>

record sched_memory =
  smBlocked :: "task_id \<Rightarrow> bool"
  smReady :: "task_id \<Rightarrow> bool"

record tick_scan =
  tsActive :: int
  tsReady :: "task_id list"
  tsMemory :: sched_memory
  tsEvents :: "execution_event list"

definition scan_task :: "task_graph \<Rightarrow> task \<Rightarrow> tick_scan \<Rightarrow> tick_scan" where
  "scan_task g t sc =
     (let i = tID t; m = tsMemory sc in
      case computeReadiness g i of
        Some ReadinessActive \<Rightarrow> sc\<lparr>tsActive := tsActive sc + 1\<rparr>
      | Some ReadinessBlocked \<Rightarrow>
          if smBlocked m i then sc
          else sc\<lparr>tsMemory := m\<lparr>smBlocked := (smBlocked m)(i := True)\<rparr>,
                  tsEvents := tsEvents sc @ [\<lparr>evKind = EventTaskBlocked, evTaskID = i,
                    evDetail = Msg ''blocked by failed dependency %q''
                      [AS (case blockingDependency g i of None \<Rightarrow> [] | Some d \<Rightarrow> d)]\<rparr>]\<rparr>
      | Some ReadinessReady \<Rightarrow>
          let sc' = sc\<lparr>tsReady := tsReady sc @ [i]\<rparr> in
          if smReady m i then sc'
          else sc'\<lparr>tsMemory := m\<lparr>smReady := (smReady m)(i := True)\<rparr>,
                   tsEvents := tsEvents sc @ [\<lparr>evKind = EventTaskReady, evTaskID = i, evDetail = plain []\<rparr>]\<rparr>
      | _ \<Rightarrow> sc)"

definition scan_graph :: "task_graph \<Rightarrow> sched_memory \<Rightarrow> tick_scan" where
  "scan_graph g m = fold (scan_task g) g \<lparr>tsActive = 0, tsReady = [], tsMemory = m, tsEvents = []\<rparr>"

definition concurrency_limit :: "supervisor_limits \<Rightarrow> int" where
  "concurrency_limit L = (if MaxConcurrency L \<le> 0 then MaxConcurrency DefaultSupervisorLimits else MaxConcurrency L)"

definition dispatch_list :: "supervisor_limits \<Rightarrow> tick_scan \<Rightarrow> task_id list" where
  "dispatch_list L sc =
     (let available = max 0 (concurrency_limit L - tsActive sc) in
      take (nat available) (sort (tsReady sc)))"

subsection \<open>The dispatch loop and the goroutines\<close>

datatype goroutine =
    Launched
  | Begun
  | Cleared agent_id task
  | Calling agent_id task

record tick_state =
  tkCore :: core_state
  tkSnapshot :: task_graph
  tkMemory :: sched_memory
  tkPending :: "task_id list"
  tkRunning :: "task_id \<Rightarrow> goroutine option"
  tkEvents :: "execution_event list"
  tkCalls :: "(agent_id \<times> task) list"

text \<open>\<open>tkCalls\<close> records the provider calls made so far.\<close>

definition tick_start :: "supervisor_limits \<Rightarrow> sched_memory \<Rightarrow> core_state \<Rightarrow> tick_state" where
  "tick_start L m s =
     (let sc = scan_graph (csGraph s) m in
      \<lparr>tkCore = s, tkSnapshot = csGraph s, tkMemory = tsMemory sc, tkPending = dispatch_list L sc,
       tkRunning = (\<lambda>_. None), tkEvents = tsEvents sc, tkCalls = []\<rparr>)"

definition emit :: "execution_event list \<Rightarrow> tick_state \<Rightarrow> tick_state" where
  "emit evs c = c\<lparr>tkEvents := tkEvents c @ evs\<rparr>"

definition zero_task :: task where
  "zero_task = \<lparr>tID = [], tType = [], tCaps = [], tDeps = [], tRisk = [], tTenant = [], tStatus = StEmpty,
                tCost = 0, tLocked = False\<rparr>"

definition scheduler_assignment :: "task_id \<Rightarrow> agent_id \<Rightarrow> task \<Rightarrow> proposal" where
  "scheduler_assignment i a t =
     AssignTask i a (tCaps t) ''scheduler: capability-based deterministic routing''"

text \<open>One iteration of the loop over the tasks to dispatch.\<close>

definition dispatch_next :: "scheduler \<Rightarrow> string \<Rightarrow> tick_state \<Rightarrow> tick_state" where
  "dispatch_next sch did c =
     (case tkPending c of
        [] \<Rightarrow> c
      | i # rest \<Rightarrow>
          let t = (case byID (tkSnapshot c) i of None \<Rightarrow> zero_task | Some t \<Rightarrow> t);
              c = c\<lparr>tkPending := rest\<rparr> in
          (case selectAgent sch did t of
             Inl e \<Rightarrow> emit [fail_event EventAgentUnavailable i e] c
           | Inr (a, advice, captured) \<Rightarrow>
               (case Apply (schApplier sch) [scheduler_assignment i a t] (tkCore c) of
                  (s', st, Some e) \<Rightarrow> emit (advice @ [classifyApplyFailure i e]) c
                | (s', st, None) \<Rightarrow>
                    emit (advice @ [\<lparr>evKind = EventTaskAssigned, evTaskID = i, evDetail = plain a\<rparr>])
                      (c\<lparr>tkCore := s', tkRunning := (tkRunning c)(i \<mapsto> Launched)\<rparr>))))"

definition outcome_events :: "task_id \<Rightarrow> execution_result \<Rightarrow> sup_error option \<Rightarrow> execution_event list" where
  "outcome_events i r err =
     (case err of
        Some e \<Rightarrow> [classifyExecutionFailure i e]
      | None \<Rightarrow>
          if erStatus r = StFailed
          then [\<lparr>evKind = EventTaskFailed, evTaskID = i, evDetail = plain (erSummary r)\<rparr>]
          else [\<lparr>evKind = EventTaskSucceeded, evTaskID = i, evDetail = plain (erSummary r)\<rparr>] @
               (if erFindings r = [] then []
                else [\<lparr>evKind = EventFindingProduced, evTaskID = i, evDetail = Msg ''%v'' [AL (erFindings r)]\<rparr>]))"

definition ended :: "task_id \<Rightarrow> tick_state \<Rightarrow> tick_state" where
  "ended i c = c\<lparr>tkRunning := (tkRunning c)(i := None)\<rparr>"

text \<open>
  The steps of the goroutine of task \<open>i\<close>: it reports the start, reads a snapshot and checks it
  against the directory and the authorizer of that moment, moves the status and calls the
  provider, and records the outcome.
\<close>

datatype tick_action =
    DispatchNext scheduler string
  | Begin task_id
  | Check task_id executor
  | Call task_id executor
  | Return task_id executor string provider_outcome

fun tick_act :: "tick_action \<Rightarrow> tick_state \<Rightarrow> tick_state" where
  "tick_act (DispatchNext sch did) c = dispatch_next sch did c"
| "tick_act (Begin i) c =
     (if tkRunning c i = Some Launched
      then emit [\<lparr>evKind = EventTaskStarted, evTaskID = i, evDetail = plain []\<rparr>]
             (c\<lparr>tkRunning := (tkRunning c)(i \<mapsto> Begun)\<rparr>)
      else c)"
| "tick_act (Check i ex) c =
     (if tkRunning c i = Some Begun
      then (case revalidate ex (Snapshot (tkCore c)) i of
              Inl e \<Rightarrow> emit (outcome_events i empty_result (Some e)) (ended i c)
            | Inr (a, t) \<Rightarrow> c\<lparr>tkRunning := (tkRunning c)(i \<mapsto> Cleared a t)\<rparr>)
      else c)"
| "tick_act (Call i ex) c =
     (case tkRunning c i of
        Some (Cleared a t) \<Rightarrow>
          (case MarkExecuting i (tkCore c) of
             (s', Some e) \<Rightarrow> emit (outcome_events i empty_result (Some e)) (ended i c)
           | (s', None) \<Rightarrow>
               c\<lparr>tkCore := s', tkRunning := (tkRunning c)(i \<mapsto> Calling a t), tkCalls := tkCalls c @ [(a, t)]\<rparr>)
      | _ \<Rightarrow> c)"
| "tick_act (Return i ex eid po) c =
     (case tkRunning c i of
        Some (Calling a t) \<Rightarrow>
          (case finish ex eid a i po (tkCore c) of
             (s', r, err) \<Rightarrow> emit (outcome_events i r err) (ended i (c\<lparr>tkCore := s'\<rparr>)))
      | _ \<Rightarrow> c)"

subsection \<open>Waiting for everything the tick started\<close>

record tick_env =
  teScheduler :: scheduler
  teDecisionID :: "task_id \<Rightarrow> string"
  teExecutionID :: "task_id \<Rightarrow> string"
  teProvider :: "agent_id \<Rightarrow> task \<Rightarrow> provider_outcome"

definition dispatch_rest :: "tick_env \<Rightarrow> tick_state \<Rightarrow> tick_state" where
  "dispatch_rest env c =
     fold (\<lambda>i. tick_act (DispatchNext (teScheduler env) (teDecisionID env i))) (tkPending c) c"

definition finish_goroutine :: "tick_env \<Rightarrow> task_id \<Rightarrow> tick_state \<Rightarrow> tick_state" where
  "finish_goroutine env i c =
     (let ex = schExecutor (teScheduler env);
          c = tick_act (Call i ex) (tick_act (Check i ex) (tick_act (Begin i) c)) in
      case tkRunning c i of
        Some (Calling a t) \<Rightarrow> tick_act (Return i ex (teExecutionID env i) (teProvider env a t)) c
      | _ \<Rightarrow> c)"

text \<open>
  A whole tick: any interleaving \<open>acts\<close> first, and what is then still open is dispatched and
  run to its end. The wait group itself is not modelled: that \<open>wg.Wait\<close> returns when every goroutine has
  ended, and not before, is built into this definition. \<open>Tick\<close> never returns an error of its own.
\<close>

definition Tick ::
  "tick_env \<Rightarrow> tick_action list \<Rightarrow> sched_memory \<Rightarrow> core_state \<Rightarrow> tick_state"
where
  "Tick env acts m s =
     (let L = schLimits (teScheduler env); c0 = tick_start L m s;
          c = dispatch_rest env (fold tick_act acts c0) in
      fold (finish_goroutine env) (tkPending c0) c)"

subsection \<open>What a step does to the core\<close>

definition only_status_of :: "task_id \<Rightarrow> core_state \<Rightarrow> core_state \<Rightarrow> bool" where
  "only_status_of i s s' \<longleftrightarrow>
     s' = s \<or> (\<exists>k x. indexOf (csGraph s) i = Some k \<and> csGraph s' = (csGraph s)[k := (csGraph s ! k)\<lparr>tStatus := x\<rparr>])"

lemma only_status_forget:
  "only_status_of i s s' \<Longrightarrow>
     map_option forget_status (byID (csGraph s') j) = map_option forget_status (byID (csGraph s) j)"
  by (auto simp: only_status_of_def byID_list_update indexOf_facts)

lemma only_status_other: "only_status_of i s s' \<Longrightarrow> j \<noteq> i \<Longrightarrow> byID (csGraph s') j = byID (csGraph s) j"
  by (auto simp: only_status_of_def byID_list_update indexOf_facts)

lemma only_status_transition: "only_status_of i s (fst (transition old new i s))"
  by (auto simp: transition_def only_status_of_def Let_def split: option.splits)

lemma Apply_assign_cases:
  obtains (rejected) e where "Apply ap [AssignTask i a caps r] s = (s, Snapshot s, Some e)"
  | (assigned) s' k where "Apply ap [AssignTask i a caps r] s = (s', Snapshot s', None)"
      "indexOf (csGraph s) i = Some k" "tStatus (csGraph s ! k) \<in> {StEmpty, StPending}"
      "csGraph s' = (csGraph s)[k := (csGraph s ! k)\<lparr>tStatus := StAssigned\<rparr>]"
      "csAssign s' = (csAssign s)(i \<mapsto> a)"
proof (cases rule: applyGated_cases [of "apValidator ap" "apAuthorizer ap" "[AssignTask i a caps r]" s])
  case (rejected e)
  then show thesis using that(1) by (simp add: Apply_def)
next
  case (committed w)
  from committed(3) show thesis
    using that(2) [of "commit_work w s"] committed(5)
    by (auto simp: Apply_def bind_res_Inr Let_def split: option.splits if_splits)
qed

subsection \<open>Concurrency\<close>

definition is_active :: "task \<Rightarrow> bool" where
  "is_active t \<longleftrightarrow> tStatus t = StAssigned \<or> tStatus t = StExecuting"

definition active_count :: "task_graph \<Rightarrow> nat" where
  "active_count g = length (filter is_active g)"

lemma active_count_update:
  "k < length g \<Longrightarrow> active_count (g[k := u]) + of_bool (is_active (g ! k)) = active_count g + of_bool (is_active u)"
proof (induction g arbitrary: k)
  case (Cons t g)
  then show ?case by (cases k) (auto simp: active_count_def split: if_splits)
qed simp

lemma transition_active:
  assumes "old \<in> {StAssigned, StExecuting}"
  shows "active_count (csGraph (fst (transition old new i s))) \<le> active_count (csGraph s)"
proof (cases "indexOf (csGraph s) i")
  case (Some k)
  then show ?thesis
    using active_count_update [of k "csGraph s" "(csGraph s ! k)\<lparr>tStatus := new\<rparr>"] assms
    by (auto simp: transition_def Let_def is_active_def of_bool_def dest: indexOf_Some split: if_splits)
next
  case None
  show ?thesis unfolding transition_def None by simp
qed

definition load_ok :: "nat \<Rightarrow> tick_state \<Rightarrow> bool" where
  "load_ok M c \<longleftrightarrow> active_count (csGraph (tkCore c)) + length (tkPending c) \<le> M"

lemma emit_simps [simp]:
  "tkCore (emit evs c) = tkCore c" "tkPending (emit evs c) = tkPending c" "tkRunning (emit evs c) = tkRunning c"
  "tkSnapshot (emit evs c) = tkSnapshot c" "tkCalls (emit evs c) = tkCalls c"
  by (simp_all add: emit_def)

lemma ended_simps [simp]:
  "tkCore (ended i c) = tkCore c" "tkPending (ended i c) = tkPending c" "tkCalls (ended i c) = tkCalls c"
  "tkRunning (ended i c) = (tkRunning c)(i := None)" "tkSnapshot (ended i c) = tkSnapshot c"
  by (simp_all add: ended_def)

text \<open>The dispatch loop either drops the next task or assigns it.\<close>

lemma dispatch_next_cases:
  obtains (idle) "tkPending c = []" "dispatch_next sch did c = c"
  | (dropped) i rest evs where "tkPending c = i # rest"
      "dispatch_next sch did c = emit evs (c\<lparr>tkPending := rest\<rparr>)"
  | (started) i rest evs s' k a where "tkPending c = i # rest"
      "dispatch_next sch did c = emit evs (c\<lparr>tkPending := rest, tkCore := s', tkRunning := (tkRunning c)(i \<mapsto> Launched)\<rparr>)"
      "indexOf (csGraph (tkCore c)) i = Some k" "tStatus (csGraph (tkCore c) ! k) \<in> {StEmpty, StPending}"
      "csGraph s' = (csGraph (tkCore c))[k := (csGraph (tkCore c) ! k)\<lparr>tStatus := StAssigned\<rparr>]"
      "csAssign s' = (csAssign (tkCore c))(i \<mapsto> a)"
proof (cases "tkPending c")
  case Nil
  then show thesis using that(1) by (simp add: dispatch_next_def)
next
  case (Cons i rest)
  let ?t = "case byID (tkSnapshot c) i of None \<Rightarrow> zero_task | Some t \<Rightarrow> t"
  show thesis
  proof (cases "selectAgent sch did ?t")
    case (Inl e)
    then show thesis using that(2) Cons by (simp add: dispatch_next_def Let_def)
  next
    case (Inr r)
    obtain a evs captured where r: "r = (a, evs, captured)" by (cases r)
    show thesis
    proof (cases rule: Apply_assign_cases [of "schApplier sch" i a "tCaps ?t"
          "''scheduler: capability-based deterministic routing''" "tkCore c"])
      case (rejected e)
      then show thesis using that(2) Cons Inr r by (simp add: dispatch_next_def scheduler_assignment_def Let_def)
    next
      case (assigned s' k)
      then show thesis using that(3) Cons Inr r by (simp add: dispatch_next_def scheduler_assignment_def Let_def)
    qed
  qed
qed

lemma dispatch_load: "load_ok M c \<Longrightarrow> load_ok M (dispatch_next sch did c)"
proof (cases rule: dispatch_next_cases [of c sch did])
  case (started i rest evs s' k a)
  moreover assume "load_ok M c"
  ultimately show ?thesis
    using indexOf_Some [OF started(3)]
      active_count_update [of k "csGraph (tkCore c)" "(csGraph (tkCore c) ! k)\<lparr>tStatus := StAssigned\<rparr>"]
    by (auto simp: load_ok_def is_active_def)
qed (auto simp: load_ok_def)

lemma finish_active: "active_count (csGraph (fst (finish ex eid a i po s))) \<le> active_count (csGraph s)"
  using transition_active [of StExecuting _ i s]
  by (auto simp: finish_def Let_def MarkFailed_def MarkCompleted_def split: option.splits prod.splits)
    (metis fst_conv insertCI)+

lemma tick_act_load: "load_ok M c \<Longrightarrow> load_ok M (tick_act act c)"
proof (cases act)
  case (DispatchNext sch did)
  moreover assume "load_ok M c"
  ultimately show ?thesis by (simp add: dispatch_load)
next
  case (Call i ex)
  moreover assume "load_ok M c"
  ultimately show ?thesis
    using transition_active [of StAssigned StExecuting i "tkCore c"]
    by (auto simp: load_ok_def MarkExecuting_def split: option.splits goroutine.splits prod.splits)
next
  case (Return i ex eid po)
  moreover assume "load_ok M c"
  moreover have "active_count (csGraph s') \<le> active_count (csGraph (tkCore c))"
    if "finish ex eid a i po (tkCore c) = (s', r, err)" for a s' r err
    using finish_active [of ex eid a i po "tkCore c"] that by simp
  ultimately show ?thesis
    by (auto simp: load_ok_def split: option.splits goroutine.splits prod.splits) (meson add_le_mono1 le_trans)
qed (auto simp: load_ok_def split: sum.splits prod.splits)

interpretation tick_load: state_machine tick_act "load_ok M" for M
  by unfold_locales (rule tick_act_load)

lemma scan_fold:
  "tsActive (fold (scan_task g) ts sc) =
     tsActive sc + int (length (filter (\<lambda>t. computeReadiness g (tID t) = Some ReadinessActive) ts)) \<and>
   tsReady (fold (scan_task g) ts sc) =
     tsReady sc @ map tID (filter (\<lambda>t. computeReadiness g (tID t) = Some ReadinessReady) ts)"
proof (induction ts arbitrary: sc)
  case (Cons t ts)
  show ?case using Cons [of "scan_task g t sc"]
    by (auto simp: scan_task_def Let_def split: option.split readiness_state.split)
qed simp

lemma scan_graph_ready: "set (tsReady (scan_graph g m)) \<subseteq> {i. computeReadiness g i = Some ReadinessReady}"
  using scan_fold [of g g] by (auto simp: scan_graph_def)

lemma scan_graph_active:
  assumes "distinct (map tID g)"
  shows "tsActive (scan_graph g m) = int (active_count g)"
proof -
  have "filter (\<lambda>t. computeReadiness g (tID t) = Some ReadinessActive) g = filter is_active g"
    by (rule filter_cong [OF refl])
      (simp add: computeReadiness_byID [OF assms] byID_distinct [OF assms] readiness_active is_active_def)
  then show ?thesis using scan_fold [of g g] by (simp add: scan_graph_def active_count_def)
qed

lemma tick_start_load:
  assumes "distinct (map tID (csGraph s))"
  shows "load_ok (nat (max (concurrency_limit L) (int (active_count (csGraph s))))) (tick_start L m s)"
proof -
  have "n \<le> nat (max 0 (l - int a)) \<Longrightarrow> a + n \<le> nat (max l (int a))" for n a l
    by arith
  then show ?thesis
    by (simp add: load_ok_def tick_start_def Let_def dispatch_list_def scan_graph_active [OF assms])
qed

text \<open>
  C1: at every moment of a tick, however the dispatch loop and the goroutines interleave, at
  most as many tasks are assigned or executing as the concurrency limit allows, or as were
  when the tick began if those were already more.
\<close>

theorem tick_concurrency_bound:
  assumes "distinct (map tID (csGraph s))"
  shows "int (active_count (csGraph (tkCore (fold tick_act acts (tick_start L m s))))) \<le>
           max (concurrency_limit L) (int (active_count (csGraph s)))"
proof -
  have "load_ok (nat (max (concurrency_limit L) (int (active_count (csGraph s))))) (fold tick_act acts (tick_start L m s))"
    by (rule tick_load.run_inv) (rule tick_start_load [OF assms])
  then show ?thesis by (auto simp: load_ok_def)
qed

definition empty_memory :: sched_memory where
  "empty_memory = \<lparr>smBlocked = (\<lambda>_. False), smReady = (\<lambda>_. False)\<rparr>"

theorem tick_concurrency_bound_witness:
  "int (active_count (csGraph (tkCore (fold tick_act
      [DispatchNext sample_scheduler ''d'', Begin ''a'', Check ''a'' sample_executor, Call ''a'' sample_executor]
      (tick_start DefaultSupervisorLimits empty_memory sample_core))))) \<le> 4"
proof -
  have "distinct (map tID (csGraph sample_core))" by (simp add: sample_core_def NewCoreState_def)
  from tick_concurrency_bound [OF this, of "[DispatchNext sample_scheduler ''d'', Begin ''a'',
      Check ''a'' sample_executor, Call ''a'' sample_executor]" DefaultSupervisorLimits empty_memory]
  show ?thesis
    by (simp add: concurrency_limit_def DefaultSupervisorLimits_def sample_core_def NewCoreState_def
        active_count_def is_active_def sample_task_def del: fold_simps)
qed

subsection \<open>Only ready tasks are dispatched\<close>

definition ready_at :: "core_state \<Rightarrow> task_id \<Rightarrow> bool" where
  "ready_at s i \<longleftrightarrow> computeReadiness (csGraph s) i = Some ReadinessReady"

definition same_task :: "core_state \<Rightarrow> task_id \<Rightarrow> task \<Rightarrow> bool" where
  "same_task s i t \<longleftrightarrow> map_option forget_status (byID (csGraph s) i) = Some (forget_status t)"

fun goroutine_ok :: "core_state \<Rightarrow> task_id \<Rightarrow> goroutine \<Rightarrow> bool" where
  "goroutine_ok s i (Cleared a t) = (ready_at s i \<and> same_task s i t)"
| "goroutine_ok s i (Calling a t) = (ready_at s i \<and> same_task s i t)"
| "goroutine_ok s i _ = ready_at s i"

lemma goroutine_ready: "goroutine_ok s i r \<Longrightarrow> ready_at s i"
  by (cases r) auto

definition tick_inv :: "core_state \<Rightarrow> tick_state \<Rightarrow> bool" where
  "tick_inv s0 c \<longleftrightarrow>
     (\<forall>i \<in> set (tkPending c). ready_at s0 i) \<and>
     (\<forall>i r. tkRunning c i = Some r \<longrightarrow> goroutine_ok s0 i r) \<and>
     (\<forall>i. map_option forget_status (byID (csGraph (tkCore c)) i) = map_option forget_status (byID (csGraph s0) i)) \<and>
     (\<forall>i. \<not> ready_at s0 i \<longrightarrow> byID (csGraph (tkCore c)) i = byID (csGraph s0) i) \<and>
     (\<forall>(a, t) \<in> set (tkCalls c). ready_at s0 (tID t) \<and> same_task s0 (tID t) t)"

lemma core_step_tick_inv:
  assumes "tick_inv s0 c" and "only_status_of i (tkCore c) s'" and "ready_at s0 i"
  shows "tick_inv s0 (c\<lparr>tkCore := s'\<rparr>)"
proof -
  have "byID (csGraph s') j = byID (csGraph s0) j" if "\<not> ready_at s0 j" for j
  proof -
    have "j \<noteq> i" using that assms(3) by blast
    then show ?thesis using only_status_other [OF assms(2)] assms(1) that by (simp add: tick_inv_def)
  qed
  then show ?thesis using assms(1) only_status_forget [OF assms(2)] by (simp add: tick_inv_def)
qed

lemma tick_inv_simps [simp]:
  "tick_inv s0 (emit evs c) = tick_inv s0 c"
  by (simp add: tick_inv_def)

lemma tick_inv_ended: "tick_inv s0 c \<Longrightarrow> tick_inv s0 (ended i c)"
  by (simp add: tick_inv_def)

lemma tick_inv_running:
  "tick_inv s0 c \<Longrightarrow> goroutine_ok s0 i r \<Longrightarrow> tick_inv s0 (c\<lparr>tkRunning := (tkRunning c)(i \<mapsto> r)\<rparr>)"
  by (simp add: tick_inv_def)

lemma running_ready: "tick_inv s0 c \<Longrightarrow> tkRunning c i = Some r \<Longrightarrow> goroutine_ok s0 i r"
  by (simp add: tick_inv_def)

lemma cleared_same:
  assumes "tick_inv s0 c" and "cleared_for ex (Snapshot (tkCore c)) i a t"
  shows "same_task s0 i t" "tID t = i"
proof -
  have t: "byID (csGraph (tkCore c)) i = Some t" using assms(2) by (simp add: cleared_for_def)
  then show "tID t = i" using byID_Some by blast
  have "map_option forget_status (byID (csGraph s0) i) = map_option forget_status (byID (csGraph (tkCore c)) i)"
    using assms(1) by (simp add: tick_inv_def)
  then show "same_task s0 i t" by (simp add: same_task_def t)
qed

lemma dispatch_tick_inv:
  assumes "tick_inv s0 c"
  shows "tick_inv s0 (dispatch_next sch did c)"
proof (cases rule: dispatch_next_cases [of c sch did])
  case (started i rest evs s' k a)
  have r: "ready_at s0 i" using assms started(1) by (simp add: tick_inv_def)
  have "only_status_of i (tkCore c) s'" using started(3,5) by (auto simp: only_status_of_def)
  from core_step_tick_inv [OF assms this r] have "tick_inv s0 (c\<lparr>tkCore := s'\<rparr>)" .
  then show ?thesis using r started(1) unfolding started(2) by (simp add: tick_inv_def)
qed (use assms in \<open>auto simp: tick_inv_def\<close>)

lemma only_status_finish: "only_status_of i s (fst (finish ex eid a i po s))"
proof -
  have "fst (finish ex eid a i po s) = fst (MarkFailed i s) \<or> fst (finish ex eid a i po s) = fst (MarkCompleted i s)"
    by (auto simp: finish_def Let_def split: option.splits prod.splits)
  then show ?thesis using only_status_transition unfolding MarkFailed_def MarkCompleted_def by metis
qed

lemma check_tick_inv: "tick_inv s0 c \<Longrightarrow> tick_inv s0 (tick_act (Check i ex) c)"
proof (cases "tkRunning c i = Some Begun")
  case True
  assume inv: "tick_inv s0 c"
  show ?thesis
  proof (cases "revalidate ex (Snapshot (tkCore c)) i")
    case (Inl e)
    with True inv show ?thesis by (simp add: tick_inv_ended)
  next
    case (Inr x)
    obtain a t where x: "x = (a, t)" by (cases x)
    have "cleared_for ex (Snapshot (tkCore c)) i a t" using Inr x by (simp add: step_simps)
    then have "goroutine_ok s0 i (Cleared a t)"
      using cleared_same [OF inv] running_ready [OF inv True] by simp
    with True Inr x inv show ?thesis by (simp add: tick_inv_running)
  qed
qed simp

lemma call_tick_inv: "tick_inv s0 c \<Longrightarrow> tick_inv s0 (tick_act (Call i ex) c)"
proof (cases "\<exists>a t. tkRunning c i = Some (Cleared a t)")
  case True
  then obtain a t where r: "tkRunning c i = Some (Cleared a t)" by blast
  assume inv: "tick_inv s0 c"
  have ok: "ready_at s0 i" "same_task s0 i t" using running_ready [OF inv r] by auto
  show ?thesis
  proof (cases "MarkExecuting i (tkCore c)")
    case (Pair s' e)
    then have "only_status_of i (tkCore c) s'"
      using only_status_transition [of i "tkCore c" StAssigned StExecuting] by (simp add: MarkExecuting_def)
    from core_step_tick_inv [OF inv this ok(1)] have inv': "tick_inv s0 (c\<lparr>tkCore := s'\<rparr>)" .
    have "tID t = i"
      using ok(2) by (auto simp: same_task_def forget_status_def dest!: byID_Some) (metis task.ext_inject task.surjective task.update_convs(7))
    then show ?thesis
      using r Pair inv inv' ok by (cases e) (auto simp: tick_inv_def)
  qed
qed (auto split: option.splits goroutine.splits)

lemma return_tick_inv: "tick_inv s0 c \<Longrightarrow> tick_inv s0 (tick_act (Return i ex eid po) c)"
proof (cases "\<exists>a t. tkRunning c i = Some (Calling a t)")
  case True
  then obtain a t where r: "tkRunning c i = Some (Calling a t)" by blast
  assume inv: "tick_inv s0 c"
  obtain s' res err where f: "finish ex eid a i po (tkCore c) = (s', res, err)" by (cases "finish ex eid a i po (tkCore c)")
  have "only_status_of i (tkCore c) s'" using only_status_finish [of i "tkCore c" ex eid a po] f by simp
  moreover have "ready_at s0 i" using running_ready [OF inv r] by simp
  ultimately have "tick_inv s0 (c\<lparr>tkCore := s'\<rparr>)" by (rule core_step_tick_inv [OF inv])
  then show ?thesis using r f by (simp add: tick_inv_ended)
qed (auto split: option.splits goroutine.splits)

lemma tick_act_inv: "tick_inv s0 c \<Longrightarrow> tick_inv s0 (tick_act act c)"
proof (cases act)
  case (Begin i)
  assume inv: "tick_inv s0 c"
  have "tick_inv s0 (c\<lparr>tkRunning := (tkRunning c)(i \<mapsto> Begun)\<rparr>)" if "tkRunning c i = Some Launched"
    using running_ready [OF inv that] by (intro tick_inv_running [OF inv]) simp
  with Begin inv show ?thesis by simp
qed (auto simp: dispatch_tick_inv check_tick_inv call_tick_inv return_tick_inv simp del: tick_act.simps(3-5))

interpretation tick_ready: state_machine tick_act "tick_inv s0" for s0
  by unfold_locales (rule tick_act_inv)

lemma tick_start_inv: "tick_inv s (tick_start L m s)"
  using scan_graph_ready [of "csGraph s" m]
  by (auto simp: tick_inv_def tick_start_def Let_def dispatch_list_def ready_at_def dest!: in_set_takeD)

text \<open>
  C9: in a tick the provider is only ever called for tasks that were ready when the tick
  began: neither terminal nor already assigned, with every dependency existing and completed.
\<close>

theorem only_ready_tasks_run:
  assumes "distinct (map tID (csGraph s))"
    and "(a, t) \<in> set (tkCalls (fold tick_act acts (tick_start L m s)))"
  shows "\<exists>u. byID (csGraph s) (tID t) = Some u \<and> tDeps u = tDeps t \<and> tCaps u = tCaps t \<and>
             \<not> is_active u \<and> tStatus u \<notin> {StCompleted, StFailed} \<and> deps_completed (csGraph s) u"
proof -
  have "tick_inv s (fold tick_act acts (tick_start L m s))"
    by (rule tick_ready.run_inv) (rule tick_start_inv)
  with assms(2) have r: "ready_at s (tID t)" "same_task s (tID t) t" by (auto simp: tick_inv_def)
  then obtain u where u: "byID (csGraph s) (tID t) = Some u" "forget_status u = forget_status t"
    by (auto simp: same_task_def)
  then have "readiness (statusOf (csGraph s)) u = ReadinessReady"
    using r(1) by (simp add: ready_at_def computeReadiness_byID [OF assms(1)])
  moreover have "tDeps u = tDeps t" "tCaps u = tCaps t"
    using u(2) by (metis forget_status_simps(2), simp add: forget_status_def) (metis task.select_convs(3) task.surjective task.update_convs(7) u(2) forget_status_def)
  ultimately show ?thesis
    using u(1) by (auto simp: readiness_ready is_active_def deps_completed_def list_all_iff statusOf_byID [OF assms(1)]
        split: option.splits)
qed

definition run_scheduler :: scheduler where
  "run_scheduler = sample_scheduler
     \<lparr>schAdvisor := None, schAdmission := None,
      schCatalog := \<lparr>AgentExists = AgentExists sample_dir, Capabilities = Capabilities sample_dir,
        TenantOf = TenantOf sample_dir, ListAgents = Inr [(''reviewer'', [''review'']), (''coder'', [''write_repository''])]\<rparr>\<rparr>"

definition run_core :: core_state where
  "run_core = sample_core\<lparr>csGraph := [(sample_task ''a'' [] [])\<lparr>tStatus := StAssigned\<rparr>],
                         csAssign := (\<lambda>_. None)(''a'' \<mapsto> ''coder'')\<rparr>"

lemma run_select: "selectAgent run_scheduler ''d'' (sample_task ''a'' [] []) = Inr (''coder'', [], [])"
  by (simp add: selectAgent_def eligibleCandidates_def run_scheduler_def sample_scheduler_def sample_task_def
      capture_def captureDecisionWithID_def admitExperimentChallenger_def Let_def)

lemma run_apply:
  "Apply sample_applier [scheduler_assignment ''a'' ''coder'' (sample_task ''a'' [] [])] sample_core =
     (run_core, Snapshot run_core, None)"
proof -
  have "ValidateBatch (sample_validator\<lparr>vRange := id\<rparr>) (Snapshot sample_core)
      [scheduler_assignment ''a'' ''coder'' (sample_task ''a'' [] [])] = None"
    by (simp add: scheduler_assignment_def sample_core_def NewCoreState_def validate_eval graph_eval sample_simps)
  moreover have "sample_validator\<lparr>vRange := id\<rparr> = sample_validator"
    by (simp add: sample_validator_def NewValidator_def)
  ultimately show ?thesis
    by (simp add: Apply_def applyGated_def sample_applier_def AllowAllAuthorizer_def authorize_all_def
        persist_err_def scheduler_assignment_def run_core_def sample_core_def NewCoreState_def sample_task_def
        work_init_def commit_work_def Let_def)
qed

lemma run_start:
  "tick_start DefaultSupervisorLimits empty_memory sample_core =
     \<lparr>tkCore = sample_core, tkSnapshot = [sample_task ''a'' [] []],
      tkMemory = \<lparr>smBlocked = (\<lambda>_. False), smReady = (\<lambda>_. False)(''a'' := True)\<rparr>, tkPending = [''a''],
      tkRunning = (\<lambda>_. None), tkEvents = [\<lparr>evKind = EventTaskReady, evTaskID = ''a'', evDetail = plain []\<rparr>],
      tkCalls = []\<rparr>"
  by (simp add: tick_start_def scan_graph_def scan_task_def dispatch_list_def concurrency_limit_def
      computeReadiness_def readiness_def empty_memory_def sample_core_def NewCoreState_def sample_task_def
      DefaultSupervisorLimits_def Let_def)

lemma run_check: "revalidate sample_executor (Snapshot run_core) ''a'' =
    Inr (''coder'', (sample_task ''a'' [] [])\<lparr>tStatus := StAssigned\<rparr>)"
  by (simp add: revalidate_def run_core_def sample_task_def sample_executor_def sample_dir_def MissingCapabilities_def
      AllowAllAuthorizer_def)

definition run_sample :: "tick_action list" where
  "run_sample = [DispatchNext run_scheduler ''d'', Begin ''a'', Check ''a'' sample_executor, Call ''a'' sample_executor]"

lemma run_sample_calls:
  "tkCalls (fold tick_act run_sample (tick_start DefaultSupervisorLimits empty_memory sample_core)) =
     [(''coder'', (sample_task ''a'' [] [])\<lparr>tStatus := StAssigned\<rparr>)]"
proof -
  have ap: "schApplier run_scheduler = sample_applier" by (simp add: run_scheduler_def sample_scheduler_def)
  have id: "tID (sample_task ''a'' [] []) = ''a''" by (simp add: sample_task_def)
  have d: "dispatch_next run_scheduler ''d'' (tick_start DefaultSupervisorLimits empty_memory sample_core) =
      emit [\<lparr>evKind = EventTaskAssigned, evTaskID = ''a'', evDetail = plain ''coder''\<rparr>]
        (tick_start DefaultSupervisorLimits empty_memory sample_core
           \<lparr>tkPending := [], tkCore := run_core, tkRunning := (\<lambda>_. None)(''a'' \<mapsto> Launched)\<rparr>)"
    by (simp add: dispatch_next_def run_start run_select run_apply ap id)
  show ?thesis
    by (simp only: run_sample_def fold_simps tick_act.simps(1) d)
      (simp add: run_check run_start, simp add: MarkExecuting_def transition_def run_core_def sample_task_def)
qed

theorem only_ready_tasks_run_witness:
  "deps_completed (csGraph sample_core) (sample_task ''a'' [] [])"
proof -
  have d: "distinct (map tID (csGraph sample_core))" by (simp add: sample_core_def NewCoreState_def)
  have "(''coder'', (sample_task ''a'' [] [])\<lparr>tStatus := StAssigned\<rparr>) \<in>
      set (tkCalls (fold tick_act run_sample (tick_start DefaultSupervisorLimits empty_memory sample_core)))"
    by (simp add: run_sample_calls del: fold_simps)
  from only_ready_tasks_run [OF d this] show ?thesis
    by (auto simp: sample_core_def NewCoreState_def sample_task_def deps_completed_def)
qed

text \<open>
  A task that is assigned or executing when a tick begins is left alone by it, whatever
  happens: its entry in the graph is the same afterwards and the provider is not called for it.
\<close>

theorem assigned_task_never_dispatched:
  assumes "distinct (map tID (csGraph s))" and "byID (csGraph s) i = Some t" and "is_active t"
  shows "byID (csGraph (tkCore (fold tick_act acts (tick_start L m s)))) i = Some t \<and>
         list_all (\<lambda>(a, u). tID u \<noteq> i) (tkCalls (fold tick_act acts (tick_start L m s)))"
proof -
  have inv: "tick_inv s (fold tick_act acts (tick_start L m s))"
    by (rule tick_ready.run_inv) (rule tick_start_inv)
  have "\<not> ready_at s i"
    using assms(3) by (auto simp: ready_at_def computeReadiness_byID [OF assms(1)] assms(2) readiness_ready is_active_def)
  with inv assms(2) show ?thesis by (auto simp: tick_inv_def list_all_iff)
qed

theorem assigned_task_never_dispatched_witness:
  "byID (csGraph (tkCore (fold tick_act [DispatchNext sample_scheduler ''d'', Begin ''a'', Check ''a'' sample_executor]
     (tick_start DefaultSupervisorLimits empty_memory assigned_core)))) ''a'' =
   Some ((sample_task ''a'' [''review''] [])\<lparr>tStatus := StAssigned\<rparr>)"
proof -
  have "distinct (map tID (csGraph assigned_core))"
    "byID (csGraph assigned_core) ''a'' = Some ((sample_task ''a'' [''review''] [])\<lparr>tStatus := StAssigned\<rparr>)"
    "is_active ((sample_task ''a'' [''review''] [])\<lparr>tStatus := StAssigned\<rparr>)"
    by (simp_all add: assigned_core_def NewCoreState_def sample_task_def is_active_def)
  from assigned_task_never_dispatched [OF this] show ?thesis by blast
qed

subsection \<open>A tick is a run of its actions\<close>

lemma finish_goroutine_act: "\<exists>acts. finish_goroutine env i c = fold tick_act acts c"
proof -
  let ?ex = "schExecutor (teScheduler env)"
  let ?c = "tick_act (Call i ?ex) (tick_act (Check i ?ex) (tick_act (Begin i) c))"
  have three: "?c = fold tick_act [Begin i, Check i ?ex, Call i ?ex] c" by simp
  show ?thesis
  proof (cases "\<exists>a t. tkRunning ?c i = Some (Calling a t)")
    case True
    then obtain a t where "tkRunning ?c i = Some (Calling a t)" by blast
    then have "finish_goroutine env i c =
        fold tick_act [Begin i, Check i ?ex, Call i ?ex, Return i ?ex (teExecutionID env i) (teProvider env a t)] c"
      unfolding finish_goroutine_def Let_def by (simp del: tick_act.simps)
    then show ?thesis by blast
  next
    case False
    then have "finish_goroutine env i c = ?c"
      unfolding finish_goroutine_def Let_def by (auto simp del: tick_act.simps split: option.splits goroutine.splits)
    then show ?thesis using three by metis
  qed
qed

lemma finish_all_acts: "\<exists>acts. fold (finish_goroutine env) is c = fold tick_act acts c"
proof (induction "is" arbitrary: c)
  case Nil
  show ?case by (rule exI [of _ "[]"]) simp
next
  case (Cons i "is")
  obtain a where a: "finish_goroutine env i c = fold tick_act a c" using finish_goroutine_act by blast
  obtain b where "fold (finish_goroutine env) is (fold tick_act a c) = fold tick_act b (fold tick_act a c)"
    using Cons by blast
  then show ?case by (intro exI [of _ "a @ b"]) (simp add: a)
qed

lemma dispatch_rest_acts: "\<exists>acts. dispatch_rest env c = fold tick_act acts c"
proof -
  have "dispatch_rest env c =
      fold tick_act (map (\<lambda>i. DispatchNext (teScheduler env) (teDecisionID env i)) (tkPending c)) c"
    by (simp add: dispatch_rest_def fold_map comp_def del: tick_act.simps)
  then show ?thesis by blast
qed

lemma Tick_run: "\<exists>acts'. Tick env acts m s = fold tick_act acts' (tick_start (schLimits (teScheduler env)) m s)"
proof -
  let ?c = "tick_start (schLimits (teScheduler env)) m s"
  obtain b where b: "dispatch_rest env (fold tick_act acts ?c) = fold tick_act b (fold tick_act acts ?c)"
    using dispatch_rest_acts by blast
  obtain d where d: "fold (finish_goroutine env) (tkPending ?c) (fold tick_act b (fold tick_act acts ?c)) =
      fold tick_act d (fold tick_act b (fold tick_act acts ?c))"
    using finish_all_acts by blast
  have "Tick env acts m s = fold tick_act (acts @ b @ d) ?c"
    by (simp add: Tick_def Let_def b d del: tick_act.simps)
  then show ?thesis by blast
qed

subsection \<open>The scheduler's own assignments are accepted\<close>

text \<open>A registry's eligible agent passes the agent checks of a validator over that registry.\<close>

context agent_registry begin

lemma eligible_known:
  assumes "eligible_agent cat t a"
  shows "AgentExists cat a" "set (tCaps t) \<subseteq> set (fst (Capabilities cat a))"
proof -
  from assms obtain l cs where l: "ListAgents cat = Inr l" "(a, cs) \<in> set l" "set (tCaps t) \<subseteq> set cs"
    by (auto simp: eligible_agent_def)
  show "AgentExists cat a" using listed_exists [OF l(1,2)] .
  show "set (tCaps t) \<subseteq> set (fst (Capabilities cat a))" using listed_caps [OF l(1,2)] l(3) by simp
qed

end

lemma guardrails_of_inv:
  assumes "is_range (vRange v)" and "core_inv (vLimits v) s" and "i \<in> tID ` set (csGraph s)"
  shows "checkGuardrails v (Snapshot s)
      \<lparr>baKnown = known_tasks (csGraph s), baFanout = [a], baReplan = 0, baReview = 0\<rparr> = None"
proof -
  have inv: "graph_ok (vLimits v) (csGraph s)" using assms(2) by (simp add: core_inv_def)
  then have acyc: "acyclic (dep_rel (known_tasks (csGraph s)))" and d: "distinct (map tID (csGraph s))"
    by (auto simp: graph_ok_def)
  have keys: "fst ` set (known_tasks (csGraph s)) = tID ` set (csGraph s)"
    by (rule mirrors_keys) (rule mirrors_init [OF d])
  then have ne: "known_tasks (csGraph s) \<noteq> []" using assms(3) by auto
  from graphDepth_attained [OF assms(1) acyc ne] obtain c where
    "dep_chain (known_tasks (csGraph s)) c" "c \<noteq> []" "hd c \<in> tID ` set (csGraph s)"
    "length c = graphDepth (vRange v) (known_tasks (csGraph s))"
    unfolding keys by blast
  then have "int (graphDepth (vRange v) (known_tasks (csGraph s))) \<le> MaxTaskDepth (vLimits v)"
    if "0 < MaxTaskDepth (vLimits v)"
    using inv that by (metis graph_ok_def)
  then show ?thesis by (auto simp: checkGuardrails_def Let_def)
qed

text \<open>
  An assignment the scheduler makes for a ready task is not refused for its agent. If
  the validator asks the engine's agents, the same ones the scheduler listed, then in every
  state that satisfies the invariant the batch is committed, provided that the selected agent
  is not the supervisor itself, that the task's capabilities are in the vocabulary, that the
  authorizer agrees and that the durability hook succeeds.
\<close>

theorem scheduler_assignment_commits:
  assumes "is_range (vRange v)" and "core_inv (vLimits v) s"
    and "vAgents v = agent_directory.truncate (SupervisorAgentDirectory d)"
    and "schCatalog sch = SupervisorAgentDirectory d" and "schApplier sch = \<lparr>apValidator = v, apAuthorizer = authz\<rparr>"
    and "byID (csGraph s) i = Some t" and "tStatus t = StPending \<or> tStatus t = StEmpty"
    and "selectAgent sch did t = Inr (a, evs, captured)"
    and "i \<noteq> []" and "a \<noteq> []" and "a \<noteq> SupervisorAgentID" and "list_all (vAllowed v) (tCaps t)"
    and "authz (Snapshot s) (scheduler_assignment i a t) = None"
    and "\<And>g. persist_err s g = None"
  shows "status_of (fst (Apply (schApplier sch) [scheduler_assignment i a t] s)) i = Some StAssigned"
proof -
  have el: "eligible_agent (SupervisorAgentDirectory d) t a"
    using assms(8) assms(4) by (metis selectAgent_captured captured_choice_eligible candidates_eligible fst_conv)
  note known = adapter.eligible_known [OF el]
  have mem: "i \<in> tID ` set (csGraph s)" using byID_Some [OF assms(6)] by blast
  have g: "graph_ok (vLimits v) (csGraph s)" using assms(2) by (simp add: core_inv_def)
  let ?acc = "\<lparr>baKnown = known_tasks (csGraph s), baFanout = [a], baReplan = 0, baReview = 0\<rparr>"
  have "validate_proposal v (Snapshot s) (0, scheduler_assignment i a t) (batch_init (Snapshot s)) = Inr ?acc"
    using known assms(3,6,9-12) g
    by (simp add: validate_proposal_step scheduler_assignment_def batch_init_def validateRationale_def
        MaxRationaleLength_def graph_ok_def map_of_known_tasks agent_directory.defs list_all_iff)
  then have v: "validate_all v (Snapshot s) [scheduler_assignment i a t] = Inr ?acc"
    by (simp add: validate_all_def)
  have "findCycle (vRange v) (known_tasks (csGraph s)) = None"
    using g by (simp add: findCycle_None_iff [OF assms(1)] graph_ok_def)
  with v guardrails_of_inv [OF assms(1,2) mem] have val: "ValidateBatch v (Snapshot s) [scheduler_assignment i a t] = None"
    by (simp add: ValidateBatch_None)
  obtain k where k: "indexOf (csGraph s) i = Some k"
    using mem by (cases "indexOf (csGraph s) i") simp_all
  have st: "csGraph s ! k = t" using indexOf_Some [OF k] assms(6) by simp
  have "apply_proposal (scheduler_assignment i a t) (work_init s) =
      Inr (work_init s\<lparr>wGraph := (csGraph s)[k := t\<lparr>tStatus := StAssigned\<rparr>], wAssign := (csAssign s)(i \<mapsto> a)\<rparr>)"
    using assms(7) by (auto simp: scheduler_assignment_def k st Let_def)
  then show ?thesis
    using val assms(5,13,14)
    by (simp add: Apply_def applyGated_def authorize_all_def Let_def status_of_def)
      (simp add: byID_list_update [OF k] indexOf_Some [OF k, unfolded st])
qed

definition live_agents :: engine_agents where
  "live_agents = Some [(''zoe'', DefaultCapabilities ''coder'' True), (''amy'', DefaultCapabilities ''reviewer'' True)]"

definition live_validator :: validator where
  "live_validator = NewValidator (agent_directory.truncate (SupervisorAgentDirectory live_agents)) None
     DefaultSupervisorLimits rev"

definition live_scheduler :: scheduler where
  "live_scheduler = sample_scheduler\<lparr>schAdvisor := None, schAdmission := None,
     schCatalog := SupervisorAgentDirectory live_agents,
     schApplier := \<lparr>apValidator = live_validator, apAuthorizer = AllowAllAuthorizer\<rparr>\<rparr>"

theorem scheduler_assignment_commits_witness:
  "status_of (fst (Apply (schApplier live_scheduler)
     [scheduler_assignment ''a'' ''amy'' (sample_task ''a'' [] [])] sample_core)) ''a'' = Some StAssigned"
proof (rule scheduler_assignment_commits [where v = live_validator and d = live_agents and authz = AllowAllAuthorizer])
  show "selectAgent live_scheduler ''d'' (sample_task ''a'' [] []) = Inr (''amy'', [], [])"
    by (simp add: selectAgent_def eligibleCandidates_def live_scheduler_def live_agents_def sample_scheduler_def
        adapter_list_def sample_task_def capture_def captureDecisionWithID_def admitExperimentChallenger_def Let_def)
qed (simp_all add: live_validator_def live_scheduler_def NewValidator_def sample_core_inv AllowAllAuthorizer_def
    SupervisorAgentID_def sample_core_def NewCoreState_def sample_task_def persist_err_def
    sample_core_inv [unfolded sample_core_def NewCoreState_def sample_task_def, simplified])

end
