(* ===== verification/Workflow.thy ===== *)
theory Workflow
  imports Tick
begin

text \<open>
  The workflow loop (\<open>internal/supervisor/workflow.go\<close>): plan, tick, replan on a failure,
  completion derived by Core. The supervisor, the environment of each tick and its
  interleaving are parameters; the loop runs at most the configured number of ticks, so it is
  a recursion on the ticks left.
\<close>

record workflow_result =
  wrCompleted :: bool
  wrSucceeded :: bool
  wrSynthesis :: string
  wrEvents :: "execution_event list"
  wrTicks :: nat
  wrReplans :: nat
  wrBlockedAt :: "task_id list"

text \<open>
  The answers of the supervisor, to its plan and replan and synthesis calls, may depend on
  the number of the tick; \<open>wfEnv\<close> and \<open>wfActs\<close> are the environment and the interleaving of
  each tick.
\<close>

record workflow =
  wfApplier :: applier
  wfLimits :: supervisor_limits
  wfPlan :: "execution_state \<Rightarrow> sup_error + proposal list"
  wfReplan :: "nat \<Rightarrow> execution_state \<Rightarrow> execution_event \<Rightarrow> sup_error + proposal list"
  wfSynthesize :: "execution_state \<Rightarrow> string"
  wfEnv :: "nat \<Rightarrow> tick_env"
  wfActs :: "nat \<Rightarrow> tick_action list"

definition replanTriggerKinds :: "event_kind \<Rightarrow> bool" where
  "replanTriggerKinds k \<longleftrightarrow>
     k \<in> {EventTaskFailed, EventTaskBlocked, EventAgentUnavailable, EventAuthorizationRejected, EventExecutionTimedOut}"

definition firstReplanTrigger :: "execution_event list \<Rightarrow> execution_event option" where
  "firstReplanTrigger evs =
     (case filter (\<lambda>e. replanTriggerKinds (evKind e)) evs of
        [] \<Rightarrow> None
      | cands \<Rightarrow> Some (hd (sort_key evTaskID cands)))"

definition interim_result :: "execution_event list \<Rightarrow> nat \<Rightarrow> nat \<Rightarrow> workflow_result" where
  "interim_result evs ticks replans =
     \<lparr>wrCompleted = False, wrSucceeded = False, wrSynthesis = [], wrEvents = evs, wrTicks = ticks,
      wrReplans = replans, wrBlockedAt = []\<rparr>"

text \<open>
  One pass of the loop: the tick with number \<open>k\<close>, then a replan if it reported a failure, else
  the completion check. \<open>Inr\<close> is a return, \<open>Inl\<close> the state of the next pass.
\<close>

definition loop_pass ::
  "workflow \<Rightarrow> nat \<Rightarrow> nat \<Rightarrow> execution_event list \<Rightarrow> sched_memory \<Rightarrow> core_state \<Rightarrow>
     (nat \<times> execution_event list \<times> sched_memory \<times> core_state) + (core_state \<times> workflow_result \<times> sup_error option)"
where
  "loop_pass w k replans evs m s =
     (let c = Tick (wfEnv w k) (wfActs w k) m s; s1 = tkCore c; m1 = tkMemory c;
          tick_events = tkEvents c; evs1 = evs @ tick_events in
      case firstReplanTrigger tick_events of
        Some trigger \<Rightarrow>
          (case wfReplan w k (Snapshot s1) trigger of
             Inl e \<Rightarrow> Inr (s1, interim_result evs1 (Suc k) replans, Some e)
           | Inr ps \<Rightarrow>
               if ps = [] then Inl (replans, evs1, m1, s1)
               else (case Apply (wfApplier w) ps s1 of
                  (s2, st, Some e) \<Rightarrow> Inr (s2, interim_result evs1 (Suc k) replans, Some e)
                | (s2, st, None) \<Rightarrow> Inl (Suc replans, evs1, m1, s2)))
      | None \<Rightarrow>
          (case WorkflowStatus (csGraph s1) of
             (finished, succeeded, blocked) \<Rightarrow>
               if finished
               then Inr (s1, \<lparr>wrCompleted = True, wrSucceeded = succeeded, wrSynthesis = wfSynthesize w (Snapshot s1),
                          wrEvents = evs1, wrTicks = Suc k, wrReplans = replans, wrBlockedAt = blocked\<rparr>, None)
               else Inl (replans, evs1, m1, s1)))"

text \<open>\<open>left\<close> is how many more ticks the limit allows and \<open>k\<close> how many there were.\<close>

fun run_loop ::
  "workflow \<Rightarrow> int \<Rightarrow> nat \<Rightarrow> nat \<Rightarrow> nat \<Rightarrow> execution_event list \<Rightarrow> sched_memory \<Rightarrow> core_state \<Rightarrow>
     core_state \<times> workflow_result \<times> sup_error option"
where
  "run_loop w maxTicks 0 k replans evs m s =
     (s, interim_result evs k replans, Some (WorkflowLimitExceeded ''max_workflow_ticks'' maxTicks (int k + 1)))"
| "run_loop w maxTicks (Suc left) k replans evs m s =
     (case loop_pass w k replans evs m s of
        Inr r \<Rightarrow> r
      | Inl (replans', evs', m', s') \<Rightarrow> run_loop w maxTicks left (Suc k) replans' evs' m' s')"

definition max_ticks :: "supervisor_limits \<Rightarrow> int" where
  "max_ticks L = (if MaxWorkflowTicks L \<le> 0 then MaxWorkflowTicks DefaultSupervisorLimits else MaxWorkflowTicks L)"

definition Run :: "workflow \<Rightarrow> sched_memory \<Rightarrow> core_state \<Rightarrow> core_state \<times> workflow_result \<times> sup_error option" where
  "Run w m s =
     (case wfPlan w (Snapshot s) of
        Inl e \<Rightarrow> (s, interim_result [] 0 0, Some e)
      | Inr ps \<Rightarrow>
          (case Apply (wfApplier w) ps s of
             (s1, st, Some e) \<Rightarrow> (s1, interim_result [] 0 0, Some e)
           | (s1, st, None) \<Rightarrow>
               run_loop w (max_ticks (wfLimits w)) (nat (max_ticks (wfLimits w))) 0 0 [] m s1))"

subsection \<open>Identifiers stay unique\<close>

definition ids_ok :: "core_state \<Rightarrow> bool" where
  "ids_ok s \<longleftrightarrow> distinct (map tID (csGraph s))"

lemma Apply_ids: "ids_ok s \<Longrightarrow> ids_ok (fst (Apply ap ps s))"
proof (cases rule: applyGated_cases [of "apValidator ap" "apAuthorizer ap" ps s])
  case (committed w)
  assume ok: "ids_ok s"
  obtain acc where "tracks (Snapshot s) acc w"
    using committed_tracks [OF ok [unfolded ids_ok_def] committed(1,3)] by metis
  with committed(5) show ?thesis by (simp add: Apply_def ids_ok_def tracks_def mirrors_def)
qed (simp add: Apply_def)

lemma only_status_ids:
  assumes "only_status_of i s s'"
  shows "ids_ok s' = ids_ok s"
proof -
  have "map tID ((csGraph s)[k := (csGraph s ! k)\<lparr>tStatus := x\<rparr>]) = map tID (csGraph s)"
    if "indexOf (csGraph s) i = Some k" for k x
    using indexOf_Some [OF that] by (intro map_tID_update) auto
  then show ?thesis using assms by (auto simp: only_status_of_def ids_ok_def)
qed

lemma core_only_status: "tkCore (tick_act act c) = tkCore c \<or> (\<exists>i. only_status_of i (tkCore c) (tkCore (tick_act act c)))"
proof (cases act)
  case (DispatchNext sch did)
  then show ?thesis
    by (cases rule: dispatch_next_cases [of c sch did]) (auto simp: only_status_of_def)
next
  case (Call i ex)
  then show ?thesis using only_status_transition [of i "tkCore c" StAssigned StExecuting]
    by (auto simp: MarkExecuting_def split: option.splits goroutine.splits prod.splits)
next
  case (Return i ex eid po)
  have "only_status_of i (tkCore c) s'" if "finish ex eid a i po (tkCore c) = (s', r, err)" for a s' r err
    using only_status_finish [of i "tkCore c" ex eid a po] that by simp
  then show ?thesis using Return
    by (simp split: option.split goroutine.split prod.split) blast
qed (auto split: sum.splits prod.splits)

lemma tick_act_ids: "ids_ok (tkCore c) \<Longrightarrow> ids_ok (tkCore (tick_act act c))"
  using core_only_status [of act c] only_status_ids by metis

interpretation tick_ids: state_machine tick_act "\<lambda>c. ids_ok (tkCore c)"
  by unfold_locales (rule tick_act_ids)

lemma Tick_ids: "ids_ok s \<Longrightarrow> ids_ok (tkCore (Tick env acts m s))"
proof -
  assume ok: "ids_ok s"
  obtain a where "Tick env acts m s = fold tick_act a (tick_start (schLimits (teScheduler env)) m s)"
    using Tick_run by blast
  moreover have "ids_ok (tkCore (tick_start (schLimits (teScheduler env)) m s))"
    using ok by (simp add: tick_start_def Let_def)
  ultimately show ?thesis using tick_ids.run_inv by metis
qed

subsection \<open>What the loop promises\<close>

lemma workflow_status_cases:
  assumes "distinct (map tID g)" and "WorkflowStatus g = (finished, succeeded, blocked)"
  shows "finished \<longleftrightarrow> list_all (\<lambda>t. tStatus t \<in> {StCompleted, StFailed}) g"
    and "succeeded \<longleftrightarrow> list_all (\<lambda>t. tStatus t = StCompleted) g"
    and "finished \<Longrightarrow> blocked = []"
proof -
  have rd: "computeReadiness g (tID t) = Some (readiness (statusOf g) t)" if "t \<in> set g" for t
    by (simp add: computeReadiness_byID [OF assms(1)] byID_distinct [OF assms(1) that])
  show "finished \<longleftrightarrow> list_all (\<lambda>t. tStatus t \<in> {StCompleted, StFailed}) g"
    "succeeded \<longleftrightarrow> list_all (\<lambda>t. tStatus t = StCompleted) g" "finished \<Longrightarrow> blocked = []"
    using assms(2) unfolding WorkflowStatus_def workflow_scan_fold
    by (auto simp: list_all_iff rd readiness_done readiness_blocked filter_empty_conv)
qed

definition outcome_ok :: "core_state \<times> workflow_result \<times> sup_error option \<Rightarrow> bool" where
  "outcome_ok r = (case r of (s, res, err) \<Rightarrow>
     (if err = None
      then wrCompleted res \<and> list_all (\<lambda>t. tStatus t \<in> {StCompleted, StFailed}) (csGraph s) \<and>
           (wrSucceeded res \<longleftrightarrow> list_all (\<lambda>t. tStatus t = StCompleted) (csGraph s)) \<and> wrBlockedAt res = []
      else \<not> wrCompleted res \<and> \<not> wrSucceeded res))"

lemma loop_pass_done:
  assumes "ids_ok s" and "loop_pass w k r evs m s = Inr fin"
  shows "outcome_ok fin \<and> wrTicks (fst (snd fin)) = Suc k"
proof -
  let ?c = "Tick (wfEnv w k) (wfActs w k) m s"
  have ok: "distinct (map tID (csGraph (tkCore ?c)))" using Tick_ids [OF assms(1)] by (simp add: ids_ok_def)
  show ?thesis
  proof (cases "firstReplanTrigger (tkEvents ?c)")
    case None
    obtain f u b where st: "WorkflowStatus (csGraph (tkCore ?c)) = (f, u, b)"
      by (cases "WorkflowStatus (csGraph (tkCore ?c))")
    with None assms(2) workflow_status_cases [OF ok st] show ?thesis
      by (auto simp: loop_pass_def Let_def outcome_ok_def split: if_splits)
  next
    case (Some trigger)
    with assms(2) show ?thesis
      by (auto simp: loop_pass_def Let_def outcome_ok_def interim_result_def
          split: sum.splits if_splits prod.splits option.splits)
  qed
qed

lemma loop_pass_next:
  assumes "loop_pass w k r evs m s = Inl (r', evs', m', s')"
  shows "s' = tkCore (Tick (wfEnv w k) (wfActs w k) m s) \<or>
    (\<exists>ps st. Apply (wfApplier w) ps (tkCore (Tick (wfEnv w k) (wfActs w k) m s)) = (s', st, None))"
  using assms
  by (auto simp: loop_pass_def Let_def split: sum.splits if_splits prod.splits option.splits)

lemma loop_pass_ids: "ids_ok s \<Longrightarrow> loop_pass w k r evs m s = Inl (r', evs', m', s') \<Longrightarrow> ids_ok s'"
  using loop_pass_next Tick_ids Apply_ids by (metis fst_conv)

lemma run_loop_outcome:
  "ids_ok s \<Longrightarrow> outcome_ok (run_loop w mx n k r evs m s) \<and>
     wrTicks (fst (snd (run_loop w mx n k r evs m s))) \<le> k + n"
proof (induction n arbitrary: k r evs m s)
  case 0
  show ?case by (simp add: outcome_ok_def interim_result_def)
next
  case (Suc n)
  show ?case
  proof (cases "loop_pass w k r evs m s")
    case (Inl x)
    obtain r' evs' m' s' where x: "x = (r', evs', m', s')" by (cases x)
    have "ids_ok s'" using loop_pass_ids [OF Suc.prems] Inl x by simp
    from Suc.IH [OF this, of "Suc k" r' evs' m'] Inl x show ?thesis by simp
  next
    case (Inr fin)
    with loop_pass_done [OF Suc.prems Inr] show ?thesis by simp
  qed
qed

text \<open>
  C10: a run of a workflow always returns, after at most the configured number of ticks. If
  it returns without an error every task is completed or failed, success is reported exactly
  when every task is completed, and no task is reported blocked; with an error neither
  completion nor success is reported.
\<close>

theorem workflow_run_correct:
  assumes "ids_ok s"
  shows "outcome_ok (Run w m s) \<and> int (wrTicks (fst (snd (Run w m s)))) \<le> max_ticks (wfLimits w)"
proof -
  have mx: "0 \<le> max_ticks (wfLimits w)" by (simp add: max_ticks_def DefaultSupervisorLimits_def)
  show ?thesis
  proof (cases "wfPlan w (Snapshot s)")
    case (Inl e)
    with mx show ?thesis by (simp add: Run_def outcome_ok_def interim_result_def)
  next
    case (Inr ps)
    obtain s1 st e where ap: "Apply (wfApplier w) ps s = (s1, st, e)" by (cases "Apply (wfApplier w) ps s")
    have "ids_ok s1" using Apply_ids [OF assms, of "wfApplier w" ps] ap by simp
    from run_loop_outcome [OF this, of w "max_ticks (wfLimits w)" "nat (max_ticks (wfLimits w))" 0 0 "[]" m]
    show ?thesis
      using mx Inr ap by (cases e) (auto simp: Run_def outcome_ok_def interim_result_def)
  qed
qed

definition sample_workflow :: workflow where
  "sample_workflow =
     \<lparr>wfApplier = sample_applier, wfLimits = DefaultSupervisorLimits, wfPlan = (\<lambda>_. Inr sample_batch),
      wfReplan = (\<lambda>_ _ _. Inr []), wfSynthesize = (\<lambda>_. []),
      wfEnv = (\<lambda>_. \<lparr>teScheduler = sample_scheduler, teDecisionID = (\<lambda>i. i), teExecutionID = (\<lambda>i. i),
         teProvider = (\<lambda>_ _. \<lparr>poResult = empty_result, poErr = None, poDeadline = False\<rparr>)\<rparr>),
      wfActs = (\<lambda>_. [])\<rparr>"

theorem workflow_run_correct_witness: "outcome_ok (Run sample_workflow empty_memory sample_core)"
proof -
  have "ids_ok sample_core" by (simp add: ids_ok_def sample_core_def NewCoreState_def)
  from workflow_run_correct [OF this] show ?thesis by blast
qed

subsection \<open>A plan that assigns its own task\<close>

lemma Apply_assigned: "status_of s i = Some StAssigned \<Longrightarrow> status_of (fst (Apply ap ps s)) i = Some StAssigned"
proof (cases rule: applyGated_cases [of "apValidator ap" "apAuthorizer ap" ps s])
  case (committed w)
  assume "status_of s i = Some StAssigned"
  then have "keeps_assigned i (wGraph (work_init s))" by (simp add: keeps_assigned_def status_of_def)
  then have "keeps_assigned i (wGraph w)"
    by (rule fold_res_inv [OF committed(3), of "\<lambda>w. keeps_assigned i (wGraph w)"]) (rule keeps_assigned_apply)
  with committed(5) show ?thesis by (simp add: Apply_def status_of_def keeps_assigned_def)
qed (simp add: Apply_def)

lemma Tick_assigned:
  assumes "ids_ok s" and "status_of s i = Some StAssigned"
  shows "status_of (tkCore (Tick env acts m s)) i = Some StAssigned"
proof -
  obtain t where t: "byID (csGraph s) i = Some t" "tStatus t = StAssigned"
    using assms(2) by (auto simp: status_of_def)
  have "\<not> ready_at s i"
    using t assms(1) by (auto simp: ready_at_def ids_ok_def computeReadiness_byID readiness_ready)
  moreover obtain a where "Tick env acts m s = fold tick_act a (tick_start (schLimits (teScheduler env)) m s)"
    using Tick_run by blast
  moreover have "tick_inv s (fold tick_act a (tick_start (schLimits (teScheduler env)) m s))" for a
    by (rule tick_ready.run_inv) (rule tick_start_inv)
  ultimately have "byID (csGraph (tkCore (Tick env acts m s))) i = byID (csGraph s) i"
    by (metis tick_inv_def)
  with assms(2) show ?thesis by (simp add: status_of_def)
qed

lemma run_loop_assigned:
  "ids_ok s \<Longrightarrow> status_of s i = Some StAssigned \<Longrightarrow> snd (snd (run_loop w mx n k r evs m s)) \<noteq> None"
proof (induction n arbitrary: k r evs m s)
  case (Suc n)
  let ?s1 = "tkCore (Tick (wfEnv w k) (wfActs w k) m s)"
  have a1: "status_of ?s1 i = Some StAssigned" by (rule Tick_assigned [OF Suc.prems])
  show ?case
  proof (cases "loop_pass w k r evs m s")
    case (Inl x)
    obtain r' evs' m' s' where x: "x = (r', evs', m', s')" by (cases x)
    have "ids_ok s'" using loop_pass_ids [OF Suc.prems(1)] Inl x by simp
    moreover have "status_of s' i = Some StAssigned"
      using loop_pass_next [OF Inl [unfolded x]] a1 Apply_assigned by (metis fst_conv)
    ultimately show ?thesis using Suc.IH Inl x by simp
  next
    case (Inr fin)
    have "snd (snd fin) \<noteq> None"
    proof
      assume none: "snd (snd fin) = None"
      have "outcome_ok fin" using loop_pass_done [OF Suc.prems(1) Inr] by blast
      then have all: "list_all (\<lambda>t. tStatus t \<in> {StCompleted, StFailed}) (csGraph (fst fin))"
        using none by (auto simp: outcome_ok_def split: prod.splits)
      have "fst fin = ?s1"
        using Inr none by (auto simp: loop_pass_def Let_def split: option.splits sum.splits if_splits prod.splits)
      with all a1 show False
        by (auto simp: status_of_def list_all_iff dest!: byID_Some)
    qed
    with Inr show ?thesis by simp
  qed
qed simp

text \<open>
  A task that the supervisor's own plan assigns is never run by the scheduler, so a
  workflow with such a plan never completes: the run always ends with an error, whatever the
  agents, the replans and the interleavings of its ticks are.
\<close>

theorem plan_with_assignment_never_completes:
  assumes "ids_ok s" and "wfPlan w (Snapshot s) = Inr ps"
    and "status_of (fst (Apply (wfApplier w) ps s)) i = Some StAssigned"
  shows "snd (snd (Run w m s)) \<noteq> None"
proof -
  obtain s1 st e where ap: "Apply (wfApplier w) ps s = (s1, st, e)" by (cases "Apply (wfApplier w) ps s")
  have "ids_ok s1" using Apply_ids [OF assms(1), of "wfApplier w" ps] ap by simp
  with run_loop_assigned assms(2,3) ap show ?thesis by (cases e) (simp_all add: Run_def)
qed

lemma sample_batch_assigns: "status_of (fst (Apply sample_applier sample_batch sample_core)) ''b'' = Some StAssigned"
proof -
  have v: "sample_validator\<lparr>vRange := id\<rparr> = sample_validator" by (simp add: sample_validator_def NewValidator_def)
  have "Snapshot sample_core = sample_state"
    by (simp add: sample_core_def sample_state_def NewCoreState_def Snapshot_def)
  then show ?thesis using sample_batch_accepted
    by (simp add: Apply_def applyGated_def sample_applier_def v authorize_all_def AllowAllAuthorizer_def
        sample_batch_def append_task_def sample_core_def NewCoreState_def sample_task_def persist_err_def
        with_default_status_def work_init_def commit_work_def status_of_def Let_def)
qed

theorem plan_with_assignment_never_completes_witness:
  "snd (snd (Run sample_workflow empty_memory sample_core)) \<noteq> None"
proof -
  have "ids_ok sample_core" by (simp add: ids_ok_def sample_core_def NewCoreState_def)
  moreover have "wfPlan sample_workflow (Snapshot sample_core) = Inr sample_batch"
    and "wfApplier sample_workflow = sample_applier" by (simp_all add: sample_workflow_def)
  ultimately show ?thesis using plan_with_assignment_never_completes sample_batch_assigns by metis
qed

end
