(* ===== verification/SupWire.thy ===== *)
theory SupWire
  imports Workflow
begin

text \<open>
  The decode boundary between model output and trusted proposals
  (\<open>internal/supervisor/wire.go\<close>). A response is given by its size and by what the JSON lexer
  of the standard library finds in it: the complete top-level values in order and, if the
  text is malformed, the tokens read from the incomplete value before the syntax error.
\<close>

subsection \<open>JSON values and their token stream\<close>

datatype json =
    JNull
  | JBool bool
  | JNum rat
  | JStr string
  | JArr "json list"
  | JObj "(string \<times> json) list"

datatype jtoken = TOpenObject | TOpenArray | TClose | TString string | TScalar

fun tokens_of :: "json \<Rightarrow> jtoken list" where
  "tokens_of JNull = [TScalar]"
| "tokens_of (JBool b) = [TScalar]"
| "tokens_of (JNum r) = [TScalar]"
| "tokens_of (JStr s) = [TString s]"
| "tokens_of (JArr xs) = TOpenArray # concat (map tokens_of xs) @ [TClose]"
| "tokens_of (JObj kvs) = TOpenObject # concat (map (\<lambda>(k, v). TString k # tokens_of v) kvs) @ [TClose]"

record raw_response =
  rawSize :: nat
  rawValues :: "json list"
  rawTail :: "(jtoken list \<times> msg) option"

definition raw_tokens :: "raw_response \<Rightarrow> jtoken list" where
  "raw_tokens raw = concat (map tokens_of (rawValues raw)) @
     (case rawTail raw of None \<Rightarrow> [] | Some (ts, m) \<Rightarrow> ts)"

subsection \<open>Duplicate keys\<close>

record frame =
  frObject :: bool
  frAwaiting :: bool
  frKeys :: "string list"

text \<open>The value that follows a key is consumed: the next string is a key again.\<close>

fun value_consumed :: "frame list \<Rightarrow> frame list" where
  "value_consumed [] = []"
| "value_consumed (f # fs) = (if frObject f then f\<lparr>frAwaiting := True\<rparr> # fs else f # fs)"

definition open_frame :: "nat \<Rightarrow> bool \<Rightarrow> frame list \<Rightarrow> msg + frame list" where
  "open_frame maxDepth obj stack =
     (if length stack + 1 > maxDepth then Inl (Msg ''json nesting exceeds max depth %d'' [AI (int maxDepth)])
      else Inr (\<lparr>frObject = obj, frAwaiting = obj, frKeys = []\<rparr> # value_consumed stack))"

fun detect_step :: "nat \<Rightarrow> jtoken \<Rightarrow> frame list \<Rightarrow> msg + frame list" where
  "detect_step maxDepth TOpenObject stack = open_frame maxDepth True stack"
| "detect_step maxDepth TOpenArray stack = open_frame maxDepth False stack"
| "detect_step maxDepth TClose stack =
     (case stack of [] \<Rightarrow> Inl (plain ''unbalanced JSON'') | f # fs \<Rightarrow> Inr fs)"
| "detect_step maxDepth (TString s) stack =
     (case stack of
        [] \<Rightarrow> Inr []
      | f # fs \<Rightarrow>
          if frObject f \<and> frAwaiting f
          then if s \<in> set (frKeys f) then Inl (Msg ''duplicate key %q'' [AS s])
               else Inr (f\<lparr>frKeys := s # frKeys f, frAwaiting := False\<rparr> # fs)
          else Inr (value_consumed stack))"
| "detect_step maxDepth TScalar stack =
     (case stack of
        [] \<Rightarrow> Inr []
      | f # fs \<Rightarrow>
          if frObject f \<and> frAwaiting f then Inl (plain ''expected string key, got %T'')
          else Inr (value_consumed stack))"

definition DetectDuplicateKeys :: "raw_response \<Rightarrow> nat \<Rightarrow> msg option" where
  "DetectDuplicateKeys raw maxDepth =
     (case fold_res (detect_step maxDepth) (raw_tokens raw) [] of
        Inl m \<Rightarrow> Some m
      | Inr stack \<Rightarrow> map_option snd (rawTail raw))"

subsection \<open>The wire types\<close>

record wire_task =
  wtID :: string
  wtType :: string
  wtCaps :: "string list"
  wtDeps :: "string list"
  wtRisk :: string
  wtTenant :: string
  wtCost :: rat

record wire_proposal =
  wpType :: string
  wpTaskID :: string
  wpAgentID :: string
  wpReviewerID :: string
  wpFromID :: string
  wpCaps :: "string list"
  wpTask :: "wire_task option"
  wpNewTasks :: "wire_task list"
  wpUpdatedTasks :: "wire_task list"
  wpTaskIDs :: "string list"
  wpReason :: string
  wpRationale :: string

record wire_synthesis =
  wsTaskIDs :: "string list"
  wsSummary :: string
  wsRationale :: string

record wire_limits =
  MaxResponseBytes :: nat
  MaxProposalsPerBatch :: nat
  MaxTasksPerBatch :: nat
  MaxCapabilitiesPerTask :: nat
  MaxDependenciesPerTask :: nat
  MaxTaskIDsPerSynthesis :: nat
  wlMaxRationaleLength :: nat
  MaxSummaryLength :: nat
  MaxJSONDepth :: nat

definition defaultWireLimits :: wire_limits where
  "defaultWireLimits =
     \<lparr>MaxResponseBytes = 256 * 1024, MaxProposalsPerBatch = 32, MaxTasksPerBatch = 32,
      MaxCapabilitiesPerTask = 16, MaxDependenciesPerTask = 16, MaxTaskIDsPerSynthesis = 64,
      wlMaxRationaleLength = nat MaxRationaleLength, MaxSummaryLength = 2000, MaxJSONDepth = 32\<rparr>"

text \<open>\<open>^[A-Za-z0-9_.:-]{1,128}$\<close>\<close>

definition id_char :: "char \<Rightarrow> bool" where
  "id_char c \<longleftrightarrow> (CHR ''A'' \<le> c \<and> c \<le> CHR ''Z'') \<or> (CHR ''a'' \<le> c \<and> c \<le> CHR ''z'') \<or>
                 (CHR ''0'' \<le> c \<and> c \<le> CHR ''9'') \<or> c \<in> set ''_.:-''"

definition ValidID :: "string \<Rightarrow> bool" where
  "ValidID s \<longleftrightarrow> 1 \<le> length s \<and> length s \<le> 128 \<and> list_all id_char s"

subsection \<open>Unmarshalling into the wire types\<close>

text \<open>
  \<open>encoding/json\<close> matches an object key to a field exactly or, failing that, ignoring case
  (modelled for ASCII); unknown keys are an error under \<open>DisallowUnknownFields\<close>; \<open>null\<close> leaves a
  field as it is; keys are processed in order, each writing into what is already there; an
  array is read into a fresh slice, as the package documents.
\<close>

definition lower :: "char \<Rightarrow> char" where
  "lower c = (if CHR ''A'' \<le> c \<and> c \<le> CHR ''Z'' then char_of (of_char c + (32 :: nat)) else c)"

definition find_field :: "string list \<Rightarrow> string \<Rightarrow> string option" where
  "find_field names k =
     (if k \<in> set names then Some k else List.find (\<lambda>n. map lower n = map lower k) names)"

definition unknown_field :: "string \<Rightarrow> msg" where
  "unknown_field k = Msg ''json: unknown field %q'' [AS k]"

definition bad_type :: msg where
  "bad_type = plain ''json: cannot unmarshal value into field''"

fun to_string :: "json \<Rightarrow> string \<Rightarrow> msg + string" where
  "to_string (JStr s) old = Inr s"
| "to_string JNull old = Inr old"
| "to_string _ old = Inl bad_type"

fun to_number :: "json \<Rightarrow> rat \<Rightarrow> msg + rat" where
  "to_number (JNum r) old = Inr r"
| "to_number JNull old = Inr old"
| "to_number _ old = Inl bad_type"

fun to_list :: "(json \<Rightarrow> msg + 'a) \<Rightarrow> json list \<Rightarrow> msg + 'a list" where
  "to_list f [] = Inr []"
| "to_list f (x # xs) = bind_res (f x) (\<lambda>y. bind_res (to_list f xs) (\<lambda>ys. Inr (y # ys)))"

fun to_array :: "(json \<Rightarrow> msg + 'a) \<Rightarrow> json \<Rightarrow> 'a list \<Rightarrow> msg + 'a list" where
  "to_array f (JArr xs) old = to_list f xs"
| "to_array f JNull old = Inr []"
| "to_array f _ old = Inl bad_type"

fun to_struct :: "(string \<times> json \<Rightarrow> 'a \<Rightarrow> msg + 'a) \<Rightarrow> json \<Rightarrow> 'a \<Rightarrow> msg + 'a" where
  "to_struct f (JObj kvs) old = fold_res f kvs old"
| "to_struct f JNull old = Inr old"
| "to_struct f _ old = Inl bad_type"

definition strings :: "json \<Rightarrow> string list \<Rightarrow> msg + string list" where
  "strings = to_array (\<lambda>j. to_string j [])"

definition zero_wire_task :: wire_task where
  "zero_wire_task = \<lparr>wtID = [], wtType = [], wtCaps = [], wtDeps = [], wtRisk = [], wtTenant = [], wtCost = 0\<rparr>"

definition wire_task_field :: "string \<times> json \<Rightarrow> wire_task \<Rightarrow> msg + wire_task" where
  "wire_task_field kv w = (case kv of (k, v) \<Rightarrow>
     (case find_field [''id'', ''type'', ''required_capabilities'', ''dependencies'', ''risk'', ''tenant'',
                       ''estimated_cost''] k of
        None \<Rightarrow> Inl (unknown_field k)
      | Some n \<Rightarrow>
          if n = ''id'' then bind_res (to_string v (wtID w)) (\<lambda>s. Inr (w\<lparr>wtID := s\<rparr>))
          else if n = ''type'' then bind_res (to_string v (wtType w)) (\<lambda>s. Inr (w\<lparr>wtType := s\<rparr>))
          else if n = ''required_capabilities'' then bind_res (strings v (wtCaps w)) (\<lambda>s. Inr (w\<lparr>wtCaps := s\<rparr>))
          else if n = ''dependencies'' then bind_res (strings v (wtDeps w)) (\<lambda>s. Inr (w\<lparr>wtDeps := s\<rparr>))
          else if n = ''risk'' then bind_res (to_string v (wtRisk w)) (\<lambda>s. Inr (w\<lparr>wtRisk := s\<rparr>))
          else if n = ''tenant'' then bind_res (to_string v (wtTenant w)) (\<lambda>s. Inr (w\<lparr>wtTenant := s\<rparr>))
          else bind_res (to_number v (wtCost w)) (\<lambda>r. Inr (w\<lparr>wtCost := r\<rparr>))))"

definition to_wire_task :: "json \<Rightarrow> msg + wire_task" where
  "to_wire_task j = to_struct wire_task_field j zero_wire_task"

text \<open>A pointer field: \<open>null\<close> resets it, an object is read into what it points to.\<close>

definition to_task_pointer :: "json \<Rightarrow> wire_task option \<Rightarrow> msg + wire_task option" where
  "to_task_pointer j old =
     (if j = JNull then Inr None
      else bind_res (to_struct wire_task_field j (case old of None \<Rightarrow> zero_wire_task | Some w \<Rightarrow> w))
             (\<lambda>w. Inr (Some w)))"

definition zero_wire_proposal :: wire_proposal where
  "zero_wire_proposal =
     \<lparr>wpType = [], wpTaskID = [], wpAgentID = [], wpReviewerID = [], wpFromID = [], wpCaps = [], wpTask = None,
      wpNewTasks = [], wpUpdatedTasks = [], wpTaskIDs = [], wpReason = [], wpRationale = []\<rparr>"

definition wire_proposal_field :: "string \<times> json \<Rightarrow> wire_proposal \<Rightarrow> msg + wire_proposal" where
  "wire_proposal_field kv w = (case kv of (k, v) \<Rightarrow>
     (case find_field [''type'', ''task_id'', ''agent_id'', ''reviewer_agent_id'', ''from_agent_id'',
                       ''required_capabilities'', ''task'', ''new_tasks'', ''updated_tasks'', ''task_ids'',
                       ''reason'', ''rationale_summary''] k of
        None \<Rightarrow> Inl (unknown_field k)
      | Some n \<Rightarrow>
          if n = ''type'' then bind_res (to_string v (wpType w)) (\<lambda>s. Inr (w\<lparr>wpType := s\<rparr>))
          else if n = ''task_id'' then bind_res (to_string v (wpTaskID w)) (\<lambda>s. Inr (w\<lparr>wpTaskID := s\<rparr>))
          else if n = ''agent_id'' then bind_res (to_string v (wpAgentID w)) (\<lambda>s. Inr (w\<lparr>wpAgentID := s\<rparr>))
          else if n = ''reviewer_agent_id'' then bind_res (to_string v (wpReviewerID w)) (\<lambda>s. Inr (w\<lparr>wpReviewerID := s\<rparr>))
          else if n = ''from_agent_id'' then bind_res (to_string v (wpFromID w)) (\<lambda>s. Inr (w\<lparr>wpFromID := s\<rparr>))
          else if n = ''required_capabilities'' then bind_res (strings v (wpCaps w)) (\<lambda>s. Inr (w\<lparr>wpCaps := s\<rparr>))
          else if n = ''task'' then bind_res (to_task_pointer v (wpTask w)) (\<lambda>t. Inr (w\<lparr>wpTask := t\<rparr>))
          else if n = ''new_tasks'' then bind_res (to_array to_wire_task v (wpNewTasks w)) (\<lambda>ts. Inr (w\<lparr>wpNewTasks := ts\<rparr>))
          else if n = ''updated_tasks'' then bind_res (to_array to_wire_task v (wpUpdatedTasks w)) (\<lambda>ts. Inr (w\<lparr>wpUpdatedTasks := ts\<rparr>))
          else if n = ''task_ids'' then bind_res (strings v (wpTaskIDs w)) (\<lambda>s. Inr (w\<lparr>wpTaskIDs := s\<rparr>))
          else if n = ''reason'' then bind_res (to_string v (wpReason w)) (\<lambda>s. Inr (w\<lparr>wpReason := s\<rparr>))
          else bind_res (to_string v (wpRationale w)) (\<lambda>s. Inr (w\<lparr>wpRationale := s\<rparr>))))"

definition to_wire_proposal :: "json \<Rightarrow> msg + wire_proposal" where
  "to_wire_proposal j = to_struct wire_proposal_field j zero_wire_proposal"

definition to_plan_response :: "json \<Rightarrow> msg + wire_proposal list" where
  "to_plan_response j =
     to_struct (\<lambda>(k, v) ps.
       if find_field [''proposals''] k = None then Inl (unknown_field k) else to_array to_wire_proposal v ps) j []"

definition to_synthesis_response :: "json \<Rightarrow> msg + wire_synthesis" where
  "to_synthesis_response j =
     to_struct (\<lambda>(k, v) w.
       (case find_field [''task_ids'', ''summary'', ''rationale_summary''] k of
          None \<Rightarrow> Inl (unknown_field k)
        | Some n \<Rightarrow>
            if n = ''task_ids'' then bind_res (strings v (wsTaskIDs w)) (\<lambda>s. Inr (w\<lparr>wsTaskIDs := s\<rparr>))
            else if n = ''summary'' then bind_res (to_string v (wsSummary w)) (\<lambda>s. Inr (w\<lparr>wsSummary := s\<rparr>))
            else bind_res (to_string v (wsRationale w)) (\<lambda>s. Inr (w\<lparr>wsRationale := s\<rparr>)))) j
       \<lparr>wsTaskIDs = [], wsSummary = [], wsRationale = []\<rparr>"

definition decodeStrict :: "string \<Rightarrow> raw_response \<Rightarrow> wire_limits \<Rightarrow> (json \<Rightarrow> msg + 'a) \<Rightarrow> sup_error + 'a" where
  "decodeStrict stage raw L read =
     guard_res (require (rawSize raw \<le> MaxResponseBytes L)
       (SupervisorResponseTooLarge (int (rawSize raw)) (int (MaxResponseBytes L))))
    (guard_res (map_option (StructuredOutputDecodeFailure stage) (DetectDuplicateKeys raw (MaxJSONDepth L)))
       (case rawValues raw of
          [] \<Rightarrow> Inl (StructuredOutputDecodeFailure stage (Msg ''json decode: %v'' [AM (plain ''EOF'')]))
        | v # rest \<Rightarrow>
            (case read v of
               Inl m \<Rightarrow> Inl (StructuredOutputDecodeFailure stage (Msg ''json decode: %v'' [AM m]))
             | Inr x \<Rightarrow>
                 guard_res (require (rest = [])
                   (StructuredOutputDecodeFailure stage (plain ''trailing data after JSON value''))) (Inr x))))"

subsection \<open>Conversion to trusted values\<close>

definition schema_fail :: "string \<Rightarrow> int \<Rightarrow> string \<Rightarrow> msg_arg list \<Rightarrow> sup_error" where
  "schema_fail stage i fmt args =
     StructuredOutputSchemaFailure stage (Msg (''proposal %d: '' @ fmt) (AI i # args))"

definition toDomainTask :: "string \<Rightarrow> int \<Rightarrow> wire_task \<Rightarrow> wire_limits \<Rightarrow> sup_error + task" where
  "toDomainTask stage i w L =
     guard_res (require (ValidID (wtID w)) (schema_fail stage i ''malformed task id %q'' [AS (wtID w)]))
    (guard_res (require (length (wtCaps w) \<le> MaxCapabilitiesPerTask L)
       (schema_fail stage i ''too many required_capabilities'' []))
    (guard_res (require (length (wtDeps w) \<le> MaxDependenciesPerTask L)
       (schema_fail stage i ''too many dependencies'' []))
    (guard_res (first_err (\<lambda>d. require (ValidID d) (schema_fail stage i ''malformed dependency id %q'' [AS d])) (wtDeps w))
      (Inr \<lparr>tID = wtID w, tType = wtType w, tCaps = wtCaps w, tDeps = wtDeps w, tRisk = wtRisk w,
            tTenant = wtTenant w, tStatus = StEmpty, tCost = wtCost w, tLocked = False\<rparr>))))"

fun toDomainTasks :: "string \<Rightarrow> int \<Rightarrow> wire_task list \<Rightarrow> wire_limits \<Rightarrow> sup_error + task list" where
  "toDomainTasks stage i [] L = Inr []"
| "toDomainTasks stage i (w # ws) L =
     bind_res (toDomainTask stage i w L) (\<lambda>t. bind_res (toDomainTasks stage i ws L) (\<lambda>ts. Inr (t # ts)))"

definition toDomainProposal :: "string \<Rightarrow> int \<Rightarrow> wire_proposal \<Rightarrow> wire_limits \<Rightarrow> sup_error + proposal" where
  "toDomainProposal stage i w L =
     (let r = wpRationale w; fail = schema_fail stage i in
      guard_res (require (length r \<le> wlMaxRationaleLength L) (fail ''rationale_summary too long'' []))
     (if wpType w = ''create_task'' then
        (case wpTask w of
           None \<Rightarrow> Inl (fail ''create_task requires task'' [])
         | Some wt \<Rightarrow> bind_res (toDomainTask stage i wt L) (\<lambda>t. Inr (CreateTask t r)))
      else if wpType w = ''assign_task'' then
        guard_res (require (ValidID (wpTaskID w) \<and> ValidID (wpAgentID w))
          (fail ''assign_task requires valid task_id and agent_id'' []))
       (guard_res (require (length (wpCaps w) \<le> MaxCapabilitiesPerTask L) (fail ''too many required_capabilities'' []))
         (Inr (AssignTask (wpTaskID w) (wpAgentID w) (wpCaps w) r)))
      else if wpType w = ''request_review'' then
        guard_res (require (ValidID (wpTaskID w) \<and> ValidID (wpReviewerID w))
          (fail ''request_review requires valid task_id and reviewer_agent_id'' []))
         (Inr (RequestReview (wpTaskID w) (wpReviewerID w) r))
      else if wpType w = ''request_evidence'' then
        guard_res (require (ValidID (wpTaskID w) \<and> ValidID (wpFromID w))
          (fail ''request_evidence requires valid task_id and from_agent_id'' []))
         (Inr (RequestEvidence (wpTaskID w) (wpFromID w) r))
      else if wpType w = ''retry_task'' then
        guard_res (require (ValidID (wpTaskID w)) (fail ''retry_task requires valid task_id'' []))
         (Inr (RetryTask (wpTaskID w) r))
      else if wpType w = ''replan'' then
        guard_res (require (length (wpNewTasks w) \<le> MaxTasksPerBatch L \<and> length (wpUpdatedTasks w) \<le> MaxTasksPerBatch L)
          (fail ''too many new/updated tasks'' []))
       (bind_res (toDomainTasks stage i (wpNewTasks w) L) (\<lambda>new.
        bind_res (toDomainTasks stage i (wpUpdatedTasks w) L) (\<lambda>upd. Inr (Replan new upd r))))
      else if wpType w = ''synthesize'' then
        guard_res (require (length (wpTaskIDs w) \<le> MaxTaskIDsPerSynthesis L) (fail ''too many task_ids'' []))
       (guard_res (first_err (\<lambda>d. require (ValidID d) (fail ''malformed task id %q'' [AS d])) (wpTaskIDs w))
         (Inr (Synthesize (wpTaskIDs w) [] r)))
      else if wpType w = ''escalate'' then
        guard_res (require (ValidID (wpTaskID w)) (fail ''escalate requires valid task_id'' []))
         (Inr (Escalate (wpTaskID w) (wpReason w) r))
      else Inl (fail ''unknown proposal type %q'' [AS (wpType w)])))"

fun toDomainProposals :: "string \<Rightarrow> nat \<Rightarrow> wire_proposal list \<Rightarrow> wire_limits \<Rightarrow> sup_error + proposal list" where
  "toDomainProposals stage i [] L = Inr []"
| "toDomainProposals stage i (w # ws) L =
     bind_res (toDomainProposal stage (int i) w L) (\<lambda>p.
       bind_res (toDomainProposals stage (Suc i) ws L) (\<lambda>ps. Inr (p # ps)))"

definition decodePlanResponse :: "string \<Rightarrow> raw_response \<Rightarrow> wire_limits \<Rightarrow> sup_error + proposal list" where
  "decodePlanResponse stage raw L =
     bind_res (decodeStrict stage raw L to_plan_response) (\<lambda>ws.
       guard_res (require (length ws \<le> MaxProposalsPerBatch L)
         (StructuredOutputSchemaFailure stage (Msg ''proposal count %d exceeds limit %d''
            [AI (int (length ws)), AI (int (MaxProposalsPerBatch L))])))
       (toDomainProposals stage 0 ws L))"

text \<open>The task identifiers, the summary and the rationale of a synthesis.\<close>

definition decodeSynthesisResponse ::
  "string \<Rightarrow> raw_response \<Rightarrow> wire_limits \<Rightarrow> sup_error + task_id list \<times> string \<times> rationale"
where
  "decodeSynthesisResponse stage raw L =
     bind_res (decodeStrict stage raw L to_synthesis_response) (\<lambda>w.
       let over = (\<lambda>fmt n l. StructuredOutputSchemaFailure stage (Msg fmt [AI (int n), AI (int l)])) in
       guard_res (require (length (wsTaskIDs w) \<le> MaxTaskIDsPerSynthesis L)
         (over ''task_ids count %d exceeds limit %d'' (length (wsTaskIDs w)) (MaxTaskIDsPerSynthesis L)))
      (guard_res (require (length (wsSummary w) \<le> MaxSummaryLength L)
         (over ''summary length %d exceeds limit %d'' (length (wsSummary w)) (MaxSummaryLength L)))
      (guard_res (require (length (wsRationale w) \<le> wlMaxRationaleLength L)
         (over ''rationale_summary length %d exceeds limit %d'' (length (wsRationale w)) (wlMaxRationaleLength L)))
      (guard_res (first_err (\<lambda>d. require (ValidID d)
          (StructuredOutputSchemaFailure stage (Msg ''malformed task id %q'' [AS d]))) (wsTaskIDs w))
        (Inr (wsTaskIDs w, wsSummary w, wsRationale w))))))"

subsection \<open>The duplicate-key search\<close>

text \<open>What the search is for: no object repeats a key and nothing nests too deeply.\<close>

fun clean_json :: "nat \<Rightarrow> nat \<Rightarrow> json \<Rightarrow> bool" where
  "clean_json mx d (JArr xs) \<longleftrightarrow> d < mx \<and> list_all (clean_json mx (Suc d)) xs"
| "clean_json mx d (JObj kvs) \<longleftrightarrow>
     d < mx \<and> distinct (map fst kvs) \<and> list_all (\<lambda>kv. clean_json mx (Suc d) (snd kv)) kvs"
| "clean_json mx d _ \<longleftrightarrow> True"

definition at_value :: "frame list \<Rightarrow> bool" where
  "at_value st = (case st of [] \<Rightarrow> True | f # fs \<Rightarrow> \<not> (frObject f \<and> frAwaiting f))"

lemma length_value_consumed [simp]: "length (value_consumed st) = length st"
  by (cases st) auto

lemma value_consumed_idem [simp]: "value_consumed (value_consumed st) = value_consumed st"
  by (cases st) auto

lemma value_consumed_array [simp]: "\<not> frObject f \<Longrightarrow> value_consumed (f # fs) = f # fs"
  by simp

text \<open>Running the search over one value at a value position.\<close>

definition runs_to :: "nat \<Rightarrow> jtoken list \<Rightarrow> frame list \<Rightarrow> bool \<Rightarrow> frame list \<Rightarrow> bool" where
  "runs_to mx ts st good st' \<longleftrightarrow>
     (if good then fold_res (detect_step mx) ts st = Inr st' else (\<exists>m. fold_res (detect_step mx) ts st = Inl m))"

lemma runs_to_append:
  "runs_to mx xs st a st1 \<Longrightarrow> (a \<Longrightarrow> runs_to mx ys st1 b st2) \<Longrightarrow> runs_to mx (xs @ ys) st (a \<and> b) st2"
  by (auto simp: runs_to_def fold_res_append split: if_splits)

lemma runs_to_array:
  assumes "\<And>x st. x \<in> set xs \<Longrightarrow> at_value st \<Longrightarrow> runs_to mx (tokens_of x) st (clean_json mx (length st) x) (value_consumed st)"
    and "\<not> frObject f"
  shows "runs_to mx (concat (map tokens_of xs)) (f # fs) (list_all (clean_json mx (Suc (length fs))) xs) (f # fs)"
  using assms(1)
proof (induction xs)
  case Nil
  show ?case by (simp add: runs_to_def)
next
  case (Cons x xs)
  have "runs_to mx (tokens_of x) (f # fs) (clean_json mx (Suc (length fs)) x) (f # fs)"
    using Cons.prems [of x "f # fs"] assms(2) by (simp add: at_value_def)
  from runs_to_append [OF this Cons.IH] Cons.prems show ?case by simp
qed

lemma runs_to_object:
  assumes "\<And>k x st. (k, x) \<in> set kvs \<Longrightarrow> at_value st \<Longrightarrow>
      runs_to mx (tokens_of x) st (clean_json mx (length st) x) (value_consumed st)"
    and "frObject f" and "frAwaiting f"
  shows "\<exists>ks. runs_to mx (concat (map (\<lambda>(k, v). TString k # tokens_of v) kvs)) (f # fs)
     (distinct (map fst kvs) \<and> set (map fst kvs) \<inter> set (frKeys f) = {} \<and>
        list_all (\<lambda>kv. clean_json mx (Suc (length fs)) (snd kv)) kvs)
     (f\<lparr>frKeys := ks\<rparr> # fs)"
  using assms
proof (induction kvs arbitrary: f)
  case Nil
  show ?case by (rule exI [of _ "frKeys f"]) (simp add: runs_to_def)
next
  case (Cons kv kvs)
  obtain k x where kv: "kv = (k, x)" by (cases kv)
  let ?g = "f\<lparr>frKeys := k # frKeys f, frAwaiting := False\<rparr>"
  let ?h = "f\<lparr>frKeys := k # frKeys f\<rparr>"
  have gh: "f\<lparr>frKeys := k # frKeys f, frAwaiting := True\<rparr> = ?h" using Cons.prems(3) by (cases f) simp
  have key: "runs_to mx [TString k] (f # fs) (k \<notin> set (frKeys f)) (?g # fs)"
    using Cons.prems(2,3) by (simp add: runs_to_def)
  have "runs_to mx (tokens_of x) (?g # fs) (clean_json mx (Suc (length fs)) x) (?h # fs)"
    using Cons.prems(1) [of k x "?g # fs"] Cons.prems(2) gh by (simp add: at_value_def kv)
  from runs_to_append [OF key this] have one:
    "runs_to mx (TString k # tokens_of x) (f # fs) (k \<notin> set (frKeys f) \<and> clean_json mx (Suc (length fs)) x) (?h # fs)"
    by simp
  obtain ks where rest: "runs_to mx (concat (map (\<lambda>(k, v). TString k # tokens_of v) kvs)) (?h # fs)
     (distinct (map fst kvs) \<and> set (map fst kvs) \<inter> set (frKeys ?h) = {} \<and>
        list_all (\<lambda>kv. clean_json mx (Suc (length fs)) (snd kv)) kvs) (?h\<lparr>frKeys := ks\<rparr> # fs)"
    using Cons.IH [of ?h] Cons.prems by force
  have eq: "(k \<notin> set (frKeys f) \<and> clean_json mx (Suc (length fs)) x) \<and>
      (distinct (map fst kvs) \<and> set (map fst kvs) \<inter> set (frKeys ?h) = {} \<and>
        list_all (\<lambda>kv. clean_json mx (Suc (length fs)) (snd kv)) kvs) \<longleftrightarrow>
      distinct (map fst (kv # kvs)) \<and> set (map fst (kv # kvs)) \<inter> set (frKeys f) = {} \<and>
        list_all (\<lambda>kv. clean_json mx (Suc (length fs)) (snd kv)) (kv # kvs)"
    using kv by auto
  show ?case
    using runs_to_append [OF one rest] unfolding eq by (intro exI [of _ ks]) (simp add: kv)
qed

lemma runs_to_value:
  "at_value st \<Longrightarrow> runs_to mx (tokens_of j) st (clean_json mx (length st) j) (value_consumed st)"
proof (induction j arbitrary: st)
  case (JArr xs)
  let ?f = "\<lparr>frObject = False, frAwaiting = False, frKeys = []\<rparr>"
  have o: "runs_to mx [TOpenArray] st (length st < mx) (?f # value_consumed st)"
    by (simp add: runs_to_def open_frame_def)
  have b: "runs_to mx (concat (map tokens_of xs)) (?f # value_consumed st)
      (list_all (clean_json mx (Suc (length st))) xs) (?f # value_consumed st)"
    using runs_to_array [of xs mx ?f "value_consumed st"] JArr.IH by simp
  have c: "runs_to mx [TClose] (?f # value_consumed st) True (value_consumed st)" by (simp add: runs_to_def)
  from runs_to_append [OF o runs_to_append [OF b c]] show ?case by simp
next
  case (JObj kvs)
  let ?f = "\<lparr>frObject = True, frAwaiting = True, frKeys = []\<rparr>"
  have o: "runs_to mx [TOpenObject] st (length st < mx) (?f # value_consumed st)"
    by (simp add: runs_to_def open_frame_def)
  obtain ks where b: "runs_to mx (concat (map (\<lambda>(k, v). TString k # tokens_of v) kvs)) (?f # value_consumed st)
      (distinct (map fst kvs) \<and> list_all (\<lambda>kv. clean_json mx (Suc (length st)) (snd kv)) kvs) (?f\<lparr>frKeys := ks\<rparr> # value_consumed st)"
    using runs_to_object [of kvs mx ?f "value_consumed st"] JObj.IH by force
  have c: "runs_to mx [TClose] (?f\<lparr>frKeys := ks\<rparr> # value_consumed st) True (value_consumed st)" by (simp add: runs_to_def)
  from runs_to_append [OF o runs_to_append [OF b c]] show ?case by simp
qed (auto simp: runs_to_def at_value_def split: list.splits)

lemma runs_to_values:
  "runs_to mx (concat (map tokens_of vs)) [] (list_all (clean_json mx 0) vs) []"
proof (induction vs)
  case (Cons v vs)
  have "runs_to mx (tokens_of v) [] (clean_json mx 0 v) []"
    using runs_to_value [of "[]" mx v] by (simp add: at_value_def)
  from runs_to_append [OF this Cons] show ?case by simp
qed (simp add: runs_to_def)

text \<open>
  C21: on a well-formed response the token walk reports no error exactly when no object in
  it, at any depth, repeats a key and nothing nests deeper than the bound.
\<close>

theorem duplicate_key_search_correct:
  assumes "rawTail raw = None"
  shows "DetectDuplicateKeys raw mx = None \<longleftrightarrow> list_all (clean_json mx 0) (rawValues raw)"
  using runs_to_values [of mx "rawValues raw"] assms
  by (auto simp: DetectDuplicateKeys_def raw_tokens_def runs_to_def split: if_splits)

theorem duplicate_key_search_correct_witness:
  "DetectDuplicateKeys \<lparr>rawSize = 9, rawValues = [JObj [(''a'', JArr [JObj [(''b'', JNull), (''b'', JNull)]])]],
     rawTail = None\<rparr> 32 \<noteq> None"
  using duplicate_key_search_correct
    [of "\<lparr>rawSize = 9, rawValues = [JObj [(''a'', JArr [JObj [(''b'', JNull), (''b'', JNull)]])]], rawTail = None\<rparr>" 32]
  by simp

definition smuggled_plan :: raw_response where
  "smuggled_plan = \<lparr>rawSize = 200, rawValues = [JObj [(''proposals'', JArr [JObj
     [(''type'', JStr ''retry_task''), (''task_id'', JStr ''t1''), (''agent_id'', JStr ''mallory''),
      (''Type'', JStr ''assign_task''), (''rationale_summary'', JStr ''retry'')]])]], rawTail = None\<rparr>"

text \<open>
  Two keys that differ only in case pass the search, and the decoder lets the second one
  win: a proposal that reads as a retry decodes to an assignment.
\<close>

theorem case_variant_keys_smuggled:
  "DetectDuplicateKeys smuggled_plan 32 = None \<and>
   decodePlanResponse ''plan'' smuggled_plan defaultWireLimits = Inr [AssignTask ''t1'' ''mallory'' [] ''retry'']"
proof
  show d: "DetectDuplicateKeys smuggled_plan 32 = None"
    by (simp add: DetectDuplicateKeys_def raw_tokens_def smuggled_plan_def open_frame_def)
  have v: "ValidID ''t1''" "ValidID ''mallory''" by (simp_all add: ValidID_def id_char_def)
  have T: "char_of (116 :: nat) = CHR ''t''" by code_simp
  have r: "to_plan_response (hd (rawValues smuggled_plan)) = Inr [zero_wire_proposal
      \<lparr>wpType := ''assign_task'', wpTaskID := ''t1'', wpAgentID := ''mallory'', wpRationale := ''retry''\<rparr>]"
    by (simp add: smuggled_plan_def to_plan_response_def to_wire_proposal_def find_field_def
        wire_proposal_field_def lower_def zero_wire_proposal_def T)
  show "decodePlanResponse ''plan'' smuggled_plan defaultWireLimits = Inr [AssignTask ''t1'' ''mallory'' [] ''retry'']"
    using d r v
    by (simp add: decodePlanResponse_def decodeStrict_def defaultWireLimits_def smuggled_plan_def
        toDomainProposal_def zero_wire_proposal_def MaxRationaleLength_def)
qed

subsection \<open>Decoded proposals\<close>

fun clean_task :: "wire_limits \<Rightarrow> task \<Rightarrow> bool" where
  "clean_task L t \<longleftrightarrow> ValidID (tID t) \<and> list_all ValidID (tDeps t) \<and> length (tCaps t) \<le> MaxCapabilitiesPerTask L \<and>
     length (tDeps t) \<le> MaxDependenciesPerTask L \<and> tStatus t = StEmpty \<and> \<not> tLocked t"

fun clean_proposal :: "wire_limits \<Rightarrow> proposal \<Rightarrow> bool" where
  "clean_proposal L (CreateTask t r) \<longleftrightarrow> clean_task L t \<and> length r \<le> wlMaxRationaleLength L"
| "clean_proposal L (AssignTask t a caps r) \<longleftrightarrow>
     ValidID t \<and> ValidID a \<and> length caps \<le> MaxCapabilitiesPerTask L \<and> length r \<le> wlMaxRationaleLength L"
| "clean_proposal L (RequestReview t a r) \<longleftrightarrow> ValidID t \<and> ValidID a \<and> length r \<le> wlMaxRationaleLength L"
| "clean_proposal L (RequestEvidence t a r) \<longleftrightarrow> ValidID t \<and> ValidID a \<and> length r \<le> wlMaxRationaleLength L"
| "clean_proposal L (RetryTask t r) \<longleftrightarrow> ValidID t \<and> length r \<le> wlMaxRationaleLength L"
| "clean_proposal L (Replan new upd r) \<longleftrightarrow>
     list_all (clean_task L) new \<and> list_all (clean_task L) upd \<and> length new \<le> MaxTasksPerBatch L \<and>
     length upd \<le> MaxTasksPerBatch L \<and> length r \<le> wlMaxRationaleLength L"
| "clean_proposal L (Synthesize ts s r) \<longleftrightarrow>
     list_all ValidID ts \<and> length ts \<le> MaxTaskIDsPerSynthesis L \<and> length r \<le> wlMaxRationaleLength L"
| "clean_proposal L (Escalate t rs r) \<longleftrightarrow> ValidID t \<and> length r \<le> wlMaxRationaleLength L"
| "clean_proposal L _ \<longleftrightarrow> False"

lemma toDomainTask_clean: "toDomainTask stage i w L = Inr t \<Longrightarrow> clean_task L t"
  by (auto simp: toDomainTask_def list_all_iff)

lemma toDomainTasks_clean:
  "toDomainTasks stage i ws L = Inr ts \<Longrightarrow> list_all (clean_task L) ts \<and> length ts = length ws"
  by (induction stage i ws L arbitrary: ts rule: toDomainTasks.induct)
    (auto simp: bind_res_Inr simp del: clean_task.simps dest: toDomainTask_clean)

lemma toDomainProposal_clean: "toDomainProposal stage i w L = Inr p \<Longrightarrow> clean_proposal L p"
  by (auto simp: toDomainProposal_def Let_def bind_res_Inr list_all_iff [of ValidID] simp del: clean_task.simps
      dest!: toDomainTask_clean toDomainTasks_clean split: if_splits option.splits)

lemma toDomainProposals_clean:
  "toDomainProposals stage i ws L = Inr ps \<Longrightarrow> list_all (clean_proposal L) ps \<and> length ps = length ws"
  by (induction stage i ws L arbitrary: ps rule: toDomainProposals.induct)
    (auto simp: bind_res_Inr dest: toDomainProposal_clean)

text \<open>
  C19: whatever a model answers, a decoded plan has at most the allowed number of proposals,
  each of a known type with well-formed identifiers, bounded lists and a bounded rationale, and
  none of the tasks it carries has a status or the capability lock. Otherwise the answer is an
  error and no proposal at all.
\<close>

theorem decoded_plan_clean:
  assumes "decodePlanResponse stage raw L = Inr ps"
  shows "list_all (clean_proposal L) ps \<and> length ps \<le> MaxProposalsPerBatch L \<and>
         rawSize raw \<le> MaxResponseBytes L \<and> list_all (clean_json (MaxJSONDepth L) 0) (rawValues raw)"
proof -
  obtain ws where w: "decodeStrict stage raw L to_plan_response = Inr ws" "length ws \<le> MaxProposalsPerBatch L"
    "toDomainProposals stage 0 ws L = Inr ps"
    using assms by (auto simp: decodePlanResponse_def bind_res_Inr)
  have d: "rawSize raw \<le> MaxResponseBytes L" "DetectDuplicateKeys raw (MaxJSONDepth L) = None"
    using w(1) by (auto simp: decodeStrict_def)
  have "rawTail raw = None" using d(2) by (auto simp: DetectDuplicateKeys_def split: sum.splits)
  then have "list_all (clean_json (MaxJSONDepth L) 0) (rawValues raw)"
    using runs_to_values [of "MaxJSONDepth L" "rawValues raw"] d(2)
    by (auto simp: DetectDuplicateKeys_def raw_tokens_def runs_to_def split: if_splits)
  then show ?thesis using toDomainProposals_clean [OF w(3)] w(2) d(1) by simp
qed

definition wire_plan :: raw_response where
  "wire_plan = \<lparr>rawSize = 60, rawValues = [JObj [(''proposals'', JArr [JObj
     [(''type'', JStr ''retry_task''), (''task_id'', JStr ''t1'')]])]], rawTail = None\<rparr>"

lemma wire_plan_decoded: "decodePlanResponse ''plan'' wire_plan defaultWireLimits = Inr [RetryTask ''t1'' []]"
proof -
  have d: "DetectDuplicateKeys wire_plan 32 = None"
    by (simp add: DetectDuplicateKeys_def raw_tokens_def wire_plan_def open_frame_def)
  have v: "ValidID ''t1''" by (simp add: ValidID_def id_char_def)
  have r: "to_plan_response (hd (rawValues wire_plan)) = Inr [zero_wire_proposal
      \<lparr>wpType := ''retry_task'', wpTaskID := ''t1''\<rparr>]"
    by (simp add: wire_plan_def to_plan_response_def to_wire_proposal_def find_field_def
        wire_proposal_field_def zero_wire_proposal_def)
  show ?thesis using d r v
    by (simp add: decodePlanResponse_def decodeStrict_def defaultWireLimits_def wire_plan_def
        toDomainProposal_def zero_wire_proposal_def MaxRationaleLength_def)
qed

theorem decoded_plan_clean_witness: "list_all (clean_proposal defaultWireLimits) [RetryTask ''t1'' []]"
  using decoded_plan_clean [OF wire_plan_decoded] by blast

end
