(* ===== verification/ReviewTypes.thy ===== *)
theory ReviewTypes
  imports SupWire
begin

text \<open>
  The data of the review layer and its pure functions (\<open>internal/review\<close>: \<open>types.go\<close>,
  \<open>arbiter.go\<close>, \<open>errors.go\<close>, \<open>independence.go\<close>, \<open>consensus.go\<close>, \<open>fingerprint.go\<close>,
  \<open>limits.go\<close>, \<open>scheduling.go\<close>, \<open>finding_provenance.go\<close>): observations, groups, arbiter
  actions, typed errors, the selection of independent observations and the derived status.
\<close>

subsection \<open>Data\<close>

type_synonym review_group_id = string
type_synonym artifact_version = string

record subject_ref =
  Repository :: string
  Path :: string

datatype observation_stance = StanceConfirms | StanceRefutes | StanceUncertain | StanceOther string

record finding_observation =
  obID :: task_id
  obFindingID :: string
  obAgent :: agent_id
  obExecutionID :: task_id
  obExecutionRef :: string
  obVersion :: artifact_version
  obEvidenceRefs :: "string list"
  obConsumed :: "string list"
  obStance :: observation_stance
  obTimestamp :: int

text \<open>The statuses of \<open>protocol.FindingStatus\<close> a group can have.\<close>

datatype finding_status =
    FindingUnconfirmed
  | FindingSupported
  | FindingContested
  | FindingNeedsEvidence
  | FindingVerified
  | FindingRejected

record review_group =
  gID :: review_group_id
  gClaim :: string
  gSubject :: subject_ref
  gVersion :: artifact_version
  gTenant :: string
  gSession :: string
  gFinding :: string
  gStatus :: finding_status
  gObservations :: "finding_observation list"
  gRounds :: int
  gEvidenceRequests :: int
  gCost :: rat
  gPredecessor :: review_group_id
  gDepth :: int

definition ObservationByID :: "review_group \<Rightarrow> task_id \<Rightarrow> finding_observation option" where
  "ObservationByID g i = List.find (\<lambda>ob. obID ob = i) (gObservations g)"

record review_limits =
  MaxIndependentReviews :: int
  MaxArbitrationRounds :: int
  MaxEvidenceRequests :: int
  MaxReviewDepth :: int
  MaxReviewCost :: rat

definition DefaultReviewLimits :: review_limits where
  "DefaultReviewLimits =
     \<lparr>MaxIndependentReviews = 5, MaxArbitrationRounds = 5, MaxEvidenceRequests = 5, MaxReviewDepth = 3,
      MaxReviewCost = 0\<rparr>"

datatype action_type =
    ActionSupportClaim
  | ActionContestClaim
  | ActionRequestEvidence
  | ActionRequestIndependentReview
  | ActionRejectClaim
  | ActionRecommendVerification
  | ActionOther string

text \<open>
  The actions of an arbiter; \<open>NilAction\<close> is a nil interface value and \<open>ForeignAction\<close> a value of
  another type with the action type it claims.
\<close>

datatype arbiter_action =
    SupportClaim review_group_id task_id rationale
  | ContestClaim review_group_id task_id rationale
  | RequestEvidenceAction review_group_id rationale
  | RequestIndependentReview review_group_id "string list" rationale
  | RejectClaim review_group_id rationale
  | RecommendVerification review_group_id rationale
  | NilAction
  | ForeignAction action_type

fun actionType :: "arbiter_action \<Rightarrow> action_type" where
  "actionType (SupportClaim _ _ _) = ActionSupportClaim"
| "actionType (ContestClaim _ _ _) = ActionContestClaim"
| "actionType (RequestEvidenceAction _ _) = ActionRequestEvidence"
| "actionType (RequestIndependentReview _ _ _) = ActionRequestIndependentReview"
| "actionType (RejectClaim _ _) = ActionRejectClaim"
| "actionType (RecommendVerification _ _) = ActionRecommendVerification"
| "actionType NilAction = ActionOther []"
| "actionType (ForeignAction ty) = ty"

fun knownActionTypes :: "action_type \<Rightarrow> bool" where
  "knownActionTypes (ActionOther s) = False"
| "knownActionTypes _ = True"

datatype assessment_hint =
  AssessmentUnconfirmed | AssessmentSupported | AssessmentContested | AssessmentNeedsEvidence

definition knownAssessmentHints :: "string \<Rightarrow> assessment_hint option" where
  "knownAssessmentHints s =
     (if s = ''unconfirmed'' then Some AssessmentUnconfirmed
      else if s = ''supported'' then Some AssessmentSupported
      else if s = ''contested'' then Some AssessmentContested
      else if s = ''needs_evidence'' then Some AssessmentNeedsEvidence
      else None)"

datatype review_error =
    FindingCorrelationFailure string msg
  | ReviewValidationFailure int msg
  | ReviewAuthorizationFailure review_group_id msg
  | ArbitrationFailure review_group_id msg
  | IndependentReviewUnavailable review_group_id msg
  | EvidenceInsufficient review_group_id msg
  | EvidenceConflict review_group_id msg
  | StaleArtifactEvidence review_group_id artifact_version artifact_version
  | ReviewLimitExceeded string int int
  | ArbitrationRoundLimitExceeded int int
  | EvidenceRequestLimitExceeded int int
  | IndependentReviewLimitExceeded int int
  | ReviewDepthLimitExceeded int int
  | ReviewCostLimitExceeded rat rat
  | EvidenceNotFound string msg
  | EvidenceTenantMismatch string string string
  | EvidenceArtifactMismatch string string string
  | EvidenceVersionMismatch string artifact_version artifact_version
  | EvidenceExecutionMismatch string msg
  | EvidenceIntegrityFailure msg
  | EvidenceRevokedError string
  | EvidenceStaleError string msg
  | EvidenceUnauthorized string msg
  | EvidenceIdentityConflict string string string
  | FindingProjectionFailure string msg
  | MissingExecutionProvenance string msg
  | ForeignReviewError msg

text \<open>The \<open>Error\<close> methods; \<open>ForeignReviewError\<close> is an error of code outside the package.\<close>

fun review_error_text :: "review_error \<Rightarrow> msg" where
  "review_error_text (FindingCorrelationFailure f m) = Msg ''finding correlation failure for %q: %s'' [AS f, AM m]"
| "review_error_text (ReviewValidationFailure i m) = Msg ''review validation failure at action %d: %s'' [AI i, AM m]"
| "review_error_text (ReviewAuthorizationFailure g m) = Msg ''review authorization failure for group %q: %s'' [AS g, AM m]"
| "review_error_text (ArbitrationFailure g m) = Msg ''arbitration failure for group %q: %s'' [AS g, AM m]"
| "review_error_text (IndependentReviewUnavailable g m) = Msg ''independent review unavailable for group %q: %s'' [AS g, AM m]"
| "review_error_text (EvidenceInsufficient g m) = Msg ''evidence insufficient for group %q: %s'' [AS g, AM m]"
| "review_error_text (EvidenceConflict g m) = Msg ''evidence conflict for group %q: %s'' [AS g, AM m]"
| "review_error_text (StaleArtifactEvidence g e a) =
     Msg ''stale artifact evidence for group %q: expected version %q, got %q'' [AS g, AS e, AS a]"
| "review_error_text (ReviewLimitExceeded n l a) = Msg ''review guardrail %q exceeded: limit=%d actual=%d'' [AS n, AI l, AI a]"
| "review_error_text (ArbitrationRoundLimitExceeded l a) = Msg ''arbitration round limit exceeded: limit=%d actual=%d'' [AI l, AI a]"
| "review_error_text (EvidenceRequestLimitExceeded l a) = Msg ''evidence request limit exceeded: limit=%d actual=%d'' [AI l, AI a]"
| "review_error_text (IndependentReviewLimitExceeded l a) =
     Msg ''independent review limit exceeded: limit=%d actual=%d'' [AI l, AI a]"
| "review_error_text (ReviewDepthLimitExceeded l a) = Msg ''review depth limit exceeded: limit=%d actual=%d'' [AI l, AI a]"
| "review_error_text (ReviewCostLimitExceeded l a) = Msg ''review cost limit exceeded: limit=%.2f actual=%.2f'' [AR l, AR a]"
| "review_error_text (EvidenceNotFound i m) =
     (if m = plain [] then Msg ''evidence %q not found'' [AS i] else Msg ''evidence %q not found: %s'' [AS i, AM m])"
| "review_error_text (EvidenceTenantMismatch i e a) = Msg ''evidence %q tenant mismatch: expected %q, got %q'' [AS i, AS e, AS a]"
| "review_error_text (EvidenceArtifactMismatch i e a) = Msg ''evidence %q artifact mismatch: expected %q, got %q'' [AS i, AS e, AS a]"
| "review_error_text (EvidenceVersionMismatch i e a) =
     Msg ''evidence %q artifact-version mismatch: expected %q, got %q'' [AS i, AS e, AS a]"
| "review_error_text (EvidenceExecutionMismatch i m) = Msg ''evidence %q execution mismatch: %s'' [AS i, AM m]"
| "review_error_text (EvidenceIntegrityFailure m) = Msg ''evidence integrity failure: %s'' [AM m]"
| "review_error_text (EvidenceRevokedError i) = Msg ''evidence %q has been revoked'' [AS i]"
| "review_error_text (EvidenceStaleError i m) = Msg ''evidence %q is stale: %s'' [AS i, AM m]"
| "review_error_text (EvidenceUnauthorized i m) = Msg ''evidence %q unauthorized: %s'' [AS i, AM m]"
| "review_error_text (EvidenceIdentityConflict i e n) =
     Msg ''evidence identity conflict for %q: existing digest %q, new digest %q'' [AS i, AS e, AS n]"
| "review_error_text (FindingProjectionFailure f m) = Msg ''finding projection failure for %q: %s'' [AS f, AM m]"
| "review_error_text (MissingExecutionProvenance f m) = Msg ''missing execution provenance for finding %q: %s'' [AS f, AM m]"
| "review_error_text (ForeignReviewError m) = m"

text \<open>The \<open>Class\<close> methods; an error of code outside the package has none.\<close>

fun review_error_class :: "review_error \<Rightarrow> string option" where
  "review_error_class (FindingCorrelationFailure f m) = Some ''finding_correlation_failure''"
| "review_error_class (ReviewValidationFailure i m) = Some ''review_validation_failure''"
| "review_error_class (ReviewAuthorizationFailure g m) = Some ''review_authorization_failure''"
| "review_error_class (ArbitrationFailure g m) = Some ''arbitration_failure''"
| "review_error_class (IndependentReviewUnavailable g m) = Some ''independent_review_unavailable''"
| "review_error_class (EvidenceInsufficient g m) = Some ''evidence_insufficient''"
| "review_error_class (EvidenceConflict g m) = Some ''evidence_conflict''"
| "review_error_class (StaleArtifactEvidence g e a) = Some ''stale_artifact_evidence''"
| "review_error_class (ReviewLimitExceeded n l a) = Some ''review_limit_exceeded''"
| "review_error_class (ArbitrationRoundLimitExceeded l a) = Some ''review_limit_exceeded''"
| "review_error_class (EvidenceRequestLimitExceeded l a) = Some ''review_limit_exceeded''"
| "review_error_class (IndependentReviewLimitExceeded l a) = Some ''review_limit_exceeded''"
| "review_error_class (ReviewDepthLimitExceeded l a) = Some ''review_limit_exceeded''"
| "review_error_class (ReviewCostLimitExceeded l a) = Some ''review_limit_exceeded''"
| "review_error_class (EvidenceNotFound i m) = Some ''evidence_not_found''"
| "review_error_class (EvidenceTenantMismatch i e a) = Some ''evidence_tenant_mismatch''"
| "review_error_class (EvidenceArtifactMismatch i e a) = Some ''evidence_artifact_mismatch''"
| "review_error_class (EvidenceVersionMismatch i e a) = Some ''evidence_version_mismatch''"
| "review_error_class (EvidenceExecutionMismatch i m) = Some ''evidence_execution_mismatch''"
| "review_error_class (EvidenceIntegrityFailure m) = Some ''evidence_integrity_failure''"
| "review_error_class (EvidenceRevokedError i) = Some ''evidence_revoked''"
| "review_error_class (EvidenceStaleError i m) = Some ''evidence_stale''"
| "review_error_class (EvidenceUnauthorized i m) = Some ''evidence_unauthorized''"
| "review_error_class (EvidenceIdentityConflict i e n) = Some ''evidence_identity_conflict''"
| "review_error_class (FindingProjectionFailure f m) = Some ''finding_projection_failure''"
| "review_error_class (MissingExecutionProvenance f m) = Some ''missing_execution_provenance''"
| "review_error_class (ForeignReviewError m) = None"

subsection \<open>Costs and counts\<close>

definition DefaultActionCost :: "action_type \<Rightarrow> rat" where
  "DefaultActionCost t =
     (case t of
        ActionRequestIndependentReview \<Rightarrow> 3
      | ActionRequestEvidence \<Rightarrow> 1
      | ActionRecommendVerification \<Rightarrow> 1
      | ActionRejectClaim \<Rightarrow> 1
      | _ \<Rightarrow> 1 / 2)"

definition countDistinctAgents :: "review_group \<Rightarrow> int" where
  "countDistinctAgents g = int (card (set (map obAgent (gObservations g))))"

subsection \<open>Independence\<close>

text \<open>
  Only the observations of the group matter; the source builds a probe group from a list.
\<close>

definition IsIndependentObservation :: "finding_observation list \<Rightarrow> finding_observation \<Rightarrow> bool" where
  "IsIndependentObservation existing ob \<longleftrightarrow>
     list_all (\<lambda>e. obAgent e \<noteq> obAgent ob) existing \<and>
     list_all (\<lambda>c. c \<notin> set (map obFindingID existing)) (obConsumed ob)"

fun independent_scan ::
  "observation_stance \<Rightarrow> finding_observation list \<Rightarrow> finding_observation list \<Rightarrow> finding_observation list"
where
  "independent_scan stance accepted [] = accepted"
| "independent_scan stance accepted (ob # obs) =
     (if obStance ob \<noteq> stance then independent_scan stance accepted obs
      else if IsIndependentObservation accepted ob then independent_scan stance (accepted @ [ob]) obs
      else independent_scan stance accepted obs)"

definition independentObservationsWithStance ::
  "review_group \<Rightarrow> observation_stance \<Rightarrow> finding_observation list"
where
  "independentObservationsWithStance g stance = independent_scan stance [] (gObservations g)"

definition IndependentConfirmingObservations :: "review_group \<Rightarrow> finding_observation list" where
  "IndependentConfirmingObservations g = independentObservationsWithStance g StanceConfirms"

definition IndependentRefutingObservations :: "review_group \<Rightarrow> finding_observation list" where
  "IndependentRefutingObservations g = independentObservationsWithStance g StanceRefutes"

definition SelfReviewAttempt :: "review_group \<Rightarrow> agent_id \<Rightarrow> bool" where
  "SelfReviewAttempt g a = list_ex (\<lambda>ob. obAgent ob = a) (gObservations g)"

subsection \<open>The derived status\<close>

definition is_terminal :: "finding_status \<Rightarrow> bool" where
  "is_terminal st \<longleftrightarrow> st = FindingVerified \<or> st = FindingRejected"

definition DeriveStatus :: "review_group \<Rightarrow> finding_status" where
  "DeriveStatus g =
     (if is_terminal (gStatus g) then gStatus g
      else
        let confirms = IndependentConfirmingObservations g; refutes = IndependentRefutingObservations g in
        if length confirms > 0 \<and> length refutes > 0 then FindingContested
        else if length confirms \<ge> 2 \<and> length refutes = 0 then FindingSupported
        else FindingUnconfirmed)"

subsection \<open>Correlation\<close>

record claim_input =
  ciSubject :: subject_ref
  ciCategory :: string
  ciFindingType :: string
  ciLine :: int

text \<open>
  The text functions of the standard library the correlation uses (\<open>strings.TrimSpace\<close>,
  \<open>filepath.Clean\<close>, \<open>strings.ToLower\<close>, SHA-256 in hexadecimal) are parameters.
\<close>

record text_lib =
  TrimSpace :: "string \<Rightarrow> string"
  CleanPath :: "string \<Rightarrow> string"
  ToLower :: "string \<Rightarrow> string"
  sha256hex :: "string \<Rightarrow> string"

definition locationBucketSize :: int where
  "locationBucketSize = 5"

definition location_bucket :: "int \<Rightarrow> int" where
  "location_bucket line = (if line > 0 then (line - 1) div locationBucketSize else 0)"

definition claim_parts :: "text_lib \<Rightarrow> claim_input \<Rightarrow> string list" where
  "claim_parts lib ci =
     [TrimSpace lib (Repository (ciSubject ci)), CleanPath lib (TrimSpace lib (Path (ciSubject ci))),
      ToLower lib (TrimSpace lib (ciCategory ci)), ToLower lib (TrimSpace lib (ciFindingType ci))]"

definition bucket_bytes :: "int \<Rightarrow> string" where
  "bucket_bytes b = [char_of b, char_of (b div 256), char_of (b div 65536), char_of (b div 16777216)]"

definition claim_preimage :: "text_lib \<Rightarrow> claim_input \<Rightarrow> string" where
  "claim_preimage lib ci =
     concat (map (\<lambda>p. p @ [char_of (0 :: nat)]) (claim_parts lib ci)) @ bucket_bytes (location_bucket (ciLine ci))"

definition ComputeClaimFingerprint :: "text_lib \<Rightarrow> claim_input \<Rightarrow> string" where
  "ComputeClaimFingerprint lib ci = sha256hex lib (claim_preimage lib ci)"

definition FindGroup ::
  "review_group list \<Rightarrow> string \<Rightarrow> artifact_version \<Rightarrow> string \<Rightarrow> review_group option"
where
  "FindGroup groups fp version tenant =
     List.find (\<lambda>g. gClaim g = fp \<and> gVersion g = version \<and> gTenant g = tenant) groups"

subsection \<open>Scheduling and provenance\<close>

definition ToSchedulerProposal :: "string list \<Rightarrow> rationale \<Rightarrow> task_id \<Rightarrow> proposal" where
  "ToSchedulerProposal caps r tid =
     CreateTask (zero_task\<lparr>tID := tid, tType := ''independent-review'', tCaps := caps\<rparr>) r"

record execution_provenance =
  epTenant :: string
  epTaskID :: task_id
  epExecutionID :: string
  epAgentID :: agent_id

record finding_claim =
  fcID :: task_id
  fcFindingID :: string
  fcVersion :: artifact_version
  fcEvidenceRefs :: "string list"
  fcConsumed :: "string list"
  fcStance :: observation_stance
  fcTimestamp :: int

definition NewFindingObservationFromExecution ::
  "execution_provenance \<Rightarrow> finding_claim \<Rightarrow> review_error + finding_observation"
where
  "NewFindingObservationFromExecution ep fc =
     guard_res (require (epExecutionID ep \<noteq> []) (MissingExecutionProvenance (fcFindingID fc)
       (plain ''no Core-owned ExecutionID in execution context - refusing to guess'')))
    (guard_res (require (epTaskID ep \<noteq> []) (MissingExecutionProvenance (fcFindingID fc)
       (plain ''no TaskID in execution context'')))
    (guard_res (require (epAgentID ep \<noteq> []) (MissingExecutionProvenance (fcFindingID fc)
       (plain ''no Core-dispatched AgentID in execution context'')))
      (Inr \<lparr>obID = fcID fc, obFindingID = fcFindingID fc, obAgent = epAgentID ep, obExecutionID = epTaskID ep,
            obExecutionRef = epExecutionID ep, obVersion = fcVersion fc, obEvidenceRefs = fcEvidenceRefs fc,
            obConsumed = fcConsumed fc, obStance = fcStance fc, obTimestamp = fcTimestamp fc\<rparr>)))"

definition HasExecutionProvenance :: "finding_observation \<Rightarrow> bool" where
  "HasExecutionProvenance ob \<longleftrightarrow> obExecutionRef ob \<noteq> [] \<or> obEvidenceRefs ob \<noteq> []"

subsection \<open>Facts about independent observations\<close>

text \<open>Every observation is independent of the ones before it.\<close>

definition mutually_independent :: "finding_observation list \<Rightarrow> bool" where
  "mutually_independent l = list_all (\<lambda>i. IsIndependentObservation (take i l) (l ! i)) [0..<length l]"

lemma mutually_independent_Nil [simp]: "mutually_independent []"
  by (simp add: mutually_independent_def)

lemma mutually_independent_snoc:
  "mutually_independent (l @ [ob]) \<longleftrightarrow> mutually_independent l \<and> IsIndependentObservation l ob"
proof -
  have "list_all (\<lambda>i. IsIndependentObservation (take i (l @ [ob])) ((l @ [ob]) ! i)) [0..<length l] =
      list_all (\<lambda>i. IsIndependentObservation (take i l) (l ! i)) [0..<length l]"
    by (rule list.pred_cong) (auto simp: nth_append)
  then show ?thesis by (simp add: mutually_independent_def)
qed

lemma mutually_independent_agents: "mutually_independent l \<Longrightarrow> distinct (map obAgent l)"
  by (induction l rule: rev_induct)
    (auto simp: mutually_independent_snoc IsIndependentObservation_def list_all_iff)

lemma independent_scan_independent:
  "mutually_independent acc \<Longrightarrow> mutually_independent (independent_scan stance acc obs)"
  by (induction stance acc obs rule: independent_scan.induct) (auto simp: mutually_independent_snoc)

lemma independent_scan_mem:
  "ob \<in> set (independent_scan stance acc obs) \<Longrightarrow> ob \<in> set acc \<or> ob \<in> set obs \<and> obStance ob = stance"
  by (induction stance acc obs rule: independent_scan.induct) (auto split: if_splits)

lemma independent_scan_grows: "length acc \<le> length (independent_scan stance acc obs)"
  by (induction stance acc obs rule: independent_scan.induct) (auto split: if_splits)

lemma independent_scan_none:
  "independent_scan stance [] obs = [] \<longleftrightarrow> list_all (\<lambda>ob. obStance ob \<noteq> stance) obs"
proof (induction obs)
  case (Cons ob obs)
  have "independent_scan stance [ob] obs \<noteq> []"
    using independent_scan_grows [of "[ob]" stance obs] by auto
  with Cons show ?case by (simp add: IsIndependentObservation_def list_all_iff)
qed simp

lemma confirming_facts:
  "mutually_independent (independentObservationsWithStance g stance)"
  "ob \<in> set (independentObservationsWithStance g stance) \<Longrightarrow> ob \<in> set (gObservations g) \<and> obStance ob = stance"
  "independentObservationsWithStance g stance = [] \<longleftrightarrow> list_all (\<lambda>ob. obStance ob \<noteq> stance) (gObservations g)"
  using independent_scan_mem [of ob stance "[]" "gObservations g"]
  by (auto simp: independentObservationsWithStance_def independent_scan_none intro: independent_scan_independent)

lemmas stance_defs = IndependentConfirmingObservations_def IndependentRefutingObservations_def

subsection \<open>The derived status is never a verdict\<close>

definition corroborated :: "review_group \<Rightarrow> observation_stance \<Rightarrow> bool" where
  "corroborated g stance \<longleftrightarrow>
     2 \<le> length (independentObservationsWithStance g stance)"

text \<open>
  The status derived from the observations is a verdict only if the group already had
  it. A group without a verdict is contested exactly when somebody confirms and somebody
  refutes, and supported exactly when nobody refutes and at least two confirmations, by
  different agents, are independent of the ones before them.
\<close>

theorem derived_status_correct:
  assumes "\<not> is_terminal (gStatus g)"
  shows "\<not> is_terminal (DeriveStatus g) \<and>
    (DeriveStatus g = FindingContested \<longleftrightarrow>
       list_ex (\<lambda>ob. obStance ob = StanceConfirms) (gObservations g) \<and>
       list_ex (\<lambda>ob. obStance ob = StanceRefutes) (gObservations g)) \<and>
    (DeriveStatus g = FindingSupported \<longleftrightarrow>
       list_all (\<lambda>ob. obStance ob \<noteq> StanceRefutes) (gObservations g) \<and> corroborated g StanceConfirms) \<and>
    mutually_independent (IndependentConfirmingObservations g) \<and>
    distinct (map obAgent (IndependentConfirmingObservations g))"
  using assms confirming_facts(1,3) [of g] mutually_independent_agents [OF confirming_facts(1) [of g StanceConfirms]]
  by (auto simp: DeriveStatus_def stance_defs is_terminal_def corroborated_def Let_def list_ex_iff list_all_iff
      length_greater_0_conv)

definition sample_observation :: "string \<Rightarrow> agent_id \<Rightarrow> observation_stance \<Rightarrow> finding_observation" where
  "sample_observation i a stance =
     \<lparr>obID = i, obFindingID = ''F-'' @ i, obAgent = a, obExecutionID = ''t'', obExecutionRef = ''t@1'',
      obVersion = ''v1'', obEvidenceRefs = [], obConsumed = [], obStance = stance, obTimestamp = 0\<rparr>"

definition sample_group :: "finding_observation list \<Rightarrow> finding_status \<Rightarrow> review_group" where
  "sample_group obs st =
     \<lparr>gID = ''RG-1'', gClaim = ''c'', gSubject = \<lparr>Repository = ''r'', Path = ''p''\<rparr>, gVersion = ''v1'', gTenant = [],
      gSession = ''s'', gFinding = ''F-1'', gStatus = st, gObservations = obs, gRounds = 0, gEvidenceRequests = 0,
      gCost = 0, gPredecessor = [], gDepth = 0\<rparr>"

lemmas review_eval = sample_group_def sample_observation_def stance_defs independentObservationsWithStance_def
  IsIndependentObservation_def is_terminal_def

theorem derived_status_correct_witness:
  "DeriveStatus (sample_group [sample_observation ''1'' ''amy'' StanceConfirms,
     sample_observation ''2'' ''bob'' StanceConfirms] FindingUnconfirmed) = FindingSupported"
  using derived_status_correct [of "sample_group [sample_observation ''1'' ''amy'' StanceConfirms,
     sample_observation ''2'' ''bob'' StanceConfirms] FindingUnconfirmed"]
  by (simp add: review_eval corroborated_def)

subsection \<open>Correlation is exact\<close>

lemma terminated_parts_inject:
  "list_all nul_free ps \<Longrightarrow> list_all nul_free qs \<Longrightarrow> length ps = length qs \<Longrightarrow>
     concat (map (\<lambda>p. p @ [char_of (0 :: nat)]) ps) @ xs = concat (map (\<lambda>p. p @ [char_of (0 :: nat)]) qs) @ ys \<Longrightarrow>
     ps = qs \<and> xs = ys"
proof (induction ps arbitrary: qs)
  case (Cons p ps)
  then obtain q qs' where qs: "qs = q # qs'" by (cases qs) auto
  with Cons.prems have "p = q \<and> concat (map (\<lambda>p. p @ [char_of (0 :: nat)]) ps) @ xs =
      concat (map (\<lambda>p. p @ [char_of (0 :: nat)]) qs') @ ys"
    by (intro terminated_inject) auto
  with Cons qs show ?case by simp
qed simp

lemma char_of_same: "(char_of x :: char) = char_of y \<longleftrightarrow> x mod 256 = y mod (256 :: int)"
  by (metis char_of_eq_iff of_char_of)

lemma bytes_of_int:
  assumes "0 \<le> x" "x < 2 ^ 32"
  shows "x = x mod 256 + 256 * (x div 256 mod 256) + 65536 * (x div 65536 mod 256) +
           16777216 * (x div 16777216 mod (256 :: int))"
proof -
  have eq: "x div 65536 = x div 256 div 256" "x div 16777216 = x div 256 div 256 div 256"
    by (simp_all add: zdiv_zmult2_eq [symmetric])
  have small: "x div 256 div 256 div 256 mod 256 = x div 256 div 256 div 256"
    using assms unfolding eq [symmetric] by (intro mod_pos_pos_trivial) auto
  have step: "256 * (y div 256) + y mod 256 = y" for y :: int by (rule mult_div_mod_eq)
  show ?thesis
    unfolding eq small using step [of x] step [of "x div 256"] step [of "x div 256 div 256"] by linarith
qed

lemma bucket_bytes_inject:
  assumes "0 \<le> a" "a < 2 ^ 32" "0 \<le> b" "b < 2 ^ 32" "bucket_bytes a = bucket_bytes b"
  shows "a = b"
proof -
  have "a mod 256 = b mod 256" "a div 256 mod 256 = b div 256 mod 256"
    "a div 65536 mod 256 = b div 65536 mod 256" "a div 16777216 mod 256 = b div 16777216 mod 256"
    using assms(5) unfolding bucket_bytes_def list.inject char_of_same by blast+
  then show ?thesis
    by (subst bytes_of_int [OF assms(1,2)], subst bytes_of_int [OF assms(3,4)]) (simp only:)
qed

lemma location_bucket_bound: "line \<le> 2 ^ 32 \<Longrightarrow> 0 \<le> location_bucket line \<and> location_bucket line < 2 ^ 32"
  by (auto simp: location_bucket_def locationBucketSize_def)

text \<open>
  Claims whose normalized texts contain no zero byte and whose lines are below
  \<open>2 ^ 32\<close> get the same fingerprint exactly when repository, path, category and rule agree
  after normalization and the lines fall into the same window of five, provided that the hash
  does not collide on the two preimages.
\<close>

theorem fingerprint_exact:
  assumes "list_all nul_free (claim_parts lib a)" and "list_all nul_free (claim_parts lib b)"
    and "ciLine a \<le> 2 ^ 32" and "ciLine b \<le> 2 ^ 32"
    and "sha256hex lib (claim_preimage lib a) = sha256hex lib (claim_preimage lib b) \<Longrightarrow>
           claim_preimage lib a = claim_preimage lib b"
  shows "ComputeClaimFingerprint lib a = ComputeClaimFingerprint lib b \<longleftrightarrow>
           claim_parts lib a = claim_parts lib b \<and> location_bucket (ciLine a) = location_bucket (ciLine b)"
proof
  assume "ComputeClaimFingerprint lib a = ComputeClaimFingerprint lib b"
  then have "claim_preimage lib a = claim_preimage lib b" using assms(5) by (simp add: ComputeClaimFingerprint_def)
  then have "claim_parts lib a = claim_parts lib b \<and> bucket_bytes (location_bucket (ciLine a)) = bucket_bytes (location_bucket (ciLine b))"
    unfolding claim_preimage_def by (intro terminated_parts_inject assms) (simp add: claim_parts_def)
  then show "claim_parts lib a = claim_parts lib b \<and> location_bucket (ciLine a) = location_bucket (ciLine b)"
    using bucket_bytes_inject location_bucket_bound [OF assms(3)] location_bucket_bound [OF assms(4)] by blast
qed (simp add: ComputeClaimFingerprint_def claim_preimage_def)

definition identity_lib :: text_lib where
  "identity_lib = \<lparr>TrimSpace = id, CleanPath = id, ToLower = id, sha256hex = id\<rparr>"

definition sample_claim :: "int \<Rightarrow> claim_input" where
  "sample_claim line = \<lparr>ciSubject = \<lparr>Repository = ''r'', Path = ''p''\<rparr>, ciCategory = ''security'', ciFindingType = [], ciLine = line\<rparr>"

theorem fingerprint_exact_witness:
  "ComputeClaimFingerprint identity_lib (sample_claim 5) = ComputeClaimFingerprint identity_lib (sample_claim 1) \<and>
   ComputeClaimFingerprint identity_lib (sample_claim 6) \<noteq> ComputeClaimFingerprint identity_lib (sample_claim 5)"
proof -
  have z: "(char_of (0 :: nat) :: char) = CHR 0x00" by code_simp
  have nf: "list_all nul_free (claim_parts identity_lib (sample_claim n))" for n
    by (simp add: claim_parts_def identity_lib_def sample_claim_def nul_free_def z)
  have "ComputeClaimFingerprint identity_lib (sample_claim m) = ComputeClaimFingerprint identity_lib (sample_claim n) \<longleftrightarrow>
      claim_parts identity_lib (sample_claim m) = claim_parts identity_lib (sample_claim n) \<and> location_bucket m = location_bucket n"
    if "m \<le> 2 ^ 32" "n \<le> 2 ^ 32" for m n
    using fingerprint_exact [of identity_lib "sample_claim m" "sample_claim n"] nf that
    by (simp add: identity_lib_def sample_claim_def)
  then show ?thesis
    by (simp add: claim_parts_def identity_lib_def sample_claim_def location_bucket_def locationBucketSize_def)
qed

end
