(* ===== verification/Evidence.thy ===== *)
theory Evidence
  imports ReviewTypes
begin

text \<open>
  Evidence records (\<open>internal/review/evidence.go\<close>): the store, the contract an evidence store
  keeps, and Core's validator, which reads the store again for every decision.
\<close>

subsection \<open>Records and expectations\<close>

datatype evidence_status = EvidenceUnset | EvidenceCurrent | EvidenceSuperseded | EvidenceRevoked

text \<open>\<open>None\<close> is the zero time.\<close>

record evidence_record =
  ecID :: string
  ecTenant :: string
  ecSubject :: subject_ref
  ecArtifact :: string
  ecVersion :: artifact_version
  ecTaskID :: task_id
  ecExecutionID :: string
  ecProducer :: agent_id
  ecKind :: string
  ecDigest :: string
  ecStatus :: evidence_status
  ecSupersededBy :: string
  ecCreatedAt :: "int option"

record evidence_expectation =
  exTenant :: string
  exVersion :: artifact_version
  exTaskID :: task_id
  exExecutionID :: string
  exKinds :: "string list"
  exMaxAge :: int

subsection \<open>The interface\<close>

text \<open>
  What a client of a store relies on: a successful put makes the record readable with the
  digest, tenant, artifact and version it was put with; a put never disturbs another record,
  and it never changes what is readable under an identifier that was already readable.
\<close>

definition same_binding :: "evidence_record \<Rightarrow> evidence_record \<Rightarrow> bool" where
  "same_binding a b \<longleftrightarrow> ecDigest a = ecDigest b \<and> ecTenant a = ecTenant b \<and> ecArtifact a = ecArtifact b \<and>
     ecVersion a = ecVersion b"

locale evidence_store =
  fixes put :: "evidence_record \<Rightarrow> 's \<Rightarrow> 's \<times> review_error option"
    and get :: "string \<Rightarrow> 's \<Rightarrow> review_error + evidence_record"
  assumes put_readable: "put r s = (s', None) \<Longrightarrow> \<exists>r'. get (ecID r) s' = Inr r' \<and> same_binding r' r"
    and put_preserves: "get i s = Inr r' \<Longrightarrow> get i (fst (put r s)) = Inr r'"
    and put_refused: "put r s = (s', Some e) \<Longrightarrow> s' = s"
begin

text \<open>A replay of a put that succeeded succeeds without effect on what can be read.\<close>

lemma readable_forever:
  "get i s = Inr r' \<Longrightarrow> get i (fold (\<lambda>r s. fst (put r s)) rs s) = Inr r'"
  by (induction rs arbitrary: s) (simp_all add: put_preserves)

lemma put_then_puts:
  assumes "put r s = (s', None)"
  shows "\<exists>r'. get (ecID r) (fold (\<lambda>r s. fst (put r s)) rs s') = Inr r' \<and> same_binding r' r"
  using put_readable [OF assms] readable_forever by blast

end

subsection \<open>The store in memory\<close>

type_synonym evidence_map = "string \<Rightarrow> evidence_record option"

definition MemoryPut :: "int \<Rightarrow> evidence_record \<Rightarrow> evidence_map \<Rightarrow> evidence_map \<times> review_error option" where
  "MemoryPut now r s =
     (if ecID r = [] then (s, Some (EvidenceIntegrityFailure (plain ''evidence record has no ID'')))
      else (case s (ecID r) of
        None \<Rightarrow>
          (s(ecID r \<mapsto> r\<lparr>ecCreatedAt := (case ecCreatedAt r of None \<Rightarrow> Some now | Some c \<Rightarrow> Some c),
                         ecStatus := (if ecStatus r = EvidenceUnset then EvidenceCurrent else ecStatus r)\<rparr>), None)
      | Some old \<Rightarrow>
          if ecDigest old \<noteq> ecDigest r \<or> ecTenant old \<noteq> ecTenant r \<or> ecArtifact old \<noteq> ecArtifact r \<or>
             ecVersion old \<noteq> ecVersion r
          then (s, Some (EvidenceIdentityConflict (ecID r) (ecDigest old) (ecDigest r)))
          else (s, None)))"

definition MemoryGet :: "string \<Rightarrow> evidence_map \<Rightarrow> review_error + evidence_record" where
  "MemoryGet i s = (case s i of None \<Rightarrow> Inl (EvidenceNotFound i (plain [])) | Some r \<Rightarrow> Inr r)"

definition MemoryExists :: "string \<Rightarrow> evidence_map \<Rightarrow> bool" where
  "MemoryExists i s = (s i \<noteq> None)"

definition MemoryRevoke :: "string \<Rightarrow> evidence_map \<Rightarrow> evidence_map \<times> review_error option" where
  "MemoryRevoke i s =
     (case s i of
        None \<Rightarrow> (s, Some (EvidenceNotFound i (plain [])))
      | Some r \<Rightarrow> (s(i \<mapsto> r\<lparr>ecStatus := EvidenceRevoked\<rparr>), None))"

definition MemorySupersede :: "string \<Rightarrow> string \<Rightarrow> evidence_map \<Rightarrow> evidence_map \<times> review_error option" where
  "MemorySupersede old new s =
     (case s old of
        None \<Rightarrow> (s, Some (EvidenceNotFound old (plain [])))
      | Some r \<Rightarrow> (s(old \<mapsto> r\<lparr>ecStatus := EvidenceSuperseded, ecSupersededBy := new\<rparr>), None))"

interpretation memory: evidence_store "MemoryPut now" MemoryGet for now
  by unfold_locales
    (auto simp: MemoryPut_def MemoryGet_def same_binding_def split: if_splits option.splits)

subsection \<open>Validation\<close>

text \<open>
  Core's validator over what the store answers; \<open>now\<close> is the clock. Its checks are in the
  code's order.
\<close>

definition CoreValidate ::
  "(string \<Rightarrow> review_error + evidence_record) \<Rightarrow> int \<Rightarrow> string \<Rightarrow> evidence_expectation \<Rightarrow>
     review_error + evidence_record"
where
  "CoreValidate read now i ex =
     (case read i of
        Inl (EvidenceNotFound j m) \<Rightarrow> Inl (EvidenceNotFound j m)
      | Inl e \<Rightarrow> Inl (EvidenceNotFound i (review_error_text e))
      | Inr r \<Rightarrow>
          guard_res (require (exTenant ex = [] \<or> ecTenant r = exTenant ex)
            (EvidenceTenantMismatch i (exTenant ex) (ecTenant r)))
         (guard_res (require (exVersion ex = [] \<or> ecVersion r = exVersion ex)
            (EvidenceVersionMismatch i (exVersion ex) (ecVersion r)))
         (guard_res (require (exTaskID ex = [] \<or> ecTaskID r = exTaskID ex)
            (EvidenceExecutionMismatch i (Msg ''task mismatch: expected %q, got %q'' [AS (exTaskID ex), AS (ecTaskID r)])))
         (guard_res (require (exExecutionID ex = [] \<or> ecExecutionID r = exExecutionID ex)
            (EvidenceExecutionMismatch i
              (Msg ''execution mismatch: expected %q, got %q'' [AS (exExecutionID ex), AS (ecExecutionID r)])))
         (guard_res (require (exKinds ex = [] \<or> ecKind r \<in> set (exKinds ex))
            (EvidenceIntegrityFailure
              (Msg ''evidence %q kind %q is not an acceptable kind %v'' [AS i, AS (ecKind r), AL (exKinds ex)])))
         (guard_res (require (ecDigest r \<noteq> [])
            (EvidenceIntegrityFailure (Msg ''evidence %q has no integrity digest'' [AS i])))
         (guard_res (require (ecStatus r \<noteq> EvidenceRevoked) (EvidenceRevokedError i))
         (guard_res (require (ecStatus r \<noteq> EvidenceSuperseded)
            (EvidenceStaleError i (Msg ''superseded by %q'' [AS (ecSupersededBy r)])))
         (guard_res (require (\<not> (exMaxAge ex > 0 \<and>
              (case ecCreatedAt r of None \<Rightarrow> True | Some c \<Rightarrow> now - c > exMaxAge ex)))
            (EvidenceStaleError i (Msg ''older than max age %s'' [AI (exMaxAge ex)])))
           (Inr r))))))))))"

definition usable :: "int \<Rightarrow> evidence_expectation \<Rightarrow> evidence_record \<Rightarrow> bool" where
  "usable now ex r \<longleftrightarrow>
     (exTenant ex = [] \<or> ecTenant r = exTenant ex) \<and> (exVersion ex = [] \<or> ecVersion r = exVersion ex) \<and>
     (exTaskID ex = [] \<or> ecTaskID r = exTaskID ex) \<and>
     (exExecutionID ex = [] \<or> ecExecutionID r = exExecutionID ex) \<and>
     (exKinds ex = [] \<or> ecKind r \<in> set (exKinds ex)) \<and> ecDigest r \<noteq> [] \<and>
     ecStatus r \<noteq> EvidenceRevoked \<and> ecStatus r \<noteq> EvidenceSuperseded \<and>
     (exMaxAge ex \<le> 0 \<or> (\<exists>c. ecCreatedAt r = Some c \<and> now - c \<le> exMaxAge ex))"

lemma CoreValidate_Inr [step_simps]:
  "CoreValidate read now i ex = Inr r \<longleftrightarrow> read i = Inr r \<and> usable now ex r"
  by (auto simp: CoreValidate_def usable_def not_less split: sum.splits review_error.splits option.splits)

context evidence_store begin

text \<open>Evidence that validates keeps validating, with the same record, after any further puts.\<close>

lemma validation_stable:
  assumes "CoreValidate (\<lambda>i. get i s) now i ex = Inr r"
  shows "CoreValidate (\<lambda>i. get i (fold (\<lambda>r s. fst (put r s)) rs s)) now i ex = Inr r"
  using assms readable_forever by (simp add: step_simps)

end

subsection \<open>The life of a record\<close>

datatype evidence_event = EvPut evidence_record | EvRevoke string | EvSupersede string string

fun evidence_step :: "int \<Rightarrow> evidence_event \<Rightarrow> evidence_map \<Rightarrow> evidence_map" where
  "evidence_step now (EvPut r) s = fst (MemoryPut now r s)"
| "evidence_step now (EvRevoke i) s = fst (MemoryRevoke i s)"
| "evidence_step now (EvSupersede old new) s = fst (MemorySupersede old new s)"

text \<open>What may happen to a stored record: its status, and the record that supersedes it.\<close>

definition evidence_later :: "evidence_record \<Rightarrow> evidence_record \<Rightarrow> bool" where
  "evidence_later r r' \<longleftrightarrow>
     r' = r\<lparr>ecStatus := ecStatus r', ecSupersededBy := ecSupersededBy r'\<rparr> \<and>
     (ecStatus r \<in> {EvidenceRevoked, EvidenceSuperseded} \<longrightarrow> ecStatus r' \<in> {EvidenceRevoked, EvidenceSuperseded})"

definition evidence_grows :: "evidence_map \<Rightarrow> evidence_map \<Rightarrow> bool" where
  "evidence_grows s s' \<longleftrightarrow> (\<forall>i r. s i = Some r \<longrightarrow> (\<exists>r'. s' i = Some r' \<and> evidence_later r r'))"

lemma evidence_later_refl [simp]: "evidence_later r r"
  by (simp add: evidence_later_def)

lemma evidence_later_trans: "evidence_later a b \<Longrightarrow> evidence_later b c \<Longrightarrow> evidence_later a c"
  by (cases a; cases b; cases c) (auto simp: evidence_later_def)

lemma evidence_grows_trans: "evidence_grows s t \<Longrightarrow> evidence_grows t u \<Longrightarrow> evidence_grows s u"
  unfolding evidence_grows_def by (meson evidence_later_trans)

lemma evidence_step_grows: "evidence_grows s (evidence_step now e s)"
  by (cases e)
    (auto simp: evidence_grows_def MemoryPut_def MemoryRevoke_def MemorySupersede_def evidence_later_def split: option.splits)

interpretation evidence_life: monotone_machine "evidence_step now" "\<lambda>_. True" evidence_grows for now
  by unfold_locales (auto simp: evidence_grows_def [of s s for s] intro: evidence_grows_trans evidence_step_grows)

text \<open>
  A stored record can never be replaced. Under any sequence of puts, revocations and
  supersessions every identifier keeps the record first stored under it, apart from its status
  and successor, and a record that was revoked or superseded never validates again, whatever
  is expected of it.
\<close>

theorem evidence_immutable:
  assumes "s i = Some r"
  shows "\<exists>r'. fold (evidence_step now) es s i = Some r' \<and>
     r' = r\<lparr>ecStatus := ecStatus r', ecSupersededBy := ecSupersededBy r'\<rparr> \<and>
     (ecStatus r \<in> {EvidenceRevoked, EvidenceSuperseded} \<longrightarrow>
        (\<exists>e. CoreValidate (\<lambda>i. MemoryGet i (fold (evidence_step now) es s)) t i ex = Inl e))"
proof -
  have "evidence_grows s (fold (evidence_step now) es s)" by (rule evidence_life.run_rel) simp
  with assms obtain r' where r': "fold (evidence_step now) es s i = Some r'" "evidence_later r r'"
    by (auto simp: evidence_grows_def)
  have "\<exists>e. CoreValidate (\<lambda>i. MemoryGet i (fold (evidence_step now) es s)) t i ex = Inl e"
    if "ecStatus r \<in> {EvidenceRevoked, EvidenceSuperseded}"
  proof (cases "CoreValidate (\<lambda>i. MemoryGet i (fold (evidence_step now) es s)) t i ex")
    case (Inr x)
    then have "x = r'" "usable t ex x" using r'(1) by (auto simp: step_simps MemoryGet_def)
    with r'(2) that show ?thesis by (auto simp: evidence_later_def usable_def)
  qed simp
  with r' show ?thesis by (auto simp: evidence_later_def)
qed

definition sample_evidence :: evidence_record where
  "sample_evidence =
     \<lparr>ecID = ''E1'', ecTenant = ''t1'', ecSubject = \<lparr>Repository = ''r'', Path = ''p''\<rparr>, ecArtifact = ''p'', ecVersion = ''v1'',
      ecTaskID = ''t'', ecExecutionID = ''t@1'', ecProducer = ''amy'', ecKind = ''test_result'', ecDigest = ''d'',
      ecStatus = EvidenceRevoked, ecSupersededBy = [], ecCreatedAt = Some 0\<rparr>"

definition any_evidence :: evidence_expectation where
  "any_evidence = \<lparr>exTenant = [], exVersion = [], exTaskID = [], exExecutionID = [], exKinds = [], exMaxAge = 0\<rparr>"

theorem evidence_immutable_witness:
  "\<exists>e. CoreValidate (\<lambda>i. MemoryGet i (fold (evidence_step 0) [EvPut sample_evidence, EvSupersede ''E1'' ''E2'']
     [''E1'' \<mapsto> sample_evidence])) 5 ''E1'' any_evidence = Inl e"
proof -
  have "[''E1'' \<mapsto> sample_evidence] ''E1'' = Some sample_evidence"
    and "ecStatus sample_evidence \<in> {EvidenceRevoked, EvidenceSuperseded}" by (simp_all add: sample_evidence_def)
  then show ?thesis using evidence_immutable by blast
qed

text \<open>
  A put that names another task, execution or producer for a stored identifier is
  answered like an exact replay: no error, and the old binding stays.
\<close>

theorem put_ignores_execution_binding:
  assumes "s (ecID r) = Some old" and "ecID r \<noteq> []" and "same_binding old r"
  shows "MemoryPut now (r\<lparr>ecTaskID := tid, ecExecutionID := eid, ecProducer := a\<rparr>) s = (s, None)"
  using assms by (auto simp: MemoryPut_def same_binding_def)

theorem put_ignores_execution_binding_witness:
  "MemoryPut 0 (sample_evidence\<lparr>ecTaskID := ''other'', ecExecutionID := ''other@9'', ecProducer := ''mallory''\<rparr>)
     [''E1'' \<mapsto> sample_evidence] = ([''E1'' \<mapsto> sample_evidence], None)"
  using put_ignores_execution_binding [of "[''E1'' \<mapsto> sample_evidence]" sample_evidence sample_evidence]
  by (simp add: sample_evidence_def same_binding_def)

end
