(* ===== verification/ReviewState.thy ===== *)
theory ReviewState
  imports Evidence
begin

text \<open>
  Core's authoritative review state (\<open>internal/review\<close>: \<open>validate.go\<close>, \<open>authorize.go\<close>,
  \<open>state.go\<close>, \<open>projection.go\<close>). Every operation is one critical section under the state's
  lock, apart from \<open>IngestSuccessor\<close>, which takes the lock three times.
\<close>

subsection \<open>Validation of an action batch\<close>

definition reviewRationale :: "int \<Rightarrow> rationale \<Rightarrow> review_error option" where
  "reviewRationale i r = require (length r \<le> 500) (ReviewValidationFailure i (plain ''rationale_summary too long''))"

definition validate_action :: "review_group \<Rightarrow> int \<Rightarrow> arbiter_action \<Rightarrow> review_error option" where
  "validate_action g i a =
     (let fail = (\<lambda>m. ReviewValidationFailure i m);
          same = (\<lambda>gid. require (gid = gID g) (fail (plain ''group_id mismatch'')));
          observed = (\<lambda>ob. require (ObservationByID g ob \<noteq> None) (fail (Msg ''unknown observation %q'' [AS ob]))) in
      case a of
        NilAction \<Rightarrow> Some (fail (plain ''nil action''))
      | ForeignAction ty \<Rightarrow>
          Some (fail (case ty of ActionOther s \<Rightarrow> Msg ''unknown action type %q'' [AS s]
                              | _ \<Rightarrow> plain ''unhandled action concrete type %T''))
      | SupportClaim gid ob r \<Rightarrow> err_then (reviewRationale i r) (err_then (same gid) (observed ob))
      | ContestClaim gid ob r \<Rightarrow> err_then (reviewRationale i r) (err_then (same gid) (observed ob))
      | RequestEvidenceAction gid r \<Rightarrow> err_then (reviewRationale i r) (same gid)
      | RequestIndependentReview gid caps r \<Rightarrow>
          err_then (reviewRationale i r) (err_then (same gid)
            (require (caps \<noteq> [])
              (fail (plain ''request_independent_review requires at least one required_capability''))))
      | RejectClaim gid r \<Rightarrow> err_then (reviewRationale i r) (same gid)
      | RecommendVerification gid r \<Rightarrow> err_then (reviewRationale i r) (same gid))"

fun is_evidence_request :: "arbiter_action \<Rightarrow> bool" where
  "is_evidence_request (RequestEvidenceAction _ _) = True"
| "is_evidence_request _ = False"

definition action_cost :: "arbiter_action \<Rightarrow> rat" where
  "action_cost a = DefaultActionCost (actionType a)"

definition ValidateActions :: "review_limits \<Rightarrow> review_group \<Rightarrow> arbiter_action list \<Rightarrow> review_error option" where
  "ValidateActions L g acts =
     err_then (first_err (\<lambda>(i, a). validate_action g (int i) a) (List.enumerate 0 acts))
    (let requests = gEvidenceRequests g + int (length (filter is_evidence_request acts));
         rounds = gRounds g + 1; cost = gCost g + sum_list (map action_cost acts) in
     err_then (require (\<not> (MaxEvidenceRequests L > 0 \<and> requests > MaxEvidenceRequests L))
       (EvidenceRequestLimitExceeded (MaxEvidenceRequests L) requests))
    (err_then (require (\<not> (acts \<noteq> [] \<and> MaxArbitrationRounds L > 0 \<and> rounds > MaxArbitrationRounds L))
       (ArbitrationRoundLimitExceeded (MaxArbitrationRounds L) rounds))
    (err_then (require (\<not> (MaxReviewCost L > 0 \<and> cost > MaxReviewCost L))
       (ReviewCostLimitExceeded (MaxReviewCost L) cost))
       (require (\<not> (MaxReviewDepth L > 0 \<and> gDepth g > MaxReviewDepth L))
         (ReviewDepthLimitExceeded (MaxReviewDepth L) (gDepth g))))))"

subsection \<open>Authorization of a verdict\<close>

definition MinIndependentConfirmationsForVerification :: nat where
  "MinIndependentConfirmationsForVerification = 2"

definition MinIndependentRefutationsForRejection :: nat where
  "MinIndependentRefutationsForRejection = 2"

type_synonym evidence_validator = "string \<Rightarrow> evidence_expectation \<Rightarrow> review_error + evidence_record"

definition checkEvidence ::
  "evidence_validator option \<Rightarrow> review_group \<Rightarrow> finding_observation list \<Rightarrow> review_error option"
where
  "checkEvidence ev g obs =
     (case ev of
        None \<Rightarrow> None
      | Some validate \<Rightarrow>
          let expectation = \<lparr>exTenant = gTenant g, exVersion = gVersion g, exTaskID = [], exExecutionID = [],
                             exKinds = [], exMaxAge = 0\<rparr> in
          first_err (\<lambda>ref. case validate ref expectation of Inl e \<Rightarrow> Some e | Inr r \<Rightarrow> None)
            (concat (map obEvidenceRefs obs)))"

definition checkArtifactFreshness :: "review_group \<Rightarrow> finding_observation list \<Rightarrow> review_error option" where
  "checkArtifactFreshness g obs =
     first_err (\<lambda>ob. require (obVersion ob = gVersion g)
       (StaleArtifactEvidence (gID g) (gVersion g) (obVersion ob))) obs"

definition verifyClaim :: "evidence_validator option \<Rightarrow> review_group \<Rightarrow> review_error + finding_status" where
  "verifyClaim ev g =
     (if is_terminal (gStatus g) then Inr (gStatus g)
      else
        let confirms = IndependentConfirmingObservations g; refutes = IndependentRefutingObservations g in
        guard_res (checkArtifactFreshness g confirms)
       (guard_res (checkEvidence ev g confirms)
       (guard_res (require (length refutes = 0) (EvidenceConflict (gID g)
          (Msg ''%d independent refuting observation(s) outstanding - cannot verify a contested claim''
            [AI (int (length refutes))])))
       (guard_res (require (MinIndependentConfirmationsForVerification \<le> length confirms) (EvidenceInsufficient (gID g)
          (Msg ''only %d independent confirming observation(s), need %d''
            [AI (int (length confirms)), AI (int MinIndependentConfirmationsForVerification)])))
         (Inr FindingVerified)))))"

definition rejectClaim :: "evidence_validator option \<Rightarrow> review_group \<Rightarrow> review_error + finding_status" where
  "rejectClaim ev g =
     (if is_terminal (gStatus g) then Inr (gStatus g)
      else
        let confirms = IndependentConfirmingObservations g; refutes = IndependentRefutingObservations g in
        guard_res (checkArtifactFreshness g refutes)
       (guard_res (checkEvidence ev g refutes)
       (guard_res (require (length confirms = 0) (EvidenceConflict (gID g)
          (Msg ''%d independent confirming observation(s) outstanding - cannot reject a contested claim''
            [AI (int (length confirms))])))
       (guard_res (require (MinIndependentRefutationsForRejection \<le> length refutes) (EvidenceInsufficient (gID g)
          (Msg ''only %d independent refuting observation(s), need %d''
            [AI (int (length refutes)), AI (int MinIndependentRefutationsForRejection)])))
         (Inr FindingRejected)))))"

definition AuthorizeAction ::
  "evidence_validator option \<Rightarrow> review_group \<Rightarrow> arbiter_action \<Rightarrow> review_error + finding_status"
where
  "AuthorizeAction ev g a =
     (case a of
        RecommendVerification gid r \<Rightarrow>
          bind_res (verifyClaim ev g) (\<lambda>st.
            guard_res (require (st = FindingVerified) (EvidenceInsufficient (gID g)
              (plain ''verification not authorized: resulting status would not be verified''))) (Inr st))
      | RejectClaim gid r \<Rightarrow> rejectClaim ev g
      | RequestEvidenceAction gid r \<Rightarrow> Inr FindingNeedsEvidence
      | _ \<Rightarrow> Inr (gStatus g))"

subsection \<open>The state\<close>

record review_state =
  rsGroups :: "(review_group_id \<times> review_group) list"
  rsNext :: nat
  rsPersist :: "(review_group list \<Rightarrow> msg option) option"
  rsLimits :: review_limits

definition NewReviewState :: "(review_group list \<Rightarrow> msg option) option \<Rightarrow> review_state" where
  "NewReviewState persist = \<lparr>rsGroups = [], rsNext = 0, rsPersist = persist, rsLimits = DefaultReviewLimits\<rparr>"

definition SetLimits :: "review_limits \<Rightarrow> review_state \<Rightarrow> review_state" where
  "SetLimits L s = s\<lparr>rsLimits := L\<rparr>"

text \<open>The order parameter \<open>rng\<close> says how the runtime ranges over the map of groups.\<close>

definition group_list :: "review_group range_order \<Rightarrow> review_state \<Rightarrow> review_group list" where
  "group_list rng s = rng (map snd (rsGroups s))"

definition SnapshotForTenant :: "review_group range_order \<Rightarrow> string \<Rightarrow> review_state \<Rightarrow> review_group list" where
  "SnapshotForTenant rng tenant s = filter (\<lambda>g. gTenant g = tenant) (group_list rng s)"

definition Group :: "review_group_id \<Rightarrow> review_state \<Rightarrow> review_group option" where
  "Group i s = map_of (rsGroups s) i"

definition put_group :: "review_group \<Rightarrow> review_state \<Rightarrow> review_state" where
  "put_group g s = s\<lparr>rsGroups := AList.update (gID g) g (rsGroups s)\<rparr>"

definition persistLocked :: "review_group range_order \<Rightarrow> review_state \<Rightarrow> review_error option" where
  "persistLocked rng s =
     (case rsPersist s of None \<Rightarrow> None | Some f \<Rightarrow> map_option ForeignReviewError (f (group_list rng s)))"

fun decimal :: "nat \<Rightarrow> string" where
  "decimal n = (if n < 10 then [char_of (48 + n)] else decimal (n div 10) @ [char_of (48 + n mod 10)])"

declare decimal.simps [simp del]

definition group_id :: "nat \<Rightarrow> review_group_id" where
  "group_id n = ''RG-'' @ decimal n"

definition joined_group :: "review_group \<Rightarrow> finding_observation \<Rightarrow> review_group" where
  "joined_group g ob =
     (let g' = g\<lparr>gObservations := gObservations g @ [ob]\<rparr> in g'\<lparr>gStatus := DeriveStatus g'\<rparr>)"

definition fresh_group ::
  "review_group_id \<Rightarrow> string \<Rightarrow> claim_input \<Rightarrow> artifact_version \<Rightarrow> string \<Rightarrow> finding_observation \<Rightarrow> review_group"
where
  "fresh_group i fp ci version tenant ob =
     (let g = \<lparr>gID = i, gClaim = fp, gSubject = ciSubject ci, gVersion = version, gTenant = tenant, gSession = [],
               gFinding = [], gStatus = FindingUnconfirmed, gObservations = [ob], gRounds = 0, gEvidenceRequests = 0,
               gCost = 0, gPredecessor = [], gDepth = 0\<rparr> in
      g\<lparr>gStatus := DeriveStatus g\<rparr>)"

text \<open>
  The source stores the group before it calls the persistence hook, so the new state stays
  when the hook fails.
\<close>

definition Ingest ::
  "text_lib \<Rightarrow> review_group range_order \<Rightarrow> claim_input \<Rightarrow> artifact_version \<Rightarrow> string \<Rightarrow> finding_observation \<Rightarrow>
     review_state \<Rightarrow> review_state \<times> (review_error + review_group_id)"
where
  "Ingest lib rng ci version tenant ob s =
     (let corr = (\<lambda>m. FindingCorrelationFailure (obFindingID ob) m);
          stored = (\<lambda>g s'. (s', guard_res (persistLocked rng s') (Inr (gID g)))) in
      if obAgent ob = [] then (s, Inl (corr (plain ''observation has no source agent'')))
      else if obID ob = [] then (s, Inl (corr (plain ''observation has no ID'')))
      else
        let fp = ComputeClaimFingerprint lib ci in
        (case FindGroup (group_list rng s) fp version tenant of
           Some g \<Rightarrow>
             if ObservationByID g (obID ob) \<noteq> None
             then (s, Inl (corr (Msg ''duplicate observation ID %q (replay)'' [AS (obID ob)])))
             else if MaxIndependentReviews (rsLimits s) > 0 \<and> obAgent ob \<notin> set (map obAgent (gObservations g)) \<and>
                     countDistinctAgents g + 1 > MaxIndependentReviews (rsLimits s)
             then (s, Inl (IndependentReviewLimitExceeded (MaxIndependentReviews (rsLimits s)) (countDistinctAgents g + 1)))
             else stored (joined_group g ob) (put_group (joined_group g ob) s)
         | None \<Rightarrow>
             let n = Suc (rsNext s); g = fresh_group (group_id n) fp ci version tenant ob in
             stored g (put_group g (s\<lparr>rsNext := n\<rparr>))))"

definition link_predecessor :: "review_group_id \<Rightarrow> int \<Rightarrow> review_group_id \<Rightarrow> review_state \<Rightarrow> review_state" where
  "link_predecessor pred deep i s =
     (case map_of (rsGroups s) i of
        None \<Rightarrow> s
      | Some g \<Rightarrow>
          if gPredecessor g = []
          then s\<lparr>rsGroups := AList.update i (g\<lparr>gPredecessor := pred, gDepth := deep\<rparr>) (rsGroups s)\<rparr> else s)"

definition IngestSuccessor ::
  "text_lib \<Rightarrow> review_group range_order \<Rightarrow> review_group_id \<Rightarrow> claim_input \<Rightarrow> artifact_version \<Rightarrow> string \<Rightarrow>
     finding_observation \<Rightarrow> review_state \<Rightarrow> review_state \<times> (review_error + review_group_id)"
where
  "IngestSuccessor lib rng pred ci version tenant ob s =
     (case map_of (rsGroups s) pred of
        None \<Rightarrow> (s, Inl (FindingCorrelationFailure (obFindingID ob) (Msg ''unknown predecessor group %q'' [AS pred])))
      | Some p \<Rightarrow>
          let deep = gDepth p + 1; limit = MaxReviewDepth (rsLimits s) in
          if limit > 0 \<and> deep > limit then (s, Inl (ReviewDepthLimitExceeded limit deep))
          else (case Ingest lib rng ci version tenant ob s of
                  (s', Inl e) \<Rightarrow> (s', Inl e)
                | (s', Inr i) \<Rightarrow> (link_predecessor pred deep i s', Inr i)))"

subsection \<open>Applying an action batch\<close>

record review_applier =
  raLimits :: review_limits
  raEvidence :: "evidence_validator option"
  raProject :: "(string \<Rightarrow> string \<Rightarrow> finding_status \<Rightarrow> msg option) option"
  raObserver :: bool

definition apply_action :: "review_applier \<Rightarrow> arbiter_action \<Rightarrow> review_group \<Rightarrow> review_error + review_group" where
  "apply_action ap a g =
     bind_res (AuthorizeAction (raEvidence ap) g a) (\<lambda>st.
       let g' = g\<lparr>gCost := gCost g + action_cost a\<rparr> in
       Inr (case a of
              RequestEvidenceAction gid r \<Rightarrow> g'\<lparr>gEvidenceRequests := gEvidenceRequests g' + 1, gStatus := st\<rparr>
            | RecommendVerification gid r \<Rightarrow> g'\<lparr>gStatus := st\<rparr>
            | RejectClaim gid r \<Rightarrow> g'\<lparr>gStatus := st\<rparr>
            | _ \<Rightarrow> g'))"

definition count_round :: "arbiter_action list \<Rightarrow> review_group \<Rightarrow> review_group" where
  "count_round acts g = (if acts = [] then g else g\<lparr>gRounds := gRounds g + 1\<rparr>)"

text \<open>What a call reports: the group, the error, and the transitions the observer is told of.\<close>

record apply_report =
  arGroup :: "review_group option"
  arError :: "review_error option"
  arObserved :: "(review_group \<times> finding_status) list"

definition ReviewApply ::
  "review_applier \<Rightarrow> review_group range_order \<Rightarrow> review_group_id \<Rightarrow> arbiter_action list \<Rightarrow> review_state \<Rightarrow>
     review_state \<times> apply_report"
where
  "ReviewApply ap rng i acts s =
     (case map_of (rsGroups s) i of
        None \<Rightarrow> (s, \<lparr>arGroup = None,
                arError = Some (ReviewValidationFailure 0 (Msg ''unknown review group %q'' [AS i])), arObserved = []\<rparr>)
      | Some current \<Rightarrow>
          let refuse = (\<lambda>e. (s, \<lparr>arGroup = Some current, arError = Some e, arObserved = []\<rparr>)) in
          (case ValidateActions (raLimits ap) current acts of
             Some e \<Rightarrow> refuse e
           | None \<Rightarrow>
          (case fold_res (apply_action ap) acts current of
             Inl e \<Rightarrow> refuse e
           | Inr work0 \<Rightarrow>
               let work = count_round acts work0;
                   s' = s\<lparr>rsGroups := AList.update i work (rsGroups s)\<rparr> in
          (case (case rsPersist s of None \<Rightarrow> None | Some f \<Rightarrow> f (group_list rng s')) of
             Some m \<Rightarrow> refuse (ReviewValidationFailure 0 (Msg ''persistence failed, state unchanged: %v'' [AM m]))
           | None \<Rightarrow>
          (case (case raProject ap of
                   None \<Rightarrow> None
                 | Some project \<Rightarrow>
                     if gStatus work \<noteq> gStatus current \<and> gSession work \<noteq> [] \<and> gFinding work \<noteq> []
                     then project (gSession work) (gFinding work) (gStatus work) else None) of
             Some m \<Rightarrow> (s', \<lparr>arGroup = Some work, arError = Some (FindingProjectionFailure (gFinding work) m),
                            arObserved = []\<rparr>)
           | None \<Rightarrow> (s', \<lparr>arGroup = Some work, arError = None,
               arObserved = (if raObserver ap \<and> gStatus work \<noteq> gStatus current then [(work, gStatus current)] else [])\<rparr>))))))"

subsection \<open>Group identifiers are never reused\<close>

definition undecimal :: "string \<Rightarrow> nat" where
  "undecimal ds = foldl (\<lambda>v c. 10 * v + (of_char c - 48)) 0 ds"

lemma undecimal_decimal: "undecimal (decimal n) = n"
proof (induction n rule: decimal.induct)
  case (1 n)
  have digit: "of_char (char_of (48 + d) :: char) = 48 + d" if "d < 10" for d :: nat
    using that by simp
  show ?case
  proof (cases "n < 10")
    case True
    then show ?thesis by (subst decimal.simps) (simp add: undecimal_def)
  next
    case False
    have "undecimal (ds @ [c]) = 10 * undecimal ds + (of_char c - 48)" for ds c
      by (simp add: undecimal_def)
    then show ?thesis using False 1 [OF False] digit [of "n mod 10"] by (subst decimal.simps) simp
  qed
qed

lemma group_id_inject [simp]: "group_id m = group_id n \<longleftrightarrow> m = n"
  using undecimal_decimal by (auto simp: group_id_def dest: arg_cong [of _ _ undecimal])

subsection \<open>Updating the map of groups\<close>

lemma update_present:
  "map_of al k = Some g0 \<Longrightarrow> f g = f g0 \<Longrightarrow> map (\<lambda>kg. f (snd kg)) (AList.update k g al) = map (\<lambda>kg. f (snd kg)) al"
  by (induction al) (auto split: if_splits)

lemma update_absent: "k \<notin> fst ` set al \<Longrightarrow> AList.update k g al = al @ [(k, g)]"
  by (induction al) auto

lemma update_all:
  "list_all P al \<Longrightarrow> P (k, g) \<Longrightarrow> list_all P (AList.update k g al)"
  by (induction al) auto

subsection \<open>What applying a batch does to a group\<close>

text \<open>\<open>w\<close> is \<open>g\<close> with another status, cost, round counter or request counter.\<close>

definition same_frame :: "review_group \<Rightarrow> review_group \<Rightarrow> bool" where
  "same_frame g w \<longleftrightarrow>
     w = g\<lparr>gStatus := gStatus w, gRounds := gRounds w, gEvidenceRequests := gEvidenceRequests w, gCost := gCost w\<rparr>"

lemma same_frame_refl [simp]: "same_frame g g"
  by (simp add: same_frame_def)

lemma same_frameD:
  assumes "same_frame g w"
  shows "gID w = gID g" "gClaim w = gClaim g" "gVersion w = gVersion g" "gTenant w = gTenant g"
    "gObservations w = gObservations g" "gDepth w = gDepth g" "gSession w = gSession g" "gFinding w = gFinding g"
    "gPredecessor w = gPredecessor g" "gSubject w = gSubject g"
  using assms by (cases g; cases w; simp add: same_frame_def)+

lemma apply_action_effect:
  assumes "apply_action ap a g = Inr w"
  shows "same_frame g w" "gRounds w = gRounds g" "gCost w = gCost g + action_cost a"
    "gEvidenceRequests w = gEvidenceRequests g + (if is_evidence_request a then 1 else 0)"
    "\<exists>st. AuthorizeAction (raEvidence ap) g a = Inr st \<and> (gStatus w = st \<or> gStatus w = gStatus g)"
proof -
  from assms obtain st where st: "AuthorizeAction (raEvidence ap) g a = Inr st"
    by (auto simp: apply_action_def bind_res_Inr)
  show "same_frame g w" "gRounds w = gRounds g" "gCost w = gCost g + action_cost a"
    "gEvidenceRequests w = gEvidenceRequests g + (if is_evidence_request a then 1 else 0)"
    "\<exists>st. AuthorizeAction (raEvidence ap) g a = Inr st \<and> (gStatus w = st \<or> gStatus w = gStatus g)"
    using assms st by (cases a; cases g; simp add: apply_action_def Let_def same_frame_def; fail | auto simp: apply_action_def Let_def same_frame_def)+
qed

lemma same_frame_trans: "same_frame g w \<Longrightarrow> same_frame w v \<Longrightarrow> same_frame g v"
  by (cases g; cases w; cases v) (simp add: same_frame_def)

lemma fold_actions_effect:
  "fold_res (apply_action ap) acts g = Inr w \<Longrightarrow>
     same_frame g w \<and> gRounds w = gRounds g \<and> gCost w = gCost g + sum_list (map action_cost acts) \<and>
     gEvidenceRequests w = gEvidenceRequests g + int (length (filter is_evidence_request acts))"
proof (induction acts arbitrary: g)
  case (Cons a acts)
  from Cons.prems obtain v where v: "apply_action ap a g = Inr v" "fold_res (apply_action ap) acts v = Inr w"
    by (auto simp: bind_res_Inr)
  show ?case
    using Cons.IH [OF v(2)] apply_action_effect(1-4) [OF v(1)] by (auto intro: same_frame_trans)
qed simp

subsection \<open>Verdicts rest on independent observations\<close>

definition evidence_accepted :: "evidence_validator option \<Rightarrow> review_group \<Rightarrow> finding_observation list \<Rightarrow> bool" where
  "evidence_accepted ev g obs \<longleftrightarrow>
     (case ev of None \<Rightarrow> True
      | Some validate \<Rightarrow> \<forall>ob \<in> set obs. \<forall>ref \<in> set (obEvidenceRefs ob).
          \<exists>r. validate ref \<lparr>exTenant = gTenant g, exVersion = gVersion g, exTaskID = [], exExecutionID = [],
                exKinds = [], exMaxAge = 0\<rparr> = Inr r)"

lemma left_None: "(case r of Inl e \<Rightarrow> Some e | Inr x \<Rightarrow> None) = None \<longleftrightarrow> (\<exists>x. r = Inr x)"
  by (cases r) auto

lemma checkEvidence_None: "checkEvidence ev g obs = None \<longleftrightarrow> evidence_accepted ev g obs"
  by (cases ev) (auto simp: checkEvidence_def evidence_accepted_def Let_def left_None)

text \<open>
  At least two observations of the stance, by different agents, each independent of the ones
  before it, all of the group's own artifact version and with evidence that validates, and no
  observation of the opposite stance.
\<close>

definition verdict_basis ::
  "evidence_validator option \<Rightarrow> review_group \<Rightarrow> observation_stance \<Rightarrow> observation_stance \<Rightarrow> bool"
where
  "verdict_basis ev g stance opposite \<longleftrightarrow>
     (let obs = independentObservationsWithStance g stance in
      2 \<le> length obs \<and> mutually_independent obs \<and> distinct (map obAgent obs) \<and>
      list_all (\<lambda>ob. ob \<in> set (gObservations g) \<and> obStance ob = stance \<and> obVersion ob = gVersion g) obs \<and>
      evidence_accepted ev g obs \<and> list_all (\<lambda>ob. obStance ob \<noteq> opposite) (gObservations g))"

lemma freshness_None: "checkArtifactFreshness g obs = None \<longleftrightarrow> (\<forall>ob \<in> set obs. obVersion ob = gVersion g)"
  by (auto simp: checkArtifactFreshness_def)

lemma verdict_basisI:
  assumes "checkArtifactFreshness g (independentObservationsWithStance g stance) = None"
    and "checkEvidence ev g (independentObservationsWithStance g stance) = None"
    and "independentObservationsWithStance g opposite = []"
    and "2 \<le> length (independentObservationsWithStance g stance)"
  shows "verdict_basis ev g stance opposite"
  using assms confirming_facts(1) [of g stance] confirming_facts(3) [of g opposite]
    confirming_facts(2) [where g = g and stance = stance] mutually_independent_agents [OF confirming_facts(1) [of g stance]]
  by (auto simp: verdict_basis_def Let_def freshness_None checkEvidence_None list_all_iff)

lemma verifyClaim_basis:
  "verifyClaim ev g = Inr FindingVerified \<Longrightarrow> gStatus g \<noteq> FindingVerified \<Longrightarrow> verdict_basis ev g StanceConfirms StanceRefutes"
  by (rule verdict_basisI)
    (auto simp: verifyClaim_def Let_def stance_defs is_terminal_def MinIndependentConfirmationsForVerification_def split: if_splits)

lemma rejectClaim_basis:
  "rejectClaim ev g = Inr FindingRejected \<Longrightarrow> gStatus g \<noteq> FindingRejected \<Longrightarrow> verdict_basis ev g StanceRefutes StanceConfirms"
  by (rule verdict_basisI)
    (auto simp: rejectClaim_def Let_def stance_defs is_terminal_def MinIndependentRefutationsForRejection_def split: if_splits)

lemma verifyClaim_range: "verifyClaim ev g = Inr st \<Longrightarrow> st = FindingVerified \<or> st = gStatus g"
  by (auto simp: verifyClaim_def Let_def split: if_splits)

lemma rejectClaim_range: "rejectClaim ev g = Inr st \<Longrightarrow> st = FindingRejected \<or> st = gStatus g"
  by (auto simp: rejectClaim_def Let_def split: if_splits)

lemma basis_frame: "same_frame g w \<Longrightarrow> verdict_basis ev w st op = verdict_basis ev g st op"
  using same_frameD [of g w] by (cases ev) (simp_all add: verdict_basis_def independentObservationsWithStance_def evidence_accepted_def)

fun is_verify :: "arbiter_action \<Rightarrow> bool" where
  "is_verify (RecommendVerification _ _) = True"
| "is_verify _ = False"

fun is_reject :: "arbiter_action \<Rightarrow> bool" where
  "is_reject (RejectClaim _ _) = True"
| "is_reject _ = False"

lemma action_verdict:
  assumes "apply_action ap a g = Inr w"
  shows "gStatus w = FindingVerified \<Longrightarrow> gStatus g \<noteq> FindingVerified \<Longrightarrow>
           is_verify a \<and> verdict_basis (raEvidence ap) g StanceConfirms StanceRefutes"
    and "gStatus w = FindingRejected \<Longrightarrow> gStatus g \<noteq> FindingRejected \<Longrightarrow>
           is_reject a \<and> verdict_basis (raEvidence ap) g StanceRefutes StanceConfirms"
  using assms
  by (cases a; auto simp: apply_action_def AuthorizeAction_def Let_def bind_res_Inr
      dest: verifyClaim_range rejectClaim_range verifyClaim_basis rejectClaim_basis)+

lemma fold_verdict:
  assumes "fold_res (apply_action ap) acts g = Inr w"
  shows "(gStatus w = FindingVerified \<longrightarrow> gStatus g = FindingVerified \<or>
            list_ex is_verify acts \<and> verdict_basis (raEvidence ap) g StanceConfirms StanceRefutes) \<and>
         (gStatus w = FindingRejected \<longrightarrow> gStatus g = FindingRejected \<or>
            list_ex is_reject acts \<and> verdict_basis (raEvidence ap) g StanceRefutes StanceConfirms)"
  (is "?V w \<and> ?R w")
proof -
  let ?I = "\<lambda>w. same_frame g w \<and> ?V w \<and> ?R w"
  have "?I w" using assms
  proof (rule fold_res_inv)
    fix a v v' assume a: "a \<in> set acts" and I: "?I v" and st: "apply_action ap a v = Inr v'"
    from I have fr: "same_frame g v" by simp
    have "same_frame g v'" using fr apply_action_effect(1) [OF st] by (rule same_frame_trans)
    moreover have "?V v'" using action_verdict(1) [OF st] I a by (auto simp: list_ex_iff basis_frame [OF fr])
    moreover have "?R v'" using action_verdict(2) [OF st] I a by (auto simp: list_ex_iff basis_frame [OF fr])
    ultimately show "?I v'" by simp
  qed simp
  then show ?thesis by simp
qed

subsection \<open>One application\<close>

definition persist_accepts :: "review_group range_order \<Rightarrow> review_state \<Rightarrow> bool" where
  "persist_accepts rng s = (case rsPersist s of None \<Rightarrow> True | Some f \<Rightarrow> f (group_list rng s) = None)"

definition store_group :: "review_group_id \<Rightarrow> review_group \<Rightarrow> review_state \<Rightarrow> review_state" where
  "store_group i w s = s\<lparr>rsGroups := AList.update i w (rsGroups s)\<rparr>"

lemma ReviewApply_cases:
  obtains (Refused) e where "fst (ReviewApply ap rng i acts s) = s" "arError (snd (ReviewApply ap rng i acts s)) = Some e"
      "arObserved (snd (ReviewApply ap rng i acts s)) = []"
  | (Committed) g w0 w where "map_of (rsGroups s) i = Some g" "ValidateActions (raLimits ap) g acts = None"
      "fold_res (apply_action ap) acts g = Inr w0" "w = count_round acts w0"
      "fst (ReviewApply ap rng i acts s) = store_group i w s" "persist_accepts rng (store_group i w s)"
      "arGroup (snd (ReviewApply ap rng i acts s)) = Some w"
      "arError (snd (ReviewApply ap rng i acts s)) = None \<or>
       (\<exists>m. arError (snd (ReviewApply ap rng i acts s)) = Some (FindingProjectionFailure (gFinding w) m))"
      "arObserved (snd (ReviewApply ap rng i acts s)) =
         (if raObserver ap \<and> gStatus w \<noteq> gStatus g \<and> arError (snd (ReviewApply ap rng i acts s)) = None
          then [(w, gStatus g)] else [])"
proof (cases "map_of (rsGroups s) i")
  case None
  show ?thesis by (rule Refused) (auto simp: ReviewApply_def None)
next
  case (Some g)
  show ?thesis
  proof (cases "ValidateActions (raLimits ap) g acts")
    case (Some e)
    show ?thesis by (rule Refused) (auto simp: ReviewApply_def \<open>map_of (rsGroups s) i = Some g\<close> Some)
  next
    case None
    note val = this
    show ?thesis
    proof (cases "fold_res (apply_action ap) acts g")
      case (Inl e)
      show ?thesis by (rule Refused) (auto simp: ReviewApply_def \<open>map_of (rsGroups s) i = Some g\<close> val Inl)
    next
      case (Inr w0)
      let ?w = "count_round acts w0"
      note facts = \<open>map_of (rsGroups s) i = Some g\<close> val Inr
      show ?thesis
      proof (cases "persist_accepts rng (store_group i ?w s)")
        case False
        then have "(case rsPersist s of None \<Rightarrow> None | Some f \<Rightarrow> f (group_list rng (store_group i ?w s))) \<noteq> None"
          by (auto simp: persist_accepts_def store_group_def split: option.splits)
        then obtain m where m: "(case rsPersist s of None \<Rightarrow> None | Some f \<Rightarrow> f (group_list rng (store_group i ?w s))) = Some m"
          by blast
        show ?thesis
          by (rule Refused) (simp_all add: ReviewApply_def facts Let_def m [unfolded store_group_def])
      next
        case True
        then have m: "(case rsPersist s of None \<Rightarrow> None | Some f \<Rightarrow> f (group_list rng (store_group i ?w s))) = None"
          by (auto simp: persist_accepts_def store_group_def split: option.splits)
        show ?thesis
          by (rule Committed [OF facts refl _ True])
            (simp_all add: ReviewApply_def facts Let_def m [unfolded store_group_def] split: option.split, simp_all add: store_group_def)
      qed
    qed
  qed
qed

text \<open>
  A batch is applied as a whole or not at all. Either the state is untouched and an error
  is returned, or every action was validated against the group as stored, authorized in order,
  the round counted and the durability hook accepted exactly the state that is stored; then
  the only error that can follow is a failed projection, and the observer is told of the
  transition exactly when it exists, is a change of status and the projection did not fail.
\<close>

theorem review_apply_all_or_nothing:
  "let (s', rep) = ReviewApply ap rng i acts s in
   s' = s \<and> arError rep \<noteq> None \<and> arObserved rep = [] \<or>
   (\<exists>g w0. Group i s = Some g \<and> ValidateActions (raLimits ap) g acts = None \<and>
      fold_res (apply_action ap) acts g = Inr w0 \<and>
      (let w = count_round acts w0 in
       s' = store_group i w s \<and> persist_accepts rng s' \<and> arGroup rep = Some w \<and>
       (arError rep = None \<or> (\<exists>m. arError rep = Some (FindingProjectionFailure (gFinding w) m))) \<and>
       arObserved rep = (if raObserver ap \<and> gStatus w \<noteq> gStatus g \<and> arError rep = None then [(w, gStatus g)] else [])))"
  by (rule ReviewApply_cases [of ap rng i acts s]) (auto simp: Let_def Group_def case_prod_beta)

text \<open>
  C4: core alone decides verdicts, on evidence. If applying a batch turns a group's status
  to verified, the batch recommended verification and the group holds at least two
  confirmations by different agents, each independent of the earlier ones, all of the group's
  artifact version and with evidence that validated, and no refutation; rejection is symmetric.
\<close>

theorem verdict_requires_independent_evidence:
  assumes "Group i s = Some g" and "ReviewApply ap rng i acts s = (s', rep)" and "Group i s' = Some w"
    and "gStatus w \<noteq> gStatus g"
  shows "(gStatus w = FindingVerified \<longrightarrow> list_ex is_verify acts \<and>
            verdict_basis (raEvidence ap) g StanceConfirms StanceRefutes) \<and>
         (gStatus w = FindingRejected \<longrightarrow> list_ex is_reject acts \<and>
            verdict_basis (raEvidence ap) g StanceRefutes StanceConfirms)"
proof (cases rule: ReviewApply_cases [of ap rng i acts s])
  case Refused
  with assms show ?thesis by simp
next
  case (Committed g' w0 w')
  with assms have "g' = g" "w = count_round acts w0"
    by (auto simp: Group_def store_group_def map_of_update)
  then show ?thesis using fold_verdict [of ap acts g w0] Committed(3) assms(4) by (auto simp: count_round_def)
qed

definition sample_review_applier :: review_applier where
  "sample_review_applier = \<lparr>raLimits = DefaultReviewLimits, raEvidence = None, raProject = None, raObserver = True\<rparr>"

definition sample_review :: "review_group \<Rightarrow> review_state" where
  "sample_review g = \<lparr>rsGroups = [(''RG-1'', g)], rsNext = 1, rsPersist = None, rsLimits = DefaultReviewLimits\<rparr>"

definition two_confirmations :: "finding_status \<Rightarrow> review_group" where
  "two_confirmations st = sample_group [sample_observation ''1'' ''amy'' StanceConfirms,
     sample_observation ''2'' ''bob'' StanceConfirms] st"

lemmas apply_eval = sample_review_applier_def sample_review_def two_confirmations_def ReviewApply_def ValidateActions_def
  validate_action_def reviewRationale_def DefaultReviewLimits_def action_cost_def DefaultActionCost_def apply_action_def
  AuthorizeAction_def verifyClaim_def checkArtifactFreshness_def checkEvidence_def count_round_def group_list_def
  Group_def MinIndependentConfirmationsForVerification_def

theorem verdict_requires_independent_evidence_witness:
  "\<exists>w. Group ''RG-1'' (fst (ReviewApply sample_review_applier id ''RG-1'' [RecommendVerification ''RG-1'' []]
       (sample_review (two_confirmations FindingSupported)))) = Some w \<and> gStatus w = FindingVerified \<and>
     verdict_basis None (two_confirmations FindingSupported) StanceConfirms StanceRefutes"
proof -
  let ?s = "sample_review (two_confirmations FindingSupported)"
  let ?r = "ReviewApply sample_review_applier id ''RG-1'' [RecommendVerification ''RG-1'' []] ?s"
  obtain w where w: "Group ''RG-1'' (fst ?r) = Some w" "gStatus w = FindingVerified"
    by (simp add: apply_eval review_eval Let_def)
  have "Group ''RG-1'' ?s = Some (two_confirmations FindingSupported)" by (simp add: Group_def sample_review_def)
  then show ?thesis
    using verdict_requires_independent_evidence [of "''RG-1''" ?s "two_confirmations FindingSupported" sample_review_applier id
        "[RecommendVerification ''RG-1'' []]" "fst ?r" "snd ?r" w] w
    by (simp add: sample_review_applier_def two_confirmations_def sample_group_def)
qed

text \<open>
  A verdict is not final. An evidence request, which is authorized without any check,
  moves a verified or rejected group to needing evidence, and the next observation of the
  claim lets the status be derived afresh, so the group is no longer verified.
\<close>

theorem evidence_request_reopens_verdict:
  assumes "Group i s = Some g" and "gID g = i" and "rsPersist s = None" and "raProject ap = None"
    and "ValidateActions (raLimits ap) g [RequestEvidenceAction i r] = None"
  shows "\<exists>w. Group i (fst (ReviewApply ap rng i [RequestEvidenceAction i r] s)) = Some w \<and>
           gStatus w = FindingNeedsEvidence \<and> \<not> is_terminal (gStatus (joined_group w ob))"
proof -
  have "\<exists>w. Group i (fst (ReviewApply ap rng i [RequestEvidenceAction i r] s)) = Some w \<and> gStatus w = FindingNeedsEvidence"
    using assms by (simp add: ReviewApply_def Group_def apply_action_def AuthorizeAction_def Let_def count_round_def map_of_update)
  moreover have "\<not> is_terminal (gStatus (joined_group w ob))" if "gStatus w = FindingNeedsEvidence" for w
    using that by (simp add: joined_group_def DeriveStatus_def is_terminal_def Let_def)
  ultimately show ?thesis by blast
qed

theorem evidence_request_reopens_verdict_witness:
  "\<exists>w. Group ''RG-1'' (fst (ReviewApply sample_review_applier id ''RG-1'' [RequestEvidenceAction ''RG-1'' []]
       (sample_review (two_confirmations FindingVerified)))) = Some w \<and> gStatus w = FindingNeedsEvidence"
  using evidence_request_reopens_verdict [of "''RG-1''" "sample_review (two_confirmations FindingVerified)"
      "two_confirmations FindingVerified" sample_review_applier "[]" id]
  by (auto simp: apply_eval review_eval Let_def)

subsection \<open>The state as a machine\<close>

text \<open>
  The critical sections under the state's lock. \<open>RevLink\<close> is the last one of
  \<open>IngestSuccessor\<close>, whose depth was compared with the limit in its first one; the limits
  are configured before any concurrent use.
\<close>

datatype review_event =
    RevIngest claim_input artifact_version string finding_observation
  | RevLink review_group_id int review_group_id
  | RevApply review_group_id "arbiter_action list"

fun review_step :: "text_lib \<Rightarrow> review_group range_order \<Rightarrow> review_applier \<Rightarrow> review_event \<Rightarrow> review_state \<Rightarrow> review_state" where
  "review_step lib rng ap (RevIngest ci v tenant ob) s = fst (Ingest lib rng ci v tenant ob s)"
| "review_step lib rng ap (RevLink pred deep i) s =
     (if MaxReviewDepth (rsLimits s) > 0 \<and> deep > MaxReviewDepth (rsLimits s) then s else link_predecessor pred deep i s)"
| "review_step lib rng ap (RevApply i acts) s = fst (ReviewApply ap rng i acts s)"

definition within_limit :: "('a :: {linorder, zero}) \<Rightarrow> 'a \<Rightarrow> bool" where
  "within_limit limit actual \<longleftrightarrow> (limit > 0 \<longrightarrow> actual \<le> limit)"

definition group_fits :: "review_limits \<Rightarrow> review_limits \<Rightarrow> review_group \<Rightarrow> bool" where
  "group_fits L A g \<longleftrightarrow>
     distinct (map obID (gObservations g)) \<and> within_limit (MaxIndependentReviews L) (countDistinctAgents g) \<and>
     within_limit (MaxReviewDepth L) (gDepth g) \<and> within_limit (MaxArbitrationRounds A) (gRounds g) \<and>
     within_limit (MaxEvidenceRequests A) (gEvidenceRequests g) \<and> within_limit (MaxReviewCost A) (gCost g)"

definition correlation :: "review_group \<Rightarrow> string \<times> artifact_version \<times> string" where
  "correlation g = (gClaim g, gVersion g, gTenant g)"

definition issued_ids :: "nat \<Rightarrow> review_group_id set" where
  "issued_ids n = group_id ` {1..n}"

definition review_inv :: "review_limits \<Rightarrow> review_state \<Rightarrow> bool" where
  "review_inv A s \<longleftrightarrow>
     distinct (map fst (rsGroups s)) \<and> distinct (map (\<lambda>kg. correlation (snd kg)) (rsGroups s)) \<and>
     list_all (\<lambda>(k, g). gID g = k \<and> k \<in> issued_ids (rsNext s) \<and> group_fits (rsLimits s) A g) (rsGroups s)"

lemma review_inv_new [simp]: "review_inv A (NewReviewState persist)"
  by (simp add: review_inv_def NewReviewState_def)

lemma review_inv_lookup:
  "review_inv A s \<Longrightarrow> map_of (rsGroups s) k = Some g \<Longrightarrow>
     gID g = k \<and> k \<in> issued_ids (rsNext s) \<and> group_fits (rsLimits s) A g"
  by (auto simp: review_inv_def list_all_iff dest!: map_of_SomeD)

lemma review_inv_replace:
  assumes "review_inv A s" and "map_of (rsGroups s) k = Some g"
    and "correlation w = correlation g" and "gID w = k" and "group_fits (rsLimits s) A w"
  shows "review_inv A (store_group k w s)"
  using assms review_inv_lookup [OF assms(1,2)] update_present [of "rsGroups s" k g correlation w]
  unfolding review_inv_def store_group_def
  by (simp add: distinct_update) (rule update_all, auto)

lemma issued_new [simp]: "group_id (Suc n) \<notin> issued_ids n"
  by (auto simp: issued_ids_def)

lemma review_inv_insert:
  assumes "review_inv A s" and "correlation w \<notin> set (map (\<lambda>kg. correlation (snd kg)) (rsGroups s))"
    and "gID w = group_id (Suc (rsNext s))" and "group_fits (rsLimits s) A w"
  shows "review_inv A (store_group (gID w) w (s\<lparr>rsNext := Suc (rsNext s)\<rparr>))"
proof -
  have new: "gID w \<notin> fst ` set (rsGroups s)"
    using assms(1,3) issued_new [of "rsNext s"] by (force simp: review_inv_def list_all_iff)
  have "issued_ids (rsNext s) \<subseteq> issued_ids (Suc (rsNext s))" by (auto simp: issued_ids_def)
  then show ?thesis
    using assms new by (auto simp: review_inv_def store_group_def update_absent list_all_iff issued_ids_def)
qed

lemma FindGroup_Some:
  assumes "is_range rng" and "review_inv A s" and "FindGroup (group_list rng s) fp v tenant = Some g"
  shows "map_of (rsGroups s) (gID g) = Some g \<and> correlation g = (fp, v, tenant)"
proof -
  from assms(3) have g: "g \<in> set (group_list rng s)" "correlation g = (fp, v, tenant)"
    by (auto simp: FindGroup_def find_Some_iff correlation_def)
  then obtain k where k: "(k, g) \<in> set (rsGroups s)"
    using is_rangeD [OF assms(1)] by (auto simp: group_list_def)
  then have "gID g = k" "distinct (map fst (rsGroups s))" using assms(2) by (auto simp: review_inv_def list_all_iff)
  with k g show ?thesis by (simp add: map_of_is_SomeI)
qed

lemma FindGroup_None:
  assumes "is_range rng" and "FindGroup (group_list rng s) fp v tenant = None"
  shows "(fp, v, tenant) \<notin> set (map (\<lambda>kg. correlation (snd kg)) (rsGroups s))"
proof
  assume "(fp, v, tenant) \<in> set (map (\<lambda>kg. correlation (snd kg)) (rsGroups s))"
  then obtain k g where g: "(k, g) \<in> set (rsGroups s)" "correlation g = (fp, v, tenant)" by auto
  then have "g \<in> set (group_list rng s)" using is_rangeD [OF assms(1)] by (force simp: group_list_def)
  with g(2) assms(2) show False by (auto simp: FindGroup_def find_None_iff correlation_def)
qed

lemma agents_after: "countDistinctAgents (g\<lparr>gObservations := gObservations g @ [ob], gStatus := st\<rparr>) =
    (if obAgent ob \<in> set (map obAgent (gObservations g)) then countDistinctAgents g else countDistinctAgents g + 1)"
  by (auto simp: countDistinctAgents_def insert_absorb)

lemma joined_fits:
  assumes "group_fits L A g" and "ObservationByID g (obID ob) = None"
    and "\<not> (MaxIndependentReviews L > 0 \<and> obAgent ob \<notin> set (map obAgent (gObservations g)) \<and>
             countDistinctAgents g + 1 > MaxIndependentReviews L)"
  shows "group_fits L A (joined_group g ob)"
  using assms agents_after [where g = g and ob = ob]
  by (auto simp: group_fits_def joined_group_def Let_def ObservationByID_def find_None_iff within_limit_def)

lemma fresh_fits: "group_fits L A (fresh_group i fp ci v tenant ob)"
  by (auto simp: group_fits_def fresh_group_def Let_def within_limit_def countDistinctAgents_def)

lemma group_identity [simp]:
  "gID (joined_group g ob) = gID g" "correlation (joined_group g ob) = correlation g"
  "gID (fresh_group i fp ci v tenant ob) = i" "correlation (fresh_group i fp ci v tenant ob) = (fp, v, tenant)"
  by (simp_all add: joined_group_def fresh_group_def correlation_def Let_def)

lemma Ingest_inv:
  assumes rng: "is_range rng" and inv: "review_inv A s"
  shows "review_inv A (fst (Ingest lib rng ci v tenant ob s))"
proof (cases "obAgent ob = [] \<or> obID ob = []")
  case False
  let ?fp = "ComputeClaimFingerprint lib ci"
  show ?thesis
  proof (cases "FindGroup (group_list rng s) ?fp v tenant")
    case None
    let ?g = "fresh_group (group_id (Suc (rsNext s))) ?fp ci v tenant ob"
    have "review_inv A (store_group (gID ?g) ?g (s\<lparr>rsNext := Suc (rsNext s)\<rparr>))"
      using FindGroup_None [OF rng None] by (intro review_inv_insert inv) (simp_all add: fresh_fits)
    then show ?thesis using False None by (auto simp: Ingest_def Let_def put_group_def store_group_def)
  next
    case (Some g)
    note g = FindGroup_Some [OF rng inv Some]
    have "review_inv A (store_group (gID g) (joined_group g ob) s)"
      if "ObservationByID g (obID ob) = None"
        "\<not> (MaxIndependentReviews (rsLimits s) > 0 \<and> obAgent ob \<notin> set (map obAgent (gObservations g)) \<and>
             countDistinctAgents g + 1 > MaxIndependentReviews (rsLimits s))"
      using review_inv_lookup [OF inv conjunct1 [OF g]] g joined_fits [OF _ that]
      by (intro review_inv_replace [OF inv conjunct1 [OF g]]) auto
    then show ?thesis using False Some inv by (auto simp: Ingest_def Let_def put_group_def store_group_def)
  qed
qed (use inv in \<open>auto simp: Ingest_def Let_def\<close>)

lemma link_inv:
  assumes inv: "review_inv A s" and "within_limit (MaxReviewDepth (rsLimits s)) deep"
  shows "review_inv A (link_predecessor pred deep i s)"
proof (cases "map_of (rsGroups s) i")
  case (Some g)
  let ?w = "g\<lparr>gPredecessor := pred, gDepth := deep\<rparr>"
  have "review_inv A (store_group i ?w s)"
    using review_inv_lookup [OF inv Some] assms(2)
    by (intro review_inv_replace [OF inv Some]) (auto simp: correlation_def group_fits_def countDistinctAgents_def)
  with inv Some show ?thesis by (simp add: link_predecessor_def store_group_def)
qed (use inv in \<open>simp add: link_predecessor_def\<close>)

lemma ValidateActions_limits:
  assumes "ValidateActions A g acts = None"
  shows "within_limit (MaxEvidenceRequests A) (gEvidenceRequests g + int (length (filter is_evidence_request acts)))"
    "acts \<noteq> [] \<Longrightarrow> within_limit (MaxArbitrationRounds A) (gRounds g + 1)"
    "within_limit (MaxReviewCost A) (gCost g + sum_list (map action_cost acts))"
  using assms by (simp_all add: ValidateActions_def Let_def within_limit_def del: de_Morgan_conj) (auto simp: not_less)

lemma batch_fits:
  assumes "group_fits L (raLimits ap) g" and "ValidateActions (raLimits ap) g acts = None"
    and "fold_res (apply_action ap) acts g = Inr w"
  shows "group_fits L (raLimits ap) (count_round acts w)"
proof -
  note eff = fold_actions_effect [OF assms(3)]
  note frame = same_frameD [OF conjunct1 [OF eff]]
  have "gRounds (count_round acts w) = (if acts = [] then gRounds g else gRounds g + 1)"
    using eff by (simp add: count_round_def)
  moreover have "gObservations (count_round acts w) = gObservations g" "gDepth (count_round acts w) = gDepth g"
    "gEvidenceRequests (count_round acts w) = gEvidenceRequests w" "gCost (count_round acts w) = gCost w"
    using frame by (simp_all add: count_round_def)
  moreover have "countDistinctAgents (count_round acts w) = countDistinctAgents g"
    using frame by (simp add: countDistinctAgents_def count_round_def)
  ultimately show ?thesis
    using assms(1) ValidateActions_limits [OF assms(2)] eff unfolding group_fits_def by (simp only: split: if_split) simp
qed

lemma ReviewApply_inv:
  assumes inv: "review_inv (raLimits ap) s"
  shows "review_inv (raLimits ap) (fst (ReviewApply ap rng i acts s))"
proof (cases rule: ReviewApply_cases [of ap rng i acts s])
  case (Committed g w0 w)
  note frame = conjunct1 [OF fold_actions_effect [OF Committed(3)]]
  have "review_inv (raLimits ap) (store_group i w s)"
    using review_inv_lookup [OF inv Committed(1)] batch_fits [OF _ Committed(2,3)] same_frameD [OF frame] Committed(4)
    by (intro review_inv_replace [OF inv Committed(1)]) (auto simp: count_round_def correlation_def)
  with Committed(5) show ?thesis by simp
qed (use inv in simp)

lemma review_step_inv:
  "is_range rng \<Longrightarrow> review_inv (raLimits ap) s \<Longrightarrow> review_inv (raLimits ap) (review_step lib rng ap e s)"
  by (cases e) (auto intro: Ingest_inv link_inv ReviewApply_inv simp: within_limit_def)

interpretation review_life: state_machine "review_step lib rng ap"
  "\<lambda>s. is_range rng \<and> review_inv (raLimits ap) s" for lib rng ap
  by unfold_locales (auto intro: review_step_inv)

lemma IngestSuccessor_steps:
  "\<exists>es. fst (IngestSuccessor lib rng pred ci v tenant ob s) = fold (review_step lib rng ap) es s"
proof -
  let ?i = "Ingest lib rng ci v tenant ob s"
  have limits: "rsLimits (fst ?i) = rsLimits s"
    by (auto simp: Ingest_def Let_def put_group_def split: option.splits)
  show ?thesis
  proof (cases "map_of (rsGroups s) pred")
    case (Some p)
    let ?limit = "MaxReviewDepth (rsLimits s)"
    show ?thesis
    proof (cases "?limit > 0 \<and> gDepth p + 1 > ?limit")
      case False
      then have shallow: "\<not> (?limit > 0 \<and> ?limit \<le> gDepth p)" by simp
      have "fst (IngestSuccessor lib rng pred ci v tenant ob s) =
          (case snd ?i of Inl e \<Rightarrow> fst ?i | Inr i \<Rightarrow> link_predecessor pred (gDepth p + 1) i (fst ?i))"
        using Some by (simp add: IngestSuccessor_def Let_def shallow split: prod.split sum.split)
      also have "\<dots> = fold (review_step lib rng ap)
          (RevIngest ci v tenant ob # (case snd ?i of Inl e \<Rightarrow> [] | Inr i \<Rightarrow> [RevLink pred (gDepth p + 1) i])) s"
        by (cases "snd ?i") (simp_all add: limits shallow)
      finally show ?thesis by blast
    qed (use Some in \<open>auto simp: IngestSuccessor_def Let_def intro!: exI [of _ "[]"]\<close>)
  qed (auto simp: IngestSuccessor_def intro!: exI [of _ "[]"])
qed

text \<open>
  C13: whatever observations are ingested, successor groups linked and action batches
  applied, in any interleaving and for every iteration order of the map of groups, a group
  sits under its own identifier, no two groups have the same claim, version and tenant, no
  observation is counted twice, and reviewers, rounds, evidence requests, cost and depth stay
  within their limits.
\<close>

theorem review_reachable_inv:
  assumes "is_range rng"
  shows "review_inv (raLimits ap) (fold (review_step lib rng ap) es (NewReviewState persist))"
  using review_life.run_inv [of rng ap "NewReviewState persist" lib es] assms by simp

definition sample_review_events :: "review_event list" where
  "sample_review_events =
     [RevIngest (sample_claim 5) ''v1'' [] (sample_observation ''1'' ''amy'' StanceConfirms),
      RevIngest (sample_claim 3) ''v1'' [] (sample_observation ''2'' ''bob'' StanceConfirms),
      RevApply ''RG-1'' [RecommendVerification ''RG-1'' []]]"

theorem review_reachable_inv_witness:
  "let s = fold (review_step identity_lib rev sample_review_applier) sample_review_events (NewReviewState None) in
   review_inv (raLimits sample_review_applier) s \<and> map (\<lambda>kg. gStatus (snd kg)) (rsGroups s) = [FindingVerified]"
proof -
  have "map (\<lambda>kg. gStatus (snd kg)) (rsGroups (fold (review_step identity_lib rev sample_review_applier) sample_review_events
          (NewReviewState None))) = [FindingVerified]"
    by code_simp
  then show ?thesis
    using review_reachable_inv [of rev sample_review_applier identity_lib sample_review_events None] by (simp add: Let_def)
qed

text \<open>
  A failed durability hook does not undo an ingestion. The observation is stored and
  reported as rejected, and sending it again is rejected as a replay.
\<close>

lemma ingest_keeps_unpersisted_observation:
  assumes "rsPersist s = None"
    and "Ingest lib rng ci v tenant ob s = (s1, Inr i)"
  shows "fst (Ingest lib rng ci v tenant ob (s\<lparr>rsPersist := Some (\<lambda>_. Some m)\<rparr>)) =
           s1\<lparr>rsPersist := Some (\<lambda>_. Some m)\<rparr> \<and>
         snd (Ingest lib rng ci v tenant ob (s\<lparr>rsPersist := Some (\<lambda>_. Some m)\<rparr>)) = Inl (ForeignReviewError m)"
  using assms
  by (auto simp: Ingest_def Let_def put_group_def persistLocked_def group_list_def split: option.splits if_splits)

end
