(* ===== verification/ReviewWire.thy ===== *)
theory ReviewWire
  imports ReviewState
begin

text \<open>
  The decode boundary between an arbiter's model output and trusted actions
  (\<open>internal/review/wire.go\<close>), and the inference step around it
  (\<open>internal/review/llm_arbiter.go\<close>). The response is given as in the supervisor's decoder, by
  its size and what the JSON lexer finds in it.
\<close>

subsection \<open>The wire types\<close>

record review_wire_limits =
  rwMaxResponseBytes :: nat
  rwMaxActionsPerBatch :: nat
  rwMaxCapabilities :: nat
  rwMaxRationaleLength :: nat
  rwMaxJSONDepth :: nat

definition defaultReviewWireLimits :: review_wire_limits where
  "defaultReviewWireLimits =
     \<lparr>rwMaxResponseBytes = 256 * 1024, rwMaxActionsPerBatch = 16, rwMaxCapabilities = 16,
      rwMaxRationaleLength = 500, rwMaxJSONDepth = 32\<rparr>"

record wire_action =
  waType :: string
  waGroupID :: string
  waObservationID :: string
  waCaps :: "string list"
  waRationale :: string

record wire_arbitration =
  wbClaimID :: string
  wbAssessment :: string
  wbProposals :: "wire_action list"
  wbRationale :: string

definition wire_action_field :: "string \<times> json \<Rightarrow> wire_action \<Rightarrow> msg + wire_action" where
  "wire_action_field kv w = (case kv of (k, v) \<Rightarrow>
     (case find_field [''type'', ''group_id'', ''observation_id'', ''required_capabilities'', ''rationale_summary''] k of
        None \<Rightarrow> Inl (unknown_field k)
      | Some n \<Rightarrow>
          if n = ''type'' then bind_res (to_string v (waType w)) (\<lambda>s. Inr (w\<lparr>waType := s\<rparr>))
          else if n = ''group_id'' then bind_res (to_string v (waGroupID w)) (\<lambda>s. Inr (w\<lparr>waGroupID := s\<rparr>))
          else if n = ''observation_id'' then bind_res (to_string v (waObservationID w)) (\<lambda>s. Inr (w\<lparr>waObservationID := s\<rparr>))
          else if n = ''required_capabilities'' then bind_res (strings v (waCaps w)) (\<lambda>s. Inr (w\<lparr>waCaps := s\<rparr>))
          else bind_res (to_string v (waRationale w)) (\<lambda>s. Inr (w\<lparr>waRationale := s\<rparr>))))"

definition to_wire_action :: "json \<Rightarrow> msg + wire_action" where
  "to_wire_action j = to_struct wire_action_field j
     \<lparr>waType = [], waGroupID = [], waObservationID = [], waCaps = [], waRationale = []\<rparr>"

definition wire_arbitration_field :: "string \<times> json \<Rightarrow> wire_arbitration \<Rightarrow> msg + wire_arbitration" where
  "wire_arbitration_field kv w = (case kv of (k, v) \<Rightarrow>
     (case find_field [''claim_id'', ''assessment'', ''proposals'', ''rationale_summary''] k of
        None \<Rightarrow> Inl (unknown_field k)
      | Some n \<Rightarrow>
          if n = ''claim_id'' then bind_res (to_string v (wbClaimID w)) (\<lambda>s. Inr (w\<lparr>wbClaimID := s\<rparr>))
          else if n = ''assessment'' then bind_res (to_string v (wbAssessment w)) (\<lambda>s. Inr (w\<lparr>wbAssessment := s\<rparr>))
          else if n = ''proposals'' then bind_res (to_array to_wire_action v (wbProposals w)) (\<lambda>ps. Inr (w\<lparr>wbProposals := ps\<rparr>))
          else bind_res (to_string v (wbRationale w)) (\<lambda>s. Inr (w\<lparr>wbRationale := s\<rparr>))))"

definition to_wire_arbitration :: "json \<Rightarrow> msg + wire_arbitration" where
  "to_wire_arbitration j = to_struct wire_arbitration_field j
     \<lparr>wbClaimID = [], wbAssessment = [], wbProposals = [], wbRationale = []\<rparr>"

definition reviewDecodeStrict :: "raw_response \<Rightarrow> review_wire_limits \<Rightarrow> (json \<Rightarrow> msg + 'a) \<Rightarrow> review_error + 'a" where
  "reviewDecodeStrict raw L read =
     (let fail = (\<lambda>m. ArbitrationFailure [] m) in
      guard_res (require (rawSize raw \<le> rwMaxResponseBytes L)
        (fail (Msg ''response exceeds %d bytes'' [AI (int (rwMaxResponseBytes L))])))
     (guard_res (map_option (\<lambda>m. fail (Msg ''duplicate keys or invalid nesting: %v'' [AM m]))
         (DetectDuplicateKeys raw (rwMaxJSONDepth L)))
       (case rawValues raw of
          [] \<Rightarrow> Inl (fail (Msg ''json decode: %v'' [AM (plain ''EOF'')]))
        | v # rest \<Rightarrow>
            (case read v of
               Inl m \<Rightarrow> Inl (fail (Msg ''json decode: %v'' [AM m]))
             | Inr x \<Rightarrow>
                 guard_res (require (rest = []) (fail (plain ''trailing data after JSON value''))) (Inr x)))))"

subsection \<open>Conversion to trusted actions\<close>

definition toDomainAction ::
  "review_group_id \<Rightarrow> nat \<Rightarrow> wire_action \<Rightarrow> review_wire_limits \<Rightarrow> review_error + arbiter_action"
where
  "toDomainAction gid i w L =
     (let r = waRationale w;
          fail = (\<lambda>fmt args. ArbitrationFailure gid (Msg (''proposal %d: '' @ fmt) (AI (int i) # args))) in
      guard_res (require (length r \<le> rwMaxRationaleLength L) (fail ''rationale_summary too long'' []))
     (guard_res (require (waGroupID w = [] \<or> waGroupID w = gid)
        (fail ''group_id %q does not match the requested group'' [AS (waGroupID w)]))
     (if waType w = ''support_claim'' then
        guard_res (require (ValidID (waObservationID w)) (fail ''support_claim requires a valid observation_id'' []))
          (Inr (SupportClaim gid (waObservationID w) r))
      else if waType w = ''contest_claim'' then
        guard_res (require (ValidID (waObservationID w)) (fail ''contest_claim requires a valid observation_id'' []))
          (Inr (ContestClaim gid (waObservationID w) r))
      else if waType w = ''request_evidence'' then Inr (RequestEvidenceAction gid r)
      else if waType w = ''request_independent_review'' then
        guard_res (require (waCaps w \<noteq> []) (fail ''request_independent_review requires required_capabilities'' []))
       (guard_res (require (length (waCaps w) \<le> rwMaxCapabilities L) (fail ''too many required_capabilities'' []))
          (Inr (RequestIndependentReview gid (waCaps w) r)))
      else if waType w = ''reject_claim'' then Inr (RejectClaim gid r)
      else if waType w = ''recommend_verification'' then Inr (RecommendVerification gid r)
      else Inl (fail ''unknown proposal type %q'' [AS (waType w)]))))"

fun toDomainActions ::
  "review_group_id \<Rightarrow> nat \<Rightarrow> wire_action list \<Rightarrow> review_wire_limits \<Rightarrow> review_error + arbiter_action list"
where
  "toDomainActions gid i [] L = Inr []"
| "toDomainActions gid i (w # ws) L =
     bind_res (toDomainAction gid i w L) (\<lambda>a. bind_res (toDomainActions gid (Suc i) ws L) (\<lambda>rest. Inr (a # rest)))"

record arbitration_proposal =
  apGroupID :: review_group_id
  apAssessment :: assessment_hint
  apActions :: "arbiter_action list"
  apRationale :: rationale

definition DecodeArbitrationResponse :: "raw_response \<Rightarrow> review_group_id \<Rightarrow> review_error + arbitration_proposal" where
  "DecodeArbitrationResponse raw gid =
     (let L = defaultReviewWireLimits; fail = (\<lambda>m. ArbitrationFailure gid m) in
      bind_res (reviewDecodeStrict raw L to_wire_arbitration) (\<lambda>w.
        guard_res (require (ValidID (wbClaimID w)) (fail (Msg ''malformed claim_id %q'' [AS (wbClaimID w)])))
       (guard_res (require (wbClaimID w = gid)
          (fail (Msg ''claim_id %q does not match the requested group %q'' [AS (wbClaimID w), AS gid])))
       (case knownAssessmentHints (wbAssessment w) of
          None \<Rightarrow> Inl (fail (Msg ''unknown assessment %q'' [AS (wbAssessment w)]))
        | Some hint \<Rightarrow>
            guard_res (require (length (wbRationale w) \<le> rwMaxRationaleLength L) (fail (plain ''rationale_summary too long'')))
           (guard_res (require (length (wbProposals w) \<le> rwMaxActionsPerBatch L)
              (fail (Msg ''proposal count %d exceeds limit %d''
                [AI (int (length (wbProposals w))), AI (int (rwMaxActionsPerBatch L))])))
           (bind_res (toDomainActions gid 0 (wbProposals w) L) (\<lambda>as.
              Inr \<lparr>apGroupID = gid, apAssessment = hint, apActions = as, apRationale = wbRationale w\<rparr>)))))))"

subsection \<open>The inference step\<close>

text \<open>
  The router and the transport are parameters; \<open>context\<close> is the size of the two prompts
  together. The transport answers with what the model wrote.
\<close>

definition ArbiterReview ::
  "nat \<Rightarrow> nat \<Rightarrow> (msg option) \<Rightarrow> (msg + raw_response) \<Rightarrow> review_group_id \<Rightarrow> review_error + arbitration_proposal"
where
  "ArbiterReview maxContextBytes context_bytes route answer gid =
     (let fail = (\<lambda>m. ArbitrationFailure gid m) in
      guard_res (require (context_bytes \<le> maxContextBytes) (fail (plain ''context too large'')))
     (guard_res (map_option (\<lambda>m. fail (Msg ''model routing: %v'' [AM m])) route)
     (case answer of
        Inl m \<Rightarrow> Inl (fail (Msg ''inference: %v'' [AM m]))
      | Inr raw \<Rightarrow>
          guard_res (require (rawSize raw \<le> rwMaxResponseBytes defaultReviewWireLimits) (fail (plain ''response too large'')))
            (DecodeArbitrationResponse raw gid))))"

subsection \<open>What a decoded response can contain\<close>

fun clean_action :: "review_group_id \<Rightarrow> arbiter_action \<Rightarrow> bool" where
  "clean_action g (SupportClaim gid ob r) \<longleftrightarrow> gid = g \<and> ValidID ob \<and> length r \<le> 500"
| "clean_action g (ContestClaim gid ob r) \<longleftrightarrow> gid = g \<and> ValidID ob \<and> length r \<le> 500"
| "clean_action g (RequestEvidenceAction gid r) \<longleftrightarrow> gid = g \<and> length r \<le> 500"
| "clean_action g (RequestIndependentReview gid caps r) \<longleftrightarrow> gid = g \<and> caps \<noteq> [] \<and> length caps \<le> 16 \<and> length r \<le> 500"
| "clean_action g (RejectClaim gid r) \<longleftrightarrow> gid = g \<and> length r \<le> 500"
| "clean_action g (RecommendVerification gid r) \<longleftrightarrow> gid = g \<and> length r \<le> 500"
| "clean_action g _ \<longleftrightarrow> False"

lemma toDomainAction_clean:
  "toDomainAction gid i w defaultReviewWireLimits = Inr a \<Longrightarrow> clean_action gid a"
  by (auto simp: toDomainAction_def Let_def defaultReviewWireLimits_def split: if_splits)

lemma toDomainActions_clean:
  "toDomainActions gid i ws defaultReviewWireLimits = Inr as \<Longrightarrow> list_all (clean_action gid) as \<and> length as = length ws"
  by (induction gid i ws defaultReviewWireLimits arbitrary: as rule: toDomainActions.induct)
    (auto simp: bind_res_Inr dest: toDomainAction_clean)

text \<open>The observation an action refers to, if any.\<close>

fun named_observation :: "arbiter_action \<Rightarrow> task_id option" where
  "named_observation (SupportClaim gid ob r) = Some ob"
| "named_observation (ContestClaim gid ob r) = Some ob"
| "named_observation _ = None"

lemma clean_action_valid:
  "clean_action (gID g) a \<Longrightarrow> (case named_observation a of None \<Rightarrow> True | Some ob \<Rightarrow> ObservationByID g ob \<noteq> None) \<Longrightarrow>
     validate_action g i a = None"
  by (cases a) (auto simp: validate_action_def reviewRationale_def Let_def)

text \<open>
  Whatever an arbiter's model answers, a decoded proposal is about the requested group
  and has at most sixteen actions, each of a known type, about that group and with a bounded
  rationale. Core's validation of such an action can then only fail on an observation the group
  does not have. Otherwise the answer is an error and no action at all.
\<close>

theorem decoded_arbitration_clean:
  assumes "DecodeArbitrationResponse raw (gID g) = Inr p"
  shows "apGroupID p = gID g \<and> length (apActions p) \<le> 16 \<and> list_all (clean_action (gID g)) (apActions p) \<and>
         list_all (\<lambda>a. validate_action g i a = None \<or>
           (\<exists>ob. named_observation a = Some ob \<and> ObservationByID g ob = None)) (apActions p)"
proof -
  obtain ws where ws: "toDomainActions (gID g) 0 ws defaultReviewWireLimits = Inr (apActions p)"
    "length ws \<le> rwMaxActionsPerBatch defaultReviewWireLimits" and p: "apGroupID p = gID g"
    using assms by (auto simp: DecodeArbitrationResponse_def Let_def bind_res_Inr split: option.splits)
  note clean = toDomainActions_clean [OF ws(1)]
  have "list_all (\<lambda>a. validate_action g i a = None \<or>
      (\<exists>ob. named_observation a = Some ob \<and> ObservationByID g ob = None)) (apActions p)"
    using conjunct1 [OF clean] clean_action_valid [of g _ i] by (fastforce simp: list_all_iff split: option.splits)
  then show ?thesis using clean ws(2) p by (simp add: defaultReviewWireLimits_def)
qed

definition sample_arbitration :: raw_response where
  "sample_arbitration = \<lparr>rawSize = 120, rawValues = [JObj [(''claim_id'', JStr ''RG-1''), (''assessment'', JStr ''supported''),
     (''proposals'', JArr [JObj [(''type'', JStr ''recommend_verification''), (''group_id'', JStr ''RG-1'')]])]],
     rawTail = None\<rparr>"

lemma sample_arbitration_decoded:
  "DecodeArbitrationResponse sample_arbitration ''RG-1'' = Inr \<lparr>apGroupID = ''RG-1'', apAssessment = AssessmentSupported,
     apActions = [RecommendVerification ''RG-1'' []], apRationale = []\<rparr>"
proof -
  have d: "DetectDuplicateKeys sample_arbitration 32 = None"
    by (simp add: DetectDuplicateKeys_def raw_tokens_def sample_arbitration_def open_frame_def)
  have v: "ValidID ''RG-1''" by (simp add: ValidID_def id_char_def)
  have r: "to_wire_arbitration (hd (rawValues sample_arbitration)) = Inr \<lparr>wbClaimID = ''RG-1'', wbAssessment = ''supported'',
      wbProposals = [\<lparr>waType = ''recommend_verification'', waGroupID = ''RG-1'', waObservationID = [], waCaps = [],
        waRationale = []\<rparr>], wbRationale = []\<rparr>"
    by (simp add: sample_arbitration_def to_wire_arbitration_def to_wire_action_def find_field_def
        wire_arbitration_field_def wire_action_field_def)
  show ?thesis using d r v
    by (simp add: DecodeArbitrationResponse_def reviewDecodeStrict_def defaultReviewWireLimits_def sample_arbitration_def
        toDomainAction_def knownAssessmentHints_def Let_def)
qed

theorem decoded_arbitration_clean_witness:
  "list_all (clean_action ''RG-1'') [RecommendVerification ''RG-1'' []]"
  using decoded_arbitration_clean [of sample_arbitration "two_confirmations FindingSupported" _ 0] sample_arbitration_decoded
  by (simp add: two_confirmations_def sample_group_def)

end
