(* ===== verification/Experiment.thy ===== *)
theory Experiment
  imports ReviewState "HOL-Library.Sublist"
begin

text \<open>
  The experiment control plane (\<open>internal/performance\<close>: \<open>experiment.go\<close>,
  \<open>experiment_readiness.go\<close>, \<open>candidate_snapshot.go\<close> and the admission part of
  \<open>production_coordinator.go\<close>): the store with its budget ledger, the admission of a
  challenger, and the life of an admitted reservation. It is what the scheduler's admission
  hook calls. Times are integers, \<open>None\<close> the zero time; SHA-256 is a parameter.
\<close>

subsection \<open>Policies and candidate snapshots\<close>

record policy_descriptor =
  rpID :: string
  rpVersion :: string
  rpSemantics :: string
  rpFingerprint :: string
  rpScheme :: string

record candidate_snapshot =
  snDecisionID :: string
  snTenant :: string
  snTaskID :: task_id
  snTaskClass :: string
  snCapturedAt :: int
  snAgentIDs :: "string list"

datatype snapshot_error = ErrMissingDecisionID | ErrSnapshotTooLarge | DecisionSnapshotConflict string string

definition maxCandidatesPerSnapshot :: "int \<Rightarrow> int" where
  "maxCandidatesPerSnapshot limit = (if limit > 0 then limit else 200)"

fun unique_ids :: "string list \<Rightarrow> agent_candidate list \<Rightarrow> string list" where
  "unique_ids seen [] = []"
| "unique_ids seen ((a, cs) # rest) =
     (if a = [] \<or> a \<in> set seen then unique_ids seen rest else a # unique_ids (a # seen) rest)"

definition NewCandidateSnapshot ::
  "string \<Rightarrow> string \<Rightarrow> task_id \<Rightarrow> string \<Rightarrow> agent_candidate list \<Rightarrow> int \<Rightarrow> int \<Rightarrow> snapshot_error + candidate_snapshot"
where
  "NewCandidateSnapshot did tenant tid cls cands captured limit =
     guard_res (require (did \<noteq> []) ErrMissingDecisionID)
    (guard_res (require (int (length cands) \<le> maxCandidatesPerSnapshot limit) ErrSnapshotTooLarge)
      (Inr \<lparr>snDecisionID = did, snTenant = tenant, snTaskID = tid, snTaskClass = cls, snCapturedAt = captured,
            snAgentIDs = sort (unique_ids [] cands)\<rparr>))"

definition snapshot_contains :: "candidate_snapshot \<Rightarrow> agent_id \<Rightarrow> bool" where
  "snapshot_contains s a = list_ex (\<lambda>x. x = a) (snAgentIDs s)"

text \<open>\<open>render\<close> is the rendering of a time in RFC 3339.\<close>

definition snapshot_fingerprint :: "text_lib \<Rightarrow> (int \<Rightarrow> string) \<Rightarrow> candidate_snapshot \<Rightarrow> string" where
  "snapshot_fingerprint lib render s =
     sha256hex lib (concat (map (\<lambda>p. p @ [char_of (0 :: nat)])
       ([snTenant s, snTaskID s, snTaskClass s, render (snCapturedAt s)] @ snAgentIDs s)))"

record snapshot_store =
  ssByKey :: "string \<Rightarrow> candidate_snapshot option"
  ssByTask :: "string \<Rightarrow> string list"

definition two_part_key :: "string \<Rightarrow> string \<Rightarrow> string" where
  "two_part_key a b = a @ char_of (0 :: nat) # b"

definition decisionKey :: "string \<Rightarrow> string \<Rightarrow> string" where
  "decisionKey tenant did = two_part_key tenant did"

definition taskKey :: "string \<Rightarrow> task_id \<Rightarrow> string" where
  "taskKey tenant tid = two_part_key tenant tid"

definition SnapshotSave ::
  "text_lib \<Rightarrow> (int \<Rightarrow> string) \<Rightarrow> candidate_snapshot \<Rightarrow> snapshot_store \<Rightarrow> snapshot_store \<times> snapshot_error option"
where
  "SnapshotSave lib render sn st =
     (if snDecisionID sn = [] then (st, Some ErrMissingDecisionID)
      else
        let k = decisionKey (snTenant sn) (snDecisionID sn) in
        (case ssByKey st k of
           Some old \<Rightarrow>
             if snapshot_fingerprint lib render old \<noteq> snapshot_fingerprint lib render sn \<or> snTaskID old \<noteq> snTaskID sn
             then (st, Some (DecisionSnapshotConflict (snTenant sn) (snDecisionID sn))) else (st, None)
         | None \<Rightarrow>
             let tk = taskKey (snTenant sn) (snTaskID sn) in
             (st\<lparr>ssByKey := (ssByKey st)(k \<mapsto> sn), ssByTask := (ssByTask st)(tk := ssByTask st tk @ [k])\<rparr>, None)))"

definition SnapshotGet :: "string \<Rightarrow> string \<Rightarrow> snapshot_store \<Rightarrow> candidate_snapshot option" where
  "SnapshotGet tenant did st = ssByKey st (decisionKey tenant did)"

definition ListByTaskID :: "string \<Rightarrow> task_id \<Rightarrow> snapshot_store \<Rightarrow> candidate_snapshot list" where
  "ListByTaskID tenant tid st = List.map_filter (ssByKey st) (ssByTask st (taskKey tenant tid))"

subsection \<open>Experiments\<close>

datatype experiment_state =
    ExperimentDraft | ExperimentEnabled | ExperimentPaused | ExperimentStopped | ExperimentExhausted
  | ExperimentCompleted | ExperimentKilled

record experiment_definition =
  xdID :: string
  xdTenant :: string
  xdTaskClass :: string
  xdRisk :: string
  xdChampionPolicy :: policy_descriptor
  xdChallengerPolicy :: policy_descriptor
  xdChallenger :: agent_id
  xdMaxExecutions :: int
  xdMaxConcurrent :: int
  xdPercent :: int
  xdSemantics :: string
  xdStopAfter :: int
  xdMaxFailures :: int
  xdCreatedAt :: int

record experiment_data =
  xpDef :: experiment_definition
  xpState :: experiment_state
  xpExecuted :: int
  xpReserved :: int
  xpConsumed :: int
  xpReleased :: int
  xpUpdatedAt :: int
  xpEligible :: int
  xpChampionRouted :: int
  xpCompleted :: int
  xpFailed :: int
  xpTimedOut :: int
  xpVerified :: int
  xpRejected :: int
  xpContested :: int
  xpMissing :: int
  xpTotalFailures :: int

definition AllocationSemanticsV1 :: string where
  "AllocationSemanticsV1 = ''hash-v1''"

definition ValidateDefinition :: "experiment_definition \<Rightarrow> msg option" where
  "ValidateDefinition d =
     err_then (require (xdID d \<noteq> [] \<and> xdTenant d \<noteq> [] \<and> xdChallenger d \<noteq> [])
       (plain ''experiment requires id, tenant, challenger''))
    (err_then (require (0 \<le> xdPercent d \<and> xdPercent d \<le> 100) (plain ''allocation percent out of range''))
      (require (xdSemantics d = [] \<or> xdSemantics d = AllocationSemanticsV1) (plain ''unsupported allocation semantics'')))"

datatype eligibility_reason =
    EligibilityEligible | EligibilityDisabled | EligibilityWrongTenant | EligibilityTaskClassNotAllowed
  | EligibilityRiskNotAllowed | EligibilityMissingDecisionContext | EligibilityMissingEvaluationContext
  | EligibilityNonCanonicalPolicy | EligibilityCandidateNotInSnapshot | EligibilityBudgetExhausted
  | EligibilityConcurrencyLimit | EligibilityExperimentPaused | EligibilityExperimentStopped
  | EligibilityExperimentKilled | EligibilityLiveRevalidationFailed | EligibilityControlPlaneUnavailable

record admission =
  xaExperimentID :: string
  xaDecisionID :: string
  xaSelected :: agent_id
  xaChallenger :: bool
  xaReservation :: string
  xaReason :: string
  xaReasonCode :: "eligibility_reason option"
  xaCreatedAt :: "int option"

record experiment_audit =
  xuExperimentID :: string
  xuDecisionID :: string
  xuEvent :: string
  xuReason :: string
  xuAt :: int

datatype experiment_error = ErrExperimentNotFound | ErrExperimentNotAdmissible | ErrExperimentConflict

record experiment_store =
  xsExperiments :: "string \<Rightarrow> experiment_data option"
  xsReservations :: "string set"
  xsAdmissions :: "string \<Rightarrow> admission option"
  xsAudit :: "experiment_audit list"

definition NewMemoryExperimentStore :: experiment_store where
  "NewMemoryExperimentStore =
     \<lparr>xsExperiments = Map.empty, xsReservations = {}, xsAdmissions = Map.empty, xsAudit = []\<rparr>"

definition admissionKey :: "string \<Rightarrow> string \<Rightarrow> string" where
  "admissionKey i did = two_part_key i did"

definition set_experiment :: "experiment_data \<Rightarrow> experiment_store \<Rightarrow> experiment_store" where
  "set_experiment e s = s\<lparr>xsExperiments := (xsExperiments s)(xdID (xpDef e) \<mapsto> e)\<rparr>"

definition CreateExperiment :: "experiment_data \<Rightarrow> experiment_store \<Rightarrow> experiment_store \<times> experiment_error option" where
  "CreateExperiment e s =
     (if xsExperiments s (xdID (xpDef e)) \<noteq> None then (s, Some ErrExperimentConflict) else (set_experiment e s, None))"

definition GetExperiment :: "string \<Rightarrow> experiment_store \<Rightarrow> experiment_error + experiment_data" where
  "GetExperiment i s = (case xsExperiments s i of None \<Rightarrow> Inl ErrExperimentNotFound | Some e \<Rightarrow> Inr e)"

definition SaveExperiment :: "experiment_data \<Rightarrow> experiment_store \<Rightarrow> experiment_store \<times> experiment_error option" where
  "SaveExperiment e s =
     (if xsExperiments s (xdID (xpDef e)) = None then (s, Some ErrExperimentNotFound) else (set_experiment e s, None))"

text \<open>The store writes an experiment back under the identifier it was read with.\<close>

definition write_back :: "string \<Rightarrow> experiment_data \<Rightarrow> experiment_store \<Rightarrow> experiment_store" where
  "write_back i e s = s\<lparr>xsExperiments := (xsExperiments s)(i \<mapsto> e)\<rparr>"

definition budget_closed :: "experiment_data \<Rightarrow> bool" where
  "budget_closed e \<longleftrightarrow>
     xpState e \<noteq> ExperimentEnabled \<or>
     xdMaxExecutions (xpDef e) > 0 \<and> xpReserved e \<ge> xdMaxExecutions (xpDef e) \<or>
     xdMaxConcurrent (xpDef e) > 0 \<and> xpReserved e - xpConsumed e \<ge> xdMaxConcurrent (xpDef e)"

definition ReserveBudget :: "string \<Rightarrow> string \<Rightarrow> int \<Rightarrow> experiment_store \<Rightarrow> experiment_store \<times> (experiment_error + bool)" where
  "ReserveBudget i did now s =
     (case xsExperiments s i of
        None \<Rightarrow> (s, Inl ErrExperimentNotFound)
      | Some e \<Rightarrow>
          if admissionKey i did \<in> xsReservations s then (s, Inr True)
          else if budget_closed e then (s, Inr False)
          else ((write_back i (e\<lparr>xpReserved := xpReserved e + 1, xpUpdatedAt := now\<rparr>) s)
                  \<lparr>xsReservations := insert (admissionKey i did) (xsReservations s)\<rparr>, Inr True))"

definition ReleaseBudget :: "string \<Rightarrow> string \<Rightarrow> int \<Rightarrow> experiment_store \<Rightarrow> experiment_store \<times> experiment_error option" where
  "ReleaseBudget i did now s =
     (case xsExperiments s i of
        None \<Rightarrow> (s, Some ErrExperimentNotFound)
      | Some e \<Rightarrow>
          if admissionKey i did \<in> xsReservations s
          then ((write_back i (e\<lparr>xpReserved := xpReserved e - 1, xpReleased := xpReleased e + 1, xpUpdatedAt := now\<rparr>) s)
                  \<lparr>xsReservations := xsReservations s - {admissionKey i did}\<rparr>, None)
          else (s, None))"

definition ConsumeBudget :: "string \<Rightarrow> string \<Rightarrow> int \<Rightarrow> experiment_store \<Rightarrow> experiment_store \<times> experiment_error option" where
  "ConsumeBudget i did now s =
     (case xsExperiments s i of
        None \<Rightarrow> (s, Some ErrExperimentNotFound)
      | Some e \<Rightarrow>
          if admissionKey i did \<notin> xsReservations s then (s, Some ErrExperimentConflict)
          else
            let d = xpDef e; c = xpConsumed e + 1;
                e' = e\<lparr>xpConsumed := c, xpExecuted := xpExecuted e + 1, xpUpdatedAt := now\<rparr>;
                spent = xdMaxExecutions d > 0 \<and> c \<ge> xdMaxExecutions d \<or> xdStopAfter d > 0 \<and> c \<ge> xdStopAfter d in
            ((write_back i (if spent then e'\<lparr>xpState := ExperimentExhausted\<rparr> else e') s)
               \<lparr>xsReservations := xsReservations s - {admissionKey i did}\<rparr>, None))"

definition SaveAdmission :: "admission \<Rightarrow> experiment_store \<Rightarrow> experiment_store \<times> experiment_error option" where
  "SaveAdmission a s =
     (let k = admissionKey (xaExperimentID a) (xaDecisionID a) in
      case xsAdmissions s k of
        Some old \<Rightarrow> if old \<noteq> a then (s, Some ErrExperimentConflict) else (s, None)
      | None \<Rightarrow> (s\<lparr>xsAdmissions := (xsAdmissions s)(k \<mapsto> a)\<rparr>, None))"

definition GetAdmission :: "string \<Rightarrow> string \<Rightarrow> experiment_store \<Rightarrow> experiment_error + admission" where
  "GetAdmission i did s =
     (case xsAdmissions s (admissionKey i did) of None \<Rightarrow> Inl ErrExperimentNotFound | Some a \<Rightarrow> Inr a)"

definition AuditExperiment :: "experiment_audit \<Rightarrow> experiment_store \<Rightarrow> experiment_store" where
  "AuditExperiment u s = s\<lparr>xsAudit := xsAudit s @ [u]\<rparr>"

definition UpdateSummary ::
  "string \<Rightarrow> (experiment_data \<Rightarrow> experiment_data) \<Rightarrow> experiment_store \<Rightarrow> experiment_store \<times> experiment_error option"
where
  "UpdateSummary i f s =
     (case xsExperiments s i of
        None \<Rightarrow> (s, Some ErrExperimentNotFound)
      | Some e \<Rightarrow> (write_back i (f e) s, None))"

subsection \<open>Summary counters\<close>

datatype execution_outcome =
    ExecutionCompleted | ExecutionFailed | ExecutionTimedOut | ExecutionPolicyRejected
  | ExecutionAuthorizationRejected | ExecutionBlocked | ExecutionCancelled | ExecutionPartiallyCompleted

datatype quality_outcome =
    QualityUnreviewed | QualityUnconfirmed | QualitySupported | QualityContested | QualityNeedsEvidence
  | QualityVerified | QualityRejected

datatype counter_update =
    CountChampionRouted | CountEligible | CountMissing | CountExecution execution_outcome | CountQuality quality_outcome

definition count_execution :: "execution_outcome \<Rightarrow> experiment_data \<Rightarrow> experiment_data" where
  "count_execution out e =
     (let e = (if xpMissing e > 0 then e\<lparr>xpMissing := xpMissing e - 1\<rparr> else e);
          e = (case out of
                 ExecutionCompleted \<Rightarrow> e\<lparr>xpCompleted := xpCompleted e + 1\<rparr>
               | ExecutionTimedOut \<Rightarrow> e\<lparr>xpTimedOut := xpTimedOut e + 1\<rparr>
               | _ \<Rightarrow> e\<lparr>xpFailed := xpFailed e + 1, xpTotalFailures := xpTotalFailures e + 1\<rparr>) in
      if xdMaxFailures (xpDef e) > 0 \<and> xpTotalFailures e \<ge> xdMaxFailures (xpDef e) \<and> xpState e = ExperimentEnabled
      then e\<lparr>xpState := ExperimentStopped\<rparr> else e)"

fun apply_count :: "counter_update \<Rightarrow> experiment_data \<Rightarrow> experiment_data" where
  "apply_count CountChampionRouted e = e\<lparr>xpChampionRouted := xpChampionRouted e + 1\<rparr>"
| "apply_count CountEligible e = e\<lparr>xpEligible := xpEligible e + 1\<rparr>"
| "apply_count CountMissing e = e\<lparr>xpMissing := xpMissing e + 1\<rparr>"
| "apply_count (CountExecution out) e = count_execution out e"
| "apply_count (CountQuality q) e =
     (case q of
        QualityVerified \<Rightarrow> e\<lparr>xpVerified := xpVerified e + 1\<rparr>
      | QualityRejected \<Rightarrow> e\<lparr>xpRejected := xpRejected e + 1\<rparr>
      | QualityContested \<Rightarrow> e\<lparr>xpContested := xpContested e + 1\<rparr>
      | _ \<Rightarrow> e)"

definition mutateCounters :: "string \<Rightarrow> int \<Rightarrow> counter_update \<Rightarrow> experiment_store \<Rightarrow> experiment_store" where
  "mutateCounters i now c s = fst (UpdateSummary i (\<lambda>e. (apply_count c e)\<lparr>xpUpdatedAt := now\<rparr>) s)"

subsection \<open>Readiness of a decision\<close>

datatype readiness_error =
    ContextNotReady string string
  | PolicyNotExperimentEligible policy_descriptor
  | ReadinessStoreError msg

definition FingerprintSchemeCanonicalV2 :: string where
  "FingerprintSchemeCanonicalV2 = ''canonical-v2''"

definition ValidateExperimentPolicyIdentity :: "policy_descriptor \<Rightarrow> readiness_error option" where
  "ValidateExperimentPolicyIdentity d =
     require (rpScheme d = FingerprintSchemeCanonicalV2) (PolicyNotExperimentEligible d)"

text \<open>
  \<open>quote\<close> is the quoting of \<open>%q\<close>; \<open>evaluated\<close> are the decisions with an evaluation record of the
  tenant, or the error of the query.
\<close>

definition ValidateExperimentContext ::
  "(string \<Rightarrow> string) \<Rightarrow> snapshot_store \<Rightarrow> (string \<Rightarrow> msg + string list) \<Rightarrow> string \<Rightarrow> string \<Rightarrow> policy_descriptor \<Rightarrow>
     agent_id \<Rightarrow> readiness_error option"
where
  "ValidateExperimentContext quote snaps evaluated tenant did policy challenger =
     (let fail = ContextNotReady did in
      if did = [] then Some (fail ''no DecisionID supplied'')
      else (case SnapshotGet tenant did snaps of
         None \<Rightarrow> Some (fail ''no decision-scoped CandidateSnapshot exists'')
       | Some sn \<Rightarrow>
           err_then (require (snDecisionID sn = did) (fail ''snapshot does not belong to the requested decision''))
          (err_then (ValidateExperimentPolicyIdentity policy)
          (err_then (require (challenger = [] \<or> snapshot_contains sn challenger)
             (fail (''challenger agent '' @ quote challenger @ '' is not in this decision'' @ [CHR 0x27] @ ''s CandidateSnapshot'')))
             (case evaluated tenant of
                Inl m \<Rightarrow> Some (ReadinessStoreError m)
              | Inr ids \<Rightarrow>
                  require (did \<in> set ids) (fail ''no evaluation context was captured for this decision''))))))"

definition ClassifyReadinessError :: "readiness_error option \<Rightarrow> eligibility_reason" where
  "ClassifyReadinessError err =
     (case err of
        None \<Rightarrow> EligibilityEligible
      | Some (ContextNotReady did reason) \<Rightarrow>
          if sublist ''no DecisionID'' reason then EligibilityMissingDecisionContext
          else if sublist ''CandidateSnapshot exists'' reason \<or> sublist ''snapshot does not belong'' reason
          then EligibilityMissingDecisionContext
          else if sublist (''not in this decision'' @ [CHR 0x27] @ ''s CandidateSnapshot'') reason
          then EligibilityCandidateNotInSnapshot
          else if sublist ''evaluation context'' reason then EligibilityMissingEvaluationContext
          else EligibilityControlPlaneUnavailable
      | Some (PolicyNotExperimentEligible d) \<Rightarrow> EligibilityNonCanonicalPolicy
      | Some (ReadinessStoreError m) \<Rightarrow> EligibilityControlPlaneUnavailable)"

subsection \<open>Admission\<close>

record admission_request =
  rqExperimentID :: string
  rqDecisionID :: string
  rqTenant :: string
  rqTask :: task
  rqSnapshot :: candidate_snapshot
  rqChampion :: agent_id
  rqChallenger :: agent_id
  rqPolicy :: policy_descriptor
  rqRisk :: string
  rqNow :: int

text \<open>\<open>hash\<close> is SHA-256: the bytes of the digest.\<close>

definition AllocationBucket :: "(string \<Rightarrow> char list) \<Rightarrow> string \<Rightarrow> string \<Rightarrow> int" where
  "AllocationBucket hash i did =
     (let h = hash (i @ ''|'' @ did @ ''|'' @ AllocationSemanticsV1) in
      (of_char (h ! 0) * 256 + of_char (h ! 1)) mod 100)"

definition reason_string :: "eligibility_reason \<Rightarrow> string" where
  "reason_string r =
     (case r of
        EligibilityEligible \<Rightarrow> ''eligible''
      | EligibilityDisabled \<Rightarrow> ''disabled''
      | EligibilityWrongTenant \<Rightarrow> ''wrong_tenant''
      | EligibilityTaskClassNotAllowed \<Rightarrow> ''task_class_not_allowed''
      | EligibilityRiskNotAllowed \<Rightarrow> ''risk_not_allowed''
      | EligibilityMissingDecisionContext \<Rightarrow> ''missing_decision_context''
      | EligibilityMissingEvaluationContext \<Rightarrow> ''missing_evaluation_context''
      | EligibilityNonCanonicalPolicy \<Rightarrow> ''non_canonical_policy''
      | EligibilityCandidateNotInSnapshot \<Rightarrow> ''candidate_not_in_snapshot''
      | EligibilityBudgetExhausted \<Rightarrow> ''budget_exhausted''
      | EligibilityConcurrencyLimit \<Rightarrow> ''concurrency_limit''
      | EligibilityExperimentPaused \<Rightarrow> ''experiment_paused''
      | EligibilityExperimentStopped \<Rightarrow> ''experiment_stopped''
      | EligibilityExperimentKilled \<Rightarrow> ''experiment_killed''
      | EligibilityLiveRevalidationFailed \<Rightarrow> ''live_revalidation_failed''
      | EligibilityControlPlaneUnavailable \<Rightarrow> ''control_plane_unavailable'')"

definition champion_only :: "string \<Rightarrow> string \<Rightarrow> agent_id \<Rightarrow> string \<Rightarrow> eligibility_reason \<Rightarrow> admission" where
  "champion_only i did champion reason code =
     \<lparr>xaExperimentID = i, xaDecisionID = did, xaSelected = champion, xaChallenger = False, xaReservation = [],
      xaReason = reason, xaReasonCode = Some code, xaCreatedAt = None\<rparr>"

definition audit_event :: "admission_request \<Rightarrow> string \<Rightarrow> string \<Rightarrow> experiment_store \<Rightarrow> experiment_store" where
  "audit_event r event reason s =
     AuditExperiment \<lparr>xuExperimentID = rqExperimentID r, xuDecisionID = rqDecisionID r, xuEvent = event,
                      xuReason = reason, xuAt = rqNow r\<rparr> s"

type_synonym admit_result = "experiment_store \<times> admission \<times> experiment_error option"

definition deny :: "admission_request \<Rightarrow> eligibility_reason \<Rightarrow> experiment_store \<Rightarrow> admit_result" where
  "deny r code s =
     (mutateCounters (rqExperimentID r) (rqNow r) CountChampionRouted
        (audit_event r ''admission_denied'' (reason_string code) s),
      champion_only (rqExperimentID r) (rqDecisionID r) (rqChampion r) (reason_string code) code, None)"

definition state_gate :: "experiment_state \<Rightarrow> eligibility_reason option" where
  "state_gate st =
     (case st of
        ExperimentEnabled \<Rightarrow> None
      | ExperimentPaused \<Rightarrow> Some EligibilityExperimentPaused
      | ExperimentStopped \<Rightarrow> Some EligibilityExperimentStopped
      | ExperimentCompleted \<Rightarrow> Some EligibilityExperimentStopped
      | ExperimentKilled \<Rightarrow> Some EligibilityExperimentKilled
      | ExperimentExhausted \<Rightarrow> Some EligibilityBudgetExhausted
      | ExperimentDraft \<Rightarrow> Some EligibilityDisabled)"

text \<open>The gates before allocation, in the code's order.\<close>

definition admission_gates :: "experiment_data \<Rightarrow> admission_request \<Rightarrow> eligibility_reason option" where
  "admission_gates e r =
     (let d = xpDef e in
      err_then (state_gate (xpState e))
     (err_then (require (rqTenant r \<noteq> [] \<and> rqTenant r = xdTenant d \<and> tTenant (rqTask r) = xdTenant d) EligibilityWrongTenant)
     (err_then (require (xdTaskClass d = [] \<or> tType (rqTask r) = xdTaskClass d) EligibilityTaskClassNotAllowed)
     (err_then (require (xdRisk d = [] \<or> rqRisk r = xdRisk d) EligibilityRiskNotAllowed)
     (err_then (require (rqDecisionID r \<noteq> [] \<and> snDecisionID (rqSnapshot r) = rqDecisionID r) EligibilityMissingDecisionContext)
     (err_then (require (ValidateExperimentPolicyIdentity (rqPolicy r) = None) EligibilityNonCanonicalPolicy)
       (require (rqChallenger r \<noteq> [] \<and> snapshot_contains (rqSnapshot r) (rqChallenger r))
         EligibilityCandidateNotInSnapshot)))))))"

definition budget_code :: "experiment_data \<Rightarrow> eligibility_reason" where
  "budget_code e =
     (let d = xpDef e in
      if xdMaxConcurrent d > 0 \<and> xpReserved e - xpConsumed e \<ge> xdMaxConcurrent d \<and>
         \<not> (xdMaxExecutions d > 0 \<and> xpReserved e \<ge> xdMaxExecutions d)
      then EligibilityConcurrencyLimit else EligibilityBudgetExhausted)"

definition challenger_admission :: "admission_request \<Rightarrow> admission" where
  "challenger_admission r =
     \<lparr>xaExperimentID = rqExperimentID r, xaDecisionID = rqDecisionID r, xaSelected = rqChallenger r,
      xaChallenger = True, xaReservation = admissionKey (rqExperimentID r) (rqDecisionID r), xaReason = ''admitted'',
      xaReasonCode = Some EligibilityEligible, xaCreatedAt = Some (rqNow r)\<rparr>"

text \<open>What happens once the gates are passed: allocation, then the budget.\<close>

definition allocate :: "(string \<Rightarrow> char list) \<Rightarrow> experiment_data \<Rightarrow> admission_request \<Rightarrow> experiment_store \<Rightarrow> admit_result" where
  "allocate hash e r s =
     (let i = rqExperimentID r; did = rqDecisionID r; now = rqNow r;
          s1 = mutateCounters i now CountEligible s in
      if AllocationBucket hash i did \<ge> xdPercent (xpDef e)
      then (mutateCounters i now CountChampionRouted (audit_event r ''allocation_excluded'' (reason_string EligibilityEligible) s1),
            champion_only i did (rqChampion r) ''allocation did not select challenger'' EligibilityEligible, None)
      else
        (case ReserveBudget i did now s1 of
           (s2, Inl err) \<Rightarrow> deny r (budget_code e) s2
         | (s2, Inr False) \<Rightarrow> deny r (budget_code e) s2
         | (s2, Inr True) \<Rightarrow>
             (case SaveAdmission (challenger_admission r) s2 of
                (s3, Some err) \<Rightarrow>
                  (fst (ReleaseBudget i did now s3),
                   champion_only [] [] (rqChampion r) (reason_string EligibilityControlPlaneUnavailable)
                     EligibilityControlPlaneUnavailable, Some err)
              | (s3, None) \<Rightarrow>
                  (mutateCounters i now CountMissing
                     (audit_event r ''admitted'' ''challenger selected after Core gates'' s3),
                   challenger_admission r, None))))"

definition Admit :: "(string \<Rightarrow> char list) \<Rightarrow> admission_request \<Rightarrow> experiment_store \<Rightarrow> admit_result" where
  "Admit hash r s =
     (case GetExperiment (rqExperimentID r) s of
        Inl err \<Rightarrow>
          (s, champion_only [] [] (rqChampion r) (reason_string EligibilityControlPlaneUnavailable)
                EligibilityControlPlaneUnavailable, Some err)
      | Inr e \<Rightarrow>
          (case admission_gates e r of Some code \<Rightarrow> deny r code s | None \<Rightarrow> allocate hash e r s))"

subsection \<open>Outcomes\<close>

definition RecordChallengerExecutionOutcome ::
  "string \<Rightarrow> execution_outcome \<Rightarrow> string \<Rightarrow> int \<Rightarrow> experiment_store \<Rightarrow> experiment_store"
where
  "RecordChallengerExecutionOutcome i out name now s =
     (let s1 = mutateCounters i now (CountExecution out) s in
      if out \<noteq> ExecutionCompleted \<and> out \<noteq> ExecutionTimedOut
      then AuditExperiment \<lparr>xuExperimentID = i, xuDecisionID = [], xuEvent = ''challenger_execution_failed'',
             xuReason = name, xuAt = now\<rparr> s1
      else s1)"

definition RecordChallengerReviewOutcome ::
  "string \<Rightarrow> quality_outcome \<Rightarrow> int \<Rightarrow> experiment_store \<Rightarrow> experiment_store"
where
  "RecordChallengerReviewOutcome i q now s =
     (if q \<in> {QualityVerified, QualityRejected, QualityContested} then mutateCounters i now (CountQuality q) s else s)"

definition CompleteAdmission :: "admission \<Rightarrow> int \<Rightarrow> experiment_store \<Rightarrow> experiment_store \<times> experiment_error option" where
  "CompleteAdmission a now s =
     (if \<not> xaChallenger a then (s, None) else ConsumeBudget (xaExperimentID a) (xaDecisionID a) now s)"

definition CancelAdmission :: "admission \<Rightarrow> int \<Rightarrow> experiment_store \<Rightarrow> experiment_store \<times> experiment_error option" where
  "CancelAdmission a now s =
     (if \<not> xaChallenger a then (s, None) else ReleaseBudget (xaExperimentID a) (xaDecisionID a) now s)"

text \<open>The rollup of an experiment.\<close>

record experiment_summary =
  smExperimentID :: string
  smEligible :: int
  smChampion :: int
  smChallenger :: int
  smReserved :: int
  smConsumed :: int
  smCompleted :: int
  smFailed :: int
  smTimedOut :: int
  smVerified :: int
  smRejected :: int
  smContested :: int
  smMissing :: int
  smStatus :: experiment_state

definition Summary :: "string \<Rightarrow> experiment_store \<Rightarrow> experiment_error + experiment_summary" where
  "Summary i s =
     bind_res (GetExperiment i s) (\<lambda>e. Inr
       \<lparr>smExperimentID = i, smEligible = xpEligible e, smChampion = xpChampionRouted e, smChallenger = xpConsumed e,
        smReserved = xpReserved e, smConsumed = xpConsumed e, smCompleted = xpCompleted e, smFailed = xpFailed e,
        smTimedOut = xpTimedOut e, smVerified = xpVerified e, smRejected = xpRejected e, smContested = xpContested e,
        smMissing = xpMissing e, smStatus = xpState e\<rparr>)"

subsection \<open>The budget ledger\<close>

lemma key_inject [simp]: "admissionKey i d = admissionKey i d' \<longleftrightarrow> d = d'"
  by (simp add: admissionKey_def two_part_key_def)

lemma key_separates: "nul_free i \<Longrightarrow> nul_free j \<Longrightarrow> admissionKey i d = admissionKey j d' \<longleftrightarrow> i = j \<and> d = d'"
  unfolding admissionKey_def two_part_key_def using terminated_inject by blast

definition live :: "string \<Rightarrow> string set \<Rightarrow> string set" where
  "live i R = {d. admissionKey i d \<in> R}"

lemma live_insert: "live i (insert (admissionKey i d) R) = insert d (live i R)"
  by (auto simp: live_def)

lemma live_remove: "live i (R - {admissionKey i d}) = live i R - {d}"
  by (auto simp: live_def)

lemma live_other:
  "nul_free i \<Longrightarrow> nul_free j \<Longrightarrow> i \<noteq> j \<Longrightarrow> live j (insert (admissionKey i d) R) = live j R"
  "nul_free i \<Longrightarrow> nul_free j \<Longrightarrow> i \<noteq> j \<Longrightarrow> live j (R - {admissionKey i d}) = live j R"
  by (auto simp: live_def key_separates)

lemma finite_live: "finite R \<Longrightarrow> finite (live i R)"
  unfolding live_def by (rule finite_imageD [of "admissionKey i"]) (auto intro: finite_subset inj_onI)

text \<open>The counts of an experiment with \<open>n\<close> live reservations.\<close>

definition account_ok :: "nat \<Rightarrow> experiment_data \<Rightarrow> bool" where
  "account_ok n e \<longleftrightarrow>
     xpReserved e = xpConsumed e + int n \<and> 0 \<le> xpConsumed e \<and> xpExecuted e = xpConsumed e \<and> 0 \<le> xpReleased e \<and>
     within_limit (xdMaxExecutions (xpDef e)) (xpReserved e) \<and> within_limit (xdMaxConcurrent (xpDef e)) (int n)"

definition ledger :: "experiment_store \<Rightarrow> bool" where
  "ledger s \<longleftrightarrow> finite (xsReservations s) \<and>
     (\<forall>i e. xsExperiments s i = Some e \<longrightarrow> nul_free i \<and> account_ok (card (live i (xsReservations s))) e) \<and>
     (\<forall>k \<in> xsReservations s. \<exists>i d. k = admissionKey i d \<and> xsExperiments s i \<noteq> None)"

lemma ledger_empty [simp]: "ledger NewMemoryExperimentStore"
  by (simp add: ledger_def NewMemoryExperimentStore_def)

lemma ledgerD: "ledger s \<Longrightarrow> xsExperiments s i = Some e \<Longrightarrow> account_ok (card (live i (xsReservations s))) e"
  by (simp add: ledger_def)

lemma ledger_update:
  assumes l: "ledger s" and e: "xsExperiments s i = Some e"
    and R: "R = insert (admissionKey i d) (xsReservations s) \<or> R = xsReservations s - {admissionKey i d} \<or> R = xsReservations s"
    and ok: "account_ok (card (live i R)) e'"
  shows "ledger ((write_back i e' s)\<lparr>xsReservations := R\<rparr>)"
proof -
  have other: "live j R = live j (xsReservations s)" if "j \<noteq> i" "xsExperiments s j = Some x" for j x
    using that l e R live_other [where i = i and j = j and d = d] by (auto simp: ledger_def)
  let ?s = "(write_back i e' s)\<lparr>xsReservations := R\<rparr>"
  have "account_ok (card (live j R)) x \<and> nul_free j" if "xsExperiments ?s j = Some x" for j x
    using that l e ok other [of j x] by (cases "j = i") (auto simp: write_back_def ledger_def)
  moreover have "\<exists>j c. k = admissionKey j c \<and> xsExperiments ?s j \<noteq> None" if "k \<in> R" for k
  proof -
    from that R l obtain j c where "k = admissionKey j c" "j = i \<or> xsExperiments s j \<noteq> None"
      unfolding ledger_def by blast
    then show ?thesis by (intro exI [of _ j] exI [of _ c]) (auto simp: write_back_def)
  qed
  moreover have "finite R" using R l by (auto simp: ledger_def)
  ultimately show ?thesis unfolding ledger_def by simp
qed

lemma ledger_frame:
  "ledger s \<Longrightarrow> ledger (s\<lparr>xsAdmissions := A\<rparr>)" "ledger s \<Longrightarrow> ledger (s\<lparr>xsAudit := U\<rparr>)"
  by (simp_all add: ledger_def)

lemma ledger_SaveAdmission: "ledger s \<Longrightarrow> ledger (fst (SaveAdmission a s))"
  by (auto simp: SaveAdmission_def Let_def ledger_frame split: option.splits)

lemma ledger_Reserve: "ledger s \<Longrightarrow> ledger (fst (ReserveBudget i d now s))"
proof -
  assume l: "ledger s"
  show ?thesis
  proof (cases "xsExperiments s i")
    case (Some e)
    show ?thesis
    proof (cases "admissionKey i d \<in> xsReservations s \<or> budget_closed e")
      case False
      then have new: "d \<notin> live i (xsReservations s)" by (simp add: live_def)
      have "finite (live i (xsReservations s))" using l by (simp add: ledger_def finite_live)
      then have "account_ok (card (live i (insert (admissionKey i d) (xsReservations s))))
          (e\<lparr>xpReserved := xpReserved e + 1, xpUpdatedAt := now\<rparr>)"
        using ledgerD [OF l Some] new False
        by (auto simp: account_ok_def live_insert budget_closed_def within_limit_def)
      from ledger_update [where d = d, OF l Some _ this] False Some show ?thesis by (simp add: ReserveBudget_def)
    qed (use l Some in \<open>auto simp: ReserveBudget_def\<close>)
  qed (use l in \<open>simp add: ReserveBudget_def\<close>)
qed

lemma ledger_Release: "ledger s \<Longrightarrow> ledger (fst (ReleaseBudget i d now s))"
proof -
  assume l: "ledger s"
  show ?thesis
  proof (cases "\<exists>e. xsExperiments s i = Some e \<and> admissionKey i d \<in> xsReservations s")
    case True
    then obtain e where e: "xsExperiments s i = Some e" and k: "admissionKey i d \<in> xsReservations s" by blast
    have fin: "finite (live i (xsReservations s))" using l by (simp add: ledger_def finite_live)
    have "d \<in> live i (xsReservations s)" using k by (simp add: live_def)
    then have "0 < card (live i (xsReservations s))" using fin by (auto simp: card_gt_0_iff)
    then have "account_ok (card (live i (xsReservations s - {admissionKey i d})))
        (e\<lparr>xpReserved := xpReserved e - 1, xpReleased := xpReleased e + 1, xpUpdatedAt := now\<rparr>)"
      using ledgerD [OF l e] fin \<open>d \<in> live i (xsReservations s)\<close>
      by (auto simp: account_ok_def live_remove within_limit_def of_nat_diff)
    from ledger_update [where d = d, OF l e _ this] e k show ?thesis by (simp add: ReleaseBudget_def)
  qed (use l in \<open>auto simp: ReleaseBudget_def split: option.splits\<close>)
qed

lemma ledger_Consume: "ledger s \<Longrightarrow> ledger (fst (ConsumeBudget i d now s))"
proof -
  assume l: "ledger s"
  show ?thesis
  proof (cases "\<exists>e. xsExperiments s i = Some e \<and> admissionKey i d \<in> xsReservations s")
    case True
    then obtain e where e: "xsExperiments s i = Some e" and k: "admissionKey i d \<in> xsReservations s" by blast
    have fin: "finite (live i (xsReservations s))" using l by (simp add: ledger_def finite_live)
    have d: "d \<in> live i (xsReservations s)" using k by (simp add: live_def)
    then have "0 < card (live i (xsReservations s))" using fin by (auto simp: card_gt_0_iff)
    let ?e = "e\<lparr>xpConsumed := xpConsumed e + 1, xpExecuted := xpExecuted e + 1, xpUpdatedAt := now\<rparr>"
    let ?n = "card (live i (xsReservations s - {admissionKey i d}))"
    have "account_ok ?n ?e" "account_ok ?n (?e\<lparr>xpState := ExperimentExhausted\<rparr>)"
      using ledgerD [OF l e] fin d \<open>0 < card (live i (xsReservations s))\<close>
      by (auto simp: account_ok_def live_remove within_limit_def of_nat_diff)
    note this [THEN ledger_update [where d = d, OF l e, rotated]]
    with e k show ?thesis by (simp add: ConsumeBudget_def Let_def)
  qed (use l in \<open>auto simp: ConsumeBudget_def split: option.splits\<close>)
qed

lemma apply_count_frame:
  "xpDef (apply_count c e) = xpDef e" "xpReserved (apply_count c e) = xpReserved e"
  "xpConsumed (apply_count c e) = xpConsumed e" "xpExecuted (apply_count c e) = xpExecuted e"
  "xpReleased (apply_count c e) = xpReleased e"
  "xpState (apply_count c e) = xpState e \<or> xpState (apply_count c e) = ExperimentStopped"
  by (cases c; auto simp: count_execution_def Let_def split: execution_outcome.splits quality_outcome.splits)+

lemma account_ok_count: "account_ok n ((apply_count c e)\<lparr>xpUpdatedAt := now\<rparr>) \<longleftrightarrow> account_ok n e"
  by (simp add: account_ok_def apply_count_frame)

lemma ledger_Count: "ledger s \<Longrightarrow> ledger (mutateCounters i now c s)"
proof -
  assume l: "ledger s"
  show ?thesis
  proof (cases "xsExperiments s i")
    case (Some e)
    have "account_ok (card (live i (xsReservations s))) ((apply_count c e)\<lparr>xpUpdatedAt := now\<rparr>)"
      by (simp add: account_ok_count ledgerD [OF l Some])
    from ledger_update [OF l Some _ this] Some show ?thesis
      by (simp add: mutateCounters_def UpdateSummary_def write_back_def)
  qed (use l in \<open>simp add: mutateCounters_def UpdateSummary_def\<close>)
qed

definition new_experiment :: "experiment_data \<Rightarrow> bool" where
  "new_experiment e \<longleftrightarrow>
     nul_free (xdID (xpDef e)) \<and> xpReserved e = 0 \<and> xpConsumed e = 0 \<and> xpExecuted e = 0 \<and> xpReleased e = 0"

lemma ledger_Create: "ledger s \<Longrightarrow> new_experiment e \<Longrightarrow> ledger (fst (CreateExperiment e s))"
proof -
  assume l: "ledger s" and n: "new_experiment e"
  show ?thesis
  proof (cases "xsExperiments s (xdID (xpDef e))")
    case None
    let ?i = "xdID (xpDef e)"
    have none: "live ?i (xsReservations s) = {}"
    proof -
      have False if "admissionKey ?i d \<in> xsReservations s" for d
      proof -
        from that l obtain j c where j: "admissionKey ?i d = admissionKey j c" "xsExperiments s j \<noteq> None"
          unfolding ledger_def by blast
        then have "nul_free j" using l by (auto simp: ledger_def)
        with j n None show False by (auto simp: new_experiment_def key_separates)
      qed
      then show ?thesis by (auto simp: live_def)
    qed
    have "account_ok (card (live j (xsReservations s))) x \<and> nul_free j"
      if "xsExperiments (set_experiment e s) j = Some x" for j x
    proof (cases "j = ?i")
      case True
      with that n none show ?thesis by (auto simp: set_experiment_def new_experiment_def account_ok_def within_limit_def)
    next
      case False
      with that l show ?thesis by (simp add: set_experiment_def ledger_def)
    qed
    moreover have "\<exists>j c. k = admissionKey j c \<and> xsExperiments (set_experiment e s) j \<noteq> None" if k: "k \<in> xsReservations s" for k
    proof -
      from k l obtain j c where "k = admissionKey j c" "xsExperiments s j \<noteq> None" unfolding ledger_def by blast
      then show ?thesis by (intro exI [of _ j] exI [of _ c]) (auto simp: set_experiment_def)
    qed
    ultimately have "ledger (set_experiment e s)" using l unfolding ledger_def by (simp add: set_experiment_def)
    then show ?thesis using None by (simp add: CreateExperiment_def)
  qed (use l in \<open>simp add: CreateExperiment_def\<close>)
qed

subsection \<open>The store as a machine\<close>

text \<open>
  The store's atomic calls, in any interleaving of any number of controllers. \<open>SaveExperiment\<close>
  overwrites the whole record and is not used by the controller.
\<close>

datatype store_event =
    XCreate experiment_data
  | XReserve string string int
  | XRelease string string int
  | XConsume string string int
  | XSaveAdmission admission
  | XAudit experiment_audit
  | XCount string int counter_update

fun store_step :: "store_event \<Rightarrow> experiment_store \<Rightarrow> experiment_store" where
  "store_step (XCreate e) s = (if new_experiment e then fst (CreateExperiment e s) else s)"
| "store_step (XReserve i d now) s = fst (ReserveBudget i d now s)"
| "store_step (XRelease i d now) s = fst (ReleaseBudget i d now s)"
| "store_step (XConsume i d now) s = fst (ConsumeBudget i d now s)"
| "store_step (XSaveAdmission a) s = fst (SaveAdmission a s)"
| "store_step (XAudit u) s = AuditExperiment u s"
| "store_step (XCount i now c) s = mutateCounters i now c s"

lemma store_step_ledger: "ledger s \<Longrightarrow> ledger (store_step e s)"
  by (cases e)
    (auto intro: ledger_Create ledger_Reserve ledger_Release ledger_Consume ledger_SaveAdmission ledger_Count ledger_frame
      simp: AuditExperiment_def)

text \<open>
  What may become of an experiment and its live reservations: a closed experiment stays closed
  and no reservation is added to it.
\<close>

definition carried :: "experiment_data \<Rightarrow> string set \<Rightarrow> experiment_data \<Rightarrow> string set \<Rightarrow> bool" where
  "carried e L e' L' \<longleftrightarrow> xpDef e' = xpDef e \<and> xpConsumed e \<le> xpConsumed e' \<and>
     (xpState e \<noteq> ExperimentEnabled \<longrightarrow> xpState e' \<noteq> ExperimentEnabled \<and> L' \<subseteq> L)"

lemma carried_refl [simp]: "carried e L e L"
  by (simp add: carried_def)

lemma carried_trans: "carried e L e' L' \<Longrightarrow> carried e' L' e'' L'' \<Longrightarrow> carried e L e'' L''"
  by (auto simp: carried_def)

definition experiment_advances :: "experiment_store \<Rightarrow> experiment_store \<Rightarrow> bool" where
  "experiment_advances s s' \<longleftrightarrow>
     (\<forall>i e. xsExperiments s i = Some e \<longrightarrow>
        (\<exists>e'. xsExperiments s' i = Some e' \<and>
           carried e (live i (xsReservations s)) e' (live i (xsReservations s'))))"

lemma experiment_advances_refl: "experiment_advances s s"
  by (auto simp: experiment_advances_def)

lemma experiment_advances_trans: "experiment_advances s t \<Longrightarrow> experiment_advances t u \<Longrightarrow> experiment_advances s u"
  unfolding experiment_advances_def by (meson carried_trans)

lemma advances_update:
  assumes "ledger s" and "xsExperiments s i = Some e" and "carried e (live i (xsReservations s)) e' (live i R)"
    and "R = insert (admissionKey i d) (xsReservations s) \<or> R = xsReservations s - {admissionKey i d} \<or> R = xsReservations s"
  shows "experiment_advances s ((write_back i e' s)\<lparr>xsReservations := R\<rparr>)"
proof -
  have "nul_free i" using assms(1,2) by (simp add: ledger_def)
  have "\<exists>x'. xsExperiments ((write_back i e' s)\<lparr>xsReservations := R\<rparr>) j = Some x' \<and> 
      carried x (live j (xsReservations s)) x' (live j R)" if x: "xsExperiments s j = Some x" for j x
  proof (cases "j = i")
    case True
    with x assms(2,3) show ?thesis by (auto simp: write_back_def)
  next
    case False
    have "nul_free j" using assms(1) x by (auto simp: ledger_def)
    then have "live j R = live j (xsReservations s)"
      using assms(4) False \<open>nul_free i\<close> live_other [where i = i and j = j and d = d] by auto
    with False x show ?thesis by (simp add: write_back_def)
  qed
  then show ?thesis by (simp add: experiment_advances_def)
qed

lemma store_step_advances: "ledger s \<Longrightarrow> experiment_advances s (store_step ev s)"
proof (cases ev)
  case (XReserve i d now)
  assume l: "ledger s"
  show ?thesis
  proof (cases "xsExperiments s i")
    case (Some e)
    have "experiment_advances s ((write_back i (e\<lparr>xpReserved := xpReserved e + 1, xpUpdatedAt := now\<rparr>) s)
        \<lparr>xsReservations := insert (admissionKey i d) (xsReservations s)\<rparr>)" if "\<not> budget_closed e"
      using that by (intro advances_update [where d = d, OF l Some]) (auto simp: budget_closed_def carried_def)
    with Some XReserve show ?thesis by (simp add: ReserveBudget_def experiment_advances_refl)
  qed (simp add: XReserve ReserveBudget_def experiment_advances_refl)
next
  case (XRelease i d now)
  assume l: "ledger s"
  show ?thesis
  proof (cases "xsExperiments s i")
    case (Some e)
    have "experiment_advances s ((write_back i (e\<lparr>xpReserved := xpReserved e - 1, xpReleased := xpReleased e + 1, xpUpdatedAt := now\<rparr>) s)
        \<lparr>xsReservations := xsReservations s - {admissionKey i d}\<rparr>)"
      by (intro advances_update [where d = d, OF l Some]) (auto simp: live_remove carried_def)
    with Some XRelease show ?thesis by (simp add: ReleaseBudget_def experiment_advances_refl)
  qed (simp add: XRelease ReleaseBudget_def experiment_advances_refl)
next
  case (XConsume i d now)
  assume l: "ledger s"
  show ?thesis
  proof (cases "xsExperiments s i")
    case (Some e)
    let ?e = "e\<lparr>xpConsumed := xpConsumed e + 1, xpExecuted := xpExecuted e + 1, xpUpdatedAt := now\<rparr>"
    have "experiment_advances s ((write_back i ?e s)\<lparr>xsReservations := xsReservations s - {admissionKey i d}\<rparr>)"
      "experiment_advances s ((write_back i (?e\<lparr>xpState := ExperimentExhausted\<rparr>) s)
         \<lparr>xsReservations := xsReservations s - {admissionKey i d}\<rparr>)"
      by (intro advances_update [where d = d, OF l Some]; auto simp: live_remove carried_def)+
    with Some XConsume show ?thesis by (simp add: ConsumeBudget_def Let_def experiment_advances_refl)
  qed (simp add: XConsume ConsumeBudget_def experiment_advances_refl)
next
  case (XCount i now c)
  assume l: "ledger s"
  show ?thesis
  proof (cases "xsExperiments s i")
    case (Some e)
    have "experiment_advances s ((write_back i ((apply_count c e)\<lparr>xpUpdatedAt := now\<rparr>) s)\<lparr>xsReservations := xsReservations s\<rparr>)"
      using apply_count_frame(6) [of c e] by (intro advances_update [OF l Some]) (auto simp: apply_count_frame(1-5) carried_def)
    with Some XCount show ?thesis by (simp add: mutateCounters_def UpdateSummary_def write_back_def)
  qed (simp add: XCount mutateCounters_def UpdateSummary_def experiment_advances_refl)
qed (auto simp: experiment_advances_def CreateExperiment_def set_experiment_def SaveAdmission_def AuditExperiment_def Let_def
    split: option.splits)

interpretation experiment_life: monotone_machine store_step ledger experiment_advances
  by unfold_locales (auto intro: store_step_ledger experiment_advances_refl experiment_advances_trans store_step_advances)

end
