(* ===== verification/Observe.thy ===== *)
theory Observe
  imports Experiment "HOL-Library.Multiset"
begin

text \<open>
  Performance observations (\<open>internal/performance\<close>: \<open>taxonomy.go\<close>, \<open>types.go\<close>, \<open>errors.go\<close>,
  \<open>classify.go\<close>, \<open>lifecycle.go\<close>, \<open>store.go\<close>, \<open>dataset.go\<close>, \<open>time_faithful.go\<close>): what Core records of
  an execution, how a review verdict finalizes it, the store and the datasets over it. Times are
  integers, \<open>None\<close> the zero time; durations are integers of nanoseconds.
\<close>

subsection \<open>Task classes\<close>

text \<open>The taxonomy is a mutable set; a registration extends it.\<close>

type_synonym taxonomy = "string list"

definition default_taxonomy :: taxonomy where
  "default_taxonomy =
     [''code_generation'', ''code_modification'', ''debugging'', ''test_generation'', ''test_execution'',
      ''code_review'', ''security_review'', ''architecture_review'', ''dependency_analysis'', ''iac_review'',
      ''documentation'', ''research'', ''artifact_generation'', ''remediation'', ''verification'']"

definition KnownTaskClass :: "taxonomy \<Rightarrow> string \<Rightarrow> bool" where
  "KnownTaskClass tax c \<longleftrightarrow> c \<in> set tax"

definition RegisterTaskClass :: "string \<Rightarrow> taxonomy \<Rightarrow> taxonomy" where
  "RegisterTaskClass c tax = List.insert c tax"

subsection \<open>Errors\<close>

datatype perf_error =
    AttributionFailure task_id string
  | DuplicateObservation string
  | UnknownTaskClass string
  | UnknownAgent agent_id
  | StaleReviewOutcome review_group_id
  | CrossTenantQueryDenied string
  | MalformedMetrics string
  | ObservationNotFound string

fun perf_error_text :: "perf_error \<Rightarrow> msg" where
  "perf_error_text (AttributionFailure t r) = Msg ''attribution failure for task %q: %s'' [AS t, AS r]"
| "perf_error_text (DuplicateObservation i) = Msg ''duplicate observation %q'' [AS i]"
| "perf_error_text (UnknownTaskClass c) = Msg ''unknown task class %q'' [AS c]"
| "perf_error_text (UnknownAgent a) = Msg ''unknown agent %q'' [AS a]"
| "perf_error_text (StaleReviewOutcome g) = Msg ''stale review outcome for group %q'' [AS g]"
| "perf_error_text (CrossTenantQueryDenied r) = Msg ''cross-tenant query denied: %s'' [AS r]"
| "perf_error_text (MalformedMetrics r) = Msg ''malformed metrics: %s'' [AS r]"
| "perf_error_text (ObservationNotFound i) = Msg ''observation %q not found'' [AS i]"

fun perf_error_class :: "perf_error \<Rightarrow> string" where
  "perf_error_class (AttributionFailure t r) = ''attribution_failure''"
| "perf_error_class (DuplicateObservation i) = ''duplicate_observation''"
| "perf_error_class (UnknownTaskClass c) = ''unknown_task_class''"
| "perf_error_class (UnknownAgent a) = ''unknown_agent''"
| "perf_error_class (StaleReviewOutcome g) = ''stale_review_outcome''"
| "perf_error_class (CrossTenantQueryDenied r) = ''cross_tenant_query_denied''"
| "perf_error_class (MalformedMetrics r) = ''malformed_metrics''"
| "perf_error_class (ObservationNotFound i) = ''observation_not_found''"

subsection \<open>Outcomes\<close>

definition outcome_name :: "execution_outcome \<Rightarrow> string" where
  "outcome_name x =
     (case x of
        ExecutionCompleted \<Rightarrow> ''completed''
      | ExecutionFailed \<Rightarrow> ''failed''
      | ExecutionTimedOut \<Rightarrow> ''timed_out''
      | ExecutionPolicyRejected \<Rightarrow> ''policy_rejected''
      | ExecutionAuthorizationRejected \<Rightarrow> ''authorization_rejected''
      | ExecutionBlocked \<Rightarrow> ''blocked''
      | ExecutionCancelled \<Rightarrow> ''cancelled''
      | ExecutionPartiallyCompleted \<Rightarrow> ''partially_completed'')"

definition all_outcomes :: "execution_outcome list" where
  "all_outcomes =
     [ExecutionCompleted, ExecutionFailed, ExecutionTimedOut, ExecutionPolicyRejected,
      ExecutionAuthorizationRejected, ExecutionBlocked, ExecutionCancelled, ExecutionPartiallyCompleted]"

definition knownExecutionOutcomes :: "string \<Rightarrow> execution_outcome option" where
  "knownExecutionOutcomes s = List.find (\<lambda>x. outcome_name x = s) all_outcomes"

lemma outcome_roundtrip [simp]: "knownExecutionOutcomes (outcome_name x) = Some x"
  by (cases x) (simp_all add: knownExecutionOutcomes_def all_outcomes_def outcome_name_def)

lemma known_outcome_name: "knownExecutionOutcomes s = Some x \<longleftrightarrow> s = outcome_name x"
proof
  assume "knownExecutionOutcomes s = Some x"
  then show "s = outcome_name x" unfolding knownExecutionOutcomes_def by (auto simp: find_Some_iff)
qed simp

definition QualityFromFindingStatus :: "finding_status \<Rightarrow> quality_outcome" where
  "QualityFromFindingStatus s =
     (case s of
        FindingUnconfirmed \<Rightarrow> QualityUnconfirmed
      | FindingSupported \<Rightarrow> QualitySupported
      | FindingContested \<Rightarrow> QualityContested
      | FindingNeedsEvidence \<Rightarrow> QualityNeedsEvidence
      | FindingVerified \<Rightarrow> QualityVerified
      | FindingRejected \<Rightarrow> QualityRejected)"

text \<open>An error of an execution: one of Core's, the cancellation of the context, or another.\<close>

datatype execution_err = CoreErr sup_error | CtxCanceled msg | OtherErr msg

definition ClassifyExecutionOutcome :: "execution_result \<Rightarrow> execution_err option \<Rightarrow> execution_outcome" where
  "ClassifyExecutionOutcome r err =
     (case err of
        None \<Rightarrow> if erStatus r = StFailed then ExecutionFailed else ExecutionCompleted
      | Some (CtxCanceled m) \<Rightarrow> ExecutionCancelled
      | Some (OtherErr m) \<Rightarrow> ExecutionFailed
      | Some (CoreErr e) \<Rightarrow>
          (case e of
             ExecutionTimeout t l \<Rightarrow> ExecutionTimedOut
           | AuthorizationFailure a t m \<Rightarrow> ExecutionAuthorizationRejected
           | PolicyRejection i m \<Rightarrow> ExecutionPolicyRejected
           | AgentRoutingFailure a t m \<Rightarrow> ExecutionBlocked
           | StateTransitionFailure t m \<Rightarrow> ExecutionBlocked
           | _ \<Rightarrow> ExecutionFailed))"


subsection \<open>Observations\<close>

record performance_metrics =
  mtDuration :: int
  mtAttempts :: int
  mtRetries :: int
  mtReplans :: int
  mtReviewRounds :: int
  mtRework :: int
  mtFindings :: int
  mtVerifiedFindings :: int
  mtRejectedFindings :: int
  mtConfirmations :: int
  mtEvidence :: int
  mtCostUnits :: rat

datatype observation_status = ObservationPending | ObservationFinalized

record performance_observation =
  pfID :: string
  pfTenant :: string
  pfTaskID :: task_id
  pfExecutionID :: string
  pfTaskClass :: string
  pfRisk :: string
  pfAgent :: agent_id
  pfReviewers :: "agent_id list"
  pfSelectionRef :: string
  pfModelUsages :: "model_usage_ref list"
  pfExecution :: execution_outcome
  pfQuality :: quality_outcome
  pfReviewGroup :: review_group_id
  pfMetrics :: performance_metrics
  pfStatus :: observation_status
  pfStartedAt :: "int option"
  pfFinishedAt :: "int option"
  pfCreatedAt :: int
  pfUpdatedAt :: int

text \<open>The bytes that are hashed: every part with a terminating zero.\<close>

definition terminated :: "string list \<Rightarrow> string" where
  "terminated parts = concat (map (\<lambda>p. p @ [char_of (0 :: nat)]) parts)"

definition ComputeObservationID :: "text_lib \<Rightarrow> string \<Rightarrow> task_id \<Rightarrow> string \<Rightarrow> string \<Rightarrow> string" where
  "ComputeObservationID lib tenant tid eid kind = sha256hex lib (terminated [tenant, tid, eid, kind])"

definition ObservationKindExecution :: string where
  "ObservationKindExecution = ''execution''"

record observation_input =
  niTenant :: string
  niTaskID :: task_id
  niExecutionID :: string
  niTaskClass :: string
  niRisk :: string
  niAgent :: agent_id
  niSelectionRef :: string
  niOutcome :: string
  niModelUsages :: "model_usage_ref list"
  niMetrics :: performance_metrics
  niStartedAt :: "int option"
  niFinishedAt :: "int option"

definition validateTiming :: "int option \<Rightarrow> int option \<Rightarrow> perf_error option" where
  "validateTiming started finished =
     (case (started, finished) of
        (Some a, Some b) \<Rightarrow> require (\<not> b < a) (MalformedMetrics ''finished_at is before started_at'')
      | _ \<Rightarrow> None)"

definition validateMetrics :: "performance_metrics \<Rightarrow> perf_error option" where
  "validateMetrics m =
     err_then (require (\<not> mtDuration m < 0) (MalformedMetrics ''negative duration''))
    (err_then (require (list_all (\<lambda>n. \<not> n < 0)
         [mtAttempts m, mtRetries m, mtReplans m, mtReviewRounds m, mtRework m, mtFindings m, mtVerifiedFindings m,
          mtRejectedFindings m, mtConfirmations m, mtEvidence m]) (MalformedMetrics ''negative count field''))
      (require (\<not> mtCostUnits m < 0) (MalformedMetrics ''negative cost'')))"

definition NewObservation ::
  "text_lib \<Rightarrow> taxonomy \<Rightarrow> int \<Rightarrow> observation_input \<Rightarrow> perf_error + performance_observation"
where
  "NewObservation lib tax now x =
     guard_res (require (KnownTaskClass tax (niTaskClass x)) (UnknownTaskClass (niTaskClass x)))
    (guard_res (require (niAgent x \<noteq> []) (AttributionFailure (niTaskID x) ''no agent attribution supplied''))
      (case knownExecutionOutcomes (niOutcome x) of
         None \<Rightarrow> Inl (MalformedMetrics (''unknown execution outcome '' @ niOutcome x))
       | Some out \<Rightarrow>
           guard_res (validateTiming (niStartedAt x) (niFinishedAt x))
          (guard_res (validateMetrics (niMetrics x))
            (Inr \<lparr>pfID = ComputeObservationID lib (niTenant x) (niTaskID x) (niExecutionID x) ObservationKindExecution,
                  pfTenant = niTenant x, pfTaskID = niTaskID x, pfExecutionID = niExecutionID x,
                  pfTaskClass = niTaskClass x, pfRisk = niRisk x, pfAgent = niAgent x, pfReviewers = [],
                  pfSelectionRef = niSelectionRef x, pfModelUsages = niModelUsages x, pfExecution = out,
                  pfQuality = QualityUnreviewed, pfReviewGroup = [], pfMetrics = niMetrics x,
                  pfStatus = ObservationPending, pfStartedAt = niStartedAt x, pfFinishedAt = niFinishedAt x,
                  pfCreatedAt = now, pfUpdatedAt = now\<rparr>))))"

text \<open>The agents of the group other than the implementer, each once, in order of appearance.\<close>

fun reviewers_of :: "agent_id \<Rightarrow> agent_id list \<Rightarrow> finding_observation list \<Rightarrow> agent_id list" where
  "reviewers_of self seen [] = []"
| "reviewers_of self seen (ob # obs) =
     (if obAgent ob = self \<or> obAgent ob \<in> set seen then reviewers_of self seen obs
      else obAgent ob # reviewers_of self (obAgent ob # seen) obs)"

definition FinalizeWithReview :: "int \<Rightarrow> performance_observation \<Rightarrow> review_group \<Rightarrow> performance_observation" where
  "FinalizeWithReview now ob g =
     (let confirms = int (length (IndependentConfirmingObservations g));
          refutes = int (length (IndependentRefutingObservations g));
          m = (pfMetrics ob)
                \<lparr>mtFindings := int (length (gObservations g)), mtConfirmations := confirms,
                 mtEvidence := sum_list (map (\<lambda>x. int (length (obEvidenceRefs x))) (gObservations g)),
                 mtReviewRounds := gRounds g\<rparr>;
          m' = (if gStatus g = FindingVerified then m\<lparr>mtVerifiedFindings := confirms\<rparr>
                else if gStatus g = FindingRejected then m\<lparr>mtRejectedFindings := refutes\<rparr> else m) in
      ob\<lparr>pfQuality := QualityFromFindingStatus (gStatus g), pfReviewGroup := gID g,
         pfReviewers := reviewers_of (pfAgent ob) [] (gObservations g), pfMetrics := m',
         pfStatus := (if is_terminal (gStatus g) then ObservationFinalized else ObservationPending),
         pfUpdatedAt := now\<rparr>)"

subsection \<open>Filters\<close>

record observation_filter =
  ofTenant :: string
  ofAllTenants :: bool
  ofTaskClass :: string
  ofAgent :: agent_id
  ofTaskID :: task_id
  ofFinalizedOnly :: bool

definition filter_validate :: "observation_filter \<Rightarrow> perf_error option" where
  "filter_validate f =
     require (ofAllTenants f \<or> ofTenant f \<noteq> [])
       (CrossTenantQueryDenied ''no tenant specified and AllTenants not explicitly set'')"

definition in_scope :: "observation_filter \<Rightarrow> performance_observation \<Rightarrow> bool" where
  "in_scope f ob \<longleftrightarrow>
     (ofAllTenants f \<or> pfTenant ob = ofTenant f) \<and>
     (ofTaskClass f = [] \<or> pfTaskClass ob = ofTaskClass f) \<and>
     (ofTaskID f = [] \<or> pfTaskID ob = ofTaskID f) \<and>
     (ofAgent f = [] \<or> pfAgent ob = ofAgent f)"

definition filter_matches :: "observation_filter \<Rightarrow> performance_observation \<Rightarrow> bool" where
  "filter_matches f ob \<longleftrightarrow> in_scope f ob \<and> (ofFinalizedOnly f \<longrightarrow> pfStatus ob = ObservationFinalized)"

subsection \<open>The store in memory\<close>

text \<open>An association list with distinct keys; a query visits it in an order the runtime chooses.\<close>

type_synonym perf_store = "(string \<times> performance_observation) list"

definition same_identity :: "performance_observation \<Rightarrow> performance_observation \<Rightarrow> bool" where
  "same_identity a b \<longleftrightarrow>
     pfTaskID a = pfTaskID b \<and> pfExecutionID a = pfExecutionID b \<and> pfTaskClass a = pfTaskClass b \<and>
     pfAgent a = pfAgent b \<and> pfTenant a = pfTenant b"

definition PerfSave :: "performance_observation \<Rightarrow> perf_store \<Rightarrow> perf_store \<times> perf_error option" where
  "PerfSave ob st =
     (case map_of st (pfID ob) of
        Some old \<Rightarrow>
          if \<not> same_identity old ob then (st, Some (DuplicateObservation (pfID ob)))
          else if pfStatus old = ObservationFinalized \<and> pfStatus ob = ObservationPending then (st, None)
          else (AList.update (pfID ob) ob st, None)
      | None \<Rightarrow> (AList.update (pfID ob) ob st, None))"

definition PerfGet :: "string \<Rightarrow> perf_store \<Rightarrow> perf_error + performance_observation" where
  "PerfGet i st = (case map_of st i of None \<Rightarrow> Inl (ObservationNotFound i) | Some ob \<Rightarrow> Inr ob)"

definition PerfQuery ::
  "performance_observation range_order \<Rightarrow> perf_store \<Rightarrow> observation_filter \<Rightarrow> perf_error + performance_observation list"
where
  "PerfQuery ord st f = guard_res (filter_validate f) (Inr (filter (filter_matches f) (ord (map snd st))))"

subsection \<open>Datasets\<close>

type_synonym dataset = "observation_filter \<Rightarrow> perf_error + performance_observation list"

definition StoreDataset :: "performance_observation range_order \<Rightarrow> perf_store \<Rightarrow> dataset" where
  "StoreDataset ord st f = PerfQuery ord st f"

definition ObservationAsOf :: "int \<Rightarrow> performance_observation \<Rightarrow> performance_observation option" where
  "ObservationAsOf asof ob =
     (if pfCreatedAt ob > asof then None
      else if pfUpdatedAt ob > asof
      then Some (ob\<lparr>pfQuality := QualityUnreviewed, pfStatus := ObservationPending, pfReviewGroup := [], pfReviewers := []\<rparr>)
      else Some ob)"

definition TimeFaithfulDataset :: "int \<Rightarrow> dataset \<Rightarrow> dataset" where
  "TimeFaithfulDataset asof ds f = bind_res (ds f) (\<lambda>all. Inr (List.map_filter (ObservationAsOf asof) all))"


subsection \<open>The interface of a dataset\<close>

text \<open>
  What an aggregation relies on: only observations of the requested tenant, class, task and agent
  are returned, and a query that names neither a tenant nor all tenants is refused.
\<close>

locale decision_dataset =
  fixes obs :: dataset
  assumes scoped: "obs f = Inr xs \<Longrightarrow> ob \<in> set xs \<Longrightarrow> in_scope f ob"
    and unscoped_denied: "ofTenant f = [] \<Longrightarrow> \<not> ofAllTenants f \<Longrightarrow> \<exists>e. obs f = Inl e"
begin

lemma tenant_isolated:
  "obs f = Inr xs \<Longrightarrow> \<not> ofAllTenants f \<Longrightarrow> ob \<in> set xs \<Longrightarrow> pfTenant ob = ofTenant f \<and> ofTenant f \<noteq> []"
  using scoped [of f xs ob] unscoped_denied [of f] by (auto simp: in_scope_def)

lemma scoped_filter: "obs f = Inr xs \<Longrightarrow> filter (in_scope f) xs = xs"
  using scoped by (auto intro: filter_True)

end

definition is_shuffle :: "'a range_order \<Rightarrow> bool" where
  "is_shuffle r \<longleftrightarrow> (\<forall>xs. mset (r xs) = mset xs)"

lemma is_shuffle_mset: "is_shuffle r \<Longrightarrow> mset (r xs) = mset xs"
  by (simp add: is_shuffle_def)

lemma is_shuffle_set: "is_shuffle r \<Longrightarrow> set (r xs) = set xs"
  by (metis is_shuffle_mset mset_eq_setD)

lemma is_shuffle_samples [simp]: "is_shuffle (\<lambda>xs. xs)" "is_shuffle rev"
  by (simp_all add: is_shuffle_def)

lemma PerfQuery_Inr:
  "PerfQuery ord st f = Inr xs \<longleftrightarrow>
     (ofAllTenants f \<or> ofTenant f \<noteq> []) \<and> xs = filter (filter_matches f) (ord (map snd st))"
  by (auto simp: PerfQuery_def filter_validate_def require_def)

interpretation stored: decision_dataset "StoreDataset ord st" for ord st
proof unfold_locales
  show "in_scope f ob" if "StoreDataset ord st f = Inr xs" "ob \<in> set xs" for f xs ob
    using that by (auto simp: StoreDataset_def PerfQuery_Inr filter_matches_def)
  show "\<exists>e. StoreDataset ord st f = Inl e" if "ofTenant f = []" "\<not> ofAllTenants f" for f
    using that by (simp add: StoreDataset_def PerfQuery_def filter_validate_def require_def guard_res_def)
qed

lemma AsOf_scope: "ObservationAsOf asof ob = Some ob' \<Longrightarrow> in_scope f ob' = in_scope f ob"
  by (auto simp: ObservationAsOf_def in_scope_def split: if_splits)

lemma set_map_filter: "y \<in> set (List.map_filter g xs) \<longleftrightarrow> (\<exists>x \<in> set xs. g x = Some y)"
  by (induction xs) (auto simp: List.map_filter_def split: option.splits)

text \<open>The time-faithful view of a dataset is a dataset.\<close>

lemma time_faithful_dataset: "decision_dataset ds \<Longrightarrow> decision_dataset (TimeFaithfulDataset asof ds)"
proof unfold_locales
  assume ds: "decision_dataset ds"
  fix f xs ob
  assume "TimeFaithfulDataset asof ds f = Inr xs" "ob \<in> set xs"
  then obtain all x where "ds f = Inr all" "x \<in> set all" "ObservationAsOf asof x = Some ob"
    by (auto simp: TimeFaithfulDataset_def bind_res_Inr set_map_filter)
  with ds show "in_scope f ob" by (simp add: AsOf_scope decision_dataset.scoped)
next
  assume "decision_dataset ds"
  then show "\<exists>e. TimeFaithfulDataset asof ds f = Inl e" if "ofTenant f = []" "\<not> ofAllTenants f" for f
    using that decision_dataset.unscoped_denied [of ds f] by (auto simp: TimeFaithfulDataset_def)
qed

interpretation timely: decision_dataset "TimeFaithfulDataset asof (StoreDataset ord st)" for asof ord st
  by (rule time_faithful_dataset) unfold_locales

subsection \<open>The life of an observation\<close>

datatype perf_event =
    PExecuted int observation_input
  | PReviewed int string review_group

fun event_time :: "perf_event \<Rightarrow> int" where
  "event_time (PExecuted now x) = now"
| "event_time (PReviewed now i g) = now"

fun perf_step :: "text_lib \<Rightarrow> taxonomy \<Rightarrow> perf_event \<Rightarrow> perf_store \<Rightarrow> perf_store" where
  "perf_step lib tax (PExecuted now x) st =
     (case NewObservation lib tax now x of Inl e \<Rightarrow> st | Inr ob \<Rightarrow> fst (PerfSave ob st))"
| "perf_step lib tax (PReviewed now i g) st =
     (case PerfGet i st of Inl e \<Rightarrow> st | Inr ob \<Rightarrow> fst (PerfSave (FinalizeWithReview now ob g) st))"

definition store_wf :: "perf_store \<Rightarrow> bool" where
  "store_wf st \<longleftrightarrow> distinct (map fst st) \<and> (\<forall>i ob. map_of st i = Some ob \<longrightarrow> pfID ob = i)"

lemma store_wf_Nil [simp]: "store_wf []"
  by (simp add: store_wf_def)

lemma PerfSave_lookup:
  "map_of (fst (PerfSave ob st)) i =
     (if i \<noteq> pfID ob then map_of st i
      else case map_of st i of
        None \<Rightarrow> Some ob
      | Some old \<Rightarrow>
          if \<not> same_identity old ob \<or> pfStatus old = ObservationFinalized \<and> pfStatus ob = ObservationPending
          then Some old else Some ob)"
  by (auto simp: PerfSave_def map_of_update split: option.splits)

lemma PerfSave_wf:
  assumes "store_wf st"
  shows "store_wf (fst (PerfSave ob st))"
proof -
  have "distinct (map fst (fst (PerfSave ob st)))"
    using assms by (auto simp: store_wf_def PerfSave_def distinct_update split: option.splits)
  moreover have "pfID x = i" if "map_of (fst (PerfSave ob st)) i = Some x" for i x
    using that assms unfolding PerfSave_lookup store_wf_def by (auto split: if_splits option.splits)
  ultimately show ?thesis by (simp only: store_wf_def) blast
qed

lemma perf_step_wf: "store_wf st \<Longrightarrow> store_wf (perf_step lib tax e st)"
  by (cases e) (auto intro: PerfSave_wf split: sum.splits)

lemma Finalize_frame [simp]:
  "pfID (FinalizeWithReview now ob g) = pfID ob" "same_identity ob (FinalizeWithReview now ob g)"
  "pfCreatedAt (FinalizeWithReview now ob g) = pfCreatedAt ob" "pfUpdatedAt (FinalizeWithReview now ob g) = now"
  "pfExecution (FinalizeWithReview now ob g) = pfExecution ob"
  "mtDuration (pfMetrics (FinalizeWithReview now ob g)) = mtDuration (pfMetrics ob)"
  "mtRework (pfMetrics (FinalizeWithReview now ob g)) = mtRework (pfMetrics ob)"
  "pfModelUsages (FinalizeWithReview now ob g) = pfModelUsages ob"
  "pfStatus (FinalizeWithReview now ob g) =
     (if is_terminal (gStatus g) then ObservationFinalized else ObservationPending)"
  "pfQuality (FinalizeWithReview now ob g) = QualityFromFindingStatus (gStatus g)"
  by (simp_all add: FinalizeWithReview_def same_identity_def Let_def)

lemma NewObservation_times:
  "NewObservation lib tax now x = Inr ob \<Longrightarrow> pfCreatedAt ob = now \<and> pfUpdatedAt ob = now \<and>
     pfStatus ob = ObservationPending \<and> pfQuality ob = QualityUnreviewed"
  by (auto simp: NewObservation_def split: option.splits)

definition perf_grows :: "perf_store \<Rightarrow> perf_store \<Rightarrow> bool" where
  "perf_grows st st' \<longleftrightarrow>
     (\<forall>i ob. map_of st i = Some ob \<longrightarrow> (\<exists>ob'. map_of st' i = Some ob' \<and> same_identity ob ob' \<and>
        (pfStatus ob = ObservationFinalized \<longrightarrow> pfStatus ob' = ObservationFinalized)))"

lemma same_identity_refl [simp]: "same_identity a a"
  by (simp add: same_identity_def)

lemma same_identity_trans: "same_identity a b \<Longrightarrow> same_identity b c \<Longrightarrow> same_identity a c"
  by (simp add: same_identity_def)

lemma perf_grows_refl [simp]: "perf_grows st st"
  by (simp add: perf_grows_def)

lemma perf_grows_trans: "perf_grows st st' \<Longrightarrow> perf_grows st' st'' \<Longrightarrow> perf_grows st st''"
  unfolding perf_grows_def by (meson same_identity_trans)

lemma PerfSave_grows: "perf_grows st (fst (PerfSave ob st))"
  by (auto simp: perf_grows_def PerfSave_lookup) (metis observation_status.exhaust)+

lemma perf_step_grows: "perf_grows st (perf_step lib tax e st)"
  by (cases e) (auto simp: PerfSave_grows split: sum.splits)

interpretation perf_life: monotone_machine "perf_step lib tax" store_wf perf_grows for lib tax
  by unfold_locales (auto intro: perf_step_wf perf_step_grows perf_grows_trans)


subsection \<open>Verdicts are final for an observation\<close>

definition sample_lib :: text_lib where
  "sample_lib = \<lparr>TrimSpace = (\<lambda>s. s), CleanPath = (\<lambda>s. s), ToLower = (\<lambda>s. s), sha256hex = (\<lambda>s. s)\<rparr>"

definition sample_metrics :: performance_metrics where
  "sample_metrics = \<lparr>mtDuration = 5, mtAttempts = 1, mtRetries = 0, mtReplans = 0, mtReviewRounds = 0, mtRework = 0,
     mtFindings = 0, mtVerifiedFindings = 0, mtRejectedFindings = 0, mtConfirmations = 0, mtEvidence = 0, mtCostUnits = 0\<rparr>"

definition sample_input :: "string \<Rightarrow> agent_id \<Rightarrow> observation_input" where
  "sample_input eid a =
     \<lparr>niTenant = ''acme'', niTaskID = ''t'', niExecutionID = eid, niTaskClass = ''debugging'', niRisk = [],
      niAgent = a, niSelectionRef = [], niOutcome = ''completed'', niModelUsages = [], niMetrics = sample_metrics,
      niStartedAt = None, niFinishedAt = None\<rparr>"

definition sample_oid :: "string \<Rightarrow> string" where
  "sample_oid eid = ComputeObservationID sample_lib ''acme'' ''t'' eid ObservationKindExecution"

definition sample_verdict :: "finding_status \<Rightarrow> review_group" where
  "sample_verdict st = sample_group [sample_observation ''o1'' ''bob'' StanceConfirms, sample_observation ''o2'' ''cat'' StanceConfirms] st"

definition sample_events :: "perf_event list" where
  "sample_events = [PExecuted 1 (sample_input ''e1'' ''ann''), PReviewed 2 (sample_oid ''e1'') (sample_verdict FindingVerified)]"

text \<open>
  What an observation records about who executed which task is never rewritten, and a
  finalized observation stays finalized, whatever executions and review transitions follow. In
  particular a review group that is reopened after a verdict (back to contested or needing
  evidence) leaves the observation exactly as the verdict left it.
\<close>

theorem finalized_observation_is_kept:
  assumes "store_wf st" and "PerfGet i st = Inr ob" and "pfStatus ob = ObservationFinalized"
  shows "(\<exists>ob'. PerfGet i (fold (perf_step lib tax) evs st) = Inr ob' \<and> same_identity ob ob' \<and>
       pfStatus ob' = ObservationFinalized) \<and>
     (\<not> is_terminal (gStatus g) \<longrightarrow> perf_step lib tax (PReviewed now i g) st = st)"
proof -
  have m: "map_of st i = Some ob" using assms(2) by (auto simp: PerfGet_def split: option.splits)
  have "perf_grows st (fold (perf_step lib tax) evs st)" by (rule perf_life.run_rel [OF assms(1)])
  with m assms(3) obtain ob' where "map_of (fold (perf_step lib tax) evs st) i = Some ob'"
      "same_identity ob ob'" "pfStatus ob' = ObservationFinalized"
    unfolding perf_grows_def by blast
  moreover have "perf_step lib tax (PReviewed now i g) st = st" if "\<not> is_terminal (gStatus g)"
  proof -
    have "pfID ob = i" using assms(1) m by (simp add: store_wf_def)
    with m assms(3) that show ?thesis by (simp add: PerfGet_def PerfSave_def)
  qed
  ultimately show ?thesis by (simp add: PerfGet_def)
qed

theorem finalized_observation_is_kept_witness:
  "perf_step sample_lib default_taxonomy (PReviewed 9 (sample_oid ''e1'') (sample_verdict FindingNeedsEvidence))
     (fold (perf_step sample_lib default_taxonomy) sample_events []) =
   fold (perf_step sample_lib default_taxonomy) sample_events []"
proof -
  let ?st = "fold (perf_step sample_lib default_taxonomy) sample_events []"
  have wf: "store_wf ?st" by (rule perf_life.run_inv) simp
  have "map_option pfStatus (map_of ?st (sample_oid ''e1'')) = Some ObservationFinalized" by code_simp
  then obtain ob where ob: "PerfGet (sample_oid ''e1'') ?st = Inr ob" "pfStatus ob = ObservationFinalized"
    by (auto simp: PerfGet_def)
  show ?thesis
    using finalized_observation_is_kept [OF wf ob, of sample_lib default_taxonomy "[]" "sample_verdict FindingNeedsEvidence" 9]
    by (simp add: sample_verdict_def sample_group_def is_terminal_def)
qed

subsection \<open>Time-faithful views\<close>

text \<open>What of an observation cannot depend on a review.\<close>

definition same_execution :: "performance_observation \<Rightarrow> performance_observation \<Rightarrow> bool" where
  "same_execution a b \<longleftrightarrow>
     pfID a = pfID b \<and> same_identity a b \<and> pfExecution a = pfExecution b \<and>
     mtDuration (pfMetrics a) = mtDuration (pfMetrics b) \<and> mtRework (pfMetrics a) = mtRework (pfMetrics b) \<and>
     pfModelUsages a = pfModelUsages b"

lemma same_execution_refl [simp]: "same_execution a a"
  by (simp add: same_execution_def)

lemma same_execution_Finalize: "same_execution ob x \<Longrightarrow> same_execution ob (FinalizeWithReview now x g)"
  by (simp add: same_execution_def same_identity_def FinalizeWithReview_def Let_def)

text \<open>The store at the cutoff and a store reached by later events only.\<close>

definition later_of :: "int \<Rightarrow> perf_store \<Rightarrow> perf_store \<Rightarrow> bool" where
  "later_of asof base st \<longleftrightarrow> store_wf st \<and>
     (\<forall>i x. map_of st i = Some x \<longrightarrow> pfCreatedAt x > asof \<or>
        (\<exists>ob. map_of base i = Some ob \<and> same_execution ob x \<and> (x = ob \<or> pfUpdatedAt x > asof)))"

lemma later_of_save:
  assumes "later_of asof base st"
    and "pfCreatedAt y > asof \<or> (\<exists>ob. map_of base (pfID y) = Some ob \<and> same_execution ob y \<and> pfUpdatedAt y > asof)"
  shows "later_of asof base (fst (PerfSave y st))"
  using assms PerfSave_wf [of st y] unfolding later_of_def PerfSave_lookup by (auto split: option.splits if_splits)

lemma later_of_step:
  assumes "later_of asof base st" and "event_time e > asof"
  shows "later_of asof base (perf_step lib tax e st)"
proof (cases e)
  case (PExecuted now x)
  with assms show ?thesis by (auto split: sum.splits dest: NewObservation_times intro: later_of_save)
next
  case (PReviewed now i g)
  have "later_of asof base (fst (PerfSave (FinalizeWithReview now x g) st))" if x: "map_of st i = Some x" for x
  proof (rule later_of_save [OF assms(1)])
    have "pfID x = i" using assms(1) x by (simp add: later_of_def store_wf_def)
    moreover from assms(1) x have "pfCreatedAt x > asof \<or> (\<exists>ob. map_of base i = Some ob \<and> same_execution ob x)"
      unfolding later_of_def by blast
    ultimately show "pfCreatedAt (FinalizeWithReview now x g) > asof \<or>
        (\<exists>ob. map_of base (pfID (FinalizeWithReview now x g)) = Some ob \<and>
           same_execution ob (FinalizeWithReview now x g) \<and> pfUpdatedAt (FinalizeWithReview now x g) > asof)"
      using assms(2) PReviewed same_execution_Finalize by auto
  qed
  with assms(1) PReviewed show ?thesis by (auto simp: PerfGet_def split: option.splits)
qed

lemma later_of_run:
  "later_of asof base st \<Longrightarrow> list_all (\<lambda>e. event_time e > asof) evs \<Longrightarrow> later_of asof base (fold (perf_step lib tax) evs st)"
  by (induction evs arbitrary: st) (auto intro: later_of_step)

text \<open>
  A time-faithful view shows no verdict from the future: whatever executions and reviews
  happen after the cutoff, every observation it returns was in the store at the cutoff, with the
  same agent, task, outcome, duration, rework and model usage, and its quality and status are the
  ones it had then, or those of an observation nobody has reviewed.
\<close>

theorem time_faithful_no_future_verdict:
  assumes "store_wf base" and "list_all (\<lambda>e. event_time e > asof) evs" and "is_shuffle ord"
    and "TimeFaithfulDataset asof (StoreDataset ord (fold (perf_step lib tax) evs base)) f = Inr view" and "v \<in> set view"
  shows "\<exists>ob. PerfGet (pfID v) base = Inr ob \<and> same_execution ob v \<and>
    (pfQuality v = pfQuality ob \<and> pfStatus v = pfStatus ob \<or> pfQuality v = QualityUnreviewed \<and> pfStatus v = ObservationPending)"
proof -
  let ?st = "fold (perf_step lib tax) evs base"
  have l: "later_of asof base ?st" using assms(1,2) by (intro later_of_run) (auto simp: later_of_def)
  from assms(4,5) obtain xs x where xs: "StoreDataset ord ?st f = Inr xs" "x \<in> set xs" "ObservationAsOf asof x = Some v"
    by (auto simp: TimeFaithfulDataset_def bind_res_Inr set_map_filter)
  then have "x \<in> snd ` set ?st" using is_shuffle_set [OF assms(3)] by (auto simp: StoreDataset_def PerfQuery_Inr)
  then obtain i where "(i, x) \<in> set ?st" by force
  with l have m: "map_of ?st i = Some x" "pfID x = i" by (auto simp: later_of_def store_wf_def)
  moreover have "\<not> pfCreatedAt x > asof" using xs(3) by (auto simp: ObservationAsOf_def split: if_splits)
  ultimately obtain ob where ob: "map_of base i = Some ob" "same_execution ob x" "x = ob \<or> pfUpdatedAt x > asof"
    using l unfolding later_of_def by blast
  then have "PerfGet (pfID v) base = Inr ob" "same_execution ob v"
    using xs(3) m(2) by (auto simp: PerfGet_def ObservationAsOf_def same_execution_def same_identity_def split: if_splits)
  with ob(3) xs(3) show ?thesis by (auto simp: ObservationAsOf_def split: if_splits)
qed

definition sample_filter :: observation_filter where
  "sample_filter = \<lparr>ofTenant = ''acme'', ofAllTenants = False, ofTaskClass = [], ofAgent = [], ofTaskID = [], ofFinalizedOnly = False\<rparr>"

theorem time_faithful_no_future_verdict_witness:
  "\<exists>v. TimeFaithfulDataset 1 (StoreDataset rev (fold (perf_step sample_lib default_taxonomy) (tl sample_events)
       (fold (perf_step sample_lib default_taxonomy) [hd sample_events] []))) sample_filter = Inr [v] \<and>
     pfQuality v = QualityUnreviewed"
proof -
  let ?base = "fold (perf_step sample_lib default_taxonomy) [hd sample_events] []"
  let ?ds = "StoreDataset rev (fold (perf_step sample_lib default_taxonomy) (tl sample_events) ?base)"
  have "map_sum id (map pfQuality) (TimeFaithfulDataset 1 ?ds sample_filter) = Inr [QualityUnreviewed]" by code_simp
  then obtain v where v: "TimeFaithfulDataset 1 ?ds sample_filter = Inr [v]"
    by (cases "TimeFaithfulDataset 1 ?ds sample_filter") auto
  have wf: "store_wf ?base" by (rule perf_life.run_inv) simp
  have late: "list_all (\<lambda>e. event_time e > 1) (tl sample_events)" by code_simp
  have q: "map_option (\<lambda>ob. (pfQuality ob, pfStatus ob)) (map_of ?base (sample_oid ''e1'')) = Some (QualityUnreviewed, ObservationPending)"
    by code_simp
  have "map_sum id (map pfID) (TimeFaithfulDataset 1 ?ds sample_filter) = Inr [sample_oid ''e1'']" by code_simp
  with v have "pfID v = sample_oid ''e1''" by simp
  with time_faithful_no_future_verdict [OF wf late _ v] q v show ?thesis by (auto simp: PerfGet_def)
qed

text \<open>
  Two gaps of the view: the counts a review wrote into the metrics stay visible before the
  review, and a query for finalized observations returns pending ones.
\<close>

lemma time_faithful_leaks_counts:
  assumes "pfCreatedAt ob \<le> asof" and "asof < now" and "gStatus g = FindingVerified"
  shows "\<exists>v. ObservationAsOf asof (FinalizeWithReview now ob g) = Some v \<and> pfQuality v = QualityUnreviewed \<and>
    mtVerifiedFindings (pfMetrics v) = int (length (IndependentConfirmingObservations g))"
  using assms by (simp add: ObservationAsOf_def FinalizeWithReview_def Let_def)

lemma time_faithful_finalized_only_returns_pending:
  assumes "ds f = Inr [ob]" and "pfCreatedAt ob \<le> asof" and "asof < pfUpdatedAt ob"
  shows "\<exists>v. TimeFaithfulDataset asof ds f = Inr [v] \<and> pfStatus v = ObservationPending"
  using assms by (simp add: TimeFaithfulDataset_def ObservationAsOf_def List.map_filter_def)

end
