(* ===== verification/Advisor.thy ===== *)
theory Advisor
  imports Observe "HOL-Library.Product_Lexorder"
begin

text \<open>
  Aggregation over observations and the advisor that ranks agents with it
  (\<open>internal/performance\<close>: \<open>aggregate.go\<close>, \<open>pair.go\<close>, \<open>advisor.go\<close> and the gates of
  \<open>promotion_gate.go\<close> and \<open>coverage.go\<close>). Ratios of counts are exact rationals; below \<open>2 ^ 26\<close>
  observations \<open>float64\<close> orders them the same way.
\<close>

subsection \<open>Counting\<close>

definition DefaultMinimumObservationCount :: int where
  "DefaultMinimumObservationCount = 10"

record agent_summary =
  asAgent :: agent_id
  asTaskClass :: string
  asCount :: int
  asPending :: int
  asFinalized :: int
  asCompleted :: int
  asFailed :: int
  asTimedOut :: int
  asCancelled :: int
  asBlocked :: int
  asVerified :: int
  asRejected :: int
  asContested :: int
  asNeedsEvidence :: int
  asSupported :: int
  asUnreviewed :: int
  asRemediation :: int
  asRemediationVerified :: int
  asRework :: int
  asMean :: int
  asMedian :: int
  asInsufficient :: bool

definition empty_summary :: "agent_id \<Rightarrow> string \<Rightarrow> agent_summary" where
  "empty_summary a c =
     \<lparr>asAgent = a, asTaskClass = c, asCount = 0, asPending = 0, asFinalized = 0, asCompleted = 0, asFailed = 0,
      asTimedOut = 0, asCancelled = 0, asBlocked = 0, asVerified = 0, asRejected = 0, asContested = 0,
      asNeedsEvidence = 0, asSupported = 0, asUnreviewed = 0, asRemediation = 0, asRemediationVerified = 0,
      asRework = 0, asMean = 0, asMedian = 0, asInsufficient = False\<rparr>"

text \<open>One turn of the loop; each case of the code's switches adds one to its counter.\<close>

definition count_observation :: "string \<Rightarrow> performance_observation \<Rightarrow> agent_summary \<Rightarrow> agent_summary" where
  "count_observation c ob s = s
     \<lparr>asPending := asPending s + of_bool (pfStatus ob = ObservationPending),
      asFinalized := asFinalized s + of_bool (pfStatus ob = ObservationFinalized),
      asCompleted := asCompleted s + of_bool (pfExecution ob = ExecutionCompleted),
      asFailed := asFailed s + of_bool (pfExecution ob = ExecutionFailed),
      asTimedOut := asTimedOut s + of_bool (pfExecution ob = ExecutionTimedOut),
      asCancelled := asCancelled s + of_bool (pfExecution ob = ExecutionCancelled),
      asBlocked := asBlocked s + of_bool (pfExecution ob \<in> {ExecutionBlocked, ExecutionPolicyRejected, ExecutionAuthorizationRejected}),
      asVerified := asVerified s + of_bool (pfQuality ob = QualityVerified),
      asRejected := asRejected s + of_bool (pfQuality ob = QualityRejected),
      asContested := asContested s + of_bool (pfQuality ob = QualityContested),
      asNeedsEvidence := asNeedsEvidence s + of_bool (pfQuality ob = QualityNeedsEvidence),
      asSupported := asSupported s + of_bool (pfQuality ob = QualitySupported),
      asUnreviewed := asUnreviewed s + of_bool (pfQuality ob \<in> {QualityUnreviewed, QualityUnconfirmed}),
      asRework := asRework s + mtRework (pfMetrics ob),
      asRemediation := asRemediation s + of_bool (c = ''remediation''),
      asRemediationVerified := asRemediationVerified s + of_bool (c = ''remediation'' \<and> pfQuality ob = QualityVerified)\<rparr>"

definition positive_durations :: "performance_observation list \<Rightarrow> int list" where
  "positive_durations obs = filter (\<lambda>d. d > 0) (map (\<lambda>ob. mtDuration (pfMetrics ob)) obs)"

definition median :: "int list \<Rightarrow> int" where
  "median ds = sort ds ! (length ds div 2)"

definition summarise :: "agent_id \<Rightarrow> string \<Rightarrow> performance_observation list \<Rightarrow> agent_summary" where
  "summarise a c obs =
     (let s = fold (count_observation c) obs ((empty_summary a c)\<lparr>asCount := int (length obs)\<rparr>);
          ds = positive_durations obs;
          s = (if ds = [] then s else s\<lparr>asMean := sum_list ds div int (length ds), asMedian := median ds\<rparr>) in
      if asCount s < DefaultMinimumObservationCount then s\<lparr>asInsufficient := True\<rparr> else s)"

definition Aggregate ::
  "dataset \<Rightarrow> observation_filter \<Rightarrow> agent_id \<Rightarrow> string \<Rightarrow> perf_error + agent_summary"
where
  "Aggregate ds f a c =
     bind_res (ds (f\<lparr>ofAgent := a, ofTaskClass := c, ofFinalizedOnly := False\<rparr>)) (\<lambda>obs. Inr (summarise a c obs))"

subsection \<open>Model usage\<close>

record model_usage_summary =
  msRouteID :: string
  msModel :: string
  msCount :: int

definition usage_key :: "model_usage_ref \<Rightarrow> string" where
  "usage_key u = muRouteID u @ ''|'' @ muModel u"

text \<open>The map of the loop: a key holds the first route and model it was seen with.\<close>

definition count_usage ::
  "model_usage_ref \<Rightarrow> (string \<times> model_usage_summary) list \<Rightarrow> (string \<times> model_usage_summary) list"
where
  "count_usage u acc =
     (let k = usage_key u;
          s = (case map_of acc k of Some x \<Rightarrow> x | None \<Rightarrow> \<lparr>msRouteID = muRouteID u, msModel = muModel u, msCount = 0\<rparr>) in
      AList.update k (s\<lparr>msCount := msCount s + muCount u\<rparr>) acc)"

definition AggregateModelUsage ::
  "dataset \<Rightarrow> observation_filter \<Rightarrow> perf_error + model_usage_summary list"
where
  "AggregateModelUsage ds f =
     guard_res (filter_validate f)
       (bind_res (ds f) (\<lambda>obs. Inr (sort_key (\<lambda>s. (msRouteID s, msModel s))
          (map snd (fold count_usage (concat (map pfModelUsages obs)) [])))))"

definition modelUsageMatches :: "string \<Rightarrow> string \<Rightarrow> string \<Rightarrow> model_usage_ref \<Rightarrow> bool" where
  "modelUsageMatches route prov model u \<longleftrightarrow>
     (route = [] \<or> muRouteID u = route) \<and> (prov = [] \<or> muProvider u = prov) \<and> (model = [] \<or> muModel u = model)"

definition observationMatchesCohort :: "string \<Rightarrow> string \<Rightarrow> string \<Rightarrow> performance_observation \<Rightarrow> bool" where
  "observationMatchesCohort route prov model ob \<longleftrightarrow>
     (route = [] \<and> prov = [] \<and> model = []) \<or> list_ex (modelUsageMatches route prov model) (pfModelUsages ob)"

record pair_summary =
  psAgent :: agent_id
  psTaskClass :: string
  psRoute :: string
  psProvider :: string
  psModel :: string
  psCount :: int
  psFinalized :: int
  psCompleted :: int
  psFailed :: int
  psTimeout :: int
  psVerified :: int
  psRejected :: int
  psContested :: int
  psNeedsEvidence :: int
  psInference :: int
  psMedian :: int
  psInsufficient :: bool

definition inference_usages :: "string \<Rightarrow> string \<Rightarrow> string \<Rightarrow> performance_observation list \<Rightarrow> int" where
  "inference_usages route prov model obs =
     sum_list (map muCount (filter (modelUsageMatches route prov model) (concat (map pfModelUsages obs))))"

definition how_many :: "('a \<Rightarrow> bool) \<Rightarrow> 'a list \<Rightarrow> int" where
  "how_many P xs = int (length (filter P xs))"

definition AggregatePair ::
  "dataset \<Rightarrow> observation_filter \<Rightarrow> agent_id \<Rightarrow> string \<Rightarrow> string \<Rightarrow> string \<Rightarrow> string \<Rightarrow> perf_error + pair_summary"
where
  "AggregatePair ds f a c route prov model =
     bind_res (ds (f\<lparr>ofAgent := a, ofTaskClass := c, ofFinalizedOnly := False\<rparr>)) (\<lambda>all.
       let obs = filter (observationMatchesCohort route prov model) all; times = positive_durations obs in
       Inr \<lparr>psAgent = a, psTaskClass = c, psRoute = route, psProvider = prov, psModel = model,
            psCount = int (length obs),
            psFinalized = how_many (\<lambda>ob. pfStatus ob = ObservationFinalized) obs,
            psCompleted = how_many (\<lambda>ob. pfExecution ob = ExecutionCompleted) obs,
            psFailed = how_many (\<lambda>ob. pfExecution ob = ExecutionFailed) obs,
            psTimeout = how_many (\<lambda>ob. pfExecution ob = ExecutionTimedOut) obs,
            psVerified = how_many (\<lambda>ob. pfQuality ob = QualityVerified) obs,
            psRejected = how_many (\<lambda>ob. pfQuality ob = QualityRejected) obs,
            psContested = how_many (\<lambda>ob. pfQuality ob = QualityContested) obs,
            psNeedsEvidence = how_many (\<lambda>ob. pfQuality ob = QualityNeedsEvidence) obs,
            psInference = inference_usages route prov model obs,
            psMedian = (if times = [] then 0 else median times),
            psInsufficient = (int (length obs) < DefaultMinimumObservationCount)\<rparr>)"

definition CountModelUsage :: "performance_observation list \<Rightarrow> string \<Rightarrow> string \<Rightarrow> string \<Rightarrow> int \<times> int" where
  "CountModelUsage obs route prov model =
     (how_many (\<lambda>ob. list_ex (modelUsageMatches route prov model) (pfModelUsages ob)) obs,
      inference_usages route prov model obs)"


subsection \<open>The deterministic advisor\<close>

datatype confidence_band = ConfidenceInsufficient | ConfidenceLow | ConfidenceModerate | ConfidenceStrong

record agent_recommendation =
  rcAgent :: agent_id
  rcConfidence :: confidence_band
  rcReasons :: "msg list"

record deterministic_advisor =
  daDataset :: dataset
  daTenant :: string
  daMinimum :: int
  daPolicyVersion :: string
  daPairEvidence :: bool

definition minObs :: "deterministic_advisor \<Rightarrow> int" where
  "minObs ad = (if daMinimum ad > 0 then daMinimum ad else DefaultMinimumObservationCount)"

definition policyVersion :: "deterministic_advisor \<Rightarrow> string" where
  "policyVersion ad = (if daPolicyVersion ad \<noteq> [] then daPolicyVersion ad else ''performance-v1'')"

definition ratio :: "int \<Rightarrow> int \<Rightarrow> rat" where
  "ratio a b = (if b = 0 then 0 else of_int a / of_int b)"

type_synonym scored = "agent_id \<times> agent_summary"

text \<open>The comparison of the code's sort: the first criterion that differs decides.\<close>

definition ranks_before :: "scored \<Rightarrow> scored \<Rightarrow> bool" where
  "ranks_before x y =
     (let i = snd x; j = snd y;
          vi = ratio (asVerified i) (asFinalized i); vj = ratio (asVerified j) (asFinalized j);
          ri = ratio (asRejected i) (asFinalized i); rj = ratio (asRejected j) (asFinalized j);
          fi = ratio (asFailed i + asTimedOut i) (asCount i); fj = ratio (asFailed j + asTimedOut j) (asCount j) in
      if vi \<noteq> vj then vi > vj
      else if ri \<noteq> rj then ri < rj
      else if fi \<noteq> fj then fi < fj
      else if asRework i \<noteq> asRework j then asRework i < asRework j
      else if asMedian i \<noteq> asMedian j then asMedian i < asMedian j
      else fst x < fst y)"

fun insert_ranked :: "('a \<Rightarrow> 'a \<Rightarrow> bool) \<Rightarrow> 'a \<Rightarrow> 'a list \<Rightarrow> 'a list" where
  "insert_ranked lt x [] = [x]"
| "insert_ranked lt x (y # ys) = (if lt y x then y # insert_ranked lt x ys else x # y # ys)"

definition sort_slice :: "('a \<Rightarrow> 'a \<Rightarrow> bool) \<Rightarrow> 'a list \<Rightarrow> 'a list" where
  "sort_slice lt xs = foldr (insert_ranked lt) xs []"

definition confidenceFor :: "agent_summary \<Rightarrow> int \<Rightarrow> confidence_band" where
  "confidenceFor s m =
     (if asFinalized s < m then ConfidenceLow
      else
        let dominant = (if asRejected s > asVerified s then asRejected s else asVerified s) in
        if asFinalized s \<ge> 2 * m \<and> ratio dominant (asFinalized s) \<ge> 4 / 5 then ConfidenceStrong
        else ConfidenceModerate)"

text \<open>\<open>dur\<close> renders a duration.\<close>

definition reasonsFor :: "(int \<Rightarrow> string) \<Rightarrow> agent_summary \<Rightarrow> msg list" where
  "reasonsFor dur s =
     [Msg ''%d finalized %s observations (n=%d total)'' [AI (asFinalized s), AS (asTaskClass s), AI (asCount s)],
      Msg ''%d verified, %d rejected, %d contested, %d needs_evidence''
        [AI (asVerified s), AI (asRejected s), AI (asContested s), AI (asNeedsEvidence s)],
      Msg ''%d failed, %d timed out'' [AI (asFailed s), AI (asTimedOut s)],
      Msg ''median duration %s, total rework %d'' [AS (dur (asMedian s)), AI (asRework s)]]"

definition tenant_filter :: "string \<Rightarrow> observation_filter" where
  "tenant_filter tenant =
     \<lparr>ofTenant = tenant, ofAllTenants = False, ofTaskClass = [], ofAgent = [], ofTaskID = [], ofFinalizedOnly = False\<rparr>"

text \<open>The usage with the highest count, the first of them when several have it.\<close>

definition top_usage :: "model_usage_summary \<Rightarrow> model_usage_summary list \<Rightarrow> model_usage_summary" where
  "top_usage u us = fold (\<lambda>x best. if msCount x > msCount best then x else best) us u"

definition pairEvidenceReason ::
  "dataset \<Rightarrow> string \<Rightarrow> agent_id \<Rightarrow> string \<Rightarrow> int \<Rightarrow> msg option"
where
  "pairEvidenceReason ds tenant a c m =
     (case AggregateModelUsage ds ((tenant_filter tenant)\<lparr>ofAgent := a, ofTaskClass := c\<rparr>) of
        Inl e \<Rightarrow> None
      | Inr [] \<Rightarrow> None
      | Inr (u # us) \<Rightarrow>
          let top_u = top_usage u (u # us) in
          (case AggregatePair ds (tenant_filter tenant) a c (msRouteID top_u) [] (msModel top_u) of
             Inl e \<Rightarrow> None
           | Inr pair \<Rightarrow>
               if psCount pair < m then None
               else Some (Msg ''observed evidence: %d of %d finalized runs involved route %q (%d verified, %d rejected) - observational, not a model selection''
                 [AI (psCount pair), AI (psFinalized pair), AS (msRouteID top_u), AI (psVerified pair), AI (psRejected pair)])))"

definition recommend_sufficient :: "deterministic_advisor \<Rightarrow> (int \<Rightarrow> string) \<Rightarrow> string \<Rightarrow> scored \<Rightarrow> agent_recommendation" where
  "recommend_sufficient ad dur c x =
     \<lparr>rcAgent = fst x, rcConfidence = confidenceFor (snd x) (minObs ad),
      rcReasons = reasonsFor dur (snd x) @
        (if daPairEvidence ad
         then (case pairEvidenceReason (daDataset ad) (daTenant ad) (fst x) c (minObs ad) of None \<Rightarrow> [] | Some m \<Rightarrow> [m])
         else [])\<rparr>"

definition recommend_cold :: "scored \<Rightarrow> agent_recommendation" where
  "recommend_cold x =
     \<lparr>rcAgent = fst x, rcConfidence = ConfidenceInsufficient,
      rcReasons = [Msg ''insufficient historical data (%d observations) - cold start, not penalized'' [AI (asCount (snd x))]]\<rparr>"

text \<open>An aggregation that fails counts as a cold start.\<close>

definition score :: "deterministic_advisor \<Rightarrow> string \<Rightarrow> agent_candidate \<Rightarrow> scored" where
  "score ad c cand =
     (case Aggregate (daDataset ad) (tenant_filter (daTenant ad)) (fst cand) c of
        Inl e \<Rightarrow> (fst cand, (empty_summary (fst cand) c)\<lparr>asInsufficient := True\<rparr>)
      | Inr s \<Rightarrow> (fst cand, s))"

definition AdviseDeterministic ::
  "deterministic_advisor \<Rightarrow> taxonomy \<Rightarrow> (int \<Rightarrow> string) \<Rightarrow> task \<Rightarrow> agent_candidate list \<Rightarrow>
     msg + agent_recommendation list \<times> string"
where
  "AdviseDeterministic ad tax dur t cands =
     (let c = tType t in
      guard_res (require (daTenant ad \<noteq> []) (plain ''advisor requires an explicit tenant scope''))
     (guard_res (require (tTenant t = [] \<or> tTenant t = daTenant ad)
        (Msg ''task tenant %q does not match advisor tenant scope %q - refusing cross-tenant advice''
          [AS (tTenant t), AS (daTenant ad)]))
     (guard_res (require (KnownTaskClass tax c)
        (Msg ''unknown task class %q - cannot compare performance without a task class'' [AS c]))
       (if cands = [] then Inr ([], [])
        else
          let scores = map (score ad c) cands;
              sufficient = filter (\<lambda>x. \<not> asInsufficient (snd x)) scores;
              cold = filter (\<lambda>x. asInsufficient (snd x)) scores in
          if sufficient = [] then Inr ([], ''all_cold_start_fallback'')
          else Inr (map (recommend_sufficient ad dur c) (sort_slice ranks_before sufficient) @
                    map recommend_cold (sort_slice (\<lambda>x y. fst x < fst y) cold), policyVersion ad)))))"

text \<open>The advisor as the scheduler sees it.\<close>

definition as_advisor :: "deterministic_advisor \<Rightarrow> taxonomy \<Rightarrow> (int \<Rightarrow> string) \<Rightarrow> advisor" where
  "as_advisor ad tax dur =
     \<lparr>Advise = (\<lambda>t cands. map_sum id (\<lambda>(rs, b). (map rcAgent rs, b)) (AdviseDeterministic ad tax dur t cands)),
      adIdentity = Some (''performance'', policyVersion ad)\<rparr>"

subsection \<open>Order independence\<close>

lemma count_observation_commute:
  "count_observation c x (count_observation c y s) = count_observation c y (count_observation c x s)"
  by (simp add: count_observation_def add_ac)

lemma fold_count_mset: "mset xs = mset ys \<Longrightarrow> fold (count_observation c) xs = fold (count_observation c) ys"
  by (rule fold_multiset_equiv) (auto simp: fun_eq_iff count_observation_commute)

lemma positive_durations_mset:
  "mset xs = mset ys \<Longrightarrow> mset (positive_durations xs) = mset (positive_durations ys)"
  by (simp add: positive_durations_def)

lemma median_mset: "mset xs = mset ys \<Longrightarrow> median xs = median ys"
  unfolding median_def by (metis mset_eq_length sorted_list_of_multiset_mset)

lemma summarise_mset:
  assumes "mset xs = mset ys"
  shows "summarise a c xs = summarise a c ys"
proof -
  have d: "mset (positive_durations xs) = mset (positive_durations ys)" by (rule positive_durations_mset [OF assms])
  have "length xs = length ys" "length (positive_durations xs) = length (positive_durations ys)"
    "sum_list (positive_durations xs) = sum_list (positive_durations ys)"
    "positive_durations xs = [] \<longleftrightarrow> positive_durations ys = []"
    using assms d by (auto dest: mset_eq_length simp flip: sum_mset_sum_list)
  then show ?thesis
    by (simp only: summarise_def Let_def fold_count_mset [OF assms, of c] median_mset [OF d])
qed


subsection \<open>The counts as a specification\<close>

lemma how_many_Cons [simp]: "how_many P [] = 0" "how_many P (x # xs) = of_bool (P x) + how_many P xs"
  by (simp_all add: how_many_def)

lemma how_many_mset: "mset xs = mset ys \<Longrightarrow> how_many P xs = how_many P ys"
  unfolding how_many_def by (metis mset_eq_length mset_filter)

lemma how_many_all: "(\<And>x. P x) \<Longrightarrow> how_many P xs = int (length xs)"
  by (simp add: how_many_def)

lemma how_many_disj:
  "(\<And>x. \<not> (P x \<and> Q x)) \<Longrightarrow> how_many (\<lambda>x. P x \<or> Q x) xs = how_many P xs + how_many Q xs"
  by (induction xs) auto

lemma fold_counts:
  "asCount (fold (count_observation c) obs s) = asCount s"
  "asPending (fold (count_observation c) obs s) = asPending s + how_many (\<lambda>ob. pfStatus ob = ObservationPending) obs"
  "asFinalized (fold (count_observation c) obs s) = asFinalized s + how_many (\<lambda>ob. pfStatus ob = ObservationFinalized) obs"
  "asCompleted (fold (count_observation c) obs s) = asCompleted s + how_many (\<lambda>ob. pfExecution ob = ExecutionCompleted) obs"
  "asFailed (fold (count_observation c) obs s) = asFailed s + how_many (\<lambda>ob. pfExecution ob = ExecutionFailed) obs"
  "asTimedOut (fold (count_observation c) obs s) = asTimedOut s + how_many (\<lambda>ob. pfExecution ob = ExecutionTimedOut) obs"
  "asVerified (fold (count_observation c) obs s) = asVerified s + how_many (\<lambda>ob. pfQuality ob = QualityVerified) obs"
  "asRejected (fold (count_observation c) obs s) = asRejected s + how_many (\<lambda>ob. pfQuality ob = QualityRejected) obs"
  by (induction obs arbitrary: s) (simp_all add: count_observation_def)

lemma summarise_counts:
  "asCount (summarise a c obs) = int (length obs)"
  "asPending (summarise a c obs) = how_many (\<lambda>ob. pfStatus ob = ObservationPending) obs"
  "asFinalized (summarise a c obs) = how_many (\<lambda>ob. pfStatus ob = ObservationFinalized) obs"
  "asCompleted (summarise a c obs) = how_many (\<lambda>ob. pfExecution ob = ExecutionCompleted) obs"
  "asFailed (summarise a c obs) = how_many (\<lambda>ob. pfExecution ob = ExecutionFailed) obs"
  "asTimedOut (summarise a c obs) = how_many (\<lambda>ob. pfExecution ob = ExecutionTimedOut) obs"
  "asVerified (summarise a c obs) = how_many (\<lambda>ob. pfQuality ob = QualityVerified) obs"
  "asRejected (summarise a c obs) = how_many (\<lambda>ob. pfQuality ob = QualityRejected) obs"
  by (simp_all add: summarise_def Let_def fold_counts empty_summary_def)

lemma summarise_insufficient:
  "asInsufficient (summarise a c obs) \<longleftrightarrow> int (length obs) < DefaultMinimumObservationCount"
proof -
  have "asInsufficient (fold (count_observation c) obs s) = asInsufficient s" for s
    by (induction obs arbitrary: s) (simp_all add: count_observation_def)
  then show ?thesis by (simp add: summarise_def Let_def fold_counts empty_summary_def)
qed

lemma status_partition:
  "how_many (\<lambda>ob. pfStatus ob = ObservationPending) obs + how_many (\<lambda>ob. pfStatus ob = ObservationFinalized) obs =
     int (length obs)"
  by (induction obs) (auto intro: observation_status.exhaust)

lemma filter_shuffle: "is_shuffle ord \<Longrightarrow> mset (filter P (ord xs)) = mset (filter P xs)"
  by (simp add: is_shuffle_mset)

lemma stored_query_mset:
  assumes "is_shuffle ord" and "StoreDataset ord st f = Inr xs"
  shows "mset xs = mset (filter (filter_matches f) (map snd st))"
  using assms filter_shuffle [of ord "filter_matches f" "map snd st"] by (simp add: StoreDataset_def PerfQuery_Inr)

lemma Aggregate_stored:
  assumes "is_shuffle ord"
  shows "Aggregate (StoreDataset ord st) f a c =
    (if ofAllTenants f \<or> ofTenant f \<noteq> []
     then Inr (summarise a c (filter (in_scope (f\<lparr>ofAgent := a, ofTaskClass := c\<rparr>)) (map snd st)))
     else Inl (CrossTenantQueryDenied ''no tenant specified and AllTenants not explicitly set''))"
proof -
  let ?f = "f\<lparr>ofAgent := a, ofTaskClass := c, ofFinalizedOnly := False\<rparr>"
  have "filter_matches ?f = in_scope (f\<lparr>ofAgent := a, ofTaskClass := c\<rparr>)"
    by (simp add: fun_eq_iff filter_matches_def in_scope_def)
  then have "summarise a c (filter (filter_matches ?f) (ord (map snd st))) =
      summarise a c (filter (in_scope (f\<lparr>ofAgent := a, ofTaskClass := c\<rparr>)) (map snd st))"
    using filter_shuffle [OF assms] by (intro summarise_mset) simp
  then show ?thesis
    by (simp add: Aggregate_def StoreDataset_def PerfQuery_def filter_validate_def require_def guard_res_def)
qed

text \<open>
  The aggregate of an agent over the store does not depend on the order in which the store
  is visited. A query without a tenant is refused; otherwise every count is the number of stored
  observations of the tenant, agent and class with that status, outcome or quality, the pending
  and the finalized ones add up to all of them, and fewer than ten are marked insufficient.
\<close>

theorem aggregate_counts_the_store:
  assumes "is_shuffle ord"
  shows "case Aggregate (StoreDataset ord st) f a c of
      Inl e \<Rightarrow> ofTenant f = [] \<and> \<not> ofAllTenants f \<and> perf_error_class e = ''cross_tenant_query_denied''
    | Inr s \<Rightarrow> (let obs = filter (in_scope (f\<lparr>ofAgent := a, ofTaskClass := c\<rparr>)) (map snd st) in
        s = summarise a c obs \<and> asCount s = int (length obs) \<and> asPending s + asFinalized s = asCount s \<and>
        asCompleted s = how_many (\<lambda>ob. pfExecution ob = ExecutionCompleted) obs \<and>
        asFailed s = how_many (\<lambda>ob. pfExecution ob = ExecutionFailed) obs \<and>
        asVerified s = how_many (\<lambda>ob. pfQuality ob = QualityVerified) obs \<and>
        asRejected s = how_many (\<lambda>ob. pfQuality ob = QualityRejected) obs \<and>
        (asInsufficient s \<longleftrightarrow> length obs < 10))"
  unfolding Aggregate_stored [OF assms]
  by (simp add: summarise_counts summarise_insufficient status_partition Let_def DefaultMinimumObservationCount_def)

theorem aggregate_counts_the_store_witness:
  "case Aggregate (StoreDataset rev (fold (perf_step sample_lib default_taxonomy) sample_events []))
      (tenant_filter ''acme'') ''ann'' ''debugging'' of
     Inl e \<Rightarrow> False | Inr s \<Rightarrow> asPending s + asFinalized s = asCount s"
proof -
  have "is_shuffle (rev :: performance_observation range_order)" by simp
  from aggregate_counts_the_store [OF this, where st = "fold (perf_step sample_lib default_taxonomy) sample_events []"
      and f = "tenant_filter ''acme''" and a = "''ann''" and c = "''debugging''"]
  show ?thesis by (auto simp: tenant_filter_def Let_def split: sum.splits)
qed

subsection \<open>The ranking\<close>

definition rank_key :: "scored \<Rightarrow> rat \<times> rat \<times> rat \<times> int \<times> int \<times> string" where
  "rank_key x =
     (let i = snd x in
      (- ratio (asVerified i) (asFinalized i), ratio (asRejected i) (asFinalized i),
       ratio (asFailed i + asTimedOut i) (asCount i), asRework i, asMedian i, fst x))"

lemma ranks_before_key: "ranks_before x y \<longleftrightarrow> rank_key x < rank_key y"
  by (auto simp: ranks_before_def rank_key_def Let_def less_prod_def)

lemma insert_ranked_key:
  "(\<And>x y. lt x y \<longleftrightarrow> k x < (k y :: 'b :: linorder)) \<Longrightarrow> insert_ranked lt x ys = insort_key k x ys"
  by (induction ys) (auto simp: not_less)

lemma sort_slice_key:
  assumes "\<And>x y. lt x y \<longleftrightarrow> k x < (k y :: 'b :: linorder)"
  shows "sort_slice lt xs = sort_key k xs"
  by (induction xs) (simp_all add: sort_slice_def insert_ranked_key [OF assms])

lemma sort_ranks: "sort_slice ranks_before = sort_key rank_key"
  by (rule ext, rule sort_slice_key) (rule ranks_before_key)

lemma sort_cold: "sort_slice (\<lambda>x y. fst x < fst y) = sort_key (fst :: scored \<Rightarrow> string)"
  by (rule ext, rule sort_slice_key) (rule refl)

lemma fst_score [simp]: "fst (score ad c cand) = fst cand"
  by (simp add: score_def split: sum.splits)

lemma score_inj: "fst x = fst y \<Longrightarrow> score ad c x = score ad c y"
  by (simp only: score_def)


lemma scores_mset:
  assumes "mset cands = mset cands'"
  shows "sort_key rank_key (filter P (map (score ad c) cands)) = sort_key rank_key (filter P (map (score ad c) cands'))"
    and "sort_key fst (filter P (map (score ad c) cands)) = sort_key fst (filter P (map (score ad c) cands'))"
proof -
  have m: "mset (filter P (map (score ad c) cands)) = mset (filter P (map (score ad c) cands'))"
    using assms by simp
  have eq: "x = y" if "x \<in> set (map (score ad c) cands)" "y \<in> set (map (score ad c) cands)" "fst x = fst y" for x y
  proof -
    from that(1,2) obtain p q where "x = score ad c p" "y = score ad c q" by auto
    with that(3) score_inj [of p q ad c] show ?thesis by simp
  qed
  have "inj_on fst (set (filter P (map (score ad c) cands)))"
    by (rule inj_onI) (rule eq, auto)
  then show "sort_key fst (filter P (map (score ad c) cands)) = sort_key fst (filter P (map (score ad c) cands'))"
    by (intro sort_key_inj_key_eq) (simp_all add: assms)
  have "inj_on rank_key (set (filter P (map (score ad c) cands)))"
    by (rule inj_onI) (rule eq, auto simp: rank_key_def Let_def)
  then show "sort_key rank_key (filter P (map (score ad c) cands)) = sort_key rank_key (filter P (map (score ad c) cands'))"
    by (intro sort_key_inj_key_eq) (simp_all add: assms)
qed

lemma advise_mset:
  assumes "mset cands = mset cands'"
  shows "AdviseDeterministic ad tax dur t cands = AdviseDeterministic ad tax dur t cands'"
proof -
  have "filter P (map (score ad c) cands) = [] \<longleftrightarrow> filter P (map (score ad c) cands') = []" for P c
    using assms by (metis mset_filter mset_map mset_zero_iff)
  moreover have "cands = [] \<longleftrightarrow> cands' = []" using assms by auto
  ultimately show ?thesis
    by (simp only: AdviseDeterministic_def Let_def sort_ranks sort_cold scores_mset [OF assms])
qed

lemma advise_Inr:
  assumes "AdviseDeterministic ad tax dur t cands = Inr (rs, basis)" and "rs \<noteq> []"
  obtains hot cold where "hot = sort_key rank_key (filter (\<lambda>x. \<not> asInsufficient (snd x)) (map (score ad (tType t)) cands))"
    and "cold = sort_key fst (filter (\<lambda>x. asInsufficient (snd x)) (map (score ad (tType t)) cands))"
    and "hot \<noteq> []" and "rs = map (recommend_sufficient ad dur (tType t)) hot @ map recommend_cold cold"
    and "basis = policyVersion ad" and "daTenant ad \<noteq> []" and "tTenant t \<in> {[], daTenant ad}"
proof -
  let ?h = "filter (\<lambda>x. \<not> asInsufficient (snd x)) (map (score ad (tType t)) cands)"
  have "set (sort_key rank_key ?h) = set ?h" by simp
  then have "sort_key rank_key ?h = [] \<longleftrightarrow> ?h = []" by (metis set_empty)
  with assms that show ?thesis
    by (auto simp: AdviseDeterministic_def Let_def sort_ranks sort_cold split: if_splits)
qed

lemma confidence_not_insufficient: "confidenceFor s m \<noteq> ConfidenceInsufficient"
  by (simp add: confidenceFor_def Let_def)

text \<open>
  An advice that ranks anybody ranks every candidate exactly once and nobody else. Those
  with enough observations of the advisor's own tenant come first, and none of them stands
  behind one that the ranking rule puts after it; the others follow in the order of their names,
  marked as insufficient. The advice does not depend on the order of the candidates.
\<close>

theorem advice_ranks_every_candidate_once:
  assumes "AdviseDeterministic ad tax dur t cands = Inr (rs, basis)" and "rs \<noteq> []" and "mset cands' = mset cands"
  shows "mset (map rcAgent rs) = mset (map fst cands) \<and> basis = policyVersion ad \<and> tTenant t \<in> {[], daTenant ad} \<and>
    (\<exists>hot cold. rs = map (recommend_sufficient ad dur (tType t)) hot @ map recommend_cold cold \<and> hot \<noteq> [] \<and>
       sorted_wrt (\<lambda>x y. \<not> ranks_before y x) hot \<and> sorted (map fst cold) \<and>
       (\<forall>x \<in> set hot. \<not> asInsufficient (snd x)) \<and> (\<forall>x \<in> set cold. asInsufficient (snd x))) \<and>
    AdviseDeterministic ad tax dur t cands' = Inr (rs, basis)"
proof -
  let ?s = "map (score ad (tType t)) cands"
  from assms(1,2) obtain hot cold where hot: "hot = sort_key rank_key (filter (\<lambda>x. \<not> asInsufficient (snd x)) ?s)" "hot \<noteq> []"
    and cold: "cold = sort_key fst (filter (\<lambda>x. asInsufficient (snd x)) ?s)"
    and rs: "rs = map (recommend_sufficient ad dur (tType t)) hot @ map recommend_cold cold"
    and b: "basis = policyVersion ad" "tTenant t \<in> {[], daTenant ad}"
    by (rule advise_Inr)
  have "mset hot + mset cold = mset ?s"
    by (simp add: hot(1) cold)
  then have "mset (map fst (hot @ cold)) = mset (map fst ?s)" by (metis mset_append mset_map)
  moreover have "map rcAgent rs = map fst (hot @ cold)"
    by (simp add: rs recommend_sufficient_def recommend_cold_def comp_def)
  moreover have "map fst ?s = map fst cands" by (simp add: comp_def)
  ultimately have "mset (map rcAgent rs) = mset (map fst cands)" by metis
  moreover have "sorted_wrt (\<lambda>x y. \<not> ranks_before y x) hot"
    using sorted_sort_key [of rank_key "filter (\<lambda>x. \<not> asInsufficient (snd x)) ?s"]
    by (simp add: hot(1) ranks_before_key not_less sorted_map)
  moreover have "sorted (map fst cold)" by (simp add: cold)
  ultimately show ?thesis
    using b rs hot cold assms(1) advise_mset [OF assms(3)] by fastforce
qed


definition busy_store :: perf_store where
  "busy_store = fold (perf_step sample_lib default_taxonomy)
     (map (\<lambda>e. PExecuted 1 (sample_input [e] ''ann'')) ''abcdefghij'') []"

definition sample_advisor :: deterministic_advisor where
  "sample_advisor = \<lparr>daDataset = StoreDataset rev busy_store, daTenant = ''acme'', daMinimum = 0, daPolicyVersion = [],
     daPairEvidence = False\<rparr>"

definition sample_review_task :: task where
  "sample_review_task = (sample_task ''t'' [] [])\<lparr>tType := ''debugging''\<rparr>"

theorem advice_ranks_every_candidate_once_witness:
  "\<exists>rs basis. AdviseDeterministic sample_advisor default_taxonomy (\<lambda>_. []) sample_review_task [(''zoe'', []), (''ann'', [])] = Inr (rs, basis) \<and>
     mset (map rcAgent rs) = {#''ann'', ''zoe''#}"
proof -
  let ?c = "[(''zoe'', []), (''ann'', [])] :: agent_candidate list"
  let ?a = "AdviseDeterministic sample_advisor default_taxonomy (\<lambda>_. []) sample_review_task"
  have "map_sum (\<lambda>_. ()) (\<lambda>(rs, b). length rs) (?a ?c) = Inr 2" by code_simp
  then obtain rs basis where "?a ?c = Inr (rs, basis)" "length rs = 2" by (cases "?a ?c") auto
  then have a: "?a ?c = Inr (rs, basis)" "rs \<noteq> []" by auto
  from advice_ranks_every_candidate_once [OF a, of "rev ?c"] a show ?thesis by auto
qed

end
