(* ===== verification/Admission.thy ===== *)
theory Admission
  imports Experiment
begin

text \<open>
  What the experiment control plane guarantees. Every call of the controller is a sequence of
  the store's atomic calls, so the ledger invariant of \<open>Experiment\<close> holds after any
  interleaving of admissions, completions, cancellations and outcomes.
\<close>

subsection \<open>The controller's calls as sequences of store calls\<close>

lemma Reserve_event: "ReserveBudget i d now s = (s', r) \<Longrightarrow> s' = store_step (XReserve i d now) s"
  by (metis fst_conv store_step.simps(2))

lemma deny_events:
  "fst (deny r code s) =
     fold store_step [XAudit \<lparr>xuExperimentID = rqExperimentID r, xuDecisionID = rqDecisionID r,
        xuEvent = ''admission_denied'', xuReason = reason_string code, xuAt = rqNow r\<rparr>,
        XCount (rqExperimentID r) (rqNow r) CountChampionRouted] s"
  by (simp add: deny_def audit_event_def)

lemma deny_result:
  "fst (snd (deny r code s)) =
     champion_only (rqExperimentID r) (rqDecisionID r) (rqChampion r) (reason_string code) code"
  "snd (snd (deny r code s)) = None"
  by (simp_all add: deny_def)

definition ran :: "experiment_store \<Rightarrow> experiment_store \<Rightarrow> bool" where
  "ran s s' \<longleftrightarrow> (\<exists>evs. s' = fold store_step evs s)"

lemma ran_refl [simp, intro]: "ran s s"
  unfolding ran_def by (rule exI [of _ "[]"]) simp

lemma ran_trans: "ran s t \<Longrightarrow> ran t u \<Longrightarrow> ran s u"
  unfolding ran_def by (metis fold_append o_apply)

lemma ran_step: "ran s t \<Longrightarrow> ran s (store_step e t)"
  by (rule ran_trans) (auto simp: ran_def intro: exI [of _ "[e]"])

lemma ran_calls:
  "ran s t \<Longrightarrow> ran s (mutateCounters i now c t)"
  "ran s t \<Longrightarrow> ran s (AuditExperiment u t)"
  "ran s t \<Longrightarrow> ran s (audit_event r ev reason t)"
  "ran s t \<Longrightarrow> ran s (fst (ReserveBudget i d now t))"
  "ran s t \<Longrightarrow> ran s (fst (ReleaseBudget i d now t))"
  "ran s t \<Longrightarrow> ran s (fst (ConsumeBudget i d now t))"
  "ran s t \<Longrightarrow> ran s (fst (SaveAdmission a t))"
  using ran_step [of s t "XCount i now c"] ran_step [of s t "XAudit u"] ran_step [of s t "XReserve i d now"]
    ran_step [of s t "XRelease i d now"] ran_step [of s t "XConsume i d now"] ran_step [of s t "XSaveAdmission a"]
    ran_step [of s t "XAudit \<lparr>xuExperimentID = rqExperimentID r, xuDecisionID = rqDecisionID r, xuEvent = ev,
                      xuReason = reason, xuAt = rqNow r\<rparr>"]
  by (simp_all add: audit_event_def)

lemma ran_pairs:
  "ReserveBudget i d now t = (u, x) \<Longrightarrow> ran s t \<Longrightarrow> ran s u"
  "SaveAdmission a t = (u, y) \<Longrightarrow> ran s t \<Longrightarrow> ran s u"
  using ran_calls(4) [of s t i d now] ran_calls(7) [of s t a] by simp_all

lemma ran_deny: "ran s t \<Longrightarrow> ran s (fst (deny r code t))"
  by (simp add: deny_def ran_calls)

lemma Admit_ran: "ran s (fst (Admit hash r s))"
  by (auto simp: Admit_def allocate_def Let_def intro!: ran_deny ran_calls
      intro: ran_pairs split: sum.splits option.splits prod.splits bool.splits)

lemma outcome_ran:
  "ran s (fst (CompleteAdmission a now s))" "ran s (fst (CancelAdmission a now s))"
  "ran s (RecordChallengerExecutionOutcome i out nm now s)" "ran s (RecordChallengerReviewOutcome i q now s)"
  by (auto simp: CompleteAdmission_def CancelAdmission_def RecordChallengerExecutionOutcome_def
      RecordChallengerReviewOutcome_def Let_def intro!: ran_calls)

lemma ran_ledger: "ran s s' \<Longrightarrow> ledger s \<Longrightarrow> ledger s'"
  by (auto simp: ran_def experiment_life.run_inv)

lemma ran_advances: "ran s s' \<Longrightarrow> ledger s \<Longrightarrow> experiment_advances s s'"
  by (auto simp: ran_def experiment_life.run_rel)


subsection \<open>A concrete experiment\<close>

definition sample_definition :: experiment_definition where
  "sample_definition =
     \<lparr>xdID = ''exp'', xdTenant = ''acme'', xdTaskClass = [], xdRisk = [],
      xdChampionPolicy = \<lparr>rpID = ''legacy'', rpVersion = ''v1'', rpSemantics = [], rpFingerprint = [], rpScheme = []\<rparr>,
      xdChallengerPolicy = \<lparr>rpID = ''perf'', rpVersion = ''v1'', rpSemantics = [], rpFingerprint = ''f'',
        rpScheme = FingerprintSchemeCanonicalV2\<rparr>,
      xdChallenger = ''bob'', xdMaxExecutions = 2, xdMaxConcurrent = 1, xdPercent = 100, xdSemantics = [],
      xdStopAfter = 0, xdMaxFailures = 0, xdCreatedAt = 0\<rparr>"

definition sample_experiment :: experiment_data where
  "sample_experiment =
     \<lparr>xpDef = sample_definition, xpState = ExperimentEnabled, xpExecuted = 0, xpReserved = 0, xpConsumed = 0,
      xpReleased = 0, xpUpdatedAt = 0, xpEligible = 0, xpChampionRouted = 0, xpCompleted = 0, xpFailed = 0,
      xpTimedOut = 0, xpVerified = 0, xpRejected = 0, xpContested = 0, xpMissing = 0, xpTotalFailures = 0\<rparr>"

definition sample_request :: "string \<Rightarrow> int \<Rightarrow> admission_request" where
  "sample_request did now =
     \<lparr>rqExperimentID = ''exp'', rqDecisionID = did, rqTenant = ''acme'', rqTask = sample_task ''t'' [] [] \<lparr>tTenant := ''acme''\<rparr>,
      rqSnapshot = \<lparr>snDecisionID = did, snTenant = ''acme'', snTaskID = ''t'', snTaskClass = [], snCapturedAt = 0,
        snAgentIDs = [''ann'', ''bob'']\<rparr>,
      rqChampion = ''ann'', rqChallenger = ''bob'', rqPolicy = xdChallengerPolicy sample_definition, rqRisk = [], rqNow = now\<rparr>"

definition sample_hash :: "string \<Rightarrow> char list" where
  "sample_hash x = [CHR 0x01, CHR 0x02]"

lemma new_sample [simp]: "new_experiment (sample_experiment\<lparr>xpState := st\<rparr>)"
proof -
  have "nul_free ''exp''" by code_simp
  then show ?thesis by (simp add: new_experiment_def sample_experiment_def sample_definition_def)
qed

abbreviation sample_store :: experiment_store where
  "sample_store \<equiv> fold store_step [XCreate sample_experiment] NewMemoryExperimentStore"

text \<open>
  The budget of an experiment holds after any interleaving of creations, reservations,
  releases, consumptions, admissions, audits and counter updates from the empty store: what is
  reserved is what was consumed plus the reservations still live, the executions ever granted
  stay within \<open>MaxExecutions\<close> and the live ones within \<open>MaxConcurrent\<close>.
\<close>

theorem experiment_budget:
  assumes "xsExperiments (fold store_step evs NewMemoryExperimentStore) i = Some e"
  shows "xpReserved e = xpConsumed e + int (card (live i (xsReservations (fold store_step evs NewMemoryExperimentStore)))) \<and>
    within_limit (xdMaxExecutions (xpDef e)) (xpReserved e) \<and>
    within_limit (xdMaxConcurrent (xpDef e))
      (int (card (live i (xsReservations (fold store_step evs NewMemoryExperimentStore))))) \<and>
    xpExecuted e = xpConsumed e \<and> 0 \<le> xpConsumed e"
proof -
  have "ledger (fold store_step evs NewMemoryExperimentStore)" by (rule experiment_life.run_inv) simp
  from ledgerD [OF this assms] show ?thesis by (auto simp: account_ok_def)
qed

theorem experiment_budget_witness:
  "xpReserved (the (xsExperiments (fold store_step
       [XCreate sample_experiment, XReserve ''exp'' ''d1'' 1, XReserve ''exp'' ''d2'' 2, XConsume ''exp'' ''d1'' 3]
       NewMemoryExperimentStore) ''exp'')) \<le> 2"
proof -
  let ?s = "fold store_step
       [XCreate sample_experiment, XReserve ''exp'' ''d1'' 1, XReserve ''exp'' ''d2'' 2, XConsume ''exp'' ''d1'' 3]
       NewMemoryExperimentStore"
  have "map_option xpDef (xsExperiments ?s ''exp'') = Some sample_definition" by code_simp
  then obtain e where e: "xsExperiments ?s ''exp'' = Some e" "xpDef e = sample_definition" by auto
  from experiment_budget [OF e(1)] e show ?thesis by (simp add: within_limit_def sample_definition_def)
qed

text \<open>
  Once an experiment is not enabled (paused, stopped, exhausted, killed) it stays so under
  every later sequence of calls: no new reservation becomes live, nothing already consumed is
  undone, and every admission request for it is answered with the champion.
\<close>

theorem closed_experiment_admits_nobody:
  assumes "xsExperiments (fold store_step evs NewMemoryExperimentStore) i = Some e" and "xpState e \<noteq> ExperimentEnabled"
    and "rqExperimentID r = i"
  shows "\<exists>e'. xsExperiments (fold store_step (evs @ later) NewMemoryExperimentStore) i = Some e' \<and>
      xpState e' \<noteq> ExperimentEnabled \<and> xpConsumed e \<le> xpConsumed e' \<and>
      live i (xsReservations (fold store_step (evs @ later) NewMemoryExperimentStore)) \<subseteq>
        live i (xsReservations (fold store_step evs NewMemoryExperimentStore)) \<and>
      xaSelected (fst (snd (Admit hash r (fold store_step (evs @ later) NewMemoryExperimentStore)))) = rqChampion r \<and>
      \<not> xaChallenger (fst (snd (Admit hash r (fold store_step (evs @ later) NewMemoryExperimentStore))))"
proof -
  let ?s = "fold store_step evs NewMemoryExperimentStore" and ?t = "fold store_step (evs @ later) NewMemoryExperimentStore"
  have "ledger ?s" by (rule experiment_life.run_inv) simp
  then have "experiment_advances ?s ?t" using experiment_life.run_rel [of ?s later] by simp
  then obtain e' where "xsExperiments ?t i = Some e'"
      "carried e (live i (xsReservations ?s)) e' (live i (xsReservations ?t))"
    using assms(1) unfolding experiment_advances_def by blast
  then have e': "xsExperiments ?t i = Some e'" "xpState e' \<noteq> ExperimentEnabled"
    "xpConsumed e \<le> xpConsumed e'" "live i (xsReservations ?t) \<subseteq> live i (xsReservations ?s)"
    using assms(2) by (simp_all add: carried_def)
  then obtain code where "admission_gates e' r = Some code"
    by (cases "xpState e'") (auto simp: admission_gates_def state_gate_def Let_def)
  with e' assms(3) have "Admit hash r ?t = deny r code ?t" by (simp add: Admit_def GetExperiment_def)
  with e' show ?thesis by (simp add: deny_result champion_only_def)
qed

theorem closed_experiment_admits_nobody_witness:
  "xaSelected (fst (snd (Admit sample_hash (sample_request ''d2'' 5) (fold store_step
       ([XCreate (sample_experiment\<lparr>xpState := ExperimentKilled\<rparr>)] @ [XReserve ''exp'' ''d1'' 2]) NewMemoryExperimentStore)))) = ''ann''"
proof -
  have "xsExperiments (fold store_step [XCreate (sample_experiment\<lparr>xpState := ExperimentKilled\<rparr>)] NewMemoryExperimentStore) ''exp''
      = Some (sample_experiment\<lparr>xpState := ExperimentKilled\<rparr>)"
    by (simp add: CreateExperiment_def NewMemoryExperimentStore_def set_experiment_def)
      (simp add: sample_experiment_def sample_definition_def)
  from closed_experiment_admits_nobody [OF this, of "sample_request ''d2'' 5" "[XReserve ''exp'' ''d1'' 2]" sample_hash]
  show ?thesis by (auto simp: sample_request_def)
qed


subsection \<open>What an admission requires\<close>

lemma count_experiment:
  "xsExperiments (mutateCounters i now c s) j =
     (if j = i then map_option (\<lambda>e. (apply_count c e)\<lparr>xpUpdatedAt := now\<rparr>) (xsExperiments s i) else xsExperiments s j)"
  "xsReservations (mutateCounters i now c s) = xsReservations s"
  "xsAdmissions (mutateCounters i now c s) = xsAdmissions s"
  by (auto simp: mutateCounters_def UpdateSummary_def write_back_def split: option.splits)

lemma audit_frame [simp]:
  "xsExperiments (audit_event r ev reason s) = xsExperiments s"
  "xsReservations (audit_event r ev reason s) = xsReservations s"
  "xsAdmissions (audit_event r ev reason s) = xsAdmissions s"
  by (simp_all add: audit_event_def AuditExperiment_def)

lemma Reserve_granted:
  assumes "ReserveBudget i d now s = (s', Inr True)"
  shows "admissionKey i d \<in> xsReservations s'" and "xsAdmissions s' = xsAdmissions s"
    and "\<exists>e e'. xsExperiments s i = Some e \<and> xsExperiments s' i = Some e' \<and> xpDef e' = xpDef e \<and> xpState e' = xpState e"
  using assms by (auto simp: ReserveBudget_def write_back_def split: option.splits if_splits)

lemma SaveAdmission_stored:
  assumes "SaveAdmission a s = (s', None)"
  shows "xsAdmissions s' (admissionKey (xaExperimentID a) (xaDecisionID a)) = Some a"
    and "xsReservations s' = xsReservations s" and "xsExperiments s' = xsExperiments s"
  using assms by (auto simp: SaveAdmission_def Let_def split: option.splits if_splits)

lemma Admit_challenger:
  assumes "Admit hash r s = (s', a, err)" and "xaChallenger a"
  obtains e s2 s3 where "xsExperiments s (rqExperimentID r) = Some e" and "admission_gates e r = None"
    and "AllocationBucket hash (rqExperimentID r) (rqDecisionID r) < xdPercent (xpDef e)"
    and "ReserveBudget (rqExperimentID r) (rqDecisionID r) (rqNow r)
           (mutateCounters (rqExperimentID r) (rqNow r) CountEligible s) = (s2, Inr True)"
    and "SaveAdmission (challenger_admission r) s2 = (s3, None)"
    and "s' = mutateCounters (rqExperimentID r) (rqNow r) CountMissing
           (audit_event r ''admitted'' ''challenger selected after Core gates'' s3)"
    and "a = challenger_admission r" and "err = None"
proof -
  from assms obtain e where e: "xsExperiments s (rqExperimentID r) = Some e"
    by (auto simp: Admit_def GetExperiment_def champion_only_def split: option.splits)
  with assms have g: "admission_gates e r = None"
    by (auto simp: Admit_def GetExperiment_def deny_def champion_only_def split: option.splits)
  with assms e have al: "allocate hash e r s = (s', a, err)" by (simp add: Admit_def GetExperiment_def)
  have b: "AllocationBucket hash (rqExperimentID r) (rqDecisionID r) < xdPercent (xpDef e)"
    using al assms(2) by (auto simp: allocate_def Let_def champion_only_def split: if_splits)
  obtain s2 x where r: "ReserveBudget (rqExperimentID r) (rqDecisionID r) (rqNow r)
           (mutateCounters (rqExperimentID r) (rqNow r) CountEligible s) = (s2, x)" by fastforce
  have x: "x = Inr True"
    using al assms(2) b r by (auto simp: allocate_def Let_def deny_def champion_only_def split: sum.splits bool.splits)
  obtain s3 y where v: "SaveAdmission (challenger_admission r) s2 = (s3, y)" by fastforce
  have "y = None" using al assms(2) b r x v by (auto simp: allocate_def Let_def champion_only_def split: option.splits)
  with al b r x v have "s' = mutateCounters (rqExperimentID r) (rqNow r) CountMissing
      (audit_event r ''admitted'' ''challenger selected after Core gates'' s3)" "a = challenger_admission r" "err = None"
    by (simp_all add: allocate_def Let_def)
  with e g b r x v \<open>y = None\<close> show ?thesis by (intro that) simp_all
qed

text \<open>
  A challenger is selected only when the experiment exists and is enabled, the request and
  the task are of its tenant (and task class and risk where it names one), the decision has its
  own candidate snapshot which contains the challenger, the policy identity is canonical and
  the decision falls in the allocated share; then its reservation is live and the admission is
  stored under the decision. In every other case, errors included, the champion is selected.
\<close>

theorem challenger_admission_gated:
  assumes "Admit hash r s = (s', a, err)"
  shows "if xaChallenger a
    then xaSelected a = rqChallenger r \<and> err = None \<and>
      (\<exists>e. xsExperiments s (rqExperimentID r) = Some e \<and> xpState e = ExperimentEnabled \<and>
         rqTenant r = xdTenant (xpDef e) \<and> tTenant (rqTask r) = xdTenant (xpDef e) \<and>
         xdTaskClass (xpDef e) \<in> {[], tType (rqTask r)} \<and> xdRisk (xpDef e) \<in> {[], rqRisk r} \<and>
         snDecisionID (rqSnapshot r) = rqDecisionID r \<and> rqChallenger r \<in> set (snAgentIDs (rqSnapshot r)) \<and>
         rpScheme (rqPolicy r) = FingerprintSchemeCanonicalV2 \<and>
         AllocationBucket hash (rqExperimentID r) (rqDecisionID r) < xdPercent (xpDef e)) \<and>
      admissionKey (rqExperimentID r) (rqDecisionID r) \<in> xsReservations s' \<and>
      GetAdmission (rqExperimentID r) (rqDecisionID r) s' = Inr a
    else xaSelected a = rqChampion r"
proof (cases "xaChallenger a")
  case True
  from assms True obtain e s2 s3 where e: "xsExperiments s (rqExperimentID r) = Some e" "admission_gates e r = None"
    and b: "AllocationBucket hash (rqExperimentID r) (rqDecisionID r) < xdPercent (xpDef e)"
    and r: "ReserveBudget (rqExperimentID r) (rqDecisionID r) (rqNow r)
           (mutateCounters (rqExperimentID r) (rqNow r) CountEligible s) = (s2, Inr True)"
    and v: "SaveAdmission (challenger_admission r) s2 = (s3, None)"
    and s': "s' = mutateCounters (rqExperimentID r) (rqNow r) CountMissing
           (audit_event r ''admitted'' ''challenger selected after Core gates'' s3)"
    and a: "a = challenger_admission r" "err = None"
    by (rule Admit_challenger)
  have gates: "xpState e = ExperimentEnabled \<and> rqTenant r = xdTenant (xpDef e) \<and> tTenant (rqTask r) = xdTenant (xpDef e) \<and>
      xdTaskClass (xpDef e) \<in> {[], tType (rqTask r)} \<and> xdRisk (xpDef e) \<in> {[], rqRisk r} \<and>
      snDecisionID (rqSnapshot r) = rqDecisionID r \<and> rqChallenger r \<in> set (snAgentIDs (rqSnapshot r)) \<and>
      rpScheme (rqPolicy r) = FingerprintSchemeCanonicalV2"
    using e(2) by (cases "xpState e")
      (auto simp: admission_gates_def Let_def state_gate_def ValidateExperimentPolicyIdentity_def snapshot_contains_def
        list_ex_iff require_def split: if_splits)
  show ?thesis
    using True e(1) b gates a s' Reserve_granted(1) [OF r] SaveAdmission_stored [OF v]
    by (auto simp: challenger_admission_def GetAdmission_def count_experiment)
next
  case False
  with assms show ?thesis
    by (auto simp: Admit_def GetExperiment_def allocate_def deny_def champion_only_def challenger_admission_def Let_def
        split: sum.splits option.splits prod.splits bool.splits if_splits)
qed

theorem challenger_admission_gated_witness:
  "fst (snd (Admit sample_hash (sample_request ''d1'' 5) sample_store)) = challenger_admission (sample_request ''d1'' 5) \<and>
   AllocationBucket sample_hash ''exp'' ''d1'' < 100"
proof -
  let ?r = "sample_request ''d1'' 5"
  obtain s' a err where A: "Admit sample_hash ?r sample_store = (s', a, err)" by (metis prod_cases3)
  have "fst (snd (Admit sample_hash ?r sample_store)) = challenger_admission ?r" by code_simp
  with A have a: "a = challenger_admission ?r" by simp
  have "map_option (\<lambda>e. xdPercent (xpDef e)) (xsExperiments sample_store ''exp'') = Some 100" by code_simp
  then have "xdPercent (xpDef e) = 100" if "xsExperiments sample_store ''exp'' = Some e" for e
    using that by simp
  moreover have "rqExperimentID ?r = ''exp''" "rqDecisionID ?r = ''d1''" "xaChallenger a"
    by (simp_all add: sample_request_def a challenger_admission_def)
  ultimately show ?thesis using challenger_admission_gated [OF A] a A by auto
qed


subsection \<open>Replaying an admission\<close>

lemma gates_frame:
  "xpDef e' = xpDef e \<Longrightarrow> xpState e' = xpState e \<Longrightarrow> admission_gates e' (r\<lparr>rqNow := t\<rparr>) = admission_gates e r"
  by (simp add: admission_gates_def Let_def)

lemma apply_count_state:
  "xpState (apply_count CountEligible e) = xpState e" "xpState (apply_count CountMissing e) = xpState e"
  by simp_all

lemma Admit_challenger_keeps:
  assumes "Admit hash r s = (s1, a, err)" and "xaChallenger a"
  shows "\<exists>e e1. xsExperiments s (rqExperimentID r) = Some e \<and> xsExperiments s1 (rqExperimentID r) = Some e1 \<and>
    xpDef e1 = xpDef e \<and> xpState e1 = xpState e \<and> admission_gates e r = None \<and>
    AllocationBucket hash (rqExperimentID r) (rqDecisionID r) < xdPercent (xpDef e) \<and>
    admissionKey (rqExperimentID r) (rqDecisionID r) \<in> xsReservations s1 \<and>
    xsAdmissions s1 (admissionKey (rqExperimentID r) (rqDecisionID r)) = Some (challenger_admission r)"
proof -
  from assms obtain e s2 s3 where e: "xsExperiments s (rqExperimentID r) = Some e" "admission_gates e r = None"
    and b: "AllocationBucket hash (rqExperimentID r) (rqDecisionID r) < xdPercent (xpDef e)"
    and r: "ReserveBudget (rqExperimentID r) (rqDecisionID r) (rqNow r)
           (mutateCounters (rqExperimentID r) (rqNow r) CountEligible s) = (s2, Inr True)"
    and v: "SaveAdmission (challenger_admission r) s2 = (s3, None)"
    and s': "s1 = mutateCounters (rqExperimentID r) (rqNow r) CountMissing
           (audit_event r ''admitted'' ''challenger selected after Core gates'' s3)"
    by (rule Admit_challenger)
  show ?thesis
    using e b s' Reserve_granted [OF r] SaveAdmission_stored [OF v]
    by (auto simp: count_experiment apply_count_frame challenger_admission_def)
qed

text \<open>
  Admission is not idempotent. Asking again for a decision whose challenger is already
  admitted, at another time, does not return the stored admission: it reports a conflict, selects
  the champion and releases the reservation of the admission that was granted, so that completing
  that admission afterwards fails and its execution is never charged.
\<close>

theorem replayed_admission_releases_reservation:
  assumes "Admit hash r s = (s1, a, err)" and "xaChallenger a" and "t \<noteq> rqNow r"
    and "Admit hash (r\<lparr>rqNow := t\<rparr>) s1 = (s2, a2, err2)"
  shows "admissionKey (rqExperimentID r) (rqDecisionID r) \<in> xsReservations s1 \<and>
    admissionKey (rqExperimentID r) (rqDecisionID r) \<notin> xsReservations s2 \<and>
    err2 = Some ErrExperimentConflict \<and> xaSelected a2 = rqChampion r \<and>
    CompleteAdmission a u s2 = (s2, Some ErrExperimentConflict)"
proof -
  let ?i = "rqExperimentID r" and ?d = "rqDecisionID r" and ?r = "r\<lparr>rqNow := t\<rparr>"
  obtain e e1 where e: "xsExperiments s1 ?i = Some e1" "xpDef e1 = xpDef e" "xpState e1 = xpState e"
    "admission_gates e r = None" "AllocationBucket hash ?i ?d < xdPercent (xpDef e)"
    and k: "admissionKey ?i ?d \<in> xsReservations s1"
    and st: "xsAdmissions s1 (admissionKey ?i ?d) = Some (challenger_admission r)"
    using Admit_challenger_keeps [OF assms(1,2)] by blast
  let ?s = "mutateCounters ?i t CountEligible s1"
  have R: "ReserveBudget ?i ?d t ?s = (?s, Inr True)"
    using e(1) k by (simp add: ReserveBudget_def count_experiment)
  have V: "SaveAdmission (challenger_admission ?r) ?s = (?s, Some ErrExperimentConflict)"
    using st assms(3) by (simp add: SaveAdmission_def count_experiment challenger_admission_def)
  have g: "admission_gates e1 ?r = None" using e by (simp add: gates_frame)
  have s2: "s2 = fst (ReleaseBudget ?i ?d t ?s)" "err2 = Some ErrExperimentConflict" "xaSelected a2 = rqChampion r"
    using assms(4) e g R V by (auto simp: Admit_def GetExperiment_def allocate_def Let_def champion_only_def)
  have gone: "admissionKey ?i ?d \<notin> xsReservations s2" and ex: "xsExperiments s2 ?i \<noteq> None"
    using e(1) k by (auto simp: s2 ReleaseBudget_def write_back_def count_experiment)
  have "a = challenger_admission r" using assms(1,2) by (rule Admit_challenger)
  then have "CompleteAdmission a u s2 = (s2, Some ErrExperimentConflict)"
    using gone ex by (auto simp: CompleteAdmission_def challenger_admission_def ConsumeBudget_def split: option.splits)
  with k gone s2 show ?thesis by simp
qed

theorem replayed_admission_releases_reservation_witness:
  "\<exists>s1 a. Admit sample_hash (sample_request ''d1'' 5) sample_store = (s1, a, None) \<and>
     snd (snd (Admit sample_hash (sample_request ''d1'' 6) s1)) = Some ErrExperimentConflict"
proof -
  let ?r = "sample_request ''d1'' 5"
  obtain s1 a err where A: "Admit sample_hash ?r sample_store = (s1, a, err)" by (metis prod_cases3)
  have "snd (Admit sample_hash ?r sample_store) = (challenger_admission ?r, None)" by code_simp
  with A have a: "a = challenger_admission ?r" "err = None" by simp_all
  obtain s2 a2 err2 where B: "Admit sample_hash (?r\<lparr>rqNow := 6\<rparr>) s1 = (s2, a2, err2)" by (metis prod_cases3)
  have "err2 = Some ErrExperimentConflict"
    using replayed_admission_releases_reservation [OF A _ _ B] a
    by (simp add: challenger_admission_def sample_request_def)
  moreover have "?r\<lparr>rqNow := 6\<rparr> = sample_request ''d1'' 6" by (simp add: sample_request_def)
  ultimately show ?thesis using A B a by simp
qed

lemma bucket_bounds:
  "0 \<le> AllocationBucket hash i d \<and> AllocationBucket hash i d < 100"
  by (simp add: AllocationBucket_def Let_def)

end
