(* ===== verification/ShadowEval.thy ===== *)
theory ShadowEval
  imports Advisor Admission
begin

text \<open>
  The shadow evaluation of challenger policies (\<open>internal/performance\<close>: \<open>routing_policy.go\<close>,
  \<open>evaluation_limits.go\<close>, \<open>evaluation.go\<close>, \<open>shadow_evaluator.go\<close>, \<open>promotion_gate.go\<close>,
  \<open>coverage.go\<close>, \<open>replay.go\<close>): comparing a policy's recommendation with the decision that was
  made, attaching outcomes, the gate before a promotion and offline replay. Texts are rendered;
  counters of the telemetry are left out.
\<close>

subsection \<open>Policies\<close>

definition policy_string :: "policy_descriptor \<Rightarrow> string" where
  "policy_string d = rpID d @ '':'' @ rpVersion d"

text \<open>\<open>config\<close> is the map of the configuration, as the list of its entries.\<close>

definition computeCanonicalFingerprint ::
  "text_lib \<Rightarrow> string \<Rightarrow> string \<Rightarrow> string \<Rightarrow> (string \<times> string) list \<Rightarrow> string"
where
  "computeCanonicalFingerprint lib i version sem config =
     sha256hex lib (terminated ([i, version, sem] @ concat (map (\<lambda>(k, v). [k, v]) (sort_key fst config))))"

definition NewRoutingPolicyDescriptor ::
  "text_lib \<Rightarrow> string \<Rightarrow> string \<Rightarrow> string \<Rightarrow> (string \<times> string) list \<Rightarrow> policy_descriptor"
where
  "NewRoutingPolicyDescriptor lib i version sem config =
     \<lparr>rpID = i, rpVersion = version, rpSemantics = sem,
      rpFingerprint = computeCanonicalFingerprint lib i version sem config, rpScheme = FingerprintSchemeCanonicalV2\<rparr>"

record routing_input =
  riTenant :: string
  riTaskID :: task_id
  riTaskClass :: string
  riSnapshot :: candidate_snapshot

record routing_recommendation =
  rrAgent :: agent_id
  rrReasons :: "string list"
  rrConfidence :: "confidence_band option"
  rrInsufficient :: bool

text \<open>What a policy does when asked: it may also fail or panic.\<close>

datatype recommend_outcome = RecommendPanic | RecommendError string | Recommended routing_recommendation

record routing_policy =
  roDescriptor :: policy_descriptor
  roRecommend :: "routing_input \<Rightarrow> recommend_outcome"

definition StaticRoutingPolicy :: "policy_descriptor \<Rightarrow> agent_id \<Rightarrow> string list \<Rightarrow> routing_policy" where
  "StaticRoutingPolicy d a reasons =
     \<lparr>roDescriptor = d,
      roRecommend = (\<lambda>_. Recommended \<lparr>rrAgent = a, rrReasons = reasons, rrConfidence = None, rrInsufficient = False\<rparr>)\<rparr>"

text \<open>
  The adapter over an advisor: \<open>advise\<close> is its answer for a task and candidates, \<open>render\<close> the text
  of an error or a reason.
\<close>

definition class_task :: "routing_input \<Rightarrow> task" where
  "class_task x = \<lparr>tID = riTaskID x, tType = riTaskClass x, tCaps = [], tDeps = [], tRisk = [], tTenant = riTenant x,
                   tStatus = StEmpty, tCost = 0, tLocked = False\<rparr>"

definition AdvisorRoutingPolicy ::
  "(msg \<Rightarrow> string) \<Rightarrow> (task \<Rightarrow> agent_candidate list \<Rightarrow> msg + agent_recommendation list \<times> string) \<Rightarrow>
     policy_descriptor \<Rightarrow> routing_policy"
where
  "AdvisorRoutingPolicy render advise d =
     \<lparr>roDescriptor = d,
      roRecommend = (\<lambda>x.
        case advise (class_task x) (map (\<lambda>a. (a, [])) (snAgentIDs (riSnapshot x))) of
          Inl m \<Rightarrow> RecommendError (render m)
        | Inr ([], b) \<Rightarrow> Recommended \<lparr>rrAgent = [], rrReasons = [], rrConfidence = None, rrInsufficient = True\<rparr>
        | Inr (top_r # _, b) \<Rightarrow>
            Recommended \<lparr>rrAgent = rcAgent top_r, rrReasons = map render (rcReasons top_r),
                         rrConfidence = Some (rcConfidence top_r),
                         rrInsufficient = (rcConfidence top_r = ConfidenceInsufficient)\<rparr>)\<rparr>"

subsection \<open>Limits\<close>

record evaluation_limits =
  elMaxCandidates :: int
  elMaxReasonCount :: int
  elMaxReasonLength :: int
  elMaxChallengers :: int
  elMaxReplayBatch :: int

definition DefaultEvaluationLimits :: evaluation_limits where
  "DefaultEvaluationLimits =
     \<lparr>elMaxCandidates = 200, elMaxReasonCount = 8, elMaxReasonLength = 300, elMaxChallengers = 5,
      elMaxReplayBatch = 1000\<rparr>"

definition maxReasonCount :: "evaluation_limits \<Rightarrow> int" where
  "maxReasonCount l = (if elMaxReasonCount l > 0 then elMaxReasonCount l else 8)"

definition maxReasonLength :: "evaluation_limits \<Rightarrow> int" where
  "maxReasonLength l = (if elMaxReasonLength l > 0 then elMaxReasonLength l else 300)"

definition maxChallengersPerDecision :: "evaluation_limits \<Rightarrow> int" where
  "maxChallengersPerDecision l = (if elMaxChallengers l > 0 then elMaxChallengers l else 5)"

definition maxReplayBatchSize :: "evaluation_limits \<Rightarrow> int" where
  "maxReplayBatchSize l = (if elMaxReplayBatch l > 0 then elMaxReplayBatch l else 1000)"

definition boundReasons :: "string list \<Rightarrow> evaluation_limits \<Rightarrow> string list" where
  "boundReasons reasons l = map (take (nat (maxReasonLength l))) (take (nat (maxReasonCount l)) reasons)"

subsection \<open>Evaluation records\<close>

datatype evaluation_status =
    StatusSameRecommendation | StatusDifferentRecommendation | StatusChallengerInsufficientData
  | StatusChallengerError | StatusChallengerInvalidRecommendation | StatusEvaluationIncomplete

datatype invalid_reason =
    InvalidReasonUnset | InvalidReasonUnknownCandidate | InvalidReasonNotInSnapshot | InvalidReasonTenantBoundary
  | InvalidReasonCapabilityMismatch | InvalidReasonAuthorizationViolation | InvalidReasonInvalidPolicyOutput

record evaluation_record =
  erEvaluationID :: string
  erDecisionID :: string
  erTenant :: string
  erTask :: task_id
  erTaskClass :: string
  erDecisionTime :: int
  erChampionPolicy :: policy_descriptor
  erChallengerPolicy :: policy_descriptor
  erCandidates :: "agent_id list"
  erChampion :: agent_id
  erChallenger :: agent_id
  erStatusOf :: evaluation_status
  erInvalidReason :: invalid_reason
  erReasons :: "string list"
  erExecution :: string
  erExecutedSelection :: agent_id
  erExecutedPolicy :: "policy_descriptor option"
  erActualExecution :: "execution_outcome option"
  erActualQuality :: "quality_outcome option"
  erOutcomeAttached :: bool
  erCreatedAt :: "int option"
  erOutcomeUpdatedAt :: "int option"

definition ComputeEvaluationID ::
  "text_lib \<Rightarrow> (int \<Rightarrow> string) \<Rightarrow> candidate_snapshot \<Rightarrow> policy_descriptor \<Rightarrow> policy_descriptor \<Rightarrow> string"
where
  "ComputeEvaluationID lib render sn champion challenger =
     sha256hex lib (terminated
       [snDecisionID sn, snapshot_fingerprint lib render sn, policy_string champion, policy_string challenger])"

datatype evaluation_error =
    EvaluationNotFound string
  | EvaluationIdentityConflict string
  | EvaluationWithoutID
  | EvaluationQueryDenied perf_error
  | PolicyIdentityConflict string string
  | TooManyChallengers int int

record evaluation_filter =
  efTenant :: string
  efAllTenants :: bool
  efTaskClass :: string
  efChallengerPolicyID :: string

definition eval_filter_validate :: "evaluation_filter \<Rightarrow> evaluation_error option" where
  "eval_filter_validate f =
     require (efAllTenants f \<or> efTenant f \<noteq> [])
       (EvaluationQueryDenied (CrossTenantQueryDenied ''no tenant specified and AllTenants not explicitly set''))"

definition eval_filter_matches :: "evaluation_filter \<Rightarrow> evaluation_record \<Rightarrow> bool" where
  "eval_filter_matches f r \<longleftrightarrow>
     (efAllTenants f \<or> erTenant r = efTenant f) \<and> (efTaskClass f = [] \<or> erTaskClass r = efTaskClass f) \<and>
     (efChallengerPolicyID f = [] \<or> rpID (erChallengerPolicy r) = efChallengerPolicyID f)"

definition decisionFactsEqual :: "evaluation_record \<Rightarrow> evaluation_record \<Rightarrow> bool" where
  "decisionFactsEqual a b \<longleftrightarrow>
     erDecisionID a = erDecisionID b \<and>
     erTenant a = erTenant b \<and> erTask a = erTask b \<and> erTaskClass a = erTaskClass b \<and>
     erChampionPolicy a = erChampionPolicy b \<and> erChallengerPolicy a = erChallengerPolicy b \<and>
     erChampion a = erChampion b \<and> erChallenger a = erChallenger b \<and> erStatusOf a = erStatusOf b \<and>
     erCandidates a = erCandidates b"

type_synonym evaluation_map = "(string \<times> evaluation_record) list"

definition EvalSave :: "int \<Rightarrow> evaluation_record \<Rightarrow> evaluation_map \<Rightarrow> evaluation_map \<times> evaluation_error option" where
  "EvalSave now r st =
     (if erEvaluationID r = [] then (st, Some EvaluationWithoutID)
      else (case map_of st (erEvaluationID r) of
        None \<Rightarrow>
          (AList.update (erEvaluationID r)
             (r\<lparr>erCreatedAt := (case erCreatedAt r of None \<Rightarrow> Some now | Some c \<Rightarrow> Some c)\<rparr>) st, None)
      | Some old \<Rightarrow>
          if \<not> decisionFactsEqual old r then (st, Some (EvaluationIdentityConflict (erEvaluationID r)))
          else (AList.update (erEvaluationID r)
             (old\<lparr>erExecution := erExecution r, erActualExecution := erActualExecution r,
                  erActualQuality := erActualQuality r, erOutcomeAttached := erOutcomeAttached r,
                  erOutcomeUpdatedAt := erOutcomeUpdatedAt r\<rparr>) st, None)))"

definition EvalGet :: "string \<Rightarrow> evaluation_map \<Rightarrow> evaluation_error + evaluation_record" where
  "EvalGet i st = (case map_of st i of None \<Rightarrow> Inl (EvaluationNotFound i) | Some r \<Rightarrow> Inr r)"

definition EvalQuery ::
  "evaluation_record range_order \<Rightarrow> evaluation_map \<Rightarrow> evaluation_filter \<Rightarrow> evaluation_error + evaluation_record list"
where
  "EvalQuery ord st f = guard_res (eval_filter_validate f) (Inr (filter (eval_filter_matches f) (ord (map snd st))))"


subsection \<open>The evaluator\<close>

record evaluator =
  evRecords :: evaluation_map
  evFingerprints :: "string \<Rightarrow> string option"

definition NewShadowEvaluator :: evaluator where
  "NewShadowEvaluator = \<lparr>evRecords = [], evFingerprints = Map.empty\<rparr>"

definition checkPolicyIdentity :: "policy_descriptor \<Rightarrow> evaluator \<Rightarrow> evaluator \<times> evaluation_error option" where
  "checkPolicyIdentity d ev =
     (if rpFingerprint d = [] then (ev, None)
      else (case evFingerprints ev (policy_string d) of
        None \<Rightarrow> (ev\<lparr>evFingerprints := (evFingerprints ev)(policy_string d \<mapsto> rpFingerprint d)\<rparr>, None)
      | Some x \<Rightarrow> (ev, require (x = rpFingerprint d) (PolicyIdentityConflict (rpID d) (rpVersion d)))))"

text \<open>A panic of the challenger is an error.\<close>

definition recommendSafely :: "routing_policy \<Rightarrow> routing_input \<Rightarrow> string + routing_recommendation" where
  "recommendSafely p x =
     (case roRecommend p x of
        RecommendPanic \<Rightarrow> Inl ''challenger panicked''
      | RecommendError e \<Rightarrow> Inl e
      | Recommended r \<Rightarrow> Inr r)"

record decision_context =
  dcLib :: text_lib
  dcRender :: "int \<Rightarrow> string"
  dcLimits :: evaluation_limits
  dcSnapshot :: candidate_snapshot
  dcChampionPolicy :: policy_descriptor
  dcChampion :: agent_id
  dcDecisionTime :: int

definition snapshot_input :: "candidate_snapshot \<Rightarrow> routing_input" where
  "snapshot_input sn =
     \<lparr>riTenant = snTenant sn, riTaskID = snTaskID sn, riTaskClass = snTaskClass sn, riSnapshot = sn\<rparr>"

definition evaluateOne :: "decision_context \<Rightarrow> routing_policy \<Rightarrow> evaluation_record" where
  "evaluateOne dc p =
     (let sn = dcSnapshot dc;
          base = \<lparr>erEvaluationID = ComputeEvaluationID (dcLib dc) (dcRender dc) sn (dcChampionPolicy dc) (roDescriptor p),
            erDecisionID = snDecisionID sn, erTenant = snTenant sn, erTask = snTaskID sn, erTaskClass = snTaskClass sn,
            erDecisionTime = dcDecisionTime dc, erChampionPolicy = dcChampionPolicy dc,
            erChallengerPolicy = roDescriptor p, erCandidates = snAgentIDs sn, erChampion = dcChampion dc,
            erChallenger = [], erStatusOf = StatusEvaluationIncomplete, erInvalidReason = InvalidReasonUnset,
            erReasons = [], erExecution = [], erExecutedSelection = [], erExecutedPolicy = None,
            erActualExecution = None, erActualQuality = None, erOutcomeAttached = False, erCreatedAt = None,
            erOutcomeUpdatedAt = None\<rparr> in
      case recommendSafely p (snapshot_input sn) of
        Inl e \<Rightarrow> base\<lparr>erStatusOf := StatusChallengerError, erReasons := boundReasons [e] (dcLimits dc)\<rparr>
      | Inr r \<Rightarrow>
          let base = base\<lparr>erReasons := boundReasons (rrReasons r) (dcLimits dc)\<rparr> in
          if rrInsufficient r then base\<lparr>erStatusOf := StatusChallengerInsufficientData\<rparr>
          else if rrAgent r = []
          then base\<lparr>erStatusOf := StatusChallengerInvalidRecommendation, erInvalidReason := InvalidReasonInvalidPolicyOutput\<rparr>
          else if \<not> snapshot_contains sn (rrAgent r)
          then base\<lparr>erStatusOf := StatusChallengerInvalidRecommendation, erInvalidReason := InvalidReasonNotInSnapshot,
                    erChallenger := rrAgent r\<rparr>
          else base\<lparr>erChallenger := rrAgent r,
                    erStatusOf := (if rrAgent r = dcChampion dc then StatusSameRecommendation
                                   else StatusDifferentRecommendation)\<rparr>)"

text \<open>The loop over the challengers: the records so far and the last identity conflict.\<close>

fun evaluate_all ::
  "decision_context \<Rightarrow> int \<Rightarrow> routing_policy list \<Rightarrow> evaluation_record list \<Rightarrow> evaluation_error option \<Rightarrow> evaluator \<Rightarrow>
     evaluator \<times> evaluation_record list \<times> evaluation_error option"
where
  "evaluate_all dc now [] recs conflict ev = (ev, recs, conflict)"
| "evaluate_all dc now (p # ps) recs conflict ev =
     (case checkPolicyIdentity (roDescriptor p) ev of
        (ev1, Some e) \<Rightarrow> evaluate_all dc now ps recs (Some e) ev1
      | (ev1, None) \<Rightarrow>
          let r = evaluateOne dc p in
          (case EvalSave now r (evRecords ev1) of
             (st, Some e) \<Rightarrow> (ev1\<lparr>evRecords := st\<rparr>, recs, Some e)
           | (st, None) \<Rightarrow> evaluate_all dc now ps (recs @ [r]) conflict (ev1\<lparr>evRecords := st\<rparr>)))"

definition Evaluate ::
  "decision_context \<Rightarrow> int \<Rightarrow> routing_policy list \<Rightarrow> evaluator \<Rightarrow>
     evaluator \<times> evaluation_record list \<times> evaluation_error option"
where
  "Evaluate dc now ps ev =
     (let limit = maxChallengersPerDecision (dcLimits dc) in
      if int (length ps) > limit then (ev, [], Some (TooManyChallengers (int (length ps)) limit))
      else (case checkPolicyIdentity (dcChampionPolicy dc) ev of
              (ev1, Some e) \<Rightarrow> (ev1, [], Some e)
            | (ev1, None) \<Rightarrow> evaluate_all dc now ps [] None ev1))"

definition AttachOutcome ::
  "string \<Rightarrow> string \<Rightarrow> execution_outcome \<Rightarrow> quality_outcome \<Rightarrow> agent_id \<Rightarrow> int \<Rightarrow> evaluator \<Rightarrow>
     evaluator \<times> evaluation_error option"
where
  "AttachOutcome eid xid out q admitted now ev =
     (case EvalGet eid (evRecords ev) of
        Inl e \<Rightarrow> (ev, Some e)
      | Inr old \<Rightarrow>
          let canary = admitted \<noteq> [] \<and> erChallenger old = admitted;
              r = old\<lparr>erExecution := xid, erActualExecution := Some out, erActualQuality := Some q,
                     erExecutedSelection := (if canary then erChallenger old else erChampion old),
                     erExecutedPolicy := Some (if canary then erChallengerPolicy old else erChampionPolicy old),
                     erOutcomeAttached := True, erOutcomeUpdatedAt := Some now\<rparr> in
          (case EvalSave now r (evRecords ev) of (st, err) \<Rightarrow> (ev\<lparr>evRecords := st\<rparr>, err)))"

definition AttachChampionOutcome ::
  "string \<Rightarrow> string \<Rightarrow> execution_outcome \<Rightarrow> quality_outcome \<Rightarrow> int \<Rightarrow> evaluator \<Rightarrow> evaluator \<times> evaluation_error option"
where
  "AttachChampionOutcome eid xid out q now ev = AttachOutcome eid xid out q [] now ev"

definition AttachChampionQuality ::
  "string \<Rightarrow> quality_outcome \<Rightarrow> int \<Rightarrow> evaluator \<Rightarrow> evaluator \<times> evaluation_error option"
where
  "AttachChampionQuality eid q now ev =
     (case EvalGet eid (evRecords ev) of
        Inl e \<Rightarrow> (ev, Some e)
      | Inr old \<Rightarrow>
          (case EvalSave now (old\<lparr>erActualQuality := Some q, erOutcomeAttached := True, erOutcomeUpdatedAt := Some now\<rparr>)
                  (evRecords ev) of
             (st, err) \<Rightarrow> (ev\<lparr>evRecords := st\<rparr>, err)))"

subsection \<open>What an evaluation records\<close>

lemma evaluateOne_facts:
  "erDecisionID (evaluateOne dc p) = snDecisionID (dcSnapshot dc)" "erCandidates (evaluateOne dc p) = snAgentIDs (dcSnapshot dc)"
  "erChampion (evaluateOne dc p) = dcChampion dc" "erChallengerPolicy (evaluateOne dc p) = roDescriptor p"
  "erTenant (evaluateOne dc p) = snTenant (dcSnapshot dc)" "erExecutedSelection (evaluateOne dc p) = []"
  "erOutcomeAttached (evaluateOne dc p) = False"
  by (auto simp: evaluateOne_def Let_def split: sum.splits)

text \<open>What each status says of the recommendation.\<close>

definition status_sound :: "evaluation_record \<Rightarrow> bool" where
  "status_sound r \<longleftrightarrow>
     (erStatusOf r = StatusSameRecommendation \<longleftrightarrow>
        erChallenger r \<in> set (erCandidates r) \<and> erChallenger r \<noteq> [] \<and> erChallenger r = erChampion r) \<and>
     (erStatusOf r = StatusDifferentRecommendation \<longleftrightarrow>
        erChallenger r \<in> set (erCandidates r) \<and> erChallenger r \<noteq> [] \<and> erChallenger r \<noteq> erChampion r) \<and>
     erStatusOf r \<noteq> StatusEvaluationIncomplete \<and>
     (erInvalidReason r \<noteq> InvalidReasonUnset \<longleftrightarrow> erStatusOf r = StatusChallengerInvalidRecommendation)"

lemma status_sound_evaluateOne: "status_sound (evaluateOne dc p)"
  by (auto simp: status_sound_def evaluateOne_def Let_def snapshot_contains_def list_ex_iff split: sum.splits)

lemma bounded_reasons:
  "length (erReasons (evaluateOne dc p)) \<le> nat (maxReasonCount (dcLimits dc))"
  "x \<in> set (erReasons (evaluateOne dc p)) \<Longrightarrow> length x \<le> nat (maxReasonLength (dcLimits dc))"
  by (auto simp: evaluateOne_def Let_def boundReasons_def split: sum.splits if_splits dest: in_set_takeD)


subsection \<open>The records in the store\<close>

datatype eval_event =
    EvEvaluate decision_context int "routing_policy list"
  | EvAttach string string execution_outcome quality_outcome agent_id int
  | EvQuality string quality_outcome int

fun eval_step :: "eval_event \<Rightarrow> evaluator \<Rightarrow> evaluator" where
  "eval_step (EvEvaluate dc now ps) ev = fst (Evaluate dc now ps ev)"
| "eval_step (EvAttach eid xid out q a now) ev = fst (AttachOutcome eid xid out q a now ev)"
| "eval_step (EvQuality eid q now) ev = fst (AttachChampionQuality eid q now ev)"

definition records_wf :: "evaluation_map \<Rightarrow> bool" where
  "records_wf st \<longleftrightarrow> (\<forall>i r. map_of st i = Some r \<longrightarrow>
     erEvaluationID r = i \<and> i \<noteq> [] \<and> status_sound r \<and> erExecutedSelection r = [] \<and> erExecutedPolicy r = None)"

text \<open>What no later call changes of a record.\<close>

definition frozen :: "evaluation_record \<Rightarrow> evaluation_record \<Rightarrow> bool" where
  "frozen a b \<longleftrightarrow> decisionFactsEqual a b \<and> erEvaluationID a = erEvaluationID b \<and> erDecisionTime a = erDecisionTime b \<and>
     erInvalidReason a = erInvalidReason b \<and> erReasons a = erReasons b \<and> erCreatedAt a = erCreatedAt b"

lemma decisionFactsEqual_refl [simp]: "decisionFactsEqual a a"
  by (simp add: decisionFactsEqual_def)

lemma frozen_refl [simp]: "frozen a a"
  by (simp add: frozen_def)

lemma frozen_trans: "frozen a b \<Longrightarrow> frozen b c \<Longrightarrow> frozen a c"
  by (simp add: frozen_def decisionFactsEqual_def)

definition records_grow :: "evaluation_map \<Rightarrow> evaluation_map \<Rightarrow> bool" where
  "records_grow st st' \<longleftrightarrow> (\<forall>i r. map_of st i = Some r \<longrightarrow> (\<exists>r'. map_of st' i = Some r' \<and> frozen r r'))"

lemma records_grow_refl [simp]: "records_grow st st"
  by (auto simp: records_grow_def)

lemma records_grow_trans: "records_grow a b \<Longrightarrow> records_grow b c \<Longrightarrow> records_grow a c"
  unfolding records_grow_def by (meson frozen_trans)

lemma records_update:
  assumes "records_wf st" and "erEvaluationID r = i" and "i \<noteq> []" and "status_sound r"
    and "erExecutedSelection r = []" and "erExecutedPolicy r = None"
    and "\<And>old. map_of st i = Some old \<Longrightarrow> frozen old r"
  shows "records_wf (AList.update i r st) \<and> records_grow st (AList.update i r st)"
  using assms by (simp add: records_wf_def records_grow_def map_of_update)

definition outcome_of :: "evaluation_record \<Rightarrow> evaluation_record \<Rightarrow> evaluation_record" where
  "outcome_of old r = old\<lparr>erExecution := erExecution r, erActualExecution := erActualExecution r,
     erActualQuality := erActualQuality r, erOutcomeAttached := erOutcomeAttached r, erOutcomeUpdatedAt := erOutcomeUpdatedAt r\<rparr>"

lemma outcome_of_facts:
  "erEvaluationID (outcome_of old r) = erEvaluationID old" "status_sound (outcome_of old r) = status_sound old"
  "erExecutedSelection (outcome_of old r) = erExecutedSelection old" "erExecutedPolicy (outcome_of old r) = erExecutedPolicy old"
  "decisionFactsEqual old (outcome_of old r)" "erActualExecution (outcome_of old r) = erActualExecution r"
  "erOutcomeAttached (outcome_of old r) = erOutcomeAttached r"
  by (simp_all add: outcome_of_def status_sound_def decisionFactsEqual_def)

lemma frozen_outcome: "frozen old (outcome_of old r)"
  by (simp add: frozen_def outcome_of_facts) (simp add: outcome_of_def)

lemma EvalSave_known:
  "map_of st (erEvaluationID r) = Some old \<Longrightarrow> erEvaluationID r \<noteq> [] \<Longrightarrow>
     EvalSave now r st =
       (if decisionFactsEqual old r then (AList.update (erEvaluationID r) (outcome_of old r) st, None)
        else (st, Some (EvaluationIdentityConflict (erEvaluationID r))))"
  by (simp add: EvalSave_def outcome_of_def)

lemma EvalSave_ok:
  assumes "records_wf st" and "EvalSave now r st = (st', err)"
    and "map_of st (erEvaluationID r) = None \<Longrightarrow> status_sound r \<and> erExecutedSelection r = [] \<and> erExecutedPolicy r = None"
  shows "records_wf st' \<and> records_grow st st'"
proof (cases "map_of st (erEvaluationID r)")
  case None
  let ?r = "r\<lparr>erCreatedAt := (case erCreatedAt r of None \<Rightarrow> Some now | Some c \<Rightarrow> Some c)\<rparr>"
  have "status_sound ?r" using assms(3) None by (simp add: status_sound_def)
  then have "erEvaluationID r \<noteq> [] \<Longrightarrow> records_wf (AList.update (erEvaluationID r) ?r st) \<and>
      records_grow st (AList.update (erEvaluationID r) ?r st)"
    using assms(1,3) None by (intro records_update) simp_all
  with assms(1,2) None show ?thesis by (auto simp: EvalSave_def split: if_splits)
next
  case (Some old)
  then have "erEvaluationID old = erEvaluationID r" "erEvaluationID r \<noteq> []" "status_sound old"
      "erExecutedSelection old = []" "erExecutedPolicy old = None"
    using assms(1) by (simp_all add: records_wf_def)
  then have "records_wf (AList.update (erEvaluationID r) (outcome_of old r) st) \<and>
      records_grow st (AList.update (erEvaluationID r) (outcome_of old r) st)"
    using assms(1) Some by (intro records_update) (simp_all add: outcome_of_facts frozen_outcome)
  with assms(1,2) show ?thesis
    unfolding EvalSave_known [OF Some \<open>erEvaluationID r \<noteq> []\<close>] by (auto split: if_splits)
qed

lemma records_empty [simp]: "records_wf []"
  by (simp add: records_wf_def)


lemma evaluateOne_unexecuted: "erExecutedPolicy (evaluateOne dc p) = None"
  by (auto simp: evaluateOne_def Let_def split: sum.splits)

lemma check_records [simp]: "evRecords (fst (checkPolicyIdentity d ev)) = evRecords ev"
  by (auto simp: checkPolicyIdentity_def split: option.splits)

lemma check_records': "checkPolicyIdentity d ev = (ev', e) \<Longrightarrow> evRecords ev' = evRecords ev"
  by (metis check_records fst_conv)

lemma EvalSave_fresh:
  assumes "records_wf st" and "EvalSave now (evaluateOne dc p) st = (st', None)"
  shows "\<exists>r. map_of st' (erEvaluationID (evaluateOne dc p)) = Some r \<and> decisionFactsEqual r (evaluateOne dc p)"
proof (cases "map_of st (erEvaluationID (evaluateOne dc p))")
  case None
  with assms show ?thesis by (auto simp: EvalSave_def map_of_update decisionFactsEqual_def split: if_splits)
next
  case (Some old)
  then have ne: "erEvaluationID (evaluateOne dc p) \<noteq> []" using assms(1) by (auto simp: records_wf_def)
  from assms(2) show ?thesis unfolding EvalSave_known [OF Some ne]
    using outcome_of_facts(5) [of old "evaluateOne dc p"]
    by (auto simp: map_of_update decisionFactsEqual_def split: if_splits)
qed


text \<open>The challengers that got a record, in order.\<close>

lemma evaluate_all_run:
  assumes "evaluate_all dc now ps recs c ev = (ev', recs', err)" and "records_wf (evRecords ev)"
  shows "records_wf (evRecords ev') \<and> records_grow (evRecords ev) (evRecords ev') \<and>
    (\<exists>qs. recs' = recs @ map (evaluateOne dc) qs \<and> subseq qs ps \<and>
       (\<forall>p \<in> set qs. \<exists>r. map_of (evRecords ev') (erEvaluationID (evaluateOne dc p)) = Some r \<and>
          decisionFactsEqual r (evaluateOne dc p)))"
  using assms
proof (induction ps arbitrary: recs c ev)
  case Nil
  then show ?case by (auto intro: exI [of _ "[]"])
next
  case (Cons p ps)
  obtain ev1 x where k: "checkPolicyIdentity (roDescriptor p) ev = (ev1, x)" by fastforce
  note r1 = check_records' [OF k]
  show ?case
  proof (cases x)
    case (Some e)
    with Cons.prems k have "evaluate_all dc now ps recs (Some e) ev1 = (ev', recs', err)" by simp
    from Cons.IH [OF this] Cons.prems(2) r1 show ?thesis by (auto intro: list_emb_Cons)
  next
    case None
    obtain st y where v: "EvalSave now (evaluateOne dc p) (evRecords ev1) = (st, y)" by fastforce
    have ok: "records_wf st \<and> records_grow (evRecords ev) st"
      using EvalSave_ok [OF _ v] Cons.prems(2) r1
      by (simp add: status_sound_evaluateOne evaluateOne_facts evaluateOne_unexecuted)
    show ?thesis
    proof (cases y)
      case (Some e)
      with Cons.prems k None v ok show ?thesis by (auto simp: Let_def intro: exI [of _ "[]"])
    next
      case None
      with Cons.prems k \<open>x = None\<close> v
      have "evaluate_all dc now ps (recs @ [evaluateOne dc p]) c (ev1\<lparr>evRecords := st\<rparr>) = (ev', recs', err)"
        by (simp add: Let_def)
      from Cons.IH [OF this] ok obtain qs where qs: "records_wf (evRecords ev')" "records_grow st (evRecords ev')"
        "recs' = (recs @ [evaluateOne dc p]) @ map (evaluateOne dc) qs" "subseq qs ps"
        "\<forall>p \<in> set qs. \<exists>r. map_of (evRecords ev') (erEvaluationID (evaluateOne dc p)) = Some r \<and>
          decisionFactsEqual r (evaluateOne dc p)" by auto
      from EvalSave_fresh [of "evRecords ev1" now dc p st] v None Cons.prems(2) r1
      obtain r where "map_of st (erEvaluationID (evaluateOne dc p)) = Some r" "decisionFactsEqual r (evaluateOne dc p)" by auto
      with qs(2) obtain r' where r': "map_of (evRecords ev') (erEvaluationID (evaluateOne dc p)) = Some r'"
          "decisionFactsEqual r' (evaluateOne dc p)"
        unfolding records_grow_def frozen_def decisionFactsEqual_def by fastforce
      show ?thesis
        using qs ok r' records_grow_trans by (intro conjI exI [of _ "p # qs"]) auto
    qed
  qed
qed

lemma Evaluate_run:
  assumes "Evaluate dc now ps ev = (ev', recs, err)" and "records_wf (evRecords ev)"
  shows "records_wf (evRecords ev') \<and> records_grow (evRecords ev) (evRecords ev') \<and>
    (\<exists>qs. recs = map (evaluateOne dc) qs \<and> subseq qs ps \<and> int (length qs) \<le> maxChallengersPerDecision (dcLimits dc) \<and>
       (\<forall>p \<in> set qs. \<exists>r. map_of (evRecords ev') (erEvaluationID (evaluateOne dc p)) = Some r \<and>
          decisionFactsEqual r (evaluateOne dc p)))"
proof -
  obtain ev1 x where k: "checkPolicyIdentity (dcChampionPolicy dc) ev = (ev1, x)" by fastforce
  have pos: "0 \<le> maxChallengersPerDecision (dcLimits dc)" by (simp add: maxChallengersPerDecision_def)
  show ?thesis
  proof (cases "int (length ps) \<le> maxChallengersPerDecision (dcLimits dc) \<and> x = None")
    case True
    with assms(1) k have all: "evaluate_all dc now ps [] None ev1 = (ev', recs, err)"
      by (simp add: Evaluate_def Let_def)
    from evaluate_all_run [OF this] assms(2) check_records' [OF k]
    obtain qs where qs: "records_wf (evRecords ev')" "records_grow (evRecords ev) (evRecords ev')"
      "recs = map (evaluateOne dc) qs" "subseq qs ps"
      "\<forall>p \<in> set qs. \<exists>r. map_of (evRecords ev') (erEvaluationID (evaluateOne dc p)) = Some r \<and>
         decisionFactsEqual r (evaluateOne dc p)" by auto
    have "length qs \<le> length ps" using qs(4) by (rule list_emb_length)
    with True qs show ?thesis by (intro conjI exI [of _ qs]) simp_all
  next
    case False
    then show ?thesis
      using assms k pos check_records' [OF k]
      by (auto simp: Evaluate_def Let_def split: if_splits option.splits intro!: exI [of _ "[]"])
  qed
qed


lemma AttachOutcome_known:
  assumes "records_wf (evRecords ev)" and "map_of (evRecords ev) eid = Some old"
  obtains r where "AttachOutcome eid xid out q a now ev = (ev\<lparr>evRecords := AList.update eid (outcome_of old r) (evRecords ev)\<rparr>, None)"
    and "erActualExecution r = Some out" and "erOutcomeAttached r" and "erExecution r = xid"
proof -
  let ?c = "a \<noteq> [] \<and> erChallenger old = a"
  let ?r = "old\<lparr>erExecution := xid, erActualExecution := Some out, erActualQuality := Some q,
                erExecutedSelection := (if ?c then erChallenger old else erChampion old),
                erExecutedPolicy := Some (if ?c then erChallengerPolicy old else erChampionPolicy old),
                erOutcomeAttached := True, erOutcomeUpdatedAt := Some now\<rparr>"
  have i: "erEvaluationID old = eid" "eid \<noteq> []" using assms by (simp_all add: records_wf_def)
  have eq: "decisionFactsEqual old ?r" by (simp add: decisionFactsEqual_def)
  have "EvalSave now ?r (evRecords ev) = (AList.update eid (outcome_of old ?r) (evRecords ev), None)"
    using EvalSave_known [of "evRecords ev" ?r old now] assms(2) i eq by simp
  then have "AttachOutcome eid xid out q a now ev = (ev\<lparr>evRecords := AList.update eid (outcome_of old ?r) (evRecords ev)\<rparr>, None)"
    using assms(2) by (simp add: AttachOutcome_def EvalGet_def Let_def)
  then show ?thesis by (rule that) simp_all
qed

lemma AttachQuality_known:
  assumes "records_wf (evRecords ev)" and "map_of (evRecords ev) eid = Some old"
  obtains r where "AttachChampionQuality eid q now ev = (ev\<lparr>evRecords := AList.update eid (outcome_of old r) (evRecords ev)\<rparr>, None)"
proof -
  let ?r = "old\<lparr>erActualQuality := Some q, erOutcomeAttached := True, erOutcomeUpdatedAt := Some now\<rparr>"
  have i: "erEvaluationID old = eid" "eid \<noteq> []" using assms by (simp_all add: records_wf_def)
  have "decisionFactsEqual old ?r" by (simp add: decisionFactsEqual_def)
  then have "EvalSave now ?r (evRecords ev) = (AList.update eid (outcome_of old ?r) (evRecords ev), None)"
    using EvalSave_known [of "evRecords ev" ?r old now] assms(2) i by simp
  with assms(2) that show ?thesis by (simp add: AttachChampionQuality_def EvalGet_def)
qed

lemma outcome_update:
  assumes "records_wf st" and "map_of st eid = Some old"
  shows "records_wf (AList.update eid (outcome_of old r) st) \<and> records_grow st (AList.update eid (outcome_of old r) st)"
  using assms by (intro records_update) (auto simp: records_wf_def outcome_of_facts frozen_outcome)

lemma eval_step_ok:
  assumes "records_wf (evRecords ev)"
  shows "records_wf (evRecords (eval_step e ev)) \<and> records_grow (evRecords ev) (evRecords (eval_step e ev))"
proof (cases e)
  case (EvEvaluate dc now ps)
  obtain ev' recs err where r: "Evaluate dc now ps ev = (ev', recs, err)" by (metis prod_cases3)
  with Evaluate_run [OF r assms] EvEvaluate show ?thesis by simp
next
  case (EvAttach eid xid out q a now)
  show ?thesis
  proof (cases "map_of (evRecords ev) eid")
    case (Some old)
    obtain r where "AttachOutcome eid xid out q a now ev = (ev\<lparr>evRecords := AList.update eid (outcome_of old r) (evRecords ev)\<rparr>, None)"
      by (rule AttachOutcome_known [OF assms Some])
    with EvAttach outcome_update [OF assms Some] show ?thesis by simp
  qed (use assms EvAttach in \<open>simp add: AttachOutcome_def EvalGet_def\<close>)
next
  case (EvQuality eid q now)
  show ?thesis
  proof (cases "map_of (evRecords ev) eid")
    case (Some old)
    obtain r where "AttachChampionQuality eid q now ev = (ev\<lparr>evRecords := AList.update eid (outcome_of old r) (evRecords ev)\<rparr>, None)"
      by (rule AttachQuality_known [OF assms Some])
    with EvQuality outcome_update [OF assms Some] show ?thesis by simp
  qed (use assms EvQuality in \<open>simp add: AttachChampionQuality_def EvalGet_def\<close>)
qed

interpretation evaluation_life: monotone_machine eval_step "\<lambda>ev. records_wf (evRecords ev)"
    "\<lambda>ev ev'. records_grow (evRecords ev) (evRecords ev')"
  by unfold_locales (auto simp: eval_step_ok intro: records_grow_trans)

lemma new_evaluator_wf [simp]: "records_wf (evRecords NewShadowEvaluator)"
  by (simp add: NewShadowEvaluator_def)

abbreviation evaluated :: "eval_event list \<Rightarrow> evaluator" where
  "evaluated evs \<equiv> fold eval_step evs NewShadowEvaluator"

lemma evaluated_wf: "records_wf (evRecords (evaluated evs))"
  by (rule evaluation_life.run_inv) simp

text \<open>
  A shadow evaluation makes at most the allowed number of records, one for each challenger
  it reached, in order, each bound to the decision's snapshot. A record says that the challenger
  agrees or differs only if the recommended agent is one of the snapshot's candidates; every
  record returned is in the store, and none of its decision facts is changed by any later call.
\<close>

theorem shadow_evaluation_sound:
  assumes "Evaluate dc now ps (evaluated evs) = (ev', recs, err)" and "r \<in> set recs"
  shows "int (length recs) \<le> maxChallengersPerDecision (dcLimits dc) \<and>
    subseq (map erChallengerPolicy recs) (map roDescriptor ps) \<and>
    erDecisionID r = snDecisionID (dcSnapshot dc) \<and> erCandidates r = snAgentIDs (dcSnapshot dc) \<and> status_sound r \<and>
    (\<exists>x. EvalGet (erEvaluationID r) (evRecords (fold eval_step later ev')) = Inr x \<and> decisionFactsEqual x r)"
proof -
  from Evaluate_run [OF assms(1) evaluated_wf] obtain qs where wf: "records_wf (evRecords ev')"
    and qs: "recs = map (evaluateOne dc) qs" "subseq qs ps" "int (length qs) \<le> maxChallengersPerDecision (dcLimits dc)"
    and st: "\<forall>p \<in> set qs. \<exists>r. map_of (evRecords ev') (erEvaluationID (evaluateOne dc p)) = Some r \<and>
          decisionFactsEqual r (evaluateOne dc p)" by blast
  from assms(2) qs(1) obtain p where p: "p \<in> set qs" "r = evaluateOne dc p" by auto
  with st obtain x where x: "map_of (evRecords ev') (erEvaluationID r) = Some x" "decisionFactsEqual x r" by auto
  moreover have "records_grow (evRecords ev') (evRecords (fold eval_step later ev'))"
    by (rule evaluation_life.run_rel [OF wf])
  ultimately obtain y where "map_of (evRecords (fold eval_step later ev')) (erEvaluationID r) = Some y" "frozen x y"
    unfolding records_grow_def by blast
  with x(2) have "\<exists>y. EvalGet (erEvaluationID r) (evRecords (fold eval_step later ev')) = Inr y \<and> decisionFactsEqual y r"
    by (auto simp: EvalGet_def frozen_def decisionFactsEqual_def)
  moreover have "map erChallengerPolicy recs = map roDescriptor qs" by (simp add: qs(1) evaluateOne_facts comp_def)
  then have "subseq (map erChallengerPolicy recs) (map roDescriptor ps)" using qs(2) by (simp only: subseq_map)
  ultimately show ?thesis
    using qs(1,3) p(2) evaluateOne_facts status_sound_evaluateOne by simp
qed

definition sample_decision :: decision_context where
  "sample_decision = \<lparr>dcLib = sample_lib, dcRender = (\<lambda>_. ''t0''), dcLimits = DefaultEvaluationLimits,
     dcSnapshot = rqSnapshot (sample_request ''d1'' 0), dcChampionPolicy = xdChampionPolicy sample_definition,
     dcChampion = ''ann'', dcDecisionTime = 0\<rparr>"

definition sample_challenger :: routing_policy where
  "sample_challenger = StaticRoutingPolicy (xdChallengerPolicy sample_definition) ''bob'' [''because'']"

theorem shadow_evaluation_sound_witness:
  "\<exists>r. fst (snd (Evaluate sample_decision 1 [sample_challenger] (evaluated []))) = [r] \<and> status_sound r \<and>
     erDecisionID r = ''d1''"
proof -
  obtain ev' recs err where E: "Evaluate sample_decision 1 [sample_challenger] (evaluated []) = (ev', recs, err)"
    by (metis prod_cases3)
  have "length (fst (snd (Evaluate sample_decision 1 [sample_challenger] (evaluated [])))) = 1" by code_simp
  with E obtain r where r: "recs = [r]" by (auto simp: length_Suc_conv)
  from shadow_evaluation_sound [OF E, of r "[]"] E r show ?thesis
    by (simp add: sample_decision_def sample_request_def)
qed

text \<open>
  The store never says that a challenger was executed. Attaching the outcome of an admitted
  challenger to its record succeeds and stores the outcome, but who was executed and under which
  policy stays empty, whatever was evaluated or attached before.
\<close>

theorem executed_selection_never_recorded:
  assumes "EvalGet eid (evRecords (evaluated evs)) = Inr old" and "admitted = erChallenger old"
  shows "\<exists>r. AttachOutcome eid xid out q admitted now (evaluated evs) =
       ((evaluated evs)\<lparr>evRecords := AList.update eid r (evRecords (evaluated evs))\<rparr>, None) \<and>
     erActualExecution r = Some out \<and> erExecution r = xid \<and> erOutcomeAttached r \<and>
     erExecutedSelection r = [] \<and> erExecutedPolicy r = None"
proof -
  have m: "map_of (evRecords (evaluated evs)) eid = Some old" using assms(1) by (auto simp: EvalGet_def split: option.splits)
  then have "erExecutedSelection old = []" "erExecutedPolicy old = None" using evaluated_wf by (auto simp: records_wf_def)
  moreover obtain r where "AttachOutcome eid xid out q admitted now (evaluated evs) =
      ((evaluated evs)\<lparr>evRecords := AList.update eid (outcome_of old r) (evRecords (evaluated evs))\<rparr>, None)"
    and "erActualExecution r = Some out" "erOutcomeAttached r" "erExecution r = xid"
    by (rule AttachOutcome_known [OF evaluated_wf m])
  ultimately show ?thesis
    by (intro exI [of _ "outcome_of old r"]) (auto simp: outcome_of_facts, simp add: outcome_of_def)
qed

definition sample_eid :: string where
  "sample_eid = ComputeEvaluationID sample_lib (\<lambda>_. ''t0'') (rqSnapshot (sample_request ''d1'' 0))
     (xdChampionPolicy sample_definition) (xdChallengerPolicy sample_definition)"

theorem executed_selection_never_recorded_witness:
  "\<exists>r :: evaluation_record. snd (AttachOutcome sample_eid ''x1'' ExecutionCompleted QualityUnreviewed ''bob'' 5
        (evaluated [EvEvaluate sample_decision 1 [sample_challenger]])) = None \<and>
     erActualExecution r = Some ExecutionCompleted \<and> erExecutedSelection r = []"
proof -
  let ?ev = "evaluated [EvEvaluate sample_decision 1 [sample_challenger]]"
  have "map_option erChallenger (map_of (evRecords ?ev) sample_eid) = Some ''bob''" by code_simp
  then obtain old where old: "EvalGet sample_eid (evRecords ?ev) = Inr old" "''bob'' = erChallenger old"
    by (auto simp: EvalGet_def)
  from executed_selection_never_recorded [OF old, of "''x1''" ExecutionCompleted QualityUnreviewed 5]
  obtain r where A: "AttachOutcome sample_eid ''x1'' ExecutionCompleted QualityUnreviewed ''bob'' 5 ?ev =
        (?ev\<lparr>evRecords := AList.update sample_eid r (evRecords ?ev)\<rparr>, None)"
      and r: "erActualExecution r = Some ExecutionCompleted" "erExecutedSelection r = []" by blast
  show ?thesis unfolding A by (intro exI [of _ r]) (simp add: r)
qed


text \<open>Evaluating a decision again wipes the outcome that was attached to its record.\<close>

lemma reevaluation_erases_outcome:
  assumes "map_of st (erEvaluationID r) = Some old" and "erEvaluationID r \<noteq> []" and "decisionFactsEqual old r"
    and "r = evaluateOne dc p" and "EvalSave now r st = (st', err)"
  shows "err = None \<and> (\<exists>x. map_of st' (erEvaluationID r) = Some x \<and> \<not> erOutcomeAttached x)"
  using assms EvalSave_known [OF assms(1,2), of now] outcome_of_facts(7) [of old r]
  by (auto simp: map_of_update evaluateOne_facts)

subsection \<open>The promotion gate\<close>

record challenger_summary =
  csPolicy :: policy_descriptor
  csEvaluations :: int
  csSame :: int
  csDifferent :: int
  csInvalid :: int
  csErrors :: int
  csInsufficient :: int
  csSupport :: int

definition SummarizeChallenger :: "evaluation_record list \<Rightarrow> policy_descriptor \<Rightarrow> challenger_summary" where
  "SummarizeChallenger recs policy =
     (let rs = filter (\<lambda>r. erChallengerPolicy r = policy) recs in
      \<lparr>csPolicy = policy, csEvaluations = int (length rs),
       csSame = how_many (\<lambda>r. erStatusOf r = StatusSameRecommendation) rs,
       csDifferent = how_many (\<lambda>r. erStatusOf r = StatusDifferentRecommendation) rs,
       csInvalid = how_many (\<lambda>r. erStatusOf r = StatusChallengerInvalidRecommendation) rs,
       csErrors = how_many (\<lambda>r. erStatusOf r = StatusChallengerError) rs,
       csInsufficient = how_many (\<lambda>r. erStatusOf r = StatusChallengerInsufficientData) rs, csSupport = 0\<rparr>)"

datatype promotion_result =
    PromotionManualEligible | PromotionNotEnoughData | PromotionInvalidRecommendations | PromotionPolicyViolation
  | PromotionTenantViolation | PromotionReliabilityRegression | PromotionQualityRegression
  | PromotionInsufficientFinalizedOutcomes | PromotionCoverageIncomplete

record promotion_config =
  pgMinimumEvaluations :: int
  pgMinimumFinalized :: int

definition minimumEvaluations :: "promotion_config \<Rightarrow> int" where
  "minimumEvaluations c =
     (if pgMinimumEvaluations c > 0 then pgMinimumEvaluations c else DefaultMinimumObservationCount)"

definition minimumFinalizedOutcomes :: "promotion_config \<Rightarrow> int" where
  "minimumFinalizedOutcomes c =
     (if pgMinimumFinalized c > 0 then pgMinimumFinalized c else DefaultMinimumObservationCount)"

definition EvaluatePromotionGate :: "challenger_summary \<Rightarrow> int \<Rightarrow> promotion_config \<Rightarrow> promotion_result" where
  "EvaluatePromotionGate s finalized cfg =
     (if csInvalid s > 0 then PromotionInvalidRecommendations
      else if csEvaluations s < minimumEvaluations cfg then PromotionNotEnoughData
      else if finalized < minimumFinalizedOutcomes cfg then PromotionInsufficientFinalizedOutcomes
      else PromotionManualEligible)"

definition CompareHistoricalCohortReliability :: "agent_summary \<Rightarrow> agent_summary \<Rightarrow> promotion_result" where
  "CompareHistoricalCohortReliability champion favored =
     (if asInsufficient champion \<or> asInsufficient favored then PromotionManualEligible
      else
        let cf = ratio (asFailed champion + asTimedOut champion) (asCount champion);
            ff = ratio (asFailed favored + asTimedOut favored) (asCount favored);
            cr = ratio (asRejected champion) (asFinalized champion);
            fr = ratio (asRejected favored) (asFinalized favored) in
        if cf > 0 \<and> ff > 2 * cf then PromotionReliabilityRegression
        else if cr > 0 \<and> fr > 2 * cr then PromotionQualityRegression
        else PromotionManualEligible)"

record evaluation_coverage =
  cvEligible :: int
  cvFull :: int
  cvPartial :: int
  cvMissing :: int
  cvExpected :: int
  cvCaptured :: int

definition coverage_complete :: "evaluation_coverage \<Rightarrow> bool" where
  "coverage_complete c \<longleftrightarrow> cvMissing c = 0 \<and> cvPartial c = 0 \<and> cvCaptured c = cvExpected c"

record coverage_input =
  ciDecisionID :: string
  ciExpected :: int
  ciCaptured :: int

definition count_coverage :: "coverage_input \<Rightarrow> evaluation_coverage \<Rightarrow> evaluation_coverage" where
  "count_coverage d c =
     (let c = c\<lparr>cvEligible := cvEligible c + 1, cvExpected := cvExpected c + ciExpected d,
               cvCaptured := cvCaptured c + ciCaptured d\<rparr> in
      if ciExpected d = 0 then c\<lparr>cvFull := cvFull c + 1\<rparr>
      else if ciCaptured d = 0 then c\<lparr>cvMissing := cvMissing c + 1\<rparr>
      else if ciCaptured d < ciExpected d then c\<lparr>cvPartial := cvPartial c + 1\<rparr>
      else c\<lparr>cvFull := cvFull c + 1\<rparr>)"

definition ComputeEvaluationCoverage :: "coverage_input list \<Rightarrow> evaluation_coverage" where
  "ComputeEvaluationCoverage ds =
     fold count_coverage ds \<lparr>cvEligible = 0, cvFull = 0, cvPartial = 0, cvMissing = 0, cvExpected = 0, cvCaptured = 0\<rparr>"

definition EvaluatePromotionGateWithCoverage ::
  "evaluation_coverage \<Rightarrow> challenger_summary \<Rightarrow> int \<Rightarrow> promotion_config \<Rightarrow> promotion_result"
where
  "EvaluatePromotionGateWithCoverage cov s finalized cfg =
     (if \<not> coverage_complete cov then PromotionCoverageIncomplete else EvaluatePromotionGate s finalized cfg)"

lemma coverage_fold:
  "cvMissing (fold count_coverage ds c) = cvMissing c + how_many (\<lambda>d. ciExpected d \<noteq> 0 \<and> ciCaptured d = 0) ds"
  "cvPartial (fold count_coverage ds c) =
     cvPartial c + how_many (\<lambda>d. ciExpected d \<noteq> 0 \<and> ciCaptured d \<noteq> 0 \<and> ciCaptured d < ciExpected d) ds"
  "cvExpected (fold count_coverage ds c) = cvExpected c + sum_list (map ciExpected ds)"
  "cvCaptured (fold count_coverage ds c) = cvCaptured c + sum_list (map ciCaptured ds)"
  by (induction ds arbitrary: c) (auto simp: count_coverage_def Let_def)

lemma how_many_zero: "how_many P xs = 0 \<longleftrightarrow> (\<forall>x \<in> set xs. \<not> P x)"
  by (simp add: how_many_def filter_empty_conv)

lemma sum_list_squeeze:
  "(\<And>x. x \<in> set xs \<Longrightarrow> f x \<le> (g x :: int)) \<Longrightarrow> sum_list (map f xs) = sum_list (map g xs) \<Longrightarrow> x \<in> set xs \<Longrightarrow> f x = g x"
proof (induction xs)
  case (Cons y ys)
  have "sum_list (map f ys) \<le> sum_list (map g ys)" using Cons.prems(1) by (intro sum_list_mono) auto
  moreover have "f y \<le> g y" using Cons.prems(1) by simp
  ultimately have "f y = g y" "sum_list (map f ys) = sum_list (map g ys)" using Cons.prems(2) by auto
  with Cons show ?case by auto
qed simp

lemma coverage_complete_iff:
  assumes "\<forall>d \<in> set ds. 0 \<le> ciExpected d \<and> 0 \<le> ciCaptured d"
  shows "coverage_complete (ComputeEvaluationCoverage ds) \<longleftrightarrow> (\<forall>d \<in> set ds. ciCaptured d = ciExpected d)"
proof
  assume c: "coverage_complete (ComputeEvaluationCoverage ds)"
  then have le: "ciExpected d \<le> ciCaptured d" if "d \<in> set ds" for d
    using that assms
    by (cases "ciExpected d = 0") (force simp: coverage_complete_def ComputeEvaluationCoverage_def coverage_fold how_many_zero)+
  from c have "sum_list (map ciExpected ds) = sum_list (map ciCaptured ds)"
    by (simp add: coverage_complete_def ComputeEvaluationCoverage_def coverage_fold)
  then show "\<forall>d \<in> set ds. ciCaptured d = ciExpected d"
    using sum_list_squeeze [of ds ciExpected ciCaptured] le by auto
next
  assume eq: "\<forall>d \<in> set ds. ciCaptured d = ciExpected d"
  then have "sum_list (map ciCaptured ds) = sum_list (map ciExpected ds)" by (metis map_eq_conv)
  with eq show "coverage_complete (ComputeEvaluationCoverage ds)"
    by (simp add: coverage_complete_def ComputeEvaluationCoverage_def coverage_fold how_many_zero)
qed

text \<open>
  The promotion gate lets a challenger through only when every decision was evaluated by
  exactly as many challengers as configured, no recommendation of it was invalid, and both the
  evaluations and the finalized outcomes reach their minimum; and whenever all of this holds, it
  does. A surplus of records for one decision never makes up for a missing one of another.
\<close>

theorem promotion_requires_complete_evidence:
  assumes "\<forall>d \<in> set ds. 0 \<le> ciExpected d \<and> 0 \<le> ciCaptured d"
  shows "EvaluatePromotionGateWithCoverage (ComputeEvaluationCoverage ds) (SummarizeChallenger recs policy) finalized cfg =
      PromotionManualEligible \<longleftrightarrow>
    (\<forall>d \<in> set ds. ciCaptured d = ciExpected d) \<and>
    (\<forall>r \<in> set recs. erChallengerPolicy r = policy \<longrightarrow> erStatusOf r \<noteq> StatusChallengerInvalidRecommendation) \<and>
    minimumEvaluations cfg \<le> how_many (\<lambda>r. erChallengerPolicy r = policy) recs \<and>
    minimumFinalizedOutcomes cfg \<le> finalized"
proof -
  have "csInvalid (SummarizeChallenger recs policy) > 0 \<longleftrightarrow>
      \<not> (\<forall>r \<in> set recs. erChallengerPolicy r = policy \<longrightarrow> erStatusOf r \<noteq> StatusChallengerInvalidRecommendation)"
    by (auto simp: SummarizeChallenger_def Let_def how_many_def filter_empty_conv)
  moreover have "csEvaluations (SummarizeChallenger recs policy) = how_many (\<lambda>r. erChallengerPolicy r = policy) recs"
    by (simp add: SummarizeChallenger_def Let_def how_many_def)
  ultimately show ?thesis
    by (auto simp: EvaluatePromotionGateWithCoverage_def EvaluatePromotionGate_def coverage_complete_iff [OF assms])
qed

theorem promotion_requires_complete_evidence_witness:
  "EvaluatePromotionGateWithCoverage
     (ComputeEvaluationCoverage [\<lparr>ciDecisionID = ''d1'', ciExpected = 1, ciCaptured = 2\<rparr>,
                                 \<lparr>ciDecisionID = ''d2'', ciExpected = 1, ciCaptured = 0\<rparr>])
     (SummarizeChallenger [] (xdChallengerPolicy sample_definition)) 10 \<lparr>pgMinimumEvaluations = 0, pgMinimumFinalized = 0\<rparr>
   \<noteq> PromotionManualEligible"
  by (subst promotion_requires_complete_evidence) simp_all

end
