(* ===== verification/Replay.thy ===== *)
theory Replay
  imports ShadowEval
begin

text \<open>
  Offline replay (\<open>internal/performance/replay.go\<close>): what a policy would have recommended for a
  recorded decision, from the snapshot of that decision alone, over the data that was known then
  (time-faithful) or is known now (retrospective). \<open>None\<close> stands for a panic of the policy, which
  the replayer does not recover.
\<close>

datatype replay_status =
  ReplayComplete | ReplayIncomplete | ReplayNotApplicable | ReplayInvalidCandidateContext | ReplayInsufficientData

datatype replay_mode = ReplayModeTimeFaithful | ReplayModeRetrospective | ReplayModeOther string

record replay_request =
  reTenant :: string
  reDecisionID :: string
  reTaskID :: task_id
  reTaskClass :: string
  reDecisionTime :: int
  reHistoricalPolicy :: policy_descriptor
  reHistoricalAgent :: agent_id
  reReplayPolicy :: policy_descriptor
  reNewPolicy :: "dataset \<Rightarrow> routing_policy"
  reMode :: replay_mode

record replay_result =
  rsDecisionID :: string
  rsTaskID :: task_id
  rsHistoricalPolicy :: policy_descriptor
  rsReplayPolicy :: policy_descriptor
  rsHistoricalAgent :: agent_id
  rsReplayAgent :: agent_id
  rsStatus :: "replay_status option"
  rsMode :: replay_mode

definition replay_base :: "replay_request \<Rightarrow> replay_result" where
  "replay_base q =
     \<lparr>rsDecisionID = reDecisionID q, rsTaskID = reTaskID q, rsHistoricalPolicy = reHistoricalPolicy q,
      rsReplayPolicy = reReplayPolicy q, rsHistoricalAgent = reHistoricalAgent q, rsReplayAgent = [],
      rsStatus = None, rsMode = reMode q\<rparr>"

definition replay_dataset :: "dataset \<Rightarrow> replay_request \<Rightarrow> dataset option" where
  "replay_dataset ds q =
     (case reMode q of
        ReplayModeTimeFaithful \<Rightarrow> Some (TimeFaithfulDataset (reDecisionTime q) ds)
      | ReplayModeRetrospective \<Rightarrow> Some ds
      | ReplayModeOther m \<Rightarrow> None)"

definition ReplayOne :: "snapshot_store \<Rightarrow> dataset \<Rightarrow> replay_request \<Rightarrow> replay_result option" where
  "ReplayOne snaps ds q =
     (let base = replay_base q in
      case SnapshotGet (reTenant q) (reDecisionID q) snaps of
        None \<Rightarrow> Some (base\<lparr>rsStatus := Some ReplayIncomplete\<rparr>)
      | Some sn \<Rightarrow>
     (if \<not> snapshot_contains sn (reHistoricalAgent q) then Some (base\<lparr>rsStatus := Some ReplayInvalidCandidateContext\<rparr>)
      else (case replay_dataset ds q of
        None \<Rightarrow> Some (base\<lparr>rsStatus := Some ReplayNotApplicable\<rparr>)
      | Some view \<Rightarrow>
          (case roRecommend (reNewPolicy q view)
              \<lparr>riTenant = reTenant q, riTaskID = reTaskID q, riTaskClass = reTaskClass q, riSnapshot = sn\<rparr> of
             RecommendPanic \<Rightarrow> None
           | RecommendError e \<Rightarrow> Some (base\<lparr>rsStatus := Some ReplayInsufficientData\<rparr>)
           | Recommended r \<Rightarrow>
               if rrInsufficient r then Some (base\<lparr>rsStatus := Some ReplayInsufficientData\<rparr>)
               else if rrAgent r = [] \<or> \<not> snapshot_contains sn (rrAgent r)
               then Some (base\<lparr>rsStatus := Some ReplayInvalidCandidateContext\<rparr>)
               else Some (base\<lparr>rsReplayAgent := rrAgent r, rsStatus := Some ReplayComplete\<rparr>)))))"

fun replay_all :: "snapshot_store \<Rightarrow> dataset \<Rightarrow> replay_request list \<Rightarrow> replay_result list option" where
  "replay_all snaps ds [] = Some []"
| "replay_all snaps ds (q # qs) =
     Option.bind (ReplayOne snaps ds q) (\<lambda>r. map_option (\<lambda>rs. r # rs) (replay_all snaps ds qs))"

datatype replay_error = ReplayBatchTooLarge int int

definition ReplayBatch ::
  "evaluation_limits \<Rightarrow> snapshot_store \<Rightarrow> dataset \<Rightarrow> replay_request list \<Rightarrow> (replay_error + replay_result list) option"
where
  "ReplayBatch l snaps ds qs =
     (if int (length qs) > maxReplayBatchSize l
      then Some (Inl (ReplayBatchTooLarge (int (length qs)) (maxReplayBatchSize l)))
      else map_option Inr (replay_all snaps ds qs))"

lemma ReplayOne_complete:
  assumes "ReplayOne snaps ds q = Some r" and "rsStatus r = Some ReplayComplete"
  obtains sn view where "SnapshotGet (reTenant q) (reDecisionID q) snaps = Some sn"
    and "reHistoricalAgent q \<in> set (snAgentIDs sn)" and "rsReplayAgent r \<in> set (snAgentIDs sn)"
    and "replay_dataset ds q = Some view" and "rsDecisionID r = reDecisionID q"
proof -
  from assms obtain sn where sn: "SnapshotGet (reTenant q) (reDecisionID q) snaps = Some sn"
    by (auto simp: ReplayOne_def Let_def split: option.splits)
  with assms obtain view where v: "replay_dataset ds q = Some view" "snapshot_contains sn (reHistoricalAgent q)"
    by (auto simp: ReplayOne_def Let_def split: option.splits if_splits)
  with assms sn have "snapshot_contains sn (rsReplayAgent r) \<and> rsDecisionID r = reDecisionID q"
    by (auto simp: ReplayOne_def replay_base_def Let_def split: recommend_outcome.splits if_splits)
  with sn v that show ?thesis by (auto simp: snapshot_contains_def list_ex_iff)
qed

lemma replay_all_each: "replay_all snaps ds qs = Some rs \<Longrightarrow> list_all2 (\<lambda>q r. ReplayOne snaps ds q = Some r) qs rs"
  by (induction qs arbitrary: rs) (auto split: Option.bind_splits)


subsection \<open>What an aggregation looks at\<close>

definition facts_of :: "performance_observation \<Rightarrow>
  string \<times> string \<times> task_id \<times> agent_id \<times> observation_status \<times> execution_outcome \<times> quality_outcome \<times> int \<times> int" where
  "facts_of ob = (pfTenant ob, pfTaskClass ob, pfTaskID ob, pfAgent ob, pfStatus ob, pfExecution ob, pfQuality ob,
     mtDuration (pfMetrics ob), mtRework (pfMetrics ob))"

lemma count_facts: "facts_of x = facts_of y \<Longrightarrow> count_observation c x = count_observation c y"
  by (simp add: fun_eq_iff count_observation_def facts_of_def)

lemma duration_facts: "facts_of x = facts_of y \<Longrightarrow> mtDuration (pfMetrics x) = mtDuration (pfMetrics y)"
  by (simp add: facts_of_def)

lemma summarise_facts:
  assumes "map facts_of xs = map facts_of ys"
  shows "summarise a c xs = summarise a c ys"
proof -
  have "fold (count_observation c) xs s = fold (count_observation c) ys s \<and> positive_durations xs = positive_durations ys" for s
    using assms
  proof (induction xs arbitrary: ys s)
    case (Cons x xs)
    then obtain y ys' where ys: "ys = y # ys'" "facts_of x = facts_of y" "map facts_of xs = map facts_of ys'" by (cases ys) auto
    show ?case using Cons.IH [OF ys(3)] count_facts [OF ys(2), of c] duration_facts [OF ys(2)]
      by (simp add: ys(1) positive_durations_def)
  qed simp
  moreover have "length xs = length ys" using assms by (rule map_eq_imp_length_eq)
  ultimately show ?thesis by (simp only: summarise_def Let_def)
qed

lemma mset_map_rearrange:
  "mset (map f xs) = mset (map f ys) \<Longrightarrow> \<exists>zs. mset zs = mset ys \<and> map f zs = map f xs"
proof (induction xs arbitrary: ys)
  case (Cons x xs)
  have "set (map f (x # xs)) = set (map f ys)" using Cons.prems by (rule mset_eq_setD)
  then have "f x \<in> f ` set ys" by auto
  then obtain y where y: "y \<in> set ys" "f y = f x" by auto
  then have m: "mset ys = mset (y # remove1 y ys)" by simp
  then have "mset (map f xs) = mset (map f (remove1 y ys))" using Cons.prems y(2) by (simp del: mset_remove1)
  from Cons.IH [OF this] obtain zs where "mset zs = mset (remove1 y ys)" "map f zs = map f xs" by blast
  with m y(2) show ?case by (intro exI [of _ "y # zs"]) (simp del: mset_remove1)
qed simp

lemma summarise_facts_mset: "mset (map facts_of xs) = mset (map facts_of ys) \<Longrightarrow> summarise a c xs = summarise a c ys"
proof -
  assume "mset (map facts_of xs) = mset (map facts_of ys)"
  then obtain zs where "mset zs = mset ys" "map facts_of zs = map facts_of xs" using mset_map_rearrange by blast
  then show ?thesis using summarise_facts [of zs xs a c] summarise_mset [of zs ys a c] by simp
qed

subsection \<open>The past of a store\<close>

definition past :: "int \<Rightarrow> perf_store \<Rightarrow> (string \<times> performance_observation) list" where
  "past asof st = List.map_filter (\<lambda>(i, x). map_option (Pair i) (ObservationAsOf asof x)) st"

lemma past_simps:
  "past asof [] = []"
  "past asof ((i, x) # st) = (case ObservationAsOf asof x of None \<Rightarrow> past asof st | Some y \<Rightarrow> (i, y) # past asof st)"
  by (simp_all add: past_def List.map_filter_def split: option.splits)

lemma set_past: "(i, y) \<in> set (past asof st) \<longleftrightarrow> (\<exists>x. (i, x) \<in> set st \<and> ObservationAsOf asof x = Some y)"
  by (induction st) (auto simp: past_simps split: option.splits)

lemma past_keys: "set (map fst (past asof st)) \<subseteq> set (map fst st)"
  by (force simp: set_past)

lemma past_distinct: "distinct (map fst st) \<Longrightarrow> distinct (map fst (past asof st))"
proof (induction st)
  case (Cons p st)
  obtain i x where p: "p = (i, x)" by (cases p)
  with Cons.prems past_keys [of asof st] have "i \<notin> set (map fst (past asof st))" by auto
  with Cons p show ?case by (simp add: past_simps split: option.splits)
qed (simp add: past_simps)

lemma past_view:
  "List.map_filter (ObservationAsOf asof) (filter (in_scope f) (map snd st)) =
     filter (in_scope f) (map snd (past asof st))"
  by (induction st) (auto simp: past_simps map_filter_simps AsOf_scope split: option.splits)

lemma map_filter_mset: "mset xs = mset ys \<Longrightarrow> mset (List.map_filter g xs) = mset (List.map_filter g ys)"
  by (simp add: List.map_filter_def)

lemma timely_view:
  assumes "is_shuffle ord" and "\<not> ofFinalizedOnly f" and "ofAllTenants f \<or> ofTenant f \<noteq> []"
  shows "\<exists>view. TimeFaithfulDataset asof (StoreDataset ord st) f = Inr view \<and>
    mset view = mset (filter (in_scope f) (map snd (past asof st)))"
proof -
  have "filter_matches f = in_scope f" using assms(2) by (simp add: fun_eq_iff filter_matches_def)
  then have "StoreDataset ord st f = Inr (filter (in_scope f) (ord (map snd st)))"
    using assms(3) by (simp add: StoreDataset_def PerfQuery_Inr)
  moreover have "mset (List.map_filter (ObservationAsOf asof) (filter (in_scope f) (ord (map snd st)))) =
      mset (filter (in_scope f) (map snd (past asof st)))"
    using map_filter_mset [OF filter_shuffle [OF assms(1)], of "ObservationAsOf asof" "in_scope f" "map snd st"]
    by (simp only: past_view)
  ultimately show ?thesis by (simp add: TimeFaithfulDataset_def)
qed

text \<open>A store as it is right after the executions it records, before any review.\<close>

definition unreviewed_at :: "int \<Rightarrow> perf_store \<Rightarrow> bool" where
  "unreviewed_at asof st \<longleftrightarrow> store_wf st \<and>
     (\<forall>i ob. map_of st i = Some ob \<longrightarrow> pfQuality ob = QualityUnreviewed \<and> pfStatus ob = ObservationPending \<and>
        pfCreatedAt ob \<le> asof \<and> pfUpdatedAt ob \<le> asof)"

text \<open>An execution recorded later is a new one.\<close>

definition fresh_event :: "text_lib \<Rightarrow> taxonomy \<Rightarrow> perf_store \<Rightarrow> perf_event \<Rightarrow> bool" where
  "fresh_event lib tax base e =
     (case e of
        PExecuted now x \<Rightarrow> (case NewObservation lib tax now x of Inl err \<Rightarrow> True | Inr ob \<Rightarrow> map_of base (pfID ob) = None)
      | PReviewed now i g \<Rightarrow> True)"

definition kept_from :: "int \<Rightarrow> perf_store \<Rightarrow> perf_store \<Rightarrow> bool" where
  "kept_from asof base st \<longleftrightarrow>
     (\<forall>i ob. map_of base i = Some ob \<longrightarrow> (\<exists>x. map_of st i = Some x \<and> pfCreatedAt x \<le> asof))"

lemma kept_from_save:
  assumes "kept_from asof base st" and "pfCreatedAt y \<le> asof \<or> map_of base (pfID y) = None"
  shows "kept_from asof base (fst (PerfSave y st))"
  unfolding kept_from_def
proof (intro allI impI)
  fix i ob
  assume b: "map_of base i = Some ob"
  with assms(1) obtain x where "map_of st i = Some x" "pfCreatedAt x \<le> asof" unfolding kept_from_def by blast
  with assms(2) b show "\<exists>x. map_of (fst (PerfSave y st)) i = Some x \<and> pfCreatedAt x \<le> asof"
    unfolding PerfSave_lookup by auto
qed

lemma kept_from_step:
  assumes "kept_from asof base st" and "later_of asof base st" and "fresh_event lib tax base e"
  shows "kept_from asof base (perf_step lib tax e st)"
proof (cases e)
  case (PExecuted now x)
  with assms show ?thesis by (auto simp: fresh_event_def split: sum.splits intro: kept_from_save)
next
  case (PReviewed now i g)
  have "kept_from asof base (fst (PerfSave (FinalizeWithReview now x g) st))" if x: "map_of st i = Some x" for x
  proof (rule kept_from_save [OF assms(1)])
    have "pfID x = i" using assms(2) x by (simp add: later_of_def store_wf_def)
    then show "pfCreatedAt (FinalizeWithReview now x g) \<le> asof \<or> map_of base (pfID (FinalizeWithReview now x g)) = None"
      using assms(1) x by (cases "map_of base i") (auto simp: kept_from_def)
  qed
  with assms(1) PReviewed show ?thesis by (auto simp: PerfGet_def split: option.splits)
qed

lemma kept_run:
  assumes "kept_from asof base st" and "later_of asof base st"
    and "list_all (\<lambda>e. event_time e > asof \<and> fresh_event lib tax base e) evs"
  shows "kept_from asof base (fold (perf_step lib tax) evs st) \<and> later_of asof base (fold (perf_step lib tax) evs st)"
  using assms by (induction evs arbitrary: st) (auto simp: kept_from_step later_of_step)


lemma past_facts:
  assumes "unreviewed_at asof base" and "kept_from asof base st" and "later_of asof base st"
  shows "mset (map (\<lambda>(i, y). (i, facts_of y)) (past asof st)) = mset (map (\<lambda>(i, y). (i, facts_of y)) (past asof base))"
proof -
  let ?g = "\<lambda>(i, y). (i :: string, facts_of y)"
  have wf: "store_wf base" "store_wf st" using assms by (simp_all add: unreviewed_at_def later_of_def)
  have dist: "distinct (map ?g (past asof s))" if "store_wf s" for s
  proof -
    have "distinct (map fst (past asof s))" using that by (simp add: store_wf_def past_distinct)
    moreover have "map fst (map ?g (past asof s)) = map fst (past asof s)" by (simp add: comp_def case_prod_beta)
    ultimately show ?thesis by (metis distinct_map)
  qed
  have look: "(i, x) \<in> set s \<longleftrightarrow> map_of s i = Some x" if "store_wf s" for s i x
    using that by (simp add: store_wf_def)
  have eq: "facts_of y = facts_of ob"
    if x: "map_of st i = Some x" "ObservationAsOf asof x = Some y" and ob: "map_of base i = Some ob" for i x y ob
  proof -
    have "pfCreatedAt x \<le> asof" using x(2) by (simp add: ObservationAsOf_def split: if_splits)
    then obtain ob' where o: "map_of base i = Some ob'" "same_execution ob' x" "x = ob' \<or> pfUpdatedAt x > asof"
      using assms(3) x(1) unfolding later_of_def by force
    with ob have "ob' = ob" by simp
    moreover have "pfQuality ob = QualityUnreviewed" "pfStatus ob = ObservationPending" "pfUpdatedAt ob \<le> asof"
      using assms(1) ob unfolding unreviewed_at_def by blast+
    ultimately show ?thesis using o(2,3) x(2)
      by (auto simp: ObservationAsOf_def facts_of_def same_execution_def same_identity_def split: if_splits)
  qed
  have base: "ObservationAsOf asof ob = Some ob" if "map_of base i = Some ob" for i ob
    using assms(1) that unfolding unreviewed_at_def ObservationAsOf_def by force
  have "set (map ?g (past asof st)) = set (map ?g (past asof base))"
  proof (intro equalityI subsetI)
    fix p
    assume "p \<in> set (map ?g (past asof st))"
    then obtain i x y where x: "map_of st i = Some x" "ObservationAsOf asof x = Some y" "p = (i, facts_of y)"
      using look [OF wf(2)] by (auto simp: set_past)
    then have "pfCreatedAt x \<le> asof" by (simp add: ObservationAsOf_def split: if_splits)
    then obtain ob where ob: "map_of base i = Some ob" using assms(3) x(1) unfolding later_of_def by force
    then have "(i, ob) \<in> set (past asof base)" using base look [OF wf(1)] by (auto simp: set_past)
    then show "p \<in> set (map ?g (past asof base))" using x(3) eq [OF x(1,2) ob] by force
  next
    fix p
    assume "p \<in> set (map ?g (past asof base))"
    then obtain i ob where ob: "map_of base i = Some ob" "p = (i, facts_of ob)"
      using look [OF wf(1)] base by (fastforce simp: set_past)
    then obtain x where x: "map_of st i = Some x" "pfCreatedAt x \<le> asof" using assms(2) unfolding kept_from_def by blast
    then have "ObservationAsOf asof x \<noteq> None" by (simp add: ObservationAsOf_def)
    then obtain y where y: "ObservationAsOf asof x = Some y" by blast
    then have "(i, y) \<in> set (past asof st)" using x(1) look [OF wf(2)] by (auto simp: set_past)
    then show "p \<in> set (map ?g (past asof st))" using ob(2) eq [OF x(1) y ob(1)] by force
  qed
  then show ?thesis using dist [OF wf(1)] dist [OF wf(2)] by (simp only: set_eq_iff_mset_eq_distinct)
qed

fun fact_scope :: "observation_filter \<Rightarrow>
  string \<times> string \<times> task_id \<times> agent_id \<times> observation_status \<times> execution_outcome \<times> quality_outcome \<times> int \<times> int \<Rightarrow> bool" where
  "fact_scope f (tn, cl, ti, ag, _) \<longleftrightarrow>
     (ofAllTenants f \<or> tn = ofTenant f) \<and> (ofTaskClass f = [] \<or> cl = ofTaskClass f) \<and>
     (ofTaskID f = [] \<or> ti = ofTaskID f) \<and> (ofAgent f = [] \<or> ag = ofAgent f)"

lemma fact_scope_facts: "fact_scope f (facts_of x) = in_scope f x"
  by (simp add: facts_of_def in_scope_def)

lemma past_scope_facts:
  "map facts_of (filter (in_scope f) (map snd ps)) =
     map snd (filter (\<lambda>p. fact_scope f (snd p)) (map (\<lambda>(i, y). (i :: string, facts_of y)) ps))"
  by (induction ps) (auto simp: fact_scope_facts)

lemma time_faithful_aggregate:
  assumes "unreviewed_at asof base" and "kept_from asof base st" and "later_of asof base st"
    and "is_shuffle ord" and "is_shuffle ord'"
  shows "Aggregate (TimeFaithfulDataset asof (StoreDataset ord st)) f a c =
         Aggregate (TimeFaithfulDataset asof (StoreDataset ord' base)) f a c"
proof (cases "ofAllTenants f \<or> ofTenant f \<noteq> []")
  case True
  let ?f = "f\<lparr>ofAgent := a, ofTaskClass := c, ofFinalizedOnly := False\<rparr>"
  from timely_view [OF assms(4), of ?f asof st] True obtain v where
    v: "TimeFaithfulDataset asof (StoreDataset ord st) ?f = Inr v" "mset v = mset (filter (in_scope ?f) (map snd (past asof st)))" by auto
  from timely_view [OF assms(5), of ?f asof base] True obtain w where
    w: "TimeFaithfulDataset asof (StoreDataset ord' base) ?f = Inr w" "mset w = mset (filter (in_scope ?f) (map snd (past asof base)))" by auto
  have "mset (map facts_of (filter (in_scope ?f) (map snd (past asof st)))) =
      mset (map facts_of (filter (in_scope ?f) (map snd (past asof base))))"
    by (simp only: past_scope_facts mset_map mset_filter past_facts [OF assms(1-3), unfolded mset_map])
  then have "mset (map facts_of v) = mset (map facts_of w)" by (simp only: mset_map v(2) w(2))
  then have "summarise a c v = summarise a c w" by (rule summarise_facts_mset)
  with v(1) w(1) show ?thesis by (simp add: Aggregate_def)
next
  case False
  then show ?thesis
    by (simp add: Aggregate_def TimeFaithfulDataset_def StoreDataset_def PerfQuery_def filter_validate_def require_def guard_res_def)
qed

lemma advise_dataset:
  assumes "\<And>f a c. Aggregate ds f a c = Aggregate ds' f a c" and "\<not> daPairEvidence ad"
  shows "AdviseDeterministic (ad\<lparr>daDataset := ds\<rparr>) tax dur t cands = AdviseDeterministic (ad\<lparr>daDataset := ds'\<rparr>) tax dur t cands"
proof -
  have "score (ad\<lparr>daDataset := ds\<rparr>) = score (ad\<lparr>daDataset := ds'\<rparr>)" by (simp add: fun_eq_iff score_def assms(1))
  moreover have "recommend_sufficient (ad\<lparr>daDataset := ds\<rparr>) dur c = recommend_sufficient (ad\<lparr>daDataset := ds'\<rparr>) dur c" for c
    using assms(2) by (simp add: fun_eq_iff recommend_sufficient_def minObs_def)
  ultimately show ?thesis by (simp add: AdviseDeterministic_def Let_def policyVersion_def)
qed

text \<open>
  C18: a time-faithful replay of the advisor is free of look-ahead for a decision taken before any
  review. When nothing in the store had been reviewed by the decision's time, replaying it gives
  the same result over any later store as over the store of that time: no execution that is new to the store and
  started later, no review verdict that came later, and no order in which the store is visited, changes it. The
  advisor's pair evidence is switched off. (An observation that was reviewed before the decision and again
  after it shows only its later verdict, so the first assumption is needed.)
\<close>

theorem replay_sees_only_the_past:
  assumes "unreviewed_at (reDecisionTime q) base"
    and "list_all (\<lambda>e. event_time e > reDecisionTime q \<and> fresh_event lib tax base e) evs"
    and "is_shuffle ord" and "is_shuffle ord'" and "\<not> daPairEvidence ad" and "reMode q = ReplayModeTimeFaithful"
    and "reNewPolicy q = (\<lambda>ds. AdvisorRoutingPolicy render (AdviseDeterministic (ad\<lparr>daDataset := ds\<rparr>) tax dur) d)"
  shows "ReplayOne snaps (StoreDataset ord (fold (perf_step lib tax) evs base)) q = ReplayOne snaps (StoreDataset ord' base) q"
proof -
  have "kept_from (reDecisionTime q) base base" "later_of (reDecisionTime q) base base"
    using assms(1) by (auto simp: kept_from_def later_of_def unreviewed_at_def)
  from kept_run [OF this assms(2)] have
    "Aggregate (TimeFaithfulDataset (reDecisionTime q) (StoreDataset ord (fold (perf_step lib tax) evs base))) f a c =
     Aggregate (TimeFaithfulDataset (reDecisionTime q) (StoreDataset ord' base)) f a c" for f a c
    using time_faithful_aggregate [OF assms(1) _ _ assms(3,4)] by blast
  from advise_dataset [OF this assms(5)]
  have "reNewPolicy q (TimeFaithfulDataset (reDecisionTime q) (StoreDataset ord (fold (perf_step lib tax) evs base))) =
        reNewPolicy q (TimeFaithfulDataset (reDecisionTime q) (StoreDataset ord' base))"
    by (simp add: assms(7) AdvisorRoutingPolicy_def)
  then show ?thesis by (simp only: ReplayOne_def replay_dataset_def assms(6) replay_mode.case option.case)
qed

definition sample_replay :: replay_request where
  "sample_replay = \<lparr>reTenant = ''acme'', reDecisionID = ''d1'', reTaskID = ''t'', reTaskClass = ''debugging'',
     reDecisionTime = 1, reHistoricalPolicy = xdChampionPolicy sample_definition, reHistoricalAgent = ''ann'',
     reReplayPolicy = xdChallengerPolicy sample_definition,
     reNewPolicy = (\<lambda>ds. AdvisorRoutingPolicy (\<lambda>_. []) (AdviseDeterministic (sample_advisor\<lparr>daDataset := ds\<rparr>) default_taxonomy (\<lambda>_. []))
       (xdChallengerPolicy sample_definition)),
     reMode = ReplayModeTimeFaithful\<rparr>"

definition sample_snaps :: snapshot_store where
  "sample_snaps = fst (SnapshotSave sample_lib (\<lambda>_. ''t0'') (rqSnapshot (sample_request ''d1'' 0))
     \<lparr>ssByKey = Map.empty, ssByTask = (\<lambda>_. [])\<rparr>)"

theorem replay_sees_only_the_past_witness:
  "map_option rsStatus (ReplayOne sample_snaps (StoreDataset rev (fold (perf_step sample_lib default_taxonomy)
      [PReviewed 2 (sample_oid ''a'') (sample_verdict FindingVerified)] busy_store)) sample_replay) = Some (Some ReplayComplete)"
proof -
  have un: "unreviewed_at (reDecisionTime sample_replay) busy_store"
  proof -
    have "store_wf busy_store" unfolding busy_store_def by (rule perf_life.run_inv) simp
    moreover have "list_all (\<lambda>(i, ob). pfQuality ob = QualityUnreviewed \<and> pfStatus ob = ObservationPending \<and>
        pfCreatedAt ob \<le> 1 \<and> pfUpdatedAt ob \<le> 1) busy_store" by code_simp
    ultimately show ?thesis
      by (auto simp: unreviewed_at_def sample_replay_def list_all_iff dest!: map_of_SomeD)
  qed
  have "ReplayOne sample_snaps (StoreDataset rev (fold (perf_step sample_lib default_taxonomy)
      [PReviewed 2 (sample_oid ''a'') (sample_verdict FindingVerified)] busy_store)) sample_replay =
    ReplayOne sample_snaps (StoreDataset (\<lambda>xs. xs) busy_store) sample_replay"
    by (rule replay_sees_only_the_past [OF un, where ad = sample_advisor and tax = default_taxonomy])
      (simp_all add: sample_replay_def fresh_event_def sample_advisor_def)
  moreover have "map_option rsStatus (ReplayOne sample_snaps (StoreDataset (\<lambda>xs. xs) busy_store) sample_replay) =
    Some (Some ReplayComplete)" by code_simp
  ultimately show ?thesis by simp
qed

end
