(* ===== verification/Coordinator.thy ===== *)
theory Coordinator
  imports Replay
begin

text \<open>
  The production wiring of the evaluation plane (\<open>internal/performance\<close>: \<open>wiring.go\<close> and
  \<open>production_coordinator.go\<close>): the observers of executions, routing decisions and review
  transitions, and the admission hook of the scheduler, over the stores of the other theories.
  Telemetry counters and the model-outcome sink are left out; a panic in an observer is
  recovered by the caller and changes nothing.
\<close>

subsection \<open>Observing executions\<close>

text \<open>Usages of the same route, provider and model are merged, in order of first appearance.\<close>

fun merge_usage :: "model_usage_ref \<Rightarrow> model_usage_ref list \<Rightarrow> model_usage_ref list" where
  "merge_usage u [] = [u]"
| "merge_usage u (v # vs) =
     (if muRouteID v = muRouteID u \<and> muProvider v = muProvider u \<and> muModel v = muModel u
      then v\<lparr>muCount := muCount v + muCount u\<rparr> # vs else v # merge_usage u vs)"

definition convertModelUsages :: "model_usage_ref list \<Rightarrow> model_usage_ref list" where
  "convertModelUsages us = fold merge_usage us []"

record execution_report =
  xrTask :: task
  xrAgent :: agent_id
  xrExecutionID :: string
  xrResult :: execution_result
  xrErr :: "execution_err option"
  xrStartedAt :: int
  xrFinishedAt :: int

definition report_input :: "execution_report \<Rightarrow> observation_input" where
  "report_input x =
     \<lparr>niTenant = tTenant (xrTask x), niTaskID = tID (xrTask x), niExecutionID = xrExecutionID x,
      niTaskClass = tType (xrTask x), niRisk = tRisk (xrTask x), niAgent = xrAgent x, niSelectionRef = [],
      niOutcome = outcome_name (ClassifyExecutionOutcome (xrResult x) (xrErr x)),
      niModelUsages = convertModelUsages (erModelUsages (xrResult x)),
      niMetrics = \<lparr>mtDuration = xrFinishedAt x - xrStartedAt x, mtAttempts = 1, mtRetries = 0, mtReplans = 0,
        mtReviewRounds = 0, mtRework = 0, mtFindings = 0, mtVerifiedFindings = 0, mtRejectedFindings = 0,
        mtConfirmations = 0, mtEvidence = 0, mtCostUnits = 0\<rparr>,
      niStartedAt = Some (xrStartedAt x), niFinishedAt = Some (xrFinishedAt x)\<rparr>"

definition SupervisorObserveExecution ::
  "text_lib \<Rightarrow> taxonomy \<Rightarrow> int \<Rightarrow> execution_report \<Rightarrow> perf_store \<Rightarrow> perf_store"
where
  "SupervisorObserveExecution lib tax now x st =
     (if \<not> KnownTaskClass tax (tType (xrTask x)) \<or> xrAgent x = [] \<or> xrExecutionID x = [] then st
      else (case NewObservation lib tax now (report_input x) of Inl e \<Rightarrow> st | Inr ob \<Rightarrow> fst (PerfSave ob st)))"

subsection \<open>Finalizing by reviews\<close>

text \<open>The evidence store is optional.\<close>

definition resolveExecutionID ::
  "evidence_map option \<Rightarrow> string \<Rightarrow> task_id \<Rightarrow> finding_observation \<Rightarrow> string option"
where
  "resolveExecutionID evidence tenant tid ob =
     (if obExecutionRef ob \<noteq> [] then Some (obExecutionRef ob)
      else (case evidence of
        None \<Rightarrow> None
      | Some store \<Rightarrow>
          (case remdups (map ecExecutionID (filter (\<lambda>r. ecTenant r = tenant \<and> ecTaskID r = tid \<and> ecExecutionID r \<noteq> [])
              (List.map_filter store (obEvidenceRefs ob)))) of
             [x] \<Rightarrow> Some x
           | _ \<Rightarrow> None)))"

text \<open>The task and execution of every observation that resolves, each pair once.\<close>

fun resolve_targets ::
  "evidence_map option \<Rightarrow> string \<Rightarrow> (task_id \<times> string) list \<Rightarrow> finding_observation list \<Rightarrow> (task_id \<times> string) list"
where
  "resolve_targets evidence tenant acc [] = acc"
| "resolve_targets evidence tenant acc (ob # obs) =
     (if obExecutionID ob = [] then resolve_targets evidence tenant acc obs
      else (case resolveExecutionID evidence tenant (obExecutionID ob) ob of
        None \<Rightarrow> resolve_targets evidence tenant acc obs
      | Some eid \<Rightarrow>
          if (obExecutionID ob, eid) \<in> set acc then resolve_targets evidence tenant acc obs
          else resolve_targets evidence tenant (acc @ [(obExecutionID ob, eid)]) obs))"

definition ResolvedExecutionTargets :: "evidence_map option \<Rightarrow> review_group \<Rightarrow> (task_id \<times> string) list" where
  "ResolvedExecutionTargets evidence g = resolve_targets evidence (gTenant g) [] (gObservations g)"

definition finalize_target :: "text_lib \<Rightarrow> int \<Rightarrow> review_group \<Rightarrow> task_id \<times> string \<Rightarrow> perf_store \<Rightarrow> perf_store" where
  "finalize_target lib now g ref st =
     (case PerfGet (ComputeObservationID lib (gTenant g) (fst ref) (snd ref) ObservationKindExecution) st of
        Inl e \<Rightarrow> st
      | Inr ob \<Rightarrow> fst (PerfSave (FinalizeWithReview now ob g) st))"

definition HookObserveReviewTransition ::
  "text_lib \<Rightarrow> evidence_map option \<Rightarrow> int \<Rightarrow> review_group \<Rightarrow> perf_store \<Rightarrow> perf_store"
where
  "HookObserveReviewTransition lib evidence now g st =
     fold (finalize_target lib now g) (ResolvedExecutionTargets evidence g) st"

subsection \<open>The coordinator\<close>

record coordinator_config =
  ccLib :: text_lib
  ccTaxonomy :: taxonomy
  ccRender :: "int \<Rightarrow> string"
  ccQuote :: "string \<Rightarrow> string"
  ccHash :: "string \<Rightarrow> char list"
  ccLimits :: evaluation_limits
  ccChallengers :: "routing_policy list"
  ccExperiment :: "string option"
  ccEvidence :: "evidence_map option"
  ccOrder :: "evaluation_record range_order"

record coordinator =
  coPerf :: perf_store
  coSnapshots :: snapshot_store
  coEvaluator :: evaluator
  coExperiments :: experiment_store
  coPendingDecisions :: "string \<Rightarrow> (string \<times> string list) option"
  coEvaluationsByExecution :: "string \<Rightarrow> string list"
  coPendingAdmissions :: "string \<Rightarrow> admission option"
  coAdmissionsByExecution :: "string \<Rightarrow> admission option"

definition pendingKey :: "string \<Rightarrow> task_id \<Rightarrow> string" where
  "pendingKey tenant tid = two_part_key tenant tid"

definition coordinator_audit ::
  "string \<Rightarrow> string \<Rightarrow> eligibility_reason \<Rightarrow> int \<Rightarrow> coordinator \<Rightarrow> coordinator"
where
  "coordinator_audit i did code now co = co\<lparr>coExperiments := AuditExperiment
     \<lparr>xuExperimentID = i, xuDecisionID = did, xuEvent = ''admission_denied'', xuReason = reason_string code, xuAt = now\<rparr>
     (coExperiments co)\<rparr>"

definition evaluated_decisions :: "coordinator_config \<Rightarrow> coordinator \<Rightarrow> string \<Rightarrow> msg + string list" where
  "evaluated_decisions cfg co tenant =
     (case EvalQuery (ccOrder cfg) (evRecords (coEvaluator co))
        \<lparr>efTenant = tenant, efAllTenants = False, efTaskClass = [], efChallengerPolicyID = []\<rparr> of
        Inl e \<Rightarrow> Inl (plain ''cross-tenant query denied'')
      | Inr rs \<Rightarrow> Inr (map erDecisionID rs))"

definition coordinator_request ::
  "string \<Rightarrow> task \<Rightarrow> string \<Rightarrow> candidate_snapshot \<Rightarrow> agent_id \<Rightarrow> experiment_definition \<Rightarrow> int \<Rightarrow> admission_request"
where
  "coordinator_request i t did sn champion d now =
     \<lparr>rqExperimentID = i, rqDecisionID = did, rqTenant = tTenant t, rqTask = t, rqSnapshot = sn, rqChampion = champion,
      rqChallenger = xdChallenger d, rqPolicy = xdChallengerPolicy d, rqRisk = tRisk t, rqNow = now\<rparr>"

definition CoordinatorAdmit ::
  "coordinator_config \<Rightarrow> int \<Rightarrow> task \<Rightarrow> string \<Rightarrow> agent_id \<Rightarrow> coordinator \<Rightarrow> coordinator \<times> agent_id \<times> bool"
where
  "CoordinatorAdmit cfg now t did champion co =
     (case ccExperiment cfg of
        None \<Rightarrow> (co, champion, False)
      | Some i \<Rightarrow>
     (case SnapshotGet (tTenant t) did (coSnapshots co) of
        None \<Rightarrow> (coordinator_audit i did EligibilityMissingDecisionContext now co, champion, False)
      | Some sn \<Rightarrow>
     (case GetExperiment i (coExperiments co) of
        Inl e \<Rightarrow> (coordinator_audit i did EligibilityControlPlaneUnavailable now co, champion, False)
      | Inr ex \<Rightarrow>
     (let d = xpDef ex in
      case ValidateExperimentContext (ccQuote cfg) (coSnapshots co) (evaluated_decisions cfg co) (tTenant t) did
             (xdChallengerPolicy d) (xdChallenger d) of
        Some e \<Rightarrow> (coordinator_audit i did (ClassifyReadinessError (Some e)) now co, champion, False)
      | None \<Rightarrow>
     (case Admit (ccHash cfg) (coordinator_request i t did sn champion d now) (coExperiments co) of
        (s, a, err) \<Rightarrow>
          let co' = co\<lparr>coExperiments := s\<rparr> in
          if err \<noteq> None \<or> \<not> xaChallenger a then (co', champion, False)
          else (co'\<lparr>coPendingAdmissions := (coPendingAdmissions co')(pendingKey (tTenant t) (tID t) \<mapsto> a)\<rparr>,
                xaSelected a, True))))))"

definition provenance_descriptor :: "policy_provenance \<Rightarrow> policy_descriptor" where
  "provenance_descriptor p =
     \<lparr>rpID = PolicyID p, rpVersion = PolicyVersion p, rpSemantics = [], rpFingerprint = [], rpScheme = []\<rparr>"

definition ObserveRoutingDecision ::
  "coordinator_config \<Rightarrow> int \<Rightarrow> int \<Rightarrow> routing_decision \<Rightarrow> coordinator \<Rightarrow> coordinator"
where
  "ObserveRoutingDecision cfg now captured rd co =
     (case NewCandidateSnapshot (rdDecisionID rd) (rdTenant rd) (rdTaskID rd) (rdTaskClass rd)
        (map (\<lambda>a. (a, [])) (rdCandidates rd)) captured (elMaxCandidates (ccLimits cfg)) of
        Inl e \<Rightarrow> co
      | Inr sn \<Rightarrow>
     (case SnapshotSave (ccLib cfg) (ccRender cfg) sn (coSnapshots co) of
        (ss, Some e) \<Rightarrow> co\<lparr>coSnapshots := ss\<rparr>
      | (ss, None) \<Rightarrow>
     (case Evaluate \<lparr>dcLib = ccLib cfg, dcRender = ccRender cfg, dcLimits = ccLimits cfg, dcSnapshot = sn,
             dcChampionPolicy = provenance_descriptor (rdChampionPolicy rd), dcChampion = rdChampion rd,
             dcDecisionTime = captured\<rparr> now (ccChallengers cfg) (coEvaluator co) of
        (ev, recs, err) \<Rightarrow>
          co\<lparr>coSnapshots := ss, coEvaluator := ev,
             coPendingDecisions := (coPendingDecisions co)
               (pendingKey (rdTenant rd) (rdTaskID rd) \<mapsto> (rdDecisionID rd, map erEvaluationID recs))\<rparr>)))"

definition ObserveExecution :: "coordinator_config \<Rightarrow> int \<Rightarrow> execution_report \<Rightarrow> coordinator \<Rightarrow> coordinator" where
  "ObserveExecution cfg now x co =
     (let key = pendingKey (tTenant (xrTask x)) (tID (xrTask x)); eid = xrExecutionID x;
          pending = coPendingDecisions co key; adm = coPendingAdmissions co key;
          out = ClassifyExecutionOutcome (xrResult x) (xrErr x);
          co = co\<lparr>coPerf := SupervisorObserveExecution (ccLib cfg) (ccTaxonomy cfg) now x (coPerf co),
                  coPendingDecisions := (coPendingDecisions co)(key := None),
                  coPendingAdmissions := (coPendingAdmissions co)(key := None)\<rparr>;
          co = (case adm of
                  Some a \<Rightarrow>
                    if ccExperiment cfg = None then co
                    else
                      let s = fst (CompleteAdmission a now (coExperiments co)) in
                      if xaChallenger a
                      then co\<lparr>coExperiments := RecordChallengerExecutionOutcome (xaExperimentID a) out (outcome_name out) now s,
                              coAdmissionsByExecution := (coAdmissionsByExecution co)(eid \<mapsto> a)\<rparr>
                      else co\<lparr>coExperiments := s\<rparr>
                | None \<Rightarrow> co);
          admitted = (case adm of Some a \<Rightarrow> if xaChallenger a then xaSelected a else [] | None \<Rightarrow> []) in
      case pending of
        Some (did, ids) \<Rightarrow>
          if ids = [] then co
          else co\<lparr>coEvaluationsByExecution := (coEvaluationsByExecution co)(eid := ids),
                  coEvaluator := fold (\<lambda>i ev. fst (AttachOutcome i eid out QualityUnreviewed admitted now ev)) ids (coEvaluator co)\<rparr>
      | None \<Rightarrow> co)"

definition review_target ::
  "coordinator_config \<Rightarrow> int \<Rightarrow> quality_outcome \<Rightarrow> task_id \<times> string \<Rightarrow> coordinator \<Rightarrow> coordinator"
where
  "review_target cfg now q ref co =
     (let co = co\<lparr>coEvaluator := fold (\<lambda>i ev. fst (AttachChampionQuality i q now ev))
                     (coEvaluationsByExecution co (snd ref)) (coEvaluator co)\<rparr> in
      case coAdmissionsByExecution co (snd ref) of
        Some a \<Rightarrow>
          if xaChallenger a \<and> ccExperiment cfg \<noteq> None
          then co\<lparr>coExperiments := RecordChallengerReviewOutcome (xaExperimentID a) q now (coExperiments co)\<rparr> else co
      | None \<Rightarrow> co)"

definition ObserveReviewTransition :: "coordinator_config \<Rightarrow> int \<Rightarrow> review_group \<Rightarrow> coordinator \<Rightarrow> coordinator" where
  "ObserveReviewTransition cfg now g co =
     fold (review_target cfg now (QualityFromFindingStatus (gStatus g))) (ResolvedExecutionTargets (ccEvidence cfg) g)
       (co\<lparr>coPerf := HookObserveReviewTransition (ccLib cfg) (ccEvidence cfg) now g (coPerf co)\<rparr>)"


subsection \<open>The coordinator as a machine\<close>

datatype coordinator_event =
    CoDecide int int routing_decision
  | CoAdmit int task string agent_id
  | CoExecuted int execution_report
  | CoReviewed int review_group

fun coordinator_step :: "coordinator_config \<Rightarrow> coordinator_event \<Rightarrow> coordinator \<Rightarrow> coordinator" where
  "coordinator_step cfg (CoDecide now captured rd) co = ObserveRoutingDecision cfg now captured rd co"
| "coordinator_step cfg (CoAdmit now t did champion) co = fst (CoordinatorAdmit cfg now t did champion co)"
| "coordinator_step cfg (CoExecuted now x) co = ObserveExecution cfg now x co"
| "coordinator_step cfg (CoReviewed now g) co = ObserveReviewTransition cfg now g co"

definition NewCoordinator :: "experiment_store \<Rightarrow> coordinator" where
  "NewCoordinator xs =
     \<lparr>coPerf = [], coSnapshots = \<lparr>ssByKey = Map.empty, ssByTask = (\<lambda>_. [])\<rparr>, coEvaluator = NewShadowEvaluator,
      coExperiments = xs, coPendingDecisions = Map.empty, coEvaluationsByExecution = (\<lambda>_. []),
      coPendingAdmissions = Map.empty, coAdmissionsByExecution = Map.empty\<rparr>"

lemma audit_ran: "ran s (coExperiments co) \<Longrightarrow> ran s (coExperiments (coordinator_audit i did code now co))"
  by (simp add: coordinator_audit_def ran_calls)

lemma CoordinatorAdmit_ran: "ran (coExperiments co) (coExperiments (fst (CoordinatorAdmit cfg now t did champion co)))"
proof (cases "ccExperiment cfg")
  case (Some i)
  show ?thesis
  proof (cases "SnapshotGet (tTenant t) did (coSnapshots co)")
    case (Some sn)
    show ?thesis
    proof (cases "GetExperiment i (coExperiments co)")
      case (Inr ex)
      let ?r = "coordinator_request i t did sn champion (xpDef ex) now"
      obtain s a err where A: "Admit (ccHash cfg) ?r (coExperiments co) = (s, a, err)" by (metis prod_cases3)
      then have "ran (coExperiments co) s" using Admit_ran [of "coExperiments co" "ccHash cfg" ?r] by simp
      with A Some Inr \<open>ccExperiment cfg = Some i\<close> show ?thesis
        by (auto simp: CoordinatorAdmit_def Let_def intro: audit_ran split: option.splits)
    qed (use Some \<open>ccExperiment cfg = Some i\<close> in \<open>simp add: CoordinatorAdmit_def audit_ran\<close>)
  qed (use Some in \<open>simp add: CoordinatorAdmit_def audit_ran\<close>)
qed (simp add: CoordinatorAdmit_def)

lemma ObserveRoutingDecision_frame:
  "coExperiments (ObserveRoutingDecision cfg now captured rd co) = coExperiments co"
  "coPendingAdmissions (ObserveRoutingDecision cfg now captured rd co) = coPendingAdmissions co"
  by (auto simp: ObserveRoutingDecision_def split: sum.splits prod.splits option.splits)

text \<open>The experiment part of \<open>ObserveExecution\<close>.\<close>

definition settle_admission ::
  "coordinator_config \<Rightarrow> int \<Rightarrow> execution_report \<Rightarrow> admission option \<Rightarrow> experiment_store \<Rightarrow> experiment_store"
where
  "settle_admission cfg now x adm s =
     (case adm of
        None \<Rightarrow> s
      | Some a \<Rightarrow>
          if ccExperiment cfg = None then s
          else
            let s = fst (CompleteAdmission a now s); out = ClassifyExecutionOutcome (xrResult x) (xrErr x) in
            if xaChallenger a then RecordChallengerExecutionOutcome (xaExperimentID a) out (outcome_name out) now s else s)"

lemma ObserveExecution_parts:
  "coExperiments (ObserveExecution cfg now x co) =
     settle_admission cfg now x (coPendingAdmissions co (pendingKey (tTenant (xrTask x)) (tID (xrTask x)))) (coExperiments co)"
  "coAdmissionsByExecution (ObserveExecution cfg now x co) =
     (case coPendingAdmissions co (pendingKey (tTenant (xrTask x)) (tID (xrTask x))) of
        Some a \<Rightarrow> if ccExperiment cfg \<noteq> None \<and> xaChallenger a then (coAdmissionsByExecution co)(xrExecutionID x \<mapsto> a)
                  else coAdmissionsByExecution co
      | None \<Rightarrow> coAdmissionsByExecution co)"
  by (auto simp: ObserveExecution_def settle_admission_def Let_def split: option.splits prod.splits)

lemma settle_ran: "ran s (settle_admission cfg now x adm s)"
proof (cases adm)
  case (Some a)
  have "ran s (fst (CompleteAdmission a now s))" by (rule outcome_ran)
  then show ?thesis using ran_trans outcome_ran(3) by (auto simp: Some settle_admission_def Let_def)
qed (simp add: settle_admission_def)

lemma review_target_ran: "ran (coExperiments co) (coExperiments (review_target cfg now q ref co))"
  by (auto simp: review_target_def Let_def outcome_ran split: option.splits)

lemma review_fold_ran: "ran (coExperiments co) (coExperiments (fold (review_target cfg now q) refs co))"
proof (induction refs arbitrary: co)
  case (Cons ref refs)
  have "ran (coExperiments co) (coExperiments (review_target cfg now q ref co))" by (rule review_target_ran)
  moreover have "ran (coExperiments (review_target cfg now q ref co))
      (coExperiments (fold (review_target cfg now q) refs (review_target cfg now q ref co)))" by (rule Cons.IH)
  ultimately show ?case by (simp add: ran_trans)
qed simp

lemma coordinator_step_ran: "ran (coExperiments co) (coExperiments (coordinator_step cfg e co))"
proof (cases e)
  case (CoReviewed now g)
  show ?thesis
    using review_fold_ran [of "co\<lparr>coPerf := HookObserveReviewTransition (ccLib cfg) (ccEvidence cfg) now g (coPerf co)\<rparr>"]
    by (simp add: CoReviewed ObserveReviewTransition_def)
qed (simp_all add: CoordinatorAdmit_ran ObserveRoutingDecision_frame ObserveExecution_parts settle_ran)

interpretation coordinator_life: monotone_machine "coordinator_step cfg" "\<lambda>co. ledger (coExperiments co)"
    "\<lambda>co co'. ran (coExperiments co) (coExperiments co')" for cfg
  by unfold_locales (auto intro: ran_ledger coordinator_step_ran ran_trans)

text \<open>
  C8: over the in-memory experiment store the budget of an experiment holds whatever the coordinator
  observes: for every sequence of decisions, admissions, executions and review transitions from a store
  of new experiments, reserved executions are the consumed ones plus the live reservations, and stay
  within \<open>MaxExecutions\<close> and, while live, within \<open>MaxConcurrent\<close>. The durable store keeps another
  account; it is in theory ExperimentTables.
\<close>

theorem coordinator_keeps_budget:
  assumes "xsExperiments (coExperiments (fold (coordinator_step cfg) evs
           (NewCoordinator (fold store_step (map XCreate exps) NewMemoryExperimentStore)))) i = Some e"
  shows "\<exists>n. n = card (live i (xsReservations (coExperiments (fold (coordinator_step cfg) evs
             (NewCoordinator (fold store_step (map XCreate exps) NewMemoryExperimentStore)))))) \<and>
     xpReserved e = xpConsumed e + int n \<and> within_limit (xdMaxExecutions (xpDef e)) (xpReserved e) \<and>
     within_limit (xdMaxConcurrent (xpDef e)) (int n)"
proof -
  have "ledger (coExperiments (NewCoordinator (fold store_step (map XCreate exps) NewMemoryExperimentStore)))"
    by (simp add: NewCoordinator_def experiment_life.run_inv)
  then have "ledger (coExperiments (fold (coordinator_step cfg) evs
      (NewCoordinator (fold store_step (map XCreate exps) NewMemoryExperimentStore))))"
    by (rule coordinator_life.run_inv)
  from ledgerD [OF this assms] show ?thesis by (auto simp: account_ok_def)
qed


subsection \<open>A concrete run\<close>

definition sample_config :: coordinator_config where
  "sample_config = \<lparr>ccLib = sample_lib, ccTaxonomy = default_taxonomy, ccRender = (\<lambda>_. ''t0''), ccQuote = (\<lambda>s. s),
     ccHash = sample_hash, ccLimits = DefaultEvaluationLimits, ccChallengers = [sample_challenger],
     ccExperiment = Some ''exp'', ccEvidence = None, ccOrder = rev\<rparr>"

definition acme_task :: task where
  "acme_task = (sample_task ''t'' [] [])\<lparr>tTenant := ''acme'', tType := ''debugging''\<rparr>"

definition sample_routing :: "string \<Rightarrow> routing_decision" where
  "sample_routing did = \<lparr>rdDecisionID = did, rdTaskID = ''t'', rdTenant = ''acme'', rdTaskClass = ''debugging'',
     rdCandidates = [''ann'', ''bob''], rdChampionPolicy = legacyPolicy, rdChampion = ''ann''\<rparr>"

definition sample_report :: "agent_id \<Rightarrow> string \<Rightarrow> execution_report" where
  "sample_report a eid = \<lparr>xrTask = acme_task, xrAgent = a, xrExecutionID = eid,
     xrResult = empty_result\<lparr>erStatus := StCompleted\<rparr>, xrErr = None, xrStartedAt = 1, xrFinishedAt = 4\<rparr>"

lemma sample_fields:
  "rdDecisionID (sample_routing d) = d" "ccExperiment sample_config = Some ''exp''" "xrTask (sample_report a eid) = acme_task"
  "xrAgent (sample_report a eid) = a" "xrExecutionID (sample_report a eid) = eid"
  by (simp_all add: sample_routing_def sample_config_def sample_report_def)

abbreviation sample_coordinator :: "coordinator_event list \<Rightarrow> coordinator" where
  "sample_coordinator evs \<equiv> fold (coordinator_step sample_config) evs (NewCoordinator sample_store)"

theorem coordinator_keeps_budget_witness:
  "xpReserved (the (xsExperiments (coExperiments (sample_coordinator
      [CoDecide 1 1 (sample_routing ''d1''), CoAdmit 2 acme_task ''d1'' ''ann'',
       CoExecuted 3 (sample_report ''bob'' ''x1'')])) ''exp'')) \<le> 2"
proof -
  let ?evs = "[CoDecide 1 1 (sample_routing ''d1''), CoAdmit 2 acme_task ''d1'' ''ann'',
       CoExecuted 3 (sample_report ''bob'' ''x1'')]"
  have "map_option (\<lambda>e. xdMaxExecutions (xpDef e)) (xsExperiments (coExperiments (sample_coordinator ?evs)) ''exp'') = Some 2"
    by code_simp
  then obtain e where e: "xsExperiments (coExperiments (sample_coordinator ?evs)) ''exp'' = Some e" "xdMaxExecutions (xpDef e) = 2"
    by auto
  from coordinator_keeps_budget [of sample_config ?evs "[sample_experiment]" "''exp''" e] e
  show ?thesis by (auto simp: within_limit_def)
qed

subsection \<open>What a production admission rests on\<close>

lemma unique_ids_set: "set (unique_ids seen cands) \<subseteq> fst ` set cands"
  by (induction seen cands rule: unique_ids.induct) auto

lemma NewCandidateSnapshot_Inr:
  "NewCandidateSnapshot did tenant tid cls cands captured limit = Inr sn \<Longrightarrow>
     snDecisionID sn = did \<and> snTenant sn = tenant \<and> snTaskID sn = tid \<and> set (snAgentIDs sn) \<subseteq> fst ` set cands"
  using unique_ids_set [of "[]" cands] by (auto simp: NewCandidateSnapshot_def)

lemma ValidateExperimentContext_None:
  "ValidateExperimentContext quote snaps evald tenant did policy challenger = None \<Longrightarrow>
     did \<noteq> [] \<and> (\<exists>sn. SnapshotGet tenant did snaps = Some sn \<and> snDecisionID sn = did \<and>
       (challenger = [] \<or> challenger \<in> set (snAgentIDs sn))) \<and>
     rpScheme policy = FingerprintSchemeCanonicalV2 \<and> (\<exists>ids. evald tenant = Inr ids \<and> did \<in> set ids)"
  by (auto simp: ValidateExperimentContext_def ValidateExperimentPolicyIdentity_def snapshot_contains_def list_ex_iff Let_def
      split: if_splits option.splits sum.splits)

lemma challenger_candidate:
  assumes "Admit hash r s = (s', adm, err)" and "xaChallenger adm"
  shows "xaSelected adm \<in> set (snAgentIDs (rqSnapshot r))"
proof -
  from assms obtain e where "admission_gates e r = None" "adm = challenger_admission r" by (rule Admit_challenger)
  then show ?thesis by (auto simp: admission_gates_def challenger_admission_def snapshot_contains_def list_ex_iff Let_def)
qed

lemma CoordinatorAdmit_granted:
  assumes "CoordinatorAdmit cfg now t did champion co = (co', a, True)"
  obtains i sn ex s adm where "ccExperiment cfg = Some i" and "SnapshotGet (tTenant t) did (coSnapshots co) = Some sn"
    and "xsExperiments (coExperiments co) i = Some ex"
    and "ValidateExperimentContext (ccQuote cfg) (coSnapshots co) (evaluated_decisions cfg co) (tTenant t) did
           (xdChallengerPolicy (xpDef ex)) (xdChallenger (xpDef ex)) = None"
    and "Admit (ccHash cfg) (coordinator_request i t did sn champion (xpDef ex) now) (coExperiments co) = (s, adm, None)"
    and "xaChallenger adm" and "a = xaSelected adm" and "coExperiments co' = s"
    and "coPendingAdmissions co' (pendingKey (tTenant t) (tID t)) = Some adm"
proof -
  from assms obtain i where i: "ccExperiment cfg = Some i" by (auto simp: CoordinatorAdmit_def split: option.splits)
  with assms obtain sn where sn: "SnapshotGet (tTenant t) did (coSnapshots co) = Some sn"
    by (auto simp: CoordinatorAdmit_def split: option.splits)
  with assms i obtain ex where ex: "xsExperiments (coExperiments co) i = Some ex"
    by (auto simp: CoordinatorAdmit_def GetExperiment_def split: option.splits)
  with assms i sn have v: "ValidateExperimentContext (ccQuote cfg) (coSnapshots co) (evaluated_decisions cfg co) (tTenant t) did
           (xdChallengerPolicy (xpDef ex)) (xdChallenger (xpDef ex)) = None"
    by (auto simp: CoordinatorAdmit_def GetExperiment_def Let_def split: option.splits)
  obtain s adm err where A: "Admit (ccHash cfg) (coordinator_request i t did sn champion (xpDef ex) now) (coExperiments co) = (s, adm, err)"
    by (metis prod_cases3)
  from assms i sn ex v A have "err = None \<and> xaChallenger adm \<and> a = xaSelected adm \<and> coExperiments co' = s \<and>
      coPendingAdmissions co' (pendingKey (tTenant t) (tID t)) = Some adm"
    by (auto simp: CoordinatorAdmit_def GetExperiment_def Let_def split: if_splits)
  with i sn ex v A that show ?thesis by blast
qed

lemma evaluated_decisions_Inr:
  assumes "evaluated_decisions cfg co tenant = Inr ids" and "did \<in> set ids" and "is_shuffle (ccOrder cfg)"
  shows "tenant \<noteq> [] \<and> (\<exists>i r. (i, r) \<in> set (evRecords (coEvaluator co)) \<and> erDecisionID r = did \<and> erTenant r = tenant)"
  using assms is_shuffle_set [OF assms(3), of "map snd (evRecords (coEvaluator co))"]
  by (auto simp: evaluated_decisions_def EvalQuery_def eval_filter_validate_def eval_filter_matches_def require_def
      guard_res_def split: sum.splits if_splits; blast)


text \<open>
  A challenger enters production only for a decision the coordinator recorded: the admitted
  agent is the challenger of an enabled experiment of the task's own tenant, risk and class, it is
  a candidate of the snapshot stored for exactly this decision, an evaluation of the decision is
  stored under the tenant, its policy identity is canonical, and its reservation is live and
  handed to the execution that follows.
\<close>

theorem production_challenger_is_recorded_candidate:
  assumes "CoordinatorAdmit cfg now t did champion co = (co', a, True)" and "is_shuffle (ccOrder cfg)"
  shows "\<exists>i sn ex adm. ccExperiment cfg = Some i \<and> SnapshotGet (tTenant t) did (coSnapshots co) = Some sn \<and>
      xsExperiments (coExperiments co) i = Some ex \<and> xpState ex = ExperimentEnabled \<and>
      a = xdChallenger (xpDef ex) \<and> a \<in> set (snAgentIDs sn) \<and> snDecisionID sn = did \<and>
      tTenant t = xdTenant (xpDef ex) \<and> tTenant t \<noteq> [] \<and> xdRisk (xpDef ex) \<in> {[], tRisk t} \<and>
      xdTaskClass (xpDef ex) \<in> {[], tType t} \<and> rpScheme (xdChallengerPolicy (xpDef ex)) = FingerprintSchemeCanonicalV2 \<and>
      (\<exists>j r. (j, r) \<in> set (evRecords (coEvaluator co)) \<and> erDecisionID r = did \<and> erTenant r = tTenant t) \<and>
      did \<in> live i (xsReservations (coExperiments co')) \<and>
      coPendingAdmissions co' (pendingKey (tTenant t) (tID t)) = Some adm \<and> xaSelected adm = a \<and> xaDecisionID adm = did"
proof -
  obtain i sn ex s adm where i: "ccExperiment cfg = Some i" and sn: "SnapshotGet (tTenant t) did (coSnapshots co) = Some sn"
    and ex: "xsExperiments (coExperiments co) i = Some ex"
    and v: "ValidateExperimentContext (ccQuote cfg) (coSnapshots co) (evaluated_decisions cfg co) (tTenant t) did
           (xdChallengerPolicy (xpDef ex)) (xdChallenger (xpDef ex)) = None"
    and A: "Admit (ccHash cfg) (coordinator_request i t did sn champion (xpDef ex) now) (coExperiments co) = (s, adm, None)"
    and adm: "xaChallenger adm" "a = xaSelected adm" "coExperiments co' = s"
      "coPendingAdmissions co' (pendingKey (tTenant t) (tID t)) = Some adm"
    by (rule CoordinatorAdmit_granted [OF assms(1)])
  let ?r = "coordinator_request i t did sn champion (xpDef ex) now"
  from A adm(1) obtain e where e: "xsExperiments (coExperiments co) (rqExperimentID ?r) = Some e" "admission_gates e ?r = None"
    "adm = challenger_admission ?r" by (rule Admit_challenger)
  have k: "admissionKey (rqExperimentID ?r) (rqDecisionID ?r) \<in> xsReservations s"
    using Admit_challenger_keeps [OF A adm(1)] by blast
  from ValidateExperimentContext_None [OF v] obtain ids where
    v': "snDecisionID sn = did" "rpScheme (xdChallengerPolicy (xpDef ex)) = FingerprintSchemeCanonicalV2"
    and ids: "evaluated_decisions cfg co (tTenant t) = Inr ids" "did \<in> set ids" using sn by auto
  from evaluated_decisions_Inr [OF ids assms(2)] have ev: "tTenant t \<noteq> []"
    "\<exists>j r. (j, r) \<in> set (evRecords (coEvaluator co)) \<and> erDecisionID r = did \<and> erTenant r = tTenant t" by auto
  have "e = ex" using e(1) ex by (simp add: coordinator_request_def)
  with e(2) have "xpState ex = ExperimentEnabled \<and> tTenant t = xdTenant (xpDef ex) \<and> xdRisk (xpDef ex) \<in> {[], tRisk t} \<and>
      xdTaskClass (xpDef ex) \<in> {[], tType t} \<and> xdChallenger (xpDef ex) \<in> set (snAgentIDs sn)"
    by (cases "xpState ex")
      (auto simp: admission_gates_def coordinator_request_def state_gate_def require_def snapshot_contains_def list_ex_iff Let_def
        split: if_splits)
  with i sn ex v' ev k adm e(3) show ?thesis
    by (auto simp: challenger_admission_def coordinator_request_def live_def)
qed

theorem production_challenger_is_recorded_candidate_witness:
  "\<exists>sn. SnapshotGet ''acme'' ''d1'' (coSnapshots (sample_coordinator [CoDecide 1 1 (sample_routing ''d1'')])) = Some sn \<and>
     ''bob'' \<in> set (snAgentIDs sn)"
proof -
  let ?co = "sample_coordinator [CoDecide 1 1 (sample_routing ''d1'')]"
  obtain co' a b where A: "CoordinatorAdmit sample_config 2 acme_task ''d1'' ''ann'' ?co = (co', a, b)" by (metis prod_cases3)
  have "snd (CoordinatorAdmit sample_config 2 acme_task ''d1'' ''ann'' ?co) = (''bob'', True)" by code_simp
  with A have ab: "a = ''bob''" "b" by auto
  have "is_shuffle (ccOrder sample_config)" by (simp add: sample_config_def)
  from production_challenger_is_recorded_candidate [OF _ this, of 2 acme_task "''d1''" "''ann''" ?co co' a] A ab
  show ?thesis by (auto simp: acme_task_def)
qed

subsection \<open>Admissions that are never executed\<close>

lemma CoordinatorAdmit_refused:
  "CoordinatorAdmit cfg now t did champion co = (co', a, False) \<Longrightarrow> coPendingAdmissions co' = coPendingAdmissions co"
  by (auto simp: CoordinatorAdmit_def coordinator_audit_def Let_def split: option.splits sum.splits prod.splits if_splits)

lemma complete_charges:
  assumes "xaChallenger a" and "admissionKey (xaExperimentID a) (xaDecisionID a) \<in> xsReservations s"
    and "xsExperiments s (xaExperimentID a) = Some e"
  shows "\<exists>e'. xsExperiments (fst (CompleteAdmission a now s)) (xaExperimentID a) = Some e' \<and> xpConsumed e' = xpConsumed e + 1"
  using assms by (simp add: CompleteAdmission_def ConsumeBudget_def Let_def write_back_def)

text \<open>
  A challenger that was admitted but whose dispatch never happened (the execution boundary
  refused it) stays pending for its task. A later decision for the same task that selects the
  champion does not clear it, and when the champion then executes, the execution is charged to
  the experiment as the challenger's and remembered as such for the review verdict.
\<close>

theorem refused_admission_charged_to_champion:
  assumes "coPendingAdmissions co (pendingKey (tTenant t) (tID t)) = Some adm" and "xaChallenger adm"
    and "CoordinatorAdmit cfg now t (rdDecisionID rd) champion (ObserveRoutingDecision cfg decided captured rd co) = (co1, champion, False)"
    and "admissionKey (xaExperimentID adm) (xaDecisionID adm) \<in> xsReservations (coExperiments co1)"
    and "xsExperiments (coExperiments co1) (xaExperimentID adm) = Some e" and "ccExperiment cfg \<noteq> None"
    and "xrTask x = t" and "xrAgent x = champion"
  shows "(\<exists>e'. xsExperiments (coExperiments (ObserveExecution cfg later x co1)) (xaExperimentID adm) = Some e' \<and>
       xpConsumed e' = xpConsumed e + 1) \<and>
     coAdmissionsByExecution (ObserveExecution cfg later x co1) (xrExecutionID x) = Some adm"
proof -
  have p: "coPendingAdmissions co1 (pendingKey (tTenant t) (tID t)) = Some adm"
    using assms(1) CoordinatorAdmit_refused [OF assms(3)] by (simp add: ObserveRoutingDecision_frame)
  obtain e1 where e1: "xsExperiments (fst (CompleteAdmission adm later (coExperiments co1))) (xaExperimentID adm) = Some e1"
      "xpConsumed e1 = xpConsumed e + 1"
    using complete_charges [OF assms(2,4,5)] by blast
  moreover obtain i where "ccExperiment cfg = Some i" using assms(6) by blast
  ultimately have "\<exists>e'. xsExperiments (settle_admission cfg later x (Some adm) (coExperiments co1)) (xaExperimentID adm) = Some e' \<and>
      xpConsumed e' = xpConsumed e + 1"
    using assms(2)
    by (simp add: settle_admission_def Let_def RecordChallengerExecutionOutcome_def count_experiment AuditExperiment_def apply_count_frame
        del: apply_count.simps)
  then show ?thesis using p assms(2,6,7) by (simp add: ObserveExecution_parts)
qed


theorem refused_admission_charged_to_champion_witness:
  "\<exists>co1. CoordinatorAdmit sample_config 5 acme_task ''d2'' ''ann''
       (ObserveRoutingDecision sample_config 4 4 (sample_routing ''d2'')
         (sample_coordinator [CoDecide 1 1 (sample_routing ''d1''), CoAdmit 2 acme_task ''d1'' ''ann''])) = (co1, ''ann'', False) \<and>
     map_option xaSelected (coAdmissionsByExecution (ObserveExecution sample_config 6 (sample_report ''ann'' ''x2'') co1) ''x2'') =
       Some ''bob''"
proof -
  let ?co = "sample_coordinator [CoDecide 1 1 (sample_routing ''d1''), CoAdmit 2 acme_task ''d1'' ''ann'']"
  let ?A = "CoordinatorAdmit sample_config 5 acme_task ''d2'' ''ann'' (ObserveRoutingDecision sample_config 4 4 (sample_routing ''d2'') ?co)"
  have "map_option (\<lambda>a. (xaSelected a, xaChallenger a, xaExperimentID a, xaDecisionID a))
      (coPendingAdmissions ?co (pendingKey ''acme'' ''t'')) = Some (''bob'', True, ''exp'', ''d1'')" by code_simp
  then obtain adm where adm: "coPendingAdmissions ?co (pendingKey ''acme'' ''t'') = Some adm"
    "xaSelected adm = ''bob''" "xaChallenger adm" "xaExperimentID adm = ''exp''" "xaDecisionID adm = ''d1''" by auto
  obtain co1 a b where A: "?A = (co1, a, b)" by (metis prod_cases3)
  have "snd ?A = (''ann'', False)" by code_simp
  with A have ab: "a = ''ann''" "\<not> b" by auto
  have "admissionKey ''exp'' ''d1'' \<in> xsReservations (coExperiments (fst ?A)) \<and>
      map_option xpConsumed (xsExperiments (coExperiments (fst ?A)) ''exp'') = Some 0" by code_simp
  with A obtain e where e: "admissionKey ''exp'' ''d1'' \<in> xsReservations (coExperiments co1)"
    "xsExperiments (coExperiments co1) ''exp'' = Some e" by auto
  have p: "coPendingAdmissions ?co (pendingKey (tTenant acme_task) (tID acme_task)) = Some adm"
    using adm(1) by (simp add: acme_task_def sample_task_def)
  have "coAdmissionsByExecution (ObserveExecution sample_config 6 (sample_report ''ann'' ''x2'') co1) ''x2'' = Some adm"
  proof -
    have "CoordinatorAdmit sample_config 5 acme_task (rdDecisionID (sample_routing ''d2'')) ''ann''
        (ObserveRoutingDecision sample_config 4 4 (sample_routing ''d2'') ?co) = (co1, ''ann'', False)"
      using A ab by (simp only: sample_fields)
    from refused_admission_charged_to_champion [OF p adm(3) this, of e "sample_report ''ann'' ''x2''" 6] e adm(4,5)
    show ?thesis by (simp only: sample_fields) simp
  qed
  with A ab adm(2) show ?thesis by auto
qed


subsection \<open>The coordinator behind the scheduler\<close>

text \<open>The scheduler's admission hook: the decision is observed first, then the admission is asked for.\<close>

definition decided :: "coordinator_config \<Rightarrow> int \<Rightarrow> routing_decision list \<Rightarrow> coordinator \<Rightarrow> coordinator" where
  "decided cfg now rds co = fold (ObserveRoutingDecision cfg now now) rds co"

definition production_admission ::
  "coordinator_config \<Rightarrow> int \<Rightarrow> scheduler \<Rightarrow> coordinator \<Rightarrow> task \<Rightarrow> string \<Rightarrow> agent_candidate list \<Rightarrow> agent_id \<Rightarrow>
     policy_provenance \<Rightarrow> coordinator \<times> agent_id \<times> bool"
where
  "production_admission cfg now sch co t did cands champion policy =
     CoordinatorAdmit cfg now t did champion
       (decided cfg now (captureDecisionWithID sch did t (sort (map fst cands)) champion policy) co)"

definition production_scheduler :: "coordinator_config \<Rightarrow> int \<Rightarrow> coordinator \<Rightarrow> scheduler \<Rightarrow> scheduler" where
  "production_scheduler cfg now co sch = sch\<lparr>schAdmission := Some (\<lambda>t did cands champion policy.
     case production_admission cfg now sch co t did cands champion policy of (co', a, b) \<Rightarrow> AdmitResult a b)\<rparr>"

lemma SnapshotGet_save:
  assumes "SnapshotGet tenant did ss = None" and "snTenant sn = tenant" and "snDecisionID sn = did"
    and "SnapshotSave lib render sn ss = (ss', err)" and "SnapshotGet tenant did ss' = Some x"
  shows "x = sn"
  using assms by (auto simp: SnapshotSave_def SnapshotGet_def Let_def split: if_splits)

lemma observed_snapshot:
  assumes "SnapshotGet (rdTenant rd) (rdDecisionID rd) (coSnapshots co) = None"
    and "SnapshotGet (rdTenant rd) (rdDecisionID rd) (coSnapshots (ObserveRoutingDecision cfg now captured rd co)) = Some sn"
  shows "set (snAgentIDs sn) \<subseteq> set (rdCandidates rd)"
proof (cases "NewCandidateSnapshot (rdDecisionID rd) (rdTenant rd) (rdTaskID rd) (rdTaskClass rd)
        (map (\<lambda>a. (a, [])) (rdCandidates rd)) captured (elMaxCandidates (ccLimits cfg))")
  case (Inl e)
  with assms show ?thesis by (simp add: ObserveRoutingDecision_def)
next
  case (Inr x)
  obtain ss err where v: "SnapshotSave (ccLib cfg) (ccRender cfg) x (coSnapshots co) = (ss, err)" by fastforce
  with Inr assms(2) have "SnapshotGet (rdTenant rd) (rdDecisionID rd) ss = Some sn"
    by (cases err) (auto simp: ObserveRoutingDecision_def split: prod.splits)
  with NewCandidateSnapshot_Inr [OF Inr] SnapshotGet_save [OF assms(1) _ _ v] have "sn = x" by blast
  with NewCandidateSnapshot_Inr [OF Inr] show ?thesis by (auto simp: image_def)
qed

text \<open>
  C23: what the coordinator admits is what the scheduler dispatches. With the coordinator as the
  scheduler's observer and admission hook and a fresh decision identity, an admitted challenger is
  always one of the eligible candidates, is the agent the scheduler selects, and is the one the
  coordinator keeps pending for the execution; without an admission the scheduler keeps its own
  choice and no pending admission changes.
\<close>

theorem admitted_challenger_is_dispatched:
  assumes "SnapshotGet (tTenant t) did (coSnapshots co) = None"
    and "production_admission cfg now sch co t did cands champion policy = (co', x, b)"
    and "capture (production_scheduler cfg now co sch) did t cands champion policy = (a, evs, captured)"
  shows "if b then a = x \<and> a \<in> fst ` set cands \<and>
      (\<exists>adm. coPendingAdmissions co' (pendingKey (tTenant t) (tID t)) = Some adm \<and> xaSelected adm = a)
    else a = champion \<and> coPendingAdmissions co' = coPendingAdmissions co"
proof -
  let ?rds = "captureDecisionWithID sch did t (sort (map fst cands)) champion policy"
  let ?co = "decided cfg now ?rds co"
  have adm: "admitExperimentChallenger (production_scheduler cfg now co sch) t did cands champion policy = (if b then Some x else None)"
    using assms(2) by (simp add: admitExperimentChallenger_def production_scheduler_def)
  have sn: "set (snAgentIDs sn) \<subseteq> fst ` set cands" if "SnapshotGet (tTenant t) did (coSnapshots ?co) = Some sn" for sn
  proof (cases "?rds = []")
    case True
    with that assms(1) show ?thesis by (simp add: decided_def)
  next
    case False
    then obtain rd where rd: "?rds = [rd]" "rdTenant rd = tTenant t" "rdDecisionID rd = did" "rdCandidates rd = sort (map fst cands)"
      by (auto simp: captureDecisionWithID_def split: if_splits)
    with that observed_snapshot [of rd co cfg now now sn] assms(1) show ?thesis by (simp add: decided_def)
  qed
  have frame: "coPendingAdmissions ?co = coPendingAdmissions co"
    by (auto simp: decided_def captureDecisionWithID_def ObserveRoutingDecision_frame)
  show ?thesis
  proof (cases b)
    case True
    with assms(2) have "CoordinatorAdmit cfg now t did champion ?co = (co', x, True)" by (simp add: production_admission_def)
    then obtain i s sx adm and ex :: experiment_data where g: "SnapshotGet (tTenant t) did (coSnapshots ?co) = Some s"
      "Admit (ccHash cfg) (coordinator_request i t did s champion (xpDef ex) now) (coExperiments ?co) = (sx, adm, None)"
      "xaChallenger adm" "x = xaSelected adm" "coPendingAdmissions co' (pendingKey (tTenant t) (tID t)) = Some adm"
      by (rule CoordinatorAdmit_granted) (rule that)
    from challenger_candidate [OF g(2,3)] g(4) sn [OF g(1)] have "x \<in> fst ` set cands" by (auto simp: coordinator_request_def)
    then have "isStillEligible cands x" by (force simp: isStillEligible_def list_ex_iff)
    with assms(3) adm True \<open>x \<in> fst ` set cands\<close> g(4,5) show ?thesis by (simp add: capture_def)
  next
    case False
    with assms(2) CoordinatorAdmit_refused [of cfg now t did champion ?co co' x] frame
    show ?thesis using assms(3) adm by (simp add: capture_def production_admission_def)
  qed
qed


theorem admitted_challenger_is_dispatched_witness:
  "fst (capture (production_scheduler sample_config 5 (sample_coordinator [])
      (sample_scheduler\<lparr>schObserver := True, schEvalMode := EvaluationShadow\<rparr>))
      ''d1'' acme_task [(''ann'', []), (''bob'', [])] ''ann'' legacyPolicy) = ''bob''"
proof -
  let ?sch = "sample_scheduler\<lparr>schObserver := True, schEvalMode := EvaluationShadow\<rparr>"
  let ?c = "[(''ann'', []), (''bob'', [])] :: agent_candidate list"
  let ?P = "production_admission sample_config 5 ?sch (sample_coordinator []) acme_task ''d1'' ?c ''ann'' legacyPolicy"
  obtain co' x b where P: "?P = (co', x, b)" by (metis prod_cases3)
  have "snd ?P = (''bob'', True)" by code_simp
  with P have xb: "x = ''bob''" "b" by auto
  obtain a evs captured where c: "capture (production_scheduler sample_config 5 (sample_coordinator []) ?sch) ''d1'' acme_task ?c ''ann'' legacyPolicy
      = (a, evs, captured)" by (metis prod_cases3)
  have "SnapshotGet (tTenant acme_task) ''d1'' (coSnapshots (sample_coordinator [])) = None"
    by (simp add: NewCoordinator_def SnapshotGet_def)
  from admitted_challenger_is_dispatched [OF this P c] xb c show ?thesis by simp
qed

subsection \<open>What an execution is recorded as\<close>

text \<open>
  The outcome recorded for a dispatched execution agrees with the task. It is completed
  exactly when Core moved the task to completed, timed out exactly when the provider failed after
  the deadline, and failed otherwise; in particular an execution that was cancelled is recorded
  as failed, and no rejected or blocked outcome is ever recorded for a dispatch.
\<close>

theorem recorded_outcome_matches_task:
  assumes "status_of s tid = Some StExecuting" and "finish ex eid a tid po s = (s', r, err)"
  shows "ClassifyExecutionOutcome r (map_option CoreErr err) =
      (if status_of s' tid = Some StCompleted then ExecutionCompleted
       else if poErr po \<noteq> None \<and> poDeadline po then ExecutionTimedOut else ExecutionFailed)"
proof -
  from finish_status [OF assms] have st: "status_of s' tid = Some (if poErr po \<noteq> None \<or> erStatus (poResult po) = StFailed
      then StFailed else StCompleted)" and err: "err = None \<longleftrightarrow> poErr po = None" by auto
  show ?thesis
  proof (cases "poErr po")
    case (Some m)
    with assms(2) have "err = Some (if poDeadline po then ExecutionTimeout tid (exec_limit ex) else AgentExecutionFailure a tid m)"
      by (auto simp: finish_def Let_def)
    with Some st show ?thesis by (simp add: ClassifyExecutionOutcome_def)
  next
    case None
    with err have "err = None" by simp
    with assms(2) None have "erStatus r = erStatus (poResult po)" by (auto simp: finish_def Let_def split: if_splits prod.splits)
    with None st \<open>err = None\<close> show ?thesis by (simp add: ClassifyExecutionOutcome_def)
  qed
qed

theorem recorded_outcome_matches_task_witness:
  "ClassifyExecutionOutcome (fst (snd (finish sample_executor ''x1'' ''coder'' ''a''
       \<lparr>poResult = empty_result, poErr = Some (plain ''context canceled''), poDeadline = False\<rparr>
       (fst (MarkExecuting ''a'' assigned_core)))))
     (map_option CoreErr (snd (snd (finish sample_executor ''x1'' ''coder'' ''a''
       \<lparr>poResult = empty_result, poErr = Some (plain ''context canceled''), poDeadline = False\<rparr>
       (fst (MarkExecuting ''a'' assigned_core)))))) = ExecutionFailed"
proof -
  let ?po = "\<lparr>poResult = empty_result, poErr = Some (plain ''context canceled''), poDeadline = False\<rparr>"
  let ?s = "fst (MarkExecuting ''a'' assigned_core)"
  obtain s' r err where f: "finish sample_executor ''x1'' ''coder'' ''a'' ?po ?s = (s', r, err)" by (metis prod_cases3)
  have st: "status_of ?s ''a'' = Some StExecuting" by code_simp
  from finish_status [OF st f] recorded_outcome_matches_task [OF st f] f show ?thesis by simp
qed

subsection \<open>Attributing a verdict\<close>

lemma resolve_targets_sound:
  "ref \<in> set (resolve_targets evidence tenant acc obs) \<Longrightarrow>
     ref \<in> set acc \<or> (\<exists>ob \<in> set obs. fst ref = obExecutionID ob \<and> fst ref \<noteq> [] \<and>
       resolveExecutionID evidence tenant (fst ref) ob = Some (snd ref))"
proof (induction evidence tenant acc obs rule: resolve_targets.induct)
  case (2 evidence tenant acc ob obs)
  show ?case
  proof (cases "obExecutionID ob = [] \<or> resolveExecutionID evidence tenant (obExecutionID ob) ob = None")
    case True
    with 2 show ?thesis by (auto split: option.splits)
  next
    case False
    then obtain eid where eid: "obExecutionID ob \<noteq> []" "resolveExecutionID evidence tenant (obExecutionID ob) ob = Some eid" by auto
    with 2 show ?thesis by (cases "(obExecutionID ob, eid) \<in> set acc") auto
  qed
qed simp

text \<open>The executions the evidence of an observation names, for its tenant and task.\<close>

definition named_executions :: "evidence_map \<Rightarrow> string \<Rightarrow> task_id \<Rightarrow> finding_observation \<Rightarrow> string set" where
  "named_executions store tenant tid ob =
     {ecExecutionID r | i r. i \<in> set (obEvidenceRefs ob) \<and> store i = Some r \<and> ecTenant r = tenant \<and> ecTaskID r = tid \<and>
        ecExecutionID r \<noteq> []}"

lemma remdups_single: "remdups xs = [x] \<Longrightarrow> set xs = {x}"
  by (metis empty_set list.simps(15) set_remdups)

lemma resolveExecutionID_Some:
  assumes "resolveExecutionID evidence tenant tid ob = Some eid"
  shows "eid \<noteq> [] \<and> (obExecutionRef ob = eid \<or>
    obExecutionRef ob = [] \<and> (\<exists>store. evidence = Some store \<and> named_executions store tenant tid ob = {eid}))"
proof (cases "obExecutionRef ob = []")
  case True
  with assms obtain store where st: "evidence = Some store" by (auto simp: resolveExecutionID_def split: option.splits)
  let ?l = "map ecExecutionID (filter (\<lambda>r. ecTenant r = tenant \<and> ecTaskID r = tid \<and> ecExecutionID r \<noteq> [])
      (List.map_filter store (obEvidenceRefs ob)))"
  have "remdups ?l = [eid]" using assms True st by (auto simp: resolveExecutionID_def split: list.splits)
  then have "set ?l = {eid}" by (rule remdups_single)
  moreover have "set ?l = named_executions store tenant tid ob"
    by (auto simp: named_executions_def set_map_filter image_def)
  ultimately have n: "named_executions store tenant tid ob = {eid}" by simp
  then have "eid \<in> named_executions store tenant tid ob" by simp
  then have "eid \<noteq> []" by (auto simp: named_executions_def)
  with True st n show ?thesis by auto
qed (use assms in \<open>auto simp: resolveExecutionID_def\<close>)

lemma finalize_target_other:
  assumes "store_wf st" and "i \<noteq> ComputeObservationID lib (gTenant g) (fst ref) (snd ref) ObservationKindExecution"
  shows "map_of (finalize_target lib now g ref st) i = map_of st i \<and> store_wf (finalize_target lib now g ref st)"
  using assms
  by (auto simp: finalize_target_def PerfGet_def PerfSave_lookup PerfSave_wf store_wf_def [of st] split: option.splits)

lemma finalize_target_wf: "store_wf st \<Longrightarrow> store_wf (finalize_target lib now g ref st)"
  by (auto simp: finalize_target_def PerfSave_wf split: sum.splits)

lemma finalize_fold_other:
  assumes "store_wf st"
    and "\<forall>ref \<in> set refs. i \<noteq> ComputeObservationID lib (gTenant g) (fst ref) (snd ref) ObservationKindExecution"
  shows "map_of (fold (finalize_target lib now g) refs st) i = map_of st i"
  using assms
proof (induction refs arbitrary: st)
  case (Cons ref refs)
  with finalize_target_other [OF Cons.prems(1), of i lib g ref now] show ?case by simp
qed simp

text \<open>
  C12: a review verdict reaches only the executions the group can prove. Every observation of the
  store that a transition changes belongs to an execution named by an observation of the group:
  by its own execution reference, or because all its evidence of the group's tenant and of its
  own task names exactly that one execution. Ambiguous and foreign evidence finalizes nothing.
\<close>

theorem verdict_reaches_only_named_executions:
  assumes "store_wf st" and "map_of (HookObserveReviewTransition lib evidence now g st) i \<noteq> map_of st i"
  shows "\<exists>ob \<in> set (gObservations g). \<exists>eid. obExecutionID ob \<noteq> [] \<and> eid \<noteq> [] \<and>
    i = ComputeObservationID lib (gTenant g) (obExecutionID ob) eid ObservationKindExecution \<and>
    (obExecutionRef ob = eid \<or> obExecutionRef ob = [] \<and>
      (\<exists>store. evidence = Some store \<and> named_executions store (gTenant g) (obExecutionID ob) ob = {eid}))"
proof -
  have "\<not> (\<forall>ref \<in> set (ResolvedExecutionTargets evidence g).
      i \<noteq> ComputeObservationID lib (gTenant g) (fst ref) (snd ref) ObservationKindExecution)"
    using finalize_fold_other [OF assms(1), of "ResolvedExecutionTargets evidence g" i lib g now] assms(2)
    by (auto simp: HookObserveReviewTransition_def)
  then obtain ref where ref: "ref \<in> set (ResolvedExecutionTargets evidence g)"
    "i = ComputeObservationID lib (gTenant g) (fst ref) (snd ref) ObservationKindExecution" by blast
  from resolve_targets_sound [OF ref(1) [unfolded ResolvedExecutionTargets_def]] obtain ob where
    ob: "ob \<in> set (gObservations g)" "fst ref = obExecutionID ob" "fst ref \<noteq> []"
      "resolveExecutionID evidence (gTenant g) (fst ref) ob = Some (snd ref)" by auto
  from resolveExecutionID_Some [OF ob(4)] ob ref(2) show ?thesis by (metis (no_types, lifting))
qed

definition cited_group :: review_group where
  "cited_group = (sample_verdict FindingVerified)\<lparr>gTenant := ''acme'', gObservations :=
     [(sample_observation ''o1'' ''bob'' StanceConfirms)\<lparr>obExecutionID := ''t'', obExecutionRef := ''e1''\<rparr>]\<rparr>"

theorem verdict_reaches_only_named_executions_witness:
  "\<exists>ob \<in> set (gObservations cited_group). obExecutionRef ob = ''e1'' \<and> obExecutionID ob = ''t''"
proof -
  let ?st = "fold (perf_step sample_lib default_taxonomy) [PExecuted 1 (sample_input ''e1'' ''ann'')] []"
  have wf: "store_wf ?st" by (rule perf_life.run_inv) simp
  have "map_option pfStatus (map_of (HookObserveReviewTransition sample_lib None 5 cited_group ?st) (sample_oid ''e1'')) =
      Some ObservationFinalized \<and> map_option pfStatus (map_of ?st (sample_oid ''e1'')) = Some ObservationPending" by code_simp
  then have "map_of (HookObserveReviewTransition sample_lib None 5 cited_group ?st) (sample_oid ''e1'') \<noteq> map_of ?st (sample_oid ''e1'')"
    by auto
  from verdict_reaches_only_named_executions [OF wf this] show ?thesis
    by (auto simp: cited_group_def)
qed

end
