(* ===== verification/ProofPolicy.thy ===== *)
theory ProofPolicy
  imports ReviewTypes "HOL-Library.Sublist"
begin

text \<open>
  The proof policy of a change (\<open>internal/config/config.go\<close>): which proofs a change owes,
  computed from the default proofs and the rules whose paths it touches. Path cleaning,
  lower-casing and trimming are the text functions of \<open>text_lib\<close>; glob matching and title
  case of the standard library are the functions of \<open>path_lib\<close>.
\<close>

record path_lib =
  GlobMatch :: "string \<Rightarrow> string \<Rightarrow> bool"
  TitleCase :: "string \<Rightarrow> string"

record change_rule =
  urPaths :: "string list"
  urRequire :: "string list"

text \<open>\<open>None\<close> is the nil slice of default proofs.\<close>

record change_control =
  ctDefaults :: "string list option"
  ctRules :: "change_rule list"

record obligation_spec =
  olType :: string
  olName :: string
  olDescription :: string
  olRequired :: bool
  olScope :: "string list"
  olCommand :: string
  olExpectedExit :: int
  olCapability :: string
  olParticipant :: string
  olPolicySource :: string

definition replace_char :: "char \<Rightarrow> char \<Rightarrow> string \<Rightarrow> string" where
  "replace_char a b s = map (\<lambda>c. if c = a then b else c) s"

definition NormalizeObligationType :: "text_lib \<Rightarrow> string \<Rightarrow> string" where
  "NormalizeObligationType lib name =
     (let s = replace_char (CHR ''-'') (CHR ''_'') (ToLower lib (TrimSpace lib name)) in
      if s \<in> {''unit_test'', ''unit_tests'', ''unittest'', ''unittests''} then ''unit_tests''
      else if s \<in> {''race'', ''race_detector'', ''race_detect''} then ''race_detector''
      else if s \<in> {''build'', ''compile''} then ''build''
      else if s \<in> {''lint'', ''vet''} then ''lint''
      else if s \<in> {''independent_review'', ''peer_review'', ''review''} then ''independent_review''
      else if s \<in> {''security_review'', ''security_scan'', ''security'', ''security_audit''} then ''security_review''
      else if s \<in> {''architecture_review'', ''architecture''} then ''architecture_review''
      else s)"

definition trim_suffix :: "string \<Rightarrow> string \<Rightarrow> string" where
  "trim_suffix suf s = (if suffix suf s then take (length s - length suf) s else s)"

definition MatchPathPattern :: "text_lib \<Rightarrow> path_lib \<Rightarrow> string \<Rightarrow> string \<Rightarrow> bool" where
  "MatchPathPattern lib pl pat target =
     (let p = CleanPath lib pat; t = CleanPath lib target in
      if p = t \<or> p \<in> {''*'', ''**'', ''**/*''} then True
      else if suffix ''/**'' p
      then (let pre = trim_suffix ''/**'' p in t = pre \<or> prefix (pre @ ''/'') t)
      else if prefix ''**/'' p
      then (let suf = drop 3 p in t = suf \<or> suffix (''/'' @ suf) t)
      else GlobMatch pl p t)"

text \<open>The proof types in the order they are first required, and the scope each has collected.\<close>

record proof_acc =
  paTypes :: "string list"
  paScopes :: "string \<Rightarrow> string list"

definition addProof :: "text_lib \<Rightarrow> string list \<Rightarrow> string \<Rightarrow> proof_acc \<Rightarrow> proof_acc" where
  "addProof lib scope p acc =
     (let n = NormalizeObligationType lib p in
      if n = [] then acc
      else acc\<lparr>paTypes := (if n \<in> set (paTypes acc) then paTypes acc else paTypes acc @ [n]),
               paScopes := (paScopes acc)(n := paScopes acc n @ scope)\<rparr>)"

definition rule_matches :: "text_lib \<Rightarrow> path_lib \<Rightarrow> string list \<Rightarrow> change_rule \<Rightarrow> bool" where
  "rule_matches lib pl affected r \<longleftrightarrow>
     urPaths r = [] \<or> list_ex (\<lambda>pat. list_ex (MatchPathPattern lib pl pat) affected) (urPaths r)"

definition add_rule :: "text_lib \<Rightarrow> path_lib \<Rightarrow> string list \<Rightarrow> change_rule \<Rightarrow> proof_acc \<Rightarrow> proof_acc" where
  "add_rule lib pl affected r acc =
     (if rule_matches lib pl affected r then fold (addProof lib (urPaths r)) (urRequire r) acc else acc)"

definition default_proofs :: "change_control \<Rightarrow> string list" where
  "default_proofs ct = (case ctDefaults ct of None \<Rightarrow> [''unit-tests'', ''independent-review''] | Some ds \<Rightarrow> ds)"

definition collect_proofs :: "text_lib \<Rightarrow> path_lib \<Rightarrow> change_control \<Rightarrow> string list \<Rightarrow> proof_acc" where
  "collect_proofs lib pl ct affected =
     fold (add_rule lib pl affected) (ctRules ct)
       (fold (addProof lib []) (default_proofs ct) \<lparr>paTypes = [], paScopes = (\<lambda>_. [])\<rparr>)"

definition known_spec :: "string \<Rightarrow> string \<Rightarrow> string \<Rightarrow> string \<Rightarrow> string \<Rightarrow> string list \<Rightarrow> obligation_spec" where
  "known_spec t name desc cmd capability scope =
     \<lparr>olType = t, olName = name, olDescription = desc, olRequired = True, olScope = scope, olCommand = cmd,
      olExpectedExit = 0, olCapability = capability, olParticipant = [], olPolicySource = ''policy''\<rparr>"

definition spec_of :: "path_lib \<Rightarrow> string \<Rightarrow> string list \<Rightarrow> obligation_spec" where
  "spec_of pl t scope =
     (if t = ''unit_tests'' then
        known_spec t ''Unit Tests'' ''Execute repository test suite via go test ./...'' ''go test ./...'' [] scope
      else if t = ''race_detector'' then
        known_spec t ''Race Detector'' ''Execute test suite with Go data race detector via go test -race ./...''
          ''go test -race ./...'' [] scope
      else if t = ''build'' then
        known_spec t ''Build'' ''Compile codebase via go build ./...'' ''go build ./...'' [] scope
      else if t = ''lint'' then
        known_spec t ''Code Analysis'' ''Run static analysis via go vet ./...'' ''go vet ./...'' [] scope
      else if t = ''independent_review'' then
        known_spec t ''Independent Peer Review'' ''Multi-finding review performed by an independent peer participant''
          [] ''review'' scope
      else if t = ''security_review'' then
        known_spec t ''Security Review'' ''Specialized security inspection performed by a security reviewer''
          [] ''security'' scope
      else if t = ''architecture_review'' then
        known_spec t ''Architecture Review'' ''Architectural review performed by an architecture reviewer''
          [] ''architecture'' scope
      else known_spec t (TitleCase pl (replace_char (CHR ''_'') (CHR '' '') t)) (''Proof obligation for '' @ t) [] [] scope)"

definition ResolveProofPolicy :: "text_lib \<Rightarrow> path_lib \<Rightarrow> change_control \<Rightarrow> string list \<Rightarrow> obligation_spec list" where
  "ResolveProofPolicy lib pl ct affected =
     (let acc = collect_proofs lib pl ct affected in map (\<lambda>t. spec_of pl t (paScopes acc t)) (paTypes acc))"

subsection \<open>What a policy demands\<close>

text \<open>The normalized names a list of requirements asks for.\<close>

definition asked :: "text_lib \<Rightarrow> string list \<Rightarrow> string set" where
  "asked lib ps = NormalizeObligationType lib ` set ps - {[]}"

lemma addProof_types [simp]:
  "set (paTypes (addProof lib sc p acc)) = set (paTypes acc) \<union> asked lib [p]"
  by (auto simp: addProof_def asked_def Let_def)

lemma addProof_distinct: "distinct (paTypes acc) \<Longrightarrow> distinct (paTypes (addProof lib sc p acc))"
  by (auto simp: addProof_def Let_def)

lemma fold_addProof_types: "set (paTypes (fold (addProof lib sc) ps acc)) = set (paTypes acc) \<union> asked lib ps"
  by (induction ps arbitrary: acc) (auto simp: asked_def)

lemma fold_addProof_distinct: "distinct (paTypes acc) \<Longrightarrow> distinct (paTypes (fold (addProof lib sc) ps acc))"
  by (induction ps arbitrary: acc) (auto intro: addProof_distinct)

lemma add_rule_types:
  "set (paTypes (add_rule lib pl affected r acc)) =
     set (paTypes acc) \<union> (if rule_matches lib pl affected r then asked lib (urRequire r) else {})"
  by (simp add: add_rule_def fold_addProof_types)

lemma fold_add_rule_types:
  "set (paTypes (fold (add_rule lib pl affected) rs acc)) =
     set (paTypes acc) \<union> (\<Union>r\<in>{r \<in> set rs. rule_matches lib pl affected r}. asked lib (urRequire r))"
proof (induction rs arbitrary: acc)
  case (Cons r rs)
  then show ?case by (auto simp: add_rule_types)
qed simp

lemma fold_add_rule_distinct:
  "distinct (paTypes acc) \<Longrightarrow> distinct (paTypes (fold (add_rule lib pl affected) rs acc))"
proof (induction rs arbitrary: acc)
  case (Cons r rs)
  have "distinct (paTypes (add_rule lib pl affected r acc))"
    using Cons.prems by (simp add: add_rule_def fold_addProof_distinct)
  then show ?case using Cons.IH by simp
qed simp

definition owed :: "text_lib \<Rightarrow> path_lib \<Rightarrow> change_control \<Rightarrow> string list \<Rightarrow> string set" where
  "owed lib pl ct affected =
     asked lib (default_proofs ct) \<union>
     (\<Union>r\<in>{r \<in> set (ctRules ct). rule_matches lib pl affected r}. asked lib (urRequire r))"

lemma collect_proofs_types: "set (paTypes (collect_proofs lib pl ct affected)) = owed lib pl ct affected"
  by (simp add: collect_proofs_def fold_add_rule_types fold_addProof_types owed_def)

lemma collect_proofs_distinct: "distinct (paTypes (collect_proofs lib pl ct affected))"
  by (simp add: collect_proofs_def fold_add_rule_distinct fold_addProof_distinct)

lemma spec_of_fields [simp]:
  "olType (spec_of pl t sc) = t" "olRequired (spec_of pl t sc)" "olScope (spec_of pl t sc) = sc"
  "olExpectedExit (spec_of pl t sc) = 0" "olParticipant (spec_of pl t sc) = []"
  by (simp_all add: spec_of_def known_spec_def)

text \<open>Reviews have no command.\<close>

lemma review_spec_command:
  "t = ''independent_review'' \<or> t = ''security_review'' \<or> t = ''architecture_review'' \<Longrightarrow> olCommand (spec_of pl t sc) = []"
  by (elim disjE) (simp_all add: spec_of_def known_spec_def)

lemma resolved_spec:
  "s \<in> set (ResolveProofPolicy lib pl ct affected) \<Longrightarrow> s = spec_of pl (olType s) (olScope s)"
  by (auto simp: ResolveProofPolicy_def Let_def)

lemma rule_matches_mono:
  "rule_matches lib pl affected r \<Longrightarrow> set affected \<subseteq> set affected' \<Longrightarrow> rule_matches lib pl affected' r"
  by (auto simp: rule_matches_def list_ex_iff subset_eq)

lemma proof_policy_facts:
  assumes "set affected \<subseteq> set affected'"
  shows "distinct (map olType (ResolveProofPolicy lib pl ct affected))"
    and "set (map olType (ResolveProofPolicy lib pl ct affected)) = owed lib pl ct affected"
    and "\<forall>s\<in>set (ResolveProofPolicy lib pl ct affected). olRequired s"
    and "set (map olType (ResolveProofPolicy lib pl ct affected))
           \<subseteq> set (map olType (ResolveProofPolicy lib pl ct affected'))"
    and "\<forall>r\<in>set (ctRules ct). urPaths r = [] \<longrightarrow> asked lib (urRequire r)
           \<subseteq> set (map olType (ResolveProofPolicy lib pl ct affected))"
proof -
  have types: "map olType (ResolveProofPolicy lib pl ct xs) = paTypes (collect_proofs lib pl ct xs)" for xs
    by (simp add: ResolveProofPolicy_def Let_def o_def)
  show "distinct (map olType (ResolveProofPolicy lib pl ct affected))"
    unfolding types by (rule collect_proofs_distinct)
  show "set (map olType (ResolveProofPolicy lib pl ct affected)) = owed lib pl ct affected"
    unfolding types by (rule collect_proofs_types)
  show "\<forall>s\<in>set (ResolveProofPolicy lib pl ct affected). olRequired s"
    by (auto simp: ResolveProofPolicy_def Let_def)
  have "owed lib pl ct affected \<subseteq> owed lib pl ct affected'"
    using rule_matches_mono [OF _ assms] by (auto simp: owed_def)
  then show "set (map olType (ResolveProofPolicy lib pl ct affected))
      \<subseteq> set (map olType (ResolveProofPolicy lib pl ct affected'))"
    unfolding types collect_proofs_types .
  show "\<forall>r\<in>set (ctRules ct). urPaths r = [] \<longrightarrow> asked lib (urRequire r)
      \<subseteq> set (map olType (ResolveProofPolicy lib pl ct affected))"
    unfolding types collect_proofs_types by (auto simp: owed_def rule_matches_def)
qed

text \<open>
  The proof policy of a change is exact and cannot be talked down. The resolved obligations
  are all required, each type appears once, and the types are exactly the normalized default proofs
  and requirements of the rules that apply; touching more paths never removes an obligation, and a
  rule without paths always applies.
\<close>

theorem proof_policy_exact:
  assumes "set affected \<subseteq> set affected'"
  shows "distinct (map olType (ResolveProofPolicy lib pl ct affected)) \<and>
    set (map olType (ResolveProofPolicy lib pl ct affected)) = owed lib pl ct affected \<and>
    (\<forall>s\<in>set (ResolveProofPolicy lib pl ct affected). olRequired s) \<and>
    set (map olType (ResolveProofPolicy lib pl ct affected)) \<subseteq> set (map olType (ResolveProofPolicy lib pl ct affected')) \<and>
    (\<forall>r\<in>set (ctRules ct). urPaths r = [] \<longrightarrow> asked lib (urRequire r)
       \<subseteq> set (map olType (ResolveProofPolicy lib pl ct affected)))"
  using proof_policy_facts [OF assms] by (intro conjI)

definition plain_lib :: text_lib where
  "plain_lib = \<lparr>TrimSpace = (\<lambda>s. s), CleanPath = (\<lambda>s. s), ToLower = (\<lambda>s. s), sha256hex = (\<lambda>s. s)\<rparr>"

definition plain_paths :: path_lib where
  "plain_paths = \<lparr>GlobMatch = (\<lambda>p t. False), TitleCase = (\<lambda>s. s)\<rparr>"

definition sample_control :: change_control where
  "sample_control = \<lparr>ctDefaults = None, ctRules = [\<lparr>urPaths = [''src/**''], urRequire = [''race'', ''unit-tests'']\<rparr>]\<rparr>"

theorem proof_policy_exact_witness:
  "set (map olType (ResolveProofPolicy plain_lib plain_paths sample_control [''README.md'']))
     \<subseteq> set (map olType (ResolveProofPolicy plain_lib plain_paths sample_control [''src/a.go'', ''README.md'']))
   \<and> map olType (ResolveProofPolicy plain_lib plain_paths sample_control [''src/a.go'', ''README.md'']) =
       [''unit_tests'', ''independent_review'', ''race_detector'']
   \<and> map olType (ResolveProofPolicy plain_lib plain_paths sample_control [''README.md'']) =
       [''unit_tests'', ''independent_review'']"
proof -
  have sub: "set [''README.md''] \<subseteq> set [''src/a.go'', ''README.md'']" by simp
  show ?thesis
    using proof_policy_exact [OF sub, of plain_lib plain_paths sample_control]
    by (intro conjI) (blast, code_simp, code_simp)
qed

text \<open>
  A default proof has no scope of its own, but a rule that asks for the same proof gives it one:
  the repository-wide default is narrowed to the paths of the rule.
\<close>

lemma default_proof_narrowed_by_rule:
  "map olScope (ResolveProofPolicy plain_lib plain_paths sample_control [''src/a.go'']) = [[''src/**''], [], [''src/**'']]"
  by code_simp

end
