(* ===== verification/MeshStore.thy ===== *)
theory MeshStore
  imports ProofPolicy
begin

text \<open>
  The records of a gated change (\<open>internal/protocol/types.go\<close>) and the part of the SQLite store
  that keeps them (\<open>internal/store/store.go\<close>, the MeshCommit methods): every statement as the
  effect its \<open>INSERT ... ON CONFLICT\<close> or \<open>UPDATE\<close> has on the rows. A table is an association
  list from the primary key to the row; rows with equal times keep the order of insertion. The
  free-form metadata columns are left out.
\<close>

datatype change_status =
    ChangeDraft | ChangePrepared | ChangeUnderVerification | ChangeBlocked | ChangeVerified | ChangeCommittable
  | ChangeCommitted | ChangeAborted

datatype proof_status =
  ProofPending | ProofRunning | ProofPassed | ProofFailed | ProofStale | ProofWaived | ProofRequiresHuman

datatype gate_status = GateCommittable | GateBlocked | GateVerifying

record mesh_change =
  mhID :: string
  mhSession :: string
  mhSpace :: string
  mhRepository :: string
  mhTitle :: string
  mhIntent :: string
  mhAuthor :: string
  mhBaseCommit :: string
  mhBaseTree :: string
  mhTree :: string
  mhVerified :: string
  mhStatus :: change_status
  mhPolicy :: string
  mhPolicySource :: string
  mhCommit :: string
  mhCreatedAt :: int
  mhUpdatedAt :: int
  mhCommittedAt :: "int option"
  mhAbortedAt :: "int option"

record change_path =
  hpChange :: string
  hpPath :: string
  hpType :: string
  hpBefore :: string
  hpAfter :: string
  hpCreatedAt :: int

record proof_obligation =
  pbID :: string
  pbChange :: string
  pbType :: string
  pbName :: string
  pbDescription :: string
  pbRequired :: bool
  pbStatus :: proof_status
  pbPolicySource :: string
  pbScope :: "string list"
  pbCapability :: string
  pbParticipant :: string
  pbCommand :: string
  pbExpectedExit :: int
  pbFreshness :: string
  pbEvidence :: string
  pbWaivedBy :: string
  pbWaivedReason :: string
  pbCreatedAt :: int
  pbUpdatedAt :: int

record change_evidence =
  veID :: string
  veChange :: string
  veObligation :: string
  veTree :: string
  veSource :: string
  veAdapter :: string
  veType :: string
  veCommand :: string
  veExit :: "int option"
  veResult :: string
  veArtifact :: string
  veValid :: bool
  veInvalidatedAt :: "int option"
  veReason :: "msg option"
  veCreatedAt :: int

record gate_result =
  gtID :: string
  gtChange :: string
  gtStatus :: gate_status
  gtTree :: string
  gtVerified :: string
  gtPassed :: "string list"
  gtPending :: "string list"
  gtFailed :: "string list"
  gtStale :: "string list"
  gtReasons :: "msg list"
  gtEvaluatedAt :: int

record mesh_store =
  mdChanges :: "(string \<times> mesh_change) list"
  mdPaths :: "((string \<times> string) \<times> change_path) list"
  mdObligations :: "(string \<times> proof_obligation) list"
  mdEvidence :: "(string \<times> change_evidence) list"
  mdGates :: "(string \<times> gate_result) list"

definition empty_mesh :: mesh_store where
  "empty_mesh = \<lparr>mdChanges = [], mdPaths = [], mdObligations = [], mdEvidence = [], mdGates = []\<rparr>"

text \<open>
  An upsert: a new key gets the new row, a known key the columns its update clause names.
\<close>

definition upsert :: "('r \<Rightarrow> 'r \<Rightarrow> 'r) \<Rightarrow> 'k \<Rightarrow> 'r \<Rightarrow> ('k \<times> 'r) list \<Rightarrow> ('k \<times> 'r) list" where
  "upsert merge k r rows = AList.update k (case map_of rows k of None \<Rightarrow> r | Some old \<Rightarrow> merge old r) rows"

definition merge_change :: "mesh_change \<Rightarrow> mesh_change \<Rightarrow> mesh_change" where
  "merge_change old new = new
     \<lparr>mhID := mhID old, mhSession := mhSession old, mhSpace := mhSpace old, mhRepository := mhRepository old,
      mhAuthor := mhAuthor old, mhCreatedAt := mhCreatedAt old\<rparr>"

definition SaveMeshChange :: "mesh_change \<Rightarrow> mesh_store \<Rightarrow> mesh_store" where
  "SaveMeshChange c st =
     (let c = (if mhPolicy c = [] then c\<lparr>mhPolicy := ''{}''\<rparr> else c) in
      st\<lparr>mdChanges := upsert merge_change (mhID c) c (mdChanges st)\<rparr>)"

definition GetMeshChange :: "string \<Rightarrow> mesh_store \<Rightarrow> mesh_change option" where
  "GetMeshChange i st = map_of (mdChanges st) i"

definition merge_path :: "change_path \<Rightarrow> change_path \<Rightarrow> change_path" where
  "merge_path old new = old\<lparr>hpType := hpType new, hpBefore := hpBefore new, hpAfter := hpAfter new\<rparr>"

definition SaveChangePaths :: "change_path list \<Rightarrow> mesh_store \<Rightarrow> mesh_store" where
  "SaveChangePaths ps st = st\<lparr>mdPaths := fold (\<lambda>p. upsert merge_path (hpChange p, hpPath p) p) ps (mdPaths st)\<rparr>"

definition GetChangePaths :: "string \<Rightarrow> mesh_store \<Rightarrow> change_path list" where
  "GetChangePaths i st = sort_key hpPath (filter (\<lambda>p. hpChange p = i) (map snd (mdPaths st)))"

definition merge_obligation :: "proof_obligation \<Rightarrow> proof_obligation \<Rightarrow> proof_obligation" where
  "merge_obligation old new = old
     \<lparr>pbStatus := pbStatus new, pbEvidence := pbEvidence new, pbWaivedBy := pbWaivedBy new,
      pbWaivedReason := pbWaivedReason new, pbUpdatedAt := pbUpdatedAt new\<rparr>"

definition SaveProofObligation :: "proof_obligation \<Rightarrow> mesh_store \<Rightarrow> mesh_store" where
  "SaveProofObligation o1 st = st\<lparr>mdObligations := upsert merge_obligation (pbID o1) o1 (mdObligations st)\<rparr>"

definition GetProofObligation :: "string \<Rightarrow> mesh_store \<Rightarrow> proof_obligation option" where
  "GetProofObligation i st = map_of (mdObligations st) i"

definition GetProofObligations :: "string \<Rightarrow> mesh_store \<Rightarrow> proof_obligation list" where
  "GetProofObligations i st = sort_key pbCreatedAt (filter (\<lambda>o1. pbChange o1 = i) (map snd (mdObligations st)))"

text \<open>An update of the row with a key; nothing happens when there is none.\<close>

definition update_row :: "'k \<Rightarrow> ('r \<Rightarrow> 'r) \<Rightarrow> ('k \<times> 'r) list \<Rightarrow> ('k \<times> 'r) list" where
  "update_row k f rows = map (\<lambda>(i, r). (i, if i = k then f r else r)) rows"

definition UpdateProofObligationStatus :: "string \<Rightarrow> proof_status \<Rightarrow> string \<Rightarrow> int \<Rightarrow> mesh_store \<Rightarrow> mesh_store" where
  "UpdateProofObligationStatus i s eid now st = st\<lparr>mdObligations :=
     update_row i (\<lambda>o1. o1\<lparr>pbStatus := s, pbEvidence := eid, pbUpdatedAt := now\<rparr>) (mdObligations st)\<rparr>"

definition merge_evidence :: "change_evidence \<Rightarrow> change_evidence \<Rightarrow> change_evidence" where
  "merge_evidence old new =
     old\<lparr>veValid := veValid new, veInvalidatedAt := veInvalidatedAt new, veReason := veReason new\<rparr>"

definition SaveChangeEvidence :: "change_evidence \<Rightarrow> mesh_store \<Rightarrow> mesh_store" where
  "SaveChangeEvidence e st = st\<lparr>mdEvidence := upsert merge_evidence (veID e) e (mdEvidence st)\<rparr>"

definition GetChangeEvidenceForObligation :: "string \<Rightarrow> mesh_store \<Rightarrow> change_evidence list" where
  "GetChangeEvidenceForObligation i st =
     sort_key (\<lambda>e. - veCreatedAt e) (filter (\<lambda>e. veObligation e = i) (map snd (mdEvidence st)))"

definition GetChangeEvidenceForChange :: "string \<Rightarrow> mesh_store \<Rightarrow> change_evidence list" where
  "GetChangeEvidenceForChange i st =
     sort_key (\<lambda>e. - veCreatedAt e) (filter (\<lambda>e. veChange e = i) (map snd (mdEvidence st)))"

definition InvalidateChangeEvidence :: "string \<Rightarrow> msg \<Rightarrow> int \<Rightarrow> mesh_store \<Rightarrow> mesh_store" where
  "InvalidateChangeEvidence i reason now st = st\<lparr>mdEvidence :=
     update_row i (\<lambda>e. e\<lparr>veValid := False, veInvalidatedAt := Some now, veReason := Some reason\<rparr>) (mdEvidence st)\<rparr>"

definition SaveGateResult :: "gate_result \<Rightarrow> mesh_store \<Rightarrow> mesh_store" where
  "SaveGateResult g st =
     st\<lparr>mdGates := upsert (\<lambda>old new. new\<lparr>gtID := gtID old, gtChange := gtChange old\<rparr>) (gtID g) g (mdGates st)\<rparr>"

subsection \<open>Rows\<close>

lemma map_of_upsert: "map_of (upsert merge k r rows) =
    (map_of rows)(k \<mapsto> (case map_of rows k of None \<Rightarrow> r | Some old \<Rightarrow> merge old r))"
  by (simp add: upsert_def map_of_update)

lemma map_of_update_row: "map_of (update_row k f rows) i = (if i = k then map_option f (map_of rows k) else map_of rows i)"
  by (induction rows) (auto simp: update_row_def)

lemma keys_upsert [simp]: "fst ` set (upsert merge k r rows) = insert k (fst ` set rows)"
  by (simp add: upsert_def keys_update)

lemma distinct_upsert: "distinct (map fst rows) \<Longrightarrow> distinct (map fst (upsert merge k r rows))"
  by (simp add: upsert_def distinct_update)

lemma keys_update_row [simp]: "map fst (update_row k f rows) = map fst rows"
  by (simp add: update_row_def comp_def case_prod_beta)

lemma mesh_frames [simp]:
  "mdObligations (SaveMeshChange c st) = mdObligations st" "mdEvidence (SaveMeshChange c st) = mdEvidence st"
  "mdGates (SaveMeshChange c st) = mdGates st"
  "mdChanges (SaveChangePaths ps st) = mdChanges st" "mdObligations (SaveChangePaths ps st) = mdObligations st"
  "mdEvidence (SaveChangePaths ps st) = mdEvidence st" "mdGates (SaveChangePaths ps st) = mdGates st"
  "mdChanges (SaveProofObligation o1 st) = mdChanges st" "mdEvidence (SaveProofObligation o1 st) = mdEvidence st"
  "mdGates (SaveProofObligation o1 st) = mdGates st"
  "mdChanges (UpdateProofObligationStatus i s eid now st) = mdChanges st"
  "mdEvidence (UpdateProofObligationStatus i s eid now st) = mdEvidence st"
  "mdGates (UpdateProofObligationStatus i s eid now st) = mdGates st"
  "mdChanges (SaveChangeEvidence e st) = mdChanges st" "mdObligations (SaveChangeEvidence e st) = mdObligations st"
  "mdGates (SaveChangeEvidence e st) = mdGates st"
  "mdChanges (InvalidateChangeEvidence i reason now st) = mdChanges st"
  "mdObligations (InvalidateChangeEvidence i reason now st) = mdObligations st"
  "mdGates (InvalidateChangeEvidence i reason now st) = mdGates st"
  "mdChanges (SaveGateResult g st) = mdChanges st" "mdObligations (SaveGateResult g st) = mdObligations st"
  "mdEvidence (SaveGateResult g st) = mdEvidence st"
  by (simp_all add: SaveMeshChange_def SaveChangePaths_def SaveProofObligation_def UpdateProofObligationStatus_def
      SaveChangeEvidence_def InvalidateChangeEvidence_def SaveGateResult_def Let_def)

lemma GetMeshChange_save [simp]:
  "GetMeshChange i (SaveMeshChange c st) =
     (if i = mhID c
      then Some (let c = (if mhPolicy c = [] then c\<lparr>mhPolicy := ''{}''\<rparr> else c) in
                 case GetMeshChange i st of None \<Rightarrow> c | Some old \<Rightarrow> merge_change old c)
      else GetMeshChange i st)"
  by (simp add: GetMeshChange_def SaveMeshChange_def map_of_upsert Let_def)

lemma set_GetProofObligations: "set (GetProofObligations i st) = {o1. pbChange o1 = i \<and> o1 \<in> snd ` set (mdObligations st)}"
  by (auto simp: GetProofObligations_def)

lemma set_GetChangeEvidenceForChange:
  "set (GetChangeEvidenceForChange i st) = {e. veChange e = i \<and> e \<in> snd ` set (mdEvidence st)}"
  by (auto simp: GetChangeEvidenceForChange_def)

text \<open>The rows of a table with distinct keys, by key.\<close>

lemma rows_by_key: "distinct (map fst rows) \<Longrightarrow> r \<in> snd ` set rows \<longleftrightarrow> (\<exists>k. map_of rows k = Some r)"
  by force

end
