(* ===== verification/MeshCommit.thy ===== *)
theory MeshCommit
  imports MeshStore
begin

text \<open>
  The MeshCommit coordinator (\<open>internal/collaboration/meshcommit.go\<close>): a repository change is
  opened by a writable executor, collects evidence for its proof obligations, and is committed only
  from the tree the gate verified. Every operation runs under the coordinator's mutex and is a
  function of the store. What the environment answers during one call is its \<open>mesh_call\<close>: the
  clock, the hash of the working tree each time it is computed, the diffs, the exit of a proof
  command and of \<open>git commit\<close>, and which store calls fail. Events and metrics are left out.
\<close>

subsection \<open>Configuration and environment\<close>

record agent_executor =
  axMode :: string
  axWritable :: bool

record mesh_settings =
  meAgents :: "(string \<times> agent_executor) list"
  meControl :: change_control

text \<open>
  \<open>mgSettings\<close> is the configuration, \<open>None\<close> when the coordinator has none; \<open>mgWriter\<close> the
  designated writer of a space the space service finds; \<open>mgEncode\<close> the JSON of a policy.
\<close>

record mesh_config =
  mgLib :: text_lib
  mgPaths :: path_lib
  mgSettings :: "mesh_settings option"
  mgWriter :: "string \<Rightarrow> string option"
  mgEncode :: "obligation_spec list \<Rightarrow> string"

datatype store_site =
    AtGetChange string | AtSaveChange string | AtSavePaths | AtSaveObligation string | AtGetObligation
  | AtGetObligations string | AtGetEvidence string | AtSaveEvidence | AtUpdateObligation string string
  | AtInvalidate string | AtSaveGate

record mesh_call =
  mkNow :: int
  mkNano :: string
  mkSeconds :: string
  mkTree :: "string option"
  mkGateTree :: "string option"
  mkDiff :: "change_path list option"
  mkGateDiff :: "string list"
  mkRun :: "string \<Rightarrow> int \<times> bool"
  mkGit :: "string option"
  mkFails :: "store_site \<Rightarrow> bool"

datatype mesh_error =
    MeshFailure msg
  | MeshPolicyDenied string msg
  | ChangeNotFoundError string
  | ProofObligationNotFoundError string
  | SelfReviewForbiddenError string string
  | CommitTreeMismatchError string string string
  | ChangeNotCommittableError string change_status

type_synonym 'a mesh_result = "mesh_store \<times> (mesh_error + 'a)"

definition status_name :: "change_status \<Rightarrow> string" where
  "status_name s =
     (case s of ChangeDraft \<Rightarrow> ''draft'' | ChangePrepared \<Rightarrow> ''prepared'' | ChangeUnderVerification \<Rightarrow> ''under_verification''
              | ChangeBlocked \<Rightarrow> ''blocked'' | ChangeVerified \<Rightarrow> ''verified'' | ChangeCommittable \<Rightarrow> ''committable''
              | ChangeCommitted \<Rightarrow> ''committed'' | ChangeAborted \<Rightarrow> ''aborted'')"

text \<open>A store call whose error the code ignores.\<close>

definition attempt :: "mesh_call \<Rightarrow> store_site \<Rightarrow> (mesh_store \<Rightarrow> mesh_store) \<Rightarrow> mesh_store \<Rightarrow> mesh_store" where
  "attempt k site f st = (if mkFails k site then st else f st)"

definition IsExternal :: "text_lib \<Rightarrow> agent_executor \<Rightarrow> bool" where
  "IsExternal lib a \<longleftrightarrow> ToLower lib (TrimSpace lib (axMode a)) = ''external''"

definition requireWritableExecutor :: "mesh_config \<Rightarrow> string \<Rightarrow> string \<Rightarrow> mesh_error option" where
  "requireWritableExecutor mg p action =
     (case mgSettings mg of
        None \<Rightarrow> None
      | Some ms \<Rightarrow>
          if meAgents ms = [] then None
          else (case map_of (meAgents ms) p of
            None \<Rightarrow> Some (MeshPolicyDenied action
              (Msg ''participant %q is not a registered agent and cannot %s (fail-closed: agents are configured for this deployment)''
                [AS p, AS action]))
          | Some a \<Rightarrow>
              if IsExternal (mgLib mg) a \<or> \<not> axWritable a
              then Some (MeshPolicyDenied action
                (Msg ''participant %q is not a writable/managed executor (execution_mode=%q, writable=%v) and cannot %s''
                  [AS p, AS (axMode a), AS (if axWritable a then ''true'' else ''false''), AS action]))
              else None))"

definition blank :: "mesh_config \<Rightarrow> string \<Rightarrow> bool" where
  "blank mg s \<longleftrightarrow> TrimSpace (mgLib mg) s = []"

definition lookup_change :: "mesh_call \<Rightarrow> string \<Rightarrow> string \<Rightarrow> mesh_store \<Rightarrow> mesh_change option" where
  "lookup_change k site i st = (if mkFails k (AtGetChange site) then None else GetMeshChange i st)"

subsection \<open>Opening a change\<close>

record create_request =
  nrChangeID :: string
  nrSpace :: string
  nrSession :: string
  nrRepository :: string
  nrAuthor :: string
  nrTitle :: string
  nrIntent :: string
  nrBaseCommit :: string

definition space_writer_denied :: "mesh_config \<Rightarrow> create_request \<Rightarrow> mesh_error option" where
  "space_writer_denied mg r =
     (if nrSpace r = [] then None
      else (case mgWriter mg (nrSpace r) of
        None \<Rightarrow> None
      | Some w \<Rightarrow>
          require (w = [] \<or> w = nrAuthor r) (MeshPolicyDenied ''create_change''
            (Msg ''participant %q is not the designated writer (%q) for space %q'' [AS (nrAuthor r), AS w, AS (nrSpace r)]))))"

definition obligation_of :: "string \<Rightarrow> int \<Rightarrow> obligation_spec \<Rightarrow> proof_obligation" where
  "obligation_of cid now s =
     \<lparr>pbID = ''obl_'' @ cid @ ''_'' @ olName s, pbChange = cid, pbType = olType s, pbName = olName s,
      pbDescription = olDescription s, pbRequired = olRequired s, pbStatus = ProofPending,
      pbPolicySource = olPolicySource s, pbScope = olScope s, pbCapability = olCapability s,
      pbParticipant = olParticipant s, pbCommand = olCommand s, pbExpectedExit = olExpectedExit s,
      pbFreshness = ''exact_tree'', pbEvidence = [], pbWaivedBy = [], pbWaivedReason = [],
      pbCreatedAt = now, pbUpdatedAt = now\<rparr>"

definition default_spec :: obligation_spec where
  "default_spec =
     \<lparr>olType = ''unit_tests'', olName = ''default_verification'', olDescription = ''Default change verification'',
      olRequired = True, olScope = [], olCommand = [], olExpectedExit = 0, olCapability = [], olParticipant = [],
      olPolicySource = ''default''\<rparr>"

definition change_specs :: "mesh_config \<Rightarrow> string list \<Rightarrow> obligation_spec list" where
  "change_specs mg paths =
     (let specs = (case mgSettings mg of None \<Rightarrow> []
                   | Some ms \<Rightarrow> ResolveProofPolicy (mgLib mg) (mgPaths mg) (meControl ms) paths) in
      if specs = [] then [default_spec] else specs)"

definition new_change :: "mesh_config \<Rightarrow> create_request \<Rightarrow> string \<Rightarrow> string \<Rightarrow> obligation_spec list \<Rightarrow> int \<Rightarrow> mesh_change" where
  "new_change mg r cid tree specs now =
     \<lparr>mhID = cid, mhSession = nrSession r, mhSpace = nrSpace r, mhRepository = nrRepository r, mhTitle = nrTitle r,
      mhIntent = nrIntent r, mhAuthor = nrAuthor r, mhBaseCommit = nrBaseCommit r, mhBaseTree = tree, mhTree = tree,
      mhVerified = [], mhStatus = ChangeDraft, mhPolicy = mgEncode mg specs, mhPolicySource = ''config'',
      mhCommit = [], mhCreatedAt = now, mhUpdatedAt = now, mhCommittedAt = None, mhAbortedAt = None\<rparr>"

fun save_obligations :: "mesh_call \<Rightarrow> proof_obligation list \<Rightarrow> mesh_store \<Rightarrow> mesh_store \<times> mesh_error option" where
  "save_obligations k [] st = (st, None)"
| "save_obligations k (o1 # os) st =
     (if mkFails k (AtSaveObligation (pbID o1)) then (st, Some (MeshFailure (plain ''failed to save proof obligation'')))
      else save_obligations k os (SaveProofObligation o1 st))"

definition stamp_paths :: "string \<Rightarrow> int \<Rightarrow> change_path list \<Rightarrow> change_path list" where
  "stamp_paths cid now ps = map (\<lambda>p. p\<lparr>hpChange := cid, hpCreatedAt := now\<rparr>) ps"

definition create_guard :: "mesh_config \<Rightarrow> create_request \<Rightarrow> mesh_error option" where
  "create_guard mg r =
     err_then (require (\<not> blank mg (nrTitle r)) (MeshFailure (plain ''change title cannot be empty'')))
    (err_then (require (\<not> blank mg (nrAuthor r)) (MeshFailure (plain ''author_participant cannot be empty'')))
    (err_then (requireWritableExecutor mg (nrAuthor r) ''create_change'') (space_writer_denied mg r)))"

definition CreateChange :: "mesh_config \<Rightarrow> mesh_call \<Rightarrow> create_request \<Rightarrow> mesh_store \<Rightarrow> mesh_change mesh_result" where
  "CreateChange mg k r st =
     (case create_guard mg r of Some e \<Rightarrow> (st, Inl e) | None \<Rightarrow>
     (let cid = (if nrChangeID r = [] then ''chg_'' @ mkNano k else nrChangeID r); now = mkNow k in
      case mkTree k of None \<Rightarrow> (st, Inl (MeshFailure (plain ''failed to compute tree hash''))) | Some tree \<Rightarrow>
     (let paths = stamp_paths cid now (case mkDiff k of None \<Rightarrow> [] | Some ps \<Rightarrow> ps);
          specs = change_specs mg (map hpPath paths);
          c = new_change mg r cid tree specs now in
      if mkFails k (AtSaveChange ''create'') then (st, Inl (MeshFailure (plain ''failed to save mesh change'')))
      else
        let st1 = SaveMeshChange c st in
        if paths \<noteq> [] \<and> mkFails k AtSavePaths then (st1, Inl (MeshFailure (plain ''failed to save change paths'')))
        else (case save_obligations k (map (obligation_of cid now) specs) (SaveChangePaths paths st1) of
                (st2, Some e) \<Rightarrow> (st2, Inl e) | (st2, None) \<Rightarrow> (st2, Inr c)))))"

definition finalized :: "change_status \<Rightarrow> bool" where
  "finalized s \<longleftrightarrow> s = ChangeCommitted \<or> s = ChangeAborted"

definition not_author :: "mesh_config \<Rightarrow> string \<Rightarrow> string \<Rightarrow> mesh_change \<Rightarrow> mesh_error option" where
  "not_author mg action actor c =
     require (blank mg actor \<or> actor = mhAuthor c) (MeshPolicyDenied action
       (Msg ''caller %q is not the author %q of change %q'' [AS actor, AS (mhAuthor c), AS (mhID c)]))"

definition PrepareChange :: "mesh_config \<Rightarrow> mesh_call \<Rightarrow> string \<Rightarrow> string \<Rightarrow> mesh_store \<Rightarrow> mesh_change mesh_result" where
  "PrepareChange mg k cid actor st =
     (case lookup_change k ''prepare'' cid st of None \<Rightarrow> (st, Inl (ChangeNotFoundError cid)) | Some c \<Rightarrow>
     (case not_author mg ''prepare_change'' actor c of Some e \<Rightarrow> (st, Inl e) | None \<Rightarrow>
      if finalized (mhStatus c) then (st, Inl (MeshFailure (Msg ''cannot prepare finalized change in status %q'' [AS (status_name (mhStatus c))])))
      else (case mkTree k of None \<Rightarrow> (st, Inl (MeshFailure (plain ''failed to compute current tree hash''))) | Some tree \<Rightarrow>
        let paths = stamp_paths cid (mkNow k) (case mkDiff k of None \<Rightarrow> [] | Some ps \<Rightarrow> ps);
            st1 = (if tree \<noteq> mhTree c then attempt k AtSavePaths (SaveChangePaths paths) st else st);
            c1 = c\<lparr>mhTree := tree, mhStatus := ChangePrepared, mhUpdatedAt := mkNow k\<rparr> in
        if mkFails k (AtSaveChange ''prepare'') then (st1, Inl (MeshFailure (plain ''failed to update change status'')))
        else (SaveMeshChange c1 st1, Inr c1))))"

subsection \<open>The gate\<close>

definition scope_touched :: "mesh_config \<Rightarrow> string list \<Rightarrow> string list \<Rightarrow> bool" where
  "scope_touched mg scope changed \<longleftrightarrow>
     list_ex (\<lambda>p. list_ex (\<lambda>s. MatchPathPattern (mgLib mg) (mgPaths mg) s p \<or> prefix (trim_suffix ''*'' s) p) scope) changed"

definition goes_stale :: "mesh_config \<Rightarrow> proof_obligation list \<Rightarrow> string list \<Rightarrow> change_evidence \<Rightarrow> bool" where
  "goes_stale mg obls changed e \<longleftrightarrow>
     (case map_of (map (\<lambda>o1. (pbID o1, o1)) obls) (veObligation e) of
        None \<Rightarrow> True
      | Some o1 \<Rightarrow> pbScope o1 = [] \<or> scope_touched mg (pbScope o1) changed)"

definition invalidate_one :: "mesh_call \<Rightarrow> string \<Rightarrow> string list \<Rightarrow> change_evidence \<Rightarrow> mesh_store \<Rightarrow> mesh_store" where
  "invalidate_one k tree changed e st =
     (let reason = Msg ''worktree modified (tree %s); overlapping paths: %v'' [AS tree, AL changed];
          st1 = attempt k (AtInvalidate (veID e)) (InvalidateChangeEvidence (veID e) reason (mkNow k)) st in
      if veObligation e = [] then st1
      else attempt k (AtUpdateObligation ''stale'' (veObligation e))
             (UpdateProofObligationStatus (veObligation e) ProofStale [] (mkNow k)) st1)"

definition InvalidateStaleEvidence :: "mesh_config \<Rightarrow> mesh_call \<Rightarrow> string \<Rightarrow> string \<Rightarrow> string list \<Rightarrow> mesh_store \<Rightarrow> mesh_store" where
  "InvalidateStaleEvidence mg k cid tree changed st =
     (if mkFails k (AtGetEvidence ''stale'') then st
      else
        let obls = (if mkFails k (AtGetObligations ''stale'') then [] else GetProofObligations cid st) in
        fold (\<lambda>e st. if veValid e \<and> goes_stale mg obls changed e then invalidate_one k tree changed e st else st)
          (GetChangeEvidenceForChange cid st) st)"

datatype verdict = VerdictFailed | VerdictPassed | VerdictStale | VerdictPending

definition judge :: "change_evidence list \<Rightarrow> string \<Rightarrow> proof_obligation \<Rightarrow> verdict" where
  "judge evs tree o1 =
     (let rs = map veResult (filter (\<lambda>e. veValid e \<and> veTree e = tree \<and> veObligation e = pbID o1) evs) in
      if ''failed'' \<in> set rs then VerdictFailed
      else if ''passed'' \<in> set rs then VerdictPassed
      else if pbStatus o1 = ProofStale then VerdictStale else VerdictPending)"

definition verdict_status :: "verdict \<Rightarrow> proof_status option" where
  "verdict_status v =
     (case v of VerdictFailed \<Rightarrow> Some ProofFailed | VerdictPassed \<Rightarrow> Some ProofPassed | VerdictStale \<Rightarrow> None
              | VerdictPending \<Rightarrow> Some ProofPending)"

definition verdict_reason :: "verdict \<Rightarrow> string" where
  "verdict_reason v =
     (case v of VerdictFailed \<Rightarrow> ''required obligation %q (%s) failed''
              | VerdictStale \<Rightarrow> ''required obligation %q (%s) evidence is stale''
              | VerdictPending \<Rightarrow> ''required obligation %q (%s) is pending evidence'' | VerdictPassed \<Rightarrow> [])"

definition record_verdict :: "mesh_call \<Rightarrow> change_evidence list \<Rightarrow> string \<Rightarrow> proof_obligation \<Rightarrow> mesh_store \<Rightarrow> mesh_store" where
  "record_verdict k evs tree o1 st =
     (case verdict_status (judge evs tree o1) of
        None \<Rightarrow> st
      | Some s \<Rightarrow> attempt k (AtUpdateObligation ''gate'' (pbID o1)) (UpdateProofObligationStatus (pbID o1) s [] (mkNow k)) st)"

definition gate_open :: "change_evidence list \<Rightarrow> string \<Rightarrow> proof_obligation list \<Rightarrow> bool" where
  "gate_open evs tree obls \<longleftrightarrow>
     obls \<noteq> [] \<and> list_all (\<lambda>o1. pbRequired o1 \<longrightarrow> judge evs tree o1 = VerdictPassed) obls"

definition with_verdict :: "verdict \<Rightarrow> change_evidence list \<Rightarrow> string \<Rightarrow> proof_obligation list \<Rightarrow> string list" where
  "with_verdict v evs tree obls = map pbID (filter (\<lambda>o1. judge evs tree o1 = v) obls)"

definition gate_reasons :: "change_evidence list \<Rightarrow> string \<Rightarrow> proof_obligation list \<Rightarrow> msg list" where
  "gate_reasons evs tree obls =
     map (\<lambda>o1. Msg (verdict_reason (judge evs tree o1)) [AS (pbName o1), AS (pbID o1)])
       (filter (\<lambda>o1. pbRequired o1 \<and> judge evs tree o1 \<noteq> VerdictPassed) obls)"

text \<open>The change follows the gate: it becomes committable, or is demoted when it was.\<close>

definition follow_gate :: "mesh_call \<Rightarrow> bool \<Rightarrow> mesh_change \<Rightarrow> mesh_change option" where
  "follow_gate k is_open c =
     (if is_open then Some (c\<lparr>mhStatus := ChangeCommittable, mhVerified := mhTree c, mhUpdatedAt := mkNow k\<rparr>)
      else if mhStatus c = ChangeCommittable \<or> mhStatus c = ChangeVerified
      then Some (c\<lparr>mhStatus := ChangeBlocked, mhUpdatedAt := mkNow k\<rparr>) else None)"

definition gate_effects :: "mesh_call \<Rightarrow> mesh_change \<Rightarrow> proof_obligation list \<Rightarrow> change_evidence list \<Rightarrow> mesh_store \<Rightarrow> mesh_store" where
  "gate_effects k c obls evs st =
     (let st1 = fold (record_verdict k evs (mhTree c)) obls st in
      case follow_gate k (gate_open evs (mhTree c) obls) c of
        None \<Rightarrow> st1
      | Some c1 \<Rightarrow> attempt k (AtSaveChange ''gate'') (SaveMeshChange c1) st1)"

definition gate_record :: "mesh_call \<Rightarrow> mesh_change \<Rightarrow> proof_obligation list \<Rightarrow> change_evidence list \<Rightarrow> gate_result" where
  "gate_record k c obls evs =
     (let tree = mhTree c; is_open = gate_open evs tree obls in
      \<lparr>gtID = ''gate_'' @ mhID c @ ''_'' @ mkNano k, gtChange = mhID c,
       gtStatus = (if is_open then GateCommittable else GateBlocked), gtTree = tree,
       gtVerified = (case follow_gate k is_open c of None \<Rightarrow> mhVerified c | Some c1 \<Rightarrow> mhVerified c1),
       gtPassed = with_verdict VerdictPassed evs tree obls, gtPending = with_verdict VerdictPending evs tree obls,
       gtFailed = with_verdict VerdictFailed evs tree obls, gtStale = with_verdict VerdictStale evs tree obls,
       gtReasons = gate_reasons evs tree obls, gtEvaluatedAt = mkNow k\<rparr>)"

definition decide_gate :: "mesh_call \<Rightarrow> mesh_change \<Rightarrow> proof_obligation list \<Rightarrow> change_evidence list \<Rightarrow> mesh_store \<Rightarrow> gate_result mesh_result" where
  "decide_gate k c obls evs st =
     (let st2 = gate_effects k c obls evs st; g = gate_record k c obls evs in
      if mkFails k AtSaveGate then (st2, Inl (MeshFailure (plain ''failed to save gate result'')))
      else (SaveGateResult g st2, Inr g))"

text \<open>The tree the store knows is brought up to date, and evidence that no longer applies goes stale.\<close>

definition refresh_tree :: "mesh_config \<Rightarrow> mesh_call \<Rightarrow> string \<Rightarrow> mesh_change \<Rightarrow> mesh_store \<Rightarrow> mesh_change \<times> mesh_store" where
  "refresh_tree mg k tree c st =
     (if tree = mhTree c then (c, st)
      else
        let st1 = InvalidateStaleEvidence mg k (mhID c) tree (mkGateDiff k) st; c1 = c\<lparr>mhTree := tree\<rparr> in
        (c1, attempt k (AtSaveChange ''refresh'') (SaveMeshChange c1) st1))"

definition evaluateGateLocked :: "mesh_config \<Rightarrow> mesh_call \<Rightarrow> string \<Rightarrow> mesh_store \<Rightarrow> gate_result mesh_result" where
  "evaluateGateLocked mg k cid st =
     (case lookup_change k ''gate'' cid st of None \<Rightarrow> (st, Inl (ChangeNotFoundError cid)) | Some c \<Rightarrow>
     (case mkGateTree k of None \<Rightarrow> (st, Inl (MeshFailure (plain ''failed to compute tree hash''))) | Some tree \<Rightarrow>
     (case refresh_tree mg k tree c st of (c1, st1) \<Rightarrow>
      if mkFails k (AtGetObligations ''gate'') then (st1, Inl (MeshFailure (plain ''failed to load obligations'')))
      else if mkFails k (AtGetEvidence ''gate'') then (st1, Inl (MeshFailure (plain ''failed to load change evidence'')))
      else decide_gate k c1 (GetProofObligations cid st1) (GetChangeEvidenceForChange cid st1) st1)))"

definition EvaluateGate :: "mesh_config \<Rightarrow> mesh_call \<Rightarrow> string \<Rightarrow> mesh_store \<Rightarrow> gate_result mesh_result" where
  "EvaluateGate mg k cid st = evaluateGateLocked mg k cid st"

subsection \<open>Evidence\<close>

definition review_types :: "string list" where
  "review_types = [''peer_review'', ''security_audit'', ''independent_review'']"

definition submit_guard :: "mesh_call \<Rightarrow> change_evidence \<Rightarrow> mesh_change \<Rightarrow> mesh_error option" where
  "submit_guard k e c =
     err_then (require (\<not> finalized (mhStatus c))
       (MeshFailure (Msg ''cannot submit evidence for finalized change in status %q'' [AS (status_name (mhStatus c))])))
    (err_then (require (veType e \<notin> set review_types \<or> veSource e \<noteq> mhAuthor c)
       (SelfReviewForbiddenError (veSource e) (mhID c)))
      (case mkTree k of
         None \<Rightarrow> Some (MeshFailure (plain ''failed to compute tree hash''))
       | Some tree \<Rightarrow>
           require (veTree e = mhTree c \<and> tree = mhTree c) (CommitTreeMismatchError (mhID c) (mhTree c) tree)))"

definition accepted_evidence :: "mesh_call \<Rightarrow> change_evidence \<Rightarrow> change_evidence" where
  "accepted_evidence k e =
     e\<lparr>veID := (if veID e = [] then ''evi_'' @ mkNano k else veID e), veCreatedAt := mkNow k, veValid := True\<rparr>"

definition result_status :: "change_evidence \<Rightarrow> proof_status" where
  "result_status e = (if veResult e = ''passed'' then ProofPassed else ProofFailed)"

definition mark_obligation :: "mesh_call \<Rightarrow> string \<Rightarrow> string \<Rightarrow> proof_status \<Rightarrow> string \<Rightarrow> mesh_store \<Rightarrow> mesh_store" where
  "mark_obligation k site oid s eid st =
     attempt k (AtUpdateObligation site oid) (UpdateProofObligationStatus oid s eid (mkNow k)) st"

definition submit_effects :: "mesh_call \<Rightarrow> mesh_change \<Rightarrow> change_evidence \<Rightarrow> mesh_store \<Rightarrow> mesh_store" where
  "submit_effects k c e st =
     (let st1 = SaveChangeEvidence e st;
          st2 = (if veObligation e = [] then st1
                 else mark_obligation k ''submit'' (veObligation e) (result_status e) (veID e) st1) in
      if mhStatus c = ChangePrepared \<or> mhStatus c = ChangeDraft
      then attempt k (AtSaveChange ''submit'')
             (SaveMeshChange (c\<lparr>mhStatus := ChangeUnderVerification, mhUpdatedAt := mkNow k\<rparr>)) st2
      else st2)"

definition SubmitEvidence :: "mesh_config \<Rightarrow> mesh_call \<Rightarrow> change_evidence \<Rightarrow> mesh_store \<Rightarrow> gate_result mesh_result" where
  "SubmitEvidence mg k e st =
     (case lookup_change k ''submit'' (veChange e) st of None \<Rightarrow> (st, Inl (ChangeNotFoundError (veChange e))) | Some c \<Rightarrow>
     (case submit_guard k e c of Some err \<Rightarrow> (st, Inl err) | None \<Rightarrow>
      if mkFails k AtSaveEvidence then (st, Inl (MeshFailure (plain ''failed to save change evidence'')))
      else evaluateGateLocked mg k (mhID c) (submit_effects k c (accepted_evidence k e) st)))"

definition proof_exit :: "mesh_call \<Rightarrow> proof_obligation \<Rightarrow> int" where
  "proof_exit k o1 =
     (if pbCommand o1 = [] then pbExpectedExit o1
      else (case mkRun k (pbCommand o1) of (code, failed) \<Rightarrow> if failed \<and> code = 0 then 1 else code))"

definition proof_evidence :: "mesh_call \<Rightarrow> mesh_change \<Rightarrow> string \<Rightarrow> string \<Rightarrow> proof_obligation \<Rightarrow> change_evidence" where
  "proof_evidence k c cid oid o1 =
     \<lparr>veID = ''evi_'' @ mkNano k, veChange = cid, veObligation = oid, veTree = mhTree c, veSource = ''harnessmesh'',
      veAdapter = ''builtin'', veType = pbType o1, veCommand = pbCommand o1, veExit = Some (proof_exit k o1),
      veResult = (if proof_exit k o1 = pbExpectedExit o1 then ''passed'' else ''failed''), veArtifact = [],
      veValid = True, veInvalidatedAt = None, veReason = None, veCreatedAt = mkNow k\<rparr>"

definition cached_proof :: "mesh_call \<Rightarrow> mesh_change \<Rightarrow> string \<Rightarrow> mesh_store \<Rightarrow> change_evidence option" where
  "cached_proof k c oid st =
     (if mkFails k (AtGetEvidence ''cache'') then None
      else List.find (\<lambda>e. veValid e \<and> veTree e = mhTree c \<and> veResult e = ''passed'') (GetChangeEvidenceForObligation oid st))"

definition ExecuteProof :: "mesh_config \<Rightarrow> mesh_call \<Rightarrow> string \<Rightarrow> string \<Rightarrow> mesh_store \<Rightarrow> change_evidence mesh_result" where
  "ExecuteProof mg k cid oid st =
     (case lookup_change k ''proof'' cid st of None \<Rightarrow> (st, Inl (ChangeNotFoundError cid)) | Some c \<Rightarrow>
     (case (if mkFails k AtGetObligation then None else GetProofObligation oid st) of
        None \<Rightarrow> (st, Inl (ProofObligationNotFoundError oid)) | Some o1 \<Rightarrow>
     (case mkTree k of None \<Rightarrow> (st, Inl (MeshFailure (plain ''failed to compute tree hash''))) | Some tree \<Rightarrow>
      if tree \<noteq> mhTree c then (st, Inl (CommitTreeMismatchError (mhID c) (mhTree c) tree))
      else (case cached_proof k c oid st of Some e \<Rightarrow> (st, Inr e) | None \<Rightarrow>
        let st1 = mark_obligation k ''running'' oid ProofRunning [] st; e = proof_evidence k c cid oid o1 in
        if mkFails k AtSaveEvidence then (st1, Inl (MeshFailure (plain ''failed to save generated evidence'')))
        else
          let st2 = mark_obligation k ''proof'' oid (result_status e) (veID e) (SaveChangeEvidence e st1) in
          (fst (evaluateGateLocked mg k cid st2), Inr e)))))"

subsection \<open>Commit and abort\<close>

definition commit_guard :: "mesh_config \<Rightarrow> string \<Rightarrow> mesh_change \<Rightarrow> mesh_error option" where
  "commit_guard mg actor c =
     err_then (require (mhStatus c \<noteq> ChangeAborted) (MeshFailure (Msg ''cannot commit aborted change %q'' [AS (mhID c)])))
    (err_then (require (mhStatus c = ChangeCommittable \<or> mhStatus c = ChangeVerified)
       (ChangeNotCommittableError (mhID c) (mhStatus c)))
    (err_then (not_author mg ''commit_change'' actor c) (requireWritableExecutor mg (mhAuthor c) ''commit_change'')))"

definition CommitChange :: "mesh_config \<Rightarrow> mesh_call \<Rightarrow> string \<Rightarrow> string \<Rightarrow> mesh_store \<Rightarrow> mesh_change mesh_result" where
  "CommitChange mg k cid actor st =
     (case lookup_change k ''commit'' cid st of None \<Rightarrow> (st, Inl (ChangeNotFoundError cid)) | Some c \<Rightarrow>
      if mhStatus c = ChangeCommitted then (st, Inr c)
      else (case commit_guard mg actor c of Some e \<Rightarrow> (st, Inl e) | None \<Rightarrow>
     (case mkTree k of None \<Rightarrow> (st, Inl (MeshFailure (plain ''failed to verify tree hash before commit''))) | Some tree \<Rightarrow>
      if tree \<noteq> mhTree c \<or> mhVerified c \<noteq> [] \<and> tree \<noteq> mhVerified c
      then (st, Inl (CommitTreeMismatchError (mhID c) (mhVerified c) tree))
      else
        let hash = (case mkGit k of Some h \<Rightarrow> h | None \<Rightarrow> []);
            c1 = c\<lparr>mhStatus := ChangeCommitted,
                   mhCommit := (if hash = [] then ''commit_'' @ take 8 (mhTree c) @ ''_'' @ mkSeconds k else hash),
                   mhCommittedAt := Some (mkNow k), mhUpdatedAt := mkNow k\<rparr> in
        if mkFails k (AtSaveChange ''commit'') then (st, Inl (MeshFailure (plain ''failed to save committed change'')))
        else (SaveMeshChange c1 st, Inr c1))))"

definition AbortChange :: "mesh_config \<Rightarrow> mesh_call \<Rightarrow> string \<Rightarrow> string \<Rightarrow> mesh_store \<Rightarrow> mesh_change mesh_result" where
  "AbortChange mg k cid actor st =
     (case lookup_change k ''abort'' cid st of None \<Rightarrow> (st, Inl (ChangeNotFoundError cid)) | Some c \<Rightarrow>
     (case not_author mg ''abort_change'' actor c of Some e \<Rightarrow> (st, Inl e) | None \<Rightarrow>
      if mhStatus c = ChangeCommitted then (st, Inl (MeshFailure (Msg ''cannot abort already committed change %q'' [AS cid])))
      else
        let c1 = c\<lparr>mhStatus := ChangeAborted, mhAbortedAt := Some (mkNow k), mhUpdatedAt := mkNow k\<rparr> in
        if mkFails k (AtSaveChange ''abort'') then (st, Inl (MeshFailure (plain ''failed to save aborted change'')))
        else (SaveMeshChange c1 st, Inr c1)))"

subsection \<open>The life of the store\<close>

datatype mesh_event =
    MeshCreate mesh_call create_request
  | MeshPrepare mesh_call string string
  | MeshSubmit mesh_call change_evidence
  | MeshProof mesh_call string string
  | MeshInvalidate mesh_call string string "string list"
  | MeshGate mesh_call string
  | MeshCommit mesh_call string string
  | MeshAbort mesh_call string string

fun mesh_step :: "mesh_config \<Rightarrow> mesh_event \<Rightarrow> mesh_store \<Rightarrow> mesh_store" where
  "mesh_step mg (MeshCreate k r) st = fst (CreateChange mg k r st)"
| "mesh_step mg (MeshPrepare k cid actor) st = fst (PrepareChange mg k cid actor st)"
| "mesh_step mg (MeshSubmit k e) st = fst (SubmitEvidence mg k e st)"
| "mesh_step mg (MeshProof k cid oid) st = fst (ExecuteProof mg k cid oid st)"
| "mesh_step mg (MeshInvalidate k cid tree changed) st = InvalidateStaleEvidence mg k cid tree changed st"
| "mesh_step mg (MeshGate k cid) st = fst (EvaluateGate mg k cid st)"
| "mesh_step mg (MeshCommit k cid actor) st = fst (CommitChange mg k cid actor st)"
| "mesh_step mg (MeshAbort k cid actor) st = fst (AbortChange mg k cid actor st)"

end
