(* ===== verification/MeshGate.thy ===== *)
theory MeshGate
  imports MeshCommit
begin

text \<open>
  What the gate of a change guarantees: the evidence behind every verified tree, its invariance
  under every interleaving of operations with any store failures and any tree history, what a
  commit may rely on, and what the gate decides.
\<close>

subsection \<open>The facts a verdict rests on\<close>

definition obligation_facts :: "mesh_store \<Rightarrow> (string \<times> string \<times> bool) set" where
  "obligation_facts st = (\<lambda>(k, o1). (pbID o1, pbChange o1, pbRequired o1)) ` set (mdObligations st)"

definition evidence_fact :: "change_evidence \<Rightarrow> string \<times> string \<times> string \<times> string \<times> string \<times> string" where
  "evidence_fact e = (veChange e, veObligation e, veTree e, veResult e, veType e, veSource e)"

lemma evidence_fact_valid [simp]:
  "evidence_fact (e\<lparr>veValid := v, veInvalidatedAt := t, veReason := r\<rparr>) = evidence_fact e"
  "evidence_fact (merge_evidence old new) = evidence_fact old"
  by (simp_all add: evidence_fact_def merge_evidence_def)

definition evidence_facts :: "mesh_store \<Rightarrow> (string \<times> string \<times> string \<times> string \<times> string \<times> string) set" where
  "evidence_facts st = (\<lambda>(k, e). evidence_fact e) ` set (mdEvidence st)"

definition vouched :: "mesh_store \<Rightarrow> string \<Rightarrow> string \<Rightarrow> bool" where
  "vouched st i h \<longleftrightarrow>
     (\<exists>oid r. (oid, i, r) \<in> obligation_facts st) \<and>
     (\<forall>oid. (oid, i, True) \<in> obligation_facts st \<longrightarrow>
        (\<exists>ty src. (i, oid, h, ''passed'', ty, src) \<in> evidence_facts st))"

definition change_wf :: "mesh_store \<Rightarrow> string \<Rightarrow> mesh_change \<Rightarrow> bool" where
  "change_wf st i c \<longleftrightarrow> mhID c = i \<and> (mhVerified c \<noteq> [] \<longrightarrow> vouched st i (mhVerified c)) \<and>
     (mhStatus c = ChangeCommittable \<or> mhStatus c = ChangeVerified \<longrightarrow> mhVerified c \<noteq> [])"

definition honest :: "mesh_change \<Rightarrow> string \<Rightarrow> string \<Rightarrow> bool" where
  "honest c ty src \<longleftrightarrow> (ty \<in> set review_types \<longrightarrow> src = ''harnessmesh'' \<or> src \<noteq> mhAuthor c)"

definition mesh_inv :: "mesh_store \<Rightarrow> bool" where
  "mesh_inv st \<longleftrightarrow>
     (\<forall>i c. GetMeshChange i st = Some c \<longrightarrow> change_wf st i c) \<and>
     (\<forall>i oid h res ty src. (i, oid, h, res, ty, src) \<in> evidence_facts st \<longrightarrow>
        (\<exists>c. GetMeshChange i st = Some c \<and> honest c ty src))"

definition same_facts :: "mesh_store \<Rightarrow> mesh_store \<Rightarrow> bool" where
  "same_facts st st' \<longleftrightarrow> mdChanges st' = mdChanges st \<and> obligation_facts st' = obligation_facts st \<and>
     evidence_facts st' = evidence_facts st"

lemma same_facts_refl [simp]: "same_facts st st"
  by (simp add: same_facts_def)

lemma same_facts_trans: "same_facts a b \<Longrightarrow> same_facts b c \<Longrightarrow> same_facts a c"
  by (simp add: same_facts_def)

lemma same_facts_get: "same_facts st st' \<Longrightarrow> GetMeshChange i st' = GetMeshChange i st"
  by (simp add: same_facts_def GetMeshChange_def)

lemma same_facts_vouched: "same_facts st st' \<Longrightarrow> vouched st' i h = vouched st i h"
  by (simp add: same_facts_def vouched_def)

lemma same_facts_inv: "same_facts st st' \<Longrightarrow> mesh_inv st \<Longrightarrow> mesh_inv st'"
  by (simp add: mesh_inv_def change_wf_def same_facts_get same_facts_vouched) (simp add: same_facts_def)

lemma same_facts_fold:
  "(\<And>x s. x \<in> set xs \<Longrightarrow> same_facts s (f x s)) \<Longrightarrow> same_facts st (fold f xs st)"
proof (induction xs arbitrary: st)
  case (Cons x xs)
  have "same_facts st (f x st)" using Cons.prems by simp
  moreover have "same_facts (f x st) (fold f xs (f x st))" using Cons by simp
  ultimately show ?case by (auto intro: same_facts_trans)
qed simp

lemma same_facts_attempt: "same_facts st (f st) \<Longrightarrow> same_facts st (attempt k site f st)"
  by (simp add: attempt_def)

lemma image_update_row:
  "(\<And>r. g k (f r) = g k r) \<Longrightarrow> (\<lambda>(i, r). g i r) ` set (update_row k f rows) = (\<lambda>(i, r). g i r) ` set rows"
  by (induction rows) (auto simp: update_row_def)

lemma image_upsert_known:
  "map_of rows k = Some old \<Longrightarrow> g k (merge old r) = g k old \<Longrightarrow>
    (\<lambda>(i, r). g i r) ` set (upsert merge k r rows) = (\<lambda>(i, r). g i r) ` set rows"
proof (induction rows)
  case (Cons x rows)
  then show ?case by (cases x) (auto simp: upsert_def split: if_splits)
qed simp

lemma image_upsert_new:
  "map_of rows k = None \<Longrightarrow>
    (\<lambda>(i, r). g i r) ` set (upsert merge k r rows) = insert (g k r) ((\<lambda>(i, r). g i r) ` set rows)"
proof (induction rows)
  case (Cons x rows)
  then show ?case by (cases x) (auto simp: upsert_def split: if_splits)
qed (simp add: upsert_def)

lemma same_facts_status: "same_facts st (UpdateProofObligationStatus i s eid now st)"
  unfolding same_facts_def obligation_facts_def evidence_facts_def
  by (simp add: UpdateProofObligationStatus_def image_update_row)

lemma same_facts_invalidate: "same_facts st (InvalidateChangeEvidence i reason now st)"
  unfolding same_facts_def obligation_facts_def evidence_facts_def
  by (simp add: InvalidateChangeEvidence_def image_update_row)

lemma same_facts_gate_result: "same_facts st (SaveGateResult g st)"
  by (simp add: same_facts_def obligation_facts_def evidence_facts_def)

lemma same_facts_paths: "same_facts st (SaveChangePaths ps st)"
  by (simp add: same_facts_def obligation_facts_def evidence_facts_def)

lemmas same_facts_ops = same_facts_status same_facts_invalidate same_facts_gate_result same_facts_paths

lemma same_facts_invalidate_one: "same_facts st (invalidate_one k tree changed e st)"
proof -
  let ?reason = "Msg ''worktree modified (tree %s); overlapping paths: %v'' [AS tree, AL changed]"
  have "same_facts st (attempt k (AtInvalidate (veID e)) (InvalidateChangeEvidence (veID e) ?reason (mkNow k)) st)"
    by (intro same_facts_attempt same_facts_ops)
  then show ?thesis
    by (auto simp: invalidate_one_def Let_def intro: same_facts_trans same_facts_attempt same_facts_ops)
qed

lemma same_facts_stale: "same_facts st (InvalidateStaleEvidence mg k cid tree changed st)"
  by (auto simp: InvalidateStaleEvidence_def Let_def intro!: same_facts_fold same_facts_invalidate_one)

lemma same_facts_verdict: "same_facts st (record_verdict k evs tree o1 st)"
  by (auto simp: record_verdict_def intro!: same_facts_attempt same_facts_ops split: option.splits)

subsection \<open>Changes and evidence written\<close>

lemma facts_save_change [simp]:
  "obligation_facts (SaveMeshChange c st) = obligation_facts st" "evidence_facts (SaveMeshChange c st) = evidence_facts st"
  "vouched (SaveMeshChange c st) i h = vouched st i h"
  by (simp_all add: obligation_facts_def evidence_facts_def vouched_def)

lemma inv_save_change [inv_intros]:
  assumes "mesh_inv st" and "change_wf st (mhID c) c"
  shows "mesh_inv (SaveMeshChange c st)"
  unfolding mesh_inv_def
proof (intro conjI allI impI)
  fix i d
  assume "GetMeshChange i (SaveMeshChange c st) = Some d"
  then show "change_wf (SaveMeshChange c st) i d"
    using assms by (auto simp: mesh_inv_def change_wf_def merge_change_def Let_def split: if_splits option.splits)
next
  fix i oid h res ty src
  assume "(i, oid, h, res, ty, src) \<in> evidence_facts (SaveMeshChange c st)"
  then obtain d where "GetMeshChange i st = Some d" "honest d ty src"
    using assms(1) unfolding mesh_inv_def facts_save_change by blast
  then show "\<exists>d. GetMeshChange i (SaveMeshChange c st) = Some d \<and> honest d ty src"
    by (cases "i = mhID c") (simp_all add: merge_change_def honest_def Let_def)
qed

lemma evidence_facts_save:
  "evidence_facts (SaveChangeEvidence e st) \<subseteq> insert (evidence_fact e) (evidence_facts st)"
  "evidence_facts st \<subseteq> evidence_facts (SaveChangeEvidence e st)"
  "map_of (mdEvidence st) (veID e) = None \<Longrightarrow> evidence_fact e \<in> evidence_facts (SaveChangeEvidence e st)"
proof -
  have new: "evidence_facts (SaveChangeEvidence e st) = insert (evidence_fact e) (evidence_facts st)"
    if "map_of (mdEvidence st) (veID e) = None"
    using that by (simp add: evidence_facts_def SaveChangeEvidence_def image_upsert_new)
  have known: "evidence_facts (SaveChangeEvidence e st) = evidence_facts st"
    if "map_of (mdEvidence st) (veID e) = Some old" for old
    using that by (simp add: evidence_facts_def SaveChangeEvidence_def image_upsert_known)
  show "evidence_facts (SaveChangeEvidence e st) \<subseteq> insert (evidence_fact e) (evidence_facts st)"
    "evidence_facts st \<subseteq> evidence_facts (SaveChangeEvidence e st)"
    "map_of (mdEvidence st) (veID e) = None \<Longrightarrow> evidence_fact e \<in> evidence_facts (SaveChangeEvidence e st)"
    using new known by (cases "map_of (mdEvidence st) (veID e)"; force)+
qed

lemma inv_save_evidence [inv_intros]:
  assumes inv: "mesh_inv st" and c: "GetMeshChange (veChange e) st = Some c" and h: "honest c (veType e) (veSource e)"
  shows "mesh_inv (SaveChangeEvidence e st)"
proof -
  have get: "GetMeshChange i (SaveChangeEvidence e st) = GetMeshChange i st" for i
    by (simp add: GetMeshChange_def)
  have "vouched (SaveChangeEvidence e st) i t" if "vouched st i t" for i t
    using that evidence_facts_save(2) [of st e]
    by (simp add: vouched_def obligation_facts_def subset_eq) blast
  then show ?thesis
    using inv c h evidence_facts_save(1) [of e st]
    unfolding mesh_inv_def change_wf_def get by (fastforce simp: evidence_fact_def)
qed

lemma inv_save_obligation [inv_intros]:
  assumes inv: "mesh_inv st" and c: "\<And>c. GetMeshChange (pbChange o1) st = Some c \<Longrightarrow> mhVerified c = []"
  shows "mesh_inv (SaveProofObligation o1 st)"
proof -
  have get: "GetMeshChange i (SaveProofObligation o1 st) = GetMeshChange i st" for i
    by (simp add: GetMeshChange_def)
  have ev: "evidence_facts (SaveProofObligation o1 st) = evidence_facts st"
    by (simp add: evidence_facts_def)
  have "vouched (SaveProofObligation o1 st) i h" if v: "vouched st i h" and i: "i \<noteq> pbChange o1" for i h
  proof (cases "map_of (mdObligations st) (pbID o1)")
    case None
    have "obligation_facts (SaveProofObligation o1 st) =
        insert (pbID o1, pbChange o1, pbRequired o1) (obligation_facts st)"
      using None by (simp add: obligation_facts_def SaveProofObligation_def image_upsert_new)
    then show ?thesis using v i unfolding vouched_def ev by auto
  next
    case (Some old)
    have "obligation_facts (SaveProofObligation o1 st) = obligation_facts st"
      using Some by (simp add: obligation_facts_def SaveProofObligation_def image_upsert_known merge_obligation_def)
    then show ?thesis using v unfolding vouched_def ev by simp
  qed
  note v = this
  show ?thesis unfolding mesh_inv_def get ev
  proof (intro conjI allI impI)
    fix i d assume d: "GetMeshChange i st = Some d"
    with inv have "change_wf st i d" by (simp add: mesh_inv_def)
    moreover have "vouched (SaveProofObligation o1 st) i (mhVerified d)" if "mhVerified d \<noteq> []"
      using that \<open>change_wf st i d\<close> c d by (intro v) (auto simp: change_wf_def)
    ultimately show "change_wf (SaveProofObligation o1 st) i d" by (simp add: change_wf_def)
  next
    fix i oid h res ty src
    assume "(i, oid, h, res, ty, src) \<in> evidence_facts st"
    with inv show "\<exists>d. GetMeshChange i st = Some d \<and> honest d ty src"
      unfolding mesh_inv_def by blast
  qed
qed

subsection \<open>Every operation keeps the invariant\<close>

lemma get_wf: "mesh_inv st \<Longrightarrow> GetMeshChange i st = Some c \<Longrightarrow> change_wf st i c"
  by (simp add: mesh_inv_def)

lemma lookup_get: "lookup_change k site i st = Some c \<Longrightarrow> GetMeshChange i st = Some c"
  by (simp add: lookup_change_def split: if_splits)

lemma inv_attempt [inv_intros]: "mesh_inv st \<Longrightarrow> mesh_inv (f st) \<Longrightarrow> mesh_inv (attempt k site f st)"
  by (simp add: attempt_def)

lemma save_obligations_inv:
  assumes "mesh_inv st" and "\<And>o1. o1 \<in> set os \<Longrightarrow> pbChange o1 = cid"
    and "\<And>c. GetMeshChange cid st = Some c \<Longrightarrow> mhVerified c = []"
  shows "mesh_inv (fst (save_obligations k os st))"
  using assms
proof (induction os arbitrary: st)
  case (Cons o1 os)
  have "mesh_inv (SaveProofObligation o1 st)"
    using Cons.prems by (intro inv_save_obligation) auto
  then have "mesh_inv (fst (save_obligations k os (SaveProofObligation o1 st)))"
    using Cons.prems by (intro Cons.IH) (auto simp: GetMeshChange_def)
  then show ?case using Cons.prems(1) by simp
qed simp

lemma create_inv [inv_intros]: "mesh_inv st \<Longrightarrow> mesh_inv (fst (CreateChange mg k r st))"
proof (cases "create_guard mg r")
  case None
  assume inv: "mesh_inv st"
  show ?thesis
  proof (cases "mkTree k")
    case (Some tree)
    define cid where "cid = (if nrChangeID r = [] then ''chg_'' @ mkNano k else nrChangeID r)"
    define paths where "paths = stamp_paths cid (mkNow k) (case mkDiff k of None \<Rightarrow> [] | Some ps \<Rightarrow> ps)"
    define specs where "specs = change_specs mg (map hpPath paths)"
    define c where "c = new_change mg r cid tree specs (mkNow k)"
    have "change_wf st (mhID c) c" by (simp add: change_wf_def c_def new_change_def)
    with inv have saved: "mesh_inv (SaveMeshChange c st)" by (rule inv_save_change)
    moreover have facts: "same_facts (SaveMeshChange c st) (SaveChangePaths paths (SaveMeshChange c st))"
      by (rule same_facts_paths)
    ultimately have "mesh_inv (SaveChangePaths paths (SaveMeshChange c st))" by (rule same_facts_inv [rotated])
    moreover have "GetMeshChange cid (SaveChangePaths paths (SaveMeshChange c st)) = Some d \<Longrightarrow> mhVerified d = []" for d
      using same_facts_get [OF facts] by (auto simp: c_def new_change_def merge_change_def Let_def split: option.splits if_splits)
    ultimately have "mesh_inv (fst (save_obligations k (map (obligation_of cid (mkNow k)) specs)
        (SaveChangePaths paths (SaveMeshChange c st))))"
      by (intro save_obligations_inv [where cid = cid]) (auto simp: obligation_of_def)
    moreover obtain st2 e where run: "save_obligations k (map (obligation_of cid (mkNow k)) specs)
        (SaveChangePaths paths (SaveMeshChange c st)) = (st2, e)" by force
    ultimately have "mesh_inv st2" by simp
    moreover have "fst (CreateChange mg k r st) \<in> {st, SaveMeshChange c st, st2}"
      using None Some run by (cases e) (simp_all add: CreateChange_def Let_def flip: cid_def paths_def specs_def c_def)
    ultimately show ?thesis using inv saved by auto
  qed (use None inv in \<open>simp add: CreateChange_def Let_def\<close>)
qed (simp add: CreateChange_def)

lemma prepare_inv [inv_intros]: "mesh_inv st \<Longrightarrow> mesh_inv (fst (PrepareChange mg k cid actor st))"
proof -
  assume inv: "mesh_inv st"
  have "mesh_inv (SaveMeshChange (c\<lparr>mhTree := t, mhStatus := ChangePrepared, mhUpdatedAt := n\<rparr>) st1)"
    if "same_facts st st1" "lookup_change k ''prepare'' cid st = Some c" for c t n st1
    using get_wf [OF inv lookup_get [OF that(2)]] same_facts_inv [OF that(1) inv] same_facts_vouched [OF that(1)]
    by (intro inv_save_change) (auto simp: change_wf_def)
  moreover have "same_facts st (attempt k AtSavePaths (SaveChangePaths ps) st)" for ps
    by (intro same_facts_attempt same_facts_paths)
  moreover from this have "mesh_inv (attempt k AtSavePaths (SaveChangePaths ps) st)" for ps
    using inv by (rule same_facts_inv)
  ultimately show ?thesis
    using inv by (auto simp: PrepareChange_def Let_def intro: same_facts_inv split: option.splits)
qed

lemma abort_inv [inv_intros]: "mesh_inv st \<Longrightarrow> mesh_inv (fst (AbortChange mg k cid actor st))"
  by (auto simp: AbortChange_def Let_def change_wf_def dest: lookup_get get_wf intro!: inv_save_change split: option.splits)

lemma commit_inv [inv_intros]: "mesh_inv st \<Longrightarrow> mesh_inv (fst (CommitChange mg k cid actor st))"
  by (auto simp: CommitChange_def Let_def change_wf_def dest: lookup_get get_wf intro!: inv_save_change split: option.splits)

lemma invalidate_inv [inv_intros]: "mesh_inv st \<Longrightarrow> mesh_inv (InvalidateStaleEvidence mg k cid tree changed st)"
  by (rule same_facts_inv [OF same_facts_stale])

lemma gate_open_vouched:
  assumes "gate_open (GetChangeEvidenceForChange cid st) tree (GetProofObligations cid st)"
  shows "vouched st cid tree"
proof -
  let ?evs = "GetChangeEvidenceForChange cid st" and ?obls = "GetProofObligations cid st"
  have ob: "(oid, cid, r) \<in> obligation_facts st \<longleftrightarrow> (\<exists>o1\<in>set ?obls. pbID o1 = oid \<and> pbRequired o1 = r)" for oid r
    by (force simp: obligation_facts_def set_GetProofObligations)
  have passing: "\<exists>ty src. (cid, pbID o1, tree, ''passed'', ty, src) \<in> evidence_facts st"
    if "judge ?evs tree o1 = VerdictPassed" for o1
  proof -
    from that obtain e where "e \<in> set ?evs" "veTree e = tree" "veObligation e = pbID o1" "veResult e = ''passed''"
      by (force simp: judge_def Let_def split: if_splits)
    then show ?thesis by (force simp: evidence_facts_def evidence_fact_def set_GetChangeEvidenceForChange)
  qed
  from assms have "?obls \<noteq> []" and req: "\<And>o1. o1 \<in> set ?obls \<Longrightarrow> pbRequired o1 \<Longrightarrow> judge ?evs tree o1 = VerdictPassed"
    by (auto simp: gate_open_def list_all_iff)
  then have "\<exists>o1. o1 \<in> set ?obls" by (simp add: ex_in_conv)
  then show ?thesis using req passing unfolding vouched_def ob by blast
qed

lemma follow_gate_wf:
  assumes "change_wf st i c" and "is_open \<Longrightarrow> vouched st i (mhTree c)" and "mhTree c \<noteq> []" and "follow_gate k is_open c = Some d"
  shows "change_wf st i d" and "mhID d = i"
  using assms by (auto simp: follow_gate_def change_wf_def split: if_splits)

lemma decide_inv:
  assumes inv: "mesh_inv st" and wf: "change_wf st cid c" and tree: "mhTree c \<noteq> []"
  shows "mesh_inv (fst (decide_gate k c (GetProofObligations cid st) (GetChangeEvidenceForChange cid st) st))"
proof -
  let ?evs = "GetChangeEvidenceForChange cid st" and ?obls = "GetProofObligations cid st"
  let ?open = "gate_open ?evs (mhTree c) ?obls"
  define st1 where "st1 = fold (record_verdict k ?evs (mhTree c)) ?obls st"
  have facts: "same_facts st st1" unfolding st1_def by (intro same_facts_fold same_facts_verdict)
  have inv1: "mesh_inv st1" using facts inv by (rule same_facts_inv)
  have "change_wf st1 cid d" "mhID d = cid" if "follow_gate k ?open c = Some d" for d
    using follow_gate_wf [OF wf gate_open_vouched tree that] same_facts_vouched [OF facts] by (auto simp: change_wf_def)
  then have saved: "mesh_inv (SaveMeshChange d st1)" if "follow_gate k ?open c = Some d" for d
    using that inv1 by (intro inv_save_change) auto
  have "mesh_inv (gate_effects k c ?obls ?evs st)"
    using inv1 saved by (auto simp: gate_effects_def Let_def simp flip: st1_def intro: inv_attempt split: option.splits)
  then show ?thesis
    by (auto simp: decide_gate_def Let_def intro: same_facts_inv [OF same_facts_gate_result])
qed

lemma refresh_inv:
  assumes inv: "mesh_inv st" and wf: "change_wf st cid c" and r: "refresh_tree mg k tree c st = (c1, st1)"
  shows "mesh_inv st1" "change_wf st1 cid c1" "mhTree c1 = tree"
proof -
  let ?s = "InvalidateStaleEvidence mg k (mhID c) tree (mkGateDiff k) st"
  have facts: "same_facts st ?s" by (rule same_facts_stale)
  have id: "mhID c = cid" using wf by (simp add: change_wf_def)
  have wf1: "change_wf ?s cid (c\<lparr>mhTree := tree\<rparr>)"
    using wf same_facts_vouched [OF facts] by (simp add: change_wf_def)
  have "mesh_inv (SaveMeshChange (c\<lparr>mhTree := tree\<rparr>) ?s)"
    using same_facts_inv [OF facts inv] wf1 id by (intro inv_save_change) simp_all
  then show "mesh_inv st1" "change_wf st1 cid c1" "mhTree c1 = tree"
    using inv wf wf1 r same_facts_inv [OF facts inv]
    by (auto simp: refresh_tree_def Let_def attempt_def change_wf_def split: if_splits)
qed

lemma evaluate_inv [inv_intros]:
  assumes inv: "mesh_inv st" and tree: "mkGateTree k \<noteq> Some []"
  shows "mesh_inv (fst (evaluateGateLocked mg k cid st))"
proof (cases "lookup_change k ''gate'' cid st")
  case (Some c)
  show ?thesis
  proof (cases "mkGateTree k")
    case [simp]: (Some t)
    obtain c1 st1 where r: "refresh_tree mg k t c st = (c1, st1)" by force
    note ref = refresh_inv [OF inv get_wf [OF inv lookup_get [OF \<open>lookup_change k _ cid st = _\<close>]] r]
    have "mesh_inv (fst (decide_gate k c1 (GetProofObligations cid st1) (GetChangeEvidenceForChange cid st1) st1))"
      using ref tree by (intro decide_inv) auto
    then show ?thesis using \<open>lookup_change k _ cid st = _\<close> r ref(1) by (simp add: evaluateGateLocked_def)
  qed (use Some inv in \<open>simp add: evaluateGateLocked_def\<close>)
qed (use inv in \<open>simp add: evaluateGateLocked_def\<close>)

lemma evaluated_after_effects:
  "mesh_inv st \<Longrightarrow> mkGateTree k \<noteq> Some [] \<Longrightarrow> same_facts st st1 \<Longrightarrow> mesh_inv (fst (evaluateGateLocked mg k cid st1))"
  by (rule evaluate_inv [OF same_facts_inv])

lemma same_facts_mark: "same_facts st (mark_obligation k site oid s eid st)"
  unfolding mark_obligation_def by (intro same_facts_attempt same_facts_ops)

lemma submit_guard_None:
  "submit_guard k e c = None \<longleftrightarrow> \<not> finalized (mhStatus c) \<and> (veType e \<in> set review_types \<longrightarrow> veSource e \<noteq> mhAuthor c) \<and>
     mkTree k = Some (mhTree c) \<and> veTree e = mhTree c"
  by (auto simp: submit_guard_def split: option.splits)

lemma submit_effects_inv:
  assumes inv: "mesh_inv st" and get: "GetMeshChange (veChange e) st = Some c" and h: "honest c (veType e) (veSource e)"
  shows "mesh_inv (submit_effects k c e st)"
proof -
  define st2 where "st2 = (if veObligation e = [] then SaveChangeEvidence e st
      else mark_obligation k ''submit'' (veObligation e) (result_status e) (veID e) (SaveChangeEvidence e st))"
  have facts: "same_facts (SaveChangeEvidence e st) st2" by (simp add: st2_def same_facts_mark)
  have inv2: "mesh_inv st2"
    by (rule same_facts_inv [OF facts inv_save_evidence [OF inv get h]])
  have "GetMeshChange (veChange e) st2 = Some c"
    using get same_facts_get [OF facts, of "veChange e"] by (simp add: GetMeshChange_def)
  from get_wf [OF inv2 this] show ?thesis
    using inv2 by (auto simp: submit_effects_def change_wf_def simp flip: st2_def intro!: inv_attempt inv_save_change)
qed

lemma submit_inv [inv_intros]:
  assumes inv: "mesh_inv st" and tree: "mkGateTree k \<noteq> Some []"
  shows "mesh_inv (fst (SubmitEvidence mg k e st))"
proof -
  have "mesh_inv (fst (evaluateGateLocked mg k (mhID c) (submit_effects k c (accepted_evidence k e) st)))"
    if c: "lookup_change k ''submit'' (veChange e) st = Some c" and g: "submit_guard k e c = None" for c
    using lookup_get [OF c] g inv tree
    by (intro evaluate_inv submit_effects_inv) (auto simp: accepted_evidence_def honest_def submit_guard_None)
  then show ?thesis using inv by (auto simp: SubmitEvidence_def split: option.splits)
qed

lemma proof_inv [inv_intros]:
  assumes inv: "mesh_inv st" and tree: "mkGateTree k \<noteq> Some []"
  shows "mesh_inv (fst (ExecuteProof mg k cid oid st))"
proof -
  let ?st1 = "mark_obligation k ''running'' oid ProofRunning [] st"
  have facts: "same_facts st ?st1" by (rule same_facts_mark)
  have inv1: "mesh_inv ?st1" using facts inv by (rule same_facts_inv)
  have "mesh_inv (fst (evaluateGateLocked mg k cid (mark_obligation k ''proof'' oid s eid
      (SaveChangeEvidence (proof_evidence k c cid oid o1) ?st1))))"
    if c: "lookup_change k ''proof'' cid st = Some c" for c o1 s eid
  proof -
    have "mesh_inv (SaveChangeEvidence (proof_evidence k c cid oid o1) ?st1)"
      using inv1 lookup_get [OF c] same_facts_get [OF facts]
      by (intro inv_save_evidence) (auto simp: proof_evidence_def honest_def)
    then show ?thesis using tree by (rule evaluated_after_effects [OF _ _ same_facts_mark])
  qed
  then show ?thesis using inv inv1 by (auto simp: ExecuteProof_def Let_def split: option.splits)
qed

subsection \<open>Reachable stores\<close>

text \<open>The hash of a working tree is never the empty string.\<close>

fun tree_known :: "mesh_event \<Rightarrow> bool" where
  "tree_known (MeshSubmit k e) \<longleftrightarrow> mkGateTree k \<noteq> Some []"
| "tree_known (MeshProof k cid oid) \<longleftrightarrow> mkGateTree k \<noteq> Some []"
| "tree_known (MeshGate k cid) \<longleftrightarrow> mkGateTree k \<noteq> Some []"
| "tree_known _ \<longleftrightarrow> True"

definition known_step :: "mesh_config \<Rightarrow> mesh_event \<Rightarrow> mesh_store \<Rightarrow> mesh_store" where
  "known_step mg e st = (if tree_known e then mesh_step mg e st else st)"

interpretation mesh_life: state_machine "known_step mg" mesh_inv for mg
proof unfold_locales
  fix e st
  assume "mesh_inv st"
  then show "mesh_inv (known_step mg e st)"
    by (cases e) (auto simp: known_step_def EvaluateGate_def intro: inv_intros)
qed

lemma known_run: "\<forall>e\<in>set es. tree_known e \<Longrightarrow> fold (mesh_step mg) es st = fold (known_step mg) es st"
  by (induction es arbitrary: st) (simp_all add: known_step_def)

lemma empty_mesh_inv [simp]: "mesh_inv empty_mesh"
  by (simp add: mesh_inv_def empty_mesh_def GetMeshChange_def evidence_facts_def)

lemma reachable_mesh_inv:
  "\<forall>e\<in>set es. tree_known e \<Longrightarrow> mesh_inv (fold (mesh_step mg) es empty_mesh)"
  using mesh_life.run_inv [of empty_mesh mg es] by (simp add: known_run)

subsection \<open>What every store operation keeps, every operation of the coordinator keeps\<close>

locale mesh_stable =
  fixes P :: "mesh_store \<Rightarrow> bool"
  assumes stable_change: "P st \<Longrightarrow> P (SaveMeshChange c st)"
    and stable_paths: "P st \<Longrightarrow> P (SaveChangePaths ps st)"
    and stable_obligation: "P st \<Longrightarrow> P (SaveProofObligation o1 st)"
    and stable_status: "P st \<Longrightarrow> P (UpdateProofObligationStatus i s eid now st)"
    and stable_evidence: "P st \<Longrightarrow> P (SaveChangeEvidence e st)"
    and stable_invalidate: "P st \<Longrightarrow> P (InvalidateChangeEvidence i reason now st)"
    and stable_gate: "P st \<Longrightarrow> P (SaveGateResult g st)"
begin

lemmas stable = stable_change stable_paths stable_obligation stable_status stable_evidence stable_invalidate stable_gate

lemma stable_attempt: "P st \<Longrightarrow> (P st \<Longrightarrow> P (f st)) \<Longrightarrow> P (attempt k site f st)"
  by (simp add: attempt_def)

lemma stable_fold: "P st \<Longrightarrow> (\<And>x s. P s \<Longrightarrow> P (f x s)) \<Longrightarrow> P (fold f xs st)"
  by (induction xs arbitrary: st) auto

lemma stable_mark: "P st \<Longrightarrow> P (mark_obligation k site oid s eid st)"
  by (simp add: mark_obligation_def attempt_def stable)

lemma stable_stale: "P st \<Longrightarrow> P (InvalidateStaleEvidence mg k cid tree changed st)"
  by (auto simp: InvalidateStaleEvidence_def invalidate_one_def attempt_def Let_def stable intro!: stable_fold)

lemma stable_verdict: "P st \<Longrightarrow> P (record_verdict k evs tree o1 st)"
  by (auto simp: record_verdict_def attempt_def stable split: option.splits)

lemma stable_effects: "P st \<Longrightarrow> P (gate_effects k c obls evs st)"
  by (auto simp: gate_effects_def attempt_def Let_def stable_verdict intro!: stable stable_fold split: option.splits)

lemma stable_refresh: "P st \<Longrightarrow> P (snd (refresh_tree mg k tree c st))"
  by (simp add: refresh_tree_def attempt_def Let_def stable_stale stable)

lemma stable_evaluate: "P st \<Longrightarrow> P (fst (evaluateGateLocked mg k cid st))"
proof -
  assume st: "P st"
  have "P (fst (decide_gate k c obls evs s))" if "P s" for c obls evs s
    using stable_effects [OF that] by (simp add: decide_gate_def Let_def stable)
  moreover have "P s" if "refresh_tree mg k tree c st = (c1, s)" for tree c c1 s
    using stable_refresh [OF st, of mg k tree c] that by simp
  ultimately show ?thesis using st by (auto simp: evaluateGateLocked_def split: option.splits prod.splits)
qed

lemma stable_submit: "P st \<Longrightarrow> P (fst (SubmitEvidence mg k e st))"
proof -
  assume st: "P st"
  have "P (submit_effects k c e1 st)" for c e1
    using st by (auto simp: submit_effects_def attempt_def Let_def stable stable_mark)
  then show ?thesis using st by (auto simp: SubmitEvidence_def intro: stable_evaluate split: option.splits)
qed

lemma stable_proof: "P st \<Longrightarrow> P (fst (ExecuteProof mg k cid oid st))"
  by (auto simp: ExecuteProof_def Let_def intro!: stable_evaluate stable_mark stable_evidence split: option.splits)

lemma stable_save_obligations: "P st \<Longrightarrow> P (fst (save_obligations k os st))"
  by (induction os arbitrary: st) (auto simp: stable)

lemma stable_create: "P st \<Longrightarrow> P (fst (CreateChange mg k r st))"
proof -
  assume st: "P st"
  have "P s" if "save_obligations k os (SaveChangePaths ps (SaveMeshChange c st)) = (s, e)" for os ps c s e
    using stable_save_obligations [of "SaveChangePaths ps (SaveMeshChange c st)" k os] st that by (simp add: stable)
  then show ?thesis using st by (auto simp: CreateChange_def Let_def stable split: option.splits prod.splits)
qed

lemma step_stable: "P st \<Longrightarrow> P (mesh_step mg e st)"
  by (cases e) (auto simp: EvaluateGate_def stable_create stable_submit stable_proof stable_stale stable_evaluate
      PrepareChange_def CommitChange_def AbortChange_def Let_def attempt_def stable split: option.splits)

lemma run_stable: "P st \<Longrightarrow> P (fold (mesh_step mg) es st)"
  by (induction es arbitrary: st) (auto simp: step_stable)

end

text \<open>Rows are stored under their own identifiers.\<close>

definition keyed :: "mesh_store \<Rightarrow> bool" where
  "keyed st \<longleftrightarrow> (\<forall>i o1. map_of (mdObligations st) i = Some o1 \<longrightarrow> pbID o1 = i) \<and> distinct (map fst (mdObligations st)) \<and>
     (\<forall>i e. map_of (mdEvidence st) i = Some e \<longrightarrow> veID e = i) \<and> distinct (map fst (mdEvidence st))"

interpretation keyed: mesh_stable keyed
  by unfold_locales
    (auto simp: keyed_def SaveProofObligation_def UpdateProofObligationStatus_def SaveChangeEvidence_def
      InvalidateChangeEvidence_def map_of_upsert map_of_update_row merge_obligation_def merge_evidence_def
      distinct_upsert split: if_splits option.splits)

text \<open>What a stored piece of evidence says.\<close>

definition recorded :: "string \<Rightarrow> string \<times> string \<times> string \<times> string \<times> string \<times> string \<Rightarrow> mesh_store \<Rightarrow> bool" where
  "recorded i x st \<longleftrightarrow> (\<exists>e. map_of (mdEvidence st) i = Some e \<and> evidence_fact e = x)"

interpretation recorded: mesh_stable "recorded i x" for i x
  by unfold_locales
    (auto simp: recorded_def SaveChangeEvidence_def InvalidateChangeEvidence_def map_of_upsert map_of_update_row
      split: option.splits)

lemma reachable_keyed: "keyed (fold (mesh_step mg) es empty_mesh)"
  by (rule keyed.run_stable) (simp add: keyed_def empty_mesh_def)

end
