(* ===== verification/MeshProps.thy ===== *)
theory MeshProps
  imports MeshGate "HOL-Library.Multiset"
begin

text \<open>
  The properties of the MeshCommit coordinator, with a concrete change on which they are evaluated.
\<close>

subsection \<open>A concrete change\<close>

definition mesh_sample_config :: mesh_config where
  "mesh_sample_config =
     \<lparr>mgLib = plain_lib, mgPaths = plain_paths,
      mgSettings = Some \<lparr>meAgents = [(''ann'', \<lparr>axMode = ''managed'', axWritable = True\<rparr>)],
                         meControl = \<lparr>ctDefaults = None, ctRules = []\<rparr>\<rparr>,
      mgWriter = (\<lambda>_. None), mgEncode = (\<lambda>_. ''[]'')\<rparr>"

definition calm :: "int \<Rightarrow> string \<Rightarrow> string \<Rightarrow> mesh_call" where
  "calm now nano tree =
     \<lparr>mkNow = now, mkNano = nano, mkSeconds = nano, mkTree = Some tree, mkGateTree = Some tree, mkDiff = Some [],
      mkGateDiff = [''a.go''], mkRun = (\<lambda>_. (0, False)), mkGit = Some ''abc'', mkFails = (\<lambda>_. False)\<rparr>"

definition sample_create :: create_request where
  "sample_create = \<lparr>nrChangeID = ''c'', nrSpace = [], nrSession = [], nrRepository = [], nrAuthor = ''ann'',
     nrTitle = ''t'', nrIntent = [], nrBaseCommit = []\<rparr>"

definition tests_obl :: string where "tests_obl = ''obl_c_Unit Tests''"

definition review_obl :: string where "review_obl = ''obl_c_Independent Peer Review''"

definition sample_evidence :: "string \<Rightarrow> string \<Rightarrow> string \<Rightarrow> change_evidence" where
  "sample_evidence src ty oid =
     \<lparr>veID = ''v'' @ src @ oid, veChange = ''c'', veObligation = oid, veTree = ''T1'', veSource = src, veAdapter = [],
      veType = ty, veCommand = [], veExit = None, veResult = ''passed'', veArtifact = [], veValid = False,
      veInvalidatedAt = None, veReason = None, veCreatedAt = 0\<rparr>"

definition reviewed_events :: "mesh_event list" where
  "reviewed_events =
     [MeshCreate (calm 1 ''1'' ''T1'') sample_create, MeshProof (calm 2 ''2'' ''T1'') ''c'' tests_obl,
      MeshSubmit (calm 3 ''3'' ''T1'') (sample_evidence ''bob'' ''peer_review'' review_obl)]"

definition reviewed_mesh :: mesh_store where
  "reviewed_mesh = fold (mesh_step mesh_sample_config) reviewed_events empty_mesh"

text \<open>The rows after the review, computed once.\<close>

lemma reviewed_mesh_value: "reviewed_mesh =
   \<lparr>mdChanges =
    [(''c'',
      \<lparr>mhID = ''c'', mhSession = [], mhSpace = [], mhRepository = [],
         mhTitle = ''t'', mhIntent = [], mhAuthor = ''ann'',
         mhBaseCommit = [], mhBaseTree = ''T1'', mhTree = ''T1'',
         mhVerified = ''T1'', mhStatus = ChangeCommittable,
         mhPolicy = ''[]'', mhPolicySource = ''config'', mhCommit = [],
         mhCreatedAt = 1, mhUpdatedAt = 3, mhCommittedAt = None,
         mhAbortedAt = None\<rparr>)],
    mdPaths = [],
    mdObligations =
      [(''obl_c_Unit Tests'',
        \<lparr>pbID = ''obl_c_Unit Tests'', pbChange = ''c'',
           pbType = ''unit_tests'', pbName = ''Unit Tests'',
           pbDescription =
             ''Execute repository test suite via go test ./...'',
           pbRequired = True, pbStatus = ProofPassed,
           pbPolicySource = ''policy'', pbScope = [], pbCapability = [],
           pbParticipant = [], pbCommand = ''go test ./...'',
           pbExpectedExit = 0, pbFreshness = ''exact_tree'',
           pbEvidence = [], pbWaivedBy = [], pbWaivedReason = [],
           pbCreatedAt = 1, pbUpdatedAt = 3\<rparr>),
       (''obl_c_Independent Peer Review'',
        \<lparr>pbID = ''obl_c_Independent Peer Review'', pbChange = ''c'',
           pbType = ''independent_review'',
           pbName = ''Independent Peer Review'',
           pbDescription =
             ''Multi-finding review performed by an independent peer participant'',
           pbRequired = True, pbStatus = ProofPassed,
           pbPolicySource = ''policy'', pbScope = [],
           pbCapability = ''review'', pbParticipant = [], pbCommand = [],
           pbExpectedExit = 0, pbFreshness = ''exact_tree'',
           pbEvidence = [], pbWaivedBy = [], pbWaivedReason = [],
           pbCreatedAt = 1, pbUpdatedAt = 3\<rparr>)],
    mdEvidence =
      [(''evi_2'',
        \<lparr>veID = ''evi_2'', veChange = ''c'',
           veObligation = ''obl_c_Unit Tests'', veTree = ''T1'',
           veSource = ''harnessmesh'', veAdapter = ''builtin'',
           veType = ''unit_tests'', veCommand = ''go test ./...'',
           veExit = Some 0, veResult = ''passed'', veArtifact = [],
           veValid = True, veInvalidatedAt = None, veReason = None,
           veCreatedAt = 2\<rparr>),
       (''vbobobl_c_Independent Peer Review'',
        \<lparr>veID = ''vbobobl_c_Independent Peer Review'', veChange = ''c'',
           veObligation = ''obl_c_Independent Peer Review'',
           veTree = ''T1'', veSource = ''bob'', veAdapter = [],
           veType = ''peer_review'', veCommand = [], veExit = None,
           veResult = ''passed'', veArtifact = [], veValid = True,
           veInvalidatedAt = None, veReason = None, veCreatedAt = 3\<rparr>)],
    mdGates =
      [(''gate_c_2'',
        \<lparr>gtID = ''gate_c_2'', gtChange = ''c'', gtStatus = GateBlocked,
           gtTree = ''T1'', gtVerified = [],
           gtPassed = [''obl_c_Unit Tests''],
           gtPending = [''obl_c_Independent Peer Review''], gtFailed = [],
           gtStale = [],
           gtReasons =
             [Msg ''required obligation %q (%s) is pending evidence''
               [AS ''Independent Peer Review'',
                AS ''obl_c_Independent Peer Review'']],
           gtEvaluatedAt = 2\<rparr>),
       (''gate_c_3'',
        \<lparr>gtID = ''gate_c_3'', gtChange = ''c'', gtStatus = GateCommittable,
           gtTree = ''T1'', gtVerified = ''T1'',
           gtPassed =
             [''obl_c_Unit Tests'', ''obl_c_Independent Peer Review''],
           gtPending = [], gtFailed = [], gtStale = [], gtReasons = [],
           gtEvaluatedAt = 3\<rparr>)]\<rparr>"
  by code_simp

lemma reviewed_known: "\<forall>e\<in>set reviewed_events. tree_known e"
  by (simp add: reviewed_events_def calm_def)

subsection \<open>What a commit may rely on\<close>

lemma commit_rests_on_evidence:
  assumes "\<forall>e\<in>set es. tree_known e" and "st = fold (mesh_step mg) es empty_mesh"
    and "GetMeshChange cid st = Some c" and "mhStatus c \<noteq> ChangeCommitted"
    and "CommitChange mg k cid actor st = (st', Inr c')"
  shows "mkTree k = Some (mhVerified c)" and "mhVerified c \<noteq> []" and "mhTree c' = mhVerified c"
    and "requireWritableExecutor mg (mhAuthor c) ''commit_change'' = None" and "blank mg actor \<or> actor = mhAuthor c"
    and "GetProofObligations cid st \<noteq> []"
    and "\<forall>o1\<in>set (GetProofObligations cid st). pbRequired o1 \<longrightarrow>
      (\<exists>e\<in>set (GetChangeEvidenceForChange cid st). veObligation e = pbID o1 \<and> veTree e = mhVerified c \<and>
         veResult e = ''passed'' \<and> honest c (veType e) (veSource e))"
proof -
  have inv: "mesh_inv st" unfolding assms(2) by (rule reachable_mesh_inv [OF assms(1)])
  have look: "lookup_change k ''commit'' cid st = Some c"
    using assms(3,5) by (auto simp: CommitChange_def lookup_change_def split: if_splits)
  have guard: "commit_guard mg actor c = None"
    using assms(4,5) look by (auto simp: CommitChange_def split: option.splits)
  from guard show "requireWritableExecutor mg (mhAuthor c) ''commit_change'' = None" "blank mg actor \<or> actor = mhAuthor c"
    by (simp_all add: commit_guard_def not_author_def)
  have wf: "mhVerified c \<noteq> []" "vouched st cid (mhVerified c)"
    using get_wf [OF inv assms(3)] guard by (auto simp: change_wf_def commit_guard_def)
  show "mhVerified c \<noteq> []" by (rule wf)
  then show "mkTree k = Some (mhVerified c)" "mhTree c' = mhVerified c"
    using assms(4,5) look guard by (auto simp: CommitChange_def Let_def split: option.splits if_splits)
  have ob: "(oid, cid, r) \<in> obligation_facts st \<longleftrightarrow> (\<exists>o1\<in>set (GetProofObligations cid st). pbID o1 = oid \<and> pbRequired o1 = r)"
    for oid r by (force simp: obligation_facts_def set_GetProofObligations)
  show "GetProofObligations cid st \<noteq> []" using wf(2) unfolding vouched_def ob by auto
  have ev: "\<exists>e\<in>set (GetChangeEvidenceForChange cid st). veObligation e = oid \<and> veTree e = h \<and> veResult e = res \<and>
      honest c (veType e) (veSource e)"
    if "(cid, oid, h, res, ty, src) \<in> evidence_facts st" for oid h res ty src
  proof -
    have "honest c ty src" using that inv assms(3) unfolding mesh_inv_def by fastforce
    with that show ?thesis by (force simp: evidence_facts_def evidence_fact_def set_GetChangeEvidenceForChange)
  qed
  show "\<forall>o1\<in>set (GetProofObligations cid st). pbRequired o1 \<longrightarrow>
      (\<exists>e\<in>set (GetChangeEvidenceForChange cid st). veObligation e = pbID o1 \<and> veTree e = mhVerified c \<and>
         veResult e = ''passed'' \<and> honest c (veType e) (veSource e))"
    using wf(2) ev unfolding vouched_def ob by blast
qed

text \<open>
  C2: a commit takes only a verified tree. After any interleaving of operations, store failures
  and changes of the working tree, a commit that goes through finds the working tree equal to the
  verified tree of the change; that tree is not empty, the change owes at least one proof, for each
  required proof there is passing evidence recorded for exactly this tree, review evidence that did
  not come from the built-in runner is by somebody other than the author. Who asks for the commit names the author or
  nobody, and the author passes the check for a writable executor, which the code only makes when agents are configured.
\<close>

theorem commit_only_verified_tree:
  assumes "\<forall>e\<in>set es. tree_known e" and "st = fold (mesh_step mg) es empty_mesh"
    and "GetMeshChange cid st = Some c" and "mhStatus c \<noteq> ChangeCommitted"
    and "CommitChange mg k cid actor st = (st', Inr c')"
  shows "mkTree k = Some (mhVerified c) \<and> mhVerified c \<noteq> [] \<and> mhTree c' = mhVerified c \<and>
    requireWritableExecutor mg (mhAuthor c) ''commit_change'' = None \<and> (blank mg actor \<or> actor = mhAuthor c) \<and>
    GetProofObligations cid st \<noteq> [] \<and>
    (\<forall>o1\<in>set (GetProofObligations cid st). pbRequired o1 \<longrightarrow>
      (\<exists>e\<in>set (GetChangeEvidenceForChange cid st). veObligation e = pbID o1 \<and> veTree e = mhVerified c \<and>
         veResult e = ''passed'' \<and> honest c (veType e) (veSource e)))"
  using commit_rests_on_evidence [OF assms] by (intro conjI)

theorem commit_only_verified_tree_witness:
  "\<exists>c c' st'. GetMeshChange ''c'' reviewed_mesh = Some c \<and>
     CommitChange mesh_sample_config (calm 4 ''4'' ''T1'') ''c'' ''ann'' reviewed_mesh = (st', Inr c') \<and>
     mhStatus c' = ChangeCommitted \<and> mhVerified c = ''T1'' \<and> mkTree (calm 4 ''4'' ''T1'') = Some (mhVerified c)"
proof -
  obtain c where c: "GetMeshChange ''c'' reviewed_mesh = Some c"
    and status: "mhStatus c = ChangeCommittable" and tree: "mhVerified c = ''T1''"
  proof -
    have "map_option (\<lambda>c. (mhStatus c, mhVerified c)) (GetMeshChange ''c'' reviewed_mesh) = Some (ChangeCommittable, ''T1'')"
      unfolding reviewed_mesh_value by code_simp
    then show ?thesis using that by auto
  qed
  obtain st' c' where commit: "CommitChange mesh_sample_config (calm 4 ''4'' ''T1'') ''c'' ''ann'' reviewed_mesh = (st', Inr c')"
    and com: "mhStatus c' = ChangeCommitted"
  proof -
    have "map_sum (\<lambda>_. ()) mhStatus (snd (CommitChange mesh_sample_config (calm 4 ''4'' ''T1'') ''c'' ''ann'' reviewed_mesh))
        = Inr ChangeCommitted" unfolding reviewed_mesh_value by code_simp
    then show ?thesis using that
      by (cases "CommitChange mesh_sample_config (calm 4 ''4'' ''T1'') ''c'' ''ann'' reviewed_mesh" rule: prod.exhaust)
        (auto simp: map_sum_def split: sum.splits)
  qed
  have "mkTree (calm 4 ''4'' ''T1'') = Some (mhVerified c)"
    using commit_only_verified_tree [OF reviewed_known reviewed_mesh_def c _ commit] status by simp
  with c commit com tree show ?thesis by blast
qed

subsection \<open>What the gate decides\<close>

definition proved :: "mesh_store \<Rightarrow> string \<Rightarrow> string \<Rightarrow> proof_obligation \<Rightarrow> bool" where
  "proved st cid tree o1 \<longleftrightarrow> (\<exists>e\<in>set (GetChangeEvidenceForChange cid st). veValid e \<and> veTree e = tree \<and>
     veObligation e = pbID o1 \<and> veResult e = ''passed'')"

definition refuted :: "mesh_store \<Rightarrow> string \<Rightarrow> string \<Rightarrow> proof_obligation \<Rightarrow> bool" where
  "refuted st cid tree o1 \<longleftrightarrow> (\<exists>e\<in>set (GetChangeEvidenceForChange cid st). veValid e \<and> veTree e = tree \<and>
     veObligation e = pbID o1 \<and> veResult e = ''failed'')"

lemma judge_passed: "judge (GetChangeEvidenceForChange cid st) tree o1 = VerdictPassed \<longleftrightarrow>
    proved st cid tree o1 \<and> \<not> refuted st cid tree o1"
  by (auto simp: judge_def proved_def refuted_def Let_def image_iff)

lemma verdicts_partition:
  "mset (with_verdict VerdictPassed evs tree obls @ with_verdict VerdictFailed evs tree obls @
     with_verdict VerdictPending evs tree obls @ with_verdict VerdictStale evs tree obls) = mset (map pbID obls)"
proof (induction obls)
  case (Cons o1 obls)
  then show ?case by (cases "judge evs tree o1") (simp_all add: with_verdict_def)
qed (simp add: with_verdict_def)

lemma decide_gate_calm:
  assumes "mkFails k = (\<lambda>_. False)" and "GetMeshChange (mhID c) st = Some d"
  shows "\<exists>st' g. decide_gate k c obls evs st = (st', Inr g) \<and> g = gate_record k c obls evs \<and>
     (gate_open evs (mhTree c) obls \<longrightarrow> (\<exists>c'. GetMeshChange (mhID c) st' = Some c' \<and>
        mhStatus c' = ChangeCommittable \<and> mhVerified c' = mhTree c \<and> mhTree c' = mhTree c \<and>
        mhAuthor c' = mhAuthor d \<and> mhAbortedAt c' = mhAbortedAt c)) \<and>
     (\<not> gate_open evs (mhTree c) obls \<and> mhStatus d = mhStatus c \<longrightarrow> (\<exists>c'. GetMeshChange (mhID c) st' = Some c' \<and>
        mhStatus c' \<notin> {ChangeCommittable, ChangeVerified})) \<and> evidence_facts st' = evidence_facts st"
proof -
  let ?st1 = "fold (record_verdict k evs (mhTree c)) obls st"
  have facts: "same_facts st ?st1" by (intro same_facts_fold same_facts_verdict)
  have get: "GetMeshChange (mhID c) ?st1 = Some d" using assms(2) same_facts_get [OF facts] by simp
  have get2: "GetMeshChange i (SaveGateResult g s) = GetMeshChange i s" for i g s by (simp add: GetMeshChange_def)
  have ev2: "evidence_facts (SaveGateResult g s) = evidence_facts s" for g s by (simp add: evidence_facts_def)
  have "evidence_facts ?st1 = evidence_facts st" using facts by (simp add: same_facts_def)
  then show ?thesis
    using assms(1) get
    by (auto simp: decide_gate_def gate_effects_def follow_gate_def attempt_def Let_def get2 ev2 merge_change_def)
qed

text \<open>
  C14: when no store call fails and the working tree is the one last recorded for the change, the gate answers
  committable if and only if the change owes at least one proof and every required one has valid passing evidence for
  this tree and no valid failing one (with no obligation at all it is blocked); each
  obligation is listed exactly once, as passed, failed, pending or stale; and the stored change is
  committable with this tree as its verified tree, or neither committable nor verified. A gate that finds another tree
  records it first and is not covered here.
\<close>

theorem gate_decides_exactly:
  assumes "GetMeshChange cid st = Some c" and "mhID c = cid"
    and "mkFails k = (\<lambda>_. False)" and "mkGateTree k = Some (mhTree c)"
  defines "obls \<equiv> GetProofObligations cid st"
  shows "\<exists>st' g c'. EvaluateGate mg k cid st = (st', Inr g) \<and> GetMeshChange cid st' = Some c' \<and>
     (gtStatus g = GateCommittable \<longleftrightarrow> obls \<noteq> [] \<and>
        (\<forall>o1\<in>set obls. pbRequired o1 \<longrightarrow> proved st cid (mhTree c) o1 \<and> \<not> refuted st cid (mhTree c) o1)) \<and>
     mset (gtPassed g @ gtFailed g @ gtPending g @ gtStale g) = mset (map pbID obls) \<and>
     set (gtPassed g) = {pbID o1 | o1. o1 \<in> set obls \<and> proved st cid (mhTree c) o1 \<and> \<not> refuted st cid (mhTree c) o1} \<and>
     (if gtStatus g = GateCommittable then mhStatus c' = ChangeCommittable \<and> mhVerified c' = mhTree c
      else gtStatus g = GateBlocked \<and> mhStatus c' \<notin> {ChangeCommittable, ChangeVerified})"
proof -
  let ?evs = "GetChangeEvidenceForChange cid st"
  have look: "lookup_change k ''gate'' cid st = Some c" using assms(1,3) by (simp add: lookup_change_def)
  have run: "EvaluateGate mg k cid st = decide_gate k c obls ?evs st"
    using look assms(3,4) by (simp add: EvaluateGate_def evaluateGateLocked_def refresh_tree_def obls_def)
  have iff: "gate_open ?evs (mhTree c) obls \<longleftrightarrow> obls \<noteq> [] \<and>
      (\<forall>o1\<in>set obls. pbRequired o1 \<longrightarrow> proved st cid (mhTree c) o1 \<and> \<not> refuted st cid (mhTree c) o1)"
    by (auto simp: gate_open_def list_all_iff judge_passed)
  have passed: "set (with_verdict VerdictPassed ?evs (mhTree c) obls) =
      {pbID o1 | o1. o1 \<in> set obls \<and> proved st cid (mhTree c) o1 \<and> \<not> refuted st cid (mhTree c) o1}"
    by (auto simp: with_verdict_def judge_passed)
  define g where "g = gate_record k c obls ?evs"
  have fields: "gtStatus g = (if gate_open ?evs (mhTree c) obls then GateCommittable else GateBlocked)"
    "gtPassed g = with_verdict VerdictPassed ?evs (mhTree c) obls" "gtFailed g = with_verdict VerdictFailed ?evs (mhTree c) obls"
    "gtPending g = with_verdict VerdictPending ?evs (mhTree c) obls" "gtStale g = with_verdict VerdictStale ?evs (mhTree c) obls"
    by (simp_all add: g_def gate_record_def Let_def)
  from decide_gate_calm [OF assms(3), of c st c obls ?evs] assms(1,2) obtain st' where
    st': "decide_gate k c obls ?evs st = (st', Inr g)"
    and yes: "gate_open ?evs (mhTree c) obls \<Longrightarrow> \<exists>c'. GetMeshChange cid st' = Some c' \<and>
        mhStatus c' = ChangeCommittable \<and> mhVerified c' = mhTree c"
    and no: "\<not> gate_open ?evs (mhTree c) obls \<Longrightarrow> \<exists>c'. GetMeshChange cid st' = Some c' \<and>
        mhStatus c' \<notin> {ChangeCommittable, ChangeVerified}"
    unfolding g_def by auto
  from yes no obtain c' where c': "GetMeshChange cid st' = Some c'"
    "if gate_open ?evs (mhTree c) obls then mhStatus c' = ChangeCommittable \<and> mhVerified c' = mhTree c
     else mhStatus c' \<notin> {ChangeCommittable, ChangeVerified}" by (cases "gate_open ?evs (mhTree c) obls") auto
  have "mset (gtPassed g @ gtFailed g @ gtPending g @ gtStale g) = mset (map pbID obls)"
    unfolding fields by (rule verdicts_partition)
  then show ?thesis
    using st' c' fields iff passed unfolding run
    by (intro exI [of _ st'] exI [of _ g] exI [of _ c'] conjI) (simp_all split: if_splits)
qed

text \<open>The sample change, as it stands after the review.\<close>

lemma reviewed_change:
  obtains c where "GetMeshChange ''c'' reviewed_mesh = Some c" "mhID c = ''c''" "mhTree c = ''T1''" "mhAuthor c = ''ann''"
    "mhStatus c = ChangeCommittable"
proof -
  have "map_option (\<lambda>c. (mhID c, mhTree c, mhAuthor c, mhStatus c)) (GetMeshChange ''c'' reviewed_mesh) =
      Some (''c'', ''T1'', ''ann'', ChangeCommittable)" unfolding reviewed_mesh_value by code_simp
  then show ?thesis using that by auto
qed

theorem gate_decides_exactly_witness:
  "\<exists>st' g. EvaluateGate mesh_sample_config (calm 5 ''5'' ''T1'') ''c'' reviewed_mesh = (st', Inr g) \<and>
     mset (gtPassed g @ gtFailed g @ gtPending g @ gtStale g) = {#tests_obl, review_obl#} \<and>
     gtStatus g = GateCommittable"
proof -
  obtain c where c: "GetMeshChange ''c'' reviewed_mesh = Some c" "mhID c = ''c''" "mhTree c = ''T1''"
    by (rule reviewed_change)
  have calm: "mkFails (calm 5 ''5'' ''T1'') = (\<lambda>_. False)" "mkGateTree (calm 5 ''5'' ''T1'') = Some (mhTree c)"
    by (simp_all add: calm_def c(3))
  have ids: "map pbID (GetProofObligations ''c'' reviewed_mesh) = [tests_obl, review_obl]" unfolding reviewed_mesh_value by code_simp
  have "map_sum (\<lambda>_. ()) gtStatus (snd (EvaluateGate mesh_sample_config (calm 5 ''5'' ''T1'') ''c'' reviewed_mesh)) =
      Inr GateCommittable" unfolding reviewed_mesh_value by code_simp
  with gate_decides_exactly [OF c(1,2) calm, of mesh_sample_config] ids show ?thesis by auto
qed

subsection \<open>A tree change closes the gate\<close>

lemma invalidate_one_rows:
  assumes "mkFails k = (\<lambda>_. False)"
  shows "map_of (mdEvidence (invalidate_one k tree changed e st)) i =
    (if i = veID e
     then map_option (\<lambda>x. x\<lparr>veValid := False, veInvalidatedAt := Some (mkNow k),
            veReason := Some (Msg ''worktree modified (tree %s); overlapping paths: %v'' [AS tree, AL changed])\<rparr>)
            (map_of (mdEvidence st) i)
     else map_of (mdEvidence st) i)"
  using assms by (simp add: invalidate_one_def attempt_def Let_def InvalidateChangeEvidence_def map_of_update_row)

lemma still_valid_untouched:
  assumes "mkFails k = (\<lambda>_. False)"
    and "map_of (mdEvidence (fold (\<lambda>e st. if P e then invalidate_one k tree changed e st else st) xs st)) i = Some e"
    and "veValid e"
  shows "map_of (mdEvidence st) i = Some e \<and> (\<forall>x\<in>set xs. P x \<longrightarrow> veID x \<noteq> i)"
  using assms(2)
proof (induction xs arbitrary: st)
  case (Cons x xs)
  then have "map_of (mdEvidence (if P x then invalidate_one k tree changed x st else st)) i = Some e"
    and rest: "\<forall>x\<in>set xs. P x \<longrightarrow> veID x \<noteq> i" by auto
  then show ?case using assms(3)
    by (cases "map_of (mdEvidence st) i") (auto simp: invalidate_one_rows [OF assms(1)] split: if_splits)
qed simp

lemma keyed_obligation: "keyed st \<Longrightarrow> o1 \<in> snd ` set (mdObligations st) \<Longrightarrow> map_of (mdObligations st) (pbID o1) = Some o1"
  unfolding keyed_def using rows_by_key [of "mdObligations st" o1] by metis

lemma repo_wide_evidence_stale:
  assumes keys: "keyed st" and calm: "mkFails k = (\<lambda>_. False)"
    and o1: "o1 \<in> set (GetProofObligations cid st)" "pbScope o1 = []"
    and e: "e \<in> set (GetChangeEvidenceForChange cid (InvalidateStaleEvidence mg k cid tree changed st))"
      "veObligation e = pbID o1"
  shows "\<not> veValid e"
proof
  assume valid: "veValid e"
  let ?stale = "\<lambda>x. veValid x \<and> goes_stale mg (GetProofObligations cid st) changed x"
  let ?st1 = "InvalidateStaleEvidence mg k cid tree changed st"
  have run: "?st1 = fold (\<lambda>x s. if ?stale x then invalidate_one k tree changed x s else s) (GetChangeEvidenceForChange cid st) st"
    using calm by (simp add: InvalidateStaleEvidence_def)
  have "keyed ?st1" by (rule keyed.stable_stale [OF keys])
  with e(1) obtain i where i: "map_of (mdEvidence ?st1) i = Some e"
    by (auto simp: keyed_def set_GetChangeEvidenceForChange rows_by_key)
  from still_valid_untouched [OF calm i [unfolded run] valid] have old: "map_of (mdEvidence st) i = Some e"
    and none: "\<forall>x\<in>set (GetChangeEvidenceForChange cid st). ?stale x \<longrightarrow> veID x \<noteq> i" by auto
  have "e \<in> set (GetChangeEvidenceForChange cid st)"
    using old e(1) keys by (auto simp: keyed_def set_GetChangeEvidenceForChange rows_by_key)
  moreover have "veID e = i" using old keys by (simp add: keyed_def)
  moreover have "pbScope o2 = []"
    if "map_of (map (\<lambda>o1. (pbID o1, o1)) (GetProofObligations cid st)) (pbID o1) = Some o2" for o2
  proof -
    from map_of_SomeD [OF that] have "o2 \<in> snd ` set (mdObligations st)" "pbID o2 = pbID o1"
      by (auto simp: set_GetProofObligations)
    moreover have "o1 \<in> snd ` set (mdObligations st)" using o1(1) by (auto simp: set_GetProofObligations)
    ultimately have "o2 = o1" using keyed_obligation [OF keys] by (metis option.inject)
    with o1(2) show ?thesis by simp
  qed
  ultimately show False using none valid e(2) by (auto simp: goes_stale_def split: option.splits)
qed

text \<open>
  A changed tree closes the gate. When the working tree differs from the one the change was
  last seen at and the change owes a required proof for the whole repository, an evaluation without
  store failures answers blocked, whatever evidence had been collected; the change now stands at the
  new tree, is not committable, and no earlier evidence for that proof is valid any more.
\<close>

theorem tree_change_closes_gate:
  assumes "st = fold (mesh_step mg) es empty_mesh" and "\<forall>e\<in>set es. tree_known e"
    and "GetMeshChange cid st = Some c" and "mkFails k = (\<lambda>_. False)" and "mkGateTree k = Some tree" and "tree \<noteq> mhTree c"
    and "o1 \<in> set (GetProofObligations cid st)" and "pbRequired o1" and "pbScope o1 = []"
  shows "\<exists>st' g c'. EvaluateGate mg k cid st = (st', Inr g) \<and> gtStatus g = GateBlocked \<and> gtTree g = tree \<and>
     GetMeshChange cid st' = Some c' \<and> mhStatus c' \<notin> {ChangeCommittable, ChangeVerified}"
proof -
  have inv: "mesh_inv st" unfolding assms(1) by (rule reachable_mesh_inv [OF assms(2)])
  have keys: "keyed st" unfolding assms(1) by (rule reachable_keyed)
  have id: "mhID c = cid" using get_wf [OF inv assms(3)] by (simp add: change_wf_def)
  let ?s = "InvalidateStaleEvidence mg k cid tree (mkGateDiff k) st" and ?c = "c\<lparr>mhTree := tree\<rparr>"
  let ?st1 = "SaveMeshChange ?c ?s"
  have facts: "same_facts st ?s" by (rule same_facts_stale)
  have look: "lookup_change k ''gate'' cid st = Some c" using assms(3,4) by (simp add: lookup_change_def)
  have run: "EvaluateGate mg k cid st =
      decide_gate k ?c (GetProofObligations cid ?st1) (GetChangeEvidenceForChange cid ?st1) ?st1"
    using look assms(4,5,6) id by (simp add: EvaluateGate_def evaluateGateLocked_def refresh_tree_def Let_def attempt_def)
  have evs: "GetChangeEvidenceForChange cid ?st1 = GetChangeEvidenceForChange cid ?s"
    by (simp add: GetChangeEvidenceForChange_def)
  have obls: "obligation_facts ?st1 = obligation_facts st" using facts by (simp add: same_facts_def)
  have "(pbID o1, cid, True) \<in> obligation_facts ?st1"
    unfolding obls using assms(7,8) by (force simp: obligation_facts_def set_GetProofObligations)
  then obtain o2 where o2: "o2 \<in> set (GetProofObligations cid ?st1)" "pbID o2 = pbID o1" "pbRequired o2"
    by (force simp: obligation_facts_def set_GetProofObligations)
  have "\<not> proved ?st1 cid tree o2"
    unfolding proved_def evs using repo_wide_evidence_stale [OF keys assms(4,7,9)] o2(2) by auto
  then have closed: "\<not> gate_open (GetChangeEvidenceForChange cid ?st1) (mhTree ?c) (GetProofObligations cid ?st1)"
    using o2 by (auto simp: gate_open_def list_all_iff judge_passed)
  obtain d where "GetMeshChange (mhID ?c) ?st1 = Some d" "mhStatus d = mhStatus ?c"
    using assms(3) id same_facts_get [OF facts] by (simp add: merge_change_def Let_def)
  from decide_gate_calm [OF assms(4) this(1), of "GetProofObligations cid ?st1" "GetChangeEvidenceForChange cid ?st1"]
    closed this(2) obtain st' g where
    "decide_gate k ?c (GetProofObligations cid ?st1) (GetChangeEvidenceForChange cid ?st1) ?st1 = (st', Inr g)"
    "g = gate_record k ?c (GetProofObligations cid ?st1) (GetChangeEvidenceForChange cid ?st1)"
    "\<exists>c'. GetMeshChange cid st' = Some c' \<and> mhStatus c' \<notin> {ChangeCommittable, ChangeVerified}"
    by (auto simp: id)
  with closed show ?thesis unfolding run by (auto simp: gate_record_def Let_def)
qed

theorem tree_change_closes_gate_witness:
  "\<exists>st' g. EvaluateGate mesh_sample_config (calm 5 ''5'' ''T2'') ''c'' reviewed_mesh = (st', Inr g) \<and>
     gtStatus g = GateBlocked \<and> gtTree g = ''T2''"
proof -
  obtain c where c: "GetMeshChange ''c'' reviewed_mesh = Some c" "mhTree c = ''T1''" by (rule reviewed_change)
  have "list_ex (\<lambda>o1. pbRequired o1 \<and> pbScope o1 = []) (GetProofObligations ''c'' reviewed_mesh)" unfolding reviewed_mesh_value by code_simp
  then obtain o1 where o1: "o1 \<in> set (GetProofObligations ''c'' reviewed_mesh)" "pbRequired o1" "pbScope o1 = []"
    by (auto simp: list_ex_iff)
  have calm: "mkFails (calm 5 ''5'' ''T2'') = (\<lambda>_. False)" "mkGateTree (calm 5 ''5'' ''T2'') = Some ''T2''" "''T2'' \<noteq> mhTree c"
    by (simp_all add: calm_def c(2))
  show ?thesis
    using tree_change_closes_gate [OF reviewed_mesh_def reviewed_known c(1) calm o1] by auto
qed

subsection \<open>Evidence is never rewritten\<close>

text \<open>
  What a stored piece of evidence says (its change, obligation, tree, result, type and source)
  is never rewritten, whatever is submitted later under the same identifier. The other side of it:
  a resubmission cannot correct a result either, and it makes the old record valid again.
\<close>

theorem evidence_never_rewritten:
  assumes "map_of (mdEvidence st) i = Some e"
  shows "(\<exists>e'. map_of (mdEvidence (fold (mesh_step mg) es st)) i = Some e' \<and> veChange e' = veChange e \<and>
     veObligation e' = veObligation e \<and> veTree e' = veTree e \<and> veResult e' = veResult e \<and> veType e' = veType e \<and>
     veSource e' = veSource e) \<and>
    (\<exists>e'. map_of (mdEvidence (SaveChangeEvidence (x\<lparr>veID := i, veValid := True\<rparr>) st)) i = Some e' \<and>
     veValid e' \<and> veResult e' = veResult e \<and> veTree e' = veTree e)"
proof (rule conjI)
  have "recorded i (evidence_fact e) st" using assms by (simp add: recorded_def)
  then have "recorded i (evidence_fact e) (fold (mesh_step mg) es st)" by (rule recorded.run_stable)
  then show "\<exists>e'. map_of (mdEvidence (fold (mesh_step mg) es st)) i = Some e' \<and> veChange e' = veChange e \<and>
     veObligation e' = veObligation e \<and> veTree e' = veTree e \<and> veResult e' = veResult e \<and> veType e' = veType e \<and>
     veSource e' = veSource e"
    by (auto simp: recorded_def evidence_fact_def)
qed (use assms in \<open>simp add: SaveChangeEvidence_def map_of_upsert merge_evidence_def\<close>)

theorem evidence_never_rewritten_witness:
  "\<exists>e'. map_of (mdEvidence (fold (mesh_step mesh_sample_config)
       [MeshSubmit (calm 6 ''6'' ''T1'') ((sample_evidence ''bob'' ''peer_review'' review_obl)\<lparr>veResult := ''failed''\<rparr>)]
       reviewed_mesh)) (''vbob'' @ review_obl) = Some e' \<and> veResult e' = ''passed'' \<and> veSource e' = ''bob''"
proof -
  have "map_option (\<lambda>e. (veResult e, veSource e)) (map_of (mdEvidence reviewed_mesh) (''vbob'' @ review_obl)) =
      Some (''passed'', ''bob'')" unfolding reviewed_mesh_value by code_simp
  then obtain e where e: "map_of (mdEvidence reviewed_mesh) (''vbob'' @ review_obl) = Some e"
    "veResult e = ''passed''" "veSource e = ''bob''" by auto
  show ?thesis
    using conjunct1 [OF evidence_never_rewritten [OF e(1), where mg = mesh_sample_config and
        es = "[MeshSubmit (calm 6 ''6'' ''T1'') ((sample_evidence ''bob'' ''peer_review'' review_obl)\<lparr>veResult := ''failed''\<rparr>)]"]] e
    by auto
qed

subsection \<open>Two ways around the gate\<close>

text \<open>
  A review obligation is passed without any review. The resolved obligations for independent,
  security and architecture review carry no command, and the built-in runner takes an obligation
  without a command as proved: running it records passing review evidence from harnessmesh itself.
\<close>

theorem review_obligation_passes_without_review:
  assumes "sp \<in> set (ResolveProofPolicy lib pl ct affected)"
    and "olType sp \<in> {''independent_review'', ''security_review'', ''architecture_review''}"
    and "GetMeshChange cid st = Some c" and "GetProofObligation oid st = Some o1"
    and "pbCommand o1 = pbCommand (obligation_of cid now sp)"
    and "mkFails k = (\<lambda>_. False)" and "mkTree k = Some (mhTree c)" and "cached_proof k c oid st = None"
    and "map_of (mdEvidence st) (''evi_'' @ mkNano k) = None"
  shows "\<exists>st' e. ExecuteProof mg k cid oid st = (st', Inr e) \<and> veResult e = ''passed'' \<and> veValid e \<and>
     veTree e = mhTree c \<and> veSource e = ''harnessmesh'' \<and> veType e = pbType o1 \<and> recorded (veID e) (evidence_fact e) st'"
proof -
  have "olCommand sp = []"
    using review_spec_command [of "olType sp" pl "olScope sp"] resolved_spec [OF assms(1)] assms(2) by simp
  then have "pbCommand o1 = []" using assms(5) by (simp add: obligation_of_def)
  let ?st1 = "mark_obligation k ''running'' oid ProofRunning [] st" and ?e = "proof_evidence k c cid oid o1"
  let ?st2 = "mark_obligation k ''proof'' oid (result_status ?e) (veID ?e) (SaveChangeEvidence ?e ?st1)"
  have run: "ExecuteProof mg k cid oid st = (fst (evaluateGateLocked mg k cid ?st2), Inr ?e)"
    using assms(3,4,6,7,8) by (simp add: ExecuteProof_def lookup_change_def Let_def)
  have "mdEvidence ?st1 = mdEvidence st" by (simp add: mark_obligation_def attempt_def)
  with assms(9) have "recorded (veID ?e) (evidence_fact ?e) (SaveChangeEvidence ?e ?st1)"
    by (simp add: recorded_def SaveChangeEvidence_def map_of_upsert proof_evidence_def)
  then have "recorded (veID ?e) (evidence_fact ?e) (fst (evaluateGateLocked mg k cid ?st2))"
    by (intro recorded.stable_evaluate recorded.stable_mark)
  then show ?thesis
    using \<open>pbCommand o1 = []\<close> unfolding run by (simp add: proof_evidence_def proof_exit_def)
qed

definition unreviewed_mesh :: mesh_store where
  "unreviewed_mesh = mesh_step mesh_sample_config (MeshCreate (calm 1 ''1'' ''T1'') sample_create) empty_mesh"

theorem review_obligation_passes_without_review_witness:
  "\<exists>st' e. ExecuteProof mesh_sample_config (calm 3 ''3'' ''T1'') ''c'' review_obl unreviewed_mesh = (st', Inr e) \<and>
     veType e = ''independent_review'' \<and> veResult e = ''passed'' \<and> veSource e = ''harnessmesh''"
proof -
  have "map_option mhTree (GetMeshChange ''c'' unreviewed_mesh) = Some ''T1''" by code_simp
  then obtain c where c: "GetMeshChange ''c'' unreviewed_mesh = Some c" "mhTree c = ''T1''" by auto
  have "map_option (\<lambda>o1. (pbCommand o1, pbType o1)) (GetProofObligation review_obl unreviewed_mesh) =
      Some ([], ''independent_review'')" by code_simp
  then obtain o1 where o1: "GetProofObligation review_obl unreviewed_mesh = Some o1" "pbCommand o1 = []"
    "pbType o1 = ''independent_review''" by auto
  have none: "mdEvidence unreviewed_mesh = []" by code_simp
  let ?k = "calm 3 ''3'' ''T1''"
  let ?sp = "spec_of plain_paths ''independent_review'' []"
  have sp: "?sp \<in> set (ResolveProofPolicy plain_lib plain_paths \<lparr>ctDefaults = None, ctRules = []\<rparr> [])"
    "olType ?sp \<in> {''independent_review'', ''security_review'', ''architecture_review''}" by code_simp+
  have "pbCommand o1 = pbCommand (obligation_of ''c'' 0 ?sp)"
    using o1(2) by (simp add: obligation_of_def spec_of_def known_spec_def)
  moreover have "cached_proof ?k c review_obl unreviewed_mesh = None"
    by (simp add: cached_proof_def GetChangeEvidenceForObligation_def none)
  moreover have "mkFails ?k = (\<lambda>_. False)" "mkTree ?k = Some (mhTree c)" by (simp_all add: calm_def c(2))
  ultimately show ?thesis
    using review_obligation_passes_without_review [OF sp c(1) o1(1), of 0 ?k mesh_sample_config] none o1(3) by auto
qed

text \<open>
  Finality does not hold. An aborted or already committed change whose proofs still pass for
  its tree becomes committable again by a mere evaluation of its gate, and the next commit goes
  through, with the time of the abort still on record.
\<close>

theorem finalized_change_committed_again:
  assumes "GetMeshChange cid st = Some c" and "mhID c = cid" and "finalized (mhStatus c)"
    and "mkFails k = (\<lambda>_. False)" and "mkGateTree k = Some (mhTree c)"
    and "gate_open (GetChangeEvidenceForChange cid st) (mhTree c) (GetProofObligations cid st)"
    and "mkFails k2 = (\<lambda>_. False)" and "mkTree k2 = Some (mhTree c)"
    and "requireWritableExecutor mg (mhAuthor c) ''commit_change'' = None"
  shows "\<exists>c1 st2 c2. GetMeshChange cid (fst (EvaluateGate mg k cid st)) = Some c1 \<and> mhStatus c1 = ChangeCommittable \<and>
     CommitChange mg k2 cid (mhAuthor c) (fst (EvaluateGate mg k cid st)) = (st2, Inr c2) \<and>
     mhStatus c2 = ChangeCommitted \<and> mhCommittedAt c2 = Some (mkNow k2) \<and> mhAbortedAt c2 = mhAbortedAt c"
proof -
  let ?evs = "GetChangeEvidenceForChange cid st" and ?obls = "GetProofObligations cid st"
  have look: "lookup_change k ''gate'' cid st = Some c" using assms(1,4) by (simp add: lookup_change_def)
  have run: "EvaluateGate mg k cid st = decide_gate k c ?obls ?evs st"
    using look assms(4,5) by (simp add: EvaluateGate_def evaluateGateLocked_def refresh_tree_def)
  from decide_gate_calm [OF assms(4), of c st c ?obls ?evs] assms(1,2,6) obtain st' c1 where
    "fst (EvaluateGate mg k cid st) = st'" and c1: "GetMeshChange cid st' = Some c1" "mhStatus c1 = ChangeCommittable"
    "mhVerified c1 = mhTree c" "mhTree c1 = mhTree c" "mhAuthor c1 = mhAuthor c" "mhAbortedAt c1 = mhAbortedAt c"
    unfolding run by force
  moreover have "\<exists>st2 c2. CommitChange mg k2 cid (mhAuthor c) st' = (st2, Inr c2) \<and> mhStatus c2 = ChangeCommitted \<and>
      mhCommittedAt c2 = Some (mkNow k2) \<and> mhAbortedAt c2 = mhAbortedAt c"
    using c1 assms(7,8,9)
    by (simp add: CommitChange_def lookup_change_def commit_guard_def not_author_def Let_def)
  ultimately show ?thesis by blast
qed

definition aborted_mesh :: mesh_store where
  "aborted_mesh = fst (AbortChange mesh_sample_config (calm 4 ''4'' ''T1'') ''c'' ''ann'' reviewed_mesh)"

theorem finalized_change_committed_again_witness:
  "\<exists>st2 c2. CommitChange mesh_sample_config (calm 6 ''6'' ''T1'') ''c'' ''ann''
       (fst (EvaluateGate mesh_sample_config (calm 5 ''5'' ''T1'') ''c'' aborted_mesh)) = (st2, Inr c2) \<and>
     mhStatus c2 = ChangeCommitted \<and> mhAbortedAt c2 = Some 4"
proof -
  have "map_option (\<lambda>c. (mhID c, mhTree c, mhAuthor c, mhStatus c, mhAbortedAt c)) (GetMeshChange ''c'' aborted_mesh) =
      Some (''c'', ''T1'', ''ann'', ChangeAborted, Some 4)" unfolding aborted_mesh_def reviewed_mesh_value by code_simp
  then obtain c where c: "GetMeshChange ''c'' aborted_mesh = Some c" "mhID c = ''c''" "mhTree c = ''T1''"
    "mhAuthor c = ''ann''" "mhStatus c = ChangeAborted" "mhAbortedAt c = Some 4" by auto
  have "gate_open (GetChangeEvidenceForChange ''c'' aborted_mesh) ''T1'' (GetProofObligations ''c'' aborted_mesh)"
    unfolding aborted_mesh_def reviewed_mesh_value by code_simp
  then have gate: "gate_open (GetChangeEvidenceForChange ''c'' aborted_mesh) (mhTree c) (GetProofObligations ''c'' aborted_mesh)"
    by (simp add: c(3))
  have "requireWritableExecutor mesh_sample_config ''ann'' ''commit_change'' = None" by code_simp
  then have ok: "requireWritableExecutor mesh_sample_config (mhAuthor c) ''commit_change'' = None" by (simp add: c(4))
  have final: "finalized (mhStatus c)" by (simp add: c(5) finalized_def)
  have calm: "mkFails (calm n m t) = (\<lambda>_. False)" "mkTree (calm n m t) = Some t" "mkGateTree (calm n m t) = Some t"
    for n m t by (simp_all add: calm_def)
  have t: "mkGateTree (calm 5 ''5'' ''T1'') = Some (mhTree c)" "mkTree (calm 6 ''6'' ''T1'') = Some (mhTree c)"
    by (simp_all add: calm_def c(3))
  show ?thesis
    using finalized_change_committed_again [OF c(1,2) final calm(1) t(1) gate calm(1) t(2) ok] c(4,6) by auto
qed

end
