(* ===== verification/SpaceStore.thy ===== *)
theory SpaceStore
  imports MeshStore
begin

text \<open>
  Sessions and collaboration spaces as the SQLite store keeps them (\<open>internal/store/store.go\<close>):
  every statement as its effect on the rows. A table is an association list from the primary key to
  the row. A space keeps its participants and channels in tables of their own, and a copy of its
  state and budget in the session table. The participants' rows of a session and the columns of
  free-form metadata other than the tenant of a space are left out; so are the search archive
  and the event log.
\<close>

subsection \<open>Rows\<close>

text \<open>Token counts are exact integers; costs are exact rationals where the code uses \<open>float64\<close>.\<close>

record budget_status =
  beKnown :: bool
  beStrict :: bool
  beMaxIn :: int
  beUsedIn :: int
  beMaxOut :: int
  beUsedOut :: int
  beMaxTotal :: int
  beUsedTotal :: int
  beMaxCost :: rat
  beUsedCost :: rat

definition no_budget :: budget_status where
  "no_budget = \<lparr>beKnown = False, beStrict = False, beMaxIn = 0, beUsedIn = 0, beMaxOut = 0, beUsedOut = 0,
     beMaxTotal = 0, beUsedTotal = 0, beMaxCost = 0, beUsedCost = 0\<rparr>"

record engine_session =
  ssID :: string
  ssTenant :: string
  ssRepo :: string
  ssTask :: string
  ssStatus :: string
  ssStop :: string
  ssWriter :: string
  ssBudget :: budget_status
  ssCreatedAt :: int

datatype space_state = SpaceActive | SpacePaused | SpaceStopped | SpaceArchived

datatype participant_mode = ModeActive | ModePassive | ModeOnDemand | ModePaused | ModeOther string

datatype channel_visibility = VisibleUnset | VisibleAll | VisibleParticipants | VisibleCapabilities | VisibleOther string

record space_participant =
  tpID :: string
  tpAdapter :: string
  tpExecution :: string
  tpRoles :: "string list"
  tpCapabilities :: "string list"
  tpMode :: participant_mode
  tpWritable :: bool
  tpJoinedAt :: int

record space_channel =
  hcID :: string
  hcSpace :: string
  hcName :: string
  hcVisibility :: channel_visibility
  hcParticipants :: "string list"
  hcCapabilities :: "string list"
  hcCreatedBy :: string
  hcCreatedAt :: int

record space_row =
  zsID :: string
  zsWorkspace :: string
  zsTitle :: string
  zsPurpose :: string
  zsState :: space_state
  zsWriter :: string
  zsBudget :: budget_status
  zsTenant :: "string option"
  zsCreatedAt :: int

text \<open>The struct \<open>CollaborationSpace\<close>: the row with its participants and channels, by identifier.\<close>

record collab_space = space_row +
  zsParticipants :: "(string \<times> space_participant) list"
  zsChannels :: "(string \<times> space_channel) list"

record subscription =
  ubID :: string
  ubSpace :: string
  ubParticipant :: string
  ubChannels :: "string list"
  ubEventTypes :: "string list"
  ubScopePatterns :: "string list"
  ubMode :: participant_mode
  ubCreatedAt :: int

record space_store =
  ztSessions :: "(string \<times> engine_session) list"
  ztSpaces :: "(string \<times> space_row) list"
  ztParticipants :: "((string \<times> string) \<times> space_participant) list"
  ztChannels :: "((string \<times> string) \<times> space_channel) list"
  ztSubscriptions :: "((string \<times> string) \<times> subscription) list"

definition empty_spaces :: space_store where
  "empty_spaces = \<lparr>ztSessions = [], ztSpaces = [], ztParticipants = [], ztChannels = [], ztSubscriptions = []\<rparr>"

subsection \<open>Sessions\<close>

definition merge_session :: "engine_session \<Rightarrow> engine_session \<Rightarrow> engine_session" where
  "merge_session old new = new\<lparr>ssID := ssID old, ssRepo := ssRepo old, ssTask := ssTask old, ssCreatedAt := ssCreatedAt old\<rparr>"

definition SaveSession :: "engine_session \<Rightarrow> space_store \<Rightarrow> space_store" where
  "SaveSession s st = st\<lparr>ztSessions := upsert merge_session (ssID s) s (ztSessions st)\<rparr>"

definition GetSession :: "string \<Rightarrow> space_store \<Rightarrow> engine_session option" where
  "GetSession i st = map_of (ztSessions st) i"

definition GetSessionForTenant :: "string \<Rightarrow> string \<Rightarrow> space_store \<Rightarrow> engine_session option" where
  "GetSessionForTenant i tenant st =
     (case GetSession i st of
        None \<Rightarrow> None
      | Some s \<Rightarrow> if tenant = [] \<or> ssTenant s \<noteq> tenant then None else Some s)"

text \<open>An update whose error is that no row was there.\<close>

definition UpdateSessionStatus :: "string \<Rightarrow> string \<Rightarrow> string \<Rightarrow> space_store \<Rightarrow> space_store option" where
  "UpdateSessionStatus i status reason st =
     (if GetSession i st = None then None
      else Some (st\<lparr>ztSessions := update_row i (\<lambda>s. s\<lparr>ssStatus := status, ssStop := reason\<rparr>) (ztSessions st)\<rparr>))"

definition UpdateBudget :: "string \<Rightarrow> budget_status \<Rightarrow> space_store \<Rightarrow> space_store option" where
  "UpdateBudget i b st =
     (if i = [] \<or> map_of (ztSessions st) i = None \<and> map_of (ztSpaces st) i = None then None
      else Some (st\<lparr>ztSessions := update_row i (\<lambda>s. s\<lparr>ssBudget := b\<rparr>) (ztSessions st),
                    ztSpaces := update_row i (\<lambda>s. s\<lparr>zsBudget := b\<rparr>) (ztSpaces st)\<rparr>))"

subsection \<open>Spaces\<close>

definition state_name :: "space_state \<Rightarrow> string" where
  "state_name s = (case s of SpaceActive \<Rightarrow> ''active'' | SpacePaused \<Rightarrow> ''paused'' | SpaceStopped \<Rightarrow> ''stopped''
     | SpaceArchived \<Rightarrow> ''archived'')"

definition merge_space :: "space_row \<Rightarrow> space_row \<Rightarrow> space_row" where
  "merge_space old new = new\<lparr>zsID := zsID old, zsCreatedAt := zsCreatedAt old\<rparr>"

text \<open>The copy a space leaves in the session table; the tenant column keeps its value.\<close>

definition mirror_session :: "space_row \<Rightarrow> engine_session" where
  "mirror_session s =
     \<lparr>ssID = zsID s, ssTenant = [], ssRepo = zsWorkspace s, ssTask = zsPurpose s, ssStatus = state_name (zsState s),
      ssStop = [], ssWriter = zsWriter s, ssBudget = zsBudget s, ssCreatedAt = zsCreatedAt s\<rparr>"

definition merge_mirror :: "engine_session \<Rightarrow> engine_session \<Rightarrow> engine_session" where
  "merge_mirror old new =
     new\<lparr>ssID := ssID old, ssTenant := ssTenant old, ssStop := ssStop old, ssCreatedAt := ssCreatedAt old\<rparr>"

definition execution_mode :: "string \<Rightarrow> string" where
  "execution_mode m = (if m = [] then ''managed'' else m)"

definition merge_participant :: "space_participant \<Rightarrow> space_participant \<Rightarrow> space_participant" where
  "merge_participant old new = new\<lparr>tpID := tpID old, tpJoinedAt := tpJoinedAt old\<rparr>"

definition AddSpaceParticipant :: "string \<Rightarrow> space_participant \<Rightarrow> space_store \<Rightarrow> space_store" where
  "AddSpaceParticipant i p st = st\<lparr>ztParticipants :=
     upsert merge_participant (i, tpID p) (p\<lparr>tpExecution := execution_mode (tpExecution p)\<rparr>) (ztParticipants st)\<rparr>"

definition merge_channel :: "space_channel \<Rightarrow> space_channel \<Rightarrow> space_channel" where
  "merge_channel old new = old\<lparr>hcName := hcName new, hcVisibility := hcVisibility new,
     hcParticipants := hcParticipants new, hcCapabilities := hcCapabilities new\<rparr>"

definition StoreChannel :: "space_channel \<Rightarrow> space_store \<Rightarrow> space_store" where
  "StoreChannel c st = st\<lparr>ztChannels := upsert merge_channel (hcSpace c, hcID c) c (ztChannels st)\<rparr>"

definition GetChannel :: "string \<Rightarrow> string \<Rightarrow> space_store \<Rightarrow> space_channel option" where
  "GetChannel i c st = map_of (ztChannels st) (i, c)"

definition SaveSpace :: "collab_space \<Rightarrow> space_store \<Rightarrow> space_store" where
  "SaveSpace z st =
     (let row = space_row.truncate z;
          st = st\<lparr>ztSpaces := upsert merge_space (zsID z) row (ztSpaces st),
                  ztSessions := upsert merge_mirror (zsID z) (mirror_session row) (ztSessions st)\<rparr>;
          st = fold (\<lambda>(_, p). AddSpaceParticipant (zsID z) p) (zsParticipants z) st
      in fold (\<lambda>(_, c). StoreChannel (c\<lparr>hcSpace := zsID z\<rparr>)) (zsChannels z) st)"

definition rows_of :: "string \<Rightarrow> ((string \<times> string) \<times> 'r) list \<Rightarrow> (string \<times> 'r) list" where
  "rows_of i rows = map (\<lambda>((_, k), r). (k, r)) (filter (\<lambda>((j, _), _). j = i) rows)"

definition GetSpace :: "string \<Rightarrow> space_store \<Rightarrow> collab_space option" where
  "GetSpace i st =
     (case map_of (ztSpaces st) i of
        None \<Rightarrow> None
      | Some row \<Rightarrow> Some (space_row.extend row
          \<lparr>zsParticipants = rows_of i (ztParticipants st), zsChannels = rows_of i (ztChannels st)\<rparr>))"

definition UpdateSpaceLifecycle :: "string \<Rightarrow> space_state \<Rightarrow> space_store \<Rightarrow> space_store option" where
  "UpdateSpaceLifecycle i s st =
     (if map_of (ztSpaces st) i = None then None
      else Some (st\<lparr>ztSpaces := update_row i (\<lambda>r. r\<lparr>zsState := s\<rparr>) (ztSpaces st),
                    ztSessions := update_row i (\<lambda>r. r\<lparr>ssStatus := state_name s\<rparr>) (ztSessions st)\<rparr>))"

definition UpdateParticipantMode :: "string \<Rightarrow> string \<Rightarrow> participant_mode \<Rightarrow> space_store \<Rightarrow> space_store option" where
  "UpdateParticipantMode i p m st =
     (if map_of (ztParticipants st) (i, p) = None then None
      else Some (st\<lparr>ztParticipants := update_row (i, p) (\<lambda>r. r\<lparr>tpMode := m\<rparr>) (ztParticipants st)\<rparr>))"

subsection \<open>Subscriptions\<close>

definition merge_subscription :: "subscription \<Rightarrow> subscription \<Rightarrow> subscription" where
  "merge_subscription old new = old\<lparr>ubChannels := ubChannels new, ubEventTypes := ubEventTypes new,
     ubScopePatterns := ubScopePatterns new, ubMode := ubMode new\<rparr>"

definition SaveSubscription :: "subscription \<Rightarrow> space_store \<Rightarrow> space_store" where
  "SaveSubscription u st = st\<lparr>ztSubscriptions := upsert merge_subscription (ubSpace u, ubID u) u (ztSubscriptions st)\<rparr>"

definition GetParticipantSubscriptions :: "string \<Rightarrow> string \<Rightarrow> space_store \<Rightarrow> subscription list" where
  "GetParticipantSubscriptions i p st =
     sort_key ubCreatedAt (filter (\<lambda>u. ubSpace u = i \<and> ubParticipant u = p) (map snd (ztSubscriptions st)))"

definition DeleteSubscription :: "string \<Rightarrow> string \<Rightarrow> space_store \<Rightarrow> msg option \<times> space_store" where
  "DeleteSubscription i u st =
     (if i = [] then (Some (plain ''space_id is required to delete subscription''), st)
      else if u = [] then (Some (plain ''id is required to delete subscription''), st)
      else (None, st\<lparr>ztSubscriptions := filter (\<lambda>(k, _). k \<noteq> (i, u)) (ztSubscriptions st)\<rparr>))"

end
