(* ===== verification/Budget.thy ===== *)
theory Budget
  imports SpaceStore
begin

text \<open>
  The budget of a session or space (\<open>internal/collaboration/engine.go\<close>): an invocation reserves its
  worst-case cost before it runs, then commits what it really used or rolls the reservation back.
  Each of the three operations holds the budget mutex, so a run is a sequence of them; the
  reservation of one caller stays open while others act. Which of the store calls fail, and the tenant
  of the caller, are arguments of a call. Costs are \<open>float64\<close> in the code and exact rationals here: what is proved of them
  holds up to the rounding of the code's additions and subtractions, what is proved of tokens is exact.
\<close>

subsection \<open>Operations\<close>

record engine_limits =
  elStrict :: bool
  elMaxIn :: int
  elMaxOut :: int
  elMaxTotal :: int
  elMaxCost :: rat

record budget_call =
  bcTenant :: "string option"
  bcSessionFails :: bool
  bcSpaceFails :: bool
  bcUpdateFails :: bool

datatype budget_error =
    BudgetExceededError string rat rat
  | HardTokenLimitUnsupportedError string msg
  | BudgetFailure msg

record reservation =
  rvSession :: string
  rvIn :: int
  rvOut :: int
  rvCost :: rat
  rvMaxTokens :: int
  rvMaxCost :: rat
  rvStrict :: bool

datatype account = LookupFailed string | NoAccount | Account budget_status

text \<open>The session of the caller's tenant, or else the space of that identifier.\<close>

definition session_of :: "budget_call \<Rightarrow> string \<Rightarrow> space_store \<Rightarrow> engine_session option" where
  "session_of k i st = (case bcTenant k of None \<Rightarrow> GetSession i st | Some t \<Rightarrow> GetSessionForTenant i t st)"

definition find_account :: "budget_call \<Rightarrow> string \<Rightarrow> space_store \<Rightarrow> account" where
  "find_account k i st =
     (if bcSessionFails k then LookupFailed ''session''
      else case session_of k i st of
        Some s \<Rightarrow> Account (ssBudget s)
      | None \<Rightarrow>
          if bcSpaceFails k then LookupFailed ''space''
          else (case GetSpace i st of None \<Rightarrow> NoAccount | Some z \<Rightarrow> Account (zsBudget z)))"

definition limits_set :: "engine_limits \<Rightarrow> bool" where
  "limits_set cfg \<longleftrightarrow> elMaxCost cfg > 0 \<or> elMaxTotal cfg > 0 \<or> elMaxIn cfg > 0 \<or> elMaxOut cfg > 0"

definition with_limits :: "engine_limits \<Rightarrow> budget_status \<Rightarrow> budget_status" where
  "with_limits cfg b = b\<lparr>beKnown := True, beMaxIn := elMaxIn cfg, beMaxOut := elMaxOut cfg,
     beMaxTotal := elMaxTotal cfg, beMaxCost := elMaxCost cfg\<rparr>"

definition reserve_defaults :: "engine_limits \<Rightarrow> budget_status \<Rightarrow> budget_status" where
  "reserve_defaults cfg b =
     (if \<not> beKnown b \<and> (limits_set cfg \<or> elStrict cfg) then with_limits cfg (b\<lparr>beStrict := elStrict cfg\<rparr>) else b)"

definition commit_defaults :: "engine_limits \<Rightarrow> budget_status \<Rightarrow> budget_status" where
  "commit_defaults cfg b = (if \<not> beKnown b \<and> limits_set cfg then with_limits cfg b else b)"

definition token_cost :: "int \<Rightarrow> int \<Rightarrow> rat" where
  "token_cost i out = of_int i * (3 / 1000000) + of_int out * (15 / 1000000)"

definition unlimited :: "string \<Rightarrow> int \<Rightarrow> reservation" where
  "unlimited i out = \<lparr>rvSession = i, rvIn = 0, rvOut = 0, rvCost = 0, rvMaxTokens = out, rvMaxCost = 0, rvStrict = False\<rparr>"

definition minViableOutput :: int where
  "minViableOutput = 100"

text \<open>The output a reservation may still ask for, bounded by what is left of two budgets.\<close>

definition bound_output :: "budget_status \<Rightarrow> int \<Rightarrow> int \<Rightarrow> budget_error + int" where
  "bound_output b i out =
     (let exceeded = (\<lambda>m mx u. Inl (BudgetExceededError m (of_int mx) (of_int u))) in
      bind_res
        (if beMaxOut b > 0
         then let rem = beMaxOut b - beUsedOut b in
           if rem < minViableOutput then exceeded ''output_tokens'' (beMaxOut b) (beUsedOut b + out)
           else Inr (if rem < out then rem else out)
         else Inr out)
        (\<lambda>out.
          if beMaxTotal b > 0
          then let rem = beMaxTotal b - beUsedTotal b - i in
            if rem < minViableOutput then exceeded ''total_tokens'' (beMaxTotal b) (beUsedTotal b + i + out)
            else Inr (if rem < out then rem else out)
          else Inr out))"

definition add_usage :: "int \<Rightarrow> int \<Rightarrow> rat \<Rightarrow> budget_status \<Rightarrow> budget_status" where
  "add_usage i out c b = b\<lparr>beUsedIn := beUsedIn b + i, beUsedOut := beUsedOut b + out,
     beUsedTotal := beUsedTotal b + (i + out), beUsedCost := beUsedCost b + c\<rparr>"

text \<open>What a reservation on a known budget takes, or the limit it would break.\<close>

definition plan_reservation :: "string \<Rightarrow> budget_status \<Rightarrow> int \<Rightarrow> int \<Rightarrow> budget_error + reservation" where
  "plan_reservation i b estIn estOut =
     guard_res
       (require (\<not> (beMaxIn b > 0 \<and> beUsedIn b + estIn > beMaxIn b))
         (BudgetExceededError ''input_tokens'' (of_int (beMaxIn b)) (of_int (beUsedIn b + estIn))))
       (bind_res (bound_output b estIn estOut) (\<lambda>out.
          let cost = token_cost estIn out in
          if beMaxCost b > 0 \<and> beUsedCost b + cost > beMaxCost b
          then Inl (BudgetExceededError ''cost_usd'' (beMaxCost b) (beUsedCost b + cost))
          else Inr \<lparr>rvSession = i, rvIn = estIn, rvOut = out, rvCost = cost, rvMaxTokens = out,
                    rvMaxCost = (if beMaxCost b > 0 then beMaxCost b - beUsedCost b else 0), rvStrict = beStrict b\<rparr>))"

definition reserveBudget ::
  "engine_limits \<Rightarrow> budget_call \<Rightarrow> string \<Rightarrow> int \<Rightarrow> int \<Rightarrow> space_store \<Rightarrow> (budget_error + reservation) \<times> space_store" where
  "reserveBudget cfg k i estIn estOut st =
     (if i = [] then (Inr (unlimited [] 0), st)
      else let estOut = (if estOut \<le> 0 then 1000 else estOut) in
      case find_account k i st of
        LookupFailed what \<Rightarrow> (Inl (BudgetFailure (Msg ''failed to lookup %s budget: %w'' [AS what])), st)
      | NoAccount \<Rightarrow> (Inr (unlimited i estOut), st)
      | Account b \<Rightarrow>
          let b = reserve_defaults cfg b in
          if \<not> beKnown b then (Inr (unlimited i estOut), st)
          else (case plan_reservation i b estIn estOut of
            Inl e \<Rightarrow> (Inl e, st)
          | Inr r \<Rightarrow>
              (case (if bcUpdateFails k then None else UpdateBudget i (add_usage (rvIn r) (rvOut r) (rvCost r) b) st) of
                None \<Rightarrow> (Inl (BudgetFailure (plain ''failed to atomically reserve budget: %w'')), st)
              | Some st' \<Rightarrow> (Inr r, st'))))"

definition discharged :: "reservation \<Rightarrow> reservation" where
  "discharged r = r\<lparr>rvSession := [], rvIn := 0, rvOut := 0, rvCost := 0, rvMaxTokens := 0, rvMaxCost := 0\<rparr>"

definition over_limit :: "budget_status \<Rightarrow> budget_error option" where
  "over_limit b =
     err_then (require (\<not> (beMaxIn b > 0 \<and> beUsedIn b > beMaxIn b))
       (BudgetExceededError ''input_tokens'' (of_int (beMaxIn b)) (of_int (beUsedIn b))))
     (err_then (require (\<not> (beMaxOut b > 0 \<and> beUsedOut b > beMaxOut b))
       (BudgetExceededError ''output_tokens'' (of_int (beMaxOut b)) (of_int (beUsedOut b))))
     (err_then (require (\<not> (beMaxTotal b > 0 \<and> beUsedTotal b > beMaxTotal b))
       (BudgetExceededError ''total_tokens'' (of_int (beMaxTotal b)) (of_int (beUsedTotal b))))
     (require (\<not> (beMaxCost b > 0 \<and> beUsedCost b > beMaxCost b))
       (BudgetExceededError ''cost_usd'' (beMaxCost b) (beUsedCost b)))))"

text \<open>The error, the reservation as the operation leaves it, and the store.\<close>

definition commitBudget ::
  "engine_limits \<Rightarrow> budget_call \<Rightarrow> reservation \<Rightarrow> int \<Rightarrow> int \<Rightarrow> rat \<Rightarrow> space_store
     \<Rightarrow> budget_error option \<times> reservation \<times> space_store" where
  "commitBudget cfg k r inTok outTok cost st =
     (let i = rvSession r in
      if i = [] then (None, r, st)
      else case find_account k i st of
        LookupFailed what \<Rightarrow> (Some (BudgetFailure (Msg ''failed to lookup %s for budget commit: %w'' [AS what])), r, st)
      | NoAccount \<Rightarrow> (Some (BudgetFailure (Msg ''session or space not found: %s'' [AS i])), r, st)
      | Account b \<Rightarrow>
          let b = commit_defaults cfg b in
          if \<not> beKnown b then (None, discharged r, st)
          else let b' = add_usage (inTok - rvIn r) (outTok - rvOut r) (cost - rvCost r) b in
            (case (if bcUpdateFails k then None else UpdateBudget i b' st) of
              None \<Rightarrow> (Some (BudgetFailure (plain ''failed to atomically commit budget: %w'')), r, st)
            | Some st' \<Rightarrow> (over_limit b', discharged r, st')))"

definition rollbackBudget ::
  "budget_call \<Rightarrow> reservation \<Rightarrow> space_store \<Rightarrow> budget_error option \<times> reservation \<times> space_store" where
  "rollbackBudget k r st =
     (let i = rvSession r in
      if i = [] then (None, r, st)
      else case find_account k i st of
        LookupFailed what \<Rightarrow>
          (Some (BudgetFailure (Msg ''failed to lookup %s budget for rollback: %w'' [AS what])), r, st)
      | NoAccount \<Rightarrow> (Some (BudgetFailure (Msg ''session or space not found for budget rollback: %s'' [AS i])), r, st)
      | Account b \<Rightarrow>
          if \<not> beKnown b then (None, (discharged r)\<lparr>rvStrict := False\<rparr>, st)
          else (case (if bcUpdateFails k then None
                      else UpdateBudget i (add_usage (- rvIn r) (- rvOut r) (- rvCost r) b) st) of
              None \<Rightarrow> (Some (BudgetFailure (Msg ''failed to atomically rollback budget for %s: %w'' [AS i])), r, st)
            | Some st' \<Rightarrow> (None, discharged r, st')))"

text \<open>The token limit an invocation gets; \<open>h\<close> tells whether the harness, if there is one, enforces it.\<close>

definition checkPeerTokenLimit :: "bool option \<Rightarrow> string \<Rightarrow> reservation \<Rightarrow> budget_error + int" where
  "checkPeerTokenLimit h peer r =
     (if rvMaxTokens r \<le> 0 then Inr 0
      else if h = Some True then Inr (rvMaxTokens r)
      else if rvStrict r then Inl (HardTokenLimitUnsupportedError peer
        (Msg ''peer %q does not support hard output token enforcement under strict token ceiling'' [AS peer]))
      else Inr 0)"

subsection \<open>Metrics\<close>

text \<open>The four quantities of a budget, so that one statement covers them all.\<close>

datatype metric = InputTokens | OutputTokens | TotalTokens | Cost

fun used :: "metric \<Rightarrow> budget_status \<Rightarrow> rat" where
  "used InputTokens b = of_int (beUsedIn b)"
| "used OutputTokens b = of_int (beUsedOut b)"
| "used TotalTokens b = of_int (beUsedTotal b)"
| "used Cost b = beUsedCost b"

fun limit :: "metric \<Rightarrow> budget_status \<Rightarrow> rat" where
  "limit InputTokens b = of_int (beMaxIn b)"
| "limit OutputTokens b = of_int (beMaxOut b)"
| "limit TotalTokens b = of_int (beMaxTotal b)"
| "limit Cost b = beMaxCost b"

fun amount :: "metric \<Rightarrow> int \<Rightarrow> int \<Rightarrow> rat \<Rightarrow> rat" where
  "amount InputTokens i out c = of_int i"
| "amount OutputTokens i out c = of_int out"
| "amount TotalTokens i out c = of_int (i + out)"
| "amount Cost i out c = c"

definition held :: "metric \<Rightarrow> reservation \<Rightarrow> rat" where
  "held m r = amount m (rvIn r) (rvOut r) (rvCost r)"

lemma used_add_usage: "used m (add_usage i out c b) = used m b + amount m i out c"
  by (cases m) (simp_all add: add_usage_def)

lemma limit_add_usage [simp]: "limit m (add_usage i out c b) = limit m b"
  by (cases m) (simp_all add: add_usage_def)

lemma known_add_usage [simp]: "beKnown (add_usage i out c b) = beKnown b"
  by (simp add: add_usage_def)

lemma used_defaults [simp]: "used m (reserve_defaults cfg b) = used m b" "used m (commit_defaults cfg b) = used m b"
  by (cases m; simp add: reserve_defaults_def commit_defaults_def with_limits_def)+

lemma amount_diff: "amount m (a - b) (c - d) (e - f) = amount m a c e - amount m b d f"
  by (cases m) simp_all

lemma amount_uminus: "amount m (- a) (- b) (- c) = - amount m a b c"
  by (cases m) simp_all

lemma held_simps [simp]: "held m (discharged r) = 0" "held m (unlimited i out) = 0"
    "held m ((discharged r)\<lparr>rvStrict := x\<rparr>) = 0"
  by (cases m; simp add: held_def discharged_def unlimited_def)+

lemma session_simps [simp]: "rvSession (discharged r) = []" "rvSession (unlimited i out) = i"
  by (simp_all add: discharged_def unlimited_def)

end
