(* ===== verification/BudgetLedger.thy ===== *)
theory BudgetLedger
  imports Budget
begin

text \<open>
  Runs of the budget operations. A ledger is the store with the reservations that are open and, as
  history, what the committed invocations used and whether one of them used more than it reserved.
  The invariant says that the stored usage is exactly the committed usage plus the open
  reservations, whatever the order of the operations and whichever store calls fail.
\<close>

subsection \<open>The budget of an account\<close>

definition budget_at :: "space_store \<Rightarrow> string \<Rightarrow> budget_status option" where
  "budget_at st i =
     (case GetSession i st of Some s \<Rightarrow> Some (ssBudget s)
      | None \<Rightarrow> map_option zsBudget (map_of (ztSpaces st) i))"

definition mirrored :: "space_store \<Rightarrow> bool" where
  "mirrored st \<longleftrightarrow> (\<forall>i s z. GetSession i st = Some s \<longrightarrow> map_of (ztSpaces st) i = Some z \<longrightarrow> ssBudget s = zsBudget z)"

lemma GetSpace_budget: "map_option zsBudget (GetSpace i st) = map_option zsBudget (map_of (ztSpaces st) i)"
  by (auto simp: GetSpace_def space_row.defs split: option.splits)

lemma find_account_budget:
  assumes "mirrored st" and "find_account k i st = Account b"
  shows "budget_at st i = Some b"
proof (cases "session_of k i st")
  case None
  then obtain z where z: "GetSpace i st = Some z" "b = zsBudget z"
    using assms(2) by (auto simp: find_account_def split: if_splits option.splits)
  then have m: "map_option zsBudget (map_of (ztSpaces st) i) = Some b"
    using GetSpace_budget [of i st] by simp
  show ?thesis
    using assms(1) m by (auto simp: budget_at_def mirrored_def split: option.splits)
next
  case (Some s)
  then have "GetSession i st = Some s"
    by (auto simp: session_of_def GetSessionForTenant_def split: option.splits if_splits)
  then show ?thesis
    using assms(2) Some by (auto simp: find_account_def budget_at_def split: if_splits)
qed

lemma UpdateBudget_budget_at:
  assumes "UpdateBudget i b st = Some st'" and "mirrored st"
  shows "mirrored st' \<and> budget_at st' = (budget_at st)(i \<mapsto> b)"
proof
  have eq: "st' = st\<lparr>ztSessions := update_row i (\<lambda>s. s\<lparr>ssBudget := b\<rparr>) (ztSessions st),
                     ztSpaces := update_row i (\<lambda>s. s\<lparr>zsBudget := b\<rparr>) (ztSpaces st)\<rparr>"
    and some: "map_of (ztSessions st) i \<noteq> None \<or> map_of (ztSpaces st) i \<noteq> None"
    using assms(1) by (auto simp: UpdateBudget_def split: if_splits)
  show "mirrored st'"
    using assms(2) by (auto simp: eq mirrored_def GetSession_def map_of_update_row split: if_splits)
  show "budget_at st' = (budget_at st)(i \<mapsto> b)"
    using some by (auto simp: eq budget_at_def GetSession_def map_of_update_row fun_eq_iff split: option.splits)
qed

lemma find_account_UpdateBudget:
  "find_account k i st = Account b \<Longrightarrow> i \<noteq> [] \<Longrightarrow> \<exists>st'. UpdateBudget i c st = Some st'"
  by (auto simp: find_account_def UpdateBudget_def session_of_def GetSessionForTenant_def GetSession_def GetSpace_def
      split: if_splits option.splits)

subsection \<open>What the operations do\<close>

lemma plan_reservation_simps:
  assumes "plan_reservation i b estIn estOut = Inr r"
  shows "rvSession r = i" and "rvIn r = estIn"
    and "rvOut r \<le> estOut" and "rvOut r \<ge> min estOut minViableOutput"
    and "rvCost r = token_cost (rvIn r) (rvOut r)" and "rvMaxTokens r = rvOut r"
    and "limit m b > 0 \<Longrightarrow> used m b + held m r \<le> limit m b"
  using assms
  by (cases m; auto simp: plan_reservation_def bound_output_def Let_def held_def bind_res_Inr minViableOutput_def
      split: if_splits)+

text \<open>A granted reservation: either nothing is tracked, or the account takes exactly what it holds.\<close>

definition viable :: "int \<Rightarrow> int" where
  "viable out = (if out \<le> 0 then 1000 else out)"

lemma reserve_untracked:
  assumes "i = [] \<or> (\<forall>b. find_account k i st = Account b \<longrightarrow> \<not> beKnown (reserve_defaults cfg b))"
  shows "\<exists>res. reserveBudget cfg k i estIn estOut st = (res, st)
           \<and> (\<forall>r. res = Inr r \<longrightarrow> rvSession r = i \<and> (\<forall>m. held m r = 0))"
  using assms by (cases "find_account k i st") (auto simp: reserveBudget_def Let_def)

lemma reserve_tracked:
  assumes "find_account k i st = Account b" and "i \<noteq> []" and "beKnown (reserve_defaults cfg b)"
  shows "reserveBudget cfg k i estIn estOut st =
    (case plan_reservation i (reserve_defaults cfg b) estIn (viable estOut) of
       Inl e \<Rightarrow> (Inl e, st)
     | Inr r \<Rightarrow>
        (case (if bcUpdateFails k then None
               else UpdateBudget i (add_usage (rvIn r) (rvOut r) (rvCost r) (reserve_defaults cfg b)) st) of
          None \<Rightarrow> (Inl (BudgetFailure (plain ''failed to atomically reserve budget: %w'')), st)
        | Some st' \<Rightarrow> (Inr r, st')))"
  using assms by (simp add: reserveBudget_def Let_def viable_def)

lemma reserve_cases [consumes 2, case_names kept taken]:
  assumes red: "reserveBudget cfg k i estIn estOut st = (res, st')" and mir: "mirrored st"
  obtains "st' = st" "\<And>r. res = Inr r \<Longrightarrow> rvSession r = i \<and> (\<forall>m. held m r = 0)"
  | b r where "budget_at st i = Some b" "i \<noteq> []" "beKnown (reserve_defaults cfg b)" "res = Inr r"
      "plan_reservation i (reserve_defaults cfg b) estIn (viable estOut) = Inr r" "mirrored st'"
      "budget_at st' = (budget_at st)(i \<mapsto> add_usage (rvIn r) (rvOut r) (rvCost r) (reserve_defaults cfg b))"
proof (cases "i = [] \<or> (\<forall>b. find_account k i st = Account b \<longrightarrow> \<not> beKnown (reserve_defaults cfg b))")
  case True
  then show thesis using reserve_untracked [OF True, of estIn estOut] red that(1) by auto
next
  case False
  then obtain b where b: "find_account k i st = Account b" "i \<noteq> []" "beKnown (reserve_defaults cfg b)" by auto
  note red' = red [unfolded reserve_tracked [OF b]]
  note at = find_account_budget [OF mir b(1)]
  show thesis
  proof (cases "plan_reservation i (reserve_defaults cfg b) estIn (viable estOut)")
    case (Inl e)
    show thesis by (rule that(1)) (use red' in \<open>simp_all add: Inl\<close>)
  next
    case (Inr r)
    let ?u = "if bcUpdateFails k then None
              else UpdateBudget i (add_usage (rvIn r) (rvOut r) (rvCost r) (reserve_defaults cfg b)) st"
    show thesis
    proof (cases ?u)
      case None
      show thesis by (rule that(1)) (use red' None in \<open>simp_all add: Inr\<close>)
    next
      case (Some st2)
      then have u: "UpdateBudget i (add_usage (rvIn r) (rvOut r) (rvCost r) (reserve_defaults cfg b)) st = Some st2"
        by (simp split: if_splits)
      show thesis
        by (rule that(2) [OF at b(2,3) _ Inr])
           (use red' Inr Some UpdateBudget_budget_at [OF u mir] in \<open>auto\<close>)
    qed
  qed
qed

text \<open>A commit or rollback: the account changes by the difference, or nothing does.\<close>

lemma commit_cases [consumes 2, case_names kept untracked settled]:
  assumes red: "commitBudget cfg k r a c q st = (e, r', st')" and mir: "mirrored st"
  obtains "st' = st" "r' = r"
  | b where "budget_at st (rvSession r) = Some b" "\<not> beKnown (commit_defaults cfg b)" "rvSession r \<noteq> []"
      "st' = st" "r' = discharged r"
      "find_account k (rvSession r) st = Account b"
  | b where "budget_at st (rvSession r) = Some b" "beKnown (commit_defaults cfg b)" "rvSession r \<noteq> []"
      "r' = discharged r" "mirrored st'" "find_account k (rvSession r) st = Account b"
      "budget_at st' = (budget_at st)(rvSession r \<mapsto>
         add_usage (a - rvIn r) (c - rvOut r) (q - rvCost r) (commit_defaults cfg b))"
proof (cases "rvSession r = [] \<or> (\<forall>b. find_account k (rvSession r) st \<noteq> Account b)")
  case True
  then have "st' = st \<and> r' = r"
    using red by (auto simp: commitBudget_def Let_def split: account.splits if_splits)
  then show thesis using that(1) by simp
next
  case False
  then obtain b where b: "rvSession r \<noteq> []" "find_account k (rvSession r) st = Account b" by auto
  note at = find_account_budget [OF mir b(2)]
  let ?b = "add_usage (a - rvIn r) (c - rvOut r) (q - rvCost r) (commit_defaults cfg b)"
  show thesis
  proof (cases "beKnown (commit_defaults cfg b)")
    case False
    then show thesis using that(2) [OF at False b(1) _ _ b(2)] red b by (simp add: commitBudget_def Let_def)
  next
    case True
    show thesis
    proof (cases "if bcUpdateFails k then None else UpdateBudget (rvSession r) ?b st")
      case None
      then show thesis using red b True that(1) by (simp add: commitBudget_def Let_def)
    next
      case (Some st2)
      then have u: "UpdateBudget (rvSession r) ?b st = Some st2" by (simp split: if_splits)
      show thesis
        by (rule that(3) [OF at True b(1)])
           (use red b True Some UpdateBudget_budget_at [OF u mir] in \<open>auto simp: commitBudget_def Let_def\<close>)
    qed
  qed
qed

lemma rollback_cases [consumes 2, case_names kept untracked settled]:
  assumes red: "rollbackBudget k r st = (e, r', st')" and mir: "mirrored st"
  obtains "st' = st" "r' = r" "rvSession r = [] \<or> e \<noteq> None"
  | b where "budget_at st (rvSession r) = Some b" "\<not> beKnown b" "rvSession r \<noteq> []" "st' = st"
      "r' = (discharged r)\<lparr>rvStrict := False\<rparr>"
  | b where "budget_at st (rvSession r) = Some b" "beKnown b" "rvSession r \<noteq> []" "r' = discharged r" "mirrored st'"
      "budget_at st' = (budget_at st)(rvSession r \<mapsto> add_usage (- rvIn r) (- rvOut r) (- rvCost r) b)"
proof (cases "rvSession r = [] \<or> (\<forall>b. find_account k (rvSession r) st \<noteq> Account b)")
  case True
  then have "st' = st \<and> r' = r \<and> (rvSession r = [] \<or> e \<noteq> None)"
    using red by (auto simp: rollbackBudget_def Let_def split: account.splits if_splits)
  then show thesis using that(1) by simp
next
  case False
  then obtain b where b: "rvSession r \<noteq> []" "find_account k (rvSession r) st = Account b" by auto
  note at = find_account_budget [OF mir b(2)]
  let ?b = "add_usage (- rvIn r) (- rvOut r) (- rvCost r) b"
  show thesis
  proof (cases "beKnown b")
    case False
    then show thesis using that(2) [OF at False b(1)] red b by (simp add: rollbackBudget_def Let_def)
  next
    case True
    show thesis
    proof (cases "if bcUpdateFails k then None else UpdateBudget (rvSession r) ?b st")
      case None
      then show thesis using red b True that(1) by (auto simp: rollbackBudget_def Let_def)
    next
      case (Some st2)
      then have u: "UpdateBudget (rvSession r) ?b st = Some st2" by (simp split: if_splits)
      show thesis
        by (rule that(3) [OF at True b(1)])
           (use red b True Some UpdateBudget_budget_at [OF u mir] in \<open>auto simp: rollbackBudget_def Let_def\<close>)
    qed
  qed
qed

subsection \<open>Runs\<close>

text \<open>The estimate of the input is a length, so it is not negative.\<close>

datatype budget_event =
    BudgetReserve budget_call string nat int
  | BudgetCommit nat budget_call int int rat
  | BudgetRollback nat budget_call

record ledger =
  lgStore :: space_store
  lgOpen :: "reservation list"
  lgSpent :: "string \<Rightarrow> metric \<Rightarrow> rat"
  lgOver :: bool

definition open_ledger :: "space_store \<Rightarrow> ledger" where
  "open_ledger st = \<lparr>lgStore = st, lgOpen = [],
     lgSpent = (\<lambda>i m. case budget_at st i of None \<Rightarrow> 0 | Some b \<Rightarrow> used m b), lgOver = False\<rparr>"

text \<open>Whether a commit of this reservation is recorded.\<close>

definition recorded_commit :: "engine_limits \<Rightarrow> budget_call \<Rightarrow> reservation \<Rightarrow> reservation \<Rightarrow> space_store \<Rightarrow> bool" where
  "recorded_commit cfg k r r' st \<longleftrightarrow> rvSession r \<noteq> [] \<and> rvSession r' = [] \<and>
     (case find_account k (rvSession r) st of Account b \<Rightarrow> beKnown (commit_defaults cfg b) | _ \<Rightarrow> False)"

fun ledger_step :: "engine_limits \<Rightarrow> budget_event \<Rightarrow> ledger \<Rightarrow> ledger" where
  "ledger_step cfg (BudgetReserve k i estIn estOut) l =
     (case reserveBudget cfg k i (int estIn) estOut (lgStore l) of
        (Inl _, st) \<Rightarrow> l\<lparr>lgStore := st\<rparr>
      | (Inr r, st) \<Rightarrow> l\<lparr>lgStore := st, lgOpen := lgOpen l @ [r]\<rparr>)"
| "ledger_step cfg (BudgetCommit n k a c q) l =
     (if n < length (lgOpen l)
      then let r = lgOpen l ! n in
        (case commitBudget cfg k r a c q (lgStore l) of
          (_, r', st) \<Rightarrow>
            let l' = l\<lparr>lgStore := st, lgOpen := (lgOpen l)[n := r']\<rparr> in
            if recorded_commit cfg k r r' (lgStore l)
            then l'\<lparr>lgSpent := (lgSpent l)(rvSession r := (\<lambda>m. lgSpent l (rvSession r) m + amount m a c q)),
                    lgOver := (lgOver l \<or> (\<exists>m\<in>{InputTokens, OutputTokens, TotalTokens, Cost}. amount m a c q > held m r))\<rparr>
            else l')
      else l)"
| "ledger_step cfg (BudgetRollback n k) l =
     (if n < length (lgOpen l)
      then (case rollbackBudget k (lgOpen l ! n) (lgStore l) of
        (_, r', st) \<Rightarrow> l\<lparr>lgStore := st, lgOpen := (lgOpen l)[n := r']\<rparr>)
      else l)"

definition outstanding :: "metric \<Rightarrow> string \<Rightarrow> reservation list \<Rightarrow> rat" where
  "outstanding m i rs = (\<Sum>r\<leftarrow>rs. if rvSession r = i then held m r else 0)"

lemma outstanding_simps [simp]: "outstanding m i [] = 0"
    "outstanding m i (rs @ [r]) = outstanding m i rs + (if rvSession r = i then held m r else 0)"
  by (simp_all add: outstanding_def)

lemma outstanding_update:
  "n < length rs \<Longrightarrow> outstanding m i (rs[n := r]) = outstanding m i rs
     + (if rvSession r = i then held m r else 0) - (if rvSession (rs ! n) = i then held m (rs ! n) else 0)"
proof (induction rs arbitrary: n)
  case (Cons x rs)
  then show ?case by (cases n) (simp_all add: outstanding_def)
qed simp

text \<open>The books balance, open reservations are not negative, and one that holds something is of a tracked account.\<close>

definition balanced :: "ledger \<Rightarrow> bool" where
  "balanced l \<longleftrightarrow> mirrored (lgStore l)
     \<and> (\<forall>i b m. budget_at (lgStore l) i = Some b \<longrightarrow> used m b = lgSpent l i m + outstanding m i (lgOpen l))
     \<and> (\<forall>r\<in>set (lgOpen l). \<forall>m. held m r \<ge> 0 \<and>
          (held m r \<noteq> 0 \<longrightarrow> (\<exists>b. budget_at (lgStore l) (rvSession r) = Some b \<and> beKnown b)))"

text \<open>A tracked budget is within its limits, and an untracked one has no usage.\<close>

definition within_limits :: "ledger \<Rightarrow> bool" where
  "within_limits l \<longleftrightarrow> lgOver l \<or>
     (\<forall>i b m. budget_at (lgStore l) i = Some b \<longrightarrow>
        (if beKnown b then limit m b > 0 \<longrightarrow> used m b \<le> limit m b else used m b = 0))"

definition ledger_inv :: "ledger \<Rightarrow> bool" where
  "ledger_inv l \<longleftrightarrow> balanced l \<and> within_limits l"

lemma plan_held_nonneg:
  assumes "plan_reservation i b (int n) (viable out) = Inr r"
  shows "held m r \<ge> 0"
proof -
  have "viable out > 0" by (simp add: viable_def)
  then have "rvOut r > 0" "rvIn r = int n" "rvCost r = token_cost (rvIn r) (rvOut r)"
    using plan_reservation_simps [OF assms] by (auto simp: minViableOutput_def min_def split: if_splits)
  then show ?thesis by (cases m) (simp_all add: held_def token_cost_def)
qed

lemma known_defaults: "beKnown b \<Longrightarrow> reserve_defaults cfg b = b" "beKnown b \<Longrightarrow> commit_defaults cfg b = b"
  by (simp_all add: reserve_defaults_def commit_defaults_def)

lemma amounts_bounded:
  "\<not> (\<exists>m\<in>{InputTokens, OutputTokens, TotalTokens, Cost}. amount m a c q > held m r) \<Longrightarrow> amount m a c q \<le> held m r"
  by (cases m) auto

lemma reserve_inv:
  assumes "ledger_inv l"
  shows "ledger_inv (ledger_step cfg (BudgetReserve k i n out) l)"
proof -
  obtain res st' where red: "reserveBudget cfg k i (int n) out (lgStore l) = (res, st')"
    by (cases "reserveBudget cfg k i (int n) out (lgStore l)") auto
  have mir: "mirrored (lgStore l)" using assms by (simp add: ledger_inv_def balanced_def)
  from red mir show ?thesis
  proof (cases rule: reserve_cases)
    case kept
    have "held m r = 0" if "res = Inr r" for m r using kept(2) that by simp
    then have "balanced (ledger_step cfg (BudgetReserve k i n out) l)"
      using assms red kept(1) by (auto simp: ledger_inv_def balanced_def split: sum.splits)
    moreover have "within_limits (ledger_step cfg (BudgetReserve k i n out) l)"
      using assms red kept(1) by (cases res) (simp_all add: ledger_inv_def within_limits_def)
    ultimately show ?thesis by (simp add: ledger_inv_def)
  next
    case (taken b r)
    have step: "ledger_step cfg (BudgetReserve k i n out) l = l\<lparr>lgStore := st', lgOpen := lgOpen l @ [r]\<rparr>"
      using red taken(4) by simp
    have r: "rvSession r = i" using plan_reservation_simps(1) [OF taken(5)] .
    have held: "held m r \<ge> 0" for m by (rule plan_held_nonneg [OF taken(5)])
    have new: "used m (add_usage (rvIn r) (rvOut r) (rvCost r) (reserve_defaults cfg b)) = used m b + held m r" for m
      by (simp add: used_add_usage held_def)
    have room: "limit m (reserve_defaults cfg b) > 0 \<Longrightarrow> used m b + held m r \<le> limit m (reserve_defaults cfg b)" for m
      using plan_reservation_simps(7) [OF taken(5), of m] by simp
    have books: "used m d = lgSpent l j m + outstanding m j (lgOpen l)" if "budget_at (lgStore l) j = Some d" for j d m
      using assms that by (simp add: ledger_inv_def balanced_def)
    have "used m d = lgSpent l j m + outstanding m j (lgOpen l @ [r])" if "budget_at st' j = Some d" for j d m
      using that books [of j d m] books [OF taken(1), of m] r by (cases "j = i") (auto simp: taken(7) new)
    moreover have "held m x \<ge> 0 \<and> (held m x \<noteq> 0 \<longrightarrow> (\<exists>b. budget_at st' (rvSession x) = Some b \<and> beKnown b))"
      if "x \<in> set (lgOpen l @ [r])" for x m
      using that assms held r taken(3) by (auto simp: ledger_inv_def balanced_def taken(7))
    ultimately have "balanced (ledger_step cfg (BudgetReserve k i n out) l)"
      unfolding step balanced_def using taken(6) by simp
    moreover have "within_limits (ledger_step cfg (BudgetReserve k i n out) l)"
      unfolding step using assms taken(3,7) room by (auto simp: ledger_inv_def within_limits_def new)
    ultimately show ?thesis by (simp add: ledger_inv_def)
  qed
qed

text \<open>An update of the account that fits the change of the reservation and of the history.\<close>

lemma settle_inv:
  assumes inv: "ledger_inv l" and n: "n < length (lgOpen l)" and r: "lgOpen l ! n = r"
    and at: "budget_at (lgStore l) (rvSession r) = Some b" and r': "\<And>m. held m r' = 0"
    and mir: "mirrored st'" and upd: "budget_at st' = (budget_at (lgStore l))(rvSession r \<mapsto> c)"
    and used: "\<And>m. used m c = used m b + (sp (rvSession r) m - lgSpent l (rvSession r) m) - held m r"
    and sp: "\<And>i. i \<noteq> rvSession r \<Longrightarrow> sp i = lgSpent l i"
    and known: "beKnown c" and over: "lgOver l \<Longrightarrow> ov"
    and small: "\<And>m. \<not> ov \<Longrightarrow> used m c \<le> used m b"
    and lims: "\<And>m. beKnown b \<Longrightarrow> limit m c = limit m b"
  shows "ledger_inv (l\<lparr>lgStore := st', lgOpen := (lgOpen l)[n := r'], lgSpent := sp, lgOver := ov\<rparr>)"
proof -
  let ?l = "l\<lparr>lgStore := st', lgOpen := (lgOpen l)[n := r'], lgSpent := sp, lgOver := ov\<rparr>"
  have books: "used m d = lgSpent l i m + outstanding m i (lgOpen l)" if "budget_at (lgStore l) i = Some d" for i d m
    using inv that by (simp add: ledger_inv_def balanced_def)
  have out: "outstanding m i ((lgOpen l)[n := r']) = outstanding m i (lgOpen l) - (if rvSession r = i then held m r else 0)" for m i
    using outstanding_update [OF n] r r' by simp
  have "used m d = sp i m + outstanding m i ((lgOpen l)[n := r'])" if "budget_at st' i = Some d" for i d m
    using that books [of i] books [OF at] used sp by (cases "i = rvSession r") (auto simp: upd out)
  moreover have "held m x \<ge> 0 \<and> (held m x \<noteq> 0 \<longrightarrow> (\<exists>b. budget_at st' (rvSession x) = Some b \<and> beKnown b))"
    if "x \<in> set ((lgOpen l)[n := r'])" for x m
  proof -
    have "x = r' \<or> x \<in> set (lgOpen l)" using that set_update_subset_insert by fastforce
    then show ?thesis
      using inv r' known by (auto simp: ledger_inv_def balanced_def upd)
  qed
  ultimately have "balanced ?l" using mir by (simp add: balanced_def)
  moreover have "within_limits ?l"
  proof (cases ov)
    case False
    then have ok: "if beKnown d then limit m d > 0 \<longrightarrow> used m d \<le> limit m d else used m d = 0"
      if "budget_at (lgStore l) i = Some d" for i d m
      using inv that over by (auto simp: ledger_inv_def within_limits_def)
    have "limit m c > 0 \<longrightarrow> used m c \<le> limit m c" for m
      using ok [OF at, of m] small [OF False, of m] lims [of m] by (cases "beKnown b") auto
    then show ?thesis
      using ok known by (auto simp: within_limits_def upd)
  qed (simp add: within_limits_def)
  ultimately show ?thesis by (simp add: ledger_inv_def)
qed

text \<open>A reservation that held nothing may be dropped.\<close>

lemma drop_inv:
  assumes inv: "ledger_inv l" and n: "n < length (lgOpen l)"
    and "\<And>m. held m (lgOpen l ! n) = 0" and "\<And>m. held m r' = 0"
  shows "ledger_inv (l\<lparr>lgOpen := (lgOpen l)[n := r']\<rparr>)"
proof -
  have "outstanding m i ((lgOpen l)[n := r']) = outstanding m i (lgOpen l)" for m i
    using outstanding_update [OF n] assms(3,4) by simp
  moreover have "held m x \<ge> 0 \<and> (held m x \<noteq> 0 \<longrightarrow> (\<exists>b. budget_at (lgStore l) (rvSession x) = Some b \<and> beKnown b))"
    if "x \<in> set ((lgOpen l)[n := r'])" for x m
  proof -
    have "x = r' \<or> x \<in> set (lgOpen l)" using that set_update_subset_insert by fastforce
    then show ?thesis using inv assms(4) by (auto simp: ledger_inv_def balanced_def)
  qed
  ultimately have "balanced (l\<lparr>lgOpen := (lgOpen l)[n := r']\<rparr>)"
    using inv assms(4) by (auto simp: ledger_inv_def balanced_def)
  then show ?thesis using inv by (simp add: ledger_inv_def within_limits_def)
qed

lemma untracked_holds_nothing:
  assumes "ledger_inv l" and "n < length (lgOpen l)" and "budget_at (lgStore l) (rvSession (lgOpen l ! n)) = Some b"
    and "\<not> beKnown b"
  shows "held m (lgOpen l ! n) = 0"
proof (rule ccontr)
  assume "held m (lgOpen l ! n) \<noteq> 0"
  moreover have "lgOpen l ! n \<in> set (lgOpen l)" using assms(2) by simp
  ultimately have "\<exists>b. budget_at (lgStore l) (rvSession (lgOpen l ! n)) = Some b \<and> beKnown b"
    using assms(1) unfolding ledger_inv_def balanced_def by blast
  with assms(3,4) show False by simp
qed

lemma ledger_commit_inv:
  assumes "ledger_inv l"
  shows "ledger_inv (ledger_step cfg (BudgetCommit n k a c q) l)"
proof (cases "n < length (lgOpen l)")
  case n: True
  define r where "r = lgOpen l ! n"
  obtain e r' st' where red: "commitBudget cfg k r a c q (lgStore l) = (e, r', st')"
    by (cases "commitBudget cfg k r a c q (lgStore l)") auto
  have mir: "mirrored (lgStore l)" using assms by (simp add: ledger_inv_def balanced_def)
  from red mir show ?thesis
  proof (cases rule: commit_cases)
    case kept
    then have "\<not> recorded_commit cfg k r r' (lgStore l)" by (auto simp: recorded_commit_def)
    then have "ledger_step cfg (BudgetCommit n k a c q) l = l"
      using n red kept by (simp add: r_def)
    then show ?thesis using assms by simp
  next
    case (untracked b)
    then have step: "ledger_step cfg (BudgetCommit n k a c q) l = l\<lparr>lgOpen := (lgOpen l)[n := r']\<rparr>"
      using n red by (simp add: r_def [symmetric] recorded_commit_def)
    have "\<not> beKnown b" using untracked(2) by (auto simp: known_defaults)
    then show ?thesis
      unfolding step using untracked untracked_holds_nothing [OF assms n] n by (intro drop_inv assms) (auto simp: r_def)
  next
    case (settled b)
    let ?ov = "lgOver l \<or> (\<exists>m\<in>{InputTokens, OutputTokens, TotalTokens, Cost}. amount m a c q > held m r)"
    have step: "ledger_step cfg (BudgetCommit n k a c q) l =
        l\<lparr>lgStore := st', lgOpen := (lgOpen l)[n := r'],
          lgSpent := (lgSpent l)(rvSession r := (\<lambda>m. lgSpent l (rvSession r) m + amount m a c q)), lgOver := ?ov\<rparr>"
      using n red settled by (simp add: r_def [symmetric] recorded_commit_def)
    have u: "used m (add_usage (a - rvIn r) (c - rvOut r) (q - rvCost r) (commit_defaults cfg b))
        = used m b + amount m a c q - held m r" for m
      by (simp add: used_add_usage amount_diff held_def)
    show ?thesis
      unfolding step
      by (rule settle_inv [OF assms n r_def [symmetric] settled(1) _ settled(5,7)])
         (use settled u amounts_bounded [of r a c q] in \<open>auto simp: known_defaults\<close>)
  qed
qed (use assms in simp)

lemma rollback_inv:
  assumes "ledger_inv l"
  shows "ledger_inv (ledger_step cfg (BudgetRollback n k) l)"
proof (cases "n < length (lgOpen l)")
  case n: True
  define r where "r = lgOpen l ! n"
  obtain e r' st' where red: "rollbackBudget k r (lgStore l) = (e, r', st')"
    by (cases "rollbackBudget k r (lgStore l)") auto
  have mir: "mirrored (lgStore l)" using assms by (simp add: ledger_inv_def balanced_def)
  from red mir show ?thesis
  proof (cases rule: rollback_cases)
    case kept
    then have "ledger_step cfg (BudgetRollback n k) l = l" using n red by (simp add: r_def)
    then show ?thesis using assms by simp
  next
    case (untracked b)
    then have step: "ledger_step cfg (BudgetRollback n k) l = l\<lparr>lgOpen := (lgOpen l)[n := r']\<rparr>"
      using n red by (simp add: r_def)
    show ?thesis
      unfolding step using untracked untracked_holds_nothing [OF assms n] n by (intro drop_inv assms) (auto simp: r_def)
  next
    case (settled b)
    have step: "ledger_step cfg (BudgetRollback n k) l =
        l\<lparr>lgStore := st', lgOpen := (lgOpen l)[n := r'], lgSpent := lgSpent l, lgOver := lgOver l\<rparr>"
      using n red by (simp add: r_def)
    have u: "used m (add_usage (- rvIn r) (- rvOut r) (- rvCost r) b) = used m b - held m r" for m
      by (simp add: used_add_usage amount_uminus held_def)
    have "r \<in> set (lgOpen l)" using n by (simp add: r_def)
    then have pos: "held m r \<ge> 0" for m using assms by (simp add: ledger_inv_def balanced_def)
    show ?thesis
      unfolding step
      by (rule settle_inv [OF assms n r_def [symmetric] settled(1) _ settled(5,6)])
         (use settled u pos in \<open>auto simp: known_defaults\<close>)
  qed
qed (use assms in simp)

interpretation ledger: state_machine "ledger_step cfg" ledger_inv for cfg
proof
  show "ledger_inv l \<Longrightarrow> ledger_inv (ledger_step cfg e l)" for l e
    by (cases e) (simp_all only: reserve_inv ledger_commit_inv rollback_inv)
qed

subsection \<open>Properties\<close>

definition sound_budgets :: "space_store \<Rightarrow> bool" where
  "sound_budgets st \<longleftrightarrow> mirrored st \<and> (\<forall>i b m. budget_at st i = Some b \<longrightarrow>
     (if beKnown b then limit m b > 0 \<longrightarrow> used m b \<le> limit m b else used m b = 0))"

lemma ledger_run:
  assumes "sound_budgets st"
  shows "ledger_inv (fold (ledger_step cfg) es (open_ledger st))"
  by (rule ledger.run_inv) (use assms in \<open>auto simp: sound_budgets_def ledger_inv_def balanced_def within_limits_def open_ledger_def\<close>)

text \<open>The literal store of the witnesses: one tracked session and one space.\<close>

definition sample_budget :: budget_status where
  "sample_budget = no_budget\<lparr>beKnown := True, beMaxTotal := 2000\<rparr>"

definition sample_session :: engine_session where
  "sample_session = \<lparr>ssID = ''s1'', ssTenant = ''acme'', ssRepo = ''.'', ssTask = ''t'', ssStatus = ''active'', ssStop = [],
     ssWriter = [], ssBudget = sample_budget, ssCreatedAt = 1\<rparr>"

definition sample_spaces :: space_store where
  "sample_spaces = empty_spaces\<lparr>ztSessions := [(''s1'', sample_session)]\<rparr>"

definition sample_call :: budget_call where
  "sample_call = \<lparr>bcTenant = Some ''acme'', bcSessionFails = False, bcSpaceFails = False, bcUpdateFails = False\<rparr>"

definition no_limits :: engine_limits where
  "no_limits = \<lparr>elStrict = False, elMaxIn = 0, elMaxOut = 0, elMaxTotal = 0, elMaxCost = 0\<rparr>"

lemma sample_sound: "sound_budgets sample_spaces"
proof -
  have "budget_at sample_spaces i = (if i = ''s1'' then Some sample_budget else None)" for i
    by (simp add: budget_at_def GetSession_def sample_spaces_def empty_spaces_def sample_session_def)
  moreover have "used m sample_budget \<le> limit m sample_budget" for m
    by (cases m) (simp_all add: sample_budget_def no_budget_def)
  moreover have "mirrored sample_spaces"
    by (simp add: mirrored_def sample_spaces_def empty_spaces_def)
  moreover have "beKnown sample_budget" by (simp add: sample_budget_def)
  ultimately show ?thesis by (simp add: sound_budgets_def)
qed

definition sample_run :: "budget_event list" where
  "sample_run = [BudgetReserve sample_call ''s1'' 200 1000, BudgetReserve sample_call ''s1'' 300 1000,
     BudgetRollback 1 sample_call, BudgetReserve sample_call ''s1'' 100 1000, BudgetCommit 0 sample_call 150 900 (1 / 100)]"

text \<open>C6: the books always balance: what the store records as used is what the committed invocations used
  plus what the open reservations hold, in every metric, for every session and space, after any
  sequence of reservations, commits and rollbacks, whichever of their store calls fail.\<close>
theorem budget_books_balance:
  assumes "sound_budgets st" and "l = fold (ledger_step cfg) es (open_ledger st)"
    and "budget_at (lgStore l) i = Some b"
  shows "used m b = lgSpent l i m + outstanding m i (lgOpen l)"
  using ledger_run [OF assms(1), of cfg es] assms(2,3) by (simp add: ledger_inv_def balanced_def)

theorem budget_books_balance_witness:
  "\<exists>l b. l = fold (ledger_step no_limits) sample_run (open_ledger sample_spaces) \<and> budget_at (lgStore l) ''s1'' = Some b
     \<and> used TotalTokens b = lgSpent l ''s1'' TotalTokens + outstanding TotalTokens ''s1'' (lgOpen l)
     \<and> used TotalTokens b = 1850 \<and> lgSpent l ''s1'' TotalTokens = 1050"
proof -
  let ?l = "fold (ledger_step no_limits) sample_run (open_ledger sample_spaces)"
  have r: "map_option (used TotalTokens) (budget_at (lgStore ?l) ''s1'') = Some 1850 \<and> lgSpent ?l ''s1'' TotalTokens = 1050"
    by code_simp
  then obtain b where b: "budget_at (lgStore ?l) ''s1'' = Some b" "used TotalTokens b = 1850" by auto
  show ?thesis
    using budget_books_balance [OF sample_sound refl b(1), of TotalTokens] b r by blast
qed

text \<open>C5: as long as no invocation uses more than it reserved, what was used and what is reserved stay
  within every configured limit together, at every moment of every run.\<close>
theorem budget_never_exceeded:
  assumes "sound_budgets st" and "l = fold (ledger_step cfg) es (open_ledger st)" and "\<not> lgOver l"
    and "budget_at (lgStore l) i = Some b" and "beKnown b" and "limit m b > 0"
  shows "lgSpent l i m + outstanding m i (lgOpen l) \<le> limit m b"
proof -
  have "used m b = lgSpent l i m + outstanding m i (lgOpen l)"
    using ledger_run [OF assms(1), of cfg es] assms(2,4) by (simp add: ledger_inv_def balanced_def)
  moreover have "used m b \<le> limit m b"
    using ledger_run [OF assms(1), of cfg es] assms(2-6) by (auto simp: ledger_inv_def within_limits_def)
  ultimately show ?thesis by simp
qed

theorem budget_never_exceeded_witness:
  "\<exists>l b. l = fold (ledger_step no_limits) sample_run (open_ledger sample_spaces) \<and> budget_at (lgStore l) ''s1'' = Some b
     \<and> lgSpent l ''s1'' TotalTokens + outstanding TotalTokens ''s1'' (lgOpen l) \<le> limit TotalTokens b
     \<and> limit TotalTokens b = 2000"
proof -
  let ?l = "fold (ledger_step no_limits) sample_run (open_ledger sample_spaces)"
  have r: "map_option (\<lambda>b. (limit TotalTokens b, beKnown b)) (budget_at (lgStore ?l) ''s1'') = Some (2000, True) \<and> \<not> lgOver ?l"
    by code_simp
  then obtain b where b: "budget_at (lgStore ?l) ''s1'' = Some b" "limit TotalTokens b = 2000" "beKnown b" by auto
  show ?thesis
    using budget_never_exceeded [OF sample_sound refl _ b(1,3), of TotalTokens] b r by auto
qed

definition tokens_used :: "budget_status \<Rightarrow> int \<times> int \<times> int" where
  "tokens_used b = (beUsedIn b, beUsedOut b, beUsedTotal b)"

lemma tokens_used_eqI:
  assumes "\<And>m. map_option (used m) x = map_option (used m) y"
  shows "map_option tokens_used x = map_option tokens_used y"
  using assms [of InputTokens] assms [of OutputTokens] assms [of TotalTokens]
  by (cases x; cases y) (simp_all add: tokens_used_def)

text \<open>C16: rolling a reservation back restores the token usage of every account exactly (input, output and total), and leaves a
  reservation that no later rollback can charge again. The cost is a \<open>float64\<close> in the code, where adding and then subtracting the
  estimate can leave a rounding error, so nothing is said of it.\<close>
theorem rollback_restores:
  assumes "mirrored st" and "reserveBudget cfg k i estIn estOut st = (Inr r, st1)"
    and "rollbackBudget k r st1 = (None, r', st2)"
  shows "(\<forall>j. map_option tokens_used (budget_at st2 j) = map_option tokens_used (budget_at st j))
    \<and> (\<forall>k'. rollbackBudget k' r' st2 = (None, r', st2))"
proof -
  have change: "mirrored st1 \<and> rvSession r = i \<and> (\<forall>m. map_option (used m) (budget_at st1 j) =
      map_option (\<lambda>b. used m b + (if j = i then held m r else 0)) (budget_at st j))
      \<and> (\<forall>b m. budget_at st1 i = Some b \<longrightarrow> \<not> beKnown b \<longrightarrow> held m r = 0)" for j
    using assms(2,1)
  proof (cases rule: reserve_cases)
    case kept
    then have "rvSession r = i \<and> (\<forall>m. held m r = 0)" by simp
    then show ?thesis using kept(1) assms(1) by (simp cong: option.map_cong)
  next
    case (taken b r0)
    then show ?thesis using plan_reservation_simps(1) [OF taken(5)] by (simp add: used_add_usage held_def)
  qed
  then have mir: "mirrored st1" and r: "rvSession r = i" by blast+
  have "map_option (used m) (budget_at st2 j) =
      map_option (\<lambda>b. used m b - (if j = i then held m r else 0)) (budget_at st1 j) \<and> rvSession r' = []" for j m
    using assms(3) mir
  proof (cases rule: rollback_cases)
    case kept
    then have "rvSession r' = []" "i = []" using r by auto
    moreover have "held m r = 0" using assms(2) \<open>i = []\<close> by (auto simp: reserveBudget_def)
    ultimately show ?thesis using kept(1) by (simp cong: option.map_cong)
  next
    case (untracked b)
    then have "held m r = 0" using change r by blast
    then show ?thesis using untracked by (simp cong: option.map_cong)
  next
    case (settled b)
    then show ?thesis using r by (simp add: used_add_usage amount_uminus held_def)
  qed
  then have restored: "map_option (used m) (budget_at st2 j) = map_option (used m) (budget_at st j) \<and> rvSession r' = []" for j m
    using change [of j] by (cases "budget_at st1 j"; cases "budget_at st j"; force)
  have "map_option tokens_used (budget_at st2 j) = map_option tokens_used (budget_at st j)" for j
    by (rule tokens_used_eqI) (use restored in blast)
  then show ?thesis using restored by (simp add: rollbackBudget_def)
qed

definition sample_reserved :: "reservation \<times> space_store" where
  "sample_reserved = (case reserveBudget no_limits sample_call ''s1'' 200 1000 sample_spaces of
     (Inr r, st) \<Rightarrow> (r, st) | (Inl _, st) \<Rightarrow> (unlimited [] 0, st))"

definition sample_rolled :: "budget_error option \<times> reservation \<times> space_store" where
  "sample_rolled = rollbackBudget sample_call (fst sample_reserved) (snd sample_reserved)"

theorem rollback_restores_witness:
  "rvOut (fst sample_reserved) = 1000 \<and>
   (\<forall>j. map_option tokens_used (budget_at (snd (snd sample_rolled)) j) = map_option tokens_used (budget_at sample_spaces j))"
proof -
  have a: "reserveBudget no_limits sample_call ''s1'' 200 1000 sample_spaces = (Inr (fst sample_reserved), snd sample_reserved)"
    by code_simp
  have b: "rollbackBudget sample_call (fst sample_reserved) (snd sample_reserved) =
      (None, fst (snd sample_rolled), snd (snd sample_rolled))"
    by code_simp
  have "mirrored sample_spaces" using sample_sound by (simp add: sound_budgets_def)
  moreover have "rvOut (fst sample_reserved) = 1000" by code_simp
  ultimately show ?thesis using rollback_restores [OF _ a b] by blast
qed

end
