(* ===== verification/Spaces.thy ===== *)
theory Spaces
  imports BudgetLedger MeshCommit
begin

text \<open>
  Identities and tenants (\<open>internal/tenant/context.go\<close>), sessions and collaboration spaces
  (\<open>internal/collaboration/space.go\<close>, the session and subscription operations of
  \<open>internal/collaboration/engine.go\<close>), and who may use a channel of a space. The clock and generated
  identifiers are arguments. Emitted events are left out.
\<close>

subsection \<open>Identities\<close>

record identity =
  idSubject :: string
  idTenant :: string
  idRoles :: "string list"
  idScopes :: "string list"

datatype tenant_error = ErrUnauthenticated | ErrTenantMismatch | ErrForbidden

definition ValidRole :: "text_lib \<Rightarrow> string \<Rightarrow> bool" where
  "ValidRole lib role \<longleftrightarrow> ToLower lib (TrimSpace lib role) \<in> set [''owner'', ''admin'', ''operator'', ''reviewer'', ''member'']"

definition ValidIdentity :: "text_lib \<Rightarrow> identity \<Rightarrow> bool" where
  "ValidIdentity lib i \<longleftrightarrow> TrimSpace lib (idSubject i) \<noteq> [] \<and> TrimSpace lib (idTenant i) \<noteq> []"

definition IdentityHasRole :: "text_lib \<Rightarrow> identity \<Rightarrow> string \<Rightarrow> bool" where
  "IdentityHasRole lib i role \<longleftrightarrow> TrimSpace lib role \<in> set (idRoles i)"

definition HasScope :: "text_lib \<Rightarrow> identity \<Rightarrow> string \<Rightarrow> bool" where
  "HasScope lib i scope \<longleftrightarrow>
     (if scope = [] then True
      else if ''owner'' \<in> set (idRoles i) \<or> ''admin'' \<in> set (idRoles i) then True
      else TrimSpace lib scope \<in> set (idScopes i))"

text \<open>The context of a request is the identity it carries, if any.\<close>

definition WithIdentity :: "text_lib \<Rightarrow> identity \<Rightarrow> identity option" where
  "WithIdentity lib i = Some (i\<lparr>idTenant := TrimSpace lib (idTenant i), idSubject := TrimSpace lib (idSubject i)\<rparr>)"

definition FromContext :: "text_lib \<Rightarrow> identity option \<Rightarrow> tenant_error + identity" where
  "FromContext lib ctx =
     (case ctx of None \<Rightarrow> Inl ErrUnauthenticated
      | Some i \<Rightarrow> if ValidIdentity lib i then Inr i else Inl ErrUnauthenticated)"

definition RequireTenant :: "text_lib \<Rightarrow> identity option \<Rightarrow> string \<Rightarrow> tenant_error + identity" where
  "RequireTenant lib ctx requested =
     bind_res (FromContext lib ctx) (\<lambda>i.
       let requested = TrimSpace lib requested in
       if requested \<noteq> [] \<and> requested \<noteq> idTenant i then Inl ErrTenantMismatch else Inr i)"

definition AuthorizeTenant :: "text_lib \<Rightarrow> identity option \<Rightarrow> string \<Rightarrow> string \<Rightarrow> string \<Rightarrow> tenant_error option" where
  "AuthorizeTenant lib ctx requested role scope =
     (case RequireTenant lib ctx requested of
        Inl e \<Rightarrow> Some e
      | Inr i \<Rightarrow> err_then (require (role = [] \<or> IdentityHasRole lib i role) ErrForbidden)
                         (require (scope = [] \<or> HasScope lib i scope) ErrForbidden))"

text \<open>The tenant the engine attributes a request to.\<close>

definition context_tenant :: "text_lib \<Rightarrow> identity option \<Rightarrow> string option" where
  "context_tenant lib ctx = (case FromContext lib ctx of Inl _ \<Rightarrow> None | Inr i \<Rightarrow> Some (idTenant i))"

subsection \<open>Configured agents\<close>

record agent_config = agent_executor +
  agKind :: string
  agAdapter :: string
  agRole :: string
  agRoles :: "string list"
  agMode :: string
  agIsLocal :: bool
  agClass :: string
  agRelativeCost :: rat
  agReview :: bool
  agAnswerQuestions :: bool
  agSubmitEvidence :: bool
  agWriteRepository :: bool

type_synonym agents = "(string \<times> agent_config) list"

definition external_agent :: "text_lib \<Rightarrow> agent_config \<Rightarrow> bool" where
  "external_agent lib a \<longleftrightarrow> IsExternal lib (agent_executor.truncate a)"

subsection \<open>Sessions\<close>

datatype engine_error =
    WriterConflictError string "string list"
  | SessionNotFoundError string
  | SpaceNotFoundError string
  | ChannelNotFoundError string string
  | ParticipantPausedError string string
  | HumanInterruptedError string
  | CollaborationCycleDetectedError string string int
  | EngineFailure msg

text \<open>The first two writable agents in the order of the map range, if there are two.\<close>

definition writers :: "agents \<Rightarrow> string list" where
  "writers as = map fst (filter (axWritable \<circ> snd) as)"

definition initial_budget :: "engine_limits \<Rightarrow> budget_status" where
  "initial_budget cfg = \<lparr>beKnown = (limits_set cfg \<or> elStrict cfg), beStrict = elStrict cfg, beMaxIn = elMaxIn cfg, beUsedIn = 0,
     beMaxOut = elMaxOut cfg, beUsedOut = 0, beMaxTotal = elMaxTotal cfg, beUsedTotal = 0, beMaxCost = elMaxCost cfg, beUsedCost = 0\<rparr>"

definition CreateSession ::
  "text_lib \<Rightarrow> agents \<Rightarrow> engine_limits \<Rightarrow> identity option \<Rightarrow> string \<Rightarrow> string \<Rightarrow> string \<Rightarrow> string \<Rightarrow> int
     \<Rightarrow> space_store \<Rightarrow> (engine_error + engine_session) \<times> space_store" where
  "CreateSession lib as cfg ctx repo fresh i task now st =
     (let i = (if i = [] then fresh else i) in
      case writers as of
        w1 # w2 # _ \<Rightarrow> (Inl (WriterConflictError ''multiple writable participants configured for session'' [w1, w2]), st)
      | ws \<Rightarrow>
          let s = \<lparr>ssID = i, ssTenant = (case context_tenant lib ctx of None \<Rightarrow> [] | Some t \<Rightarrow> t), ssRepo = repo, ssTask = task,
                   ssStatus = ''active'', ssStop = [], ssWriter = (case ws of [] \<Rightarrow> [] | w # _ \<Rightarrow> w), ssBudget = initial_budget cfg,
                   ssCreatedAt = now\<rparr>
          in (Inr s, SaveSession s st))"

definition tenant_session :: "text_lib \<Rightarrow> identity option \<Rightarrow> string \<Rightarrow> space_store \<Rightarrow> engine_session option" where
  "tenant_session lib ctx i st =
     (case context_tenant lib ctx of None \<Rightarrow> GetSession i st | Some t \<Rightarrow> GetSessionForTenant i t st)"

definition StopSession :: "text_lib \<Rightarrow> identity option \<Rightarrow> string \<Rightarrow> string \<Rightarrow> space_store \<Rightarrow> engine_error option \<times> space_store" where
  "StopSession lib ctx i reason st =
     (case tenant_session lib ctx i st of
        None \<Rightarrow> (Some (SessionNotFoundError i), st)
      | Some _ \<Rightarrow>
          (case UpdateSessionStatus i ''completed'' reason st of
            None \<Rightarrow> (Some (SessionNotFoundError i), st)
          | Some st' \<Rightarrow> (None, st')))"

subsection \<open>Spaces\<close>

definition DefaultChannels :: "string \<Rightarrow> int \<Rightarrow> (string \<times> space_channel) list" where
  "DefaultChannels i now = map (\<lambda>n. (n, \<lparr>hcID = n, hcSpace = i, hcName = n, hcVisibility = VisibleAll, hcParticipants = [],
       hcCapabilities = [], hcCreatedBy = ''system'', hcCreatedAt = now\<rparr>))
     [''general'', ''architecture'', ''security'', ''testing'', ''findings'', ''decisions'']"

definition configured_participant :: "int \<Rightarrow> string \<times> agent_config \<Rightarrow> string \<times> space_participant" where
  "configured_participant now na =
     (let (n, a) = na in
      (n, \<lparr>tpID = n, tpAdapter = agKind a, tpExecution = execution_mode (axMode a), tpRoles = agRoles a, tpCapabilities = [],
           tpMode = (if agMode a = ''read-only'' then ModePassive else ModeActive), tpWritable = axWritable a, tpJoinedAt = now\<rparr>))"

definition default_subscription :: "string \<Rightarrow> string \<Rightarrow> int \<Rightarrow> space_participant \<Rightarrow> subscription" where
  "default_subscription uid i now p =
     \<lparr>ubID = uid, ubSpace = i, ubParticipant = tpID p, ubChannels = [''general'', ''findings'', ''decisions''],
      ubEventTypes = [''finding.created'', ''decision.created'', ''message.created''], ubScopePatterns = [], ubMode = tpMode p,
      ubCreatedAt = now\<rparr>"

text \<open>
  \<open>given\<close> is the map of participants in the order it is ranged over, or \<open>None\<close> for the configured
  agents.
\<close>

definition writable_ids :: "(string \<times> space_participant) list \<Rightarrow> string list" where
  "writable_ids ps = map (tpID \<circ> snd) (filter (tpWritable \<circ> snd) ps)"

definition CreateSpace ::
  "agents \<Rightarrow> engine_limits \<Rightarrow> string option \<Rightarrow> string \<Rightarrow> int \<Rightarrow> string \<Rightarrow> string \<Rightarrow> string \<Rightarrow> string \<Rightarrow> string
     \<Rightarrow> (string \<times> space_participant) list option \<Rightarrow> space_store \<Rightarrow> (engine_error + collab_space) \<times> space_store" where
  "CreateSpace as cfg tenant fresh now i workspace title purpose writer given st =
     (let i = (if i = [] then fresh else i);
          workspace = (if workspace = [] then ''.'' else workspace);
          ps = (case given of None \<Rightarrow> map (configured_participant now) as | Some ps \<Rightarrow> ps);
          ws = writable_ids ps;
          writer = (if writer = [] then (case ws of [] \<Rightarrow> [] | w # _ \<Rightarrow> w) else writer)
      in if length ws > 1 then (Inl (WriterConflictError
           ''collaboration space cannot have more than 1 writable participant'' ws), st)
      else
        let z = \<lparr>zsID = i, zsWorkspace = workspace, zsTitle = title, zsPurpose = purpose, zsState = SpaceActive, zsWriter = writer,
                 zsBudget = initial_budget cfg, zsTenant = tenant, zsCreatedAt = now, zsParticipants = ps, zsChannels = DefaultChannels i now\<rparr>
        in (Inr z, fold (\<lambda>(_, p). SaveSubscription (default_subscription (''sub_'' @ tpID p @ ''_default'') i now p)) ps (SaveSpace z st)))"

definition AddParticipant :: "string \<Rightarrow> int \<Rightarrow> string \<Rightarrow> space_participant \<Rightarrow> space_store \<Rightarrow> engine_error option \<times> space_store" where
  "AddParticipant nano now i p st =
     (case GetSpace i st of
        None \<Rightarrow> (Some (SpaceNotFoundError i), st)
      | Some z \<Rightarrow>
          if tpWritable p \<and> zsWriter z \<noteq> [] \<and> zsWriter z \<noteq> tpID p
          then (Some (WriterConflictError ''space already has writer'' [zsWriter z]), st)
          else (None, SaveSubscription (default_subscription (''sub_'' @ tpID p @ ''_'' @ nano) i now p) (AddSpaceParticipant i p st)))"

definition set_lifecycle :: "space_state \<Rightarrow> string \<Rightarrow> space_store \<Rightarrow> engine_error option \<times> space_store" where
  "set_lifecycle s i st = (case UpdateSpaceLifecycle i s st of None \<Rightarrow> (Some (SpaceNotFoundError i), st) | Some st' \<Rightarrow> (None, st'))"

definition CreateChannel :: "int \<Rightarrow> space_channel \<Rightarrow> space_store \<Rightarrow> engine_error option \<times> space_store" where
  "CreateChannel now c st =
     (if hcID c = [] then (Some (EngineFailure (plain ''channel ID cannot be empty'')), st)
      else if hcSpace c = [] then (Some (EngineFailure (plain ''space ID cannot be empty'')), st)
      else (None, StoreChannel (c\<lparr>hcVisibility := (if hcVisibility c = VisibleUnset then VisibleAll else hcVisibility c),
                                  hcCreatedAt := (if hcCreatedAt c = 0 then now else hcCreatedAt c)\<rparr>) st))"

definition SetParticipantMode :: "string \<Rightarrow> string \<Rightarrow> participant_mode \<Rightarrow> space_store \<Rightarrow> engine_error option \<times> space_store" where
  "SetParticipantMode i p m st =
     (case UpdateParticipantMode i p m st of
        None \<Rightarrow> (Some (EngineFailure (Msg ''participant %q in space %q not found'' [AS p, AS i])), st)
      | Some st' \<Rightarrow> (None, st'))"

subsection \<open>Access to a channel\<close>

definition member_of :: "collab_space \<Rightarrow> string \<Rightarrow> space_participant option" where
  "member_of z p = find (\<lambda>q. tpID q = p) (map snd (zsParticipants z))"

definition checkChannelAccess :: "collab_space \<Rightarrow> space_channel option \<Rightarrow> string \<Rightarrow> engine_error option" where
  "checkChannelAccess z ch p =
     (if p = [] then Some (EngineFailure (plain ''participant ID cannot be empty''))
      else if p = ''user'' \<or> p = ''admin''
      then require (zsWriter z = p \<or> p \<in> fst ` set (zsParticipants z))
             (EngineFailure (Msg ''caller %q is not authorized as user/admin for space %q'' [AS p, AS (zsID z)]))
      else case member_of z p of
        None \<Rightarrow> Some (EngineFailure (Msg ''participant %q is not a member of space %q'' [AS p, AS (zsID z)]))
      | Some q \<Rightarrow>
          (case ch of None \<Rightarrow> None
           | Some c \<Rightarrow>
              (case hcVisibility c of
                 VisibleParticipants \<Rightarrow> require (p \<in> set (hcParticipants c))
                   (EngineFailure (Msg ''participant %q is not authorized to access channel %q'' [AS p, AS (hcID c)]))
               | VisibleCapabilities \<Rightarrow> require (\<exists>a\<in>set (hcCapabilities c). a \<in> set (tpCapabilities q))
                   (EngineFailure (Msg ''participant %q lacks required capabilities to access channel %q'' [AS p, AS (hcID c)]))
               | _ \<Rightarrow> None)))"

definition Subscribe :: "string \<Rightarrow> int \<Rightarrow> subscription \<Rightarrow> space_store \<Rightarrow> engine_error option \<times> space_store" where
  "Subscribe nano now u st =
     (let u = u\<lparr>ubID := (if ubID u = [] then ''sub_'' @ nano else ubID u),
                 ubCreatedAt := (if ubCreatedAt u = 0 then now else ubCreatedAt u)\<rparr> in
      if ubSpace u \<noteq> [] \<and> ubSpace u \<noteq> ''*''
      then (case GetSpace (ubSpace u) st of
          None \<Rightarrow> (Some (SpaceNotFoundError (ubSpace u)), st)
        | Some z \<Rightarrow>
            (case first_err (\<lambda>c. case GetChannel (ubSpace u) c st of None \<Rightarrow> None
                             | Some ch \<Rightarrow> checkChannelAccess z (Some ch) (ubParticipant u)) (ubChannels u) of
              Some e \<Rightarrow> (Some e, st)
            | None \<Rightarrow> (None, SaveSubscription u st)))
      else (None, SaveSubscription u st))"

subsection \<open>One writer\<close>

text \<open>In a space that records a writer, only that participant is writable, and rows are kept under their identifiers.\<close>

definition one_writer :: "space_store \<Rightarrow> bool" where
  "one_writer st \<longleftrightarrow>
     (\<forall>i q p. map_of (ztParticipants st) (i, q) = Some p \<longrightarrow> tpID p = q \<and>
        (\<forall>row. map_of (ztSpaces st) i = Some row \<longrightarrow> zsWriter row \<noteq> [] \<longrightarrow> tpWritable p \<longrightarrow> q = zsWriter row))"

datatype space_event =
    NewSpace agents engine_limits "string option" string int string string string string string "(string \<times> space_participant) list option"
  | JoinSpace string int string space_participant
  | ChangeMode string string participant_mode
  | ChangeLifecycle space_state string
  | NewChannel int space_channel
  | NewSubscription string int subscription
  | NewBudget string budget_status

fun space_step :: "space_event \<Rightarrow> space_store \<Rightarrow> space_store" where
  "space_step (NewSpace as cfg tenant fresh now i workspace title purpose writer given) st =
     snd (CreateSpace as cfg tenant fresh now i workspace title purpose writer given st)"
| "space_step (JoinSpace nano now i p) st = snd (AddParticipant nano now i p st)"
| "space_step (ChangeMode i p m) st = snd (SetParticipantMode i p m st)"
| "space_step (ChangeLifecycle s i) st = snd (set_lifecycle s i st)"
| "space_step (NewChannel now c) st = snd (CreateChannel now c st)"
| "space_step (NewSubscription nano now u) st = snd (Subscribe nano now u st)"
| "space_step (NewBudget i b) st = (case UpdateBudget i b st of None \<Rightarrow> st | Some st' \<Rightarrow> st')"

lemma space_frames [simp]:
  "ztParticipants (SaveSubscription u st) = ztParticipants st" "ztSpaces (SaveSubscription u st) = ztSpaces st"
  "ztParticipants (StoreChannel c st) = ztParticipants st" "ztSpaces (StoreChannel c st) = ztSpaces st"
  "ztSpaces (AddSpaceParticipant i p st) = ztSpaces st"
  by (simp_all add: SaveSubscription_def StoreChannel_def AddSpaceParticipant_def)

lemma one_writer_cong:
  assumes "one_writer st"
    and "\<And>i q p. map_of (ztParticipants st') (i, q) = Some p \<Longrightarrow>
           \<exists>p0. map_of (ztParticipants st) (i, q) = Some p0 \<and> tpID p = tpID p0 \<and> tpWritable p = tpWritable p0"
    and "\<And>i row. map_of (ztSpaces st') i = Some row \<Longrightarrow> \<exists>row0. map_of (ztSpaces st) i = Some row0 \<and> zsWriter row = zsWriter row0"
  shows "one_writer st'"
  unfolding one_writer_def
proof (intro allI impI)
  fix i q p assume p: "map_of (ztParticipants st') (i, q) = Some p"
  obtain p0 where p0: "map_of (ztParticipants st) (i, q) = Some p0" "tpID p = tpID p0" "tpWritable p = tpWritable p0"
    using assms(2) [OF p] by blast
  show "tpID p = q \<and> (\<forall>row. map_of (ztSpaces st') i = Some row \<longrightarrow> zsWriter row \<noteq> [] \<longrightarrow> tpWritable p \<longrightarrow> q = zsWriter row)"
    using assms(1) p0 assms(3) unfolding one_writer_def by metis
qed

lemma AddParticipant_one_writer:
  assumes "one_writer st"
  shows "one_writer (snd (AddParticipant nano now i p st))"
proof (cases "GetSpace i st")
  case (Some z)
  then obtain row where row: "map_of (ztSpaces st) i = Some row" "zsWriter z = zsWriter row"
    by (auto simp: GetSpace_def space_row.defs split: option.splits)
  show ?thesis
  proof (cases "tpWritable p \<and> zsWriter z \<noteq> [] \<and> zsWriter z \<noteq> tpID p")
    case False
    let ?st = "AddSpaceParticipant i p st"
    have "map_of (ztParticipants ?st) (j, q) = (if j = i \<and> q = tpID p
        then Some (case map_of (ztParticipants st) (i, tpID p) of None \<Rightarrow> p\<lparr>tpExecution := execution_mode (tpExecution p)\<rparr>
                   | Some old \<Rightarrow> merge_participant old (p\<lparr>tpExecution := execution_mode (tpExecution p)\<rparr>))
        else map_of (ztParticipants st) (j, q))" for j q
      by (auto simp: AddSpaceParticipant_def map_of_upsert)
    then have "one_writer ?st"
      using assms False row by (auto simp: one_writer_def merge_participant_def split: option.splits if_splits)
    then show ?thesis
      using Some False by (auto simp: AddParticipant_def one_writer_def)
  qed (use assms Some in \<open>simp add: AddParticipant_def\<close>)
qed (use assms in \<open>simp add: AddParticipant_def\<close>)

text \<open>A space is created properly if its identifier is not in use and no other participant than the named writer is writable.
  The code asks for neither.\<close>

definition proper_creation :: "space_event \<Rightarrow> space_store \<Rightarrow> bool" where
  "proper_creation e st = (case e of
       NewSpace as cfg tenant fresh now i workspace title purpose writer given \<Rightarrow>
         (let i = (if i = [] then fresh else i); ps = (case given of None \<Rightarrow> map (configured_participant now) as | Some ps \<Rightarrow> ps) in
          map_of (ztSpaces st) i = None \<and> i \<notin> fst ` fst ` set (ztParticipants st)
          \<and> (writer = [] \<or> list_all (\<lambda>(_, p). tpWritable p \<longrightarrow> tpID p = writer) ps))
     | _ \<Rightarrow> True)"

fun properly_created :: "space_event list \<Rightarrow> space_store \<Rightarrow> bool" where
  "properly_created [] st = True"
| "properly_created (e # es) st = (proper_creation e st \<and> properly_created es (space_step e st))"

lemma added_participants:
  assumes "\<And>q p. map_of (ztParticipants st) (i, q) = Some p \<Longrightarrow> tpID p = q \<and> (tpWritable p \<longrightarrow> q \<in> W)"
    and "\<And>x. x \<in> set ps \<Longrightarrow> tpWritable (snd x) \<Longrightarrow> tpID (snd x) \<in> W"
  shows "(\<forall>q p. map_of (ztParticipants (fold (\<lambda>(_, p). AddSpaceParticipant i p) ps st)) (i, q) = Some p \<longrightarrow> tpID p = q \<and> (tpWritable p \<longrightarrow> q \<in> W))
    \<and> (\<forall>j q. j \<noteq> i \<longrightarrow> map_of (ztParticipants (fold (\<lambda>(_, p). AddSpaceParticipant i p) ps st)) (j, q) = map_of (ztParticipants st) (j, q))
    \<and> ztSpaces (fold (\<lambda>(_, p). AddSpaceParticipant i p) ps st) = ztSpaces st"
  using assms
proof (induction ps arbitrary: st)
  case (Cons x ps)
  let ?st = "AddSpaceParticipant i (snd x) st"
  have row: "map_of (ztParticipants ?st) (j, q) = (if j = i \<and> q = tpID (snd x)
      then Some (case map_of (ztParticipants st) (i, q) of None \<Rightarrow> (snd x)\<lparr>tpExecution := execution_mode (tpExecution (snd x))\<rparr>
                 | Some old \<Rightarrow> merge_participant old ((snd x)\<lparr>tpExecution := execution_mode (tpExecution (snd x))\<rparr>))
      else map_of (ztParticipants st) (j, q))" for j q
    by (auto simp: AddSpaceParticipant_def map_of_upsert)
  have "tpID p = q \<and> (tpWritable p \<longrightarrow> q \<in> W)" if p: "map_of (ztParticipants ?st) (i, q) = Some p" for q p
  proof (cases "q = tpID (snd x)")
    case True
    have "tpWritable (snd x) \<Longrightarrow> tpID (snd x) \<in> W" using Cons.prems(2) by simp
    moreover have "tpID p = q \<and> tpWritable p = tpWritable (snd x)"
    proof (cases "map_of (ztParticipants st) (i, q)")
      case None
      then have "p = (snd x)\<lparr>tpExecution := execution_mode (tpExecution (snd x))\<rparr>" using p by (simp add: row True)
      then show ?thesis using True by simp
    next
      case (Some old)
      then have "p = merge_participant old ((snd x)\<lparr>tpExecution := execution_mode (tpExecution (snd x))\<rparr>)" using p by (simp add: row True)
      moreover have "tpID old = q" using Cons.prems(1) [OF Some] by (rule conjunct1)
      ultimately show ?thesis by (simp add: merge_participant_def)
    qed
    ultimately show ?thesis using True by simp
  next
    case False
    then have "map_of (ztParticipants st) (i, q) = Some p" using p by (simp add: row)
    then show ?thesis by (rule Cons.prems(1))
  qed
  note kept = this
  have "x' \<in> set ps \<Longrightarrow> tpWritable (snd x') \<Longrightarrow> tpID (snd x') \<in> W" for x' using Cons.prems(2) by simp
  note IH = Cons.IH [of ?st, OF kept this]
  have eq: "fold (\<lambda>(_, p). AddSpaceParticipant i p) (x # ps) st = fold (\<lambda>(_, p). AddSpaceParticipant i p) ps ?st"
    by (simp only: fold_simps case_prod_beta)
  have other: "map_of (ztParticipants ?st) (j, q) = map_of (ztParticipants st) (j, q)" if "j \<noteq> i" for j q using that row by simp
  show ?case unfolding eq
  proof (intro conjI allI impI)
    fix j q assume "j \<noteq> i"
    then show "map_of (ztParticipants (fold (\<lambda>(_, p). AddSpaceParticipant i p) ps ?st)) (j, q) = map_of (ztParticipants st) (j, q)"
      using conjunct1 [OF conjunct2 [OF IH]] other by metis
  next
    show "ztSpaces (fold (\<lambda>(_, p). AddSpaceParticipant i p) ps ?st) = ztSpaces st"
      using conjunct2 [OF conjunct2 [OF IH]] by (simp only: space_frames)
  qed (use conjunct1 [OF IH] in blast)+
qed simp

lemma fold_channels_frame:
  "ztParticipants (fold (\<lambda>(_, c). StoreChannel (c\<lparr>hcSpace := i\<rparr>)) cs st) = ztParticipants st
   \<and> ztSpaces (fold (\<lambda>(_, c). StoreChannel (c\<lparr>hcSpace := i\<rparr>)) cs st) = ztSpaces st"
  by (induction cs arbitrary: st) auto

lemma fold_subscriptions_frame:
  "ztParticipants (fold (\<lambda>(_, p). SaveSubscription (f p)) ps st) = ztParticipants st
   \<and> ztSpaces (fold (\<lambda>(_, p). SaveSubscription (f p)) ps st) = ztSpaces st"
  by (induction ps arbitrary: st) auto

lemma writable_ids_iff: "n \<in> set (writable_ids ps) \<longleftrightarrow> (\<exists>x\<in>set ps. tpWritable (snd x) \<and> tpID (snd x) = n)"
  by (auto simp: writable_ids_def)

lemma CreateSpace_one_writer:
  assumes one: "one_writer st"
    and proper: "proper_creation (NewSpace as cfg tenant fresh now i workspace title purpose writer given) st"
  shows "one_writer (snd (CreateSpace as cfg tenant fresh now i workspace title purpose writer given st))"
proof -
  define n where "n = (if i = [] then fresh else i)"
  define ps where "ps = (case given of None \<Rightarrow> map (configured_participant now) as | Some ps \<Rightarrow> ps)"
  define w where "w = (if writer = [] then (case writable_ids ps of [] \<Rightarrow> [] | x # _ \<Rightarrow> x) else writer)"
  have new: "map_of (ztSpaces st) n = None" "n \<notin> fst ` fst ` set (ztParticipants st)"
    and named: "writer = [] \<or> list_all (\<lambda>(_, p). tpWritable p \<longrightarrow> tpID p = writer) ps"
    using proper by (simp_all add: proper_creation_def n_def [symmetric] ps_def [symmetric] Let_def)
  show ?thesis
  proof (cases "length (writable_ids ps) > 1")
    case True
    then show ?thesis using one by (simp add: CreateSpace_def Let_def ps_def [symmetric])
  next
    case False
    define st1 where "st1 = snd (CreateSpace as cfg tenant fresh now i workspace title purpose writer given st)"
    define row where "row = \<lparr>zsID = n, zsWorkspace = (if workspace = [] then ''.'' else workspace), zsTitle = title, zsPurpose = purpose,
      zsState = SpaceActive, zsWriter = w, zsBudget = initial_budget cfg, zsTenant = tenant, zsCreatedAt = now\<rparr>"
    define st0 where "st0 = st\<lparr>ztSpaces := upsert merge_space n row (ztSpaces st), ztSessions := upsert merge_mirror n (mirror_session row) (ztSessions st)\<rparr>"
    have st1: "ztParticipants st1 = ztParticipants (fold (\<lambda>(_, p). AddSpaceParticipant n p) ps st0)"
      "ztSpaces st1 = ztSpaces (fold (\<lambda>(_, p). AddSpaceParticipant n p) ps st0)"
      using False
      by (simp_all add: st1_def CreateSpace_def Let_def ps_def [symmetric] n_def [symmetric] w_def [symmetric] SaveSpace_def
          fold_channels_frame fold_subscriptions_frame
          st0_def row_def space_row.defs)
    have free: "map_of (ztParticipants st0) (n, q) = None" for q
      using new(2) by (auto simp: st0_def map_of_eq_None_iff image_iff)
    have only: "x \<in> set ps \<Longrightarrow> tpWritable (snd x) \<Longrightarrow> tpID (snd x) \<in> {w}" for x
    proof -
      assume x: "x \<in> set ps" "tpWritable (snd x)"
      then have "tpID (snd x) \<in> set (writable_ids ps)" by (auto simp: writable_ids_iff)
      then obtain y ys where ws: "writable_ids ps = y # ys" by (cases "writable_ids ps") auto
      then have "writable_ids ps = [y]" using False by (cases ys) auto
      then show "tpID (snd x) \<in> {w}"
        using \<open>tpID (snd x) \<in> set (writable_ids ps)\<close> named x by (auto simp: w_def list_all_iff case_prod_beta)
    qed
    note added = added_participants [of st0 n "{w}" ps, OF _ only]
    have rows: "map_of (ztSpaces st1) j = (if j = n then Some row else map_of (ztSpaces st) j)" for j
      using added free new(1) by (simp add: st1(2) st0_def map_of_upsert)
    have parts: "map_of (ztParticipants st1) (j, q) = map_of (ztParticipants st) (j, q)" if "j \<noteq> n" for j q
      using added free that by (simp add: st1(1)) (simp add: st0_def)
    have here: "tpID p = q \<and> (tpWritable p \<longrightarrow> q = w)" if "map_of (ztParticipants st1) (n, q) = Some p" for q p
      using added free that by (simp add: st1(1))
    have "zsWriter row = w" by (simp add: row_def)
    then have "one_writer st1"
      using one parts here rows unfolding one_writer_def by (metis option.inject)
    then show ?thesis by (simp add: st1_def)
  qed
qed

definition proper_step :: "space_event \<Rightarrow> space_store \<Rightarrow> space_store" where
  "proper_step e st = (if proper_creation e st then space_step e st else st)"

lemma properly_created_run: "properly_created es st \<Longrightarrow> fold space_step es st = fold proper_step es st"
  by (induction es arbitrary: st) (simp_all add: proper_step_def)

lemma space_step_one_writer: "one_writer st \<Longrightarrow> proper_creation e st \<Longrightarrow> one_writer (space_step e st)"
proof (cases e)
  case (NewSpace as cfg tenant fresh now i workspace title purpose writer given)
  assume "one_writer st" "proper_creation e st"
  then show ?thesis unfolding NewSpace by (simp add: CreateSpace_one_writer)
next
  case (ChangeMode i p m)
  assume "one_writer st"
  then show ?thesis
    unfolding ChangeMode
    by (rule one_writer_cong) (auto simp: SetParticipantMode_def UpdateParticipantMode_def map_of_update_row split: if_splits option.splits)
next
  case (ChangeLifecycle s i)
  assume "one_writer st"
  then show ?thesis
    unfolding ChangeLifecycle
    by (rule one_writer_cong) (auto simp: set_lifecycle_def UpdateSpaceLifecycle_def map_of_update_row split: if_splits)
next
  case (NewBudget i b)
  assume "one_writer st"
  then show ?thesis
    unfolding NewBudget
    by (rule one_writer_cong) (auto simp: UpdateBudget_def map_of_update_row split: if_splits)
next
  case (NewSubscription nano now u)
  assume "one_writer st"
  then show ?thesis
    unfolding NewSubscription by (rule one_writer_cong) (auto simp: Subscribe_def Let_def split: option.splits if_splits)
next
  case (NewChannel now c)
  assume "one_writer st"
  then show ?thesis unfolding NewChannel by (auto simp: CreateChannel_def one_writer_def)
qed (simp add: AddParticipant_one_writer)

interpretation space_life: state_machine proper_step one_writer
  by unfold_locales (simp add: proper_step_def space_step_one_writer)

text \<open>C22: a space that records a writer never gets a second writable participant: whoever creates spaces, joins, changes mode,
  opens channels or subscribes, in any order, the recorded writer stays the only writable participant, provided that no space
  is created under an identifier in use and none with another writable participant than the writer it names.\<close>
theorem recorded_writer_is_only_writer:
  assumes "one_writer st" and "properly_created es st" and "st' = fold space_step es st"
    and "map_of (ztSpaces st') i = Some row" and "zsWriter row \<noteq> []"
    and "map_of (ztParticipants st') (i, q) = Some p" and "tpWritable p"
  shows "q = zsWriter row \<and> tpID p = q"
  using space_life.run_inv [OF assms(1), of es] properly_created_run [OF assms(2)] assms(3-7) by (auto simp: one_writer_def)

definition sample_participant :: "string \<Rightarrow> bool \<Rightarrow> space_participant" where
  "sample_participant n w = \<lparr>tpID = n, tpAdapter = ''fake'', tpExecution = ''managed'', tpRoles = [], tpCapabilities = [],
     tpMode = ModeActive, tpWritable = w, tpJoinedAt = 1\<rparr>"

definition sample_row :: "string \<Rightarrow> space_row" where
  "sample_row w = \<lparr>zsID = ''z'', zsWorkspace = ''.'', zsTitle = ''t'', zsPurpose = ''p'', zsState = SpaceActive, zsWriter = w,
     zsBudget = no_budget, zsTenant = None, zsCreatedAt = 1\<rparr>"

definition written_space :: space_store where
  "written_space = empty_spaces\<lparr>ztSpaces := [(''z'', sample_row ''codex'')],
     ztParticipants := [((''z'', ''codex''), sample_participant ''codex'' True)]\<rparr>"

definition sample_joins :: "space_event list" where
  "sample_joins = [JoinSpace ''1'' 2 ''z'' (sample_participant ''claude'' True), JoinSpace ''2'' 3 ''z'' (sample_participant ''claude'' False),
     NewSpace [] no_limits None [] 4 ''y'' [] ''u'' [] [] (Some [(''gemini'', sample_participant ''gemini'' True)]),
     ChangeMode ''z'' ''codex'' ModeOnDemand]"

theorem recorded_writer_is_only_writer_witness:
  "\<exists>p. map_of (ztParticipants (fold space_step sample_joins written_space)) (''z'', ''codex'') = Some p \<and> tpWritable p
     \<and> tpMode p = ModeOnDemand \<and> tpID p = ''codex''
     \<and> map_of (ztParticipants (fold space_step sample_joins written_space)) (''z'', ''claude'') \<noteq> None"
proof -
  let ?st = "fold space_step sample_joins written_space"
  have r: "map_option (\<lambda>p. (tpWritable p, tpMode p)) (map_of (ztParticipants ?st) (''z'', ''codex'')) = Some (True, ModeOnDemand)
      \<and> map_of (ztSpaces ?st) ''z'' = Some (sample_row ''codex'')
      \<and> map_option tpWritable (map_of (ztParticipants ?st) (''z'', ''claude'')) = Some False" by code_simp
  then obtain p where p: "map_of (ztParticipants ?st) (''z'', ''codex'') = Some p" "tpWritable p" "tpMode p = ModeOnDemand" by auto
  have "one_writer written_space"
    by (auto simp: one_writer_def written_space_def empty_spaces_def sample_row_def sample_participant_def split: if_splits)
  moreover have "properly_created sample_joins written_space" by code_simp
  ultimately have ok: "one_writer written_space" "properly_created sample_joins written_space" by simp_all
  from recorded_writer_is_only_writer [OF ok refl, of "''z''" "sample_row ''codex''" "''codex''" p] r p
  show ?thesis by (auto simp: sample_row_def)
qed

text \<open>Creating a space under an identifier in use adds a second writable participant, and so does a writer that is not the writable
  participant.\<close>

lemma recreated_space_gains_writer:
  "(let st = space_step (NewSpace [] no_limits None [] 4 ''z'' [] ''u'' [] [] (Some [(''claude'', sample_participant ''claude'' True)])) written_space in
     map_option tpWritable (map_of (ztParticipants st) (''z'', ''codex'')) = Some True
     \<and> map_option tpWritable (map_of (ztParticipants st) (''z'', ''claude'')) = Some True
     \<and> map_option zsWriter (map_of (ztSpaces st) ''z'') = Some ''claude'')"
  by code_simp

lemma named_writer_beside_writable:
  "(let st = space_step (NewSpace [] no_limits None [] 4 ''y'' [] ''u'' [] ''codex'' (Some [(''claude'', sample_participant ''claude'' True)])) written_space in
     map_option tpWritable (map_of (ztParticipants st) (''y'', ''claude'')) = Some True
     \<and> map_option zsWriter (map_of (ztSpaces st) ''y'') = Some ''codex'')"
  by code_simp

text \<open>A space created without a writable participant records no writer, and then takes any number of
  writable participants: joining never sets the writer.\<close>
theorem unrecorded_writer_admits_two:
  assumes "GetSpace i st = Some z" and "zsWriter z = []" and "tpID p \<noteq> tpID q" and "tpWritable p" and "tpWritable q"
    and "AddParticipant n1 t1 i p st = (e1, st1)" and "AddParticipant n2 t2 i q st1 = (e2, st2)"
  shows "e1 = None \<and> e2 = None \<and>
    (\<exists>a b. map_of (ztParticipants st2) (i, tpID p) = Some a \<and> map_of (ztParticipants st2) (i, tpID q) = Some b
       \<and> tpWritable a \<and> tpWritable b)"
proof -
  obtain row where row: "map_of (ztSpaces st) i = Some row" "zsWriter row = []"
    using assms(1,2) by (auto simp: GetSpace_def space_row.defs split: option.splits)
  have st1: "e1 = None" "ztSpaces st1 = ztSpaces st" "ztParticipants st1 = ztParticipants (AddSpaceParticipant i p st)"
    using assms(1,2,6) by (auto simp: AddParticipant_def)
  have "\<exists>z. GetSpace i st1 = Some z \<and> zsWriter z = []"
    using st1(2) row by (simp add: GetSpace_def space_row.defs)
  then have st2: "e2 = None" "ztParticipants st2 = ztParticipants (AddSpaceParticipant i q st1)"
    using assms(7) by (auto simp: AddParticipant_def)
  show ?thesis
    using assms(3-5) st1 st2
    by (auto simp: AddSpaceParticipant_def map_of_upsert merge_participant_def split: option.splits)
qed

theorem unrecorded_writer_admits_two_witness:
  "\<exists>st2 a b. map_of (ztParticipants st2) (''z'', ''codex'') = Some a \<and> map_of (ztParticipants st2) (''z'', ''claude'') = Some b
     \<and> tpWritable a \<and> tpWritable b
     \<and> st2 = space_step (JoinSpace ''2'' 3 ''z'' (sample_participant ''claude'' True))
         (space_step (JoinSpace ''1'' 2 ''z'' (sample_participant ''codex'' True)) (empty_spaces\<lparr>ztSpaces := [(''z'', sample_row [])]\<rparr>))"
proof -
  let ?st = "empty_spaces\<lparr>ztSpaces := [(''z'', sample_row [])]\<rparr>"
  let ?p = "sample_participant ''codex'' True" and ?q = "sample_participant ''claude'' True"
  obtain e1 st1 where a: "AddParticipant ''1'' 2 ''z'' ?p ?st = (e1, st1)" by (cases "AddParticipant ''1'' 2 ''z'' ?p ?st") auto
  obtain e2 st2 where b: "AddParticipant ''2'' 3 ''z'' ?q st1 = (e2, st2)" by (cases "AddParticipant ''2'' 3 ''z'' ?q st1") auto
  obtain z where z: "GetSpace ''z'' ?st = Some z" "zsWriter z = []"
    by (simp add: GetSpace_def space_row.defs sample_row_def)
  have p: "tpID ?p = ''codex''" "tpID ?q = ''claude''" "tpWritable ?p" "tpWritable ?q" "tpID ?p \<noteq> tpID ?q"
    by (simp_all add: sample_participant_def)
  have "st2 = space_step (JoinSpace ''2'' 3 ''z'' ?q) (space_step (JoinSpace ''1'' 2 ''z'' ?p) ?st)"
    using a b by simp
  then show ?thesis
    using unrecorded_writer_admits_two [OF z p(5,3,4) a b] p(1,2) by auto
qed

text \<open>Creating a session under an identifier that is in use hands the session over: the previous tenant no
  longer finds it, the caller's tenant does, and its usage starts again at zero.\<close>
theorem recreated_session_changes_hands:
  assumes "GetSession i st = Some s" and "i \<noteq> []" and "length (writers as) \<le> 1"
    and "context_tenant lib ctx = Some t" and "t \<noteq> ssTenant s" and "t \<noteq> []"
    and "CreateSession lib as cfg ctx repo fresh i task now st = (r, st')"
  shows "GetSessionForTenant i (ssTenant s) st' = None
    \<and> (\<exists>s'. GetSessionForTenant i t st' = Some s' \<and> (\<forall>m. used m (ssBudget s') = 0) \<and> ssTask s' = ssTask s)"
proof -
  define n where "n = \<lparr>ssID = i, ssTenant = t, ssRepo = repo, ssTask = task, ssStatus = ''active'', ssStop = [],
    ssWriter = (case writers as of [] \<Rightarrow> [] | w # _ \<Rightarrow> w), ssBudget = initial_budget cfg, ssCreatedAt = now\<rparr>"
  have "st' = SaveSession n st"
    using assms(2,3,4,7) unfolding n_def
    by (cases "writers as"; cases "tl (writers as)") (auto simp: CreateSession_def Let_def)
  then have "GetSession i st' = Some (merge_session s n)"
    using assms(1) by (simp add: SaveSession_def GetSession_def map_of_upsert n_def)
  moreover have "used m (initial_budget cfg) = 0" for m by (cases m) (simp_all add: initial_budget_def)
  ultimately show ?thesis
    using assms(5,6) by (simp add: GetSessionForTenant_def merge_session_def n_def)
qed

definition sample_text :: text_lib where
  "sample_text = \<lparr>TrimSpace = (\<lambda>s. s), CleanPath = (\<lambda>s. s), ToLower = (\<lambda>s. s), sha256hex = (\<lambda>s. s)\<rparr>"

theorem recreated_session_changes_hands_witness:
  "\<exists>st' s'. GetSessionForTenant ''s1'' ''rival'' st' = Some s' \<and> GetSessionForTenant ''s1'' ''acme'' st' = None
     \<and> used TotalTokens (ssBudget s') = 0"
proof -
  let ?s = "sample_session\<lparr>ssBudget := sample_budget\<lparr>beUsedTotal := 1999\<rparr>\<rparr>"
  let ?st = "empty_spaces\<lparr>ztSessions := [(''s1'', ?s)]\<rparr>"
  let ?ctx = "Some \<lparr>idSubject = ''eve'', idTenant = ''rival'', idRoles = [], idScopes = []\<rparr>"
  obtain r st' where c: "CreateSession sample_text [] no_limits ?ctx ''.'' ''hm_1'' ''s1'' ''t'' 5 ?st = (r, st')"
    by (cases "CreateSession sample_text [] no_limits ?ctx ''.'' ''hm_1'' ''s1'' ''t'' 5 ?st") auto
  have s: "GetSession ''s1'' ?st = Some ?s" by (simp add: GetSession_def)
  have t: "context_tenant sample_text ?ctx = Some ''rival''"
    by (simp add: context_tenant_def FromContext_def ValidIdentity_def sample_text_def)
  have "length (writers []) \<le> 1" by (simp add: writers_def)
  then have "GetSessionForTenant ''s1'' (ssTenant ?s) st' = None \<and>
      (\<exists>s'. GetSessionForTenant ''s1'' ''rival'' st' = Some s' \<and> (\<forall>m. used m (ssBudget s') = 0) \<and> ssTask s' = ssTask ?s)"
    using recreated_session_changes_hands [OF s _ _ t _ _ c] by (simp add: sample_session_def)
  moreover have "ssTenant ?s = ''acme''" by (simp add: sample_session_def)
  ultimately show ?thesis by metis
qed

end
