(* ===== verification/Activation.thy ===== *)
theory Activation
  imports Spaces "HOL-Library.Sublist"
begin

text \<open>
  The activation controller (\<open>internal/collaboration/activation.go\<close>): whether a participant of a space is
  to be run for a message or an event. It keeps, under its mutex, when a participant last ran and, for
  every thread, the recent payload hashes and the recent candidates. Times are nanoseconds.
\<close>

record envelope =
  nvID :: string
  nvSession :: string
  nvSpace :: string
  nvChannel :: string
  nvThread :: string
  nvFrom :: string
  nvTo :: string
  nvMentions :: "string list"
  nvDepth :: int
  nvReplyTo :: string
  nvScope :: "string list"
  nvPayload :: string
  nvCreatedAt :: int

record activation =
  aaLast :: "string \<Rightarrow> int option"
  aaHashes :: "string \<Rightarrow> string list"
  aaSenders :: "string \<Rightarrow> string list"

definition fresh_activation :: activation where
  "fresh_activation = \<lparr>aaLast = (\<lambda>_. None), aaHashes = (\<lambda>_. []), aaSenders = (\<lambda>_. [])\<rparr>"

definition colon_key :: "string \<Rightarrow> string \<Rightarrow> string" where
  "colon_key a b = a @ '':'' @ b"

definition default_cooldown :: "int \<Rightarrow> int" where
  "default_cooldown cd = (if cd \<le> 0 then 500 * 1000000 else cd)"

definition mentioned :: "string \<Rightarrow> string list \<Rightarrow> bool" where
  "mentioned p ms \<longleftrightarrow> (\<exists>m\<in>set ms. m = p \<or> m = ''@'' @ p)"

definition targeted :: "string \<Rightarrow> envelope \<Rightarrow> bool" where
  "targeted p env \<longleftrightarrow> nvTo env = p \<or> prefix (''participant:'' @ p) (nvTo env) \<or> mentioned p (nvMentions env)"

text \<open>The last ten entries of a history.\<close>

definition remember :: "'a \<Rightarrow> 'a list \<Rightarrow> 'a list" where
  "remember x xs = (let xs = xs @ [x] in if length xs > 10 then tl xs else xs)"

text \<open>\<open>hash\<close> is the hash of a payload.\<close>

definition detectCycle :: "(string \<Rightarrow> string) \<Rightarrow> string \<Rightarrow> string \<Rightarrow> string \<Rightarrow> envelope \<Rightarrow> activation \<Rightarrow> engine_error option \<times> activation" where
  "detectCycle hash space thread cand env ac =
     (let key = colon_key space thread; h = hash (nvPayload env);
          hs = aaHashes ac key; ss = aaSenders ac key; n = length ss;
          cycle = Some (CollaborationCycleDetectedError (nvFrom env) cand (nvDepth env))
      in if count_list hs h \<ge> 2 then (cycle, ac)
         else if nvDepth env > 3 \<and> n \<ge> 3 \<and> ss ! (n - 1) = nvFrom env \<and> ss ! (n - 2) = cand \<and> ss ! (n - 3) = nvFrom env
         then (cycle, ac)
         else (None, ac\<lparr>aaHashes := (aaHashes ac)(key := remember h hs), aaSenders := (aaSenders ac)(key := remember cand ss)\<rparr>))"

text \<open>The decision with its reason or error; \<open>env\<close> is absent when an event asks.\<close>

datatype verdict = Activate | Skip string | Refuse string engine_error

definition lifecycle_check :: "collab_space \<Rightarrow> space_participant \<Rightarrow> verdict option" where
  "lifecycle_check z p =
     (case zsState z of
        SpacePaused \<Rightarrow> Some (Refuse ''space_paused'' (ParticipantPausedError (tpID p) (zsID z)))
      | SpaceStopped \<Rightarrow> Some (Refuse ''space_stopped'' (HumanInterruptedError ''collaboration space is stopped''))
      | SpaceArchived \<Rightarrow> Some (Refuse ''space_stopped'' (HumanInterruptedError ''collaboration space is stopped''))
      | SpaceActive \<Rightarrow> None)"

definition mode_check :: "collab_space \<Rightarrow> space_participant \<Rightarrow> envelope option \<Rightarrow> verdict option" where
  "mode_check z p env =
     (case tpMode p of
        ModePaused \<Rightarrow> Some (Refuse ''participant_paused'' (ParticipantPausedError (tpID p) (zsID z)))
      | ModePassive \<Rightarrow> Some (Skip ''passive_mode'')
      | ModeOnDemand \<Rightarrow>
          if (case env of None \<Rightarrow> False | Some e \<Rightarrow> targeted (tpID p) e) then None else Some (Skip ''on_demand_not_mentioned'')
      | _ \<Rightarrow> None)"

definition ShouldActivate ::
  "(string \<Rightarrow> string) \<Rightarrow> int \<Rightarrow> int \<Rightarrow> collab_space \<Rightarrow> space_participant \<Rightarrow> envelope option \<Rightarrow> activation \<Rightarrow> verdict \<times> activation" where
  "ShouldActivate hash cooldown now z p env ac =
     (case lifecycle_check z p of
        Some v \<Rightarrow> (v, ac)
      | None \<Rightarrow>
     (case mode_check z p env of
        Some v \<Rightarrow> (v, ac)
      | None \<Rightarrow>
          if (case aaLast ac (colon_key (zsID z) (tpID p)) of None \<Rightarrow> False | Some t \<Rightarrow> now - t < cooldown)
          then (Skip ''cooldown_active'', ac)
          else (case env of
              None \<Rightarrow> (Activate, ac)
            | Some e \<Rightarrow>
                (case detectCycle hash (zsID z) (nvThread e) (tpID p) e ac of
                   (Some err, ac') \<Rightarrow> (Refuse ''cycle_detected'' err, ac')
                 | (None, ac') \<Rightarrow> (Activate, ac')))))"

definition MarkActivated :: "int \<Rightarrow> string \<Rightarrow> string \<Rightarrow> activation \<Rightarrow> activation" where
  "MarkActivated now space p ac = ac\<lparr>aaLast := (aaLast ac)(colon_key space p \<mapsto> now)\<rparr>"

subsection \<open>Privacy\<close>

definition contains :: "string \<Rightarrow> string \<Rightarrow> bool" where
  "contains s sub \<longleftrightarrow> list_ex (prefix sub) (suffixes s)"

definition sensitive_file :: "string \<Rightarrow> bool" where
  "sensitive_file f \<longleftrightarrow>
     list_ex (contains f) [''secret'', ''token'', ''credential'', ''id_rsa'', ''id_ed25519'', ''.env'']
     \<or> list_ex (\<lambda>x. suffix x f) [''.key'', ''.pem'', ''.p12'', ''.pfx'', ''.tfstate'']"

definition cloud_adapter :: "string \<Rightarrow> bool" where
  "cloud_adapter a \<longleftrightarrow> a \<in> set [''codex'', ''claude'', ''copilot''] \<or> contains a ''cloud'' \<or> contains a ''remote''"

definition CheckPrivacyPolicy :: "text_lib \<Rightarrow> space_participant \<Rightarrow> string list \<Rightarrow> msg option" where
  "CheckPrivacyPolicy lib p scope =
     first_err (\<lambda>f. require (\<not> (sensitive_file (ToLower lib f) \<and> cloud_adapter (ToLower lib (tpAdapter p))))
       (Msg ''policy denied: cloud adapter %q cannot access sensitive file %q'' [AS (tpAdapter p), AS f])) scope"

lemma CheckPrivacyPolicy_None:
  "CheckPrivacyPolicy lib p scope = None \<longleftrightarrow>
     (cloud_adapter (ToLower lib (tpAdapter p)) \<longrightarrow> (\<forall>f\<in>set scope. \<not> sensitive_file (ToLower lib f)))"
  by (auto simp: CheckPrivacyPolicy_def)

subsection \<open>When a participant runs\<close>

lemma remember_length: "length xs \<le> 10 \<Longrightarrow> length (remember x xs) \<le> 10"
  by (simp add: remember_def Let_def)

lemma ShouldActivate_Activate:
  assumes "ShouldActivate hash cd now z p env ac = (Activate, ac')"
  shows "zsState z = SpaceActive \<and> tpMode p \<notin> {ModePaused, ModePassive}
    \<and> (tpMode p = ModeOnDemand \<longrightarrow> (\<exists>e. env = Some e \<and> targeted (tpID p) e))
    \<and> (\<forall>t. aaLast ac (colon_key (zsID z) (tpID p)) = Some t \<longrightarrow> now - t \<ge> cd)"
  using assms
  by (auto simp: ShouldActivate_def lifecycle_check_def mode_check_def split: space_state.splits participant_mode.splits
      option.splits if_splits prod.splits)

text \<open>A candidate the check lets through leaves the hash of the payload in the thread's history.\<close>

lemma detectCycle_None:
  assumes "detectCycle hash space thread cand env ac = (None, ac')"
  shows "aaHashes ac' (colon_key space thread) = remember (hash (nvPayload env)) (aaHashes ac (colon_key space thread))"
    and "count_list (aaHashes ac (colon_key space thread)) (hash (nvPayload env)) < 2"
  using assms by (auto simp: detectCycle_def Let_def split: if_splits)

lemma count_remember:
  "count_list xs x < 2 \<Longrightarrow> count_list (remember x xs) x \<ge> 1"
  by (cases xs) (auto simp: remember_def Let_def)

end
