(* ===== verification/RetryQueue.thy ===== *)
theory RetryQueue
  imports MeshStore
begin

text \<open>
  The outbox of failed deliveries and its dead letters (\<open>internal/store/store.go\<close>), and the loop that
  claims due items and invokes their participants again (\<open>processRetryBatch\<close> in
  \<open>internal/collaboration/engine.go\<close>). Times are nanoseconds; a zero time is \<open>0\<close>.
\<close>

definition minutes :: "int \<Rightarrow> int" where
  "minutes n = n * 60 * 1000000000"

definition seconds :: "int \<Rightarrow> int" where
  "seconds n = n * 1000000000"

record retry_item =
  rtID :: string
  rtEvent :: string
  rtSpace :: string
  rtParticipant :: string
  rtPayload :: string
  rtAttempt :: int
  rtPriority :: int
  rtNext :: int
  rtError :: string
  rtCreatedAt :: int

record dead_letter =
  ltID :: string
  ltEvent :: string
  ltSpace :: string
  ltParticipant :: string
  ltPayload :: string
  ltAttempt :: int
  ltError :: string
  ltCreatedAt :: int
  ltDeadAt :: int

record retry_store =
  rqItems :: "(string \<times> retry_item) list"
  rqDead :: "(string \<times> dead_letter) list"

definition merge_retry :: "retry_item \<Rightarrow> retry_item \<Rightarrow> retry_item" where
  "merge_retry old new = old\<lparr>rtPayload := rtPayload new, rtAttempt := rtAttempt new, rtPriority := rtPriority new,
     rtNext := rtNext new, rtError := rtError new\<rparr>"

definition EnqueueRetry :: "int \<Rightarrow> retry_item \<Rightarrow> retry_store \<Rightarrow> msg option \<times> retry_store" where
  "EnqueueRetry now r st =
     (if rtID r = [] then (Some (plain ''retry item id is required''), st)
      else let r = r\<lparr>rtNext := (if rtNext r = 0 then now + seconds 5 else rtNext r),
                     rtCreatedAt := (if rtCreatedAt r = 0 then now else rtCreatedAt r),
                     rtPayload := (if rtPayload r = [] then ''{}'' else rtPayload r)\<rparr> in
        (None, st\<lparr>rqItems := upsert merge_retry (rtID r) r (rqItems st)\<rparr>))"

definition claim_limit :: "int \<Rightarrow> nat" where
  "claim_limit n = nat (if n \<le> 0 \<or> n > 1000 then 100 else n)"

text \<open>Due items by descending priority, then by their time; rows with equal keys keep the order of insertion.\<close>

definition due_items :: "int \<Rightarrow> retry_store \<Rightarrow> retry_item list" where
  "due_items now st =
     sort_key (\<lambda>r. - rtPriority r) (sort_key rtNext (filter (\<lambda>r. rtNext r \<le> now) (map snd (rqItems st))))"

text \<open>The writes a batch makes; which of them fail is an argument \<open>fails\<close>. A claim is one transaction.\<close>

datatype retry_write = ClaimWrite | BuryWrite string | DeleteWrite string | RescheduleWrite string | DeferWrite string

definition write_failure :: "msg option" where
  "write_failure = Some (plain ''write failed'')"

definition ClaimRetries :: "(retry_write \<Rightarrow> bool) \<Rightarrow> int \<Rightarrow> int \<Rightarrow> retry_store \<Rightarrow> retry_item list \<times> retry_store" where
  "ClaimRetries fails now n st =
     (if fails ClaimWrite then ([], st)
      else let items = map (\<lambda>r. r\<lparr>rtAttempt := rtAttempt r + 1\<rparr>) (take (claim_limit n) (due_items now st)) in
      (items, st\<lparr>rqItems := fold (\<lambda>r. update_row (rtID r) (\<lambda>x. x\<lparr>rtAttempt := rtAttempt r, rtNext := now + minutes 5\<rparr>))
                 items (rqItems st)\<rparr>))"

definition remove_item :: "string \<Rightarrow> retry_store \<Rightarrow> retry_store" where
  "remove_item i st = st\<lparr>rqItems := filter (\<lambda>(k, _). k \<noteq> i) (rqItems st)\<rparr>"

definition bury :: "int \<Rightarrow> string \<Rightarrow> retry_item \<Rightarrow> dead_letter" where
  "bury now err r = \<lparr>ltID = rtID r, ltEvent = rtEvent r, ltSpace = rtSpace r, ltParticipant = rtParticipant r, ltPayload = rtPayload r,
     ltAttempt = rtAttempt r, ltError = err, ltCreatedAt = rtCreatedAt r, ltDeadAt = now\<rparr>"

text \<open>A dead letter stays when the item cannot be deleted after it.\<close>

definition CompleteRetry ::
  "(retry_write \<Rightarrow> bool) \<Rightarrow> int \<Rightarrow> string \<Rightarrow> bool \<Rightarrow> int \<Rightarrow> string \<Rightarrow> retry_store \<Rightarrow> msg option \<times> retry_store" where
  "CompleteRetry fails now i again next err st =
     (if \<not> again
      then if err = [] then (if fails (DeleteWrite i) then (write_failure, st) else (None, remove_item i st))
        else if fails (BuryWrite i) then (write_failure, st)
        else let st = (case map_of (rqItems st) i of None \<Rightarrow> st
                 | Some r \<Rightarrow> st\<lparr>rqDead := AList.update i (bury now err r) (rqDead st)\<rparr>)
          in if fails (DeleteWrite i) then (write_failure, st) else (None, remove_item i st)
      else if fails (RescheduleWrite i) then (write_failure, st)
      else (None, st\<lparr>rqItems := update_row i (\<lambda>r. r\<lparr>rtNext := (if next = 0 then now + minutes 5 else next), rtError := err\<rparr>) (rqItems st)\<rparr>))"

text \<open>Waiting for a provider's reset does not use an attempt.\<close>

definition DeferRetry :: "(retry_write \<Rightarrow> bool) \<Rightarrow> int \<Rightarrow> string \<Rightarrow> int \<Rightarrow> string \<Rightarrow> retry_store \<Rightarrow> msg option \<times> retry_store" where
  "DeferRetry fails now i next err st =
     (if fails (DeferWrite i) then (write_failure, st)
      else (None, st\<lparr>rqItems := update_row i
        (\<lambda>r. r\<lparr>rtAttempt := (if rtAttempt r > 0 then rtAttempt r - 1 else 0),
              rtNext := (if next = 0 then now + minutes 15 else next), rtError := err\<rparr>) (rqItems st)\<rparr>))"

definition RequeueDeadLetter :: "int \<Rightarrow> string \<Rightarrow> int \<Rightarrow> int \<Rightarrow> retry_store \<Rightarrow> msg option \<times> retry_store" where
  "RequeueDeadLetter now i next priority st =
     (case map_of (rqDead st) i of
        None \<Rightarrow> (Some (plain ''sql: no rows in result set''), st)
      | Some d \<Rightarrow>
          (None, st\<lparr>rqItems := upsert (\<lambda>old new. old\<lparr>rtAttempt := rtAttempt new, rtPriority := rtPriority new, rtNext := rtNext new,
                                             rtError := rtError new\<rparr>) i
                     \<lparr>rtID = ltID d, rtEvent = ltEvent d, rtSpace = ltSpace d, rtParticipant = ltParticipant d, rtPayload = ltPayload d,
                      rtAttempt = 0, rtPriority = priority, rtNext = (if next = 0 then now else next), rtError = ltError d,
                      rtCreatedAt = ltCreatedAt d\<rparr> (rqItems st),
                   rqDead := filter (\<lambda>(k, _). k \<noteq> i) (rqDead st)\<rparr>))"

subsection \<open>The retry loop\<close>

text \<open>What an invocation answers: success, or an error with its classes and the reset time a provider names.\<close>

record invoke_failure =
  ifError :: string
  ifQuota :: bool
  ifTransient :: bool
  ifResetAt :: "int option"

text \<open>\<open>wait\<close> is the configured fallback for quota limits.\<close>

definition quota_next :: "int \<Rightarrow> int \<Rightarrow> invoke_failure \<Rightarrow> int" where
  "quota_next wait now e = (case ifResetAt e of Some t \<Rightarrow> if t > now + wait then t else now + wait | None \<Rightarrow> now + wait)"

text \<open>\<open>answer\<close> is \<open>None\<close> when no harness of the participant is registered. Errors of the writes are discarded.\<close>

definition retry_one ::
  "(retry_write \<Rightarrow> bool) \<Rightarrow> int \<Rightarrow> int \<Rightarrow> (retry_item \<Rightarrow> invoke_failure option option) \<Rightarrow> retry_item \<Rightarrow> retry_store \<Rightarrow> retry_store" where
  "retry_one fails wait now answer r st =
     snd (case answer r of
        None \<Rightarrow> CompleteRetry fails now (rtID r) (rtAttempt r < 5) (now + minutes 5) ''participant harness unavailable'' st
      | Some None \<Rightarrow> CompleteRetry fails now (rtID r) False 0 [] st
      | Some (Some e) \<Rightarrow>
          if ifQuota e then DeferRetry fails now (rtID r) (quota_next wait now e) (ifError e) st
          else if \<not> ifTransient e \<or> rtAttempt r \<ge> 5 then CompleteRetry fails now (rtID r) False 0 (ifError e) st
          else CompleteRetry fails now (rtID r) True (now + minutes (rtAttempt r * rtAttempt r)) (ifError e) st)"

text \<open>A batch: its time, the writes that fail, and what the participants answer. It gives the items it invokes, and the queue it leaves.\<close>

record retry_batch =
  bxNow :: int
  bxFails :: "retry_write \<Rightarrow> bool"
  bxAnswer :: "retry_item \<Rightarrow> invoke_failure option option"

definition processRetryBatch :: "int \<Rightarrow> retry_batch \<Rightarrow> retry_store \<Rightarrow> retry_item list \<times> retry_store" where
  "processRetryBatch wait b st =
     (let (items, st) = ClaimRetries (bxFails b) (bxNow b) 20 st in
      (filter (\<lambda>r. bxAnswer b r \<noteq> None) items, fold (retry_one (bxFails b) wait (bxNow b) (bxAnswer b)) items st))"

subsection \<open>What a batch does to one item\<close>

definition well_keyed :: "retry_store \<Rightarrow> bool" where
  "well_keyed st \<longleftrightarrow> distinct (map fst (rqItems st)) \<and> (\<forall>k r. map_of (rqItems st) k = Some r \<longrightarrow> rtID r = k)"

definition complete_row :: "(retry_write \<Rightarrow> bool) \<Rightarrow> int \<Rightarrow> string \<Rightarrow> bool \<Rightarrow> int \<Rightarrow> string \<Rightarrow> retry_item option \<Rightarrow> retry_item option" where
  "complete_row fails now i again next err x =
     (if \<not> again then if err \<noteq> [] \<and> fails (BuryWrite i) \<or> fails (DeleteWrite i) then x else None
      else if fails (RescheduleWrite i) then x
      else map_option (\<lambda>r. r\<lparr>rtNext := (if next = 0 then now + minutes 5 else next), rtError := err\<rparr>) x)"

definition defer_row :: "(retry_write \<Rightarrow> bool) \<Rightarrow> int \<Rightarrow> string \<Rightarrow> int \<Rightarrow> string \<Rightarrow> retry_item option \<Rightarrow> retry_item option" where
  "defer_row fails now i next err x =
     (if fails (DeferWrite i) then x
      else map_option (\<lambda>r. r\<lparr>rtAttempt := (if rtAttempt r > 0 then rtAttempt r - 1 else 0),
              rtNext := (if next = 0 then now + minutes 15 else next), rtError := err\<rparr>) x)"

definition retry_effect ::
  "(retry_write \<Rightarrow> bool) \<Rightarrow> int \<Rightarrow> int \<Rightarrow> (retry_item \<Rightarrow> invoke_failure option option) \<Rightarrow> retry_item \<Rightarrow> retry_item option \<Rightarrow> retry_item option" where
  "retry_effect fails wait now answer r x =
     (case answer r of
        None \<Rightarrow> complete_row fails now (rtID r) (rtAttempt r < 5) (now + minutes 5) ''participant harness unavailable'' x
      | Some None \<Rightarrow> complete_row fails now (rtID r) False 0 [] x
      | Some (Some e) \<Rightarrow>
          if ifQuota e then defer_row fails now (rtID r) (quota_next wait now e) (ifError e) x
          else if \<not> ifTransient e \<or> rtAttempt r \<ge> 5 then complete_row fails now (rtID r) False 0 (ifError e) x
          else complete_row fails now (rtID r) True (now + minutes (rtAttempt r * rtAttempt r)) (ifError e) x)"

lemma map_of_remove: "map_of (filter (\<lambda>(k, _). k \<noteq> i) rows) j = (if j = i then None else map_of rows j)"
  by (induction rows) auto

lemma CompleteRetry_items:
  "map_of (rqItems (snd (CompleteRetry fails now i again next err st))) j =
     (if j = i then complete_row fails now i again next err (map_of (rqItems st) i) else map_of (rqItems st) j)"
  by (auto simp: CompleteRetry_def complete_row_def remove_item_def map_of_remove map_of_update_row Let_def split: option.splits)

lemma DeferRetry_items:
  "map_of (rqItems (snd (DeferRetry fails now i next err st))) j =
     (if j = i then defer_row fails now i next err (map_of (rqItems st) i) else map_of (rqItems st) j)"
  by (auto simp: DeferRetry_def defer_row_def map_of_update_row)

lemma retry_one_items:
  "map_of (rqItems (retry_one fails wait now answer r st)) i =
     (if i = rtID r then retry_effect fails wait now answer r (map_of (rqItems st) i) else map_of (rqItems st) i)"
  by (simp add: retry_one_def retry_effect_def CompleteRetry_items DeferRetry_items split: option.splits)

text \<open>A loop whose steps each change the row of their own key.\<close>

lemma fold_rows:
  assumes "\<And>x st i. x \<in> set xs \<Longrightarrow> look (f x st) i = (if i = key x then g x (look st i) else look st i)"
    and "distinct (map key xs)"
  shows "look (fold f xs st) i = (case find (\<lambda>x. key x = i) xs of None \<Rightarrow> look st i | Some x \<Rightarrow> g x (look st i))"
  using assms
proof (induction xs arbitrary: st)
  case (Cons x xs)
  have "look (fold f xs (f x st)) i = (case find (\<lambda>x. key x = i) xs of None \<Rightarrow> look (f x st) i | Some y \<Rightarrow> g y (look (f x st) i))"
    using Cons.prems by (intro Cons.IH) auto
  moreover have "find (\<lambda>x. key x = i) xs = None" if "key x = i"
    using Cons.prems(2) that by (auto simp: find_None_iff) (metis imageI)
  ultimately show ?case
    using Cons.prems(1) [of x st i] by (auto split: option.splits)
qed simp

lemma set_due_items: "set (due_items now st) = {r \<in> snd ` set (rqItems st). rtNext r \<le> now}"
  by (auto simp: due_items_def)

lemma distinct_due_items:
  assumes "well_keyed st"
  shows "distinct (map rtID (due_items now st))"
proof -
  have "map (rtID \<circ> snd) (rqItems st) = map fst (rqItems st)"
    using assms by (auto simp: well_keyed_def)
  moreover have "distinct (map fst (rqItems st))" using assms by (simp add: well_keyed_def)
  ultimately have "distinct (map rtID (map snd (rqItems st)))"
    unfolding map_map by metis
  then have "distinct (map rtID (filter (\<lambda>r. rtNext r \<le> now) (map snd (rqItems st))))"
    by (rule distinct_map_filter)
  then show ?thesis
    by (simp add: due_items_def distinct_map)
qed

definition claimed :: "(retry_write \<Rightarrow> bool) \<Rightarrow> int \<Rightarrow> string \<Rightarrow> retry_store \<Rightarrow> retry_item option" where
  "claimed fails now i st = find (\<lambda>r. rtID r = i) (fst (ClaimRetries fails now 20 st))"

lemma distinct_claimed:
  assumes "well_keyed st"
  shows "distinct (map rtID (fst (ClaimRetries fails now 20 st)))"
  using distinct_due_items [OF assms, of now] distinct_take [of "map rtID (due_items now st)" "claim_limit 20"]
  by (simp add: ClaimRetries_def Let_def comp_def take_map)

lemma claimed_row:
  assumes "well_keyed st" and "claimed fails now i st = Some r"
  shows "\<exists>x. map_of (rqItems st) i = Some x \<and> r = x\<lparr>rtAttempt := rtAttempt x + 1\<rparr>"
proof -
  have "r \<in> set (fst (ClaimRetries fails now 20 st))" "rtID r = i"
    using assms(2) by (auto simp: claimed_def find_Some_iff)
  then obtain x where x: "x \<in> set (due_items now st)" "r = x\<lparr>rtAttempt := rtAttempt x + 1\<rparr>"
    by (auto simp: ClaimRetries_def Let_def dest: in_set_takeD split: if_splits)
  then obtain k where k: "map_of (rqItems st) k = Some x"
    using assms(1) by (auto simp: set_due_items well_keyed_def)
  then have "k = i"
    using assms(1) x(2) \<open>rtID r = i\<close> by (auto simp: well_keyed_def)
  with k x(2) show ?thesis by blast
qed

lemma batch_items:
  assumes "well_keyed st"
  shows "map_of (rqItems (snd (processRetryBatch wait b st))) i =
    (case claimed (bxFails b) (bxNow b) i st of
       None \<Rightarrow> map_of (rqItems st) i
     | Some r \<Rightarrow> retry_effect (bxFails b) wait (bxNow b) (bxAnswer b) r
         (map_option (\<lambda>x. x\<lparr>rtAttempt := rtAttempt r, rtNext := bxNow b + minutes 5\<rparr>) (map_of (rqItems st) i)))"
proof (cases "bxFails b ClaimWrite")
  case True
  then show ?thesis by (simp add: processRetryBatch_def claimed_def ClaimRetries_def)
next
  case False
  let ?claim = "ClaimRetries (bxFails b) (bxNow b) 20 st"
  let ?items = "fst ?claim" and ?st = "snd ?claim"
  note dist = distinct_claimed [OF assms, of "bxFails b" "bxNow b"]
  have "map_of (rqItems ?st) i = map_of (fold (\<lambda>r. update_row (rtID r) (\<lambda>x. x\<lparr>rtAttempt := rtAttempt r, rtNext := bxNow b + minutes 5\<rparr>))
      ?items (rqItems st)) i"
    using False by (simp add: ClaimRetries_def Let_def)
  also have "\<dots> = (case claimed (bxFails b) (bxNow b) i st of None \<Rightarrow> map_of (rqItems st) i
      | Some r \<Rightarrow> map_option (\<lambda>x. x\<lparr>rtAttempt := rtAttempt r, rtNext := bxNow b + minutes 5\<rparr>) (map_of (rqItems st) i))"
    unfolding claimed_def by (rule fold_rows [OF _ dist]) (simp add: map_of_update_row)
  finally have a: "map_of (rqItems ?st) i = \<dots>" .
  have "map_of (rqItems (fold (retry_one (bxFails b) wait (bxNow b) (bxAnswer b)) ?items ?st)) i =
      (case claimed (bxFails b) (bxNow b) i st of None \<Rightarrow> map_of (rqItems ?st) i
       | Some r \<Rightarrow> retry_effect (bxFails b) wait (bxNow b) (bxAnswer b) r (map_of (rqItems ?st) i))"
    unfolding claimed_def by (rule fold_rows [OF _ dist, where look = "\<lambda>st. map_of (rqItems st)"]) (simp add: retry_one_items)
  then show ?thesis
    by (simp add: processRetryBatch_def case_prod_beta a split: option.splits)
qed

lemma well_keyed_update:
  assumes "well_keyed st" and "\<And>r. rtID (f r) = rtID r"
  shows "well_keyed (st\<lparr>rqItems := update_row i f (rqItems st)\<rparr>)"
  using assms by (auto simp: well_keyed_def map_of_update_row)

lemma well_keyed_remove: "well_keyed st \<Longrightarrow> well_keyed (remove_item i st)"
  by (auto simp: well_keyed_def remove_item_def map_of_remove distinct_map_filter split: if_splits)

lemma well_keyed_dead [simp]: "well_keyed (st\<lparr>rqDead := d\<rparr>) = well_keyed st"
  by (simp add: well_keyed_def)

lemma well_keyed_complete: "well_keyed st \<Longrightarrow> well_keyed (snd (CompleteRetry fails now i again next err st))"
  by (auto simp: CompleteRetry_def Let_def intro!: well_keyed_update well_keyed_remove split: option.splits)

lemma well_keyed_retry_one: "well_keyed st \<Longrightarrow> well_keyed (retry_one fails wait now answer r st)"
  by (auto simp: retry_one_def DeferRetry_def well_keyed_complete intro!: well_keyed_update split: option.splits)

lemma well_keyed_batch:
  assumes "well_keyed st"
  shows "well_keyed (snd (processRetryBatch wait b st))"
proof -
  have "well_keyed (st\<lparr>rqItems := fold (\<lambda>r. update_row (rtID r) (\<lambda>x. x\<lparr>rtAttempt := rtAttempt r, rtNext := bxNow b + minutes 5\<rparr>))
      items (rqItems st)\<rparr>)" for items
    using assms
  proof (induction items arbitrary: st)
    case (Cons r items)
    from Cons.IH [OF well_keyed_update [OF Cons.prems, of "\<lambda>x. x\<lparr>rtAttempt := rtAttempt r, rtNext := bxNow b + minutes 5\<rparr>" "rtID r"]]
    show ?case by simp
  qed simp
  note claim = this
  have "well_keyed (snd (ClaimRetries (bxFails b) (bxNow b) 20 st))"
    by (cases "bxFails b ClaimWrite") (simp_all only: ClaimRetries_def Let_def if_True if_False snd_conv assms claim)
  moreover have "well_keyed st \<Longrightarrow> well_keyed (fold (retry_one (bxFails b) wait (bxNow b) (bxAnswer b)) items st)" for items st
    by (induction items arbitrary: st) (simp_all add: well_keyed_retry_one)
  ultimately show ?thesis by (simp add: processRetryBatch_def case_prod_beta)
qed

subsection \<open>Bounded retries\<close>

definition invokes :: "int \<Rightarrow> retry_batch \<Rightarrow> string \<Rightarrow> retry_store \<Rightarrow> bool" where
  "invokes wait b i st \<longleftrightarrow> i \<in> rtID ` set (fst (processRetryBatch wait b st))"

text \<open>A batch that is not held against an item: the item itself meets a quota limit, or it is done and the write that removes it fails.\<close>

definition excused :: "retry_batch \<Rightarrow> string \<Rightarrow> retry_store \<Rightarrow> bool" where
  "excused b i st = (case claimed (bxFails b) (bxNow b) i st of
       None \<Rightarrow> False
     | Some r \<Rightarrow> (case bxAnswer b r of Some (Some e) \<Rightarrow> ifQuota e | _ \<Rightarrow> False)
         \<or> bxFails b (BuryWrite i) \<or> bxFails b (DeleteWrite i))"

text \<open>How many batches of a run invoke the participant of an item, and how many of them are excused.\<close>

fun invocations :: "int \<Rightarrow> string \<Rightarrow> retry_batch list \<Rightarrow> retry_store \<Rightarrow> nat" where
  "invocations wait i [] st = 0"
| "invocations wait i (b # bs) st =
     (if invokes wait b i st then 1 else 0) + invocations wait i bs (snd (processRetryBatch wait b st))"

fun excuses :: "int \<Rightarrow> string \<Rightarrow> retry_batch list \<Rightarrow> retry_store \<Rightarrow> nat" where
  "excuses wait i [] st = 0"
| "excuses wait i (b # bs) st =
     (if invokes wait b i st \<and> excused b i st then 1 else 0) + excuses wait i bs (snd (processRetryBatch wait b st))"

definition attempts_left :: "string \<Rightarrow> retry_store \<Rightarrow> nat" where
  "attempts_left i st = (case map_of (rqItems st) i of None \<Rightarrow> 0 | Some r \<Rightarrow> nat (max 1 (5 - rtAttempt r)))"

lemma invokes_claimed:
  assumes "invokes wait b i st" and "well_keyed st"
  shows "\<exists>r. claimed (bxFails b) (bxNow b) i st = Some r \<and> bxAnswer b r \<noteq> None"
proof -
  let ?items = "fst (ClaimRetries (bxFails b) (bxNow b) 20 st)"
  obtain r where r: "r \<in> set ?items" "bxAnswer b r \<noteq> None" "rtID r = i"
    using assms(1) by (auto simp: invokes_def processRetryBatch_def case_prod_beta)
  then obtain x where x: "claimed (bxFails b) (bxNow b) i st = Some x"
    unfolding claimed_def by (cases "find (\<lambda>r. rtID r = i) ?items") (auto simp: find_None_iff)
  moreover have "x \<in> set ?items" "rtID x = i"
    using x by (auto simp: claimed_def find_Some_iff)
  ultimately show ?thesis using r distinct_claimed [OF assms(2)] by (metis distinct_map inj_onD)
qed

lemma batch_uses_attempt:
  assumes "well_keyed st"
  shows "(if invokes wait b i st then 1 else 0) + attempts_left i (snd (processRetryBatch wait b st))
    \<le> attempts_left i st + (if invokes wait b i st \<and> excused b i st then 1 else 0)"
proof (cases "claimed (bxFails b) (bxNow b) i st")
  case None
  then have "\<not> invokes wait b i st"
    using invokes_claimed [OF _ assms] by fastforce
  then show ?thesis
    using None by (simp add: attempts_left_def batch_items [OF assms])
next
  case (Some r)
  obtain x where x: "map_of (rqItems st) i = Some x" "r = x\<lparr>rtAttempt := rtAttempt x + 1\<rparr>"
    using claimed_row [OF assms Some] by blast
  have i: "rtID r = i" using Some by (auto simp: claimed_def find_Some_iff)
  have inv: "invokes wait b i st \<Longrightarrow> bxAnswer b r \<noteq> None"
    using invokes_claimed [OF _ assms] Some by fastforce
  let ?y = "x\<lparr>rtAttempt := rtAttempt r, rtNext := bxNow b + minutes 5\<rparr>"
  let ?q = "retry_effect (bxFails b) wait (bxNow b) (bxAnswer b) r (Some ?y)"
  have after: "map_of (rqItems (snd (processRetryBatch wait b st))) i = ?q"
    using batch_items [OF assms, of wait b i] Some x(1) by simp
  have "excused b i st \<and> (\<exists>z. ?q = Some z \<and> rtAttempt z \<ge> min (rtAttempt x) 0 \<and> rtAttempt z \<ge> rtAttempt x) \<or> ?q = None
      \<or> (\<exists>z. ?q = Some z \<and> rtAttempt z = rtAttempt x + 1 \<and> rtAttempt x + 1 < 5)"
    using x(2) Some i
    by (auto simp: retry_effect_def complete_row_def defer_row_def excused_def split: option.splits)
  then show ?thesis
    using x(1) inv by (auto simp: attempts_left_def after)
qed

text \<open>C29: retries of a delivery are bounded: over any number of batches at any times, whatever the other items meet and whichever
  writes fail, the participant of an item is invoked at most as often as the item has attempts left, four times after its first
  failure. Not held against the item are the invocations in which it meets a quota limit itself, and those after which the write
  that should remove it fails: the error is discarded and the item is claimed again.\<close>
theorem retries_bounded:
  assumes "well_keyed st"
  shows "invocations wait i bs st \<le> attempts_left i st + excuses wait i bs st"
  using assms
proof (induction bs arbitrary: st)
  case (Cons b bs)
  have "invocations wait i bs (snd (processRetryBatch wait b st))
      \<le> attempts_left i (snd (processRetryBatch wait b st)) + excuses wait i bs (snd (processRetryBatch wait b st))"
    using Cons.prems by (intro Cons.IH well_keyed_batch)
  then show ?case
    using batch_uses_attempt [OF Cons.prems, of wait b i] by simp
qed simp

definition sample_retry :: "string \<Rightarrow> retry_item" where
  "sample_retry i = \<lparr>rtID = i, rtEvent = ''m1'', rtSpace = ''z'', rtParticipant = ''claude'', rtPayload = ''{}'', rtAttempt = 1,
     rtPriority = 0, rtNext = 0, rtError = ''timeout'', rtCreatedAt = 0\<rparr>"

text \<open>One item always times out, the other one is always limited; in the first batch the deletion of the first item would fail.\<close>

definition sample_retry_batch :: "nat \<Rightarrow> retry_batch" where
  "sample_retry_batch n = \<lparr>bxNow = minutes (60 * int n), bxFails = (\<lambda>w. w = DeleteWrite ''d1'' \<and> n = 4),
     bxAnswer = (\<lambda>r. Some (Some \<lparr>ifError = ''timeout'', ifQuota = (rtID r = ''d2''), ifTransient = True, ifResetAt = None\<rparr>))\<rparr>"

definition sample_queue :: retry_store where
  "sample_queue = \<lparr>rqItems = [(''d1'', sample_retry ''d1''), (''d2'', sample_retry ''d2'')], rqDead = []\<rparr>"

theorem retries_bounded_witness:
  "invocations 0 ''d1'' (map sample_retry_batch [1..<8]) sample_queue \<le> attempts_left ''d1'' sample_queue + excuses 0 ''d1'' (map sample_retry_batch [1..<8]) sample_queue
   \<and> invocations 0 ''d1'' (map sample_retry_batch [1..<8]) sample_queue = 5 \<and> attempts_left ''d1'' sample_queue = 4
   \<and> excuses 0 ''d1'' (map sample_retry_batch [1..<8]) sample_queue = 1"
proof -
  have "well_keyed sample_queue" by (auto simp: well_keyed_def sample_queue_def sample_retry_def split: if_splits)
  note b = retries_bounded [OF this, of 0 "''d1''" "map sample_retry_batch [1..<8]"]
  have "invocations 0 ''d1'' (map sample_retry_batch [1..<8]) sample_queue = 5" "attempts_left ''d1'' sample_queue = 4"
    "excuses 0 ''d1'' (map sample_retry_batch [1..<8]) sample_queue = 1" by code_simp+
  with b show ?thesis by blast
qed

text \<open>An item whose participant keeps meeting a quota limit is invoked in every batch.\<close>

lemma quota_never_exhausts:
  "invocations 0 ''d2'' (map sample_retry_batch [1..<8]) sample_queue = 7"
  by code_simp

end
