(* ===== verification/FindingStore.thy ===== *)
theory FindingStore
  imports MeshStore
begin

text \<open>
  Findings, evidence, challenges and resolutions of a session: the store methods
  (\<open>internal/store/store.go\<close>), the operations \<open>SubmitFinding\<close>, \<open>SubmitEvidence\<close>, \<open>Challenge\<close> and
  \<open>Resolve\<close> of the engine, its status counts and \<open>DeduplicateFindings\<close>
  (\<open>internal/collaboration/engine.go\<close>). A time of \<open>0\<close> is the zero time; the clock and generated
  identifiers are arguments. The search archive and events are left out.
\<close>

subsection \<open>Records\<close>

datatype conversation_status =
    FindingOpen | FindingAcknowledged | FindingDisputed | FindingResolved | FindingDismissed | FindingSuperseded

record finding_payload =
  gpID :: string
  gpSession :: string
  gpAgent :: string
  gpParticipant :: string
  gpAdapter :: string
  gpTime :: int
  gpSeverity :: string
  gpCategory :: string
  gpClaim :: string
  gpEvidence :: string
  gpEvidenceRefs :: "string list"
  gpRecommendation :: string
  gpFile :: string
  gpLine :: int
  gpLineStart :: int
  gpEndLine :: int
  gpLineEnd :: int
  gpStatus :: "conversation_status option"
  gpDuplicateOf :: string
  gpRelated :: "string list"

record evidence_payload =
  jvID :: string
  jvFinding :: string
  jvMessage :: string
  jvAgent :: string
  jvType :: string
  jvCommand :: string
  jvResult :: string
  jvExcerpt :: string
  jvExit :: "int option"
  jvCreatedAt :: int

record challenge_payload =
  kcID :: string
  kcFinding :: string
  kcChallenger :: string
  kcClaim :: string
  kcEvidence :: string
  kcRequested :: string
  kcCreatedAt :: int

datatype resolution_status =
    ResolutionConfirmed | ResolutionRejected | ResolutionPartiallyConfirmed | ResolutionSuperseded
  | ResolutionRequiresHuman | ResolutionOther string

record resolution_payload =
  soID :: string
  soFinding :: string
  soStatus :: resolution_status
  soRationale :: string
  soRefs :: "string list"
  soAgent :: string
  soTime :: int

record finding_store =
  fyFindings :: "((string \<times> string) \<times> finding_payload) list"
  fyEvidence :: "(string \<times> (string \<times> evidence_payload)) list"
  fyChallenges :: "(string \<times> (string \<times> challenge_payload)) list"
  fyResolutions :: "(string \<times> (string \<times> resolution_payload)) list"

definition empty_findings :: finding_store where
  "empty_findings = \<lparr>fyFindings = [], fyEvidence = [], fyChallenges = [], fyResolutions = []\<rparr>"

subsection \<open>Store methods\<close>

text \<open>The row of a finding with the fields that stand for each other filled in.\<close>

definition complete_finding :: "int \<Rightarrow> finding_payload \<Rightarrow> finding_payload" where
  "complete_finding now f =
     (let f = f\<lparr>gpTime := (if gpTime f = 0 then now else gpTime f),
                gpStatus := (if gpStatus f = None then Some FindingOpen else gpStatus f),
                gpParticipant := (if gpParticipant f = [] then gpAgent f else gpParticipant f)\<rparr>;
          f = f\<lparr>gpAgent := (if gpAgent f = [] then gpParticipant f else gpAgent f),
                gpLine := (if gpLine f = 0 \<and> gpLineStart f \<noteq> 0 then gpLineStart f else gpLine f)\<rparr>;
          f = f\<lparr>gpLineStart := (if gpLineStart f = 0 \<and> gpLine f \<noteq> 0 then gpLine f else gpLineStart f),
                gpEndLine := (if gpEndLine f = 0 \<and> gpLineEnd f \<noteq> 0 then gpLineEnd f else gpEndLine f)\<rparr>
      in f\<lparr>gpLineEnd := (if gpLineEnd f = 0 \<and> gpEndLine f \<noteq> 0 then gpEndLine f else gpLineEnd f)\<rparr>)"

text \<open>The columns a finding is read back from.\<close>

definition finding_row :: "string \<Rightarrow> finding_payload \<Rightarrow> finding_payload" where
  "finding_row s f = f\<lparr>gpSession := s, gpLineStart := gpLine f, gpLineEnd := gpEndLine f\<rparr>"

definition merge_finding :: "finding_payload \<Rightarrow> finding_payload \<Rightarrow> finding_payload" where
  "merge_finding old new = new\<lparr>gpID := gpID old, gpSession := gpSession old, gpAgent := gpAgent old\<rparr>"

definition SaveFinding :: "int \<Rightarrow> string \<Rightarrow> finding_payload \<Rightarrow> finding_store \<Rightarrow> finding_store" where
  "SaveFinding now s f st = st\<lparr>fyFindings :=
     upsert merge_finding (s, gpID f) (finding_row s (complete_finding now f)) (fyFindings st)\<rparr>"

definition GetFinding :: "string \<Rightarrow> string \<Rightarrow> finding_store \<Rightarrow> finding_payload option" where
  "GetFinding s i st = map_of (fyFindings st) (s, i)"

definition GetFindings :: "string \<Rightarrow> finding_store \<Rightarrow> finding_payload list" where
  "GetFindings s st = sort_key gpTime (map snd (filter (\<lambda>((t, _), _). t = s) (fyFindings st)))"

definition set_status :: "string \<Rightarrow> string \<Rightarrow> conversation_status \<Rightarrow> finding_store \<Rightarrow> finding_store" where
  "set_status s i x st = st\<lparr>fyFindings := update_row (s, i) (\<lambda>f. f\<lparr>gpStatus := Some x\<rparr>) (fyFindings st)\<rparr>"

definition UpdateFindingStatus :: "string \<Rightarrow> string \<Rightarrow> conversation_status \<Rightarrow> finding_store \<Rightarrow> msg option \<times> finding_store" where
  "UpdateFindingStatus s i x st =
     (if GetFinding s i st = None then (Some (Msg ''finding %q in session %q not found'' [AS i, AS s]), st)
      else (None, set_status s i x st))"

definition merge_payload :: "string \<times> evidence_payload \<Rightarrow> string \<times> evidence_payload \<Rightarrow> string \<times> evidence_payload" where
  "merge_payload old new = (fst old, (snd old)\<lparr>jvFinding := jvFinding (snd new), jvMessage := jvMessage (snd new),
     jvCommand := jvCommand (snd new), jvResult := jvResult (snd new), jvExcerpt := jvExcerpt (snd new), jvExit := jvExit (snd new)\<rparr>)"

definition SaveEvidence :: "int \<Rightarrow> string \<Rightarrow> evidence_payload \<Rightarrow> finding_store \<Rightarrow> finding_store" where
  "SaveEvidence now s e st = st\<lparr>fyEvidence := upsert merge_payload (jvID e)
     (s, e\<lparr>jvCreatedAt := (if jvCreatedAt e = 0 then now else jvCreatedAt e)\<rparr>) (fyEvidence st)\<rparr>"

definition GetEvidenceByFinding :: "string \<Rightarrow> string \<Rightarrow> finding_store \<Rightarrow> evidence_payload list" where
  "GetEvidenceByFinding s i st =
     sort_key jvCreatedAt (filter (\<lambda>e. jvFinding e = i) (map (snd \<circ> snd) (filter (\<lambda>(_, t, _). t = s) (fyEvidence st))))"

text \<open>An insert without an update clause fails when the key is taken.\<close>

definition SaveChallenge :: "int \<Rightarrow> string \<Rightarrow> challenge_payload \<Rightarrow> finding_store \<Rightarrow> msg option \<times> finding_store" where
  "SaveChallenge now s c st =
     (if map_of (fyChallenges st) (kcID c) \<noteq> None then (Some (plain ''UNIQUE constraint failed: challenges.id''), st)
      else (None, set_status s (kcFinding c) FindingDisputed (st\<lparr>fyChallenges := fyChallenges st @
             [(kcID c, s, c\<lparr>kcCreatedAt := (if kcCreatedAt c = 0 then now else kcCreatedAt c)\<rparr>)]\<rparr>)))"

definition resolved_status :: "resolution_status \<Rightarrow> conversation_status" where
  "resolved_status r =
     (case r of ResolutionConfirmed \<Rightarrow> FindingAcknowledged | ResolutionRejected \<Rightarrow> FindingDismissed
              | ResolutionPartiallyConfirmed \<Rightarrow> FindingAcknowledged | ResolutionSuperseded \<Rightarrow> FindingResolved
              | ResolutionRequiresHuman \<Rightarrow> FindingDisputed | ResolutionOther _ \<Rightarrow> FindingResolved)"

definition SaveResolution :: "int \<Rightarrow> string \<Rightarrow> resolution_payload \<Rightarrow> finding_store \<Rightarrow> msg option \<times> finding_store" where
  "SaveResolution now s r st =
     (if map_of (fyResolutions st) (soID r) \<noteq> None then (Some (plain ''UNIQUE constraint failed: resolutions.id''), st)
      else (None, set_status s (soFinding r) (resolved_status (soStatus r)) (st\<lparr>fyResolutions := fyResolutions st @
             [(soID r, s, r\<lparr>soTime := (if soTime r = 0 then now else soTime r)\<rparr>)]\<rparr>)))"

subsection \<open>Operations of the engine\<close>

definition SubmitFinding :: "int \<Rightarrow> string \<Rightarrow> string \<Rightarrow> string \<Rightarrow> finding_payload \<Rightarrow> finding_store \<Rightarrow> finding_payload \<times> finding_store" where
  "SubmitFinding now nano s caller f st =
     (let f = f\<lparr>gpID := (if gpID f = [] then ''HM-'' @ nano else gpID f),
                gpAgent := (if gpAgent f = [] then caller else gpAgent f),
                gpTime := (if gpTime f = 0 then now else gpTime f),
                gpStatus := (if gpStatus f = None then Some FindingOpen else gpStatus f)\<rparr>;
          f = (case GetFinding s (gpID f) st of None \<Rightarrow> f | Some old \<Rightarrow> f\<lparr>gpStatus := gpStatus old\<rparr>)
      in (complete_finding now f, SaveFinding now s f st))"

definition SubmitFindingEvidence :: "int \<Rightarrow> string \<Rightarrow> string \<Rightarrow> string \<Rightarrow> evidence_payload \<Rightarrow> finding_store \<Rightarrow> evidence_payload \<times> finding_store" where
  "SubmitFindingEvidence now nano s caller e st =
     (let e = e\<lparr>jvID := (if jvID e = [] then ''ev_'' @ nano else jvID e), jvAgent := (if jvAgent e = [] then caller else jvAgent e),
                jvCreatedAt := (if jvCreatedAt e = 0 then now else jvCreatedAt e)\<rparr>
      in (e, SaveEvidence now s e st))"

definition ChallengeFinding :: "int \<Rightarrow> string \<Rightarrow> string \<Rightarrow> string \<Rightarrow> challenge_payload \<Rightarrow> finding_store
    \<Rightarrow> (msg + challenge_payload) \<times> finding_store" where
  "ChallengeFinding now nano s caller c st =
     (let c = c\<lparr>kcID := (if kcID c = [] then ''ch_'' @ nano else kcID c),
                kcChallenger := (if kcChallenger c = [] then caller else kcChallenger c),
                kcCreatedAt := (if kcCreatedAt c = 0 then now else kcCreatedAt c)\<rparr>
      in case SaveChallenge now s c st of (Some e, st') \<Rightarrow> (Inl e, st') | (None, st') \<Rightarrow> (Inr c, st'))"

definition ResolveFinding :: "int \<Rightarrow> string \<Rightarrow> string \<Rightarrow> string \<Rightarrow> resolution_payload \<Rightarrow> finding_store
    \<Rightarrow> (msg + resolution_payload) \<times> finding_store" where
  "ResolveFinding now nano s caller r st =
     (let r = r\<lparr>soID := (if soID r = [] then ''res_'' @ nano else soID r), soAgent := (if soAgent r = [] then caller else soAgent r),
                soTime := (if soTime r = 0 then now else soTime r)\<rparr>
      in case SaveResolution now s r st of (Some e, st') \<Rightarrow> (Inl e, st') | (None, st') \<Rightarrow> (Inr r, st'))"

text \<open>Open, disputed and resolved findings, as the session status and the space status count them.\<close>

definition count_status :: "conversation_status list \<Rightarrow> finding_payload list \<Rightarrow> nat" where
  "count_status xs fs = length (filter (\<lambda>f. case gpStatus f of None \<Rightarrow> False | Some x \<Rightarrow> x \<in> set xs) fs)"

definition session_counts :: "string \<Rightarrow> finding_store \<Rightarrow> nat \<times> nat \<times> nat" where
  "session_counts s st = (let fs = GetFindings s st in
     (count_status [FindingOpen] fs, count_status [FindingDisputed] fs, count_status [FindingResolved, FindingDismissed] fs))"

definition space_counts :: "string \<Rightarrow> finding_store \<Rightarrow> nat \<times> nat \<times> nat" where
  "space_counts s st = (let fs = GetFindings s st in
     (count_status [FindingOpen] fs, count_status [FindingDisputed] fs,
      count_status [FindingResolved, FindingAcknowledged, FindingDismissed] fs))"

subsection \<open>Duplicates\<close>

text \<open>Two findings are taken for one when they are within five lines of one file and share the category or the claim.\<close>

definition same_finding :: "text_lib \<Rightarrow> finding_payload \<Rightarrow> finding_payload \<Rightarrow> bool" where
  "same_finding lib f g \<longleftrightarrow>
     (let a = CleanPath lib (gpFile f); b = CleanPath lib (gpFile g); eq = (\<lambda>x y. ToLower lib x = ToLower lib y) in
      a \<noteq> [] \<and> a \<noteq> ''.'' \<and> a = b \<and> \<bar>gpLine f - gpLine g\<bar> \<le> 5
      \<and> (eq (gpCategory f) (gpCategory g) \<and> gpCategory f \<noteq> [] \<or> eq (TrimSpace lib (gpClaim f)) (TrimSpace lib (gpClaim g))))"

text \<open>The inner loop: the findings after one that is no duplicate, and the identifiers marked.\<close>

fun mark_duplicates :: "text_lib \<Rightarrow> finding_payload \<Rightarrow> finding_payload list \<Rightarrow> finding_payload list \<times> string list" where
  "mark_duplicates lib f [] = ([], [])"
| "mark_duplicates lib f (g # gs) =
     (let (hs, ids) = mark_duplicates lib f gs in
      if gpDuplicateOf g \<noteq> [] \<or> \<not> same_finding lib f g then (g # hs, ids)
      else (g\<lparr>gpDuplicateOf := gpID f\<rparr> # hs, gpID g # ids))"

lemma length_mark_duplicates [simp]: "length (fst (mark_duplicates lib f gs)) = length gs"
  by (induction gs) (auto simp: case_prod_beta Let_def)

function dedup_loop :: "text_lib \<Rightarrow> finding_payload list \<Rightarrow> finding_payload list" where
  "dedup_loop lib [] = []"
| "dedup_loop lib (f # fs) =
     (if gpDuplicateOf f \<noteq> [] then f # dedup_loop lib fs
      else f\<lparr>gpRelated := gpRelated f @ snd (mark_duplicates lib f fs)\<rparr> # dedup_loop lib (fst (mark_duplicates lib f fs)))"
  by pat_completeness auto
termination by (relation "measure (\<lambda>(_, fs). length fs)") auto

definition DeduplicateFindings :: "text_lib \<Rightarrow> finding_payload list \<Rightarrow> finding_payload list" where
  "DeduplicateFindings lib fs = (if length fs \<le> 1 then fs else dedup_loop lib fs)"

definition finding_core :: "finding_payload \<Rightarrow> finding_payload" where
  "finding_core f = f\<lparr>gpDuplicateOf := [], gpRelated := []\<rparr>"

definition unmarked :: "finding_payload \<Rightarrow> bool" where
  "unmarked f \<longleftrightarrow> gpDuplicateOf f = []"

lemma finding_core_simps [simp]:
  "finding_core (f\<lparr>gpDuplicateOf := d\<rparr>) = finding_core f" "finding_core (f\<lparr>gpRelated := r\<rparr>) = finding_core f"
  "gpID (finding_core f) = gpID f" "gpDuplicateOf (finding_core f) = []"
  by (simp_all add: finding_core_def)

lemma same_finding_core: "finding_core f = finding_core f' \<Longrightarrow> finding_core g = finding_core g' \<Longrightarrow> same_finding lib f g = same_finding lib f' g'"
proof -
  assume a: "finding_core f = finding_core f'" "finding_core g = finding_core g'"
  have "gpFile f = gpFile f' \<and> gpLine f = gpLine f' \<and> gpCategory f = gpCategory f' \<and> gpClaim f = gpClaim f'"
    "gpFile g = gpFile g' \<and> gpLine g = gpLine g' \<and> gpCategory g = gpCategory g' \<and> gpClaim g = gpClaim g'"
    using a by (cases f; cases f'; cases g; cases g'; simp add: finding_core_def)+
  then show ?thesis by (simp add: same_finding_def)
qed

lemma mark_core: "map finding_core (fst (mark_duplicates lib f gs)) = map finding_core gs"
  by (induction gs) (auto simp: case_prod_beta Let_def)

lemma mark_nth:
  "k < length gs \<Longrightarrow> gpDuplicateOf (fst (mark_duplicates lib f gs) ! k) =
     (if gpDuplicateOf (gs ! k) \<noteq> [] \<or> \<not> same_finding lib f (gs ! k) then gpDuplicateOf (gs ! k) else gpID f)"
proof (induction gs arbitrary: k)
  case (Cons g gs)
  then show ?case by (cases k) (auto simp: case_prod_beta Let_def)
qed simp

lemma mark_ids:
  assumes "\<forall>g\<in>set gs. gpID g \<noteq> []"
  shows "\<forall>g\<in>set (fst (mark_duplicates lib f gs)). gpID g \<noteq> []"
proof
  fix g assume "g \<in> set (fst (mark_duplicates lib f gs))"
  then have "finding_core g \<in> set (map finding_core gs)"
    by (metis image_eqI list.set_map mark_core)
  then obtain g' where "finding_core g = finding_core g'" "g' \<in> set gs" by auto
  then show "gpID g \<noteq> []" using assms by (metis finding_core_simps(3))
qed

lemma dedup_core: "map finding_core (dedup_loop lib fs) = map finding_core fs"
  by (induction lib fs rule: dedup_loop.induct) (auto simp: mark_core)

lemma dedup_length [simp]: "length (dedup_loop lib fs) = length fs"
  using dedup_core map_eq_imp_length_eq by blast

lemma core_nth: "map finding_core xs = map finding_core ys \<Longrightarrow> k < length ys \<Longrightarrow> finding_core (xs ! k) = finding_core (ys ! k)"
  by (metis length_map nth_map)

lemma dedup_keeps_marks:
  "k < length fs \<Longrightarrow> gpDuplicateOf (fs ! k) \<noteq> [] \<Longrightarrow> gpDuplicateOf (dedup_loop lib fs ! k) = gpDuplicateOf (fs ! k)"
proof (induction lib fs arbitrary: k rule: dedup_loop.induct)
  case (2 lib f fs)
  then show ?case by (cases k) (auto simp: mark_nth)
qed simp

definition apart :: "text_lib \<Rightarrow> finding_payload \<Rightarrow> finding_payload \<Rightarrow> bool" where
  "apart lib f g \<longleftrightarrow> (unmarked f \<longrightarrow> unmarked g \<longrightarrow> \<not> same_finding lib f g)"

lemma dedup_apart:
  "\<forall>f\<in>set fs. gpID f \<noteq> [] \<Longrightarrow> sorted_wrt (apart lib) (dedup_loop lib fs)"
proof (induction lib fs rule: dedup_loop.induct)
  case (2 lib f fs)
  let ?hs = "fst (mark_duplicates lib f fs)"
  show ?case
  proof (cases "gpDuplicateOf f = []")
    case True
    have ids: "\<forall>g\<in>set ?hs. gpID g \<noteq> []"
      using mark_ids [of fs lib f] 2(3) by simp
    have "apart lib (f\<lparr>gpRelated := r\<rparr>) g" if g_in: "g \<in> set (dedup_loop lib ?hs)" for g r
    proof -
      obtain k where k: "k < length fs" "g = dedup_loop lib ?hs ! k"
        using g_in by (auto simp: in_set_conv_nth)
      have g: "finding_core g = finding_core (fs ! k)"
        using core_nth [OF dedup_core, of k ?hs lib] core_nth [OF mark_core, of k fs lib f] k by simp
      have "\<not> same_finding lib f (fs ! k)" if "unmarked g"
      proof
        assume "same_finding lib f (fs ! k)"
        then have "gpDuplicateOf (?hs ! k) \<noteq> []"
          using mark_nth [OF k(1), of lib f] 2(3) by auto
        then show False
          using dedup_keeps_marks [of k ?hs lib] k that by (simp add: unmarked_def)
      qed
      then show ?thesis
        using same_finding_core [OF _ g, of "f\<lparr>gpRelated := r\<rparr>" f] by (auto simp: apart_def)
    qed
    moreover have "sorted_wrt (apart lib) (dedup_loop lib ?hs)"
      using True ids by (intro 2(2)) auto
    ultimately show ?thesis using True by simp
  next
    case False
    have "sorted_wrt (apart lib) (dedup_loop lib fs)" using False 2(1,3) by simp
    moreover have "apart lib f g" for g using False by (simp add: apart_def unmarked_def)
    ultimately show ?thesis using False by simp
  qed
qed simp

lemma dedup_marks:
  "\<forall>f\<in>set fs. gpID f \<noteq> [] \<Longrightarrow> k < length fs \<Longrightarrow> gpDuplicateOf (dedup_loop lib fs ! k) \<noteq> gpDuplicateOf (fs ! k) \<Longrightarrow>
     \<exists>j<k. unmarked (dedup_loop lib fs ! j) \<and> gpDuplicateOf (dedup_loop lib fs ! k) = gpID (fs ! j) \<and> same_finding lib (fs ! j) (fs ! k)"
proof (induction lib fs arbitrary: k rule: dedup_loop.induct)
  case (2 lib f fs)
  let ?hs = "fst (mark_duplicates lib f fs)"
  show ?case
  proof (cases k)
    case 0
    then show ?thesis using 2(5) by (auto split: if_splits)
  next
    case (Suc l)
    have l: "l < length fs" using 2(4) Suc by simp
    show ?thesis
    proof (cases "gpDuplicateOf f = []")
      case False
      then have "\<exists>j<l. unmarked (dedup_loop lib fs ! j) \<and> gpDuplicateOf (dedup_loop lib fs ! l) = gpID (fs ! j)
          \<and> same_finding lib (fs ! j) (fs ! l)"
        using 2(3,5) Suc l by (intro 2(1)) auto
      then obtain j where "j < l" "unmarked (dedup_loop lib fs ! j)" "gpDuplicateOf (dedup_loop lib fs ! l) = gpID (fs ! j)"
        "same_finding lib (fs ! j) (fs ! l)" by blast
      then show ?thesis using False Suc by (intro exI [of _ "Suc j"]) simp
    next
      case True
      have core: "finding_core (?hs ! j) = finding_core (fs ! j)" if "j < length fs" for j
        using core_nth [OF mark_core] that .
      show ?thesis
      proof (cases "gpDuplicateOf (?hs ! l) = gpDuplicateOf (fs ! l)")
        case False
        then have "gpDuplicateOf (?hs ! l) = gpID f" "same_finding lib f (fs ! l)" "gpDuplicateOf (?hs ! l) \<noteq> []"
          using mark_nth [OF l, of lib f] 2(3) by (auto split: if_splits)
        then show ?thesis
          using True Suc l dedup_keeps_marks [of l ?hs lib] by (intro exI [of _ 0]) (auto simp: unmarked_def)
      next
        case same: True
        have "\<exists>j<l. unmarked (dedup_loop lib ?hs ! j) \<and> gpDuplicateOf (dedup_loop lib ?hs ! l) = gpID (?hs ! j)
            \<and> same_finding lib (?hs ! j) (?hs ! l)"
          using 2(3,5) True Suc l same mark_ids [of fs lib f] by (intro 2(2)) auto
        then obtain j where j: "j < l" "unmarked (dedup_loop lib ?hs ! j)"
          "gpDuplicateOf (dedup_loop lib ?hs ! l) = gpID (?hs ! j)" "same_finding lib (?hs ! j) (?hs ! l)" by blast
        have "gpID (?hs ! j) = gpID (fs ! j)" using core [of j] j(1) l by (metis finding_core_simps(3) order.strict_trans)
        moreover have "same_finding lib (fs ! j) (fs ! l)"
          using j(4) same_finding_core [OF core core] j(1) l by (meson order.strict_trans)
        ultimately show ?thesis using True Suc j by (intro exI [of _ "Suc j"]) simp
      qed
    qed
  qed
qed simp

lemma mark_nothing: "\<forall>g\<in>set gs. apart lib f g \<Longrightarrow> unmarked f \<Longrightarrow> mark_duplicates lib f gs = (gs, [])"
  by (induction gs) (auto simp: apart_def unmarked_def)

lemma dedup_nothing: "sorted_wrt (apart lib) fs \<Longrightarrow> dedup_loop lib fs = fs"
  by (induction fs) (auto simp: mark_nothing unmarked_def)

subsection \<open>Properties\<close>

text \<open>Deduplication leaves every finding in its place, and what it marks is exact: afterwards no two unmarked
  findings are the same, every finding that was marked names an earlier unmarked one it is the same as, and
  deduplicating again changes nothing.\<close>
theorem deduplication_exact:
  assumes "\<forall>f\<in>set fs. gpID f \<noteq> []" and "out = DeduplicateFindings lib fs"
  shows "map finding_core out = map finding_core fs \<and> sorted_wrt (apart lib) out
    \<and> (\<forall>k<length fs. gpDuplicateOf (out ! k) \<noteq> gpDuplicateOf (fs ! k) \<longrightarrow>
         (\<exists>j<k. unmarked (out ! j) \<and> gpDuplicateOf (out ! k) = gpID (fs ! j) \<and> same_finding lib (fs ! j) (fs ! k)))
    \<and> DeduplicateFindings lib out = out"
proof -
  have "sorted_wrt (apart lib) fs" if "length fs \<le> 1"
    using that by (cases fs) auto
  then have out: "out = dedup_loop lib fs"
    using assms(2) dedup_nothing [of lib fs] by (auto simp: DeduplicateFindings_def)
  have apart: "sorted_wrt (apart lib) out"
    unfolding out by (rule dedup_apart [OF assms(1)])
  then have "DeduplicateFindings lib out = out"
    by (simp add: DeduplicateFindings_def dedup_nothing)
  with apart show ?thesis
    using dedup_core [of lib fs] dedup_marks [OF assms(1)] unfolding out by blast
qed

definition sample_finding :: "string \<Rightarrow> string \<Rightarrow> int \<Rightarrow> finding_payload" where
  "sample_finding i claim line = \<lparr>gpID = i, gpSession = ''s1'', gpAgent = ''claude'', gpParticipant = ''claude'', gpAdapter = [], gpTime = 1,
     gpSeverity = ''high'', gpCategory = [], gpClaim = claim, gpEvidence = [], gpEvidenceRefs = [], gpRecommendation = [], gpFile = ''a.go'',
     gpLine = line, gpLineStart = 0, gpEndLine = 0, gpLineEnd = 0, gpStatus = None, gpDuplicateOf = [], gpRelated = []\<rparr>"

definition sample_lib :: text_lib where
  "sample_lib = \<lparr>TrimSpace = (\<lambda>s. s), CleanPath = (\<lambda>s. s), ToLower = (\<lambda>s. s), sha256hex = (\<lambda>s. s)\<rparr>"

definition three_findings :: "finding_payload list" where
  "three_findings = [sample_finding ''f1'' ''leak'' 10, sample_finding ''f2'' ''leak'' 13, sample_finding ''f3'' ''leak'' 17]"

theorem deduplication_exact_witness:
  "map gpDuplicateOf (DeduplicateFindings sample_lib three_findings) = [[], ''f1'', []]
   \<and> DeduplicateFindings sample_lib (DeduplicateFindings sample_lib three_findings) = DeduplicateFindings sample_lib three_findings"
proof -
  have "\<forall>f\<in>set three_findings. gpID f \<noteq> []" by (simp add: three_findings_def sample_finding_def)
  from deduplication_exact [OF this refl, of sample_lib]
  have "DeduplicateFindings sample_lib (DeduplicateFindings sample_lib three_findings) = DeduplicateFindings sample_lib three_findings"
    by blast
  moreover have "map gpDuplicateOf (DeduplicateFindings sample_lib three_findings) = [[], ''f1'', []]" by code_simp
  ultimately show ?thesis by blast
qed

text \<open>Evidence is stored under its identifier alone: a submission in another session under a known identifier
  rewrites what the evidence of the first session says, and the row keeps naming the first session and agent.\<close>
theorem evidence_rewritten_across_sessions:
  assumes "map_of (fyEvidence st) (jvID e) = Some (s, old)" and "jvID e \<noteq> []"
    and "SubmitFindingEvidence now nano t caller e st = (r, st')"
  shows "\<exists>row. map_of (fyEvidence st') (jvID e) = Some (s, row) \<and> jvAgent row = jvAgent old \<and> jvResult row = jvResult e
    \<and> jvFinding row = jvFinding e"
  using assms by (auto simp: SubmitFindingEvidence_def SaveEvidence_def Let_def map_of_upsert merge_payload_def)

definition sample_evidence :: "string \<Rightarrow> string \<Rightarrow> evidence_payload" where
  "sample_evidence a r = \<lparr>jvID = ''ev_1'', jvFinding = ''f1'', jvMessage = [], jvAgent = a, jvType = ''test_result'', jvCommand = [], jvResult = r,
     jvExcerpt = [], jvExit = None, jvCreatedAt = 1\<rparr>"

theorem evidence_rewritten_across_sessions_witness:
  "\<exists>st' :: finding_store. \<exists>row :: evidence_payload. map_of (fyEvidence st') ''ev_1'' = Some (''s1'', row) \<and> jvAgent row = ''claude'' \<and> jvResult row = ''all tests pass''"
proof -
  let ?st = "empty_findings\<lparr>fyEvidence := [(''ev_1'', ''s1'', sample_evidence ''claude'' ''2 tests fail'')]\<rparr>"
  obtain r st' where c: "SubmitFindingEvidence 5 ''9'' ''s2'' ''eve'' (sample_evidence ''eve'' ''all tests pass'') ?st = (r, st')"
    by (cases "SubmitFindingEvidence 5 ''9'' ''s2'' ''eve'' (sample_evidence ''eve'' ''all tests pass'') ?st") auto
  have "\<exists>row. map_of (fyEvidence st') ''ev_1'' = Some (''s1'', row) \<and> jvAgent row = ''claude'' \<and> jvResult row = ''all tests pass''"
    using evidence_rewritten_across_sessions [OF _ _ c, of "''s1''" "sample_evidence ''claude'' ''2 tests fail''"]
    by (simp add: sample_evidence_def) blast
  then show ?thesis by blast
qed

end
