(* ===== verification/Publish.thy ===== *)
theory Publish
  imports Activation RetryQueue FindingStore
begin

text \<open>
  Publishing a message to a channel (\<open>Publish\<close> in \<open>internal/collaboration/engine.go\<close>): the message is
  stored, and every other participant that is mentioned or subscribed, may use the channel and is to
  be activated is run with the message as its prompt, under a budget reservation. The code starts one
  goroutine per participant; here a participant's dispatch is one step, the order of the steps is the
  order of the list of participants, and the interleaving of budget operations is the subject of
  theory BudgetLedger. What the environment answers (clock, identifiers, harnesses, failing
  store calls, the parsed findings of a reply) is an argument. The event a stored message emits reaches no
  handler that acts on it, so only its failure is modelled.
\<close>

subsection \<open>State and environment\<close>

datatype delivery_status = DeliveryPending | DeliveryProcessing | DeliveryDelivered | DeliverySkipped | DeliveryFailed

record delivery =
  dvID :: string
  dvEvent :: string
  dvSpace :: string
  dvParticipant :: string
  dvStatus :: delivery_status
  dvAttempt :: int
  dvStarted :: "int option"
  dvCompleted :: "int option"
  dvResult :: string
  dvReason :: msg

record space_thread =
  qtID :: string
  qtSpace :: string
  qtChannel :: string
  qtTitle :: string

record engine_data =
  edSpaces :: space_store
  edThreads :: "(string \<times> space_thread) list"
  edMessages :: "(string \<times> envelope) list"
  edDeliveries :: "(string \<times> delivery) list"
  edRetries :: retry_store
  edFindings :: finding_store
  edActivation :: activation

record token_usage =
  toIn :: "int option"
  toOut :: "int option"
  toCost :: "rat option"

record invoke_request =
  irName :: string
  irRepo :: string
  irPrompt :: string
  irMaxTokens :: int
  irMaxCost :: rat

record invoke_result =
  iuText :: string
  iuUsage :: token_usage

datatype publish_site =
    AtThread | AtGetChannel | AtChannel | AtEvent | AtMessage string | AtIndex string | AtRecord string | AtUpdate string | AtFinding string

record publish_env =
  ueNow :: int
  ueMsg :: string
  ueThread :: string
  ueResp :: "string \<Rightarrow> string"
  ueLib :: text_lib
  ueQuote :: "string \<Rightarrow> string"
  ueHash :: "string \<Rightarrow> string"
  ueCooldown :: int
  ueLimits :: engine_limits
  ueExternal :: "string \<Rightarrow> bool"
  ueHarnesses :: "(string \<times> bool) list"
  ueInvoke :: "string \<Rightarrow> invoke_request \<Rightarrow> invoke_failure + invoke_result"
  ueReserve :: "string \<Rightarrow> budget_call"
  ueSettle :: "string \<Rightarrow> budget_call"
  ueWait :: int
  ueParse :: "string \<Rightarrow> finding_payload list"
  ueSecurity :: "string \<Rightarrow> string \<Rightarrow> string + string"
  ueFails :: "publish_site \<Rightarrow> bool"

record publish_request =
  urqSpace :: string
  urqChannelID :: string
  urqChannel :: string
  urqThread :: string
  urqFrom :: string
  urqSubject :: string
  urqMessage :: string
  urqPayload :: string
  urqMentions :: "string list"
  urqReplyTo :: string
  urqScope :: "string list"
  urqPriority :: int

subsection \<open>Store methods\<close>

definition RecordEventDelivery :: "delivery \<Rightarrow> engine_data \<Rightarrow> engine_data" where
  "RecordEventDelivery v d = d\<lparr>edDeliveries :=
     upsert (\<lambda>old new. new\<lparr>dvID := dvID old, dvEvent := dvEvent old, dvSpace := dvSpace old, dvParticipant := dvParticipant old\<rparr>)
       (dvID v) v (edDeliveries d)\<rparr>"

definition UpdateEventDeliveryStatus :: "int \<Rightarrow> string \<Rightarrow> delivery_status \<Rightarrow> string \<Rightarrow> msg \<Rightarrow> engine_data \<Rightarrow> engine_data" where
  "UpdateEventDeliveryStatus now i s result reason d = d\<lparr>edDeliveries := update_row i
     (\<lambda>v. v\<lparr>dvStatus := s, dvResult := result, dvReason := reason,
           dvCompleted := (if s = DeliveryPending \<or> s = DeliveryProcessing then None else Some now)\<rparr>) (edDeliveries d)\<rparr>"

text \<open>A message brings a session row of its own along when there is none.\<close>

definition auto_session :: "string \<Rightarrow> int \<Rightarrow> engine_session" where
  "auto_session i now = \<lparr>ssID = i, ssTenant = [], ssRepo = ''.'', ssTask = ''Auto session'', ssStatus = ''active'', ssStop = [],
     ssWriter = [], ssBudget = no_budget, ssCreatedAt = now\<rparr>"

definition ensure_session :: "string \<Rightarrow> int \<Rightarrow> space_store \<Rightarrow> space_store" where
  "ensure_session i now st = (if GetSession i st = None then st\<lparr>ztSessions := ztSessions st @ [(i, auto_session i now)]\<rparr> else st)"

text \<open>The session of a message without one is its space.\<close>

definition message_session :: "envelope \<Rightarrow> string" where
  "message_session env =
     (if nvSession env \<noteq> [] then nvSession env else if nvSpace env \<noteq> [] then nvSpace env else ''default_space'')"

text \<open>The row is written first; the knowledge log is appended to afterwards, and its error is returned although the row stays.\<close>

definition SaveMessage :: "bool \<Rightarrow> bool \<Rightarrow> envelope \<Rightarrow> engine_data \<Rightarrow> engine_error option \<times> engine_data" where
  "SaveMessage fails logFails env d =
     (let env = env\<lparr>nvPayload := (if nvPayload env = [] then ''{}'' else nvPayload env), nvSession := message_session env\<rparr>;
          d = d\<lparr>edSpaces := ensure_session (nvSession env) (nvCreatedAt env) (edSpaces d)\<rparr>
      in if fails \<or> map_of (edMessages d) (nvID env) \<noteq> None then (Some (EngineFailure (plain ''message not stored'')), d)
         else (if logFails then Some (EngineFailure (plain ''message not logged'')) else None,
               d\<lparr>edMessages := edMessages d @ [(nvID env, env)]\<rparr>))"

subsection \<open>One participant\<close>

definition findHarness :: "publish_env \<Rightarrow> string \<Rightarrow> string \<Rightarrow> bool option" where
  "findHarness u i adapter = (case map_of (ueHarnesses u) i of Some h \<Rightarrow> Some h | None \<Rightarrow> map_of (ueHarnesses u) adapter)"

definition estimate :: "string \<Rightarrow> int" where
  "estimate s = int (length s div 4)"

definition extractTokensAndCost :: "invoke_request \<Rightarrow> invoke_result \<Rightarrow> int \<times> int \<times> rat" where
  "extractTokensAndCost q r =
     (let i = (case toIn (iuUsage r) of None \<Rightarrow> 0 | Some n \<Rightarrow> n);
          out = (case toOut (iuUsage r) of None \<Rightarrow> 0 | Some n \<Rightarrow> n);
          c = (case toCost (iuUsage r) of None \<Rightarrow> 0 | Some x \<Rightarrow> x);
          i = (if i = 0 \<and> irPrompt q \<noteq> [] then max 1 (estimate (irPrompt q)) else i);
          out = (if out = 0 \<and> iuText r \<noteq> [] then max 1 (estimate (iuText r)) else out)
      in (i, out, if c = 0 then token_cost i out else c))"

definition retryNextAttempt :: "publish_env \<Rightarrow> invoke_failure \<Rightarrow> int" where
  "retryNextAttempt u e = (if ifQuota e then quota_next (ueWait u) (ueNow u) e else ueNow u + seconds 10)"

record dispatch =
  daDelivered :: "string list"
  daPending :: "string list"
  daActive :: "string list"
  daError :: "engine_error option"

definition no_dispatch :: dispatch where
  "no_dispatch = \<lparr>daDelivered = [], daPending = [], daActive = [], daError = None\<rparr>"

definition set_error :: "engine_error \<Rightarrow> dispatch \<Rightarrow> dispatch" where
  "set_error e r = (if daError r = None then r\<lparr>daError := Some e\<rparr> else r)"

text \<open>A delivery record that stops the dispatch with an error when it cannot be written.\<close>

definition delivery_of :: "publish_env \<Rightarrow> collab_space \<Rightarrow> space_participant \<Rightarrow> delivery_status \<Rightarrow> msg \<Rightarrow> delivery" where
  "delivery_of u z p s reason =
     \<lparr>dvID = ''del_'' @ ueMsg u @ ''_'' @ tpID p, dvEvent = ueMsg u, dvSpace = zsID z, dvParticipant = tpID p, dvStatus = s,
      dvAttempt = (if s = DeliveryProcessing then 1 else 0), dvStarted = (if s = DeliveryProcessing then Some (ueNow u) else None),
      dvCompleted = None, dvResult = [], dvReason = reason\<rparr>"

definition recordDelivery :: "publish_env \<Rightarrow> delivery \<Rightarrow> engine_data \<times> dispatch \<Rightarrow> (engine_data \<times> dispatch \<Rightarrow> engine_data \<times> dispatch)
    \<Rightarrow> engine_data \<times> dispatch" where
  "recordDelivery u v dr k =
     (let (d, r) = dr in
      if ueFails u (AtRecord (dvID v)) then (d, set_error (EngineFailure (Msg ''record delivery %s: %w'' [AS (dvID v)])) r)
      else k (RecordEventDelivery v d, r))"

definition updateDelivery :: "publish_env \<Rightarrow> string \<Rightarrow> delivery_status \<Rightarrow> string \<Rightarrow> msg \<Rightarrow> engine_data \<times> dispatch \<Rightarrow> engine_data \<times> dispatch" where
  "updateDelivery u i s result reason dr =
     (let (d, r) = dr in
      if ueFails u (AtUpdate i) then (d, set_error (EngineFailure (Msg ''update delivery %s: %w'' [AS i])) r)
      else (UpdateEventDeliveryStatus (ueNow u) i s result reason d, r))"

text \<open>Whether the message concerns a participant, and what is decided before anything is run.\<close>

definition concerns :: "engine_data \<Rightarrow> collab_space \<Rightarrow> publish_request \<Rightarrow> space_participant \<Rightarrow> bool" where
  "concerns d z q p \<longleftrightarrow> mentioned (tpID p) (urqMentions q)
     \<or> (\<exists>b\<in>set (GetParticipantSubscriptions (zsID z) (tpID p) (edSpaces d)). ''*'' \<in> set (ubChannels b) \<or> urqChannelID q \<in> set (ubChannels b))"

datatype decision_outcome =
    NotConcerned
  | Failed engine_error
  | Held delivery_status msg
  | Denied msg
  | Unreachable
  | Run bool

definition is_external :: "publish_env \<Rightarrow> space_participant \<Rightarrow> bool" where
  "is_external u p \<longleftrightarrow> tpExecution p = ''external'' \<or> ueExternal u (tpID p)"

definition decide_dispatch ::
  "publish_env \<Rightarrow> collab_space \<Rightarrow> space_channel \<Rightarrow> publish_request \<Rightarrow> envelope \<Rightarrow> space_participant \<Rightarrow> engine_data
     \<Rightarrow> decision_outcome \<times> engine_data" where
  "decide_dispatch u z ch q env p d =
     (if \<not> concerns d z q p then (NotConcerned, d)
      else if checkChannelAccess z (Some ch) (tpID p) \<noteq> None then (NotConcerned, d)
      else case ShouldActivate (ueHash u) (ueCooldown u) (ueNow u) z p (Some env) (edActivation d) of
        (v, ac) \<Rightarrow>
          let d = d\<lparr>edActivation := ac\<rparr> in
          (case v of
             Refuse _ e \<Rightarrow> (Failed e, d)
           | Skip reason \<Rightarrow>
               (Held (if reason = ''cooldown_active'' \<or> reason = ''space_paused'' then DeliverySkipped else DeliveryPending) (plain reason), d)
           | Activate \<Rightarrow>
               (case CheckPrivacyPolicy (ueLib u) p (urqScope q) of
                  Some reason \<Rightarrow> (Denied reason, d)
                | None \<Rightarrow>
                    if is_external u p then (Held DeliveryPending (plain []), d)
                    else (case findHarness u (tpID p) (tpAdapter p) of None \<Rightarrow> (Unreachable, d) | Some h \<Rightarrow> (Run h, d)))))"

definition dispatch_prompt :: "publish_request \<Rightarrow> string \<Rightarrow> string" where
  "dispatch_prompt q payload = ''Message from '' @ urqFrom q @ '' in channel #'' @ urqChannelID q @ '' (thread '' @ urqThread q @ ''):''
     @ [CHR 0x0A, CHR 0x0A] @ payload"

text \<open>The findings of a reply, stored one after the other as open findings of the space; the first failure stops.\<close>

definition reply_finding :: "publish_env \<Rightarrow> collab_space \<Rightarrow> space_participant \<Rightarrow> finding_payload \<Rightarrow> finding_payload" where
  "reply_finding u z p f =
     \<lparr>gpID = gpID f, gpSession = zsID z, gpAgent = tpID p, gpParticipant = tpID p, gpAdapter = tpAdapter p, gpTime = ueNow u,
      gpSeverity = gpSeverity f, gpCategory = [], gpClaim = gpClaim f, gpEvidence = gpEvidence f, gpEvidenceRefs = [],
      gpRecommendation = gpRecommendation f, gpFile = gpFile f, gpLine = gpLine f, gpLineStart = gpLine f, gpEndLine = 0, gpLineEnd = 0,
      gpStatus = Some FindingOpen, gpDuplicateOf = [], gpRelated = []\<rparr>"

fun save_findings :: "publish_env \<Rightarrow> collab_space \<Rightarrow> space_participant \<Rightarrow> finding_payload list \<Rightarrow> finding_store \<Rightarrow> bool \<times> finding_store" where
  "save_findings u z p [] st = (True, st)"
| "save_findings u z p (f # fs) st =
     (if ueFails u (AtFinding (gpID f)) then (False, st)
      else save_findings u z p fs (SaveFinding (ueNow u) (zsID z) (reply_finding u z p f) st))"

definition reply_envelope :: "publish_env \<Rightarrow> publish_request \<Rightarrow> space_participant \<Rightarrow> string \<Rightarrow> envelope" where
  "reply_envelope u q p text =
     \<lparr>nvID = ueResp u (tpID p), nvSession = [], nvSpace = urqSpace q, nvChannel = urqChannelID q, nvThread = urqThread q, nvFrom = tpID p,
      nvTo = urqFrom q, nvMentions = [], nvDepth = 0, nvReplyTo = ueMsg u, nvScope = urqScope q,
      nvPayload = ''{\"text\":'' @ ueQuote u text @ ''}'', nvCreatedAt = ueNow u\<rparr>"

text \<open>The reply is stored, then its findings; only then does the participant count as activated and served.\<close>

definition store_reply ::
  "publish_env \<Rightarrow> collab_space \<Rightarrow> publish_request \<Rightarrow> space_participant \<Rightarrow> string \<Rightarrow> invoke_result \<Rightarrow> engine_data \<times> dispatch
     \<Rightarrow> engine_data \<times> dispatch" where
  "store_reply u z q p del res dr =
     (let (d, r) = dr in
      case SaveMessage (ueFails u (AtMessage (ueResp u (tpID p)))) (ueFails u (AtIndex (ueResp u (tpID p)))) (reply_envelope u q p (iuText res)) d of
        (Some e, d) \<Rightarrow> updateDelivery u del DeliveryFailed [] (plain ''message not stored'') (d, r)
      | (None, d) \<Rightarrow>
          (case save_findings u z p (ueParse u (iuText res)) (edFindings d) of
             (ok, fs) \<Rightarrow>
               let d = d\<lparr>edFindings := fs\<rparr> in
               if \<not> ok then updateDelivery u del DeliveryFailed [] (plain ''save finding: %v'') (d, r)
               else
                 let d = d\<lparr>edActivation := MarkActivated (ueNow u) (zsID z) (tpID p) (edActivation d)\<rparr>;
                     (d, r) = updateDelivery u del DeliveryDelivered (ueResp u (tpID p)) (plain []) (d, r)
                 in (d, r\<lparr>daDelivered := daDelivered r @ [tpID p]\<rparr>)))"

definition settle_store :: "('x \<times> 'y \<times> space_store) \<Rightarrow> engine_data \<Rightarrow> engine_data" where
  "settle_store c d = d\<lparr>edSpaces := snd (snd c)\<rparr>"

definition is_exceeded :: "budget_error \<Rightarrow> bool" where
  "is_exceeded e = (case e of BudgetExceededError _ _ _ \<Rightarrow> True | _ \<Rightarrow> False)"

text \<open>The invocation of a participant whose reservation was granted.\<close>

definition invoke_reserved ::
  "publish_env \<Rightarrow> collab_space \<Rightarrow> publish_request \<Rightarrow> string \<Rightarrow> space_participant \<Rightarrow> bool \<Rightarrow> reservation \<Rightarrow> engine_data \<times> dispatch
     \<Rightarrow> engine_data \<times> dispatch" where
  "invoke_reserved u z q payload p hard res dr =
     (let (d, r) = dr; v = delivery_of u z p DeliveryProcessing (plain []); del = dvID v; k = ueSettle u (tpID p) in
      case checkPeerTokenLimit (Some hard) (tpID p) res of
        Inl _ \<Rightarrow>
          (let c = rollbackBudget k res (edSpaces d) in
           recordDelivery u (delivery_of u z p DeliverySkipped
             (case fst c of None \<Rightarrow> plain ''hard_token_limit_unsupported''
              | Some _ \<Rightarrow> plain ''hard_token_limit_unsupported (rollback error: %v)'')) (settle_store c d, r) (\<lambda>dr. dr))
      | Inr maxTok \<Rightarrow>
          let request = \<lparr>irName = tpID p, irRepo = zsWorkspace z, irPrompt = dispatch_prompt q payload, irMaxTokens = maxTok,
                         irMaxCost = rvMaxCost res\<rparr> in
          (case ueInvoke u (tpID p) request of
             Inl e \<Rightarrow>
               (let d = d\<lparr>edRetries := snd (EnqueueRetry (ueNow u)
                      \<lparr>rtID = del, rtEvent = ueMsg u, rtSpace = zsID z, rtParticipant = tpID p, rtPayload = payload, rtAttempt = 1,
                       rtPriority = urqPriority q, rtNext = retryNextAttempt u e, rtError = ifError e, rtCreatedAt = 0\<rparr> (edRetries d))\<rparr>;
                    c = rollbackBudget k res (edSpaces d)
                in updateDelivery u del (if ifQuota e then DeliveryPending else DeliveryFailed) []
                     (case fst c of None \<Rightarrow> plain (ifError e)
                      | Some _ \<Rightarrow> Msg ''invocation error: %v; rollback error: %v'' [AS (ifError e)]) (settle_store c d, r))
           | Inr answer \<Rightarrow>
               (let (i, out, cost) = extractTokensAndCost request answer;
                    c = commitBudget (ueLimits u) k res i out cost (edSpaces d);
                    d = settle_store c d
                in case fst c of
                     Some e \<Rightarrow>
                       if is_exceeded e then updateDelivery u del DeliverySkipped [] (plain ''budget_exceeded'') (d, r)
                       else updateDelivery u del DeliveryFailed [] (plain ''failed to atomically commit budget: %w'') (d, r)
                   | None \<Rightarrow> store_reply u z q p del answer (d, r))))"

definition run_participant ::
  "publish_env \<Rightarrow> collab_space \<Rightarrow> publish_request \<Rightarrow> string \<Rightarrow> space_participant \<Rightarrow> bool \<Rightarrow> engine_data \<times> dispatch \<Rightarrow> engine_data \<times> dispatch" where
  "run_participant u z q payload p hard dr =
     recordDelivery u (delivery_of u z p DeliveryProcessing (plain [])) dr (\<lambda>(d, r).
       let r = r\<lparr>daActive := daActive r @ [tpID p]\<rparr> in
       case reserveBudget (ueLimits u) (ueReserve u (tpID p)) (zsID z) (estimate (dispatch_prompt q payload)) 1000 (edSpaces d) of
         (Inl _, st) \<Rightarrow>
           recordDelivery u (delivery_of u z p DeliverySkipped (plain ''budget_exceeded'')) (d\<lparr>edSpaces := st\<rparr>, r) (\<lambda>dr. dr)
       | (Inr res, st) \<Rightarrow> invoke_reserved u z q payload p hard res (d\<lparr>edSpaces := st\<rparr>, r))"

definition dispatch_one ::
  "publish_env \<Rightarrow> collab_space \<Rightarrow> space_channel \<Rightarrow> publish_request \<Rightarrow> envelope \<Rightarrow> space_participant \<Rightarrow> engine_data \<times> dispatch \<Rightarrow> engine_data \<times> dispatch" where
  "dispatch_one u z ch q env p dr =
     (let (d, r) = dr in
      if tpID p = urqFrom q then (d, r)
      else (case decide_dispatch u z ch q env p d of
          (NotConcerned, d) \<Rightarrow> (d, r)
        | (Failed e, d) \<Rightarrow> (d, set_error e r)
        | (Held s reason, d) \<Rightarrow>
            recordDelivery u (delivery_of u z p s reason) (d, r) (\<lambda>(d, r). (d, r\<lparr>daPending := daPending r @ [tpID p]\<rparr>))
        | (Denied reason, d) \<Rightarrow> recordDelivery u (delivery_of u z p DeliverySkipped reason) (d, r) (\<lambda>dr. dr)
        | (Unreachable, d) \<Rightarrow> (d, r\<lparr>daPending := daPending r @ [tpID p]\<rparr>)
        | (Run h, d) \<Rightarrow> run_participant u z q (nvPayload env) p h (d, r)))"

subsection \<open>The operation\<close>

record publish_response =
  uxMessage :: string
  uxThread :: string
  uxChannel :: string
  uxDelivered :: "string list"
  uxPending :: "string list"
  uxActive :: "string list"

text \<open>The channel of the request: the stored one the sender may use, or a new one open to all members. Whatever keeps the channel
  from being read is taken for a channel that does not exist: \<open>CreateChannel\<close> then overwrites the visibility of a stored one.\<close>

definition read_channel :: "publish_env \<Rightarrow> publish_request \<Rightarrow> engine_data \<Rightarrow> space_channel option" where
  "read_channel u q d = (if ueFails u AtGetChannel then None else GetChannel (urqSpace q) (urqChannelID q) (edSpaces d))"

definition publish_channel :: "publish_env \<Rightarrow> collab_space \<Rightarrow> publish_request \<Rightarrow> engine_data \<Rightarrow> engine_error + (space_channel \<times> engine_data)" where
  "publish_channel u z q d =
     (case read_channel u q d of
        Some ch \<Rightarrow> guard_res (checkChannelAccess z (Some ch) (urqFrom q)) (Inr (ch, d))
      | None \<Rightarrow>
          guard_res (checkChannelAccess z None (urqFrom q))
            (let ch = \<lparr>hcID = urqChannelID q, hcSpace = urqSpace q, hcName = urqChannelID q, hcVisibility = VisibleAll, hcParticipants = [],
                       hcCapabilities = [], hcCreatedBy = urqFrom q, hcCreatedAt = ueNow u\<rparr> in
             if ueFails u AtChannel then Inl (EngineFailure (plain ''failed to create channel: %w''))
             else Inr (ch, d\<lparr>edSpaces := StoreChannel ch (edSpaces d)\<rparr>)))"

definition publish_thread :: "publish_env \<Rightarrow> publish_request \<Rightarrow> engine_data \<Rightarrow> engine_error + (publish_request \<times> engine_data)" where
  "publish_thread u q d =
     (if urqThread q \<noteq> [] then Inr (q, d)
      else if ueFails u AtThread then Inl (EngineFailure (plain ''failed to create thread: %w''))
      else Inr (q\<lparr>urqThread := ueThread u\<rparr>, d\<lparr>edThreads := upsert (\<lambda>old new. old\<lparr>qtTitle := qtTitle new\<rparr>) (ueThread u)
             \<lparr>qtID = ueThread u, qtSpace = urqSpace q, qtChannel = urqChannelID q,
              qtTitle = (if urqSubject q = [] then ''Discussion by '' @ urqFrom q else urqSubject q)\<rparr> (edThreads d)\<rparr>))"

definition publish_payload :: "publish_env \<Rightarrow> publish_request \<Rightarrow> string" where
  "publish_payload u q =
     (if urqPayload q = [] \<or> urqPayload q = ''{}''
      then (if urqMessage q \<noteq> [] then ''{\"text\":'' @ ueQuote u (urqMessage q) @ ''}'' else ''{}'')
      else urqPayload q)"

definition publish_envelope :: "publish_env \<Rightarrow> publish_request \<Rightarrow> string \<Rightarrow> envelope" where
  "publish_envelope u q payload =
     \<lparr>nvID = ueMsg u, nvSession = [], nvSpace = urqSpace q, nvChannel = urqChannelID q, nvThread = urqThread q, nvFrom = urqFrom q,
      nvTo = ''channel:'' @ urqChannelID q, nvMentions = urqMentions q, nvDepth = 0, nvReplyTo = urqReplyTo q, nvScope = urqScope q,
      nvPayload = payload, nvCreatedAt = ueNow u\<rparr>"

definition dispatch_all ::
  "publish_env \<Rightarrow> collab_space \<Rightarrow> space_channel \<Rightarrow> publish_request \<Rightarrow> envelope \<Rightarrow> engine_data \<Rightarrow> engine_data \<times> dispatch" where
  "dispatch_all u z ch q env d = fold (dispatch_one u z ch q env) (map snd (zsParticipants z)) (d, no_dispatch)"

definition with_channel :: "publish_request \<Rightarrow> publish_request" where
  "with_channel q = (if urqChannelID q \<noteq> [] then q
     else q\<lparr>urqChannelID := (if urqChannel q \<noteq> [] then urqChannel q else ''general'')\<rparr>)"

text \<open>Everything before the participants: the space, the channel, the thread, the checked payload and the stored message.\<close>

definition publish_prepare ::
  "publish_env \<Rightarrow> publish_request \<Rightarrow> engine_data
     \<Rightarrow> (engine_error + (collab_space \<times> space_channel \<times> publish_request \<times> envelope)) \<times> engine_data" where
  "publish_prepare u q d =
     (if urqSpace q = [] then (Inl (EngineFailure (plain ''space_id is required'')), d)
      else case GetSpace (urqSpace q) (edSpaces d) of
        None \<Rightarrow> (Inl (SpaceNotFoundError (urqSpace q)), d)
      | Some z \<Rightarrow>
          if zsState z = SpacePaused then (Inl (ParticipantPausedError (urqFrom q) (urqSpace q)), d)
          else if zsState z = SpaceStopped then (Inl (HumanInterruptedError ''space is stopped''), d)
          else let q = with_channel q in
          (case publish_channel u z q d of
             Inl e \<Rightarrow> (Inl e, d)
           | Inr (ch, d) \<Rightarrow>
          (case publish_thread u q d of
             Inl e \<Rightarrow> (Inl e, d)
           | Inr (q, d) \<Rightarrow>
          (case ueSecurity u (urqFrom q) (publish_payload u q) of
             Inl e \<Rightarrow> (Inl (EngineFailure (plain e)), d)
           | Inr payload \<Rightarrow>
               let env = publish_envelope u q payload in
          (case SaveMessage (ueFails u (AtMessage (ueMsg u))) (ueFails u (AtIndex (ueMsg u))) env d of
             (Some e, d) \<Rightarrow> (Inl e, d)
           | (None, d) \<Rightarrow>
               if ueFails u AtEvent then (Inl (EngineFailure (plain ''failed to publish message event: %w'')), d)
               else (Inr (z, ch, q, env), d))))))"

text \<open>An error of a dispatch is returned when all participants are done.\<close>

definition Publish :: "publish_env \<Rightarrow> publish_request \<Rightarrow> engine_data \<Rightarrow> (engine_error + publish_response) \<times> engine_data" where
  "Publish u q d =
     (case publish_prepare u q d of
        (Inl e, d) \<Rightarrow> (Inl e, d)
      | (Inr (z, ch, q, env), d) \<Rightarrow>
          (case dispatch_all u z ch q env d of
             (d, r) \<Rightarrow>
               (case daError r of
                  Some e \<Rightarrow> (Inl e, d)
                | None \<Rightarrow> (Inr \<lparr>uxMessage = ueMsg u, uxThread = urqThread q, uxChannel = urqChannelID q, uxDelivered = daDelivered r,
                               uxPending = daPending r, uxActive = daActive r\<rparr>, d))))"

text \<open>The participants a publication runs, whatever it returns.\<close>

definition participants_run :: "publish_env \<Rightarrow> publish_request \<Rightarrow> engine_data \<Rightarrow> string list" where
  "participants_run u q d =
     (case publish_prepare u q d of
        (Inl _, _) \<Rightarrow> []
      | (Inr (z, ch, q, env), d) \<Rightarrow> daActive (snd (dispatch_all u z ch q env d)))"

end
