(* ===== verification/PublishProps.thy ===== *)
theory PublishProps
  imports Publish
begin

text \<open>
  What publishing guarantees and where it fails: who is run, what becomes of a reservation whose
  commit cannot be stored, and the recipients that make the whole operation fail after the message
  was stored.
\<close>

subsection \<open>What a dispatch leaves alone\<close>

lemma UpdateBudget_subs: "UpdateBudget i b st = Some st' \<Longrightarrow> ztSubscriptions st' = ztSubscriptions st"
  by (auto simp: UpdateBudget_def split: if_splits)

lemma reserve_subs: "ztSubscriptions (snd (reserveBudget cfg k i a b st)) = ztSubscriptions st"
  by (auto simp: reserveBudget_def Let_def dest: UpdateBudget_subs split: account.splits sum.splits option.splits if_splits)

lemma commit_subs: "ztSubscriptions (snd (snd (commitBudget cfg k r a b c st))) = ztSubscriptions st"
  by (auto simp: commitBudget_def Let_def dest: UpdateBudget_subs split: account.splits option.splits if_splits)

lemma rollback_subs: "ztSubscriptions (snd (snd (rollbackBudget k r st))) = ztSubscriptions st"
  by (auto simp: rollbackBudget_def Let_def dest: UpdateBudget_subs split: account.splits option.splits if_splits)

lemma ensure_subs: "ztSubscriptions (ensure_session i now st) = ztSubscriptions st"
  by (simp add: ensure_session_def)

text \<open>
  A step of the dispatch of a participant: subscriptions and thread histories stay, only the participant's
  own activation time changes, an error stays, nobody else becomes active, and stored messages stay.
\<close>

definition keeps :: "string \<Rightarrow> engine_data \<times> dispatch \<Rightarrow> engine_data \<times> dispatch \<Rightarrow> bool" where
  "keeps key a b \<longleftrightarrow> ztSubscriptions (edSpaces (fst b)) = ztSubscriptions (edSpaces (fst a))
     \<and> aaHashes (edActivation (fst b)) = aaHashes (edActivation (fst a))
     \<and> (\<forall>k. k \<noteq> key \<longrightarrow> aaLast (edActivation (fst b)) k = aaLast (edActivation (fst a)) k)
     \<and> (daError (snd b) = None \<longrightarrow> daError (snd a) = None) \<and> daActive (snd b) = daActive (snd a)
     \<and> fst ` set (edMessages (fst a)) \<subseteq> fst ` set (edMessages (fst b))"

lemma keeps_refl [simp]: "keeps key a a"
  by (simp add: keeps_def)

lemma keeps_trans [trans]: "keeps key a b \<Longrightarrow> keeps key b c \<Longrightarrow> keeps key a c"
  unfolding keeps_def by (elim conjE, intro conjI) (simp, simp, simp, simp, simp, rule order_trans)

lemma set_error_simps [simp]: "daError (set_error e r) = None \<longleftrightarrow> False" "daActive (set_error e r) = daActive r"
  by (simp_all add: set_error_def)

lemma keeps_update: "keeps key (d, r) (updateDelivery u i s res m (d, r))"
  by (simp add: keeps_def updateDelivery_def UpdateEventDeliveryStatus_def)

lemma keeps_record:
  assumes "keeps key (RecordEventDelivery v d, r) (k (RecordEventDelivery v d, r))"
  shows "keeps key (d, r) (recordDelivery u v (d, r) k)"
  using assms by (auto simp: keeps_def recordDelivery_def RecordEventDelivery_def)

lemma keeps_store_reply: "keeps (colon_key (zsID z) (tpID p)) (d, r) (store_reply u z q p del res (d, r))"
  by (simp add: keeps_def store_reply_def SaveMessage_def updateDelivery_def UpdateEventDeliveryStatus_def MarkActivated_def Let_def
      ensure_subs subset_insertI split: prod.splits)

lemma keeps_settle:
  assumes "keeps key (settle_store c d, r) b" and "ztSubscriptions (snd (snd c)) = ztSubscriptions (edSpaces d)"
  shows "keeps key (d, r) b"
  using assms by (simp add: keeps_def settle_store_def)

lemma keeps_retries: "keeps key (d\<lparr>edRetries := x\<rparr>, r) b \<Longrightarrow> keeps key (d, r) b"
  by (simp add: keeps_def)

lemma keeps_invoke: "keeps (colon_key (zsID z) (tpID p)) (d, r) (invoke_reserved u z q payload p h res (d, r))"
proof -
  let ?key = "colon_key (zsID z) (tpID p)"
  have rb: "keeps ?key (d, r) (settle_store (rollbackBudget k res (edSpaces d')) d', r)"
    if "edSpaces d' = edSpaces d" "edActivation d' = edActivation d" "edMessages d' = edMessages d" for k d'
    using that rollback_subs [of k res "edSpaces d"] by (simp add: keeps_def settle_store_def)
  have cm: "keeps ?key (d, r) (settle_store (commitBudget cfg k res i out c (edSpaces d)) d, r)" for cfg k i out c
    using commit_subs [of cfg k res i out c "edSpaces d"] by (simp add: keeps_def settle_store_def)
  show ?thesis
  proof (cases "checkPeerTokenLimit (Some h) (tpID p) res")
    case (Inl e)
    show ?thesis
      unfolding invoke_reserved_def Let_def prod.case Inl sum.case
      by (rule keeps_trans [OF rb [OF refl refl refl] keeps_record]) simp
  next
    case (Inr maxTok)
    let ?q = "\<lparr>irName = tpID p, irRepo = zsWorkspace z, irPrompt = dispatch_prompt q payload, irMaxTokens = maxTok,
      irMaxCost = rvMaxCost res\<rparr>"
    show ?thesis
    proof (cases "ueInvoke u (tpID p) ?q")
      case (Inl e)
      show ?thesis
        unfolding invoke_reserved_def Let_def prod.case Inr Inl sum.case
        by (rule keeps_trans [OF rb keeps_update]) simp_all
    next
      case ans: (Inr answer)
      obtain i out c where t: "extractTokensAndCost ?q answer = (i, out, c)" by (cases "extractTokensAndCost ?q answer") auto
      let ?c = "commitBudget (ueLimits u) (ueSettle u (tpID p)) res i out c (edSpaces d)"
      show ?thesis
      proof (cases "fst ?c")
        case None
        show ?thesis
          unfolding invoke_reserved_def Let_def prod.case Inr ans sum.case t None option.case
          by (rule keeps_trans [OF cm keeps_store_reply])
      next
        case (Some e)
        show ?thesis
          unfolding invoke_reserved_def Let_def prod.case Inr ans sum.case t Some option.case
          by (cases "is_exceeded e") (simp_all only: if_True if_False keeps_trans [OF cm keeps_update])
      qed
    qed
  qed
qed

lemma keeps_run:
  "keeps (colon_key (zsID z) (tpID p)) (d, r) (run_participant u z q payload p h (d, r))
   \<or> keeps (colon_key (zsID z) (tpID p)) (d, r\<lparr>daActive := daActive r @ [tpID p]\<rparr>) (run_participant u z q payload p h (d, r))"
proof (cases "ueFails u (AtRecord (dvID (delivery_of u z p DeliveryProcessing (plain []))))")
  case True
  then show ?thesis by (simp add: run_participant_def recordDelivery_def keeps_def)
next
  case False
  let ?d = "RecordEventDelivery (delivery_of u z p DeliveryProcessing (plain [])) d" and ?r = "r\<lparr>daActive := daActive r @ [tpID p]\<rparr>"
  let ?key = "colon_key (zsID z) (tpID p)"
  obtain g st where g: "reserveBudget (ueLimits u) (ueReserve u (tpID p)) (zsID z) (estimate (dispatch_prompt q payload)) 1000
      (edSpaces ?d) = (g, st)" by fastforce
  have st: "keeps ?key (d, ?r) (?d\<lparr>edSpaces := st\<rparr>, ?r)"
    using reserve_subs [of "ueLimits u" "ueReserve u (tpID p)" "zsID z" "estimate (dispatch_prompt q payload)" 1000 "edSpaces ?d"] g
    by (simp add: keeps_def RecordEventDelivery_def)
  show ?thesis
  proof (rule disjI2, cases g)
    case (Inl e)
    then show "keeps ?key (d, ?r) (run_participant u z q payload p h (d, r))"
      using False g keeps_trans [OF st keeps_record [of ?key _ _ _ "\<lambda>dr. dr"]]
      by (simp add: run_participant_def recordDelivery_def [of u "delivery_of u z p DeliveryProcessing (plain [])"])
  next
    case (Inr res)
    then show "keeps ?key (d, ?r) (run_participant u z q payload p h (d, r))"
      using False g keeps_trans [OF st keeps_invoke]
      by (simp add: run_participant_def recordDelivery_def [of u "delivery_of u z p DeliveryProcessing (plain [])"])
  qed
qed

subsection \<open>Who is run\<close>

lemma decide_subs: "ztSubscriptions (edSpaces (snd (decide_dispatch u z ch q env p d))) = ztSubscriptions (edSpaces d)"
  by (auto simp: decide_dispatch_def Let_def split: prod.splits verdict.splits option.splits)

text \<open>Everything the code checks before it runs a participant.\<close>

definition may_run :: "publish_env \<Rightarrow> collab_space \<Rightarrow> space_channel \<Rightarrow> publish_request \<Rightarrow> engine_data \<Rightarrow> space_participant \<Rightarrow> bool" where
  "may_run u z ch q d p \<longleftrightarrow> tpID p \<noteq> urqFrom q \<and> concerns d z q p \<and> checkChannelAccess z (Some ch) (tpID p) = None
     \<and> zsState z = SpaceActive \<and> tpMode p \<noteq> ModePaused \<and> tpMode p \<noteq> ModePassive
     \<and> (tpMode p = ModeOnDemand \<longrightarrow> mentioned (tpID p) (urqMentions q) \<or> tpID p = ''channel:'' @ urqChannelID q)
     \<and> CheckPrivacyPolicy (ueLib u) p (urqScope q) = None \<and> \<not> is_external u p \<and> findHarness u (tpID p) (tpAdapter p) \<noteq> None"

lemma concerns_cong: "ztSubscriptions (edSpaces d) = ztSubscriptions (edSpaces d') \<Longrightarrow> concerns d z q p = concerns d' z q p"
  by (simp add: concerns_def GetParticipantSubscriptions_def)

lemma targeted_channel: "nvTo env = ''channel:'' @ c \<Longrightarrow> targeted p env \<Longrightarrow> p = ''channel:'' @ c \<or> mentioned p (nvMentions env)"
  by (auto simp: targeted_def)

lemma decide_Run:
  assumes "decide_dispatch u z ch q (publish_envelope u q payload) p d = (Run h, d')" and "tpID p \<noteq> urqFrom q"
  shows "may_run u z ch q d p"
proof -
  let ?env = "publish_envelope u q payload"
  obtain v ac where v: "ShouldActivate (ueHash u) (ueCooldown u) (ueNow u) z p (Some ?env) (edActivation d) = (v, ac)"
    by fastforce
  then have "v = Activate" "concerns d z q p" "checkChannelAccess z (Some ch) (tpID p) = None"
    "CheckPrivacyPolicy (ueLib u) p (urqScope q) = None" "\<not> is_external u p" "findHarness u (tpID p) (tpAdapter p) \<noteq> None"
    using assms(1) by (auto simp: decide_dispatch_def Let_def split: if_splits verdict.splits option.splits)
  then show ?thesis
    using ShouldActivate_Activate [OF v [simplified \<open>v = Activate\<close>]] assms(2)
      targeted_channel [of ?env "urqChannelID q" "tpID p"]
    by (auto simp: may_run_def publish_envelope_def)
qed

lemma activation_last: "ShouldActivate hash cd now z p e ac = (v, ac') \<Longrightarrow> aaLast ac' = aaLast ac"
  by (auto simp: ShouldActivate_def detectCycle_def Let_def split: option.splits prod.splits if_splits)

lemma decide_last:
  "edSpaces (snd (decide_dispatch u z ch q env p d)) = edSpaces d"
  "aaLast (edActivation (snd (decide_dispatch u z ch q env p d))) = aaLast (edActivation d)"
  "edMessages (snd (decide_dispatch u z ch q env p d)) = edMessages d"
  by (auto simp: decide_dispatch_def Let_def dest: activation_last split: prod.splits verdict.splits option.splits)

lemma dispatch_one_keeps:
  assumes "tpID p \<noteq> urqFrom q" and "decide_dispatch u z ch q env p d = (x, d1)"
  shows "\<exists>a. (a = r \<or> (\<exists>h. x = Run h) \<and> a = r\<lparr>daActive := daActive r @ [tpID p]\<rparr>)
    \<and> keeps (colon_key (zsID z) (tpID p)) (d1, a) (dispatch_one u z ch q env p (d, r))"
proof (cases x)
  case (Run h)
  then show ?thesis
    using keeps_run [of z p d1 r u q "nvPayload env" h] assms by (auto simp: dispatch_one_def)
next
  case (Held s m)
  then show ?thesis
    using assms by (intro exI [of _ r]) (simp add: dispatch_one_def keeps_record keeps_def recordDelivery_def RecordEventDelivery_def)
next
  case (Denied m)
  then show ?thesis
    using assms by (intro exI [of _ r]) (simp add: dispatch_one_def keeps_record keeps_def recordDelivery_def RecordEventDelivery_def)
qed (use assms in \<open>auto simp: dispatch_one_def keeps_def intro!: exI [of _ r]\<close>)

lemma dispatch_one_frame:
  assumes "dispatch_one u z ch q env p (d, r) = (d', r')"
  shows "ztSubscriptions (edSpaces d') = ztSubscriptions (edSpaces d) \<and> (daError r' = None \<longrightarrow> daError r = None)
    \<and> (daActive r' = daActive r \<or> daActive r' = daActive r @ [tpID p] \<and> tpID p \<noteq> urqFrom q
         \<and> (\<exists>h d1. decide_dispatch u z ch q env p d = (Run h, d1)))
    \<and> (\<forall>k. k \<noteq> colon_key (zsID z) (tpID p) \<longrightarrow> aaLast (edActivation d') k = aaLast (edActivation d) k)
    \<and> (tpID p \<noteq> urqFrom q \<longrightarrow> aaHashes (edActivation d') = aaHashes (edActivation (snd (decide_dispatch u z ch q env p d))))
    \<and> fst ` set (edMessages d) \<subseteq> fst ` set (edMessages d')"
proof (cases "tpID p = urqFrom q")
  case True
  then show ?thesis using assms by (simp add: dispatch_one_def)
next
  case False
  obtain x d1 where x: "decide_dispatch u z ch q env p d = (x, d1)" by fastforce
  from dispatch_one_keeps [OF False x, of r] obtain a where
    a: "a = r \<or> (\<exists>h. x = Run h) \<and> a = r\<lparr>daActive := daActive r @ [tpID p]\<rparr>" "keeps (colon_key (zsID z) (tpID p)) (d1, a) (d', r')"
    using assms by auto
  have "edSpaces d1 = edSpaces d" "aaLast (edActivation d1) = aaLast (edActivation d)" "edMessages d1 = edMessages d"
    using decide_last [of u z ch q env p d] x by simp_all
  then show ?thesis
    using a False x by (auto simp: keeps_def)
qed

lemma dispatch_active:
  assumes "fold (dispatch_one u z ch q (publish_envelope u q payload)) ps (d, r) = (d', r')"
    and "n \<in> set (daActive r')" and "n \<notin> set (daActive r)"
  shows "\<exists>p\<in>set ps. tpID p = n \<and> may_run u z ch q d p"
  using assms
proof (induction ps arbitrary: d r)
  case (Cons p ps)
  obtain d1 r1 where one: "dispatch_one u z ch q (publish_envelope u q payload) p (d, r) = (d1, r1)" by fastforce
  note fr = dispatch_one_frame [OF one]
  show ?case
  proof (cases "n \<in> set (daActive r1)")
    case True
    then have "n = tpID p" "tpID p \<noteq> urqFrom q" "\<exists>h d2. decide_dispatch u z ch q (publish_envelope u q payload) p d = (Run h, d2)"
      using fr Cons.prems(3) by auto
    then show ?thesis using decide_Run by auto
  next
    case False
    then obtain p' where p': "p' \<in> set ps" "tpID p' = n" "may_run u z ch q d1 p'"
      using Cons.IH [of d1 r1] Cons.prems one by auto
    have "concerns d z q p' = concerns d1 z q p'" by (rule concerns_cong) (use fr in simp)
    then show ?thesis using p' by (auto simp: may_run_def)
  qed
qed simp

lemma access_new_channel: "hcVisibility ch = VisibleAll \<Longrightarrow> checkChannelAccess z (Some ch) p = checkChannelAccess z None p"
  by (simp add: checkChannelAccess_def split: option.splits)

lemma may_run_cong:
  assumes "may_run u z ch q d p" and "ztSubscriptions (edSpaces d') = ztSubscriptions (edSpaces d)"
    and "urqFrom q' = urqFrom q" and "urqMentions q' = urqMentions q" and "urqScope q' = urqScope q" and "urqChannelID q' = urqChannelID q"
  shows "may_run u z ch q' d' p"
  using assms by (simp add: may_run_def concerns_def GetParticipantSubscriptions_def)

text \<open>How far an operation got that reached its participants.\<close>

definition reached ::
  "publish_env \<Rightarrow> publish_request \<Rightarrow> engine_data \<Rightarrow> collab_space \<Rightarrow> space_channel \<Rightarrow> publish_request \<Rightarrow> string \<Rightarrow> engine_data \<Rightarrow> bool" where
  "reached u q d z ch q1 payload d1 \<longleftrightarrow> GetSpace (urqSpace q) (edSpaces d) = Some z
     \<and> checkChannelAccess z (Some ch) (urqFrom q) = None
     \<and> (case read_channel u (with_channel q) d of Some c \<Rightarrow> ch = c | None \<Rightarrow> hcVisibility ch = VisibleAll)
     \<and> urqFrom q1 = urqFrom q \<and> urqMentions q1 = urqMentions q \<and> urqScope q1 = urqScope q \<and> urqChannelID q1 = urqChannelID (with_channel q)
     \<and> ztSubscriptions (edSpaces d1) = ztSubscriptions (edSpaces d) \<and> aaLast (edActivation d1) = aaLast (edActivation d)
     \<and> ueMsg u \<in> fst ` set (edMessages d1)"

lemma prepare_Inr:
  assumes "publish_prepare u q d = (Inr (z, ch, q1, env), d3)"
  shows "\<exists>payload. env = publish_envelope u q1 payload \<and> reached u q d z ch q1 payload d3"
proof -
  note red = assms [unfolded publish_prepare_def]
  have z: "GetSpace (urqSpace q) (edSpaces d) = Some z"
    using red by (auto simp: Let_def split: if_splits option.splits sum.splits prod.splits)
  obtain d1 where ch: "publish_channel u z (with_channel q) d = Inr (ch, d1)"
    using red z by (auto simp: Let_def split: if_splits sum.splits prod.splits option.splits)
  obtain d2 where th: "publish_thread u (with_channel q) d1 = Inr (q1, d2)"
    using red z ch by (auto simp: Let_def split: if_splits sum.splits prod.splits option.splits)
  obtain payload where pl: "env = publish_envelope u q1 payload"
    and sv: "SaveMessage (ueFails u (AtMessage (ueMsg u))) (ueFails u (AtIndex (ueMsg u))) env d2 = (None, d3)"
    using red z ch th by (auto simp: Let_def split: if_splits sum.splits prod.splits option.splits)
  have q1: "urqFrom q1 = urqFrom q" "urqMentions q1 = urqMentions q" "urqScope q1 = urqScope q"
      "urqChannelID q1 = urqChannelID (with_channel q)" "edSpaces d2 = edSpaces d1" "edActivation d2 = edActivation d1"
    using th by (auto simp: publish_thread_def with_channel_def split: if_splits)
  have d1: "ztSubscriptions (edSpaces d1) = ztSubscriptions (edSpaces d)" "edActivation d1 = edActivation d"
    using ch by (auto simp: publish_channel_def StoreChannel_def Let_def split: option.splits if_splits)
  have d3: "ztSubscriptions (edSpaces d3) = ztSubscriptions (edSpaces d2)" "edActivation d3 = edActivation d2"
      "ueMsg u \<in> fst ` set (edMessages d3)"
    using sv by (auto simp: SaveMessage_def Let_def ensure_subs publish_envelope_def pl split: if_splits)
  have wq: "urqFrom (with_channel q) = urqFrom q" by (simp add: with_channel_def)
  have "checkChannelAccess z (Some ch) (urqFrom q) = None
      \<and> (case read_channel u (with_channel q) d of Some c \<Rightarrow> ch = c | None \<Rightarrow> hcVisibility ch = VisibleAll)"
    using ch access_new_channel [of ch z "urqFrom q"]
    by (auto simp: publish_channel_def Let_def wq split: option.splits if_splits)
  then have "reached u q d z ch q1 payload d3"
    using z q1 d1 d3 by (simp add: reached_def)
  with pl show ?thesis by blast
qed

lemma publish_cases:
  assumes "Publish u q d = (res, d')"
  obtains (stopped) e where "res = Inl e"
  | (dispatched) z ch q1 payload d1 r where "reached u q d z ch q1 payload d1"
      "dispatch_all u z ch q1 (publish_envelope u q1 payload) d1 = (d', r)"
      "res = (case daError r of Some e \<Rightarrow> Inl e | None \<Rightarrow> Inr \<lparr>uxMessage = ueMsg u, uxThread = urqThread q1, uxChannel = urqChannelID q1,
         uxDelivered = daDelivered r, uxPending = daPending r, uxActive = daActive r\<rparr>)"
proof (cases "publish_prepare u q d")
  case (Pair x d1)
  show thesis
  proof (cases x)
    case (Inl e)
    then show thesis using assms Pair by (intro stopped [of e]) (simp add: Publish_def)
  next
    case (Inr y)
    obtain z ch q1 env where y: "y = (z, ch, q1, env)" by (cases y) auto
    obtain payload where p: "env = publish_envelope u q1 payload" "reached u q d z ch q1 payload d1"
      using prepare_Inr Pair Inr y by blast
    obtain d2 r where ds: "dispatch_all u z ch q1 env d1 = (d2, r)" by fastforce
    have "d2 = d'" "res = (case daError r of Some e \<Rightarrow> Inl e | None \<Rightarrow> Inr \<lparr>uxMessage = ueMsg u, uxThread = urqThread q1,
        uxChannel = urqChannelID q1, uxDelivered = daDelivered r, uxPending = daPending r, uxActive = daActive r\<rparr>)"
      using assms ds by (auto simp: Publish_def Pair Inr y split: option.splits)
    then show thesis using dispatched p ds by blast
  qed
qed

text \<open>The response names the participants that were run.\<close>

lemma response_names_participants_run:
  "Publish u q d = (Inr resp, d') \<Longrightarrow> uxActive resp = participants_run u q d"
  by (auto simp: Publish_def participants_run_def split: prod.splits sum.splits option.splits)

text \<open>C3: nobody is run who may not be, whether the publication succeeds or ends with an error of one of its dispatches: every
  participant it runs is another member of an active space, mentioned or subscribed to the channel, allowed to use the channel,
  neither paused nor passive, run on demand only when addressed, not a cloud adapter for sensitive files, managed here and
  registered; and the sender may use the channel itself. The channel is the stored one if it could be read, and a new one open to
  all members if there is none or reading it failed.\<close>
theorem publish_runs_only_authorized:
  assumes "n \<in> set (participants_run u q d)"
  shows "\<exists>z ch p. GetSpace (urqSpace q) (edSpaces d) = Some z \<and> p \<in> set (map snd (zsParticipants z)) \<and> tpID p = n
    \<and> may_run u z ch (with_channel q) d p \<and> checkChannelAccess z (Some ch) (urqFrom q) = None
    \<and> (case read_channel u (with_channel q) d of Some c \<Rightarrow> ch = c | None \<Rightarrow> hcVisibility ch = VisibleAll)"
proof -
  obtain z ch q1 env d1 where prep: "publish_prepare u q d = (Inr (z, ch, q1, env), d1)"
    and n: "n \<in> set (daActive (snd (dispatch_all u z ch q1 env d1)))"
    using assms by (cases "publish_prepare u q d") (auto simp: participants_run_def split: prod.splits sum.splits)
  obtain payload where env: "env = publish_envelope u q1 payload" and R: "reached u q d z ch q1 payload d1"
    using prepare_Inr [OF prep] by blast
  obtain d' r where ds: "dispatch_all u z ch q1 env d1 = (d', r)" by fastforce
  then have "n \<in> set (daActive r)" using n by simp
  then have "\<exists>p\<in>set (map snd (zsParticipants z)). tpID p = n \<and> may_run u z ch q1 d1 p"
    by (intro dispatch_active [OF ds [unfolded dispatch_all_def env]])
      (simp_all only: no_dispatch_def dispatch.simps list.set empty_iff not_False_eq_True)
  then obtain p where p: "p \<in> set (map snd (zsParticipants z))" "tpID p = n" "may_run u z ch q1 d1 p"
    by blast
  then have "may_run u z ch (with_channel q) d p"
    using may_run_cong [OF p(3), of d "with_channel q"] R by (simp add: reached_def with_channel_def)
  then show ?thesis using p R by (auto simp: reached_def)
qed

text \<open>A failing read of a channel opens it: as long as the sender is a member of the space, a stored channel of any visibility is
  visible to all members afterwards.\<close>

lemma unreadable_channel_opened:
  assumes "ueFails u AtGetChannel" and "\<not> ueFails u AtChannel" and "checkChannelAccess z None (urqFrom q) = None"
  shows "\<exists>ch d'. publish_channel u z q d = Inr (ch, d')
    \<and> map_option hcVisibility (GetChannel (urqSpace q) (urqChannelID q) (edSpaces d')) = Some VisibleAll"
  using assms
  by (auto simp: publish_channel_def read_channel_def Let_def StoreChannel_def GetChannel_def map_of_upsert merge_channel_def split: option.splits)


text \<open>An environment for the examples: every harness answers, the clock stands at ten seconds.\<close>

definition sample_answer :: "string \<Rightarrow> invoke_request \<Rightarrow> invoke_failure + invoke_result" where
  "sample_answer p q = Inr \<lparr>iuText = ''ok'', iuUsage = \<lparr>toIn = Some 20, toOut = Some 10, toCost = None\<rparr>\<rparr>"

definition sample_publish_env :: "budget_call \<Rightarrow> publish_env" where
  "sample_publish_env settle =
     \<lparr>ueNow = seconds 10, ueMsg = ''m1'', ueThread = ''t1'', ueResp = (\<lambda>p. ''r_'' @ p), ueLib = sample_text, ueQuote = (\<lambda>s. s),
      ueHash = (\<lambda>s. s), ueCooldown = seconds 1, ueLimits = no_limits, ueExternal = (\<lambda>_. False),
      ueHarnesses = [(''codex'', True), (''claude'', True), (''gemini'', True)], ueInvoke = sample_answer,
      ueReserve = (\<lambda>_. \<lparr>bcTenant = None, bcSessionFails = False, bcSpaceFails = False, bcUpdateFails = False\<rparr>),
      ueSettle = (\<lambda>_. settle), ueWait = 0, ueParse = (\<lambda>_. []), ueSecurity = (\<lambda>_ s. Inr s), ueFails = (\<lambda>_. False)\<rparr>"

definition sample_publish :: publish_request where
  "sample_publish =
     \<lparr>urqSpace = ''z'', urqChannelID = ''general'', urqChannel = [], urqThread = ''t'', urqFrom = ''human'', urqSubject = [],
      urqMessage = ''hello'', urqPayload = [], urqMentions = [''codex'', ''claude'', ''gemini''], urqReplyTo = [], urqScope = [],
      urqPriority = 0\<rparr>"

definition sample_settle :: budget_call where
  "sample_settle = \<lparr>bcTenant = None, bcSessionFails = False, bcSpaceFails = False, bcUpdateFails = False\<rparr>"

definition sample_data :: "string list \<Rightarrow> engine_data" where
  "sample_data ps =
     \<lparr>edSpaces = empty_spaces\<lparr>ztSessions := [(''z'', sample_session)], ztSpaces := [(''z'', (sample_row [])\<lparr>zsBudget := sample_budget\<rparr>)],
        ztParticipants := map (\<lambda>p. ((''z'', p), (sample_participant p False)\<lparr>tpExecution := ''managed''\<rparr>)) (''human'' # ps),
        ztChannels := [((''z'', ''general''), \<lparr>hcID = ''general'', hcSpace = ''z'', hcName = ''general'', hcVisibility = VisibleAll,
          hcParticipants = [], hcCapabilities = [], hcCreatedBy = ''human'', hcCreatedAt = 0\<rparr>)]\<rparr>,
      edThreads = [], edMessages = [], edDeliveries = [], edRetries = \<lparr>rqItems = [], rqDead = []\<rparr>,
      edFindings = empty_findings, edActivation = fresh_activation\<rparr>"


theorem publish_runs_only_authorized_witness:
  "\<exists>z ch p. ''claude'' \<in> set (participants_run (sample_publish_env sample_settle) sample_publish (sample_data [''codex'', ''claude'', ''gemini'']))
     \<and> isl (fst (Publish (sample_publish_env sample_settle) sample_publish (sample_data [''codex'', ''claude'', ''gemini''])))
     \<and> tpID p = ''claude''
     \<and> may_run (sample_publish_env sample_settle) z ch sample_publish (sample_data [''codex'', ''claude'', ''gemini'']) p"
proof -
  let ?u = "sample_publish_env sample_settle" and ?d = "sample_data [''codex'', ''claude'', ''gemini'']"
  have r: "''claude'' \<in> set (participants_run ?u sample_publish ?d)" "isl (fst (Publish ?u sample_publish ?d))" by code_simp+
  have "with_channel sample_publish = sample_publish" by (simp add: with_channel_def sample_publish_def)
  then show ?thesis
    using publish_runs_only_authorized [OF r(1)] r by metis
qed

subsection \<open>A commit that cannot be stored\<close>

text \<open>An invocation whose commit cannot be stored is not rolled back: the participant ran, its delivery is recorded as
  failed, and the whole reservation stays charged to the budget.\<close>
theorem failed_commit_stays_charged:
  assumes "reserveBudget (ueLimits u) (ueReserve u (tpID p)) (zsID z) (estimate (dispatch_prompt q payload)) 1000 (edSpaces d) = (Inr res, st)"
    and "rvSession res \<noteq> []" and "find_account (ueSettle u (tpID p)) (zsID z) st = Account b" and "beKnown b"
    and "bcUpdateFails (ueSettle u (tpID p))" and "checkPeerTokenLimit (Some h) (tpID p) res = Inr n"
    and "\<And>i. ueInvoke u (tpID p) i = Inr (answer i)" and "\<And>x. \<not> ueFails u x"
    and "run_participant u z q payload p h (d, r) = (d', r')"
  shows "edSpaces d' = st \<and> daActive r' = daActive r @ [tpID p] \<and> daDelivered r' = daDelivered r \<and> daError r' = daError r
    \<and> edMessages d' = edMessages d
    \<and> map_option dvStatus (map_of (edDeliveries d') (''del_'' @ ueMsg u @ ''_'' @ tpID p)) = Some DeliveryFailed"
proof -
  let ?v = "delivery_of u z p DeliveryProcessing (plain [])"
  have res: "rvSession res = zsID z"
    using assms(1,2) by (auto simp: reserveBudget_def Let_def plan_reservation_def unlimited_def bound_output_def guard_res_def require_def
        split: if_splits account.splits sum.splits option.splits)
  have c: "fst (commitBudget (ueLimits u) (ueSettle u (tpID p)) res i out co st) = Some (BudgetFailure (plain ''failed to atomically commit budget: %w''))"
    "snd (snd (commitBudget (ueLimits u) (ueSettle u (tpID p)) res i out co st)) = st" for i out co
    using assms(2,3,4,5) res by (simp_all add: commitBudget_def commit_defaults_def)
  have dv: "dvID ?v = ''del_'' @ ueMsg u @ ''_'' @ tpID p" by (simp add: delivery_of_def)
  have d': "d' = UpdateEventDeliveryStatus (ueNow u) (dvID ?v) DeliveryFailed [] (plain ''failed to atomically commit budget: %w'')
      ((RecordEventDelivery ?v d)\<lparr>edSpaces := st\<rparr>)" "r' = r\<lparr>daActive := daActive r @ [tpID p]\<rparr>"
    using assms(9) assms(1,6,7,8)
    by (auto simp: run_participant_def recordDelivery_def RecordEventDelivery_def invoke_reserved_def Let_def c settle_store_def
        is_exceeded_def updateDelivery_def split: prod.splits)
  have "map_of (edDeliveries (RecordEventDelivery ?v d)) (dvID ?v) \<noteq> None"
    by (simp add: RecordEventDelivery_def map_of_upsert split: option.splits)
  then show ?thesis
    unfolding d' dv [symmetric]
    by (auto simp: UpdateEventDeliveryStatus_def RecordEventDelivery_def map_of_update_row)
qed


definition sample_space :: collab_space where
  "sample_space = space_row.extend ((sample_row [])\<lparr>zsBudget := sample_budget\<rparr>) \<lparr>zsParticipants = [], zsChannels = []\<rparr>"

definition sample_failing :: publish_env where
  "sample_failing = sample_publish_env (sample_settle\<lparr>bcUpdateFails := True\<rparr>)"

definition sample_reserve :: "(budget_error + reservation) \<times> space_store" where
  "sample_reserve = reserveBudget (ueLimits sample_failing) (ueReserve sample_failing ''codex'') (zsID sample_space)
     (estimate (dispatch_prompt sample_publish ''{}'')) 1000 (edSpaces (sample_data [''codex'']))"

theorem failed_commit_stays_charged_witness:
  "\<exists>d' r'. run_participant sample_failing sample_space sample_publish ''{}'' (sample_participant ''codex'' False) True
       (sample_data [''codex''], no_dispatch) = (d', r')
     \<and> daActive r' = [''codex''] \<and> map_option beUsedTotal (budget_at (edSpaces d') ''z'') = Some 1013 \<and> edMessages d' = []"
proof -
  let ?u = sample_failing and ?d = "sample_data [''codex'']" and ?p = "sample_participant ''codex'' False"
  have id: "tpID ?p = ''codex''" by (simp add: sample_participant_def)
  have c: "(case fst sample_reserve of Inl _ \<Rightarrow> False
     | Inr r \<Rightarrow> rvSession r = ''z'' \<and> \<not> isl (checkPeerTokenLimit (Some True) ''codex'' r))"
    by code_simp
  have "\<exists>res. fst sample_reserve = Inr res \<and> rvSession res = ''z'' \<and> \<not> isl (checkPeerTokenLimit (Some True) ''codex'' res)"
    using c by (auto split: sum.splits)
  then obtain res where res: "fst sample_reserve = Inr res" "rvSession res = ''z''" "\<not> isl (checkPeerTokenLimit (Some True) ''codex'' res)"
    by blast
  define st where "st = snd sample_reserve"
  have R: "sample_reserve = (Inr res, st)" "rvSession res \<noteq> []" by (simp_all add: prod_eq_iff res st_def)
  have R1: "reserveBudget (ueLimits ?u) (ueReserve ?u (tpID ?p)) (zsID sample_space) (estimate (dispatch_prompt sample_publish ''{}'')) 1000
      (edSpaces ?d) = (Inr res, st)"
    unfolding id by (rule R(1) [unfolded sample_reserve_def])
  obtain n where n: "checkPeerTokenLimit (Some True) (tpID ?p) res = Inr n"
    using res(3) by (cases "checkPeerTokenLimit (Some True) ''codex'' res") (simp_all add: id)
  have "(case find_account (ueSettle ?u ''codex'') (zsID sample_space) (snd sample_reserve) of Account b \<Rightarrow> beKnown b | _ \<Rightarrow> False)
      \<and> map_option beUsedTotal (budget_at (snd sample_reserve) ''z'') = Some 1013" by code_simp
  then obtain b where b: "find_account (ueSettle ?u (tpID ?p)) (zsID sample_space) st = Account b" "beKnown b"
    "map_option beUsedTotal (budget_at st ''z'') = Some 1013"
    using R by (auto simp: id st_def [symmetric] split: account.splits)
  obtain d' r' where run: "run_participant ?u sample_space sample_publish ''{}'' ?p True (?d, no_dispatch) = (d', r')" by fastforce
  have "bcUpdateFails (ueSettle ?u (tpID ?p))" "\<And>i. ueInvoke ?u (tpID ?p) i = Inr \<lparr>iuText = ''ok'', iuUsage = \<lparr>toIn = Some 20, toOut = Some 10, toCost = None\<rparr>\<rparr>"
    "\<And>x. \<not> ueFails ?u x" "edMessages ?d = []"
    by (simp_all add: sample_failing_def sample_publish_env_def sample_settle_def sample_answer_def sample_data_def)
  then show ?thesis
    using failed_commit_stays_charged [OF R1 R(2) b(1,2) _ n _ _ run] b(3) run
    by (simp add: no_dispatch_def id)
qed

subsection \<open>Three recipients of one message\<close>

text \<open>A recipient the message concerns, who may use the channel, is active and has not just been run.\<close>

definition ready_recipient ::
  "publish_env \<Rightarrow> collab_space \<Rightarrow> space_channel \<Rightarrow> publish_request \<Rightarrow> engine_data \<Rightarrow> space_participant \<Rightarrow> bool" where
  "ready_recipient u z ch q d p \<longleftrightarrow> tpID p \<noteq> urqFrom q \<and> concerns d z q p \<and> checkChannelAccess z (Some ch) (tpID p) = None
     \<and> zsState z = SpaceActive \<and> tpMode p = ModeActive
     \<and> (case aaLast (edActivation d) (colon_key (zsID z) (tpID p)) of None \<Rightarrow> True | Some t \<Rightarrow> ueNow u - t \<ge> ueCooldown u)"

lemma suffix_remember:
  assumes "suffix (replicate j x) xs" and "j \<le> 2"
  shows "suffix (replicate (Suc j) x) (remember x xs)"
proof -
  obtain ys where xs: "xs = ys @ replicate j x" using assms(1) by (auto simp: suffix_def)
  have s: "xs @ [x] = ys @ replicate (Suc j) x" by (simp add: xs replicate_append_same)
  show ?thesis
  proof (cases "length (xs @ [x]) > 10")
    case True
    then have "ys \<noteq> []" using assms(2) xs by auto
    then have "tl (xs @ [x]) = tl ys @ replicate (Suc j) x" by (simp add: s del: replicate_Suc)
    then show ?thesis using True by (auto simp: remember_def suffix_def simp del: replicate_Suc)
  next
    case False
    then show ?thesis using s by (auto simp: remember_def suffix_def simp del: replicate_Suc)
  qed
qed

lemma suffix_count: "suffix (replicate j x) xs \<Longrightarrow> j \<le> count_list xs x"
proof -
  have "count_list (replicate j x) x = j" by (induction j) simp_all
  then show "suffix (replicate j x) xs \<Longrightarrow> j \<le> count_list xs x" by (auto simp: suffix_def)
qed

lemma detectCycle_effect:
  "detectCycle hash i thread cand env ac = (e, ac') \<Longrightarrow> (case e of
     Some _ \<Rightarrow> ac' = ac
   | None \<Rightarrow> count_list (aaHashes ac (colon_key i thread)) (hash (nvPayload env)) < 2
       \<and> aaHashes ac' (colon_key i thread) = remember (hash (nvPayload env)) (aaHashes ac (colon_key i thread)))"
  by (auto simp: detectCycle_def Let_def split: if_splits)

lemma activation_hashes:
  assumes "ShouldActivate hash cd now z p (Some env) ac = (v, ac')"
  shows "ac' = ac \<and> v \<noteq> Activate \<or> aaHashes ac' (colon_key (zsID z) (nvThread env)) =
      remember (hash (nvPayload env)) (aaHashes ac (colon_key (zsID z) (nvThread env)))
    \<and> count_list (aaHashes ac (colon_key (zsID z) (nvThread env))) (hash (nvPayload env)) < 2"
  using assms detectCycle_effect
  by (auto simp: ShouldActivate_def lifecycle_check_def mode_check_def
      split: space_state.splits participant_mode.splits option.splits prod.splits if_splits) fastforce+

lemma ready_activation:
  assumes "ready_recipient u z ch q d p"
  shows "(case fst (ShouldActivate (ueHash u) (ueCooldown u) (ueNow u) z p (Some env) (edActivation d)) of
     Activate \<Rightarrow> True | Refuse _ _ \<Rightarrow> True | Skip _ \<Rightarrow> False)"
  using assms by (auto simp: ready_recipient_def ShouldActivate_def lifecycle_check_def mode_check_def split: option.splits prod.splits)


lemma decide_ready:
  assumes "ready_recipient u z ch q d p" and "decide_dispatch u z ch q env p d = (x, d1)"
  shows "(\<exists>e. x = Failed e) \<or> aaHashes (edActivation d1) (colon_key (zsID z) (nvThread env)) =
      remember (ueHash u (nvPayload env)) (aaHashes (edActivation d) (colon_key (zsID z) (nvThread env)))
    \<and> count_list (aaHashes (edActivation d) (colon_key (zsID z) (nvThread env))) (ueHash u (nvPayload env)) < 2"
proof -
  obtain v ac where v: "ShouldActivate (ueHash u) (ueCooldown u) (ueNow u) z p (Some env) (edActivation d) = (v, ac)" by fastforce
  show ?thesis
    using activation_hashes [OF v] ready_activation [OF assms(1), of env] assms v
    by (cases v) (auto simp: decide_dispatch_def ready_recipient_def Let_def split: if_splits verdict.splits option.splits)
qed

lemma decide_hashes:
  assumes "decide_dispatch u z ch q env p d = (x, d1)"
  shows "aaHashes (edActivation d1) (colon_key (zsID z) (nvThread env)) \<in> {aaHashes (edActivation d) (colon_key (zsID z) (nvThread env)),
    remember (ueHash u (nvPayload env)) (aaHashes (edActivation d) (colon_key (zsID z) (nvThread env)))}"
proof -
  obtain v ac where v: "ShouldActivate (ueHash u) (ueCooldown u) (ueNow u) z p (Some env) (edActivation d) = (v, ac)" by fastforce
  then have "x = NotConcerned \<and> d1 = d \<or> edActivation d1 = ac"
    using assms by (auto simp: decide_dispatch_def Let_def split: if_splits verdict.splits option.splits)
  then show ?thesis using activation_hashes [OF v] by auto
qed

lemma suffix_replicate_less: "suffix (replicate (Suc j) x) xs \<Longrightarrow> suffix (replicate j x) xs"
  by (metis replicate_Suc suffix_ConsI suffix_order.trans suffix_order.refl)

lemma errors_stay: "fold (dispatch_one u z ch q env) ps (d, r) = (d', r') \<Longrightarrow> daError r \<noteq> None \<Longrightarrow> daError r' \<noteq> None"
proof (induction ps arbitrary: d r)
  case (Cons p ps)
  obtain d1 r1 where one: "dispatch_one u z ch q env p (d, r) = (d1, r1)" by fastforce
  then show ?case using Cons dispatch_one_frame [OF one] by auto
qed simp

lemma ready_stays:
  assumes "ready_recipient u z ch q d p'" and "dispatch_one u z ch q env p (d, r) = (d1, r1)" and "tpID p' \<noteq> tpID p"
  shows "ready_recipient u z ch q d1 p'"
proof -
  have "colon_key (zsID z) (tpID p') \<noteq> colon_key (zsID z) (tpID p)" using assms(3) by (simp add: colon_key_def)
  then show ?thesis
    using assms(1) dispatch_one_frame [OF assms(2)]
    by (auto simp: ready_recipient_def concerns_def GetParticipantSubscriptions_def)
qed

lemma third_recipient_fails:
  assumes "fold (dispatch_one u z ch q env) ps (d, r) = (d', r')" and "distinct (map tpID ps)"
    and "suffix (replicate j (ueHash u (nvPayload env))) (aaHashes (edActivation d) (colon_key (zsID z) (nvThread env)))" and "j \<le> 2"
    and "j + length (filter (ready_recipient u z ch q d) ps) \<ge> 3"
  shows "daError r' \<noteq> None"
  using assms
proof (induction ps arbitrary: d r j)
  case (Cons p ps)
  let ?H = "\<lambda>d. aaHashes (edActivation d) (colon_key (zsID z) (nvThread env))" and ?h = "ueHash u (nvPayload env)"
  obtain d1 r1 where one: "dispatch_one u z ch q env p (d, r) = (d1, r1)" by fastforce
  have rest: "fold (dispatch_one u z ch q env) ps (d1, r1) = (d', r')" "distinct (map tpID ps)"
    using Cons.prems(1,2) one by simp_all
  have "\<And>p'. p' \<in> set ps \<Longrightarrow> ready_recipient u z ch q d p' \<Longrightarrow> ready_recipient u z ch q d1 p'"
    using ready_stays [OF _ one] Cons.prems(2) by (metis distinct.simps(2) list.simps(9) image_eqI list.set_map)
  then have "set (filter (ready_recipient u z ch q d) ps) \<subseteq> set (filter (ready_recipient u z ch q d1) ps)" by auto
  moreover have "distinct ps" using rest(2) by (simp add: distinct_map)
  ultimately have len: "length (filter (ready_recipient u z ch q d) ps) \<le> length (filter (ready_recipient u z ch q d1) ps)"
    by (metis card_mono distinct_card distinct_filter List.finite_set)
  obtain x d2 where dec: "decide_dispatch u z ch q env p d = (x, d2)" by fastforce
  note fr = dispatch_one_frame [OF one]
  show ?case
  proof (cases "ready_recipient u z ch q d p")
    case True
    then have ne: "tpID p \<noteq> urqFrom q" by (simp add: ready_recipient_def)
    consider (failed) e where "x = Failed e" | (more) "?H d2 = remember ?h (?H d)" "count_list (?H d) ?h < 2"
      using decide_ready [OF True dec] by auto
    then show ?thesis
    proof cases
      case failed
      then have "daError r1 \<noteq> None" using one dec ne by (auto simp: dispatch_one_def set_error_def)
      then show ?thesis by (rule errors_stay [OF rest(1)])
    next
      case more
      have "j < 2" using suffix_count [OF Cons.prems(3)] more(2) by simp
      moreover have "?H d1 = remember ?h (?H d)" using fr ne dec more(1) by simp
      then have "suffix (replicate (Suc j) ?h) (?H d1)" using suffix_remember [OF Cons.prems(3,4)] by simp
      ultimately show ?thesis
        using Cons.IH [OF rest, of "Suc j"] Cons.prems(5) True len by simp
    qed
  next
    case False
    have "?H d1 \<in> {?H d, remember ?h (?H d)}"
    proof (cases "tpID p = urqFrom q")
      case True
      then show ?thesis using one by (simp add: dispatch_one_def)
    next
      case False
      then show ?thesis using fr decide_hashes [OF dec] dec by simp
    qed
    then have "suffix (replicate j ?h) (?H d1)"
      using Cons.prems(3) suffix_replicate_less [OF suffix_remember [OF Cons.prems(3,4)]] by auto
    then show ?thesis
      using Cons.IH [OF rest, of j] Cons.prems(4,5) False len by simp
  qed
qed simp

text \<open>A message with three ready recipients always makes the operation fail: the cycle check counts the payload once
  for every recipient, so the third one counts as a cycle, although the message is stored and the others may already
  have run and answered.\<close>
theorem three_recipients_always_fail:
  assumes "Publish u q d = (res, d')" and "GetSpace (urqSpace q) (edSpaces d) = Some z"
    and "read_channel u (with_channel q) d = Some ch"
    and "distinct (map (tpID \<circ> snd) (zsParticipants z))"
    and "length (filter (ready_recipient u z ch (with_channel q) d) (map snd (zsParticipants z))) \<ge> 3"
  shows "\<exists>e. res = Inl e"
  using assms(1)
proof (cases rule: publish_cases)
  case (dispatched z1 ch1 q1 payload d1 r)
  then have eq: "z1 = z" "ch1 = ch" using assms(2,3) by (auto simp: reached_def)
  have "ready_recipient u z ch q1 d1 = ready_recipient u z ch (with_channel q) d"
    using dispatched(1) by (auto simp: fun_eq_iff reached_def ready_recipient_def concerns_def GetParticipantSubscriptions_def with_channel_def)
  then have "daError r \<noteq> None"
    using third_recipient_fails [OF dispatched(2) [unfolded dispatch_all_def eq], of 0] assms(4,5) by simp
  then show ?thesis using dispatched(3) by auto
qed simp

theorem three_recipients_always_fail_witness:
  "\<exists>e d'. Publish (sample_publish_env sample_settle) sample_publish (sample_data [''codex'', ''claude'', ''gemini'']) = (Inl e, d')
     \<and> map fst (edMessages d') = [''m1'', ''r_codex'', ''r_claude'']"
proof -
  let ?u = "sample_publish_env sample_settle" and ?d = "sample_data [''codex'', ''claude'', ''gemini'']"
  obtain res d' where P: "Publish ?u sample_publish ?d = (res, d')" by fastforce
  define z where "z = the (GetSpace ''z'' (edSpaces ?d))"
  define ch where "ch = the (GetChannel ''z'' ''general'' (edSpaces ?d))"
  have w: "with_channel sample_publish = sample_publish" "urqSpace sample_publish = ''z''" "urqChannelID sample_publish = ''general''"
    by (simp_all add: with_channel_def sample_publish_def)
  have z: "GetSpace ''z'' (edSpaces ?d) = Some z"
    unfolding z_def by (simp add: GetSpace_def sample_data_def)
  have ch: "read_channel ?u sample_publish ?d = Some ch"
    unfolding ch_def by (simp add: read_channel_def GetChannel_def sample_data_def sample_publish_env_def sample_publish_def)
  have "distinct (map (tpID \<circ> snd) (zsParticipants (the (GetSpace ''z'' (edSpaces ?d)))))" by code_simp
  moreover have "length (filter (ready_recipient ?u z ch sample_publish ?d) (map snd (zsParticipants z))) = 3"
    unfolding z_def ch_def by code_simp
  ultimately have "\<exists>e. res = Inl e"
    using three_recipients_always_fail [OF P, unfolded w, OF z ch] by (simp add: z_def)
  moreover have "map fst (edMessages (snd (Publish ?u sample_publish ?d))) = [''m1'', ''r_codex'', ''r_claude'']" by code_simp
  ultimately show ?thesis using P by auto
qed

end
