(* ===== verification/Operations.thy ===== *)
theory Operations
  imports Publish
begin

text \<open>
  The operational safeguards every invocation of a harness passes (\<open>internal/collaboration/operations.go\<close>):
  circuit breaker, quota wait, global budget and approvals, with the store methods behind them and the
  classification of errors they rest on (\<open>internal/protocol/types.go\<close>); and the reliability controller of
  \<open>internal/agentreliability\<close>. What is decided before and after an invocation runs under one mutex, so
  a run is a sequence of such steps in any interleaving. Times are nanoseconds, \<open>None\<close> the zero time.
\<close>

subsection \<open>Errors and their classes\<close>

datatype retry_category =
    TransientTransport | RateLimit | QuotaLimit | TimeoutCategory | PermanentAuth | MalformedResponse | NonRetryable

text \<open>The first of the types the classification asks for that the chain of wrapped errors holds.\<close>

datatype error_kind =
    QuotaExceededError "int option" | PeerTimeoutError | PeerUnavailableError | PolicyDeniedError | CapabilityUnsupportedError
  | PeerDepthExceededError | BudgetLimitError | MalformedPeerResponseError | UntypedError

record go_error =
  geKind :: error_kind
  geText :: string

text \<open>The regular expression of quota messages, and the reset time a message states, are parameters.\<close>

record quota_lib =
  quotaMarker :: "string \<Rightarrow> bool"
  resetTime :: "string \<Rightarrow> int option"

definition looksLikeQuotaLimit :: "quota_lib \<Rightarrow> string \<Rightarrow> bool" where
  "looksLikeQuotaLimit ql m \<longleftrightarrow>
     quotaMarker ql m \<and> list_ex (contains m) [''reset'', ''resume'', ''retry'', ''limit'', ''exhausted'']"

definition ClassifyError :: "quota_lib \<Rightarrow> text_lib \<Rightarrow> go_error option \<Rightarrow> retry_category" where
  "ClassifyError ql lib err =
     (case err of
        None \<Rightarrow> NonRetryable
      | Some e \<Rightarrow>
          (case geKind e of
             QuotaExceededError _ \<Rightarrow> QuotaLimit
           | PeerTimeoutError \<Rightarrow> TimeoutCategory
           | PeerUnavailableError \<Rightarrow> TransientTransport
           | PolicyDeniedError \<Rightarrow> NonRetryable
           | CapabilityUnsupportedError \<Rightarrow> NonRetryable
           | PeerDepthExceededError \<Rightarrow> NonRetryable
           | BudgetLimitError \<Rightarrow> NonRetryable
           | MalformedPeerResponseError \<Rightarrow> MalformedResponse
           | UntypedError \<Rightarrow>
               let m = ToLower lib (geText e) in
               if looksLikeQuotaLimit ql m then QuotaLimit
               else if list_ex (contains m) [''429'', ''rate limit'', ''too many requests''] then RateLimit
               else if list_ex (contains m) [''401'', ''403'', ''unauthorized'', ''authentication failed'', ''invalid api key''] then PermanentAuth
               else if list_ex (contains m) [''502'', ''503'', ''504'', ''connection refused'', ''reset by peer''] then TransientTransport
               else if list_ex (contains m) [''timeout'', ''deadline exceeded''] then TimeoutCategory
               else NonRetryable))"

definition IsTransient :: "quota_lib \<Rightarrow> text_lib \<Rightarrow> go_error \<Rightarrow> bool" where
  "IsTransient ql lib e \<longleftrightarrow> ClassifyError ql lib (Some e) \<in> set [TransientTransport, RateLimit, QuotaLimit, TimeoutCategory]"

definition IsQuotaLimited :: "quota_lib \<Rightarrow> text_lib \<Rightarrow> go_error \<Rightarrow> bool" where
  "IsQuotaLimited ql lib e \<longleftrightarrow> ClassifyError ql lib (Some e) = QuotaLimit"

definition IsAuthPermanent :: "quota_lib \<Rightarrow> text_lib \<Rightarrow> go_error \<Rightarrow> bool" where
  "IsAuthPermanent ql lib e \<longleftrightarrow> ClassifyError ql lib (Some e) = PermanentAuth"

definition QuotaRetryAt :: "quota_lib \<Rightarrow> text_lib \<Rightarrow> go_error \<Rightarrow> int option" where
  "QuotaRetryAt ql lib e =
     (if \<not> IsQuotaLimited ql lib e then None
      else case geKind e of QuotaExceededError (Some t) \<Rightarrow> Some t | _ \<Rightarrow> resetTime ql (geText e))"

text \<open>What the retry loop and a publication ask of a failed invocation.\<close>

definition failure_of :: "quota_lib \<Rightarrow> text_lib \<Rightarrow> go_error \<Rightarrow> invoke_failure" where
  "failure_of ql lib e = \<lparr>ifError = geText e, ifQuota = IsQuotaLimited ql lib e, ifTransient = IsTransient ql lib e,
     ifResetAt = QuotaRetryAt ql lib e\<rparr>"

lemma quota_is_transient: "IsQuotaLimited ql lib e \<Longrightarrow> IsTransient ql lib e"
  by (simp add: IsQuotaLimited_def IsTransient_def)

lemma reset_needs_quota: "QuotaRetryAt ql lib e = Some t \<Longrightarrow> IsQuotaLimited ql lib e"
  by (simp add: QuotaRetryAt_def split: if_splits)

subsection \<open>Health, approvals and the global budget in the store\<close>

datatype health_status = HealthUnknown | HealthHealthy | HealthDegraded | HealthQuotaWait | HealthCircuitOpen

record agent_health =
  ahAgent :: string
  ahAdapter :: string
  ahStatus :: health_status
  ahConsecutive :: int
  ahTotal :: int
  ahSuccessful :: int
  ahFailed :: int
  ahLastError :: string
  ahLastSuccess :: "int option"
  ahLastFailure :: "int option"
  ahQuotaReset :: "int option"
  ahCircuitUntil :: "int option"
  ahUpdatedAt :: "int option"

definition no_health :: agent_health where
  "no_health = \<lparr>ahAgent = [], ahAdapter = [], ahStatus = HealthUnknown, ahConsecutive = 0, ahTotal = 0, ahSuccessful = 0, ahFailed = 0,
     ahLastError = [], ahLastSuccess = None, ahLastFailure = None, ahQuotaReset = None, ahCircuitUntil = None, ahUpdatedAt = None\<rparr>"

datatype approval_status = ApprovalPending | ApprovalApproved | ApprovalRejected | ApprovalExpired

record approval =
  aqID :: string
  aqSession :: string
  aqAgent :: string
  aqReason :: msg
  aqCost :: rat
  aqTokens :: int
  aqStatus :: approval_status
  aqRequestedBy :: string
  aqDecidedBy :: string
  aqCreatedAt :: int
  aqDecidedAt :: "int option"

record approval_audit =
  auApproval :: string
  auFrom :: "approval_status option"
  auTo :: approval_status
  auActor :: string
  auReason :: msg
  auCreatedAt :: int

record global_budget =
  gbTokens :: int
  gbCost :: rat
  gbMaxTokens :: int
  gbMaxCost :: rat

record operation_store =
  otHealth :: "(string \<times> agent_health) list"
  otGlobal :: "(string \<times> global_budget) list"
  otApprovals :: "(string \<times> approval) list"
  otAudit :: "approval_audit list"

definition SaveAgentHealth :: "agent_health \<Rightarrow> operation_store \<Rightarrow> msg option \<times> operation_store" where
  "SaveAgentHealth h st =
     (if ahAgent h = [] then (Some (plain ''agent health agent is required''), st)
      else (None, st\<lparr>otHealth := AList.update (ahAgent h) h (otHealth st)\<rparr>))"

definition GetAgentHealth :: "string \<Rightarrow> operation_store \<Rightarrow> agent_health option" where
  "GetAgentHealth a st = map_of (otHealth st) a"

definition merge_approval :: "approval \<Rightarrow> approval \<Rightarrow> approval" where
  "merge_approval old new = old\<lparr>aqStatus := aqStatus new, aqDecidedBy := aqDecidedBy new, aqDecidedAt := aqDecidedAt new\<rparr>"

definition GetApproval :: "string \<Rightarrow> operation_store \<Rightarrow> approval option" where
  "GetApproval i st = map_of (otApprovals st) i"

definition SaveApproval :: "int \<Rightarrow> approval \<Rightarrow> operation_store \<Rightarrow> msg option \<times> operation_store" where
  "SaveApproval now a st =
     (if aqID a = [] then (Some (plain ''approval id is required''), st)
      else let previous = map_option aqStatus (GetApproval (aqID a) st);
               st' = st\<lparr>otApprovals := upsert merge_approval (aqID a) a (otApprovals st)\<rparr>
           in (None, if previous = Some (aqStatus a) then st'
                else st'\<lparr>otAudit := otAudit st' @ [\<lparr>auApproval = aqID a, auFrom = previous, auTo = aqStatus a,
                  auActor = (if aqDecidedBy a = [] then aqRequestedBy a else aqDecidedBy a), auReason = aqReason a, auCreatedAt = now\<rparr>]\<rparr>))"

definition ExpireApprovals :: "int \<Rightarrow> operation_store \<Rightarrow> operation_store" where
  "ExpireApprovals t st = st\<lparr>otApprovals := map (\<lambda>(i, a). (i,
     if aqStatus a = ApprovalPending \<and> aqCreatedAt a < t then a\<lparr>aqStatus := ApprovalExpired\<rparr> else a)) (otApprovals st)\<rparr>"

definition GetGlobalBudget :: "string \<Rightarrow> operation_store \<Rightarrow> global_budget option" where
  "GetGlobalBudget s st = map_of (otGlobal st) s"

definition UpdateGlobalBudget :: "string \<Rightarrow> global_budget \<Rightarrow> operation_store \<Rightarrow> operation_store" where
  "UpdateGlobalBudget s b st = st\<lparr>otGlobal := AList.update s b (otGlobal st)\<rparr>"

subsection \<open>The safeguards\<close>

text \<open>The configuration they read, if there is one.\<close>

record operation_limits =
  olFailures :: int
  olCooldown :: int
  olMaxTokens :: int
  olMaxCost :: rat
  olApproval :: rat

record operations =
  onHealth :: "string \<Rightarrow> agent_health option"
  onTokens :: int
  onCost :: rat
  onStore :: "operation_store option"

text \<open>A call: the clock, a fresh identifier and which store calls fail.\<close>

record operation_call =
  ocNow :: int
  ocFresh :: string
  ocSaveFails :: bool
  ocLookupFails :: bool

datatype operation_error =
    CircuitOpenError string int
  | QuotaWaitError string int
  | GlobalBudgetExceeded string rat rat
  | ApprovalRequiredError string string string

definition newOperationState :: "bool \<Rightarrow> bool \<Rightarrow> operation_store option \<Rightarrow> operations" where
  "newOperationState healthFails budgetFails st =
     (let none = \<lparr>onHealth = (\<lambda>_. None), onTokens = 0, onCost = 0, onStore = st\<rparr> in
      case st of
        None \<Rightarrow> none
      | Some s \<Rightarrow>
          let o1 = (if healthFails then none else none\<lparr>onHealth := map_of (map (\<lambda>(i, h). (ahAgent h, h)) (otHealth s))\<rparr>)
          in (case GetGlobalBudget ''global'' s of
                None \<Rightarrow> o1
              | Some b \<Rightarrow> if budgetFails then o1 else o1\<lparr>onTokens := gbTokens b, onCost := gbCost b\<rparr>))"

definition thresholdFailures :: "operation_limits option \<Rightarrow> int" where
  "thresholdFailures cfg = (case cfg of None \<Rightarrow> 3 | Some c \<Rightarrow> if olFailures c \<le> 0 then 3 else olFailures c)"

definition cooldown :: "operation_limits option \<Rightarrow> int" where
  "cooldown cfg = (case cfg of None \<Rightarrow> minutes 2 | Some c \<Rightarrow> olCooldown c)"

definition health_of :: "string \<Rightarrow> operations \<Rightarrow> agent_health" where
  "health_of a s = (case onHealth s a of None \<Rightarrow> no_health | Some h \<Rightarrow> h)"

definition still :: "int \<Rightarrow> int option \<Rightarrow> bool" where
  "still now t = (case t of None \<Rightarrow> False | Some u \<Rightarrow> now < u)"

definition approval_needed :: "operation_limits \<Rightarrow> rat \<Rightarrow> bool" where
  "approval_needed c cost \<longleftrightarrow> olApproval c > 0 \<and> cost \<ge> olApproval c"

text \<open>The approval of a costly call; without one a request for it is stored.\<close>

definition check_approval ::
  "operation_limits \<Rightarrow> operation_call \<Rightarrow> string \<Rightarrow> int \<Rightarrow> rat \<Rightarrow> string \<Rightarrow> operations \<Rightarrow> operation_error option \<times> operations" where
  "check_approval c k a tokens cost approval s =
     (if \<not> approval_needed c cost then (None, s)
      else if approval = [] then
        (Some (ApprovalRequiredError (ocFresh k) a ''operation exceeds configured approval threshold''),
         s\<lparr>onStore := map_option (\<lambda>st. if ocSaveFails k then st else snd (SaveApproval (ocNow k)
           \<lparr>aqID = ocFresh k, aqSession = [], aqAgent = a,
            aqReason = plain ''estimated cost %.4f exceeds approval threshold %.4f'', aqCost = cost, aqTokens = tokens,
            aqStatus = ApprovalPending, aqRequestedBy = [], aqDecidedBy = [], aqCreatedAt = ocNow k, aqDecidedAt = None\<rparr> st)) (onStore s)\<rparr>)
      else (case onStore s of
          None \<Rightarrow> (None, s)
        | Some st \<Rightarrow>
            if ocLookupFails k \<or> map_option aqStatus (GetApproval approval st) \<noteq> Some ApprovalApproved
            then (Some (ApprovalRequiredError approval a ''approval is not approved''), s)
            else (None, s)))"

definition global_check :: "operation_limits \<Rightarrow> int \<Rightarrow> rat \<Rightarrow> operations \<Rightarrow> operation_error option" where
  "global_check c tokens cost s =
     err_then (require (\<not> (olMaxTokens c > 0 \<and> onTokens s + tokens > olMaxTokens c))
       (GlobalBudgetExceeded ''global_tokens'' (of_int (onTokens s + tokens)) (of_int (olMaxTokens c))))
     (require (\<not> (olMaxCost c > 0 \<and> onCost s + cost > olMaxCost c))
       (GlobalBudgetExceeded ''global_cost_usd'' (onCost s + cost) (olMaxCost c)))"

definition charge :: "operation_limits option \<Rightarrow> operation_call \<Rightarrow> int \<Rightarrow> rat \<Rightarrow> operations \<Rightarrow> operations" where
  "charge cfg k tokens cost s =
     (let s' = s\<lparr>onTokens := onTokens s + tokens, onCost := onCost s + cost\<rparr> in
      s'\<lparr>onStore := map_option (\<lambda>st. if ocSaveFails k then st else UpdateGlobalBudget ''global''
           \<lparr>gbTokens = onTokens s', gbCost = onCost s', gbMaxTokens = (case cfg of None \<Rightarrow> 0 | Some c \<Rightarrow> olMaxTokens c),
            gbMaxCost = (case cfg of None \<Rightarrow> 0 | Some c \<Rightarrow> olMaxCost c)\<rparr> st) (onStore s)\<rparr>)"

definition op_before ::
  "operation_limits option \<Rightarrow> operation_call \<Rightarrow> string \<Rightarrow> int \<Rightarrow> rat \<Rightarrow> string \<Rightarrow> operations \<Rightarrow> operation_error option \<times> operations" where
  "op_before cfg k a tokens cost approval s =
     (let h = health_of a s in
      if still (ocNow k) (ahCircuitUntil h) then (Some (CircuitOpenError a (the (ahCircuitUntil h))), s)
      else if still (ocNow k) (ahQuotaReset h) then (Some (QuotaWaitError a (the (ahQuotaReset h))), s)
      else (case cfg of
          None \<Rightarrow> (None, charge cfg k tokens cost s)
        | Some c \<Rightarrow>
            (case global_check c tokens cost s of
               Some e \<Rightarrow> (Some e, s)
             | None \<Rightarrow>
                 (case check_approval c k a tokens cost approval s of
                    (Some e, s) \<Rightarrow> (Some e, s)
                  | (None, s) \<Rightarrow> (None, charge cfg k tokens cost s)))))"

definition healthy :: "int \<Rightarrow> agent_health \<Rightarrow> agent_health" where
  "healthy now h = h\<lparr>ahSuccessful := ahSuccessful h + 1, ahConsecutive := 0, ahStatus := HealthHealthy, ahLastSuccess := Some now,
     ahCircuitUntil := None, ahLastError := []\<rparr>"

definition unhealthy :: "quota_lib \<Rightarrow> text_lib \<Rightarrow> operation_limits option \<Rightarrow> int \<Rightarrow> go_error \<Rightarrow> agent_health \<Rightarrow> agent_health" where
  "unhealthy ql lib cfg now e h =
     (let h = h\<lparr>ahFailed := ahFailed h + 1, ahConsecutive := ahConsecutive h + 1, ahLastFailure := Some now,
                ahLastError := geText e, ahStatus := HealthDegraded\<rparr> in
      if IsQuotaLimited ql lib e
      then h\<lparr>ahStatus := HealthQuotaWait,
             ahQuotaReset := (case QuotaRetryAt ql lib e of Some t \<Rightarrow> Some t | None \<Rightarrow> ahQuotaReset h)\<rparr>
      else if ahConsecutive h \<ge> thresholdFailures cfg
      then h\<lparr>ahStatus := HealthCircuitOpen, ahCircuitUntil := Some (now + cooldown cfg)\<rparr>
      else h)"

definition op_after ::
  "quota_lib \<Rightarrow> text_lib \<Rightarrow> operation_limits option \<Rightarrow> operation_call \<Rightarrow> string \<Rightarrow> string \<Rightarrow> go_error option \<Rightarrow> operations \<Rightarrow> operations" where
  "op_after ql lib cfg k a adapter err s =
     (let h = health_of a s;
          h = h\<lparr>ahAgent := a, ahAdapter := adapter, ahTotal := ahTotal h + 1, ahUpdatedAt := Some (ocNow k)\<rparr>;
          h = (case err of None \<Rightarrow> healthy (ocNow k) h | Some e \<Rightarrow> unhealthy ql lib cfg (ocNow k) e h)
      in s\<lparr>onHealth := (onHealth s)(a \<mapsto> h),
           onStore := map_option (\<lambda>st. if ocSaveFails k then st else snd (SaveAgentHealth h st)) (onStore s)\<rparr>)"

text \<open>An invocation by itself: refused, or run and recorded.\<close>

definition op_invoke ::
  "quota_lib \<Rightarrow> text_lib \<Rightarrow> operation_limits option \<Rightarrow> operation_call \<Rightarrow> operation_call \<Rightarrow> string \<Rightarrow> string \<Rightarrow> string \<Rightarrow> invoke_request
     \<Rightarrow> (invoke_request \<Rightarrow> go_error + invoke_result) \<Rightarrow> operations \<Rightarrow> ((operation_error + go_error) + invoke_result) \<times> operations" where
  "op_invoke ql lib cfg k k' a adapter approval q run s =
     (case op_before cfg k a (irMaxTokens q) (irMaxCost q) approval s of
        (Some e, s) \<Rightarrow> (Inl (Inl e), s)
      | (None, s) \<Rightarrow>
          (case run q of
             Inl e \<Rightarrow> (Inl (Inr e), op_after ql lib cfg k' a adapter (Some e) s)
           | Inr r \<Rightarrow> (Inr r, op_after ql lib cfg k' a adapter None s)))"

subsection \<open>Approvals\<close>

definition RequestApproval :: "int \<Rightarrow> string \<Rightarrow> approval \<Rightarrow> operation_store \<Rightarrow> msg option \<times> operation_store" where
  "RequestApproval now fresh a st =
     SaveApproval now (a\<lparr>aqID := (if aqID a = [] then fresh else aqID a), aqStatus := ApprovalPending\<rparr>) st"

definition DecideApproval :: "int \<Rightarrow> string \<Rightarrow> string \<Rightarrow> bool \<Rightarrow> operation_store \<Rightarrow> (msg + approval) \<times> operation_store" where
  "DecideApproval now i decider approved st =
     (case GetApproval i st of
        None \<Rightarrow> (Inl (Msg ''approval %q not found'' [AS i]), st)
      | Some a \<Rightarrow>
          let a = a\<lparr>aqStatus := (if approved then ApprovalApproved else ApprovalRejected), aqDecidedBy := decider, aqDecidedAt := Some now\<rparr>
          in (case SaveApproval now a st of (Some e, st) \<Rightarrow> (Inl e, st) | (None, st) \<Rightarrow> (Inr a, st)))"

subsection \<open>The reliability controller\<close>

datatype breaker_state = BreakerClosed | BreakerOpen | BreakerHalfOpen | BreakerQuarantined

record breaker_config =
  bfThreshold :: int
  bfRecovery :: int
  bfQuarantineAfter :: int
  bfQuarantine :: int

record breaker =
  bkState :: breaker_state
  bkFailures :: int
  bkSuccesses :: int
  bkUntil :: "int option"
  bkError :: string

definition NewBreakers :: "breaker_config \<Rightarrow> breaker_config" where
  "NewBreakers c =
     (let c = c\<lparr>bfThreshold := (if bfThreshold c \<le> 0 then 3 else bfThreshold c), bfRecovery := (if bfRecovery c \<le> 0 then seconds 30 else bfRecovery c)\<rparr>
      in c\<lparr>bfQuarantineAfter := (if bfQuarantineAfter c \<le> 0 then bfThreshold c * 2 else bfQuarantineAfter c),
           bfQuarantine := (if bfQuarantine c \<le> 0 then minutes 5 else bfQuarantine c)\<rparr>)"

definition get_breaker :: "string \<Rightarrow> (string \<Rightarrow> breaker option) \<Rightarrow> breaker" where
  "get_breaker n m = (case m n of Some b \<Rightarrow> b | None \<Rightarrow> \<lparr>bkState = BreakerClosed, bkFailures = 0, bkSuccesses = 0, bkUntil = None, bkError = []\<rparr>)"

text \<open>\<open>True\<close> when the call may go through.\<close>

definition BreakerBefore :: "breaker_config \<Rightarrow> string \<Rightarrow> int \<Rightarrow> (string \<Rightarrow> breaker option) \<Rightarrow> bool \<times> (string \<Rightarrow> breaker option)" where
  "BreakerBefore c n now m =
     (let b = get_breaker n m; put = (\<lambda>b. m(n \<mapsto> b)) in
      if bkState b = BreakerQuarantined \<and> still now (bkUntil b) then (False, put b)
      else let b = (if bkState b = BreakerQuarantined then b\<lparr>bkState := BreakerOpen\<rparr> else b) in
        if bkState b = BreakerOpen then
          (if (case bkUntil b of None \<Rightarrow> True | Some t \<Rightarrow> now - t < bfRecovery c) then (False, put b)
           else (True, put (b\<lparr>bkState := BreakerHalfOpen\<rparr>)))
        else (True, put b))"

definition BreakerSuccess :: "string \<Rightarrow> (string \<Rightarrow> breaker option) \<Rightarrow> (string \<Rightarrow> breaker option)" where
  "BreakerSuccess n m = (let b = get_breaker n m in
     m(n \<mapsto> b\<lparr>bkSuccesses := bkSuccesses b + 1, bkFailures := 0, bkError := [], bkState := BreakerClosed, bkUntil := None\<rparr>))"

definition BreakerFailure :: "breaker_config \<Rightarrow> string \<Rightarrow> string option \<Rightarrow> int \<Rightarrow> (string \<Rightarrow> breaker option) \<Rightarrow> (string \<Rightarrow> breaker option)" where
  "BreakerFailure c n err now m =
     (let b = get_breaker n m;
          b = b\<lparr>bkFailures := bkFailures b + 1, bkError := (case err of None \<Rightarrow> bkError b | Some e \<Rightarrow> e)\<rparr>
      in m(n \<mapsto> if bkFailures b \<ge> bfQuarantineAfter c then b\<lparr>bkState := BreakerQuarantined, bkUntil := Some (now + bfQuarantine c)\<rparr>
                else if bkFailures b \<ge> bfThreshold c then b\<lparr>bkState := BreakerOpen, bkUntil := Some now\<rparr> else b))"

end
