(* ===== verification/OperationProps.thy ===== *)
theory OperationProps
  imports Operations
begin

text \<open>
  What the safeguards guarantee over any interleaving of the two steps of invocations: an agent whose
  circuit opened is left alone until it has cooled down, the global budget is kept, and costly calls
  have an approval -- any approval.
\<close>

subsection \<open>Runs\<close>

datatype op_event =
    OpBefore operation_call string int rat string
  | OpAfter operation_call string string "go_error option"

fun op_step :: "quota_lib \<Rightarrow> text_lib \<Rightarrow> operation_limits option \<Rightarrow> op_event \<Rightarrow> operations \<Rightarrow> operations" where
  "op_step ql lib cfg (OpBefore k a tokens cost approval) s = snd (op_before cfg k a tokens cost approval s)"
| "op_step ql lib cfg (OpAfter k a adapter err) s = op_after ql lib cfg k a adapter err s"

definition op_run :: "quota_lib \<Rightarrow> text_lib \<Rightarrow> operation_limits option \<Rightarrow> op_event list \<Rightarrow> operations \<Rightarrow> operations" where
  "op_run ql lib cfg es s = fold (op_step ql lib cfg) es s"

lemma op_run_simps [simp]: "op_run ql lib cfg [] s = s"
    "op_run ql lib cfg (e # es) s = op_run ql lib cfg es (op_step ql lib cfg e s)"
    "op_run ql lib cfg (es @ fs) s = op_run ql lib cfg fs (op_run ql lib cfg es s)"
  by (simp_all add: op_run_def)

lemma check_approval_frame:
  "check_approval c k a tokens cost approval s = (r, s') \<Longrightarrow> onHealth s' = onHealth s \<and> onTokens s' = onTokens s \<and> onCost s' = onCost s"
  by (auto simp: check_approval_def split: if_splits option.splits)

lemma charge_simps [simp]: "onHealth (charge cfg k tokens cost s) = onHealth s"
    "onTokens (charge cfg k tokens cost s) = onTokens s + tokens" "onCost (charge cfg k tokens cost s) = onCost s + cost"
  by (simp_all add: charge_def Let_def)

lemma before_health: "op_before cfg k a tokens cost approval s = (r, s') \<Longrightarrow> onHealth s' = onHealth s"
  by (auto simp: op_before_def Let_def dest: check_approval_frame split: if_splits option.splits prod.splits)

lemma health_of_before [simp]: "health_of b (snd (op_before cfg k a tokens cost approval s)) = health_of b s"
  using before_health [of cfg k a tokens cost approval s] by (cases "op_before cfg k a tokens cost approval s") (simp add: health_of_def)

lemma health_of_after: "health_of b (op_after ql lib cfg k a adapter err s) =
    (if b = a then (let h = (health_of a s)\<lparr>ahAgent := a, ahAdapter := adapter, ahTotal := ahTotal (health_of a s) + 1, ahUpdatedAt := Some (ocNow k)\<rparr>
       in case err of None \<Rightarrow> healthy (ocNow k) h | Some e \<Rightarrow> unhealthy ql lib cfg (ocNow k) e h) else health_of b s)"
  by (simp add: op_after_def Let_def health_of_def)

subsection \<open>The circuit breaker\<close>

fun succeeded :: "string \<Rightarrow> op_event \<Rightarrow> bool" where
  "succeeded a (OpAfter k b adapter err) \<longleftrightarrow> b = a \<and> err = None"
| "succeeded a (OpBefore k b tokens cost approval) \<longleftrightarrow> False"

fun failed :: "string \<Rightarrow> op_event \<Rightarrow> bool" where
  "failed a (OpAfter k b adapter err) \<longleftrightarrow> b = a \<and> err \<noteq> None"
| "failed a (OpBefore k b tokens cost approval) \<longleftrightarrow> False"

fun recorded_at :: "op_event \<Rightarrow> int" where
  "recorded_at (OpAfter k b adapter err) = ocNow k"
| "recorded_at (OpBefore k b tokens cost approval) = ocNow k"

lemma consecutive_grows:
  assumes "\<forall>e\<in>set es. \<not> succeeded a e"
  shows "ahConsecutive (health_of a (op_run ql lib cfg es s)) = ahConsecutive (health_of a s) + int (length (filter (failed a) es))"
  using assms
proof (induction es arbitrary: s)
  case (Cons e es)
  have "ahConsecutive (health_of a (op_step ql lib cfg e s)) = ahConsecutive (health_of a s) + (if failed a e then 1 else 0)"
    using Cons.prems by (cases e) (auto simp: health_of_after Let_def unhealthy_def split: option.splits)
  then show ?case using Cons by simp
qed simp

lemma circuit_stays:
  assumes "\<forall>e\<in>set es. \<not> succeeded a e \<and> recorded_at e \<ge> t" and "ahCircuitUntil (health_of a s) = Some u" and "u \<ge> t + cooldown cfg"
  shows "\<exists>u. ahCircuitUntil (health_of a (op_run ql lib cfg es s)) = Some u \<and> u \<ge> t + cooldown cfg"
  using assms
proof (induction es arbitrary: s u)
  case (Cons e es)
  have "\<exists>u. ahCircuitUntil (health_of a (op_step ql lib cfg e s)) = Some u \<and> u \<ge> t + cooldown cfg"
    using Cons.prems by (cases e) (auto simp: health_of_after Let_def unhealthy_def split: option.splits)
  then show ?case using Cons by auto
qed auto

text \<open>An agent with as many failures in a row as the threshold, the last of them no quota limit, is refused until it
  has cooled down, whatever else happens meanwhile, unless an invocation of it succeeds.\<close>
theorem open_circuit_refuses:
  assumes "\<forall>e\<in>set es. \<not> succeeded a e" and "int (length (filter (failed a) es)) + 1 \<ge> thresholdFailures cfg"
    and "\<not> IsQuotaLimited ql lib err" and "\<forall>e\<in>set fs. \<not> succeeded a e \<and> recorded_at e \<ge> ocNow k"
    and "ahConsecutive (health_of a s) \<ge> 0" and "ocNow k' < ocNow k + cooldown cfg"
  shows "\<exists>u. fst (op_before cfg k' a tokens cost approval (op_run ql lib cfg (es @ [OpAfter k a adapter (Some err)] @ fs) s)) = Some (CircuitOpenError a u)
    \<and> ocNow k + cooldown cfg \<le> u"
proof -
  let ?s1 = "op_run ql lib cfg es s"
  have "ahConsecutive (health_of a ?s1) + 1 \<ge> thresholdFailures cfg"
    using consecutive_grows [OF assms(1), of ql lib cfg s] assms(2,5) by linarith
  then have "ahCircuitUntil (health_of a (op_after ql lib cfg k a adapter (Some err) ?s1)) = Some (ocNow k + cooldown cfg)"
    using assms(3) by (simp add: health_of_after Let_def unhealthy_def)
  from circuit_stays [OF assms(4) this order_refl, of ql lib] obtain u where
    "ahCircuitUntil (health_of a (op_run ql lib cfg (es @ [OpAfter k a adapter (Some err)] @ fs) s)) = Some u" "u \<ge> ocNow k + cooldown cfg"
    by auto
  then show ?thesis using assms(6) by (simp add: op_before_def still_def)
qed

definition op_call_at :: "int \<Rightarrow> operation_call" where
  "op_call_at t = \<lparr>ocNow = t, ocFresh = ''a1'', ocSaveFails = False, ocLookupFails = False\<rparr>"

definition sample_quota :: quota_lib where
  "sample_quota = \<lparr>quotaMarker = (\<lambda>m. contains m ''quota''), resetTime = (\<lambda>_. None)\<rparr>"

definition sample_failure :: go_error where
  "sample_failure = \<lparr>geKind = UntypedError, geText = ''connection refused''\<rparr>"

definition sample_limits :: operation_limits where
  "sample_limits = \<lparr>olFailures = 2, olCooldown = 100, olMaxTokens = 5000, olMaxCost = 0, olApproval = 1\<rparr>"

definition idle_operations :: operations where
  "idle_operations = \<lparr>onHealth = (\<lambda>_. None), onTokens = 0, onCost = 0, onStore = None\<rparr>"

theorem open_circuit_refuses_witness:
  "\<exists>u. fst (op_before (Some sample_limits) (op_call_at 109) ''codex'' 10 0 []
       (op_run sample_quota sample_text (Some sample_limits)
         ([OpAfter (op_call_at 5) ''codex'' ''codex'' (Some sample_failure)] @ [OpAfter (op_call_at 10) ''codex'' ''codex'' (Some sample_failure)]
            @ [OpBefore (op_call_at 20) ''claude'' 10 0 []]) idle_operations)) = Some (CircuitOpenError ''codex'' u) \<and> 110 \<le> u"
proof -
  let ?c = "Some sample_limits"
  have "\<not> IsQuotaLimited sample_quota sample_text sample_failure" by code_simp
  moreover have "thresholdFailures ?c = 2" "cooldown ?c = 100" "ahConsecutive (health_of ''codex'' idle_operations) = 0"
    by (simp_all add: thresholdFailures_def cooldown_def sample_limits_def health_of_def idle_operations_def no_health_def)
  ultimately show ?thesis
    using open_circuit_refuses [of "[OpAfter (op_call_at 5) ''codex'' ''codex'' (Some sample_failure)]" "''codex''" ?c sample_quota sample_text
        sample_failure "[OpBefore (op_call_at 20) ''claude'' 10 0 []]" "op_call_at 10" idle_operations "op_call_at 109" 10 0 "[]" "''codex''"]
    by (simp add: op_call_at_def)
qed

subsection \<open>The global budget\<close>

text \<open>The calls of a run that were let through.\<close>

fun let_through :: "operation_limits option \<Rightarrow> op_event \<Rightarrow> operations \<Rightarrow> bool" where
  "let_through cfg (OpBefore k a tokens cost approval) s \<longleftrightarrow> fst (op_before cfg k a tokens cost approval s) = None"
| "let_through cfg (OpAfter k a adapter err) s \<longleftrightarrow> False"

fun requested :: "op_event \<Rightarrow> int" where
  "requested (OpBefore k a tokens cost approval) = tokens"
| "requested (OpAfter k a adapter err) = 0"

fun granted :: "quota_lib \<Rightarrow> text_lib \<Rightarrow> operation_limits option \<Rightarrow> op_event list \<Rightarrow> operations \<Rightarrow> int" where
  "granted ql lib cfg [] s = 0"
| "granted ql lib cfg (e # es) s = (if let_through cfg e s then requested e else 0) + granted ql lib cfg es (op_step ql lib cfg e s)"

definition within_global :: "operation_limits option \<Rightarrow> operations \<Rightarrow> bool" where
  "within_global cfg s \<longleftrightarrow> (case cfg of None \<Rightarrow> True | Some c \<Rightarrow>
     (olMaxTokens c > 0 \<longrightarrow> onTokens s \<le> olMaxTokens c) \<and> (olMaxCost c > 0 \<longrightarrow> onCost s \<le> olMaxCost c))"

lemma before_usage:
  assumes "op_before cfg k a tokens cost approval s = (r, s')"
  shows "onTokens s' = onTokens s + (if r = None then tokens else 0) \<and> onCost s' = onCost s + (if r = None then cost else 0)"
  using assms by (auto simp: op_before_def Let_def dest: check_approval_frame split: if_splits option.splits prod.splits)

lemma before_within:
  assumes "op_before cfg k a tokens cost approval s = (r, s')" and "within_global cfg s"
  shows "within_global cfg s'"
proof (cases cfg)
  case (Some c)
  show ?thesis
  proof (cases r)
    case None
    then have "global_check c tokens cost s = None"
      using assms(1) Some by (auto simp: op_before_def Let_def split: if_splits option.splits prod.splits)
    then show ?thesis
      using before_usage [OF assms(1)] None Some by (auto simp: within_global_def global_check_def)
  next
    case (Some e)
    then show ?thesis using before_usage [OF assms(1)] assms(2) by (auto simp: within_global_def split: option.splits)
  qed
qed (simp add: within_global_def)

lemma after_usage [simp]: "onTokens (op_after ql lib cfg k a adapter err s) = onTokens s" "onCost (op_after ql lib cfg k a adapter err s) = onCost s"
  by (simp_all add: op_after_def Let_def)

text \<open>The global budget holds in every run, and its books are exact: what is counted as used is what the calls let
  through asked for, whatever they really used and whether they failed.\<close>
theorem global_budget_kept:
  assumes "within_global cfg s"
  shows "within_global cfg (op_run ql lib cfg es s) \<and> onTokens (op_run ql lib cfg es s) = onTokens s + granted ql lib cfg es s"
  using assms
proof (induction es arbitrary: s)
  case (Cons e es)
  have "within_global cfg (op_step ql lib cfg e s)
      \<and> onTokens (op_step ql lib cfg e s) = onTokens s + (if let_through cfg e s then requested e else 0)"
  proof (cases e)
    case (OpBefore k a tokens cost approval)
    obtain r s' where b: "op_before cfg k a tokens cost approval s = (r, s')" by fastforce
    show ?thesis using before_usage [OF b] before_within [OF b] b Cons.prems OpBefore by simp
  next
    case (OpAfter k a adapter err)
    then show ?thesis using Cons.prems by (simp add: within_global_def split: option.splits)
  qed
  then show ?case using Cons.IH [of "op_step ql lib cfg e s"] by simp
qed simp

theorem global_budget_kept_witness:
  "onTokens (op_run sample_quota sample_text (Some sample_limits)
     [OpBefore (op_call_at 1) ''codex'' 3000 0 [], OpAfter (op_call_at 2) ''codex'' ''codex'' (Some sample_failure),
      OpBefore (op_call_at 3) ''claude'' 3000 0 [], OpBefore (op_call_at 4) ''claude'' 2000 0 []] idle_operations) = 5000
   \<and> within_global (Some sample_limits) (op_run sample_quota sample_text (Some sample_limits)
     [OpBefore (op_call_at 1) ''codex'' 3000 0 [], OpAfter (op_call_at 2) ''codex'' ''codex'' (Some sample_failure),
      OpBefore (op_call_at 3) ''claude'' 3000 0 [], OpBefore (op_call_at 4) ''claude'' 2000 0 []] idle_operations)"
proof -
  let ?es = "[OpBefore (op_call_at 1) ''codex'' 3000 0 [], OpAfter (op_call_at 2) ''codex'' ''codex'' (Some sample_failure),
      OpBefore (op_call_at 3) ''claude'' 3000 0 [], OpBefore (op_call_at 4) ''claude'' 2000 0 []]"
  have "within_global (Some sample_limits) idle_operations"
    by (simp add: within_global_def sample_limits_def idle_operations_def)
  moreover have "granted sample_quota sample_text (Some sample_limits) ?es idle_operations = 5000" by code_simp
  moreover have "onTokens idle_operations = 0" by (simp add: idle_operations_def)
  ultimately show ?thesis
    using global_budget_kept [of "Some sample_limits" idle_operations sample_quota sample_text ?es] by simp
qed

subsection \<open>Approvals\<close>

text \<open>A call above the approval threshold is let through only with an approved approval in the store, if there is a store.\<close>

lemma costly_call_approved:
  assumes "fst (op_before (Some c) k a tokens cost approval s) = None" and "approval_needed c cost" and "onStore s = Some st"
  shows "map_option aqStatus (GetApproval approval st) = Some ApprovalApproved"
  using assms by (auto simp: op_before_def check_approval_def Let_def split: if_splits option.splits prod.splits)

text \<open>Any approval will do, and again and again: once one is approved, every agent's call of any cost goes through on it as
  long as the agent is healthy and the global budget allows, and the approval stays approved.\<close>
theorem approval_admits_any_call:
  assumes "onStore s = Some st" and "GetApproval i st = Some ap" and "aqStatus ap = ApprovalApproved" and "i \<noteq> []"
    and "\<not> ocLookupFails k" and "global_check c tokens cost s = None"
    and "\<not> still (ocNow k) (ahCircuitUntil (health_of a s))" and "\<not> still (ocNow k) (ahQuotaReset (health_of a s))"
  shows "fst (op_before (Some c) k a tokens cost i s) = None
    \<and> map_option (GetApproval i) (onStore (snd (op_before (Some c) k a tokens cost i s))) = Some (Some ap)"
proof -
  have "check_approval c k a tokens cost i s = (None, s)"
    using assms(1-5) by (simp add: check_approval_def)
  then have "op_before (Some c) k a tokens cost i s = (None, charge (Some c) k tokens cost s)"
    using assms(6-8) by (simp add: op_before_def)
  then show ?thesis using assms(1,2) by (simp add: charge_def Let_def UpdateGlobalBudget_def GetApproval_def)
qed

definition approved_operations :: operations where
  "approved_operations = idle_operations\<lparr>onStore := Some \<lparr>otHealth = [], otGlobal = [],
     otApprovals = [(''a1'', \<lparr>aqID = ''a1'', aqSession = [], aqAgent = ''codex'', aqReason = plain ''one small call'', aqCost = 1, aqTokens = 10,
       aqStatus = ApprovalApproved, aqRequestedBy = [], aqDecidedBy = ''human'', aqCreatedAt = 1, aqDecidedAt = Some 2\<rparr>)], otAudit = []\<rparr>\<rparr>"

theorem approval_admits_any_call_witness:
  "fst (op_before (Some sample_limits) (op_call_at 9) ''claude'' 5000 900 ''a1'' approved_operations) = None
   \<and> map_option aqCost (Option.bind (onStore approved_operations) (GetApproval ''a1'')) = Some 1"
proof -
  obtain st ap where s: "onStore approved_operations = Some st" "GetApproval ''a1'' st = Some ap" "aqStatus ap = ApprovalApproved" "aqCost ap = 1"
    by (simp add: approved_operations_def GetApproval_def)
  have "\<not> ocLookupFails (op_call_at 9)" "global_check sample_limits 5000 900 approved_operations = None"
    "\<not> still (ocNow (op_call_at 9)) (ahCircuitUntil (health_of ''claude'' approved_operations))"
    "\<not> still (ocNow (op_call_at 9)) (ahQuotaReset (health_of ''claude'' approved_operations))"
    by (simp_all add: op_call_at_def global_check_def sample_limits_def approved_operations_def idle_operations_def health_of_def no_health_def still_def)
  then show ?thesis
    using approval_admits_any_call [OF s(1,2,3)] s by simp
qed

end
