(* ===== verification/Economy.thy ===== *)
theory Economy
  imports Advisor Operations
begin

text \<open>
  Choosing the participant of a request (\<open>internal/economy/economy.go\<close>, \<open>ResolveParticipantContext\<close> in
  \<open>internal/collaboration/engine.go\<close>): the difficulty tier of a task, the candidates that may serve it and
  the cheapest suitable one. The controller keeps, under its mutex, the escalations per session and
  capability and the last tier of a session. Candidates come in the order of a map iteration; sorting is
  stable, so that an arbitrary order of candidates covers every way of breaking ties. Case folding is
  equality after lower-casing.
\<close>

subsection \<open>Difficulty\<close>

datatype task_tier = TierTrivial | TierRoutine | TierComplex | TierCritical

record difficulty =
  dsWritable :: bool
  dsChangedFiles :: int
  dsDiffChars :: int
  dsFailingTests :: bool
  dsBuildFailures :: bool
  dsOpenHigh :: int
  dsSensitive :: bool

definition no_difficulty :: difficulty where
  "no_difficulty = \<lparr>dsWritable = False, dsChangedFiles = 0, dsDiffChars = 0, dsFailingTests = False, dsBuildFailures = False,
     dsOpenHigh = 0, dsSensitive = False\<rparr>"

definition ClassifyTaskDifficulty :: "text_lib \<Rightarrow> string \<Rightarrow> difficulty \<Rightarrow> task_tier" where
  "ClassifyTaskDifficulty lib task s =
     (let t = ToLower lib task in
      if list_ex (contains t) [''security'', ''oauth'', ''tenant'', ''crypto'', ''authorization'', ''authentication'', ''token refresh'',
           ''race condition''] \<or> dsOpenHigh s > 0 then TierCritical
      else if list_ex (contains t) [''concurrency'', ''mutex'', ''migration'', ''database schema''] \<or> dsChangedFiles s > 5
           \<or> dsDiffChars s > 30000 \<or> dsFailingTests s \<and> dsBuildFailures s then TierComplex
      else if list_ex (contains t) [''explain'', ''summarize'', ''comment'', ''typo''] \<and> dsDiffChars s < 2000 \<and> dsChangedFiles s \<le> 1
           \<and> \<not> dsWritable s then TierTrivial
      else TierRoutine)"

subsection \<open>Selection\<close>

record economy_candidate =
  edID :: string
  edAdapter :: string
  edRoles :: "string list"
  edWritable :: bool
  edLocal :: bool
  edClass :: string
  edRelativeCost :: rat
  edReview :: bool
  edAnswerQuestions :: bool
  edSubmitEvidence :: bool
  edWriteRepository :: bool
  edCalls :: int

record routing_decision =
  gdSession :: string
  gdCapability :: string
  gdTier :: task_tier
  gdEligible :: "string list"
  gdSelected :: string
  gdReason :: "string list"

record economy_state =
  ecEscalations :: "string \<Rightarrow> nat"
  ecTiers :: "string \<Rightarrow> task_tier option"

datatype selection_error = PeerNotRegistered string | NoCandidate string | NothingSpecified

definition has_capability :: "text_lib \<Rightarrow> string \<Rightarrow> economy_candidate \<Rightarrow> bool" where
  "has_capability lib cap c \<longleftrightarrow>
     cap = [] \<or> list_ex (\<lambda>r. ToLower lib r = ToLower lib cap) (edRoles c)
     \<or> (let k = ToLower lib cap in
        if k = ''review'' then edReview c
        else if k = ''answer_questions'' \<or> k = ''ask'' then edAnswerQuestions c
        else if k = ''submit_evidence'' \<or> k = ''evidence'' then edSubmitEvidence c
        else if k = ''executor'' \<or> k = ''write'' then edWriteRepository c \<and> edWritable c
        else False)"

definition eligible_candidate :: "text_lib \<Rightarrow> string \<Rightarrow> difficulty \<Rightarrow> economy_candidate \<Rightarrow> bool" where
  "eligible_candidate lib cap s c \<longleftrightarrow>
     has_capability lib cap c \<and> \<not> (dsSensitive s \<and> \<not> edLocal c) \<and> \<not> (dsWritable s \<and> \<not> edWritable c)"

definition capable_class :: "text_lib \<Rightarrow> economy_candidate \<Rightarrow> bool" where
  "capable_class lib c \<longleftrightarrow> ToLower lib (edClass c) = ''capable'' \<or> ToLower lib (edClass c) = ''premium'' \<or> edRelativeCost c \<ge> 3"

definition efficient_class :: "text_lib \<Rightarrow> economy_candidate \<Rightarrow> bool" where
  "efficient_class lib c \<longleftrightarrow> ToLower lib (edClass c) = ''local'' \<or> ToLower lib (edClass c) = ''efficient'' \<or> edRelativeCost c \<le> 2"

definition cheaper :: "economy_candidate \<Rightarrow> economy_candidate \<Rightarrow> bool" where
  "cheaper a b \<longleftrightarrow> (if edRelativeCost a \<noteq> edRelativeCost b then edRelativeCost a < edRelativeCost b else edCalls a < edCalls b)"

text \<open>The candidates of the tier with the reason, or all of them.\<close>

definition tier_matches :: "text_lib \<Rightarrow> bool \<Rightarrow> task_tier \<Rightarrow> economy_candidate list \<Rightarrow> economy_candidate list \<times> string list" where
  "tier_matches lib escalated tier cs =
     (let strong = escalated \<or> tier = TierCritical \<or> tier = TierComplex;
          ms = filter (if strong then capable_class lib else efficient_class lib) cs
      in if ms = [] then (cs, []) else (ms, [if strong then ''tier_escalated_capable_match'' else ''tier_efficient_match'']))"

definition choose_candidate :: "text_lib \<Rightarrow> bool \<Rightarrow> task_tier \<Rightarrow> string \<Rightarrow> economy_candidate list \<Rightarrow> economy_candidate \<times> string list" where
  "choose_candidate lib escalated tier policy cs =
     (if policy = ''cheapest_suitable'' then
        (case tier_matches lib escalated tier cs of
           (ms, why) \<Rightarrow> (hd (sort_slice cheaper ms), why @ [''capability_match'', ''policy_allowed'', ''within_budget'', ''lowest_relative_cost'']))
      else if policy = ''round_robin'' then (hd (sort_slice (\<lambda>a b. edCalls a < edCalls b) cs), [''round_robin_policy''])
      else if policy = ''least_busy'' then (hd (sort_slice (\<lambda>a b. edCalls a < edCalls b) cs), [''least_busy_policy''])
      else (hd (sort_slice (\<lambda>a b. edID a < edID b) cs), [''first_policy'']))"

definition SelectParticipant ::
  "text_lib \<Rightarrow> string \<Rightarrow> string \<Rightarrow> string \<Rightarrow> string \<Rightarrow> difficulty \<Rightarrow> economy_candidate list \<Rightarrow> string \<Rightarrow> economy_state
     \<Rightarrow> (selection_error + economy_candidate \<times> routing_decision) \<times> economy_state" where
  "SelectParticipant lib session cap peer task s cands policy st =
     (let tier = ClassifyTaskDifficulty lib task s;
          escalated = ecEscalations st (colon_key session cap) > 0;
          decision = (\<lambda>el sel why. \<lparr>gdSession = session, gdCapability = cap, gdTier = tier, gdEligible = el, gdSelected = sel, gdReason = why\<rparr>)
      in if peer \<noteq> [] then
           (case find (\<lambda>c. edID c = peer) cands of
              Some c \<Rightarrow> (Inr (c, decision [peer] peer [''explicit_peer_specified'']), st)
            | None \<Rightarrow> (Inl (PeerNotRegistered peer), st))
         else let el = filter (eligible_candidate lib cap s) cands in
           if el = [] then (Inl (NoCandidate cap), st)
           else (case choose_candidate lib escalated tier (if policy = [] then ''cheapest_suitable'' else policy) el of
               (c, why) \<Rightarrow> (Inr (c, decision (map edID el) (edID c) why), st\<lparr>ecTiers := (ecTiers st)(session \<mapsto> tier)\<rparr>)))"

definition Escalate :: "string \<Rightarrow> string \<Rightarrow> economy_state \<Rightarrow> economy_state" where
  "Escalate session cap st = st\<lparr>ecEscalations := (ecEscalations st)(colon_key session cap := ecEscalations st (colon_key session cap) + 1)\<rparr>"

definition Deescalate :: "string \<Rightarrow> string \<Rightarrow> economy_state \<Rightarrow> economy_state" where
  "Deescalate session cap st = st\<lparr>ecEscalations := (ecEscalations st)(colon_key session cap := 0)\<rparr>"

subsection \<open>Resolving a participant\<close>

text \<open>What the engine reads of its configuration; \<open>egRouting\<close> lists the agents a capability is routed to.\<close>

record engine_routing =
  egAgents :: agents
  egRouting :: "(string \<times> string list) list"
  egReviewer :: string
  egSelection :: string
  egPeerSelection :: string

definition agent_roles :: "engine_routing \<Rightarrow> string \<Rightarrow> string \<Rightarrow> agent_config \<Rightarrow> string list" where
  "agent_roles g cap n a =
     (let roles = (if agRoles a = [] \<and> agRole a \<noteq> [] then [agRole a] else agRoles a) in
      case map_of (egRouting g) cap of
        None \<Rightarrow> roles
      | Some routed \<Rightarrow> if n \<in> set routed then roles @ [cap] else roles)"

definition candidate_of :: "engine_routing \<Rightarrow> (string \<Rightarrow> int) \<Rightarrow> string \<Rightarrow> string \<times> agent_config \<Rightarrow> economy_candidate" where
  "candidate_of g calls cap na =
     (let (n, a) = na in
      \<lparr>edID = n, edAdapter = agKind a, edRoles = agent_roles g cap n a, edWritable = axWritable a,
       edLocal = (agIsLocal a \<or> agClass a = ''local'' \<or> agKind a = ''fake'' \<or> agKind a = ''mock''),
       edClass = agClass a, edRelativeCost = agRelativeCost a, edReview = agReview a, edAnswerQuestions = agAnswerQuestions a,
       edSubmitEvidence = agSubmitEvidence a, edWriteRepository = agWriteRepository a, edCalls = calls n\<rparr>)"

text \<open>\<open>registered\<close> are the names with a harness.\<close>

definition ResolveParticipantContext ::
  "text_lib \<Rightarrow> engine_routing \<Rightarrow> string list \<Rightarrow> (string \<Rightarrow> int) \<Rightarrow> string \<Rightarrow> string \<Rightarrow> string \<Rightarrow> string \<Rightarrow> difficulty \<Rightarrow> economy_state
     \<Rightarrow> (selection_error + string \<times> routing_decision option) \<times> economy_state" where
  "ResolveParticipantContext lib g registered calls session cap peer task s st =
     (if peer \<noteq> [] then
        (if peer \<in> set registered \<or> map_of (egAgents g) peer \<noteq> None then (Inr (peer, None), st) else (Inl (PeerNotRegistered peer), st))
      else if cap = [] then
        (if egReviewer g \<noteq> [] then (Inr (egReviewer g, None), st) else (Inl NothingSpecified, st))
      else let cands = map (candidate_of g calls cap) (filter (\<lambda>na. \<not> external_agent lib (snd na)) (egAgents g));
               policy = (if egSelection g \<noteq> [] then egSelection g else if egPeerSelection g \<noteq> [] then egPeerSelection g else ''cheapest_suitable'')
           in (case SelectParticipant lib session cap peer task s cands policy st of
                 (Inl e, st) \<Rightarrow> (Inl e, st)
               | (Inr (c, d), st) \<Rightarrow> (Inr (edID c, if session = [] then None else Some d), st)))"

definition ResolveParticipant ::
  "text_lib \<Rightarrow> engine_routing \<Rightarrow> string list \<Rightarrow> (string \<Rightarrow> int) \<Rightarrow> string \<Rightarrow> string \<Rightarrow> economy_state
     \<Rightarrow> (selection_error + string) \<times> economy_state" where
  "ResolveParticipant lib g registered calls cap peer st =
     (case ResolveParticipantContext lib g registered calls [] cap peer [] no_difficulty st of
        (Inl e, st) \<Rightarrow> (Inl e, st)
      | (Inr (p, _), st) \<Rightarrow> (Inr p, st))"

definition agent_has_role :: "text_lib \<Rightarrow> string \<Rightarrow> agent_config \<Rightarrow> bool" where
  "agent_has_role lib r a \<longleftrightarrow> ToLower lib (agRole a) = ToLower lib r \<or> list_ex (\<lambda>x. ToLower lib x = ToLower lib r) (agRoles a)"

text \<open>The participants with a capability, with their roles and whether they may write, by name.\<close>

definition DiscoverCapabilities :: "text_lib \<Rightarrow> engine_routing \<Rightarrow> string \<Rightarrow> (string \<times> string list \<times> bool) list" where
  "DiscoverCapabilities lib g cap = sort_slice (\<lambda>x y. fst x < fst y) (map (\<lambda>(n, a). (n, agRoles a, axWritable a))
     (filter (\<lambda>(n, a). (case map_of (egRouting g) cap of None \<Rightarrow> False | Some routed \<Rightarrow> n \<in> set routed) \<or> agent_has_role lib cap a) (egAgents g)))"

subsection \<open>What is selected\<close>

text \<open>Cost first, then calls.\<close>

lemma cheaper_key: "cheaper a b \<longleftrightarrow> (edRelativeCost a, edCalls a) < (edRelativeCost b, edCalls b)"
  by (auto simp: cheaper_def less_prod_def')

lemma hd_sort_key:
  assumes "xs \<noteq> []"
  shows "hd (sort_key k xs) \<in> set xs \<and> (\<forall>y\<in>set xs. k (hd (sort_key k xs)) \<le> (k y :: 'b :: linorder))"
proof -
  have "sort_key k xs \<noteq> []" using assms by (metis length_0_conv length_sort)
  then obtain z zs where s: "sort_key k xs = z # zs" by (meson neq_Nil_conv)
  have "sorted (map k (z # zs))" using sorted_sort_key [of k xs] s by simp
  moreover have "set xs = set (z # zs)" using set_sort [of k xs] s by simp
  ultimately show ?thesis using s by auto
qed

lemma hd_sort_slice:
  assumes "\<And>x y. lt x y \<longleftrightarrow> k x < (k y :: 'b :: linorder)" and "xs \<noteq> []"
  shows "hd (sort_slice lt xs) \<in> set xs \<and> (\<forall>y\<in>set xs. k (hd (sort_slice lt xs)) \<le> k y)"
  using hd_sort_key [OF assms(2), of k] sort_slice_key [OF assms(1), where xs = xs] by simp

lemma choose_mem:
  assumes "cs \<noteq> []" and "choose_candidate lib escalated tier policy cs = (c, why)"
  shows "c \<in> set cs"
proof -
  have "c = hd (sort_slice cheaper (fst (tier_matches lib escalated tier cs))) \<or> c = hd (sort_slice (\<lambda>a b. edCalls a < edCalls b) cs)
      \<or> c = hd (sort_slice (\<lambda>a b. edID a < edID b) cs)"
    using assms(2) by (auto simp: choose_candidate_def split: if_splits prod.splits)
  moreover have "fst (tier_matches lib escalated tier cs) \<noteq> [] \<and> set (fst (tier_matches lib escalated tier cs)) \<subseteq> set cs"
    using assms(1) by (auto simp: tier_matches_def Let_def)
  moreover have "hd (sort_slice cheaper ms) \<in> set ms" if "ms \<noteq> []" for ms
    using hd_sort_slice [of cheaper "\<lambda>c. (edRelativeCost c, edCalls c)" ms] cheaper_key that by blast
  moreover have "hd (sort_slice (\<lambda>a b. edCalls a < edCalls b) cs) \<in> set cs"
    using hd_sort_slice [of "\<lambda>a b. edCalls a < edCalls b" edCalls cs] assms(1) by blast
  moreover have "hd (sort_slice (\<lambda>a b. edID a < edID b) cs) \<in> set cs"
    using hd_sort_slice [of "\<lambda>a b. edID a < edID b" edID cs] assms(1) by blast
  ultimately show ?thesis by blast
qed

text \<open>Whoever is selected for a capability may serve it: a candidate with the capability, local when sensitive paths are
  touched, writable when writing is needed; and with the default policy no candidate of the task's tier, or no candidate at
  all when the tier has none, is cheaper, or as cheap and less called.\<close>
theorem selected_participant_suitable:
  assumes "SelectParticipant lib session cap [] task s cands policy st = (Inr (c, d), st')"
  shows "c \<in> set cands \<and> eligible_candidate lib cap s c \<and> gdSelected d = edID c
    \<and> (policy \<in> {[], ''cheapest_suitable''} \<longrightarrow>
        (\<forall>c'\<in>set (fst (tier_matches lib (ecEscalations st (colon_key session cap) > 0) (ClassifyTaskDifficulty lib task s)
              (filter (eligible_candidate lib cap s) cands))). \<not> cheaper c' c))"
proof -
  let ?el = "filter (eligible_candidate lib cap s) cands" and ?e = "ecEscalations st (colon_key session cap) > 0"
    and ?t = "ClassifyTaskDifficulty lib task s" and ?p = "if policy = [] then ''cheapest_suitable'' else policy"
  have el: "?el \<noteq> []" and ch: "fst (choose_candidate lib ?e ?t ?p ?el) = c" and d: "gdSelected d = edID c"
    using assms by (auto simp: SelectParticipant_def Let_def split: if_splits prod.splits)
  have "c \<in> set ?el" using choose_mem [OF el] ch by (metis prod.collapse)
  moreover have "\<not> cheaper c' c" if p: "policy \<in> {[], ''cheapest_suitable''}" and c': "c' \<in> set (fst (tier_matches lib ?e ?t ?el))" for c'
  proof -
    have "?p = ''cheapest_suitable''" using p by auto
    then have "c = hd (sort_slice cheaper (fst (tier_matches lib ?e ?t ?el)))"
      using ch unfolding choose_candidate_def by (simp add: case_prod_beta)
    then show ?thesis
      using hd_sort_slice [of cheaper "\<lambda>c. (edRelativeCost c, edCalls c)" "fst (tier_matches lib ?e ?t ?el)"] cheaper_key c'
      by (metis empty_iff empty_set leD)
  qed
  ultimately show ?thesis using d by auto
qed

definition sample_candidate :: "string \<Rightarrow> rat \<Rightarrow> bool \<Rightarrow> economy_candidate" where
  "sample_candidate n cost local = \<lparr>edID = n, edAdapter = n, edRoles = [''reviewer''], edWritable = False, edLocal = local, edClass = [],
     edRelativeCost = cost, edReview = True, edAnswerQuestions = True, edSubmitEvidence = True, edWriteRepository = False, edCalls = 0\<rparr>"

definition fresh_economy :: economy_state where
  "fresh_economy = \<lparr>ecEscalations = (\<lambda>_. 0), ecTiers = (\<lambda>_. None)\<rparr>"

theorem selected_participant_suitable_witness:
  "\<exists>c d st'. SelectParticipant sample_text ''s1'' ''review'' [] ''oauth flow'' no_difficulty
       [sample_candidate ''codex'' 4 False, sample_candidate ''claude'' 3 False, sample_candidate ''local'' 1 True] [] fresh_economy
       = (Inr (c, d), st') \<and> edID c = ''claude'' \<and> eligible_candidate sample_text ''review'' no_difficulty c"
proof -
  let ?cs = "[sample_candidate ''codex'' 4 False, sample_candidate ''claude'' 3 False, sample_candidate ''local'' 1 True]"
  let ?S = "SelectParticipant sample_text ''s1'' ''review'' [] ''oauth flow'' no_difficulty ?cs [] fresh_economy"
  have v: "(case fst ?S of Inl _ \<Rightarrow> [] | Inr (c, d) \<Rightarrow> edID c) = ''claude''" by code_simp
  obtain r st' where S: "?S = (r, st')" by fastforce
  with v obtain c d where r: "r = Inr (c, d)" "edID c = ''claude''" by (cases r) auto
  show ?thesis using selected_participant_suitable [OF S [unfolded r(1)]] S r by blast
qed

end
