(* ===== verification/PeerCalls.thy ===== *)
theory PeerCalls
  imports Economy
begin

text \<open>
  What the peer operations of the engine share (\<open>internal/collaboration/engine.go\<close>): the replay of
  idempotent calls, the security check with its quarantine, the guards on a peer, and an invocation under a
  budget reservation that is rolled back unless it was committed. A peer operation is one step; the
  concurrency of reservations is the subject of theory BudgetLedger, that of idempotent calls of theory
  Idempotency. The security gate, the plugin marketplace, the context projector, JSON and the harnesses are
  arguments.
\<close>

subsection \<open>State and errors\<close>

datatype peer_error =
    PeerEngine engine_error
  | SessionClosedError string string
  | DepthExceeded int int
  | PeerLimitExceeded string int int
  | PeerSelection selection_error
  | PeerUnavailable string msg
  | CapabilityMissing string string
  | SecurityRefused msg
  | ContextFailed string
  | BudgetRefused budget_error
  | InvocationFailed invoke_failure
  | CommitFailed budget_error
  | WithRollback peer_error budget_error
  | NotStored string
  | UnreadableReview string string
  | AllReviewersFailed peer_error
  | MaxRoundsReached int
  | StalledError string int

record security_state =
  syViolations :: "string \<Rightarrow> int"
  syQuarantined :: "string \<Rightarrow> int option"
  syObserved :: "string \<Rightarrow> nat"

record peer_state =
  psData :: engine_data
  psCalls :: "string \<Rightarrow> int"
  psRounds :: "string \<Rightarrow> int"
  psTurns :: "string \<Rightarrow> int"
  psLastHash :: "string \<Rightarrow> string"
  psRepeats :: "string \<Rightarrow> int"
  psEconomy :: economy_state
  psIdempotency :: "((string \<times> string) \<times> string) list"
  psSessions :: "((string \<times> string) \<times> string) list"
  psSecurity :: security_state

record harness =
  hsAnswers :: bool
  hsReview :: bool
  hsHard :: bool
  hsAdapter :: string

record peer_result = invoke_result +
  iuSession :: string

text \<open>The security gate: whether it is on, what it makes of a content, whether signed evidence is demanded and cannot be had,
  and its limits.\<close>

record security_gate =
  sgEnabled :: bool
  sgCheck :: "string \<Rightarrow> string \<Rightarrow> (string \<times> string) + string"
  sgUnsigned :: bool
  sgThreshold :: int
  sgDuration :: int

record marketplace =
  mkPlugin :: "string \<Rightarrow> bool"
  mkProject :: "string \<Rightarrow> string"
  mkActive :: "string \<Rightarrow> string \<Rightarrow> string \<Rightarrow> string + (bool \<times> bool)"

record peer_limits =
  plDepth :: int
  plCalls :: int
  plRounds :: int
  plTurns :: int
  plStopOnRepeat :: bool

record snapshot =
  sxHead :: string
  sxBranch :: string
  sxStatus :: string
  sxDiffStat :: string
  sxDiff :: string
  sxTestOutput :: string
  sxExitCode :: string

record projected =
  pjTask :: string
  pjQuestion :: string
  pjStatus :: string
  pjDiffStat :: string
  pjDiff :: string
  pjFiles :: "(string \<times> string) list"

record parsed_review =
  prVerdict :: string
  prSummary :: string
  prFindings :: "finding_payload list"

record review_result =
  rsStatus :: string
  rsSummary :: string
  rsFindings :: "finding_payload list"

record converse_response =
  cvType :: string
  cvPeer :: string
  cvConversation :: string
  cvMessage :: string
  cvResponse :: string
  cvStatus :: string
  cvFindings :: "finding_payload list"
  cvRequiresReply :: bool

datatype peer_site = AtPeerMessage string | AtPeerIndex string | AtIdempotencyRead | AtIdempotency | AtPeerFinding string string

record peer_env =
  pvNow :: int
  pvLib :: text_lib
  pvContext :: "identity option"
  pvRouting :: engine_routing
  pvLimits :: engine_limits
  pvPeerLimits :: peer_limits
  pvHarnesses :: "(string \<times> harness) list"
  pvMarket :: "marketplace option"
  pvGate :: security_gate
  pvRepo :: string
  pvQuote :: "string \<Rightarrow> string"
  pvRedact :: "string \<Rightarrow> string"
  pvProject :: "string \<Rightarrow> string \<Rightarrow> string + projected"
  pvCapture :: "string + snapshot"
  pvFormatConverse :: "string \<Rightarrow> string \<Rightarrow> projected \<Rightarrow> (string \<times> envelope) list \<Rightarrow> string"
  pvInvoke :: "string \<Rightarrow> string \<Rightarrow> invoke_request \<Rightarrow> invoke_failure + peer_result"
  pvReserve :: "string \<Rightarrow> budget_call"
  pvSettle :: "string \<Rightarrow> budget_call"
  pvRollback :: "string \<Rightarrow> budget_call"
  pvParse :: "string \<Rightarrow> string + parsed_review"
  pvEncodeAnswer :: "string \<Rightarrow> string"
  pvDecodeAnswer :: "string \<Rightarrow> string option"
  pvEncodeReview :: "review_result \<Rightarrow> string"
  pvDecodeReview :: "string \<Rightarrow> review_result option"
  pvEncodeConverse :: "converse_response \<Rightarrow> string"
  pvDecodeConverse :: "string \<Rightarrow> converse_response option"
  pvFresh :: "string \<Rightarrow> string"
  pvNumber :: "nat \<Rightarrow> string"
  pvFails :: "peer_site \<Rightarrow> bool"

subsection \<open>Idempotency records\<close>

definition SaveIdempotency :: "string \<Rightarrow> string \<Rightarrow> string \<Rightarrow> peer_state \<Rightarrow> peer_state" where
  "SaveIdempotency session key result st =
     st\<lparr>psIdempotency := upsert (\<lambda>old new. new) (session, key) result (psIdempotency st)\<rparr>"

text \<open>Without a session the newest record of the key counts.\<close>

definition GetIdempotency :: "string \<Rightarrow> string \<Rightarrow> peer_state \<Rightarrow> string" where
  "GetIdempotency session key st =
     (if session \<noteq> [] then (case map_of (psIdempotency st) (session, key) of None \<Rightarrow> [] | Some r \<Rightarrow> r)
      else case rev (filter (\<lambda>r. snd (fst r) = key) (psIdempotency st)) of [] \<Rightarrow> [] | r # _ \<Rightarrow> snd r)"

text \<open>The recorded result of an earlier call with the key. A record the store fails to read counts as missing, and so does one
  that cannot be decoded.\<close>

definition replayed :: "peer_env \<Rightarrow> (string \<Rightarrow> 'a option) \<Rightarrow> string \<Rightarrow> string \<Rightarrow> peer_state \<Rightarrow> 'a option" where
  "replayed e decode session key st =
     (if key = [] \<or> pvFails e AtIdempotencyRead then None
      else let cached = GetIdempotency session key st in if cached = [] then None else decode cached)"

subsection \<open>The security check\<close>

definition quarantined_at :: "int \<Rightarrow> string \<Rightarrow> security_state \<Rightarrow> bool" where
  "quarantined_at now source s \<longleftrightarrow> source \<noteq> [] \<and> still now (syQuarantined s source)"

definition violated :: "security_gate \<Rightarrow> int \<Rightarrow> string \<Rightarrow> security_state \<Rightarrow> security_state" where
  "violated g now source s =
     (if source = [] then s
      else let n = syViolations s source + 1;
               limit = (if sgThreshold g > 0 then sgThreshold g else 3);
               duration = (if sgDuration g > 0 then sgDuration g else minutes 15)
           in s\<lparr>syViolations := (syViolations s)(source := n),
                syQuarantined := (if n \<ge> limit then (syQuarantined s)(source \<mapsto> now + duration) else syQuarantined s)\<rparr>)"

definition securityCheck :: "security_gate \<Rightarrow> int \<Rightarrow> string \<Rightarrow> string \<Rightarrow> security_state \<Rightarrow> (msg + string) \<times> security_state" where
  "securityCheck g now source content s =
     (if \<not> sgEnabled g then (Inr content, s)
      else if quarantined_at now source s then (Inl (Msg ''agent %q is quarantined until %s'' [AS source]), s)
      else if sgUnsigned g then (Inl (plain ''signed assurance evidence required: %w''), s)
      else (case sgCheck g source content of
          Inl (e, reason) \<Rightarrow> (Inl (Msg ''%w: %s'' [AS e, AS reason]), violated g now source s)
        | Inr sanitized \<Rightarrow>
            (Inr sanitized, if source = [] then s
              else s\<lparr>syObserved := (syObserved s)(''agent:'' @ source := syObserved s (''agent:'' @ source) + 1)\<rparr>)))"

definition checked :: "peer_env \<Rightarrow> string \<Rightarrow> string \<Rightarrow> peer_state \<Rightarrow> (peer_error + string) \<times> peer_state" where
  "checked e source content st =
     (case securityCheck (pvGate e) (pvNow e) source content (psSecurity st) of
        (Inl m, s) \<Rightarrow> (Inl (SecurityRefused m), st\<lparr>psSecurity := s\<rparr>)
      | (Inr c, s) \<Rightarrow> (Inr c, st\<lparr>psSecurity := s\<rparr>))"

subsection \<open>Guards\<close>

definition at_least :: "int \<Rightarrow> int \<Rightarrow> int" where
  "at_least n d = (if n \<le> 0 then d else n)"

text \<open>An open session of the caller's tenant, and a level below the limit.\<close>

definition open_session :: "peer_env \<Rightarrow> string \<Rightarrow> int \<Rightarrow> peer_state \<Rightarrow> peer_error + engine_session" where
  "open_session e session level st =
     (case tenant_session (pvLib e) (pvContext e) session (edSpaces (psData st)) of
        None \<Rightarrow> Inl (PeerEngine (SessionNotFoundError session))
      | Some s \<Rightarrow>
          guard_res (require (ssStatus s = ''active'') (SessionClosedError session (ssStatus s)))
         (guard_res (require (level < at_least (plDepth (pvPeerLimits e)) 2) (DepthExceeded level (at_least (plDepth (pvPeerLimits e)) 2)))
            (Inr s)))"

text \<open>The call is counted before it is compared with the limit.\<close>

definition count_call :: "peer_env \<Rightarrow> int \<Rightarrow> string \<Rightarrow> peer_state \<Rightarrow> peer_error option \<times> peer_state" where
  "count_call e fallback session st =
     (let n = psCalls st session + 1; m = at_least (plCalls (pvPeerLimits e)) fallback in
      (require (n \<le> m) (PeerLimitExceeded ''peer_calls'' m n), st\<lparr>psCalls := (psCalls st)(session := n)\<rparr>))"

definition requireMarketplaceActivation :: "peer_env \<Rightarrow> engine_session \<Rightarrow> string \<Rightarrow> peer_error option" where
  "requireMarketplaceActivation e s target =
     (case (pvMarket e, map_of (egAgents (pvRouting e)) target) of
        (Some m, Some a) \<Rightarrow>
          if \<not> mkPlugin m target then None
          else (case mkActive m (ssTenant s) (mkProject m (ssID s)) (if agAdapter a = [] then agKind a else agAdapter a) of
              Inl _ \<Rightarrow> Some (ContextFailed ''marketplace activation lookup: %w'')
            | Inr (known, active) \<Rightarrow>
                require (\<not> (known \<and> \<not> active))
                  (PeerUnavailable target (plain ''plugin is not approved and activated for this tenant'')))
      | _ \<Rightarrow> None)"

definition managed_peer :: "peer_env \<Rightarrow> msg \<Rightarrow> engine_session \<Rightarrow> string \<Rightarrow> peer_error + harness" where
  "managed_peer e missing s target =
     guard_res
       (require (\<not> (case map_of (egAgents (pvRouting e)) target of None \<Rightarrow> False | Some a \<Rightarrow> external_agent (pvLib e) a))
         (PeerUnavailable target (Msg ''participant %q is external and cannot be invoked directly by HarnessMesh; conversations must be initiated by the external participant'' [AS target])))
       (guard_res (requireMarketplaceActivation e s target)
         (case map_of (pvHarnesses e) target of
            None \<Rightarrow> Inl (PeerUnavailable target missing)
          | Some h \<Rightarrow> Inr h))"

text \<open>The peer of a request that names a peer or a capability, or neither.\<close>

definition resolve_peer :: "peer_env \<Rightarrow> string \<Rightarrow> string \<Rightarrow> (peer_error + string) \<Rightarrow> peer_state \<Rightarrow> (peer_error + string) \<times> peer_state" where
  "resolve_peer e peer cap otherwise st =
     (let resolve = (\<lambda>cap peer.
            (case ResolveParticipant (pvLib e) (pvRouting e) (map fst (pvHarnesses e)) (psCalls st) cap peer (psEconomy st) of
               (Inl x, ec) \<Rightarrow> (Inl (PeerSelection x), st\<lparr>psEconomy := ec\<rparr>)
             | (Inr p, ec) \<Rightarrow> (Inr p, st\<lparr>psEconomy := ec\<rparr>)))
      in if peer = [] \<and> cap \<noteq> [] then resolve cap []
         else if peer \<noteq> [] then resolve [] peer
         else (otherwise, st))"

definition peer_session :: "string \<Rightarrow> string \<Rightarrow> peer_state \<Rightarrow> string" where
  "peer_session session peer st = (case map_of (psSessions st) (session, peer) of None \<Rightarrow> [] | Some h \<Rightarrow> h)"

definition UpdateParticipantHarnessSession :: "string \<Rightarrow> string \<Rightarrow> string \<Rightarrow> peer_state \<Rightarrow> peer_state" where
  "UpdateParticipantHarnessSession session peer h st = st\<lparr>psSessions := update_row (session, peer) (\<lambda>_. h) (psSessions st)\<rparr>"

definition remember_session :: "string \<Rightarrow> string \<Rightarrow> string \<Rightarrow> string \<Rightarrow> peer_state \<Rightarrow> peer_state" where
  "remember_session session peer old new st =
     (if new \<noteq> [] \<and> new \<noteq> old then UpdateParticipantHarnessSession session peer new st else st)"

subsection \<open>An invocation under a reservation\<close>

text \<open>From the token limit to the commit; the reservation as it is left when something fails.\<close>

definition attempt_invocation ::
  "peer_env \<Rightarrow> harness \<Rightarrow> string \<Rightarrow> string \<Rightarrow> string \<Rightarrow> reservation \<Rightarrow> space_store
     \<Rightarrow> ((peer_error \<times> reservation) + peer_result) \<times> space_store" where
  "attempt_invocation e h peer hsession prompt res st =
     (case checkPeerTokenLimit (Some (hsHard h)) peer res of
        Inl x \<Rightarrow> (Inl (BudgetRefused x, res), st)
      | Inr maxTok \<Rightarrow>
          let q = \<lparr>irName = peer, irRepo = pvRepo e, irPrompt = prompt, irMaxTokens = maxTok, irMaxCost = rvMaxCost res\<rparr> in
          (case pvInvoke e peer hsession q of
             Inl x \<Rightarrow> (Inl (InvocationFailed x, res), st)
           | Inr answer \<Rightarrow>
               (case extractTokensAndCost q (invoke_result.truncate answer) of
                  (i, out, cost) \<Rightarrow>
                    (case commitBudget (pvLimits e) (pvSettle e peer) res i out cost st of
                       (Some x, res', st') \<Rightarrow> (Inl (CommitFailed x, res'), st')
                     | (None, _, st') \<Rightarrow> (Inr answer, st')))))"

definition reserved_invocation ::
  "peer_env \<Rightarrow> harness \<Rightarrow> string \<Rightarrow> string \<Rightarrow> string \<Rightarrow> string \<Rightarrow> int \<Rightarrow> space_store \<Rightarrow> (peer_error + peer_result) \<times> space_store" where
  "reserved_invocation e h session peer hsession prompt estOut st =
     (case reserveBudget (pvLimits e) (pvReserve e peer) session (estimate prompt) estOut st of
        (Inl x, st) \<Rightarrow> (Inl (BudgetRefused x), st)
      | (Inr res, st) \<Rightarrow>
          (case attempt_invocation e h peer hsession prompt res st of
             (Inr answer, st) \<Rightarrow> (Inr answer, st)
           | (Inl (x, res'), st) \<Rightarrow>
               (case rollbackBudget (pvRollback e peer) res' st of
                  (None, _, st) \<Rightarrow> (Inl x, st)
                | (Some y, _, st) \<Rightarrow> (Inl (WithRollback x y), st))))"

definition with_spaces :: "space_store \<Rightarrow> peer_state \<Rightarrow> peer_state" where
  "with_spaces sp st = st\<lparr>psData := (psData st)\<lparr>edSpaces := sp\<rparr>\<rparr>"

subsection \<open>Messages and results\<close>

definition store_message :: "peer_env \<Rightarrow> string \<Rightarrow> envelope \<Rightarrow> peer_state \<Rightarrow> peer_error option \<times> peer_state" where
  "store_message e what env st =
     (case SaveMessage (pvFails e (AtPeerMessage (nvID env))) (pvFails e (AtPeerIndex (nvID env))) env (psData st) of
        (Some _, d) \<Rightarrow> (Some (NotStored what), st\<lparr>psData := d\<rparr>)
      | (None, d) \<Rightarrow> (None, st\<lparr>psData := d\<rparr>))"

definition peer_message :: "peer_env \<Rightarrow> string \<Rightarrow> string \<Rightarrow> string \<Rightarrow> string \<Rightarrow> int \<Rightarrow> string \<Rightarrow> envelope" where
  "peer_message e i session from to level payload =
     \<lparr>nvID = i, nvSession = session, nvSpace = [], nvChannel = [], nvThread = [], nvFrom = from, nvTo = to, nvMentions = [], nvDepth = level,
      nvReplyTo = [], nvScope = [], nvPayload = payload, nvCreatedAt = pvNow e\<rparr>"

definition record_result :: "peer_env \<Rightarrow> string \<Rightarrow> string \<Rightarrow> string \<Rightarrow> peer_state \<Rightarrow> peer_error option \<times> peer_state" where
  "record_result e session key result st =
     (if key = [] then (None, st)
      else if pvFails e AtIdempotency then (Some (NotStored ''failed to save idempotency: %w''), st)
      else (None, SaveIdempotency session key result st))"

text \<open>The result of an operation: its message stored, then its result recorded under the key.\<close>

definition deliver :: "peer_env \<Rightarrow> string \<Rightarrow> string \<Rightarrow> string \<Rightarrow> envelope \<Rightarrow> string \<Rightarrow> 'a \<Rightarrow> peer_state \<Rightarrow> (peer_error + 'a) \<times> peer_state" where
  "deliver e what session key env encoded r st =
     (case store_message e what env st of
        (Some x, st) \<Rightarrow> (Inl x, st)
      | (None, st) \<Rightarrow>
          (case record_result e session key encoded st of
             (Some x, st) \<Rightarrow> (Inl x, st)
           | (None, st) \<Rightarrow> (Inr r, st)))"

subsection \<open>Prompts\<close>

definition nl :: string where
  "nl = [CHR 0x0A]"

definition section_text :: "string \<Rightarrow> string \<Rightarrow> string" where
  "section_text title s = (if s = [] then [] else title @ nl @ s @ nl @ nl)"

definition diff_text :: "string \<Rightarrow> string" where
  "diff_text s = (if s = [] then [] else ''Diff:'' @ nl @ ''```diff'' @ nl @ s @ nl @ ''```'' @ nl @ nl)"

definition formatAskPrompt :: "peer_env \<Rightarrow> string \<Rightarrow> string \<Rightarrow> projected \<Rightarrow> string" where
  "formatAskPrompt e caller question p =
     ''Agent '' @ pvQuote e caller @ '' is requesting your assistance on a task.'' @ nl @ nl
     @ ''Task: '' @ pvRedact e (pjTask p) @ nl @ nl @ ''Question:'' @ nl @ pvRedact e question @ nl @ nl
     @ section_text ''Repository status:'' (pjStatus p) @ section_text ''Diff stat:'' (pjDiffStat p) @ diff_text (pjDiff p)
     @ (if pjFiles p = [] then [] else ''Scoped files:'' @ nl
          @ concat (map (\<lambda>(path, c). ''--- File: '' @ path @ '' ---'' @ nl @ c @ nl @ nl) (pjFiles p)))
     @ ''Provide a concise, evidence-driven, direct answer to the question.''"

definition join_with :: "string \<Rightarrow> string list \<Rightarrow> string" where
  "join_with sep xs = (case xs of [] \<Rightarrow> [] | x # ys \<Rightarrow> x @ concat (map (\<lambda>y. sep @ y) ys))"

definition formatReviewPrompt :: "peer_env \<Rightarrow> string \<Rightarrow> int \<Rightarrow> snapshot \<Rightarrow> string list \<Rightarrow> string" where
  "formatReviewPrompt e task rnd s focus =
     ''Review round '' @ pvNumber e (nat rnd) @ '' for repository changes.'' @ nl @ nl @ ''Task: '' @ task @ nl @ nl
     @ (if focus = [] then [] else ''Focus areas: '' @ join_with '', '' focus @ nl @ nl)
     @ ''Repository state:'' @ nl @ ''HEAD: '' @ sxHead s @ nl @ ''Branch: '' @ sxBranch s @ nl @ ''Status:'' @ nl @ sxStatus s @ nl @ nl
     @ section_text ''Diff stat:'' (sxDiffStat s) @ diff_text (sxDiff s)
     @ (if sxTestOutput s = [] then []
        else ''Test output (exit code '' @ sxExitCode s @ ''):'' @ nl @ ''```'' @ nl @ sxTestOutput s @ nl @ ''```'' @ nl @ nl)
     @ ''Respond with valid JSON matching the review schema. If changes are required, provide concrete, verifiable findings with claims, evidence, and recommendations.''"

definition strip_fence :: "text_lib \<Rightarrow> string \<Rightarrow> string \<Rightarrow> string" where
  "strip_fence lib fence s =
     (let s = drop (length fence) s in
      TrimSpace lib (if suffix ''```'' s then take (length s - 3) s else s))"

definition normalizeReviewJSON :: "text_lib \<Rightarrow> string \<Rightarrow> string" where
  "normalizeReviewJSON lib s =
     (let s = TrimSpace lib s in
      if prefix ''```json'' s then strip_fence lib ''```json'' s
      else if prefix ''```'' s then strip_fence lib ''```'' s else s)"

definition computeFindingsHash :: "text_lib \<Rightarrow> finding_payload list \<Rightarrow> string" where
  "computeFindingsHash lib fs =
     (if fs = [] then []
      else let fold_case = (\<lambda>s. ToLower lib (TrimSpace lib s)) in
        sha256hex lib (join_with nl (sort (map (\<lambda>f. fold_case (gpID f) @ ''|'' @ fold_case (gpClaim f) @ ''|'' @ fold_case (gpFile f)) fs))))"

end
