(* ===== verification/Peers.thy ===== *)
theory Peers
  imports PeerCalls
begin

text \<open>
  The peer operations of the engine (\<open>Ask\<close>, \<open>RequestReview\<close> with \<open>executeSingleReview\<close>, \<open>Converse\<close> and
  \<open>Reply\<close> in \<open>internal/collaboration/engine.go\<close>), each with all its effects in order. The reviewers of a
  review with several reviewers run one after the other in the order of the request. Emitted events are left
  out, and a harness that answers does not look at the budget.
\<close>

subsection \<open>Ask\<close>

record ask_request =
  akPeer :: string
  akCapability :: string
  akQuestion :: string

text \<open>The peer with its harness, after all guards.\<close>

definition ask_guard ::
  "peer_env \<Rightarrow> string \<Rightarrow> ask_request \<Rightarrow> int \<Rightarrow> peer_state \<Rightarrow> (peer_error + engine_session \<times> string \<times> harness) \<times> peer_state" where
  "ask_guard e session q level st =
     (case open_session e session level st of
        Inl x \<Rightarrow> (Inl x, st)
      | Inr s \<Rightarrow>
          (case count_call e 10 session st of
             (Some x, st) \<Rightarrow> (Inl x, st)
           | (None, st) \<Rightarrow>
               (case resolve_peer e (akPeer q) (akCapability q)
                       (Inl (PeerEngine (EngineFailure (plain ''neither peer nor capability specified in ask request'')))) st of
                  (Inl x, st) \<Rightarrow> (Inl x, st)
                | (Inr p, st) \<Rightarrow>
                    (case managed_peer e (plain ''peer harness not registered'') s p of
                       Inl x \<Rightarrow> (Inl x, st)
                     | Inr h \<Rightarrow> (guard_res (require (hsAnswers h) (CapabilityMissing p ''answer_questions'')) (Inr (s, p, h)), st)))))"

text \<open>The text that is asked: the projected question, if the projector gives one.\<close>

definition asked_prompt :: "peer_env \<Rightarrow> string \<Rightarrow> engine_session \<Rightarrow> string \<Rightarrow> peer_error + string" where
  "asked_prompt e caller s question =
     (case pvProject e (ssTask s) question of
        Inl x \<Rightarrow> Inl (ContextFailed x)
      | Inr p \<Rightarrow> Inr (formatAskPrompt e caller (if pjQuestion p \<noteq> [] then pjQuestion p else question) p))"

definition answer_with ::
  "peer_env \<Rightarrow> string \<Rightarrow> string \<Rightarrow> int \<Rightarrow> string \<Rightarrow> engine_session \<Rightarrow> string \<Rightarrow> harness \<Rightarrow> string \<Rightarrow> peer_state
     \<Rightarrow> (peer_error + string) \<times> peer_state" where
  "answer_with e session caller level key s p h prompt st =
     (let hsession = peer_session session p st in
      case reserved_invocation e h session p hsession prompt 1000 (edSpaces (psData st)) of
        (Inl x, sp) \<Rightarrow> (Inl x, with_spaces sp st)
      | (Inr r, sp) \<Rightarrow>
          let st = remember_session session p hsession (iuSession r) (with_spaces sp st);
              encoded = pvEncodeAnswer e (iuText r)
          in deliver e ''failed to save message: %w'' session key (peer_message e (pvFresh e ''answer'') session p caller level encoded) encoded (iuText r) st)"

definition Ask ::
  "peer_env \<Rightarrow> string \<Rightarrow> string \<Rightarrow> ask_request \<Rightarrow> int \<Rightarrow> string \<Rightarrow> peer_state \<Rightarrow> (peer_error + string) \<times> peer_state" where
  "Ask e session caller q level key st =
     (case replayed e (pvDecodeAnswer e) session key st of
        Some a \<Rightarrow> (Inr a, st)
      | None \<Rightarrow>
          (case ask_guard e session q level st of
             (Inl x, st) \<Rightarrow> (Inl x, st)
           | (Inr (s, p, h), st) \<Rightarrow>
               (case checked e caller (akQuestion q) st of
                  (Inl x, st) \<Rightarrow> (Inl x, st)
                | (Inr question, st) \<Rightarrow>
                    (case asked_prompt e caller s question of
                       Inl x \<Rightarrow> (Inl x, st)
                     | Inr prompt \<Rightarrow> answer_with e session caller level key s p h prompt st))))"

subsection \<open>Reviews\<close>

record reviewer_spec =
  wsPeer :: string
  wsCapability :: string
  wsFocus :: "string list"

record review_request =
  wqPeer :: string
  wqCapability :: string
  wqFocus :: "string list"
  wqReviewers :: "reviewer_spec list"

text \<open>A finding of an answer, numbered when it has no identifier.\<close>

definition peer_finding :: "peer_env \<Rightarrow> string \<Rightarrow> string \<Rightarrow> string \<Rightarrow> nat \<Rightarrow> finding_payload \<Rightarrow> finding_payload" where
  "peer_finding e session peer adapter n f =
     \<lparr>gpID = (if gpID f = [] then ''HM-'' @ pvNumber e n else gpID f), gpSession = session, gpAgent = peer, gpParticipant = peer,
      gpAdapter = adapter, gpTime = pvNow e, gpSeverity = gpSeverity f, gpCategory = [], gpClaim = gpClaim f, gpEvidence = gpEvidence f,
      gpEvidenceRefs = [], gpRecommendation = gpRecommendation f, gpFile = gpFile f, gpLine = gpLine f, gpLineStart = gpLine f,
      gpEndLine = 0, gpLineEnd = 0, gpStatus = Some FindingOpen, gpDuplicateOf = [], gpRelated = []\<rparr>"

text \<open>The findings are stored one after the other; the first failure ends the operation.\<close>

fun store_findings ::
  "peer_env \<Rightarrow> string \<Rightarrow> string \<Rightarrow> string \<Rightarrow> nat \<Rightarrow> finding_payload list \<Rightarrow> finding_store
     \<Rightarrow> (peer_error + finding_payload list) \<times> finding_store" where
  "store_findings e session peer adapter n [] st = (Inr [], st)"
| "store_findings e session peer adapter n (f # fs) st =
     (let fp = peer_finding e session peer adapter n f in
      if pvFails e (AtPeerFinding peer (gpID fp)) then (Inl (NotStored ''failed to save finding %s: %w''), st)
      else (case store_findings e session peer adapter (n + 1) fs (SaveFinding (pvNow e) session fp st) of
          (Inl x, st) \<Rightarrow> (Inl x, st)
        | (Inr gs, st) \<Rightarrow> (Inr (fp # gs), st)))"

definition keep_findings ::
  "peer_env \<Rightarrow> string \<Rightarrow> string \<Rightarrow> string \<Rightarrow> finding_payload list \<Rightarrow> peer_state \<Rightarrow> (peer_error + finding_payload list) \<times> peer_state" where
  "keep_findings e session peer adapter fs st =
     (case store_findings e session peer adapter 1 fs (edFindings (psData st)) of
        (r, fd) \<Rightarrow> (r, st\<lparr>psData := (psData st)\<lparr>edFindings := fd\<rparr>\<rparr>))"

definition reviewer_guard :: "peer_env \<Rightarrow> string \<Rightarrow> string \<Rightarrow> peer_state \<Rightarrow> peer_error + (engine_session \<times> harness)" where
  "reviewer_guard e session target st =
     (case tenant_session (pvLib e) (pvContext e) session (edSpaces (psData st)) of
        None \<Rightarrow> Inl (PeerEngine (SessionNotFoundError session))
      | Some s \<Rightarrow>
          bind_res (managed_peer e (plain ''peer harness not registered'') s target) (\<lambda>h.
            guard_res (require (hsReview h) (CapabilityMissing target ''review'')) (Inr (s, h))))"

definition read_review ::
  "peer_env \<Rightarrow> string \<Rightarrow> string \<Rightarrow> string \<Rightarrow> peer_result \<Rightarrow> peer_state \<Rightarrow> (peer_error + review_result) \<times> peer_state" where
  "read_review e session target adapter r st =
     (case pvParse e (normalizeReviewJSON (pvLib e) (iuText r)) of
        Inl x \<Rightarrow> (Inl (UnreadableReview target (iuText r)), st)
      | Inr p \<Rightarrow>
          (case keep_findings e session target adapter (prFindings p) st of
             (Inl x, st) \<Rightarrow> (Inl x, st)
           | (Inr fs, st) \<Rightarrow> (Inr \<lparr>rsStatus = prVerdict p, rsSummary = prSummary p, rsFindings = fs\<rparr>, st)))"

definition executeSingleReview ::
  "peer_env \<Rightarrow> string \<Rightarrow> string \<Rightarrow> string \<Rightarrow> string list \<Rightarrow> peer_state \<Rightarrow> (peer_error + review_result) \<times> peer_state" where
  "executeSingleReview e session caller target focus st =
     (case reviewer_guard e session target st of
        Inl x \<Rightarrow> (Inl x, st)
      | Inr (s, h) \<Rightarrow>
          (case pvCapture e of
             Inl x \<Rightarrow> (Inl (ContextFailed x), st)
           | Inr snap \<Rightarrow>
               (case checked e caller (pvRedact e (ssTask s)) st of
                  (Inl x, st) \<Rightarrow> (Inl x, st)
                | (Inr task, st) \<Rightarrow>
                    let hsession = peer_session session target st;
                        prompt = formatReviewPrompt e task (psRounds st session) snap focus
                    in (case reserved_invocation e h session target hsession prompt 1500 (edSpaces (psData st)) of
                          (Inl x, sp) \<Rightarrow> (Inl x, with_spaces sp st)
                        | (Inr r, sp) \<Rightarrow>
                            read_review e session target (hsAdapter h) r
                              (remember_session session target hsession (iuSession r) (with_spaces sp st))))))"

definition resolve_reviewer :: "peer_env \<Rightarrow> string \<Rightarrow> string \<Rightarrow> peer_state \<Rightarrow> (peer_error + string) \<times> peer_state" where
  "resolve_reviewer e cap peer st =
     (case ResolveParticipant (pvLib e) (pvRouting e) (map fst (pvHarnesses e)) (psCalls st) cap peer (psEconomy st) of
        (Inl x, ec) \<Rightarrow> (Inl (PeerSelection x), st\<lparr>psEconomy := ec\<rparr>)
      | (Inr p, ec) \<Rightarrow> (Inr p, st\<lparr>psEconomy := ec\<rparr>))"

definition review_by :: "peer_env \<Rightarrow> string \<Rightarrow> string \<Rightarrow> string list \<Rightarrow> reviewer_spec \<Rightarrow> peer_state
    \<Rightarrow> (string \<times> (peer_error + review_result)) \<times> peer_state" where
  "review_by e session caller focus w st =
     (case resolve_reviewer e (wsCapability w) (wsPeer w) st of
        (Inl x, st) \<Rightarrow> (([], Inl x), st)
      | (Inr p, st) \<Rightarrow>
          (case executeSingleReview e session caller p (if wsFocus w \<noteq> [] then wsFocus w else focus) st of
             (r, st) \<Rightarrow> ((p, r), st)))"

fun review_all :: "peer_env \<Rightarrow> string \<Rightarrow> string \<Rightarrow> string list \<Rightarrow> reviewer_spec list \<Rightarrow> peer_state
    \<Rightarrow> (string \<times> (peer_error + review_result)) list \<times> peer_state" where
  "review_all e session caller focus [] st = ([], st)"
| "review_all e session caller focus (w # ws) st =
     (case review_by e session caller focus w st of
        (r, st) \<Rightarrow> (case review_all e session caller focus ws st of (rs, st) \<Rightarrow> (r # rs, st)))"

text \<open>The results that came back, with their reviewers, and the verdict they add up to.\<close>

definition came_back :: "(string \<times> (peer_error + review_result)) list \<Rightarrow> (string \<times> review_result) list" where
  "came_back rs = List.map_filter (\<lambda>(p, r). case r of Inl _ \<Rightarrow> None | Inr x \<Rightarrow> Some (p, x)) rs"

definition aggregate_review :: "text_lib \<Rightarrow> (string \<times> review_result) list \<Rightarrow> review_result" where
  "aggregate_review lib rs =
     (let fs = DeduplicateFindings lib (concat (map (rsFindings \<circ> snd) rs));
          st = map (rsStatus \<circ> snd) rs
      in \<lparr>rsStatus = (if ''block'' \<in> set st then ''block''
            else if ''changes_required'' \<in> set st \<or> fs \<noteq> [] then ''changes_required'' else ''approve''),
          rsSummary = join_with nl (map (\<lambda>(p, r). ''['' @ p @ '']: '' @ rsSummary r) rs), rsFindings = fs\<rparr>)"

definition collect_reviews :: "peer_env \<Rightarrow> string \<Rightarrow> string \<Rightarrow> review_request \<Rightarrow> peer_state \<Rightarrow> (peer_error + review_result) \<times> peer_state" where
  "collect_reviews e session caller q st =
     (if wqReviewers q \<noteq> [] then
        (case review_all e session caller (wqFocus q) (wqReviewers q) st of
           (rs, st) \<Rightarrow>
             (if came_back rs = [] then (Inl (AllReviewersFailed (case snd (hd rs) of Inl x \<Rightarrow> x | Inr _ \<Rightarrow> NotStored [])), st)
              else (Inr (aggregate_review (pvLib e) (came_back rs)), st)))
      else
        (case resolve_reviewer e (wqCapability q) (wqPeer q) st of
           (Inl x, st) \<Rightarrow> (Inl x, st)
         | (Inr p, st) \<Rightarrow>
             (case executeSingleReview e session caller p (wqFocus q) st of
                (Inl x, st) \<Rightarrow> (Inl x, st)
              | (Inr r, st) \<Rightarrow> (Inr (r\<lparr>rsFindings := DeduplicateFindings (pvLib e) (rsFindings r)\<rparr>), st))))"

text \<open>A round is counted before it is compared with the limit; beyond the limit the session is closed.\<close>

definition close_session :: "string \<Rightarrow> string \<Rightarrow> string \<Rightarrow> peer_state \<Rightarrow> peer_state" where
  "close_session session status reason st =
     (case UpdateSessionStatus session status reason (edSpaces (psData st)) of None \<Rightarrow> st | Some sp \<Rightarrow> with_spaces sp st)"

definition count_round :: "peer_env \<Rightarrow> string \<Rightarrow> peer_state \<Rightarrow> peer_error option \<times> peer_state" where
  "count_round e session st =
     (let n = psRounds st session + 1; m = at_least (plRounds (pvPeerLimits e)) 3; st = st\<lparr>psRounds := (psRounds st)(session := n)\<rparr> in
      if n \<le> m then (None, st)
      else (Some (MaxRoundsReached m), close_session session ''max_rounds'' ''reached max_peer_rounds=%d'' st))"

text \<open>The same findings in consecutive rounds.\<close>

definition detect_stall :: "peer_env \<Rightarrow> string \<Rightarrow> finding_payload list \<Rightarrow> peer_state \<Rightarrow> peer_error option \<times> peer_state" where
  "detect_stall e session fs st =
     (let hash = computeFindingsHash (pvLib e) fs in
      if plStopOnRepeat (pvPeerLimits e) \<and> hash \<noteq> [] \<and> hash = psLastHash st session then
        let st = st\<lparr>psRepeats := (psRepeats st)(session := psRepeats st session + 1)\<rparr> in
        if psRepeats st session \<ge> 1
        then (Some (StalledError hash (psRounds st session)),
              close_session session ''stalled'' ''same material findings repeated in consecutive rounds'' st)
        else (None, st)
      else (None, st\<lparr>psRepeats := (psRepeats st)(session := 0), psLastHash := (psLastHash st)(session := hash)\<rparr>))"

definition RequestReview ::
  "peer_env \<Rightarrow> string \<Rightarrow> string \<Rightarrow> review_request \<Rightarrow> int \<Rightarrow> string \<Rightarrow> peer_state \<Rightarrow> (peer_error + review_result) \<times> peer_state" where
  "RequestReview e session caller q level key st =
     (case replayed e (pvDecodeReview e) session key st of
        Some r \<Rightarrow> (Inr r, st)
      | None \<Rightarrow>
          (case open_session e session level st of
             Inl x \<Rightarrow> (Inl x, st)
           | Inr _ \<Rightarrow>
          (case count_call e 10 session st of
             (Some x, st) \<Rightarrow> (Inl x, st)
           | (None, st) \<Rightarrow>
          (case count_round e session st of
             (Some x, st) \<Rightarrow> (Inl x, st)
           | (None, st) \<Rightarrow>
          (case collect_reviews e session caller q st of
             (Inl x, st) \<Rightarrow> (Inl x, st)
           | (Inr r, st) \<Rightarrow>
          (case detect_stall e session (rsFindings r) st of
             (Some x, st) \<Rightarrow> (Inl x, st)
           | (None, st) \<Rightarrow>
               deliver e ''failed to save review message: %w'' session key (peer_message e (pvFresh e ''review'') session caller ''reviewers'' level (pvEncodeReview e r))
                 (pvEncodeReview e r) r st))))))"

subsection \<open>Converse\<close>

record converse_request =
  vqConversation :: string
  vqPeer :: string
  vqCapability :: string
  vqMessage :: string

definition count_turn :: "peer_env \<Rightarrow> string \<Rightarrow> peer_state \<Rightarrow> peer_error option \<times> peer_state" where
  "count_turn e session st =
     (let n = psTurns st session + 1; m = at_least (plTurns (pvPeerLimits e)) 6 in
      (require (n \<le> m) (PeerLimitExceeded ''conversation_turns'' m n), st\<lparr>psTurns := (psTurns st)(session := n)\<rparr>))"

definition converse_guard ::
  "peer_env \<Rightarrow> string \<Rightarrow> converse_request \<Rightarrow> int \<Rightarrow> peer_state \<Rightarrow> (peer_error + engine_session \<times> string \<times> harness) \<times> peer_state" where
  "converse_guard e session q level st =
     (case open_session e session level st of
        Inl x \<Rightarrow> (Inl x, st)
      | Inr s \<Rightarrow>
          (case count_call e 12 session st of
             (Some x, st) \<Rightarrow> (Inl x, st)
           | (None, st) \<Rightarrow>
          (case count_turn e session st of
             (Some x, st) \<Rightarrow> (Inl x, st)
           | (None, st) \<Rightarrow>
          (case resolve_peer e (vqPeer q) (vqCapability q)
                  (if egReviewer (pvRouting e) \<noteq> [] then Inr (egReviewer (pvRouting e))
                   else Inl (PeerEngine (EngineFailure (plain ''neither peer nor capability specified in converse request'')))) st of
             (Inl x, st) \<Rightarrow> (Inl x, st)
           | (Inr p, st) \<Rightarrow> (bind_res (managed_peer e (Msg ''peer %q not registered or available. Run harnessmesh doctor'' [AS p]) s p) (\<lambda>h. Inr (s, p, h)), st)))))"

text \<open>What kind of answer a text is that is not a review; whether it asks back.\<close>

definition plain_response :: "text_lib \<Rightarrow> string \<Rightarrow> string \<times> bool" where
  "plain_response lib text =
     (let t = TrimSpace lib text; l = ToLower lib t in
      if suffix ''?'' t \<or> list_ex (contains l) [''could you clarify'', ''do you want me to'', ''what is'', ''is this''] then (''question'', True)
      else if list_ex (contains l) [''approved'', ''lgtm'', ''looks good to merge''] then (''approval'', False)
      else (''answer'', False))"

definition read_response ::
  "peer_env \<Rightarrow> string \<Rightarrow> string \<Rightarrow> string \<Rightarrow> string \<Rightarrow> peer_state \<Rightarrow> (peer_error + converse_response) \<times> peer_state" where
  "read_response e session p adapter text st =
     (let response = (\<lambda>kind status fs asks. \<lparr>cvType = kind, cvPeer = p, cvConversation = session, cvMessage = pvFresh e ''reply'',
            cvResponse = text, cvStatus = status, cvFindings = fs, cvRequiresReply = asks\<rparr>);
          simple = (case plain_response (pvLib e) text of (kind, asks) \<Rightarrow> (Inr (response kind [] [] asks), st))
      in case pvParse e (normalizeReviewJSON (pvLib e) text) of
           Inl _ \<Rightarrow> simple
         | Inr r \<Rightarrow>
             if prVerdict r = [] then simple
             else (case keep_findings e session p adapter (prFindings r) st of
                 (Inl x, st) \<Rightarrow> (Inl x, st)
               | (Inr fs, st) \<Rightarrow>
                   (Inr (response (if prVerdict r = ''approve'' then ''approval'' else ''review'') (prVerdict r) fs False), st)))"

definition converse_with ::
  "peer_env \<Rightarrow> string \<Rightarrow> string \<Rightarrow> int \<Rightarrow> string \<Rightarrow> string \<Rightarrow> harness \<Rightarrow> string \<Rightarrow> string \<Rightarrow> peer_state
     \<Rightarrow> (peer_error + converse_response) \<times> peer_state" where
  "converse_with e session caller level key p h request prompt st =
     (let hsession = peer_session session p st in
      case store_message e ''failed to save converse message: %w'' (peer_message e (pvFresh e ''request'') session caller p level request) st of
        (Some x, st) \<Rightarrow> (Inl x, st)
      | (None, st) \<Rightarrow>
          (case reserved_invocation e h session p hsession prompt 1000 (edSpaces (psData st)) of
             (Inl x, sp) \<Rightarrow> (Inl x, with_spaces sp st)
           | (Inr r, sp) \<Rightarrow>
               (case read_response e session p (hsAdapter h) (TrimSpace (pvLib e) (iuText r))
                       (remember_session session p hsession (iuSession r) (with_spaces sp st)) of
                  (Inl x, st) \<Rightarrow> (Inl x, st)
                | (Inr v, st) \<Rightarrow>
                    deliver e ''failed to save converse response message: %w'' session key (peer_message e (cvMessage v) session p caller level (pvEncodeConverse e v))
                      (pvEncodeConverse e v) v st)))"

text \<open>The conversation a request belongs to: a new session when it names none. \<open>cfg\<close> are the agents and limits of new
  sessions.\<close>

definition converse_session :: "peer_env \<Rightarrow> string \<Rightarrow> string \<Rightarrow> peer_state \<Rightarrow> (peer_error + string) \<times> peer_state" where
  "converse_session e session conversation st =
     (let i = (if session = [] then conversation else session) in
      if i \<noteq> [] then (Inr i, st)
      else (case CreateSession (pvLib e) (egAgents (pvRouting e)) (pvLimits e) (pvContext e) (pvRepo e) (pvFresh e ''session'') []
                   ''Peer conversation'' (pvNow e) (edSpaces (psData st)) of
          (Inl x, sp) \<Rightarrow> (Inl (PeerEngine x), with_spaces sp st)
        | (Inr s, sp) \<Rightarrow> (Inr (ssID s), with_spaces sp st)))"

definition Converse ::
  "peer_env \<Rightarrow> string \<Rightarrow> string \<Rightarrow> converse_request \<Rightarrow> string \<Rightarrow> int \<Rightarrow> string \<Rightarrow> peer_state
     \<Rightarrow> (peer_error + converse_response) \<times> peer_state" where
  "Converse e session caller q request level key st =
     (case converse_session e session (vqConversation q) st of
        (Inl x, st) \<Rightarrow> (Inl x, st)
      | (Inr session, st) \<Rightarrow>
     (case replayed e (pvDecodeConverse e) session key st of
        Some v \<Rightarrow> (Inr v, st)
      | None \<Rightarrow>
     (case converse_guard e session q level st of
        (Inl x, st) \<Rightarrow> (Inl x, st)
      | (Inr (s, p, h), st) \<Rightarrow>
     (case checked e caller (vqMessage q) st of
        (Inl x, st) \<Rightarrow> (Inl x, st)
      | (Inr m, st) \<Rightarrow>
     (case pvProject e (ssTask s) m of
        Inl x \<Rightarrow> (Inl (ContextFailed x), st)
      | Inr pr \<Rightarrow>
          converse_with e session caller level key p h request
            (pvFormatConverse e caller m pr (filter (\<lambda>x. nvSession (snd x) = session \<or> nvSpace (snd x) = session) (edMessages (psData st)))) st)))))"

subsection \<open>Reply\<close>

definition PeerReply ::
  "peer_env \<Rightarrow> string \<Rightarrow> string \<Rightarrow> string \<Rightarrow> string \<Rightarrow> (string \<Rightarrow> string option) \<Rightarrow> int \<Rightarrow> string \<Rightarrow> peer_state
     \<Rightarrow> (peer_error + string) \<times> peer_state" where
  "PeerReply e session caller target reply decode level key st =
     (case replayed e decode session key st of
        Some r \<Rightarrow> (Inr r, st)
      | None \<Rightarrow> deliver e [] session key (peer_message e (pvFresh e ''reply'') session caller target level reply) reply reply st)"

end
