(* ===== verification/PeerProps.thy ===== *)
theory PeerProps
  imports Peers
begin

text \<open>
  What the peer operations guarantee: an invocation charges exactly what it used, whatever becomes of it; a
  peer answers only through all guards; a call repeated under its key is replayed; the rounds of a
  session are bounded; and what the verdict of several reviewers means.
\<close>

subsection \<open>An invocation settles its reservation\<close>

definition working :: "budget_call \<Rightarrow> bool" where
  "working k \<longleftrightarrow> \<not> bcSessionFails k \<and> \<not> bcSpaceFails k \<and> \<not> bcUpdateFails k"

definition usage_at :: "space_store \<Rightarrow> string \<Rightarrow> metric \<Rightarrow> rat option" where
  "usage_at st j m = map_option (used m) (budget_at st j)"

lemma account_after_update:
  assumes "find_account k i st = Account b" and "UpdateBudget i c st = Some st'" and "mirrored st"
  shows "find_account k i st' = Account c"
proof -
  have "\<exists>b'. find_account k i st' = Account b'"
    using assms(1,2)
    by (auto simp: find_account_def UpdateBudget_def session_of_def GetSessionForTenant_def GetSession_def GetSpace_def map_of_update_row
        split: if_splits option.splits)
  then obtain b' where b': "find_account k i st' = Account b'" by blast
  have "mirrored st'" "budget_at st' = (budget_at st)(i \<mapsto> c)" using UpdateBudget_budget_at [OF assms(2,3)] by simp_all
  then show ?thesis using find_account_budget [of st' k i b'] b' by simp
qed

lemma rollback_known:
  assumes "working k" and "find_account k (rvSession r) st = Account b" and "beKnown b" and "rvSession r \<noteq> []" and "mirrored st"
  shows "\<exists>st2. rollbackBudget k r st = (None, discharged r, st2)
    \<and> budget_at st2 = (budget_at st)(rvSession r \<mapsto> add_usage (- rvIn r) (- rvOut r) (- rvCost r) b)"
proof -
  obtain st2 where u: "UpdateBudget (rvSession r) (add_usage (- rvIn r) (- rvOut r) (- rvCost r) b) st = Some st2"
    using find_account_UpdateBudget [OF assms(2,4)] by blast
  then show ?thesis
    using assms UpdateBudget_budget_at [OF u assms(5)] by (simp add: rollbackBudget_def working_def)
qed

lemma commit_known:
  assumes "working k" and "find_account k (rvSession r) st = Account b" and "beKnown b" and "rvSession r \<noteq> []" and "mirrored st"
  shows "\<exists>st2. commitBudget cfg k r i out c st = (over_limit (add_usage (i - rvIn r) (out - rvOut r) (c - rvCost r) b), discharged r, st2)
    \<and> budget_at st2 = (budget_at st)(rvSession r \<mapsto> add_usage (i - rvIn r) (out - rvOut r) (c - rvCost r) b)"
proof -
  obtain st2 where u: "UpdateBudget (rvSession r) (add_usage (i - rvIn r) (out - rvOut r) (c - rvCost r) b) st = Some st2"
    using find_account_UpdateBudget [OF assms(2,4)] by blast
  have "commit_defaults cfg b = b" using assms(3) by (simp add: commit_defaults_def)
  then show ?thesis
    using assms u UpdateBudget_budget_at [OF u assms(5)] by (simp add: commitBudget_def working_def Let_def)
qed

text \<open>The answer of the peer with what it used.\<close>

definition answered :: "peer_env \<Rightarrow> string \<Rightarrow> string \<Rightarrow> peer_result \<Rightarrow> int \<Rightarrow> int \<Rightarrow> rat \<Rightarrow> bool" where
  "answered e peer hsession a i out c \<longleftrightarrow>
     (\<exists>q. pvInvoke e peer hsession q = Inr a \<and> extractTokensAndCost q (invoke_result.truncate a) = (i, out, c))"

definition untracked :: "peer_env \<Rightarrow> string \<Rightarrow> string \<Rightarrow> space_store \<Rightarrow> bool" where
  "untracked e peer session st \<longleftrightarrow> session = []
     \<or> (\<forall>b. find_account (pvReserve e peer) session st = Account b \<longrightarrow> \<not> beKnown (reserve_defaults (pvLimits e) b))"

lemma rollback_nothing: "rvSession r = [] \<Longrightarrow> rollbackBudget k r st = (None, r, st)"
  by (simp add: rollbackBudget_def)

lemma rollback_same_store:
  assumes "\<And>b. find_account k (rvSession r) st = Account b \<Longrightarrow> \<not> beKnown b"
  shows "snd (snd (rollbackBudget k r st)) = st"
  using assms by (auto simp: rollbackBudget_def Let_def split: account.splits)

lemma commit_same_store:
  assumes "\<And>b. find_account k (rvSession r) st = Account b \<Longrightarrow> \<not> beKnown (commit_defaults cfg b)"
    and "commitBudget cfg k r i out c st = (x, r', st')"
  shows "st' = st \<and> (rvSession r' = rvSession r \<or> rvSession r' = [])"
  using assms by (auto simp: commitBudget_def Let_def split: account.splits if_splits)

lemma untracked_invocation:
  assumes "untracked e peer session st" and "pvSettle e peer = pvReserve e peer" and "pvRollback e peer = pvReserve e peer"
    and "reserved_invocation e h session peer hsession prompt estOut st = (r, st')"
  shows "st' = st"
proof -
  let ?k = "pvReserve e peer"
  obtain res where R: "reserveBudget (pvLimits e) ?k session (estimate prompt) estOut st = (res, st)"
    "\<And>x. res = Inr x \<Longrightarrow> rvSession x = session"
    using reserve_untracked [OF assms(1) [unfolded untracked_def], of "estimate prompt" estOut] by auto
  show ?thesis
  proof (cases res)
    case (Inl x)
    then show ?thesis using assms(4) R by (simp add: reserved_invocation_def)
  next
    case (Inr x)
    then have x: "rvSession x = session" using R(2) by simp
    have unknown: "\<not> beKnown b \<and> \<not> beKnown (commit_defaults (pvLimits e) b)" if "session \<noteq> []" "find_account ?k session st = Account b" for b
      using assms(1) that by (auto simp: untracked_def reserve_defaults_def commit_defaults_def with_limits_def split: if_splits)
    have rb: "snd (snd (rollbackBudget ?k y st)) = st" if "rvSession y = session \<or> rvSession y = []" for y
    proof (cases "rvSession y = []")
      case True
      then show ?thesis by (simp add: rollback_nothing)
    next
      case False
      then show ?thesis using rollback_same_store [of ?k y st] unknown that by blast
    qed
    have cm: "st1 = st \<and> (rvSession y = session \<or> rvSession y = [])" if "commitBudget (pvLimits e) ?k x i out c st = (z, y, st1)" for i out c z y st1
    proof (cases "session = []")
      case True
      then show ?thesis using that x by (simp add: commitBudget_def)
    next
      case False
      then show ?thesis using commit_same_store [OF _ that] unknown x by blast
    qed
    obtain out1 st1 where A: "attempt_invocation e h peer hsession prompt x st = (out1, st1)" by fastforce
    have "st1 = st \<and> (\<forall>z y. out1 = Inl (z, y) \<longrightarrow> rvSession y = session \<or> rvSession y = [])"
      using A x by (auto simp: attempt_invocation_def assms(2) Let_def split: sum.splits prod.splits option.splits dest!: cm)
    then show ?thesis
      using assms(3,4) R Inr A rb by (auto simp: reserved_invocation_def split: sum.splits prod.splits option.splits) (metis snd_conv)+
  qed
qed

text \<open>C11: when the store works, an invocation leaves no reservation behind: either nothing is charged, and then the peer was not
  heard or no budget is tracked; or exactly what the answer used is charged to the session and to nothing else, also when
  the answer exceeds the budget and is refused for it.\<close>
theorem invocation_charges_its_usage:
  assumes "reserved_invocation e h session peer hsession prompt estOut st = (r, st')" and "mirrored st"
    and "working (pvReserve e peer)" and "pvSettle e peer = pvReserve e peer" and "pvRollback e peer = pvReserve e peer"
  shows "(\<forall>j m. usage_at st' j m = usage_at st j m) \<and> (isl r \<or> untracked e peer session st)
    \<or> (\<exists>a i out c. answered e peer hsession a i out c \<and> (r = Inr a \<or> (\<exists>x. r = Inl (CommitFailed x)))
        \<and> (\<forall>j m. usage_at st' j m = map_option (\<lambda>u. u + (if j = session then amount m i out c else 0)) (usage_at st j m)))"
proof (cases "untracked e peer session st")
  case True
  then show ?thesis using untracked_invocation [OF True assms(4,5,1)] by simp
next
  case False
  let ?k = "pvReserve e peer"
  obtain b0 where b0: "session \<noteq> []" "find_account ?k session st = Account b0" "beKnown (reserve_defaults (pvLimits e) b0)"
    using False by (auto simp: untracked_def)
  let ?b = "reserve_defaults (pvLimits e) b0"
  have cur: "budget_at st session = Some b0" by (rule find_account_budget [OF assms(2) b0(2)])
  note tr = reserve_tracked [OF b0(2,1,3), of "estimate prompt" estOut]
  show ?thesis
  proof (cases "plan_reservation session ?b (estimate prompt) (viable estOut)")
    case (Inl x)
    then have "reserveBudget (pvLimits e) ?k session (estimate prompt) estOut st = (Inl x, st)" using tr by simp
    then have "isl r" "st' = st" using assms(1) by (auto simp: reserved_invocation_def)
    then show ?thesis by simp
  next
    case (Inr res)
    let ?b1 = "add_usage (rvIn res) (rvOut res) (rvCost res) ?b"
    have res: "rvSession res = session" using plan_reservation_simps(1) [OF Inr] .
    obtain st1 where u: "UpdateBudget session ?b1 st = Some st1"
      using find_account_UpdateBudget [OF b0(2,1)] by blast
    have st1: "mirrored st1" "budget_at st1 = (budget_at st)(session \<mapsto> ?b1)" "find_account ?k (rvSession res) st1 = Account ?b1"
      using UpdateBudget_budget_at [OF u assms(2)] account_after_update [OF b0(2) u assms(2)] res by simp_all
    have R: "reserveBudget (pvLimits e) ?k session (estimate prompt) estOut st = (Inr res, st1)"
      using tr Inr u assms(3) by (simp add: working_def)
    have known: "beKnown ?b1" "rvSession res \<noteq> []" using b0(1,3) res by simp_all
    note rb = rollback_known [OF assms(3) st1(3) known st1(1)]
    have restored: "usage_at st2 j m = usage_at st j m"
      if "budget_at st2 = (budget_at st1)(rvSession res \<mapsto> add_usage (- rvIn res) (- rvOut res) (- rvCost res) ?b1)" for st2 j m
      using that st1(2) cur res by (simp add: usage_at_def used_add_usage amount_uminus)
    obtain st2 where st2: "rollbackBudget ?k res st1 = (None, discharged res, st2)" "\<And>j m. usage_at st2 j m = usage_at st j m"
      using rb restored by blast
    show ?thesis
    proof (cases "attempt_invocation e h peer hsession prompt res st1")
      case (Pair out1 st3)
      note A = Pair [unfolded attempt_invocation_def]
      show ?thesis
      proof (cases "checkPeerTokenLimit (Some (hsHard h)) peer res")
        case (Inl x)
        then have "out1 = Inl (BudgetRefused x, res)" "st3 = st1" using A by simp_all
        then have "r = Inl (BudgetRefused x)" "st' = st2"
          using assms(1) R Pair st2(1) assms(5) by (simp_all add: reserved_invocation_def)
        then show ?thesis using st2(2) by simp
      next
        case (Inr maxTok)
        let ?q = "\<lparr>irName = peer, irRepo = pvRepo e, irPrompt = prompt, irMaxTokens = maxTok, irMaxCost = rvMaxCost res\<rparr>"
        show ?thesis
        proof (cases "pvInvoke e peer hsession ?q")
          case (Inl x)
          then have "out1 = Inl (InvocationFailed x, res)" "st3 = st1" using A Inr by simp_all
          then have "r = Inl (InvocationFailed x)" "st' = st2"
            using assms(1) R Pair st2(1) assms(5) by (simp_all add: reserved_invocation_def)
          then show ?thesis using st2(2) by simp
        next
          case ans: (Inr a)
          obtain i out c where x: "extractTokensAndCost ?q (invoke_result.truncate a) = (i, out, c)"
            by (cases "extractTokensAndCost ?q (invoke_result.truncate a)") auto
          have said: "answered e peer hsession a i out c" using ans x by (auto simp: answered_def)
          let ?b2 = "add_usage (i - rvIn res) (out - rvOut res) (c - rvCost res) ?b1"
          obtain st4 where c4: "commitBudget (pvLimits e) ?k res i out c st1 = (over_limit ?b2, discharged res, st4)"
            "budget_at st4 = (budget_at st1)(session \<mapsto> ?b2)"
            using commit_known [OF assms(3) st1(3) known st1(1), of "pvLimits e" i out c] res by auto
          have charged: "usage_at st4 j m = map_option (\<lambda>u. u + (if j = session then amount m i out c else 0)) (usage_at st j m)" for j m
            using c4(2) st1(2) cur by (auto simp: usage_at_def used_add_usage amount_diff option.map_comp comp_def)
          have fin: "st' = st4 \<and> (r = Inr a \<or> (\<exists>x. r = Inl (CommitFailed x)))"
          proof (cases "over_limit ?b2")
            case None
            then have "out1 = Inr a" "st3 = st4" using A Inr ans x c4(1) assms(4) by simp_all
            then show ?thesis using assms(1) R Pair by (simp add: reserved_invocation_def)
          next
            case (Some y)
            then have "out1 = Inl (CommitFailed y, discharged res)" "st3 = st4" using A Inr ans x c4(1) assms(4) by simp_all
            then show ?thesis
              using assms(1) R Pair assms(5) rollback_nothing [of "discharged res" ?k st4] by (auto simp: reserved_invocation_def)
          qed
          then show ?thesis using said charged by blast
        qed
      qed
    qed
  qed
qed

text \<open>An environment for the examples: two participants that answer and review.\<close>

definition sample_lines :: text_lib where
  "sample_lines = \<lparr>TrimSpace = (\<lambda>s. s), CleanPath = (\<lambda>s. s), ToLower = (\<lambda>s. s), sha256hex = (\<lambda>s. s)\<rparr>"

definition sample_harness :: harness where
  "sample_harness = \<lparr>hsAnswers = True, hsReview = True, hsHard = True, hsAdapter = ''codex''\<rparr>"

definition sample_peers :: peer_env where
  "sample_peers =
     \<lparr>pvNow = seconds 10, pvLib = sample_lines, pvContext = None,
      pvRouting = \<lparr>egAgents = [], egRouting = [], egReviewer = ''claude'', egSelection = [], egPeerSelection = []\<rparr>,
      pvLimits = no_limits, pvPeerLimits = \<lparr>plDepth = 2, plCalls = 10, plRounds = 1, plTurns = 6, plStopOnRepeat = True\<rparr>,
      pvHarnesses = [(''codex'', sample_harness), (''claude'', sample_harness)], pvMarket = None,
      pvGate = \<lparr>sgEnabled = False, sgCheck = (\<lambda>_ s. Inr s), sgUnsigned = False, sgThreshold = 0, sgDuration = 0\<rparr>,
      pvRepo = ''.'', pvQuote = (\<lambda>s. s), pvRedact = (\<lambda>s. s),
      pvProject = (\<lambda>t s. Inr \<lparr>pjTask = t, pjQuestion = s, pjStatus = [], pjDiffStat = [], pjDiff = [], pjFiles = []\<rparr>),
      pvCapture = Inr \<lparr>sxHead = [], sxBranch = [], sxStatus = [], sxDiffStat = [], sxDiff = [], sxTestOutput = [], sxExitCode = []\<rparr>,
      pvFormatConverse = (\<lambda>_ s _ _. s),
      pvInvoke = (\<lambda>p s q. Inr \<lparr>iuText = ''ok'', iuUsage = \<lparr>toIn = Some 20, toOut = Some 10, toCost = None\<rparr>, iuSession = []\<rparr>),
      pvReserve = (\<lambda>_. sample_call), pvSettle = (\<lambda>_. sample_call), pvRollback = (\<lambda>_. sample_call),
      pvParse = (\<lambda>_. Inr \<lparr>prVerdict = ''approve'', prSummary = [], prFindings = []\<rparr>),
      pvEncodeAnswer = (\<lambda>s. CHR ''a'' # s), pvDecodeAnswer = (\<lambda>s. Some (tl s)),
      pvEncodeReview = rsStatus, pvDecodeReview = (\<lambda>_. None), pvEncodeConverse = cvResponse, pvDecodeConverse = (\<lambda>_. None),
      pvFresh = (\<lambda>s. s), pvNumber = (\<lambda>_. ''1''), pvFails = (\<lambda>_. False)\<rparr>"

definition sample_peer_state :: peer_state where
  "sample_peer_state =
     \<lparr>psData = \<lparr>edSpaces = sample_spaces, edThreads = [], edMessages = [], edDeliveries = [], edRetries = \<lparr>rqItems = [], rqDead = []\<rparr>,
        edFindings = empty_findings, edActivation = fresh_activation\<rparr>,
      psCalls = (\<lambda>_. 0), psRounds = (\<lambda>_. 0), psTurns = (\<lambda>_. 0), psLastHash = (\<lambda>_. []), psRepeats = (\<lambda>_. 0),
      psEconomy = \<lparr>ecEscalations = (\<lambda>_. 0), ecTiers = (\<lambda>_. None)\<rparr>, psIdempotency = [], psSessions = [],
      psSecurity = \<lparr>syViolations = (\<lambda>_. 0), syQuarantined = (\<lambda>_. None), syObserved = (\<lambda>_. 0)\<rparr>\<rparr>"

definition sample_invocation :: "(peer_error + peer_result) \<times> space_store" where
  "sample_invocation = reserved_invocation sample_peers sample_harness ''s1'' ''codex'' [] ''hello'' 1000 sample_spaces"

theorem invocation_charges_its_usage_witness:
  "\<not> isl (fst sample_invocation) \<and> \<not> untracked sample_peers ''codex'' ''s1'' sample_spaces
   \<and> (\<exists>a i out c. answered sample_peers ''codex'' [] a i out c \<and> fst sample_invocation = Inr a
        \<and> (\<forall>j m. usage_at (snd sample_invocation) j m
              = map_option (\<lambda>u. u + (if j = ''s1'' then amount m i out c else 0)) (usage_at sample_spaces j m)))"
proof -
  obtain r st' where R: "sample_invocation = (r, st')" by fastforce
  have ok: "\<not> isl (fst sample_invocation)" by code_simp
  have mir: "mirrored sample_spaces" by (simp add: mirrored_def sample_spaces_def empty_spaces_def)
  have "find_account (pvReserve sample_peers ''codex'') ''s1'' sample_spaces = Account sample_budget" by code_simp
  moreover have "beKnown (reserve_defaults (pvLimits sample_peers) sample_budget)" by code_simp
  ultimately have tracked: "\<not> untracked sample_peers ''codex'' ''s1'' sample_spaces" by (simp add: untracked_def)
  have k: "working (pvReserve sample_peers ''codex'')" "pvSettle sample_peers ''codex'' = pvReserve sample_peers ''codex''"
    "pvRollback sample_peers ''codex'' = pvReserve sample_peers ''codex''"
    by (simp_all add: sample_peers_def working_def sample_call_def)
  have "\<not> isl r" using ok unfolding R fst_conv .
  moreover from this have "r \<noteq> Inl x" for x by auto
  ultimately show ?thesis
    using invocation_charges_its_usage [OF R [unfolded sample_invocation_def] mir k] ok tracked
    unfolding R fst_conv snd_conv by blast
qed

subsection \<open>Who may be asked\<close>

definition permitted :: "security_gate \<Rightarrow> int \<Rightarrow> string \<Rightarrow> security_state \<Rightarrow> bool" where
  "permitted g now source s \<longleftrightarrow> sgEnabled g \<longrightarrow> \<not> quarantined_at now source s \<and> \<not> sgUnsigned g"

lemma checked_Inr:
  assumes "checked e source content st = (Inr c, st')"
  shows "permitted (pvGate e) (pvNow e) source (psSecurity st) \<and> st' = st\<lparr>psSecurity := psSecurity st'\<rparr>"
  using assms by (auto simp: checked_def securityCheck_def permitted_def Let_def split: if_splits sum.splits prod.splits)

lemma open_session_Inr:
  assumes "open_session e session level st = Inr s"
  shows "tenant_session (pvLib e) (pvContext e) session (edSpaces (psData st)) = Some s" "ssStatus s = ''active''"
    "level < at_least (plDepth (pvPeerLimits e)) 2"
  using assms by (auto simp: open_session_def split: option.splits)

lemma managed_peer_Inr:
  assumes "managed_peer e m s p = Inr h"
  shows "map_of (pvHarnesses e) p = Some h" "\<And>a. map_of (egAgents (pvRouting e)) p = Some a \<Longrightarrow> \<not> external_agent (pvLib e) a"
    "requireMarketplaceActivation e s p = None"
  using assms by (auto simp: managed_peer_def split: option.splits)

lemma resolve_peer_frame:
  assumes "resolve_peer e p cap other st = (r, st')"
  shows "st' = st\<lparr>psEconomy := psEconomy st'\<rparr>"
  using assms by (auto simp: resolve_peer_def Let_def split: if_splits sum.splits prod.splits)

lemma reserved_invocation_Inr:
  assumes "reserved_invocation e h session p hsession prompt estOut st = (Inr a, st')"
  shows "\<exists>i out c. answered e p hsession a i out c"
  using assms
  by (auto simp: reserved_invocation_def attempt_invocation_def answered_def Let_def split: sum.splits prod.splits option.splits)

lemma deliver_Inr:
  assumes "deliver e what session key env encoded r st = (Inr x, st')"
  shows "x = r" "psCalls st' = psCalls st" "psRounds st' = psRounds st"
    "psIdempotency st' = (if key = [] then psIdempotency st else upsert (\<lambda>old new. new) (session, key) encoded (psIdempotency st))"
  using assms
  by (auto simp: deliver_def store_message_def record_result_def SaveIdempotency_def split: sum.splits prod.splits option.splits if_splits)

lemma ask_guard_Inr:
  assumes "ask_guard e session q level st = (Inr (s, p, h), st')"
  shows "open_session e session level st = Inr s" "psCalls st session < at_least (plCalls (pvPeerLimits e)) 10"
    "managed_peer e (plain ''peer harness not registered'') s p = Inr h" "hsAnswers h"
    "st' = st\<lparr>psCalls := (psCalls st)(session := psCalls st session + 1), psEconomy := psEconomy st'\<rparr>"
  using assms
  by (auto simp: ask_guard_def count_call_def Let_def split: sum.splits prod.splits option.splits dest: resolve_peer_frame)

lemma remember_session_frame [simp]:
  "psCalls (remember_session session p a b st) = psCalls st" "psRounds (remember_session session p a b st) = psRounds st"
  by (simp_all add: remember_session_def UpdateParticipantHarnessSession_def)

lemma with_spaces_frame [simp]:
  "psCalls (with_spaces sp st) = psCalls st" "psRounds (with_spaces sp st) = psRounds st"
  "peer_session session p (with_spaces sp st) = peer_session session p st"
  by (simp_all add: with_spaces_def peer_session_def)

lemma answer_with_Inr:
  assumes "answer_with e session caller level key s p h prompt st = (Inr a, st')"
  shows "\<exists>r i out c. answered e p (peer_session session p st) r i out c \<and> iuText r = a" "psCalls st' = psCalls st"
    "key \<noteq> [] \<Longrightarrow> map_of (psIdempotency st') (session, key) = Some (pvEncodeAnswer e a)"
proof -
  obtain r sp where r: "reserved_invocation e h session p (peer_session session p st) prompt 1000 (edSpaces (psData st)) = (Inr r, sp)"
    and d: "deliver e ''failed to save message: %w'' session key
        (peer_message e (pvFresh e ''answer'') session p caller level (pvEncodeAnswer e (iuText r))) (pvEncodeAnswer e (iuText r)) (iuText r)
        (remember_session session p (peer_session session p st) (iuSession r) (with_spaces sp st)) = (Inr a, st')"
    using assms by (auto simp: answer_with_def Let_def split: sum.splits prod.splits)
  note D = deliver_Inr [OF d]
  show "\<exists>r i out c. answered e p (peer_session session p st) r i out c \<and> iuText r = a"
    using reserved_invocation_Inr [OF r] D(1) by blast
  show "psCalls st' = psCalls st" using D(2) by simp
  show "map_of (psIdempotency st') (session, key) = Some (pvEncodeAnswer e a)" if "key \<noteq> []"
    using D(1,4) that by (auto simp: map_of_upsert split: option.splits)
qed

lemma Ask_Inr:
  assumes "Ask e session caller q level key st = (Inr a, st')" and "replayed e (pvDecodeAnswer e) session key st = None"
  obtains s p h st1 st2 question prompt where "ask_guard e session q level st = (Inr (s, p, h), st1)"
    "checked e caller (akQuestion q) st1 = (Inr question, st2)"
    "answer_with e session caller level key s p h prompt st2 = (Inr a, st')"
  using assms by (auto simp: Ask_def split: sum.splits prod.splits)

text \<open>C25: an answer that was not found under the call's key (a replayed one skips every guard) comes from an invocation of a
  registered participant that may answer questions, is
  not external and is activated for the tenant, in an active session of the caller's tenant, below the depth and call limits; the
  call is counted, and when the security gate is enabled the caller is not quarantined.\<close>
theorem ask_is_guarded:
  assumes "Ask e session caller q level key st = (Inr a, st')" and "replayed e (pvDecodeAnswer e) session key st = None"
  shows "\<exists>s p h r i out c. tenant_session (pvLib e) (pvContext e) session (edSpaces (psData st)) = Some s \<and> ssStatus s = ''active''
    \<and> level < at_least (plDepth (pvPeerLimits e)) 2
    \<and> psCalls st session < at_least (plCalls (pvPeerLimits e)) 10 \<and> psCalls st' session = psCalls st session + 1
    \<and> permitted (pvGate e) (pvNow e) caller (psSecurity st)
    \<and> map_of (pvHarnesses e) p = Some h \<and> hsAnswers h \<and> requireMarketplaceActivation e s p = None
    \<and> \<not> (\<exists>x. map_of (egAgents (pvRouting e)) p = Some x \<and> external_agent (pvLib e) x)
    \<and> answered e p (peer_session session p st) r i out c \<and> iuText r = a"
proof -
  obtain s p h st1 st2 question prompt where G: "ask_guard e session q level st = (Inr (s, p, h), st1)"
    and C: "checked e caller (akQuestion q) st1 = (Inr question, st2)"
    and A: "answer_with e session caller level key s p h prompt st2 = (Inr a, st')"
    by (rule Ask_Inr [OF assms])
  note g = ask_guard_Inr [OF G] and c = checked_Inr [OF C]
  have st1: "psSecurity st1 = psSecurity st" "psSessions st1 = psSessions st" "psCalls st1 session = psCalls st session + 1"
    by (subst g(5), simp)+
  have st2: "psSessions st2 = psSessions st1" "psCalls st2 = psCalls st1"
    by (subst conjunct2 [OF c], simp)+
  have "peer_session session p st2 = peer_session session p st" using st1(2) st2(1) by (simp add: peer_session_def)
  then obtain r i out cost where "answered e p (peer_session session p st) r i out cost" "iuText r = a"
    using answer_with_Inr(1) [OF A] by auto
  moreover have "psCalls st' session = psCalls st session + 1" using answer_with_Inr(2) [OF A] st1(3) st2(2) by simp
  ultimately show ?thesis
    using open_session_Inr [OF g(1)] managed_peer_Inr [OF g(3)] g(2,4) c st1(1) by metis
qed

definition sample_ask :: ask_request where
  "sample_ask = \<lparr>akPeer = ''codex'', akCapability = [], akQuestion = ''why?''\<rparr>"

definition sample_asked :: "(peer_error + string) \<times> peer_state" where
  "sample_asked = Ask sample_peers ''s1'' ''human'' sample_ask 0 ''k1'' sample_peer_state"

lemma sample_asked: "sample_asked = (Inr ''ok'', snd sample_asked)"
proof -
  have "fst sample_asked = Inr ''ok''" by code_simp
  then show ?thesis using surjective_pairing [of sample_asked] by metis
qed

theorem ask_is_guarded_witness:
  "\<exists>s p h. tenant_session sample_lines None ''s1'' sample_spaces = Some s \<and> ssStatus s = ''active'' \<and> (0::int) < 2
    \<and> psCalls (snd sample_asked) ''s1'' = 1 \<and> map_of (pvHarnesses sample_peers) p = Some h \<and> hsAnswers h"
proof -
  have fresh: "replayed sample_peers (pvDecodeAnswer sample_peers) ''s1'' ''k1'' sample_peer_state = None" by code_simp
  have c: "psCalls sample_peer_state ''s1'' = 0" by code_simp
  have l: "pvLib sample_peers = sample_lines" "pvContext sample_peers = None" "edSpaces (psData sample_peer_state) = sample_spaces"
    by (simp_all add: sample_peers_def sample_peer_state_def)
  show ?thesis
    using ask_is_guarded [OF sample_asked [unfolded sample_asked_def] fresh] unfolding c l sample_asked_def by auto
qed

subsection \<open>Calls that are repeated\<close>

text \<open>C32: an answered call that is repeated under its key in its session gets the same answer, whatever it asks now and whatever
  the peers and the guards say, and changes nothing: nothing is counted, charged or stored again. This needs the store to read
  the record when the call is repeated, and an answer that JSON gives back as it was (a text that is valid UTF-8).\<close>
theorem answered_call_is_replayed:
  assumes "Ask e session caller q level key st = (Inr a, st')" and "session \<noteq> []" and "key \<noteq> []"
    and "pvEncodeAnswer e a \<noteq> []" and "pvDecodeAnswer e (pvEncodeAnswer e a) = Some a"
    and "pvDecodeAnswer e' = pvDecodeAnswer e" and "\<not> pvFails e' AtIdempotencyRead"
  shows "Ask e' session caller' q' level' key st' = (Inr a, st')"
proof -
  have "replayed e' (pvDecodeAnswer e) session key st' = Some a"
  proof (cases "replayed e (pvDecodeAnswer e) session key st")
    case None
    obtain s p h st1 st2 question prompt where "answer_with e session caller level key s p h prompt st2 = (Inr a, st')"
      by (rule Ask_Inr [OF assms(1) None])
    then have "map_of (psIdempotency st') (session, key) = Some (pvEncodeAnswer e a)"
      by (rule answer_with_Inr(3)) (rule assms(3))
    then have "GetIdempotency session key st' = pvEncodeAnswer e a"
      using assms(2) by (simp add: GetIdempotency_def)
    then show ?thesis
      using assms(3-5,7) by (simp add: replayed_def)
  next
    case (Some b)
    then have "st' = st" "b = a" using assms(1) by (simp_all add: Ask_def)
    then show ?thesis using Some assms(7) by (simp add: replayed_def split: if_splits)
  qed
  then show ?thesis using assms(6) by (simp add: Ask_def)
qed

theorem answered_call_is_replayed_witness:
  "Ask sample_peers ''s1'' ''mallory'' (sample_ask\<lparr>akPeer := ''nobody''\<rparr>) 7 ''k1'' (snd sample_asked) = (Inr ''ok'', snd sample_asked)"
  by (rule answered_call_is_replayed [OF sample_asked [unfolded sample_asked_def], folded sample_asked_def, of sample_peers])
    (simp_all add: sample_peers_def)

text \<open>A record that cannot be read is no protection: the call is made again like a new one and charged a second time.\<close>

definition unreadable_peers :: peer_env where
  "unreadable_peers = sample_peers\<lparr>pvFails := (\<lambda>x. x = AtIdempotencyRead)\<rparr>"

lemma unread_record_charged_again:
  "usage_at (edSpaces (psData (snd (Ask unreadable_peers ''s1'' ''human'' sample_ask 0 ''k1'' (snd sample_asked))))) ''s1'' TotalTokens
     \<noteq> usage_at (edSpaces (psData (snd sample_asked))) ''s1'' TotalTokens"
  by code_simp

subsection \<open>Rounds of review\<close>

lemma checked_rounds: "checked e c x st = (r, st') \<Longrightarrow> psRounds st' = psRounds st"
  by (auto simp: checked_def split: sum.splits prod.splits)

lemma read_review_rounds: "read_review e session target adapter r st = (x, st') \<Longrightarrow> psRounds st' = psRounds st"
  by (auto simp: read_review_def keep_findings_def split: sum.splits prod.splits)

lemma single_review_rounds: "executeSingleReview e session caller target focus st = (x, st') \<Longrightarrow> psRounds st' = psRounds st"
  by (auto simp: executeSingleReview_def Let_def split: sum.splits prod.splits dest!: checked_rounds read_review_rounds)

lemma resolve_reviewer_rounds: "resolve_reviewer e cap peer st = (x, st') \<Longrightarrow> psRounds st' = psRounds st"
  by (auto simp: resolve_reviewer_def split: sum.splits prod.splits)

lemma review_by_rounds: "review_by e session caller focus w st = (x, st') \<Longrightarrow> psRounds st' = psRounds st"
  by (auto simp: review_by_def split: sum.splits prod.splits dest!: single_review_rounds resolve_reviewer_rounds)

lemma review_all_rounds: "review_all e session caller focus ws st = (x, st') \<Longrightarrow> psRounds st' = psRounds st"
  by (induction ws arbitrary: st x) (auto split: prod.splits dest!: review_by_rounds)

lemma collect_reviews_rounds: "collect_reviews e session caller q st = (x, st') \<Longrightarrow> psRounds st' = psRounds st"
  by (auto simp: collect_reviews_def split: if_splits sum.splits prod.splits
      dest!: review_all_rounds resolve_reviewer_rounds single_review_rounds)

lemma close_session_rounds [simp]: "psRounds (close_session session status reason st) = psRounds st"
  by (simp add: close_session_def split: option.splits)

lemma detect_stall_rounds: "detect_stall e session fs st = (x, st') \<Longrightarrow> psRounds st' = psRounds st"
  by (auto simp: detect_stall_def Let_def split: if_splits)

lemma deliver_rounds: "deliver e what session key env encoded r st = (x, st') \<Longrightarrow> psRounds st' = psRounds st"
  by (auto simp: deliver_def store_message_def record_result_def SaveIdempotency_def split: prod.splits option.splits if_splits)

lemma count_call_rounds: "count_call e n session st = (x, st') \<Longrightarrow> psRounds st' = psRounds st"
  by (auto simp: count_call_def Let_def)

lemma count_round_rounds:
  "count_round e session st = (x, st') \<Longrightarrow> psRounds st' session = psRounds st session + 1
     \<and> (x = None \<longrightarrow> psRounds st session < at_least (plRounds (pvPeerLimits e)) 3)"
  by (auto simp: count_round_def Let_def split: if_splits)

text \<open>A request that comes as far as its reviewers.\<close>

definition consults :: "peer_env \<Rightarrow> string \<Rightarrow> int \<Rightarrow> string \<Rightarrow> peer_state \<Rightarrow> bool" where
  "consults e session level key st \<longleftrightarrow> replayed e (pvDecodeReview e) session key st = None
     \<and> \<not> isl (open_session e session level st)
     \<and> (case count_call e 10 session st of (x, st) \<Rightarrow> x = None \<and> fst (count_round e session st) = None)"

lemma RequestReview_rounds:
  assumes "RequestReview e session caller q level key st = (x, st')"
  shows "psRounds st session \<le> psRounds st' session
    \<and> (consults e session level key st \<longrightarrow> psRounds st' session = psRounds st session + 1
         \<and> psRounds st' session \<le> at_least (plRounds (pvPeerLimits e)) 3)"
proof -
  obtain c st1 where c: "count_call e 10 session st = (c, st1)" by fastforce
  obtain d st2 where d: "count_round e session st1 = (d, st2)" by fastforce
  have r: "psRounds st1 = psRounds st" "psRounds st2 session = psRounds st session + 1"
    "d = None \<Longrightarrow> psRounds st session < at_least (plRounds (pvPeerLimits e)) 3"
    using count_call_rounds [OF c] count_round_rounds [OF d] by auto
  have "st' = st \<or> st' = st1 \<or> psRounds st' session = psRounds st2 session"
    and "consults e session level key st \<Longrightarrow> psRounds st' session = psRounds st2 session"
    using assms c d
    by (auto simp: RequestReview_def consults_def split: sum.splits prod.splits option.splits
        dest!: collect_reviews_rounds detect_stall_rounds deliver_rounds)
  moreover have "consults e session level key st \<Longrightarrow> d = None" using c d by (simp add: consults_def)
  ultimately show ?thesis using r by auto
qed

record review_call =
  wcEnv :: peer_env
  wcCaller :: string
  wcRequest :: review_request
  wcDepth :: int
  wcKey :: string

text \<open>How many of the requests of a session come as far as the reviewers.\<close>

fun consultations :: "string \<Rightarrow> review_call list \<Rightarrow> peer_state \<Rightarrow> nat" where
  "consultations session [] st = 0"
| "consultations session (c # cs) st =
     (if consults (wcEnv c) session (wcDepth c) (wcKey c) st then 1 else 0)
     + consultations session cs (snd (RequestReview (wcEnv c) session (wcCaller c) (wcRequest c) (wcDepth c) (wcKey c) st))"

lemma consultations_beyond:
  assumes "\<And>c. c \<in> set cs \<Longrightarrow> at_least (plRounds (pvPeerLimits (wcEnv c))) 3 = m" and "m < psRounds st session"
  shows "consultations session cs st = 0"
  using assms
proof (induction cs arbitrary: st)
  case Nil
  then show ?case by simp
next
  case (Cons c cs)
  obtain x st' where R: "RequestReview (wcEnv c) session (wcCaller c) (wcRequest c) (wcDepth c) (wcKey c) st = (x, st')" by fastforce
  note r = RequestReview_rounds [OF R]
  have "\<not> consults (wcEnv c) session (wcDepth c) (wcKey c) st" using Cons.prems r Cons.prems(1) [of c] by auto
  then show ?case using Cons.IH [of st'] Cons.prems r R by auto
qed

text \<open>However many reviews of a session are requested, by whomever and under whatever keys, reviewers are consulted for at
  most as many of them as rounds are left under the configured limit.\<close>
theorem review_rounds_bounded:
  assumes "\<And>c. c \<in> set cs \<Longrightarrow> at_least (plRounds (pvPeerLimits (wcEnv c))) 3 = m" and "psRounds st session \<le> m"
  shows "int (consultations session cs st) \<le> m - psRounds st session"
  using assms
proof (induction cs arbitrary: st)
  case Nil
  then show ?case by simp
next
  case (Cons c cs)
  obtain x st' where R: "RequestReview (wcEnv c) session (wcCaller c) (wcRequest c) (wcDepth c) (wcKey c) st = (x, st')" by fastforce
  note r = RequestReview_rounds [OF R]
  show ?case
  proof (cases "psRounds st' session \<le> m")
    case True
    have "int (consultations session cs st') \<le> m - psRounds st' session" using Cons.IH [of st'] Cons.prems(1) True by simp
    then show ?thesis using r R by auto
  next
    case False
    have "\<not> consults (wcEnv c) session (wcDepth c) (wcKey c) st" using False r Cons.prems(1) [of c] by auto
    moreover have "consultations session cs st' = 0"
      using False Cons.prems(1) by (intro consultations_beyond) auto
    ultimately show ?thesis using R Cons.prems(2) by simp
  qed
qed

definition sample_review_call :: "string \<Rightarrow> review_call" where
  "sample_review_call k =
     \<lparr>wcEnv = sample_peers, wcCaller = ''human'',
      wcRequest = \<lparr>wqPeer = ''codex'', wqCapability = [], wqFocus = [], wqReviewers = []\<rparr>, wcDepth = 0, wcKey = k\<rparr>"

theorem review_rounds_bounded_witness:
  "consultations ''s1'' [sample_review_call [], sample_review_call ''k''] sample_peer_state = 1
   \<and> int (consultations ''s1'' [sample_review_call [], sample_review_call ''k''] sample_peer_state) \<le> 1"
proof -
  have l: "at_least (plRounds (pvPeerLimits (wcEnv c))) 3 = 1" if "c \<in> set [sample_review_call [], sample_review_call ''k'']" for c
    using that by (auto simp: sample_review_call_def sample_peers_def at_least_def)
  have z: "psRounds sample_peer_state ''s1'' = 0" by (simp add: sample_peer_state_def)
  have "int (consultations ''s1'' [sample_review_call [], sample_review_call ''k''] sample_peer_state)
      \<le> 1 - psRounds sample_peer_state ''s1''"
    by (rule review_rounds_bounded [OF l]) (assumption, simp add: z)
  then have "int (consultations ''s1'' [sample_review_call [], sample_review_call ''k''] sample_peer_state) \<le> 1"
    unfolding z by (simp only: diff_zero)
  moreover have "consultations ''s1'' [sample_review_call [], sample_review_call ''k''] sample_peer_state = 1" by code_simp
  ultimately show ?thesis by blast
qed

subsection \<open>The verdict of several reviewers\<close>

text \<open>Reviewers that fail are left out of the verdict: one approval without findings is enough, whoever else failed.\<close>

lemma failed_reviewers_never_block:
  assumes "review_all e session caller (wqFocus q) (wqReviewers q) st = (rs, st')" and "wqReviewers q \<noteq> []"
    and "came_back rs = [(p, x)]" and "rsStatus x = ''approve''" and "rsFindings x = []"
    and "DeduplicateFindings (pvLib e) [] = []"
  shows "\<exists>r. collect_reviews e session caller q st = (Inr r, st') \<and> rsStatus r = ''approve''"
  using assms by (auto simp: collect_reviews_def aggregate_review_def)

end
