(* ===== verification/Idempotency.thy ===== *)
theory Idempotency
  imports CoreState
begin

text \<open>
  The idempotency cache of the bridge (\<open>internal/bridge/idempotency.go\<close>): a bounded cache with expiry of the
  responses to requests with an idempotency key, which also makes every concurrent request with the key
  wait for the one that is being served. Each method holds the cache's mutex; one turn of the loop of
  \<open>beginOrWait\<close> is one step, and a request that has to wait takes another turn later. An element of the
  linked list has an identity of its own, a number.
\<close>

subsection \<open>The cache\<close>

record cache_entry =
  ieKey :: string
  ieStatus :: int
  ieBody :: string
  ieExpires :: int

record idempotency_cache =
  icTTL :: int
  icMax :: int
  icOrder :: "(nat \<times> cache_entry) list"
  icItems :: "string \<Rightarrow> (nat \<times> cache_entry) option"
  icInflight :: "string list"
  icNext :: nat

definition newIdempotencyCache :: "int \<Rightarrow> int \<Rightarrow> idempotency_cache" where
  "newIdempotencyCache ttl maxItems =
     \<lparr>icTTL = (if ttl \<le> 0 then 600 * 1000000000 else ttl), icMax = (if maxItems \<le> 0 then 10000 else maxItems), icOrder = [],
      icItems = (\<lambda>_. None), icInflight = [], icNext = 0\<rparr>"

definition full_key :: "string \<Rightarrow> string \<Rightarrow> string" where
  "full_key route key = route @ CHR 0x00 # key"

datatype begin_outcome = ReplayResponse int string | MustWait | OwnKey

definition drop_element :: "nat \<Rightarrow> (nat \<times> cache_entry) list \<Rightarrow> (nat \<times> cache_entry) list" where
  "drop_element n xs = filter (\<lambda>el. fst el \<noteq> n) xs"

definition drop_expired :: "int \<Rightarrow> string \<Rightarrow> idempotency_cache \<Rightarrow> idempotency_cache" where
  "drop_expired now k c =
     (case icItems c k of
        None \<Rightarrow> c
      | Some el \<Rightarrow> if now < ieExpires (snd el) then c
          else c\<lparr>icOrder := drop_element (fst el) (icOrder c), icItems := (icItems c)(k := None)\<rparr>)"

text \<open>One turn of \<open>beginOrWait\<close>.\<close>

definition beginTurn :: "int \<Rightarrow> string \<Rightarrow> string \<Rightarrow> idempotency_cache \<Rightarrow> begin_outcome \<times> idempotency_cache" where
  "beginTurn now route key c =
     (let k = full_key route key; c = drop_expired now k c in
      case icItems c k of
        Some el \<Rightarrow> (ReplayResponse (ieStatus (snd el)) (ieBody (snd el)), c)
      | None \<Rightarrow> if k \<in> set (icInflight c) then (MustWait, c) else (OwnKey, c\<lparr>icInflight := k # icInflight c\<rparr>))"

text \<open>The oldest elements go while there are too many; an element takes the entry of its key along, whatever that is.\<close>

definition overfull :: "idempotency_cache \<Rightarrow> bool" where
  "overfull c \<longleftrightarrow> int (length (icOrder c)) > icMax c \<and> icOrder c \<noteq> []"

function evict :: "idempotency_cache \<Rightarrow> idempotency_cache" where
  "evict c =
     (if overfull c
      then evict (c\<lparr>icOrder := butlast (icOrder c), icItems := (icItems c)(ieKey (snd (last (icOrder c))) := None)\<rparr>)
      else c)"
  by auto
termination
  by (relation "measure (\<lambda>c. length (icOrder c))") (auto simp: overfull_def)

declare evict.simps [simp del]

lemma evict_more: "overfull c \<Longrightarrow> evict c =
    evict (c\<lparr>icOrder := butlast (icOrder c), icItems := (icItems c)(ieKey (snd (last (icOrder c))) := None)\<rparr>)"
  by (subst evict.simps) simp

lemma evict_done: "\<not> overfull c \<Longrightarrow> evict c = c"
  by (subst evict.simps) simp

definition finishKey :: "int \<Rightarrow> string \<Rightarrow> string \<Rightarrow> int \<Rightarrow> string \<Rightarrow> idempotency_cache \<Rightarrow> idempotency_cache" where
  "finishKey now route key status body c =
     (let k = full_key route key;
          el = (icNext c, \<lparr>ieKey = k, ieStatus = status, ieBody = body, ieExpires = now + icTTL c\<rparr>);
          c = evict (c\<lparr>icOrder := el # icOrder c, icItems := (icItems c)(k \<mapsto> el), icNext := icNext c + 1\<rparr>)
      in c\<lparr>icInflight := removeAll k (icInflight c)\<rparr>)"

definition abortKey :: "string \<Rightarrow> string \<Rightarrow> idempotency_cache \<Rightarrow> idempotency_cache" where
  "abortKey route key c = c\<lparr>icInflight := removeAll (full_key route key) (icInflight c)\<rparr>"

subsection \<open>Runs\<close>

text \<open>Only an owner finishes or aborts, as \<open>beginOrWait\<close> demands of its callers.\<close>

datatype cache_event =
    CBegin int string string
  | CFinish int string string int string
  | CAbort string string

record cache_run =
  crCache :: idempotency_cache
  crOwned :: "string list"

fun cache_step :: "cache_event \<Rightarrow> cache_run \<Rightarrow> cache_run" where
  "cache_step (CBegin now route key) r =
     (case beginTurn now route key (crCache r) of
        (OwnKey, c) \<Rightarrow> r\<lparr>crCache := c, crOwned := full_key route key # crOwned r\<rparr>
      | (_, c) \<Rightarrow> r\<lparr>crCache := c\<rparr>)"
| "cache_step (CFinish now route key status body) r =
     (if full_key route key \<in> set (crOwned r)
      then r\<lparr>crCache := finishKey now route key status body (crCache r), crOwned := removeAll (full_key route key) (crOwned r)\<rparr>
      else r)"
| "cache_step (CAbort route key) r =
     (if full_key route key \<in> set (crOwned r)
      then r\<lparr>crCache := abortKey route key (crCache r), crOwned := removeAll (full_key route key) (crOwned r)\<rparr>
      else r)"

definition start_run :: "int \<Rightarrow> int \<Rightarrow> cache_run" where
  "start_run ttl maxItems = \<lparr>crCache = newIdempotencyCache ttl maxItems, crOwned = []\<rparr>"

text \<open>The map and the list agree, keys and elements are unique, nothing that is being served is in the cache, and the
  cache is bounded. \<open>P\<close> holds of every entry.\<close>

definition cache_wf :: "(cache_entry \<Rightarrow> bool) \<Rightarrow> idempotency_cache \<Rightarrow> bool" where
  "cache_wf P c \<longleftrightarrow> (\<forall>k el. icItems c k = Some el \<longleftrightarrow> el \<in> set (icOrder c) \<and> ieKey (snd el) = k)
     \<and> distinct (map fst (icOrder c)) \<and> distinct (map (ieKey \<circ> snd) (icOrder c))
     \<and> (\<forall>el\<in>set (icOrder c). fst el < icNext c \<and> ieKey (snd el) \<notin> set (icInflight c) \<and> P (snd el))"

definition bounded_cache :: "idempotency_cache \<Rightarrow> bool" where
  "bounded_cache c \<longleftrightarrow> icMax c > 0 \<and> int (length (icOrder c)) \<le> icMax c"

lemma cache_lookup: "cache_wf P c \<Longrightarrow> icItems c k = Some el \<longleftrightarrow> el \<in> set (icOrder c) \<and> ieKey (snd el) = k"
  unfolding cache_wf_def by blast

lemma cache_free: "cache_wf P c \<Longrightarrow> icItems c k = None \<Longrightarrow> el \<in> set (icOrder c) \<Longrightarrow> ieKey (snd el) \<noteq> k"
  using cache_lookup [of P c k el] by auto

lemma drop_expired_frame:
  "icTTL (drop_expired now k c) = icTTL c" "icMax (drop_expired now k c) = icMax c" "icInflight (drop_expired now k c) = icInflight c"
  by (auto simp: drop_expired_def split: option.splits)

lemma drop_element_facts: "set (drop_element n xs) = {el \<in> set xs. fst el \<noteq> n}" "length (drop_element n xs) \<le> length xs"
    "distinct (map f xs) \<Longrightarrow> distinct (map f (drop_element n xs))"
  by (auto simp: drop_element_def distinct_map inj_on_def)

lemma drop_expired_wf:
  assumes "cache_wf P c"
  shows "cache_wf P (drop_expired now k c)"
proof (cases "icItems c k")
  case None
  then show ?thesis using assms by (simp add: drop_expired_def)
next
  case (Some el)
  have el: "el \<in> set (icOrder c)" "ieKey (snd el) = k" using cache_lookup [OF assms, of k el] Some by simp_all
  have key: "ieKey (snd x) = k \<longleftrightarrow> x = el" if "x \<in> set (icOrder c)" for x
    using assms el that by (auto simp: cache_wf_def distinct_map inj_on_def)
  have id: "fst x = fst el \<longleftrightarrow> x = el" if "x \<in> set (icOrder c)" for x
    using assms el that by (auto simp: cache_wf_def distinct_map inj_on_def)
  show ?thesis
  proof (cases "now < ieExpires (snd el)")
    case False
    then have d: "drop_expired now k c = c\<lparr>icOrder := drop_element (fst el) (icOrder c), icItems := (icItems c)(k := None)\<rparr>"
      using Some by (simp add: drop_expired_def)
    have "((icItems c)(k := None)) k' = Some x \<longleftrightarrow> x \<in> set (drop_element (fst el) (icOrder c)) \<and> ieKey (snd x) = k'" for k' x
      using cache_lookup [OF assms, of k' x] key [of x] id [of x] el by (cases "x = el") (auto simp: drop_element_facts)
    then show ?thesis using assms by (simp add: d cache_wf_def drop_element_facts del: split_paired_All)
  qed (use assms Some in \<open>simp add: drop_expired_def\<close>)
qed

lemma drop_expired_bounded: "bounded_cache c \<Longrightarrow> bounded_cache (drop_expired now k c)"
proof -
  have "length (icOrder (drop_expired now k c)) \<le> length (icOrder c)"
    using drop_element_facts(2) by (auto simp: drop_expired_def split: option.splits)
  then show "bounded_cache c \<Longrightarrow> bounded_cache (drop_expired now k c)"
    by (auto simp: bounded_cache_def drop_expired_frame)
qed

lemma butlast_wf:
  assumes "cache_wf P c" and "icOrder c \<noteq> []"
  shows "cache_wf P (c\<lparr>icOrder := butlast (icOrder c), icItems := (icItems c)(ieKey (snd (last (icOrder c))) := None)\<rparr>)"
proof -
  obtain xs el where o: "icOrder c = xs @ [el]" using assms(2) by (metis append_butlast_last_id)
  have "((icItems c)(ieKey (snd el) := None)) k = Some x \<longleftrightarrow> x \<in> set xs \<and> ieKey (snd x) = k" for k x
    using cache_lookup [OF assms(1), of k x] assms(1) o
    by (auto simp: cache_wf_def image_iff simp del: split_paired_All)
  then show ?thesis using assms(1) o by (simp add: cache_wf_def del: split_paired_All)
qed

lemma evict_wf: "cache_wf P c \<Longrightarrow> cache_wf P (evict c)"
proof (induction c rule: evict.induct)
  case (1 c)
  show ?case
  proof (cases "overfull c")
    case True
    then show ?thesis using 1(1) [OF True butlast_wf [OF 1(2)]] evict_more [OF True] by (simp add: overfull_def)
  qed (simp add: evict_done 1(2))
qed

lemma evict_frame: "icTTL (evict c) = icTTL c \<and> icMax (evict c) = icMax c \<and> icInflight (evict c) = icInflight c
    \<and> (icMax c > 0 \<longrightarrow> int (length (icOrder (evict c))) \<le> icMax c)"
proof (induction c rule: evict.induct)
  case (1 c)
  show ?case
  proof (cases "overfull c")
    case True
    then show ?thesis using 1 [OF True] evict_more [OF True] by simp
  next
    case False
    then show ?thesis by (auto simp: evict_done overfull_def)
  qed
qed

lemma finish_wf:
  assumes "cache_wf P c" and "full_key route key \<in> set (icInflight c)"
    and "P \<lparr>ieKey = full_key route key, ieStatus = status, ieBody = body, ieExpires = now + icTTL c\<rparr>"
  shows "cache_wf P (finishKey now route key status body c)"
proof -
  let ?k = "full_key route key"
  let ?el = "(icNext c, \<lparr>ieKey = ?k, ieStatus = status, ieBody = body, ieExpires = now + icTTL c\<rparr>)"
  let ?c = "c\<lparr>icOrder := ?el # icOrder c, icItems := (icItems c)(?k \<mapsto> ?el), icNext := icNext c + 1\<rparr>"
  have none: "\<forall>x\<in>set (icOrder c). ieKey (snd x) \<noteq> ?k" using assms(1,2) by (auto simp: cache_wf_def)
  have "(icItems ?c) k = Some x \<longleftrightarrow> x \<in> set (icOrder ?c) \<and> ieKey (snd x) = k" for k x
    using cache_lookup [OF assms(1), of k x] none by (auto simp: fun_upd_def)
  moreover have "distinct (map fst (icOrder ?c))" using assms(1) by (auto simp: cache_wf_def simp del: split_paired_All)
  moreover have "distinct (map (ieKey \<circ> snd) (icOrder ?c))" using assms(1) none by (auto simp: cache_wf_def)
  moreover have "\<forall>x\<in>set (icOrder ?c). fst x < icNext ?c \<and> P (snd x) \<and> (ieKey (snd x) = ?k \<or> ieKey (snd x) \<notin> set (icInflight c))"
    using assms(1,3) by (auto simp: cache_wf_def less_Suc_eq)
  ultimately have "cache_wf P (?c\<lparr>icInflight := removeAll ?k (icInflight c)\<rparr>)"
    by (auto simp: cache_wf_def simp del: split_paired_All)
  from evict_wf [OF this] have "cache_wf P (evict (?c\<lparr>icInflight := removeAll ?k (icInflight c)\<rparr>))" .
  moreover have "evict (x\<lparr>icInflight := y\<rparr>) = (evict x)\<lparr>icInflight := y\<rparr>" for x y
  proof (induction x rule: evict.induct)
    case (1 x)
    let ?f = "\<lambda>z. z\<lparr>icOrder := butlast (icOrder x), icItems := (icItems x)(ieKey (snd (last (icOrder x))) := None)\<rparr>"
    have same: "overfull (x\<lparr>icInflight := y\<rparr>) = overfull x" by (simp add: overfull_def)
    show ?case
    proof (cases "overfull x")
      case True
      have "evict (x\<lparr>icInflight := y\<rparr>) = evict (?f (x\<lparr>icInflight := y\<rparr>))"
        using evict_more [of "x\<lparr>icInflight := y\<rparr>"] same True by simp
      also have "\<dots> = evict ((?f x)\<lparr>icInflight := y\<rparr>)" by (rule arg_cong [of _ _ evict]) simp
      also have "\<dots> = (evict (?f x))\<lparr>icInflight := y\<rparr>" by (rule 1 [OF True])
      also have "evict (?f x) = evict x" by (rule evict_more [OF True, symmetric])
      finally show ?thesis .
    next
      case False
      then show ?thesis using same by (simp add: evict_done)
    qed
  qed
  ultimately show ?thesis using evict_frame [of ?c] by (simp add: finishKey_def Let_def)
qed

definition cache_inv :: "(cache_entry \<Rightarrow> bool) \<Rightarrow> int \<Rightarrow> cache_run \<Rightarrow> bool" where
  "cache_inv P ttl r \<longleftrightarrow> cache_wf P (crCache r) \<and> bounded_cache (crCache r) \<and> icTTL (crCache r) = ttl
     \<and> set (icInflight (crCache r)) = set (crOwned r)"

fun finish_entry :: "int \<Rightarrow> cache_event \<Rightarrow> cache_entry option" where
  "finish_entry ttl (CFinish now route key status body) =
     Some \<lparr>ieKey = full_key route key, ieStatus = status, ieBody = body, ieExpires = now + ttl\<rparr>"
| "finish_entry ttl _ = None"

lemma begin_inv:
  assumes "cache_inv P ttl r" and "beginTurn now route key (crCache r) = (x, c)"
  shows "cache_wf P c \<and> bounded_cache c \<and> icTTL c = ttl
    \<and> (x = OwnKey \<longrightarrow> full_key route key \<notin> set (crOwned r) \<and> set (icInflight c) = insert (full_key route key) (set (crOwned r)))
    \<and> (x \<noteq> OwnKey \<longrightarrow> set (icInflight c) = set (crOwned r))
    \<and> (\<forall>s b. x = ReplayResponse s b \<longrightarrow> (\<exists>el. icItems c (full_key route key) = Some el \<and> s = ieStatus (snd el) \<and> b = ieBody (snd el)
         \<and> now < ieExpires (snd el)))"
proof -
  let ?k = "full_key route key" and ?c = "drop_expired now (full_key route key) (crCache r)"
  have wf: "cache_wf P ?c" "bounded_cache ?c" "icTTL ?c = ttl" "set (icInflight ?c) = set (crOwned r)"
    using assms(1) drop_expired_wf drop_expired_bounded by (auto simp: cache_inv_def drop_expired_frame)
  have live: "now < ieExpires (snd el)" if "icItems ?c ?k = Some el" for el
    using that by (auto simp: drop_expired_def split: option.splits if_splits)
  have own: "cache_wf P (?c\<lparr>icInflight := ?k # icInflight ?c\<rparr>)" if "icItems ?c ?k = None"
    using wf(1) cache_free [OF wf(1) that] by (simp add: cache_wf_def del: split_paired_All)
  show ?thesis
  proof (cases "icItems ?c ?k")
    case None
    then have b: "(x, c) = (if ?k \<in> set (icInflight ?c) then (MustWait, ?c) else (OwnKey, ?c\<lparr>icInflight := ?k # icInflight ?c\<rparr>))"
      using assms(2) by (simp add: beginTurn_def Let_def)
    show ?thesis
    proof (cases "?k \<in> set (icInflight ?c)")
      case True
      then have "x = MustWait" "c = ?c" using b by simp_all
      then show ?thesis using wf by simp
    next
      case False
      then have "x = OwnKey" "c = ?c\<lparr>icInflight := ?k # icInflight ?c\<rparr>" using b by simp_all
      moreover have "?k \<notin> set (crOwned r)" using False wf(4) by simp
      ultimately show ?thesis using wf own [OF None] by (simp add: bounded_cache_def)
    qed
  next
    case (Some el)
    then have "x = ReplayResponse (ieStatus (snd el)) (ieBody (snd el))" "c = ?c"
      using assms(2) by (simp_all add: beginTurn_def Let_def)
    then show ?thesis using wf live [OF Some] Some by simp
  qed
qed

lemma finish_frame:
  "icTTL (finishKey now route key status body c) = icTTL c \<and> icMax (finishKey now route key status body c) = icMax c
   \<and> icInflight (finishKey now route key status body c) = removeAll (full_key route key) (icInflight c)
   \<and> (icMax c > 0 \<longrightarrow> int (length (icOrder (finishKey now route key status body c))) \<le> icMax c)"
proof -
  let ?k = "full_key route key"
  let ?el = "(icNext c, \<lparr>ieKey = ?k, ieStatus = status, ieBody = body, ieExpires = now + icTTL c\<rparr>)"
  show ?thesis
    using evict_frame [of "c\<lparr>icOrder := ?el # icOrder c, icItems := (icItems c)(?k \<mapsto> ?el), icNext := icNext c + 1\<rparr>"]
    by (simp add: finishKey_def Let_def)
qed

lemma cache_step_inv:
  assumes "cache_inv P ttl r" and "\<And>x. finish_entry ttl e = Some x \<Longrightarrow> P x"
  shows "cache_inv P ttl (cache_step e r)"
proof (cases e)
  case (CBegin now route key)
  obtain x c where b: "beginTurn now route key (crCache r) = (x, c)" by fastforce
  show ?thesis using begin_inv [OF assms(1) b] CBegin b by (cases x) (auto simp: cache_inv_def)
next
  case (CFinish now route key status body)
  let ?k = "full_key route key"
  show ?thesis
  proof (cases "?k \<in> set (crOwned r)")
    case True
    then have "cache_wf P (finishKey now route key status body (crCache r))"
      using finish_wf [of P "crCache r" route key status body now] assms CFinish by (auto simp: cache_inv_def)
    then show ?thesis
      using assms(1) CFinish True finish_frame [of now route key status body "crCache r"] by (auto simp: cache_inv_def bounded_cache_def)
  qed (use assms CFinish in simp)
next
  case (CAbort route key)
  then show ?thesis using assms by (auto simp: cache_inv_def abortKey_def cache_wf_def bounded_cache_def)
qed

lemma cache_run_inv:
  assumes "\<And>e x. e \<in> set es \<Longrightarrow> finish_entry ttl e = Some x \<Longrightarrow> P x" and "cache_inv P ttl r"
  shows "cache_inv P ttl (fold cache_step es r)"
  using assms by (induction es arbitrary: r) (auto intro: cache_step_inv)

lemma start_inv: "cache_inv P (icTTL (newIdempotencyCache ttl maxItems)) (start_run ttl maxItems)"
  by (simp add: cache_inv_def start_run_def newIdempotencyCache_def cache_wf_def bounded_cache_def)

lemma full_key_inject:
  assumes "CHR 0x00 \<notin> set route" and "CHR 0x00 \<notin> set route'" and "full_key route key = full_key route' key'"
  shows "route = route' \<and> key = key'"
proof -
  have "takeWhile (\<lambda>x. x \<noteq> CHR 0x00) (full_key route key) = route" "takeWhile (\<lambda>x. x \<noteq> CHR 0x00) (full_key route' key') = route'"
    using assms(1,2) by (auto simp: full_key_def takeWhile_tail)
  then show ?thesis using assms(3) by (auto simp: full_key_def)
qed

text \<open>C30: a request with an idempotency key is served by one owner at a time; a response is replayed only if it is the recorded
  one of an earlier request with the same route and key that has not expired; and the cache never holds more responses
  than it may.\<close>
theorem idempotent_requests_served_once:
  assumes "r = fold cache_step es (start_run ttl maxItems)" and "beginTurn now route key (crCache r) = (x, c)"
    and "CHR 0x00 \<notin> set route" and "\<forall>e\<in>set es. \<forall>t rt k s b. e = CFinish t rt k s b \<longrightarrow> CHR 0x00 \<notin> set rt"
  shows "(x = OwnKey \<longrightarrow> full_key route key \<notin> set (crOwned r)) \<and> int (length (icOrder c)) \<le> icMax c
    \<and> (\<forall>s b. x = ReplayResponse s b \<longrightarrow> (\<exists>t. CFinish t route key s b \<in> set es \<and> now < t + icTTL (newIdempotencyCache ttl maxItems)))"
proof -
  let ?t = "icTTL (newIdempotencyCache ttl maxItems)"
  let ?P = "\<lambda>x. \<exists>e\<in>set es. finish_entry ?t e = Some x"
  have inv: "cache_inv ?P ?t r"
    using cache_run_inv [of es ?t ?P "start_run ttl maxItems"] start_inv [of ?P ttl maxItems] assms(1) by blast
  have "\<exists>t. CFinish t route key s b \<in> set es \<and> now < t + ?t" if x: "x = ReplayResponse s b" for s b
  proof -
    obtain el where el: "icItems c (full_key route key) = Some el" "s = ieStatus (snd el)" "b = ieBody (snd el)" "now < ieExpires (snd el)"
      using begin_inv [OF inv assms(2)] x by auto
    then have "el \<in> set (icOrder c)" "ieKey (snd el) = full_key route key" "?P (snd el)"
      using begin_inv [OF inv assms(2)] cache_lookup [of ?P c "full_key route key" el] by (auto simp: cache_wf_def)
    then obtain e where e: "e \<in> set es" "finish_entry ?t e = Some (snd el)" by auto
    from e(2) obtain t rt k s' b' where f: "e = CFinish t rt k s' b'" by (cases e) auto
    then have entry: "snd el = \<lparr>ieKey = full_key rt k, ieStatus = s', ieBody = b', ieExpires = t + ?t\<rparr>" using e(2) by simp
    have "full_key rt k = full_key route key" "s' = s" "b' = b" "ieExpires (snd el) = t + ?t"
      using entry el \<open>ieKey (snd el) = full_key route key\<close> by simp_all
    moreover have "CHR 0x00 \<notin> set rt" using assms(4) e(1) f by auto
    ultimately show ?thesis using full_key_inject [OF _ assms(3)] e(1) f el(4) by auto
  qed
  then show ?thesis using begin_inv [OF inv assms(2)] by (auto simp: bounded_cache_def)
qed

definition sample_requests :: "cache_event list" where
  "sample_requests = [CBegin 1 ''/tasks'' ''k1'', CBegin 2 ''/tasks'' ''k1'', CFinish 3 ''/tasks'' ''k1'' 201 ''created'']"

theorem idempotent_requests_served_once_witness:
  "fst (beginTurn 50 ''/tasks'' ''k1'' (crCache (fold cache_step sample_requests (start_run 100 2)))) = ReplayResponse 201 ''created''
   \<and> CFinish 3 ''/tasks'' ''k1'' 201 ''created'' \<in> set sample_requests
   \<and> (\<exists>t. CFinish t ''/tasks'' ''k1'' 201 ''created'' \<in> set sample_requests \<and> 50 < t + icTTL (newIdempotencyCache 100 2))"
proof -
  let ?r = "fold cache_step sample_requests (start_run 100 2)"
  obtain x c where b: "beginTurn 50 ''/tasks'' ''k1'' (crCache ?r) = (x, c)" by fastforce
  have v: "fst (beginTurn 50 ''/tasks'' ''k1'' (crCache ?r)) = ReplayResponse 201 ''created''" by code_simp
  have "\<forall>e\<in>set sample_requests. \<forall>t rt k s b. e = CFinish t rt k s b \<longrightarrow> CHR 0x00 \<notin> set rt"
    by (auto simp: sample_requests_def)
  then show ?thesis
    using idempotent_requests_served_once [OF refl b] b v by (auto simp: sample_requests_def)
qed

end
