(* ===== verification/Jobs.thy ===== *)
theory Jobs
  imports RetryQueue
begin

text \<open>
  Durable jobs: the job table with its leases and dependencies (\<open>internal/store/store.go\<close>,
  \<open>job_events.go\<close>), the runtime that claims and executes jobs (\<open>internal/jobs/runtime.go\<close>), signed
  webhooks that become jobs (\<open>webhook.go\<close>), the workflow adapter (\<open>internal/workflow/durable.go\<close>)
  and the dashboard's action on a job (\<open>internal/webui/api.go\<close>). A claim is one transaction. Times are
  nanoseconds; a zero time is \<open>0\<close>. Identifiers of events are left out.
\<close>

subsection \<open>The tables\<close>

record durable_job =
  djID :: string
  djTenant :: string
  djKind :: string
  djPayload :: string
  djStatus :: string
  djAttempts :: int
  djMaxAttempts :: int
  djNext :: int
  djOwner :: string
  djLease :: "int option"
  djError :: string
  djCreatedAt :: int
  djUpdatedAt :: int

record job_event =
  jeJob :: string
  jeTenant :: string
  jeType :: string
  jeMessage :: string
  jeCreatedAt :: int

record job_dependency =
  jpJob :: string
  jpDependsOn :: string
  jpStatus :: string
  jpCreatedAt :: int

record lease_row =
  leOwner :: string
  leExpires :: int

record job_store =
  jsJobs :: "(string \<times> durable_job) list"
  jsEvents :: "job_event list"
  jsLeases :: "(string \<times> lease_row) list"
  jsDependencies :: "((string \<times> string) \<times> job_dependency) list"

datatype job_error = JobError msg | JobStoreFailed string

text \<open>The calls of the database that may fail.\<close>

datatype job_site = AtCreateJob | AtClaim | AtReadClaimed string | AtUpdateJob string | AtLease

type_synonym job_faults = "job_site \<Rightarrow> bool"

subsection \<open>The job table\<close>

definition new_job :: "int \<Rightarrow> durable_job \<Rightarrow> durable_job" where
  "new_job now j =
     (let created = (if djCreatedAt j = 0 then now else djCreatedAt j)
      in j\<lparr>djStatus := (if djStatus j = [] then ''pending'' else djStatus j),
           djMaxAttempts := (if djMaxAttempts j \<le> 0 then 3 else djMaxAttempts j),
           djNext := (if djNext j = 0 then now else djNext j),
           djCreatedAt := created, djUpdatedAt := created\<rparr>)"

definition CreateJob :: "job_faults \<Rightarrow> int \<Rightarrow> durable_job \<Rightarrow> job_store \<Rightarrow> job_error option \<times> job_store" where
  "CreateJob fails now j st =
     (if djID j = [] \<or> djTenant j = [] \<or> djKind j = [] then (Some (JobError (plain ''job id, tenant, and kind are required'')), st)
      else if fails AtCreateJob \<or> map_of (jsJobs st) (djID j) \<noteq> None then (Some (JobStoreFailed ''durable_jobs''), st)
      else (None, st\<lparr>jsJobs := jsJobs st @ [(djID j, new_job now j)]\<rparr>))"

definition GetJob :: "string \<Rightarrow> job_store \<Rightarrow> durable_job option" where
  "GetJob i st = map_of (jsJobs st) i"

definition ListJobs :: "string \<Rightarrow> string \<Rightarrow> int \<Rightarrow> job_store \<Rightarrow> durable_job list" where
  "ListJobs tenant status n st =
     take (nat (if n \<le> 0 \<or> n > 1000 then 100 else n))
       (sort_key djCreatedAt (filter (\<lambda>j. (tenant = [] \<or> djTenant j = tenant) \<and> (status = [] \<or> djStatus j = status)) (map snd (jsJobs st))))"

definition claimable :: "int \<Rightarrow> durable_job \<Rightarrow> bool" where
  "claimable now j \<longleftrightarrow> djStatus j \<in> {''pending'', ''retry''} \<and> djNext j \<le> now \<and> (case djLease j of None \<Rightarrow> True | Some t \<Rightarrow> t \<le> now)"

text \<open>Due jobs by their time, then by age; rows with equal keys keep the order of insertion.\<close>

definition due_jobs :: "int \<Rightarrow> job_store \<Rightarrow> durable_job list" where
  "due_jobs now st = sort_key djNext (sort_key djCreatedAt (filter (claimable now) (map snd (jsJobs st))))"

definition job_limit :: "int \<Rightarrow> nat" where
  "job_limit n = nat (if n \<le> 0 \<or> n > 100 then 1 else n)"

definition claim_job :: "int \<Rightarrow> string \<Rightarrow> int \<Rightarrow> durable_job \<Rightarrow> durable_job" where
  "claim_job now owner lease j = j\<lparr>djStatus := ''running'', djAttempts := djAttempts j + 1, djOwner := owner,
     djLease := Some (now + lease), djUpdatedAt := now\<rparr>"

text \<open>The claimed jobs are read again after the transaction; when that fails they stay claimed.\<close>

definition ClaimJobs :: "job_faults \<Rightarrow> int \<Rightarrow> string \<Rightarrow> int \<Rightarrow> int \<Rightarrow> job_store \<Rightarrow> (job_error + durable_job list) \<times> job_store" where
  "ClaimJobs fails now owner n lease st =
     (if owner = [] then (Inl (JobError (plain ''job lease owner is required'')), st)
      else if fails AtClaim then (Inl (JobStoreFailed ''durable_jobs''), st)
      else let lease = (if lease \<le> 0 then minutes 1 else lease);
               ids = map djID (take (job_limit n) (due_jobs now st));
               st = st\<lparr>jsJobs := fold (\<lambda>i. update_row i (claim_job now owner lease)) ids (jsJobs st)\<rparr>
           in if \<exists>i\<in>set ids. fails (AtReadClaimed i) then (Inl (JobStoreFailed ''durable_jobs''), st)
              else (Inr (List.map_filter (\<lambda>i. GetJob i st) ids), st))"

definition UpdateJob :: "job_faults \<Rightarrow> int \<Rightarrow> string \<Rightarrow> string \<Rightarrow> int \<Rightarrow> string \<Rightarrow> job_store \<Rightarrow> job_error option \<times> job_store" where
  "UpdateJob fails now i status next err st =
     (if i = [] \<or> status = [] then (Some (JobError (plain ''job id and status are required'')), st)
      else if fails (AtUpdateJob i) then (Some (JobStoreFailed ''durable_jobs''), st)
      else (None, st\<lparr>jsJobs := update_row i (\<lambda>j. j\<lparr>djStatus := status, djNext := next, djOwner := [], djLease := None,
                       djError := err, djUpdatedAt := now\<rparr>) (jsJobs st)\<rparr>))"

definition AppendJobEvent :: "int \<Rightarrow> job_event \<Rightarrow> job_store \<Rightarrow> job_error option \<times> job_store" where
  "AppendJobEvent now v st =
     (if jeJob v = [] \<or> jeTenant v = [] \<or> jeType v = [] then (Some (JobError (plain ''job event job, tenant, and type are required'')), st)
      else (None, st\<lparr>jsEvents := jsEvents st @ [v\<lparr>jeCreatedAt := (if jeCreatedAt v = 0 then now else jeCreatedAt v)\<rparr>]\<rparr>))"

subsection \<open>Leases and dependencies\<close>

text \<open>A lease is taken when it is free, has expired or is the owner's own.\<close>

definition AcquireLease :: "job_faults \<Rightarrow> int \<Rightarrow> string \<Rightarrow> string \<Rightarrow> int \<Rightarrow> job_store \<Rightarrow> (job_error + bool) \<times> job_store" where
  "AcquireLease fails now name owner ttl st =
     (if name = [] \<or> owner = [] then (Inl (JobError (plain ''lease name and owner are required'')), st)
      else if fails AtLease then (Inl (JobStoreFailed ''control_leases''), st)
      else case map_of (jsLeases st) name of
        None \<Rightarrow> (Inr True, st\<lparr>jsLeases := AList.update name \<lparr>leOwner = owner, leExpires = now + ttl\<rparr> (jsLeases st)\<rparr>)
      | Some l \<Rightarrow>
          if leExpires l \<le> now \<or> leOwner l = owner
          then (Inr True, st\<lparr>jsLeases := AList.update name \<lparr>leOwner = owner, leExpires = now + ttl\<rparr> (jsLeases st)\<rparr>)
          else (Inr False, st))"

definition ReleaseLease :: "string \<Rightarrow> string \<Rightarrow> job_store \<Rightarrow> job_store" where
  "ReleaseLease name owner st = st\<lparr>jsLeases := filter (\<lambda>(k, l). \<not> (k = name \<and> leOwner l = owner)) (jsLeases st)\<rparr>"

definition SaveJobDependency :: "int \<Rightarrow> job_dependency \<Rightarrow> job_store \<Rightarrow> job_error option \<times> job_store" where
  "SaveJobDependency now d st =
     (if jpJob d = [] \<or> jpDependsOn d = [] then (Some (JobError (plain ''job dependency ids are required'')), st)
      else (None, st\<lparr>jsDependencies := upsert (\<lambda>old new. old\<lparr>jpStatus := jpStatus new\<rparr>) (jpJob d, jpDependsOn d)
              (d\<lparr>jpCreatedAt := (if jpCreatedAt d = 0 then now else jpCreatedAt d)\<rparr>) (jsDependencies st)\<rparr>))"

definition ListJobDependencies :: "string \<Rightarrow> job_store \<Rightarrow> job_dependency list" where
  "ListJobDependencies i st = sort_key jpDependsOn (filter (\<lambda>d. jpJob d = i) (map snd (jsDependencies st)))"

definition JobDependenciesReady :: "string \<Rightarrow> (string \<Rightarrow> bool) \<Rightarrow> job_store \<Rightarrow> bool \<times> job_dependency list" where
  "JobDependenciesReady i completed st =
     (let ds = ListJobDependencies i st in (list_all (\<lambda>d. jpStatus d = ''completed'' \<or> completed (jpDependsOn d)) ds, ds))"

subsection \<open>The runtime\<close>

record job_runtime =
  rnOwner :: string
  rnLease :: int
  rnMaxAttempts :: int
  rnBackoff :: int
  rnAuthorize :: "(string \<Rightarrow> bool) option"

type_synonym job_handler = "durable_job \<Rightarrow> string option"

definition recordEvent :: "int \<Rightarrow> durable_job \<Rightarrow> string \<Rightarrow> string \<Rightarrow> job_store \<Rightarrow> job_store" where
  "recordEvent now j kind message st =
     snd (AppendJobEvent now \<lparr>jeJob = djID j, jeTenant = djTenant j, jeType = kind, jeMessage = message, jeCreatedAt = 0\<rparr> st)"

definition Submit :: "job_faults \<Rightarrow> int \<Rightarrow> job_runtime \<Rightarrow> durable_job option \<Rightarrow> job_store \<Rightarrow> job_error option \<times> job_store" where
  "Submit fails now r job st =
     (case job of
        None \<Rightarrow> (Some (JobError (plain ''job tenant is required'')), st)
      | Some j \<Rightarrow>
          if djTenant j = [] then (Some (JobError (plain ''job tenant is required'')), st)
          else let j = j\<lparr>djMaxAttempts := (if djMaxAttempts j \<le> 0 then rnMaxAttempts r else djMaxAttempts j)\<rparr> in
            (case CreateJob fails now j st of
               (Some x, st) \<Rightarrow> (Some x, st)
             | (None, st) \<Rightarrow> (None, recordEvent now j ''submitted'' ''job accepted by durable runtime'' st)))"

definition retryDelay :: "job_runtime \<Rightarrow> int \<Rightarrow> int" where
  "retryDelay r attempt =
     (let base = (if rnBackoff r \<le> 0 then seconds 5 else rnBackoff r);
          a = (if attempt < 1 then 1 else if attempt > 8 then 8 else attempt)
      in base * 2 ^ nat (a - 1))"

text \<open>The status of a job and the time of its next attempt after the handler answered.\<close>

definition after_handler :: "int \<Rightarrow> job_runtime \<Rightarrow> durable_job \<Rightarrow> string option \<Rightarrow> string \<times> int \<times> string" where
  "after_handler now r j answer =
     (case answer of
        None \<Rightarrow> (''completed'', now, [])
      | Some x \<Rightarrow> (if djAttempts j \<ge> djMaxAttempts j then ''dead'' else ''retry'', now + retryDelay r (djAttempts j), x))"

text \<open>The claimed jobs one after the other: those that were handed to the handler, and the error that ended the batch.\<close>

fun run_jobs ::
  "job_faults \<Rightarrow> int \<Rightarrow> job_runtime \<Rightarrow> job_handler \<Rightarrow> durable_job list \<Rightarrow> job_store \<Rightarrow> durable_job list \<times> job_error option \<times> job_store" where
  "run_jobs fails now r h [] st = ([], None, st)"
| "run_jobs fails now r h (j # js) st =
     (let st = recordEvent now j ''claimed'' ''worker %s claimed attempt %d'' st in
      if (case rnAuthorize r of None \<Rightarrow> False | Some ok \<Rightarrow> \<not> ok (djTenant j)) then
        run_jobs fails now r h js
          (recordEvent now j ''dead'' ''tenant authorization denied'' (snd (UpdateJob fails now (djID j) ''dead'' now ''tenant authorization denied'' st)))
      else
        (case after_handler now r j (h j) of
           (status, next, err) \<Rightarrow>
             (case UpdateJob fails now (djID j) status next err st of
                (Some x, st) \<Rightarrow> ([j], Some x, st)
              | (None, st) \<Rightarrow>
                  (case run_jobs fails now r h js
                          (recordEvent now j status (case h j of None \<Rightarrow> ''job handler completed successfully'' | Some x \<Rightarrow> x) st) of
                     (handled, x, st) \<Rightarrow> (j # handled, x, st)))))"

definition RunOnce ::
  "job_faults \<Rightarrow> int \<Rightarrow> job_runtime \<Rightarrow> int \<Rightarrow> job_handler option \<Rightarrow> job_store \<Rightarrow> durable_job list \<times> (nat \<times> job_error option) \<times> job_store" where
  "RunOnce fails now r n handler st =
     (if rnOwner r = [] then ([], (0, Some (JobError (plain ''job store and owner are required''))), st)
      else case handler of
        None \<Rightarrow> ([], (0, Some (JobError (plain ''job handler is required''))), st)
      | Some h \<Rightarrow>
          (case ClaimJobs fails now (rnOwner r) n (if rnLease r \<le> 0 then minutes 2 else rnLease r) st of
             (Inl x, st) \<Rightarrow> ([], (0, Some x), st)
           | (Inr js, st) \<Rightarrow> (case run_jobs fails now r h js st of (handled, x, st) \<Rightarrow> (handled, (length js, x), st))))"

text \<open>One tick of a worker that runs under a leader lease: it claims jobs only while it holds the lease.\<close>

definition leader_tick :: "job_faults \<Rightarrow> int \<Rightarrow> job_runtime \<Rightarrow> string \<Rightarrow> int \<Rightarrow> job_store \<Rightarrow> (job_error + bool) \<times> job_store" where
  "leader_tick fails now r lease ttl st =
     (if lease = [] then (Inr True, st) else AcquireLease fails now lease (rnOwner r) (if ttl \<le> 0 then seconds 15 else ttl) st)"

subsection \<open>Workflows and the dashboard\<close>

record workflow_request =
  wrID :: string
  wrTenant :: string
  wrKind :: string
  wrPayload :: string

datatype workflow_error = WorkflowError msg | WorkflowJob job_error | NilJob

text \<open>\<open>fresh\<close> names a workflow without an identifier; \<open>encode\<close> wraps kind and payload.\<close>

definition WorkflowSubmit ::
  "job_faults \<Rightarrow> int \<Rightarrow> job_runtime \<Rightarrow> string \<Rightarrow> (string \<Rightarrow> string \<Rightarrow> string) \<Rightarrow> workflow_request \<Rightarrow> job_store \<Rightarrow> (workflow_error + string) \<times> job_store" where
  "WorkflowSubmit fails now r fresh encode q st =
     (if wrTenant q = [] \<or> wrKind q = [] then (Inl (WorkflowError (plain ''workflow tenant and kind are required'')), st)
      else let i = (if wrID q = [] then fresh else wrID q);
               j = \<lparr>djID = i, djTenant = wrTenant q, djKind = wrKind q, djPayload = encode (wrKind q) (wrPayload q), djStatus = ''queued'',
                    djAttempts = 0, djMaxAttempts = 0, djNext = now, djOwner = [], djLease = None, djError = [], djCreatedAt = now,
                    djUpdatedAt = 0\<rparr>
           in (case Submit fails now r (Some j) st of
                 (Some x, st) \<Rightarrow> (Inl (WorkflowJob x), st)
               | (None, st) \<Rightarrow> (Inr i, st)))"

record workflow_execution =
  weID :: string
  weTenant :: string
  weKind :: string
  weStatus :: string
  weError :: string
  weCreatedAt :: int
  weUpdatedAt :: int

text \<open>A workflow that is not known is a nil job, whose fields are read.\<close>

definition WorkflowGet :: "string \<Rightarrow> job_store \<Rightarrow> workflow_error + workflow_execution" where
  "WorkflowGet i st =
     (case GetJob i st of
        None \<Rightarrow> Inl NilJob
      | Some j \<Rightarrow> Inr \<lparr>weID = djID j, weTenant = djTenant j, weKind = djKind j, weStatus = djStatus j, weError = djError j,
                       weCreatedAt = djCreatedAt j, weUpdatedAt = djUpdatedAt j\<rparr>)"

definition WorkflowCancel :: "job_faults \<Rightarrow> int \<Rightarrow> string \<Rightarrow> string \<Rightarrow> job_store \<Rightarrow> job_error option \<times> job_store" where
  "WorkflowCancel fails now i reason st = UpdateJob fails now i ''cancelled'' now reason st"

datatype http_outcome = HttpOK | HttpError int

text \<open>\<open>retry\<close> or \<open>cancel\<close>, requested in the dashboard by somebody of \<open>tenant\<close>.\<close>

definition job_action :: "job_faults \<Rightarrow> int \<Rightarrow> string \<Rightarrow> string \<Rightarrow> string \<Rightarrow> job_store \<Rightarrow> http_outcome \<times> job_store" where
  "job_action fails now tenant i action st =
     (if action \<notin> {''retry'', ''cancel''} then (HttpError 400, st)
      else case GetJob i st of
        None \<Rightarrow> (HttpError 404, st)
      | Some j \<Rightarrow>
          if djTenant j \<noteq> tenant then (HttpError 404, st)
          else (case (if action = ''retry'' then UpdateJob fails now i ''queued'' now [] st
                      else UpdateJob fails now i ''cancelled'' (djNext j) (djError j) st) of
              (Some _, st) \<Rightarrow> (HttpError 409, st)
            | (None, st) \<Rightarrow> (HttpOK, recordEvent now j action ''job action requested through dashboard'' st)))"

subsection \<open>Webhooks\<close>

definition hex_val :: "char \<Rightarrow> nat option" where
  "hex_val c =
     (let n = of_char c :: nat in
      if 48 \<le> n \<and> n \<le> 57 then Some (n - 48)
      else if 97 \<le> n \<and> n \<le> 102 then Some (n - 87)
      else if 65 \<le> n \<and> n \<le> 70 then Some (n - 55)
      else None)"

fun hexDecode :: "string \<Rightarrow> string option" where
  "hexDecode [] = Some []"
| "hexDecode [c] = None"
| "hexDecode (a # b # cs) =
     (case (hex_val a, hex_val b, hexDecode cs) of
        (Some x, Some y, Some r) \<Rightarrow> Some (char_of (16 * x + y) # r)
      | _ \<Rightarrow> None)"

definition trim_slashes :: "string \<Rightarrow> string" where
  "trim_slashes s = rev (dropWhile (\<lambda>c. c = CHR ''/'') (rev (dropWhile (\<lambda>c. c = CHR ''/'') s)))"

record webhook_request =
  hkMethod :: string
  hkBody :: string
  hkSignature :: string
  hkTenant :: string
  hkPath :: string

text \<open>\<open>mac\<close> is HMAC-SHA256 of a key and a text; \<open>trim\<close> is \<open>strings.TrimSpace\<close>.\<close>

definition verifySignature :: "(string \<Rightarrow> string) \<Rightarrow> (string \<Rightarrow> string \<Rightarrow> string) \<Rightarrow> string \<Rightarrow> string \<Rightarrow> string \<Rightarrow> bool" where
  "verifySignature trim mac body header secret =
     (let header = trim header in
      if \<not> prefix ''sha256='' header then False
      else case hexDecode (drop 7 header) of
        None \<Rightarrow> False
      | Some want \<Rightarrow> length want = 32 \<and> mac secret body = want)"

definition webhook_guard :: "(string \<Rightarrow> string) \<Rightarrow> (string \<Rightarrow> string \<Rightarrow> string) \<Rightarrow> string \<Rightarrow> int \<Rightarrow> webhook_request \<Rightarrow> int + string \<times> string" where
  "webhook_guard trim mac secret maxBody q =
     (if hkMethod q \<noteq> ''POST'' then Inl 405
      else if secret = [] then Inl 404
      else if int (length (hkBody q)) > (if maxBody \<le> 0 then 1048576 else maxBody) then Inl 413
      else if \<not> verifySignature trim mac (hkBody q) (hkSignature q) secret then Inl 401
      else let tenant = trim (hkTenant q); kind = trim_slashes (trim (hkPath q)) in
        if tenant = [] \<or> kind = [] then Inl 400 else Inr (tenant, kind))"

definition webhook ::
  "job_faults \<Rightarrow> int \<Rightarrow> job_runtime \<Rightarrow> (string \<Rightarrow> string) \<Rightarrow> (string \<Rightarrow> string \<Rightarrow> string) \<Rightarrow> (int \<Rightarrow> string) \<Rightarrow> string \<Rightarrow> int
     \<Rightarrow> webhook_request \<Rightarrow> job_store \<Rightarrow> http_outcome \<times> job_store" where
  "webhook fails now r trim mac name secret maxBody q st =
     (case webhook_guard trim mac secret maxBody q of
        Inl code \<Rightarrow> (HttpError code, st)
      | Inr (tenant, kind) \<Rightarrow>
          (case Submit fails now r (Some \<lparr>djID = ''webhook_'' @ name now, djTenant = tenant, djKind = kind, djPayload = hkBody q, djStatus = [],
                    djAttempts = 0, djMaxAttempts = 0, djNext = 0, djOwner = [], djLease = None, djError = [], djCreatedAt = 0,
                    djUpdatedAt = 0\<rparr>) st of
             (Some _, st) \<Rightarrow> (HttpError 500, st)
           | (None, st) \<Rightarrow> (HttpOK, st)))"

end
