(* ===== verification/JobProps.thy ===== *)
theory JobProps
  imports Jobs
begin

text \<open>
  What the job store and the workers guarantee when their steps interleave: a job is in one worker's hands at a
  time and is claimed at most as often as its attempts allow; a workflow submitted through the adapter, or a job
  retried in the dashboard, waits in a status nobody claims; a cancelled job whose handler is still running comes
  back; and one owner at a time holds a lease.
\<close>

subsection \<open>Rows\<close>

definition job_rows_ok :: "job_store \<Rightarrow> bool" where
  "job_rows_ok st \<longleftrightarrow> distinct (map fst (jsJobs st)) \<and> (\<forall>i j. GetJob i st = Some j \<longrightarrow> djID j = i)"

lemma rowD: "job_rows_ok st \<Longrightarrow> GetJob i st = Some j \<Longrightarrow> djID j = i"
  by (simp add: job_rows_ok_def)

lemma rows_in:
  assumes "job_rows_ok st"
  shows "j \<in> set (map snd (jsJobs st)) \<longleftrightarrow> GetJob (djID j) st = Some j"
proof
  assume "j \<in> set (map snd (jsJobs st))"
  then obtain i where "(i, j) \<in> set (jsJobs st)" by auto
  then have "GetJob i st = Some j" using assms by (simp add: job_rows_ok_def GetJob_def)
  then show "GetJob (djID j) st = Some j" using rowD [OF assms] by blast
next
  assume "GetJob (djID j) st = Some j"
  then have "(djID j, j) \<in> set (jsJobs st)" by (simp add: GetJob_def map_of_SomeD)
  then show "j \<in> set (map snd (jsJobs st))" by force
qed

lemma map_of_claimed:
  "distinct ids \<Longrightarrow> map_of (fold (\<lambda>i. update_row i f) ids rows) i = (if i \<in> set ids then map_option f (map_of rows i) else map_of rows i)"
  by (induction ids arbitrary: rows) (auto simp: map_of_update_row)

lemma keys_claimed: "map fst (fold (\<lambda>i. update_row i f) ids rows) = map fst rows"
  by (induction ids arbitrary: rows) simp_all

lemma due_ids:
  assumes "job_rows_ok st"
  shows "distinct (map djID (take n (due_jobs now st)))"
    "i \<in> set (map djID (take n (due_jobs now st))) \<Longrightarrow> \<exists>j. GetJob i st = Some j \<and> claimable now j"
proof -
  have "djID (snd r) = fst r" if "r \<in> set (jsJobs st)" for r
  proof -
    have "GetJob (fst r) st = Some (snd r)"
      unfolding GetJob_def by (rule map_of_is_SomeI) (use that assms in \<open>simp_all add: job_rows_ok_def\<close>)
    then show ?thesis by (rule rowD [OF assms])
  qed
  then have "map djID (map snd (jsJobs st)) = map fst (jsJobs st)" by simp
  then have "distinct (map djID (filter (claimable now) (map snd (jsJobs st))))"
    using assms by (metis distinct_map_filter job_rows_ok_def)
  then have "distinct (map djID (due_jobs now st))"
    by (simp add: due_jobs_def distinct_map distinct_sort inj_on_def)
  then show "distinct (map djID (take n (due_jobs now st)))"
    by (metis distinct_take take_map)
  show "\<exists>j. GetJob i st = Some j \<and> claimable now j" if "i \<in> set (map djID (take n (due_jobs now st)))"
  proof -
    obtain j where "j \<in> set (due_jobs now st)" "djID j = i" using \<open>i \<in> _\<close> by (auto dest: in_set_takeD)
    then show ?thesis using rows_in [OF assms, of j] by (auto simp: due_jobs_def)
  qed
qed

subsection \<open>The operations on one row\<close>

lemma new_job_simps [simp]:
  "djID (new_job now j) = djID j" "djAttempts (new_job now j) = djAttempts j"
  "djStatus (new_job now j) = (if djStatus j = [] then ''pending'' else djStatus j)"
  by (simp_all add: new_job_def Let_def)

lemma CreateJob_cases:
  assumes "CreateJob fails now j st = (x, st')"
  obtains (kept) "x \<noteq> None" "st' = st"
  | (stored) "x = None" "GetJob (djID j) st = None" "st' = st\<lparr>jsJobs := jsJobs st @ [(djID j, new_job now j)]\<rparr>"
proof (cases "x = None")
  case True
  then show ?thesis using assms stored by (simp add: CreateJob_def GetJob_def split: if_splits)
next
  case False
  then show ?thesis using assms kept by (simp add: CreateJob_def split: if_splits)
qed

lemma CreateJob_rows:
  assumes "CreateJob fails now j st = (x, st')" and "job_rows_ok st"
  shows "job_rows_ok st'" and "GetJob i st = Some k \<Longrightarrow> GetJob i st' = Some k"
proof -
  show "job_rows_ok st'"
    using assms(1)
  proof (cases rule: CreateJob_cases)
    case stored
    have rows: "GetJob i st' = (case GetJob i st of None \<Rightarrow> if i = djID j then Some (new_job now j) else None | Some y \<Rightarrow> Some y)" for i
      by (simp add: stored(3) GetJob_def map_add_def split: option.splits)
    have "djID j \<notin> fst ` set (jsJobs st)" using stored(2) by (simp add: GetJob_def map_of_eq_None_iff)
    moreover have "djID y = i" if "GetJob i st' = Some y" for i y
      using that rowD [OF assms(2)] unfolding rows by (auto split: option.splits if_splits)
    ultimately show ?thesis using assms(2) by (simp add: job_rows_ok_def stored(3))
  next
    case kept
    then show ?thesis using assms(2) by simp
  qed
  show "GetJob i st' = Some k" if "GetJob i st = Some k"
    using assms(1) by (cases rule: CreateJob_cases) (use that in \<open>simp_all add: GetJob_def map_add_Some_iff\<close>)
qed

lemma UpdateJob_rows:
  assumes "UpdateJob fails now i status next err st = (x, st')" and "job_rows_ok st"
  shows "job_rows_ok st'"
    "GetJob k st' = (if x = None \<and> k = i then map_option (\<lambda>j. j\<lparr>djStatus := status, djNext := next, djOwner := [], djLease := None,
        djError := err, djUpdatedAt := now\<rparr>) (GetJob i st) else GetJob k st)"
  using assms by (auto simp: UpdateJob_def job_rows_ok_def GetJob_def map_of_update_row split: if_splits option.splits)

lemma recordEvent_jobs [simp]: "jsJobs (recordEvent now j kind m st) = jsJobs st"
  by (simp add: recordEvent_def AppendJobEvent_def)

lemma recordEvent_rows [simp]: "job_rows_ok (recordEvent now j kind m st) = job_rows_ok st" "GetJob i (recordEvent now j kind m st) = GetJob i st"
  by (simp_all add: job_rows_ok_def GetJob_def)

lemma claim_job_id [simp]: "djID (claim_job now owner l j) = djID j"
  by (simp add: claim_job_def)

lemma ClaimJobs_cases:
  assumes "ClaimJobs fails now owner n lease st = (r, st')" and "job_rows_ok st"
  obtains (refused) "isl r" "st' = st"
  | (claimed) l ids where "distinct ids" "\<And>i. i \<in> set ids \<Longrightarrow> \<exists>j. GetJob i st = Some j \<and> claimable now j"
      "job_rows_ok st'" "\<And>i. GetJob i st' = (if i \<in> set ids then map_option (claim_job now owner l) (GetJob i st) else GetJob i st)"
      "\<And>js. r = Inr js \<Longrightarrow> js = map (\<lambda>i. the (GetJob i st')) ids"
proof (cases "owner = [] \<or> fails AtClaim")
  case True
  then show ?thesis using assms(1) refused by (auto simp: ClaimJobs_def split: if_splits)
next
  case False
  define ids where "ids = map djID (take (job_limit n) (due_jobs now st))"
  define l where "l = (if lease \<le> 0 then minutes 1 else lease)"
  note d = due_ids [OF assms(2), where n = "job_limit n" and now = now, folded ids_def]
  have st': "st' = st\<lparr>jsJobs := fold (\<lambda>i. update_row i (claim_job now owner l)) ids (jsJobs st)\<rparr>"
    using assms(1) False by (auto simp: ClaimJobs_def Let_def l_def ids_def split: if_splits)
  have rows: "GetJob i st' = (if i \<in> set ids then map_option (claim_job now owner l) (GetJob i st) else GetJob i st)" for i
    by (simp add: st' GetJob_def map_of_claimed [OF d(1)])
  have "map fst (jsJobs st') = map fst (jsJobs st)" by (simp add: st' keys_claimed)
  moreover have "djID j = i" if "GetJob i st' = Some j" for i j
    using that rowD [OF assms(2)] by (auto simp: rows split: if_splits)
  ultimately have ok: "job_rows_ok st'" using assms(2) by (simp add: job_rows_ok_def)
  have known: "\<exists>j. GetJob i st' = Some j" if "i \<in> set ids" for i
    using d(2) [OF that] that by (auto simp: rows)
  have "List.map_filter (\<lambda>i. GetJob i st') xs = map (\<lambda>i. the (GetJob i st')) xs" if "set xs \<subseteq> set ids" for xs
    using that known by (induction xs) (fastforce simp: map_filter_simps)+
  then have "js = map (\<lambda>i. the (GetJob i st')) ids" if "r = Inr js" for js
    using assms(1) False that st' by (auto simp: ClaimJobs_def Let_def l_def ids_def split: if_splits)
  then show ?thesis using claimed [OF d ok rows] by blast
qed

lemma ClaimJobs_rows:
  assumes "ClaimJobs fails now owner n lease st = (r, st')" and "job_rows_ok st"
  shows "job_rows_ok st' \<and> (r = Inr js \<longrightarrow> distinct (map djID js)) \<and>
     (GetJob i st' = GetJob i st \<and> (\<forall>js. r = Inr js \<longrightarrow> i \<notin> set (map djID js))
     \<or> (\<exists>j l. GetJob i st = Some j \<and> claimable now j \<and> GetJob i st' = Some (claim_job now owner l j)
        \<and> (\<forall>js. r = Inr js \<longrightarrow> {k \<in> set js. djID k = i} = {claim_job now owner l j})))"
  using assms
proof (cases rule: ClaimJobs_cases)
  case refused
  then show ?thesis
    using assms(2) by auto
next
  case (claimed l ids)
  have id: "djID (the (GetJob k st')) = k" if "k \<in> set ids" for k
    using claimed(2) [OF that] claimed(4) that rowD [OF assms(2)] by auto
  have ids: "map djID js = ids" if "r = Inr js" for js
    using claimed(5) [OF that] id by (simp add: map_idI)
  have one: "{k \<in> set js. djID k = i} = {the (GetJob i st')}" if "r = Inr js" "i \<in> set ids" for js
    using claimed(5) [OF that(1)] id that(2) by auto
  show ?thesis
  proof (cases "i \<in> set ids")
    case True
    obtain j where j: "GetJob i st = Some j" "claimable now j" using claimed(2) [OF True] by blast
    then show ?thesis using claimed(1,3,4) ids one [OF _ True] True by auto
  next
    case False
    then show ?thesis using claimed(1,3,4) ids by auto
  qed
qed

subsection \<open>Workers that interleave\<close>

text \<open>A worker claims, and later settles a job it claimed; in between anything else may happen. Every step has its own time and
  its own failures of the database.\<close>

datatype work_event =
    StepSubmit job_runtime "durable_job option"
  | StepClaim job_runtime int
  | StepSettle job_runtime job_handler durable_job
  | StepAction string string string
  | StepCancel string string
  | StepLease string string int
  | StepRelease string string

record work_state =
  wkStore :: job_store
  wkHeld :: "durable_job list"

definition effective_lease :: "job_runtime \<Rightarrow> int" where
  "effective_lease r = (if rnLease r \<le> 0 then minutes 2 else rnLease r)"

fun work_step :: "job_faults \<times> int \<times> work_event \<Rightarrow> work_state \<Rightarrow> work_state" where
  "work_step (fails, now, StepSubmit r j) w = w\<lparr>wkStore := snd (Submit fails now r j (wkStore w))\<rparr>"
| "work_step (fails, now, StepClaim r n) w =
     (case ClaimJobs fails now (rnOwner r) n (effective_lease r) (wkStore w) of
        (Inl _, st) \<Rightarrow> w\<lparr>wkStore := st\<rparr>
      | (Inr js, st) \<Rightarrow> w\<lparr>wkStore := st, wkHeld := wkHeld w @ js\<rparr>)"
| "work_step (fails, now, StepSettle r h j) w =
     (if j \<in> set (wkHeld w)
      then w\<lparr>wkStore := snd (snd (run_jobs fails now r h [j] (wkStore w))), wkHeld := remove1 j (wkHeld w)\<rparr>
      else w)"
| "work_step (fails, now, StepAction tenant i action) w = w\<lparr>wkStore := snd (job_action fails now tenant i action (wkStore w))\<rparr>"
| "work_step (fails, now, StepCancel i reason) w = w\<lparr>wkStore := snd (WorkflowCancel fails now i reason (wkStore w))\<rparr>"
| "work_step (fails, now, StepLease name owner ttl) w = w\<lparr>wkStore := snd (AcquireLease fails now name owner ttl (wkStore w))\<rparr>"
| "work_step (fails, now, StepRelease name owner) w = w\<lparr>wkStore := ReleaseLease name owner (wkStore w)\<rparr>"

definition waits :: "durable_job \<Rightarrow> bool" where
  "waits j \<longleftrightarrow> djStatus j \<in> {''pending'', ''retry''}"

text \<open>The jobs in hands are distinct, and the row of each shows its attempt and does not wait.\<close>

definition work_inv :: "work_state \<Rightarrow> bool" where
  "work_inv w \<longleftrightarrow> job_rows_ok (wkStore w) \<and> distinct (map djID (wkHeld w))
     \<and> (\<forall>j\<in>set (wkHeld w). \<exists>k. GetJob (djID j) (wkStore w) = Some k \<and> \<not> waits k
          \<and> djAttempts k = djAttempts j \<and> djMaxAttempts k = djMaxAttempts j)"

definition in_hands :: "string \<Rightarrow> work_state \<Rightarrow> bool" where
  "in_hands i w \<longleftrightarrow> i \<in> djID ` set (wkHeld w)"

text \<open>What a step does to the row of a job that is in the store, and to whether it is in hands.\<close>

inductive row_step :: "durable_job \<Rightarrow> bool \<Rightarrow> durable_job \<Rightarrow> bool \<Rightarrow> bool" where
  same: "row_step k b k b"
| claim: "waits k \<Longrightarrow> \<not> waits k' \<Longrightarrow> djAttempts k' = djAttempts k + 1 \<Longrightarrow> djMaxAttempts k' = djMaxAttempts k \<Longrightarrow> row_step k False k' c"
| stop: "\<not> waits k' \<Longrightarrow> djAttempts k' = djAttempts k \<Longrightarrow> djMaxAttempts k' = djMaxAttempts k \<Longrightarrow> (c \<longrightarrow> b) \<Longrightarrow> row_step k b k' c"
| again: "djAttempts k < djMaxAttempts k \<Longrightarrow> djAttempts k' = djAttempts k \<Longrightarrow> djMaxAttempts k' = djMaxAttempts k
    \<Longrightarrow> row_step k True k' False"

inductive_cases row_stepE: "row_step k b k' c"

lemma Submit_rows:
  assumes "job_rows_ok st"
  shows "job_rows_ok (snd (Submit fails now r j st))" "GetJob i st = Some k \<Longrightarrow> GetJob i (snd (Submit fails now r j st)) = Some k"
  using assms
  by (auto simp: Submit_def Let_def split: option.splits prod.splits dest: CreateJob_rows(1) CreateJob_rows(2) [rotated 2])

text \<open>An update of a row that keeps its attempts and does not make it wait, unless its handler failed with attempts left.\<close>

definition settled_row :: "durable_job \<Rightarrow> durable_job \<Rightarrow> bool \<Rightarrow> bool" where
  "settled_row k k' again \<longleftrightarrow> djAttempts k' = djAttempts k \<and> djMaxAttempts k' = djMaxAttempts k \<and> (waits k' \<longrightarrow> again)"

lemma after_handler_waits:
  "after_handler now r j answer = (status, due, err) \<Longrightarrow> status \<in> {''pending'', ''retry''} \<Longrightarrow> djAttempts j < djMaxAttempts j"
  by (auto simp: after_handler_def split: option.splits if_splits)

lemma run_job_rows:
  assumes "run_jobs fails now r h [j] st = (handled, x, st')" and "job_rows_ok st"
  shows "job_rows_ok st'" and "i \<noteq> djID j \<Longrightarrow> GetJob i st' = GetJob i st"
    and "GetJob (djID j) st = Some k \<Longrightarrow> \<exists>k'. GetJob (djID j) st' = Some k' \<and> (k' = k \<or> settled_row k k' (djAttempts j < djMaxAttempts j))"
proof -
  let ?st = "recordEvent now j ''claimed'' ''worker %s claimed attempt %d'' st"
  obtain status due err x' st1 where u: "UpdateJob fails now (djID j) status due err ?st = (x', st1)"
    and w: "status \<in> {''pending'', ''retry''} \<longrightarrow> djAttempts j < djMaxAttempts j"
    and st': "jsJobs st' = jsJobs st1"
  proof (cases "(case rnAuthorize r of None \<Rightarrow> False | Some ok \<Rightarrow> \<not> ok (djTenant j))")
    case True
    obtain y st1 where b: "UpdateJob fails now (djID j) ''dead'' now ''tenant authorization denied'' ?st = (y, st1)" by fastforce
    show ?thesis using assms(1) True that [OF b] b by (auto simp: Let_def)
  next
    case False
    obtain status due err where a: "after_handler now r j (h j) = (status, due, err)" by (metis prod.exhaust)
    obtain y st1 where b: "UpdateJob fails now (djID j) status due err ?st = (y, st1)" by fastforce
    show ?thesis
      using assms(1) False a b that [OF b] after_handler_waits [OF a] by (auto simp: Let_def split: option.splits)
  qed
  have ok: "job_rows_ok ?st" using assms(2) by simp
  note rows = UpdateJob_rows [OF u ok]
  have g: "GetJob i st' = GetJob i st1" for i using st' by (simp add: GetJob_def)
  show "job_rows_ok st'" using rows(1) st' g by (simp add: job_rows_ok_def)
  show "GetJob i st' = GetJob i st" if "i \<noteq> djID j" using that rows(2) by (simp add: g)
  show "\<exists>k'. GetJob (djID j) st' = Some k' \<and> (k' = k \<or> settled_row k k' (djAttempts j < djMaxAttempts j))"
    if "GetJob (djID j) st = Some k"
    using that rows(2) w by (auto simp: g settled_row_def waits_def)
qed

lemma same_rows: "jsJobs st' = jsJobs st \<Longrightarrow> job_rows_ok st' = job_rows_ok st \<and> (\<forall>i. GetJob i st' = GetJob i st)"
  by (simp add: job_rows_ok_def GetJob_def)

lemma update_rows:
  assumes "UpdateJob fails now i status due err st = (x, st')" and "job_rows_ok st" and "status \<notin> {''pending'', ''retry''}"
  shows "job_rows_ok st' \<and> (GetJob n st = Some k \<longrightarrow> (\<exists>k'. GetJob n st' = Some k' \<and> (k' = k \<or> settled_row k k' False)))"
  using UpdateJob_rows [OF assms(1,2)] assms(3) by (auto simp: settled_row_def waits_def)

lemma job_action_rows:
  assumes "job_rows_ok st"
  shows "job_rows_ok (snd (job_action fails now tenant i action st))
    \<and> (GetJob n st = Some k \<longrightarrow> (\<exists>k'. GetJob n (snd (job_action fails now tenant i action st)) = Some k' \<and> (k' = k \<or> settled_row k k' False)))"
proof -
  have up: ?thesis if u: "UpdateJob fails now i status due err st = (x, st1)" "status \<notin> {''pending'', ''retry''}"
    and "jsJobs (snd (job_action fails now tenant i action st)) = jsJobs st1" for status due err x st1
    using update_rows [OF u(1) assms u(2), of n k] same_rows [OF that(3)] by simp
  show ?thesis
  proof (cases "action \<notin> {''retry'', ''cancel''} \<or> GetJob i st = None \<or> (\<exists>j. GetJob i st = Some j \<and> djTenant j \<noteq> tenant)")
    case True
    then have "snd (job_action fails now tenant i action st) = st" by (auto simp: job_action_def)
    then show ?thesis using assms by auto
  next
    case False
    then obtain j where j: "GetJob i st = Some j" "djTenant j = tenant" by auto
    define status where "status = (if action = ''retry'' then ''queued'' else ''cancelled'')"
    define due where "due = (if action = ''retry'' then now else djNext j)"
    define err where "err = (if action = ''retry'' then [] else djError j)"
    obtain x st1 where u: "UpdateJob fails now i status due err st = (x, st1)" by fastforce
    have "job_action fails now tenant i action st
      = (case x of Some _ \<Rightarrow> (HttpError 409, st1) | None \<Rightarrow> (HttpOK, recordEvent now j action ''job action requested through dashboard'' st1))"
      using False j u by (auto simp: job_action_def status_def due_def err_def split: if_splits)
    then show ?thesis by (intro up [OF u]) (auto simp: status_def split: option.splits)
  qed
qed

text \<open>The steps keep the invariant, and treat every row as \<open>row_step\<close> says.\<close>

definition claims_in :: "string \<Rightarrow> job_faults \<times> int \<times> work_event \<Rightarrow> work_state \<Rightarrow> durable_job list" where
  "claims_in i v w = filter (\<lambda>j. djID j = i)
     (case v of
        (fails, now, StepClaim r n) \<Rightarrow>
          (case fst (ClaimJobs fails now (rnOwner r) n (effective_lease r) (wkStore w)) of Inl _ \<Rightarrow> [] | Inr js \<Rightarrow> js)
      | _ \<Rightarrow> [])"

definition steps_ok :: "work_state \<Rightarrow> work_state \<Rightarrow> bool" where
  "steps_ok w w' \<longleftrightarrow> work_inv w' \<and> (\<forall>i k. GetJob i (wkStore w) = Some k \<longrightarrow>
     (\<exists>k'. GetJob i (wkStore w') = Some k' \<and> row_step k (in_hands i w) k' (in_hands i w')))"

lemma heldD:
  assumes "work_inv w" and "j \<in> set (wkHeld w)"
  obtains k where "GetJob (djID j) (wkStore w) = Some k" "\<not> waits k" "djAttempts k = djAttempts j" "djMaxAttempts k = djMaxAttempts j"
  using assms unfolding work_inv_def by blast

lemma steps_ok_store:
  assumes "work_inv w" and "job_rows_ok st"
    and "\<And>i k. GetJob i (wkStore w) = Some k \<Longrightarrow> \<exists>k'. GetJob i st = Some k' \<and> (k' = k \<or> settled_row k k' False)"
  shows "steps_ok w (w\<lparr>wkStore := st\<rparr>)"
proof -
  have "\<exists>k. GetJob (djID j) st = Some k \<and> \<not> waits k \<and> djAttempts k = djAttempts j \<and> djMaxAttempts k = djMaxAttempts j"
    if "j \<in> set (wkHeld w)" for j
  proof -
    obtain k where "GetJob (djID j) (wkStore w) = Some k" "\<not> waits k" "djAttempts k = djAttempts j" "djMaxAttempts k = djMaxAttempts j"
      by (rule heldD [OF assms(1) \<open>j \<in> set (wkHeld w)\<close>])
    then show ?thesis using assms(3) [of "djID j" k] by (auto simp: settled_row_def)
  qed
  moreover have "\<exists>k'. GetJob i st = Some k' \<and> row_step k b k' b" if "GetJob i (wkStore w) = Some k" for i k b
    using assms(3) [OF that] by (auto simp: settled_row_def intro: row_step.intros)
  ultimately show ?thesis using assms(1,2) by (simp add: steps_ok_def work_inv_def in_hands_def)
qed

lemma same_steps_ok:
  assumes "work_inv w" and "jsJobs st = jsJobs (wkStore w)"
  shows "steps_ok w (w\<lparr>wkStore := st\<rparr>)"
proof -
  have "job_rows_ok (wkStore w)" using assms(1) by (simp add: work_inv_def)
  then show ?thesis using same_rows [OF assms(2)] by (intro steps_ok_store [OF assms(1)]) simp_all
qed

lemma claim_steps_ok:
  assumes "work_inv w" and "ClaimJobs fails now owner n l (wkStore w) = (r, st)"
  shows "steps_ok w (case r of Inl _ \<Rightarrow> w\<lparr>wkStore := st\<rparr> | Inr js \<Rightarrow> w\<lparr>wkStore := st, wkHeld := wkHeld w @ js\<rparr>)"
proof -
  let ?w = "case r of Inl _ \<Rightarrow> w\<lparr>wkStore := st\<rparr> | Inr js \<Rightarrow> w\<lparr>wkStore := st, wkHeld := wkHeld w @ js\<rparr>"
  have rows: "job_rows_ok (wkStore w)" using assms(1) by (simp add: work_inv_def)
  have ok: "job_rows_ok st" using ClaimJobs_rows [OF assms(2) rows] by blast
  have dist: "distinct (map djID js)" if "r = Inr js" for js using ClaimJobs_rows [OF assms(2) rows, of js] that by blast
  have c: "GetJob i st = GetJob i (wkStore w) \<and> (\<forall>js. r = Inr js \<longrightarrow> i \<notin> set (map djID js))
     \<or> (\<exists>j l. GetJob i (wkStore w) = Some j \<and> claimable now j \<and> GetJob i st = Some (claim_job now owner l j)
        \<and> (\<forall>js. r = Inr js \<longrightarrow> {k \<in> set js. djID k = i} = {claim_job now owner l j}))" for i
    using ClaimJobs_rows [OF assms(2) rows, of undefined i] by blast
  have ws: "wkStore ?w = st" by (simp split: sum.split)
  have held: "wkHeld ?w = wkHeld w @ (case r of Inl _ \<Rightarrow> [] | Inr js \<Rightarrow> js)" by (simp split: sum.split)
  have idle: "\<not> in_hands i w" if "GetJob i (wkStore w) = Some k" "waits k" for i k
    using that by (auto simp: in_hands_def elim: heldD [OF assms(1)])
  have w_claim: "\<not> waits (claim_job now owner m j)" "claimable now j \<Longrightarrow> waits j" for m j
    by (simp_all add: waits_def claim_job_def claimable_def)
  have step: "\<exists>k'. GetJob i st = Some k' \<and> row_step k (in_hands i w) k' (in_hands i ?w)" if "GetJob i (wkStore w) = Some k" for i k
  proof (cases "GetJob i st = GetJob i (wkStore w) \<and> (\<forall>js. r = Inr js \<longrightarrow> i \<notin> set (map djID js))")
    case True
    then have "in_hands i ?w = in_hands i w" by (auto simp: in_hands_def held split: sum.splits)
    then show ?thesis using True that row_step.same by auto
  next
    case False
    then obtain m where m: "claimable now k" "GetJob i st = Some (claim_job now owner m k)"
      using c [of i] \<open>GetJob i (wkStore w) = Some k\<close> by auto
    then show ?thesis using idle [OF that] w_claim by (auto intro!: row_step.claim simp: claim_job_def)
  qed
  have new: "\<exists>k m. GetJob (djID j) (wkStore w) = Some k \<and> claimable now k \<and> j = claim_job now owner m k \<and> GetJob (djID j) st = Some j"
    if "r = Inr js" "j \<in> set js" for js j
  proof -
    have "\<not> (\<forall>js. r = Inr js \<longrightarrow> djID j \<notin> set (map djID js))" using that by auto
    then obtain k m where k: "GetJob (djID j) (wkStore w) = Some k" "claimable now k" "GetJob (djID j) st = Some (claim_job now owner m k)"
      "\<forall>js. r = Inr js \<longrightarrow> {x \<in> set js. djID x = djID j} = {claim_job now owner m k}"
      using c [of "djID j"] by blast
    have "j \<in> {claim_job now owner m k}" using k(4) that by blast
    then show ?thesis using k(1-3) by auto
  qed
  have "distinct (map djID (wkHeld ?w))"
  proof (cases r)
    case (Inl x)
    then show ?thesis using assms(1) by (simp add: work_inv_def)
  next
    case (Inr js)
    have "\<not> in_hands (djID j) w" if "j \<in> set js" for j
      using new [OF Inr that] idle w_claim(2) by blast
    then have "\<forall>j\<in>set js. \<forall>x\<in>set (wkHeld w). djID x \<noteq> djID j" by (metis in_hands_def image_eqI)
    then have "set (map djID (wkHeld w)) \<inter> set (map djID js) = {}" by auto
    then show ?thesis using assms(1) dist [OF Inr] Inr by (simp add: work_inv_def)
  qed
  moreover have "\<exists>k. GetJob (djID j) st = Some k \<and> \<not> waits k \<and> djAttempts k = djAttempts j \<and> djMaxAttempts k = djMaxAttempts j"
    if "j \<in> set (wkHeld ?w)" for j
  proof (cases "j \<in> set (wkHeld w)")
    case True
    then obtain k where k: "GetJob (djID j) (wkStore w) = Some k" "\<not> waits k" "djAttempts k = djAttempts j" "djMaxAttempts k = djMaxAttempts j"
      by (rule heldD [OF assms(1)])
    then have "GetJob (djID j) st = Some k" using c [of "djID j"] w_claim(2) by auto
    then show ?thesis using k by blast
  next
    case False
    then obtain js where js: "r = Inr js" "j \<in> set js" using \<open>j \<in> set (wkHeld ?w)\<close> held by (auto split: sum.splits)
    then show ?thesis using new [OF js] w_claim(1) by metis
  qed
  ultimately have "work_inv ?w" using ok by (simp add: work_inv_def ws)
  then show ?thesis using step ws by (simp add: steps_ok_def)
qed

lemma settle_steps_ok:
  assumes "work_inv w" and "j \<in> set (wkHeld w)" and "run_jobs fails now r h [j] (wkStore w) = (handled, x, st)"
  shows "steps_ok w (w\<lparr>wkStore := st, wkHeld := remove1 j (wkHeld w)\<rparr>)"
proof -
  let ?w = "w\<lparr>wkStore := st, wkHeld := remove1 j (wkHeld w)\<rparr>"
  have rows: "job_rows_ok (wkStore w)" and dist: "distinct (map djID (wkHeld w))" using assms(1) by (simp_all add: work_inv_def)
  note s = run_job_rows [OF assms(3) rows]
  obtain k where k: "GetJob (djID j) (wkStore w) = Some k" "\<not> waits k" "djAttempts k = djAttempts j" "djMaxAttempts k = djMaxAttempts j"
    by (rule heldD [OF assms(1,2)])
  have inj: "inj_on djID (set (wkHeld w))" and "distinct (wkHeld w)" using dist by (simp_all add: distinct_map)
  then have left: "set (remove1 j (wkHeld w)) = set (wkHeld w) - {j}" by simp
  have others: "i \<in> set (wkHeld w) \<and> djID i \<noteq> djID j" if "i \<in> set (remove1 j (wkHeld w))" for i
    using that assms(2) inj_onD [OF inj, of i j] by (auto simp: left)
  have hands: "in_hands i ?w \<longleftrightarrow> in_hands i w \<and> i \<noteq> djID j" for i
    using others by (auto simp: in_hands_def left)
  have "row_step y (in_hands i w) y' (in_hands i ?w)"
    if "GetJob i (wkStore w) = Some y" "y' = (if i = djID j then the (GetJob (djID j) st) else y)" for i y y'
  proof (cases "i = djID j")
    case True
    obtain k' where k': "GetJob (djID j) st = Some k'" "k' = k \<or> settled_row k k' (djAttempts j < djMaxAttempts j)" using s(3) [OF k(1)] by blast
    have y: "y = k" "y' = k'" using that True k(1) k'(1) by auto
    have h: "in_hands i w" "\<not> in_hands i ?w" using True assms(2) hands by (auto simp: in_hands_def)
    show ?thesis
    proof (cases "waits k'")
      case True
      then show ?thesis using k'(2) k h y by (auto simp: settled_row_def intro: row_step.again)
    next
      case False
      then show ?thesis using k'(2) k h y by (auto simp: settled_row_def intro: row_step.stop)
    qed
  next
    case False
    then show ?thesis using that hands row_step.same by simp
  qed
  moreover have "GetJob i st = Some (if i = djID j then the (GetJob (djID j) st) else y)" if "GetJob i (wkStore w) = Some y" for i y
    using that s(2) s(3) [OF k(1)] by auto
  moreover have "work_inv ?w"
  proof -
    have "\<exists>k. GetJob (djID i) st = Some k \<and> \<not> waits k \<and> djAttempts k = djAttempts i \<and> djMaxAttempts k = djMaxAttempts i"
      if "i \<in> set (remove1 j (wkHeld w))" for i
      using others [OF that] s(2) by (auto elim: heldD [OF assms(1)])
    moreover have "distinct (map djID (remove1 j (wkHeld w)))"
      using dist by (metis distinct_map distinct_remove1 inj_on_subset set_remove1_subset)
    ultimately show ?thesis using s(1) by (simp add: work_inv_def)
  qed
  ultimately show ?thesis by (simp add: steps_ok_def)
qed

lemma work_step_ok:
  assumes "work_inv w"
  shows "steps_ok w (work_step v w)"
proof -
  have rows: "job_rows_ok (wkStore w)" using assms by (simp add: work_inv_def)
  obtain fails now e where v: "v = (fails, now, e)" by (cases v)
  show ?thesis
  proof (cases e)
    case (StepSubmit r j)
    then show ?thesis using Submit_rows [OF rows] v by (auto intro!: steps_ok_store [OF assms])
  next
    case (StepClaim r n)
    obtain x st where "ClaimJobs fails now (rnOwner r) n (effective_lease r) (wkStore w) = (x, st)" by fastforce
    then show ?thesis using claim_steps_ok [OF assms] v StepClaim by (auto split: sum.split)
  next
    case (StepSettle r h j)
    have "steps_ok w w" using steps_ok_store [OF assms rows] by simp
    moreover obtain handled x st where "run_jobs fails now r h [j] (wkStore w) = (handled, x, st)" by (metis prod.exhaust)
    ultimately show ?thesis using settle_steps_ok [OF assms] v StepSettle by simp
  next
    case (StepAction tenant i action)
    then show ?thesis using job_action_rows [OF rows] v by (auto intro!: steps_ok_store [OF assms])
  next
    case (StepCancel i reason)
    obtain x st where u: "UpdateJob fails now i ''cancelled'' now reason (wkStore w) = (x, st)" by fastforce
    have "steps_ok w (w\<lparr>wkStore := st\<rparr>)"
      using update_rows [OF u rows] by (intro steps_ok_store [OF assms]) simp_all
    then show ?thesis using v StepCancel u by (simp add: WorkflowCancel_def)
  next
    case (StepLease name owner ttl)
    have "jsJobs (snd (AcquireLease fails now name owner ttl (wkStore w))) = jsJobs (wkStore w)"
      by (simp add: AcquireLease_def split: option.split)
    then show ?thesis using same_steps_ok [OF assms] v StepLease by simp
  next
    case (StepRelease name owner)
    have "jsJobs (ReleaseLease name owner (wkStore w)) = jsJobs (wkStore w)" by (simp add: ReleaseLease_def)
    then show ?thesis using same_steps_ok [OF assms] v StepRelease by simp
  qed
qed

interpretation work: state_machine work_step work_inv
  by unfold_locales (use work_step_ok in \<open>simp add: steps_ok_def\<close>)

subsection \<open>One pair of hands, and a bounded number of claims\<close>

definition work_run :: "(job_faults \<times> int \<times> work_event) list \<Rightarrow> work_state \<Rightarrow> work_state" where
  "work_run vs w = fold work_step vs w"

fun claims_of :: "string \<Rightarrow> (job_faults \<times> int \<times> work_event) list \<Rightarrow> work_state \<Rightarrow> nat" where
  "claims_of i [] w = 0"
| "claims_of i (v # vs) w = length (claims_in i v w) + claims_of i vs (work_step v w)"

text \<open>What is left of the attempts of a job.\<close>

definition attempts_left :: "durable_job \<Rightarrow> bool \<Rightarrow> int" where
  "attempts_left k held =
     (if waits k then max 1 (djMaxAttempts k - djAttempts k) else if held then max 0 (djMaxAttempts k - djAttempts k) else 0)"

lemma row_step_attempts: "row_step k b k' c \<Longrightarrow> attempts_left k' c \<le> attempts_left k b"
  by (erule row_stepE) (auto simp: attempts_left_def)

lemma distinct_filter_one: "distinct (map f xs) \<Longrightarrow> i \<in> set (map f xs) \<Longrightarrow> length (filter (\<lambda>x. f x = i) xs) = 1"
proof (induction xs)
  case (Cons x xs)
  show ?case
  proof (cases "f x = i")
    case True
    then have "\<forall>y\<in>set xs. f y \<noteq> i" using Cons.prems(1) by (metis distinct.simps(2) image_eqI list.simps(9) set_map)
    then have "filter (\<lambda>y. f y = i) xs = []" by (simp add: filter_empty_conv)
    then show ?thesis using True by simp
  next
    case False
    then show ?thesis using Cons by auto
  qed
qed simp

lemma claims_in_waits:
  assumes "work_inv w" and "GetJob i (wkStore w) = Some k" and "claims_in i v w \<noteq> []"
  shows "length (claims_in i v w) = 1 \<and> waits k \<and> \<not> in_hands i w
    \<and> (\<exists>k'. GetJob i (wkStore (work_step v w)) = Some k' \<and> attempts_left k' (in_hands i (work_step v w)) \<le> attempts_left k False - 1)"
proof -
  obtain fails now r n js where v: "v = (fails, now, StepClaim r n)"
    and js: "fst (ClaimJobs fails now (rnOwner r) n (effective_lease r) (wkStore w)) = Inr js" "claims_in i v w = filter (\<lambda>j. djID j = i) js"
    using assms(3) by (auto simp: claims_in_def split: work_event.splits sum.splits prod.splits)
  obtain st where c: "ClaimJobs fails now (rnOwner r) n (effective_lease r) (wkStore w) = (Inr js, st)"
    using js(1) by (cases "ClaimJobs fails now (rnOwner r) n (effective_lease r) (wkStore w)") auto
  have rows: "job_rows_ok (wkStore w)" using assms(1) by (simp add: work_inv_def)
  have i: "i \<in> set (map djID js)" using assms(3) js(2) by (auto simp: filter_empty_conv)
  obtain m where m: "claimable now k" "GetJob i st = Some (claim_job now (rnOwner r) m k)"
    using ClaimJobs_rows [OF c rows, of js i] i assms(2) by auto
  have "distinct (map djID js)" using ClaimJobs_rows [OF c rows, of js i] by simp
  then have one: "length (claims_in i v w) = 1" using distinct_filter_one [of djID js i] i unfolding js(2) by simp
  have w: "waits k" using m(1) by (simp add: claimable_def waits_def)
  then have idle: "\<not> in_hands i w" using assms(2) by (auto simp: in_hands_def elim: heldD [OF assms(1)])
  let ?k = "claim_job now (rnOwner r) m k"
  have k': "GetJob i (wkStore (work_step v w)) = Some ?k" using v c m(2) by simp
  have "attempts_left ?k b \<le> attempts_left k False - 1" for b
    using w by (auto simp: attempts_left_def claim_job_def waits_def max_def)
  then show ?thesis using one w idle k' by blast
qed

lemma claims_bounded_from:
  assumes "work_inv w" and "GetJob i (wkStore w) = Some k"
  shows "int (claims_of i vs w) \<le> attempts_left k (in_hands i w)"
  using assms
proof (induction vs arbitrary: w k)
  case Nil
  have "0 \<le> attempts_left k b" for b by (auto simp: attempts_left_def max_def)
  then show ?case by simp
next
  case (Cons v vs)
  have inv: "work_inv (work_step v w)" using work.step_inv [OF Cons.prems(1)] .
  obtain k' where k': "GetJob i (wkStore (work_step v w)) = Some k'" "row_step k (in_hands i w) k' (in_hands i (work_step v w))"
    using work_step_ok [OF Cons.prems(1), of v] Cons.prems(2) by (auto simp: steps_ok_def)
  have rest: "int (claims_of i vs (work_step v w)) \<le> attempts_left k' (in_hands i (work_step v w))" by (rule Cons.IH [OF inv k'(1)])
  show ?case
  proof (cases "claims_in i v w = []")
    case True
    then show ?thesis using rest row_step_attempts [OF k'(2)] by simp
  next
    case False
    have "attempts_left k' (in_hands i (work_step v w)) \<le> attempts_left k (in_hands i w) - 1"
      using claims_in_waits [OF Cons.prems False] k'(1) by auto
    then show ?thesis using rest claims_in_waits [OF Cons.prems False] by simp
  qed
qed

text \<open>C20: however workers, submissions, cancellations and dashboard actions interleave, and whatever calls of the database fail, no
  job is in two workers' hands at once, and a job that nobody holds is claimed at most as often as it has attempts left, and once
  if it has none.\<close>
theorem jobs_claimed_exclusively:
  assumes "work_inv w" and "GetJob i (wkStore w) = Some k" and "\<not> in_hands i w"
  shows "distinct (map djID (wkHeld (work_run vs w)))
    \<and> int (claims_of i vs w) \<le> (if waits k then max 1 (djMaxAttempts k - djAttempts k) else 0)"
proof
  show "distinct (map djID (wkHeld (work_run vs w)))"
    using work.run_inv [OF assms(1), of vs] by (simp add: work_run_def work_inv_def)
  have "int (claims_of i vs w) \<le> attempts_left k False" using claims_bounded_from [OF assms(1,2), of vs] assms(3) by simp
  then show "int (claims_of i vs w) \<le> (if waits k then max 1 (djMaxAttempts k - djAttempts k) else 0)"
    unfolding attempts_left_def if_False .
qed

definition sample_runtime :: "string \<Rightarrow> job_runtime" where
  "sample_runtime owner = \<lparr>rnOwner = owner, rnLease = 0, rnMaxAttempts = 2, rnBackoff = 0, rnAuthorize = None\<rparr>"

definition sample_job :: durable_job where
  "sample_job = \<lparr>djID = ''j1'', djTenant = ''acme'', djKind = ''build'', djPayload = ''{}'', djStatus = ''pending'', djAttempts = 0, djMaxAttempts = 2,
     djNext = 0, djOwner = [], djLease = None, djError = [], djCreatedAt = 1, djUpdatedAt = 1\<rparr>"

definition sample_jobs :: job_store where
  "sample_jobs = \<lparr>jsJobs = [(''j1'', sample_job)], jsEvents = [], jsLeases = [], jsDependencies = []\<rparr>"

definition sample_work :: work_state where
  "sample_work = \<lparr>wkStore = sample_jobs, wkHeld = []\<rparr>"

definition sample_work_events :: "(job_faults \<times> int \<times> work_event) list" where
  "sample_work_events =
     (let ok = (\<lambda>_. False) in
      [(ok, 10, StepClaim (sample_runtime ''a'') 1), (ok, 11, StepClaim (sample_runtime ''b'') 1),
       (ok, 12, StepSettle (sample_runtime ''a'') (\<lambda>_. Some ''boom'') (claim_job 10 ''a'' (minutes 2) sample_job)),
       (ok, 12 + seconds 5, StepClaim (sample_runtime ''b'') 1)])"

lemma sample_rows: "job_rows_ok sample_jobs"
  by (simp add: job_rows_ok_def sample_jobs_def sample_job_def GetJob_def)

lemma sample_work: "work_inv sample_work" "GetJob ''j1'' (wkStore sample_work) = Some sample_job" "\<not> in_hands i sample_work"
  using sample_rows by (simp_all add: work_inv_def sample_work_def in_hands_def) (simp add: sample_jobs_def GetJob_def)

theorem jobs_claimed_exclusively_witness:
  "distinct (map djID (wkHeld (work_run sample_work_events sample_work))) \<and> claims_of ''j1'' sample_work_events sample_work = 2
   \<and> int (claims_of ''j1'' sample_work_events sample_work) \<le> 2"
proof -
  have "waits sample_job" "djMaxAttempts sample_job - djAttempts sample_job = 2" by (simp_all add: waits_def sample_job_def)
  then have "distinct (map djID (wkHeld (work_run sample_work_events sample_work)))
    \<and> int (claims_of ''j1'' sample_work_events sample_work) \<le> 2"
    using jobs_claimed_exclusively [OF sample_work(1,2,3), of sample_work_events] by simp
  moreover have "claims_of ''j1'' sample_work_events sample_work = 2" by code_simp
  ultimately show ?thesis by blast
qed

subsection \<open>Jobs nobody claims\<close>

text \<open>A workflow that the adapter accepted is never claimed: it is stored as \<open>queued\<close>, which is not a status that workers look
  for, and no later step gives it another that is.\<close>
theorem accepted_workflow_never_runs:
  assumes "WorkflowSubmit fails now r fresh encode q (wkStore w) = (Inr i, st)" and "work_inv w"
  shows "claims_of i vs (w\<lparr>wkStore := st\<rparr>) = 0"
proof -
  define j where "j = \<lparr>djID = i, djTenant = wrTenant q, djKind = wrKind q, djPayload = encode (wrKind q) (wrPayload q), djStatus = ''queued'',
    djAttempts = 0, djMaxAttempts = rnMaxAttempts r, djNext = now, djOwner = [], djLease = None, djError = [], djCreatedAt = now, djUpdatedAt = 0\<rparr>"
  have i: "i = (if wrID q = [] then fresh else wrID q)"
    using assms(1) by (auto simp: WorkflowSubmit_def Let_def split: if_splits prod.splits option.splits)
  obtain st1 where c: "CreateJob fails now j (wkStore w) = (None, st1)" "jsJobs st = jsJobs st1"
    using assms(1) i by (auto simp: WorkflowSubmit_def Submit_def Let_def j_def split: if_splits prod.splits option.splits)
  have rows: "job_rows_ok (wkStore w)" using assms(2) by (simp add: work_inv_def)
  from c(1) have new: "GetJob i (wkStore w) = None" "st1 = (wkStore w)\<lparr>jsJobs := jsJobs (wkStore w) @ [(i, new_job now j)]\<rparr>"
    by (cases rule: CreateJob_cases; simp add: j_def)+
  have k: "GetJob i st = Some (new_job now j)" using new c(2) by (simp add: GetJob_def map_add_Some_iff)
  let ?w = "w\<lparr>wkStore := st\<rparr>"
  have "steps_ok w ?w"
    using CreateJob_rows [OF c(1) rows] same_rows [OF c(2)] by (intro steps_ok_store [OF assms(2)]) auto
  then have inv: "work_inv ?w" by (simp add: steps_ok_def)
  have idle: "\<not> in_hands i ?w" using new(1) by (auto simp: in_hands_def elim: heldD [OF assms(2)])
  have "\<not> waits (new_job now j)" by (simp add: waits_def j_def)
  then show ?thesis
    using claims_bounded_from [OF inv, of i "new_job now j" vs] k idle by (simp add: attempts_left_def)
qed

definition sample_workflow_request :: workflow_request where
  "sample_workflow_request = \<lparr>wrID = ''w1'', wrTenant = ''acme'', wrKind = ''build'', wrPayload = ''{}''\<rparr>"

definition sample_submitted :: "(workflow_error + string) \<times> job_store" where
  "sample_submitted = WorkflowSubmit (\<lambda>_. False) 5 (sample_runtime ''a'') ''fresh'' (\<lambda>k p. p) sample_workflow_request (wkStore sample_work)"

theorem accepted_workflow_never_runs_witness:
  "fst sample_submitted = Inr ''w1''
   \<and> claims_of ''w1'' [(\<lambda>_. False, 10, StepClaim (sample_runtime ''a'') 10)] (sample_work\<lparr>wkStore := snd sample_submitted\<rparr>) = 0"
proof -
  have "fst sample_submitted = Inr ''w1''" by code_simp
  then have s: "sample_submitted = (Inr ''w1'', snd sample_submitted)" using surjective_pairing [of sample_submitted] by metis
  show ?thesis
    using accepted_workflow_never_runs [OF s [unfolded sample_submitted_def] sample_work(1), folded sample_submitted_def]
      \<open>fst sample_submitted = Inr ''w1''\<close> by blast
qed

text \<open>A job that is cancelled while its handler runs comes back when the handler fails: the worker's update does not look at the
  status it replaces.\<close>
theorem cancelled_job_returns:
  assumes "job_action fails t tenant (djID j) ''cancel'' st = (HttpOK, st1)" and "job_rows_ok st"
    and "h j = Some reason" and "djAttempts j < djMaxAttempts j" and "rnAuthorize r = None"
    and "\<not> fails' (AtUpdateJob (djID j))"
  shows "map_option djStatus (GetJob (djID j) st1) = Some ''cancelled''
    \<and> (\<exists>k. GetJob (djID j) (snd (snd (run_jobs fails' now r h [j] st1))) = Some k \<and> djStatus k = ''retry''
        \<and> claimable (now + retryDelay r (djAttempts j)) k)"
proof -
  obtain k where k: "GetJob (djID j) st = Some k" "djTenant k = tenant"
    using assms(1) by (auto simp: job_action_def split: option.splits if_splits)
  obtain x st2 where u: "UpdateJob fails t (djID j) ''cancelled'' (djNext k) (djError k) st = (x, st2)" by fastforce
  have x: "x = None" "jsJobs st1 = jsJobs st2" using assms(1) k u by (auto simp: job_action_def split: option.splits)
  have row: "\<exists>k. GetJob (djID j) st1 = Some k \<and> djStatus k = ''cancelled''"
    using UpdateJob_rows(2) [OF u assms(2)] k(1) x by (simp add: GetJob_def)
  have rows: "job_rows_ok st1" using UpdateJob_rows(1) [OF u assms(2)] same_rows [OF x(2)] by simp
  have "djID j \<noteq> []" using u x(1) by (auto simp: UpdateJob_def)
  let ?st = "recordEvent now j ''claimed'' ''worker %s claimed attempt %d'' st1"
  let ?due = "now + retryDelay r (djAttempts j)"
  obtain st3 where v: "UpdateJob fails' now (djID j) ''retry'' ?due reason ?st = (None, st3)"
    using assms(6) \<open>djID j \<noteq> []\<close> by (simp add: UpdateJob_def)
  obtain k' where k': "GetJob (djID j) st1 = Some k'" using row by blast
  have "GetJob (djID j) st3 = Some (k'\<lparr>djStatus := ''retry'', djNext := ?due, djOwner := [], djLease := None, djError := reason,
      djUpdatedAt := now\<rparr>)"
    using UpdateJob_rows(2) [OF v] rows k' by simp
  moreover have "jsJobs (snd (snd (run_jobs fails' now r h [j] st1))) = jsJobs st3"
    using assms(3-5) v by (simp add: after_handler_def Let_def)
  ultimately have "GetJob (djID j) (snd (snd (run_jobs fails' now r h [j] st1))) =
      Some (k'\<lparr>djStatus := ''retry'', djNext := ?due, djOwner := [], djLease := None, djError := reason, djUpdatedAt := now\<rparr>)"
    by (simp add: GetJob_def)
  then show ?thesis using row by (auto simp: claimable_def)
qed

definition sample_claimed :: durable_job where
  "sample_claimed = claim_job 10 ''a'' (minutes 2) sample_job"

definition sample_running :: job_store where
  "sample_running = sample_jobs\<lparr>jsJobs := [(''j1'', sample_claimed)]\<rparr>"

definition sample_cancel :: "http_outcome \<times> job_store" where
  "sample_cancel = job_action (\<lambda>_. False) 11 ''acme'' ''j1'' ''cancel'' sample_running"

theorem cancelled_job_returns_witness:
  "map_option djStatus (GetJob ''j1'' (snd sample_cancel)) = Some ''cancelled''
   \<and> (\<exists>k. GetJob ''j1'' (snd (snd (run_jobs (\<lambda>_. False) 12 (sample_runtime ''a'') (\<lambda>_. Some ''boom'') [sample_claimed] (snd sample_cancel)))) = Some k
        \<and> djStatus k = ''retry'')"
proof -
  have i: "djID sample_claimed = ''j1''" by (simp add: sample_claimed_def sample_job_def)
  have "fst sample_cancel = HttpOK" by code_simp
  then have c: "job_action (\<lambda>_. False) 11 ''acme'' (djID sample_claimed) ''cancel'' sample_running = (HttpOK, snd sample_cancel)"
    using surjective_pairing [of sample_cancel] unfolding i sample_cancel_def by metis
  have rows: "job_rows_ok sample_running"
    by (simp add: job_rows_ok_def sample_running_def sample_jobs_def GetJob_def i)
  have "djAttempts sample_claimed < djMaxAttempts sample_claimed" by (simp add: sample_claimed_def sample_job_def claim_job_def)
  then show ?thesis
    using cancelled_job_returns [OF c rows, where h = "\<lambda>_. Some ''boom''" and r = "sample_runtime ''a''" and fails' = "\<lambda>_. False" and now = 12]
    by (auto simp: i sample_runtime_def)
qed

subsection \<open>Leases\<close>

lemma UpdateJob_leases [simp]: "jsLeases (snd (UpdateJob fails now i status due err st)) = jsLeases st"
  by (simp add: UpdateJob_def)

lemma recordEvent_leases [simp]: "jsLeases (recordEvent now j kind m st) = jsLeases st"
  by (simp add: recordEvent_def AppendJobEvent_def)

lemma UpdateJob_leasesD: "UpdateJob fails now i status due err st = (x, st') \<Longrightarrow> jsLeases st' = jsLeases st"
  using UpdateJob_leases [of fails now i status due err st] by simp

lemma Submit_leases: "jsLeases (snd (Submit fails now r j st)) = jsLeases st"
  by (auto simp: Submit_def CreateJob_def Let_def split: option.splits prod.splits if_splits)

lemma ClaimJobs_leases: "ClaimJobs fails now owner n l st = (x, st') \<Longrightarrow> jsLeases st' = jsLeases st"
  by (auto simp: ClaimJobs_def Let_def split: if_splits)

lemma run_jobs_leases: "jsLeases (snd (snd (run_jobs fails now r h [j] st))) = jsLeases st"
  by (auto simp: Let_def split: option.splits prod.splits dest!: UpdateJob_leasesD)

lemma job_action_leases: "jsLeases (snd (job_action fails now tenant i action st)) = jsLeases st"
  by (auto simp: job_action_def split: option.splits prod.splits if_splits dest!: UpdateJob_leasesD)

text \<open>The lease is the owner's until \<open>t\<close>.\<close>

definition leased :: "string \<Rightarrow> string \<Rightarrow> int \<Rightarrow> job_store \<Rightarrow> bool" where
  "leased name owner t st \<longleftrightarrow> (\<exists>l. map_of (jsLeases st) name = Some l \<and> leOwner l = owner \<and> t \<le> leExpires l)"

definition keeps_lease :: "string \<Rightarrow> string \<Rightarrow> int \<Rightarrow> job_faults \<times> int \<times> work_event \<Rightarrow> bool" where
  "keeps_lease name owner t v \<longleftrightarrow>
     (case v of (_, now, e) \<Rightarrow> now < t \<and> e \<noteq> StepRelease name owner \<and> (\<forall>d. e = StepLease name owner d \<longrightarrow> t \<le> now + d))"

lemma AcquireLease_leased:
  assumes "leased name owner t st" and "now < t" and "n = name \<Longrightarrow> o' = owner \<Longrightarrow> t \<le> now + d"
  shows "leased name owner t (snd (AcquireLease fails now n o' d st))"
    and "o' \<noteq> owner \<Longrightarrow> fst (AcquireLease fails now name o' d st) \<noteq> Inr True"
  using assms by (auto simp: leased_def AcquireLease_def map_of_update split: option.splits)

lemma ReleaseLease_leased:
  assumes "leased name owner t st" and "\<not> (n = name \<and> o' = owner)"
  shows "leased name owner t (ReleaseLease n o' st)"
proof -
  have "map_of (filter (\<lambda>(k, l). \<not> (k = n \<and> leOwner l = o')) ls) name = Some l"
    if "map_of ls name = Some l" "leOwner l = owner" for l and ls :: "(string \<times> lease_row) list"
    using that assms(2) by (induction ls) (auto split: if_splits)
  then show ?thesis using assms(1) by (auto simp: leased_def ReleaseLease_def)
qed

lemma work_step_leased:
  assumes "leased name owner t (wkStore w)" and "keeps_lease name owner t v"
  shows "leased name owner t (wkStore (work_step v w))"
proof -
  obtain fails now e where v: "v = (fails, now, e)" by (cases v)
  have same: ?thesis if "jsLeases (wkStore (work_step v w)) = jsLeases (wkStore w)"
    using assms(1) that by (simp add: leased_def)
  show ?thesis
  proof (cases e)
    case (StepSubmit r j)
    then show ?thesis using same v by (simp add: Submit_leases)
  next
    case (StepClaim r n)
    have "jsLeases (wkStore (work_step v w)) = jsLeases (wkStore w)"
      using v StepClaim by (auto split: prod.splits sum.splits dest: ClaimJobs_leases)
    then show ?thesis by (rule same)
  next
    case (StepSettle r h j)
    then show ?thesis using same v run_jobs_leases by simp
  next
    case (StepAction tenant i action)
    then show ?thesis using same v by (simp add: job_action_leases)
  next
    case (StepCancel i reason)
    then show ?thesis using same v by (simp add: WorkflowCancel_def)
  next
    case (StepLease n o' d)
    then show ?thesis using assms v by (auto simp: keeps_lease_def intro!: AcquireLease_leased(1))
  next
    case (StepRelease n o')
    then show ?thesis using assms v by (auto simp: keeps_lease_def intro!: ReleaseLease_leased)
  qed
qed

text \<open>Once a lease is acquired, nobody else acquires it before it expires, whatever steps other workers take meanwhile, unless its
  owner releases it or renews it for a shorter time.\<close>
theorem lease_excludes_others:
  assumes "AcquireLease fails now name owner ttl (wkStore w) = (Inr True, st)"
    and "\<And>v. v \<in> set vs \<Longrightarrow> keeps_lease name owner (now + ttl) v" and "t < now + ttl" and "other \<noteq> owner"
  shows "fst (AcquireLease fails' t name other ttl' (wkStore (work_run vs (w\<lparr>wkStore := st\<rparr>)))) \<noteq> Inr True"
proof -
  have "leased name owner (now + ttl) (wkStore (w\<lparr>wkStore := st\<rparr>))"
    using assms(1) by (auto simp: AcquireLease_def leased_def map_of_update split: if_splits option.splits)
  then have "leased name owner (now + ttl) (wkStore (fold work_step vs (w\<lparr>wkStore := st\<rparr>)))"
    using assms(2) by (induction vs arbitrary: w st rule: rev_induct) (auto intro!: work_step_leased)
  then show ?thesis using AcquireLease_leased(2) assms(3,4) unfolding work_run_def by blast
qed

definition sample_leader :: "(job_error + bool) \<times> job_store" where
  "sample_leader = AcquireLease (\<lambda>_. False) 0 ''leader'' ''a'' 100 (wkStore sample_work)"

theorem lease_excludes_others_witness:
  "fst (AcquireLease (\<lambda>_. False) 99 ''leader'' ''b'' 100 (wkStore (work_run
      [(\<lambda>_. False, 10, StepLease ''leader'' ''a'' 95), (\<lambda>_. False, 20, StepRelease ''leader'' ''b'')]
      (sample_work\<lparr>wkStore := snd sample_leader\<rparr>)))) \<noteq> Inr True"
proof -
  have "fst sample_leader = Inr True" by code_simp
  then have s: "AcquireLease (\<lambda>_. False) 0 ''leader'' ''a'' 100 (wkStore sample_work) = (Inr True, snd sample_leader)"
    using surjective_pairing [of sample_leader] unfolding sample_leader_def by metis
  show ?thesis by (rule lease_excludes_others [OF s]) (auto simp: keeps_lease_def)
qed

end
