(* ===== verification/Assurance.thy ===== *)
theory Assurance
  imports ReviewTypes "HOL-Library.Sublist"
begin

text \<open>
  The assurance plane: the policy that decides about an action before it has effects, the runtime graph of
  capabilities and signed evidence (\<open>internal/assurance\<close>), and the gate that content of agents passes
  (\<open>internal/securitygate\<close>). Regular expressions, redaction, an OPA binary, JSON and the signature scheme are
  arguments.
\<close>

subsection \<open>Policies\<close>

record action_rule =
  ruAgent :: string
  ruTool :: string
  ruPath :: string
  ruOperation :: string
  ruNetwork :: string
  ruReason :: string

definition blank_rule :: action_rule where
  "blank_rule = \<lparr>ruAgent = [], ruTool = [], ruPath = [], ruOperation = [], ruNetwork = [], ruReason = []\<rparr>"

record assurance_policy =
  poDeny :: "action_rule list"
  poApproval :: "action_rule list"

definition no_policy :: assurance_policy where
  "no_policy = \<lparr>poDeny = [], poApproval = []\<rparr>"

record action_subject =
  subAgent :: string
  subTool :: string
  subPath :: string
  subOperation :: string
  subNetwork :: string

record assurance_decision =
  adAllowed :: bool
  adApproval :: bool
  adRisk :: int
  adReason :: string
  adFindings :: "string list"

definition match_pattern :: "string \<Rightarrow> string \<Rightarrow> bool" where
  "match_pattern pattern v \<longleftrightarrow>
     (if pattern = [] then True
      else if pattern = ''**'' \<or> pattern = ''*'' then True
      else if prefix ''**/'' pattern then suffix (drop 3 pattern) v
      else pattern = v)"

definition action_rule_matches :: "action_rule \<Rightarrow> action_subject \<Rightarrow> bool" where
  "action_rule_matches r a \<longleftrightarrow> match_pattern (ruAgent r) (subAgent a) \<and> match_pattern (ruTool r) (subTool a)
     \<and> match_pattern (ruPath r) (subPath a) \<and> match_pattern (ruOperation r) (subOperation a) \<and> match_pattern (ruNetwork r) (subNetwork a)"

definition first_text :: "string \<Rightarrow> string \<Rightarrow> string" where
  "first_text v fallback = (if v \<noteq> [] then v else fallback)"

text \<open>The regular expressions: references to sensitive data, injections, and the dangerous patterns of the gate.\<close>

record content_patterns =
  ptSensitive :: "string \<Rightarrow> bool"
  ptInjection :: "string \<Rightarrow> bool"
  ptDangerous :: "(string \<Rightarrow> bool) list"

definition Analyze :: "content_patterns \<Rightarrow> string \<Rightarrow> string \<times> int \<times> string list" where
  "Analyze p text =
     (let s = ptSensitive p text; i = ptInjection p text
      in (text, min ((if s then 35 else 0) + (if i then 65 else 0)) 100,
          (if s then [''sensitive-data-reference''] else []) @ (if i then [''instruction-override-or-exfiltration''] else [])))"

definition EvaluateRules :: "assurance_policy \<Rightarrow> action_subject \<Rightarrow> int \<Rightarrow> assurance_decision" where
  "EvaluateRules policy a risk =
     (case find (\<lambda>r. action_rule_matches r a) (poDeny policy) of
        Some r \<Rightarrow> \<lparr>adAllowed = False, adApproval = False, adRisk = risk, adReason = first_text (ruReason r) ''denied by assurance policy'',
                    adFindings = [''policy-deny'']\<rparr>
      | None \<Rightarrow>
          (case find (\<lambda>r. action_rule_matches r a) (poApproval policy) of
             Some r \<Rightarrow> \<lparr>adAllowed = False, adApproval = True, adRisk = risk, adReason = first_text (ruReason r) ''human approval required'',
                         adFindings = [''approval-required'']\<rparr>
           | None \<Rightarrow>
               if risk \<ge> 80
               then \<lparr>adAllowed = False, adApproval = False, adRisk = risk, adReason = ''risk score exceeds runtime threshold'',
                     adFindings = [''high-risk-content'']\<rparr>
               else \<lparr>adAllowed = True, adApproval = False, adRisk = risk, adReason = [], adFindings = []\<rparr>))"

subsection \<open>The policy file\<close>

text \<open>A policy is JSON, or lines of a small YAML subset. Every field of a rule carries the tag that keeps JSON from setting it: of
  a JSON policy only the numbers of its rules arrive.\<close>

record policy_parse =
  pySection :: string
  pyCurrent :: bool
  pyPolicy :: assurance_policy

definition json_policy :: "nat \<times> nat \<Rightarrow> assurance_policy" where
  "json_policy n = \<lparr>poDeny = replicate (fst n) blank_rule, poApproval = replicate (snd n) blank_rule\<rparr>"

definition push_rule :: "policy_parse \<Rightarrow> policy_parse" where
  "push_rule s = s\<lparr>pyCurrent := True, pyPolicy :=
     (if pySection s = ''deny'' then (pyPolicy s)\<lparr>poDeny := poDeny (pyPolicy s) @ [blank_rule]\<rparr>
      else (pyPolicy s)\<lparr>poApproval := poApproval (pyPolicy s) @ [blank_rule]\<rparr>)\<rparr>"

definition update_last :: "('a \<Rightarrow> 'a) \<Rightarrow> 'a list \<Rightarrow> 'a list" where
  "update_last f xs = (if xs = [] then [] else butlast xs @ [f (last xs)])"

definition set_field :: "string \<Rightarrow> string \<Rightarrow> action_rule \<Rightarrow> action_rule option" where
  "set_field key v r =
     (if key = ''agent'' then Some (r\<lparr>ruAgent := v\<rparr>)
      else if key = ''tool'' then Some (r\<lparr>ruTool := v\<rparr>)
      else if key = ''path'' then Some (r\<lparr>ruPath := v\<rparr>)
      else if key = ''operation'' then Some (r\<lparr>ruOperation := v\<rparr>)
      else if key = ''network'' then Some (r\<lparr>ruNetwork := v\<rparr>)
      else if key = ''reason'' then Some (r\<lparr>ruReason := v\<rparr>)
      else None)"

definition on_current :: "(action_rule \<Rightarrow> action_rule) \<Rightarrow> policy_parse \<Rightarrow> policy_parse" where
  "on_current f s = s\<lparr>pyPolicy :=
     (if pySection s = ''deny'' then (pyPolicy s)\<lparr>poDeny := update_last f (poDeny (pyPolicy s))\<rparr>
      else (pyPolicy s)\<lparr>poApproval := update_last f (poApproval (pyPolicy s))\<rparr>)\<rparr>"

text \<open>The part before the first colon and the part after it.\<close>

definition split_colon :: "string \<Rightarrow> (string \<times> string) option" where
  "split_colon s = (if CHR '':'' \<in> set s then Some (takeWhile (\<lambda>c. c \<noteq> CHR '':'') s, tl (dropWhile (\<lambda>c. c \<noteq> CHR '':'') s)) else None)"

definition trim_quotes :: "string \<Rightarrow> string" where
  "trim_quotes s = (let q = (\<lambda>c. c = CHR 0x22 \<or> c = CHR 0x27) in rev (dropWhile q (rev (dropWhile q s))))"

definition rule_line :: "text_lib \<Rightarrow> string \<Rightarrow> string \<Rightarrow> policy_parse \<Rightarrow> msg + policy_parse" where
  "rule_line lib line trimmed s =
     (if \<not> pyCurrent s then Inl (Msg ''invalid policy line %q'' [AS line])
      else case split_colon trimmed of
        None \<Rightarrow> Inl (Msg ''invalid policy line %q'' [AS line])
      | Some (k, v) \<Rightarrow>
          let key = TrimSpace lib k; v = trim_quotes (TrimSpace lib v) in
          if set_field key v blank_rule = None then Inl (Msg ''unsupported policy field %q'' [AS key])
          else Inr (on_current (\<lambda>r. the (set_field key v r)) s))"

definition policy_line :: "text_lib \<Rightarrow> string \<Rightarrow> policy_parse \<Rightarrow> msg + policy_parse" where
  "policy_line lib line s =
     (let t = TrimSpace lib line in
      if t = [] \<or> prefix ''#'' t then Inr s
      else if suffix '':'' t \<and> \<not> prefix ''-'' t then
        (let name = butlast t in
         if name \<noteq> ''deny'' \<and> name \<noteq> ''require_approval'' then Inl (Msg ''unsupported policy section %q'' [AS name])
         else Inr (s\<lparr>pySection := name, pyCurrent := False\<rparr>))
      else if prefix ''-'' t then
        (if pySection s = [] then Inl (plain ''policy rule has no section'')
         else let s = push_rule s; t = TrimSpace lib (tl t) in if t = [] then Inr s else rule_line lib line t s)
      else rule_line lib line t s)"

fun split_lines :: "string \<Rightarrow> string list" where
  "split_lines [] = [[]]"
| "split_lines (c # cs) = (if c = CHR 0x0A then [] # split_lines cs
     else case split_lines cs of [] \<Rightarrow> [[c]] | l # ls \<Rightarrow> (c # l) # ls)"

text \<open>\<open>json\<close> gives the numbers of rules when the text is JSON.\<close>

definition LoadPolicy :: "text_lib \<Rightarrow> (string \<Rightarrow> (nat \<times> nat) option) \<Rightarrow> string \<Rightarrow> msg + assurance_policy" where
  "LoadPolicy lib json raw =
     (case json raw of
        Some n \<Rightarrow> Inr (json_policy n)
      | None \<Rightarrow> bind_res (fold_res (policy_line lib) (split_lines raw) \<lparr>pySection = [], pyCurrent = False, pyPolicy = no_policy\<rparr>)
                  (\<lambda>s. Inr (pyPolicy s)))"

subsection \<open>The action firewall\<close>

record data_flow =
  flSource :: string
  flDestination :: string
  flClass :: string
  flCrossTenant :: bool
  flAllowed :: bool
  flReason :: string

record firewall_action =
  fwTenant :: string
  fwProject :: string
  fwAgent :: string
  fwSkill :: string
  fwTool :: string
  fwOperation :: string
  fwTarget :: string
  fwPath :: string
  fwNetwork :: string
  fwContent :: string
  fwDataClass :: string

record action_decision =
  fdDecision :: assurance_decision
  fdDigest :: string
  fdFlows :: "data_flow list"
  fdBlockedWhy :: msg

definition refuse_flow :: "data_flow \<Rightarrow> assurance_decision \<Rightarrow> assurance_decision" where
  "refuse_flow f d =
     (if flCrossTenant f \<and> \<not> flAllowed f
      then d\<lparr>adAllowed := False, adApproval := False, adReason := first_text (flReason f) ''cross-tenant data flow is not allowed'',
             adFindings := adFindings d @ [''cross-tenant-data-flow'']\<rparr>
      else d)"

definition action_subject_of :: "firewall_action \<Rightarrow> action_subject" where
  "action_subject_of a = \<lparr>subAgent = fwAgent a, subTool = fwTool a, subPath = fwPath a, subOperation = fwOperation a, subNetwork = fwNetwork a\<rparr>"

text \<open>\<open>fingerprint\<close> digests the identifying fields of the action.\<close>

definition EvaluateAction ::
  "text_lib \<Rightarrow> content_patterns \<Rightarrow> (firewall_action \<Rightarrow> string) \<Rightarrow> assurance_policy \<Rightarrow> firewall_action \<Rightarrow> data_flow list
     \<Rightarrow> msg option \<times> action_decision option" where
  "EvaluateAction lib p fingerprint policy a flows =
     (if TrimSpace lib (fwTenant a) = [] \<or> TrimSpace lib (fwAgent a) = [] \<or> TrimSpace lib (fwOperation a) = []
      then (Some (plain ''tenant, agent and operation are required''), None)
      else case Analyze p (fwContent a) of
        (_, risk, findings) \<Rightarrow>
          let d = EvaluateRules policy (action_subject_of a) risk;
              d = d\<lparr>adFindings := adFindings d @ findings\<rparr>;
              flows = map (\<lambda>f. if TrimSpace lib (flClass f) = [] then f\<lparr>flClass := ''unknown''\<rparr> else f) flows;
              d = fold refuse_flow flows d;
              why = (if adAllowed d then plain []
                     else Msg ''%s (risk=%d)'' [AS (first_text (adReason d) ''blocked by runtime policy''), AI (adRisk d)])
          in (if adAllowed d then None else Some why,
              Some \<lparr>fdDecision = d, fdDigest = fingerprint (a\<lparr>fwContent := []\<rparr>), fdFlows = flows, fdBlockedWhy = why\<rparr>))"

subsection \<open>The gate for content\<close>

text \<open>The environment of a check: redaction, the policy file if one is configured, an OPA binary if one is configured, which
  answers whether the action is allowed, or an error.\<close>

record gate_env =
  gvRedact :: "string \<Rightarrow> string"
  gvPatterns :: content_patterns
  gvPolicy :: "(msg + assurance_policy) option"
  gvOPA :: "(action_subject \<Rightarrow> int \<Rightarrow> string list \<Rightarrow> bool \<times> string \<times> msg option) option"

datatype gate_error = GateBlocked | GateFailed msg

record gate_decision =
  gdAllowed :: bool
  gdRedacted :: bool
  gdReason :: string
  gdRisk :: int
  gdFindings :: "string list"

definition gate_rules :: "gate_env \<Rightarrow> string \<Rightarrow> string \<Rightarrow> action_subject \<Rightarrow> assurance_policy \<Rightarrow> int \<Rightarrow> string list \<Rightarrow> string \<times> gate_decision \<times> gate_error option" where
  "gate_rules e content redacted a policy risk findings =
     (let d = EvaluateRules policy a risk;
          refused = (\<lambda>reason fs. (redacted, \<lparr>gdAllowed = False, gdRedacted = redacted \<noteq> content, gdReason = reason, gdRisk = risk,
                      gdFindings = fs\<rparr>, Some GateBlocked))
      in if \<not> adAllowed d then refused (adReason d) (adFindings d @ findings)
         else if list_ex (\<lambda>m. m redacted) (ptDangerous (gvPatterns e)) then refused ''prompt-injection or secret-exfiltration pattern'' findings
         else (redacted, \<lparr>gdAllowed = True, gdRedacted = redacted \<noteq> content, gdReason = [], gdRisk = risk, gdFindings = findings\<rparr>, None))"

definition CheckContext :: "gate_env \<Rightarrow> string \<Rightarrow> action_subject \<Rightarrow> string \<times> gate_decision \<times> gate_error option" where
  "CheckContext e content a =
     (let redacted = gvRedact e content in
      case Analyze (gvPatterns e) redacted of
        (_, risk, findings) \<Rightarrow>
          (case (case gvPolicy e of None \<Rightarrow> Inr no_policy | Some p \<Rightarrow> p) of
             Inl x \<Rightarrow> ([], \<lparr>gdAllowed = False, gdRedacted = False, gdReason = ''policy could not be loaded'', gdRisk = risk,
                            gdFindings = [''policy-load-failed'']\<rparr>, Some (GateFailed x))
           | Inr policy \<Rightarrow>
               (case gvOPA e of
                  None \<Rightarrow> gate_rules e content redacted a policy risk findings
                | Some opa \<Rightarrow>
                    (case opa a risk findings of
                       (allowed, reason, err) \<Rightarrow>
                         if err \<noteq> None \<or> \<not> allowed
                         then (redacted, \<lparr>gdAllowed = False, gdRedacted = redacted \<noteq> content, gdReason = reason, gdRisk = risk,
                                gdFindings = findings @ [''opa-policy'']\<rparr>, Some (case err of None \<Rightarrow> GateBlocked | Some x \<Rightarrow> GateFailed x))
                         else gate_rules e content redacted a policy risk findings))))"

subsection \<open>The runtime graph\<close>

record capability =
  cbID :: string
  cbKind :: string
  cbSubject :: string
  cbDeclaredBy :: string
  cbDigest :: string
  cbAllowed :: bool

record runtime_graph =
  rgNodes :: "capability list"
  rgEdges :: "string \<Rightarrow> string list"
  rgObserved :: "string \<Rightarrow> nat"
  rgDrift :: "string \<Rightarrow> bool"

definition NewRuntimeGraph :: runtime_graph where
  "NewRuntimeGraph = \<lparr>rgNodes = [], rgEdges = (\<lambda>_. []), rgObserved = (\<lambda>_. 0), rgDrift = (\<lambda>_. False)\<rparr>"

definition Declare :: "capability \<Rightarrow> string list \<Rightarrow> runtime_graph \<Rightarrow> msg option \<times> runtime_graph" where
  "Declare c parents g =
     (if cbID c = [] then (Some (plain ''capability id is required''), g)
      else if list_ex (\<lambda>n. cbID n = cbID c) (rgNodes g) then (Some (Msg ''capability %q already declared'' [AS (cbID c)]), g)
      else (None, g\<lparr>rgNodes := rgNodes g @ [c],
                    rgEdges := fold (\<lambda>p es. es(p := es p @ [cbID c])) parents (rgEdges g)\<rparr>))"

definition ObserveCapability :: "string \<Rightarrow> runtime_graph \<Rightarrow> bool \<times> runtime_graph" where
  "ObserveCapability i g =
     (let seen = g\<lparr>rgObserved := (rgObserved g)(i := rgObserved g i + 1)\<rparr> in
      case find (\<lambda>n. cbID n = i) (rgNodes g) of
        Some n \<Rightarrow> (cbAllowed n, seen)
      | None \<Rightarrow> (False, seen\<lparr>rgDrift := (rgDrift g)(i := True)\<rparr>))"

fun valid_nodes :: "string list \<Rightarrow> capability list \<Rightarrow> msg option" where
  "valid_nodes seen [] = None"
| "valid_nodes seen (n # ns) =
     (if cbID n = [] then Some (plain ''capability id is required'')
      else if cbID n \<in> set seen then Some (Msg ''duplicate capability %q'' [AS (cbID n)])
      else valid_nodes (cbID n # seen) ns)"

definition ValidGraph :: "runtime_graph \<Rightarrow> msg option" where
  "ValidGraph g = valid_nodes [] (rgNodes g)"

subsection \<open>Evidence\<close>

text \<open>\<open>sha\<close> hashes bytes; a level of the tree pairs neighbours, an odd last node with itself.\<close>

fun merkle_level :: "(string \<Rightarrow> string) \<Rightarrow> string list \<Rightarrow> string list" where
  "merkle_level sha [] = []"
| "merkle_level sha [x] = [sha (x @ x)]"
| "merkle_level sha (x # y # xs) = sha (x @ y) # merkle_level sha xs"

lemma length_merkle_level: "length (merkle_level sha xs) = (length xs + 1) div 2"
  by (induction sha xs rule: merkle_level.induct) auto

function merkle_up :: "(string \<Rightarrow> string) \<Rightarrow> string list \<Rightarrow> string list" where
  "merkle_up sha xs = (if length xs \<le> 1 then xs else merkle_up sha (merkle_level sha xs))"
  by auto
termination by (relation "measure (\<lambda>(_, xs). length xs)") (auto simp: length_merkle_level)

declare merkle_up.simps [simp del]

record observation_event =
  ovID :: string
  ovCapability :: string
  ovAgent :: string
  ovTenant :: string
  ovOperation :: string
  ovTarget :: string
  ovDigest :: string
  ovAllowed :: bool
  ovReason :: string
  ovAt :: int

record evidence_bundle =
  ebVersion :: int
  ebSession :: string
  ebTenant :: string
  ebAgent :: string
  ebOperation :: string
  ebEvents :: "observation_event list"
  ebGraph :: "capability list \<times> (string \<times> string list) list"
  ebDigest :: string
  ebSignature :: string
  ebKeyID :: string
  ebIntent :: string
  ebChainRoot :: string

text \<open>What evidence is made with: the bytes of the digest of an event, the hash of bytes, hexadecimal and base64, the digest of a
  bundle, the digest of an intent, the serialisation that is signed, and the signature scheme.\<close>

record evidence_lib =
  elEvent :: "observation_event \<Rightarrow> string"
  elSha :: "string \<Rightarrow> string"
  elHex :: "string \<Rightarrow> string"
  elBase64 :: "string \<Rightarrow> string"
  elUnbase64 :: "string \<Rightarrow> msg + string"
  elDigest :: "evidence_bundle \<Rightarrow> string"
  elIntent :: "string \<Rightarrow> string \<Rightarrow> string \<Rightarrow> string \<Rightarrow> string"
  elEncode :: "evidence_bundle \<Rightarrow> string"
  elSign :: "string \<Rightarrow> string \<Rightarrow> string"
  elVerify :: "string \<Rightarrow> string \<Rightarrow> string \<Rightarrow> bool"

definition MerkleRoot :: "evidence_lib \<Rightarrow> observation_event list \<Rightarrow> msg + string" where
  "MerkleRoot l events =
     (if events = [] then Inl (plain ''at least one evidence event is required'')
      else Inr (elHex l (hd (merkle_up (elSha l) (map (elEvent l) events)))))"

definition FinalizeEvidence :: "evidence_lib \<Rightarrow> evidence_bundle \<Rightarrow> msg + evidence_bundle" where
  "FinalizeEvidence l e =
     bind_res (MerkleRoot l (ebEvents e)) (\<lambda>r.
       Inr (e\<lparr>ebChainRoot := r,
              ebIntent := (if ebIntent e = [] \<and> ebOperation e \<noteq> []
                           then elIntent l (ebSession e) (ebTenant e) (ebAgent e) (ebOperation e) else ebIntent e)\<rparr>))"

text \<open>The digest is taken with whatever digest the evidence came with.\<close>

definition SignEvidence :: "evidence_lib \<Rightarrow> string \<Rightarrow> string \<Rightarrow> evidence_bundle \<Rightarrow> msg + evidence_bundle" where
  "SignEvidence l keyID key e =
     bind_res (FinalizeEvidence l e) (\<lambda>e.
       let e = e\<lparr>ebVersion := 1, ebKeyID := keyID, ebSignature := []\<rparr>;
           e = e\<lparr>ebDigest := elDigest l e\<rparr>
       in Inr (e\<lparr>ebSignature := elBase64 l (elSign l key (elEncode l e))\<rparr>))"

text \<open>\<open>pubOK\<close>: the public key has the length of a key.\<close>

definition VerifyEvidence :: "evidence_lib \<Rightarrow> bool \<Rightarrow> string \<Rightarrow> evidence_bundle \<Rightarrow> msg option" where
  "VerifyEvidence l pubOK pub e =
     err_then (require (ebDigest e \<noteq> [] \<and> ebSignature e \<noteq> [] \<and> pubOK) (plain ''incomplete assurance evidence''))
       (case elUnbase64 l (ebSignature e) of
          Inl x \<Rightarrow> Some x
        | Inr sig \<Rightarrow>
            err_then (require (elVerify l pub (elEncode l (e\<lparr>ebSignature := []\<rparr>)) sig) (plain ''assurance evidence signature invalid''))
           (err_then (require (elDigest l (e\<lparr>ebDigest := [], ebSignature := []\<rparr>) = ebDigest e) (plain ''assurance evidence digest invalid''))
             (require (ebEvents e = [] \<or> MerkleRoot l (ebEvents e) = Inr (ebChainRoot e)) (plain ''assurance evidence Merkle root invalid''))))"

end
