(* ===== verification/AssuranceProps.thy ===== *)
theory AssuranceProps
  imports Assurance
begin

text \<open>
  What the assurance plane guarantees: which actions and which content pass, what signed evidence is worth, what a Merkle
  root says of the events, and which capabilities are ever authorized.
\<close>

subsection \<open>Actions\<close>

definition rules_apply :: "action_rule list \<Rightarrow> action_subject \<Rightarrow> bool" where
  "rules_apply rs a \<longleftrightarrow> list_ex (\<lambda>r. action_rule_matches r a) rs"

lemma find_rule: "find (\<lambda>r. action_rule_matches r a) rs = None \<longleftrightarrow> \<not> rules_apply rs a"
  by (auto simp: find_None_iff rules_apply_def list_ex_iff)

lemma EvaluateRules_allowed:
  "adAllowed (EvaluateRules policy a risk) \<longleftrightarrow> \<not> rules_apply (poDeny policy) a \<and> \<not> rules_apply (poApproval policy) a \<and> risk < 80"
  by (auto simp: EvaluateRules_def find_rule [symmetric] split: option.splits)

lemma Analyze_risk: "fst (snd (Analyze p t)) < 80 \<longleftrightarrow> \<not> (ptSensitive p t \<and> ptInjection p t)"
  by (simp add: Analyze_def Let_def)

lemma fold_refuse_flow: "adAllowed (fold refuse_flow flows d) \<longleftrightarrow> adAllowed d \<and> \<not> list_ex (\<lambda>f. flCrossTenant f \<and> \<not> flAllowed f) flows"
  by (induction flows arbitrary: d) (auto simp: refuse_flow_def)

lemma flow_class_kept:
  "list_ex (\<lambda>f. flCrossTenant f \<and> \<not> flAllowed f) (map (\<lambda>f. if b f then f\<lparr>flClass := c\<rparr> else f) flows)
   = list_ex (\<lambda>f. flCrossTenant f \<and> \<not> flAllowed f) flows"
  by (induction flows) auto

text \<open>An action passes the firewall exactly when it names its tenant, agent and operation, no rule of the policy applies to it, its
  content is not both a reference to something sensitive and an injection, and no data flow leaves the tenant unallowed.\<close>
theorem action_passes_exactly:
  "fst (EvaluateAction lib p fingerprint policy a flows) = None
   \<longleftrightarrow> TrimSpace lib (fwTenant a) \<noteq> [] \<and> TrimSpace lib (fwAgent a) \<noteq> [] \<and> TrimSpace lib (fwOperation a) \<noteq> []
     \<and> \<not> rules_apply (poDeny policy) (action_subject_of a) \<and> \<not> rules_apply (poApproval policy) (action_subject_of a)
     \<and> \<not> (ptSensitive p (fwContent a) \<and> ptInjection p (fwContent a))
     \<and> \<not> list_ex (\<lambda>f. flCrossTenant f \<and> \<not> flAllowed f) flows"
proof -
  obtain t risk findings where an: "Analyze p (fwContent a) = (t, risk, findings)" by (metis prod_cases3)
  then have "risk < 80 \<longleftrightarrow> \<not> (ptSensitive p (fwContent a) \<and> ptInjection p (fwContent a))"
    using Analyze_risk [of p "fwContent a"] by simp
  then show ?thesis
    by (auto simp: EvaluateAction_def an Let_def fold_refuse_flow flow_class_kept EvaluateRules_allowed)
qed

text \<open>A JSON policy with a deny rule denies everything: its rules arrive blank, and a blank rule applies to every action.\<close>

lemma json_deny_blocks_all:
  assumes "json raw = Some (Suc n, k)"
  shows "\<exists>policy. LoadPolicy lib json raw = Inr policy \<and> \<not> adAllowed (EvaluateRules policy a risk)"
  using assms by (simp add: LoadPolicy_def json_policy_def EvaluateRules_allowed rules_apply_def action_rule_matches_def blank_rule_def match_pattern_def)

subsection \<open>Content\<close>

definition gate_policy :: "gate_env \<Rightarrow> msg + assurance_policy" where
  "gate_policy e = (case gvPolicy e of None \<Rightarrow> Inr no_policy | Some p \<Rightarrow> p)"

definition opa_allows :: "gate_env \<Rightarrow> string \<Rightarrow> action_subject \<Rightarrow> bool" where
  "opa_allows e text a = (case gvOPA e of None \<Rightarrow> True | Some opa \<Rightarrow>
     (case Analyze (gvPatterns e) text of (_, risk, findings) \<Rightarrow> (case opa a risk findings of (ok, _, err) \<Rightarrow> ok \<and> err = None)))"

lemma gate_rules_pass:
  "snd (snd (gate_rules e content redacted a policy risk findings)) = None
   \<longleftrightarrow> adAllowed (EvaluateRules policy a risk) \<and> \<not> list_ex (\<lambda>m. m redacted) (ptDangerous (gvPatterns e))"
  by (simp add: gate_rules_def Let_def)

lemma gate_rules_text: "fst (gate_rules e content redacted a policy risk findings) = redacted"
  by (simp add: gate_rules_def Let_def)

text \<open>C26: the gate lets content through only redacted, and only when the policy could be loaded, the OPA binary, if there is one, allows
  it, no rule applies, and the redacted text neither scores too high nor matches a dangerous pattern.\<close>
theorem gate_passes_screened:
  assumes "CheckContext e content a = (text, d, None)"
  shows "text = gvRedact e content \<and> gdAllowed d
    \<and> (\<exists>policy. gate_policy e = Inr policy \<and> \<not> rules_apply (poDeny policy) a \<and> \<not> rules_apply (poApproval policy) a)
    \<and> opa_allows e text a \<and> \<not> (ptSensitive (gvPatterns e) text \<and> ptInjection (gvPatterns e) text)
    \<and> \<not> list_ex (\<lambda>m. m text) (ptDangerous (gvPatterns e))"
proof -
  define redacted where "redacted = gvRedact e content"
  obtain t risk findings where an: "Analyze (gvPatterns e) redacted = (t, risk, findings)" by (metis prod_cases3)
  have risk: "risk < 80 \<longleftrightarrow> \<not> (ptSensitive (gvPatterns e) redacted \<and> ptInjection (gvPatterns e) redacted)"
    using Analyze_risk [of "gvPatterns e" redacted] by (simp add: an)
  obtain policy where policy: "gate_policy e = Inr policy" and opa: "opa_allows e redacted a"
    and rules: "gate_rules e content redacted a policy risk findings = (text, d, None)"
    using assms
    by (auto simp: CheckContext_def Let_def redacted_def [symmetric] an gate_policy_def opa_allows_def
        split: sum.splits option.splits prod.splits if_splits)
  have same: "text = redacted" using gate_rules_text [of e content redacted a policy risk findings] by (simp add: rules)
  have "snd (snd (gate_rules e content redacted a policy risk findings)) = None" by (simp add: rules)
  note pass = this [unfolded gate_rules_pass EvaluateRules_allowed]
  moreover have "gdAllowed d" using rules pass by (auto simp: gate_rules_def EvaluateRules_allowed Let_def split: if_splits)
  ultimately show ?thesis using policy opa risk by (simp add: same redacted_def [symmetric])
qed

definition sample_gate :: gate_env where
  "sample_gate = \<lparr>gvRedact = (\<lambda>t. if t = ''key 42'' then ''key [REDACTED]'' else t),
     gvPatterns = \<lparr>ptSensitive = (\<lambda>t. prefix ''key'' t), ptInjection = (\<lambda>t. prefix ''ignore'' t), ptDangerous = [\<lambda>t. prefix ''send'' t]\<rparr>,
     gvPolicy = Some (Inr \<lparr>poDeny = [blank_rule\<lparr>ruPath := ''**/.env''\<rparr>], poApproval = []\<rparr>), gvOPA = Some (\<lambda>a r fs. (r < 50, [], None))\<rparr>"

definition sample_subject :: action_subject where
  "sample_subject = \<lparr>subAgent = ''codex'', subTool = ''ask'', subPath = ''src/a.go'', subOperation = ''ask'', subNetwork = []\<rparr>"

theorem gate_passes_screened_witness:
  "CheckContext sample_gate ''key 42'' sample_subject
     = (''key [REDACTED]'', \<lparr>gdAllowed = True, gdRedacted = True, gdReason = [], gdRisk = 35, gdFindings = [''sensitive-data-reference'']\<rparr>, None)
   \<and> \<not> list_ex (\<lambda>m. m ''key [REDACTED]'') (ptDangerous (gvPatterns sample_gate))"
proof -
  have run: "CheckContext sample_gate ''key 42'' sample_subject
     = (''key [REDACTED]'', \<lparr>gdAllowed = True, gdRedacted = True, gdReason = [], gdRisk = 35, gdFindings = [''sensitive-data-reference'']\<rparr>, None)"
    by code_simp
  then show ?thesis using gate_passes_screened [OF run] by blast
qed

subsection \<open>Capabilities\<close>

datatype graph_action = DeclareStep capability "string list" | ObserveStep string

fun graph_step :: "graph_action \<Rightarrow> runtime_graph \<Rightarrow> runtime_graph" where
  "graph_step (DeclareStep c parents) g = snd (Declare c parents g)"
| "graph_step (ObserveStep i) g = snd (ObserveCapability i g)"

definition graph_inv :: "runtime_graph \<Rightarrow> bool" where
  "graph_inv g \<longleftrightarrow> distinct (map cbID (rgNodes g)) \<and> [] \<notin> cbID ` set (rgNodes g) \<and> (\<forall>i. rgDrift g i \<longrightarrow> rgObserved g i > 0)"

interpretation capabilities: state_machine graph_step graph_inv
proof
  fix g e assume "graph_inv g"
  then show "graph_inv (graph_step e g)"
    by (cases e) (auto simp: graph_inv_def Declare_def ObserveCapability_def Let_def list_ex_iff split: option.splits)
qed

lemma valid_nodes_None:
  "valid_nodes seen ns = None \<longleftrightarrow> distinct (map cbID ns) \<and> [] \<notin> cbID ` set ns \<and> cbID ` set ns \<inter> set seen = {}"
  by (induction seen ns rule: valid_nodes.induct) auto

text \<open>The first declaration of a capability in a run.\<close>

fun first_declared :: "string \<Rightarrow> graph_action list \<Rightarrow> capability option" where
  "first_declared i [] = None"
| "first_declared i (DeclareStep c ps # es) = (if cbID c = i then Some c else first_declared i es)"
| "first_declared i (ObserveStep j # es) = first_declared i es"

lemma find_append: "find p (xs @ ys) = (case find p xs of Some x \<Rightarrow> Some x | None \<Rightarrow> find p ys)"
  by (induction xs) auto

lemma declared_node:
  "i \<noteq> [] \<Longrightarrow> find (\<lambda>n. cbID n = i) (rgNodes (fold graph_step es g))
     = (case find (\<lambda>n. cbID n = i) (rgNodes g) of Some n \<Rightarrow> Some n | None \<Rightarrow> first_declared i es)"
proof (induction es arbitrary: g)
  case (Cons e es)
  have known: "list_ex p ns \<longleftrightarrow> find p ns \<noteq> None" for p :: "capability \<Rightarrow> bool" and ns
    by (auto simp: find_None_iff list_ex_iff)
  show ?case
  proof (cases e)
    case (DeclareStep c ps)
    then show ?thesis using Cons
      by (auto simp: Declare_def find_append known split: option.splits)
  next
    case (ObserveStep j)
    then show ?thesis using Cons by (simp add: ObserveCapability_def Let_def split: option.splits)
  qed
qed (simp split: option.splits)

text \<open>Observing never grants anything: whatever was declared and observed before, an observation is authorized exactly when the first
  declaration of that capability allows it, and the graph stays valid.\<close>
theorem observation_never_authorizes:
  assumes "i \<noteq> []"
  shows "(fst (ObserveCapability i (fold graph_step es NewRuntimeGraph)) \<longleftrightarrow> (\<exists>c. first_declared i es = Some c \<and> cbAllowed c))
    \<and> ValidGraph (fold graph_step es NewRuntimeGraph) = None"
proof -
  have "graph_inv (fold graph_step es NewRuntimeGraph)"
    by (rule capabilities.run_inv) (simp add: graph_inv_def NewRuntimeGraph_def)
  moreover have "find (\<lambda>n. cbID n = i) (rgNodes (fold graph_step es NewRuntimeGraph)) = first_declared i es"
    using declared_node [OF assms, of es NewRuntimeGraph] by (simp add: NewRuntimeGraph_def)
  ultimately show ?thesis
    by (auto simp: ObserveCapability_def ValidGraph_def valid_nodes_None graph_inv_def Let_def split: option.splits)
qed

definition sample_capability :: "bool \<Rightarrow> capability" where
  "sample_capability ok = \<lparr>cbID = ''deploy'', cbKind = ''tool'', cbSubject = ''ci'', cbDeclaredBy = ''ops'', cbDigest = [], cbAllowed = ok\<rparr>"

theorem observation_never_authorizes_witness:
  "\<not> fst (ObserveCapability ''deploy'' (fold graph_step [ObserveStep ''deploy'', DeclareStep (sample_capability False) [],
      DeclareStep (sample_capability True) []] NewRuntimeGraph))"
  using observation_never_authorizes [of "''deploy''" "[ObserveStep ''deploy'', DeclareStep (sample_capability False) [],
      DeclareStep (sample_capability True) []]"]
  by (simp add: sample_capability_def)

subsection \<open>The Merkle root\<close>

fun level_inputs :: "string list \<Rightarrow> string list" where
  "level_inputs [] = []"
| "level_inputs [x] = [x @ x]"
| "level_inputs (x # y # xs) = (x @ y) # level_inputs xs"

lemma merkle_level_map: "merkle_level sha xs = map sha (level_inputs xs)"
  by (induction xs rule: level_inputs.induct) auto

lemma length_level_inputs: "length (level_inputs xs) = (length xs + 1) div 2"
  by (induction xs rule: level_inputs.induct) auto

lemma level_inputs_inject:
  "length xs = length ys \<Longrightarrow> \<forall>z\<in>set xs \<union> set ys. length z = n \<Longrightarrow> level_inputs xs = level_inputs ys \<Longrightarrow> xs = ys"
proof (induction xs arbitrary: ys rule: level_inputs.induct)
  case (2 x)
  then show ?case by (cases ys) (auto simp: append_eq_append_conv)
next
  case (3 x y xs)
  then obtain a b zs where ys: "ys = a # b # zs" by (cases ys; cases "tl ys") auto
  show ?case using 3 by (auto simp: ys append_eq_append_conv)
qed simp

text \<open>What is hashed on the way to the root.\<close>

function merkle_inputs :: "(string \<Rightarrow> string) \<Rightarrow> string list \<Rightarrow> string set" where
  "merkle_inputs sha xs = (if length xs \<le> 1 then {} else set (level_inputs xs) \<union> merkle_inputs sha (merkle_level sha xs))"
  by auto
termination by (relation "measure (\<lambda>(_, xs). length xs)") (auto simp: length_merkle_level)

declare merkle_inputs.simps [simp del]

lemma merkle_up_inject:
  "length xs = length ys \<Longrightarrow> \<forall>z\<in>set xs \<union> set ys. length z = n \<Longrightarrow> \<forall>z. length (sha z) = n
   \<Longrightarrow> inj_on sha (merkle_inputs sha xs \<union> merkle_inputs sha ys) \<Longrightarrow> merkle_up sha xs = merkle_up sha ys \<Longrightarrow> xs = ys"
proof (induction sha xs arbitrary: ys rule: merkle_up.induct)
  case (1 sha xs)
  show ?case
  proof (cases "length xs \<le> 1")
    case True
    then show ?thesis using 1 by (simp add: merkle_up.simps)
  next
    case False
    have inputs: "merkle_inputs sha zs = set (level_inputs zs) \<union> merkle_inputs sha (merkle_level sha zs)" if "\<not> length zs \<le> 1" for zs
      using that by (simp add: merkle_inputs.simps [of sha zs])
    have "\<not> length ys \<le> 1" using False 1(2) by simp
    note i = inputs [OF False] inputs [OF this]
    have inj: "inj_on sha (merkle_inputs sha (merkle_level sha xs) \<union> merkle_inputs sha (merkle_level sha ys))"
      "inj_on sha (set (level_inputs xs) \<union> set (level_inputs ys))"
      using 1(5) by (auto simp: i intro: inj_on_subset)
    have "merkle_level sha xs = merkle_level sha ys"
      by (rule 1(1)) (use False 1 inj in \<open>auto simp: length_merkle_level merkle_up.simps [of sha xs] merkle_up.simps [of sha ys] merkle_level_map length_level_inputs\<close>)
    then have "level_inputs xs = level_inputs ys"
      using inj(2) by (simp add: merkle_level_map inj_on_map_eq_map)
    then show ?thesis by (rule level_inputs_inject [OF 1(2,3)])
  qed
qed

lemma singleton_eqI: "length xs = 1 \<Longrightarrow> length ys = 1 \<Longrightarrow> hd xs = hd ys \<Longrightarrow> xs = ys"
  by (cases xs; cases ys) auto

lemma length_merkle_up: "length (merkle_up sha xs) = (if xs = [] then 0 else 1)"
proof (induction sha xs rule: merkle_up.induct)
  case (1 sha xs)
  show ?case
  proof (cases "length xs \<le> 1")
    case True
    then show ?thesis by (cases xs) (simp_all add: merkle_up.simps)
  next
    case False
    moreover have "merkle_level sha xs \<noteq> []" using False length_merkle_level [of sha xs] by auto
    ultimately show ?thesis using 1 by (auto simp: merkle_up.simps [of sha xs])
  qed
qed

text \<open>Digests and hash values of one length, and no collision among what the two trees hash.\<close>

definition sound_digests :: "evidence_lib \<Rightarrow> observation_event list \<Rightarrow> observation_event list \<Rightarrow> bool" where
  "sound_digests l xs ys \<longleftrightarrow> (\<exists>n. (\<forall>z. length (elEvent l z) = n) \<and> (\<forall>z. length (elSha l z) = n)) \<and> inj (elHex l)
     \<and> inj_on (elSha l) (merkle_inputs (elSha l) (map (elEvent l) xs) \<union> merkle_inputs (elSha l) (map (elEvent l) ys))
     \<and> inj_on (elEvent l) (set xs \<union> set ys)"

text \<open>Among lists of one length the root determines the events and their order.\<close>
theorem merkle_root_binds:
  assumes "sound_digests l xs ys" and "length xs = length ys" and "MerkleRoot l xs = Inr r" and "MerkleRoot l ys = Inr r"
  shows "xs = ys"
proof -
  obtain n where n: "\<forall>z. length (elEvent l z) = n" "\<forall>z. length (elSha l z) = n" and hex: "inj (elHex l)"
    and sha: "inj_on (elSha l) (merkle_inputs (elSha l) (map (elEvent l) xs) \<union> merkle_inputs (elSha l) (map (elEvent l) ys))"
    and ev: "inj_on (elEvent l) (set xs \<union> set ys)"
    using assms(1) by (auto simp: sound_digests_def)
  let ?x = "merkle_up (elSha l) (map (elEvent l) xs)" and ?y = "merkle_up (elSha l) (map (elEvent l) ys)"
  have some: "xs \<noteq> []" "ys \<noteq> []" and "elHex l (hd ?x) = elHex l (hd ?y)"
    using assms(3,4) by (simp_all add: MerkleRoot_def split: if_splits)
  then have "hd ?x = hd ?y" using hex by (blast dest: injD)
  moreover have "length ?x = 1" "length ?y = 1" using some by (simp_all add: length_merkle_up)
  ultimately have "?x = ?y" by (rule singleton_eqI [rotated 2])
  then have "map (elEvent l) xs = map (elEvent l) ys"
    by (rule merkle_up_inject [of _ _ n, rotated 4]) (use assms(2) n sha in auto)
  then show "xs = ys" using ev by (simp add: inj_on_map_eq_map)
qed

text \<open>Repeating the last of an odd number of events does not change the root.\<close>

lemma merkle_level_last: "odd (length xs) \<Longrightarrow> merkle_level sha (xs @ [last xs]) = merkle_level sha xs"
  by (induction sha xs rule: merkle_level.induct) auto

lemma merkle_root_ambiguous:
  assumes "odd (length xs)" and "length xs > 1"
  shows "MerkleRoot l (xs @ [last xs]) = MerkleRoot l xs"
proof -
  let ?m = "map (elEvent l) xs"
  have "xs \<noteq> []" using assms(2) by auto
  then have last: "elEvent l (last xs) = last ?m" by (simp add: last_map)
  have "merkle_up (elSha l) (?m @ [last ?m]) = merkle_up (elSha l) ?m"
    using assms by (subst merkle_up.simps, subst (2) merkle_up.simps) (use \<open>xs \<noteq> []\<close> in \<open>simp add: merkle_level_last\<close>)
  then show ?thesis using \<open>xs \<noteq> []\<close> by (simp add: MerkleRoot_def last)
qed

subsection \<open>Signed evidence\<close>

text \<open>The scheme verifies what it signed, base64 decodes what it encoded, nothing of interest is empty, and the digest tells the old
  digest of this bundle.\<close>

definition sound_scheme :: "evidence_lib \<Rightarrow> string \<Rightarrow> string \<Rightarrow> evidence_bundle \<Rightarrow> bool" where
  "sound_scheme l key pub e \<longleftrightarrow> (\<forall>m. elVerify l pub m (elSign l key m)) \<and> (\<forall>x. elUnbase64 l (elBase64 l x) = Inr x)
     \<and> (\<forall>m. elBase64 l (elSign l key m) \<noteq> []) \<and> (\<forall>b. elDigest l b \<noteq> []) \<and> (\<forall>b. elDigest l (b\<lparr>ebDigest := ebDigest e\<rparr>) = elDigest l (b\<lparr>ebDigest := []\<rparr>) \<longrightarrow> ebDigest e = [])"

text \<open>Evidence that is signed verifies under the matching key exactly when it did not carry a digest before.\<close>
theorem signed_evidence_verifies:
  assumes "sound_scheme l key pub e" and "SignEvidence l keyID key e = Inr e'"
  shows "VerifyEvidence l True pub e' = None \<longleftrightarrow> ebDigest e = []"
proof -
  obtain f where f: "FinalizeEvidence l e = Inr f" using assms(2) by (auto simp: SignEvidence_def bind_res_Inr)
  then have events: "ebEvents f = ebEvents e" and old: "ebDigest f = ebDigest e" and r: "MerkleRoot l (ebEvents e) = Inr (ebChainRoot f)"
    by (auto simp: FinalizeEvidence_def bind_res_Inr)
  define u where "u = f\<lparr>ebVersion := 1, ebKeyID := keyID, ebSignature := []\<rparr>"
  have u: "ebEvents u = ebEvents e" "ebDigest u = ebDigest e" "ebChainRoot u = ebChainRoot f" "ebSignature u = []"
    by (simp_all add: u_def events old)
  define s where "s = elBase64 l (elSign l key (elEncode l (u\<lparr>ebDigest := elDigest l u\<rparr>)))"
  have e': "e' = u\<lparr>ebDigest := elDigest l u, ebSignature := s\<rparr>"
    using assms(2) unfolding SignEvidence_def f bind_res.simps Let_def u_def [symmetric] s_def [symmetric] by simp
  have parts: "e'\<lparr>ebSignature := []\<rparr> = u\<lparr>ebDigest := elDigest l u\<rparr>" "e'\<lparr>ebDigest := [], ebSignature := []\<rparr> = u\<lparr>ebDigest := []\<rparr>"
    "u\<lparr>ebDigest := ebDigest e\<rparr> = u"
    using u(2,4) by (simp_all add: e')
  have "VerifyEvidence l True pub e' = None \<longleftrightarrow> elDigest l (u\<lparr>ebDigest := []\<rparr>) = elDigest l u"
    using assms(1) r u unfolding VerifyEvidence_def parts err_then_None require_None sound_scheme_def by (simp add: e' s_def)
  moreover have "elDigest l (u\<lparr>ebDigest := []\<rparr>) = elDigest l u \<longleftrightarrow> ebDigest e = []"
    using assms(1) parts(3) unfolding sound_scheme_def by metis
  ultimately show ?thesis by simp
qed

text \<open>A library in which a digest spells out what it digests: sound for the evidence below.\<close>

definition sample_event :: "string \<Rightarrow> observation_event" where
  "sample_event i = \<lparr>ovID = i, ovCapability = ''ask'', ovAgent = ''codex'', ovTenant = ''t1'', ovOperation = ''ask'', ovTarget = ''kimi'',
     ovDigest = [], ovAllowed = True, ovReason = [], ovAt = 1\<rparr>"

definition pad :: "string \<Rightarrow> string" where
  "pad s = take 2 (s @ ''--'')"

definition sample_evidence_lib :: evidence_lib where
  "sample_evidence_lib = \<lparr>elEvent = (\<lambda>v. pad (ovID v)), elSha = (\<lambda>b. pad (take 1 b @ take 1 (drop 2 b))), elHex = (\<lambda>b. b),
     elBase64 = (\<lambda>b. ''='' @ b), elUnbase64 = (\<lambda>b. Inr (tl b)), elDigest = (\<lambda>e. ''d'' @ ebDigest e), elIntent = (\<lambda>s t a o'. s @ t @ a @ o'),
     elEncode = (\<lambda>e. ebSession e @ ebDigest e), elSign = (\<lambda>k m. k @ m), elVerify = (\<lambda>k m s. s = k @ m)\<rparr>"

definition sample_evidence :: evidence_bundle where
  "sample_evidence = \<lparr>ebVersion = 0, ebSession = ''s1'', ebTenant = ''t1'', ebAgent = ''codex'', ebOperation = ''ask'',
     ebEvents = [sample_event ''a''], ebGraph = ([], []), ebDigest = [], ebSignature = [], ebKeyID = [], ebIntent = [], ebChainRoot = []\<rparr>"

theorem signed_evidence_verifies_witness:
  "\<exists>e. SignEvidence sample_evidence_lib ''k1'' ''key'' sample_evidence = Inr e \<and> VerifyEvidence sample_evidence_lib True ''key'' e = None"
proof -
  have "sound_scheme sample_evidence_lib ''key'' ''key'' sample_evidence"
    by (simp add: sound_scheme_def sample_evidence_lib_def)
  moreover obtain e where e: "SignEvidence sample_evidence_lib ''k1'' ''key'' sample_evidence = Inr e"
    by (simp add: SignEvidence_def FinalizeEvidence_def MerkleRoot_def sample_evidence_def Let_def)
  ultimately have "VerifyEvidence sample_evidence_lib True ''key'' e = None"
    using signed_evidence_verifies by (fastforce simp: sample_evidence_def)
  then show ?thesis using e by blast
qed

theorem merkle_root_binds_witness:
  "MerkleRoot sample_evidence_lib (map sample_event [''a'', ''b'', ''c'']) \<noteq> MerkleRoot sample_evidence_lib (map sample_event [''a'', ''b'', ''d''])"
proof
  let ?x = "map sample_event [''a'', ''b'', ''c'']" and ?y = "map sample_event [''a'', ''b'', ''d'']"
  assume eq: "MerkleRoot sample_evidence_lib ?x = MerkleRoot sample_evidence_lib ?y"
  have "inj_on (elSha sample_evidence_lib) (merkle_inputs (elSha sample_evidence_lib) (map (elEvent sample_evidence_lib) ?x)
      \<union> merkle_inputs (elSha sample_evidence_lib) (map (elEvent sample_evidence_lib) ?y))"
    by (simp add: sample_evidence_lib_def sample_event_def pad_def merkle_inputs.simps inj_on_def)
  moreover have "length (pad z) = 2" for z by (simp add: pad_def)
  moreover have "inj_on (elEvent sample_evidence_lib) (set ?x \<union> set ?y)"
    by (simp add: sample_evidence_lib_def sample_event_def pad_def inj_on_def)
  ultimately have "sound_digests sample_evidence_lib ?x ?y"
    by (auto simp: sound_digests_def sample_evidence_lib_def)
  moreover obtain r where "MerkleRoot sample_evidence_lib ?x = Inr r" by (simp add: MerkleRoot_def)
  ultimately have "?x = ?y" using eq merkle_root_binds [of sample_evidence_lib ?x ?y r] by simp
  then show False by (simp add: sample_event_def)
qed

end
