(* ===== verification/Provenance.thy ===== *)
theory Provenance
  imports Prelude
begin

text \<open>
  The chain of provenance events (\<open>internal/provenance\<close>): each event names the root before it, and the root is the
  hash of that root with the event. The hash, in hexadecimal, and the serialisation of an event are parameters; the serialisation
  of \<open>json.Marshal\<close> fails for a year beyond 9999 and replaces bytes that are not UTF-8, so it is partial and need not be injective.
\<close>

record provenance_event =
  peSequence :: int
  peKind :: string
  peSubject :: string
  peDigest :: string
  pePrevious :: string
  peAt :: int

record provenance_chain =
  pcEvents :: "provenance_event list"
  pcRoot :: string

definition new_chain :: provenance_chain where
  "new_chain = \<lparr>pcEvents = [], pcRoot = []\<rparr>"

record provenance_lib =
  plHash :: "string \<Rightarrow> string"
  plJSON :: "provenance_event \<Rightarrow> string option"

text \<open>A failing serialisation is ignored: the text is empty then.\<close>

definition event_text :: "provenance_lib \<Rightarrow> provenance_event \<Rightarrow> string" where
  "event_text l e = (case plJSON l e of None \<Rightarrow> [] | Some t \<Rightarrow> t)"

definition link :: "provenance_lib \<Rightarrow> string \<Rightarrow> provenance_event \<Rightarrow> string" where
  "link l previous e = plHash l (previous @ event_text l e)"

text \<open>Of the payload only the name of its type is hashed.\<close>

definition AppendEvent ::
  "provenance_lib \<Rightarrow> string \<Rightarrow> string \<Rightarrow> string \<times> string \<Rightarrow> int \<Rightarrow> provenance_chain \<Rightarrow> (msg + provenance_event) \<times> provenance_chain" where
  "AppendEvent l kind subject payload now c =
     (if kind = [] \<or> subject = [] then (Inl (plain ''kind and subject are required''), c)
      else let e = \<lparr>peSequence = int (length (pcEvents c)) + 1, peKind = kind, peSubject = subject, peDigest = plHash l (fst payload),
                    pePrevious = pcRoot c, peAt = now\<rparr>
           in (Inr e, \<lparr>pcEvents = pcEvents c @ [e], pcRoot = link l (pcRoot c) e\<rparr>))"

fun verify_from :: "provenance_lib \<Rightarrow> int \<Rightarrow> string \<Rightarrow> provenance_event list \<Rightarrow> msg + string" where
  "verify_from l n previous [] = Inr previous"
| "verify_from l n previous (e # es) =
     (if peSequence e \<noteq> n \<or> pePrevious e \<noteq> previous then Inl (Msg ''provenance chain broken at sequence %d'' [AI (peSequence e)])
      else verify_from l (n + 1) (link l previous e) es)"

definition VerifyChain :: "provenance_lib \<Rightarrow> provenance_chain \<Rightarrow> msg option" where
  "VerifyChain l c =
     (case verify_from l 1 [] (pcEvents c) of
        Inl m \<Rightarrow> Some m
      | Inr r \<Rightarrow> require (r = pcRoot c) (plain ''provenance root mismatch''))"

subsection \<open>What the chain guarantees\<close>

fun inputs_from :: "provenance_lib \<Rightarrow> string \<Rightarrow> provenance_event list \<Rightarrow> string set" where
  "inputs_from l p [] = {}"
| "inputs_from l p (e # es) = insert (p @ event_text l e) (inputs_from l (link l p e) es)"

text \<open>What is asked of the library for two lists of events: hash values have one length, every event of the lists has a text, which is
  not empty and does not begin like a hash value, and there
  is no collision among what the two chains hash, nor among the texts of their events.\<close>

definition sound_hash :: "provenance_lib \<Rightarrow> provenance_event list \<Rightarrow> provenance_event list \<Rightarrow> bool" where
  "sound_hash l es fs \<longleftrightarrow> (\<exists>n>0. \<forall>x. length (plHash l x) = n)
     \<and> (\<forall>e\<in>set es \<union> set fs. \<exists>t. plJSON l e = Some t \<and> t \<noteq> [] \<and> (\<forall>x. hd (plHash l x) \<noteq> hd t))
     \<and> inj_on (plHash l) (inputs_from l [] es \<union> inputs_from l [] fs) \<and> inj_on (plJSON l) (set es \<union> set fs)"

definition chain_root :: "provenance_lib \<Rightarrow> provenance_event list \<Rightarrow> string" where
  "chain_root l es = fold (\<lambda>e r. link l r e) es []"

lemma verify_from_root:
  "verify_from l n p es = Inr r \<Longrightarrow> r = fold (\<lambda>e r. link l r e) es p"
  by (induction l n p es rule: verify_from.induct) (auto split: if_splits)

lemma verify_from_append:
  "verify_from l n p (es @ fs) = (case verify_from l n p es of Inl m \<Rightarrow> Inl m | Inr r \<Rightarrow> verify_from l (n + int (length es)) r fs)"
proof (induction l n p es rule: verify_from.induct)
  case (2 l n p e es)
  have "n + int (length (e # es)) = n + 1 + int (length es)" by simp
  then show ?case using 2 by (cases "peSequence e \<noteq> n \<or> pePrevious e \<noteq> p") (simp_all only: verify_from.simps append.simps if_True if_False sum.case simp_thms de_Morgan_disj not_not)
qed simp

lemma chain_root_snoc: "chain_root l (es @ [e]) = link l (chain_root l es) e"
  by (simp add: chain_root_def)

lemma VerifyChain_root: "VerifyChain l c = None \<Longrightarrow> pcRoot c = chain_root l (pcEvents c)"
  by (auto simp: VerifyChain_def chain_root_def split: sum.splits dest: verify_from_root)

lemma inputs_snoc: "inputs_from l p (es @ [e]) = insert (fold (\<lambda>e r. link l r e) es p @ event_text l e) (inputs_from l p es)"
  by (induction es arbitrary: p) auto

lemma sound_hash_butlast: "sound_hash l (es @ [e]) (fs @ [f]) \<Longrightarrow> sound_hash l es fs"
  by (auto simp: sound_hash_def inputs_snoc intro: inj_on_subset)

lemma chain_root_cases: "es \<noteq> [] \<Longrightarrow> \<exists>x. chain_root l es = plHash l x"
  by (cases es rule: rev_cases) (auto simp: chain_root_snoc link_def)

lemma link_inject:
  assumes "sound_hash l (es @ [e]) (fs @ [f])" and "link l (chain_root l es) e = link l (chain_root l fs) f"
  shows "chain_root l es = chain_root l fs \<and> e = f"
proof -
  obtain n where n: "n > 0" "\<And>x. length (plHash l x) = n" and inj: "inj_on (plJSON l) (set (es @ [e]) \<union> set (fs @ [f]))"
    using assms(1) by (auto simp: sound_hash_def)
  obtain t u where json: "plJSON l e = Some t" "plJSON l f = Some u" and head: "\<And>x. hd (plHash l x) \<noteq> hd t" "\<And>x. hd (plHash l x) \<noteq> hd u"
    using assms(1) by (auto simp: sound_hash_def)
  have "inj_on (plHash l) (inputs_from l [] (es @ [e]) \<union> inputs_from l [] (fs @ [f]))"
    using assms(1) by (simp add: sound_hash_def)
  moreover have "chain_root l xs @ event_text l x \<in> inputs_from l [] (xs @ [x])" for xs x by (simp add: inputs_snoc chain_root_def)
  ultimately have "chain_root l es @ event_text l e = chain_root l fs @ event_text l f"
    using assms(2) by (auto simp: link_def simp del: append_same_eq dest: inj_onD)
  then have eq: "chain_root l es @ t = chain_root l fs @ u" by (simp add: event_text_def json)
  have start: "hd (chain_root l xs @ x) \<noteq> hd y" if some: "xs \<noteq> []" "y = t \<or> y = u" for xs x y
  proof -
    obtain h where h: "chain_root l xs = plHash l h" using chain_root_cases [OF some(1)] by blast
    have "plHash l h \<noteq> []" using n by (metis length_greater_0_conv)
    then show ?thesis using head some(2) by (auto simp: h)
  qed
  have "es = [] \<longleftrightarrow> fs = []"
  proof (cases "es = []")
    case True
    then show ?thesis using eq start [of fs t u] by (cases "fs = []") (simp_all add: chain_root_def)
  next
    case False
    then show ?thesis using eq start [of es u t] by (cases "fs = []") (simp_all add: chain_root_def)
  qed
  then have "length (chain_root l es) = length (chain_root l fs)"
    using n chain_root_cases [of es l] chain_root_cases [of fs l] by (cases "es = []") (auto simp: chain_root_def)
  then have "chain_root l es = chain_root l fs" "plJSON l e = plJSON l f" using eq json by auto
  moreover have "e = f" by (rule inj_onD [OF inj \<open>plJSON l e = plJSON l f\<close>]) simp_all
  ultimately show ?thesis by simp
qed

lemma chain_root_inject: "sound_hash l es fs \<Longrightarrow> chain_root l es = chain_root l fs \<Longrightarrow> es = fs"
proof (induction es arbitrary: fs rule: rev_induct)
  case Nil
  then obtain n where "n > 0" "\<And>x. length (plHash l x) = n" by (auto simp: sound_hash_def)
  then have "[] \<noteq> plHash l x" for x by (metis length_greater_0_conv)
  moreover have "chain_root l fs = []" using Nil(2) by (simp add: chain_root_def)
  ultimately show ?case using chain_root_cases [of fs l] by metis
next
  case (snoc e es)
  show ?case
  proof (cases fs rule: rev_cases)
    case Nil
    obtain n where "n > 0" "\<And>x. length (plHash l x) = n" using snoc.prems(1) by (auto simp: sound_hash_def)
    then have "plHash l x \<noteq> []" for x by (metis length_greater_0_conv)
    then show ?thesis using Nil snoc.prems(2) by (simp add: chain_root_def link_def)
  next
    case (snoc gs g)
    note fs = this
    have "chain_root l es = chain_root l gs \<and> e = g"
      by (rule link_inject) (use snoc.prems fs in \<open>simp_all add: chain_root_snoc\<close>)
    then show ?thesis using snoc.IH [of gs] sound_hash_butlast [of l es e gs g] snoc.prems(1) fs by simp
  qed
qed

text \<open>The events of a run of the recorder: kind, subject, payload, time.\<close>

definition record_events :: "provenance_lib \<Rightarrow> (string \<times> string \<times> (string \<times> string) \<times> int) list \<Rightarrow> provenance_chain" where
  "record_events l xs = fold (\<lambda>(k, s, p, t) c. snd (AppendEvent l k s p t c)) xs new_chain"

lemma AppendEvent_verifies:
  assumes "VerifyChain l c = None"
  shows "VerifyChain l (snd (AppendEvent l k s p t c)) = None"
  using assms by (auto simp: VerifyChain_def AppendEvent_def Let_def verify_from_append split: sum.splits)

lemma record_events_verifies: "VerifyChain l (record_events l xs) = None"
proof -
  have "VerifyChain l c = None \<Longrightarrow> VerifyChain l (fold (\<lambda>(k, s, p, t) c. snd (AppendEvent l k s p t c)) xs c) = None" for c
    by (induction xs arbitrary: c) (auto simp: AppendEvent_verifies)
  moreover have "VerifyChain l new_chain = None" by (simp add: VerifyChain_def new_chain_def)
  ultimately show ?thesis by (simp add: record_events_def)
qed

text \<open>C31: every recorded chain verifies. Whatever other list of events verifies against its root is the recorded one, so an event
  that is changed, dropped, added or moved is noticed, as long as the hash does not collide and the recorded and the presented
  events have texts of their own: an event that \<open>json.Marshal\<close> cannot write, or writes like another, is not covered.\<close>
theorem provenance_tamper_evident:
  assumes "sound_hash l es (pcEvents (record_events l xs))"
  shows "VerifyChain l (record_events l xs) = None
    \<and> (VerifyChain l ((record_events l xs)\<lparr>pcEvents := es\<rparr>) = None \<longrightarrow> es = pcEvents (record_events l xs))"
proof (intro conjI impI record_events_verifies)
  assume "VerifyChain l ((record_events l xs)\<lparr>pcEvents := es\<rparr>) = None"
  then have "pcRoot (record_events l xs) = chain_root l es" by (auto dest: VerifyChain_root)
  moreover have "pcRoot (record_events l xs) = chain_root l (pcEvents (record_events l xs))"
    by (rule VerifyChain_root [OF record_events_verifies])
  ultimately show "es = pcEvents (record_events l xs)" using chain_root_inject [OF assms] by simp
qed

definition sample_provenance :: provenance_lib where
  "sample_provenance = \<lparr>plHash = (\<lambda>x. ''h'' @ take 8 (x @ ''00000000'')), plJSON = (\<lambda>e. Some (''{'' @ peSubject e))\<rparr>"

definition sample_recorded :: provenance_chain where
  "sample_recorded = record_events sample_provenance [(''intent'', ''user'', (''map'', ''review''), 1)]"

definition sample_tampered :: "provenance_event list" where
  "sample_tampered = map (\<lambda>e. e\<lparr>peSubject := ''eve''\<rparr>) (pcEvents sample_recorded)"

theorem provenance_tamper_evident_witness:
  "VerifyChain sample_provenance sample_recorded = None
   \<and> VerifyChain sample_provenance (sample_recorded\<lparr>pcEvents := sample_tampered\<rparr>) \<noteq> None"
proof -
  have es: "pcEvents sample_recorded = [\<lparr>peSequence = 1, peKind = ''intent'', peSubject = ''user'', peDigest = ''hmap00000'', pePrevious = [], peAt = 1\<rparr>]"
    by code_simp
  have sound: "sound_hash sample_provenance sample_tampered (pcEvents sample_recorded)"
    unfolding sound_hash_def
  proof (intro conjI)
    have "length (take 8 (x @ ''00000000'')) = 8" for x :: string by simp
    then show "\<exists>n>0. \<forall>x. length (plHash sample_provenance x) = n" by (intro exI [of _ 9]) (simp add: sample_provenance_def del: length_take take_append)
    show "inj_on (plHash sample_provenance) (inputs_from sample_provenance [] sample_tampered
        \<union> inputs_from sample_provenance [] (pcEvents sample_recorded))"
      by (auto simp: sample_provenance_def sample_tampered_def es inj_on_def event_text_def)
    show "inj_on (plJSON sample_provenance) (set sample_tampered \<union> set (pcEvents sample_recorded))"
      by (auto simp: sample_provenance_def sample_tampered_def es inj_on_def)
  qed (simp add: sample_provenance_def)
  have "sample_tampered \<noteq> pcEvents sample_recorded" by (simp add: sample_tampered_def es)
  then show ?thesis
    using provenance_tamper_evident [OF sound [unfolded sample_recorded_def], folded sample_recorded_def] by blast
qed

text \<open>An event may be replaced by any other of the same text, in particular one that cannot be written by another such one.\<close>

lemma same_text_not_noticed:
  assumes "event_text l e = event_text l f" and "peSequence e = peSequence f" and "pePrevious e = pePrevious f"
  shows "VerifyChain l \<lparr>pcEvents = es @ e # fs, pcRoot = r\<rparr> = VerifyChain l \<lparr>pcEvents = es @ f # fs, pcRoot = r\<rparr>"
proof -
  have "verify_from l n p (e # fs) = verify_from l n p (f # fs)" for n p
    using assms by (auto simp: link_def)
  then show ?thesis by (simp only: VerifyChain_def verify_from_append provenance_chain.simps)
qed

text \<open>The payloads do not matter: two runs that differ only in the contents of their payloads record the same chain.\<close>

lemma payload_not_bound:
  "map (\<lambda>(k, s, p, t). (k, s, fst p, t)) xs = map (\<lambda>(k, s, p, t). (k, s, fst p, t)) ys \<Longrightarrow> record_events l xs = record_events l ys"
proof -
  have step: "fold (\<lambda>(k, s, p, t) c. snd (AppendEvent l k s p t c)) xs c
      = fold (\<lambda>(k, s, p, t) c. snd (AppendEvent l k s (p, []) t c)) (map (\<lambda>(k, s, p, t). (k, s, fst p, t)) xs) c" for xs c
    by (induction xs arbitrary: c) (auto simp: AppendEvent_def)
  show "map (\<lambda>(k, s, p, t). (k, s, fst p, t)) xs = map (\<lambda>(k, s, p, t). (k, s, fst p, t)) ys \<Longrightarrow> record_events l xs = record_events l ys"
    by (simp add: record_events_def step)
qed

end
