(* ===== verification/McpAccess.thy ===== *)
theory McpAccess
  imports ReviewTypes
begin

text \<open>
  Third-party MCP servers: the registry that admits servers, tools and endpoints (\<open>internal/mcpregistry\<close>) and the
  gateway that forwards calls to them (\<open>internal/mcpgateway\<close>). URLs, glob patterns and the remote servers are
  arguments; the requests a gateway sends are kept in its state.
\<close>

subsection \<open>The registry\<close>

record mcp_server =
  msType :: string
  msEnabled :: bool
  msEndpoint :: string
  msCommand :: string
  msAllowedTools :: "string list"
  msToolRisk :: "(string \<times> string) list"
  msAllowedDomains :: "string list"
  msCapabilities :: "string list"
  msNetworkMode :: string
  msRequiresApproval :: bool
  msTimeout :: int
  msMaxRequests :: int

record mcp_policy =
  mpServers :: "string list"
  mpAllowedTools :: "string list"
  mpDeniedTools :: "string list"
  mpAllowedDomains :: "string list"
  mpApprovalWrite :: bool
  mpApprovalRisk :: "string list"

record mcp_registry =
  mrDefaultDeny :: bool
  mrServers :: "(string \<times> mcp_server) list"
  mrPolicies :: "(string \<times> mcp_policy) list"

text \<open>A URL as its scheme, host and host name; a glob pattern against a name.\<close>

record mcp_lib =
  mlTrim :: "string \<Rightarrow> string"
  mlLower :: "string \<Rightarrow> string"
  mlURL :: "string \<Rightarrow> (string \<times> string \<times> string) option"
  mlGlob :: "string \<Rightarrow> string \<Rightarrow> bool"

definition http_scheme :: "string \<Rightarrow> bool" where
  "http_scheme s \<longleftrightarrow> s = ''https'' \<or> s = ''http''"

definition validate_server :: "mcp_lib \<Rightarrow> string \<times> mcp_server \<Rightarrow> msg option" where
  "validate_server l ns =
     (case ns of (name, s) \<Rightarrow>
        let typ = mlLower l (mlTrim l (msType s)) in
        err_then (require (mlTrim l name \<noteq> []) (plain ''MCP server name must not be empty''))
       (err_then (require (typ = ''local'' \<or> typ = ''remote'') (Msg ''MCP server %q: type must be local or remote'' [AS name]))
       (err_then
         (if \<not> msEnabled s then None
          else err_then (require (msAllowedTools s \<noteq> []) (Msg ''MCP server %q: enabled server requires an explicit allowed_tools list'' [AS name]))
              (err_then (require (typ = ''local'' \<longrightarrow> mlTrim l (msCommand s) \<noteq> [])
                          (Msg ''MCP server %q: enabled local server requires command'' [AS name]))
                (require (typ = ''remote'' \<longrightarrow> (case mlURL l (mlTrim l (msEndpoint s)) of None \<Rightarrow> False | Some (scheme, host, _) \<Rightarrow> http_scheme scheme \<and> host \<noteq> []))
                          (Msg ''MCP server %q: enabled remote server requires an http(s) endpoint'' [AS name]))))
       (err_then (require (msNetworkMode s \<in> {[], ''none'', ''host''}) (Msg ''MCP server %q: network_mode must be none or host'' [AS name]))
       (err_then (require (msTimeout s \<ge> 0 \<and> msMaxRequests s \<ge> 0) (Msg ''MCP server %q: limits must not be negative'' [AS name]))
       (err_then (require (list_all (\<lambda>t. mlTrim l t \<noteq> []) (msAllowedTools s @ msCapabilities s))
                   (Msg ''MCP server %q: tool/capability names must not be empty'' [AS name]))
         (first_err (\<lambda>(tool, risk). require (mlLower l (mlTrim l risk) \<in> {''read'', ''write'', ''destructive'', ''critical''})
                       (Msg ''MCP server %q: invalid risk %q for tool %q'' [AS name, AS risk, AS tool])) (msToolRisk s))))))))"

definition validate_policy :: "mcp_lib \<Rightarrow> mcp_registry \<Rightarrow> string \<times> mcp_policy \<Rightarrow> msg option" where
  "validate_policy l g np =
     (case np of (name, p) \<Rightarrow>
        err_then (require (mlTrim l name \<noteq> []) (plain ''MCP policy name must not be empty''))
          (first_err (\<lambda>s. require (map_of (mrServers g) s \<noteq> None) (Msg ''MCP policy %q references unknown server %q'' [AS name, AS s])) (mpServers p)))"

definition ValidateRegistry :: "mcp_lib \<Rightarrow> mcp_registry \<Rightarrow> msg option" where
  "ValidateRegistry l g = err_then (first_err (validate_server l) (mrServers g)) (first_err (validate_policy l g) (mrPolicies g))"

definition NewRegistry :: "mcp_lib \<Rightarrow> mcp_registry \<Rightarrow> msg + mcp_registry" where
  "NewRegistry l g = guard_res (ValidateRegistry l g) (Inr g)"

definition ListServers :: "mcp_registry \<Rightarrow> (string \<times> mcp_server) list" where
  "ListServers g = sort_key fst (mrServers g)"

definition pattern_matches :: "mcp_lib \<Rightarrow> string list \<Rightarrow> string \<Rightarrow> bool" where
  "pattern_matches l ps v \<longleftrightarrow> ps = [] \<or> list_ex (\<lambda>p. let p = mlTrim l p in p = v \<or> p = ''*'' \<or> mlGlob l p v) ps"

record mcp_decision =
  mdAllowed :: bool
  mdApproval :: bool
  mdReason :: string
  mdRisk :: string

definition refused :: "string \<Rightarrow> string \<Rightarrow> mcp_decision" where
  "refused reason risk = \<lparr>mdAllowed = False, mdApproval = False, mdReason = reason, mdRisk = risk\<rparr>"

text \<open>What a named policy says of a tool: a reason to refuse it, or whether it asks for an approval.\<close>

definition policy_check :: "mcp_lib \<Rightarrow> mcp_registry \<Rightarrow> string \<Rightarrow> string \<Rightarrow> string \<Rightarrow> string \<Rightarrow> string + bool" where
  "policy_check l g policy server tool risk =
     (if policy = [] then Inr False
      else case map_of (mrPolicies g) policy of
        None \<Rightarrow> Inl ''policy is not registered''
      | Some p \<Rightarrow>
          if mpServers p \<noteq> [] \<and> \<not> pattern_matches l (mpServers p) server then Inl ''server is not allowed by policy''
          else if mpAllowedTools p \<noteq> [] \<and> \<not> pattern_matches l (mpAllowedTools p) tool then Inl ''tool is not allowed by policy''
          else if mpDeniedTools p \<noteq> [] \<and> pattern_matches l (mpDeniedTools p) tool then Inl ''tool is denied by policy''
          else Inr (mpApprovalWrite p \<or> list_ex (\<lambda>r. mlLower l (mlTrim l r) = risk) (mpApprovalRisk p)))"

definition tool_risk :: "mcp_lib \<Rightarrow> mcp_server \<Rightarrow> string \<Rightarrow> string" where
  "tool_risk l s tool = mlLower l (mlTrim l (case map_of (msToolRisk s) tool of None \<Rightarrow> [] | Some r \<Rightarrow> r))"

definition CheckTool :: "mcp_lib \<Rightarrow> mcp_registry \<Rightarrow> string \<Rightarrow> string \<Rightarrow> string \<Rightarrow> mcp_decision" where
  "CheckTool l g server tool policy =
     (case map_of (mrServers g) server of
        None \<Rightarrow> refused ''server is not registered'' []
      | Some s \<Rightarrow>
          if \<not> msEnabled s then refused ''server is disabled'' []
          else if \<not> pattern_matches l (msAllowedTools s) tool then refused ''tool is not allowed by server allowlist'' []
          else let risk = tool_risk l s tool in
            (case policy_check l g policy server tool risk of
               Inl reason \<Rightarrow> refused reason risk
             | Inr asks \<Rightarrow>
                 let asks = asks \<or> risk = ''destructive'' \<or> risk = ''critical'' \<or> msRequiresApproval s in
                 if mrDefaultDeny g \<and> policy = []
                 then \<lparr>mdAllowed = False, mdApproval = asks, mdReason = ''default-deny registry requires an explicit policy'', mdRisk = risk\<rparr>
                 else \<lparr>mdAllowed = True, mdApproval = asks, mdReason = [], mdRisk = risk\<rparr>))"

definition allowed_domains :: "mcp_registry \<Rightarrow> string \<Rightarrow> mcp_server \<Rightarrow> string list" where
  "allowed_domains g policy s =
     (case map_of (mrPolicies g) policy of
        None \<Rightarrow> msAllowedDomains s
      | Some p \<Rightarrow> if mpAllowedDomains p \<noteq> [] then mpAllowedDomains p else msAllowedDomains s)"

definition CheckEndpoint :: "mcp_lib \<Rightarrow> mcp_registry \<Rightarrow> string \<Rightarrow> string \<Rightarrow> string \<Rightarrow> mcp_decision" where
  "CheckEndpoint l g server endpoint policy =
     (if mrDefaultDeny g \<and> mlTrim l policy = [] then refused ''default-deny registry requires an explicit policy for remote discovery'' []
      else case map_of (mrServers g) server of
        None \<Rightarrow> refused ''server is not registered'' []
      | Some s \<Rightarrow>
          (case mlURL l (mlTrim l endpoint) of
             None \<Rightarrow> refused ''endpoint must be an http(s) URL'' []
           | Some (scheme, _, host) \<Rightarrow>
               if \<not> http_scheme scheme \<or> host = [] then refused ''endpoint must be an http(s) URL'' []
               else let ds = allowed_domains g policy s in
                 if ds = [] then refused ''remote endpoint requires an explicit domain allowlist'' []
                 else if list_ex (\<lambda>d. mlLower l (mlTrim l d) = mlLower l host) ds
                 then \<lparr>mdAllowed = True, mdApproval = False, mdReason = [], mdRisk = []\<rparr>
                 else refused ''endpoint domain is not allowlisted'' []))"

subsection \<open>The gateway\<close>

record gateway_audit =
  atServer :: string
  atTool :: string
  atCaller :: string
  atAllowed :: bool
  atApproval :: bool
  atError :: msg

text \<open>The methods of the protocol a client uses. A request is kept with the server whose client sends it, its endpoint and its session.\<close>

datatype mcp_method = Initialize | ToolsList | ToolsCall string string

record sent_request =
  sqServer :: string
  sqEndpoint :: string
  sqSession :: string
  sqMethod :: mcp_method

record mcp_client =
  mcEndpoint :: string
  mcSession :: string

text \<open>\<open>gwSink\<close> tells whether an audit sink is set; without one nothing is recorded.\<close>

record gateway =
  gwRegistry :: mcp_registry
  gwPolicy :: string
  gwSink :: bool
  gwClients :: "(string \<times> mcp_client) list"
  gwAudit :: "gateway_audit list"
  gwSent :: "sent_request list"

definition NewGateway :: "mcp_registry \<Rightarrow> string \<Rightarrow> bool \<Rightarrow> gateway" where
  "NewGateway g policy sink = \<lparr>gwRegistry = g, gwPolicy = policy, gwSink = sink, gwClients = [], gwAudit = [], gwSent = []\<rparr>"

text \<open>The client of a server; its endpoint is looked up and checked once and then kept.\<close>

definition clientFor :: "mcp_lib \<Rightarrow> string \<Rightarrow> gateway \<Rightarrow> (msg + mcp_client) \<times> gateway" where
  "clientFor l name w =
     (case map_of (gwClients w) name of
        Some c \<Rightarrow> (Inr c, w)
      | None \<Rightarrow>
          (case map_of (ListServers (gwRegistry w)) name of
             None \<Rightarrow> (Inl (Msg ''MCP server %q is not registered'' [AS name]), w)
           | Some s \<Rightarrow>
               if msType s \<noteq> ''remote'' then (Inl (Msg ''MCP server %q is not a remote server'' [AS name]), w)
               else let d = CheckEndpoint l (gwRegistry w) name (msEndpoint s) (gwPolicy w) in
                 if \<not> mdAllowed d then (Inl (Msg ''external MCP endpoint denied for %q: %s'' [AS name, AS (mdReason d)]), w)
                 else let c = \<lparr>mcEndpoint = msEndpoint s, mcSession = []\<rparr> in (Inr c, w\<lparr>gwClients := (name, c) # gwClients w\<rparr>)))"

subsection \<open>The client\<close>

text \<open>The remote servers and JSON: what a request with a number is answered at an endpoint, the result in the body of an answer or
  the error it reports, the tools in a result, and whether arguments can be decoded.\<close>

record http_answer =
  haStatus :: int
  haSession :: string
  haBody :: string

record remote_servers =
  rmPost :: "nat \<Rightarrow> string \<Rightarrow> string \<Rightarrow> mcp_method \<Rightarrow> msg + http_answer"
  rmResult :: "string \<Rightarrow> msg + string"
  rmTools :: "string \<Rightarrow> msg + (string \<times> string) list"
  rmArguments :: "string \<Rightarrow> msg option"

text \<open>One request; a session the server names is kept for the next ones.\<close>

definition client_request :: "remote_servers \<Rightarrow> string \<Rightarrow> mcp_client \<Rightarrow> mcp_method \<Rightarrow> gateway \<Rightarrow> (msg + string) \<times> mcp_client \<times> gateway" where
  "client_request m name c meth w =
     (let w = w\<lparr>gwSent := gwSent w @ [\<lparr>sqServer = name, sqEndpoint = mcEndpoint c, sqSession = mcSession c, sqMethod = meth\<rparr>]\<rparr> in
      case rmPost m (length (gwSent w)) (mcEndpoint c) (mcSession c) meth of
        Inl e \<Rightarrow> (Inl e, c, w)
      | Inr a \<Rightarrow>
          if haStatus a < 200 \<or> haStatus a \<ge> 300 then (Inl (Msg ''remote MCP returned HTTP %d: %s'' [AI (haStatus a), AS (haBody a)]), c, w)
          else let c = c\<lparr>mcSession := (if haSession a = [] then mcSession c else haSession a)\<rparr> in
            (rmResult m (haBody a), c, w\<lparr>gwClients := AList.update name c (gwClients w)\<rparr>))"

text \<open>A client without a session introduces itself first.\<close>

definition in_session :: "remote_servers \<Rightarrow> string \<Rightarrow> mcp_client \<Rightarrow> gateway \<Rightarrow> msg option \<times> mcp_client \<times> gateway" where
  "in_session m name c w =
     (if mcSession c \<noteq> [] then (None, c, w)
      else case client_request m name c Initialize w of
        (Inl e, c, w) \<Rightarrow> (Some e, c, w)
      | (Inr _, c, w) \<Rightarrow> (None, c, w))"

definition client_list :: "remote_servers \<Rightarrow> string \<Rightarrow> mcp_client \<Rightarrow> gateway \<Rightarrow> (msg + (string \<times> string) list) \<times> gateway" where
  "client_list m name c w =
     (case in_session m name c w of
        (Some e, _, w) \<Rightarrow> (Inl e, w)
      | (None, c, w) \<Rightarrow>
          (case client_request m name c ToolsList w of
             (Inl e, _, w) \<Rightarrow> (Inl e, w)
           | (Inr r, _, w) \<Rightarrow> (rmTools m r, w)))"

definition client_call :: "remote_servers \<Rightarrow> string \<Rightarrow> mcp_client \<Rightarrow> string \<Rightarrow> string \<Rightarrow> gateway \<Rightarrow> (msg + string) \<times> gateway" where
  "client_call m name c tool args w =
     (case in_session m name c w of
        (Some e, _, w) \<Rightarrow> (Inl e, w)
      | (None, c, w) \<Rightarrow>
          (case (if args = [] \<or> args = ''null'' then None else rmArguments m args) of
             Some e \<Rightarrow> (Inl e, w)
           | None \<Rightarrow> (case client_request m name c (ToolsCall tool args) w of (r, _, w) \<Rightarrow> (r, w))))"

subsection \<open>Listing and calling\<close>

definition exposed :: "string \<Rightarrow> string \<Rightarrow> string" where
  "exposed server tool = server @ ''__'' @ tool"

definition server_tools :: "mcp_lib \<Rightarrow> remote_servers \<Rightarrow> string \<Rightarrow> gateway \<Rightarrow> (msg + (string \<times> string) list) \<times> gateway" where
  "server_tools l m name w =
     (case clientFor l name w of
        (Inl x, w) \<Rightarrow> (Inl x, w)
      | (Inr c, w) \<Rightarrow>
          (case client_list m name c w of
             (Inl x, w) \<Rightarrow> (Inl (Msg ''list tools from %s: %w'' [AS name, AM x]), w)
           | (Inr ts, w) \<Rightarrow>
               (Inr (map (\<lambda>(t, d). (exposed name t, ''External MCP '' @ name @ '': '' @ d))
                      (filter (\<lambda>(t, _). mdAllowed (CheckTool l (gwRegistry w) name t (gwPolicy w))) ts)), w)))"

fun list_tools :: "mcp_lib \<Rightarrow> remote_servers \<Rightarrow> (string \<times> mcp_server) list \<Rightarrow> gateway \<Rightarrow> (msg + (string \<times> string) list) \<times> gateway" where
  "list_tools l m [] w = (Inr [], w)"
| "list_tools l m ((name, s) # ss) w =
     (if \<not> msEnabled s \<or> msType s \<noteq> ''remote'' then list_tools l m ss w
      else case server_tools l m name w of
        (Inl x, w) \<Rightarrow> (Inl x, w)
      | (Inr ts, w) \<Rightarrow>
          (case list_tools l m ss w of
             (Inl x, w) \<Rightarrow> (Inl x, w)
           | (Inr us, w) \<Rightarrow> (Inr (ts @ us), w)))"

definition ListTools :: "mcp_lib \<Rightarrow> remote_servers \<Rightarrow> gateway \<Rightarrow> (msg + (string \<times> string) list) \<times> gateway" where
  "ListTools l m w = list_tools l m (ListServers (gwRegistry w)) w"

text \<open>The text before the first double underscore and the text after it.\<close>

fun split_exposed :: "string \<Rightarrow> (string \<times> string) option" where
  "split_exposed [] = None"
| "split_exposed [c] = None"
| "split_exposed (c # d # cs) =
     (if c = CHR ''_'' \<and> d = CHR ''_'' then Some ([], cs)
      else map_option (\<lambda>(a, b). (c # a, b)) (split_exposed (d # cs)))"

definition audited :: "string \<Rightarrow> string \<Rightarrow> string \<Rightarrow> mcp_decision \<Rightarrow> msg \<Rightarrow> gateway \<Rightarrow> gateway" where
  "audited server tool caller d err w =
     (if gwSink w then w\<lparr>gwAudit := gwAudit w @
        [\<lparr>atServer = server, atTool = tool, atCaller = caller, atAllowed = mdAllowed d, atApproval = mdApproval d, atError = err\<rparr>]\<rparr>
      else w)"

definition CallTool :: "mcp_lib \<Rightarrow> remote_servers \<Rightarrow> string \<Rightarrow> string \<Rightarrow> string \<Rightarrow> gateway \<Rightarrow> (msg + string) \<times> gateway" where
  "CallTool l m name args caller w =
     (case split_exposed name of
        None \<Rightarrow> (Inl (Msg ''invalid external MCP tool name %q'' [AS name]), w)
      | Some (server, tool) \<Rightarrow>
          if server = [] \<or> tool = [] then (Inl (Msg ''invalid external MCP tool name %q'' [AS name]), w)
          else let d = CheckTool l (gwRegistry w) server tool (gwPolicy w) in
            if \<not> mdAllowed d
            then (Inl (Msg ''external MCP policy denied %s: %s'' [AS name, AS (mdReason d)]), audited server tool caller d (plain (mdReason d)) w)
            else if mdApproval d
            then (Inl (Msg ''external MCP tool %s requires human approval'' [AS name]), audited server tool caller d (plain ''human approval required'') w)
            else (case clientFor l server w of
                (Inl x, w) \<Rightarrow> (Inl x, audited server tool caller d x w)
              | (Inr c, w) \<Rightarrow>
                  (case client_call m server c tool args w of
                     (Inl x, w) \<Rightarrow> (Inl x, audited server tool caller d x w)
                   | (Inr r, w) \<Rightarrow> (Inr r, audited server tool caller d (plain []) w))))"

subsection \<open>What is sent\<close>

text \<open>A server requests may be sent to: registered, enabled and remote, with a host on the list of allowed domains, and with a policy
  if the registry denies by default.\<close>

definition server_ok :: "mcp_lib \<Rightarrow> mcp_registry \<Rightarrow> string \<Rightarrow> mcp_server \<Rightarrow> bool" where
  "server_ok l g policy s \<longleftrightarrow>
     msEnabled s \<and> msType s = ''remote'' \<and> (mrDefaultDeny g \<longrightarrow> mlTrim l policy \<noteq> [])
     \<and> (case mlURL l (mlTrim l (msEndpoint s)) of None \<Rightarrow> False | Some (scheme, _, host) \<Rightarrow>
          http_scheme scheme \<and> list_ex (\<lambda>d. mlLower l (mlTrim l d) = mlLower l host) (allowed_domains g policy s))"

text \<open>A tool that may be called: it passes the allowlist of its server and the policy and needs no approval.\<close>

definition tool_ok :: "mcp_lib \<Rightarrow> mcp_registry \<Rightarrow> string \<Rightarrow> string \<Rightarrow> mcp_server \<Rightarrow> string \<Rightarrow> bool" where
  "tool_ok l g policy name s tool \<longleftrightarrow> pattern_matches l (msAllowedTools s) tool
     \<and> policy_check l g policy name tool (tool_risk l s tool) = Inr False \<and> tool_risk l s tool \<notin> {''destructive'', ''critical''}
     \<and> \<not> msRequiresApproval s"

definition admitted_request :: "mcp_lib \<Rightarrow> mcp_registry \<Rightarrow> string \<Rightarrow> sent_request \<Rightarrow> bool" where
  "admitted_request l g policy x \<longleftrightarrow>
     (\<exists>s. map_of (mrServers g) (sqServer x) = Some s \<and> sqEndpoint x = msEndpoint s \<and> server_ok l g policy s
        \<and> (case sqMethod x of ToolsCall tool _ \<Rightarrow> tool_ok l g policy (sqServer x) s tool | _ \<Rightarrow> True))"

text \<open>A client that is handed out belongs to a registered remote server whose endpoint has been checked.\<close>

definition client_ok :: "mcp_lib \<Rightarrow> mcp_registry \<Rightarrow> string \<Rightarrow> string \<Rightarrow> mcp_client \<Rightarrow> bool" where
  "client_ok l g policy name c \<longleftrightarrow> (\<exists>s. map_of (mrServers g) name = Some s \<and> msType s = ''remote'' \<and> mcEndpoint c = msEndpoint s
     \<and> mdAllowed (CheckEndpoint l g name (msEndpoint s) policy))"

definition gateway_inv :: "mcp_lib \<Rightarrow> mcp_registry \<Rightarrow> string \<Rightarrow> gateway \<Rightarrow> bool" where
  "gateway_inv l g policy w \<longleftrightarrow> gwRegistry w = g \<and> gwPolicy w = policy \<and> distinct (map fst (mrServers g))
     \<and> (\<forall>name c. map_of (gwClients w) name = Some c \<longrightarrow> client_ok l g policy name c)
     \<and> (\<forall>x\<in>set (gwSent w). admitted_request l g policy x)"

lemma map_of_ListServers:
  assumes "distinct (map fst (mrServers g))"
  shows "map_of (ListServers g) = map_of (mrServers g)"
proof
  fix name
  have "map_of (ListServers g) name = Some s \<longleftrightarrow> map_of (mrServers g) name = Some s" for s
    using assms by (simp add: map_of_eq_Some_iff ListServers_def distinct_map)
  then show "map_of (ListServers g) name = map_of (mrServers g) name" by (metis option.exhaust)
qed

text \<open>What a step leaves alone, and the requests it may add.\<close>

definition sends :: "gateway \<Rightarrow> string \<Rightarrow> mcp_method set \<Rightarrow> gateway \<Rightarrow> bool" where
  "sends w name methods w' \<longleftrightarrow> gwAudit w' = gwAudit w \<and> gwSink w' = gwSink w
     \<and> (\<exists>xs. gwSent w' = gwSent w @ xs \<and> (\<forall>x\<in>set xs. sqServer x = name \<and> sqMethod x \<in> methods))"

lemma sends_refl [simp]: "sends w name ms w"
  by (simp add: sends_def)

lemma sends_trans: "sends u name ms v \<Longrightarrow> sends v name ns w \<Longrightarrow> sends u name (ms \<union> ns) w"
  unfolding sends_def by (elim conjE exE, simp, blast)

lemma sends_mono: "sends u name ms v \<Longrightarrow> ms \<subseteq> ns \<Longrightarrow> sends u name ns v"
  unfolding sends_def by blast

lemma clientFor_cases:
  assumes "clientFor l name w = (r, w')" and "distinct (map fst (mrServers (gwRegistry w)))"
  shows "w' = w \<and> (\<forall>c. r = Inr c \<longrightarrow> map_of (gwClients w) name = Some c)
    \<or> (\<exists>s. map_of (mrServers (gwRegistry w)) name = Some s \<and> msType s = ''remote''
         \<and> mdAllowed (CheckEndpoint l (gwRegistry w) name (msEndpoint s) (gwPolicy w)) \<and> r = Inr \<lparr>mcEndpoint = msEndpoint s, mcSession = []\<rparr>
         \<and> w' = w\<lparr>gwClients := (name, \<lparr>mcEndpoint = msEndpoint s, mcSession = []\<rparr>) # gwClients w\<rparr>)"
  using assms(1)
  by (auto simp: clientFor_def map_of_ListServers [OF assms(2)] Let_def split: option.splits if_splits)

lemma clientFor_ok:
  assumes inv: "gateway_inv l g policy w" and "clientFor l name w = (r, w')"
  shows "gateway_inv l g policy w' \<and> gwSent w' = gwSent w \<and> gwAudit w' = gwAudit w \<and> gwSink w' = gwSink w
    \<and> (\<forall>c. r = Inr c \<longrightarrow> client_ok l g policy name c)"
proof -
  have here: "gwRegistry w = g" "gwPolicy w = policy" "distinct (map fst (mrServers (gwRegistry w)))"
    using inv by (simp_all add: gateway_inv_def)
  from clientFor_cases [OF assms(2) here(3)] show ?thesis
  proof (elim disjE exE conjE)
    assume "w' = w" "\<forall>c. r = Inr c \<longrightarrow> map_of (gwClients w) name = Some c"
    then show ?thesis using inv by (auto simp: gateway_inv_def)
  next
    fix s :: mcp_server
    let ?c = "\<lparr>mcEndpoint = msEndpoint s, mcSession = []\<rparr>"
    assume s: "map_of (mrServers (gwRegistry w)) name = Some s" "msType s = ''remote''"
      "mdAllowed (CheckEndpoint l (gwRegistry w) name (msEndpoint s) (gwPolicy w))"
      and r: "r = Inr ?c" and w': "w' = w\<lparr>gwClients := (name, ?c) # gwClients w\<rparr>"
    have "client_ok l g policy name ?c" unfolding client_ok_def using s here(1,2) by (intro exI [of _ s]) simp
    then show ?thesis using inv r w' by (simp add: gateway_inv_def)
  qed
qed

lemma server_okI:
  assumes "mdAllowed (CheckEndpoint l g name (msEndpoint s) policy)" and "map_of (mrServers g) name = Some s"
    and "msType s = ''remote''" and "msEnabled s"
  shows "server_ok l g policy s"
  using assms by (auto simp: CheckEndpoint_def refused_def server_ok_def Let_def split: option.splits if_splits prod.splits)

lemma tool_okI:
  assumes "mdAllowed (CheckTool l g name tool policy)" and "\<not> mdApproval (CheckTool l g name tool policy)"
    and "map_of (mrServers g) name = Some s"
  shows "msEnabled s \<and> tool_ok l g policy name s tool"
  using assms by (auto simp: CheckTool_def refused_def tool_ok_def Let_def split: if_splits sum.splits)

text \<open>One request of a checked client of an enabled server.\<close>

lemma client_request_ok:
  assumes inv: "gateway_inv l g policy w" and c: "client_ok l g policy name c" and s: "map_of (mrServers g) name = Some s" "msEnabled s"
    and m: "case meth of ToolsCall tool _ \<Rightarrow> tool_ok l g policy name s tool | _ \<Rightarrow> True"
    and req: "client_request m name c meth w = (r, c', w')"
  shows "gateway_inv l g policy w' \<and> client_ok l g policy name c' \<and> sends w name {meth} w'"
proof -
  have "server_ok l g policy s" using c s by (auto simp: client_ok_def intro: server_okI)
  then have new: "admitted_request l g policy \<lparr>sqServer = name, sqEndpoint = mcEndpoint c, sqSession = mcSession c, sqMethod = meth\<rparr>"
    using c s m by (cases meth) (auto simp: admitted_request_def client_ok_def)
  have "mcEndpoint c' = mcEndpoint c"
    using req by (auto simp: client_request_def Let_def split: sum.splits if_splits)
  then have c': "client_ok l g policy name c'" using c by (simp add: client_ok_def)
  show ?thesis
    using req inv new c'
    by (auto simp: client_request_def Let_def gateway_inv_def sends_def update_conv' split: sum.splits if_splits)
qed

lemma in_session_ok:
  assumes "gateway_inv l g policy w" and "client_ok l g policy name c" and "map_of (mrServers g) name = Some s" and "msEnabled s"
    and "in_session m name c w = (r, c', w')"
  shows "gateway_inv l g policy w' \<and> client_ok l g policy name c' \<and> sends w name {Initialize} w'"
proof (cases "mcSession c = []")
  case True
  obtain x c1 w1 where q: "client_request m name c Initialize w = (x, c1, w1)" by (metis surj_pair)
  then show ?thesis using True client_request_ok [OF assms(1-4) _ q] assms(5) by (simp add: in_session_def split: sum.splits)
next
  case False
  then show ?thesis using assms by (simp add: in_session_def)
qed

lemma client_list_ok:
  assumes "gateway_inv l g policy w" and "client_ok l g policy name c" and "map_of (mrServers g) name = Some s" and "msEnabled s"
    and "client_list m name c w = (r, w')"
  shows "gateway_inv l g policy w' \<and> sends w name {Initialize, ToolsList} w'"
proof -
  obtain x c1 w1 where i: "in_session m name c w = (x, c1, w1)" by (metis surj_pair)
  note I = in_session_ok [OF assms(1-4) i]
  obtain y c2 w2 where q: "client_request m name c1 ToolsList w1 = (y, c2, w2)" by (metis surj_pair)
  have Q: "gateway_inv l g policy w2 \<and> sends w1 name {ToolsList} w2"
    using client_request_ok [OF conjunct1 [OF I] conjunct1 [OF conjunct2 [OF I]] assms(3,4) _ q] by simp
  have "sends w name {Initialize, ToolsList} w2" using sends_trans [of w name _ w1 _ w2] I Q by fastforce
  moreover have "sends w name {Initialize, ToolsList} w1" using I by (blast intro: sends_mono)
  moreover have "w' = w1 \<or> w' = w2" using assms(5) i q by (auto simp: client_list_def split: option.splits sum.splits)
  ultimately show ?thesis using I Q by blast
qed

lemma client_call_ok:
  assumes "gateway_inv l g policy w" and "client_ok l g policy name c" and "map_of (mrServers g) name = Some s" and "msEnabled s"
    and "tool_ok l g policy name s tool" and "client_call m name c tool args w = (r, w')"
  shows "gateway_inv l g policy w' \<and> sends w name {Initialize, ToolsCall tool args} w'"
proof -
  obtain x c1 w1 where i: "in_session m name c w = (x, c1, w1)" by (metis surj_pair)
  note I = in_session_ok [OF assms(1-4) i]
  obtain y c2 w2 where q: "client_request m name c1 (ToolsCall tool args) w1 = (y, c2, w2)" by (metis surj_pair)
  have Q: "gateway_inv l g policy w2 \<and> sends w1 name {ToolsCall tool args} w2"
    using client_request_ok [OF conjunct1 [OF I] conjunct1 [OF conjunct2 [OF I]] assms(3,4) _ q] assms(5) by simp
  have "sends w name {Initialize, ToolsCall tool args} w2" using sends_trans [of w name _ w1 _ w2] I Q by fastforce
  moreover have "sends w name {Initialize, ToolsCall tool args} w1" using I by (blast intro: sends_mono)
  moreover have "w' = w1 \<or> w' = w2" using assms(6) i q by (auto simp: client_call_def split: option.splits sum.splits if_splits)
  ultimately show ?thesis using I Q by blast
qed

end
