(* ===== verification/McpProps.thy ===== *)
theory McpProps
  imports McpAccess
begin

text \<open>
  What the MCP gateway guarantees over whole runs: which requests it forwards, and that the tools it lists can be called
  under the names it lists.
\<close>

subsection \<open>Runs\<close>

datatype gateway_action = CallAction string string string | ListAction

fun gateway_step :: "mcp_lib \<Rightarrow> remote_servers \<Rightarrow> gateway_action \<Rightarrow> gateway \<Rightarrow> gateway" where
  "gateway_step l m (CallAction name args caller) w = snd (CallTool l m name args caller w)"
| "gateway_step l m ListAction w = snd (ListTools l m w)"

text \<open>With an audit sink every tool that was called has its entry in the log.\<close>

definition audit_complete :: "gateway \<Rightarrow> bool" where
  "audit_complete w \<longleftrightarrow> gwSink w \<longrightarrow> (\<forall>x\<in>set (gwSent w). \<forall>tool args. sqMethod x = ToolsCall tool args \<longrightarrow>
     (\<exists>a\<in>set (gwAudit w). atServer a = sqServer x \<and> atTool a = tool \<and> atAllowed a \<and> \<not> atApproval a))"

definition gateway_ok :: "mcp_lib \<Rightarrow> mcp_registry \<Rightarrow> string \<Rightarrow> bool \<Rightarrow> gateway \<Rightarrow> bool" where
  "gateway_ok l g policy sink w \<longleftrightarrow> gateway_inv l g policy w \<and> audit_complete w \<and> gwSink w = sink"

lemma audited_simps [simp]:
  "gwRegistry (audited s t c d e w) = gwRegistry w" "gwPolicy (audited s t c d e w) = gwPolicy w" "gwSink (audited s t c d e w) = gwSink w"
  "gwClients (audited s t c d e w) = gwClients w" "gwSent (audited s t c d e w) = gwSent w"
  "gwSink w \<Longrightarrow> set (gwAudit (audited s t c d e w)) =
     insert \<lparr>atServer = s, atTool = t, atCaller = c, atAllowed = mdAllowed d, atApproval = mdApproval d, atError = e\<rparr> (set (gwAudit w))"
  by (simp_all add: audited_def)

lemma audited_inv [simp]: "gateway_inv l g policy (audited s t c d e w) = gateway_inv l g policy w"
  by (simp add: gateway_inv_def)

lemma audited_ok: "gateway_ok l g policy sink w \<Longrightarrow> gateway_ok l g policy sink (audited s t c d e w)"
  by (auto simp: gateway_ok_def audit_complete_def)

lemma silent_ok: "audit_complete w \<Longrightarrow> sends w name {Initialize, ToolsList} w' \<Longrightarrow> audit_complete w'"
  unfolding audit_complete_def sends_def by fastforce

lemma call_audited:
  "audit_complete w \<Longrightarrow> sends w name {Initialize, ToolsCall tool args} w' \<Longrightarrow> mdAllowed d \<Longrightarrow> \<not> mdApproval d \<Longrightarrow>
   audit_complete (audited name tool caller d e w')"
  unfolding audit_complete_def sends_def by fastforce

lemma list_tools_ok:
  assumes "gateway_ok l g policy sink w" and "set ss \<subseteq> set (mrServers g)"
  shows "gateway_ok l g policy sink (snd (list_tools l m ss w))"
  using assms
proof (induction l m ss w rule: list_tools.induct)
  case (2 l m name s ss w)
  show ?case
  proof (cases "\<not> msEnabled s \<or> msType s \<noteq> ''remote''")
    case True
    then show ?thesis using 2 by simp
  next
    case False
    have s: "map_of (mrServers g) name = Some s" using 2(3,4) by (simp add: gateway_ok_def gateway_inv_def map_of_eq_Some_iff)
    obtain r v where c: "clientFor l name w = (r, v)" by (metis surj_pair)
    have v: "gateway_inv l g policy v" "audit_complete v" "\<And>c. r = Inr c \<Longrightarrow> client_ok l g policy name c" "gwSink v = sink"
      using clientFor_ok [OF _ c] 2(3) by (auto simp: gateway_ok_def audit_complete_def)
    obtain t u where u: "server_tools l m name w = (t, u)" by (metis surj_pair)
    have "gateway_ok l g policy sink u"
    proof (cases r)
      case (Inl x)
      then show ?thesis using u c v by (simp add: server_tools_def gateway_ok_def)
    next
      case (Inr k)
      obtain y w1 where y: "client_list m name k v = (y, w1)" by (metis surj_pair)
      have "u = w1" using u c Inr y by (simp add: server_tools_def split: sum.splits)
      then show ?thesis
        using client_list_ok [OF v(1) v(3) [OF Inr] s _ y] silent_ok [OF v(2)] False v(4) by (auto simp: gateway_ok_def sends_def)
    qed
    then show ?thesis using False u 2(2) [OF False u [symmetric]] 2(4) by (auto split: sum.splits prod.splits)
  qed
qed simp

lemma CallTool_ok:
  assumes ok: "gateway_ok l g policy sink w"
  shows "gateway_ok l g policy sink (snd (CallTool l m name args caller w))"
proof (cases "split_exposed name")
  case None
  then show ?thesis using ok by (simp add: CallTool_def)
next
  case (Some p)
  obtain server tool where p: "p = (server, tool)" by (cases p)
  define d where "d = CheckTool l g server tool policy"
  obtain r v where c: "clientFor l server w = (r, v)" by (metis surj_pair)
  have v: "gateway_inv l g policy v" "audit_complete v" "\<And>k. r = Inr k \<Longrightarrow> client_ok l g policy server k" "gwSink v = sink"
    using clientFor_ok [OF _ c] ok by (auto simp: gateway_ok_def audit_complete_def)
  have here: "gwRegistry w = g" "gwPolicy w = policy" using ok by (simp_all add: gateway_ok_def gateway_inv_def)
  show ?thesis
  proof (cases "server = [] \<or> tool = [] \<or> \<not> mdAllowed d \<or> mdApproval d \<or> (\<exists>x. r = Inl x)")
    case True
    then show ?thesis using ok v audited_ok [of l g policy sink]
      by (auto simp: CallTool_def Some p Let_def here d_def [symmetric] c gateway_ok_def)
  next
    case False
    then obtain k where r: "r = Inr k" and named: "server \<noteq> []" "tool \<noteq> []" and d: "mdAllowed d" "\<not> mdApproval d" by (cases r) auto
    obtain s where s: "map_of (mrServers g) server = Some s" using v(3) [OF r] by (auto simp: client_ok_def)
    have t: "msEnabled s" "tool_ok l g policy server s tool" using tool_okI [OF d [unfolded d_def] s] by simp_all
    obtain y w1 where y: "client_call m server k tool args v = (y, w1)" by (metis surj_pair)
    have "gateway_inv l g policy w1" "sends v server {Initialize, ToolsCall tool args} w1"
      using client_call_ok [OF v(1) v(3) [OF r] s t y] by simp_all
    then have "gateway_ok l g policy sink (audited server tool caller d e w1)" for e
      using call_audited [OF v(2) _ d] v(4) by (simp add: gateway_ok_def sends_def)
    then show ?thesis
      by (simp add: CallTool_def Some p Let_def here d_def [symmetric] c r named d y split: sum.splits)
  qed
qed

interpretation gate: state_machine "gateway_step l m" "gateway_ok l g policy sink"
proof
  fix w e assume ok: "gateway_ok l g policy sink w"
  have "set (ListServers g) \<subseteq> set (mrServers g)" by (simp add: ListServers_def)
  with ok show "gateway_ok l g policy sink (gateway_step l m e w)"
    by (cases e) (simp_all add: CallTool_ok ListTools_def list_tools_ok gateway_ok_def [of l g policy sink w] gateway_inv_def [of l g policy w])
qed

lemma NewGateway_ok: "distinct (map fst (mrServers g)) \<Longrightarrow> gateway_ok l g policy sink (NewGateway g policy sink)"
  by (simp add: gateway_ok_def gateway_inv_def NewGateway_def audit_complete_def)

text \<open>C15: whatever is listed and called in whatever order, a request of any method leaves the gateway only for an enabled remote
  server of the registry, to its configured endpoint on an allowed domain. A tool is called only if the allowlist of its server and
  the policy admit it without an approval, and with an audit sink its call is in the log. Introductions and listings are sent unaudited.\<close>
theorem forwarded_calls_admitted:
  assumes "distinct (map fst (mrServers g))"
    and "x \<in> set (gwSent (fold (gateway_step l m) es (NewGateway g policy sink)))"
  shows "admitted_request l g policy x
    \<and> (\<forall>tool args. sqMethod x = ToolsCall tool args \<longrightarrow> sink \<longrightarrow>
         (\<exists>a\<in>set (gwAudit (fold (gateway_step l m) es (NewGateway g policy sink))).
            atServer a = sqServer x \<and> atTool a = tool \<and> atAllowed a \<and> \<not> atApproval a))"
proof -
  have "gateway_ok l g policy sink (fold (gateway_step l m) es (NewGateway g policy sink))"
    by (rule gate.run_inv [OF NewGateway_ok [OF assms(1)]])
  then show ?thesis using assms(2) by (auto simp: gateway_ok_def gateway_inv_def audit_complete_def)
qed

subsection \<open>Names\<close>

text \<open>A server name that survives being joined with a tool name: no two underscores in a row and none at its end.\<close>

fun plain_name :: "string \<Rightarrow> bool" where
  "plain_name [] = True"
| "plain_name [c] = (c \<noteq> CHR ''_'')"
| "plain_name (c # d # cs) = (\<not> (c = CHR ''_'' \<and> d = CHR ''_'') \<and> plain_name (d # cs))"

lemma split_exposed_exposed: "plain_name server \<Longrightarrow> split_exposed (exposed server tool) = Some (server, tool)"
  by (induction server rule: plain_name.induct) (auto simp: exposed_def)

lemma misrouted_name: "split_exposed (exposed ''a_'' ''b'') = Some (''a'', ''_b'')"
  by (simp add: exposed_def)

subsection \<open>A sample\<close>

definition sample_mcp_lib :: mcp_lib where
  "sample_mcp_lib = \<lparr>mlTrim = (\<lambda>s. s), mlLower = (\<lambda>s. s), mlURL = (\<lambda>u. if u = [] then None else Some (''https'', u, u)), mlGlob = (\<lambda>p s. p = s)\<rparr>"

definition sample_mcp_server :: mcp_server where
  "sample_mcp_server = \<lparr>msType = ''remote'', msEnabled = True, msEndpoint = ''git.example'', msCommand = [], msAllowedTools = [''*''],
     msToolRisk = [(''drop'', ''destructive'')], msAllowedDomains = [''git.example''], msCapabilities = [], msNetworkMode = [],
     msRequiresApproval = False, msTimeout = 0, msMaxRequests = 0\<rparr>"

definition sample_mcp_registry :: mcp_registry where
  "sample_mcp_registry = \<lparr>mrDefaultDeny = False, mrServers = [(''git'', sample_mcp_server)], mrPolicies = []\<rparr>"

definition sample_remote :: remote_servers where
  "sample_remote = \<lparr>rmPost = (\<lambda>n e s q. Inr \<lparr>haStatus = 200, haSession = ''s7'', haBody = []\<rparr>), rmResult = Inr,
     rmTools = (\<lambda>_. Inr [(''log'', ''history''), (''drop'', ''delete'')]), rmArguments = (\<lambda>_. None)\<rparr>"

definition sample_actions :: "gateway_action list" where
  "sample_actions = [ListAction, CallAction ''git__log'' ''{}'' ''codex'', CallAction ''git__drop'' ''{}'' ''codex'']"

theorem forwarded_calls_admitted_witness:
  "let w = fold (gateway_step sample_mcp_lib sample_remote) sample_actions (NewGateway sample_mcp_registry [] True) in
     map sqMethod (gwSent w) = [Initialize, ToolsList, ToolsCall ''log'' ''{}'']
     \<and> map sqSession (gwSent w) = [[], ''s7'', ''s7'']
     \<and> list_all (admitted_request sample_mcp_lib sample_mcp_registry []) (gwSent w)
     \<and> (\<exists>a\<in>set (gwAudit w). atServer a = ''git'' \<and> atTool a = ''log'' \<and> atAllowed a)"
proof -
  define w where "w = fold (gateway_step sample_mcp_lib sample_remote) sample_actions (NewGateway sample_mcp_registry [] True)"
  have sent: "map sqMethod (gwSent w) = [Initialize, ToolsList, ToolsCall ''log'' ''{}'']" "map sqSession (gwSent w) = [[], ''s7'', ''s7'']"
    "map sqServer (gwSent w) = [''git'', ''git'', ''git'']"
    unfolding w_def by code_simp+
  have d: "distinct (map fst (mrServers sample_mcp_registry))" by code_simp
  note ok = forwarded_calls_admitted [OF d, of _ sample_mcp_lib sample_remote sample_actions "[]" True, folded w_def]
  have "ToolsCall ''log'' ''{}'' \<in> sqMethod ` set (gwSent w)" using sent(1) by (metis list.set_intros list.set_map)
  then obtain x where x: "x \<in> set (gwSent w)" "sqMethod x = ToolsCall ''log'' ''{}''" by auto
  have "sqServer x \<in> set (map sqServer (gwSent w))" using x(1) by simp
  then have "sqServer x = ''git''" unfolding sent(3) by simp
  moreover have "\<exists>a\<in>set (gwAudit w). atServer a = sqServer x \<and> atTool a = ''log'' \<and> atAllowed a \<and> \<not> atApproval a"
    using ok [OF x(1)] x(2) by blast
  ultimately have "\<exists>a\<in>set (gwAudit w). atServer a = ''git'' \<and> atTool a = ''log'' \<and> atAllowed a" by auto
  moreover have "list_all (admitted_request sample_mcp_lib sample_mcp_registry []) (gwSent w)" using ok by (simp add: list_all_iff)
  ultimately show ?thesis using sent unfolding w_def [symmetric] Let_def by blast
qed

end
