(* ===== verification/Governance.thy ===== *)
theory Governance
  imports ReviewTypes
begin

text \<open>
  Contracts of agents, trust scores and routing recommendations (\<open>internal/governance\<close>), credit isolation of external
  participants (\<open>internal/creditguard\<close>), and the checks of safety scenarios, certification profiles and the posture
  (\<open>internal/simulation\<close>, \<open>internal/certification\<close>, \<open>internal/incident\<close>). Scores are exact rationals.
\<close>

subsection \<open>Contracts\<close>

record agent_contract =
  gcAgent :: string
  gcCapabilities :: "string list"
  gcAllowedTools :: "string list"
  gcDeniedTools :: "string list"
  gcFilesystem :: string
  gcNetwork :: string
  gcApproval :: bool
  gcMaxCost :: rat

record task_needs =
  tnCapabilities :: "string list"
  tnTools :: "string list"
  tnWrite :: bool
  tnNetwork :: bool
  tnApproval :: bool
  tnMaxCost :: rat

record contract_decision =
  ccAllowed :: bool
  ccApproval :: bool
  ccReasons :: "msg list"

definition listed :: "string list \<Rightarrow> string \<Rightarrow> bool" where
  "listed vs x \<longleftrightarrow> list_ex (\<lambda>v. v = x \<or> v = ''*'') vs"

definition AllowsTool :: "text_lib \<Rightarrow> agent_contract \<Rightarrow> string \<Rightarrow> bool" where
  "AllowsTool lib c tool =
     (let t = TrimSpace lib tool in
      if t = [] \<or> listed (gcDeniedTools c) t then False else gcAllowedTools c = [] \<or> listed (gcAllowedTools c) t)"

definition refuse :: "bool \<Rightarrow> msg \<Rightarrow> contract_decision \<Rightarrow> contract_decision" where
  "refuse bad reason d = (if bad then d\<lparr>ccAllowed := False, ccReasons := ccReasons d @ [reason]\<rparr> else d)"

definition Satisfies :: "text_lib \<Rightarrow> agent_contract \<Rightarrow> task_needs \<Rightarrow> contract_decision" where
  "Satisfies lib c t =
     (let d = \<lparr>ccAllowed = True, ccApproval = False, ccReasons = []\<rparr>;
          d = fold (\<lambda>x. refuse (\<not> listed (gcCapabilities c) x) (Msg ''missing capability %q'' [AS x])) (tnCapabilities t) d;
          d = fold (\<lambda>x. refuse (\<not> AllowsTool lib c x) (Msg ''tool %q is not allowed'' [AS x])) (tnTools t) d;
          d = refuse (tnWrite t \<and> ToLower lib (gcFilesystem c) \<noteq> ''write'') (plain ''write access is not granted'') d;
          d = refuse (tnNetwork t \<and> ToLower lib (gcNetwork c) \<noteq> ''allow'') (plain ''network access is not granted'') d;
          d = (if tnApproval t \<and> \<not> gcApproval c
               then d\<lparr>ccApproval := True, ccReasons := ccReasons d @ [plain ''task requires an approval boundary'']\<rparr> else d)
      in refuse (tnMaxCost t > 0 \<and> gcMaxCost c > 0 \<and> tnMaxCost t > gcMaxCost c) (plain ''task cost exceeds agent contract limit'') d)"

lemma refuse_simps [simp]:
  "ccAllowed (refuse b m d) \<longleftrightarrow> ccAllowed d \<and> \<not> b" "ccApproval (refuse b m d) = ccApproval d"
  by (simp_all add: refuse_def)

lemma fold_refuse:
  "ccAllowed (fold (\<lambda>x. refuse (bad x) (m x)) xs d) \<longleftrightarrow> ccAllowed d \<and> (\<forall>x\<in>set xs. \<not> bad x)"
  "ccApproval (fold (\<lambda>x. refuse (bad x) (m x)) xs d) = ccApproval d"
  by (induction xs arbitrary: d) auto

text \<open>A contract satisfies a task exactly if it lists all its capabilities, allows all its tools, grants the write and network access
  it needs, and is not exceeded by its cost. A denied tool is never allowed, whatever the list of allowed ones says.\<close>
lemma contract_decides_exactly:
  "(ccAllowed (Satisfies lib c t) \<longleftrightarrow>
      (\<forall>x\<in>set (tnCapabilities t). x \<in> set (gcCapabilities c) \<or> ''*'' \<in> set (gcCapabilities c))
      \<and> (\<forall>x\<in>set (tnTools t). AllowsTool lib c x)
      \<and> (tnWrite t \<longrightarrow> ToLower lib (gcFilesystem c) = ''write'') \<and> (tnNetwork t \<longrightarrow> ToLower lib (gcNetwork c) = ''allow'')
      \<and> (tnMaxCost t \<le> 0 \<or> gcMaxCost c \<le> 0 \<or> tnMaxCost t \<le> gcMaxCost c))
   \<and> (ccApproval (Satisfies lib c t) \<longleftrightarrow> tnApproval t \<and> \<not> gcApproval c)
   \<and> (AllowsTool lib c x \<longrightarrow> TrimSpace lib x \<notin> set (gcDeniedTools c) \<and> ''*'' \<notin> set (gcDeniedTools c))"
proof (intro conjI)
  show "ccAllowed (Satisfies lib c t) \<longleftrightarrow>
      (\<forall>x\<in>set (tnCapabilities t). x \<in> set (gcCapabilities c) \<or> ''*'' \<in> set (gcCapabilities c))
      \<and> (\<forall>x\<in>set (tnTools t). AllowsTool lib c x)
      \<and> (tnWrite t \<longrightarrow> ToLower lib (gcFilesystem c) = ''write'') \<and> (tnNetwork t \<longrightarrow> ToLower lib (gcNetwork c) = ''allow'')
      \<and> (tnMaxCost t \<le> 0 \<or> gcMaxCost c \<le> 0 \<or> tnMaxCost t \<le> gcMaxCost c)"
  proof -
    have "listed vs x \<longleftrightarrow> x \<in> set vs \<or> ''*'' \<in> set vs" for vs x by (auto simp: listed_def list_ex_iff)
    then show ?thesis by (simp add: Satisfies_def Let_def fold_refuse not_less)
  qed
  show "ccApproval (Satisfies lib c t) \<longleftrightarrow> tnApproval t \<and> \<not> gcApproval c" by (simp add: Satisfies_def Let_def fold_refuse)
  show "AllowsTool lib c x \<longrightarrow> TrimSpace lib x \<notin> set (gcDeniedTools c) \<and> ''*'' \<notin> set (gcDeniedTools c)"
    by (auto simp: AllowsTool_def Let_def listed_def list_ex_iff)
qed

subsection \<open>Trust\<close>

record trust_signals =
  tgSuccess :: rat
  tgAcceptance :: rat
  tgRegression :: rat
  tgIncidents :: int
  tgCorrections :: int
  tgSamples :: int

definition TrustScore :: "trust_signals \<Rightarrow> rat" where
  "TrustScore s =
     (let score = 45 / 100 * tgSuccess s + 30 / 100 * tgAcceptance s + 15 / 100 * (1 - tgRegression s);
          score = score - 5 / 100 * of_int (tgIncidents s);
          score = score - 1 / 100 * of_int (tgCorrections s);
          score = (if tgSamples s = 0 then score * (5 / 10) else score)
      in if score < 0 then 0 else if score > 1 then 1 else score)"

lemma TrustScore_bounds: "0 \<le> TrustScore s \<and> TrustScore s \<le> 1"
  by (simp add: TrustScore_def Let_def)

lemma TrustScore_below_one:
  assumes "tgSuccess s \<le> 1" "tgAcceptance s \<le> 1" "0 \<le> tgRegression s" "0 \<le> tgIncidents s" "0 \<le> tgCorrections s"
  shows "TrustScore s \<le> 9 / 10"
proof -
  have a: "45 / 100 * tgSuccess s \<le> 45 / 100" "30 / 100 * tgAcceptance s \<le> 30 / 100" "15 / 100 * (1 - tgRegression s) \<le> 15 / 100"
    using assms by auto
  have b: "(0::rat) \<le> 5 / 100 * of_int (tgIncidents s)" "(0::rat) \<le> 1 / 100 * of_int (tgCorrections s)" using assms by auto
  define raw where "raw = 45 / 100 * tgSuccess s + 30 / 100 * tgAcceptance s + 15 / 100 * (1 - tgRegression s)
    - 5 / 100 * of_int (tgIncidents s) - 1 / 100 * of_int (tgCorrections s)"
  have "raw \<le> 9 / 10" using a b unfolding raw_def by linarith
  then show ?thesis unfolding TrustScore_def Let_def raw_def [symmetric] by (auto split: if_splits)
qed

record routing_candidate =
  rdAgent :: string
  rdTrust :: rat
  rdCost :: rat
  rdLatency :: int
  rdAvailable :: bool

definition candidate_score :: "routing_candidate \<Rightarrow> rat" where
  "candidate_score c = rdTrust c - rdCost c * (1 / 10) - of_int (rdLatency c) / 100000"

definition better :: "routing_candidate \<Rightarrow> routing_candidate \<Rightarrow> bool" where
  "better x y \<longleftrightarrow> (if candidate_score x = candidate_score y then rdAgent x < rdAgent y else candidate_score x > candidate_score y)"

record recommendation =
  rcSelected :: string
  rcReason :: string
  rcAutomatic :: bool
  rcCandidates :: "routing_candidate list"

text \<open>A stable sort by score, ties by name.\<close>

definition Recommend :: "routing_candidate list \<Rightarrow> recommendation" where
  "Recommend cs =
     (let available = sort_key (\<lambda>c. - candidate_score c) (sort_key rdAgent (filter rdAvailable cs)) in
      case available of
        [] \<Rightarrow> \<lparr>rcSelected = [], rcReason = ''No available candidate satisfies the current policy'', rcAutomatic = False, rcCandidates = []\<rparr>
      | c # _ \<Rightarrow> \<lparr>rcSelected = rdAgent c,
                 rcReason = ''Selected the highest transparent trust/cost/latency score; automatic changes remain disabled'',
                 rcAutomatic = False, rcCandidates = available\<rparr>)"

lemma Recommend_best:
  assumes "rcCandidates (Recommend cs) = c # ds"
  shows "rcSelected (Recommend cs) = rdAgent c \<and> c \<in> set cs \<and> rdAvailable c \<and> \<not> rcAutomatic (Recommend cs)
    \<and> (\<forall>d\<in>set cs. rdAvailable d \<longrightarrow> candidate_score d \<le> candidate_score c)"
proof -
  define xs where "xs = sort_key (\<lambda>c. - candidate_score c) (sort_key rdAgent (filter rdAvailable cs))"
  have xs: "xs = c # ds" using assms by (auto simp: Recommend_def Let_def xs_def [symmetric] split: list.splits)
  have set: "set xs = {d \<in> set cs. rdAvailable d}" by (auto simp: xs_def)
  have "sorted (map (\<lambda>c. - candidate_score c) xs)" by (simp add: xs_def)
  then have "\<forall>d\<in>set xs. candidate_score d \<le> candidate_score c" by (auto simp: xs)
  moreover have "c \<in> set xs" by (simp add: xs)
  ultimately show ?thesis using set xs by (auto simp: Recommend_def Let_def xs_def [symmetric])
qed

subsection \<open>Credit isolation\<close>

text \<open>The modes of the guard: any text other than \<open>off\<close> guards.\<close>

definition NormalizeBackend :: "text_lib \<Rightarrow> string \<Rightarrow> string" where
  "NormalizeBackend lib kind =
     (let k = ToLower lib (TrimSpace lib kind) in
      if k = ''openai'' \<or> k = ''openai-api'' then ''openai-api'' else if k = ''codex'' then ''codex'' else [])"

definition ResolveMode :: "text_lib \<Rightarrow> string \<Rightarrow> string \<Rightarrow> string" where
  "ResolveMode lib env configured =
     (let v = ToLower lib (TrimSpace lib env); m = ToLower lib (TrimSpace lib configured)
      in if v \<noteq> [] then v else if m = [] then ''strict'' else m)"

record violation =
  vnParticipant :: string
  vnBackend :: string
  vnReason :: msg

definition CheckParticipant :: "text_lib \<Rightarrow> string \<Rightarrow> string \<Rightarrow> bool \<Rightarrow> string \<Rightarrow> violation option" where
  "CheckParticipant lib mode participant external kind =
     (if mode = ''off'' \<or> \<not> external then None
      else let b = NormalizeBackend lib kind in
        if b = [] then None
        else Some \<lparr>vnParticipant = participant, vnBackend = b,
               vnReason = Msg ''adapter %q is a metered backend; external participants may only use passive/read-oriented adapters (e.g. mcp-remote)'' [AS kind]\<rparr>)"

text \<open>The counters of metered calls.\<close>

record call_counts =
  clOpenAI :: nat
  clCodex :: nat
  clPlan :: nat

definition RecordCall :: "string \<Rightarrow> call_counts \<Rightarrow> call_counts" where
  "RecordCall b n =
     (if b = ''openai-api'' then n\<lparr>clOpenAI := clOpenAI n + 1\<rparr>
      else if b = ''codex'' then n\<lparr>clCodex := clCodex n + 1\<rparr>
      else if b = ''chatgpt-plan-usage'' then n\<lparr>clPlan := clPlan n + 1\<rparr>
      else n)"

definition Calls :: "string \<Rightarrow> call_counts \<Rightarrow> nat" where
  "Calls b n = (if b = ''openai-api'' then clOpenAI n else if b = ''codex'' then clCodex n else if b = ''chatgpt-plan-usage'' then clPlan n else 0)"

text \<open>An external participant with a metered adapter is refused unless somebody turned the guard off by that very word; without
  any setting, or with a misspelt one, it is on.\<close>
theorem isolation_fails_closed:
  "CheckParticipant lib (ResolveMode lib env configured) p external kind = None
    \<longleftrightarrow> \<not> external \<or> NormalizeBackend lib kind = []
      \<or> ToLower lib (TrimSpace lib env) = ''off''
      \<or> ToLower lib (TrimSpace lib env) = [] \<and> ToLower lib (TrimSpace lib configured) = ''off''"
  by (auto simp: CheckParticipant_def ResolveMode_def Let_def)

lemma Calls_RecordCall: "Calls b (RecordCall c n) = Calls b n + (if b = c \<and> b \<in> {''openai-api'', ''codex'', ''chatgpt-plan-usage''} then 1 else 0)"
  by (auto simp: Calls_def RecordCall_def)

subsection \<open>Scenarios, certification, posture\<close>

datatype sim_fault = ToolDenied | AgentTimeout | QuotaWait | ApprovalBlocked | ReplayInconsistent | ProviderUnavailable | OtherFault string

record sim_observation =
  soRetry :: bool
  soApproval :: bool
  soExecution :: string
  soReplay :: string
  soProvider :: string

text \<open>What is found wrong; a scenario has passed if nothing is.\<close>

definition missing :: "(bool \<times> string) list \<Rightarrow> msg list" where
  "missing needs = map (\<lambda>n. plain (snd n)) (filter (\<lambda>n. \<not> fst n) needs)"

definition EvaluateScenario :: "sim_fault \<Rightarrow> sim_observation \<Rightarrow> bool \<times> msg list" where
  "EvaluateScenario f s =
     (let fs = (case f of
          ToolDenied \<Rightarrow> missing [(soExecution s = ''denied'', ''denied tool was not blocked'')]
        | AgentTimeout \<Rightarrow> missing [(soExecution s = ''cancelled'', ''timed out execution was not cancelled''),
                                  (soRetry s, ''timeout did not schedule a bounded retry'')]
        | QuotaWait \<Rightarrow> missing [(soProvider s = ''quota_wait'', ''quota wait was not persisted''),
                               (soRetry s, ''quota wait did not schedule a retry'')]
        | ApprovalBlocked \<Rightarrow> missing [(soApproval s, ''approval boundary was not raised''),
                                     (soExecution s = ''pending'', ''blocked approval was executed'')]
        | ReplayInconsistent \<Rightarrow> missing [(soReplay s = ''incomplete'', ''inconsistent replay was not marked incomplete''),
                                        (soExecution s \<noteq> ''executed'', ''inconsistent replay executed work'')]
        | ProviderUnavailable \<Rightarrow> missing [(soProvider s = ''unavailable'' \<or> soProvider s = ''fallback'', ''provider outage was not classified'')]
        | OtherFault x \<Rightarrow> [Msg ''unknown simulation fault %q'' [AS x]])
      in (fs = [], fs))"

record certification_profile =
  cpName :: string
  cpVersion :: string
  cpChecks :: "(string \<times> bool) list"

definition ProfileVersion :: string where
  "ProfileVersion = ''harnessmesh-compatible-v1''"

definition profile_checks :: "string list" where
  "profile_checks = [''mcp'', ''a2a'', ''signed_evidence'', ''action_firewall'', ''replay'', ''otel'', ''marketplace_trust'']"

text \<open>\<open>order\<close> is the order in which the map of checks is visited.\<close>

definition ValidateProfile :: "text_lib \<Rightarrow> string range_order \<Rightarrow> certification_profile \<Rightarrow> msg option \<times> (bool \<times> string list) option" where
  "ValidateProfile lib order p =
     (if cpVersion p \<noteq> [] \<and> cpVersion p \<noteq> ProfileVersion then (Some (Msg ''unsupported certification profile %q'' [AS (cpVersion p)]), None)
      else let failed = (if TrimSpace lib (cpName p) = [] then [''name''] else [])
                 @ filter (\<lambda>c. map_of (cpChecks p) c \<noteq> Some True) (order profile_checks)
           in (require (failed = []) (plain ''certification requirements are incomplete''), Some (failed = [], failed)))"

record incident =
  inID :: string
  inTenant :: string
  inCritical :: bool
  inTitle :: string
  inAt :: int
  inRunbook :: string

definition FromPosture :: "string \<Rightarrow> int \<Rightarrow> int \<Rightarrow> int \<Rightarrow> int \<Rightarrow> incident list" where
  "FromPosture tenant failedJobs deadJobs unhealthy now =
     (let add = (\<lambda>n i crit title book. if n > 0 then [\<lparr>inID = i, inTenant = tenant, inCritical = crit, inTitle = title, inAt = now, inRunbook = book\<rparr>] else [])
      in add failedJobs ''failed-jobs'' False ''Failed jobs require investigation'' ''inspect-job-timeline''
         @ add deadJobs ''dead-letters'' True ''Dead-letter jobs require remediation'' ''replay-after-remediation''
         @ add unhealthy ''unhealthy-agents'' True ''Agent health degradation detected'' ''quarantine-and-recover'')"

end
