(* ===== verification/Events.thy ===== *)
theory Events
  imports Publish
begin

text \<open>
  The event bus (\<open>internal/collaboration/eventbus.go\<close>) and what the engine does with an event that is not a message
  (\<open>handleCollaborationEvent\<close> and \<open>dispatchParticipantEvent\<close> in \<open>engine.go\<close>). As in theory Publish a participant's
  dispatch is one step and the environment is an argument; a pattern of the file system matching a name is the
  argument \<open>glob\<close>. Of the payload of an event only the channel it names is looked at.
\<close>

subsection \<open>Events and subscriptions\<close>

record collab_event =
  ceID :: string
  ceSpace :: string
  ceType :: string
  ceSource :: string
  ceTime :: int
  ceScope :: "string list"
  ceChannel :: string

definition channel_matches :: "subscription \<Rightarrow> string \<Rightarrow> bool" where
  "channel_matches b channel \<longleftrightarrow> ubChannels b = [] \<or> channel = [] \<or> list_ex (\<lambda>c. c = ''*'' \<or> c = channel) (ubChannels b)"

definition type_matches :: "string \<Rightarrow> string \<Rightarrow> bool" where
  "type_matches pattern t \<longleftrightarrow> pattern = ''*'' \<or> pattern = t
     \<or> suffix ''.*'' pattern \<and> prefix (take (length pattern - 2) pattern @ ''.'') t"

definition scope_matches :: "(string \<Rightarrow> string \<Rightarrow> bool) \<Rightarrow> string \<Rightarrow> string \<Rightarrow> bool" where
  "scope_matches glob pattern file \<longleftrightarrow> pattern = ''*'' \<or> pattern = ''**'' \<or> glob pattern file
     \<or> suffix ''/**'' pattern \<and> (let p = take (length pattern - 3) pattern in prefix (p @ ''/'') file \<or> file = p)"

definition MatchesSubscription :: "(string \<Rightarrow> string \<Rightarrow> bool) \<Rightarrow> subscription \<Rightarrow> collab_event \<Rightarrow> string \<Rightarrow> bool" where
  "MatchesSubscription glob b ev channel \<longleftrightarrow>
     (ubSpace b = ceSpace ev \<or> ubSpace b = ''*'') \<and> channel_matches b channel
     \<and> (ubEventTypes b = [] \<or> list_ex (\<lambda>p. type_matches p (ceType ev)) (ubEventTypes b))
     \<and> (ubScopePatterns b = [] \<or> ceScope ev = []
        \<or> list_ex (\<lambda>f. list_ex (\<lambda>p. scope_matches glob p f) (ubScopePatterns b)) (ceScope ev))"

subsection \<open>One participant\<close>

text \<open>Failures to write a delivery are ignored.\<close>

definition note_delivery :: "publish_env \<Rightarrow> delivery \<Rightarrow> engine_data \<Rightarrow> engine_data" where
  "note_delivery u v d = (if ueFails u (AtRecord (dvID v)) then d else RecordEventDelivery v d)"

definition note_status :: "publish_env \<Rightarrow> string \<Rightarrow> delivery_status \<Rightarrow> string \<Rightarrow> msg \<Rightarrow> engine_data \<Rightarrow> engine_data" where
  "note_status u i s result reason d =
     (if ueFails u (AtUpdate i) then d else UpdateEventDeliveryStatus (ueNow u) i s result reason d)"

definition join_scope :: "string list \<Rightarrow> string" where
  "join_scope fs = concat (map (\<lambda>(i, f). if i = 0 then f else '', '' @ f) (enumerate (0::nat) fs))"

definition event_prompt :: "collab_space \<Rightarrow> collab_event \<Rightarrow> string" where
  "event_prompt z ev = ''Collaboration Event in space '' @ zsID z @ '':'' @ [CHR 0x0A] @ ''Type: '' @ ceType ev @ [CHR 0x0A]
     @ ''Source: '' @ ceSource ev @ [CHR 0x0A] @ ''Files: '' @ join_scope (ceScope ev) @ [CHR 0x0A]
     @ ''Analyze and provide your findings or response.''"

definition event_reply :: "publish_env \<Rightarrow> collab_space \<Rightarrow> collab_event \<Rightarrow> space_participant \<Rightarrow> string \<Rightarrow> envelope" where
  "event_reply u z ev p text =
     \<lparr>nvID = ueResp u (tpID p), nvSession = [], nvSpace = zsID z, nvChannel = ''findings'', nvThread = [], nvFrom = tpID p, nvTo = ''channel:findings'',
      nvMentions = [], nvDepth = 0, nvReplyTo = [], nvScope = ceScope ev, nvPayload = ''{\"text\":'' @ ueQuote u text @ ''}'', nvCreatedAt = ueNow u\<rparr>"

text \<open>The findings of the answer; one that cannot be stored is skipped.\<close>

definition event_findings :: "publish_env \<Rightarrow> collab_space \<Rightarrow> space_participant \<Rightarrow> finding_payload list \<Rightarrow> finding_store \<Rightarrow> finding_store" where
  "event_findings u z p fs st =
     fold (\<lambda>f st. if ueFails u (AtFinding (gpID f)) then st else SaveFinding (ueNow u) (zsID z) (reply_finding u z p f) st) fs st"

definition answer_event :: "publish_env \<Rightarrow> collab_space \<Rightarrow> collab_event \<Rightarrow> space_participant \<Rightarrow> string \<Rightarrow> invoke_result \<Rightarrow> engine_data \<Rightarrow> engine_data" where
  "answer_event u z ev p del answer d =
     (case SaveMessage (ueFails u (AtMessage (ueResp u (tpID p)))) (ueFails u (AtIndex (ueResp u (tpID p)))) (event_reply u z ev p (iuText answer)) d of
        (Some e, d) \<Rightarrow> note_status u del DeliveryFailed [] (plain ''message not stored'') d
      | (None, d) \<Rightarrow>
          note_status u del DeliveryDelivered (ueResp u (tpID p)) (plain [])
            (d\<lparr>edFindings := event_findings u z p (ueParse u (iuText answer)) (edFindings d),
               edActivation := MarkActivated (ueNow u) (zsID z) (tpID p) (edActivation d)\<rparr>))"

definition invoke_event ::
  "publish_env \<Rightarrow> (collab_event \<Rightarrow> string) \<Rightarrow> collab_space \<Rightarrow> collab_event \<Rightarrow> space_participant \<Rightarrow> bool \<Rightarrow> reservation \<Rightarrow> engine_data \<Rightarrow> engine_data" where
  "invoke_event u encode z ev p hard res d =
     (let del = dvID (delivery_of u z p DeliveryProcessing (plain [])); k = ueSettle u (tpID p) in
      case checkPeerTokenLimit (Some hard) (tpID p) res of
        Inl _ \<Rightarrow>
          (let c = rollbackBudget k res (edSpaces d) in
           note_delivery u (delivery_of u z p DeliverySkipped
             (case fst c of None \<Rightarrow> plain ''hard_token_limit_unsupported''
              | Some _ \<Rightarrow> plain ''hard_token_limit_unsupported (rollback error: %v)'')) (settle_store c d))
      | Inr maxTok \<Rightarrow>
          let request = \<lparr>irName = tpID p, irRepo = zsWorkspace z, irPrompt = event_prompt z ev, irMaxTokens = maxTok, irMaxCost = rvMaxCost res\<rparr> in
          (case ueInvoke u (tpID p) request of
             Inl e \<Rightarrow>
               (let d = d\<lparr>edRetries := snd (EnqueueRetry (ueNow u)
                      \<lparr>rtID = del, rtEvent = ceID ev, rtSpace = zsID z, rtParticipant = tpID p, rtPayload = encode ev, rtAttempt = 1,
                       rtPriority = 0, rtNext = retryNextAttempt u e, rtError = ifError e, rtCreatedAt = 0\<rparr> (edRetries d))\<rparr>;
                    c = rollbackBudget k res (edSpaces d)
                in note_status u del (if ifQuota e then DeliveryPending else DeliveryFailed) []
                     (case fst c of None \<Rightarrow> plain (ifError e)
                      | Some _ \<Rightarrow> Msg ''invocation error: %v; rollback error: %v'' [AS (ifError e)]) (settle_store c d))
           | Inr answer \<Rightarrow>
               (let (i, out, cost) = extractTokensAndCost request answer;
                    c = commitBudget (ueLimits u) k res i out cost (edSpaces d);
                    d = settle_store c d
                in case fst c of
                     Some e \<Rightarrow>
                       if is_exceeded e then note_status u del DeliverySkipped [] (plain ''budget_exceeded'') d
                       else note_status u del DeliveryFailed [] (plain ''budget not committed'') d
                   | None \<Rightarrow> answer_event u z ev p del answer d)))"

definition run_event ::
  "publish_env \<Rightarrow> (collab_event \<Rightarrow> string) \<Rightarrow> collab_space \<Rightarrow> collab_event \<Rightarrow> space_participant \<Rightarrow> bool \<Rightarrow> engine_data \<Rightarrow> engine_data" where
  "run_event u encode z ev p hard d =
     (let d = note_delivery u (delivery_of u z p DeliveryProcessing (plain [])) d in
      case reserveBudget (ueLimits u) (ueReserve u (tpID p)) (zsID z) (estimate (event_prompt z ev)) 1000 (edSpaces d) of
        (Inl _, st) \<Rightarrow> note_delivery u (delivery_of u z p DeliverySkipped (plain ''budget_exceeded'')) (d\<lparr>edSpaces := st\<rparr>)
      | (Inr res, st) \<Rightarrow> invoke_event u encode z ev p hard res (d\<lparr>edSpaces := st\<rparr>))"

text \<open>Whether a participant is to hear of an event: the channel it names can be used and a subscription matches.\<close>

definition hears :: "(string \<Rightarrow> string \<Rightarrow> bool) \<Rightarrow> collab_space \<Rightarrow> space_participant \<Rightarrow> collab_event \<Rightarrow> engine_data \<Rightarrow> bool" where
  "hears glob z p ev d \<longleftrightarrow>
     (ceChannel ev = [] \<or> (case GetChannel (zsID z) (ceChannel ev) (edSpaces d) of None \<Rightarrow> False | Some ch \<Rightarrow> checkChannelAccess z (Some ch) (tpID p) = None))
     \<and> list_ex (\<lambda>b. MatchesSubscription glob b ev (ceChannel ev)) (GetParticipantSubscriptions (zsID z) (tpID p) (edSpaces d))"

definition dispatchParticipantEvent ::
  "publish_env \<Rightarrow> (string \<Rightarrow> string \<Rightarrow> bool) \<Rightarrow> (collab_event \<Rightarrow> string) \<Rightarrow> collab_space \<Rightarrow> collab_event \<Rightarrow> space_participant \<Rightarrow> engine_data \<Rightarrow> engine_data" where
  "dispatchParticipantEvent u glob encode z ev p d =
     (let u = u\<lparr>ueMsg := ceID ev\<rparr> in
      if ceType ev = ''message.created'' \<or> \<not> hears glob z p ev d then d
      else case ShouldActivate (ueHash u) (ueCooldown u) (ueNow u) z p None (edActivation d) of
        (v, ac) \<Rightarrow>
          let d = d\<lparr>edActivation := ac\<rparr>;
              held = (\<lambda>reason. note_delivery u (delivery_of u z p
                        (if reason = ''cooldown_active'' \<or> reason = ''space_paused'' then DeliverySkipped else DeliveryPending) (plain reason)) d)
          in (case v of
                Refuse reason _ \<Rightarrow> held reason
              | Skip reason \<Rightarrow> held reason
              | Activate \<Rightarrow>
                  (case CheckPrivacyPolicy (ueLib u) p (ceScope ev) of
                     Some reason \<Rightarrow> note_delivery u (delivery_of u z p DeliverySkipped reason) d
                   | None \<Rightarrow>
                       if is_external u p then note_delivery u (delivery_of u z p DeliveryPending (plain [])) d
                       else (case findHarness u (tpID p) (tpAdapter p) of None \<Rightarrow> d | Some hard \<Rightarrow> run_event u encode z ev p hard d))))"

definition handleCollaborationEvent ::
  "publish_env \<Rightarrow> (string \<Rightarrow> string \<Rightarrow> bool) \<Rightarrow> (collab_event \<Rightarrow> string) \<Rightarrow> collab_event \<Rightarrow> engine_data \<Rightarrow> engine_data" where
  "handleCollaborationEvent u glob encode ev d =
     (if ceSpace ev = [] then d
      else case GetSpace (ceSpace ev) (edSpaces d) of
        None \<Rightarrow> d
      | Some z \<Rightarrow>
          if zsState z = SpacePaused \<or> zsState z = SpaceStopped then d
          else fold (\<lambda>p d. if tpID p = ceSource ev then d else dispatchParticipantEvent u glob encode z ev p d) (map snd (zsParticipants z)) d)"

subsection \<open>Coalescing file changes\<close>

text \<open>A window collects the changed files of a space and a source, whose texts are joined to its key. Its timer is armed, or it has
  expired and its callback waits for the lock (\<open>evCallbacks\<close>). A callback that has had the lock counts down what \<open>Close\<close> waits for
  (\<open>evWaits\<close>) when it ends (\<open>evEnding\<close>); counting below zero is a panic, which takes the process down (\<open>evDown\<close>). What has been
  handed to \<open>Publish\<close> is kept in \<open>evHanded\<close>; its result is discarded. The payload of the changes is left out.\<close>

record coalesce_bucket =
  bkSpace :: string
  bkSource :: string
  bkFiles :: "string set"
  bkArmed :: bool

record event_bus =
  evWindows :: "(string \<times> coalesce_bucket) list"
  evCallbacks :: "string list"
  evEnding :: nat
  evWaits :: nat
  evClosed :: bool
  evDown :: bool
  evHanded :: "(string \<times> string \<times> string set) list"

definition NewEventBus :: event_bus where
  "NewEventBus = \<lparr>evWindows = [], evCallbacks = [], evEnding = 0, evWaits = 0, evClosed = False, evDown = False, evHanded = []\<rparr>"

text \<open>A change within a window starts its timer again, also when it has expired already.\<close>

definition PublishRepoChange :: "string \<Rightarrow> string \<Rightarrow> string \<Rightarrow> event_bus \<Rightarrow> event_bus" where
  "PublishRepoChange space source fl b =
     (if evClosed b then b
      else let key = colon_key space source in
        (case map_of (evWindows b) key of
           None \<Rightarrow> b\<lparr>evWindows := AList.update key \<lparr>bkSpace = space, bkSource = source, bkFiles = {fl}, bkArmed = True\<rparr> (evWindows b),
                      evWaits := evWaits b + 1\<rparr>
         | Some w \<Rightarrow> b\<lparr>evWindows := AList.update key (w\<lparr>bkFiles := insert fl (bkFiles w), bkArmed := True\<rparr>) (evWindows b)\<rparr>))"

text \<open>Stopping the timer of a flushed window does not count down.\<close>

definition flush_bucket :: "string \<Rightarrow> event_bus \<Rightarrow> event_bus" where
  "flush_bucket key b =
     (case map_of (evWindows b) key of
        None \<Rightarrow> b
      | Some w \<Rightarrow> b\<lparr>evWindows := AList.delete key (evWindows b), evHanded := evHanded b @ [(bkSpace w, bkSource w, bkFiles w)]\<rparr>)"

definition FlushCoalesce :: "string \<Rightarrow> string \<Rightarrow> event_bus \<Rightarrow> event_bus" where
  "FlushCoalesce space source b = flush_bucket (colon_key space source) b"

text \<open>A timer expires; later its callback gets the lock, and ends after its event was published.\<close>

definition expire :: "string \<Rightarrow> event_bus \<Rightarrow> event_bus" where
  "expire key b =
     (case map_of (evWindows b) key of
        None \<Rightarrow> b
      | Some w \<Rightarrow> if bkArmed w
                  then b\<lparr>evWindows := AList.update key (w\<lparr>bkArmed := False\<rparr>) (evWindows b), evCallbacks := key # evCallbacks b\<rparr> else b)"

definition run_callback :: "string \<Rightarrow> event_bus \<Rightarrow> event_bus" where
  "run_callback key b =
     (if key \<notin> set (evCallbacks b) then b
      else let b = b\<lparr>evCallbacks := remove1 key (evCallbacks b), evEnding := evEnding b + 1\<rparr>
        in if evClosed b then b else flush_bucket key b)"

definition count_down :: "event_bus \<Rightarrow> event_bus" where
  "count_down b = (if evWaits b = 0 then b\<lparr>evDown := True\<rparr> else b\<lparr>evWaits := evWaits b - 1\<rparr>)"

definition end_callback :: "event_bus \<Rightarrow> event_bus" where
  "end_callback b = (if evEnding b = 0 then b else count_down (b\<lparr>evEnding := evEnding b - 1\<rparr>))"

text \<open>Closing stops the armed timers, counts down for each, and drops the windows; afterwards it waits until the count is zero.\<close>

definition CloseBus :: "event_bus \<Rightarrow> event_bus" where
  "CloseBus b = (fold (\<lambda>(_, w) b. if bkArmed w then count_down b else b) (evWindows b) (b\<lparr>evClosed := True\<rparr>))\<lparr>evWindows := []\<rparr>"

datatype bus_action =
    RepoChange string string string
  | FlushWindow string string
  | TimerExpires string
  | CallbackRuns string
  | CallbackEnds
  | BusClose

fun bus_act :: "bus_action \<Rightarrow> event_bus \<Rightarrow> event_bus" where
  "bus_act (RepoChange space source fl) b = PublishRepoChange space source fl b"
| "bus_act (FlushWindow space source) b = FlushCoalesce space source b"
| "bus_act (TimerExpires key) b = expire key b"
| "bus_act (CallbackRuns key) b = run_callback key b"
| "bus_act CallbackEnds b = end_callback b"
| "bus_act BusClose b = CloseBus b"

text \<open>After a panic nothing happens any more.\<close>

definition bus_step :: "bus_action \<Rightarrow> event_bus \<Rightarrow> event_bus" where
  "bus_step e b = (if evDown b then b else bus_act e b)"

text \<open>The files of a key that have been handed to \<open>Publish\<close> or still wait in its window.\<close>

definition kept_files :: "string \<Rightarrow> event_bus \<Rightarrow> string set" where
  "kept_files key b = (case map_of (evWindows b) key of None \<Rightarrow> {} | Some w \<Rightarrow> bkFiles w)
     \<union> (\<Union>(s, src, fs)\<in>set (evHanded b). if colon_key s src = key then fs else {})"

fun changed_files :: "string \<Rightarrow> bus_action list \<Rightarrow> string set" where
  "changed_files key [] = {}"
| "changed_files key (RepoChange space source fl # es) = (if colon_key space source = key then {fl} else {}) \<union> changed_files key es"
| "changed_files key (e # es) = changed_files key es"

definition bus_inv :: "event_bus \<Rightarrow> bool" where
  "bus_inv b \<longleftrightarrow> \<not> evClosed b \<and> (\<forall>key w. map_of (evWindows b) key = Some w \<longrightarrow> colon_key (bkSpace w) (bkSource w) = key \<and> bkFiles w \<noteq> {})
     \<and> (\<forall>(s, src, fs)\<in>set (evHanded b). fs \<noteq> {})"

lemma flush_bucket_keeps:
  "bus_inv b \<Longrightarrow> bus_inv (flush_bucket key b) \<and> kept_files k (flush_bucket key b) = kept_files k b"
  by (auto simp: flush_bucket_def bus_inv_def kept_files_def delete_conv' split: option.splits if_splits)

lemma count_down_frame [simp]:
  "evWindows (count_down b) = evWindows b" "evHanded (count_down b) = evHanded b" "evClosed (count_down b) = evClosed b"
  "evCallbacks (count_down b) = evCallbacks b" "evEnding (count_down b) = evEnding b"
  by (simp_all add: count_down_def)

lemma bus_act_keeps:
  assumes "bus_inv b" and "e \<noteq> BusClose"
  shows "bus_inv (bus_act e b) \<and> kept_files k (bus_act e b) = kept_files k b \<union> changed_files k [e]"
proof (cases e)
  case (RepoChange space source fl)
  then show ?thesis using assms(1)
    by (auto simp: PublishRepoChange_def bus_inv_def kept_files_def Let_def update_conv' split: option.splits if_splits)
next
  case (FlushWindow space source)
  then show ?thesis using flush_bucket_keeps [OF assms(1)] by (simp add: FlushCoalesce_def)
next
  case (TimerExpires key)
  then show ?thesis using assms(1) by (auto simp: expire_def bus_inv_def kept_files_def update_conv' split: option.splits)
next
  case (CallbackRuns key)
  define b' where "b' = b\<lparr>evCallbacks := remove1 key (evCallbacks b), evEnding := Suc (evEnding b)\<rparr>"
  have b': "bus_inv b'" "kept_files k b' = kept_files k b" "\<not> evClosed b'"
    using assms(1) by (simp_all add: bus_inv_def kept_files_def b'_def)
  then show ?thesis using CallbackRuns assms(1) flush_bucket_keeps [OF b'(1), of key k]
    by (simp add: run_callback_def Let_def b'_def [symmetric])
next
  case CallbackEnds
  then show ?thesis using assms(1) by (simp add: end_callback_def bus_inv_def kept_files_def)
qed (use assms(2) in simp)

lemma changed_files_Cons: "changed_files k (e # es) = changed_files k [e] \<union> changed_files k es"
  by (cases e) auto

lemma down_stays: "evDown b \<Longrightarrow> fold bus_step es b = b"
  by (induction es) (simp_all add: bus_step_def)

lemma bus_run_keeps:
  "bus_inv b \<Longrightarrow> BusClose \<notin> set es \<Longrightarrow> \<not> evDown (fold bus_step es b) \<Longrightarrow>
   bus_inv (fold bus_step es b) \<and> kept_files k (fold bus_step es b) = kept_files k b \<union> changed_files k es"
proof (induction es arbitrary: b)
  case (Cons e es)
  have "\<not> evDown b" using Cons.prems(3) down_stays [of b "e # es"] by auto
  then have "bus_step e b = bus_act e b" by (simp add: bus_step_def)
  moreover have "e \<noteq> BusClose" using Cons.prems(2) by auto
  then have "bus_inv (bus_act e b)" "kept_files k (bus_act e b) = kept_files k b \<union> changed_files k [e]"
    using bus_act_keeps [OF Cons.prems(1)] by simp_all
  ultimately show ?case using Cons by (simp add: changed_files_Cons [of k e es] Un_assoc)
qed simp

text \<open>C37: until the bus is closed or panics coalescing neither loses nor invents a file: whatever changes, flushes, expiring timers and
  late callbacks interleave, what has been handed to \<open>Publish\<close> or waits under a key is exactly what has changed under it, and no event
  handed over is empty. What \<open>Publish\<close> does with an event is not part of this.\<close>
theorem coalescing_keeps_every_file:
  assumes "BusClose \<notin> set es" and "\<not> evDown (fold bus_step es NewEventBus)"
  shows "kept_files key (fold bus_step es NewEventBus) = changed_files key es
    \<and> list_all (\<lambda>(s, src, fs). fs \<noteq> {}) (evHanded (fold bus_step es NewEventBus))"
proof -
  have "bus_inv NewEventBus" "kept_files key NewEventBus = {}" by (simp_all add: NewEventBus_def bus_inv_def kept_files_def)
  then show ?thesis using bus_run_keeps [of NewEventBus es key] assms by (simp add: bus_inv_def list_all_iff)
qed

definition sample_bus_run :: "bus_action list" where
  "sample_bus_run = [RepoChange ''s'' ''git'' ''a.go'', TimerExpires ''s:git'', RepoChange ''s'' ''git'' ''b.go'', CallbackRuns ''s:git'',
     CallbackEnds, RepoChange ''s'' ''git'' ''c.go'', FlushWindow ''s'' ''git'', RepoChange ''s'' ''git'' ''d.go'']"

theorem coalescing_keeps_every_file_witness:
  "kept_files ''s:git'' (fold bus_step sample_bus_run NewEventBus) = {''a.go'', ''b.go'', ''c.go'', ''d.go''}
   \<and> length (evHanded (fold bus_step sample_bus_run NewEventBus)) = 2"
proof -
  have "BusClose \<notin> set sample_bus_run" "\<not> evDown (fold bus_step sample_bus_run NewEventBus)" by code_simp+
  from coalescing_keeps_every_file [OF this, of "''s:git''"]
  have "kept_files ''s:git'' (fold bus_step sample_bus_run NewEventBus) = {''a.go'', ''b.go'', ''c.go'', ''d.go''}"
    by (auto simp: sample_bus_run_def colon_key_def)
  moreover have "length (evHanded (fold bus_step sample_bus_run NewEventBus)) = 2" by code_simp
  ultimately show ?thesis by blast
qed

text \<open>Two spaces can share a window: the files of the second are announced in the first.\<close>

lemma shared_window:
  "evHanded (fold bus_step [RepoChange ''a'' ''b:c'' ''x'', RepoChange ''a:b'' ''c'' ''y'', FlushWindow ''a'' ''b:c''] NewEventBus)
   = [(''a'', ''b:c'', {''x'', ''y''})]"
  by (auto simp: PublishRepoChange_def FlushCoalesce_def flush_bucket_def NewEventBus_def colon_key_def bus_step_def)

subsection \<open>When the bus panics\<close>

text \<open>A change that comes between the expiry of a timer and its callback starts it a second time: two callbacks run for one count,
  and the files of every other window are lost with the process.\<close>

lemma rearmed_timer_panics:
  "(let b = fold bus_step [RepoChange ''s'' ''git'' ''a.go'', TimerExpires ''s:git'', RepoChange ''s'' ''git'' ''b.go'', TimerExpires ''s:git'',
      CallbackRuns ''s:git'', CallbackEnds, CallbackRuns ''s:git'', CallbackEnds] NewEventBus in evDown b)"
  by code_simp

text \<open>Nothing else makes it panic before it is closed: as long as no change comes to a window whose callback is pending, there is a
  count for every armed timer, pending callback and callback that has not ended.\<close>

definition armed_keys :: "event_bus \<Rightarrow> string set" where
  "armed_keys b = {k. \<exists>w. map_of (evWindows b) k = Some w \<and> bkArmed w}"

definition counted :: "event_bus \<Rightarrow> bool" where
  "counted b \<longleftrightarrow> card (armed_keys b) + length (evCallbacks b) + evEnding b \<le> evWaits b \<and> \<not> evDown b \<and> \<not> evClosed b
     \<and> (\<forall>k w. map_of (evWindows b) k = Some w \<longrightarrow> \<not> bkArmed w \<longrightarrow> k \<in> set (evCallbacks b))"

fun calm :: "bus_action \<Rightarrow> event_bus \<Rightarrow> bool" where
  "calm (RepoChange space source fl) b = (colon_key space source \<notin> set (evCallbacks b))"
| "calm BusClose b = False"
| "calm e b = True"

fun calm_run :: "bus_action list \<Rightarrow> event_bus \<Rightarrow> bool" where
  "calm_run [] b = True"
| "calm_run (e # es) b = (calm e b \<and> calm_run es (bus_step e b))"

lemma finite_armed [simp]: "finite (armed_keys b)"
proof -
  have "armed_keys b \<subseteq> dom (map_of (evWindows b))" unfolding armed_keys_def dom_def by blast
  then show ?thesis using finite_dom_map_of finite_subset by blast
qed

lemma flush_counted:
  assumes "card (armed_keys b) + m \<le> n"
  shows "card (armed_keys (flush_bucket key b)) + m \<le> n"
proof -
  have "armed_keys (flush_bucket key b) \<subseteq> armed_keys b"
    by (auto simp: armed_keys_def flush_bucket_def delete_conv' split: option.splits if_splits)
  then have "card (armed_keys (flush_bucket key b)) \<le> card (armed_keys b)" by (intro card_mono) simp_all
  then show ?thesis using assms by simp
qed

lemma flush_frame [simp]:
  "evCallbacks (flush_bucket key b) = evCallbacks b" "evEnding (flush_bucket key b) = evEnding b"
  "evWaits (flush_bucket key b) = evWaits b" "evDown (flush_bucket key b) = evDown b" "evClosed (flush_bucket key b) = evClosed b"
  "map_of (evWindows (flush_bucket key b)) k = (if k = key then None else map_of (evWindows b) k)"
  by (auto simp: flush_bucket_def delete_conv' split: option.splits)

lemma calm_step_counted:
  assumes c: "counted b" and "calm e b"
  shows "counted (bus_step e b)"
proof -
  have up: "bus_step e b = bus_act e b" using c by (simp add: bus_step_def counted_def)
  show ?thesis unfolding up
  proof (cases e)
    case (RepoChange space source fl)
    let ?key = "colon_key space source"
    show "counted (bus_act e b)"
    proof (cases "map_of (evWindows b) ?key")
      case None
      then have "armed_keys (bus_act e b) = insert ?key (armed_keys b) \<or> bus_act e b = b"
        using RepoChange by (auto simp: armed_keys_def PublishRepoChange_def Let_def update_conv')
      moreover have "card (insert ?key (armed_keys b)) \<le> card (armed_keys b) + 1" by (simp add: card_insert_le_m1 card_insert_if)
      ultimately show ?thesis
        using c None RepoChange by (auto simp: counted_def PublishRepoChange_def Let_def update_conv' split: if_splits)
    next
      case (Some w)
      then have "bkArmed w" using c assms(2) RepoChange by (auto simp: counted_def)
      then have "armed_keys (bus_act e b) = armed_keys b"
        using Some RepoChange by (auto simp: armed_keys_def PublishRepoChange_def Let_def update_conv')
      then show ?thesis
        using c Some RepoChange by (auto simp: counted_def PublishRepoChange_def Let_def update_conv' split: if_splits)
    qed
  next
    case (FlushWindow space source)
    then show "counted (bus_act e b)"
      using c flush_counted [of b "length (evCallbacks b) + evEnding b" "evWaits b" "colon_key space source"]
      by (auto simp: counted_def FlushCoalesce_def add.assoc split: if_splits)
  next
    case (TimerExpires key)
    show "counted (bus_act e b)"
    proof (cases "key \<in> armed_keys b")
      case True
      then obtain w where w: "map_of (evWindows b) key = Some w" "bkArmed w" by (auto simp: armed_keys_def)
      then have "armed_keys (bus_act e b) = armed_keys b - {key}"
        using TimerExpires by (auto simp: armed_keys_def expire_def update_conv')
      moreover have "card (armed_keys b) > 0" using True by (auto simp: card_gt_0_iff)
      ultimately show ?thesis
        using c w True TimerExpires by (auto simp: counted_def expire_def update_conv' card_Diff_singleton)
    next
      case False
      then have "bus_act e b = b" using TimerExpires by (auto simp: armed_keys_def expire_def split: option.splits)
      then show ?thesis using c by simp
    qed
  next
    case (CallbackRuns key)
    let ?b = "b\<lparr>evCallbacks := remove1 key (evCallbacks b), evEnding := evEnding b + 1\<rparr>"
    have "armed_keys ?b = armed_keys b" by (simp add: armed_keys_def)
    moreover have "length (remove1 key (evCallbacks b)) + 1 = length (evCallbacks b)" if "key \<in> set (evCallbacks b)"
      using that by (simp add: length_remove1) (metis Suc_pred length_pos_if_in_set)
    ultimately show "counted (bus_act e b)"
      using c CallbackRuns flush_counted [of ?b "length (evCallbacks ?b) + evEnding ?b" "evWaits b" key]
      by (auto simp: counted_def run_callback_def Let_def add.assoc in_set_remove1 split: if_splits)
  next
    case CallbackEnds
    then show "counted (bus_act e b)"
      using c by (auto simp: counted_def end_callback_def count_down_def armed_keys_def)
  qed (use assms(2) in simp)
qed

lemma calm_bus_stays_up: "calm_run es NewEventBus \<Longrightarrow> \<not> evDown (fold bus_step es NewEventBus)"
proof -
  have "counted b \<Longrightarrow> calm_run es b \<Longrightarrow> counted (fold bus_step es b)" for b
    by (induction es arbitrary: b) (auto simp: calm_step_counted)
  moreover have "counted NewEventBus" by (simp add: counted_def NewEventBus_def armed_keys_def)
  ultimately show "calm_run es NewEventBus \<Longrightarrow> \<not> evDown (fold bus_step es NewEventBus)"
    by (auto simp: counted_def)
qed

subsection \<open>Closing\<close>

text \<open>A closed bus without windows and pending callbacks never changes what it waits for.\<close>

definition bus_stuck :: "event_bus \<Rightarrow> bool" where
  "bus_stuck b \<longleftrightarrow> evClosed b \<and> evCallbacks b = [] \<and> evEnding b = 0 \<and> evWindows b = [] \<and> evWaits b > 0"

lemma bus_stuck_step: "bus_stuck b \<Longrightarrow> bus_stuck (bus_step e b)"
  by (cases e) (auto simp: bus_step_def bus_stuck_def PublishRepoChange_def FlushCoalesce_def flush_bucket_def expire_def run_callback_def
      end_callback_def CloseBus_def)

interpretation stuck: state_machine bus_step bus_stuck
  by unfold_locales (rule bus_stuck_step)

text \<open>A window that is flushed before its timer expires is never counted down: after one change and one flush, closing waits forever.\<close>
theorem flushed_bus_never_closes:
  "evWaits (fold bus_step es (fold bus_step [RepoChange space source fl, FlushWindow space source, BusClose] NewEventBus)) > 0"
proof -
  have "bus_stuck (fold bus_step [RepoChange space source fl, FlushWindow space source, BusClose] NewEventBus)"
    by (auto simp: bus_step_def bus_stuck_def PublishRepoChange_def FlushCoalesce_def flush_bucket_def CloseBus_def NewEventBus_def Let_def)
  from stuck.run_inv [OF this] show ?thesis by (simp add: bus_stuck_def)
qed

end
