(* ===== verification/Inbox.thy ===== *)
theory Inbox
  imports Events
begin

text \<open>
  What participants read and decide in a space: the inbox with its cursor, decisions and their acceptance, and the status of a space
  (\<open>GetInbox\<close>, \<open>CreateDecision\<close>, \<open>AcceptDecision\<close>, \<open>SpaceStatus\<close> in \<open>internal/collaboration/engine.go\<close>)
  with the store methods behind them. Errors of the database
  are returned unchanged and left out, as is the type of a message.
\<close>

datatype decision_status = DecisionProposed | DecisionAccepted | DecisionRejected | DecisionSuperseded | DecisionRequiresHuman

record space_decision =
  mnID :: string
  mnSpace :: string
  mnTitle :: string
  mnStatement :: string
  mnRationale :: string
  mnEvidence :: "string list"
  mnProposedBy :: string
  mnAcceptedBy :: "string list"
  mnStatus :: decision_status
  mnSupersedes :: string
  mnCreatedAt :: int
  mnUpdatedAt :: int

record cursor =
  crMode :: participant_mode
  crMessage :: string
  crEvent :: string
  crUpdatedAt :: int

record space_room =
  rmData :: engine_data
  rmDecisions :: "(string \<times> space_decision) list"
  rmCursors :: "((string \<times> string) \<times> cursor) list"

subsection \<open>Store methods\<close>

definition merge_decision :: "space_decision \<Rightarrow> space_decision \<Rightarrow> space_decision" where
  "merge_decision old new = new\<lparr>mnID := mnID old, mnSpace := mnSpace old, mnProposedBy := mnProposedBy old, mnCreatedAt := mnCreatedAt old\<rparr>"

definition SaveDecision :: "int \<Rightarrow> space_decision \<Rightarrow> space_room \<Rightarrow> space_room" where
  "SaveDecision now c r =
     (let c = c\<lparr>mnCreatedAt := (if mnCreatedAt c = 0 then now else mnCreatedAt c), mnUpdatedAt := now\<rparr>
      in r\<lparr>rmDecisions := upsert merge_decision (mnID c) c (rmDecisions r)\<rparr>)"

definition GetDecision :: "string \<Rightarrow> string \<Rightarrow> space_room \<Rightarrow> msg + space_decision" where
  "GetDecision space i r =
     (case map_of (rmDecisions r) i of
        None \<Rightarrow> Inl (Msg ''decision %q in space %q not found'' [AS i, AS space])
      | Some c \<Rightarrow> if mnSpace c = space then Inr c else Inl (Msg ''decision %q in space %q not found'' [AS i, AS space]))"

definition ListDecisions :: "string \<Rightarrow> space_room \<Rightarrow> space_decision list" where
  "ListDecisions space r = sort_key mnCreatedAt (filter (\<lambda>c. mnSpace c = space) (map snd (rmDecisions r)))"

definition GetParticipantCursor :: "int \<Rightarrow> string \<Rightarrow> string \<Rightarrow> space_room \<Rightarrow> cursor" where
  "GetParticipantCursor now space p r =
     (case map_of (rmCursors r) (space, p) of
        Some c \<Rightarrow> c
      | None \<Rightarrow> \<lparr>crMode = ModeActive, crMessage = [], crEvent = [], crUpdatedAt = now\<rparr>)"

definition UpdateParticipantCursor :: "int \<Rightarrow> string \<Rightarrow> string \<Rightarrow> cursor \<Rightarrow> space_room \<Rightarrow> space_room" where
  "UpdateParticipantCursor now space p c r =
     r\<lparr>rmCursors := upsert (\<lambda>old new. new) (space, p) (c\<lparr>crUpdatedAt := now\<rparr>) (rmCursors r)\<rparr>"

text \<open>The messages of a space in the order of their time, the first ones if there is a limit.\<close>

definition in_space :: "string \<Rightarrow> envelope \<Rightarrow> bool" where
  "in_space space m \<longleftrightarrow> nvSpace m = space \<or> nvSession m = space"

definition GetSpaceMessages :: "string \<Rightarrow> string \<Rightarrow> string \<Rightarrow> nat \<Rightarrow> engine_data \<Rightarrow> envelope list" where
  "GetSpaceMessages space channel thread n d =
     (let ms = sort_key nvCreatedAt (filter (\<lambda>m. in_space space m \<and> (channel = [] \<or> nvChannel m = channel) \<and> (thread = [] \<or> nvThread m = thread))
                  (map snd (edMessages d)))
      in if n > 0 then take n ms else ms)"

subsection \<open>The inbox\<close>

record inbox_item =
  itID :: string
  itSpace :: string
  itChannel :: string
  itThread :: string
  itFrom :: string
  itSummary :: string
  itCreatedAt :: int
  itRequiresResponse :: bool
  itMentionsMe :: bool
  itIsDirect :: bool
  itPayload :: string

record agent_inbox =
  aiParticipant :: string
  aiSpace :: string
  aiUnread :: nat
  aiItems :: "inbox_item list"

definition is_direct :: "string \<Rightarrow> envelope \<Rightarrow> bool" where
  "is_direct p m \<longleftrightarrow> nvTo m = p \<or> nvTo m = ''participant:'' @ p"

definition inbox_summary :: "string \<Rightarrow> string" where
  "inbox_summary s = (if length s > 120 then take 120 s @ ''...'' else s)"

definition to_inbox :: "string \<Rightarrow> envelope \<Rightarrow> inbox_item" where
  "to_inbox p m =
     \<lparr>itID = nvID m, itSpace = nvSpace m, itChannel = nvChannel m, itThread = nvThread m, itFrom = nvFrom m, itSummary = inbox_summary (nvPayload m),
      itCreatedAt = nvCreatedAt m, itRequiresResponse = (mentioned p (nvMentions m) \<or> is_direct p m), itMentionsMe = mentioned p (nvMentions m),
      itIsDirect = is_direct p m, itPayload = nvPayload m\<rparr>"

definition for_inbox :: "string \<Rightarrow> int option \<Rightarrow> envelope \<Rightarrow> bool" where
  "for_inbox p since m \<longleftrightarrow> (case since of None \<Rightarrow> True | Some t \<Rightarrow> nvCreatedAt m \<ge> t)
     \<and> (is_direct p m \<or> mentioned p (nvMentions m) \<or> nvFrom m \<noteq> p)"

text \<open>Whether only unread messages are wanted is not looked at.\<close>

definition GetInbox :: "int \<Rightarrow> string \<Rightarrow> string \<Rightarrow> int option \<Rightarrow> bool \<Rightarrow> space_room \<Rightarrow> agent_inbox \<times> space_room" where
  "GetInbox now space p since unreadOnly r =
     (let ms = GetSpaceMessages space [] [] 200 (rmData r);
          items = map (to_inbox p) (filter (for_inbox p since) ms);
          r = (if ms = [] then r
               else UpdateParticipantCursor now space p ((GetParticipantCursor now space p r)\<lparr>crMessage := nvID (last ms)\<rparr>) r)
      in (\<lparr>aiParticipant = p, aiSpace = space, aiUnread = length items, aiItems = items\<rparr>, r))"

subsection \<open>Decisions\<close>

definition announce :: "publish_env \<Rightarrow> string \<Rightarrow> string \<Rightarrow> string \<Rightarrow> string \<Rightarrow> engine_data \<Rightarrow> engine_data" where
  "announce u space from subject text d =
     snd (Publish u \<lparr>urqSpace = space, urqChannelID = ''decisions'', urqChannel = [], urqThread = [], urqFrom = from, urqSubject = subject,
       urqMessage = [], urqPayload = ''{\"text\":'' @ ueQuote u text @ ''}'', urqMentions = [], urqReplyTo = [], urqScope = [], urqPriority = 0\<rparr> d)"

text \<open>The decision is stored, announced, and published as an event; what becomes of the announcement and the event is ignored.\<close>

definition CreateDecision ::
  "publish_env \<Rightarrow> publish_env \<Rightarrow> (string \<Rightarrow> string \<Rightarrow> bool) \<Rightarrow> (collab_event \<Rightarrow> string) \<Rightarrow> string \<Rightarrow> string \<Rightarrow> string \<Rightarrow> string \<Rightarrow> string \<Rightarrow> string \<Rightarrow> string list
     \<Rightarrow> space_room \<Rightarrow> space_decision \<times> space_room" where
  "CreateDecision u v glob encode i space title statement rationale proposedBy evidence r =
     (let c = \<lparr>mnID = i, mnSpace = space, mnTitle = title, mnStatement = statement, mnRationale = rationale, mnEvidence = evidence,
               mnProposedBy = proposedBy, mnAcceptedBy = [], mnStatus = DecisionProposed, mnSupersedes = [], mnCreatedAt = ueNow u, mnUpdatedAt = ueNow u\<rparr>;
          r = SaveDecision (ueNow u) c r;
          d = announce u space proposedBy (''Decision: '' @ title)
                (''PROPOSED DECISION: '' @ title @ [CHR 0x0A] @ ''Statement: '' @ statement @ [CHR 0x0A] @ ''Rationale: '' @ rationale) (rmData r);
          d = handleCollaborationEvent v glob encode
                \<lparr>ceID = ''evt_dec_'' @ i, ceSpace = space, ceType = ''decision.created'', ceSource = proposedBy, ceTime = ueNow u, ceScope = [], ceChannel = []\<rparr> d
      in (c, r\<lparr>rmData := d\<rparr>))"

definition AcceptDecision :: "publish_env \<Rightarrow> string \<Rightarrow> string \<Rightarrow> string \<Rightarrow> space_room \<Rightarrow> (msg + space_decision) \<times> space_room" where
  "AcceptDecision u space i p r =
     (case GetDecision space i r of
        Inl e \<Rightarrow> (Inl e, r)
      | Inr c \<Rightarrow>
          let c = c\<lparr>mnAcceptedBy := (if p \<in> set (mnAcceptedBy c) then mnAcceptedBy c else mnAcceptedBy c @ [p]),
                    mnStatus := DecisionAccepted, mnUpdatedAt := ueNow u\<rparr>;
              r = SaveDecision (ueNow u) c r
          in (Inr c, r\<lparr>rmData := announce u space p (''Decision Accepted: '' @ mnTitle c) (''DECISION ACCEPTED: '' @ mnTitle c @ '' by '' @ p) (rmData r)\<rparr>))"

subsection \<open>Status\<close>

record space_status =
  qzID :: string
  qzTitle :: string
  qzState :: space_state
  qzWriter :: string
  qzParticipants :: "(string \<times> space_participant) list"
  qzChannels :: "string list"
  qzFindings :: "nat \<times> nat \<times> nat"
  qzDecisions :: nat
  qzMessages :: nat
  qzRounds :: int

definition SpaceStatus :: "string \<Rightarrow> space_room \<Rightarrow> space_status option" where
  "SpaceStatus space r =
     (case GetSpace space (edSpaces (rmData r)) of
        None \<Rightarrow> None
      | Some z \<Rightarrow> Some \<lparr>qzID = zsID z, qzTitle = zsTitle z, qzState = zsState z, qzWriter = zsWriter z, qzParticipants = zsParticipants z,
            qzChannels = map hcName (sort_key hcCreatedAt (map snd (rows_of space (ztChannels (edSpaces (rmData r)))))),
            qzFindings = space_counts space (edFindings (rmData r)), qzDecisions = length (ListDecisions space r),
            qzMessages = length (GetSpaceMessages space [] [] 1000 (rmData r)), qzRounds = 10\<rparr>)"

subsection \<open>What the inbox shows\<close>

lemma sort_key_snoc: "\<forall>y\<in>set xs. f y \<le> f x \<Longrightarrow> sort_key f (xs @ [x]) = sort_key f xs @ [x]"
proof (induction xs)
  case (Cons a xs)
  have "insort_key f a (ys @ [x]) = insort_key f a ys @ [x]" if "f a \<le> f x" for ys
    using that by (induction ys) auto
  then show ?case using Cons by simp
qed simp

lemma GetSpaceMessages_full:
  assumes "length (GetSpaceMessages space [] [] n d) = n" and "n > 0"
    and "list_all (\<lambda>x. nvCreatedAt (snd x) \<le> nvCreatedAt m) (edMessages d)" and "edMessages d' = edMessages d @ [(i, m)]"
  shows "GetSpaceMessages space [] [] n d' = GetSpaceMessages space [] [] n d"
proof (cases "in_space space m")
  case True
  let ?xs = "filter (in_space space) (map snd (edMessages d))"
  have "sort_key nvCreatedAt (?xs @ [m]) = sort_key nvCreatedAt ?xs @ [m]"
    using assms(3) by (intro sort_key_snoc) (auto simp: list_all_iff)
  moreover have "length (sort_key nvCreatedAt ?xs) \<ge> n" using assms(1,2) by (simp add: GetSpaceMessages_def Let_def)
  ultimately show ?thesis using True assms(2,4) by (simp add: GetSpaceMessages_def)
next
  case False
  then show ?thesis using assms(4) by (simp add: GetSpaceMessages_def)
qed

text \<open>C40: once a space has two hundred messages a new message reaches no inbox: whoever asks gets the same items as before, also when it is
  addressed to the asker.\<close>
theorem inbox_misses_later_messages:
  assumes "length (GetSpaceMessages space [] [] 200 (rmData r)) = 200"
    and "list_all (\<lambda>x. nvCreatedAt (snd x) \<le> nvCreatedAt env) (edMessages (rmData r))"
    and "SaveMessage False False env (rmData r) = (None, d)"
  shows "fst (GetInbox now space p since unreadOnly (r\<lparr>rmData := d\<rparr>)) = fst (GetInbox now space p since unreadOnly r)"
proof -
  define m where "m = env\<lparr>nvPayload := (if nvPayload env = [] then ''{}'' else nvPayload env), nvSession := message_session env\<rparr>"
  have "edMessages d = edMessages (rmData r) @ [(nvID env, m)]"
    using assms(3) by (auto simp: SaveMessage_def Let_def m_def split: if_splits)
  moreover have "nvCreatedAt m = nvCreatedAt env" by (simp add: m_def)
  ultimately have "GetSpaceMessages space [] [] 200 d = GetSpaceMessages space [] [] 200 (rmData r)"
    using assms(2) by (intro GetSpaceMessages_full [OF assms(1), where m = m and i = "nvID env"]) simp_all
  then show ?thesis by (simp add: GetInbox_def Let_def)
qed

definition sample_message :: "int \<Rightarrow> string \<Rightarrow> envelope" where
  "sample_message t i = \<lparr>nvID = i, nvSession = [], nvSpace = ''s'', nvChannel = ''general'', nvThread = [], nvFrom = ''codex'', nvTo = ''kimi'', nvMentions = [],
     nvDepth = 0, nvReplyTo = [], nvScope = [], nvPayload = ''{}'', nvCreatedAt = t\<rparr>"

definition full_log :: "(string \<times> envelope) list" where
  "full_log = map (\<lambda>n. (replicate n CHR ''m'', sample_message 0 (replicate n CHR ''m''))) [0..<200]"

lemma full_log_entries:
  "length full_log = 200" "list_all (\<lambda>x. in_space ''s'' (snd x) \<and> nvCreatedAt (snd x) = 0 \<and> fst x \<noteq> ''new'') full_log"
proof -
  have "''new'' \<noteq> replicate n CHR ''m''" for n by (cases n) auto
  then have "replicate n CHR ''m'' \<noteq> ''new''" for n by metis
  then show "list_all (\<lambda>x. in_space ''s'' (snd x) \<and> nvCreatedAt (snd x) = 0 \<and> fst x \<noteq> ''new'') full_log"
    unfolding full_log_def list_all_iff set_map by (auto simp: in_space_def sample_message_def)
  show "length full_log = 200" by (simp add: full_log_def del: upt_rec_numeral)
qed

definition full_room :: space_room where
  "full_room = \<lparr>rmData = \<lparr>edSpaces = empty_spaces, edThreads = [], edMessages = full_log, edDeliveries = [],
     edRetries = \<lparr>rqItems = [], rqDead = []\<rparr>, edFindings = empty_findings, edActivation = fresh_activation\<rparr>, rmDecisions = [], rmCursors = []\<rparr>"

theorem inbox_misses_later_messages_witness:
  "\<exists>d. SaveMessage False False (sample_message 1 ''new'') (rmData full_room) = (None, d)
     \<and> fst (GetInbox 1 ''s'' ''kimi'' None True (full_room\<lparr>rmData := d\<rparr>)) = fst (GetInbox 1 ''s'' ''kimi'' None True full_room)"
proof -
  have log: "edMessages (rmData full_room) = full_log" by (simp add: full_room_def)
  have "filter (in_space ''s'') (map snd full_log) = map snd full_log"
    using full_log_entries(2) by (simp add: list_all_iff)
  then have full: "length (GetSpaceMessages ''s'' [] [] 200 (rmData full_room)) = 200"
    by (simp add: GetSpaceMessages_def log full_log_entries(1))
  have old: "list_all (\<lambda>x. nvCreatedAt (snd x) \<le> nvCreatedAt (sample_message 1 ''new'')) (edMessages (rmData full_room))"
    using full_log_entries(2) by (simp add: log list_all_iff sample_message_def)
  have "map_of full_log ''new'' = None" using full_log_entries(2) by (auto simp: map_of_eq_None_iff list_all_iff)
  then obtain d where d: "SaveMessage False False (sample_message 1 ''new'') (rmData full_room) = (None, d)"
    by (simp add: SaveMessage_def sample_message_def log)
  then show ?thesis using inbox_misses_later_messages [OF full old d] by blast
qed

text \<open>The inbox looks at nothing but the messages: neither membership nor the channels nor the cursor decide what is shown, and
  reading twice shows everything twice.\<close>

lemma GetInbox_same:
  assumes "edMessages (rmData r) = edMessages (rmData r')"
  shows "fst (GetInbox now space p since unreadOnly r) = fst (GetInbox now' space p since unreadOnly' r')"
  unfolding GetInbox_def GetSpaceMessages_def Let_def fst_conv assms by simp

lemma GetInbox_data: "rmData (snd (GetInbox now space p since unreadOnly r)) = rmData r"
  unfolding GetInbox_def Let_def UpdateParticipantCursor_def snd_conv by simp

lemma inbox_ignores_channels:
  "fst (GetInbox now space p since unreadOnly (r\<lparr>rmData := (rmData r)\<lparr>edSpaces := z\<rparr>\<rparr>)) = fst (GetInbox now space p since unreadOnly r)"
  by (rule GetInbox_same) simp

lemma inbox_never_reads:
  "fst (GetInbox now' space p since True (snd (GetInbox now space p since True r))) = fst (GetInbox now space p since True r)"
  by (rule GetInbox_same) (simp only: GetInbox_data)

subsection \<open>Acceptance\<close>

text \<open>Whoever accepts is noted once, the decision is accepted, and everything else of it stays.\<close>

lemma acceptance_recorded:
  assumes "AcceptDecision u space i p r = (Inr c, r')"
  shows "\<exists>old. GetDecision space i r = Inr old \<and> mnStatus c = DecisionAccepted \<and> set (mnAcceptedBy c) = insert p (set (mnAcceptedBy old))
    \<and> (distinct (mnAcceptedBy old) \<longrightarrow> distinct (mnAcceptedBy c)) \<and> mnProposedBy c = mnProposedBy old \<and> mnTitle c = mnTitle old"
proof -
  obtain old where old: "GetDecision space i r = Inr old"
    using assms by (cases "GetDecision space i r") (simp_all add: AcceptDecision_def)
  have "c = old\<lparr>mnAcceptedBy := (if p \<in> set (mnAcceptedBy old) then mnAcceptedBy old else mnAcceptedBy old @ [p]),
      mnStatus := DecisionAccepted, mnUpdatedAt := ueNow u\<rparr>"
    using assms unfolding AcceptDecision_def old sum.case Let_def by (simp only: prod.inject sum.inject)
  then show ?thesis using old by auto
qed

end
