(* ===== verification/EventProps.thy ===== *)
theory EventProps
  imports PublishProps Events
begin

text \<open>
  Who is run for an event of a space.
\<close>

subsection \<open>Who is run\<close>

lemma note_delivery_messages [simp]: "edMessages (note_delivery u v d) = edMessages d" "edFindings (note_delivery u v d) = edFindings d"
  "edRetries (note_delivery u v d) = edRetries d" "edSpaces (note_delivery u v d) = edSpaces d"
  by (simp_all add: note_delivery_def RecordEventDelivery_def)

text \<open>C38: an event leaves messages, findings, retries, sessions and budgets alone unless it is for the participant: subscribed to it, in
  its channel, active and not in its cooldown, allowed to see its files, managed by the engine and reachable.\<close>
theorem events_reach_only_subscribers:
  assumes "d' = dispatchParticipantEvent u glob encode z ev p d"
    and "(edMessages d', edFindings d', edRetries d', edSpaces d') \<noteq> (edMessages d, edFindings d, edRetries d, edSpaces d)"
  shows "hears glob z p ev d \<and> ceType ev \<noteq> ''message.created'' \<and> zsState z = SpaceActive \<and> tpMode p \<notin> {ModePaused, ModePassive, ModeOnDemand}
    \<and> (case aaLast (edActivation d) (colon_key (zsID z) (tpID p)) of None \<Rightarrow> True | Some t \<Rightarrow> ueNow u - t \<ge> ueCooldown u)
    \<and> CheckPrivacyPolicy (ueLib u) p (ceScope ev) = None \<and> tpExecution p \<noteq> ''external'' \<and> \<not> ueExternal u (tpID p)
    \<and> (map_of (ueHarnesses u) (tpID p) \<noteq> None \<or> map_of (ueHarnesses u) (tpAdapter p) \<noteq> None)"
proof -
  obtain v ac where act: "ShouldActivate (ueHash u) (ueCooldown u) (ueNow u) z p None (edActivation d) = (v, ac)" by (metis surj_pair)
  have hears: "hears glob z p ev d" "ceType ev \<noteq> ''message.created''"
    using assms by (auto simp: dispatchParticipantEvent_def Let_def split: if_splits)
  have v: "v = Activate"
    using assms hears by (cases v) (simp_all add: dispatchParticipantEvent_def Let_def act)
  have more: "CheckPrivacyPolicy (ueLib u) p (ceScope ev) = None" "\<not> is_external u p" "findHarness u (tpID p) (tpAdapter p) \<noteq> None"
    using assms hears
    by (auto simp: dispatchParticipantEvent_def Let_def act v is_external_def findHarness_def split: option.splits if_splits)
  have "zsState z = SpaceActive \<and> tpMode p \<notin> {ModePaused, ModePassive, ModeOnDemand}
    \<and> (case aaLast (edActivation d) (colon_key (zsID z) (tpID p)) of None \<Rightarrow> True | Some t \<Rightarrow> ueNow u - t \<ge> ueCooldown u)"
    using act v by (auto simp: ShouldActivate_def lifecycle_check_def mode_check_def split: space_state.splits participant_mode.splits option.splits if_splits)
  then show ?thesis using hears more by (auto simp: is_external_def findHarness_def split: option.splits)
qed

definition sample_event_space :: collab_space where
  "sample_event_space = space_row.extend ((sample_row [])\<lparr>zsBudget := sample_budget\<rparr>) \<lparr>zsParticipants = [], zsChannels = []\<rparr>"

definition sample_collab_event :: collab_event where
  "sample_collab_event = \<lparr>ceID = ''e1'', ceSpace = ''z'', ceType = ''repository.changed'', ceSource = ''git'', ceTime = 1, ceScope = [''a.go''], ceChannel = []\<rparr>"

definition sample_event_member :: space_participant where
  "sample_event_member = (sample_participant ''codex'' False)\<lparr>tpExecution := ''managed''\<rparr>"

definition sample_event_data :: engine_data where
  "sample_event_data = (sample_data [''codex''])\<lparr>edSpaces := SaveSubscription
     \<lparr>ubID = ''b1'', ubSpace = ''z'', ubParticipant = ''codex'', ubChannels = [], ubEventTypes = [''repository.*''], ubScopePatterns = [],
      ubMode = ModeActive, ubCreatedAt = 0\<rparr> (edSpaces (sample_data [''codex'']))\<rparr>"

theorem events_reach_only_subscribers_witness:
  "hears (=) sample_event_space sample_event_member sample_collab_event sample_event_data
   \<and> CheckPrivacyPolicy sample_text sample_event_member [''a.go''] = None"
proof -
  let ?u = "sample_publish_env sample_settle" and ?d = sample_event_data
  define d' where "d' = dispatchParticipantEvent ?u (=) (\<lambda>_. []) sample_event_space sample_collab_event sample_event_member ?d"
  have "length (edMessages d') = Suc (length (edMessages ?d))" unfolding d'_def by code_simp
  then have "(edMessages d', edFindings d', edRetries d', edSpaces d') \<noteq> (edMessages ?d, edFindings ?d, edRetries ?d, edSpaces ?d)"
    by (metis n_not_Suc_n prod.inject)
  from events_reach_only_subscribers [OF d'_def this] show ?thesis
    by (simp add: sample_publish_env_def sample_collab_event_def)
qed

end
