(* ===== verification/ReviewLoop.thy ===== *)
theory ReviewLoop
  imports PeerCalls Assurance
begin

text \<open>
  The automatic loop of an executor and a reviewer (\<open>internal/workflow/review_loop.go\<close>): the executor works, the
  reviewer judges a snapshot of the repository, and findings go back to the executor until the reviewer approves or the rounds are used up.
  The agents, the snapshots, the prompts and the parser of the reviewer's JSON are arguments; the agents are told the number of
  the call. Times are left out, and the store is taken to work: the code discards the errors of its calls here.
\<close>

record loop_config =
  lcExecutor :: string
  lcReviewer :: string
  lcMaxRounds :: nat
  lcStopOnRepeat :: bool

record agent_result =
  arText :: string
  arSession :: string

record loop_request =
  lqName :: string
  lqPrompt :: string
  lqSession :: string
  lqReview :: bool

record loop_env =
  leLib :: text_lib
  leExecutor :: "nat \<Rightarrow> loop_request \<Rightarrow> agent_result \<times> string option"
  leReviewer :: "nat \<Rightarrow> loop_request \<Rightarrow> agent_result \<times> string option"
  leCapture :: "nat \<Rightarrow> string + string"
  leParse :: "string \<Rightarrow> string + parsed_review"
  leStart :: "string \<Rightarrow> string"
  leFeedback :: "string \<Rightarrow> parsed_review \<Rightarrow> string"
  leAskReview :: "string \<Rightarrow> nat \<Rightarrow> agent_result \<Rightarrow> string \<Rightarrow> string"
  leNow :: int

record loop_round =
  rdNumber :: nat
  rdExecutor :: agent_result
  rdContext :: string
  rdReviewer :: agent_result
  rdReview :: parsed_review
  rdHash :: string

record loop_run =
  lrStatus :: string
  lrStop :: string
  lrRounds :: "loop_round list"

text \<open>What the loop carries from round to round, with the stores it writes to and the numbers of calls made.\<close>

record loop_state =
  lpExec :: agent_result
  lpExecutor :: string
  lpReviewer :: string
  lpHash :: string
  lpRounds :: "loop_round list"
  lpSpaces :: space_store
  lpFindings :: finding_store
  lpExecs :: nat
  lpReviews :: nat

definition normalize_review :: "text_lib \<Rightarrow> string \<Rightarrow> string" where
  "normalize_review lib text =
     (let s = TrimSpace lib text; ls = split_lines s in
      TrimSpace lib (if prefix ''```'' s \<and> length ls \<ge> 3 then join_with [CHR 0x0A] (butlast (tl ls)) else s))"

definition validateReview :: "text_lib \<Rightarrow> parsed_review \<Rightarrow> string option" where
  "validateReview lib r =
     err_then
      (if prVerdict r = ''approve'' then require (prFindings r = []) ''approve verdict must not contain findings''
       else if prVerdict r = ''changes_required'' then require (prFindings r \<noteq> []) ''changes_required verdict must contain findings''
       else if prVerdict r = ''block'' then None
       else Some ''invalid verdict'')
      (first_err (\<lambda>f. require (TrimSpace lib (gpID f) \<noteq> [] \<and> TrimSpace lib (gpClaim f) \<noteq> [] \<and> TrimSpace lib (gpEvidence f) \<noteq> []
          \<and> TrimSpace lib (gpRecommendation f) \<noteq> []) ''finding is missing required fields'') (prFindings r))"

definition findingHash :: "text_lib \<Rightarrow> finding_payload list \<Rightarrow> string" where
  "findingHash lib fs =
     (if fs = [] then []
      else let norm = (\<lambda>s. ToLower lib (TrimSpace lib s)) in
        sha256hex lib (join_with [CHR 0x0A] (sort (map (\<lambda>f. norm (gpID f) @ ''|'' @ norm (gpClaim f) @ ''|'' @ norm (gpFile f)) fs))))"

definition loop_finding :: "loop_config \<Rightarrow> int \<Rightarrow> finding_payload \<Rightarrow> finding_payload" where
  "loop_finding cfg now f =
     \<lparr>gpID = gpID f, gpSession = [], gpAgent = lcReviewer cfg, gpParticipant = [], gpAdapter = [], gpTime = now, gpSeverity = gpSeverity f,
      gpCategory = [], gpClaim = gpClaim f, gpEvidence = gpEvidence f, gpEvidenceRefs = [], gpRecommendation = gpRecommendation f,
      gpFile = gpFile f, gpLine = gpLine f, gpLineStart = 0, gpEndLine = 0, gpLineEnd = 0, gpStatus = Some FindingOpen,
      gpDuplicateOf = [], gpRelated = []\<rparr>"

subsection \<open>One round\<close>

text \<open>How a run ends: its status, the reason, and the error that is returned with the result.\<close>

record loop_end =
  lnStatus :: string
  lnStop :: string
  lnError :: "string option"

definition stop_status :: "string \<Rightarrow> loop_end \<Rightarrow> loop_state \<Rightarrow> loop_state" where
  "stop_status i e st = st\<lparr>lpSpaces := (case UpdateSessionStatus i (lnStatus e) (lnStop e) (lpSpaces st) of None \<Rightarrow> lpSpaces st | Some s \<Rightarrow> s)\<rparr>"

definition run_failed :: "string \<Rightarrow> string \<Rightarrow> loop_end" where
  "run_failed status reason = \<lparr>lnStatus = status, lnStop = reason, lnError = Some reason\<rparr>"

definition execute :: "loop_config \<Rightarrow> loop_env \<Rightarrow> string \<Rightarrow> string \<Rightarrow> nat \<Rightarrow> loop_state \<Rightarrow> loop_end option \<times> loop_state" where
  "execute cfg e i prompt number st =
     (case leExecutor e (lpExecs st) \<lparr>lqName = lcExecutor cfg, lqPrompt = prompt, lqSession = lpExecutor st, lqReview = False\<rparr> of
        (answer, None) \<Rightarrow> (None, st\<lparr>lpExec := answer, lpExecutor := arSession answer, lpExecs := lpExecs st + 1\<rparr>)
      | (answer, Some x) \<Rightarrow>
          let z = run_failed ''executor_failed'' x in
          (Some z, stop_status i z (st\<lparr>lpExec := answer, lpExecs := lpExecs st + 1,
             lpRounds := lpRounds st @ [\<lparr>rdNumber = number, rdExecutor = answer, rdContext = [], rdReviewer = \<lparr>arText = [], arSession = []\<rparr>,
               rdReview = \<lparr>prVerdict = [], prSummary = [], prFindings = []\<rparr>, rdHash = []\<rparr>]\<rparr>)))"

text \<open>What follows from a verdict. The session is told of an approval only.\<close>

definition follow_verdict :: "loop_config \<Rightarrow> string \<Rightarrow> parsed_review \<Rightarrow> string \<Rightarrow> loop_state \<Rightarrow> loop_end option \<times> loop_state" where
  "follow_verdict cfg i r hash st =
     (if prVerdict r = ''approve'' then
        (let z = \<lparr>lnStatus = ''approved'', lnStop = ''reviewer approved repository state'', lnError = None\<rparr> in (Some z, stop_status i z st))
      else if prVerdict r = ''block'' then
        (Some \<lparr>lnStatus = ''blocked'', lnStop = prSummary r, lnError = Some (''reviewer blocked automatic continuation: '' @ prSummary r)\<rparr>, st)
      else if prVerdict r = ''changes_required'' then
        (if lcStopOnRepeat cfg \<and> hash \<noteq> [] \<and> hash = lpHash st
         then (Some (run_failed ''stalled'' ''same material findings repeated in consecutive rounds''), st)
         else (None, st\<lparr>lpHash := hash\<rparr>))
      else (Some \<lparr>lnStatus = ''invalid_review'', lnStop = ''unknown verdict'', lnError = Some ''unknown review verdict''\<rparr>, st))"

definition review_round :: "loop_config \<Rightarrow> loop_env \<Rightarrow> string \<Rightarrow> string \<Rightarrow> nat \<Rightarrow> loop_state \<Rightarrow> loop_end option \<times> loop_state" where
  "review_round cfg e i task n st =
     (case leCapture e n of
        Inl x \<Rightarrow> (Some (run_failed ''context_failed'' x), st)
      | Inr snap \<Rightarrow>
          (case leReviewer e (lpReviews st) \<lparr>lqName = lcReviewer cfg, lqPrompt = leAskReview e task n (lpExec st) snap, lqSession = lpReviewer st, lqReview = True\<rparr> of
             (answer, Some x) \<Rightarrow> (Some (run_failed ''reviewer_failed'' x), st\<lparr>lpReviews := lpReviews st + 1\<rparr>)
           | (answer, None) \<Rightarrow>
               let st = st\<lparr>lpReviews := lpReviews st + 1, lpReviewer := arSession answer\<rparr> in
               (case leParse e (normalize_review (leLib e) (arText answer)) of
                  Inl x \<Rightarrow> (Some \<lparr>lnStatus = ''review_parse_failed'', lnStop = x, lnError = Some (''parse reviewer JSON: '' @ x)\<rparr>, st)
                | Inr r \<Rightarrow>
                    (case validateReview (leLib e) r of
                       Some x \<Rightarrow> (Some (run_failed ''invalid_review'' x), st)
                     | None \<Rightarrow>
                         let hash = findingHash (leLib e) (prFindings r);
                             st = st\<lparr>lpRounds := lpRounds st @ [\<lparr>rdNumber = n, rdExecutor = lpExec st, rdContext = snap, rdReviewer = answer, rdReview = r, rdHash = hash\<rparr>],
                                     lpFindings := fold (\<lambda>f. SaveFinding (leNow e) i (loop_finding cfg (leNow e) f)) (prFindings r) (lpFindings st)\<rparr>
                         in follow_verdict cfg i r hash st))))"

subsection \<open>The loop\<close>

definition last_review :: "loop_state \<Rightarrow> parsed_review" where
  "last_review st = rdReview (last (lpRounds st))"

text \<open>The number of rounds left falls with every round, so the loop ends.\<close>

fun review_rounds :: "loop_config \<Rightarrow> loop_env \<Rightarrow> string \<Rightarrow> string \<Rightarrow> nat \<Rightarrow> nat \<Rightarrow> loop_state \<Rightarrow> loop_end \<times> loop_state" where
  "review_rounds cfg e i task n 0 st = (run_failed ''max_rounds'' ''reached max_rounds without approval'', st)"
| "review_rounds cfg e i task n (Suc k) st =
     (case review_round cfg e i task n st of
        (Some z, st) \<Rightarrow> (z, st)
      | (None, st) \<Rightarrow>
          if k = 0 then (run_failed ''max_rounds'' ''reached max_rounds without approval'', st)
          else (case execute cfg e i (leFeedback e task (last_review st)) (n + 1) st of
                  (Some z, st) \<Rightarrow> (z, st)
                | (None, st) \<Rightarrow> review_rounds cfg e i task (n + 1) k st))"

definition RunLoop :: "loop_config \<Rightarrow> loop_env \<Rightarrow> string \<Rightarrow> string \<Rightarrow> string \<Rightarrow> space_store \<Rightarrow> finding_store \<Rightarrow> loop_end \<times> loop_state" where
  "RunLoop cfg e i repo task spaces findings =
     (let st = \<lparr>lpExec = \<lparr>arText = [], arSession = []\<rparr>, lpExecutor = [], lpReviewer = [], lpHash = [], lpRounds = [],
                lpSpaces = SaveSession \<lparr>ssID = i, ssTenant = [], ssRepo = repo, ssTask = task, ssStatus = ''active'', ssStop = [], ssWriter = [],
                  ssBudget = no_budget, ssCreatedAt = leNow e\<rparr> spaces, lpFindings = findings, lpExecs = 0, lpReviews = 0\<rparr>
      in case execute cfg e i (leStart e task) 0 st of
           (Some z, st) \<Rightarrow> (z, st)
         | (None, st) \<Rightarrow> review_rounds cfg e i task 1 (lcMaxRounds cfg) st)"

subsection \<open>How a run ends\<close>

text \<open>The state after some calls: as many reviews as reviewed rounds at least, at most one more execution than reviews, and the session
  still active.\<close>

definition session_status :: "string \<Rightarrow> loop_state \<Rightarrow> string option" where
  "session_status i st = map_option ssStatus (GetSession i (lpSpaces st))"

definition clean_approval :: "text_lib \<Rightarrow> loop_round \<Rightarrow> bool" where
  "clean_approval lib r \<longleftrightarrow> prVerdict (rdReview r) = ''approve'' \<and> prFindings (rdReview r) = []"

lemma stop_status_simps [simp]:
  "lpRounds (stop_status i z st) = lpRounds st" "lpExecs (stop_status i z st) = lpExecs st" "lpReviews (stop_status i z st) = lpReviews st"
  "lpExec (stop_status i z st) = lpExec st"
  by (simp_all add: stop_status_def)

lemma session_status_stop: "session_status i st = Some s \<Longrightarrow> session_status i (stop_status i z st) = Some (lnStatus z)"
  by (auto simp: session_status_def stop_status_def UpdateSessionStatus_def GetSession_def map_of_update_row split: option.splits)

lemma execute_cases:
  assumes "execute cfg e i prompt n st = (r, st')"
  shows "lpReviews st' = lpReviews st \<and> lpExecs st' = lpExecs st + 1
    \<and> (case r of None \<Rightarrow> lpRounds st' = lpRounds st \<and> session_status i st' = session_status i st
       | Some z \<Rightarrow> lnStatus z = ''executor_failed'' \<and> lnError z \<noteq> None \<and> (\<exists>rd. lpRounds st' = lpRounds st @ [rd]))"
  using assms by (auto simp: execute_def Let_def run_failed_def session_status_def split: prod.splits option.splits)

lemma follow_verdict_cases:
  assumes "follow_verdict cfg i r hash st = (x, st')"
  shows "lpReviews st' = lpReviews st \<and> lpExecs st' = lpExecs st \<and> lpRounds st' = lpRounds st
    \<and> (case x of None \<Rightarrow> session_status i st' = session_status i st
       | Some z \<Rightarrow> (lnError z = None \<longleftrightarrow> prVerdict r = ''approve'') \<and> (lnError z = None \<longleftrightarrow> lnStatus z = ''approved'') \<and> lnStatus z \<noteq> ''executor_failed''
           \<and> (lnStatus z \<noteq> ''approved'' \<longrightarrow> session_status i st' = session_status i st)
           \<and> (lnStatus z = ''approved'' \<longrightarrow> session_status i st \<noteq> None \<longrightarrow> session_status i st' = Some ''approved''))"
  using assms by (auto simp: follow_verdict_def Let_def run_failed_def session_status_stop split: if_splits)
    (simp_all add: session_status_def)

lemma validateReview_approve: "validateReview lib r = None \<Longrightarrow> prVerdict r = ''approve'' \<Longrightarrow> prFindings r = []"
  by (simp add: validateReview_def)

definition round_effect :: "string \<Rightarrow> loop_env \<Rightarrow> nat \<Rightarrow> loop_state \<Rightarrow> loop_end option \<Rightarrow> loop_state \<Rightarrow> bool" where
  "round_effect i e n st x st' \<longleftrightarrow> lpExecs st' = lpExecs st \<and> lpReviews st' \<le> lpReviews st + 1
     \<and> (case x of None \<Rightarrow> session_status i st' = session_status i st
        | Some z \<Rightarrow> (lnError z = None \<longleftrightarrow> lnStatus z = ''approved'') \<and> lnStatus z \<noteq> ''executor_failed''
           \<and> (lnStatus z \<noteq> ''approved'' \<longrightarrow> session_status i st' = session_status i st)
           \<and> (lnStatus z = ''approved'' \<longrightarrow> (\<exists>rd. lpRounds st' = lpRounds st @ [rd] \<and> clean_approval (leLib e) rd \<and> rdExecutor rd = lpExec st
                \<and> leCapture e n = Inr (rdContext rd) \<and> rdNumber rd = n)
             \<and> (session_status i st \<noteq> None \<longrightarrow> session_status i st' = Some ''approved'')))"

lemma review_round_effect: "review_round cfg e i task n st = (x, st') \<Longrightarrow> round_effect i e n st x st'"
proof (cases "leCapture e n")
  case (Inl y)
  then show "review_round cfg e i task n st = (x, st') \<Longrightarrow> ?thesis"
    by (auto simp: review_round_def round_effect_def run_failed_def)
next
  case (Inr snap)
  assume run: "review_round cfg e i task n st = (x, st')"
  obtain answer f where ask: "leReviewer e (lpReviews st) \<lparr>lqName = lcReviewer cfg, lqPrompt = leAskReview e task n (lpExec st) snap,
      lqSession = lpReviewer st, lqReview = True\<rparr> = (answer, f)" by (metis surj_pair)
  define st1 where "st1 = st\<lparr>lpReviews := lpReviews st + 1, lpReviewer := arSession answer\<rparr>"
  have st1: "lpExecs st1 = lpExecs st" "lpReviews st1 = lpReviews st + 1" "lpRounds st1 = lpRounds st" "lpExec st1 = lpExec st"
    "session_status i st1 = session_status i st" by (simp_all add: st1_def session_status_def)
  show ?thesis
  proof (cases "f \<noteq> None \<or> (\<exists>y. leParse e (normalize_review (leLib e) (arText answer)) = Inl y)")
    case True
    then show ?thesis using run
      by (auto simp: review_round_def Inr ask round_effect_def run_failed_def session_status_def split: option.splits)
  next
    case False
    then obtain r where r: "f = None" "leParse e (normalize_review (leLib e) (arText answer)) = Inr r" by (cases "leParse e (normalize_review (leLib e) (arText answer))") auto
    show ?thesis
    proof (cases "validateReview (leLib e) r")
      case (Some y)
      then show ?thesis using run
        by (auto simp: review_round_def Inr ask r round_effect_def run_failed_def session_status_def)
    next
      case None
      define hash where "hash = findingHash (leLib e) (prFindings r)"
      define st2 where "st2 = st1\<lparr>lpRounds := lpRounds st1 @ [\<lparr>rdNumber = n, rdExecutor = lpExec st1, rdContext = snap, rdReviewer = answer, rdReview = r, rdHash = hash\<rparr>],
          lpFindings := fold (\<lambda>f. SaveFinding (leNow e) i (loop_finding cfg (leNow e) f)) (prFindings r) (lpFindings st1)\<rparr>"
      have j: "follow_verdict cfg i r hash st2 = (x, st')"
        using run by (simp add: review_round_def Inr ask r None Let_def st2_def st1_def hash_def)
      have st2: "lpExecs st2 = lpExecs st" "lpReviews st2 = lpReviews st + 1" "session_status i st2 = session_status i st"
        "lpRounds st2 = lpRounds st @ [\<lparr>rdNumber = n, rdExecutor = lpExec st, rdContext = snap, rdReviewer = answer, rdReview = r, rdHash = hash\<rparr>]"
        using st1 by (simp_all add: st2_def session_status_def)
      have "prVerdict r = ''approve'' \<Longrightarrow> prFindings r = []" by (rule validateReview_approve [OF None])
      then show ?thesis using follow_verdict_cases [OF j] st2 Inr
        by (auto simp: round_effect_def clean_approval_def split: option.splits)
    qed
  qed
qed

definition ended_well :: "string \<Rightarrow> loop_env \<Rightarrow> loop_end \<Rightarrow> loop_state \<Rightarrow> bool" where
  "ended_well i e z st \<longleftrightarrow> (lnError z = None \<longleftrightarrow> lnStatus z = ''approved'')
     \<and> (lnStatus z \<notin> {''approved'', ''executor_failed''} \<longrightarrow> session_status i st = Some ''active'')
     \<and> (lnStatus z = ''approved'' \<longrightarrow> lpRounds st \<noteq> [] \<and> clean_approval (leLib e) (last (lpRounds st)) \<and> rdExecutor (last (lpRounds st)) = lpExec st
          \<and> leCapture e (rdNumber (last (lpRounds st))) = Inr (rdContext (last (lpRounds st))) \<and> session_status i st = Some ''approved'')"

lemma review_round_exec: "review_round cfg e i task n st = (x, st') \<Longrightarrow> lpExec st' = lpExec st"
  by (auto simp: review_round_def follow_verdict_def Let_def split: sum.splits prod.splits option.splits if_splits)

lemma review_rounds_end:
  "review_rounds cfg e i task n k st = (z, st') \<Longrightarrow> session_status i st = Some ''active'' \<Longrightarrow>
   ended_well i e z st' \<and> lpReviews st' \<le> lpReviews st + k \<and> lpExecs st' \<le> lpExecs st + (k - 1)"
proof (induction cfg e i task n k st arbitrary: z st' rule: review_rounds.induct)
  case (1 cfg e i task n st)
  then show ?case by (auto simp: ended_well_def run_failed_def)
next
  case (2 cfg e i task n k st)
  obtain x st1 where r: "review_round cfg e i task n st = (x, st1)" by (metis surj_pair)
  note eff = review_round_effect [OF r, unfolded round_effect_def] and exec = review_round_exec [OF r]
  show ?case
  proof (cases x)
    case (Some y)
    then show ?thesis using 2(2,3) r eff exec by (auto simp: ended_well_def)
  next
    case None
    note x = this
    show ?thesis
    proof (cases k)
      case 0
      then show ?thesis using 2(2,3) r eff x by (auto simp: ended_well_def run_failed_def)
    next
      case (Suc k')
      obtain y st2 where ex: "execute cfg e i (leFeedback e task (last_review st1)) (n + 1) st1 = (y, st2)" by (metis surj_pair)
      note exc = execute_cases [OF ex]
      show ?thesis
      proof (cases y)
        case (Some w)
        then show ?thesis using 2(2) r x Suc ex exc eff by (auto simp: ended_well_def)
      next
        case None
        then have "review_rounds cfg e i task (n + 1) k st2 = (z, st')" "session_status i st2 = Some ''active''"
          using 2(2,3) r x Suc ex exc eff by simp_all
        from 2(1) [OF r [symmetric] x _ ex [symmetric] None this] show ?thesis using Suc exc eff by auto
      qed
    qed
  qed
qed

lemma RunLoop_end:
  assumes "RunLoop cfg e i repo task spaces findings = (z, st)"
  shows "ended_well i e z st \<and> lpReviews st \<le> lcMaxRounds cfg \<and> lpExecs st \<le> max 1 (lcMaxRounds cfg)"
proof -
  define st0 where "st0 = \<lparr>lpExec = \<lparr>arText = [], arSession = []\<rparr>, lpExecutor = [], lpReviewer = [], lpHash = [], lpRounds = [],
      lpSpaces = SaveSession \<lparr>ssID = i, ssTenant = [], ssRepo = repo, ssTask = task, ssStatus = ''active'', ssStop = [], ssWriter = [],
        ssBudget = no_budget, ssCreatedAt = leNow e\<rparr> spaces, lpFindings = findings, lpExecs = 0, lpReviews = 0\<rparr>"
  have st0: "session_status i st0 = Some ''active''" "lpReviews st0 = 0" "lpExecs st0 = 0"
    by (auto simp: st0_def session_status_def GetSession_def SaveSession_def map_of_upsert merge_session_def split: option.splits)
  obtain x st1 where ex: "execute cfg e i (leStart e task) 0 st0 = (x, st1)" by (metis surj_pair)
  note exc = execute_cases [OF ex]
  show ?thesis
  proof (cases x)
    case (Some y)
    then show ?thesis using assms ex exc st0 unfolding RunLoop_def st0_def [symmetric] by (auto simp: ended_well_def)
  next
    case None
    then have "review_rounds cfg e i task 1 (lcMaxRounds cfg) st1 = (z, st)"
      using assms ex unfolding RunLoop_def st0_def [symmetric] Let_def by simp
    from review_rounds_end [OF this] show ?thesis using exc st0 None by auto
  qed
qed

text \<open>C27: a run always ends, without an error only when the reviewer approved, without findings, the snapshot taken after the last
  execution, and then its session is stored as approved; and it asks the reviewer at most as often as there are rounds and the executor at most as often or once.\<close>
theorem run_approved_only_after_review:
  assumes "RunLoop cfg e i repo task spaces findings = (z, st)"
  shows "(lnError z = None \<longleftrightarrow> lnStatus z = ''approved'')
    \<and> (lnError z = None \<longrightarrow> lpRounds st \<noteq> [] \<and> clean_approval (leLib e) (last (lpRounds st)) \<and> rdExecutor (last (lpRounds st)) = lpExec st
         \<and> leCapture e (rdNumber (last (lpRounds st))) = Inr (rdContext (last (lpRounds st))) \<and> session_status i st = Some ''approved'')
    \<and> lpReviews st \<le> lcMaxRounds cfg \<and> lpExecs st \<le> max 1 (lcMaxRounds cfg)"
  using RunLoop_end [OF assms] by (auto simp: ended_well_def)

text \<open>C39: the session of a run that ends in any other way than by approval or a failing executor stays active for good.\<close>
theorem unfinished_run_stays_active:
  assumes "RunLoop cfg e i repo task spaces findings = (z, st)" and "lnStatus z \<notin> {''approved'', ''executor_failed''}"
  shows "session_status i st = Some ''active''"
  using RunLoop_end [OF assms(1)] assms(2) by (simp add: ended_well_def)

definition sample_review :: "string \<Rightarrow> finding_payload list \<Rightarrow> parsed_review" where
  "sample_review v fs = \<lparr>prVerdict = v, prSummary = [], prFindings = fs\<rparr>"

text \<open>The reviewer finds something in its first round and then, as \<open>verdict\<close> says, approves or finds the same again.\<close>

definition sample_loop :: "(string \<Rightarrow> string + parsed_review) \<Rightarrow> loop_env" where
  "sample_loop parse = \<lparr>leLib = \<lparr>TrimSpace = (\<lambda>s. s), CleanPath = (\<lambda>s. s), ToLower = (\<lambda>s. s), sha256hex = (\<lambda>s. s)\<rparr>,
     leExecutor = (\<lambda>n q. (\<lparr>arText = ''done'', arSession = ''x''\<rparr>, None)),
     leReviewer = (\<lambda>n q. (\<lparr>arText = (if n = 0 then ''first'' else ''second''), arSession = ''r''\<rparr>, None)),
     leCapture = (\<lambda>n. Inr ''tree''), leParse = parse, leStart = (\<lambda>t. t), leFeedback = (\<lambda>t r. t), leAskReview = (\<lambda>t n a s. s), leNow = 1\<rparr>"

definition sample_loop_finding :: finding_payload where
  "sample_loop_finding = loop_finding \<lparr>lcExecutor = [], lcReviewer = [], lcMaxRounds = 0, lcStopOnRepeat = False\<rparr> 0
     \<lparr>gpID = ''F1'', gpSession = [], gpAgent = [], gpParticipant = [], gpAdapter = [], gpTime = 0, gpSeverity = ''high'', gpCategory = [],
      gpClaim = ''leak'', gpEvidence = ''line 3'', gpEvidenceRefs = [], gpRecommendation = ''close it'', gpFile = ''a.go'', gpLine = 3,
      gpLineStart = 0, gpEndLine = 0, gpLineEnd = 0, gpStatus = None, gpDuplicateOf = [], gpRelated = []\<rparr>"

definition sample_loop_config :: loop_config where
  "sample_loop_config = \<lparr>lcExecutor = ''claude'', lcReviewer = ''codex'', lcMaxRounds = 3, lcStopOnRepeat = True\<rparr>"

definition sample_loop_run :: "(string \<Rightarrow> string + parsed_review) \<Rightarrow> loop_end \<times> loop_state" where
  "sample_loop_run parse = RunLoop sample_loop_config (sample_loop parse) ''run1'' ''.'' ''task'' empty_spaces empty_findings"

theorem run_approved_only_after_review_witness:
  "\<exists>z st. sample_loop_run (\<lambda>t. Inr (if t = ''first'' then sample_review ''changes_required'' [sample_loop_finding] else sample_review ''approve'' [])) = (z, st)
     \<and> lnStatus z = ''approved'' \<and> clean_approval (leLib (sample_loop (\<lambda>t. Inl t))) (last (lpRounds st)) \<and> session_status ''run1'' st = Some ''approved''
     \<and> lpExecs st \<le> 3"
proof -
  let ?p = "\<lambda>t. Inr (if t = ''first'' then sample_review ''changes_required'' [sample_loop_finding] else sample_review ''approve'' [])"
  obtain z st where run: "sample_loop_run ?p = (z, st)" by (metis surj_pair)
  have "lnStatus (fst (sample_loop_run ?p)) = ''approved''" by code_simp
  then have ok: "lnStatus z = ''approved''" by (simp add: run)
  then show ?thesis using run run_approved_only_after_review [OF run [unfolded sample_loop_run_def]]
    by (simp add: clean_approval_def sample_loop_config_def)
qed

theorem unfinished_run_stays_active_witness:
  "\<exists>z st. sample_loop_run (\<lambda>t. Inr (sample_review ''changes_required'' [sample_loop_finding])) = (z, st)
     \<and> lnStatus z = ''stalled'' \<and> session_status ''run1'' st = Some ''active''"
proof -
  let ?p = "\<lambda>t. Inr (sample_review ''changes_required'' [sample_loop_finding])"
  obtain z st where run: "sample_loop_run ?p = (z, st)" by (metis surj_pair)
  have "lnStatus (fst (sample_loop_run ?p)) = ''stalled''" by code_simp
  then have "lnStatus z = ''stalled''" by (simp add: run)
  then show ?thesis using run unfinished_run_stays_active [OF run [unfolded sample_loop_run_def]] by simp
qed

end
