(* ===== verification/Plugins.thy ===== *)
theory Plugins
  imports ReviewTypes "HOL-Library.Sublist"
begin

text \<open>
  Plugins before they are installed (\<open>internal/plugin\<close>): versions and constraints, the resolution of dependencies, the
  validation of a manifest, the keyring of the registry and imported catalogs. The file system, base64, hashes and
  signatures are arguments. Numbers in versions are taken as natural numbers of any size.
\<close>

subsection \<open>Versions\<close>

fun split_on :: "char \<Rightarrow> string \<Rightarrow> string list" where
  "split_on d [] = [[]]"
| "split_on d (c # cs) = (if c = d then [] # split_on d cs
     else case split_on d cs of [] \<Rightarrow> [[c]] | p # ps \<Rightarrow> (c # p) # ps)"

definition digit_value :: "char \<Rightarrow> nat option" where
  "digit_value c = (let n = of_char c :: nat in if 48 \<le> n \<and> n \<le> 57 then Some (n - 48) else None)"

fun leading_number :: "nat \<Rightarrow> string \<Rightarrow> nat" where
  "leading_number n [] = n"
| "leading_number n (c # cs) = (case digit_value c of None \<Rightarrow> n | Some d \<Rightarrow> leading_number (n * 10 + d) cs)"

definition trim_v :: "string \<Rightarrow> string" where
  "trim_v s = (case s of [] \<Rightarrow> [] | c # cs \<Rightarrow> if c = CHR ''v'' then cs else s)"

definition nth_number :: "string list \<Rightarrow> nat \<Rightarrow> nat" where
  "nth_number ps i = (if i < length ps then leading_number 0 (ps ! i) else 0)"

definition parse_version :: "text_lib \<Rightarrow> string \<Rightarrow> nat list" where
  "parse_version lib v = (let ps = split_on CHR ''.'' (trim_v (TrimSpace lib v)) in map (nth_number ps) [0, 1, 2])"

definition compareVersion :: "text_lib \<Rightarrow> string \<Rightarrow> string \<Rightarrow> int" where
  "compareVersion lib a b =
     (let x = parse_version lib a; y = parse_version lib b in if x < y then -1 else if y < x then 1 else 0)"

definition major :: "string \<Rightarrow> string" where
  "major v = hd (split_on CHR ''.'' (trim_v v))"

definition drop_prefix :: "string \<Rightarrow> string \<Rightarrow> string" where
  "drop_prefix p s = (if prefix p s then drop (length p) s else s)"

definition satisfiesConstraint :: "text_lib \<Rightarrow> string \<Rightarrow> string \<Rightarrow> bool" where
  "satisfiesConstraint lib v c =
     (let c = TrimSpace lib c; against = (\<lambda>op. compareVersion lib v (TrimSpace lib (drop_prefix op c))) in
      if c = [] \<or> c = ''*'' then True
      else if prefix ''^'' c then compareVersion lib v (drop_prefix ''^'' c) \<ge> 0 \<and> major v = major (drop_prefix ''^'' c)
      else if prefix ''>='' c then against ''>='' \<ge> 0
      else if prefix ''<='' c then against ''<='' \<le> 0
      else if prefix ''='' c then against ''='' = 0
      else if prefix ''>'' c then against ''>'' > 0
      else if prefix ''<'' c then against ''<'' < 0
      else compareVersion lib v c = 0)"

subsection \<open>Dependencies\<close>

record plugin_dependency =
  pdName :: string
  pdConstraint :: string

record scan_report =
  srStatuses :: "string list"
  srFindings :: "string list"

record registry_entry =
  reName :: string
  reVersion :: string
  reKey :: string
  reSHA :: string
  reDependencies :: "plugin_dependency list"
  reConflicts :: "plugin_dependency list"
  reScan :: scan_report

datatype resolve_error = ResolveError msg | ResolveFuel

text \<open>The versions of a plugin, the highest first. The code's sort is not stable; which of two entries of one version comes first does
  not matter to what is shown here.\<close>

definition candidates :: "text_lib \<Rightarrow> registry_entry list \<Rightarrow> string \<Rightarrow> registry_entry list" where
  "candidates lib es name = sort_key (\<lambda>e. map (\<lambda>n. - int n) (parse_version lib (reVersion e))) (filter (\<lambda>e. reName e = name) es)"

definition names :: "registry_entry list \<Rightarrow> string set" where
  "names es = reName ` set es"

definition missing_dependency :: "string \<Rightarrow> string \<Rightarrow> msg" where
  "missing_dependency name c = (if c = [] then Msg ''dependency %q is not available'' [AS name]
     else Msg ''dependency %q does not satisfy %q'' [AS name, AS c])"

text \<open>The names that have been seen are those of the entries put out. A visit leaves the names it is in the middle of as they were.\<close>

fun visit_plugin :: "text_lib \<Rightarrow> registry_entry list \<Rightarrow> nat \<Rightarrow> string list \<Rightarrow> string \<Rightarrow> string \<Rightarrow> registry_entry list \<Rightarrow> resolve_error + registry_entry list" where
  "visit_plugin lib es 0 visiting name c out = Inl ResolveFuel"
| "visit_plugin lib es (Suc fuel) visiting name c out =
     (if list_ex (\<lambda>e. reName e = name) out then Inr out
      else if name \<in> set visiting then Inl (ResolveError (Msg ''dependency cycle at %s'' [AS name]))
      else case find (\<lambda>e. satisfiesConstraint lib (reVersion e) c) (candidates lib es name) of
        None \<Rightarrow> Inl (ResolveError (missing_dependency name c))
      | Some e \<Rightarrow>
          bind_res (fold_res (\<lambda>d. visit_plugin lib es fuel (name # visiting) (pdName d) (pdConstraint d)) (reDependencies e) out) (\<lambda>out.
            guard_res (first_err (\<lambda>x. require (\<not> list_ex (\<lambda>e. reName e = pdName x) out)
                (ResolveError (Msg ''plugin %q conflicts with %q'' [AS name, AS (pdName x)]))) (reConflicts e))
              (Inr (out @ [e]))))"

text \<open>No chain of visits is longer than the list of entries.\<close>

definition resolveDependenciesInternal :: "text_lib \<Rightarrow> registry_entry list \<Rightarrow> string list \<Rightarrow> resolve_error + registry_entry list" where
  "resolveDependenciesInternal lib es requested =
     fold_res (\<lambda>name. visit_plugin lib es (length es + 2) [] name []) requested []"

definition ResolveDependencies :: "text_lib \<Rightarrow> registry_entry list \<Rightarrow> string list \<Rightarrow> resolve_error + registry_entry list" where
  "ResolveDependencies lib es requested =
     guard_res (first_err (\<lambda>e. if reName e \<notin> set requested then None
         else first_err (\<lambda>x. require (pdName x \<notin> set requested)
                (ResolveError (Msg ''plugin %q conflicts with %q'' [AS (reName e), AS (pdName x)]))) (reConflicts e)) es)
       (resolveDependenciesInternal lib es requested)"

subsection \<open>Manifests\<close>

record plugin_manifest =
  mfName :: string
  mfVersion :: string
  mfProtocol :: string
  mfTransport :: string
  mfSocket :: string
  mfBinary :: string
  mfCapabilities :: "string list"
  mfDependencies :: "plugin_dependency list"
  mfConflicts :: "plugin_dependency list"
  mfRisk :: string
  mfSHA :: string
  mfSignature :: string
  mfPublicKey :: string
  mfMinVersion :: string
  mfMaxVersion :: string
  mfLimits :: "int list"

record plugin_options =
  opRequireSignature :: bool
  opRequireHash :: bool
  opVersion :: string
  opTrusted :: "string list"

text \<open>The directory of a plugin: whether it opens, whether the binary is a directory and executable, whether the sandbox admits it, its
  digest. \<open>vlStays\<close> holds of a clean relative path that does not leave the directory; keys and signatures
  are decoded with their lengths checked.\<close>

record plugin_lib =
  vlText :: text_lib
  vlName :: "string \<Rightarrow> bool"
  vlStays :: "string \<Rightarrow> bool"
  vlOpen :: "msg option"
  vlStat :: "string \<Rightarrow> msg + bool \<times> bool"
  vlSandbox :: "plugin_manifest \<Rightarrow> msg option"
  vlDigest :: "string \<Rightarrow> msg + string"
  vlKey :: "string \<Rightarrow> string option"
  vlSig :: "string \<Rightarrow> string option"
  vlVerify :: "string \<Rightarrow> string \<Rightarrow> string \<Rightarrow> bool"

definition protocol_version :: string where
  "protocol_version = ''harnessmesh-agent-v1''"

definition manifest_head :: "plugin_lib \<Rightarrow> plugin_options \<Rightarrow> plugin_manifest \<Rightarrow> msg option" where
  "manifest_head l o' m =
     (let lib = vlText l; protocol = (if TrimSpace lib (mfProtocol m) = [] then protocol_version else TrimSpace lib (mfProtocol m));
          t = ToLower lib (TrimSpace lib (mfTransport m)); transport = (if t = [] then ''stdio'' else t) in
      err_then (vlOpen l)
     (err_then (require (vlName l (TrimSpace lib (mfName m))) (Msg ''invalid plugin name %q'' [AS (mfName m)]))
     (err_then (require (TrimSpace lib (mfVersion m) \<noteq> []) (Msg ''plugin %q has no version'' [AS (mfName m)]))
     (err_then (require (opVersion o' = [] \<or> mfMinVersion m = [] \<or> compareVersion lib (opVersion o') (mfMinVersion m) \<ge> 0)
                 (Msg ''plugin %q requires HarnessMesh >= %s'' [AS (mfName m), AS (mfMinVersion m)]))
     (err_then (require (opVersion o' = [] \<or> mfMaxVersion m = [] \<or> compareVersion lib (opVersion o') (mfMaxVersion m) \<le> 0)
                 (Msg ''plugin %q supports HarnessMesh <= %s'' [AS (mfName m), AS (mfMaxVersion m)]))
     (err_then (require (protocol = protocol_version) (Msg ''plugin %q uses unsupported protocol %q'' [AS (mfName m), AS protocol]))
     (err_then (require (transport = ''stdio'' \<or> transport = ''unix'') (Msg ''plugin %q uses unsupported transport %q'' [AS (mfName m), AS (mfTransport m)]))
       (require (transport = ''stdio'' \<or> mfSocket m = [] \<or> vlStays l (mfSocket m))
                 (Msg ''plugin %q socket must stay inside its plugin directory'' [AS (mfName m)])))))))))"

definition manifest_body :: "plugin_lib \<Rightarrow> plugin_manifest \<Rightarrow> msg option" where
  "manifest_body l m =
     (let risk = (if mfRisk m = [] then ''high'' else ToLower (vlText l) (mfRisk m)) in
      err_then (require (risk \<in> {''low'', ''medium'', ''high'', ''critical''}) (Msg ''plugin %q has invalid risk %q'' [AS (mfName m), AS (mfRisk m)]))
     (err_then (require (mfCapabilities m \<noteq> []) (Msg ''plugin %q must declare capabilities'' [AS (mfName m)]))
     (err_then (require (list_all (\<lambda>n. n \<ge> 0) (mfLimits m)) (Msg ''plugin %q has negative sandbox resource limits'' [AS (mfName m)]))
     (err_then (require (vlStays l (mfBinary m)) (Msg ''plugin %q binary must stay inside its plugin directory'' [AS (mfName m)]))
     (err_then (case vlStat l (mfBinary m) of
                  Inl x \<Rightarrow> Some (Msg ''plugin %q binary: %w'' [AS (mfName m), AM x])
                | Inr (dir, exec) \<Rightarrow> require (\<not> dir \<and> exec) (Msg ''plugin %q binary is not executable'' [AS (mfName m)]))
       (vlSandbox l m))))))"

definition check_signature :: "plugin_lib \<Rightarrow> plugin_options \<Rightarrow> plugin_manifest \<Rightarrow> string \<Rightarrow> msg + bool" where
  "check_signature l o' m digest =
     (if mfSignature m = [] \<and> mfPublicKey m = []
      then guard_res (require (\<not> opRequireSignature o') (Msg ''plugin %q is unsigned'' [AS (mfName m)])) (Inr False)
      else case (vlKey l (mfPublicKey m), vlSig l (mfSignature m)) of
        (Some pub, Some sig) \<Rightarrow>
          if opTrusted o' \<noteq> [] \<and> pub \<notin> set (opTrusted o') then Inl (Msg ''plugin %q signer is not trusted'' [AS (mfName m)])
          else let ok = vlVerify l pub digest sig in
            guard_res (require (ok \<or> \<not> opRequireSignature o') (Msg ''plugin %q failed signature verification'' [AS (mfName m)])) (Inr ok)
      | _ \<Rightarrow> Inl (Msg ''plugin %q has invalid ed25519 signature encoding'' [AS (mfName m)]))"

text \<open>Whether the hash and the signature are verified; a manifest without a binary is an entry of a catalog only.\<close>

definition ValidateManifest :: "plugin_lib \<Rightarrow> plugin_options \<Rightarrow> plugin_manifest \<Rightarrow> msg + bool \<times> bool" where
  "ValidateManifest l o' m =
     guard_res (manifest_head l o' m)
       (if TrimSpace (vlText l) (mfBinary m) = [] then Inr (False, False)
        else guard_res (manifest_body l m)
          (bind_res (vlDigest l (mfBinary m)) (\<lambda>digest.
             let verified = (ToLower (vlText l) (TrimSpace (vlText l) (mfSHA m)) = ToLower (vlText l) digest) in
             if opRequireHash o' \<and> \<not> verified then Inl (Msg ''plugin %q failed sha256 verification'' [AS (mfName m)])
             else bind_res (check_signature l o' m digest) (\<lambda>signed. Inr (verified, signed)))))"

subsection \<open>The keyring\<close>

record key_record =
  kyPublic :: string
  kyRevoked :: "int option"

record keyring =
  krActive :: string
  krKeys :: "string \<Rightarrow> key_record option"

record registry_index =
  rnKeyID :: string
  rnGeneratedAt :: int
  rnEntries :: "registry_entry list"
  rnSignature :: string

record key_lib =
  ylKey :: "string \<Rightarrow> string option"
  ylEncodeKey :: "string \<Rightarrow> string"
  ylKeyOK :: "string \<Rightarrow> bool"
  ylSig :: "string \<Rightarrow> string option"
  ylEncodeSig :: "string \<Rightarrow> string"
  ylJSON :: "registry_index \<Rightarrow> string"
  ylSign :: "string \<Rightarrow> string \<Rightarrow> string"
  ylVerify :: "string \<Rightarrow> string \<Rightarrow> string \<Rightarrow> bool"

definition KeyringVerify :: "key_lib \<Rightarrow> registry_index \<Rightarrow> keyring \<Rightarrow> msg option" where
  "KeyringVerify l x k =
     (case krKeys k (rnKeyID x) of
        None \<Rightarrow> Some (plain ''registry signing key is unknown or revoked'')
      | Some r \<Rightarrow>
          if kyRevoked r \<noteq> None then Some (plain ''registry signing key is unknown or revoked'')
          else (case ylKey l (kyPublic r) of
              None \<Rightarrow> Some (plain ''invalid registry public key'')
            | Some pub \<Rightarrow>
                (case ylSig l (rnSignature x) of
                   None \<Rightarrow> Some (plain ''invalid registry signature'')
                 | Some sig \<Rightarrow> require (ylVerify l pub (ylJSON l (x\<lparr>rnSignature := []\<rparr>)) sig) (plain ''registry signature verification failed''))))"

definition SignIndex :: "key_lib \<Rightarrow> string \<Rightarrow> string \<Rightarrow> int \<Rightarrow> registry_index \<Rightarrow> registry_index" where
  "SignIndex l i private now x =
     (let x = x\<lparr>rnKeyID := i, rnGeneratedAt := now, rnSignature := []\<rparr>
      in x\<lparr>rnSignature := ylEncodeSig l (ylSign l private (ylJSON l x))\<rparr>)"

text \<open>The active key is revoked although the answer is that it cannot be.\<close>

definition Revoke :: "string \<Rightarrow> int \<Rightarrow> keyring \<Rightarrow> msg option \<times> keyring" where
  "Revoke i at' k =
     (case krKeys k i of
        None \<Rightarrow> (Some (Msg ''unknown key %q'' [AS i]), k)
      | Some r \<Rightarrow>
          (if krActive k = i then Some (plain ''cannot revoke active registry key before rotation'') else None,
           k\<lparr>krKeys := (krKeys k)(i \<mapsto> r\<lparr>kyRevoked := Some at'\<rparr>)\<rparr>))"

definition Rotate :: "key_lib \<Rightarrow> string \<Rightarrow> string \<Rightarrow> keyring \<Rightarrow> msg option \<times> keyring" where
  "Rotate l i pub k =
     (if \<not> ylKeyOK l pub then (Some (plain ''invalid public key''), k)
      else (None, k\<lparr>krKeys := (krKeys k)(i \<mapsto> \<lparr>kyPublic = ylEncodeKey l pub, kyRevoked = None\<rparr>), krActive := i\<rparr>))"

subsection \<open>Imported catalogs\<close>

record catalog_plugin =
  ctName :: string
  ctKind :: string
  ctPath :: string

fun import_plugins :: "text_lib \<Rightarrow> string list \<Rightarrow> catalog_plugin list \<Rightarrow> msg + catalog_plugin list" where
  "import_plugins lib seen [] = Inr []"
| "import_plugins lib seen (p # ps) =
     (let p = p\<lparr>ctName := TrimSpace lib (ctName p)\<rparr> in
      if ctName p = [] \<or> ctName p \<in> set seen then import_plugins lib seen ps
      else if ctKind p \<notin> {[], ''local'', ''url''} then Inl (Msg ''plugin %q uses unsupported source %q'' [AS (ctName p), AS (ctKind p)])
      else bind_res (import_plugins lib (ctName p # seen) ps) (\<lambda>ps. Inr (p # ps)))"

subsection \<open>Resolved orders\<close>

text \<open>In an order of installation every dependency of an entry comes before it.\<close>

fun installs_in_order :: "registry_entry list \<Rightarrow> bool" where
  "installs_in_order [] = True"
| "installs_in_order (e # rest) = (list_all (\<lambda>d. list_ex (\<lambda>x. reName x = pdName d) rest) (reDependencies e) \<and> installs_in_order rest)"

definition order_ok :: "registry_entry list \<Rightarrow> registry_entry list \<Rightarrow> bool" where
  "order_ok es out \<longleftrightarrow> set out \<subseteq> set es \<and> distinct (map reName out) \<and> installs_in_order (rev out)"

lemma list_ex_name: "list_ex (\<lambda>e. reName e = n) out \<longleftrightarrow> n \<in> names out"
  by (auto simp: list_ex_iff names_def)

lemma candidates_subset:
  assumes "find p (candidates lib es name) = Some e"
  shows "e \<in> set es \<and> reName e = name \<and> p e"
proof -
  have "e \<in> set (candidates lib es name)" "p e" using assms by (auto simp: find_Some_iff)
  then show ?thesis by (simp add: candidates_def)
qed

lemma fold_visits:
  assumes step: "\<And>d out out'. f d out = Inr out' \<Longrightarrow> I out \<Longrightarrow> I out' \<and> set out \<subseteq> set out' \<and> key d \<in> names out'"
    and run: "fold_res f ds out = Inr out'" and "I out"
  shows "I out' \<and> set out \<subseteq> set out' \<and> key ` set ds \<subseteq> names out'"
  using run \<open>I out\<close>
proof (induction ds arbitrary: out)
  case (Cons d ds)
  then obtain t where t: "f d out = Inr t" "fold_res f ds t = Inr out'" by (auto simp: bind_res_Inr)
  then show ?case using step [OF t(1) Cons.prems(2)] Cons.IH [OF t(2)] by (auto simp: names_def)
qed simp

lemma visit_plugin_order:
  "visit_plugin lib es fuel visiting name c out = Inr out' \<Longrightarrow> order_ok es out \<Longrightarrow> names out \<inter> set visiting = {} \<Longrightarrow>
   order_ok es out' \<and> set out \<subseteq> set out' \<and> name \<in> names out' \<and> names out' \<inter> set visiting = {}"
proof (induction fuel arbitrary: visiting name c out out')
  case (Suc fuel)
  show ?case
  proof (cases "name \<in> names out \<or> name \<in> set visiting")
    case True
    then show ?thesis using Suc.prems by (auto simp: list_ex_name split: if_splits)
  next
    case False
    then obtain e mid where e: "find (\<lambda>e. satisfiesConstraint lib (reVersion e) c) (candidates lib es name) = Some e"
      and mid: "fold_res (\<lambda>d. visit_plugin lib es fuel (name # visiting) (pdName d) (pdConstraint d)) (reDependencies e) out = Inr mid"
      and out': "out' = mid @ [e]"
      using Suc.prems(1) by (auto simp: list_ex_name bind_res_Inr split: option.splits)
    have start: "order_ok es out \<and> names out \<inter> set (name # visiting) = {}" using Suc.prems(2,3) False by auto
    have all: "(order_ok es mid \<and> names mid \<inter> set (name # visiting) = {}) \<and> set out \<subseteq> set mid \<and> pdName ` set (reDependencies e) \<subseteq> names mid"
      by (rule fold_visits [where I = "\<lambda>out. order_ok es out \<and> names out \<inter> set (name # visiting) = {}" and key = pdName, OF _ mid start]) (use Suc.IH in blast)
    have here: "e \<in> set es" "reName e = name" using candidates_subset [OF e] by auto
    have deps: "list_all (\<lambda>d. list_ex (\<lambda>x. reName x = pdName d) (rev mid)) (reDependencies e)"
      using all by (auto simp: list_all_iff list_ex_name names_def)
    have "order_ok es out'" using all here deps by (auto simp: out' order_ok_def names_def)
    moreover have "name \<in> names out'" "names out' \<inter> set visiting = {}" "set out \<subseteq> set out'"
      using all here False by (auto simp: out' names_def)
    ultimately show ?thesis by blast
  qed
qed simp

text \<open>C34: what is resolved can be installed: every requested plugin is there, each only once, from the registry, and after everything it
  depends on.\<close>
theorem resolved_in_order:
  assumes "ResolveDependencies lib es requested = Inr out"
  shows "set requested \<subseteq> names out \<and> names out \<subseteq> names es \<and> distinct (map reName out) \<and> installs_in_order (rev out)"
proof -
  have run: "fold_res (\<lambda>name. visit_plugin lib es (length es + 2) [] name []) requested [] = Inr out"
    using assms by (simp add: ResolveDependencies_def resolveDependenciesInternal_def)
  have start: "order_ok es []" by (simp add: order_ok_def)
  have step: "order_ok es out' \<and> set out \<subseteq> set out' \<and> name \<in> names out'"
    if "visit_plugin lib es (length es + 2) [] name [] out = Inr out'" "order_ok es out" for name out out'
    using visit_plugin_order [OF that] by simp
  have "order_ok es out \<and> set [] \<subseteq> set out \<and> (\<lambda>n. n) ` set requested \<subseteq> names out"
    by (rule fold_visits [where I = "order_ok es" and key = "\<lambda>n. n", OF step run start])
  then show ?thesis by (auto simp: order_ok_def names_def)
qed

text \<open>The fuel suffices: a chain of visits holds different names of the registry.\<close>

lemma visit_fuel:
  "set visiting \<subseteq> names es \<Longrightarrow> distinct visiting \<Longrightarrow> length visiting + fuel \<ge> card (names es) + 2 \<Longrightarrow>
   visit_plugin lib es fuel visiting name c out \<noteq> Inl ResolveFuel"
proof (induction fuel arbitrary: visiting name c out)
  case 0
  have "length visiting \<le> card (names es)"
    using 0 by (metis card_mono distinct_card finite_imageI finite_set names_def)
  then show ?case using 0 by simp
next
  case (Suc fuel)
  show ?case
  proof
    assume no: "visit_plugin lib es (Suc fuel) visiting name c out = Inl ResolveFuel"
    then obtain e where e: "name \<notin> set visiting" "find (\<lambda>e. satisfiesConstraint lib (reVersion e) c) (candidates lib es name) = Some e"
      by (auto split: if_splits option.splits)
    have inside: "set (name # visiting) \<subseteq> names es" "distinct (name # visiting)"
      using candidates_subset [OF e(2)] e(1) Suc.prems by (auto simp: names_def)
    have "fold_res (\<lambda>d. visit_plugin lib es fuel (name # visiting) (pdName d) (pdConstraint d)) ds o' \<noteq> Inl ResolveFuel" for ds o'
    proof (induction ds arbitrary: o')
      case (Cons d ds)
      have "visit_plugin lib es fuel (name # visiting) (pdName d) (pdConstraint d) o' \<noteq> Inl ResolveFuel"
        by (rule Suc.IH [OF inside]) (use Suc.prems in simp)
      then show ?case using Cons by (cases "visit_plugin lib es fuel (name # visiting) (pdName d) (pdConstraint d) o'") auto
    qed simp
    moreover have "first_err (\<lambda>x. require (p x) (ResolveError (m x))) cs \<noteq> Some ResolveFuel" for p m and cs :: "plugin_dependency list"
      by (induction cs) (auto simp: require_def)
    ultimately show False using no e
      by (cases "fold_res (\<lambda>d. visit_plugin lib es fuel (name # visiting) (pdName d) (pdConstraint d)) (reDependencies e) out")
        (auto simp: guard_res_def split: if_splits option.splits)
  qed
qed

text \<open>C35: resolution always ends with a list or an error of its own.\<close>
theorem resolution_terminates: "ResolveDependencies lib es requested \<noteq> Inl ResolveFuel"
proof -
  have "card (names es) \<le> length es" unfolding names_def by (metis card_image_le card_length finite_set le_trans)
  then have "visit_plugin lib es (length es + 2) [] name [] out \<noteq> Inl ResolveFuel" for name out
    by (intro visit_fuel) simp_all
  then have "fold_res (\<lambda>name. visit_plugin lib es (length es + 2) [] name []) ns out \<noteq> Inl ResolveFuel" for ns out
  proof (induction ns arbitrary: out)
    case (Cons n ns)
    then show ?case by (cases "visit_plugin lib es (length es + 2) [] n [] out") (auto simp del: visit_plugin.simps)
  qed simp
  moreover have "first_err (\<lambda>x. require (p x) (ResolveError (m x))) cs \<noteq> Some ResolveFuel" for p m and cs :: "plugin_dependency list"
    by (induction cs) (auto simp: require_def)
  then have "first_err (\<lambda>e. if q e then None else first_err (\<lambda>x. require (p x) (ResolveError (m e x))) (reConflicts e)) xs \<noteq> Some ResolveFuel"
    for p q m and xs :: "registry_entry list"
    by (induction xs) (auto split: option.splits)
  ultimately show ?thesis
    by (auto simp: ResolveDependencies_def resolveDependenciesInternal_def guard_res_def split: option.splits)
qed

subsection \<open>Samples\<close>

definition sample_entry :: "string \<Rightarrow> string \<Rightarrow> (string \<times> string) list \<Rightarrow> string list \<Rightarrow> registry_entry" where
  "sample_entry n v ds cs = \<lparr>reName = n, reVersion = v, reKey = [], reSHA = [], reDependencies = map (\<lambda>(d, c). \<lparr>pdName = d, pdConstraint = c\<rparr>) ds,
     reConflicts = map (\<lambda>c. \<lparr>pdName = c, pdConstraint = []\<rparr>) cs, reScan = \<lparr>srStatuses = [], srFindings = []\<rparr>\<rparr>"

definition plain_text :: text_lib where
  "plain_text = \<lparr>TrimSpace = (\<lambda>s. s), CleanPath = (\<lambda>s. s), ToLower = (\<lambda>s. s), sha256hex = (\<lambda>s. s)\<rparr>"

definition sample_registry :: "registry_entry list" where
  "sample_registry = [sample_entry ''app'' ''1.0.0'' [(''lib'', ''^1.2''), (''log'', [])] [], sample_entry ''lib'' ''1.10.0'' [] [],
     sample_entry ''lib'' ''1.2.0'' [] [], sample_entry ''lib'' ''2.0.0'' [] [], sample_entry ''log'' ''v3'' [(''lib'', ''*'')] []]"

theorem resolved_in_order_witness:
  "\<exists>out. ResolveDependencies plain_text sample_registry [''app''] = Inr out
     \<and> map (\<lambda>e. (reName e, reVersion e)) out = [(''lib'', ''1.10.0''), (''log'', ''v3''), (''app'', ''1.0.0'')] \<and> installs_in_order (rev out)"
proof -
  have run: "(case ResolveDependencies plain_text sample_registry [''app''] of Inl _ \<Rightarrow> [] | Inr out \<Rightarrow> map (\<lambda>e. (reName e, reVersion e)) out)
      = [(''lib'', ''1.10.0''), (''log'', ''v3''), (''app'', ''1.0.0'')]" by code_simp
  then obtain out where "ResolveDependencies plain_text sample_registry [''app''] = Inr out"
    "map (\<lambda>e. (reName e, reVersion e)) out = [(''lib'', ''1.10.0''), (''log'', ''v3''), (''app'', ''1.0.0'')]"
    by (auto split: sum.splits)
  then show ?thesis using resolved_in_order [of plain_text sample_registry "[''app'']" out] by simp
qed

text \<open>A constraint is not looked at again for a plugin that is already in, so a resolution can violate it.\<close>

lemma constraint_ignored_when_seen:
  "ResolveDependencies plain_text [sample_entry ''a'' ''1.0'' [(''lib'', []), (''b'', [])] [], sample_entry ''b'' ''1.0'' [(''lib'', ''<2'')] [],
      sample_entry ''lib'' ''2.0'' [] []] [''a'']
   = Inr [sample_entry ''lib'' ''2.0'' [] [], sample_entry ''b'' ''1.0'' [(''lib'', ''<2'')] [], sample_entry ''a'' ''1.0'' [(''lib'', []), (''b'', [])] []]
   \<and> \<not> satisfiesConstraint plain_text ''2.0'' ''<2''"
  by code_simp

text \<open>A conflict is found only with plugins that come earlier in the order.\<close>

lemma conflict_missed:
  "ResolveDependencies plain_text [sample_entry ''a'' ''1.0'' [(''x'', []), (''y'', [])] [], sample_entry ''x'' ''1.0'' [] [''y''],
      sample_entry ''y'' ''1.0'' [] []] [''a'']
   = Inr [sample_entry ''x'' ''1.0'' [] [''y''], sample_entry ''y'' ''1.0'' [] [], sample_entry ''a'' ''1.0'' [(''x'', []), (''y'', [])] []]"
  by code_simp

text \<open>What the active key signed is refused after a revocation that is answered with an error.\<close>

lemma active_key_revoked:
  assumes "krActive k = i" and "krKeys k i = Some r" and "rnKeyID x = i"
  shows "fst (Revoke i t k) \<noteq> None \<and> KeyringVerify l x (snd (Revoke i t k)) \<noteq> None"
  using assms by (simp add: Revoke_def KeyringVerify_def)

end
