(* ===== verification/Market.thy ===== *)
theory Market
  imports Plugins
begin

text \<open>
  The marketplace of plugins (\<open>internal/plugin/marketplace.go\<close>): sources, installation with admission, scan and
  artifact, approval by a second person, activation per tenant and project, rollback and removal. The state is loaded and
  saved around every operation, while the directories of plugins change at once: both are kept, the directories as the contents
  of a name. The file system, the scanners and the stores answer through the environment; audit and progress events are left out.
\<close>

subsection \<open>State\<close>

record plugin_revision =
  qvVersion :: string
  qvSHA :: string

record installed_plugin =
  ipName :: string
  ipVersion :: string
  ipSource :: string
  ipInstalledAt :: int
  ipTenants :: "string list"
  ipProjects :: "(string \<times> string list) list"
  ipPrevious :: "plugin_revision option"
  ipHistory :: "plugin_revision list"
  ipScan :: scan_report
  ipArtifact :: string
  ipStatus :: string
  ipApproval :: string
  ipRequestedBy :: string
  ipRequestedAt :: int
  ipExpires :: "int option"
  ipDecidedBy :: string

definition not_installed :: installed_plugin where
  "not_installed = \<lparr>ipName = [], ipVersion = [], ipSource = [], ipInstalledAt = 0, ipTenants = [], ipProjects = [], ipPrevious = None,
     ipHistory = [], ipScan = \<lparr>srStatuses = [], srFindings = []\<rparr>, ipArtifact = [], ipStatus = [], ipApproval = [], ipRequestedBy = [],
     ipRequestedAt = 0, ipExpires = None, ipDecidedBy = []\<rparr>"

record market_source =
  soName :: string
  soPath :: string

record market_state =
  mkSources :: "(string \<times> market_source) list"
  mkInstalled :: "(string \<times> installed_plugin) list"
  mkRegistry :: registry_index

record market =
  mkState :: market_state
  mkDisk :: "string \<Rightarrow> string option"
  mkBackups :: "string \<times> string \<Rightarrow> string option"
  mkArtifacts :: "string \<Rightarrow> string option"

datatype market_site = AtLease | AtRoot | AtBackup | AtStaging | AtRename | AtArchive | AtUpload | AtSign | AtApproval | AtSave

record market_env =
  mvNow :: int
  mvID :: string
  mvText :: text_lib
  mvSafeName :: "string \<Rightarrow> bool"
  mvPath :: "string \<Rightarrow> msg + string"
  mvManifest :: "string \<Rightarrow> string \<Rightarrow> msg + plugin_manifest \<times> string"
  mvPlugin :: "string \<Rightarrow> string \<Rightarrow> plugin_lib"
  mvOptions :: "msg + plugin_options"
  mvAvailable :: "string \<Rightarrow> msg + registry_entry list"
  mvScan :: "string \<Rightarrow> msg + scan_report"
  mvArchive :: "string \<Rightarrow> string"
  mvDirSHA :: "string \<Rightarrow> string"
  mvHash :: "string \<Rightarrow> string"
  mvKeys :: "registry_index \<Rightarrow> registry_index"
  mvQuota :: "int option"
  mvFails :: "market_site \<Rightarrow> bool"

definition active_plugins :: "string \<Rightarrow> market_state \<Rightarrow> int" where
  "active_plugins tenant s = int (length (filter (\<lambda>p. tenant \<in> set (ipTenants (snd p))) (mkInstalled s)))"

definition plugin_expired :: "int \<Rightarrow> installed_plugin \<Rightarrow> bool" where
  "plugin_expired now p = (case ipExpires p of None \<Rightarrow> False | Some t \<Rightarrow> now > t)"

definition projects_of :: "string \<Rightarrow> installed_plugin \<Rightarrow> string list" where
  "projects_of tenant p = (case map_of (ipProjects p) tenant of None \<Rightarrow> [] | Some xs \<Rightarrow> xs)"

text \<open>Whether a plugin is known and whether it is active. Of a map without entries nothing is stored, so it comes back as absent.\<close>

definition MarketIsActive :: "int \<Rightarrow> string \<Rightarrow> string \<Rightarrow> string \<Rightarrow> market_state \<Rightarrow> bool \<times> bool" where
  "MarketIsActive now tenant project name s =
     (case map_of (mkInstalled s) name of
        None \<Rightarrow> (False, False)
      | Some p \<Rightarrow>
          let active = tenant \<in> set (ipTenants p);
              active = (if project \<noteq> [] \<and> ipProjects p \<noteq> [] then active \<and> project \<in> set (projects_of tenant p) else active)
          in (True, \<not> plugin_expired now p \<and> active \<and> ipStatus p = ''approved''))"

definition with_default :: "string \<Rightarrow> market_state \<Rightarrow> market_state" where
  "with_default dir s = (if mkSources s = [] then s\<lparr>mkSources := [(''local'', \<lparr>soName = ''Local plugins'', soPath = dir\<rparr>)]\<rparr> else s)"

text \<open>The state is saved, or the operation fails after all.\<close>

definition save_state :: "market_env \<Rightarrow> market_state \<Rightarrow> market \<Rightarrow> msg option \<times> market" where
  "save_state v s m = (if mvFails v AtSave then (Some (plain ''marketplace state not saved''), m) else (None, m\<lparr>mkState := s\<rparr>))"

subsection \<open>Sources, activation, approval\<close>

definition register_source :: "market_env \<Rightarrow> string \<Rightarrow> string \<Rightarrow> string \<Rightarrow> market_state \<Rightarrow> market \<Rightarrow> msg option \<times> market" where
  "register_source v i name path s m =
     (let i = TrimSpace (mvText v) i; path = TrimSpace (mvText v) path in
      if i = [] \<or> path = [] then (Some (plain ''source id and path are required''), m)
      else case mvPath v path of
        Inl x \<Rightarrow> (Some x, m)
      | Inr p \<Rightarrow> save_state v (s\<lparr>mkSources := AList.update i \<lparr>soName = name, soPath = p\<rparr> (mkSources s)\<rparr>) m)"

definition remove_source :: "market_env \<Rightarrow> string \<Rightarrow> market_state \<Rightarrow> market \<Rightarrow> msg option \<times> market" where
  "remove_source v i s m =
     (if i = [] then (Some (plain ''source_id is required''), m) else save_state v (s\<lparr>mkSources := AList.delete i (mkSources s)\<rparr>) m)"

definition add_name :: "string \<Rightarrow> string list \<Rightarrow> string list" where
  "add_name x xs = (if x \<in> set xs then xs else xs @ [x])"

definition activate :: "market_env \<Rightarrow> string \<Rightarrow> string \<Rightarrow> market_state \<Rightarrow> installed_plugin \<Rightarrow> msg + installed_plugin" where
  "activate v tenant project s p =
     guard_res (require (ipStatus p = ''approved'') (plain ''plugin activation requires an approved marketplace request''))
    (guard_res (require (\<not> plugin_expired (mvNow v) p) (plain ''marketplace approval has expired''))
    (guard_res (case mvQuota v of
                  None \<Rightarrow> None
                | Some n \<Rightarrow> require (project \<noteq> [] \<or> n \<le> 0 \<or> tenant \<in> set (ipTenants p) \<or> active_plugins tenant s < n)
                              (Msg ''tenant marketplace activation quota exceeded (%d)'' [AI n]))
      (Inr (if project = [] then p\<lparr>ipTenants := add_name tenant (ipTenants p)\<rparr>
            else p\<lparr>ipProjects := AList.update tenant (add_name project (projects_of tenant p)) (ipProjects p)\<rparr>))))"

definition deactivate :: "string \<Rightarrow> string \<Rightarrow> installed_plugin \<Rightarrow> installed_plugin" where
  "deactivate tenant project p =
     (if project = [] then p\<lparr>ipTenants := filter (\<lambda>t. t \<noteq> tenant) (ipTenants p)\<rparr>
      else case map_of (ipProjects p) tenant of
        None \<Rightarrow> p
      | Some xs \<Rightarrow> p\<lparr>ipProjects := AList.update tenant (filter (\<lambda>x. x \<noteq> project) xs) (ipProjects p)\<rparr>)"

definition approve :: "market_env \<Rightarrow> string \<Rightarrow> installed_plugin \<Rightarrow> msg + installed_plugin" where
  "approve v subject p =
     guard_res (require (ipStatus p = ''pending'') (Msg ''plugin approval is not pending: %s'' [AS (ipStatus p)]))
    (guard_res (require (ipRequestedBy p = [] \<or> ipRequestedBy p \<noteq> subject) (plain ''four-eyes approval requires a different approver''))
    (guard_res (require (\<not> plugin_expired (mvNow v) p) (plain ''marketplace approval has expired''))
    (guard_res (require (ipApproval p = [] \<or> \<not> mvFails v AtApproval) (plain ''approval not saved''))
      (Inr (p\<lparr>ipStatus := ''approved'', ipDecidedBy := subject\<rparr>)))))"

definition change_plugin :: "market_env \<Rightarrow> string \<Rightarrow> (installed_plugin \<Rightarrow> msg + installed_plugin) \<Rightarrow> market_state \<Rightarrow> market \<Rightarrow> msg option \<times> market" where
  "change_plugin v name f s m =
     (if name = [] then (Some (plain ''plugin is required''), m)
      else case map_of (mkInstalled s) name of
        None \<Rightarrow> (Some (plain ''plugin is not installed''), m)
      | Some p \<Rightarrow>
          if ipVersion p = [] then (Some (plain ''plugin is not installed''), m)
          else (case f p of
                  Inl x \<Rightarrow> (Some x, m)
                | Inr p \<Rightarrow> save_state v (s\<lparr>mkInstalled := AList.update name p (mkInstalled s)\<rparr>) m))"

subsection \<open>Installation\<close>

text \<open>What is checked before anything is written.\<close>

definition admit_plugin :: "market_env \<Rightarrow> string \<Rightarrow> string \<Rightarrow> msg + plugin_manifest \<times> string" where
  "admit_plugin v path name =
     bind_res (mvManifest v path name) (\<lambda>(mf, content).
       guard_res (require (mfName mf = name) (plain ''manifest name does not match plugin''))
        (bind_res (mvOptions v) (\<lambda>o'.
           case ValidateManifest (mvPlugin v path name) o' mf of
             Inl x \<Rightarrow> Inl (Msg ''plugin admission rejected: %w'' [AM x])
           | Inr _ \<Rightarrow>
               bind_res (mvAvailable v path) (\<lambda>es.
                 case ResolveDependencies (mvText v) es [name] of
                   Inl _ \<Rightarrow> Inl (plain ''dependency admission rejected: %w'')
                 | Inr _ \<Rightarrow> Inr (mf, content)))))"

text \<open>The version that is replaced is copied away and noted in the history.\<close>

definition back_up :: "market_env \<Rightarrow> string \<Rightarrow> market_state \<times> market \<Rightarrow> msg + market_state \<times> market" where
  "back_up v name sm =
     (let (s, m) = sm in
      case map_of (mkInstalled s) name of
        None \<Rightarrow> Inr (s, m)
      | Some old \<Rightarrow>
          if ipVersion old = [] then Inr (s, m)
          else (case mkDisk m name of
              None \<Rightarrow> Inl (plain ''plugin directory is missing'')
            | Some content \<Rightarrow>
                if mvFails v AtBackup then Inl (plain ''plugin not backed up'')
                else let rev = \<lparr>qvVersion = ipVersion old, qvSHA = mvDirSHA v content\<rparr> in
                  Inr (s\<lparr>mkInstalled := AList.update name (old\<lparr>ipPrevious := Some rev, ipHistory := ipHistory old @ [rev]\<rparr>) (mkInstalled s)\<rparr>,
                       m\<lparr>mkBackups := (mkBackups m)((name, ipVersion old) \<mapsto> content)\<rparr>)))"

definition requested_plugin :: "market_env \<Rightarrow> string \<Rightarrow> string \<Rightarrow> string \<Rightarrow> string \<Rightarrow> scan_report \<Rightarrow> installed_plugin \<Rightarrow> installed_plugin" where
  "requested_plugin v subject source name version scan p =
     p\<lparr>ipName := name, ipVersion := version, ipSource := source, ipInstalledAt := mvNow v, ipStatus := ''pending'', ipApproval := mvID v,
       ipRequestedBy := subject, ipRequestedAt := mvNow v, ipExpires := Some (mvNow v + 24 * 3600 * 1000000000), ipDecidedBy := [], ipScan := scan,
       ipArtifact := name @ ''/'' @ version @ ''/plugin.tar''\<rparr>"

definition publish_entry :: "market_env \<Rightarrow> string \<Rightarrow> plugin_manifest \<Rightarrow> string \<Rightarrow> string \<Rightarrow> scan_report \<Rightarrow> registry_index \<Rightarrow> registry_index" where
  "publish_entry v name mf key sha scan x =
     x\<lparr>rnEntries := filter (\<lambda>e. reName e \<noteq> name \<or> reVersion e \<noteq> mfVersion mf) (rnEntries x)
         @ [\<lparr>reName = name, reVersion = mfVersion mf, reKey = key, reSHA = sha, reDependencies = mfDependencies mf,
             reConflicts = mfConflicts mf, reScan = scan\<rparr>],
       rnGeneratedAt := mvNow v\<rparr>"

text \<open>The directory has been replaced: what remains can fail, and then the state is not saved.\<close>

definition finish_install :: "market_env \<Rightarrow> string \<Rightarrow> string \<Rightarrow> string \<Rightarrow> plugin_manifest \<Rightarrow> scan_report \<Rightarrow> string \<Rightarrow> market_state \<Rightarrow> market \<Rightarrow> msg option \<times> market" where
  "finish_install v subject source name mf scan content s m =
     (let p = requested_plugin v subject source name (mfVersion mf) scan (case map_of (mkInstalled s) name of None \<Rightarrow> not_installed | Some p \<Rightarrow> p) in
      if mvFails v AtArchive then (Some (plain ''create plugin artifact: %w''), m)
      else if mvFails v AtUpload then (Some (plain ''publish plugin artifact: %w''), m)
      else let m = m\<lparr>mkArtifacts := (mkArtifacts m)(ipArtifact p \<mapsto> mvArchive v content)\<rparr> in
        if mvFails v AtSign then (Some (plain ''registry not signed''), m)
        else let s = s\<lparr>mkRegistry := mvKeys v (publish_entry v name mf (ipArtifact p) (mvHash v (mvArchive v content)) scan (mkRegistry s)),
                       mkInstalled := AList.update name (p\<lparr>ipTenants := []\<rparr>) (mkInstalled s)\<rparr> in
          if mvFails v AtApproval then (Some (plain ''approval not saved''), m)
          else save_state v s m)"

definition install_plugin :: "market_env \<Rightarrow> string \<Rightarrow> string \<Rightarrow> string \<Rightarrow> market_state \<Rightarrow> market \<Rightarrow> msg option \<times> market" where
  "install_plugin v subject source name s m =
     (let source = (if source = [] then ''local'' else source) in
      case map_of (mkSources s) source of
        None \<Rightarrow> (Some (plain ''source is not registered''), m)
      | Some src \<Rightarrow>
          (case admit_plugin v (soPath src) name of
             Inl x \<Rightarrow> (Some x, m)
           | Inr (mf, content) \<Rightarrow>
               if mvFails v AtRoot then (Some (plain ''plugin root does not open''), m)
               else (case back_up v name (s, m) of
                   Inl x \<Rightarrow> (Some x, m)
                 | Inr (s, m) \<Rightarrow>
                     if mvFails v AtStaging then (Some (plain ''plugin not staged''), m)
                     else (case mvScan v content of
                         Inl x \<Rightarrow> (Some (Msg ''supply-chain scan rejected plugin: %w'' [AM x]), m)
                       | Inr scan \<Rightarrow>
                           if mvFails v AtRename then (Some (plain ''plugin not moved''), m\<lparr>mkDisk := (mkDisk m)(name := None)\<rparr>)
                           else finish_install v subject source name mf scan content s (m\<lparr>mkDisk := (mkDisk m)(name \<mapsto> content)\<rparr>)))))"

subsection \<open>Rollback and removal\<close>

text \<open>The latest revision of that version, or the latest of all.\<close>

definition rollback_target :: "string \<Rightarrow> installed_plugin \<Rightarrow> plugin_revision option" where
  "rollback_target version p = find (\<lambda>r. version = [] \<or> qvVersion r = version) (rev (ipHistory p))"

definition rollback_plugin :: "market_env \<Rightarrow> string \<Rightarrow> string \<Rightarrow> market_state \<Rightarrow> market \<Rightarrow> msg option \<times> market" where
  "rollback_plugin v name version s m =
     (case map_of (mkInstalled s) name of
        None \<Rightarrow> (Some (plain ''no rollback version available''), m)
      | Some p \<Rightarrow>
          if ipHistory p = [] then (Some (plain ''no rollback version available''), m)
          else (case rollback_target version p of
              None \<Rightarrow> (Some (Msg ''rollback version %q is not available'' [AS version]), m)
            | Some r \<Rightarrow>
                if mvFails v AtRoot \<or> mvFails v AtStaging then (Some (plain ''plugin not staged''), m)
                else (case mkBackups m (name, qvVersion r) of
                    None \<Rightarrow> (Some (plain ''backup is missing''), m)
                  | Some content \<Rightarrow>
                      if mvFails v AtRename then (Some (plain ''plugin not moved''), m\<lparr>mkDisk := (mkDisk m)(name := None)\<rparr>)
                      else save_state v (s\<lparr>mkInstalled := AList.update name
                          (p\<lparr>ipHistory := ipHistory p @ [\<lparr>qvVersion = ipVersion p, qvSHA = []\<rparr>], ipVersion := qvVersion r, ipPrevious := Some r\<rparr>)
                          (mkInstalled s)\<rparr>)
                        (m\<lparr>mkDisk := (mkDisk m)(name \<mapsto> content)\<rparr>))))"

definition uninstall_plugin :: "market_env \<Rightarrow> string \<Rightarrow> market_state \<Rightarrow> market \<Rightarrow> msg option \<times> market" where
  "uninstall_plugin v name s m =
     (if map_of (mkInstalled s) name = None then (Some (plain ''plugin is not installed''), m)
      else if mvFails v AtRoot then (Some (plain ''plugin root does not open''), m)
      else save_state v (s\<lparr>mkInstalled := AList.delete name (mkInstalled s)\<rparr>) (m\<lparr>mkDisk := (mkDisk m)(name := None)\<rparr>))"

subsection \<open>The operation\<close>

datatype market_action =
    SourceRegister string string string
  | SourceRemove string
  | ActivatePlugin string string
  | DeactivatePlugin string string
  | ApprovePlugin string
  | InstallPlugin string string
  | UpdatePlugin string string
  | RollbackPlugin string string
  | UninstallPlugin string
  | UnknownAction string

definition lifecycle :: "market_action \<Rightarrow> string option" where
  "lifecycle a = (case a of InstallPlugin n _ \<Rightarrow> Some n | UpdatePlugin n _ \<Rightarrow> Some n | RollbackPlugin n _ \<Rightarrow> Some n | UninstallPlugin n \<Rightarrow> Some n | _ \<Rightarrow> None)"

text \<open>The lifecycle of one plugin is guarded by a lease, which is given back at the end.\<close>

definition lifecycle_guard :: "market_env \<Rightarrow> market_action \<Rightarrow> msg option" where
  "lifecycle_guard v a =
     (case lifecycle a of
        None \<Rightarrow> None
      | Some n \<Rightarrow>
          err_then (require (TrimSpace (mvText v) n \<noteq> [] \<and> mvSafeName v (TrimSpace (mvText v) n)) (plain ''invalid plugin name''))
            (require (\<not> mvFails v AtLease) (plain ''plugin lifecycle operation is already running'')))"

definition Mutate :: "market_env \<Rightarrow> string \<Rightarrow> string \<Rightarrow> string \<Rightarrow> market_action \<Rightarrow> market \<Rightarrow> msg option \<times> market" where
  "Mutate v dir tenant subject a m =
     (let s = with_default dir (mkState m); t = TrimSpace (mvText v) in
      case lifecycle_guard v a of
        Some x \<Rightarrow> (Some x, m)
      | None \<Rightarrow>
          (case a of
             SourceRegister i name path \<Rightarrow> register_source v i name path s m
           | SourceRemove i \<Rightarrow> remove_source v (t i) s m
           | ActivatePlugin n project \<Rightarrow> change_plugin v (t n) (activate v tenant project s) s m
           | DeactivatePlugin n project \<Rightarrow> change_plugin v (t n) (\<lambda>p. Inr (deactivate tenant project p)) s m
           | ApprovePlugin n \<Rightarrow> change_plugin v (t n) (approve v subject) s m
           | InstallPlugin n source \<Rightarrow> install_plugin v subject (t source) (t n) s m
           | UpdatePlugin n source \<Rightarrow> install_plugin v subject (t source) (t n) s m
           | RollbackPlugin n version \<Rightarrow> rollback_plugin v (t n) version s m
           | UninstallPlugin n \<Rightarrow> uninstall_plugin v (t n) s m
           | UnknownAction x \<Rightarrow> (Some (Msg ''unsupported marketplace action %q'' [AS x]), m)))"

end
