(* ===== verification/MarketProps.thy ===== *)
theory MarketProps
  imports Market
begin

text \<open>
  What the marketplace guarantees over whole runs, and where its directories and its state part.
\<close>

subsection \<open>Approvals\<close>

definition one_day :: int where
  "one_day = 24 * 3600 * 1000000000"

text \<open>Every installed plugin is requested or approved; an approval was given by somebody else than the one who asked, if that is known,
  and the request expires a day after it was made.\<close>

definition well_approved :: "installed_plugin \<Rightarrow> bool" where
  "well_approved p \<longleftrightarrow> ipExpires p = Some (ipRequestedAt p + one_day)
     \<and> (ipStatus p = ''approved'' \<longrightarrow> ipRequestedBy p = [] \<or> ipDecidedBy p \<noteq> ipRequestedBy p)"

definition market_inv :: "market \<Rightarrow> bool" where
  "market_inv m \<longleftrightarrow> (\<forall>(n, p)\<in>set (mkInstalled (mkState m)). well_approved p)"

lemma set_update_subset: "set (AList.update k v al) \<subseteq> insert (k, v) (set al)"
  by (induction al) auto

lemma set_delete_subset: "set (AList.delete k al) \<subseteq> set al"
  by (auto simp: AList.delete_eq)

lemma inv_installed: "market_inv m \<Longrightarrow> map_of (mkInstalled (mkState m)) n = Some p \<Longrightarrow> well_approved p"
  by (auto simp: market_inv_def dest: map_of_SomeD)

text \<open>States whose installed plugins are well approved can be saved.\<close>

definition all_approved :: "market_state \<Rightarrow> bool" where
  "all_approved s \<longleftrightarrow> (\<forall>(n, p)\<in>set (mkInstalled s). well_approved p)"

lemma all_approved_update: "all_approved s \<Longrightarrow> well_approved p \<Longrightarrow> mkInstalled s' = AList.update n p (mkInstalled s) \<Longrightarrow> all_approved s'"
  unfolding all_approved_def using set_update_subset [of n p "mkInstalled s"] by fastforce

lemma all_approved_delete: "all_approved s \<Longrightarrow> mkInstalled s' = AList.delete n (mkInstalled s) \<Longrightarrow> all_approved s'"
  unfolding all_approved_def using set_delete_subset [of n "mkInstalled s"] by fastforce

lemma save_state_inv: "market_inv m \<Longrightarrow> all_approved s \<Longrightarrow> market_inv (snd (save_state v s m))"
  by (simp add: save_state_def market_inv_def all_approved_def)

lemma market_inv_disk: "mkState m' = mkState m \<Longrightarrow> market_inv m' = market_inv m"
  by (simp add: market_inv_def)

lemma with_default_installed: "mkInstalled (with_default dir s) = mkInstalled s"
  by (simp add: with_default_def)

lemma all_approved_default: "market_inv m \<Longrightarrow> all_approved (with_default dir (mkState m))"
  by (simp add: market_inv_def all_approved_def with_default_installed)

lemma change_plugin_inv:
  assumes "market_inv m" and "all_approved s" and "\<And>p p'. f p = Inr p' \<Longrightarrow> well_approved p \<Longrightarrow> well_approved p'"
  shows "market_inv (snd (change_plugin v n f s m))"
proof (cases "map_of (mkInstalled s) n")
  case (Some p)
  then have p: "well_approved p" using assms(2) by (auto simp: all_approved_def dest: map_of_SomeD)
  show ?thesis
  proof (cases "f p")
    case (Inr p')
    have "all_approved (s\<lparr>mkInstalled := AList.update n p' (mkInstalled s)\<rparr>)"
      by (rule all_approved_update [OF assms(2) assms(3) [OF Inr p]]) simp
    then show ?thesis using save_state_inv [OF assms(1)] assms(1) Some Inr by (simp add: change_plugin_def)
  qed (use assms(1) Some in \<open>simp add: change_plugin_def\<close>)
qed (use assms(1) in \<open>simp add: change_plugin_def\<close>)

lemma finish_install_inv:
  assumes "market_inv m" and "all_approved s"
  shows "market_inv (snd (finish_install v subject source n mf scan content s m))"
proof -
  define p where "p = (requested_plugin v subject source n (mfVersion mf) scan (case map_of (mkInstalled s) n of None \<Rightarrow> not_installed | Some p \<Rightarrow> p))\<lparr>ipTenants := []\<rparr>"
  have p: "well_approved p" by (simp add: p_def requested_plugin_def well_approved_def one_day_def)
  have s: "all_approved (s\<lparr>mkRegistry := x, mkInstalled := AList.update n p (mkInstalled s)\<rparr>)" for x
    by (rule all_approved_update [OF assms(2) p]) simp
  have m: "market_inv (m\<lparr>mkArtifacts := a\<rparr>)" for a using assms(1) by (simp add: market_inv_def)
  show ?thesis using assms(1) m save_state_inv [OF m s]
    by (simp add: finish_install_def Let_def p_def)
qed

lemma back_up_inv:
  assumes "back_up v n (s, m) = Inr (s', m')" and "all_approved s"
  shows "all_approved s' \<and> mkState m' = mkState m"
proof (cases "map_of (mkInstalled s) n")
  case (Some old)
  then have old: "well_approved old" using assms(2) by (auto simp: all_approved_def dest: map_of_SomeD)
  have "all_approved (s\<lparr>mkInstalled := AList.update n (old\<lparr>ipPrevious := a, ipHistory := h\<rparr>) (mkInstalled s)\<rparr>)" for a h
    by (rule all_approved_update [OF assms(2)]) (use old in \<open>simp_all add: well_approved_def\<close>)
  then show ?thesis using assms Some by (auto simp: back_up_def Let_def split: if_splits option.splits)
qed (use assms in \<open>simp add: back_up_def\<close>)

lemma install_plugin_inv:
  assumes "market_inv m" and "all_approved s"
  shows "market_inv (snd (install_plugin v subject source n s m))"
proof -
  have "market_inv (snd (finish_install v subject source' n mf scan content s' (m'\<lparr>mkDisk := dk\<rparr>)))
      \<and> market_inv (m'\<lparr>mkDisk := dk\<rparr>) \<and> market_inv m'"
    if "back_up v n (s, m) = Inr (s', m')" for source' mf scan content s' m' dk
  proof -
    have b: "all_approved s'" "mkState m' = mkState m" using back_up_inv [OF that assms(2)] by auto
    have m': "market_inv m'" "market_inv (m'\<lparr>mkDisk := dk\<rparr>)" using assms(1) b(2) by (simp_all add: market_inv_def)
    show ?thesis using m' finish_install_inv [OF m'(2) b(1)] by blast
  qed
  then show ?thesis using assms(1)
    by (simp add: install_plugin_def Let_def split: option.split sum.split prod.split)
qed

lemma rollback_plugin_inv:
  assumes "market_inv m" and "all_approved s"
  shows "market_inv (snd (rollback_plugin v n version s m))"
proof (cases "map_of (mkInstalled s) n")
  case (Some p)
  then have p: "well_approved p" using assms(2) by (auto simp: all_approved_def dest: map_of_SomeD)
  have s: "all_approved (s\<lparr>mkInstalled := AList.update n (p\<lparr>ipHistory := h, ipVersion := a, ipPrevious := b\<rparr>) (mkInstalled s)\<rparr>)" for a b h
    by (rule all_approved_update [OF assms(2)]) (use p in \<open>simp_all add: well_approved_def\<close>)
  have m: "market_inv (m\<lparr>mkDisk := dk\<rparr>)" for dk using assms(1) by (simp add: market_inv_def)
  show ?thesis using assms(1) Some m save_state_inv [OF m s]
    by (simp add: rollback_plugin_def split: option.split)
qed (use assms(1) in \<open>simp add: rollback_plugin_def\<close>)

lemma activate_approved: "activate v tenant project s p = Inr p' \<Longrightarrow> well_approved p \<Longrightarrow> well_approved p'"
  by (auto simp: activate_def well_approved_def split: if_splits)

lemma approve_approved: "approve v subject p = Inr p' \<Longrightarrow> well_approved p \<Longrightarrow> well_approved p'"
  by (auto simp: approve_def well_approved_def)

lemma deactivate_approved: "well_approved p \<Longrightarrow> well_approved (deactivate tenant project p)"
  by (auto simp: deactivate_def well_approved_def split: option.splits)

text \<open>One operation of the marketplace: the environment, the caller and the action.\<close>

type_synonym market_event = "market_env \<times> string \<times> string \<times> string \<times> market_action"

definition market_step :: "market_event \<Rightarrow> market \<Rightarrow> market" where
  "market_step e m = (case e of (v, dir, tenant, subject, a) \<Rightarrow> snd (Mutate v dir tenant subject a m))"

lemma Mutate_inv:
  assumes "market_inv m"
  shows "market_inv (snd (Mutate v dir tenant subject a m))"
proof (cases "lifecycle_guard v a")
  case None
  define s where "s = with_default dir (mkState m)"
  have s: "all_approved s" using all_approved_default [OF assms] by (simp add: s_def)
  have sources: "all_approved (s\<lparr>mkSources := x\<rparr>)" for x using s by (simp add: all_approved_def)
  show ?thesis
  proof (cases a)
    case (SourceRegister i n p)
    then show ?thesis using None assms save_state_inv [OF assms sources]
      by (auto simp: Mutate_def Let_def register_source_def s_def [symmetric] split: sum.split)
  next
    case (SourceRemove i)
    then show ?thesis using None assms save_state_inv [OF assms sources]
      by (auto simp: Mutate_def Let_def remove_source_def s_def [symmetric])
  next
    case (ActivatePlugin n p)
    then show ?thesis using None change_plugin_inv [OF assms s, of "activate v tenant p s"] activate_approved
      by (simp add: Mutate_def Let_def s_def [symmetric])
  next
    case (DeactivatePlugin n p)
    then show ?thesis using None change_plugin_inv [OF assms s, of "\<lambda>q. Inr (deactivate tenant p q)"] deactivate_approved
      by (simp add: Mutate_def Let_def s_def [symmetric])
  next
    case (ApprovePlugin n)
    then show ?thesis using None change_plugin_inv [OF assms s, of "approve v subject"] approve_approved
      by (simp add: Mutate_def Let_def s_def [symmetric])
  next
    case (UninstallPlugin n)
    have "all_approved (s\<lparr>mkInstalled := AList.delete k (mkInstalled s)\<rparr>)" for k by (rule all_approved_delete [OF s]) simp
    moreover have "market_inv (m\<lparr>mkDisk := dk\<rparr>)" for dk using assms by (simp add: market_inv_def)
    ultimately show ?thesis using None UninstallPlugin assms save_state_inv
      by (simp add: Mutate_def Let_def s_def [symmetric] uninstall_plugin_def)
  qed (use None assms install_plugin_inv [OF assms s] rollback_plugin_inv [OF assms s] in \<open>simp_all add: Mutate_def Let_def s_def [symmetric]\<close>)
qed (use assms in \<open>simp add: Mutate_def Let_def\<close>)

interpretation marketplace: state_machine market_step market_inv
  by unfold_locales (auto simp: market_step_def Mutate_inv split: prod.split)

definition empty_market :: market where
  "empty_market = \<lparr>mkState = \<lparr>mkSources = [], mkInstalled = [], mkRegistry = \<lparr>rnKeyID = [], rnGeneratedAt = 0, rnEntries = [], rnSignature = []\<rparr>\<rparr>,
     mkDisk = (\<lambda>_. None), mkBackups = (\<lambda>_. None), mkArtifacts = (\<lambda>_. None)\<rparr>"

text \<open>C17: whatever operations run, with whatever failures: a plugin that is active for a tenant was activated for it, is approved, by somebody
  else than the one who requested it, if that one is known, and was requested less than a day ago.\<close>
theorem active_plugin_approved_by_another:
  assumes "MarketIsActive now tenant project name (mkState (fold market_step es empty_market)) = (True, True)"
  shows "\<exists>p. map_of (mkInstalled (mkState (fold market_step es empty_market))) name = Some p \<and> tenant \<in> set (ipTenants p)
    \<and> ipStatus p = ''approved'' \<and> (ipRequestedBy p = [] \<or> ipDecidedBy p \<noteq> ipRequestedBy p) \<and> now \<le> ipRequestedAt p + one_day"
proof -
  have inv: "market_inv (fold market_step es empty_market)"
    by (rule marketplace.run_inv) (simp add: market_inv_def empty_market_def)
  obtain p where p: "map_of (mkInstalled (mkState (fold market_step es empty_market))) name = Some p"
    using assms by (auto simp: MarketIsActive_def split: option.splits)
  moreover have "tenant \<in> set (ipTenants p)" "\<not> plugin_expired now p" "ipStatus p = ''approved''"
    using assms p by (auto simp: MarketIsActive_def Let_def split: if_splits)
  ultimately show ?thesis using inv_installed [OF inv p] by (auto simp: well_approved_def plugin_expired_def)
qed

subsection \<open>Directories and state\<close>

definition late_sites :: "market_site list" where
  "late_sites = [AtArchive, AtUpload, AtSign, AtApproval, AtSave]"

lemma back_up_succeeds:
  assumes "map_of (mkInstalled s) name = Some p" and "mkDisk m name \<noteq> None" and "\<not> mvFails v AtBackup"
  shows "\<exists>s' m1. back_up v name (s, m) = Inr (s', m1) \<and> mkState m1 = mkState m"
proof -
  obtain content where "mkDisk m name = Some content" using assms(2) by auto
  then show ?thesis using assms(1,3) by (cases "ipVersion p = []") (simp_all add: back_up_def Let_def)
qed

text \<open>An update that fails after the scan is answered with an error and changes nothing in the state, but the new directory stays: what
  was approved and active before goes on under its old approval with the new contents.\<close>
theorem failed_update_keeps_new_files:
  assumes "map_of (mkSources s) source = Some src" and "source \<noteq> []" and "admit_plugin v (soPath src) name = Inr (mf, content)"
    and "map_of (mkInstalled s) name = Some p" and "mkDisk m name \<noteq> None" and "mvScan v content = Inr scan"
    and "list_all (\<lambda>f. \<not> mvFails v f) [AtRoot, AtBackup, AtStaging, AtRename]" and "list_ex (mvFails v) late_sites"
  shows "\<exists>x m'. install_plugin v subject source name s m = (Some x, m') \<and> mkState m' = mkState m \<and> mkDisk m' name = Some content"
proof -
  obtain s' m1 where b: "back_up v name (s, m) = Inr (s', m1)" and m1: "mkState m1 = mkState m"
    using back_up_succeeds [OF assms(4,5), of v] assms(7) by fastforce
  have "\<exists>x m'. finish_install v subject source name mf scan content s' m2 = (Some x, m') \<and> mkState m' = mkState m2 \<and> mkDisk m' = mkDisk m2" for m2
    using assms(8) by (auto simp: late_sites_def finish_install_def save_state_def Let_def)
  from this [of "m1\<lparr>mkDisk := (mkDisk m1)(name \<mapsto> content)\<rparr>"] show ?thesis
    using assms(1-3,6,7) b m1 by (auto simp: install_plugin_def)
qed

text \<open>A rollback changes the version under the approval it finds.\<close>

lemma find_member: "find P xs = Some x \<Longrightarrow> x \<in> set xs"
  by (induction xs) (auto split: if_splits)

lemma rollback_target_in_history: "rollback_target version p = Some r \<Longrightarrow> r \<in> set (ipHistory p)"
  by (auto simp: rollback_target_def dest: find_member)

lemma rollback_keeps_approval:
  assumes "rollback_plugin v name version s m = (None, m')" and "map_of (mkInstalled s) name = Some p"
  shows "\<exists>p'. map_of (mkInstalled (mkState m')) name = Some p' \<and> ipStatus p' = ipStatus p \<and> ipTenants p' = ipTenants p
    \<and> (\<exists>r\<in>set (ipHistory p). ipVersion p' = qvVersion r)"
proof -
  obtain r where r: "rollback_target version p = Some r" using assms by (auto simp: rollback_plugin_def split: option.splits if_splits)
  then show ?thesis using assms rollback_target_in_history [OF r]
    by (auto simp: rollback_plugin_def save_state_def update_conv split: option.splits if_splits)
qed

text \<open>Activating a project of one tenant switches the plugin off in every project of the other tenants.\<close>

lemma project_activation_interferes:
  assumes "activate v a project s p = Inr p'" and "project \<noteq> []" and "a \<noteq> b" and "ipProjects p = []" and "project' \<noteq> []"
    and "map_of (mkInstalled s') name = Some p'"
  shows "snd (MarketIsActive now b project' name s') = False"
  using assms by (auto simp: activate_def MarketIsActive_def projects_of_def Let_def split: option.splits)

subsection \<open>A run\<close>

definition sample_manifest :: plugin_manifest where
  "sample_manifest = \<lparr>mfName = ''fmt'', mfVersion = ''1.0'', mfProtocol = [], mfTransport = [], mfSocket = [], mfBinary = [], mfCapabilities = [],
     mfDependencies = [], mfConflicts = [], mfRisk = [], mfSHA = [], mfSignature = [], mfPublicKey = [], mfMinVersion = [], mfMaxVersion = [], mfLimits = []\<rparr>"

definition sample_plugin_lib :: plugin_lib where
  "sample_plugin_lib = \<lparr>vlText = plain_text, vlName = (\<lambda>_. True), vlStays = (\<lambda>_. True), vlOpen = None, vlStat = (\<lambda>_. Inr (False, True)),
     vlSandbox = (\<lambda>_. None), vlDigest = (\<lambda>x. Inr x), vlKey = (\<lambda>_. None), vlSig = (\<lambda>_. None), vlVerify = (\<lambda>_ _ _. False)\<rparr>"

definition sample_market_env :: "int \<Rightarrow> (market_site \<Rightarrow> bool) \<Rightarrow> market_env" where
  "sample_market_env now fails = \<lparr>mvNow = now, mvID = ''a1'', mvText = plain_text, mvSafeName = (\<lambda>_. True), mvPath = (\<lambda>p. Inr p),
     mvManifest = (\<lambda>p n. Inr (sample_manifest, ''new code'')), mvPlugin = (\<lambda>p n. sample_plugin_lib),
     mvOptions = Inr \<lparr>opRequireSignature = False, opRequireHash = False, opVersion = [], opTrusted = []\<rparr>,
     mvAvailable = (\<lambda>p. Inr [sample_entry ''fmt'' ''1.0'' [] []]), mvScan = (\<lambda>c. Inr \<lparr>srStatuses = [], srFindings = []\<rparr>), mvArchive = (\<lambda>c. c),
     mvDirSHA = (\<lambda>c. []), mvHash = (\<lambda>c. c), mvKeys = (\<lambda>x. x), mvQuota = None, mvFails = fails\<rparr>"

definition sample_market_run :: "market_event list" where
  "sample_market_run = map (\<lambda>(who, a). (sample_market_env 5 (\<lambda>_. False), ''plugins'', ''t1'', who, a))
     [(''ann'', InstallPlugin ''fmt'' []), (''ann'', ApprovePlugin ''fmt''), (''bob'', ApprovePlugin ''fmt''), (''ann'', ActivatePlugin ''fmt'' [])]"

theorem active_plugin_approved_by_another_witness:
  "\<exists>p. map_of (mkInstalled (mkState (fold market_step sample_market_run empty_market))) ''fmt'' = Some p
     \<and> ipStatus p = ''approved'' \<and> (ipRequestedBy p = [] \<or> ipDecidedBy p \<noteq> ipRequestedBy p)"
proof -
  have "MarketIsActive 6 ''t1'' [] ''fmt'' (mkState (fold market_step sample_market_run empty_market)) = (True, True)" by code_simp
  from active_plugin_approved_by_another [OF this] show ?thesis by blast
qed

definition sample_market :: market where
  "sample_market = empty_market\<lparr>mkState := \<lparr>mkSources = [(''local'', \<lparr>soName = [], soPath = ''plugins''\<rparr>)],
     mkInstalled = [(''fmt'', not_installed\<lparr>ipVersion := ''0.9'', ipStatus := ''approved''\<rparr>)],
     mkRegistry = \<lparr>rnKeyID = [], rnGeneratedAt = 0, rnEntries = [], rnSignature = []\<rparr>\<rparr>, mkDisk := [''fmt'' \<mapsto> ''old code'']\<rparr>"

theorem failed_update_keeps_new_files_witness:
  "\<exists>x m'. install_plugin (sample_market_env 5 (\<lambda>f. f = AtUpload)) ''eve'' ''local'' ''fmt'' (mkState sample_market) sample_market = (Some x, m')
     \<and> mkState m' = mkState sample_market \<and> mkDisk m' ''fmt'' = Some ''new code''"
proof (rule failed_update_keeps_new_files)
  show "map_of (mkSources (mkState sample_market)) ''local'' = Some \<lparr>soName = [], soPath = ''plugins''\<rparr>" by code_simp
  show "map_of (mkInstalled (mkState sample_market)) ''fmt'' = Some (not_installed\<lparr>ipVersion := ''0.9'', ipStatus := ''approved''\<rparr>)"
    by (simp add: sample_market_def)
  show "admit_plugin (sample_market_env 5 (\<lambda>f. f = AtUpload)) (soPath \<lparr>soName = [], soPath = ''plugins''\<rparr>) ''fmt'' = Inr (sample_manifest, ''new code'')"
    by code_simp
  show "mvScan (sample_market_env 5 (\<lambda>f. f = AtUpload)) ''new code'' = Inr \<lparr>srStatuses = [], srFindings = []\<rparr>" by code_simp
qed (simp_all add: sample_market_def sample_market_env_def late_sites_def)

end
