(* ===== verification/ExperimentTables.thy ===== *)
theory ExperimentTables
  imports Experiment
begin

text \<open>
  The durable ledger of experiments: the tables of the SQLite store (\<open>internal/store/store.go\<close>) and the adapter that makes
  an experiment store of them (\<open>internal/performance/experiment_sqlite.go\<close>). The database has one connection, so its
  transactions run one after the other; one that is neither committed nor rolled back keeps the connection until the context of its
  call ends, and whoever needs the connection meanwhile waits. JSON is an argument, as is whether a statement of a
  call fails, in which case its transaction is rolled back.
\<close>

subsection \<open>Tables\<close>

record experiment_row =
  erTenant :: string
  erState :: experiment_state
  erMaxExecutions :: int
  erMaxConcurrent :: int
  erReserved :: int
  erConsumed :: int
  erReleased :: int
  erExecuted :: int
  erPayload :: string
  erUpdatedAt :: int

datatype reservation_status = RowReserved | RowConsumed | RowReleased

record experiment_tables =
  exRows :: "(string \<times> experiment_row) list"
  exReservations :: "((string \<times> string) \<times> reservation_status) list"
  exAdmissions :: "((string \<times> string) \<times> string) list"
  exAudit :: "experiment_audit list"
  exHeld :: bool

definition no_experiments :: experiment_tables where
  "no_experiments = \<lparr>exRows = [], exReservations = [], exAdmissions = [], exAudit = [], exHeld = False\<rparr>"

datatype table_error =
    StatementFailed
  | NoRows
  | ReservationNotFound string string
  | DecodeFailed
  | EncodeFailed
  | AdapterError experiment_error
  | DefinitionInvalid msg

text \<open>A call gives an answer and the tables after it, or does not return while the connection is held.\<close>

definition on_connection :: "bool \<Rightarrow> experiment_tables \<Rightarrow> (table_error + 'a) \<times> experiment_tables \<Rightarrow> ((table_error + 'a) \<times> experiment_tables) option" where
  "on_connection fails t r = (if exHeld t then None else if fails then Some (Inl StatementFailed, t) else Some r)"

subsection \<open>The store\<close>

definition SaveExperimentRow :: "bool \<Rightarrow> string \<Rightarrow> experiment_row \<Rightarrow> experiment_tables \<Rightarrow> ((table_error + unit) \<times> experiment_tables) option" where
  "SaveExperimentRow fails i r t = on_connection fails t (Inr (), t\<lparr>exRows := AList.update i r (exRows t)\<rparr>)"

definition GetExperimentRow :: "bool \<Rightarrow> string \<Rightarrow> experiment_tables \<Rightarrow> ((table_error + experiment_row) \<times> experiment_tables) option" where
  "GetExperimentRow fails i t =
     on_connection fails t (case map_of (exRows t) i of None \<Rightarrow> (Inl NoRows, t) | Some r \<Rightarrow> (Inr r, t))"

definition row_closed :: "experiment_row \<Rightarrow> bool" where
  "row_closed r \<longleftrightarrow> erState r \<noteq> ExperimentEnabled
     \<or> erMaxExecutions r > 0 \<and> erConsumed r + erReserved r \<ge> erMaxExecutions r
     \<or> erMaxConcurrent r > 0 \<and> erReserved r \<ge> erMaxConcurrent r"

text \<open>A refusal returns without an error, so nothing ends its transaction.\<close>

definition ReserveExperiment :: "bool \<Rightarrow> string \<Rightarrow> string \<Rightarrow> int \<Rightarrow> experiment_tables \<Rightarrow> ((table_error + bool) \<times> experiment_tables) option" where
  "ReserveExperiment fails i did now t =
     on_connection fails t
       (case map_of (exRows t) i of
          None \<Rightarrow> (Inl NoRows, t)
        | Some r \<Rightarrow>
            if row_closed r then (Inr False, t\<lparr>exHeld := True\<rparr>)
            else if map_of (exReservations t) (i, did) \<noteq> None then (Inr True, t)
            else (Inr True, t\<lparr>exReservations := exReservations t @ [((i, did), RowReserved)],
                    exRows := AList.map_entry i (\<lambda>r. r\<lparr>erReserved := erReserved r + 1, erUpdatedAt := now\<rparr>) (exRows t)\<rparr>))"

definition less_one :: "int \<Rightarrow> int" where
  "less_one n = (if n > 0 then n - 1 else 0)"

definition move_reservation :: "string \<Rightarrow> string \<Rightarrow> reservation_status \<Rightarrow> (experiment_row \<Rightarrow> experiment_row) \<Rightarrow> experiment_tables \<Rightarrow> experiment_tables" where
  "move_reservation i did s f t =
     t\<lparr>exReservations := AList.map_entry (i, did) (\<lambda>_. s) (exReservations t), exRows := AList.map_entry i f (exRows t)\<rparr>"

definition ReleaseExperiment :: "bool \<Rightarrow> string \<Rightarrow> string \<Rightarrow> int \<Rightarrow> experiment_tables \<Rightarrow> ((table_error + unit) \<times> experiment_tables) option" where
  "ReleaseExperiment fails i did now t =
     on_connection fails t (Inr (),
       if map_of (exReservations t) (i, did) = Some RowReserved
       then move_reservation i did RowReleased
              (\<lambda>r. r\<lparr>erReserved := less_one (erReserved r), erReleased := erReleased r + 1, erUpdatedAt := now\<rparr>) t
       else t)"

text \<open>The error for a missing reservation is not the one the rollback looks at.\<close>

definition ConsumeExperiment :: "bool \<Rightarrow> string \<Rightarrow> string \<Rightarrow> int \<Rightarrow> experiment_tables \<Rightarrow> ((table_error + unit) \<times> experiment_tables) option" where
  "ConsumeExperiment fails i did now t =
     on_connection fails t
       (if map_of (exReservations t) (i, did) = Some RowReserved
        then (Inr (), move_reservation i did RowConsumed
               (\<lambda>r. r\<lparr>erReserved := less_one (erReserved r), erConsumed := erConsumed r + 1, erExecuted := erExecuted r + 1, erUpdatedAt := now\<rparr>) t)
        else (Inl (ReservationNotFound i did), t\<lparr>exHeld := True\<rparr>))"

text \<open>Admissions and audit entries need a row of their experiment.\<close>

definition SaveExperimentAdmission :: "bool \<Rightarrow> string \<Rightarrow> string \<Rightarrow> string \<Rightarrow> experiment_tables \<Rightarrow> ((table_error + unit) \<times> experiment_tables) option" where
  "SaveExperimentAdmission fails i did payload t =
     on_connection (fails \<or> map_of (exRows t) i = None) t (Inr (), t\<lparr>exAdmissions := AList.update (i, did) payload (exAdmissions t)\<rparr>)"

definition GetExperimentAdmission :: "bool \<Rightarrow> string \<Rightarrow> string \<Rightarrow> experiment_tables \<Rightarrow> ((table_error + string) \<times> experiment_tables) option" where
  "GetExperimentAdmission fails i did t =
     on_connection fails t (case map_of (exAdmissions t) (i, did) of None \<Rightarrow> (Inl NoRows, t) | Some p \<Rightarrow> (Inr p, t))"

definition SaveExperimentAudit :: "bool \<Rightarrow> experiment_audit \<Rightarrow> experiment_tables \<Rightarrow> ((table_error + unit) \<times> experiment_tables) option" where
  "SaveExperimentAudit fails u t =
     on_connection (fails \<or> map_of (exRows t) (xuExperimentID u) = None) t (Inr (), t\<lparr>exAudit := exAudit t @ [u]\<rparr>)"

text \<open>The limits are not read and not written by an update of the row; an error of the change rolls back.\<close>

definition UpdateExperiment ::
  "bool \<Rightarrow> string \<Rightarrow> (experiment_row \<Rightarrow> table_error + experiment_row) \<Rightarrow> experiment_tables \<Rightarrow> ((table_error + unit) \<times> experiment_tables) option" where
  "UpdateExperiment fails i mutate t =
     on_connection fails t
       (case map_of (exRows t) i of
          None \<Rightarrow> (Inl NoRows, t)
        | Some r \<Rightarrow>
            (case mutate r of
               Inl e \<Rightarrow> (Inl e, t)
             | Inr u \<Rightarrow> (Inr (), t\<lparr>exRows := AList.map_entry i (\<lambda>r. r\<lparr>erState := erState u, erReserved := erReserved u, erConsumed := erConsumed u,
                 erReleased := erReleased u, erExecuted := erExecuted u, erPayload := erPayload u, erUpdatedAt := erUpdatedAt u\<rparr>) (exRows t)\<rparr>)))"

subsection \<open>The adapter\<close>

record experiment_json =
  ejEncode :: "experiment_data \<Rightarrow> string option"
  ejDecode :: "string \<Rightarrow> experiment_data option"
  ejEncodeAdmission :: "admission \<Rightarrow> string option"
  ejDecodeAdmission :: "string \<Rightarrow> admission option"

definition row_of :: "string \<Rightarrow> experiment_data \<Rightarrow> experiment_row" where
  "row_of payload e =
     \<lparr>erTenant = xdTenant (xpDef e), erState = xpState e, erMaxExecutions = xdMaxExecutions (xpDef e), erMaxConcurrent = xdMaxConcurrent (xpDef e),
      erReserved = xpReserved e, erConsumed = xpConsumed e, erReleased = xpReleased e, erExecuted = xpExecuted e,
      erPayload = payload, erUpdatedAt = xpUpdatedAt e\<rparr>"

text \<open>The columns of the ledger win over their copies in the payload.\<close>

definition with_columns :: "experiment_row \<Rightarrow> experiment_data \<Rightarrow> experiment_data" where
  "with_columns r e = e\<lparr>xpState := erState r, xpReserved := erReserved r, xpConsumed := erConsumed r, xpReleased := erReleased r,
     xpExecuted := erExecuted r\<rparr>"

text \<open>Whether an experiment exists is asked before it is saved, in a call of its own; any error of that call counts as no.\<close>

definition durable_create :: "experiment_json \<Rightarrow> bool \<Rightarrow> bool \<Rightarrow> experiment_data \<Rightarrow> experiment_tables \<Rightarrow> ((table_error + unit) \<times> experiment_tables) option" where
  "durable_create j readFails fails e t =
     (case ValidateDefinition (xpDef e) of
        Some m \<Rightarrow> Some (Inl (DefinitionInvalid m), t)
      | None \<Rightarrow>
          (case ejEncode j e of
             None \<Rightarrow> Some (Inl EncodeFailed, t)
           | Some payload \<Rightarrow>
               (case GetExperimentRow readFails (xdID (xpDef e)) t of
                  None \<Rightarrow> None
                | Some (Inr _, t) \<Rightarrow> Some (Inl (AdapterError ErrExperimentConflict), t)
                | Some (Inl _, t) \<Rightarrow> SaveExperimentRow fails (xdID (xpDef e)) (row_of payload e) t)))"

definition durable_get :: "experiment_json \<Rightarrow> bool \<Rightarrow> string \<Rightarrow> experiment_tables \<Rightarrow> ((table_error + experiment_data) \<times> experiment_tables) option" where
  "durable_get j fails i t =
     (case GetExperimentRow fails i t of
        None \<Rightarrow> None
      | Some (Inl _, t) \<Rightarrow> Some (Inl (AdapterError ErrExperimentNotFound), t)
      | Some (Inr r, t) \<Rightarrow>
          (case ejDecode j (erPayload r) of
             None \<Rightarrow> Some (Inl DecodeFailed, t)
           | Some e \<Rightarrow> Some (Inr ((with_columns r e)\<lparr>xpUpdatedAt := erUpdatedAt r\<rparr>), t)))"

definition durable_save :: "experiment_json \<Rightarrow> bool \<Rightarrow> experiment_data \<Rightarrow> experiment_tables \<Rightarrow> ((table_error + unit) \<times> experiment_tables) option" where
  "durable_save j fails e t =
     (case ejEncode j e of
        None \<Rightarrow> Some (Inl EncodeFailed, t)
      | Some payload \<Rightarrow> SaveExperimentRow fails (xdID (xpDef e)) (row_of payload e) t)"

definition durable_save_admission :: "experiment_json \<Rightarrow> bool \<Rightarrow> admission \<Rightarrow> experiment_tables \<Rightarrow> ((table_error + unit) \<times> experiment_tables) option" where
  "durable_save_admission j fails a t =
     (case ejEncodeAdmission j a of
        None \<Rightarrow> Some (Inl EncodeFailed, t)
      | Some payload \<Rightarrow> SaveExperimentAdmission fails (xaExperimentID a) (xaDecisionID a) payload t)"

definition durable_get_admission :: "experiment_json \<Rightarrow> bool \<Rightarrow> string \<Rightarrow> string \<Rightarrow> experiment_tables \<Rightarrow> ((table_error + admission) \<times> experiment_tables) option" where
  "durable_get_admission j fails i did t =
     (case GetExperimentAdmission fails i did t of
        None \<Rightarrow> None
      | Some (Inl _, t) \<Rightarrow> Some (Inl (AdapterError ErrExperimentNotFound), t)
      | Some (Inr p, t) \<Rightarrow> (case ejDecodeAdmission j p of None \<Rightarrow> Some (Inl DecodeFailed, t) | Some a \<Rightarrow> Some (Inr a, t)))"

definition summary_change :: "experiment_json \<Rightarrow> (experiment_data \<Rightarrow> experiment_data) \<Rightarrow> experiment_row \<Rightarrow> table_error + experiment_row" where
  "summary_change j f r =
     (case ejDecode j (erPayload r) of
        None \<Rightarrow> Inl DecodeFailed
      | Some e \<Rightarrow>
          let e = f (with_columns r e) in
          (case ejEncode j e of
             None \<Rightarrow> Inl EncodeFailed
           | Some payload \<Rightarrow>
               Inr (r\<lparr>erState := xpState e, erReserved := xpReserved e, erConsumed := xpConsumed e, erReleased := xpReleased e,
                      erExecuted := xpExecuted e, erPayload := payload, erUpdatedAt := xpUpdatedAt e\<rparr>)))"

definition durable_update_summary ::
  "experiment_json \<Rightarrow> bool \<Rightarrow> string \<Rightarrow> (experiment_data \<Rightarrow> experiment_data) \<Rightarrow> experiment_tables \<Rightarrow> ((table_error + unit) \<times> experiment_tables) option" where
  "durable_update_summary j fails i f t = UpdateExperiment fails i (summary_change j f) t"

subsection \<open>Runs\<close>

text \<open>The calls the control plane makes once its experiments are stored, in any order, and the end of the context of a call. A call
  that does not return changes nothing.\<close>

datatype table_action =
    LReserve bool string string int
  | LRelease bool string string int
  | LConsume bool string string int
  | LCount bool string counter_update int
  | LAdmission bool admission
  | LAudit bool experiment_audit
  | LCreate bool bool experiment_data
  | LContextEnds

definition after_call :: "experiment_tables \<Rightarrow> ('a \<times> experiment_tables) option \<Rightarrow> experiment_tables" where
  "after_call t r = (case r of None \<Rightarrow> t | Some (_, t') \<Rightarrow> t')"

fun table_step :: "experiment_json \<Rightarrow> table_action \<Rightarrow> experiment_tables \<Rightarrow> experiment_tables" where
  "table_step j (LReserve fails i did now) t = after_call t (ReserveExperiment fails i did now t)"
| "table_step j (LRelease fails i did now) t = after_call t (ReleaseExperiment fails i did now t)"
| "table_step j (LConsume fails i did now) t = after_call t (ConsumeExperiment fails i did now t)"
| "table_step j (LCount fails i c now) t = after_call t (durable_update_summary j fails i (\<lambda>e. (apply_count c e)\<lparr>xpUpdatedAt := now\<rparr>) t)"
| "table_step j (LAdmission fails a) t = after_call t (durable_save_admission j fails a t)"
| "table_step j (LAudit fails u) t = after_call t (SaveExperimentAudit fails u t)"
| "table_step j (LCreate readFails fails e) t = after_call t (durable_create j readFails fails e t)"
| "table_step j LContextEnds t = t\<lparr>exHeld := False\<rparr>"

end
