(* ===== verification/ExperimentTableProps.thy ===== *)
theory ExperimentTableProps
  imports ExperimentTables
begin

text \<open>
  What the durable ledger guarantees: its columns count the reservations and stay within the limits; and what it does
  not: a refused reservation keeps the connection.
\<close>

subsection \<open>Counting reservations\<close>

definition status_count :: "string \<Rightarrow> reservation_status \<Rightarrow> ((string \<times> string) \<times> reservation_status) list \<Rightarrow> nat" where
  "status_count i s rs = length (filter (\<lambda>((e, _), x). e = i \<and> x = s) rs)"

lemma status_count_append [simp]:
  "status_count j s (rs @ [((i, d), x)]) = status_count j s rs + (if i = j \<and> x = s then 1 else 0)"
  by (simp add: status_count_def)

lemma status_count_move:
  "map_of rs (i, d) = Some x \<Longrightarrow>
   status_count j s (AList.map_entry (i, d) (\<lambda>_. y) rs) + (if j = i \<and> s = x then 1 else 0)
   = status_count j s rs + (if j = i \<and> s = y then 1 else 0)"
  by (induction rs) (auto simp: status_count_def split: if_splits)

lemma status_count_pos: "map_of rs (i, d) = Some x \<Longrightarrow> status_count i x rs > 0"
  by (induction rs) (auto simp: status_count_def split: if_splits)

text \<open>The columns of a row count its reservations by status, executions are the consumed ones, and the limits hold.\<close>

definition row_balanced :: "((string \<times> string) \<times> reservation_status) list \<Rightarrow> string \<Rightarrow> experiment_row \<Rightarrow> bool" where
  "row_balanced rs i r \<longleftrightarrow> erReserved r = int (status_count i RowReserved rs) \<and> erConsumed r = int (status_count i RowConsumed rs)
     \<and> erReleased r = int (status_count i RowReleased rs) \<and> erExecuted r = erConsumed r
     \<and> (erMaxExecutions r > 0 \<longrightarrow> erConsumed r + erReserved r \<le> erMaxExecutions r)
     \<and> (erMaxConcurrent r > 0 \<longrightarrow> erReserved r \<le> erMaxConcurrent r)"

definition tables_balanced :: "experiment_tables \<Rightarrow> bool" where
  "tables_balanced t \<longleftrightarrow> (\<forall>k\<in>fst ` set (exReservations t). map_of (exRows t) (fst k) \<noteq> None)
     \<and> (\<forall>i r. map_of (exRows t) i = Some r \<longrightarrow> row_balanced (exReservations t) i r)"

lemma tables_balanced_frame:
  "exRows t' = exRows t \<Longrightarrow> exReservations t' = exReservations t \<Longrightarrow> tables_balanced t' = tables_balanced t"
  by (simp add: tables_balanced_def)

lemma balanced_row: "tables_balanced t \<Longrightarrow> map_of (exRows t) i = Some r \<Longrightarrow> row_balanced (exReservations t) i r"
  by (simp add: tables_balanced_def)

lemma move_balanced:
  assumes bal: "tables_balanced t" and res: "map_of (exReservations t) (i, did) = Some RowReserved" and "s = RowConsumed \<or> s = RowReleased"
    and f: "\<And>r. erReserved (f r) = less_one (erReserved r)" "\<And>r. erConsumed (f r) = erConsumed r + (if s = RowConsumed then 1 else 0)"
      "\<And>r. erReleased (f r) = erReleased r + (if s = RowReleased then 1 else 0)"
      "\<And>r. erExecuted (f r) = erExecuted r + (if s = RowConsumed then 1 else 0)"
      "\<And>r. erMaxExecutions (f r) = erMaxExecutions r" "\<And>r. erMaxConcurrent (f r) = erMaxConcurrent r"
  shows "tables_balanced (move_reservation i did s f t)"
proof -
  let ?rs = "AList.map_entry (i, did) (\<lambda>_. s) (exReservations t)"
  note mv = status_count_move [OF res, where y = s] and pos = status_count_pos [OF res]
  have "row_balanced ?rs j r'" if r': "map_of (AList.map_entry i f (exRows t)) j = Some r'" for j r'
  proof (cases "j = i")
    case True
    then obtain r where r: "map_of (exRows t) i = Some r" "r' = f r"
      using r' by (auto simp: AList.map_of_map_entry split: option.splits)
    then have b: "row_balanced (exReservations t) i r" using bal by (simp add: tables_balanced_def)
    have "erReserved r > 0" using b pos by (simp add: row_balanced_def)
    then show ?thesis
      using b assms(3) mv [of i RowReserved] mv [of i RowConsumed] mv [of i RowReleased] True r(2)
      by (auto simp: row_balanced_def f less_one_def)
  next
    case False
    then have "row_balanced (exReservations t) j r'" using r' bal by (auto simp: AList.map_of_map_entry tables_balanced_def split: if_splits)
    then show ?thesis using mv [of j] False by (auto simp: row_balanced_def)
  qed
  moreover have "\<forall>k\<in>fst ` set ?rs. map_of (AList.map_entry i f (exRows t)) (fst k) \<noteq> None"
    using bal by (auto simp: AList.dom_map_entry AList.map_of_map_entry tables_balanced_def split: option.splits)
  ultimately show ?thesis by (simp add: tables_balanced_def move_reservation_def)
qed

lemma reserve_balanced:
  assumes bal: "tables_balanced t" and r: "map_of (exRows t) i = Some r" and open_row: "\<not> row_closed r"
  shows "tables_balanced (t\<lparr>exReservations := exReservations t @ [((i, did), RowReserved)],
    exRows := AList.map_entry i (\<lambda>r. r\<lparr>erReserved := erReserved r + 1, erUpdatedAt := now\<rparr>) (exRows t)\<rparr>)"
proof -
  have "row_balanced (exReservations t) i r" using bal r by (simp add: tables_balanced_def)
  then have "row_balanced (exReservations t @ [((i, did), RowReserved)]) i (r\<lparr>erReserved := erReserved r + 1, erUpdatedAt := now\<rparr>)"
    using open_row by (auto simp: row_balanced_def row_closed_def)
  moreover have "row_balanced (exReservations t @ [((i, did), RowReserved)]) j x" if "j \<noteq> i" "map_of (exRows t) j = Some x" for j x
    using balanced_row [OF bal that(2)] that(1) by (auto simp: row_balanced_def)
  ultimately show ?thesis
    using bal r by (auto simp: tables_balanced_def AList.map_of_map_entry split: option.splits if_splits)
qed

lemma summary_balanced:
  assumes bal: "tables_balanced t" and r: "map_of (exRows t) i = Some r" and u: "summary_change j f r = Inr u"
    and f: "\<And>e. xpReserved (f e) = xpReserved e" "\<And>e. xpConsumed (f e) = xpConsumed e"
      "\<And>e. xpReleased (f e) = xpReleased e" "\<And>e. xpExecuted (f e) = xpExecuted e"
  shows "tables_balanced (t\<lparr>exRows := AList.map_entry i (\<lambda>r. r\<lparr>erState := erState u, erReserved := erReserved u, erConsumed := erConsumed u,
    erReleased := erReleased u, erExecuted := erExecuted u, erPayload := erPayload u, erUpdatedAt := erUpdatedAt u\<rparr>) (exRows t)\<rparr>)"
proof -
  have "erReserved u = erReserved r \<and> erConsumed u = erConsumed r \<and> erReleased u = erReleased r \<and> erExecuted u = erExecuted r"
    using u by (auto simp: summary_change_def Let_def f with_columns_def split: option.splits)
  then have "row_balanced (exReservations t) i (r\<lparr>erState := erState u, erReserved := erReserved u, erConsumed := erConsumed u,
    erReleased := erReleased u, erExecuted := erExecuted u, erPayload := erPayload u, erUpdatedAt := erUpdatedAt u\<rparr>)"
    using balanced_row [OF bal r] by (auto simp: row_balanced_def)
  then show ?thesis
    using bal r by (auto simp: tables_balanced_def AList.map_of_map_entry split: option.splits if_splits)
qed

text \<open>A creation that found out whether the experiment exists, of an experiment nothing has been reserved for.\<close>

definition sound_create :: "table_action \<Rightarrow> bool" where
  "sound_create a = (case a of
       LCreate readFails _ e \<Rightarrow> \<not> readFails \<and> xpReserved e = 0 \<and> xpConsumed e = 0 \<and> xpReleased e = 0 \<and> xpExecuted e = 0
     | _ \<Rightarrow> True)"

lemma create_balanced:
  assumes bal: "tables_balanced t" and new: "map_of (exRows t) (xdID (xpDef e)) = None" and "sound_create (LCreate False fails e)"
  shows "tables_balanced (t\<lparr>exRows := AList.update (xdID (xpDef e)) (row_of payload e) (exRows t)\<rparr>)"
proof -
  have "filter (\<lambda>((x, _), y). x = xdID (xpDef e) \<and> y = s) (exReservations t) = []" for s
    using bal new by (fastforce simp: filter_empty_conv tables_balanced_def)
  then have "row_balanced (exReservations t) (xdID (xpDef e)) (row_of payload e)"
    using assms(3) by (simp add: row_balanced_def row_of_def status_count_def sound_create_def)
  then show ?thesis using bal by (auto simp: tables_balanced_def update_conv')
qed

lemma on_connection_after:
  "after_call t (on_connection fails t r) = t \<or> after_call t (on_connection fails t r) = snd r"
  by (auto simp: on_connection_def after_call_def split: prod.splits)

lemma table_step_balanced:
  assumes bal: "tables_balanced t" and "sound_create a"
  shows "tables_balanced (table_step j a t)"
proof (cases a)
  case (LReserve fails i did now)
  then show ?thesis
    using bal on_connection_after [of t fails] reserve_balanced [OF bal]
    by (auto simp: ReserveExperiment_def on_connection_def after_call_def tables_balanced_frame [of "t\<lparr>exHeld := True\<rparr>" t] split: option.splits)
next
  case (LRelease fails i did now)
  then show ?thesis
    using bal move_balanced [OF bal, of i did RowReleased]
    by (auto simp: ReleaseExperiment_def on_connection_def after_call_def)
next
  case (LConsume fails i did now)
  then show ?thesis
    using bal move_balanced [OF bal, of i did RowConsumed]
    by (auto simp: ConsumeExperiment_def on_connection_def after_call_def tables_balanced_frame [of "t\<lparr>exHeld := True\<rparr>" t])
next
  case (LCount fails i c now)
  have f: "xpReserved ((apply_count c e)\<lparr>xpUpdatedAt := now\<rparr>) = xpReserved e" "xpConsumed ((apply_count c e)\<lparr>xpUpdatedAt := now\<rparr>) = xpConsumed e"
    "xpReleased ((apply_count c e)\<lparr>xpUpdatedAt := now\<rparr>) = xpReleased e" "xpExecuted ((apply_count c e)\<lparr>xpUpdatedAt := now\<rparr>) = xpExecuted e" for e
    by (simp_all add: apply_count_frame)
  show ?thesis
    using LCount bal summary_balanced [OF bal _ _ f, of i]
    by (auto simp: durable_update_summary_def UpdateExperiment_def on_connection_def after_call_def split: option.splits sum.splits)
next
  case (LAdmission fails x)
  then show ?thesis using bal
    by (auto simp: durable_save_admission_def SaveExperimentAdmission_def on_connection_def after_call_def tables_balanced_def split: option.splits)
next
  case (LAudit fails x)
  then show ?thesis using bal by (auto simp: SaveExperimentAudit_def on_connection_def after_call_def tables_balanced_def)
next
  case (LCreate readFails fails e)
  then show ?thesis
    using bal assms(2) create_balanced [OF bal, of e fails]
    by (auto simp: durable_create_def GetExperimentRow_def SaveExperimentRow_def on_connection_def after_call_def sound_create_def
        split: option.splits)
next
  case LContextEnds
  then show ?thesis using bal by (simp add: tables_balanced_def)
qed

lemma ledger_run_balanced:
  "tables_balanced t \<Longrightarrow> list_all sound_create es \<Longrightarrow> tables_balanced (fold (table_step j) es t)"
  by (induction es arbitrary: t) (auto simp: table_step_balanced)

text \<open>C36: the durable ledger of experiments balances: whatever experiments are created and whatever is reserved, released,
  consumed, counted, recorded and refused in whatever order, with whatever failing statements and waiting calls, the columns of an
  experiment are the numbers of its live, consumed and released reservations, consumed and live ones together stay within
  \<open>MaxExecutions\<close> and live ones within \<open>MaxConcurrent\<close>; provided that no failing read made a creation overwrite a stored experiment.\<close>
theorem durable_ledger_balances:
  assumes "list_all sound_create es" and "map_of (exRows (fold (table_step j) es no_experiments)) i = Some r"
  shows "row_balanced (exReservations (fold (table_step j) es no_experiments)) i r"
proof -
  have "tables_balanced no_experiments" by (simp add: tables_balanced_def no_experiments_def)
  from ledger_run_balanced [OF this assms(1), of j] show ?thesis using assms(2) by (simp add: tables_balanced_def)
qed

definition sample_json :: experiment_json where
  "sample_json = \<lparr>ejEncode = (\<lambda>_. Some ''{}''), ejDecode = (\<lambda>_. None), ejEncodeAdmission = (\<lambda>_. Some []), ejDecodeAdmission = (\<lambda>_. None)\<rparr>"

definition sample_trial :: experiment_data where
  "sample_trial = \<lparr>xpDef = \<lparr>xdID = ''exp'', xdTenant = ''acme'', xdTaskClass = [], xdRisk = [],
       xdChampionPolicy = \<lparr>rpID = [], rpVersion = [], rpSemantics = [], rpFingerprint = [], rpScheme = []\<rparr>,
       xdChallengerPolicy = \<lparr>rpID = [], rpVersion = [], rpSemantics = [], rpFingerprint = [], rpScheme = []\<rparr>,
       xdChallenger = ''bob'', xdMaxExecutions = 2, xdMaxConcurrent = 1, xdPercent = 100, xdSemantics = [], xdStopAfter = 1,
       xdMaxFailures = 0, xdCreatedAt = 0\<rparr>,
     xpState = ExperimentEnabled, xpExecuted = 0, xpReserved = 0, xpConsumed = 0, xpReleased = 0, xpUpdatedAt = 0, xpEligible = 0,
     xpChampionRouted = 0, xpCompleted = 0, xpFailed = 0, xpTimedOut = 0, xpVerified = 0, xpRejected = 0, xpContested = 0,
     xpMissing = 0, xpTotalFailures = 0\<rparr>"

definition sample_calls :: "table_action list" where
  "sample_calls = [LCreate False False sample_trial, LReserve False ''exp'' ''d1'' 1, LConsume False ''exp'' ''d1'' 2,
     LReserve False ''exp'' ''d2'' 3, LRelease False ''exp'' ''d2'' 4, LReserve False ''exp'' ''d3'' 5,
     LReserve False ''exp'' ''d4'' 6, LConsume False ''exp'' ''d3'' 7]"

abbreviation sample_tables :: experiment_tables where
  "sample_tables \<equiv> fold (table_step sample_json) sample_calls no_experiments"

theorem durable_ledger_balances_witness:
  "\<exists>r. map_of (exRows sample_tables) ''exp'' = Some r \<and> row_balanced (exReservations sample_tables) ''exp'' r
     \<and> erConsumed r = 1 \<and> erReserved r = 1 \<and> erReleased r = 1 \<and> erMaxExecutions r = 2"
proof -
  have ok: "list_all sound_create sample_calls" by code_simp
  have "map_option (\<lambda>r. (erConsumed r, erReserved r, erReleased r, erMaxExecutions r)) (map_of (exRows sample_tables) ''exp'') = Some (1, 1, 1, 2)"
    by code_simp
  then obtain r where r: "map_of (exRows sample_tables) ''exp'' = Some r" "erConsumed r = 1" "erReserved r = 1" "erReleased r = 1" "erMaxExecutions r = 2"
    by (auto simp: map_option_eq_Some)
  then show ?thesis using durable_ledger_balances [OF ok r(1)] by blast
qed

subsection \<open>A refusal keeps the connection\<close>

text \<open>A call of the control plane that needs the connection.\<close>

lemma held_waits:
  assumes "exHeld t"
  shows "ReserveExperiment fails i d now t = None" "ReleaseExperiment fails i d now t = None" "ConsumeExperiment fails i d now t = None"
    "durable_get j fails i t = None" "SaveExperimentAudit fails u t = None" "SaveExperimentAdmission fails i d payload t = None"
    "durable_update_summary j fails i f t = None"
  using assms
  by (simp_all add: ReserveExperiment_def ReleaseExperiment_def ConsumeExperiment_def durable_get_def GetExperimentRow_def SaveExperimentAudit_def
      SaveExperimentAdmission_def durable_update_summary_def UpdateExperiment_def on_connection_def)

lemma held_step: "exHeld t \<Longrightarrow> e \<noteq> LContextEnds \<Longrightarrow> table_step j e t = t"
  by (cases e) (auto simp: held_waits after_call_def durable_create_def durable_save_admission_def GetExperimentRow_def on_connection_def split: option.splits)

lemma held_run: "exHeld t \<Longrightarrow> LContextEnds \<notin> set es \<Longrightarrow> fold (table_step j) es t = t"
  by (induction es) (auto simp: held_step)

text \<open>A refused reservation never gives its transaction back: whatever is called afterwards, as long as the context of the
  refused call lasts, nothing is reserved, released, consumed, counted or recorded, and every such call, the audit entry of the refusal
  among them, does not return.\<close>
theorem refused_reservation_blocks_store:
  assumes "ReserveExperiment fails i did now t = Some (Inr False, t1)" and "LContextEnds \<notin> set es"
  shows "fold (table_step j) es t1 = t1 \<and> exRows t1 = exRows t \<and> exReservations t1 = exReservations t
    \<and> ReserveExperiment f2 i2 did2 now2 t1 = None \<and> ReleaseExperiment f2 i2 did2 now2 t1 = None \<and> ConsumeExperiment f2 i2 did2 now2 t1 = None
    \<and> durable_get j f2 i2 t1 = None \<and> SaveExperimentAudit f2 u t1 = None"
proof -
  have "exHeld t1" "exRows t1 = exRows t" "exReservations t1 = exReservations t"
    using assms(1) by (auto simp: ReserveExperiment_def on_connection_def split: if_splits option.splits)
  then show ?thesis using held_run [OF _ assms(2)] by (simp add: held_waits)
qed

theorem refused_reservation_blocks_store_witness:
  "\<exists>t1. ReserveExperiment False ''exp'' ''d4'' 6 (fold (table_step sample_json) (take 6 sample_calls) no_experiments) = Some (Inr False, t1)
     \<and> fold (table_step sample_json) (drop 7 sample_calls) t1 = t1"
proof -
  let ?t = "fold (table_step sample_json) (take 6 sample_calls) no_experiments"
  have "map_option (\<lambda>x. fst x = Inr False) (ReserveExperiment False ''exp'' ''d4'' 6 ?t) = Some True" by code_simp
  then obtain t1 where t1: "ReserveExperiment False ''exp'' ''d4'' 6 ?t = Some (Inr False, t1)"
    by (auto simp: map_option_eq_Some)
  have "LContextEnds \<notin> set (drop 7 sample_calls)" by code_simp
  from refused_reservation_blocks_store [OF t1 this] t1 show ?thesis by blast
qed

subsection \<open>Other differences from the store in memory\<close>

text \<open>A decision whose reservation was consumed or released is granted again without being counted, as long as the row is open.\<close>

lemma settled_decision_granted_again:
  assumes "\<not> exHeld t" and "map_of (exRows t) i = Some r" and "\<not> row_closed r" and "map_of (exReservations t) (i, did) = Some s"
  shows "ReserveExperiment False i did now t = Some (Inr True, t)"
  using assms by (simp add: ReserveExperiment_def on_connection_def)

text \<open>A consumed reservation never exhausts an experiment: \<open>StopAfterExecutions\<close> has no effect here.\<close>

lemma stop_after_not_honoured:
  "map_option (\<lambda>r. (erState r, erConsumed r)) (map_of (exRows sample_tables) ''exp'') = Some (ExperimentEnabled, 1)
   \<and> xdStopAfter (xpDef sample_trial) = 1"
  by code_simp

text \<open>A creation whose check cannot be read overwrites the ledger of a stored experiment.\<close>

lemma unread_creation_overwrites:
  "map_option (\<lambda>r. (erConsumed r, erReserved r)) (map_of (exRows (table_step sample_json (LCreate True False sample_trial)
      (fold (table_step sample_json) (take 6 sample_calls) no_experiments))) ''exp'') = Some (0, 0)"
  by code_simp

end
