(* ===== verification/Spec2Isabelle.thy ===== *)
theory Spec2Isabelle
  imports ReviewWire Coordinator MeshProps PublishProps OperationProps PeerProps Idempotency JobProps AssuranceProps Provenance McpProps Governance Inbox EventProps ReviewLoop MarketProps ExperimentTableProps
begin

text \<open>
  HarnessMesh, the verified part: the authority of Core over what agents propose, run, review and change.

  HarnessMesh lets several coding agents work on one repository. Agents and language models only propose; a
  deterministic Core (Go, \<open>src/internal\<close>) validates, authorizes, schedules, reserves budget, invokes, records evidence and
  gates changes. This library models that Core, part by part, and proves what its parts guarantee over all their
  interleavings and failures. Where the code does not keep what it promises, a theorem shows what it does instead.

  \<^bold>\<open>Parts and theories.\<close> Every operation is one definition of the name it has in Go; a record field carries a
  prefix for its record; a Go method that changes its receiver returns the new state.

  \<^item> \<open>Prelude\<close>: messages, error plumbing (\<open>guard_res\<close>, \<open>bind_res\<close>, \<open>err_then\<close>, \<open>first_err\<close>, \<open>fold_res\<close>), maps as association
    lists, iteration orders, and the locale \<open>state_machine\<close> that turns a step that keeps an invariant into
    one about runs. It is interpreted on every component below that has a state.
  \<^item> The supervisor boundary (\<open>internal/supervisor\<close>). \<open>SupTypes\<close> has the domain types and errors, \<open>DepGraph\<close> the two graph algorithms,
    \<open>Validate\<close> and \<open>Authorize\<close> the checks of proposals, \<open>CoreState\<close> the task graph with \<open>Apply\<close> and the locks, \<open>Adapter\<close> the
    live registry behind the directory, \<open>Execute\<close> the execution boundary, \<open>Schedule\<close> and \<open>Tick\<close> readiness, routing and one
    concurrent tick as a step relation over goroutines, \<open>Workflow\<close> the loop of plans and ticks, \<open>SupWire\<close> the decoding of
    model output. Shown: the graph stays acyclic and well formed, \<open>findCycle\<close> is correct and complete, only
    ready tasks of eligible agents run, at most as many as allowed, never two that conflict, and workflows end.
  \<^item> The review layer (\<open>internal/review\<close>). \<open>ReviewTypes\<close>, \<open>Evidence\<close>, \<open>ReviewState\<close> and \<open>ReviewWire\<close>: correlation of claims,
    the evidence store, the state with arbiter actions, and decoding. Shown: the invariant of the state under every
    interleaving, and that verdicts rest on independent fresh evidence.
  \<^item> The evaluation plane (\<open>internal/performance\<close>). \<open>Observe\<close> (observations and their life cycle), \<open>Advisor\<close> (aggregation and
    ranking), \<open>Experiment\<close> and \<open>Admission\<close> (control plane with its ledger in memory), \<open>ExperimentTables\<close> and \<open>ExperimentTableProps\<close> (the durable
    ledger of the SQLite store, with its transactions, and what it guarantees and does not), \<open>ShadowEval\<close> (challengers in the shadow, promotion gate),
    \<open>Replay\<close> (offline replay), \<open>Coordinator\<close> (the wiring with the scheduler and the review layer, which spans all three layers).
  \<^item> MeshCommit (\<open>meshcommit.go\<close>, the proof policy of \<open>config.go\<close>). \<open>ProofPolicy\<close>, \<open>MeshStore\<close>, \<open>MeshCommit\<close>, \<open>MeshGate\<close>, \<open>MeshProps\<close>:
    which proofs a change owes, the gate, and that only a verified tree is committed.
  \<^item> The collaboration engine (\<open>engine.go\<close>, \<open>space.go\<close>, \<open>activation.go\<close>, \<open>operations.go\<close>, \<open>eventbus.go\<close> and the methods of the SQLite store
    they use). \<open>SpaceStore\<close>, \<open>Spaces\<close>, \<open>Budget\<close>, \<open>BudgetLedger\<close>, \<open>Activation\<close>, \<open>RetryQueue\<close>, \<open>FindingStore\<close>, \<open>Operations\<close>,
    \<open>OperationProps\<close>, \<open>Economy\<close>, \<open>Publish\<close>, \<open>PublishProps\<close>, \<open>PeerCalls\<close>, \<open>Peers\<close>, \<open>PeerProps\<close>, \<open>Events\<close>, \<open>EventProps\<close>, \<open>Inbox\<close>.
    Spaces and their writer, budgets with reservations, who is activated by a message, what an invocation costs and
    when it is refused, retries, findings, reviews by peers, and events. Which store calls fail is an argument throughout; where the code takes a failing
    read for an absent row (channels in \<open>Publish\<close>, idempotency records in \<open>PeerCalls\<close>) or discards the error of a write (\<open>RetryQueue\<close>), so does the model.
    A panic of the event bus ends its run. Every invocation of a harness goes through
    \<open>Operations\<close>; publishing, peer operations and events share it and the budget.
  \<^item> Durable work. \<open>Jobs\<close> and \<open>JobProps\<close> (job table, workers, leases, webhooks, the workflow adapter), \<open>Idempotency\<close> (the cache of
    the bridge), \<open>ReviewLoop\<close> (the loop of an executor and a reviewer).
  \<^item> Assurance and supply chain. \<open>Assurance\<close> and \<open>AssuranceProps\<close> (policies, action firewall, content gate, runtime graph, signed evidence),
    \<open>Provenance\<close> (the chain of events), \<open>McpAccess\<close> and \<open>McpProps\<close> (registry and gateway of third-party tools, with every request its clients send), \<open>Governance\<close> (contracts, trust,
    credit isolation, certification), \<open>Plugins\<close>, \<open>Market\<close> and \<open>MarketProps\<close> (admission, resolution of dependencies, marketplace).
  \<^bold>\<open>How the code is represented.\<close>
  \<^item> A Go error is a value: \<open>option\<close> for a method that only returns an error, a sum with the error on the left otherwise. Errors that are
    compared or matched are datatypes, the rest are messages with their format and arguments; some texts are shortened.
  \<^item> A mutex makes a method one step. Where the code gives the mutex up between two parts, the model has two steps, and runs interleave them.
  \<^item> SQL tables are lists of rows in insertion order, queries filters and sorts over them. The PostgreSQL store repeats the statements of the
    SQLite store and is not modelled a second time. A failing store call is an answer of the environment.
  \<^item> The order in which Go walks a map is an argument of the definitions that walk one, and their theorems hold for every order.
  \<^item> Text functions (trimming, case), SHA-256, JSON, regular expressions, globs, URLs, base64 and signatures are arguments: the code takes them from
    the Go library, and nothing is assumed of them but what a theorem names.
    Comparison that ignores case is equality of lower-cased text.
  \<^item> Times are integers (nanoseconds or seconds as the code uses them), scores and costs are exact rationals where the code has \<open>float64\<close> (so
    equations about costs hold up to rounding), and counters are integers
    that do not wrap.
  \<^item> Agents, providers, the file system, git and the network answer through functions of the environment, which may depend on the number of the call and so
    answer differently each time.

  \<^bold>\<open>Bounds and fuel.\<close> The resolver of plugin dependencies has as much fuel as there are entries and two more, and \<open>resolution_terminates\<close> shows that this is always enough;
  the loop of executor and reviewer counts its rounds down from the configured maximum; a workflow runs at most the configured number of ticks, and
  \<open>workflow_run_correct\<close> shows that it returns. A tick is given an interleaving and finishes what that leaves open; that the code's wait group
  waits for exactly that is taken for granted. The search of \<open>findCycle\<close> ends because the set of unvisited tasks
  shrinks. All other loops are recursions over the lists they walk.

  \<^bold>\<open>Not modelled.\<close> The command line (\<open>cmd\<close>), the HTTP, MCP and A2A servers and the dashboard, which decode requests and call the operations above; adapters of agents and
  providers, which run processes and call network services; telemetry, reports, audit and progress events, which no decision reads; the PostgreSQL store and the
  migrations; discovery and projection of files of the repository; knowledge archives and code search; secrets and keychains; SDKs, the editor extension and the frontend.
  Each is listed with its reason in the manifest.
\<close>

end
